(* ===== verification/Prelude.thy ===== *)
theory Prelude
  imports Complex_Main "HOL-Library.AList" "HOL-Library.Char_ord" "HOL-Library.List_Lexorder"
begin

section \<open>Shared types, errors and automation\<close>

text \<open>
  What every component uses: identifiers and instants, JSON values, Python exceptions as
  values, dictionaries that keep their insertion order, and the lemma collections of the
  development.

  \<^item> A UUID is represented by its canonical text, what \<open>str()\<close> prints, so \<open>str\<close> is the
    identity on it and \<open>uuid.UUID(text)\<close> is \<open>uuid_parse\<close>.
  \<^item> A \<open>datetime\<close> is the number of microseconds since the epoch (its resolution); all
    instants of the code are in UTC.
  \<^item> A JSON value is a \<open>json\<close>. A string that \<open>datetime.fromisoformat\<close> accepts is
    represented by \<open>JStamp\<close> of the instant it denotes, every other string by \<open>JStr\<close>.
  \<^item> A Python \<open>dict\<close> with string keys is an association list in insertion order:
    \<open>AList.update\<close> overwrites in place or appends, \<open>AList.delete\<close> removes.
\<close>

type_synonym uuid = string
type_synonym time = int

definition seconds :: "int \<Rightarrow> time" where
  "seconds n = n * 1000000"

datatype json =
    JNull
  | JBool bool
  | JInt int
  | JFloat rat
  | JStr string
  | JStamp time
  | JArr "json list"
  | JObj "(string \<times> json) list"

type_synonym dict = "(string \<times> json) list"

text \<open>\<open>bool(x)\<close> of a JSON value, \<open>isinstance(x, dict)\<close> and the like.\<close>

fun truthy :: "json \<Rightarrow> bool" where
  "truthy JNull = False"
| "truthy (JBool b) = b"
| "truthy (JInt n) = (n \<noteq> 0)"
| "truthy (JFloat r) = (r \<noteq> 0)"
| "truthy (JStr s) = (s \<noteq> [])"
| "truthy (JStamp t) = True"
| "truthy (JArr xs) = (xs \<noteq> [])"
| "truthy (JObj kvs) = (kvs \<noteq> [])"

definition get_truthy :: "dict \<Rightarrow> string \<Rightarrow> bool" where
  "get_truthy d k = (case map_of d k of None \<Rightarrow> False | Some v \<Rightarrow> truthy v)"

fun dict_of :: "json option \<Rightarrow> dict option" where
  "dict_of (Some (JObj kvs)) = Some kvs"
| "dict_of _ = None"

fun list_of :: "json option \<Rightarrow> json list option" where
  "list_of (Some (JArr xs)) = Some xs"
| "list_of _ = None"

fun stamp_of :: "json \<Rightarrow> time option" where
  "stamp_of (JStamp t) = Some t"
| "stamp_of _ = None"

fun text_of :: "json \<Rightarrow> string option" where
  "text_of (JStr s) = Some s"
| "text_of _ = None"

definition opt_str :: "string option \<Rightarrow> json" where
  "opt_str x = (case x of None \<Rightarrow> JNull | Some s \<Rightarrow> JStr s)"

subsection \<open>Text\<close>

definition is_space :: "char \<Rightarrow> bool" where
  "is_space c = (c \<in> {CHR '' '', CHR 0x09, CHR 0x0A, CHR 0x0B, CHR 0x0C, CHR 0x0D})"

text \<open>\<open>str.strip()\<close> on ASCII text.\<close>

definition strip :: "string \<Rightarrow> string" where
  "strip s = rev (dropWhile is_space (rev (dropWhile is_space s)))"

fun starts_with :: "string \<Rightarrow> string \<Rightarrow> bool" where
  "starts_with s [] = True"
| "starts_with [] (p # ps) = False"
| "starts_with (c # cs) (p # ps) = (c = p \<and> starts_with cs ps)"

text \<open>\<open>p in s\<close> of texts.\<close>

fun contains_text :: "string \<Rightarrow> string \<Rightarrow> bool" where
  "contains_text s p \<longleftrightarrow> starts_with s p \<or> (case s of [] \<Rightarrow> False | _ # cs \<Rightarrow> contains_text cs p)"

declare contains_text.simps [simp del]

fun nat_digits :: "nat \<Rightarrow> string" where
  "nat_digits n =
     (if n < 10 then [char_of (48 + n)] else nat_digits (n div 10) @ [char_of (48 + n mod 10)])"

declare nat_digits.simps [simp del]

definition int_text :: "int \<Rightarrow> string" where
  "int_text n = (if n < 0 then CHR ''-'' # nat_digits (nat (- n)) else nat_digits (nat n))"

text \<open>\<open>str()\<close> of the values that are used as keys.\<close>

fun key_text :: "json \<Rightarrow> string option" where
  "key_text (JStr s) = Some s"
| "key_text (JInt n) = Some (int_text n)"
| "key_text (JBool b) = Some (if b then ''True'' else ''False'')"
| "key_text JNull = Some ''None''"
| "key_text _ = None"

definition is_hex :: "char \<Rightarrow> bool" where
  "is_hex c = (c \<in> set ''0123456789abcdef'')"

definition hex_lower :: "char \<Rightarrow> char" where
  "hex_lower c =
     (case map_of (zip ''ABCDEF'' ''abcdef'') c of None \<Rightarrow> c | Some l \<Rightarrow> l)"

text \<open>\<open>str.lower()\<close> of ASCII text.\<close>

definition lower_char :: "char \<Rightarrow> char" where
  "lower_char c = (if 65 \<le> (of_char c :: nat) \<and> (of_char c :: nat) \<le> 90 then char_of ((of_char c :: nat) + 32) else c)"

definition lower_text :: "string \<Rightarrow> string" where
  "lower_text s = map lower_char s"

text \<open>
  \<open>uuid.UUID(text)\<close> for texts made of hexadecimal digits, dashes and braces: dashes and
  outer braces are dropped, 32 digits must remain, and the canonical text is
  rebuilt from them. None is the \<open>ValueError\<close>.
\<close>

definition uuid_parse :: "string \<Rightarrow> uuid option" where
  "uuid_parse s =
     (let brace = (\<lambda>c. c = CHR ''{'' \<or> c = CHR ''}'');
          inner = rev (dropWhile brace (rev (dropWhile brace s)));
          h = map hex_lower (filter (\<lambda>c. c \<noteq> CHR ''-'') inner)
      in if length h = 32 \<and> list_all is_hex h
         then Some (take 8 h @ ''-'' @ take 4 (drop 8 h) @ ''-'' @ take 4 (drop 12 h) @ ''-'' @
                    take 4 (drop 16 h) @ ''-'' @ drop 20 h)
         else None)"

definition is_uuid :: "string \<Rightarrow> bool" where
  "is_uuid s \<longleftrightarrow> uuid_parse s = Some s"

text \<open>\<open>uuid.UUID(str(value))\<close>: only the texts of strings and integers can be UUIDs.\<close>

fun uuid_of_json :: "json \<Rightarrow> uuid option" where
  "uuid_of_json (JStr s) = uuid_parse s"
| "uuid_of_json (JInt n) = uuid_parse (int_text n)"
| "uuid_of_json _ = None"

subsection \<open>Exceptions as values\<close>

text \<open>
  One constructor per exception type the modelled code raises; \<open>InvalidTransition\<close>
  carries what the message of \<open>InvalidTransitionError\<close> prints (kind, source, target and
  the sorted list of allowed targets). It is a subclass of \<open>ValueError\<close>.
\<close>

datatype exn =
    ValueError string
  | RuntimeError string
  | KeyError string
  | InvalidTransition string string string "string list"
  | RedisProtocolError string
  | AssertionError string
  | TypeError string
  | AttributeError string

type_synonym 'a result = "exn + 'a"

fun is_value_error :: "exn \<Rightarrow> bool" where
  "is_value_error (ValueError _) = True"
| "is_value_error (InvalidTransition _ _ _ _) = True"
| "is_value_error _ = False"

text \<open>\<open>str(exc)\<close>, as the messages that wrap an exception print it.\<close>

definition quoted :: "string \<Rightarrow> string" where
  "quoted s = CHR 0x27 # s @ [CHR 0x27]"

fun comma_list :: "string list \<Rightarrow> string" where
  "comma_list [] = []"
| "comma_list [x] = quoted x"
| "comma_list (x # y # xs) = quoted x @ '', '' @ comma_list (y # xs)"

definition list_text :: "string list \<Rightarrow> string" where
  "list_text xs = ''['' @ comma_list xs @ '']''"

fun exn_text :: "exn \<Rightarrow> string" where
  "exn_text (ValueError s) = s"
| "exn_text (RuntimeError s) = s"
| "exn_text (KeyError k) = quoted k"
| "exn_text (RedisProtocolError s) = s"
| "exn_text (AssertionError s) = s"
| "exn_text (TypeError s) = s"
| "exn_text (AttributeError s) = s"
| "exn_text (InvalidTransition kind s t ts) =
     ''Invalid '' @ kind @ '' transition: '' @ quoted s @ '' -> '' @ quoted t @
       ''. Allowed from '' @ quoted s @ '': '' @ list_text ts"

definition raises :: "'a result \<Rightarrow> bool" where
  "raises r \<longleftrightarrow> (case r of Inl _ \<Rightarrow> True | Inr _ \<Rightarrow> False)"

definition bind_result :: "'a result \<Rightarrow> ('a \<Rightarrow> 'b result) \<Rightarrow> 'b result" where
  "bind_result r f = (case r of Inl e \<Rightarrow> Inl e | Inr x \<Rightarrow> f x)"

subsection \<open>Lemma collections and generic lemmas\<close>

named_theorems dict_simps \<open>lookups in updated and shrunk dictionaries\<close>
named_theorems frame_simps \<open>fields an operation leaves alone\<close>

lemma map_of_update [simp, dict_simps]:
  "map_of (AList.update k v al) = (map_of al)(k \<mapsto> v)"
  by (simp add: update_conv')

lemma map_of_delete [simp, dict_simps]:
  "map_of (AList.delete k al) = (map_of al)(k := None)"
  by (simp add: delete_conv')

lemma raises_simps [simp]: "raises (Inl e)" "\<not> raises (Inr x)"
  by (simp_all add: raises_def)

lemma bind_result_simps [simp]:
  "bind_result (Inl e) f = Inl e" "bind_result (Inr x) f = f x"
  by (simp_all add: bind_result_def)

lemma bind_result_Inr: "bind_result r f = Inr y \<longleftrightarrow> (\<exists>x. r = Inr x \<and> f x = Inr y)"
  by (cases r) simp_all

lemma truthy_get_None [simp]: "map_of d k = None \<Longrightarrow> \<not> get_truthy d k"
  by (simp add: get_truthy_def)

lemma starts_with_append [simp]: "starts_with (p @ s) p"
  by (induction p) auto

lemma starts_with_iff: "starts_with s p \<longleftrightarrow> (\<exists>r. s = p @ r)"
proof (induction s p rule: starts_with.induct)
  case (3 c cs p ps)
  then show ?case by auto
qed auto

lemma filter_fst_map_of:
  "map_of (filter (\<lambda>(k, v). P k) al) x = (if P x then map_of al x else None)"
  by (induction al) auto

lemma dropWhile_Cons_in: "dropWhile P xs = y # ys \<Longrightarrow> y \<in> set xs \<and> \<not> P y"
  by (metis dropWhile_eq_Cons_conv in_set_conv_decomp)

lemma hex_lower_id: "is_hex c \<Longrightarrow> hex_lower c = c"
  by (auto simp: is_hex_def hex_lower_def)

lemma hex_plain: "is_hex c \<Longrightarrow> c \<noteq> CHR ''-'' \<and> c \<noteq> CHR ''{'' \<and> c \<noteq> CHR ''}''"
  by (auto simp: is_hex_def)

lemma uuid_parse_canonical:
  assumes "uuid_parse s = Some u"
  shows "is_uuid u"
proof -
  let ?brace = "\<lambda>c. c = CHR ''{'' \<or> c = CHR ''}''"
  define h where "h = map hex_lower (filter (\<lambda>c. c \<noteq> CHR ''-'') (rev (dropWhile ?brace (rev (dropWhile ?brace s)))))"
  from assms have h: "length h = 32" "list_all is_hex h"
    and u: "u = take 8 h @ ''-'' @ take 4 (drop 8 h) @ ''-'' @ take 4 (drop 12 h) @ ''-'' @
                    take 4 (drop 16 h) @ ''-'' @ drop 20 h"
    unfolding uuid_parse_def Let_def h_def by (simp_all only: option.inject option.distinct split: if_splits)
  have nb: "\<forall>c \<in> set u. \<not> ?brace c"
    using h(2) hex_plain unfolding u by (auto simp: list_all_iff dest!: in_set_takeD in_set_dropD)
  have strip: "dropWhile ?brace xs = xs" if "\<forall>c \<in> set xs. \<not> ?brace c" for xs
    using that by (cases xs) auto
  have inner: "rev (dropWhile ?brace (rev (dropWhile ?brace u))) = u"
    using nb by (simp add: strip)
  have keep: "filter (\<lambda>c. c \<noteq> CHR ''-'') xs = xs" if "set xs \<subseteq> set h" for xs
    using that h(2) hex_plain by (intro filter_True) (auto simp: list_all_iff)
  have "filter (\<lambda>c. c \<noteq> CHR ''-'') u =
      take 8 h @ take 4 (drop 8 h) @ take 4 (drop 12 h) @ take 4 (drop 16 h) @ drop 20 h"
    unfolding u by (simp add: keep set_take_subset set_drop_subset order_trans [OF set_take_subset set_drop_subset])
  also have "\<dots> = h"
  proof -
    have "drop 16 h = take 4 (drop 16 h) @ drop 20 h" "drop 12 h = take 4 (drop 12 h) @ drop 16 h"
      "drop 8 h = take 4 (drop 8 h) @ drop 12 h"
      using append_take_drop_id [of 4 "drop 16 h"] append_take_drop_id [of 4 "drop 12 h"]
        append_take_drop_id [of 4 "drop 8 h"] by simp_all
    then show ?thesis by (metis append_take_drop_id)
  qed
  finally have digits: "map hex_lower (filter (\<lambda>c. c \<noteq> CHR ''-'') u) = h"
    using h(2) by (simp add: list_all_iff hex_lower_id map_idI)
  have "uuid_parse u = (if length h = 32 \<and> list_all is_hex h
         then Some (take 8 h @ ''-'' @ take 4 (drop 8 h) @ ''-'' @ take 4 (drop 12 h) @ ''-'' @
                    take 4 (drop 16 h) @ ''-'' @ drop 20 h)
         else None)"
    by (simp only: uuid_parse_def Let_def inner digits)
  then show ?thesis using h u by (simp add: is_uuid_def)
qed

lemma uuid_of_json_canonical: "uuid_of_json v = Some u \<Longrightarrow> is_uuid u"
  by (cases v) (auto intro: uuid_parse_canonical)

lemma list_all_filterI [intro]: "list_all P xs \<Longrightarrow> list_all P (filter Q xs)"
  by (auto simp: list_all_iff)

lemma list_all_find: "list_all P xs \<Longrightarrow> find Q xs = Some x \<Longrightarrow> P x"
  by (auto simp: list_all_iff find_Some_iff)

lemma list_all_delete [intro]: "list_all P al \<Longrightarrow> list_all P (AList.delete k al)"
  by (auto simp: list_all_iff AList.delete_eq)

lemma list_all_update: "list_all P al \<Longrightarrow> P (k, v) \<Longrightarrow> list_all P (AList.update k v al)"
  by (induction al) auto

lemma delete_absent [simp]: "map_of al k = None \<Longrightarrow> AList.delete k al = al"
  by (metis delete_id map_of_eq_None_iff)

end
