(* ===== verification/StateMachine.thy ===== *)
theory StateMachine
  imports Prelude
begin

section \<open>Lifecycle states and the central transition validator\<close>

text \<open>
  \<open>backend/domain/enums.py\<close>, \<open>backend/runtime/state_machine.py\<close> and
  \<open>backend/runtime/transitions.py\<close>: the state enumerations, the tables of legal
  transitions with the validator \<open>StateMachine._ensure\<close> over them, and the six
  \<open>transition_*\<close> functions that are the only writers of a status in the runtime.
  A status column holds one of the enumeration's values (a check constraint of the
  migrations), so a status is the enumeration here; \<open>*_value\<close> gives its stored text.
\<close>

subsection \<open>Enumerations\<close>

datatype mission_state =
  MPlanned | MApproved | MQueued | MRunning | MPaused | MCompleted | MFailed | MCancelled | MArchived

datatype task_state =
    TPlanned | TQueued | TClaimed | TRunning | TRecovering | TBlocked | TCompleted | TFailed
  | TCancelled | TDeadLettered | TPendingReview

datatype fleet_state =
  FPlanned | FProvisioning | FReady | FRunning | FPaused | FCompleted | FFailed | FRetired

datatype agent_state =
  APlanned | AProvisioned | AAssigned | ARunning | APaused | ACompleted | AFailed | ARetired

datatype branch_state =
  BOpen | BRunning | BSelected | BSuperseded | BFailed | BClosed

datatype lease_state =
  LClaimed | LActive | LExpired | LReleased

primrec mission_value :: "mission_state \<Rightarrow> string" where
  "mission_value MPlanned = ''planned''"
| "mission_value MApproved = ''approved''"
| "mission_value MQueued = ''queued''"
| "mission_value MRunning = ''running''"
| "mission_value MPaused = ''paused''"
| "mission_value MCompleted = ''completed''"
| "mission_value MFailed = ''failed''"
| "mission_value MCancelled = ''cancelled''"
| "mission_value MArchived = ''archived''"

primrec task_value :: "task_state \<Rightarrow> string" where
  "task_value TPlanned = ''planned''"
| "task_value TQueued = ''queued''"
| "task_value TClaimed = ''claimed''"
| "task_value TRunning = ''running''"
| "task_value TRecovering = ''recovering''"
| "task_value TBlocked = ''blocked''"
| "task_value TCompleted = ''completed''"
| "task_value TFailed = ''failed''"
| "task_value TCancelled = ''cancelled''"
| "task_value TDeadLettered = ''dead_lettered''"
| "task_value TPendingReview = ''pending_review''"

primrec fleet_value :: "fleet_state \<Rightarrow> string" where
  "fleet_value FPlanned = ''planned''"
| "fleet_value FProvisioning = ''provisioning''"
| "fleet_value FReady = ''ready''"
| "fleet_value FRunning = ''running''"
| "fleet_value FPaused = ''paused''"
| "fleet_value FCompleted = ''completed''"
| "fleet_value FFailed = ''failed''"
| "fleet_value FRetired = ''retired''"

primrec agent_value :: "agent_state \<Rightarrow> string" where
  "agent_value APlanned = ''planned''"
| "agent_value AProvisioned = ''provisioned''"
| "agent_value AAssigned = ''assigned''"
| "agent_value ARunning = ''running''"
| "agent_value APaused = ''paused''"
| "agent_value ACompleted = ''completed''"
| "agent_value AFailed = ''failed''"
| "agent_value ARetired = ''retired''"

primrec branch_value :: "branch_state \<Rightarrow> string" where
  "branch_value BOpen = ''open''"
| "branch_value BRunning = ''running''"
| "branch_value BSelected = ''selected''"
| "branch_value BSuperseded = ''superseded''"
| "branch_value BFailed = ''failed''"
| "branch_value BClosed = ''closed''"

primrec lease_value :: "lease_state \<Rightarrow> string" where
  "lease_value LClaimed = ''claimed''"
| "lease_value LActive = ''active''"
| "lease_value LExpired = ''expired''"
| "lease_value LReleased = ''released''"

subsection \<open>Transition tables\<close>

type_synonym 's table = "('s \<times> 's list) list"

definition mission_allowed :: "mission_state table" where
  "mission_allowed =
    [(MPlanned, [MApproved, MRunning, MCancelled, MCompleted, MFailed]),
     (MApproved, [MQueued, MRunning, MCancelled]),
     (MQueued, [MRunning, MCancelled]),
     (MRunning, [MPaused, MCompleted, MFailed, MCancelled]),
     (MPaused, [MRunning]),
     (MCompleted, [MArchived]),
     (MFailed, [MRunning, MArchived]),
     (MCancelled, [MArchived])]"

definition fleet_allowed :: "fleet_state table" where
  "fleet_allowed =
    [(FPlanned, [FProvisioning]),
     (FProvisioning, [FReady]),
     (FReady, [FRunning]),
     (FRunning, [FPaused, FCompleted, FFailed]),
     (FPaused, [FRunning]),
     (FCompleted, [FRetired]),
     (FFailed, [FRetired])]"

definition agent_allowed :: "agent_state table" where
  "agent_allowed =
    [(APlanned, [AProvisioned]),
     (AProvisioned, [AAssigned]),
     (AAssigned, [ARunning]),
     (ARunning, [APaused, ACompleted, AFailed]),
     (APaused, [ARunning]),
     (ACompleted, [ARetired]),
     (AFailed, [ARetired])]"

definition task_allowed :: "task_state table" where
  "task_allowed =
    [(TPlanned, [TQueued, TPendingReview, TCancelled, TBlocked]),
     (TQueued, [TClaimed, TCancelled, TBlocked]),
     (TClaimed, [TQueued, TRunning, TCancelled, TBlocked, TDeadLettered]),
     (TRunning, [TBlocked, TCompleted, TFailed, TRecovering]),
     (TRecovering, [TQueued, TDeadLettered]),
     (TBlocked, [TQueued]),
     (TFailed, [TQueued, TPendingReview, TDeadLettered]),
     (TDeadLettered, [TQueued, TPendingReview]),
     (TPendingReview, [TQueued, TCancelled, TFailed])]"

definition branch_allowed :: "branch_state table" where
  "branch_allowed =
    [(BOpen, [BRunning]),
     (BRunning, [BSelected, BSuperseded, BFailed]),
     (BSelected, [BClosed]),
     (BSuperseded, [BClosed]),
     (BFailed, [BClosed])]"

definition lease_allowed :: "lease_state table" where
  "lease_allowed =
    [(LClaimed, [LActive, LExpired]),
     (LActive, [LReleased, LExpired]),
     (LExpired, [LReleased])]"

subsection \<open>The validator\<close>

text \<open>\<open>allowed.get(source, set())\<close> and \<open>StateMachine._ensure\<close>.\<close>

definition targets :: "'s table \<Rightarrow> 's \<Rightarrow> 's list" where
  "targets allowed source = (case map_of allowed source of None \<Rightarrow> [] | Some ts \<Rightarrow> ts)"

definition ensure_allowed ::
  "('s \<Rightarrow> string) \<Rightarrow> 's table \<Rightarrow> 's \<Rightarrow> 's \<Rightarrow> string \<Rightarrow> unit result" where
  "ensure_allowed val allowed source target kind =
     (if target \<notin> set (targets allowed source)
      then Inl (InvalidTransition kind (val source) (val target)
                  (sort (map val (targets allowed source))))
      else Inr ())"

definition ensure_mission_transition :: "mission_state \<Rightarrow> mission_state \<Rightarrow> unit result" where
  "ensure_mission_transition s t = ensure_allowed mission_value mission_allowed s t ''mission''"

definition ensure_fleet_transition :: "fleet_state \<Rightarrow> fleet_state \<Rightarrow> unit result" where
  "ensure_fleet_transition s t = ensure_allowed fleet_value fleet_allowed s t ''fleet''"

definition ensure_agent_transition :: "agent_state \<Rightarrow> agent_state \<Rightarrow> unit result" where
  "ensure_agent_transition s t = ensure_allowed agent_value agent_allowed s t ''agent''"

definition ensure_task_transition :: "task_state \<Rightarrow> task_state \<Rightarrow> unit result" where
  "ensure_task_transition s t = ensure_allowed task_value task_allowed s t ''task''"

definition ensure_branch_transition :: "branch_state \<Rightarrow> branch_state \<Rightarrow> unit result" where
  "ensure_branch_transition s t = ensure_allowed branch_value branch_allowed s t ''branch''"

definition ensure_lease_transition :: "lease_state \<Rightarrow> lease_state \<Rightarrow> unit result" where
  "ensure_lease_transition s t = ensure_allowed lease_value lease_allowed s t ''lease''"

end
