(* ===== verification/Domain.thy ===== *)
theory Domain
  imports StateMachine
begin

section \<open>Persistent entities of the runtime\<close>

text \<open>
  The rows the runtime reads and writes: \<open>ExecutionTask\<close>, \<open>Mission\<close>, \<open>WorkerLease\<close>,
  \<open>ExecutionBranch\<close>, \<open>UserWorkforceAgent\<close>, \<open>WorkforceFleet\<close>, \<open>AuditEvent\<close> and
  \<open>GovernanceEvent\<close> of \<open>backend/domain\<close>, one record each with the columns of the table,
  and the \<open>transition_*\<close> functions of \<open>backend/runtime/transitions.py\<close> over them.
  The surrogate ids of audit and governance rows are never read and are left out.
\<close>

record execution_task =
  t_id :: uuid
  t_tenant_id :: string
  t_mission_id :: "uuid option"
  t_fleet_id :: "uuid option"
  t_branch_id :: "uuid option"
  t_assigned_agent_id :: "uuid option"
  t_title :: string
  t_description :: string
  t_status :: task_state
  t_metadata :: dict
  t_compliance_category :: string
  t_jurisdiction :: string
  t_requires_human_review :: bool
  t_compliance_metadata :: dict
  t_retry_count :: int
  t_created_at :: time
  t_updated_at :: time

record mission =
  m_id :: uuid
  m_tenant_id :: string
  m_objective :: string
  m_status :: mission_state
  m_compliance_category :: string
  m_jurisdiction :: string
  m_metadata :: dict
  m_created_at :: time
  m_updated_at :: time

record worker_lease =
  l_id :: uuid
  l_tenant_id :: string
  l_task_id :: uuid
  l_status :: lease_state
  l_holder_identity :: string
  l_heartbeat_at :: "time option"
  l_metadata :: dict
  l_created_at :: time
  l_updated_at :: time

record execution_branch =
  b_id :: uuid
  b_tenant_id :: string
  b_mission_id :: uuid
  b_parent_branch_id :: "uuid option"
  b_status :: branch_state
  b_reason :: "string option"
  b_metadata :: dict
  b_created_at :: time

record workforce_agent =
  a_id :: uuid
  a_tenant_id :: string
  a_mission_id :: uuid
  a_fleet_id :: uuid
  a_display_name :: string
  a_role_name :: string
  a_status :: agent_state
  a_metadata :: dict
  a_created_at :: time
  a_updated_at :: time

record workforce_fleet =
  f_id :: uuid
  f_tenant_id :: string
  f_mission_id :: uuid
  f_name :: string
  f_status :: fleet_state
  f_metadata :: dict
  f_created_at :: time
  f_updated_at :: time

record audit_event =
  ae_tenant_id :: string
  ae_mission_id :: "uuid option"
  ae_category :: string
  ae_action :: string
  ae_actor :: string
  ae_details :: string
  ae_payload :: dict
  ae_created_at :: time

record governance_event =
  ge_tenant_id :: string
  ge_mission_id :: "uuid option"
  ge_event_type :: string
  ge_actor :: string
  ge_decision :: string
  ge_payload :: dict
  ge_created_at :: time

subsection \<open>The transition functions\<close>

definition transition_task :: "execution_task \<Rightarrow> task_state \<Rightarrow> execution_task result" where
  "transition_task task target =
     bind_result (ensure_task_transition (t_status task) target)
       (\<lambda>_. Inr (task\<lparr>t_status := target\<rparr>))"

definition transition_mission :: "mission \<Rightarrow> mission_state \<Rightarrow> mission result" where
  "transition_mission m target =
     bind_result (ensure_mission_transition (m_status m) target)
       (\<lambda>_. Inr (m\<lparr>m_status := target\<rparr>))"

definition transition_fleet :: "workforce_fleet \<Rightarrow> fleet_state \<Rightarrow> workforce_fleet result" where
  "transition_fleet f target =
     bind_result (ensure_fleet_transition (f_status f) target)
       (\<lambda>_. Inr (f\<lparr>f_status := target\<rparr>))"

definition transition_agent :: "workforce_agent \<Rightarrow> agent_state \<Rightarrow> workforce_agent result" where
  "transition_agent a target =
     bind_result (ensure_agent_transition (a_status a) target)
       (\<lambda>_. Inr (a\<lparr>a_status := target\<rparr>))"

definition transition_branch :: "execution_branch \<Rightarrow> branch_state \<Rightarrow> execution_branch result" where
  "transition_branch b target =
     bind_result (ensure_branch_transition (b_status b) target)
       (\<lambda>_. Inr (b\<lparr>b_status := target\<rparr>))"

definition transition_lease :: "worker_lease \<Rightarrow> lease_state \<Rightarrow> worker_lease result" where
  "transition_lease l target =
     bind_result (ensure_lease_transition (l_status l) target)
       (\<lambda>_. Inr (l\<lparr>l_status := target\<rparr>))"

subsection \<open>Characteristic rules\<close>

lemma ensure_allowed_Inr [simp]:
  "ensure_allowed val tab s t k = Inr () \<longleftrightarrow> t \<in> set (targets tab s)"
  by (simp add: ensure_allowed_def)

lemma ensure_allowed_raises [simp]:
  "raises (ensure_allowed val tab s t k) \<longleftrightarrow> t \<notin> set (targets tab s)"
  by (simp add: ensure_allowed_def)

lemma ensure_allowed_if:
  "ensure_allowed val tab s t k =
     (if t \<in> set (targets tab s) then Inr ()
      else Inl (InvalidTransition k (val s) (val t) (sort (map val (targets tab s)))))"
  by (simp add: ensure_allowed_def)

lemma transition_task_Inr:
  "transition_task task s = Inr task' \<longleftrightarrow>
     s \<in> set (targets task_allowed (t_status task)) \<and> task' = task\<lparr>t_status := s\<rparr>"
  by (auto simp: transition_task_def ensure_task_transition_def bind_result_Inr ensure_allowed_if
      split: if_splits)

lemma transition_lease_Inr:
  "transition_lease l s = Inr l' \<longleftrightarrow>
     s \<in> set (targets lease_allowed (l_status l)) \<and> l' = l\<lparr>l_status := s\<rparr>"
  by (auto simp: transition_lease_def ensure_lease_transition_def bind_result_Inr ensure_allowed_if
      split: if_splits)

lemma transition_mission_Inr:
  "transition_mission m s = Inr m' \<longleftrightarrow>
     s \<in> set (targets mission_allowed (m_status m)) \<and> m' = m\<lparr>m_status := s\<rparr>"
  by (auto simp: transition_mission_def ensure_mission_transition_def bind_result_Inr ensure_allowed_if
      split: if_splits)

lemma transition_task_Inl:
  "transition_task task s = Inl e \<Longrightarrow> is_value_error e \<and> s \<notin> set (targets task_allowed (t_status task))"
  by (auto simp: transition_task_def ensure_task_transition_def ensure_allowed_if split: if_splits)

lemmas transition_Inr = transition_task_Inr transition_lease_Inr transition_mission_Inr

lemma task_targets [simp]:
  "targets task_allowed TPlanned = [TQueued, TPendingReview, TCancelled, TBlocked]"
  "targets task_allowed TQueued = [TClaimed, TCancelled, TBlocked]"
  "targets task_allowed TClaimed = [TQueued, TRunning, TCancelled, TBlocked, TDeadLettered]"
  "targets task_allowed TRunning = [TBlocked, TCompleted, TFailed, TRecovering]"
  "targets task_allowed TRecovering = [TQueued, TDeadLettered]"
  "targets task_allowed TBlocked = [TQueued]"
  "targets task_allowed TFailed = [TQueued, TPendingReview, TDeadLettered]"
  "targets task_allowed TDeadLettered = [TQueued, TPendingReview]"
  "targets task_allowed TPendingReview = [TQueued, TCancelled, TFailed]"
  "targets task_allowed TCompleted = []"
  "targets task_allowed TCancelled = []"
  by (simp_all add: targets_def task_allowed_def)

lemma lease_targets [simp]:
  "targets lease_allowed LClaimed = [LActive, LExpired]"
  "targets lease_allowed LActive = [LReleased, LExpired]"
  "targets lease_allowed LExpired = [LReleased]"
  "targets lease_allowed LReleased = []"
  by (simp_all add: targets_def lease_allowed_def)

lemma mission_targets [simp]:
  "targets mission_allowed MPlanned = [MApproved, MRunning, MCancelled, MCompleted, MFailed]"
  "targets mission_allowed MApproved = [MQueued, MRunning, MCancelled]"
  "targets mission_allowed MQueued = [MRunning, MCancelled]"
  "targets mission_allowed MRunning = [MPaused, MCompleted, MFailed, MCancelled]"
  "targets mission_allowed MPaused = [MRunning]"
  "targets mission_allowed MCompleted = [MArchived]"
  "targets mission_allowed MFailed = [MRunning, MArchived]"
  "targets mission_allowed MCancelled = [MArchived]"
  "targets mission_allowed MArchived = []"
  by (simp_all add: targets_def mission_allowed_def)

subsection \<open>Histories of a task\<close>

text \<open>
  A step of a task is one successful \<open>transition_task\<close>; a history is the list of the
  states it went through. \<open>task_history\<close> is the set of histories from a fresh row
  (the column default is \<open>planned\<close>).
\<close>

inductive task_history :: "execution_task \<Rightarrow> task_state list \<Rightarrow> bool" where
  created: "t_status task = TPlanned \<Longrightarrow> task_history task [TPlanned]"
| moved: "task_history task hs \<Longrightarrow> transition_task task s = Inr task' \<Longrightarrow>
    task_history task' (hs @ [s])"

inductive_cases task_historyE: "task_history task hs"

lemma task_history_last: "task_history task hs \<Longrightarrow> hs \<noteq> [] \<and> last hs = t_status task"
  by (induction rule: task_history.induct) (auto simp: transition_task_Inr)

lemma task_history_init:
  assumes "task_history task hs" and "t_status task \<noteq> TPlanned"
  obtains task0 where "task_history task0 (butlast hs)"
    and "t_status task \<in> set (targets task_allowed (t_status task0))"
    and "hs = butlast hs @ [t_status task]"
  using assms
proof (cases rule: task_history.cases)
  case (moved task0 hs0 s)
  then show ?thesis using that by (auto simp: transition_task_Inr)
qed (use assms in simp)

lemma task_pred:
  "s \<in> set (targets task_allowed s') \<Longrightarrow>
     (s = TRunning \<longrightarrow> s' = TClaimed) \<and> (s = TClaimed \<longrightarrow> s' = TQueued) \<and>
     (s = TCompleted \<longrightarrow> s' = TRunning) \<and> (s = TRecovering \<longrightarrow> s' = TRunning)"
  by (cases s') auto

text \<open>
  C15. No execution without admission and claim: whenever a task is running, the last
  three states of its history are queued, claimed, running, whatever happened before
  (retries, reviews, dead-lettering); no sequence of legal transitions reaches
  \<open>running\<close> by another route.
\<close>

theorem running_was_queued_and_claimed:
  assumes "task_history task hs" and "t_status task = TRunning"
  shows "\<exists>pre. hs = pre @ [TQueued, TClaimed, TRunning]"
proof -
  obtain t1 where 1: "task_history t1 (butlast hs)" "hs = butlast hs @ [TRunning]" "t_status t1 = TClaimed"
    using task_history_init [OF assms(1)] assms(2) task_pred by (metis task_state.distinct(5))
  obtain t2 where 2: "task_history t2 (butlast (butlast hs))" "t_status t2 = TQueued"
      "butlast hs = butlast (butlast hs) @ [TClaimed]"
    using task_history_init [OF 1(1)] 1(3) task_pred by (metis task_state.distinct(3))
  have "butlast (butlast hs) = butlast (butlast (butlast hs)) @ [TQueued]"
    using task_history_last [OF 2(1)] 2(2) by (metis append_butlast_last_id)
  then show ?thesis using 1(2) 2(3) by (metis append.assoc append_Cons append_Nil)
qed

definition example_task :: "task_state \<Rightarrow> execution_task" where
  "example_task s =
     \<lparr>t_id = ''t1'', t_tenant_id = ''acme'', t_mission_id = None, t_fleet_id = None,
      t_branch_id = None, t_assigned_agent_id = None, t_title = ''title'',
      t_description = ''d'', t_status = s, t_metadata = [], t_compliance_category = ''operational'',
      t_jurisdiction = ''US-ALL'', t_requires_human_review = False, t_compliance_metadata = [],
      t_retry_count = 0, t_created_at = 0, t_updated_at = 0\<rparr>"

lemma example_task_simps [simp]: "t_status (example_task s) = s"
  "example_task s\<lparr>t_status := s'\<rparr> = example_task s'"
  by (simp_all add: example_task_def)

lemma example_history:
  "task_history (example_task TRunning) [TPlanned, TQueued, TClaimed, TRunning]"
proof -
  have "task_history (example_task TPlanned) [TPlanned]"
    by (rule task_history.created) simp
  then have "task_history (example_task TQueued) ([TPlanned] @ [TQueued])"
    by (rule task_history.moved) (simp add: transition_task_Inr)
  then have "task_history (example_task TClaimed) (([TPlanned] @ [TQueued]) @ [TClaimed])"
    by (rule task_history.moved) (simp add: transition_task_Inr)
  then have "task_history (example_task TRunning) ((([TPlanned] @ [TQueued]) @ [TClaimed]) @ [TRunning])"
    by (rule task_history.moved) (simp add: transition_task_Inr)
  then show ?thesis by simp
qed

theorem running_was_queued_and_claimed_witness:
  "\<exists>pre. [TPlanned, TQueued, TClaimed, TRunning] = pre @ [TQueued, TClaimed, TRunning]"
  by (rule running_was_queued_and_claimed [OF example_history]) simp

subsection \<open>Dead ends and leases\<close>

definition task_moves :: "(task_state \<times> task_state) set" where
  "task_moves = {(a, b). b \<in> set (targets task_allowed a)}"

lemma task_moves_targets: "(a, b) \<in> task_moves \<longleftrightarrow> b \<in> set (targets task_allowed a)"
  by (simp add: task_moves_def)

lemma task_moves_route:
  "(TPlanned, TQueued) \<in> task_moves" "(TPendingReview, TQueued) \<in> task_moves"
  "(TBlocked, TQueued) \<in> task_moves" "(TFailed, TQueued) \<in> task_moves"
  "(TDeadLettered, TQueued) \<in> task_moves" "(TRecovering, TQueued) \<in> task_moves"
  "(TQueued, TClaimed) \<in> task_moves" "(TClaimed, TRunning) \<in> task_moves"
  "(TRunning, TCompleted) \<in> task_moves"
  by (simp_all add: task_moves_targets)

lemma queued_reaches_completed: "(TQueued, TCompleted) \<in> task_moves\<^sup>*"
  by (meson task_moves_route r_into_rtrancl converse_rtrancl_into_rtrancl)

text \<open>
  The task table has no trap: the only states without a way out are \<open>completed\<close> and
  \<open>cancelled\<close>, and from every other state (failed, dead-lettered, blocked, recovering and
  pending review included) some sequence of legal transitions completes the task.
\<close>

theorem task_table_trap_free:
  "(targets task_allowed s = [] \<longleftrightarrow> s = TCompleted \<or> s = TCancelled) \<and>
   (s = TCancelled \<or> (s, TCompleted) \<in> task_moves\<^sup>*)"
proof -
  have route: "(a, TQueued) \<in> task_moves \<Longrightarrow> (a, TCompleted) \<in> task_moves\<^sup>*" for a
    by (rule converse_rtrancl_into_rtrancl [OF _ queued_reaches_completed])
  have "(TRunning, TCompleted) \<in> task_moves\<^sup>*" and "(TClaimed, TCompleted) \<in> task_moves\<^sup>*"
    using task_moves_route(8,9) by (meson r_into_rtrancl converse_rtrancl_into_rtrancl)+
  then show ?thesis
    by (cases s) (simp_all add: route task_moves_route queued_reaches_completed)
qed

theorem task_table_trap_free_witness:
  "TDeadLettered = TCancelled \<or> (TDeadLettered, TCompleted) \<in> task_moves\<^sup>*"
  using task_table_trap_free [of TDeadLettered] by blast

inductive lease_history :: "worker_lease \<Rightarrow> lease_state list \<Rightarrow> bool" where
  claimed: "l_status l = LClaimed \<Longrightarrow> lease_history l [LClaimed]"
| moved: "lease_history l hs \<Longrightarrow> transition_lease l s = Inr l' \<Longrightarrow> lease_history l' (hs @ [s])"

lemma lease_history_shape:
  "lease_history l hs \<Longrightarrow>
     (hs, l_status l) \<in> {([LClaimed], LClaimed), ([LClaimed, LActive], LActive),
       ([LClaimed, LExpired], LExpired), ([LClaimed, LActive, LExpired], LExpired),
       ([LClaimed, LActive, LReleased], LReleased), ([LClaimed, LExpired, LReleased], LReleased),
       ([LClaimed, LActive, LExpired, LReleased], LReleased)}"
proof (induction rule: lease_history.induct)
  case (claimed l)
  then show ?case by simp
next
  case (moved l hs s l')
  then show ?case by (cases s) (auto simp: transition_lease_Inr)
qed

text \<open>
  A worker lease is used up: it makes at most three transitions in its life, never
  returns to a state it left, and once it is released no transition is accepted, so a
  released or expired lease can never again authorise a worker.
\<close>

theorem lease_is_spent:
  assumes "lease_history l hs"
  shows "length hs \<le> 4 \<and> distinct hs \<and>
    (LExpired \<in> set hs \<or> LReleased \<in> set hs \<longrightarrow>
       (\<forall>l'. transition_lease l LActive \<noteq> Inr l' \<and> transition_lease l LClaimed \<noteq> Inr l'))"
  using lease_history_shape [OF assms] by (auto simp: transition_lease_Inr)

definition example_lease :: worker_lease where
  "example_lease = \<lparr>l_id = ''l1'', l_tenant_id = ''acme'', l_task_id = ''t1'', l_status = LClaimed,
     l_holder_identity = ''w1'', l_heartbeat_at = None, l_metadata = [], l_created_at = 0, l_updated_at = 0\<rparr>"

lemma example_lease_history:
  "lease_history (example_lease\<lparr>l_status := LExpired\<rparr>) ([LClaimed] @ [LExpired])"
proof -
  have "lease_history example_lease [LClaimed]"
    by (rule lease_history.claimed) (simp add: example_lease_def)
  then show ?thesis
    by (rule lease_history.moved) (simp add: transition_lease_Inr example_lease_def)
qed

theorem lease_is_spent_witness:
  "raises (transition_lease (example_lease\<lparr>l_status := LExpired\<rparr>) LActive)"
proof -
  have "transition_lease (example_lease\<lparr>l_status := LExpired\<rparr>) LActive \<noteq> Inr l'" for l'
    using lease_is_spent [OF example_lease_history] by simp
  then show ?thesis by (cases "transition_lease (example_lease\<lparr>l_status := LExpired\<rparr>) LActive") auto
qed

end
