(* ===== verification/QueueBase.thy ===== *)
theory QueueBase
  imports Domain
begin

section \<open>The queue interface\<close>

text \<open>
  \<open>backend/queue/base.py\<close>: the message and result types, and the abstract class
  \<open>QueueAdapter\<close> as a record of operations over a queue state \<open>'q\<close>. An operation
  returns its Python result and the new state; where an adapter may raise, the result is
  a sum. The contract every adapter keeps is the locale \<open>queue_contract\<close>; its
  interpretations are in the theories of the two adapters.
\<close>

record queue_message =
  q_tenant_id :: string
  q_task_id :: uuid
  q_mission_id :: uuid
  q_fleet_id :: "uuid option"
  q_branch_id :: "uuid option"
  q_payload :: dict
  q_enqueued_at :: time

text \<open>
  The text of a stored payload: the JSON value it decodes to, or a text that is no JSON.
  Two texts that decode to the same value are the same for all the code here.
\<close>

datatype raw_text = Text json | Garbage string

record payload_inspection =
  pi_tenant_id :: string
  pi_raw :: raw_text
  pi_message :: "queue_message option"
  pi_error :: "string option"

record dead_letter_entry =
  dl_tenant_id :: string
  dl_task_id :: "uuid option"
  dl_raw :: raw_text
  dl_payload :: "dict option"
  dl_reason :: "string option"
  dl_error :: "string option"

record op_result =
  r_ok :: bool
  r_reason :: "string option"

definition op_ok :: op_result where
  "op_ok = \<lparr>r_ok = True, r_reason = None\<rparr>"

definition op_fail :: "string \<Rightarrow> op_result" where
  "op_fail msg = \<lparr>r_ok = False, r_reason = Some msg\<rparr>"

lemma op_result_simps [simp]:
  "r_ok op_ok" "r_reason op_ok = None" "\<not> r_ok (op_fail m)" "r_reason (op_fail m) = Some m"
  "op_ok \<noteq> op_fail m" "op_fail m \<noteq> op_ok" "op_fail m = op_fail m' \<longleftrightarrow> m = m'"
  by (simp_all add: op_ok_def op_fail_def)

text \<open>
  The adapter's operations. \<open>now\<close> is the caller's clock, which \<open>fail_task\<close> and the
  dead-letter operations print into the envelope.
\<close>

record 'q queue_adapter =
  ping :: "'q \<Rightarrow> bool"
  enqueue_task :: "'q \<Rightarrow> queue_message \<Rightarrow> op_result \<times> 'q"
  enqueue_task_idempotent :: "'q \<Rightarrow> queue_message \<Rightarrow> string \<Rightarrow> op_result \<times> 'q"
  cancel_task :: "'q \<Rightarrow> string \<Rightarrow> uuid \<Rightarrow> op_result \<times> 'q"
  claim_task :: "'q \<Rightarrow> string \<Rightarrow> string \<Rightarrow> queue_message option result \<times> 'q"
  claim_existing_task :: "'q \<Rightarrow> string \<Rightarrow> uuid \<Rightarrow> string \<Rightarrow> op_result \<times> 'q"
  heartbeat :: "'q \<Rightarrow> string \<Rightarrow> uuid \<Rightarrow> string \<Rightarrow> op_result \<times> 'q"
  complete_task :: "'q \<Rightarrow> string \<Rightarrow> uuid \<Rightarrow> string \<Rightarrow> op_result \<times> 'q"
  fail_task :: "'q \<Rightarrow> time \<Rightarrow> string \<Rightarrow> uuid \<Rightarrow> string \<Rightarrow> string \<Rightarrow> op_result \<times> 'q"
  release_lease :: "'q \<Rightarrow> string \<Rightarrow> uuid \<Rightarrow> string \<Rightarrow> op_result \<times> 'q"
  recover_task_for_retry :: "'q \<Rightarrow> string \<Rightarrow> uuid \<Rightarrow> string \<Rightarrow> op_result \<times> 'q"
  move_to_dead_letter :: "'q \<Rightarrow> time \<Rightarrow> string \<Rightarrow> uuid \<Rightarrow> string \<Rightarrow> op_result \<times> 'q"
  move_owned_to_dead_letter ::
    "'q \<Rightarrow> time \<Rightarrow> string \<Rightarrow> uuid \<Rightarrow> string \<Rightarrow> string \<Rightarrow> op_result \<times> 'q"
  list_processing :: "'q \<Rightarrow> string \<Rightarrow> payload_inspection list result \<times> 'q"
  list_dead_letter :: "'q \<Rightarrow> string \<Rightarrow> dead_letter_entry list result \<times> 'q"
  retry_dead_letter :: "'q \<Rightarrow> string \<Rightarrow> uuid \<Rightarrow> op_result \<times> 'q"
  pending_depth :: "'q \<Rightarrow> string \<Rightarrow> nat \<times> 'q"

text \<open>
  \<open>QueueAdapter.move_owned_to_dead_letter\<close> of the base class: a backend that does not
  override it refuses, it never falls back to the ownerless path.
\<close>

definition base_move_owned_to_dead_letter ::
  "'q \<Rightarrow> time \<Rightarrow> string \<Rightarrow> uuid \<Rightarrow> string \<Rightarrow> string \<Rightarrow> op_result \<times> 'q" where
  "base_move_owned_to_dead_letter q now tenant task worker why =
     (op_fail ''owner-aware dead-letter not supported'', q)"

subsection \<open>Encoding of messages\<close>

text \<open>The JSON object both adapters store for a message.\<close>

definition message_object :: "queue_message \<Rightarrow> dict" where
  "message_object m =
     [(''tenant_id'', JStr (q_tenant_id m)),
      (''task_id'', JStr (q_task_id m)),
      (''mission_id'', JStr (q_mission_id m)),
      (''fleet_id'', opt_str (q_fleet_id m)),
      (''branch_id'', opt_str (q_branch_id m)),
      (''payload'', JObj (q_payload m)),
      (''enqueued_at'', JStamp (q_enqueued_at m))]"

text \<open>\<open>str(value)\<close> of an envelope's reason, which every writer makes a string.\<close>

definition reason_text :: "json \<Rightarrow> string option" where
  "reason_text v = (case v of JNull \<Rightarrow> None | JStr s \<Rightarrow> Some s | JInt n \<Rightarrow> Some (int_text n) | _ \<Rightarrow> Some [])"

definition wf_message :: "queue_message \<Rightarrow> bool" where
  "wf_message m \<longleftrightarrow> is_uuid (q_task_id m) \<and> is_uuid (q_mission_id m) \<and>
     (\<forall>f. q_fleet_id m = Some f \<longrightarrow> is_uuid f) \<and> (\<forall>b. q_branch_id m = Some b \<longrightarrow> is_uuid b)"

lemma uuid_not_empty: "is_uuid s \<Longrightarrow> s \<noteq> []"
  by (auto simp: is_uuid_def uuid_parse_def Let_def)

definition is_task :: "string \<Rightarrow> uuid \<Rightarrow> queue_message \<Rightarrow> bool" where
  "is_task t k m \<longleftrightarrow> q_tenant_id m = t \<and> q_task_id m = k"

text \<open>A message for the examples.\<close>

definition example_message :: "string \<Rightarrow> uuid \<Rightarrow> queue_message" where
  "example_message t k =
     \<lparr>q_tenant_id = t, q_task_id = k, q_mission_id = ''00000000-0000-0000-0000-00000000000f'',
      q_fleet_id = None, q_branch_id = None, q_payload = [(''items'', JArr [])], q_enqueued_at = 5\<rparr>"

definition uuid_a :: uuid where "uuid_a = ''00000000-0000-0000-0000-00000000000a''"
definition uuid_b :: uuid where "uuid_b = ''00000000-0000-0000-0000-00000000000b''"

lemma example_uuids: "is_uuid uuid_a" "is_uuid uuid_b" "is_uuid ''00000000-0000-0000-0000-00000000000f''"
  by (simp_all add: uuid_a_def uuid_b_def is_uuid_def uuid_parse_def is_hex_def hex_lower_def)

lemma example_message_wf [simp]:
  "wf_message (example_message t uuid_a)" "wf_message (example_message t uuid_b)"
  using example_uuids by (simp_all add: wf_message_def example_message_def)

lemma example_message_sel [simp]:
  "q_task_id (example_message t k) = k" "q_tenant_id (example_message t k) = t"
  "q_payload (example_message t k) = [(''items'', JArr [])]"
  by (simp_all add: example_message_def)

subsection \<open>The contract\<close>

text \<open>
  What the clients of a queue rely on, over an abstract view of its state:
  \<open>pending q t k\<close>, the task \<open>k\<close> of tenant \<open>t\<close> waits to be claimed; \<open>holding q t k\<close>,
  its payload is being processed; \<open>owner q t k\<close>, the worker whose claim is current (the
  claim of a Redis queue lapses with its lease). \<open>inv t q\<close> is the adapter's invariant
  for the tenant.
\<close>

locale queue_contract =
  fixes Q :: "'q queue_adapter"
    and inv :: "string \<Rightarrow> 'q \<Rightarrow> bool"
    and pending :: "'q \<Rightarrow> string \<Rightarrow> uuid \<Rightarrow> bool"
    and holding :: "'q \<Rightarrow> string \<Rightarrow> uuid \<Rightarrow> bool"
    and owner :: "'q \<Rightarrow> string \<Rightarrow> uuid \<Rightarrow> string option"
    and seen :: "'q \<Rightarrow> string \<Rightarrow> string \<Rightarrow> bool"
  assumes claim_inv: "inv t q \<Longrightarrow> inv t (snd (claim_task Q q t w))"
    and claim_some: "inv t q \<Longrightarrow> claim_task Q q t w = (Inr (Some m), q') \<Longrightarrow>
      q_tenant_id m = t \<and> \<not> holding q t (q_task_id m) \<and> pending q t (q_task_id m) \<and>
      holding q' t (q_task_id m) \<and> owner q' t (q_task_id m) = Some w"
    and claim_other: "inv t q \<Longrightarrow> claim_task Q q t w = (Inr (Some m), q') \<Longrightarrow> k \<noteq> q_task_id m \<Longrightarrow>
      holding q' t k = holding q t k \<and> owner q' t k = owner q t k \<and> pending q' t k = pending q t k"
    and complete_inv: "inv t q \<Longrightarrow> inv t (snd (complete_task Q q t k w))"
    and complete_ok: "inv t q \<Longrightarrow> complete_task Q q t k w = (r, q') \<Longrightarrow> r_ok r \<Longrightarrow>
      owner q t k = Some w \<and> \<not> holding q' t k \<and> owner q' t k = None \<and>
      (\<forall>k'. pending q' t k' = pending q t k')"
    and complete_fail: "inv t q \<Longrightarrow> complete_task Q q t k w = (r, q') \<Longrightarrow> \<not> r_ok r \<Longrightarrow> q' = q"
    and complete_enabled: "inv t q \<Longrightarrow> holding q t k \<Longrightarrow> owner q t k = Some w \<Longrightarrow>
      r_ok (fst (complete_task Q q t k w))"
    and fail_inv: "inv t q \<Longrightarrow> inv t (snd (fail_task Q q now t k w why))"
    and fail_ok: "inv t q \<Longrightarrow> fail_task Q q now t k w why = (r, q') \<Longrightarrow> r_ok r \<Longrightarrow>
      owner q t k = Some w \<and> \<not> holding q' t k \<and> owner q' t k = None \<and>
      (\<forall>k'. pending q' t k' = pending q t k')"
    and fail_fail: "inv t q \<Longrightarrow> fail_task Q q now t k w why = (r, q') \<Longrightarrow> \<not> r_ok r \<Longrightarrow> q' = q"
    and release_inv: "inv t q \<Longrightarrow> inv t (snd (release_lease Q q t k w))"
    and release_ok: "inv t q \<Longrightarrow> release_lease Q q t k w = (r, q') \<Longrightarrow> r_ok r \<Longrightarrow>
      owner q t k = Some w \<and> \<not> holding q' t k \<and> owner q' t k = None \<and> pending q' t k"
    and release_fail: "inv t q \<Longrightarrow> release_lease Q q t k w = (r, q') \<Longrightarrow> \<not> r_ok r \<Longrightarrow> q' = q"
    and heartbeat_ok: "inv t q \<Longrightarrow> heartbeat Q q t k w = (r, q') \<Longrightarrow> r_ok r \<Longrightarrow>
      owner q t k = Some w \<and> owner q' t k = Some w"
    and heartbeat_fail: "inv t q \<Longrightarrow> heartbeat Q q t k w = (r, q') \<Longrightarrow> \<not> r_ok r \<Longrightarrow> q' = q"
    and heartbeat_inv: "inv t q \<Longrightarrow> inv t (snd (heartbeat Q q t k w))"
    and cancel_inv: "inv t q \<Longrightarrow> inv t (snd (cancel_task Q q t k))"
    and cancel_iff: "inv t q \<Longrightarrow> cancel_task Q q t k = (r, q') \<Longrightarrow>
      r_ok r = (\<not> holding q t k) \<and> (r_ok r \<longrightarrow> \<not> pending q' t k) \<and> (\<not> r_ok r \<longrightarrow> q' = q)"
    and recover_inv: "inv t q \<Longrightarrow> inv t (snd (recover_task_for_retry Q q t k w))"
    and recover_ok: "inv t q \<Longrightarrow> recover_task_for_retry Q q t k w = (r, q') \<Longrightarrow> r_ok r \<Longrightarrow>
      (owner q t k = None \<or> owner q t k = Some w) \<and> \<not> holding q' t k \<and> owner q' t k = None \<and>
      pending q' t k"
    and recover_fail: "inv t q \<Longrightarrow> recover_task_for_retry Q q t k w = (r, q') \<Longrightarrow> \<not> r_ok r \<Longrightarrow> q' = q"
    and retry_inv: "inv t q \<Longrightarrow> inv t (snd (retry_dead_letter Q q t k))"
    and retry_ok: "inv t q \<Longrightarrow> retry_dead_letter Q q t k = (r, q') \<Longrightarrow> r_ok r \<Longrightarrow>
      \<not> holding q t k \<and> pending q' t k"
    and retry_fail: "inv t q \<Longrightarrow> retry_dead_letter Q q t k = (r, q') \<Longrightarrow> \<not> r_ok r \<Longrightarrow>
      q' = q \<and> (r_reason r = Some ''task already pending'' \<longrightarrow> pending q t k) \<and>
      (r_reason r = Some ''task already processing'' \<longrightarrow> holding q t k)"
    and move_dead_inv: "inv t q \<Longrightarrow> is_uuid k \<Longrightarrow> inv t (snd (move_to_dead_letter Q q now t k why))"
    and move_dead_ok: "inv t q \<Longrightarrow> move_to_dead_letter Q q now t k why = (r, q') \<Longrightarrow> r_ok r \<Longrightarrow>
      owner q t k = None \<and> \<not> holding q' t k \<and> \<not> pending q' t k"
    and move_dead_fail: "inv t q \<Longrightarrow> move_to_dead_letter Q q now t k why = (r, q') \<Longrightarrow> \<not> r_ok r \<Longrightarrow> q' = q"
    and move_owned_inv: "inv t q \<Longrightarrow> is_uuid k \<Longrightarrow> w \<noteq> [] \<Longrightarrow>
      inv t (snd (move_owned_to_dead_letter Q q now t k w why))"
    and move_owned_ok: "inv t q \<Longrightarrow> w \<noteq> [] \<Longrightarrow>
      move_owned_to_dead_letter Q q now t k w why = (r, q') \<Longrightarrow> r_ok r \<Longrightarrow>
      (owner q t k = None \<or> owner q t k = Some w) \<and> \<not> holding q' t k \<and> owner q' t k = None"
    and move_owned_fail: "inv t q \<Longrightarrow> w \<noteq> [] \<Longrightarrow>
      move_owned_to_dead_letter Q q now t k w why = (r, q') \<Longrightarrow> \<not> r_ok r \<Longrightarrow> q' = q"
    and owner_holding: "inv t q \<Longrightarrow> owner q t k = Some w \<Longrightarrow> holding q t k"
    and complete_other: "inv t q \<Longrightarrow> complete_task Q q t k w = (r, q') \<Longrightarrow> j \<noteq> k \<Longrightarrow>
      holding q' t j = holding q t j \<and> owner q' t j = owner q t j"
    and fail_other: "inv t q \<Longrightarrow> fail_task Q q now t k w why = (r, q') \<Longrightarrow> j \<noteq> k \<Longrightarrow>
      holding q' t j = holding q t j \<and> owner q' t j = owner q t j"
    and release_other: "inv t q \<Longrightarrow> release_lease Q q t k w = (r, q') \<Longrightarrow> j \<noteq> k \<Longrightarrow>
      holding q' t j = holding q t j \<and> owner q' t j = owner q t j"
    and heartbeat_other: "inv t q \<Longrightarrow> heartbeat Q q t k w = (r, q') \<Longrightarrow> j \<noteq> k \<Longrightarrow>
      holding q' t j = holding q t j \<and> owner q' t j = owner q t j"
    and enqueue_inv: "inv t q \<Longrightarrow> wf_message m \<Longrightarrow> q_tenant_id m = t \<Longrightarrow>
      inv t (snd (enqueue_task_idempotent Q q m key))"
    and enqueue_fresh: "inv t q \<Longrightarrow> q_tenant_id m = t \<Longrightarrow> \<not> seen q t key \<Longrightarrow>
      enqueue_task_idempotent Q q m key = (r, q') \<Longrightarrow> r_ok r \<Longrightarrow>
      pending q' t (q_task_id m) \<and> seen q' t key"
    and enqueue_seen: "inv t q \<Longrightarrow> q_tenant_id m = t \<Longrightarrow> seen q t key \<Longrightarrow>
      enqueue_task_idempotent Q q m key = (op_ok, q)"
    and enqueue_fail: "inv t q \<Longrightarrow> q_tenant_id m = t \<Longrightarrow>
      enqueue_task_idempotent Q q m key = (r, q') \<Longrightarrow> \<not> r_ok r \<Longrightarrow> q' = q"
    and enqueue_other: "inv t q \<Longrightarrow> q_tenant_id m = t \<Longrightarrow> enqueue_task_idempotent Q q m key = (r, q') \<Longrightarrow>
      holding q' t j = holding q t j \<and> owner q' t j = owner q t j"
    and claim_none: "inv t q \<Longrightarrow> claim_task Q q t w = (Inr None, q') \<Longrightarrow> q' = q"
    and claim_total: "inv t q \<Longrightarrow> \<exists>x. fst (claim_task Q q t w) = Inr x"

subsection \<open>What every queue with the contract guarantees\<close>

text \<open>
  A step of the workers of tenant \<open>t\<close> other than \<open>w\<close>: they claim, beat, complete, fail or
  release whatever tasks they like, and the dispatcher publishes messages. The interventions of the
  services (recovery of a lost lease, cancellation, dead-lettering, retries) are not among these steps:
  the contract promises nothing against them, and theory \<open>RedisReach\<close> treats them for the Redis
  queue.
\<close>

inductive foreign_step :: "'q queue_adapter \<Rightarrow> string \<Rightarrow> string \<Rightarrow> 'q \<Rightarrow> 'q \<Rightarrow> bool"
  for Q t w where
  claims: "w' \<noteq> w \<Longrightarrow> claim_task Q q t w' = (x, q') \<Longrightarrow> foreign_step Q t w q q'"
| beats: "w' \<noteq> w \<Longrightarrow> heartbeat Q q t k w' = (r, q') \<Longrightarrow> foreign_step Q t w q q'"
| completes: "w' \<noteq> w \<Longrightarrow> complete_task Q q t k w' = (r, q') \<Longrightarrow> foreign_step Q t w q q'"
| fails: "w' \<noteq> w \<Longrightarrow> fail_task Q q now t k w' why = (r, q') \<Longrightarrow> foreign_step Q t w q q'"
| releases: "w' \<noteq> w \<Longrightarrow> release_lease Q q t k w' = (r, q') \<Longrightarrow> foreign_step Q t w q q'"
| publishes: "wf_message m \<Longrightarrow> q_tenant_id m = t \<Longrightarrow> enqueue_task_idempotent Q q m key = (r, q') \<Longrightarrow>
    foreign_step Q t w q q'"

context queue_contract
begin

lemma foreign_step_inv: "foreign_step Q t w q q' \<Longrightarrow> inv t q \<Longrightarrow> inv t q'"
  by (induction rule: foreign_step.induct)
    (metis claim_inv heartbeat_inv complete_inv fail_inv release_inv enqueue_inv snd_conv)+

lemma foreign_claim_keeps:
  assumes "inv t q" and "claim_task Q q t w' = (x, q')" and "owner q t k = Some w"
  shows "owner q' t k = Some w"
proof -
  obtain y where x: "x = Inr y" using claim_total [OF assms(1), of w'] assms(2) by auto
  show ?thesis
  proof (cases y)
  case None
  with x assms claim_none show ?thesis by blast
next
  case (Some m)
  with x have "k \<noteq> q_task_id m" using assms claim_some [of t q w' m q'] owner_holding by blast
  with x Some assms claim_other [of t q w' m q' k] show ?thesis by simp
qed
qed

text \<open>A worker keeps its claim against the operations of the other workers.\<close>

lemma ownership_stable:
  assumes "(foreign_step Q t w)\<^sup>*\<^sup>* q q'" and "inv t q" and "owner q t k = Some w"
  shows "inv t q' \<and> owner q' t k = Some w"
  using assms
proof (induction rule: rtranclp_induct)
  case (step q1 q2)
  then have inv: "inv t q1" and own: "owner q1 t k = Some w" by simp_all
  from step.hyps(2) have "owner q2 t k = Some w"
  proof cases
    case (claims w' x)
    then show ?thesis using foreign_claim_keeps [OF inv _ own] by blast
  next
    case (beats w' j r)
    then show ?thesis using inv own by (metis heartbeat_fail heartbeat_ok heartbeat_other option.inject)
  next
    case (completes w' j r)
    then show ?thesis using inv own by (metis complete_fail complete_ok complete_other option.inject)
  next
    case (fails w' now j why r)
    then show ?thesis using inv own by (metis fail_fail fail_ok fail_other option.inject)
  next
    case (releases w' j r)
    then show ?thesis using inv own by (metis release_fail release_ok release_other option.inject)
  next
    case (publishes m key r)
    then show ?thesis using inv own enqueue_other by metis
  qed
  with foreign_step_inv [OF step.hyps(2) inv] show ?case by blast
qed simp

text \<open>Publishing a dispatch twice is publishing it once.\<close>

lemma publish_once:
  assumes "inv t q" and "wf_message m" and "q_tenant_id m = t"
    and "enqueue_task_idempotent Q q m key = (r, q1)" and "r_ok r"
  shows "enqueue_task_idempotent Q q1 m' key = (op_ok, q1) \<or> q_tenant_id m' \<noteq> t"
proof -
  have "seen q1 t key"
    using assms enqueue_fresh [of t q m key r q1] enqueue_seen [of t q m key] by (cases "seen q t key") auto
  moreover have "inv t q1" using enqueue_inv [OF assms(1-3), of key] assms(4) by simp
  ultimately show ?thesis using enqueue_seen by blast
qed

end

end
