(* ===== verification/LocalQueue.thy ===== *)
theory LocalQueue
  imports QueueBase "HOL-Library.Multiset"
begin

section \<open>The in-process queue adapter\<close>

text \<open>
  \<open>backend/queue/local_adapter.py\<close>: \<open>LocalQueueAdapter\<close>. The fields are the adapter's:
  the deque, the claims (a dictionary, kept in insertion order because
  \<open>list_processing\<close> walks it), the dead-letter envelopes and the dispatch keys. Every
  method runs under the adapter's lock, so a method is one atomic state change. The
  loops that drain and rebuild the deque are the recursive functions below.
\<close>

type_synonym claim_key = "string \<times> uuid"

record local_queue =
  lq_queue :: "queue_message list"
  lq_claims :: "(claim_key \<times> (string \<times> queue_message)) list"
  lq_dead_letter :: "dict list"
  lq_dispatch_keys :: "string list"

definition local_init :: local_queue where
  "local_init = \<lparr>lq_queue = [], lq_claims = [], lq_dead_letter = [], lq_dispatch_keys = []\<rparr>"

subsection \<open>Envelopes\<close>

definition local_message_payload :: "queue_message \<Rightarrow> dict" where
  "local_message_payload m = message_object m"

definition dict_item :: "dict \<Rightarrow> string \<Rightarrow> json result" where
  "dict_item d k = (case map_of d k of None \<Rightarrow> Inl (KeyError k) | Some v \<Rightarrow> Inr v)"

definition uuid_arg :: "json \<Rightarrow> uuid result" where
  "uuid_arg v = (case uuid_of_json v of None \<Rightarrow> Inl (ValueError ''badly formed hexadecimal UUID string'')
     | Some u \<Rightarrow> Inr u)"

definition optional_uuid :: "dict \<Rightarrow> string \<Rightarrow> uuid option result" where
  "optional_uuid d k =
     (case map_of d k of
        None \<Rightarrow> Inr None
      | Some v \<Rightarrow> if truthy v then bind_result (uuid_arg v) (\<lambda>u. Inr (Some u)) else Inr None)"

text \<open>
  \<open>_message_from_payload\<close>. The tenant is compared as a string before this is called and
  the payload member is the object \<open>_message_payload\<close> wrote, so the other kinds of value
  are errors here.
\<close>

definition local_message_from_payload :: "dict \<Rightarrow> queue_message result" where
  "local_message_from_payload p =
     bind_result (dict_item p ''tenant_id'') (\<lambda>tv.
     bind_result (case tv of JStr s \<Rightarrow> Inr s | _ \<Rightarrow> Inl (ValueError ''tenant_id is not text'')) (\<lambda>tenant.
     bind_result (dict_item p ''task_id'') (\<lambda>kv.
     bind_result (uuid_arg kv) (\<lambda>task.
     bind_result (dict_item p ''mission_id'') (\<lambda>mv.
     bind_result (uuid_arg mv) (\<lambda>mission.
     bind_result (optional_uuid p ''fleet_id'') (\<lambda>fleet.
     bind_result (optional_uuid p ''branch_id'') (\<lambda>branch.
     bind_result (case map_of p ''payload'' of None \<Rightarrow> Inr [] | Some (JObj d) \<Rightarrow> Inr d
        | Some _ \<Rightarrow> Inl (ValueError ''payload is not an object'')) (\<lambda>body.
     bind_result (dict_item p ''enqueued_at'') (\<lambda>ev.
     bind_result (case stamp_of ev of None \<Rightarrow> Inl (ValueError ''Invalid isoformat string'') | Some e \<Rightarrow> Inr e)
       (\<lambda>enq. Inr \<lparr>q_tenant_id = tenant, q_task_id = task, q_mission_id = mission, q_fleet_id = fleet,
          q_branch_id = branch, q_payload = body, q_enqueued_at = enq\<rparr>)))))))))))"

definition local_envelope ::
  "time \<Rightarrow> string \<Rightarrow> queue_message option \<Rightarrow> string option \<Rightarrow> uuid option \<Rightarrow> string option \<Rightarrow> dict" where
  "local_envelope now why message tenant task worker =
     (let payload = (case message of
            Some m \<Rightarrow> local_message_payload m
          | None \<Rightarrow> [(''tenant_id'', opt_str tenant), (''task_id'', opt_str task),
                     (''source'', JStr ''runtime_recovery_without_processing_payload'')]);
          envelope = [(''task_id'', JStr (case message of Some m \<Rightarrow> q_task_id m
                         | None \<Rightarrow> (case task of None \<Rightarrow> ''None'' | Some k \<Rightarrow> k))),
                      (''reason'', JStr why),
                      (''failed_at'', JStamp now),
                      (''payload'', JObj payload)]
      in case worker of None \<Rightarrow> envelope | Some w \<Rightarrow> AList.update ''worker_id'' (JStr w) envelope)"

subsection \<open>The deque loops\<close>

text \<open>\<open>claim_task\<close>: at most \<open>len(self._queue)\<close> rotations.\<close>

fun claim_scan ::
  "string \<Rightarrow> (claim_key \<times> (string \<times> queue_message)) list \<Rightarrow> nat \<Rightarrow> queue_message list \<Rightarrow>
     queue_message option \<times> queue_message list" where
  "claim_scan t claims 0 q = (None, q)"
| "claim_scan t claims (Suc n) [] = (None, [])"
| "claim_scan t claims (Suc n) (m # ms) =
     (if q_tenant_id m \<noteq> t then claim_scan t claims n (ms @ [m])
      else if map_of claims (t, q_task_id m) \<noteq> None then claim_scan t claims n (ms @ [m])
      else (Some m, ms))"

text \<open>\<open>claim_existing_task\<close>: the first match leaves the deque, later copies stay.\<close>

fun take_first ::
  "string \<Rightarrow> uuid \<Rightarrow> queue_message option \<Rightarrow> queue_message list \<Rightarrow> queue_message list \<Rightarrow>
     queue_message option \<times> queue_message list" where
  "take_first t k matched [] kept = (matched, kept)"
| "take_first t k matched (m # ms) kept =
     (if matched = None \<and> is_task t k m then take_first t k (Some m) ms kept
      else take_first t k matched ms (kept @ [m]))"

text \<open>\<open>_remove_pending_message\<close>: the first match is returned, every copy is dropped.\<close>

fun remove_pending ::
  "string \<Rightarrow> uuid \<Rightarrow> queue_message option \<Rightarrow> queue_message list \<Rightarrow> queue_message list \<Rightarrow>
     queue_message option \<times> queue_message list" where
  "remove_pending t k matched [] kept = (matched, kept)"
| "remove_pending t k matched (m # ms) kept =
     (if matched = None \<and> is_task t k m then remove_pending t k (Some m) ms kept
      else if \<not> is_task t k m then remove_pending t k matched ms (kept @ [m])
      else remove_pending t k matched ms kept)"

text \<open>\<open>recover_task_for_retry\<close>: all matches are collected.\<close>

fun split_matches ::
  "string \<Rightarrow> uuid \<Rightarrow> queue_message list \<Rightarrow> queue_message list \<Rightarrow> queue_message list \<Rightarrow>
     queue_message list \<times> queue_message list" where
  "split_matches t k [] matches kept = (matches, kept)"
| "split_matches t k (m # ms) matches kept =
     (if is_task t k m then split_matches t k ms (matches @ [m]) kept
      else split_matches t k ms matches (kept @ [m]))"

text \<open>\<open>retry_dead_letter\<close>: the search through the envelopes, with the index of the hit.\<close>

fun dead_scan :: "string \<Rightarrow> uuid \<Rightarrow> nat \<Rightarrow> dict list \<Rightarrow> (nat \<times> queue_message) option result" where
  "dead_scan t k i [] = Inr None"
| "dead_scan t k i (e # es) =
     (if map_of e ''task_id'' \<noteq> Some (JStr k) then dead_scan t k (Suc i) es
      else case dict_of (map_of e ''payload'') of
             None \<Rightarrow> dead_scan t k (Suc i) es
           | Some p \<Rightarrow>
               if map_of p ''tenant_id'' \<noteq> Some (JStr t) then dead_scan t k (Suc i) es
               else bind_result (local_message_from_payload p) (\<lambda>m. Inr (Some (i, m))))"

subsection \<open>The operations\<close>

definition local_ping :: "local_queue \<Rightarrow> bool" where
  "local_ping q = True"

definition local_enqueue_task :: "local_queue \<Rightarrow> queue_message \<Rightarrow> op_result \<times> local_queue" where
  "local_enqueue_task q m = (op_ok, q\<lparr>lq_queue := lq_queue q @ [m]\<rparr>)"

definition local_enqueue_task_idempotent ::
  "local_queue \<Rightarrow> queue_message \<Rightarrow> string \<Rightarrow> op_result \<times> local_queue" where
  "local_enqueue_task_idempotent q m key =
     (if key \<in> set (lq_dispatch_keys q) then (op_ok, q)
      else (op_ok, q\<lparr>lq_queue := lq_queue q @ [m], lq_dispatch_keys := lq_dispatch_keys q @ [key]\<rparr>))"

definition local_cancel_task :: "local_queue \<Rightarrow> string \<Rightarrow> uuid \<Rightarrow> op_result \<times> local_queue" where
  "local_cancel_task q t k =
     (if map_of (lq_claims q) (t, k) \<noteq> None
      then (op_fail ''task is processing with an active owner'', q)
      else (op_ok, q\<lparr>lq_queue := filter (\<lambda>m. \<not> is_task t k m) (lq_queue q)\<rparr>))"

definition local_claim_task ::
  "local_queue \<Rightarrow> string \<Rightarrow> string \<Rightarrow> queue_message option result \<times> local_queue" where
  "local_claim_task q t w =
     (case claim_scan t (lq_claims q) (length (lq_queue q)) (lq_queue q) of
        (None, rest) \<Rightarrow> (Inr None, q\<lparr>lq_queue := rest\<rparr>)
      | (Some m, rest) \<Rightarrow>
          (Inr (Some m),
           q\<lparr>lq_queue := rest, lq_claims := AList.update (t, q_task_id m) (w, m) (lq_claims q)\<rparr>))"

definition local_claim_existing_task ::
  "local_queue \<Rightarrow> string \<Rightarrow> uuid \<Rightarrow> string \<Rightarrow> op_result \<times> local_queue" where
  "local_claim_existing_task q t k w =
     (case map_of (lq_claims q) (t, k) of
        Some (own, _) \<Rightarrow>
          if own = w then (op_ok, q) else (op_fail ''task already claimed by different worker'', q)
      | None \<Rightarrow>
          (case take_first t k None (lq_queue q) [] of
             (None, kept) \<Rightarrow>
               (op_fail ''task not found in pending or processing queue'', q\<lparr>lq_queue := kept\<rparr>)
           | (Some m, kept) \<Rightarrow>
               (op_ok, q\<lparr>lq_queue := kept, lq_claims := AList.update (t, k) (w, m) (lq_claims q)\<rparr>)))"

definition local_owner :: "local_queue \<Rightarrow> string \<Rightarrow> uuid \<Rightarrow> string option" where
  "local_owner q t k = map_option fst (map_of (lq_claims q) (t, k))"

definition local_heartbeat :: "local_queue \<Rightarrow> string \<Rightarrow> uuid \<Rightarrow> string \<Rightarrow> op_result \<times> local_queue" where
  "local_heartbeat q t k w =
     (if local_owner q t k \<noteq> Some w then (op_fail ''worker does not own claim'', q) else (op_ok, q))"

definition local_complete_task :: "local_queue \<Rightarrow> string \<Rightarrow> uuid \<Rightarrow> string \<Rightarrow> op_result \<times> local_queue" where
  "local_complete_task q t k w =
     (if local_owner q t k \<noteq> Some w then (op_fail ''worker does not own claim'', q)
      else (op_ok, q\<lparr>lq_claims := AList.delete (t, k) (lq_claims q)\<rparr>))"

definition local_fail_task ::
  "local_queue \<Rightarrow> time \<Rightarrow> string \<Rightarrow> uuid \<Rightarrow> string \<Rightarrow> string \<Rightarrow> op_result \<times> local_queue" where
  "local_fail_task q now t k w why =
     (if local_owner q t k \<noteq> Some w then (op_fail ''worker does not own claim'', q)
      else case map_of (lq_claims q) (t, k) of
             None \<Rightarrow> (op_fail ''worker does not own claim'', q)
           | Some (_, m) \<Rightarrow>
               (op_ok, q\<lparr>lq_claims := AList.delete (t, k) (lq_claims q),
                  lq_dead_letter := lq_dead_letter q @ [local_envelope now why (Some m) None None (Some w)]\<rparr>))"

definition local_release_lease :: "local_queue \<Rightarrow> string \<Rightarrow> uuid \<Rightarrow> string \<Rightarrow> op_result \<times> local_queue" where
  "local_release_lease q t k w =
     (if local_owner q t k \<noteq> Some w then (op_fail ''worker does not own claim'', q)
      else case map_of (lq_claims q) (t, k) of
             None \<Rightarrow> (op_fail ''worker does not own claim'', q)
           | Some (_, m) \<Rightarrow>
               (op_ok, q\<lparr>lq_claims := AList.delete (t, k) (lq_claims q), lq_queue := lq_queue q @ [m]\<rparr>))"

definition local_recover_task_for_retry ::
  "local_queue \<Rightarrow> string \<Rightarrow> uuid \<Rightarrow> string \<Rightarrow> op_result \<times> local_queue" where
  "local_recover_task_for_retry q t k w =
     (let claim = map_of (lq_claims q) (t, k)
      in if (case claim of Some (own, _) \<Rightarrow> own \<noteq> w | None \<Rightarrow> False) then (op_fail ''worker does not own claim'', q)
         else let q1 = q\<lparr>lq_claims := AList.delete (t, k) (lq_claims q)\<rparr>
              in case split_matches t k (lq_queue q) [] [] of
                   (m # _, kept) \<Rightarrow> (op_ok, q1\<lparr>lq_queue := kept @ [m]\<rparr>)
                 | ([], kept) \<Rightarrow>
                     (case claim of
                        Some (_, m) \<Rightarrow> (op_ok, q1\<lparr>lq_queue := kept @ [m]\<rparr>)
                      | None \<Rightarrow> (op_fail ''task not found in processing or pending queue'',
                                 q1\<lparr>lq_queue := kept\<rparr>)))"

definition local_move_to_dead_letter ::
  "local_queue \<Rightarrow> time \<Rightarrow> string \<Rightarrow> uuid \<Rightarrow> string \<Rightarrow> op_result \<times> local_queue" where
  "local_move_to_dead_letter q now t k why =
     (if map_of (lq_claims q) (t, k) \<noteq> None then (op_fail ''active worker owns claim'', q)
      else case remove_pending t k None (lq_queue q) [] of
             (matched, kept) \<Rightarrow>
               (op_ok, q\<lparr>lq_queue := kept, lq_dead_letter := lq_dead_letter q @
                  [local_envelope now why matched (Some t) (Some k) None]\<rparr>))"

definition local_move_owned_to_dead_letter ::
  "local_queue \<Rightarrow> time \<Rightarrow> string \<Rightarrow> uuid \<Rightarrow> string \<Rightarrow> string \<Rightarrow> op_result \<times> local_queue" where
  "local_move_owned_to_dead_letter q now t k w why =
     (case map_of (lq_claims q) (t, k) of
        Some (own, m) \<Rightarrow>
          if own \<noteq> w then (op_fail ''worker does not own claim'', q)
          else (op_ok, q\<lparr>lq_claims := AList.delete (t, k) (lq_claims q),
                  lq_dead_letter := lq_dead_letter q @
                    [local_envelope now why (Some m) (Some t) (Some k) (Some w)]\<rparr>)
      | None \<Rightarrow>
          (case remove_pending t k None (lq_queue q) [] of
             (matched, kept) \<Rightarrow>
               (op_ok, q\<lparr>lq_queue := kept, lq_dead_letter := lq_dead_letter q @
                  [local_envelope now why matched (Some t) (Some k) (Some w)]\<rparr>)))"

definition local_list_processing :: "local_queue \<Rightarrow> string \<Rightarrow> payload_inspection list" where
  "local_list_processing q t =
     map (\<lambda>(_, (_, m)). \<lparr>pi_tenant_id = t, pi_raw = Text (JObj (local_message_payload m)),
            pi_message = Some m, pi_error = None\<rparr>)
       (filter (\<lambda>((ct, _), _). ct = t) (lq_claims q))"

definition local_dead_letter_entry :: "string \<Rightarrow> dict \<Rightarrow> dead_letter_entry option" where
  "local_dead_letter_entry t e =
     (let tenant = (case dict_of (map_of e ''payload'') of None \<Rightarrow> None | Some p \<Rightarrow> map_of p ''tenant_id'')
      in if tenant \<noteq> Some (JStr t) then None
         else let task = (case map_of e ''task_id'' of None \<Rightarrow> None | Some v \<Rightarrow> uuid_of_json v)
              in Some \<lparr>dl_tenant_id = t, dl_task_id = task, dl_raw = Text (JObj e), dl_payload = Some e,
                    dl_reason = (case map_of e ''reason'' of None \<Rightarrow> None | Some v \<Rightarrow> reason_text v),
                    dl_error = (if task = None then Some ''dead-letter envelope has invalid task_id'' else None)\<rparr>)"

definition local_list_dead_letter :: "local_queue \<Rightarrow> string \<Rightarrow> dead_letter_entry list" where
  "local_list_dead_letter q t = List.map_filter (local_dead_letter_entry t) (lq_dead_letter q)"

definition local_retry_dead_letter :: "local_queue \<Rightarrow> string \<Rightarrow> uuid \<Rightarrow> op_result \<times> local_queue" where
  "local_retry_dead_letter q t k =
     (if list_ex (is_task t k) (lq_queue q) then (op_fail ''task already pending'', q)
      else if map_of (lq_claims q) (t, k) \<noteq> None then (op_fail ''task already processing'', q)
      else case dead_scan t k 0 (lq_dead_letter q) of
             Inl e \<Rightarrow> (op_fail (''dead-letter payload is corrupt: '' @ exn_text e), q)
           | Inr None \<Rightarrow> (op_fail ''dead-letter entry not found'', q)
           | Inr (Some (i, m)) \<Rightarrow>
               (op_ok, q\<lparr>lq_queue := lq_queue q @ [m],
                  lq_dead_letter := take i (lq_dead_letter q) @ drop (Suc i) (lq_dead_letter q)\<rparr>))"

definition local_pending_depth :: "local_queue \<Rightarrow> string \<Rightarrow> nat" where
  "local_pending_depth q t = length (filter (\<lambda>m. q_tenant_id m = t) (lq_queue q))"

definition local_adapter :: "local_queue queue_adapter" where
  "local_adapter =
     \<lparr>ping = local_ping,
      enqueue_task = local_enqueue_task,
      enqueue_task_idempotent = local_enqueue_task_idempotent,
      cancel_task = local_cancel_task,
      claim_task = local_claim_task,
      claim_existing_task = local_claim_existing_task,
      heartbeat = local_heartbeat,
      complete_task = local_complete_task,
      fail_task = local_fail_task,
      release_lease = local_release_lease,
      recover_task_for_retry = local_recover_task_for_retry,
      move_to_dead_letter = local_move_to_dead_letter,
      move_owned_to_dead_letter = local_move_owned_to_dead_letter,
      list_processing = (\<lambda>q t. (Inr (local_list_processing q t), q)),
      list_dead_letter = (\<lambda>q t. (Inr (local_list_dead_letter q t), q)),
      retry_dead_letter = local_retry_dead_letter,
      pending_depth = (\<lambda>q t. (local_pending_depth q t, q))\<rparr>"

subsection \<open>What the loops compute\<close>

definition claimable ::
  "string \<Rightarrow> (claim_key \<times> (string \<times> queue_message)) list \<Rightarrow> queue_message \<Rightarrow> bool" where
  "claimable t claims m \<longleftrightarrow> q_tenant_id m = t \<and> map_of claims (t, q_task_id m) = None"

lemma claim_scan_none:
  "n \<le> length q \<Longrightarrow> \<forall>m \<in> set (take n q). \<not> claimable t claims m \<Longrightarrow>
     claim_scan t claims n q = (None, drop n q @ take n q)"
proof (induction n arbitrary: q)
  case (Suc n)
  then obtain m ms where q: "q = m # ms" by (cases q) auto
  have "claim_scan t claims n (ms @ [m]) = (None, drop n (ms @ [m]) @ take n (ms @ [m]))"
    using Suc q by (intro Suc.IH) auto
  then show ?case using Suc.prems q by (auto simp: claimable_def)
qed simp

lemma claim_scan_some:
  "length pre < n \<Longrightarrow> \<forall>m \<in> set pre. \<not> claimable t claims m \<Longrightarrow> claimable t claims m \<Longrightarrow>
     claim_scan t claims n (pre @ m # post) = (Some m, post @ pre)"
proof (induction n arbitrary: pre post)
  case (Suc n)
  show ?case
  proof (cases pre)
    case Nil
    with Suc.prems show ?thesis by (auto simp: claimable_def)
  next
    case (Cons x xs)
    with Suc.prems have "claim_scan t claims n (xs @ m # (post @ [x])) = (Some m, (post @ [x]) @ xs)"
      by (intro Suc.IH) auto
    with Suc.prems Cons show ?thesis by (auto simp: claimable_def)
  qed
qed simp

lemma claim_scan_full:
  "claim_scan t claims (length q) q =
     (case dropWhile (\<lambda>m. \<not> claimable t claims m) q of
        [] \<Rightarrow> (None, q)
      | m # post \<Rightarrow> (Some m, post @ takeWhile (\<lambda>m. \<not> claimable t claims m) q))"
proof (cases "dropWhile (\<lambda>m. \<not> claimable t claims m) q")
  case Nil
  then have "\<forall>m \<in> set (take (length q) q). \<not> claimable t claims m" by (simp add: dropWhile_eq_Nil_conv)
  then show ?thesis unfolding Nil by (simp add: claim_scan_none)
next
  case (Cons m post)
  let ?pre = "takeWhile (\<lambda>m. \<not> claimable t claims m) q"
  have q: "q = ?pre @ m # post" using Cons takeWhile_dropWhile_id by metis
  have "claimable t claims m" using Cons by (metis dropWhile_eq_Cons_conv)
  moreover have "length ?pre < length q" using q by (metis length_append length_Cons less_add_Suc1 add_Suc_right)
  ultimately have "claim_scan t claims (length q) (?pre @ m # post) = (Some m, post @ ?pre)"
    by (intro claim_scan_some) (auto dest: set_takeWhileD)
  then show ?thesis using Cons q by simp
qed

lemma take_first_Some: "take_first t k (Some x) q kept = (Some x, kept @ q)"
  by (induction q arbitrary: kept) auto

lemma take_first_None:
  "take_first t k None q kept =
     (case dropWhile (\<lambda>m. \<not> is_task t k m) q of
        [] \<Rightarrow> (None, kept @ q)
      | m # post \<Rightarrow> (Some m, kept @ takeWhile (\<lambda>m. \<not> is_task t k m) q @ post))"
proof (induction q arbitrary: kept)
  case (Cons a q)
  then show ?case
    by (cases "is_task t k a") (auto simp: take_first_Some split: list.split dest: dropWhile_Cons_in)
qed simp

lemma remove_pending_eq:
  "remove_pending t k matched q kept =
     (if matched = None then find (is_task t k) q else matched,
      kept @ filter (\<lambda>m. \<not> is_task t k m) q)"
  by (induction q arbitrary: matched kept) auto

lemma split_matches_eq:
  "split_matches t k q matches kept =
     (matches @ filter (is_task t k) q, kept @ filter (\<lambda>m. \<not> is_task t k m) q)"
  by (induction q arbitrary: matches kept) auto

lemma filter_is_task_hd: "filter (is_task t k) q = m # ms \<Longrightarrow> is_task t k m \<and> m \<in> set q"
  by (drule arg_cong [where f = set]) auto

lemma dead_scan_hit:
  "dead_scan t k i es = Inr (Some (j, m)) \<Longrightarrow>
     i \<le> j \<and> j < i + length es \<and>
     (\<exists>p. map_of (es ! (j - i)) ''task_id'' = Some (JStr k) \<and> dict_of (map_of (es ! (j - i)) ''payload'') = Some p \<and>
        map_of p ''tenant_id'' = Some (JStr t) \<and> local_message_from_payload p = Inr m)"
proof (induction es arbitrary: i)
  case (Cons e es)
  show ?case
  proof (cases "dead_scan t k (Suc i) es = Inr (Some (j, m))")
    case True
    from Cons.IH [OF True] have "j - i = Suc (j - Suc i)" "Suc i \<le> j" "j < Suc i + length es" by auto
    with Cons.IH [OF True] show ?thesis by auto
  next
    case False
    with Cons.prems show ?thesis
      by (auto simp: bind_result_Inr split: if_splits option.splits)
  qed
qed simp

subsection \<open>Decoding what was encoded\<close>

lemma uuid_arg_wf: "is_uuid u \<Longrightarrow> uuid_arg (JStr u) = Inr u"
  by (simp add: uuid_arg_def is_uuid_def)

lemma optional_uuid_wf:
  "map_of d k = Some (opt_str x) \<Longrightarrow> (\<forall>u. x = Some u \<longrightarrow> is_uuid u) \<Longrightarrow> optional_uuid d k = Inr x"
  by (cases x) (auto simp: optional_uuid_def opt_str_def uuid_arg_wf dest: uuid_not_empty)

lemma local_message_roundtrip:
  assumes "wf_message m"
  shows "local_message_from_payload (message_object m) = Inr m"
proof -
  have "optional_uuid (message_object m) ''fleet_id'' = Inr (q_fleet_id m)"
    and "optional_uuid (message_object m) ''branch_id'' = Inr (q_branch_id m)"
    using assms by (auto simp: wf_message_def message_object_def intro!: optional_uuid_wf)
  then show ?thesis
    using assms by (simp add: local_message_from_payload_def dict_item_def uuid_arg_wf wf_message_def)
      (simp add: message_object_def uuid_arg_wf dict_item_def)
qed

subsection \<open>The abstract view and the invariant\<close>

definition local_pending :: "local_queue \<Rightarrow> string \<Rightarrow> uuid \<Rightarrow> bool" where
  "local_pending q t k = list_ex (is_task t k) (lq_queue q)"

definition local_holding :: "local_queue \<Rightarrow> string \<Rightarrow> uuid \<Rightarrow> bool" where
  "local_holding q t k \<longleftrightarrow> map_of (lq_claims q) (t, k) \<noteq> None"

definition local_seen :: "local_queue \<Rightarrow> string \<Rightarrow> string \<Rightarrow> bool" where
  "local_seen q t key \<longleftrightarrow> key \<in> set (lq_dispatch_keys q)"

text \<open>An envelope names the task of its payload; a payload with a mission is a whole message.\<close>

definition wf_envelope :: "dict \<Rightarrow> bool" where
  "wf_envelope e \<longleftrightarrow> (\<forall>p s. dict_of (map_of e ''payload'') = Some p \<longrightarrow> map_of e ''task_id'' = Some (JStr s) \<longrightarrow>
     map_of p ''mission_id'' \<noteq> None \<longrightarrow> map_of p ''task_id'' = Some (JStr s) \<and> is_uuid s)"

definition wf_claim :: "claim_key \<times> (string \<times> queue_message) \<Rightarrow> bool" where
  "wf_claim c \<longleftrightarrow> (case c of ((t, k), (w, m)) \<Rightarrow> is_task t k m \<and> wf_message m)"

definition local_inv :: "string \<Rightarrow> local_queue \<Rightarrow> bool" where
  "local_inv t q \<longleftrightarrow> list_all wf_message (lq_queue q) \<and> list_all wf_claim (lq_claims q) \<and>
     distinct (map fst (lq_claims q)) \<and> list_all wf_envelope (lq_dead_letter q)"

lemma wf_envelope_message: "wf_message m \<Longrightarrow> wf_envelope (local_envelope now why (Some m) t k w)"
  by (auto simp: wf_envelope_def local_envelope_def Let_def local_message_payload_def message_object_def
      wf_message_def split: option.split)

lemma wf_envelope_nomessage: "wf_envelope (local_envelope now why None t k w)"
  by (auto simp: wf_envelope_def local_envelope_def Let_def split: option.split)

lemma wf_envelope_any:
  "(\<And>m. x = Some m \<Longrightarrow> wf_message m) \<Longrightarrow> wf_envelope (local_envelope now why x t k w)"
  by (cases x) (auto intro: wf_envelope_message wf_envelope_nomessage)

lemma claim_wf: "list_all wf_claim al \<Longrightarrow> map_of al (t, k) = Some (w, m) \<Longrightarrow> is_task t k m \<and> wf_message m"
  by (auto simp: list_all_iff wf_claim_def dest!: map_of_SomeD)

lemmas local_defs = local_inv_def local_pending_def local_holding_def local_owner_def

lemma local_claim_cases:
  "local_claim_task q t w =
     (case dropWhile (\<lambda>m. \<not> claimable t (lq_claims q) m) (lq_queue q) of
        [] \<Rightarrow> (Inr None, q)
      | m # post \<Rightarrow> (Inr (Some m),
          q\<lparr>lq_queue := post @ takeWhile (\<lambda>m. \<not> claimable t (lq_claims q) m) (lq_queue q),
            lq_claims := AList.update (t, q_task_id m) (w, m) (lq_claims q)\<rparr>))"
  by (auto simp: local_claim_task_def claim_scan_full split: list.split dest: dropWhile_Cons_in)

lemma local_claim_SomeE:
  assumes "local_claim_task q t w = (Inr (Some m), q')"
  obtains pre post where "lq_queue q = pre @ m # post" "claimable t (lq_claims q) m"
    "\<forall>x \<in> set pre. \<not> claimable t (lq_claims q) x"
    "q' = q\<lparr>lq_queue := post @ pre, lq_claims := AList.update (t, q_task_id m) (w, m) (lq_claims q)\<rparr>"
proof -
  let ?P = "\<lambda>m. \<not> claimable t (lq_claims q) m"
  from assms obtain post where d: "dropWhile ?P (lq_queue q) = m # post"
    and q': "q' = q\<lparr>lq_queue := post @ takeWhile ?P (lq_queue q),
       lq_claims := AList.update (t, q_task_id m) (w, m) (lq_claims q)\<rparr>"
    by (auto simp: local_claim_cases split: list.splits)
  have "lq_queue q = takeWhile ?P (lq_queue q) @ m # post" using d takeWhile_dropWhile_id by metis
  then show thesis using that d q' by (metis dropWhile_Cons_in set_takeWhileD)
qed

lemma local_claim_Inr: "\<exists>r. fst (local_claim_task q t w) = Inr r"
  by (auto simp: local_claim_cases split: list.split)

lemma local_claim_inv: "local_inv t q \<Longrightarrow> local_inv t (snd (local_claim_task q t w))"
proof -
  assume inv: "local_inv t q"
  show ?thesis
  proof (cases "fst (local_claim_task q t w) = Inr None")
    case True
    then have "snd (local_claim_task q t w) = q"
      by (auto simp: local_claim_cases split: list.splits dest: dropWhile_Cons_in)
    with inv show ?thesis by simp
  next
    case False
    with local_claim_Inr obtain m where "local_claim_task q t w = (Inr (Some m), snd (local_claim_task q t w))"
      by (metis not_None_eq prod.collapse)
    then obtain pre post where c: "lq_queue q = pre @ m # post" "claimable t (lq_claims q) m"
      "snd (local_claim_task q t w) = q\<lparr>lq_queue := post @ pre,
         lq_claims := AList.update (t, q_task_id m) (w, m) (lq_claims q)\<rparr>"
      by (rule local_claim_SomeE)
    with inv show ?thesis
      by (simp add: local_inv_def list_all_update wf_claim_def is_task_def claimable_def distinct_update)
  qed
qed

lemma local_move_inv: "local_inv t q \<Longrightarrow> local_inv t (snd (local_move_to_dead_letter q now t k why))"
  by (auto simp: local_inv_def local_move_to_dead_letter_def remove_pending_eq
      intro!: wf_envelope_any dest: list_all_find)

lemma local_move_owned_inv:
  "local_inv t q \<Longrightarrow> local_inv t (snd (local_move_owned_to_dead_letter q now t k w why))"
  by (auto simp: local_inv_def local_move_owned_to_dead_letter_def remove_pending_eq distinct_delete
      intro!: wf_envelope_any dest: list_all_find claim_wf split: option.split)

lemma local_fail_inv: "local_inv t q \<Longrightarrow> local_inv t (snd (local_fail_task q now t k w why))"
  by (auto simp: local_inv_def local_fail_task_def distinct_delete dest: claim_wf
      intro!: wf_envelope_message split: option.split)

lemma local_release_inv: "local_inv t q \<Longrightarrow> local_inv t (snd (local_release_lease q t k w))"
  by (auto simp: local_inv_def local_release_lease_def distinct_delete dest: claim_wf split: option.split)

lemma local_recover_cases:
  "local_recover_task_for_retry q t k w =
     (case map_of (lq_claims q) (t, k) of
        Some (own, m) \<Rightarrow>
          if own \<noteq> w then (op_fail ''worker does not own claim'', q)
          else (op_ok, q\<lparr>lq_claims := AList.delete (t, k) (lq_claims q),
                  lq_queue := filter (\<lambda>m. \<not> is_task t k m) (lq_queue q) @
                    [case filter (is_task t k) (lq_queue q) of [] \<Rightarrow> m | x # _ \<Rightarrow> x]\<rparr>)
      | None \<Rightarrow>
          (case filter (is_task t k) (lq_queue q) of
             [] \<Rightarrow> (op_fail ''task not found in processing or pending queue'', q)
           | x # _ \<Rightarrow> (op_ok, q\<lparr>lq_queue := filter (\<lambda>m. \<not> is_task t k m) (lq_queue q) @ [x]\<rparr>)))"
proof -
  have "filter (\<lambda>m. \<not> is_task t k m) (lq_queue q) = lq_queue q" if "filter (is_task t k) (lq_queue q) = []"
    using that by (auto simp: filter_empty_conv filter_id_conv)
  then show ?thesis
    by (simp add: local_recover_task_for_retry_def Let_def split_matches_eq split: option.split list.split)
qed

lemma recovered_message:
  assumes "local_inv t q" and "map_of (lq_claims q) (t, k) = Some (own, m)"
  shows "is_task t k (case filter (is_task t k) (lq_queue q) of [] \<Rightarrow> m | x # _ \<Rightarrow> x)"
    and "wf_message (case filter (is_task t k) (lq_queue q) of [] \<Rightarrow> m | x # _ \<Rightarrow> x)"
proof -
  from assms(1) have "list_all wf_claim (lq_claims q)" and wf: "\<forall>x \<in> set (lq_queue q). wf_message x"
    by (simp_all add: local_inv_def list_all_iff)
  then have m: "is_task t k m \<and> wf_message m" using assms(2) by (simp add: claim_wf)
  from m show "is_task t k (case filter (is_task t k) (lq_queue q) of [] \<Rightarrow> m | x # _ \<Rightarrow> x)"
    by (auto dest: filter_is_task_hd split: list.split)
  from m wf show "wf_message (case filter (is_task t k) (lq_queue q) of [] \<Rightarrow> m | x # _ \<Rightarrow> x)"
    by (auto dest: filter_is_task_hd split: list.split)
qed

lemma local_recover_inv: "local_inv t q \<Longrightarrow> local_inv t (snd (local_recover_task_for_retry q t k w))"
proof (cases "map_of (lq_claims q) (t, k)")
  case None
  moreover assume inv: "local_inv t q"
  ultimately show ?thesis
    by (auto simp: local_recover_cases local_inv_def list_all_iff dest!: filter_is_task_hd split: list.split)
next
  case (Some c)
  moreover assume inv: "local_inv t q"
  ultimately show ?thesis
    using recovered_message [OF inv] by (cases c) (auto simp: local_recover_cases local_inv_def distinct_delete)
qed

lemma uuid_arg_Inr: "uuid_arg v = Inr u \<longleftrightarrow> uuid_of_json v = Some u"
  by (simp add: uuid_arg_def split: option.split)

lemma dict_item_Inr: "dict_item d k = Inr v \<longleftrightarrow> map_of d k = Some v"
  by (simp add: dict_item_def split: option.split)

lemma optional_uuid_canonical: "optional_uuid d k = Inr (Some u) \<Longrightarrow> is_uuid u"
  by (auto simp: optional_uuid_def bind_result_Inr uuid_arg_Inr split: option.splits if_splits
      intro: uuid_of_json_canonical)

lemma text_arg_Inr:
  "(case tv of JStr s \<Rightarrow> Inr s | _ \<Rightarrow> Inl e) = Inr x \<longleftrightarrow> tv = JStr x"
  by (cases tv) auto

lemma local_message_from_payloadE:
  assumes "local_message_from_payload p = Inr m"
  obtains kv mv where "map_of p ''tenant_id'' = Some (JStr (q_tenant_id m))"
    "map_of p ''task_id'' = Some kv" "uuid_of_json kv = Some (q_task_id m)"
    "map_of p ''mission_id'' = Some mv" "uuid_of_json mv = Some (q_mission_id m)"
    "optional_uuid p ''fleet_id'' = Inr (q_fleet_id m)" "optional_uuid p ''branch_id'' = Inr (q_branch_id m)"
  using assms unfolding local_message_from_payload_def bind_result_Inr dict_item_Inr uuid_arg_Inr text_arg_Inr
    sum.inject
  by (elim exE conjE, hypsubst) (rule that, simp_all only: queue_message.simps)

lemma local_message_from_payload_wf: "local_message_from_payload p = Inr m \<Longrightarrow> wf_message m"
  unfolding wf_message_def
  by (erule local_message_from_payloadE) (metis uuid_of_json_canonical optional_uuid_canonical)

lemma local_retry_ok_scan:
  assumes "local_retry_dead_letter q t k = (r, q')" and "r_ok r"
  obtains i m where "dead_scan t k 0 (lq_dead_letter q) = Inr (Some (i, m))"
    "q' = q\<lparr>lq_queue := lq_queue q @ [m],
       lq_dead_letter := take i (lq_dead_letter q) @ drop (Suc i) (lq_dead_letter q)\<rparr>"
proof (cases "dead_scan t k 0 (lq_dead_letter q)")
  case (Inl e)
  with assms show thesis by (auto simp: local_retry_dead_letter_def split: if_splits)
next
  case (Inr x)
  show thesis
  proof (cases x)
    case None
    with Inr assms show thesis by (auto simp: local_retry_dead_letter_def split: if_splits)
  next
    case (Some im)
    with Inr assms have "q' = q\<lparr>lq_queue := lq_queue q @ [snd im],
       lq_dead_letter := take (fst im) (lq_dead_letter q) @ drop (Suc (fst im)) (lq_dead_letter q)\<rparr>"
      by (auto simp: local_retry_dead_letter_def split: if_splits prod.splits)
    with Inr Some show thesis using that [of "fst im" "snd im"] by simp
  qed
qed

lemma local_retry_SomeE:
  assumes "local_inv t q" and "local_retry_dead_letter q t k = (r, q')" and "r_ok r"
  obtains i m where "i < length (lq_dead_letter q)" "is_task t k m" "wf_message m"
    "q' = q\<lparr>lq_queue := lq_queue q @ [m],
       lq_dead_letter := take i (lq_dead_letter q) @ drop (Suc i) (lq_dead_letter q)\<rparr>"
proof -
  from assms(2,3) obtain i m where d: "dead_scan t k 0 (lq_dead_letter q) = Inr (Some (i, m))"
    and q': "q' = q\<lparr>lq_queue := lq_queue q @ [m],
       lq_dead_letter := take i (lq_dead_letter q) @ drop (Suc i) (lq_dead_letter q)\<rparr>"
    by (rule local_retry_ok_scan)
  from dead_scan_hit [OF d] obtain p where i: "i < length (lq_dead_letter q)"
    and e: "map_of (lq_dead_letter q ! i) ''task_id'' = Some (JStr k)"
      "dict_of (map_of (lq_dead_letter q ! i) ''payload'') = Some p"
      "map_of p ''tenant_id'' = Some (JStr t)" and m: "local_message_from_payload p = Inr m"
    by auto
  from assms(1) i have "wf_envelope (lq_dead_letter q ! i)"
    by (simp add: local_inv_def list_all_length)
  with e have "is_task t k m"
    using m by (elim local_message_from_payloadE) (auto simp: wf_envelope_def is_task_def is_uuid_def)
  with that i q' local_message_from_payload_wf [OF m] show thesis by blast
qed

lemma local_retry_inv: "local_inv t q \<Longrightarrow> local_inv t (snd (local_retry_dead_letter q t k))"
proof -
  assume inv: "local_inv t q"
  show ?thesis
  proof (cases "r_ok (fst (local_retry_dead_letter q t k))")
    case True
    with inv obtain i m where "i < length (lq_dead_letter q)" "wf_message m"
      "snd (local_retry_dead_letter q t k) = q\<lparr>lq_queue := lq_queue q @ [m],
       lq_dead_letter := take i (lq_dead_letter q) @ drop (Suc i) (lq_dead_letter q)\<rparr>"
      by (metis local_retry_SomeE prod.collapse)
    with inv show ?thesis
      by (auto simp: local_inv_def list_all_iff dest: in_set_takeD in_set_dropD)
  next
    case False
    then have "snd (local_retry_dead_letter q t k) = q"
      by (auto simp: local_retry_dead_letter_def split: sum.split option.split)
    with inv show ?thesis by simp
  qed
qed

subsection \<open>The contract\<close>

lemma local_adapter_sel [simp]:
  "enqueue_task local_adapter = local_enqueue_task"
  "enqueue_task_idempotent local_adapter = local_enqueue_task_idempotent"
  "cancel_task local_adapter = local_cancel_task"
  "claim_task local_adapter = local_claim_task"
  "claim_existing_task local_adapter = local_claim_existing_task"
  "heartbeat local_adapter = local_heartbeat"
  "complete_task local_adapter = local_complete_task"
  "fail_task local_adapter = local_fail_task"
  "release_lease local_adapter = local_release_lease"
  "recover_task_for_retry local_adapter = local_recover_task_for_retry"
  "move_to_dead_letter local_adapter = local_move_to_dead_letter"
  "move_owned_to_dead_letter local_adapter = local_move_owned_to_dead_letter"
  "retry_dead_letter local_adapter = local_retry_dead_letter"
  by (simp_all add: local_adapter_def)

lemma local_claim_view:
  assumes "local_inv t q" and "local_claim_task q t w = (Inr (Some m), q')"
  shows "q_tenant_id m = t \<and> \<not> local_holding q t (q_task_id m) \<and> local_pending q t (q_task_id m) \<and>
    local_holding q' t (q_task_id m) \<and> local_owner q' t (q_task_id m) = Some w"
    and "k \<noteq> q_task_id m \<Longrightarrow> local_holding q' t k = local_holding q t k \<and>
      local_owner q' t k = local_owner q t k \<and> local_pending q' t k = local_pending q t k"
  using assms(2)
  by (rule local_claim_SomeE, auto simp: local_defs claimable_def is_task_def list_ex_iff)+

lemma local_recover_view:
  assumes "local_inv t q" and "local_recover_task_for_retry q t k w = (r, q')" and "r_ok r"
  shows "(local_owner q t k = None \<or> local_owner q t k = Some w) \<and> \<not> local_holding q' t k \<and>
    local_owner q' t k = None \<and> local_pending q' t k"
proof (cases "map_of (lq_claims q) (t, k)")
  case None
  with assms show ?thesis
    by (auto simp: local_recover_cases local_owner_def local_pending_def local_holding_def
        dest: filter_is_task_hd split: list.splits)
next
  case (Some c)
  then obtain own m where c: "map_of (lq_claims q) (t, k) = Some (own, m)" by (cases c) auto
  with assms recovered_message(1) [OF assms(1) c] show ?thesis
    by (auto simp: local_recover_cases local_owner_def local_pending_def local_holding_def split: if_splits)
qed

interpretation local: queue_contract local_adapter local_inv local_pending local_holding local_owner local_seen
proof (unfold_locales, goal_cases)
  case 1 then show ?case by (simp add: local_claim_inv)
next
  case 2 then show ?case by (simp add: local_claim_view(1))
next
  case 3 then show ?case by (simp add: local_claim_view(2))
next
  case 4 then show ?case by (auto simp: local_complete_task_def local_inv_def distinct_delete)
next
  case 5 then show ?case by (auto simp: local_complete_task_def local_defs split: if_splits)
next
  case 6 then show ?case by (auto simp: local_complete_task_def split: if_splits)
next
  case 7 then show ?case by (auto simp: local_complete_task_def)
next
  case 8 then show ?case by (simp add: local_fail_inv)
next
  case 9 then show ?case by (auto simp: local_fail_task_def local_defs split: if_splits option.splits)
next
  case 10 then show ?case by (auto simp: local_fail_task_def split: if_splits option.splits)
next
  case 11 then show ?case by (simp add: local_release_inv)
next
  case 12 then show ?case
    by (auto simp: local_release_lease_def local_owner_def local_pending_def local_holding_def local_inv_def
        dest: claim_wf split: if_splits option.splits)
next
  case 13 then show ?case by (auto simp: local_release_lease_def split: if_splits option.splits)
next
  case 14 then show ?case by (auto simp: local_heartbeat_def split: if_splits)
next
  case 15 then show ?case by (auto simp: local_heartbeat_def split: if_splits)
next
  case 16 then show ?case by (auto simp: local_heartbeat_def)
next
  case 17 then show ?case by (auto simp: local_cancel_task_def local_inv_def list_all_iff)
next
  case 18 then show ?case
    by (auto simp: local_cancel_task_def local_holding_def local_pending_def list_ex_iff split: if_splits)
next
  case 19 then show ?case by (simp add: local_recover_inv)
next
  case 20 then show ?case unfolding local_adapter_sel by (rule local_recover_view)
next
  case 21 then show ?case by (auto simp: local_recover_cases split: if_splits option.splits list.splits)
next
  case 22 then show ?case by (simp add: local_retry_inv)
next
  case (23 t q k r q')
  then have "\<not> local_holding q t k"
    by (auto simp: local_retry_dead_letter_def local_holding_def split: if_splits)
  with 23 show ?case by (auto simp: local_pending_def list_ex_iff elim: local_retry_SomeE)
next
  case 24 then show ?case
    by (auto simp: local_retry_dead_letter_def local_pending_def local_holding_def
        split: if_splits sum.splits option.splits)
next
  case 25 then show ?case by (simp add: local_move_inv)
next
  case 26 then show ?case
    by (auto simp: local_move_to_dead_letter_def remove_pending_eq local_defs list_ex_iff
        map_of_eq_None_iff split: if_splits)
next
  case 27 then show ?case by (auto simp: local_move_to_dead_letter_def remove_pending_eq split: if_splits)
next
  case 28 then show ?case by (simp add: local_move_owned_inv)
next
  case 29 then show ?case
    by (auto simp: local_move_owned_to_dead_letter_def remove_pending_eq local_defs split: if_splits option.splits)
next
  case 30 then show ?case
    by (auto simp: local_move_owned_to_dead_letter_def remove_pending_eq split: if_splits option.splits)
next
  case 31 then show ?case by (auto simp: local_owner_def local_holding_def)
next
  case 32 then show ?case by (auto simp: local_complete_task_def local_owner_def local_holding_def split: if_splits)
next
  case 33 then show ?case by (auto simp: local_fail_task_def local_owner_def local_holding_def split: if_splits option.splits)
next
  case 34 then show ?case by (auto simp: local_release_lease_def local_owner_def local_holding_def split: if_splits option.splits)
next
  case 35 then show ?case by (auto simp: local_heartbeat_def split: if_splits)
next
  case 36 then show ?case by (auto simp: local_enqueue_task_idempotent_def local_inv_def)
next
  case 37 then show ?case
    by (auto simp: local_enqueue_task_idempotent_def local_seen_def local_pending_def is_task_def)
next
  case 38 then show ?case by (simp add: local_enqueue_task_idempotent_def local_seen_def)
next
  case 39 then show ?case by (auto simp: local_enqueue_task_idempotent_def split: if_splits)
next
  case 40 then show ?case by (auto simp: local_enqueue_task_idempotent_def local_owner_def local_holding_def split: if_splits)
next
  case 41 then show ?case by (auto simp: local_claim_cases split: list.splits dest: dropWhile_Cons_in)
next
  case 42 then show ?case using local_claim_Inr by simp
qed

subsection \<open>Properties\<close>

lemma dead_scan_skip:
  "\<forall>e \<in> set es. map_of e ''task_id'' \<noteq> Some (JStr k) \<Longrightarrow>
     dead_scan t k i (es @ es') = dead_scan t k (i + length es) es'"
  by (induction es arbitrary: i) auto

lemma dead_scan_envelope:
  assumes "wf_message m" and "is_task t k m"
  shows "dead_scan t k i [local_envelope now why (Some m) None None (Some w)] = Inr (Some (i, m))"
proof -
  have "map_of (local_envelope now why (Some m) None None (Some w)) ''task_id'' = Some (JStr k)"
    "dict_of (map_of (local_envelope now why (Some m) None None (Some w)) ''payload'') = Some (message_object m)"
    using assms(2) by (simp_all add: local_envelope_def Let_def local_message_payload_def is_task_def)
  moreover have "map_of (message_object m) ''tenant_id'' = Some (JStr t)"
    using assms(2) by (simp add: message_object_def is_task_def)
  ultimately show ?thesis using local_message_roundtrip [OF assms(1)] by simp
qed

text \<open>
  The in-process queue is first in, first out per tenant. A claim returns a message exactly
  when it is the first message of the tenant whose task nobody holds; the messages before
  it, which belong to other tenants or to claimed tasks, go to the back in their order,
  and the claim is recorded for the worker.
\<close>

theorem local_claim_is_first_claimable:
  "local_claim_task q t w = (Inr (Some m), q') \<longleftrightarrow>
     (\<exists>pre post. lq_queue q = pre @ m # post \<and> claimable t (lq_claims q) m \<and>
        (\<forall>x \<in> set pre. \<not> claimable t (lq_claims q) x) \<and>
        q' = q\<lparr>lq_queue := post @ pre, lq_claims := AList.update (t, q_task_id m) (w, m) (lq_claims q)\<rparr>)"
proof
  assume "local_claim_task q t w = (Inr (Some m), q')"
  then show "\<exists>pre post. lq_queue q = pre @ m # post \<and> claimable t (lq_claims q) m \<and>
        (\<forall>x \<in> set pre. \<not> claimable t (lq_claims q) x) \<and>
        q' = q\<lparr>lq_queue := post @ pre, lq_claims := AList.update (t, q_task_id m) (w, m) (lq_claims q)\<rparr>"
    by (rule local_claim_SomeE) blast
next
  assume "\<exists>pre post. lq_queue q = pre @ m # post \<and> claimable t (lq_claims q) m \<and>
        (\<forall>x \<in> set pre. \<not> claimable t (lq_claims q) x) \<and>
        q' = q\<lparr>lq_queue := post @ pre, lq_claims := AList.update (t, q_task_id m) (w, m) (lq_claims q)\<rparr>"
  then obtain pre post where q: "lq_queue q = pre @ m # post" "claimable t (lq_claims q) m"
    "\<forall>x \<in> set pre. \<not> claimable t (lq_claims q) x"
    and q': "q' = q\<lparr>lq_queue := post @ pre, lq_claims := AList.update (t, q_task_id m) (w, m) (lq_claims q)\<rparr>"
    by blast
  have "claim_scan t (lq_claims q) (length (lq_queue q)) (lq_queue q) = (Some m, post @ pre)"
    unfolding q(1) using q by (intro claim_scan_some) auto
  then show "local_claim_task q t w = (Inr (Some m), q')" by (simp add: local_claim_task_def q')
qed

definition example_local :: local_queue where
  "example_local = local_init\<lparr>lq_queue := [example_message ''acme'' uuid_a, example_message ''beta'' uuid_b,
     example_message ''beta'' uuid_a]\<rparr>"

lemma local_claim_is_first_claimable_witness:
  "\<exists>q'. local_claim_task example_local ''beta'' ''w1'' = (Inr (Some (example_message ''beta'' uuid_b)), q')"
proof -
  have "lq_queue example_local = [example_message ''acme'' uuid_a] @ example_message ''beta'' uuid_b #
      [example_message ''beta'' uuid_a] \<and>
    claimable ''beta'' (lq_claims example_local) (example_message ''beta'' uuid_b) \<and>
    (\<forall>x \<in> set [example_message ''acme'' uuid_a]. \<not> claimable ''beta'' (lq_claims example_local) x)"
    by (simp add: example_local_def claimable_def example_message_def local_init_def)
  then show ?thesis using local_claim_is_first_claimable [of example_local "''beta''" "''w1''"] by blast
qed

text \<open>
  Burying a claimed task in the dead-letter list and retrying it gives back the very message
  that was claimed: no message is lost or duplicated, and claims and dead letters are as
  they were before the claim.
\<close>

theorem local_fail_retry_roundtrip:
  assumes "local_inv t q" and "local_claim_task q t w = (Inr (Some m), q1)"
    and "\<not> local_pending q1 t (q_task_id m)"
    and "\<forall>e \<in> set (lq_dead_letter q). map_of e ''task_id'' \<noteq> Some (JStr (q_task_id m))"
  shows "\<exists>q2 q3. local_fail_task q1 now t (q_task_id m) w why = (op_ok, q2) \<and>
    local_retry_dead_letter q2 t (q_task_id m) = (op_ok, q3) \<and>
    mset (lq_queue q3) = mset (lq_queue q) \<and> lq_claims q3 = lq_claims q \<and>
    lq_dead_letter q3 = lq_dead_letter q"
proof -
  let ?k = "q_task_id m"
  obtain pre post where q: "lq_queue q = pre @ m # post" "claimable t (lq_claims q) m"
    and q1: "q1 = q\<lparr>lq_queue := post @ pre, lq_claims := AList.update (t, ?k) (w, m) (lq_claims q)\<rparr>"
    using assms(2) by (rule local_claim_SomeE)
  from q(2) have m: "is_task t ?k m" and free: "map_of (lq_claims q) (t, ?k) = None"
    by (simp_all add: claimable_def is_task_def)
  from assms(1) q(1) have wf: "wf_message m" by (simp add: local_inv_def)
  let ?e = "local_envelope now why (Some m) None None (Some w)"
  let ?q2 = "q1\<lparr>lq_claims := AList.delete (t, ?k) (lq_claims q1), lq_dead_letter := lq_dead_letter q @ [?e]\<rparr>"
  have f: "local_fail_task q1 now t ?k w why = (op_ok, ?q2)"
    by (simp add: local_fail_task_def local_owner_def q1)
  have "AList.delete (t, ?k) (AList.update (t, ?k) (w, m) (lq_claims q)) = lq_claims q"
    using free by (simp add: delete_update_same)
  moreover have "\<not> list_ex (is_task t ?k) (post @ pre)" using assms(3) by (simp add: local_pending_def q1)
  moreover have "dead_scan t ?k 0 (lq_dead_letter q @ [?e]) = Inr (Some (length (lq_dead_letter q), m))"
    using dead_scan_skip [OF assms(4), of t 0 "[?e]"] dead_scan_envelope [OF wf m] by simp
  ultimately have "local_retry_dead_letter ?q2 t ?k =
      (op_ok, q\<lparr>lq_queue := (post @ pre) @ [m]\<rparr>)"
    using free by (simp add: local_retry_dead_letter_def q1)
  moreover have "mset ((post @ pre) @ [m]) = mset (lq_queue q)" by (simp add: q(1))
  ultimately show ?thesis using f by fastforce
qed

lemma local_fail_retry_roundtrip_witness:
  "\<exists>q1 q2 q3. local_claim_task example_local ''acme'' ''w1'' = (Inr (Some (example_message ''acme'' uuid_a)), q1) \<and>
     local_fail_task q1 9 ''acme'' uuid_a ''w1'' ''boom'' = (op_ok, q2) \<and>
     local_retry_dead_letter q2 ''acme'' uuid_a = (op_ok, q3) \<and> mset (lq_queue q3) = mset (lq_queue example_local)"
proof -
  obtain q1 where q1: "local_claim_task example_local ''acme'' ''w1'' = (Inr (Some (example_message ''acme'' uuid_a)), q1)"
    "\<not> local_pending q1 ''acme'' uuid_a"
    by (simp add: example_local_def local_init_def local_claim_task_def example_message_def local_pending_def
        is_task_def)
  have "local_inv ''acme'' example_local"
    by (simp add: example_local_def local_init_def local_inv_def wf_message_def example_message_def uuid_a_def
        uuid_b_def is_uuid_def uuid_parse_def is_hex_def hex_lower_def)
  moreover have "\<forall>e \<in> set (lq_dead_letter example_local). map_of e ''task_id'' \<noteq> Some (JStr uuid_a)"
    by (simp add: example_local_def local_init_def)
  ultimately show ?thesis
    using local_fail_retry_roundtrip [OF _ q1(1), of 9 "''boom''"] q1 by auto
qed

text \<open>
  A worker keeps its claim. Whatever the other workers of the tenant do (claim, beat,
  complete, fail or release any task, including this one) and whatever is published
  meanwhile, the claimed task stays claimed by the same worker, and no other worker
  receives it.
\<close>

theorem local_ownership_stable:
  assumes "local_inv t q" and "local_owner q t k = Some w"
    and "(foreign_step local_adapter t w)\<^sup>*\<^sup>* q q'"
  shows "local_owner q' t k = Some w \<and>
    (\<forall>w2 m q2. local_claim_task q' t w2 = (Inr (Some m), q2) \<longrightarrow> q_task_id m \<noteq> k)"
proof -
  have "local_inv t q' \<and> local_owner q' t k = Some w"
    using assms by (intro local.ownership_stable)
  then show ?thesis
    using local.claim_some [of t q'] local.owner_holding [of t q' k w] by (metis local_adapter_sel(4))
qed

lemma local_ownership_stable_witness:
  "\<exists>q1 q2. local_claim_task example_local ''beta'' ''w1'' = (Inr (Some (example_message ''beta'' uuid_b)), q1) \<and>
     local_owner q2 ''beta'' uuid_b = Some ''w1'' \<and> snd (local_complete_task q1 ''beta'' uuid_b ''w2'') = q2"
proof -
  obtain q1 where q1: "local_claim_task example_local ''beta'' ''w1'' = (Inr (Some (example_message ''beta'' uuid_b)), q1)"
    "local_owner q1 ''beta'' uuid_b = Some ''w1''"
    by (simp add: example_local_def local_init_def local_claim_task_def example_message_def local_owner_def
        numeral_2_eq_2 numeral_3_eq_3)
  have "local_inv ''beta'' example_local"
    by (simp add: example_local_def local_init_def local_inv_def wf_message_def example_message_def uuid_a_def
        uuid_b_def is_uuid_def uuid_parse_def is_hex_def hex_lower_def)
  then have inv: "local_inv ''beta'' q1" using local_claim_inv [of "''beta''" example_local "''w1''"] q1(1) by simp
  obtain r q2 where q2: "local_complete_task q1 ''beta'' uuid_b ''w2'' = (r, q2)" by (cases "local_complete_task q1 ''beta'' uuid_b ''w2''")
  then have "foreign_step local_adapter ''beta'' ''w1'' q1 q2"
    by (intro foreign_step.completes [of "''w2''"]) auto
  then have "local_owner q2 ''beta'' uuid_b = Some ''w1''"
    using local_ownership_stable [OF inv q1(2), of q2] by blast
  with q1 q2 show ?thesis by auto
qed

end
