(* ===== verification/RedisQueue.thy ===== *)
theory RedisQueue
  imports QueueBase "HOL-Library.Product_Lexorder"
begin

section \<open>The Redis queue adapter\<close>

text \<open>
  \<open>backend/queue/adapters/redis_adapter.py\<close>: \<open>RedisQueueAdapter\<close> and the Lua scripts it
  sends. A script runs atomically in the server, so each is one function from the keys it
  names to its reply and their new contents.

  The keys of one tenant are the fields of \<open>tenant_queue\<close>; \<open>RedisKeys\<close> shows that the key
  names of different fields and of different tenants differ. A hash is an association
  list, a sorted set the list of its (score, member) pairs in the order \<open>ZRANGE\<close> uses,
  a lease key the owner with its expiry on the server's clock. A legacy list is absent
  when it is empty, as in Redis. \<open>rq_odd\<close> names the keys that hold a value of another type,
  which only the migration script looks at.

  What is not in the repository is a parameter: the Lua host (\<open>tostring\<close> of values that are
  no strings, and the value that a text written by \<open>cjson.encode\<close> decodes to, which is not
  the encoded value: an empty array comes back as an empty object).
\<close>

datatype queue_key = LegacyPending | LegacyProcessing | LegacyDead | PendingOrder | PendingPayloads |
  ProcessingPayloads | DeadOrder | DeadPayloads | SequenceKey | SchemaKey

type_synonym zset = "(int \<times> string) list"
type_synonym hash = "(string \<times> raw_text) list"

record tenant_queue =
  rq_legacy_pending :: "raw_text list"
  rq_legacy_processing :: "raw_text list"
  rq_legacy_dead :: "raw_text list"
  rq_pending_order :: zset
  rq_pending :: hash
  rq_processing :: hash
  rq_dead_order :: zset
  rq_dead :: hash
  rq_sequence :: int
  rq_schema :: bool
  rq_odd :: "queue_key list"
  rq_dispatch :: "string list"
  rq_leases :: "(string \<times> (string \<times> time)) list"

definition empty_tenant :: tenant_queue where
  "empty_tenant = \<lparr>rq_legacy_pending = [], rq_legacy_processing = [], rq_legacy_dead = [],
     rq_pending_order = [], rq_pending = [], rq_processing = [], rq_dead_order = [], rq_dead = [],
     rq_sequence = 0, rq_schema = False, rq_odd = [], rq_dispatch = [], rq_leases = []\<rparr>"

text \<open>
  The server with all its tenants; \<open>rs_down\<close> is the error text of the connection when
  the server cannot be reached.
\<close>

record redis_state =
  rs_clock :: time
  rs_down :: "string option"
  rs_tenants :: "string \<Rightarrow> tenant_queue"

record lua_host =
  lua_tostring :: "json \<Rightarrow> string"
  cjson_encode :: "json \<Rightarrow> json"

subsection \<open>Redis commands and Lua values\<close>

definition zrem :: "string \<Rightarrow> zset \<Rightarrow> zset" where
  "zrem k z = filter (\<lambda>(_, m). m \<noteq> k) z"

definition zadd :: "int \<Rightarrow> string \<Rightarrow> zset \<Rightarrow> zset" where
  "zadd score k z = insort (score, k) (zrem k z)"

definition lease_get :: "time \<Rightarrow> tenant_queue \<Rightarrow> string \<Rightarrow> string option" where
  "lease_get clock T k =
     (case map_of (rq_leases T) k of
        None \<Rightarrow> None
      | Some (own, expires) \<Rightarrow> if clock \<le> expires then Some own else None)"

definition lease_set :: "time \<Rightarrow> string \<Rightarrow> string \<Rightarrow> int \<Rightarrow> tenant_queue \<Rightarrow> tenant_queue" where
  "lease_set clock k w ttl T = T\<lparr>rq_leases := AList.update k (w, clock + seconds ttl) (rq_leases T)\<rparr>"

definition lease_expire :: "time \<Rightarrow> string \<Rightarrow> int \<Rightarrow> tenant_queue \<Rightarrow> tenant_queue" where
  "lease_expire clock k ttl T =
     (case lease_get clock T k of None \<Rightarrow> T | Some own \<Rightarrow> lease_set clock k own ttl T)"

definition lease_del :: "string \<Rightarrow> tenant_queue \<Rightarrow> tenant_queue" where
  "lease_del k T = T\<lparr>rq_leases := AList.delete k (rq_leases T)\<rparr>"

text \<open>\<open>INCR\<close> followed by \<open>HSET\<close> and \<open>ZADD\<close>, the way every script queues or buries a payload.\<close>

definition put_pending :: "string \<Rightarrow> raw_text \<Rightarrow> tenant_queue \<Rightarrow> tenant_queue" where
  "put_pending k raw T =
     (let score = rq_sequence T + 1
      in T\<lparr>rq_sequence := score, rq_pending := AList.update k raw (rq_pending T),
           rq_pending_order := zadd score k (rq_pending_order T)\<rparr>)"

definition put_dead :: "string \<Rightarrow> raw_text \<Rightarrow> tenant_queue \<Rightarrow> tenant_queue" where
  "put_dead k raw T =
     (let score = rq_sequence T + 1
      in T\<lparr>rq_sequence := score, rq_dead := AList.update k raw (rq_dead T),
           rq_dead_order := zadd score k (rq_dead_order T)\<rparr>)"

definition drop_pending :: "string \<Rightarrow> tenant_queue \<Rightarrow> tenant_queue" where
  "drop_pending k T = T\<lparr>rq_pending_order := zrem k (rq_pending_order T),
                        rq_pending := AList.delete k (rq_pending T)\<rparr>"

definition drop_processing :: "string \<Rightarrow> tenant_queue \<Rightarrow> tenant_queue" where
  "drop_processing k T = T\<lparr>rq_processing := AList.delete k (rq_processing T)\<rparr>"

text \<open>
  \<open>pcall(cjson.decode, raw)\<close>; \<open>type(x) == "table"\<close>; a field of a table (nil when absent; an
  array has no string fields; a JSON null is \<open>cjson.null\<close>, which is not nil);
  \<open>tostring\<close>.
\<close>

fun cjson_decode :: "raw_text \<Rightarrow> json option" where
  "cjson_decode (Text j) = Some j"
| "cjson_decode (Garbage s) = None"

fun lua_is_table :: "json \<Rightarrow> bool" where
  "lua_is_table (JObj _) = True"
| "lua_is_table (JArr _) = True"
| "lua_is_table _ = False"

fun lua_field :: "json \<Rightarrow> string \<Rightarrow> json option" where
  "lua_field (JObj kvs) k = map_of kvs k"
| "lua_field _ k = None"

fun lua_text :: "lua_host \<Rightarrow> json \<Rightarrow> string" where
  "lua_text H (JStr s) = s"
| "lua_text H v = lua_tostring H v"

definition lua_field_is :: "lua_host \<Rightarrow> json \<Rightarrow> string \<Rightarrow> string \<Rightarrow> bool" where
  "lua_field_is H j k s = (case lua_field j k of None \<Rightarrow> False | Some v \<Rightarrow> lua_text H v = s)"

text \<open>A script replies \<open>{1, text}\<close> or \<open>{0, text}\<close>.\<close>

type_synonym script_reply = "int \<times> string"

definition operation_result :: "script_reply \<Rightarrow> op_result" where
  "operation_result reply = (case reply of (ok, reason) \<Rightarrow> if ok \<noteq> 1 then op_fail reason else op_ok)"

subsection \<open>The migration script\<close>

definition nil_field :: "json \<Rightarrow> string \<Rightarrow> bool" where
  "nil_field j k \<longleftrightarrow> lua_field j k = None"

text \<open>The loops over the legacy pending and processing lists (\<open>kind\<close> is the word of the errors).\<close>

fun legacy_live_rows ::
  "lua_host \<Rightarrow> string \<Rightarrow> string \<Rightarrow> string list \<Rightarrow> raw_text list \<Rightarrow> string + (string \<times> raw_text) list" where
  "legacy_live_rows H t kind seen [] = Inr []"
| "legacy_live_rows H t kind seen (raw # raws) =
     (case cjson_decode raw of
        None \<Rightarrow> Inl (''legacy '' @ kind @ '' payload is corrupt'')
      | Some payload \<Rightarrow>
          (case lua_field payload ''task_id'' of
             None \<Rightarrow> Inl (''legacy '' @ kind @ '' payload is corrupt'')
           | Some kv \<Rightarrow>
               let task_id = lua_text H kv
               in if \<not> lua_field_is H payload ''tenant_id'' t
                  then Inl (''legacy '' @ kind @ '' payload tenant mismatch'')
                  else if task_id \<in> set seen then Inl ''legacy queue contains duplicate live task''
                  else (case legacy_live_rows H t kind (task_id # seen) raws of
                          Inl e \<Rightarrow> Inl e
                        | Inr rows \<Rightarrow> Inr ((task_id, raw) # rows))))"

fun legacy_dead_rows ::
  "lua_host \<Rightarrow> string \<Rightarrow> string list \<Rightarrow> raw_text list \<Rightarrow> string + (string \<times> raw_text) list" where
  "legacy_dead_rows H t seen [] = Inr []"
| "legacy_dead_rows H t seen (raw # raws) =
     (case cjson_decode raw of
        None \<Rightarrow> Inl ''legacy dead-letter payload is corrupt''
      | Some envelope \<Rightarrow>
          (case lua_field envelope ''task_id'' of
             None \<Rightarrow> Inl ''legacy dead-letter payload is corrupt''
           | Some kv \<Rightarrow>
               let task_id = lua_text H kv
               in if (case lua_field envelope ''payload'' of
                        None \<Rightarrow> True
                      | Some p \<Rightarrow> \<not> lua_is_table p \<or> \<not> lua_field_is H p ''tenant_id'' t)
                  then Inl ''legacy dead-letter payload tenant mismatch''
                  else if task_id \<in> set seen then Inl ''legacy queue contains duplicate dead-letter task''
                  else (case legacy_dead_rows H t (task_id # seen) raws of
                          Inl e \<Rightarrow> Inl e
                        | Inr rows \<Rightarrow> Inr ((task_id, raw) # rows))))"

definition legacy_is_empty :: "tenant_queue \<Rightarrow> bool" where
  "legacy_is_empty T \<longleftrightarrow>
     LegacyPending \<notin> set (rq_odd T) \<and> rq_legacy_pending T = [] \<and>
     LegacyProcessing \<notin> set (rq_odd T) \<and> rq_legacy_processing T = [] \<and>
     LegacyDead \<notin> set (rq_odd T) \<and> rq_legacy_dead T = []"

definition odd_among :: "tenant_queue \<Rightarrow> queue_key list \<Rightarrow> bool" where
  "odd_among T ks \<longleftrightarrow> (\<exists>k \<in> set ks. k \<in> set (rq_odd T))"

definition indexed_exists :: "tenant_queue \<Rightarrow> bool" where
  "indexed_exists T \<longleftrightarrow> rq_pending_order T \<noteq> [] \<or> rq_pending T \<noteq> [] \<or> rq_processing T \<noteq> [] \<or>
     rq_dead_order T \<noteq> [] \<or> rq_dead T \<noteq> []"

definition migrate_script :: "lua_host \<Rightarrow> string \<Rightarrow> tenant_queue \<Rightarrow> script_reply \<times> tenant_queue" where
  "migrate_script H t T =
     (if rq_schema T then
        (if \<not> legacy_is_empty T then ((0, ''legacy queue received data after indexed migration''), T)
         else ((1, ''ready''), T))
      else if odd_among T [LegacyPending, LegacyProcessing, LegacyDead]
        then ((0, ''legacy queue key has unexpected type''), T)
      else if odd_among T [PendingOrder, DeadOrder]
        then ((0, ''indexed order key has unexpected type''), T)
      else if odd_among T [PendingPayloads, ProcessingPayloads, DeadPayloads]
        then ((0, ''indexed payload key has unexpected type''), T)
      else if indexed_exists T
        then ((0, ''partial indexed queue exists without schema marker''), T)
      else case legacy_live_rows H t ''pending'' [] (rq_legacy_pending T) of
        Inl e \<Rightarrow> ((0, e), T)
      | Inr pending_rows \<Rightarrow>
        (case legacy_live_rows H t ''processing'' (map fst pending_rows) (rq_legacy_processing T) of
           Inl e \<Rightarrow> ((0, e), T)
         | Inr processing_rows \<Rightarrow>
           (case legacy_dead_rows H t [] (rq_legacy_dead T) of
              Inl e \<Rightarrow> ((0, e), T)
            | Inr dead_rows \<Rightarrow>
                let T1 = fold (\<lambda>(k, raw). put_pending k raw) pending_rows T;
                    T2 = fold (\<lambda>(k, raw) T. T\<lparr>rq_processing := AList.update k raw (rq_processing T)\<rparr>)
                           processing_rows T1;
                    T3 = fold (\<lambda>(k, raw). put_dead k raw) dead_rows T2
                in ((1, ''migrated''),
                    T3\<lparr>rq_legacy_pending := [], rq_legacy_processing := [], rq_legacy_dead := [],
                       rq_schema := True\<rparr>))))"

subsection \<open>The operation scripts\<close>

definition enqueue_script :: "string \<Rightarrow> raw_text \<Rightarrow> tenant_queue \<Rightarrow> script_reply \<times> tenant_queue" where
  "enqueue_script k payload T =
     (if map_of (rq_processing T) k \<noteq> None then ((0, ''task already processing''), T)
      else if map_of (rq_pending T) k \<noteq> None then ((0, ''task already pending''), T)
      else ((1, ''published''), put_pending k payload T))"

definition idempotent_enqueue_script ::
  "string \<Rightarrow> string \<Rightarrow> raw_text \<Rightarrow> tenant_queue \<Rightarrow> script_reply \<times> tenant_queue" where
  "idempotent_enqueue_script key k payload T =
     (if key \<in> set (rq_dispatch T) then ((1, ''already_published''), T)
      else if map_of (rq_processing T) k \<noteq> None then ((0, ''task already processing''), T)
      else if map_of (rq_pending T) k \<noteq> None then ((0, ''task already pending''), T)
      else ((1, ''published''), (put_pending k payload T)\<lparr>rq_dispatch := key # rq_dispatch T\<rparr>))"

definition cancel_script :: "string \<Rightarrow> tenant_queue \<Rightarrow> script_reply \<times> tenant_queue" where
  "cancel_script k T =
     (if map_of (rq_processing T) k \<noteq> None
      then ((0, ''task is processing with an active owner''), T)
      else ((1, ''cancelled''), drop_pending k T))"

text \<open>The claim script replies \<open>{1, payload}\<close> (Inr) or \<open>{0, text}\<close> (Inl).\<close>

definition claim_next_script ::
  "time \<Rightarrow> string \<Rightarrow> int \<Rightarrow> tenant_queue \<Rightarrow> (string + raw_text) \<times> tenant_queue" where
  "claim_next_script clock w ttl T =
     (case rq_pending_order T of
        [] \<Rightarrow> (Inl ''empty'', T)
      | (_, k) # _ \<Rightarrow>
          (case map_of (rq_pending T) k of
             None \<Rightarrow> (Inl ''pending index is missing payload'', T)
           | Some payload \<Rightarrow>
               if lease_get clock T k \<noteq> None
               then (Inl ''task already claimed by different worker'', T)
               else let T1 = drop_pending k T;
                        T2 = T1\<lparr>rq_processing := AList.update k payload (rq_processing T1)\<rparr>
                    in (Inr payload, lease_set clock k w ttl T2)))"

definition claim_existing_script ::
  "time \<Rightarrow> string \<Rightarrow> string \<Rightarrow> int \<Rightarrow> tenant_queue \<Rightarrow> script_reply \<times> tenant_queue" where
  "claim_existing_script clock k w ttl T =
     (case map_of (rq_processing T) k of
        Some _ \<Rightarrow>
          (case lease_get clock T k of
             None \<Rightarrow> ((0, ''processing payload has no worker owner''), T)
           | Some own \<Rightarrow>
               if own \<noteq> w then ((0, ''task already claimed by different worker''), T)
               else ((1, ''ok''), lease_expire clock k ttl T))
      | None \<Rightarrow>
          (case map_of (rq_pending T) k of
             None \<Rightarrow> ((0, ''task not found in pending or processing queue''), T)
           | Some payload \<Rightarrow>
               if (case lease_get clock T k of None \<Rightarrow> False | Some own \<Rightarrow> own \<noteq> w)
               then ((0, ''task already claimed by different worker''), T)
               else let T1 = drop_pending k T;
                        T2 = T1\<lparr>rq_processing := AList.update k payload (rq_processing T1)\<rparr>
                    in ((1, ''ok''), lease_set clock k w ttl T2)))"

definition heartbeat_script ::
  "time \<Rightarrow> string \<Rightarrow> string \<Rightarrow> int \<Rightarrow> tenant_queue \<Rightarrow> script_reply \<times> tenant_queue" where
  "heartbeat_script clock k w ttl T =
     (case lease_get clock T k of
        None \<Rightarrow> ((0, ''lease owner missing''), T)
      | Some own \<Rightarrow>
          if own \<noteq> w then ((0, ''worker does not own claim''), T)
          else ((1, ''ok''), lease_expire clock k ttl T))"

definition complete_script :: "time \<Rightarrow> string \<Rightarrow> string \<Rightarrow> tenant_queue \<Rightarrow> script_reply \<times> tenant_queue" where
  "complete_script clock k w T =
     (case lease_get clock T k of
        None \<Rightarrow> ((0, ''lease owner missing''), T)
      | Some own \<Rightarrow>
          if own \<noteq> w then ((0, ''worker does not own claim''), T)
          else if map_of (rq_processing T) k = None then ((0, ''task not found in processing queue''), T)
          else ((1, ''ok''), lease_del k (drop_processing k T)))"

definition fail_envelope :: "string \<Rightarrow> string \<Rightarrow> string \<Rightarrow> time \<Rightarrow> json \<Rightarrow> dict" where
  "fail_envelope k w why failed_at payload =
     [(''task_id'', JStr k), (''worker_id'', JStr w), (''reason'', JStr why),
      (''failed_at'', JStamp failed_at), (''payload'', payload)]"

definition fail_script ::
  "lua_host \<Rightarrow> time \<Rightarrow> string \<Rightarrow> string \<Rightarrow> string \<Rightarrow> time \<Rightarrow> tenant_queue \<Rightarrow> script_reply \<times> tenant_queue" where
  "fail_script H clock k w why failed_at T =
     (case lease_get clock T k of
        None \<Rightarrow> ((0, ''lease owner missing''), T)
      | Some own \<Rightarrow>
          if own \<noteq> w then ((0, ''worker does not own claim''), T)
          else (case map_of (rq_processing T) k of
             None \<Rightarrow> ((0, ''task not found in processing queue''), T)
           | Some raw \<Rightarrow>
               (case cjson_decode raw of
                  None \<Rightarrow> ((0, ''processing payload is corrupt''), T)
                | Some payload \<Rightarrow>
                    if \<not> lua_is_table payload then ((0, ''processing payload is corrupt''), T)
                    else ((1, ''ok''),
                          lease_del k (put_dead k
                            (Text (cjson_encode H (JObj (fail_envelope k w why failed_at payload))))
                            (drop_processing k T))))))"

definition release_script :: "time \<Rightarrow> string \<Rightarrow> string \<Rightarrow> tenant_queue \<Rightarrow> script_reply \<times> tenant_queue" where
  "release_script clock k w T =
     (case lease_get clock T k of
        None \<Rightarrow> ((0, ''lease owner missing''), T)
      | Some own \<Rightarrow>
          if own \<noteq> w then ((0, ''worker does not own claim''), T)
          else (case map_of (rq_processing T) k of
             None \<Rightarrow> ((0, ''task not found in processing queue''), T)
           | Some payload \<Rightarrow> ((1, ''ok''), lease_del k (put_pending k payload (drop_processing k T)))))"

definition recover_script :: "time \<Rightarrow> string \<Rightarrow> string \<Rightarrow> tenant_queue \<Rightarrow> script_reply \<times> tenant_queue" where
  "recover_script clock k w T =
     (if (case lease_get clock T k of None \<Rightarrow> False | Some own \<Rightarrow> own \<noteq> w)
      then ((0, ''worker does not own claim''), T)
      else case (map_of (rq_processing T) k, map_of (rq_pending T) k) of
             (Some _, Some _) \<Rightarrow> ((0, ''task exists in both pending and processing queues''), T)
           | (Some payload, None) \<Rightarrow> ((1, ''ok''), lease_del k (put_pending k payload (drop_processing k T)))
           | (None, Some payload) \<Rightarrow> ((1, ''ok''), lease_del k (put_pending k payload (drop_processing k T)))
           | (None, None) \<Rightarrow> ((0, ''task not found in processing or pending queue''), T))"

text \<open>The payload the dead-letter script buries; None when it is corrupt.\<close>

definition dead_letter_payload :: "string \<Rightarrow> string \<Rightarrow> tenant_queue \<Rightarrow> json option" where
  "dead_letter_payload t k T =
     (case (case map_of (rq_processing T) k of Some r \<Rightarrow> Some r | None \<Rightarrow> map_of (rq_pending T) k) of
        Some r \<Rightarrow> (case cjson_decode r of
            None \<Rightarrow> None
          | Some d \<Rightarrow> if lua_is_table d then Some d else None)
      | None \<Rightarrow> Some (JObj [(''tenant_id'', JStr t), (''task_id'', JStr k),
                  (''source'', JStr ''runtime_recovery_without_processing_payload'')]))"

definition dead_letter_envelope :: "string \<Rightarrow> string \<Rightarrow> string \<Rightarrow> time \<Rightarrow> json \<Rightarrow> dict" where
  "dead_letter_envelope k expected why moved_at p =
     [(''task_id'', JStr k), (''reason'', JStr why), (''moved_at'', JStamp moved_at), (''payload'', p)] @
     (if expected \<noteq> [] then [(''worker_id'', JStr expected)] else [])"

definition dead_letter_script ::
  "lua_host \<Rightarrow> time \<Rightarrow> string \<Rightarrow> string \<Rightarrow> string \<Rightarrow> time \<Rightarrow> string \<Rightarrow> tenant_queue \<Rightarrow>
     script_reply \<times> tenant_queue" where
  "dead_letter_script H clock k expected why moved_at t T =
     (let owner = lease_get clock T k
      in if expected = [] \<and> owner \<noteq> None then ((0, ''active worker owns claim''), T)
         else if expected \<noteq> [] \<and> owner \<noteq> None \<and> owner \<noteq> Some expected
           then ((0, ''worker does not own claim''), T)
         else if map_of (rq_processing T) k \<noteq> None \<and> map_of (rq_pending T) k \<noteq> None
           then ((0, ''task exists in both pending and processing queues''), T)
         else case dead_letter_payload t k T of
                None \<Rightarrow> ((0, ''queue payload is corrupt''), T)
              | Some p \<Rightarrow>
                  ((1, ''ok''),
                   lease_del k (put_dead k
                     (Text (cjson_encode H (JObj (dead_letter_envelope k expected why moved_at p))))
                     (drop_pending k (drop_processing k T)))))"

text \<open>The checks of the retry script on the stored envelope: an error, or the payload to queue.\<close>

definition retry_checked :: "lua_host \<Rightarrow> string \<Rightarrow> string \<Rightarrow> raw_text \<Rightarrow> string + json" where
  "retry_checked H t k raw =
     (case cjson_decode raw of
        None \<Rightarrow> Inl ''dead-letter payload is corrupt: invalid envelope''
      | Some envelope \<Rightarrow>
          if \<not> lua_is_table envelope then Inl ''dead-letter payload is corrupt: invalid envelope''
          else (case lua_field envelope ''payload'' of
             None \<Rightarrow> Inl ''dead-letter payload is corrupt: payload is not an object''
           | Some payload \<Rightarrow>
               if \<not> lua_is_table payload
               then Inl ''dead-letter payload is corrupt: payload is not an object''
               else if \<not> lua_field_is H payload ''tenant_id'' t
               then Inl ''dead-letter payload is corrupt: tenant_id mismatch''
               else if \<not> lua_field_is H payload ''task_id'' k
               then Inl ''dead-letter payload is corrupt: task_id mismatch''
               else if nil_field payload ''mission_id''
               then Inl ''dead-letter payload is corrupt: missing mission_id''
               else if (case lua_field payload ''payload'' of None \<Rightarrow> True | Some b \<Rightarrow> \<not> lua_is_table b)
               then Inl ''dead-letter payload is corrupt: missing payload''
               else if nil_field payload ''enqueued_at''
               then Inl ''dead-letter payload is corrupt: missing enqueued_at''
               else Inr payload))"

definition retry_script :: "lua_host \<Rightarrow> string \<Rightarrow> string \<Rightarrow> tenant_queue \<Rightarrow> script_reply \<times> tenant_queue" where
  "retry_script H t k T =
     (if map_of (rq_pending T) k \<noteq> None then ((0, ''task already pending''), T)
      else if map_of (rq_processing T) k \<noteq> None then ((0, ''task already processing''), T)
      else case map_of (rq_dead T) k of
        None \<Rightarrow> ((0, ''dead-letter entry not found''), T)
      | Some raw \<Rightarrow>
          (case retry_checked H t k raw of
             Inl why \<Rightarrow> ((0, why), T)
           | Inr payload \<Rightarrow>
               ((1, ''ok''), put_pending k (Text (cjson_encode H payload))
                  (T\<lparr>rq_dead := AList.delete k (rq_dead T),
                     rq_dead_order := zrem k (rq_dead_order T)\<rparr>))))"

subsection \<open>Encoding\<close>

text \<open>\<open>json.dumps(..., sort_keys=True)\<close> writes every object with its keys in order.\<close>

fun sort_json :: "json \<Rightarrow> json" where
  "sort_json (JObj kvs) = JObj (sort_key fst (map (\<lambda>(k, v). (k, sort_json v)) kvs))"
| "sort_json (JArr xs) = JArr (map sort_json xs)"
| "sort_json v = v"

definition redis_encode_message :: "queue_message \<Rightarrow> raw_text" where
  "redis_encode_message m = Text (sort_json (JObj (message_object m)))"

text \<open>\<open>dict(value)\<close>; a list has to hold [key, value] lists (two-character strings, which
  \<open>dict\<close> also takes as pairs, are refused here).\<close>

fun dict_call :: "json \<Rightarrow> dict result" where
  "dict_call (JObj kvs) = Inr kvs"
| "dict_call (JStr s) = (if s = [] then Inr [] else Inl (ValueError ''dictionary update sequence element''))"
| "dict_call (JArr xs) =
     foldl (\<lambda>acc x. bind_result acc (\<lambda>d. case x of
              JArr [JStr k, v] \<Rightarrow> Inr (AList.update k v d)
            | _ \<Rightarrow> Inl (TypeError ''cannot convert dictionary update sequence element''))) (Inr []) xs"
| "dict_call v = Inl (TypeError ''object is not iterable'')"

text \<open>\<open>uuid.UUID(value)\<close> without \<open>str()\<close>: only a string has \<open>replace\<close>.\<close>

fun uuid_call :: "json \<Rightarrow> uuid result" where
  "uuid_call (JStr s) =
     (case uuid_parse s of None \<Rightarrow> Inl (ValueError ''badly formed hexadecimal UUID string'') | Some u \<Rightarrow> Inr u)"
| "uuid_call (JStamp t) = Inl (ValueError ''badly formed hexadecimal UUID string'')"
| "uuid_call JNull = Inl (TypeError ''one of the hex, bytes, bytes_le, fields, or int arguments must be given'')"
| "uuid_call v = Inl (AttributeError ''object has no attribute replace'')"

fun fromisoformat :: "json \<Rightarrow> time result" where
  "fromisoformat (JStamp t) = Inr t"
| "fromisoformat (JStr s) = Inl (ValueError (''Invalid isoformat string: '' @ quoted s))"
| "fromisoformat v = Inl (TypeError ''fromisoformat: argument must be str'')"

definition item :: "dict \<Rightarrow> string \<Rightarrow> json result" where
  "item d k = (case map_of d k of None \<Rightarrow> Inl (KeyError k) | Some v \<Rightarrow> Inr v)"

definition optional_id :: "dict \<Rightarrow> string \<Rightarrow> uuid option result" where
  "optional_id d k =
     (case map_of d k of
        None \<Rightarrow> Inr None
      | Some v \<Rightarrow> if truthy v then bind_result (uuid_call v) (\<lambda>u. Inr (Some u)) else Inr None)"

text \<open>
  \<open>_decode_message\<close>. A \<open>tenant_id\<close> that is no string, which the code passes on and every
  caller then refuses or ignores, is an error here.
\<close>

definition redis_decode_message :: "raw_text \<Rightarrow> queue_message result" where
  "redis_decode_message raw =
     (case raw of
        Garbage s \<Rightarrow> Inl (ValueError ''Expecting value'')
      | Text j \<Rightarrow>
         (case j of
            JObj data \<Rightarrow>
              bind_result (item data ''tenant_id'') (\<lambda>tv.
              bind_result (case tv of JStr s \<Rightarrow> Inr s | _ \<Rightarrow> Inl (TypeError ''tenant_id must be str'')) (\<lambda>tenant.
              bind_result (bind_result (item data ''task_id'') uuid_call) (\<lambda>task.
              bind_result (bind_result (item data ''mission_id'') uuid_call) (\<lambda>mission.
              bind_result (optional_id data ''fleet_id'') (\<lambda>fleet.
              bind_result (optional_id data ''branch_id'') (\<lambda>branch.
              bind_result (case map_of data ''payload'' of None \<Rightarrow> Inr [] | Some v \<Rightarrow> dict_call v) (\<lambda>body.
              bind_result (bind_result (item data ''enqueued_at'') fromisoformat) (\<lambda>enq.
                Inr \<lparr>q_tenant_id = tenant, q_task_id = task, q_mission_id = mission,
                     q_fleet_id = fleet, q_branch_id = branch, q_payload = body,
                     q_enqueued_at = enq\<rparr>))))))))
          | _ \<Rightarrow> Inl (TypeError ''indices must be integers or slices, not str'')))"

subsection \<open>The operations\<close>

definition queue_of :: "redis_state \<Rightarrow> string \<Rightarrow> tenant_queue" where
  "queue_of s t = rs_tenants s t"

definition set_queue :: "string \<Rightarrow> tenant_queue \<Rightarrow> redis_state \<Rightarrow> redis_state" where
  "set_queue t T s = s\<lparr>rs_tenants := (rs_tenants s)(t := T)\<rparr>"

text \<open>
  \<open>_execute\<close> of a script on the keys of tenant \<open>t\<close>: a connection error is an exception.
\<close>

definition execute ::
  "redis_state \<Rightarrow> string \<Rightarrow> (tenant_queue \<Rightarrow> 'r \<times> tenant_queue) \<Rightarrow> 'r result \<times> redis_state" where
  "execute s t script =
     (case rs_down s of
        Some msg \<Rightarrow> (Inl (RuntimeError msg), s)
      | None \<Rightarrow> (case script (queue_of s t) of (reply, T) \<Rightarrow> (Inr reply, set_queue t T s)))"

definition ensure_queue_schema :: "lua_host \<Rightarrow> redis_state \<Rightarrow> string \<Rightarrow> unit result \<times> redis_state" where
  "ensure_queue_schema H s t =
     (case execute s t (migrate_script H t) of
        (Inl e, s') \<Rightarrow> (Inl e, s')
      | (Inr reply, s') \<Rightarrow>
          (let parsed = operation_result reply
           in if \<not> r_ok parsed
              then (Inl (RedisProtocolError (case r_reason parsed of
                      None \<Rightarrow> ''queue schema migration failed''
                    | Some why \<Rightarrow> if why = [] then ''queue schema migration failed'' else why)), s')
              else (Inr (), s')))"

text \<open>\<open>_run_operation\<close> and, with the same shape, the bodies of the two enqueue methods.\<close>

definition run_operation ::
  "lua_host \<Rightarrow> redis_state \<Rightarrow> string \<Rightarrow> string \<Rightarrow> (tenant_queue \<Rightarrow> script_reply \<times> tenant_queue) \<Rightarrow>
     op_result \<times> redis_state" where
  "run_operation H s t operation script =
     (case ensure_queue_schema H s t of
        (Inl e, s1) \<Rightarrow> (op_fail (operation @ '' failed: '' @ exn_text e), s1)
      | (Inr _, s1) \<Rightarrow>
          (case execute s1 t script of
             (Inl e, s2) \<Rightarrow> (op_fail (operation @ '' failed: '' @ exn_text e), s2)
           | (Inr reply, s2) \<Rightarrow> (operation_result reply, s2)))"

definition redis_ping :: "redis_state \<Rightarrow> bool" where
  "redis_ping s \<longleftrightarrow> rs_down s = None"

definition redis_enqueue_task :: "lua_host \<Rightarrow> redis_state \<Rightarrow> queue_message \<Rightarrow> op_result \<times> redis_state" where
  "redis_enqueue_task H s m =
     run_operation H s (q_tenant_id m) ''enqueue'' (enqueue_script (q_task_id m) (redis_encode_message m))"

definition redis_enqueue_task_idempotent ::
  "lua_host \<Rightarrow> redis_state \<Rightarrow> queue_message \<Rightarrow> string \<Rightarrow> op_result \<times> redis_state" where
  "redis_enqueue_task_idempotent H s m key =
     run_operation H s (q_tenant_id m) ''idempotent enqueue''
       (idempotent_enqueue_script key (q_task_id m) (redis_encode_message m))"

definition redis_cancel_task :: "lua_host \<Rightarrow> redis_state \<Rightarrow> string \<Rightarrow> uuid \<Rightarrow> op_result \<times> redis_state" where
  "redis_cancel_task H s t k = run_operation H s t ''cancel'' (cancel_script k)"

definition redis_claim_task ::
  "lua_host \<Rightarrow> int \<Rightarrow> redis_state \<Rightarrow> string \<Rightarrow> string \<Rightarrow> queue_message option result \<times> redis_state" where
  "redis_claim_task H ttl s t w =
     (let failed = (\<lambda>e. Inl (RuntimeError (''claim_task failed: '' @ exn_text e)))
      in case ensure_queue_schema H s t of
        (Inl e, s1) \<Rightarrow> (failed e, s1)
      | (Inr _, s1) \<Rightarrow>
          (case execute s1 t (claim_next_script (rs_clock s1) w ttl) of
             (Inl e, s2) \<Rightarrow> (failed e, s2)
           | (Inr (Inl why), s2) \<Rightarrow>
               if why = ''empty'' then (Inr None, s2) else (failed (RedisProtocolError why), s2)
           | (Inr (Inr raw), s2) \<Rightarrow>
               (case redis_decode_message raw of
                  Inl e \<Rightarrow> (failed e, s2)
                | Inr m \<Rightarrow> (Inr (Some m), s2))))"

definition redis_claim_existing_task ::
  "lua_host \<Rightarrow> int \<Rightarrow> redis_state \<Rightarrow> string \<Rightarrow> uuid \<Rightarrow> string \<Rightarrow> op_result \<times> redis_state" where
  "redis_claim_existing_task H ttl s t k w =
     run_operation H s t ''claim'' (claim_existing_script (rs_clock s) k w ttl)"

definition redis_heartbeat ::
  "lua_host \<Rightarrow> int \<Rightarrow> redis_state \<Rightarrow> string \<Rightarrow> uuid \<Rightarrow> string \<Rightarrow> op_result \<times> redis_state" where
  "redis_heartbeat H ttl s t k w = run_operation H s t ''heartbeat'' (heartbeat_script (rs_clock s) k w ttl)"

definition redis_complete_task ::
  "lua_host \<Rightarrow> redis_state \<Rightarrow> string \<Rightarrow> uuid \<Rightarrow> string \<Rightarrow> op_result \<times> redis_state" where
  "redis_complete_task H s t k w = run_operation H s t ''complete'' (complete_script (rs_clock s) k w)"

definition redis_fail_task ::
  "lua_host \<Rightarrow> redis_state \<Rightarrow> time \<Rightarrow> string \<Rightarrow> uuid \<Rightarrow> string \<Rightarrow> string \<Rightarrow> op_result \<times> redis_state" where
  "redis_fail_task H s now t k w why =
     run_operation H s t ''fail'' (fail_script H (rs_clock s) k w why now)"

definition redis_release_lease ::
  "lua_host \<Rightarrow> redis_state \<Rightarrow> string \<Rightarrow> uuid \<Rightarrow> string \<Rightarrow> op_result \<times> redis_state" where
  "redis_release_lease H s t k w = run_operation H s t ''release'' (release_script (rs_clock s) k w)"

definition redis_recover_task_for_retry ::
  "lua_host \<Rightarrow> redis_state \<Rightarrow> string \<Rightarrow> uuid \<Rightarrow> string \<Rightarrow> op_result \<times> redis_state" where
  "redis_recover_task_for_retry H s t k w = run_operation H s t ''recovery'' (recover_script (rs_clock s) k w)"

definition redis_dead_letter ::
  "lua_host \<Rightarrow> redis_state \<Rightarrow> time \<Rightarrow> string \<Rightarrow> uuid \<Rightarrow> string option \<Rightarrow> string \<Rightarrow> op_result \<times> redis_state" where
  "redis_dead_letter H s now t k worker why =
     (let w = (case worker of None \<Rightarrow> [] | Some w \<Rightarrow> w)
      in run_operation H s t (if w \<noteq> [] then ''owner dead-letter'' else ''dead-letter'')
           (dead_letter_script H (rs_clock s) k w why now t))"

definition redis_move_to_dead_letter ::
  "lua_host \<Rightarrow> redis_state \<Rightarrow> time \<Rightarrow> string \<Rightarrow> uuid \<Rightarrow> string \<Rightarrow> op_result \<times> redis_state" where
  "redis_move_to_dead_letter H s now t k why = redis_dead_letter H s now t k None why"

definition redis_move_owned_to_dead_letter ::
  "lua_host \<Rightarrow> redis_state \<Rightarrow> time \<Rightarrow> string \<Rightarrow> uuid \<Rightarrow> string \<Rightarrow> string \<Rightarrow> op_result \<times> redis_state" where
  "redis_move_owned_to_dead_letter H s now t k w why = redis_dead_letter H s now t k (Some w) why"

definition redis_retry_dead_letter ::
  "lua_host \<Rightarrow> redis_state \<Rightarrow> string \<Rightarrow> uuid \<Rightarrow> op_result \<times> redis_state" where
  "redis_retry_dead_letter H s t k = run_operation H s t ''retry'' (retry_script H t k)"

text \<open>\<open>list_processing\<close>: a payload whose decoding raises \<open>KeyError\<close>, \<open>TypeError\<close> or
  \<open>ValueError\<close> is reported; any other exception ends the listing.\<close>

fun decode_error_reported :: "exn \<Rightarrow> bool" where
  "decode_error_reported (KeyError _) = True"
| "decode_error_reported (TypeError _) = True"
| "decode_error_reported e = is_value_error e"

definition inspect_processing :: "string \<Rightarrow> raw_text \<Rightarrow> payload_inspection result" where
  "inspect_processing t raw =
     (case redis_decode_message raw of
        Inl e \<Rightarrow>
          if decode_error_reported e
          then Inr \<lparr>pi_tenant_id = t, pi_raw = raw, pi_message = None,
                    pi_error = Some (''processing payload is corrupt: '' @ exn_text e)\<rparr>
          else Inl e
      | Inr m \<Rightarrow> Inr \<lparr>pi_tenant_id = t, pi_raw = raw, pi_message = Some m,
            pi_error = (if q_tenant_id m \<noteq> t then Some ''processing payload tenant mismatch'' else None)\<rparr>)"

fun collect :: "('a \<Rightarrow> 'b result) \<Rightarrow> 'a list \<Rightarrow> 'b list result" where
  "collect f [] = Inr []"
| "collect f (x # xs) = bind_result (f x) (\<lambda>y. bind_result (collect f xs) (\<lambda>ys. Inr (y # ys)))"

definition redis_list_processing ::
  "lua_host \<Rightarrow> redis_state \<Rightarrow> string \<Rightarrow> payload_inspection list result \<times> redis_state" where
  "redis_list_processing H s t =
     (let failed = (\<lambda>e. Inl (RuntimeError (''list_processing failed: '' @ exn_text e)))
      in case ensure_queue_schema H s t of
           (Inl e, s1) \<Rightarrow> (failed e, s1)
         | (Inr _, s1) \<Rightarrow>
             (case collect (inspect_processing t) (map snd (rq_processing (queue_of s1 t))) of
                Inl e \<Rightarrow> (failed e, s1)
              | Inr xs \<Rightarrow> (Inr xs, s1)))"

definition redis_dead_entry :: "string \<Rightarrow> raw_text \<Rightarrow> dead_letter_entry option" where
  "redis_dead_entry t raw =
     (case raw of
        Garbage s \<Rightarrow> Some \<lparr>dl_tenant_id = t, dl_task_id = None, dl_raw = raw, dl_payload = None,
           dl_reason = None, dl_error = Some ''dead-letter payload is corrupt: Expecting value''\<rparr>
      | Text j \<Rightarrow>
         (case dict_of (Some j) of
            None \<Rightarrow> Some \<lparr>dl_tenant_id = t, dl_task_id = None, dl_raw = raw, dl_payload = None,
               dl_reason = None, dl_error = Some ''dead-letter payload is not an object''\<rparr>
          | Some e \<Rightarrow>
             (let tenant = (case dict_of (map_of e ''payload'') of None \<Rightarrow> None
                              | Some p \<Rightarrow> map_of p ''tenant_id'')
              in if tenant \<noteq> Some (JStr t) then None
                 else let task = (case map_of e ''task_id'' of None \<Rightarrow> None | Some v \<Rightarrow> uuid_of_json v)
                      in Some \<lparr>dl_tenant_id = t, dl_task_id = task, dl_raw = raw, dl_payload = Some e,
                           dl_reason = (case map_of e ''reason'' of None \<Rightarrow> None | Some v \<Rightarrow> reason_text v),
                           dl_error = (if task = None
                             then Some ''dead-letter envelope has invalid task_id'' else None)\<rparr>)))"

definition redis_list_dead_letter ::
  "lua_host \<Rightarrow> redis_state \<Rightarrow> string \<Rightarrow> dead_letter_entry list result \<times> redis_state" where
  "redis_list_dead_letter H s t =
     (case ensure_queue_schema H s t of
        (Inl e, s1) \<Rightarrow> (Inl (RuntimeError (''list_dead_letter failed: '' @ exn_text e)), s1)
      | (Inr _, s1) \<Rightarrow> (Inr (List.map_filter (redis_dead_entry t) (map snd (rq_dead (queue_of s1 t)))), s1))"

definition redis_pending_depth :: "lua_host \<Rightarrow> redis_state \<Rightarrow> string \<Rightarrow> nat \<times> redis_state" where
  "redis_pending_depth H s t =
     (case ensure_queue_schema H s t of
        (Inl e, s1) \<Rightarrow> (0, s1)
      | (Inr _, s1) \<Rightarrow> (length (rq_pending_order (queue_of s1 t)), s1))"

definition redis_adapter :: "lua_host \<Rightarrow> int \<Rightarrow> redis_state queue_adapter" where
  "redis_adapter H ttl =
     \<lparr>ping = redis_ping,
      enqueue_task = redis_enqueue_task H,
      enqueue_task_idempotent = redis_enqueue_task_idempotent H,
      cancel_task = redis_cancel_task H,
      claim_task = redis_claim_task H ttl,
      claim_existing_task = redis_claim_existing_task H ttl,
      heartbeat = redis_heartbeat H ttl,
      complete_task = redis_complete_task H,
      fail_task = redis_fail_task H,
      release_lease = redis_release_lease H,
      recover_task_for_retry = redis_recover_task_for_retry H,
      move_to_dead_letter = redis_move_to_dead_letter H,
      move_owned_to_dead_letter = redis_move_owned_to_dead_letter H,
      list_processing = redis_list_processing H,
      list_dead_letter = redis_list_dead_letter H,
      retry_dead_letter = redis_retry_dead_letter H,
      pending_depth = redis_pending_depth H\<rparr>"

end
