(* ===== verification/RedisInvariant.thy ===== *)
theory RedisInvariant
  imports RedisQueue
begin

section \<open>The invariant of the Redis queue and its contract\<close>

text \<open>
  What every script keeps of a tenant's keys once they are migrated: the sorted sets index
  their hashes, no task is both pending and being processed, a live lease belongs to a
  task being processed, and every stored payload decodes to a message of its tenant and
  task. From it follows the contract of \<open>QueueBase\<close>.
\<close>

subsection \<open>Well-formed payloads\<close>

definition uuid_field :: "json option \<Rightarrow> bool" where
  "uuid_field x \<longleftrightarrow> (case x of Some (JStr u) \<Rightarrow> is_uuid u | _ \<Rightarrow> False)"

definition opt_uuid_field :: "json option \<Rightarrow> bool" where
  "opt_uuid_field x \<longleftrightarrow> x = None \<or> x = Some JNull \<or> uuid_field x"

definition good_body :: "string \<Rightarrow> string \<Rightarrow> json \<Rightarrow> bool" where
  "good_body t k j \<longleftrightarrow>
     lua_is_table j \<and> lua_field j ''tenant_id'' = Some (JStr t) \<and> lua_field j ''task_id'' = Some (JStr k) \<and>
     is_uuid k \<and> uuid_field (lua_field j ''mission_id'') \<and> opt_uuid_field (lua_field j ''fleet_id'') \<and>
     opt_uuid_field (lua_field j ''branch_id'') \<and>
     (case lua_field j ''payload'' of Some (JObj d) \<Rightarrow> True | _ \<Rightarrow> False) \<and>
     (case lua_field j ''enqueued_at'' of Some (JStamp e) \<Rightarrow> True | _ \<Rightarrow> False)"

definition good_payload :: "string \<Rightarrow> string \<Rightarrow> raw_text \<Rightarrow> bool" where
  "good_payload t k raw \<longleftrightarrow> (case raw of Text j \<Rightarrow> good_body t k j | Garbage _ \<Rightarrow> False)"

definition good_dead :: "string \<Rightarrow> raw_text \<Rightarrow> bool" where
  "good_dead t raw \<longleftrightarrow>
     (case raw of
        Text j \<Rightarrow> (case lua_field j ''payload'' of
            None \<Rightarrow> False
          | Some p \<Rightarrow> lua_field p ''mission_id'' = None \<or> (\<exists>k. good_body t k p))
      | Garbage _ \<Rightarrow> False)"

text \<open>
  What the code relies on of \<open>cjson.encode\<close>: the text of an object decodes to an object with
  the same keys whose strings and nulls are the same.
\<close>

definition lua_host_ok :: "lua_host \<Rightarrow> bool" where
  "lua_host_ok H \<longleftrightarrow>
     (\<forall>kvs. \<exists>kvs'. cjson_encode H (JObj kvs) = JObj kvs' \<and>
        (\<forall>k. map_of kvs' k = map_option (cjson_encode H) (map_of kvs k))) \<and>
     (\<forall>s. cjson_encode H (JStr s) = JStr s) \<and> (\<forall>e. cjson_encode H (JStamp e) = JStamp e) \<and>
     cjson_encode H JNull = JNull"

lemma lua_host_obj_field:
  assumes "lua_host_ok H"
  shows "lua_field (cjson_encode H (JObj kvs)) k = map_option (cjson_encode H) (map_of kvs k)"
  using assms unfolding lua_host_ok_def by (metis lua_field.simps(1))

lemma good_bodyE:
  assumes "good_body t k j"
  obtains kvs m d e where "j = JObj kvs" "map_of kvs ''tenant_id'' = Some (JStr t)"
    "map_of kvs ''task_id'' = Some (JStr k)" "is_uuid k" "map_of kvs ''mission_id'' = Some (JStr m)" "is_uuid m"
    "opt_uuid_field (map_of kvs ''fleet_id'')" "opt_uuid_field (map_of kvs ''branch_id'')"
    "map_of kvs ''payload'' = Some (JObj d)" "map_of kvs ''enqueued_at'' = Some (JStamp e)"
  using assms by (cases j) (auto simp: good_body_def uuid_field_def split: option.splits json.splits)

lemma uuid_field_encode:
  "lua_host_ok H \<Longrightarrow> opt_uuid_field x \<Longrightarrow> opt_uuid_field (map_option (cjson_encode H) x)"
  by (auto simp: opt_uuid_field_def uuid_field_def lua_host_ok_def split: option.splits json.splits)

lemma good_body_encode:
  assumes H: "lua_host_ok H" and "good_body t k j"
  shows "good_body t k (cjson_encode H j)"
proof -
  from assms(2) obtain kvs m d e where j: "j = JObj kvs" "map_of kvs ''tenant_id'' = Some (JStr t)"
    "map_of kvs ''task_id'' = Some (JStr k)" "is_uuid k" "map_of kvs ''mission_id'' = Some (JStr m)" "is_uuid m"
    "opt_uuid_field (map_of kvs ''fleet_id'')" "opt_uuid_field (map_of kvs ''branch_id'')"
    "map_of kvs ''payload'' = Some (JObj d)" "map_of kvs ''enqueued_at'' = Some (JStamp e)"
    by (rule good_bodyE)
  from H obtain kvs' d' where enc: "cjson_encode H (JObj kvs) = JObj kvs'" "cjson_encode H (JObj d) = JObj d'"
    unfolding lua_host_ok_def by metis
  have fields: "\<And>x. map_of kvs' x = map_option (cjson_encode H) (map_of kvs x)"
    using lua_host_obj_field [OF H, of kvs] enc by simp
  from H have atoms: "\<And>s. cjson_encode H (JStr s) = JStr s" "\<And>e. cjson_encode H (JStamp e) = JStamp e"
    by (simp_all add: lua_host_ok_def)
  show ?thesis
    using j enc atoms uuid_field_encode [OF H] by (simp add: good_body_def fields uuid_field_def)
qed

lemma optional_id_ok:
  assumes "opt_uuid_field (map_of d k)"
  shows "\<exists>x. optional_id d k = Inr x \<and> (\<forall>u. x = Some u \<longrightarrow> is_uuid u)"
proof -
  consider "map_of d k = None" | "map_of d k = Some JNull" | u where "map_of d k = Some (JStr u)" "is_uuid u"
    using assms by (auto simp: opt_uuid_field_def uuid_field_def split: option.splits json.splits)
  then show ?thesis
  proof cases
    case 3
    then have "optional_id d k = Inr (Some u)"
      using uuid_not_empty [of u] by (simp add: optional_id_def is_uuid_def)
    with 3 show ?thesis by simp
  qed (simp_all add: optional_id_def)
qed

lemma good_payload_decode:
  assumes "good_payload t k raw"
  obtains m where "redis_decode_message raw = Inr m" "q_tenant_id m = t" "q_task_id m = k" "wf_message m"
proof -
  from assms obtain j where raw: "raw = Text j" and "good_body t k j"
    by (auto simp: good_payload_def split: raw_text.splits)
  then obtain kvs m d e where j: "j = JObj kvs" "map_of kvs ''tenant_id'' = Some (JStr t)"
    "map_of kvs ''task_id'' = Some (JStr k)" "is_uuid k" "map_of kvs ''mission_id'' = Some (JStr m)" "is_uuid m"
    "opt_uuid_field (map_of kvs ''fleet_id'')" "opt_uuid_field (map_of kvs ''branch_id'')"
    "map_of kvs ''payload'' = Some (JObj d)" "map_of kvs ''enqueued_at'' = Some (JStamp e)"
    by (elim good_bodyE)
  from optional_id_ok [OF j(7)] obtain f where f: "optional_id kvs ''fleet_id'' = Inr f" "\<forall>u. f = Some u \<longrightarrow> is_uuid u"
    by blast
  from optional_id_ok [OF j(8)] obtain b where b: "optional_id kvs ''branch_id'' = Inr b" "\<forall>u. b = Some u \<longrightarrow> is_uuid u"
    by blast
  from j f b have "redis_decode_message raw = Inr \<lparr>q_tenant_id = t, q_task_id = k, q_mission_id = m,
      q_fleet_id = f, q_branch_id = b, q_payload = d, q_enqueued_at = e\<rparr>"
    by (simp add: redis_decode_message_def raw item_def is_uuid_def)
  with j f b that show thesis by (auto simp: wf_message_def)
qed

lemma map_of_sorted:
  assumes "distinct (map fst kvs)"
  shows "map_of (sort_key fst kvs) = map_of kvs"
proof -
  have "distinct (map fst (sort_key fst kvs))"
    using assms by (simp add: distinct_map)
  with assms show ?thesis by (simp add: map_of_inject_set)
qed

text \<open>An encoded message is a good payload of its tenant and task.\<close>

lemma message_object_sorted:
  assumes "sort_json (JObj (message_object m)) = JObj kvs"
  shows "map_of kvs = map_of (map (\<lambda>(k, v). (k, sort_json v)) (message_object m))"
  using assms by (auto simp: message_object_def intro!: map_of_sorted)

lemma encode_good: "wf_message m \<Longrightarrow> good_payload (q_tenant_id m) (q_task_id m) (redis_encode_message m)"
proof -
  assume wf: "wf_message m"
  obtain kvs where enc: "sort_json (JObj (message_object m)) = JObj kvs" by simp
  have "opt_uuid_field (Some (sort_json (opt_str (q_fleet_id m))))"
    "opt_uuid_field (Some (sort_json (opt_str (q_branch_id m))))"
    using wf by (auto simp: wf_message_def opt_str_def opt_uuid_field_def uuid_field_def split: option.split)
  with wf show ?thesis
    unfolding good_payload_def redis_encode_message_def enc good_body_def raw_text.case lua_field.simps
      message_object_sorted [OF enc]
    by (simp add: message_object_def wf_message_def uuid_field_def)
qed

subsection \<open>Sorted sets\<close>

definition zset_ok :: "zset \<Rightarrow> hash \<Rightarrow> int \<Rightarrow> bool" where
  "zset_ok z h n \<longleftrightarrow> sorted z \<and> distinct (map snd z) \<and> set (map snd z) = dom (map_of h) \<and>
     (\<forall>(s, k) \<in> set z. s \<le> n)"

lemma zrem_absent [simp]: "k \<notin> snd ` set z \<Longrightarrow> zrem k z = z"
  by (force simp: zrem_def filter_id_conv)

lemma set_zrem [simp]: "set (zrem k z) = {x \<in> set z. snd x \<noteq> k}"
  by (auto simp: zrem_def)

lemma zset_ok_zrem:
  "zset_ok z h n \<Longrightarrow> map_of h' = (map_of h)(k := None) \<Longrightarrow> zset_ok (zrem k z) h' n"
  unfolding zset_ok_def
proof (intro conjI; elim conjE)
  assume z: "distinct (map snd z)"
  then show "distinct (map snd (zrem k z))"
    by (auto simp: zrem_def distinct_map intro: inj_on_subset)
qed (auto simp: zrem_def sorted_wrt_filter, force+)

lemma zset_ok_delete [simp]: "zset_ok z h n \<Longrightarrow> zset_ok (zrem k z) (AList.delete k h) n"
  by (rule zset_ok_zrem) simp_all

text \<open>A new score is above every other, so \<open>ZADD\<close> of a fresh score appends.\<close>

lemma zadd_fresh:
  "\<forall>(s, k) \<in> set z. s \<le> n \<Longrightarrow> sorted z \<Longrightarrow> zadd (n + 1) k z = zrem k z @ [(n + 1, k)]"
proof -
  assume le: "\<forall>(s, k) \<in> set z. s \<le> n" and "sorted z"
  then have "sorted (zrem k z)" by (simp add: zrem_def sorted_wrt_filter)
  moreover have "\<forall>x \<in> set (zrem k z). x \<le> (n + 1, k)"
    using le by (auto simp: less_eq_prod_def)
  ultimately have "insort (n + 1, k) (zrem k z) = zrem k z @ [(n + 1, k)]"
    by (induction "zrem k z" arbitrary: z rule: list.induct)
      (simp_all add: insort_is_Cons sorted_insort_is_snoc)
  then show ?thesis by (simp add: zadd_def)
qed

lemma zset_ok_zadd:
  assumes "zset_ok z h n" and "map_of h' = (map_of h)(k \<mapsto> r)"
  shows "zset_ok (zadd (n + 1) k z) h' (n + 1)"
proof -
  from assms(1) have z: "sorted z" "\<forall>(s, k) \<in> set z. s \<le> n" by (simp_all add: zset_ok_def)
  have "zset_ok (zrem k z) (AList.delete k h) n" using assms(1) by (rule zset_ok_zrem) simp
  then have r: "sorted (zrem k z)" "distinct (map snd (zrem k z))"
    "snd ` set (zrem k z) = dom ((map_of h)(k := None))" "\<forall>(s, k) \<in> set (zrem k z). s \<le> n"
    by (simp_all add: zset_ok_def)
  have "\<forall>x \<in> set (zrem k z). x \<le> (n + 1, k)" using r(4) by (auto simp: less_eq_prod_def)
  then have "sorted (zrem k z @ [(n + 1, k)])" using r(1) by (simp add: sorted_append)
  moreover have "distinct (map snd (zrem k z @ [(n + 1, k)]))" using r(2) by auto
  moreover have "set (map snd (zrem k z @ [(n + 1, k)])) = dom (map_of h')"
    using r(3) assms(2) by (simp add: insert_absorb)
  moreover have "\<forall>(s, k) \<in> set (zrem k z @ [(n + 1, k)]). s \<le> n + 1" using r(4) by auto
  ultimately show ?thesis unfolding zset_ok_def zadd_fresh [OF z(2) z(1)] by blast
qed

lemma zset_ok_mono: "zset_ok z h n \<Longrightarrow> n \<le> n' \<Longrightarrow> zset_ok z h n'"
  by (force simp: zset_ok_def)

subsection \<open>The invariant of a tenant's keys\<close>

definition hash_all :: "(string \<Rightarrow> raw_text \<Rightarrow> bool) \<Rightarrow> hash \<Rightarrow> bool" where
  "hash_all P h \<longleftrightarrow> (\<forall>k raw. map_of h k = Some raw \<longrightarrow> P k raw)"

definition disjoint_hash :: "hash \<Rightarrow> hash \<Rightarrow> bool" where
  "disjoint_hash h h' \<longleftrightarrow> (\<forall>k. map_of h k = None \<or> map_of h' k = None)"

definition leases_processing :: "time \<Rightarrow> tenant_queue \<Rightarrow> bool" where
  "leases_processing clock T \<longleftrightarrow> (\<forall>k. lease_get clock T k \<noteq> None \<longrightarrow> map_of (rq_processing T) k \<noteq> None)"

lemma hash_allD: "hash_all P h \<Longrightarrow> map_of h k = Some r \<Longrightarrow> P k r"
  by (simp add: hash_all_def)

lemma hash_all_simps [simp]:
  "hash_all P []"
  "hash_all P h \<Longrightarrow> P k r \<Longrightarrow> hash_all P (AList.update k r h)"
  "hash_all P h \<Longrightarrow> hash_all P (AList.delete k h)"
  by (simp_all add: hash_all_def)

lemma disjoint_hash_simps [simp]:
  "disjoint_hash [] h'"
  "disjoint_hash h h' \<Longrightarrow> map_of h' k = None \<Longrightarrow> disjoint_hash (AList.update k r h) h'"
  "disjoint_hash h h' \<Longrightarrow> disjoint_hash (AList.delete k h) h'"
  "disjoint_hash h h' \<Longrightarrow> disjoint_hash h (AList.delete k h')"
  "disjoint_hash h h' \<Longrightarrow> disjoint_hash (AList.delete k h) (AList.update k r h')"
  by (auto simp: disjoint_hash_def)

lemma disjoint_hashD: "disjoint_hash h h' \<Longrightarrow> map_of h k = Some r \<Longrightarrow> map_of h' k = None"
  unfolding disjoint_hash_def by (metis option.distinct(1))

definition wf_tenant :: "string \<Rightarrow> time \<Rightarrow> tenant_queue \<Rightarrow> bool" where
  "wf_tenant t clock T \<longleftrightarrow>
     rq_schema T \<and> legacy_is_empty T \<and>
     zset_ok (rq_pending_order T) (rq_pending T) (rq_sequence T) \<and>
     zset_ok (rq_dead_order T) (rq_dead T) (rq_sequence T) \<and>
     disjoint_hash (rq_pending T) (rq_processing T) \<and> leases_processing clock T \<and>
     hash_all (good_payload t) (rq_pending T) \<and> hash_all (good_payload t) (rq_processing T) \<and>
     hash_all (\<lambda>_. good_dead t) (rq_dead T)"

lemmas tenant_ops = put_pending_def put_dead_def drop_pending_def drop_processing_def lease_del_def
  lease_set_def Let_def

lemma tenant_op_fields [simp]:
  "rq_pending (put_pending k r T) = AList.update k r (rq_pending T)"
  "rq_processing (put_pending k r T) = rq_processing T"
  "rq_dead (put_pending k r T) = rq_dead T"
  "rq_pending (put_dead k r T) = rq_pending T"
  "rq_processing (put_dead k r T) = rq_processing T"
  "rq_dead (put_dead k r T) = AList.update k r (rq_dead T)"
  "rq_pending (drop_pending k T) = AList.delete k (rq_pending T)"
  "rq_processing (drop_pending k T) = rq_processing T"
  "rq_dead (drop_pending k T) = rq_dead T"
  "rq_pending (drop_processing k T) = rq_pending T" "rq_dead (drop_processing k T) = rq_dead T"
  "rq_processing (drop_processing k T) = AList.delete k (rq_processing T)"
  "rq_pending (lease_del k T) = rq_pending T"
  "rq_processing (lease_del k T) = rq_processing T"
  "rq_dead (lease_del k T) = rq_dead T"
  "rq_pending (lease_set c k w ttl T) = rq_pending T"
  "rq_processing (lease_set c k w ttl T) = rq_processing T"
  "rq_dead (lease_set c k w ttl T) = rq_dead T"
  "rq_leases (put_pending k r T) = rq_leases T"
  "rq_leases (put_dead k r T) = rq_leases T"
  "rq_leases (drop_pending k T) = rq_leases T"
  "rq_leases (drop_processing k T) = rq_leases T"
  by (simp_all add: tenant_ops)

lemma lease_get_del [simp]: "lease_get c (lease_del k T) j = (if j = k then None else lease_get c T j)"
  by (simp add: lease_get_def lease_del_def)

lemma lease_get_set [simp]:
  "0 < ttl \<Longrightarrow> lease_get c (lease_set c k w ttl T) j = (if j = k then Some w else lease_get c T j)"
  by (simp add: lease_get_def lease_set_def seconds_def)

lemma lease_get_same [simp]:
  "lease_get c (put_pending k r T) j = lease_get c T j"
  "lease_get c (put_dead k r T) j = lease_get c T j"
  "lease_get c (drop_pending k T) j = lease_get c T j"
  "lease_get c (drop_processing k T) j = lease_get c T j"
  "lease_get c (T\<lparr>rq_processing := p\<rparr>) j = lease_get c T j"
  "lease_get c (T\<lparr>rq_dispatch := d\<rparr>) j = lease_get c T j"
  "lease_get c (T\<lparr>rq_dead := h, rq_dead_order := z\<rparr>) j = lease_get c T j"
  by (simp_all add: lease_get_def tenant_ops)

lemma lease_get_mono: "c \<le> c' \<Longrightarrow> lease_get c' T k = Some w \<Longrightarrow> lease_get c T k = Some w"
  by (auto simp: lease_get_def split: option.splits if_splits)

lemma leases_processing_simps [simp]:
  "leases_processing c (put_pending k r T) = leases_processing c T"
  "leases_processing c (put_dead k r T) = leases_processing c T"
  "leases_processing c (drop_pending k T) = leases_processing c T"
  "leases_processing c T \<Longrightarrow> leases_processing c (lease_del k (drop_processing k T))"
  "leases_processing c T \<Longrightarrow> 0 < ttl \<Longrightarrow>
     leases_processing c (lease_set c k w ttl (T\<lparr>rq_processing := AList.update k r (rq_processing T)\<rparr>))"
  "leases_processing c (T\<lparr>rq_dispatch := d\<rparr>) = leases_processing c T"
  "leases_processing c (T\<lparr>rq_dead := h, rq_dead_order := z\<rparr>) = leases_processing c T"
  by (simp_all add: leases_processing_def)

lemma leases_processing_extend:
  "leases_processing c T \<Longrightarrow> 0 < ttl \<Longrightarrow> map_of (rq_processing T) k \<noteq> None \<Longrightarrow>
     leases_processing c (lease_set c k w ttl T)"
  by (simp add: leases_processing_def)

lemma leases_processing_later: "leases_processing c T \<Longrightarrow> c \<le> c' \<Longrightarrow> leases_processing c' T"
  unfolding leases_processing_def by (metis lease_get_mono not_None_eq)

lemma legacy_is_empty_same [simp]:
  "legacy_is_empty (put_pending k r T) = legacy_is_empty T"
  "legacy_is_empty (put_dead k r T) = legacy_is_empty T"
  "legacy_is_empty (drop_pending k T) = legacy_is_empty T"
  "legacy_is_empty (drop_processing k T) = legacy_is_empty T"
  "legacy_is_empty (lease_del k T) = legacy_is_empty T"
  "legacy_is_empty (lease_set c k w ttl T) = legacy_is_empty T"
  "legacy_is_empty (T\<lparr>rq_processing := p\<rparr>) = legacy_is_empty T"
  "legacy_is_empty (T\<lparr>rq_dispatch := d\<rparr>) = legacy_is_empty T"
  "legacy_is_empty (T\<lparr>rq_dead := h, rq_dead_order := z\<rparr>) = legacy_is_empty T"
  by (simp_all add: legacy_is_empty_def tenant_ops)

text \<open>Deleting the lease last, as the scripts do, is deleting it first.\<close>

lemma lease_del_comm:
  "lease_del k (put_pending j r T) = put_pending j r (lease_del k T)"
  "lease_del k (put_dead j r T) = put_dead j r (lease_del k T)"
  "lease_del k (drop_pending j T) = drop_pending j (lease_del k T)"
  by (simp_all add: tenant_ops)

lemma wf_put_pending:
  assumes "wf_tenant t c T" and "good_payload t k raw" and "map_of (rq_processing T) k = None"
  shows "wf_tenant t c (put_pending k raw T)"
proof -
  from assms(1) have "zset_ok (zadd (rq_sequence T + 1) k (rq_pending_order T))
      (AList.update k raw (rq_pending T)) (rq_sequence T + 1)"
    unfolding wf_tenant_def by (intro zset_ok_zadd) auto
  moreover from assms(1) have "zset_ok (rq_dead_order T) (rq_dead T) (rq_sequence T + 1)"
    unfolding wf_tenant_def by (auto intro: zset_ok_mono)
  ultimately have "zset_ok (rq_pending_order (put_pending k raw T)) (rq_pending (put_pending k raw T))
      (rq_sequence (put_pending k raw T)) \<and> rq_schema (put_pending k raw T) = rq_schema T \<and>
      zset_ok (rq_dead_order (put_pending k raw T)) (rq_dead (put_pending k raw T))
      (rq_sequence (put_pending k raw T))"
    by (simp add: put_pending_def Let_def)
  with assms show ?thesis by (simp add: wf_tenant_def)
qed

lemma wf_put_dead:
  assumes "wf_tenant t c T" and "good_dead t raw"
  shows "wf_tenant t c (put_dead k raw T)"
proof -
  from assms(1) have "zset_ok (zadd (rq_sequence T + 1) k (rq_dead_order T))
      (AList.update k raw (rq_dead T)) (rq_sequence T + 1)"
    unfolding wf_tenant_def by (intro zset_ok_zadd) auto
  moreover from assms(1) have "zset_ok (rq_pending_order T) (rq_pending T) (rq_sequence T + 1)"
    unfolding wf_tenant_def by (auto intro: zset_ok_mono)
  ultimately have "zset_ok (rq_pending_order (put_dead k raw T)) (rq_pending (put_dead k raw T))
      (rq_sequence (put_dead k raw T)) \<and> rq_schema (put_dead k raw T) = rq_schema T \<and>
      zset_ok (rq_dead_order (put_dead k raw T)) (rq_dead (put_dead k raw T))
      (rq_sequence (put_dead k raw T))"
    by (simp add: put_dead_def Let_def)
  with assms show ?thesis by (simp add: wf_tenant_def)
qed

lemma index_fields [simp]:
  "rq_schema (drop_pending k T) = rq_schema T" "rq_sequence (drop_pending k T) = rq_sequence T"
  "rq_dead_order (drop_pending k T) = rq_dead_order T"
  "rq_pending_order (drop_pending k T) = zrem k (rq_pending_order T)"
  "rq_schema (lease_del k T) = rq_schema T" "rq_schema (drop_processing k T) = rq_schema T"
  "rq_schema (lease_set c k w ttl T) = rq_schema T"
  "rq_pending_order (lease_del k T) = rq_pending_order T"
  "rq_pending_order (drop_processing k T) = rq_pending_order T"
  "rq_pending_order (lease_set c k w ttl T) = rq_pending_order T"
  "rq_dead_order (lease_del k T) = rq_dead_order T"
  "rq_dead_order (drop_processing k T) = rq_dead_order T"
  "rq_dead_order (lease_set c k w ttl T) = rq_dead_order T"
  "rq_sequence (lease_del k T) = rq_sequence T" "rq_sequence (drop_processing k T) = rq_sequence T"
  "rq_sequence (lease_set c k w ttl T) = rq_sequence T"
  by (simp_all add: tenant_ops)

lemma wf_drop_pending: "wf_tenant t c T \<Longrightarrow> wf_tenant t c (drop_pending k T)"
  by (simp add: wf_tenant_def)

lemma wf_finish: "wf_tenant t c T \<Longrightarrow> wf_tenant t c (lease_del k (drop_processing k T))"
  by (simp add: wf_tenant_def)

lemma wf_start:
  assumes "wf_tenant t c T" and "map_of (rq_pending T) k = Some raw" and "0 < ttl"
  shows "wf_tenant t c (lease_set c k w ttl
    ((drop_pending k T)\<lparr>rq_processing := AList.update k raw (rq_processing T)\<rparr>))"
proof -
  from assms(1) have "wf_tenant t c (drop_pending k T)" by (rule wf_drop_pending)
  moreover have "good_payload t k raw"
    using assms(1,2) unfolding wf_tenant_def by (blast intro: hash_allD)
  moreover from assms(1,3) leases_processing_simps(5) [of c "drop_pending k T" ttl k w raw]
  have "leases_processing c (lease_set c k w ttl
      ((drop_pending k T)\<lparr>rq_processing := AList.update k raw (rq_processing T)\<rparr>))"
    by (simp add: wf_tenant_def)
  moreover from assms(1) have "disjoint_hash (AList.delete k (rq_pending T)) (AList.update k raw (rq_processing T))"
    by (simp add: wf_tenant_def)
  ultimately show ?thesis by (simp add: wf_tenant_def)
qed

lemma wf_lease_expire: "wf_tenant t c T \<Longrightarrow> 0 < ttl \<Longrightarrow> wf_tenant t c (lease_expire c k ttl T)"
proof (cases "lease_get c T k")
  case (Some own)
  moreover assume "wf_tenant t c T" and "0 < ttl"
  moreover from calculation have "map_of (rq_processing T) k \<noteq> None"
    by (simp add: wf_tenant_def leases_processing_def)
  ultimately show ?thesis by (simp add: lease_expire_def wf_tenant_def leases_processing_extend)
qed (simp add: lease_expire_def)

text \<open>Time only makes leases lapse.\<close>

lemma wf_tenant_later: "wf_tenant t c T \<Longrightarrow> c \<le> c' \<Longrightarrow> wf_tenant t c' T"
  unfolding wf_tenant_def by (blast intro: leases_processing_later)

subsection \<open>Every script keeps the invariant\<close>

lemma wf_idle: "wf_tenant t c T \<Longrightarrow> map_of (rq_pending T) k = Some r \<Longrightarrow> map_of (rq_processing T) k = None"
  unfolding wf_tenant_def by (blast intro: disjoint_hashD)

lemma wf_payload:
  "wf_tenant t c T \<Longrightarrow> map_of (rq_pending T) k = Some r \<Longrightarrow> good_payload t k r"
  "wf_tenant t c T \<Longrightarrow> map_of (rq_processing T) k = Some r \<Longrightarrow> good_payload t k r"
  unfolding wf_tenant_def by (blast intro: hash_allD)+

lemma wf_no_lease [simp]:
  "wf_tenant t c T \<Longrightarrow> map_of (rq_processing T) k = None \<Longrightarrow> lease_get c T k = None"
  unfolding wf_tenant_def leases_processing_def by blast

lemma good_dead_envelope:
  assumes "lua_host_ok H" and "good_payload t k (Text p) \<or> lua_field p ''mission_id'' = None \<and> (\<exists>d. p = JObj d)"
    and "map_of env ''payload'' = Some p"
  shows "good_dead t (Text (cjson_encode H (JObj env)))"
proof -
  have field: "lua_field (cjson_encode H (JObj env)) ''payload'' = Some (cjson_encode H p)"
    using lua_host_obj_field [OF assms(1)] assms(3) by simp
  show ?thesis
  proof (cases "good_payload t k (Text p)")
    case True
    then have "good_body t k (cjson_encode H p)"
      using good_body_encode [OF assms(1)] by (simp add: good_payload_def)
    with field show ?thesis by (auto simp: good_dead_def)
  next
    case False
    with assms(2) obtain d where "p = JObj d" "map_of d ''mission_id'' = None" by auto
    with field lua_host_obj_field [OF assms(1), of d] show ?thesis by (simp add: good_dead_def)
  qed
qed

lemma good_payload_text:
  "good_payload t k r \<Longrightarrow> \<exists>p. r = Text p \<and> lua_is_table p"
  by (auto simp: good_payload_def good_body_def split: raw_text.splits)

lemma migrate_ready: "wf_tenant t c T \<Longrightarrow> migrate_script H t T = ((1, ''ready''), T)"
  by (simp add: migrate_script_def wf_tenant_def)

lemma wf_enqueue_script:
  "wf_tenant t c T \<Longrightarrow> good_payload t k r \<Longrightarrow> wf_tenant t c (snd (enqueue_script k r T))"
  by (simp add: enqueue_script_def wf_put_pending)

lemma wf_dispatch_mark: "wf_tenant t c T \<Longrightarrow> wf_tenant t c (T\<lparr>rq_dispatch := d\<rparr>)"
  by (simp add: wf_tenant_def)

lemma wf_idempotent_enqueue_script:
  "wf_tenant t c T \<Longrightarrow> good_payload t k r \<Longrightarrow> wf_tenant t c (snd (idempotent_enqueue_script key k r T))"
  by (simp add: idempotent_enqueue_script_def wf_put_pending wf_dispatch_mark)

lemma wf_cancel_script: "wf_tenant t c T \<Longrightarrow> wf_tenant t c (snd (cancel_script k T))"
  by (simp add: cancel_script_def wf_drop_pending)

lemma wf_claim_next_script:
  "wf_tenant t c T \<Longrightarrow> 0 < ttl \<Longrightarrow> wf_tenant t c (snd (claim_next_script c w ttl T))"
  by (auto simp: claim_next_script_def Let_def wf_start split: list.split option.split)

lemma wf_claim_existing_script:
  "wf_tenant t c T \<Longrightarrow> 0 < ttl \<Longrightarrow> wf_tenant t c (snd (claim_existing_script c k w ttl T))"
  by (auto simp: claim_existing_script_def Let_def wf_start wf_lease_expire split: option.split)

lemma wf_heartbeat_script:
  "wf_tenant t c T \<Longrightarrow> 0 < ttl \<Longrightarrow> wf_tenant t c (snd (heartbeat_script c k w ttl T))"
  by (auto simp: heartbeat_script_def wf_lease_expire split: option.split)

lemma wf_complete_script: "wf_tenant t c T \<Longrightarrow> wf_tenant t c (snd (complete_script c k w T))"
  by (auto simp: complete_script_def wf_finish split: option.split)

lemma wf_requeue:
  assumes "wf_tenant t c T" and "map_of (rq_processing T) k = Some r \<or> map_of (rq_pending T) k = Some r"
  shows "wf_tenant t c (lease_del k (put_pending k r (drop_processing k T)))"
  using assms wf_payload [OF assms(1)] unfolding lease_del_comm
  by (intro wf_put_pending wf_finish) auto

lemma wf_release_script: "wf_tenant t c T \<Longrightarrow> wf_tenant t c (snd (release_script c k w T))"
  by (auto simp: release_script_def wf_requeue split: option.split)

lemma wf_recover_script: "wf_tenant t c T \<Longrightarrow> wf_tenant t c (snd (recover_script c k w T))"
  by (auto simp: recover_script_def wf_requeue split: option.split)

lemma wf_bury:
  assumes "wf_tenant t c T" and "good_dead t r"
  shows "wf_tenant t c (lease_del k (put_dead k r (drop_processing k T)))"
    and "wf_tenant t c (lease_del k (put_dead k r (drop_pending k (drop_processing k T))))"
  using assms unfolding lease_del_comm by (auto intro: wf_put_dead wf_drop_pending wf_finish)

lemma wf_fail_script:
  assumes "lua_host_ok H" and "wf_tenant t c T"
  shows "wf_tenant t c (snd (fail_script H c k w why now T))"
proof (cases "map_of (rq_processing T) k")
  case None
  with assms show ?thesis by (simp add: fail_script_def)
next
  case (Some r)
  have good: "good_payload t k r" using assms(2) Some by (rule wf_payload)
  then obtain p where r: "r = Text p" "lua_is_table p" using good_payload_text by blast
  have "good_dead t (Text (cjson_encode H (JObj (fail_envelope k w why now p))))"
    using good r(1) by (intro good_dead_envelope [OF assms(1)]) (auto simp: fail_envelope_def)
  with assms(2) Some r show ?thesis
    by (simp add: fail_script_def wf_bury split: option.split)
qed

lemma dead_letter_payload_ok:
  assumes "wf_tenant t c T"
  obtains p where "dead_letter_payload t k T = Some p"
    "good_payload t k (Text p) \<or> lua_field p ''mission_id'' = None \<and> (\<exists>d. p = JObj d)"
proof (cases "case map_of (rq_processing T) k of Some r \<Rightarrow> Some r | None \<Rightarrow> map_of (rq_pending T) k")
  case None
  with that show thesis by (simp add: dead_letter_payload_def)
next
  case (Some r)
  then have good: "good_payload t k r" using wf_payload [OF assms] by (auto split: option.splits)
  then obtain p where "r = Text p" "lua_is_table p" using good_payload_text by blast
  with Some good that show thesis by (simp add: dead_letter_payload_def)
qed

lemma wf_dead_letter_script:
  assumes "lua_host_ok H" and "wf_tenant t c T"
  shows "wf_tenant t c (snd (dead_letter_script H c k expected why now t T))"
proof -
  from assms(2) obtain p where p: "dead_letter_payload t k T = Some p"
    "good_payload t k (Text p) \<or> lua_field p ''mission_id'' = None \<and> (\<exists>d. p = JObj d)"
    by (rule dead_letter_payload_ok)
  have "wf_tenant t c (lease_del k (put_dead k
      (Text (cjson_encode H (JObj (dead_letter_envelope k expected why now p))))
      (drop_pending k (drop_processing k T))))"
    by (intro wf_bury(2) [OF assms(2)] good_dead_envelope [OF assms(1) p(2)]) (simp add: dead_letter_envelope_def)
  then show ?thesis
    using assms(2) unfolding dead_letter_script_def Let_def p(1) option.case
    by (simp only: snd_conv if_distrib [of snd] if_cancel split: if_split) blast
qed

lemma retry_checked_Inr:
  assumes "retry_checked H t k raw = Inr p"
  shows "\<exists>j. raw = Text j \<and> lua_field j ''payload'' = Some p \<and> lua_field_is H p ''task_id'' k \<and>
    lua_field p ''mission_id'' \<noteq> None"
  using assms
  by (cases raw) (simp_all add: retry_checked_def nil_field_def split: if_splits option.splits)

lemma wf_retry_script:
  assumes "lua_host_ok H" and "wf_tenant t c T"
  shows "wf_tenant t c (snd (retry_script H t k T))"
proof -
  have "wf_tenant t c (put_pending k (Text (cjson_encode H p))
       (T\<lparr>rq_dead := AList.delete k (rq_dead T), rq_dead_order := zrem k (rq_dead_order T)\<rparr>))"
    if "map_of (rq_processing T) k = None" "map_of (rq_dead T) k = Some raw" "retry_checked H t k raw = Inr p"
    for raw p
  proof -
    from retry_checked_Inr [OF that(3)] obtain j where j: "raw = Text j" "lua_field j ''payload'' = Some p"
      "lua_field_is H p ''task_id'' k" "lua_field p ''mission_id'' \<noteq> None" by blast
    have "hash_all (\<lambda>_. good_dead t) (rq_dead T)" using assms(2) by (simp add: wf_tenant_def)
    from this that(2) have "good_dead t raw" by (rule hash_allD)
    with j obtain k' where "good_body t k' p" by (auto simp: good_dead_def)
    moreover from this j(3) have "k' = k" by (simp add: good_body_def lua_field_is_def)
    ultimately have "good_payload t k (Text (cjson_encode H p))"
      using good_body_encode [OF assms(1)] by (simp add: good_payload_def)
    moreover have "wf_tenant t c (T\<lparr>rq_dead := AList.delete k (rq_dead T),
        rq_dead_order := zrem k (rq_dead_order T)\<rparr>)"
      using assms(2) by (simp add: wf_tenant_def zset_ok_zrem)
    ultimately show ?thesis using that(1) by (intro wf_put_pending) auto
  qed
  then show ?thesis using assms(2) by (simp add: retry_script_def split: option.split sum.split)
qed

subsection \<open>The adapter's operations under the invariant\<close>

definition redis_inv :: "string \<Rightarrow> redis_state \<Rightarrow> bool" where
  "redis_inv t s \<longleftrightarrow> rs_down s = None \<and> wf_tenant t (rs_clock s) (queue_of s t)"

definition redis_pending :: "redis_state \<Rightarrow> string \<Rightarrow> uuid \<Rightarrow> bool" where
  "redis_pending s t k \<longleftrightarrow> map_of (rq_pending (queue_of s t)) k \<noteq> None"

definition redis_holding :: "redis_state \<Rightarrow> string \<Rightarrow> uuid \<Rightarrow> bool" where
  "redis_holding s t k \<longleftrightarrow> map_of (rq_processing (queue_of s t)) k \<noteq> None"

definition redis_owner :: "redis_state \<Rightarrow> string \<Rightarrow> uuid \<Rightarrow> string option" where
  "redis_owner s t k = lease_get (rs_clock s) (queue_of s t) k"

definition redis_seen :: "redis_state \<Rightarrow> string \<Rightarrow> string \<Rightarrow> bool" where
  "redis_seen s t key \<longleftrightarrow> key \<in> set (rq_dispatch (queue_of s t))"

lemma set_queue_simps [simp]:
  "queue_of (set_queue t T s) u = (if u = t then T else queue_of s u)"
  "rs_down (set_queue t T s) = rs_down s" "rs_clock (set_queue t T s) = rs_clock s"
  "set_queue t (queue_of s t) s = s" "set_queue t T (set_queue t U s) = set_queue t T s"
  by (simp_all add: queue_of_def set_queue_def)

lemma ensure_queue_schema_ready: "redis_inv t s \<Longrightarrow> ensure_queue_schema H s t = (Inr (), s)"
  by (auto simp: ensure_queue_schema_def execute_def redis_inv_def migrate_ready operation_result_def Let_def)

lemma run_operation_ready:
  "redis_inv t s \<Longrightarrow> run_operation H s t op script =
     (operation_result (fst (script (queue_of s t))), set_queue t (snd (script (queue_of s t))) s)"
  by (simp add: run_operation_def ensure_queue_schema_ready)
    (simp add: execute_def redis_inv_def case_prod_beta)

lemma redis_inv_set: "redis_inv t s \<Longrightarrow> wf_tenant t (rs_clock s) T \<Longrightarrow> redis_inv t (set_queue t T s)"
  by (simp add: redis_inv_def)

lemma redis_inv_wf: "redis_inv t s \<Longrightarrow> wf_tenant t (rs_clock s) (queue_of s t)"
  by (simp add: redis_inv_def)

subsection \<open>The contract\<close>

lemma operation_result_simps [simp]:
  "operation_result (1, m) = op_ok" "operation_result (0, m) = op_fail m"
  by (simp_all add: operation_result_def)

lemma redis_adapter_sel [simp]:
  "enqueue_task (redis_adapter H ttl) = redis_enqueue_task H"
  "enqueue_task_idempotent (redis_adapter H ttl) = redis_enqueue_task_idempotent H"
  "cancel_task (redis_adapter H ttl) = redis_cancel_task H"
  "claim_task (redis_adapter H ttl) = redis_claim_task H ttl"
  "claim_existing_task (redis_adapter H ttl) = redis_claim_existing_task H ttl"
  "heartbeat (redis_adapter H ttl) = redis_heartbeat H ttl"
  "complete_task (redis_adapter H ttl) = redis_complete_task H"
  "fail_task (redis_adapter H ttl) = redis_fail_task H"
  "release_lease (redis_adapter H ttl) = redis_release_lease H"
  "recover_task_for_retry (redis_adapter H ttl) = redis_recover_task_for_retry H"
  "move_to_dead_letter (redis_adapter H ttl) = redis_move_to_dead_letter H"
  "move_owned_to_dead_letter (redis_adapter H ttl) = redis_move_owned_to_dead_letter H"
  "retry_dead_letter (redis_adapter H ttl) = redis_retry_dead_letter H"
  by (simp_all add: redis_adapter_def)

lemmas redis_ops = redis_cancel_task_def redis_claim_existing_task_def redis_heartbeat_def
  redis_complete_task_def redis_fail_task_def redis_release_lease_def redis_recover_task_for_retry_def
  redis_dead_letter_def redis_move_to_dead_letter_def redis_move_owned_to_dead_letter_def
  redis_retry_dead_letter_def redis_enqueue_task_def redis_enqueue_task_idempotent_def

lemmas redis_views = redis_pending_def redis_holding_def redis_owner_def

text \<open>A claim under the invariant: nothing, a blocked head, or the head of the pending order.\<close>

lemma redis_claim_cases:
  assumes inv: "redis_inv t s" and ttl: "0 < ttl"
  obtains (empty) "rq_pending_order (queue_of s t) = []" "redis_claim_task H ttl s t w = (Inr None, s)"
  | (claimed) score k z raw m where "rq_pending_order (queue_of s t) = (score, k) # z"
      "map_of (rq_pending (queue_of s t)) k = Some raw" "redis_decode_message raw = Inr m"
      "q_tenant_id m = t" "q_task_id m = k" "wf_message m"
      "redis_claim_task H ttl s t w = (Inr (Some m), set_queue t (lease_set (rs_clock s) k w ttl
         ((drop_pending k (queue_of s t))\<lparr>rq_processing := AList.update k raw (rq_processing (queue_of s t))\<rparr>)) s)"
proof -
  let ?T = "queue_of s t"
  have wf: "wf_tenant t (rs_clock s) ?T" and up: "rs_down s = None" using inv by (simp_all add: redis_inv_def)
  show thesis
  proof (cases "rq_pending_order ?T")
    case Nil
    then have "redis_claim_task H ttl s t w = (Inr None, s)"
      by (simp add: redis_claim_task_def ensure_queue_schema_ready [OF inv] execute_def up claim_next_script_def)
    with Nil show thesis by (rule empty)
  next
    case (Cons sk z)
    obtain score k where sk: "sk = (score, k)" by (cases sk)
    have "k \<in> dom (map_of (rq_pending ?T))"
      using wf Cons sk unfolding wf_tenant_def zset_ok_def by (metis list.set_intros(1) list.simps(9) snd_conv)
    then obtain raw where raw: "map_of (rq_pending ?T) k = Some raw" by auto
    from wf raw have "good_payload t k raw" by (rule wf_payload)
    then obtain m where m: "redis_decode_message raw = Inr m" "q_tenant_id m = t" "q_task_id m = k" "wf_message m"
      by (rule good_payload_decode)
    have "lease_get (rs_clock s) ?T k = None" using wf wf_idle [OF wf raw] by simp
    then have "redis_claim_task H ttl s t w = (Inr (Some m), set_queue t (lease_set (rs_clock s) k w ttl
         ((drop_pending k ?T)\<lparr>rq_processing := AList.update k raw (rq_processing ?T)\<rparr>)) s)"
      using m(1) raw Cons sk
      by (simp add: redis_claim_task_def ensure_queue_schema_ready [OF inv] execute_def up
          claim_next_script_def Let_def)
    with Cons sk raw m show thesis by (intro claimed) auto
  qed
qed

lemma redis_claim_inv:
  assumes "redis_inv t s" and "0 < ttl"
  shows "redis_inv t (snd (redis_claim_task H ttl s t w))"
  by (rule redis_claim_cases [OF assms, of H w])
    (use assms in \<open>simp_all add: redis_inv_set redis_inv_wf wf_start\<close>)

lemma redis_claim_view:
  assumes "redis_inv t s" and "0 < ttl" and "redis_claim_task H ttl s t w = (Inr (Some m), s')"
  shows "q_tenant_id m = t \<and> \<not> redis_holding s t (q_task_id m) \<and> redis_pending s t (q_task_id m) \<and>
      redis_holding s' t (q_task_id m) \<and> redis_owner s' t (q_task_id m) = Some w"
    and "k \<noteq> q_task_id m \<Longrightarrow> redis_holding s' t k = redis_holding s t k \<and>
      redis_owner s' t k = redis_owner s t k \<and> redis_pending s' t k = redis_pending s t k"
proof -
  have "(q_tenant_id m = t \<and> \<not> redis_holding s t (q_task_id m) \<and> redis_pending s t (q_task_id m) \<and>
      redis_holding s' t (q_task_id m) \<and> redis_owner s' t (q_task_id m) = Some w) \<and>
    (k \<noteq> q_task_id m \<longrightarrow> redis_holding s' t k = redis_holding s t k \<and>
      redis_owner s' t k = redis_owner s t k \<and> redis_pending s' t k = redis_pending s t k)"
  proof (rule redis_claim_cases [OF assms(1,2), of H w])
    fix score j z raw m'
    assume c: "map_of (rq_pending (queue_of s t)) j = Some raw" "q_tenant_id m' = t" "q_task_id m' = j"
      "redis_claim_task H ttl s t w = (Inr (Some m'), set_queue t (lease_set (rs_clock s) j w ttl
         ((drop_pending j (queue_of s t))\<lparr>rq_processing := AList.update j raw (rq_processing (queue_of s t))\<rparr>)) s)"
    then show ?thesis using assms(3) wf_idle [OF redis_inv_wf [OF assms(1)] c(1)] assms(2)
      by (auto simp: redis_views)
  qed (use assms(3) in simp)
  then show "q_tenant_id m = t \<and> \<not> redis_holding s t (q_task_id m) \<and> redis_pending s t (q_task_id m) \<and>
      redis_holding s' t (q_task_id m) \<and> redis_owner s' t (q_task_id m) = Some w"
    and "k \<noteq> q_task_id m \<Longrightarrow> redis_holding s' t k = redis_holding s t k \<and>
      redis_owner s' t k = redis_owner s t k \<and> redis_pending s' t k = redis_pending s t k"
    by blast+
qed

text \<open>The replies of the owner-checked scripts under the invariant.\<close>

lemma owner_processing:
  "wf_tenant t c T \<Longrightarrow> lease_get c T k = Some w \<Longrightarrow> \<exists>p. map_of (rq_processing T) k = Some (Text p) \<and> lua_is_table p"
proof -
  assume wf: "wf_tenant t c T" and "lease_get c T k = Some w"
  then obtain r where r: "map_of (rq_processing T) k = Some r"
    unfolding wf_tenant_def leases_processing_def by blast
  with wf_payload(2) [OF wf r] show ?thesis using good_payload_text by blast
qed

lemma complete_script_wf:
  assumes "wf_tenant t c T"
  shows "lease_get c T k = Some w \<and> complete_script c k w T = ((1, ''ok''), lease_del k (drop_processing k T)) \<or>
    lease_get c T k \<noteq> Some w \<and> (\<exists>m. complete_script c k w T = ((0, m), T))"
  using owner_processing [OF assms, of k w]
  by (cases "lease_get c T k") (auto simp: complete_script_def)

lemma heartbeat_script_wf:
  "lease_get c T k = Some w \<and> heartbeat_script c k w ttl T = ((1, ''ok''), lease_set c k w ttl T) \<or>
    lease_get c T k \<noteq> Some w \<and> (\<exists>m. heartbeat_script c k w ttl T = ((0, m), T))"
  by (cases "lease_get c T k") (auto simp: heartbeat_script_def lease_expire_def)

lemma fail_script_wf:
  assumes "wf_tenant t c T"
  shows "lease_get c T k = Some w \<and>
      (\<exists>r. fail_script H c k w why now T = ((1, ''ok''), lease_del k (put_dead k r (drop_processing k T)))) \<or>
    lease_get c T k \<noteq> Some w \<and> (\<exists>m. fail_script H c k w why now T = ((0, m), T))"
  using owner_processing [OF assms, of k w]
  by (cases "lease_get c T k") (auto simp: fail_script_def, blast)

lemma release_script_wf:
  assumes "wf_tenant t c T"
  shows "lease_get c T k = Some w \<and>
      (\<exists>r. release_script c k w T = ((1, ''ok''), lease_del k (put_pending k r (drop_processing k T)))) \<or>
    lease_get c T k \<noteq> Some w \<and> (\<exists>m. release_script c k w T = ((0, m), T))"
  using owner_processing [OF assms, of k w]
  by (cases "lease_get c T k") (auto simp: release_script_def, blast)

lemma recover_script_wf:
  "(lease_get c T k = None \<or> lease_get c T k = Some w) \<and>
      (\<exists>r. recover_script c k w T = ((1, ''ok''), lease_del k (put_pending k r (drop_processing k T)))) \<or>
    (\<exists>m. recover_script c k w T = ((0, m), T))"
  by (auto simp: recover_script_def split: option.split)

lemma dead_letter_script_wf:
  "(lease_get c T k = None \<or> e \<noteq> [] \<and> lease_get c T k = Some e) \<and>
      (\<exists>r. dead_letter_script H c k e why now t T =
         ((1, ''ok''), lease_del k (put_dead k r (drop_pending k (drop_processing k T))))) \<or>
    (\<exists>m. dead_letter_script H c k e why now t T = ((0, m), T))"
  by (auto simp: dead_letter_script_def Let_def split: option.split)

lemma retry_checked_reason:
  "retry_checked H t k raw = Inl m \<Longrightarrow> m \<noteq> ''task already pending'' \<and> m \<noteq> ''task already processing''"
  by (auto simp: retry_checked_def split: option.splits if_splits)

lemma retry_script_wf:
  "map_of (rq_processing T) k = None \<and>
      (\<exists>r h z. retry_script H t k T = ((1, ''ok''), put_pending k r (T\<lparr>rq_dead := h, rq_dead_order := z\<rparr>))) \<or>
    (\<exists>m. retry_script H t k T = ((0, m), T) \<and>
       (m = ''task already pending'' \<longrightarrow> map_of (rq_pending T) k \<noteq> None) \<and>
       (m = ''task already processing'' \<longrightarrow> map_of (rq_processing T) k \<noteq> None))"
  using retry_checked_reason [of H t k "the (map_of (rq_dead T) k)"]
  by (auto simp: retry_script_def split: option.split sum.split)

locale redis_env =
  fixes H :: lua_host and ttl :: int
  assumes host: "lua_host_ok H" and ttl: "0 < ttl"
begin

lemma op_inv:
  assumes "redis_inv t s" and "wf_tenant t (rs_clock s) (snd (script (queue_of s t)))"
  shows "redis_inv t (snd (run_operation H s t name script))"
  using assms by (simp add: run_operation_ready redis_inv_set)

end

sublocale redis_env \<subseteq> queue_contract "redis_adapter H ttl" redis_inv redis_pending redis_holding redis_owner redis_seen
proof (unfold_locales, goal_cases)
  case 1 then show ?case by (simp add: redis_claim_inv ttl)
next
  case 2 then show ?case using ttl by (simp add: redis_claim_view(1))
next
  case 3 then show ?case using ttl by (simp add: redis_claim_view(2))
next
  case 4 then show ?case by (simp add: redis_ops op_inv redis_inv_wf wf_complete_script)
next
  case (5 t q k w r q')
  with complete_script_wf [OF redis_inv_wf [OF 5(1)], of k w] show ?case
    by (auto simp: redis_ops redis_views run_operation_ready)
next
  case (6 t q k w r q')
  with complete_script_wf [OF redis_inv_wf [OF 6(1)], of k w] show ?case
    by (auto simp: redis_ops run_operation_ready)
next
  case (7 t q k w)
  with complete_script_wf [OF redis_inv_wf [OF 7(1)], of k w] show ?case
    by (auto simp: redis_ops redis_owner_def run_operation_ready)
next
  case 8 then show ?case by (simp add: redis_ops op_inv redis_inv_wf wf_fail_script host)
next
  case (9 t q now k w why r q')
  with fail_script_wf [OF redis_inv_wf [OF 9(1)], of k w H why now] show ?case
    by (auto simp: redis_ops redis_views run_operation_ready)
next
  case (10 t q now k w why r q')
  with fail_script_wf [OF redis_inv_wf [OF 10(1)], of k w H why now] show ?case
    by (auto simp: redis_ops run_operation_ready)
next
  case 11 then show ?case by (simp add: redis_ops op_inv redis_inv_wf wf_release_script)
next
  case (12 t q k w r q')
  with release_script_wf [OF redis_inv_wf [OF 12(1)], of k w] show ?case
    by (auto simp: redis_ops redis_views run_operation_ready)
next
  case (13 t q k w r q')
  with release_script_wf [OF redis_inv_wf [OF 13(1)], of k w] show ?case
    by (auto simp: redis_ops run_operation_ready)
next
  case (14 t q k w r q')
  with heartbeat_script_wf [of "rs_clock q" "queue_of q t" k w ttl] show ?case
    using ttl by (auto simp: redis_ops redis_views run_operation_ready)
next
  case (15 t q k w r q')
  with heartbeat_script_wf [of "rs_clock q" "queue_of q t" k w ttl] show ?case
    by (auto simp: redis_ops run_operation_ready)
next
  case 16 then show ?case by (simp add: redis_ops op_inv redis_inv_wf wf_heartbeat_script ttl)
next
  case 17 then show ?case by (simp add: redis_ops op_inv redis_inv_wf wf_cancel_script)
next
  case 18 then show ?case
    by (auto simp: redis_ops redis_views run_operation_ready cancel_script_def split: if_splits)
next
  case 19 then show ?case by (simp add: redis_ops op_inv redis_inv_wf wf_recover_script)
next
  case (20 t q k w r q')
  with recover_script_wf [of "rs_clock q" "queue_of q t" k w] show ?case
    by (auto simp: redis_ops redis_views run_operation_ready)
next
  case (21 t q k w r q')
  with recover_script_wf [of "rs_clock q" "queue_of q t" k w] show ?case
    by (auto simp: redis_ops run_operation_ready)
next
  case 22 then show ?case by (simp add: redis_ops op_inv redis_inv_wf wf_retry_script host)
next
  case (23 t q k r q')
  with retry_script_wf [of "queue_of q t" k H t] show ?case
    by (auto simp: redis_ops redis_views run_operation_ready)
next
  case (24 t q k r q')
  with retry_script_wf [of "queue_of q t" k H t] show ?case
    by (auto simp: redis_ops redis_views run_operation_ready)
next
  case 25 then show ?case
    by (simp add: redis_ops op_inv redis_inv_wf wf_dead_letter_script host Let_def)
next
  case (26 t q now k why r q')
  with dead_letter_script_wf [of "rs_clock q" "queue_of q t" k "[]" H why now t] show ?case
    by (auto simp: redis_ops redis_views run_operation_ready Let_def)
next
  case (27 t q now k why r q')
  with dead_letter_script_wf [of "rs_clock q" "queue_of q t" k "[]" H why now t] show ?case
    by (auto simp: redis_ops run_operation_ready Let_def)
next
  case 28 then show ?case
    by (simp add: redis_ops op_inv redis_inv_wf wf_dead_letter_script host Let_def)
next
  case (29 t q w now k why r q')
  with dead_letter_script_wf [of "rs_clock q" "queue_of q t" k w H why now t] show ?case
    by (auto simp: redis_ops redis_views run_operation_ready Let_def)
next
  case (30 t q w now k why r q')
  with dead_letter_script_wf [of "rs_clock q" "queue_of q t" k w H why now t] show ?case
    by (auto simp: redis_ops run_operation_ready Let_def)
next
  case (31 t q k w) then show ?case
    unfolding redis_views by (blast dest: redis_inv_wf owner_processing)
next
  case (32 t q k w r q' j)
  with complete_script_wf [OF redis_inv_wf [OF 32(1)], of k w] show ?case
    by (auto simp: redis_ops redis_views run_operation_ready)
next
  case (33 t q now k w why r q' j)
  with fail_script_wf [OF redis_inv_wf [OF 33(1)], of k w H why now] show ?case
    by (auto simp: redis_ops redis_views run_operation_ready)
next
  case (34 t q k w r q' j)
  with release_script_wf [OF redis_inv_wf [OF 34(1)], of k w] show ?case
    by (auto simp: redis_ops redis_views run_operation_ready)
next
  case (35 t q k w r q' j)
  with heartbeat_script_wf [of "rs_clock q" "queue_of q t" k w ttl] show ?case
    using ttl by (auto simp: redis_ops redis_views run_operation_ready)
next
  case (36 t q m key)
  then show ?case
    using encode_good [OF 36(2)]
    by (simp add: redis_ops op_inv redis_inv_wf wf_idempotent_enqueue_script)
next
  case 37 then show ?case
    by (auto simp: redis_ops redis_views redis_seen_def run_operation_ready idempotent_enqueue_script_def
        split: if_splits)
next
  case 38 then show ?case
    by (simp add: redis_ops redis_seen_def run_operation_ready idempotent_enqueue_script_def)
next
  case 39 then show ?case
    by (auto simp: redis_ops run_operation_ready idempotent_enqueue_script_def split: if_splits)
next
  case 40 then show ?case
    by (auto simp: redis_ops redis_views run_operation_ready idempotent_enqueue_script_def split: if_splits)
next
  case (41 t q w q')
  then show ?case by (auto intro: redis_claim_cases [OF 41(1) ttl, of H w])
next
  case (42 t q w)
  show ?case by (rule redis_claim_cases [OF 42(1) ttl, of H w]) simp_all
qed

context redis_env
begin

lemma contract:
  "queue_contract (redis_adapter H ttl) redis_inv redis_pending redis_holding redis_owner redis_seen"
  by (rule queue_contract_axioms)

end

subsection \<open>A concrete host\<close>

text \<open>
  What \<open>cjson\<close> does to the values the adapter stores: an empty array is written as an empty
  object, the rest keeps its value.
\<close>

fun cjson_value :: "json \<Rightarrow> json" where
  "cjson_value (JObj kvs) = JObj (map (\<lambda>(k, v). (k, cjson_value v)) kvs)"
| "cjson_value (JArr []) = JObj []"
| "cjson_value (JArr (x # xs)) = JArr (map cjson_value (x # xs))"
| "cjson_value v = v"

fun plain_tostring :: "json \<Rightarrow> string" where
  "plain_tostring (JInt n) = int_text n"
| "plain_tostring (JBool b) = (if b then ''true'' else ''false'')"
| "plain_tostring JNull = ''userdata: (nil)''"
| "plain_tostring (JStr s) = s"
| "plain_tostring _ = ''table''"

definition plain_host :: lua_host where
  "plain_host = \<lparr>lua_tostring = plain_tostring, cjson_encode = cjson_value\<rparr>"

lemma map_of_map_json: "map_of (map (\<lambda>(k, v). (k, f v)) kvs) k = map_option f (map_of kvs k)"
  by (induction kvs) auto

lemma plain_host_ok: "lua_host_ok plain_host"
  by (simp add: lua_host_ok_def plain_host_def map_of_map_json)

interpretation redis: redis_env plain_host 90
  by unfold_locales (simp_all add: plain_host_ok)

end
