(* ===== verification/RedisKeys.thy ===== *)
theory RedisKeys
  imports RedisQueue
begin

section \<open>The key names of the Redis queue\<close>

text \<open>
  The key functions at the end of \<open>redis_adapter.py\<close>. \<open>RedisQueue\<close> keeps the keys of a tenant
  as the fields of a record of its own; the theorem here is what makes that the same as
  one flat key space.
\<close>

definition queue_prefix :: "string \<Rightarrow> string" where
  "queue_prefix t = ''ajenda:queue:'' @ t @ '':''"

fun slot_key :: "string \<Rightarrow> queue_key \<Rightarrow> string" where
  "slot_key t LegacyPending = queue_prefix t @ ''pending''"
| "slot_key t LegacyProcessing = queue_prefix t @ ''processing''"
| "slot_key t LegacyDead = queue_prefix t @ ''dead_letter''"
| "slot_key t PendingOrder = queue_prefix t @ ''v2:pending-order''"
| "slot_key t PendingPayloads = queue_prefix t @ ''v2:pending-payloads''"
| "slot_key t ProcessingPayloads = queue_prefix t @ ''v2:processing-payloads''"
| "slot_key t DeadOrder = queue_prefix t @ ''v2:dead-letter-order''"
| "slot_key t DeadPayloads = queue_prefix t @ ''v2:dead-letter-payloads''"
| "slot_key t SequenceKey = queue_prefix t @ ''v2:sequence''"
| "slot_key t SchemaKey = queue_prefix t @ ''v2:schema''"

definition dispatch_key :: "string \<Rightarrow> string \<Rightarrow> string" where
  "dispatch_key t key = queue_prefix t @ ''dispatch:'' @ key"

definition lease_prefix :: "string \<Rightarrow> string" where
  "lease_prefix t = queue_prefix t @ ''lease:''"

definition lease_key :: "string \<Rightarrow> uuid \<Rightarrow> string" where
  "lease_key t k = lease_prefix t @ k"

datatype named_key = Slot queue_key | Lease uuid | Dispatch string

fun key_name :: "string \<Rightarrow> named_key \<Rightarrow> string" where
  "key_name t (Slot s) = slot_key t s"
| "key_name t (Lease k) = lease_key t k"
| "key_name t (Dispatch key) = dispatch_key t key"

fun key_suffix :: "named_key \<Rightarrow> string" where
  "key_suffix (Slot LegacyPending) = ''pending''"
| "key_suffix (Slot LegacyProcessing) = ''processing''"
| "key_suffix (Slot LegacyDead) = ''dead_letter''"
| "key_suffix (Slot PendingOrder) = ''v2:pending-order''"
| "key_suffix (Slot PendingPayloads) = ''v2:pending-payloads''"
| "key_suffix (Slot ProcessingPayloads) = ''v2:processing-payloads''"
| "key_suffix (Slot DeadOrder) = ''v2:dead-letter-order''"
| "key_suffix (Slot DeadPayloads) = ''v2:dead-letter-payloads''"
| "key_suffix (Slot SequenceKey) = ''v2:sequence''"
| "key_suffix (Slot SchemaKey) = ''v2:schema''"
| "key_suffix (Lease k) = ''lease:'' @ k"
| "key_suffix (Dispatch key) = ''dispatch:'' @ key"

lemma key_name_suffix: "key_name t a = queue_prefix t @ key_suffix a"
  by (cases a rule: key_suffix.cases) (simp_all add: lease_key_def lease_prefix_def dispatch_key_def)

lemma split_at_colon:
  "CHR '':'' \<notin> set t \<Longrightarrow> CHR '':'' \<notin> set t' \<Longrightarrow>
     t @ CHR '':'' # a = t' @ CHR '':'' # b \<longleftrightarrow> t = t' \<and> a = b"
proof (induction t arbitrary: t')
  case Nil
  then show ?case by (cases t') auto
next
  case (Cons c t)
  then show ?case by (cases t') auto
qed

lemma key_suffix_inj: "key_suffix a = key_suffix b \<Longrightarrow> a = b"
  by (cases a rule: key_suffix.cases; cases b rule: key_suffix.cases) simp_all

text \<open>
  No two keys of the queue collide. For tenant ids without a colon, as UUIDs are, two keys
  have the same name only if they are the same key of the same tenant: the ten structure
  keys, the lease key of each task and the dispatch key of each idempotency key, whatever
  text the idempotency key is. A script of one tenant therefore never touches another's.
\<close>

theorem redis_keys_distinct:
  assumes "CHR '':'' \<notin> set t" and "CHR '':'' \<notin> set t'"
  shows "key_name t a = key_name t' b \<longleftrightarrow> t = t' \<and> a = b"
  using split_at_colon [OF assms, of "key_suffix a" "key_suffix b"] key_suffix_inj [of a b]
  by (auto simp: key_name_suffix queue_prefix_def)

lemma redis_keys_distinct_witness:
  "key_name ''a'' (Dispatch ''x:pending'') \<noteq> key_name ''b'' (Slot LegacyPending) \<and>
   key_name ''a:dispatch:x'' (Slot LegacyPending) = key_name ''a'' (Dispatch ''x:pending'')"
  using redis_keys_distinct [of "''a''" "''b''" "Dispatch ''x:pending''" "Slot LegacyPending"]
  by (simp add: queue_prefix_def dispatch_key_def)

end
