(* ===== verification/RedisReach.thy ===== *)
theory RedisReach
  imports RedisInvariant RedisKeys
begin

section \<open>What the Redis queue guarantees\<close>

text \<open>
  The reachable states of the server under all the operations of the adapter, delivery in
  order, leases over time, dead letters and retries, and the migration of legacy lists.
\<close>

subsection \<open>Reachable states\<close>

definition redis_start :: "time \<Rightarrow> redis_state" where
  "redis_start c = \<lparr>rs_clock = c, rs_down = None, rs_tenants = (\<lambda>_. empty_tenant)\<rparr>"

inductive redis_step :: "lua_host \<Rightarrow> int \<Rightarrow> redis_state \<Rightarrow> redis_state \<Rightarrow> bool"
  for H ttl where
  enqueues: "wf_message m \<Longrightarrow> redis_step H ttl s (snd (redis_enqueue_task H s m))"
| dispatches: "wf_message m \<Longrightarrow> redis_step H ttl s (snd (redis_enqueue_task_idempotent H s m key))"
| cancels: "redis_step H ttl s (snd (redis_cancel_task H s t k))"
| claims: "redis_step H ttl s (snd (redis_claim_task H ttl s t w))"
| claims_existing: "redis_step H ttl s (snd (redis_claim_existing_task H ttl s t k w))"
| beats: "redis_step H ttl s (snd (redis_heartbeat H ttl s t k w))"
| completes: "redis_step H ttl s (snd (redis_complete_task H s t k w))"
| fails: "redis_step H ttl s (snd (redis_fail_task H s now t k w why))"
| releases: "redis_step H ttl s (snd (redis_release_lease H s t k w))"
| recovers: "redis_step H ttl s (snd (redis_recover_task_for_retry H s t k w))"
| buries: "redis_step H ttl s (snd (redis_dead_letter H s now t k worker why))"
| retries: "redis_step H ttl s (snd (redis_retry_dead_letter H s t k))"
| lists: "redis_step H ttl s (snd (redis_list_processing H s t))"
| lists_dead: "redis_step H ttl s (snd (redis_list_dead_letter H s t))"
| counts: "redis_step H ttl s (snd (redis_pending_depth H s t))"
| time_passes: "0 \<le> d \<Longrightarrow> redis_step H ttl s (s\<lparr>rs_clock := rs_clock s + d\<rparr>)"
| connection_changes: "redis_step H ttl s (s\<lparr>rs_down := x\<rparr>)"

definition redis_ok :: "redis_state \<Rightarrow> bool" where
  "redis_ok s \<longleftrightarrow> (\<forall>t. queue_of s t = empty_tenant \<or> wf_tenant t (rs_clock s) (queue_of s t))"

lemma wf_migrated_empty:
  "snd (migrate_script H t empty_tenant) = empty_tenant\<lparr>rq_schema := True\<rparr>"
  "fst (migrate_script H t empty_tenant) = (1, ''migrated'')"
  "wf_tenant t c (empty_tenant\<lparr>rq_schema := True\<rparr>)"
  by (simp_all add: migrate_script_def empty_tenant_def odd_among_def indexed_exists_def wf_tenant_def
      legacy_is_empty_def zset_ok_def leases_processing_def lease_get_def)

lemma ensure_queue_schema_ok:
  assumes "redis_ok s"
  obtains e where "ensure_queue_schema H s t = (Inl e, s)"
  | T where "ensure_queue_schema H s t = (Inr (), set_queue t T s)" "rs_down s = None"
      "wf_tenant t (rs_clock s) T"
proof (cases "rs_down s")
  case (Some e)
  then show thesis using that(1) by (simp add: ensure_queue_schema_def execute_def)
next
  case None
  consider "queue_of s t = empty_tenant" | "wf_tenant t (rs_clock s) (queue_of s t)"
    using assms by (auto simp: redis_ok_def)
  then obtain m T where "migrate_script H t (queue_of s t) = ((1, m), T)" "wf_tenant t (rs_clock s) T"
    by cases (metis wf_migrated_empty prod.collapse, metis migrate_ready)
  with None that(2) show thesis by (simp add: ensure_queue_schema_def execute_def Let_def)
qed

lemma redis_ok_set: "redis_ok s \<Longrightarrow> wf_tenant t (rs_clock s) T \<Longrightarrow> redis_ok (set_queue t T s)"
  by (simp add: redis_ok_def)

lemma run_operation_ok:
  assumes "redis_ok s" and "\<And>T. wf_tenant t (rs_clock s) T \<Longrightarrow> wf_tenant t (rs_clock s) (snd (script T))"
  shows "redis_ok (snd (run_operation H s t name script))"
  by (rule ensure_queue_schema_ok [OF assms(1), of H t])
    (use assms in \<open>simp_all add: run_operation_def execute_def case_prod_beta redis_ok_set\<close>)

lemma claim_ok:
  assumes "redis_ok s" and "0 < ttl"
  shows "redis_ok (snd (redis_claim_task H ttl s t w))"
proof (rule ensure_queue_schema_ok [OF assms(1), of H t])
  fix e
  assume "ensure_queue_schema H s t = (Inl e, s)"
  then show ?thesis using assms(1) by (simp add: redis_claim_task_def)
next
  fix T
  assume T: "ensure_queue_schema H s t = (Inr (), set_queue t T s)" "rs_down s = None"
    "wf_tenant t (rs_clock s) T"
  have "wf_tenant t (rs_clock s) (snd (claim_next_script (rs_clock s) w ttl T))"
    using T(3) assms(2) by (rule wf_claim_next_script)
  then show ?thesis using T assms(1)
    by (simp add: redis_claim_task_def execute_def case_prod_beta Let_def redis_ok_set split: sum.split)
qed

lemma ensure_ok: "redis_ok s \<Longrightarrow> redis_ok (snd (ensure_queue_schema H s t))"
  by (rule ensure_queue_schema_ok [of s H t]) (simp_all add: redis_ok_set)

lemma redis_step_ok:
  assumes "redis_step H ttl s s'" and "lua_host_ok H" and "0 < ttl" and "redis_ok s"
  shows "redis_ok s'"
  using assms(1)
proof cases
  case (time_passes d)
  then show ?thesis using assms(4) by (auto simp: redis_ok_def queue_of_def intro: wf_tenant_later)
next
  case (connection_changes x)
  then show ?thesis using assms(4) by (simp add: redis_ok_def queue_of_def)
next
  case (lists t)
  have "snd (redis_list_processing H s t) = snd (ensure_queue_schema H s t)"
    by (simp add: redis_list_processing_def Let_def split: prod.split sum.split)
  with lists ensure_ok [OF assms(4)] show ?thesis by simp
next
  case (lists_dead t)
  have "snd (redis_list_dead_letter H s t) = snd (ensure_queue_schema H s t)"
    by (simp add: redis_list_dead_letter_def split: prod.split sum.split)
  with lists_dead ensure_ok [OF assms(4)] show ?thesis by simp
next
  case (counts t)
  have "snd (redis_pending_depth H s t) = snd (ensure_queue_schema H s t)"
    by (simp add: redis_pending_depth_def split: prod.split sum.split)
  with counts ensure_ok [OF assms(4)] show ?thesis by simp
next
  case (enqueues m)
  then show ?thesis using assms(4)
    by (simp add: redis_ops run_operation_ok wf_enqueue_script encode_good)
next
  case (dispatches m key)
  then show ?thesis using assms(4)
    by (simp add: redis_ops run_operation_ok wf_idempotent_enqueue_script encode_good)
next
  case (buries now t k worker why)
  then show ?thesis using assms(2,4)
    by (simp add: redis_dead_letter_def Let_def run_operation_ok wf_dead_letter_script)
qed (use assms(2-4) in \<open>simp_all add: claim_ok redis_ops run_operation_ok wf_cancel_script
    wf_claim_existing_script wf_heartbeat_script wf_complete_script wf_fail_script wf_release_script
    wf_recover_script wf_retry_script\<close>)

lemma redis_start_ok: "redis_ok (redis_start c)"
  by (simp add: redis_ok_def redis_start_def queue_of_def)

lemma redis_reachable_ok:
  assumes "(redis_step H ttl)\<^sup>*\<^sup>* (redis_start c) s" and "lua_host_ok H" and "0 < ttl"
  shows "redis_ok s"
  using assms(1) by (induction rule: rtranclp_induct) (use assms(2,3) redis_start_ok redis_step_ok in blast)+

text \<open>
  C5: the invariant of the Redis queue holds in every state the adapter's operations can reach
  from an empty server, in any order, by any number of workers, for any tenants, over time
  and with connection failures in between: no task is both pending and being processed; the
  sorted set of a tenant lists exactly its pending payloads, each once; every stored payload
  decodes to a message of that tenant and task; and a worker that owns a live lease has
  its task among the processing payloads.
\<close>

theorem redis_queue_invariant:
  assumes "(redis_step H ttl)\<^sup>*\<^sup>* (redis_start c) s" and "lua_host_ok H" and "0 < ttl"
  shows "\<not> (redis_pending s t k \<and> redis_holding s t k) \<and>
    set (map snd (rq_pending_order (queue_of s t))) = {k. redis_pending s t k} \<and>
    distinct (map snd (rq_pending_order (queue_of s t))) \<and>
    (\<forall>raw. map_of (rq_pending (queue_of s t)) k = Some raw \<or> map_of (rq_processing (queue_of s t)) k = Some raw \<longrightarrow>
      (\<exists>m. redis_decode_message raw = Inr m \<and> is_task t k m)) \<and>
    (redis_owner s t k \<noteq> None \<longrightarrow> redis_holding s t k)"
proof -
  have "redis_ok s" using assms by (rule redis_reachable_ok)
  then consider "queue_of s t = empty_tenant" | "wf_tenant t (rs_clock s) (queue_of s t)"
    by (auto simp: redis_ok_def)
  then have T: "disjoint_hash (rq_pending (queue_of s t)) (rq_processing (queue_of s t)) \<and>
      leases_processing (rs_clock s) (queue_of s t) \<and>
      zset_ok (rq_pending_order (queue_of s t)) (rq_pending (queue_of s t)) (rq_sequence (queue_of s t)) \<and>
      hash_all (good_payload t) (rq_pending (queue_of s t)) \<and>
      hash_all (good_payload t) (rq_processing (queue_of s t))"
    by cases (simp_all add: wf_tenant_def empty_tenant_def zset_ok_def leases_processing_def lease_get_def)
  have "\<not> (redis_pending s t k \<and> redis_holding s t k)"
    using T unfolding redis_views disjoint_hash_def by metis
  moreover have "set (map snd (rq_pending_order (queue_of s t))) = {k. redis_pending s t k} \<and>
      distinct (map snd (rq_pending_order (queue_of s t)))"
    using T by (auto simp: redis_views zset_ok_def dom_def)
  moreover have "\<exists>m. redis_decode_message raw = Inr m \<and> is_task t k m"
    if "map_of (rq_pending (queue_of s t)) k = Some raw \<or> map_of (rq_processing (queue_of s t)) k = Some raw" for raw
  proof -
    from that T have "good_payload t k raw" by (auto intro: hash_allD)
    then show ?thesis by (rule good_payload_decode) (auto simp: is_task_def)
  qed
  moreover have "redis_owner s t k \<noteq> None \<longrightarrow> redis_holding s t k"
    using T unfolding leases_processing_def redis_views by blast
  ultimately show ?thesis by blast
qed

lemma redis_queue_invariant_witness:
  "\<not> (redis_pending (snd (redis_enqueue_task plain_host (redis_start 0) (example_message ''acme'' uuid_a))) ''acme'' uuid_a \<and>
     redis_holding (snd (redis_enqueue_task plain_host (redis_start 0) (example_message ''acme'' uuid_a))) ''acme'' uuid_a)"
proof -
  have "wf_message (example_message ''acme'' uuid_a)" by (rule example_message_wf)
  then have "redis_step plain_host 90 (redis_start 0)
      (snd (redis_enqueue_task plain_host (redis_start 0) (example_message ''acme'' uuid_a)))"
    by (rule redis_step.enqueues)
  then show ?thesis using redis_queue_invariant [OF r_into_rtranclp plain_host_ok] by simp
qed

subsection \<open>Delivery in order\<close>

text \<open>\<open>n\<close> claims by one worker: the tasks delivered.\<close>

fun claim_tasks :: "lua_host \<Rightarrow> int \<Rightarrow> nat \<Rightarrow> redis_state \<Rightarrow> string \<Rightarrow> string \<Rightarrow> uuid list" where
  "claim_tasks H ttl 0 s t w = []"
| "claim_tasks H ttl (Suc n) s t w =
     (case redis_claim_task H ttl s t w of
        (Inr (Some m), s') \<Rightarrow> q_task_id m # claim_tasks H ttl n s' t w
      | _ \<Rightarrow> [])"

lemma zrem_head: "distinct (map snd ((score, k) # z)) \<Longrightarrow> zrem k ((score, k) # z) = z"
  by (force simp: zrem_def filter_id_conv)

lemma claim_tasks_order:
  assumes "redis_inv t s" and "0 < ttl"
  shows "claim_tasks H ttl n s t w = take n (map snd (rq_pending_order (queue_of s t)))"
  using assms(1)
proof (induction n arbitrary: s)
  case (Suc n)
  show ?case
  proof (rule redis_claim_cases [OF Suc.prems assms(2), of H w])
    assume "rq_pending_order (queue_of s t) = []" "redis_claim_task H ttl s t w = (Inr None, s)"
    then show ?thesis by simp
  next
    fix score k z raw m
    let ?s = "set_queue t (lease_set (rs_clock s) k w ttl
         ((drop_pending k (queue_of s t))\<lparr>rq_processing := AList.update k raw (rq_processing (queue_of s t))\<rparr>)) s"
    assume c: "rq_pending_order (queue_of s t) = (score, k) # z" "q_task_id m = k"
      "redis_claim_task H ttl s t w = (Inr (Some m), ?s)"
    have "distinct (map snd ((score, k) # z))"
      using redis_inv_wf [OF Suc.prems] c(1) by (simp add: wf_tenant_def zset_ok_def)
    then have "rq_pending_order (queue_of ?s t) = z" using zrem_head [of score k z] c(1) by simp
    moreover have "redis_inv t ?s" using redis_claim_inv [OF Suc.prems assms(2), of H w] c(3) by simp
    ultimately show ?thesis using Suc.IH [of ?s] c by simp
  qed
qed simp

lemma enqueue_order:
  assumes "redis_inv t s" and "wf_message m" and "q_tenant_id m = t"
    and "\<not> redis_pending s t (q_task_id m)" and "\<not> redis_holding s t (q_task_id m)"
  shows "fst (redis_enqueue_task H s m) = op_ok"
    and "redis_inv t (snd (redis_enqueue_task H s m))"
    and "map snd (rq_pending_order (queue_of (snd (redis_enqueue_task H s m)) t)) =
      map snd (rq_pending_order (queue_of s t)) @ [q_task_id m]"
    and "redis_pending (snd (redis_enqueue_task H s m)) t k = (redis_pending s t k \<or> k = q_task_id m)"
    and "redis_holding (snd (redis_enqueue_task H s m)) t k = redis_holding s t k"
proof -
  let ?T = "queue_of s t"
  have run: "redis_enqueue_task H s m =
      (op_ok, set_queue t (put_pending (q_task_id m) (redis_encode_message m) ?T) s)"
    using assms by (simp add: redis_ops run_operation_ready enqueue_script_def redis_views)
  have z: "zset_ok (rq_pending_order ?T) (rq_pending ?T) (rq_sequence ?T)"
    using redis_inv_wf [OF assms(1)] by (simp add: wf_tenant_def)
  have "q_task_id m \<notin> snd ` set (rq_pending_order ?T)"
    using z assms(4) unfolding zset_ok_def redis_pending_def by (metis domIff set_map)
  then have "zadd (rq_sequence ?T + 1) (q_task_id m) (rq_pending_order ?T) =
      rq_pending_order ?T @ [(rq_sequence ?T + 1, q_task_id m)]"
    using zadd_fresh [of "rq_pending_order ?T" "rq_sequence ?T" "q_task_id m"] z by (simp add: zset_ok_def)
  then show "map snd (rq_pending_order (queue_of (snd (redis_enqueue_task H s m)) t)) =
      map snd (rq_pending_order (queue_of s t)) @ [q_task_id m]"
    unfolding run by (simp add: put_pending_def Let_def)
  show "redis_inv t (snd (redis_enqueue_task H s m))"
    using assms(1,5) encode_good [OF assms(2)] assms(3) unfolding run
    by (simp add: redis_inv_set redis_inv_wf wf_put_pending redis_holding_def)
qed (use assms in \<open>auto simp: redis_ops run_operation_ready enqueue_script_def redis_views\<close>)

text \<open>
  C16: the Redis queue is first in, first out. Messages enqueued one after the other are
  delivered by claims in exactly that order, after the tasks that were already waiting,
  each task once; a worker that claims \<open>n\<close> times gets the first \<open>n\<close>.
\<close>

theorem redis_fifo:
  assumes "lua_host_ok H" and "0 < ttl" and "redis_inv t s"
    and "\<forall>m \<in> set ms. wf_message m \<and> q_tenant_id m = t \<and>
           \<not> redis_pending s t (q_task_id m) \<and> \<not> redis_holding s t (q_task_id m)"
    and "distinct (map q_task_id ms)"
  shows "claim_tasks H ttl n (fold (\<lambda>m s. snd (redis_enqueue_task H s m)) ms s) t w =
    take n (map snd (rq_pending_order (queue_of s t)) @ map q_task_id ms)"
  using assms(3-)
proof (induction ms arbitrary: s)
  case Nil
  then show ?case by (simp add: claim_tasks_order [OF _ assms(2)])
next
  case (Cons m ms)
  let ?s = "snd (redis_enqueue_task H s m)"
  have m: "wf_message m" "q_tenant_id m = t" "\<not> redis_pending s t (q_task_id m)" "\<not> redis_holding s t (q_task_id m)"
    using Cons.prems(2) by simp_all
  note e = enqueue_order [OF Cons.prems(1) m, of H]
  have neq: "\<forall>m' \<in> set ms. q_task_id m' \<noteq> q_task_id m" using Cons.prems(3) by (simp, metis image_eqI)
  have "\<forall>m' \<in> set ms. wf_message m' \<and> q_tenant_id m' = t \<and>
      \<not> redis_pending ?s t (q_task_id m') \<and> \<not> redis_holding ?s t (q_task_id m')"
    using Cons.prems(2) e(4,5) neq by simp
  then show ?case using Cons.IH [OF e(2)] Cons.prems(3) e(3) by simp
qed

definition redis_ready :: "time \<Rightarrow> redis_state" where
  "redis_ready c = \<lparr>rs_clock = c, rs_down = None, rs_tenants = (\<lambda>_. empty_tenant\<lparr>rq_schema := True\<rparr>)\<rparr>"

lemma redis_ready_inv [simp]: "redis_inv t (redis_ready c)" "rq_pending_order (queue_of (redis_ready c) t) = []"
  "\<not> redis_pending (redis_ready c) t k" "\<not> redis_holding (redis_ready c) t k"
  using wf_migrated_empty(3) [of t c]
  by (simp_all add: redis_inv_def redis_ready_def queue_of_def redis_views empty_tenant_def)

lemma redis_fifo_witness:
  "claim_tasks plain_host 90 2 (fold (\<lambda>m s. snd (redis_enqueue_task plain_host s m))
     [example_message ''acme'' uuid_b, example_message ''acme'' uuid_a] (redis_ready 0)) ''acme'' ''w1'' = [uuid_b, uuid_a]"
  using redis_fifo [OF plain_host_ok, of 90 "''acme''" "redis_ready 0"
      "[example_message ''acme'' uuid_b, example_message ''acme'' uuid_a]" 2 "''w1''"]
  by (simp add: example_message_wf) (simp add: example_message_def uuid_a_def uuid_b_def)

subsection \<open>Leases over time\<close>

definition advance :: "int \<Rightarrow> redis_state \<Rightarrow> redis_state" where
  "advance d s = s\<lparr>rs_clock := rs_clock s + d\<rparr>"

lemma advance_simps [simp]:
  "queue_of (advance d s) t = queue_of s t" "rs_clock (advance d s) = rs_clock s + d"
  "rs_down (advance d s) = rs_down s" "redis_pending (advance d s) t k = redis_pending s t k"
  "redis_holding (advance d s) t k = redis_holding s t k"
  "set_queue t (queue_of s t) (advance d s) = advance d s"
  by (simp_all add: advance_def queue_of_def redis_views set_queue_def)

lemma advance_inv: "redis_inv t s \<Longrightarrow> 0 \<le> d \<Longrightarrow> redis_inv t (advance d s)"
  by (auto simp: redis_inv_def intro: wf_tenant_later)

text \<open>
  A claim lapses with its lease. A beat by the owner keeps the claim for the configured number
  of seconds from the server's time of the beat, to the microsecond; afterwards the task
  is still held by the queue but has no owner, and the former owner's completion, failure,
  release and beat are all refused and change nothing, while recovery by any worker puts the
  task back at the end of the pending order.
\<close>

theorem redis_lease_lapses:
  assumes "lua_host_ok H" and "0 < ttl" and "redis_inv t s" and "redis_heartbeat H ttl s t k w = (op_ok, s1)"
    and "0 \<le> d"
  shows "if d \<le> seconds ttl then redis_owner (advance d s1) t k = Some w
    else redis_owner (advance d s1) t k = None \<and> redis_holding (advance d s1) t k \<and>
      redis_complete_task H (advance d s1) t k w = (op_fail ''lease owner missing'', advance d s1) \<and>
      redis_fail_task H (advance d s1) now t k w why = (op_fail ''lease owner missing'', advance d s1) \<and>
      redis_release_lease H (advance d s1) t k w = (op_fail ''lease owner missing'', advance d s1) \<and>
      redis_heartbeat H ttl (advance d s1) t k w = (op_fail ''lease owner missing'', advance d s1) \<and>
      (\<exists>s2. redis_recover_task_for_retry H (advance d s1) t k w2 = (op_ok, s2) \<and> redis_pending s2 t k \<and>
         (\<exists>z score. rq_pending_order (queue_of s2 t) = z @ [(score, k)]))"
proof -
  let ?T = "queue_of s t" and ?s = "advance d s1"
  have own: "lease_get (rs_clock s) ?T k = Some w" and s1: "s1 = set_queue t (lease_set (rs_clock s) k w ttl ?T) s"
    using heartbeat_script_wf [of "rs_clock s" ?T k w ttl] assms(3,4)
    by (auto simp: redis_ops run_operation_ready)
  have inv1: "redis_inv t ?s"
  proof (rule advance_inv [OF _ assms(5)])
    show "redis_inv t s1"
      using wf_heartbeat_script [OF redis_inv_wf [OF assms(3)] assms(2), of k w] assms(3) own
      unfolding s1 by (intro redis_inv_set) (simp_all add: heartbeat_script_def lease_expire_def)
  qed
  have owner: "redis_owner ?s t k = (if d \<le> seconds ttl then Some w else None)"
    by (simp add: redis_owner_def s1 lease_get_def lease_set_def)
  show ?thesis
  proof (cases "d \<le> seconds ttl")
    case True
    with owner show ?thesis by simp
  next
    case False
    with owner have none: "lease_get (rs_clock ?s) (queue_of ?s t) k = None" by (simp add: redis_owner_def)
    obtain p where p: "map_of (rq_processing ?T) k = Some (Text p)"
      using owner_processing [OF redis_inv_wf [OF assms(3)] own] by blast
    then have held: "map_of (rq_processing (queue_of ?s t)) k = Some (Text p)" by (simp add: s1)
    then have idle: "map_of (rq_pending (queue_of ?s t)) k = None"
      using redis_inv_wf [OF inv1] unfolding wf_tenant_def disjoint_hash_def by (metis option.distinct(1))
    have recover: "redis_recover_task_for_retry H ?s t k w2 = (op_ok, set_queue t
        (lease_del k (put_pending k (Text p) (drop_processing k (queue_of ?s t)))) ?s)"
      using none held idle by (simp add: redis_ops run_operation_ready [OF inv1] recover_script_def)
    have z: "zset_ok (rq_pending_order (queue_of ?s t)) (rq_pending (queue_of ?s t)) (rq_sequence (queue_of ?s t))"
      using redis_inv_wf [OF inv1] by (simp add: wf_tenant_def)
    have order: "rq_pending_order (lease_del k (put_pending k (Text p) (drop_processing k (queue_of ?s t)))) =
        zrem k (rq_pending_order (queue_of ?s t)) @ [(rq_sequence (queue_of ?s t) + 1, k)]"
      using zadd_fresh [of "rq_pending_order (queue_of ?s t)" "rq_sequence (queue_of ?s t)" k] z
      by (simp add: put_pending_def Let_def zset_ok_def)
    show ?thesis
      using False owner none held recover order
      by (simp add: redis_ops run_operation_ready [OF inv1] redis_holding_def redis_pending_def
          complete_script_def fail_script_def release_script_def heartbeat_script_def)
  qed
qed

definition claimed_state :: redis_state where
  "claimed_state = snd (redis_claim_task plain_host 90
     (snd (redis_enqueue_task plain_host (redis_ready 0) (example_message ''acme'' uuid_a))) ''acme'' ''w1'')"

lemma claimed_state_view:
  "redis_claim_task plain_host 90
     (snd (redis_enqueue_task plain_host (redis_ready 0) (example_message ''acme'' uuid_a))) ''acme'' ''w1'' =
     (Inr (Some (example_message ''acme'' uuid_a)), claimed_state)"
  "redis_inv ''acme'' claimed_state" "redis_owner claimed_state ''acme'' uuid_a = Some ''w1''"
proof -
  let ?m = "example_message ''acme'' uuid_a" and ?s = "snd (redis_enqueue_task plain_host (redis_ready 0) (example_message ''acme'' uuid_a))"
  have inv: "redis_inv ''acme'' ?s" and ord: "map snd (rq_pending_order (queue_of ?s ''acme'')) = [uuid_a]"
    using enqueue_order(2,3) [of "''acme''" "redis_ready 0" ?m plain_host] by simp_all
  have pend: "rq_pending (queue_of ?s ''acme'') = [(uuid_a, redis_encode_message ?m)]"
    by (simp add: redis_ops run_operation_ready enqueue_script_def)
      (simp add: redis_ready_def queue_of_def empty_tenant_def)
  have dec: "redis_decode_message (redis_encode_message ?m) = Inr ?m"
    using example_uuids
    by (simp add: redis_encode_message_def example_message_def message_object_def opt_str_def redis_decode_message_def
        item_def optional_id_def is_uuid_def)
  show claim: "redis_claim_task plain_host 90 ?s ''acme'' ''w1'' = (Inr (Some ?m), claimed_state)"
    by (rule redis_claim_cases [OF inv, of 90 plain_host "''w1''"])
      (use ord pend dec in \<open>auto simp: claimed_state_def\<close>)
  then show "redis_inv ''acme'' claimed_state" using redis_claim_inv [OF inv, of 90 plain_host "''w1''"] by simp
  show "redis_owner claimed_state ''acme'' uuid_a = Some ''w1''"
    using redis_claim_view(1) [OF inv _ claim] by simp
qed

lemma redis_lease_lapses_witness:
  "\<exists>s1. redis_heartbeat plain_host 90 claimed_state ''acme'' uuid_a ''w1'' = (op_ok, s1) \<and>
     redis_owner (advance 90000000 s1) ''acme'' uuid_a = Some ''w1'' \<and>
     fst (redis_complete_task plain_host (advance 90000001 s1) ''acme'' uuid_a ''w1'') = op_fail ''lease owner missing''"
proof -
  obtain s1 where s1: "redis_heartbeat plain_host 90 claimed_state ''acme'' uuid_a ''w1'' = (op_ok, s1)"
    using heartbeat_script_wf [of "rs_clock claimed_state" "queue_of claimed_state ''acme''" uuid_a "''w1''" 90]
      claimed_state_view(2,3) by (auto simp: redis_ops run_operation_ready redis_owner_def)
  with redis_lease_lapses [OF plain_host_ok _ claimed_state_view(2) s1, of 90000000]
    redis_lease_lapses [OF plain_host_ok _ claimed_state_view(2) s1, of 90000001]
  show ?thesis by (simp add: seconds_def)
qed

subsection \<open>Dead letters and retries\<close>

lemma field_encode:
  assumes "lua_host_ok H"
  shows "optional_id d k = Inr x \<Longrightarrow> opt_uuid_field (map_of d k) \<Longrightarrow>
      map_of d' k = map_option (cjson_encode H) (map_of d k) \<Longrightarrow> optional_id d' k = Inr x"
  using assms
  by (auto simp: optional_id_def opt_uuid_field_def uuid_field_def lua_host_ok_def split: option.splits json.splits)

text \<open>Encoding a good payload anew changes nothing of the message but the body.\<close>

lemma decode_encoded:
  assumes H: "lua_host_ok H" and good: "good_body t k j" and dec: "redis_decode_message (Text j) = Inr m"
  obtains body where "cjson_encode H (JObj (q_payload m)) = JObj body"
    "redis_decode_message (Text (cjson_encode H j)) = Inr (m\<lparr>q_payload := body\<rparr>)"
proof -
  obtain kvs mi d e where j: "j = JObj kvs" "map_of kvs ''tenant_id'' = Some (JStr t)"
    "map_of kvs ''task_id'' = Some (JStr k)" "is_uuid k" "map_of kvs ''mission_id'' = Some (JStr mi)" "is_uuid mi"
    "opt_uuid_field (map_of kvs ''fleet_id'')" "opt_uuid_field (map_of kvs ''branch_id'')"
    "map_of kvs ''payload'' = Some (JObj d)" "map_of kvs ''enqueued_at'' = Some (JStamp e)"
    using good by (rule good_bodyE)
  obtain f b where fb: "optional_id kvs ''fleet_id'' = Inr f" "optional_id kvs ''branch_id'' = Inr b"
    using optional_id_ok [OF j(7)] optional_id_ok [OF j(8)] by blast
  have m: "m = \<lparr>q_tenant_id = t, q_task_id = k, q_mission_id = mi, q_fleet_id = f, q_branch_id = b,
      q_payload = d, q_enqueued_at = e\<rparr>"
    using dec j fb by (simp add: redis_decode_message_def item_def is_uuid_def)
  from H obtain kvs' body where enc: "cjson_encode H (JObj kvs) = JObj kvs'" "cjson_encode H (JObj d) = JObj body"
    unfolding lua_host_ok_def by metis
  have fields: "\<And>x. map_of kvs' x = map_option (cjson_encode H) (map_of kvs x)"
    using lua_host_obj_field [OF H, of kvs] enc by simp
  have atoms: "\<And>s. cjson_encode H (JStr s) = JStr s" "\<And>e. cjson_encode H (JStamp e) = JStamp e"
    using H by (simp_all add: lua_host_ok_def)
  have "optional_id kvs' ''fleet_id'' = Inr f" "optional_id kvs' ''branch_id'' = Inr b"
    using field_encode [OF H fb(1) j(7) fields] field_encode [OF H fb(2) j(8) fields] by blast+
  then have "redis_decode_message (Text (cjson_encode H j)) = Inr (m\<lparr>q_payload := body\<rparr>)"
    using j enc atoms by (simp add: redis_decode_message_def item_def is_uuid_def fields m)
  with that enc m show thesis by simp
qed

text \<open>
  C18: a failed task can be retried. The owner's \<open>fail_task\<close> buries the claimed payload, the
  retry puts it back at the end of the pending order, and what a later claim decodes is the
  message as it was claimed (tenant, task, mission, fleet, branch, time) except for the body,
  which has been through \<open>cjson\<close> twice.
\<close>

theorem redis_fail_retry_roundtrip:
  assumes H: "lua_host_ok H" and inv: "redis_inv t s" and own: "redis_owner s t k = Some w"
    and raw: "map_of (rq_processing (queue_of s t)) k = Some raw" "redis_decode_message raw = Inr m"
  shows "\<exists>s1 s2 raw' body body'. redis_fail_task H s now t k w why = (op_ok, s1) \<and>
    redis_retry_dead_letter H s1 t k = (op_ok, s2) \<and>
    map_of (rq_pending (queue_of s2 t)) k = Some raw' \<and>
    cjson_encode H (JObj (q_payload m)) = JObj body \<and> cjson_encode H (JObj body) = JObj body' \<and>
    redis_decode_message raw' = Inr (m\<lparr>q_payload := body'\<rparr>)"
proof -
  let ?T = "queue_of s t"
  have wf: "wf_tenant t (rs_clock s) ?T" using inv by (rule redis_inv_wf)
  have good: "good_payload t k raw" using wf raw(1) by (rule wf_payload)
  then obtain j where j: "raw = Text j" "lua_is_table j" "good_body t k j"
    using good_payload_text [OF good] by (auto simp: good_payload_def)
  let ?env = "cjson_encode H (JObj (fail_envelope k w why now j))"
  let ?T1 = "lease_del k (put_dead k (Text ?env) (drop_processing k ?T))"
  have fail: "redis_fail_task H s now t k w why = (op_ok, set_queue t ?T1 s)"
    using own raw(1) j by (simp add: redis_ops run_operation_ready [OF inv] fail_script_def redis_owner_def)
  have inv1: "redis_inv t (set_queue t ?T1 s)"
    using wf_fail_script [OF H wf, of k w why now] own raw(1) j inv
    by (intro redis_inv_set) (simp_all add: fail_script_def redis_owner_def)
  have idle: "map_of (rq_pending ?T) k = None"
    using wf raw(1) unfolding wf_tenant_def disjoint_hash_def by (metis option.distinct(1))
  let ?p = "cjson_encode H j"
  have p: "good_body t k ?p" using good_body_encode [OF H j(3)] .
  have "retry_checked H t k (Text ?env) = Inr ?p"
  proof -
    have "lua_is_table ?env"
      using H unfolding lua_host_ok_def by (metis lua_is_table.simps(1))
    moreover have "lua_field ?env ''payload'' = Some ?p"
      by (simp add: lua_host_obj_field [OF H] fail_envelope_def)
    moreover obtain kvs mi d e where "?p = JObj kvs" "map_of kvs ''tenant_id'' = Some (JStr t)"
      "map_of kvs ''task_id'' = Some (JStr k)" "map_of kvs ''mission_id'' = Some (JStr mi)"
      "map_of kvs ''payload'' = Some (JObj d)" "map_of kvs ''enqueued_at'' = Some (JStamp e)"
      using p by (rule good_bodyE) blast
    ultimately show ?thesis by (simp add: retry_checked_def lua_field_is_def nil_field_def)
  qed
  then have retry: "redis_retry_dead_letter H (set_queue t ?T1 s) t k = (op_ok, set_queue t
      (put_pending k (Text (cjson_encode H ?p)) (?T1\<lparr>rq_dead := AList.delete k (rq_dead ?T1),
         rq_dead_order := zrem k (rq_dead_order ?T1)\<rparr>)) s)"
    using idle by (simp add: redis_ops run_operation_ready [OF inv1] retry_script_def)
  obtain body where b: "cjson_encode H (JObj (q_payload m)) = JObj body"
    "redis_decode_message (Text ?p) = Inr (m\<lparr>q_payload := body\<rparr>)"
    using decode_encoded [OF H j(3)] raw(2) j(1) by blast
  obtain body' where b': "cjson_encode H (JObj body) = JObj body'"
    "redis_decode_message (Text (cjson_encode H ?p)) = Inr (m\<lparr>q_payload := body'\<rparr>)"
    using decode_encoded [OF H p b(2)] by auto
  have "map_of (rq_pending (queue_of (set_queue t
      (put_pending k (Text (cjson_encode H ?p)) (?T1\<lparr>rq_dead := AList.delete k (rq_dead ?T1),
         rq_dead_order := zrem k (rq_dead_order ?T1)\<rparr>)) s) t)) k = Some (Text (cjson_encode H ?p))"
    by simp
  with fail retry b(1) b' show ?thesis by blast
qed

text \<open>In particular an empty list of the body comes back as an empty object.\<close>

lemma redis_fail_retry_roundtrip_witness:
  "\<exists>s1 s2 raw m. redis_fail_task plain_host claimed_state 7 ''acme'' uuid_a ''w1'' ''boom'' = (op_ok, s1) \<and>
     redis_retry_dead_letter plain_host s1 ''acme'' uuid_a = (op_ok, s2) \<and>
     map_of (rq_pending (queue_of s2 ''acme'')) uuid_a = Some raw \<and> redis_decode_message raw = Inr m \<and>
     q_payload (example_message ''acme'' uuid_a) = [(''items'', JArr [])] \<and> q_payload m = [(''items'', JObj [])]"
proof -
  let ?m = "example_message ''acme'' uuid_a"
  have inv: "redis_inv ''acme'' claimed_state" and own: "redis_owner claimed_state ''acme'' uuid_a = Some ''w1''"
    by (rule claimed_state_view)+
  let ?s = "snd (redis_enqueue_task plain_host (redis_ready 0) ?m)"
  have invs: "redis_inv ''acme'' ?s" using enqueue_order(2) [of "''acme''" "redis_ready 0" ?m plain_host] by simp
  obtain raw where raw2: "redis_decode_message raw = Inr ?m"
    and c: "claimed_state = set_queue ''acme'' (lease_set (rs_clock ?s) uuid_a ''w1'' 90
      ((drop_pending uuid_a (queue_of ?s ''acme''))\<lparr>rq_processing :=
         AList.update uuid_a raw (rq_processing (queue_of ?s ''acme''))\<rparr>)) ?s"
    by (rule redis_claim_cases [OF invs, of 90 plain_host "''w1''"]) (use claimed_state_view(1) in auto)
  have raw: "map_of (rq_processing (queue_of claimed_state ''acme'')) uuid_a = Some raw" unfolding c by simp
  show ?thesis
    using redis_fail_retry_roundtrip [OF plain_host_ok inv own raw raw2, of 7 "''boom''"]
    by (auto simp: plain_host_def)
qed

text \<open>
  A task that the maintainer buries when the queue has no payload of it can never be retried.
  The synthesised payload has no mission, so every retry is refused with the same message and
  changes nothing; the entry stays until the task is buried or failed again.
\<close>

theorem redis_synthesised_dead_letter_is_final:
  assumes H: "lua_host_ok H" and inv: "redis_inv t s"
    and "\<not> redis_pending s t k" and "\<not> redis_holding s t k"
  shows "\<exists>s1. redis_move_to_dead_letter H s now t k why = (op_ok, s1) \<and>
    redis_retry_dead_letter H s1 t k = (op_fail ''dead-letter payload is corrupt: missing mission_id'', s1)"
proof -
  let ?T = "queue_of s t"
  let ?p = "JObj [(''tenant_id'', JStr t), (''task_id'', JStr k),
     (''source'', JStr ''runtime_recovery_without_processing_payload'')]"
  let ?env = "cjson_encode H (JObj (dead_letter_envelope k [] why now ?p))"
  let ?T1 = "lease_del k (put_dead k (Text ?env) (drop_pending k (drop_processing k ?T)))"
  have wf: "wf_tenant t (rs_clock s) ?T" using inv by (rule redis_inv_wf)
  have none: "map_of (rq_pending ?T) k = None" "map_of (rq_processing ?T) k = None"
    using assms(3,4) by (simp_all add: redis_views)
  then have "lease_get (rs_clock s) ?T k = None" using wf by simp
  then have move: "redis_move_to_dead_letter H s now t k why = (op_ok, set_queue t ?T1 s)"
    using none by (simp add: redis_ops run_operation_ready [OF inv] dead_letter_script_def dead_letter_payload_def Let_def)
  have inv1: "redis_inv t (set_queue t ?T1 s)"
    using wf_dead_letter_script [OF H wf, of k "[]" why now] \<open>lease_get (rs_clock s) ?T k = None\<close> none inv
    by (intro redis_inv_set) (simp_all add: dead_letter_script_def dead_letter_payload_def Let_def)
  have "retry_checked H t k (Text ?env) = Inl ''dead-letter payload is corrupt: missing mission_id''"
  proof -
    have atoms: "\<And>s. cjson_encode H (JStr s) = JStr s" using H by (simp add: lua_host_ok_def)
    have "lua_is_table ?env" "lua_is_table (cjson_encode H ?p)"
      using H unfolding lua_host_ok_def by (metis lua_is_table.simps(1))+
    moreover have "lua_field ?env ''payload'' = Some (cjson_encode H ?p)"
      by (simp add: lua_host_obj_field [OF H] dead_letter_envelope_def)
    moreover have "lua_field (cjson_encode H ?p) ''tenant_id'' = Some (JStr t)"
      "lua_field (cjson_encode H ?p) ''task_id'' = Some (JStr k)" "lua_field (cjson_encode H ?p) ''mission_id'' = None"
      by (simp_all add: lua_host_obj_field [OF H] atoms)
    ultimately show ?thesis by (simp add: retry_checked_def lua_field_is_def nil_field_def)
  qed
  then have "redis_retry_dead_letter H (set_queue t ?T1 s) t k =
      (op_fail ''dead-letter payload is corrupt: missing mission_id'', set_queue t ?T1 s)"
    using none by (simp add: redis_ops run_operation_ready [OF inv1] retry_script_def)
  with move show ?thesis by blast
qed

lemma redis_synthesised_dead_letter_is_final_witness:
  "\<exists>s1. redis_move_to_dead_letter plain_host (redis_ready 0) 7 ''acme'' uuid_a ''gone'' = (op_ok, s1) \<and>
    fst (redis_retry_dead_letter plain_host s1 ''acme'' uuid_a) =
      op_fail ''dead-letter payload is corrupt: missing mission_id''"
  using redis_synthesised_dead_letter_is_final [OF plain_host_ok, of "''acme''" "redis_ready 0" uuid_a 7 "''gone''"]
  by auto

subsection \<open>Ownership\<close>

text \<open>
  What the other clients of the server do while worker \<open>w\<close> holds its claims: every operation of the adapter for any
  tenant and task, by anyone but \<open>w\<close> and not in its name, the passing of time and failures of the connection. The maintainer recovers
  and buries in the name of the holder of a lease it has found expired; that is an act of \<open>w\<close> here.
\<close>

inductive others_step :: "lua_host \<Rightarrow> int \<Rightarrow> string \<Rightarrow> redis_state \<Rightarrow> redis_state \<Rightarrow> bool"
  for H ttl w where
  enqueues: "wf_message m \<Longrightarrow> others_step H ttl w s (snd (redis_enqueue_task H s m))"
| dispatches: "wf_message m \<Longrightarrow> others_step H ttl w s (snd (redis_enqueue_task_idempotent H s m key))"
| cancels: "others_step H ttl w s (snd (redis_cancel_task H s t k))"
| claims: "others_step H ttl w s (snd (redis_claim_task H ttl s t v))"
| claims_existing: "v \<noteq> w \<Longrightarrow> others_step H ttl w s (snd (redis_claim_existing_task H ttl s t k v))"
| beats: "v \<noteq> w \<Longrightarrow> others_step H ttl w s (snd (redis_heartbeat H ttl s t k v))"
| completes: "v \<noteq> w \<Longrightarrow> others_step H ttl w s (snd (redis_complete_task H s t k v))"
| fails: "v \<noteq> w \<Longrightarrow> others_step H ttl w s (snd (redis_fail_task H s now t k v why))"
| releases: "v \<noteq> w \<Longrightarrow> others_step H ttl w s (snd (redis_release_lease H s t k v))"
| recovers: "v \<noteq> w \<Longrightarrow> others_step H ttl w s (snd (redis_recover_task_for_retry H s t k v))"
| buries: "worker \<noteq> Some w \<Longrightarrow> others_step H ttl w s (snd (redis_dead_letter H s now t k worker why))"
| retries: "others_step H ttl w s (snd (redis_retry_dead_letter H s t k))"
| lists: "others_step H ttl w s (snd (redis_list_processing H s t))"
| lists_dead: "others_step H ttl w s (snd (redis_list_dead_letter H s t))"
| counts: "others_step H ttl w s (snd (redis_pending_depth H s t))"
| time_passes: "0 \<le> d \<Longrightarrow> others_step H ttl w s (s\<lparr>rs_clock := rs_clock s + d\<rparr>)"
| connection_changes: "others_step H ttl w s (s\<lparr>rs_down := x\<rparr>)"

lemma others_step_step: "others_step H ttl w s s' \<Longrightarrow> redis_step H ttl s s'"
  by (erule others_step.cases) (auto intro: redis_step.intros)

text \<open>The lease of \<open>w\<close> on a task with the instant it ends at, and the payload it processes.\<close>

definition lease_kept :: "string \<Rightarrow> uuid \<Rightarrow> time \<Rightarrow> raw_text \<Rightarrow> tenant_queue \<Rightarrow> bool" where
  "lease_kept w k e raw T \<longleftrightarrow> map_of (rq_leases T) k = Some (w, e) \<and> map_of (rq_processing T) k = Some raw"

definition undisturbed :: "string \<Rightarrow> uuid \<Rightarrow> time \<Rightarrow> raw_text \<Rightarrow> time \<Rightarrow> string \<Rightarrow> (tenant_queue \<Rightarrow> 'r \<times> tenant_queue) \<Rightarrow> bool" where
  "undisturbed w k e raw c t script \<longleftrightarrow> (\<forall>T. wf_tenant t c T \<longrightarrow> lease_kept w k e raw T \<longrightarrow> lease_kept w k e raw (snd (script T)))"

lemma holds_ops [simp]:
  "lease_kept w k e raw (put_pending j r T) = lease_kept w k e raw T" "lease_kept w k e raw (put_dead j r T) = lease_kept w k e raw T"
  "lease_kept w k e raw (drop_pending j T) = lease_kept w k e raw T" "lease_kept w k e raw (T\<lparr>rq_dispatch := d\<rparr>) = lease_kept w k e raw T"
  "lease_kept w k e raw (T\<lparr>rq_dead := b, rq_dead_order := z\<rparr>) = lease_kept w k e raw T"
  "j \<noteq> k \<Longrightarrow> lease_kept w k e raw (drop_processing j T) = lease_kept w k e raw T"
  "j \<noteq> k \<Longrightarrow> lease_kept w k e raw (lease_del j T) = lease_kept w k e raw T"
  "j \<noteq> k \<Longrightarrow> lease_kept w k e raw (lease_set c j v ttl T) = lease_kept w k e raw T"
  "j \<noteq> k \<Longrightarrow> lease_kept w k e raw (lease_expire c j ttl T) = lease_kept w k e raw T"
  "j \<noteq> k \<Longrightarrow> lease_kept w k e raw (drop_pending j T\<lparr>rq_processing := AList.update j p (rq_processing T)\<rparr>) = lease_kept w k e raw T"
  by (auto simp: lease_kept_def tenant_ops lease_expire_def delete_conv update_conv split: option.split)

lemma holds_lease: "lease_kept w k e raw T \<Longrightarrow> c \<le> e \<Longrightarrow> lease_get c T k = Some w"
  by (simp add: lease_kept_def lease_get_def)

lemma undisturbed_scripts:
  assumes "c \<le> e"
  shows "undisturbed w k e raw c t (enqueue_script j r)" "undisturbed w k e raw c t (idempotent_enqueue_script key j r)"
    "undisturbed w k e raw c t (cancel_script j)" "undisturbed w k e raw c t (claim_next_script c u ttl)"
    "v \<noteq> w \<Longrightarrow> undisturbed w k e raw c t (claim_existing_script c j v ttl)"
    "v \<noteq> w \<Longrightarrow> undisturbed w k e raw c t (heartbeat_script c j v ttl)"
    "v \<noteq> w \<Longrightarrow> undisturbed w k e raw c t (complete_script c j v)"
    "v \<noteq> w \<Longrightarrow> undisturbed w k e raw c t (fail_script H c j v why now)"
    "v \<noteq> w \<Longrightarrow> undisturbed w k e raw c t (release_script c j v)"
    "v \<noteq> w \<Longrightarrow> undisturbed w k e raw c t (recover_script c j v)"
    "v \<noteq> w \<or> v = [] \<Longrightarrow> undisturbed w k e raw c t (dead_letter_script H c j v why now t2)"
    "undisturbed w k e raw c t (retry_script H t2 j)"
proof -
  note [dest] = holds_lease [OF _ assms]
  have claimed: "map_of (rq_processing T) k \<noteq> None" if "lease_kept w k e raw T" for T using that by (simp add: lease_kept_def)
  show "undisturbed w k e raw c t (enqueue_script j r)" "undisturbed w k e raw c t (idempotent_enqueue_script key j r)"
    "undisturbed w k e raw c t (cancel_script j)" "undisturbed w k e raw c t (retry_script H t2 j)"
    by (auto simp: undisturbed_def enqueue_script_def idempotent_enqueue_script_def cancel_script_def retry_script_def
        split: option.split sum.split)
  show "undisturbed w k e raw c t (claim_next_script c u ttl)"
    unfolding undisturbed_def
  proof (intro allI impI)
    fix T assume T: "wf_tenant t c T" "lease_kept w k e raw T"
    have own: "lease_get c T k = Some w" using T(2) by blast
    show "lease_kept w k e raw (snd (claim_next_script c u ttl T))"
    proof (cases "rq_pending_order T")
      case (Cons a rest)
      show ?thesis using T(2) own by (cases "snd a = k") (auto simp: claim_next_script_def Cons Let_def split: prod.split option.split)
    qed (simp add: claim_next_script_def T(2))
  qed
  show "undisturbed w k e raw c t (claim_existing_script c j v ttl)" if "v \<noteq> w"
    using that by (cases "j = k") (auto simp: undisturbed_def claim_existing_script_def Let_def dest: claimed split: option.split)
  show "undisturbed w k e raw c t (heartbeat_script c j v ttl)" if "v \<noteq> w"
    using that by (cases "j = k") (auto simp: undisturbed_def heartbeat_script_def split: option.split)
  show "undisturbed w k e raw c t (complete_script c j v)" if "v \<noteq> w"
    using that by (cases "j = k") (auto simp: undisturbed_def complete_script_def split: option.split)
  show "undisturbed w k e raw c t (fail_script H c j v why now)" if "v \<noteq> w"
    using that by (cases "j = k") (auto simp: undisturbed_def fail_script_def split: option.split)
  show "undisturbed w k e raw c t (release_script c j v)" if "v \<noteq> w"
    using that by (cases "j = k") (auto simp: undisturbed_def release_script_def split: option.split)
  show "undisturbed w k e raw c t (recover_script c j v)" if "v \<noteq> w"
    using that by (cases "j = k") (auto simp: undisturbed_def recover_script_def split: option.split)
  show "undisturbed w k e raw c t (dead_letter_script H c j v why now t2)" if "v \<noteq> w \<or> v = []"
    using that by (cases "j = k") (auto simp: undisturbed_def dead_letter_script_def Let_def split: option.split)
qed

text \<open>Every operation is a script on one tenant's keys, after the migration that finds nothing to do there.\<close>

definition claim_held :: "string \<Rightarrow> string \<Rightarrow> uuid \<Rightarrow> time \<Rightarrow> raw_text \<Rightarrow> redis_state \<Rightarrow> bool" where
  "claim_held t w k e raw s \<longleftrightarrow> redis_ok s \<and> lease_kept w k e raw (queue_of s t)"

lemma empty_tenant_sel: "rq_leases empty_tenant = []"
  by (simp add: empty_tenant_def)

lemma claim_held_wf: "claim_held t w k e raw s \<Longrightarrow> wf_tenant t (rs_clock s) (queue_of s t)"
  unfolding claim_held_def redis_ok_def lease_kept_def by (metis empty_tenant_sel map_of.simps(1) option.distinct(1))

lemma held_schema:
  assumes "claim_held t w k e raw s"
  shows "lease_kept w k e raw (queue_of (snd (ensure_queue_schema H s t')) t)"
    "ensure_queue_schema H s t' = (Inr u, s1) \<Longrightarrow> t' = t \<Longrightarrow> wf_tenant t (rs_clock s) (queue_of s1 t)"
    "rs_clock (snd (ensure_queue_schema H s t')) = rs_clock s"
  using migrate_ready [OF claim_held_wf [OF assms], of H] assms claim_held_wf [OF assms]
  by (auto simp: ensure_queue_schema_def execute_def claim_held_def queue_of_def set_queue_def operation_result_def Let_def
      split: option.splits prod.splits if_splits)

lemma held_execute:
  assumes "t' = t \<Longrightarrow> wf_tenant t c (queue_of s t)" and "lease_kept w k e raw (queue_of s t)"
    and "undisturbed w k e raw c t script"
  shows "lease_kept w k e raw (queue_of (snd (execute s t' script)) t)"
  using assms by (auto simp: execute_def queue_of_def set_queue_def undisturbed_def split: option.split prod.split)

lemma held_run:
  assumes "claim_held t w k e raw s" and "undisturbed w k e raw (rs_clock s) t script"
  shows "lease_kept w k e raw (queue_of (snd (run_operation H s t' name script)) t)"
proof -
  obtain r s1 where s1: "ensure_queue_schema H s t' = (r, s1)" by (cases "ensure_queue_schema H s t'")
  have h1: "lease_kept w k e raw (queue_of s1 t)" using held_schema(1) [OF assms(1), of H t'] s1 by simp
  show ?thesis
  proof (cases r)
    case (Inr u)
    have "lease_kept w k e raw (queue_of (snd (execute s1 t' script)) t)"
      using held_schema(2) [OF assms(1)] s1 Inr by (intro held_execute [OF _ h1 assms(2)]) blast
    then show ?thesis using s1 Inr by (simp add: run_operation_def case_prod_beta split: sum.split)
  qed (simp add: run_operation_def s1 h1)
qed

lemma held_claim:
  assumes "claim_held t w k e raw s" and "rs_clock s \<le> e"
  shows "lease_kept w k e raw (queue_of (snd (redis_claim_task H ttl s t' v)) t)"
proof -
  obtain r s1 where s1: "ensure_queue_schema H s t' = (r, s1)" by (cases "ensure_queue_schema H s t'")
  have h1: "lease_kept w k e raw (queue_of s1 t)" "rs_clock s1 = rs_clock s" using held_schema(1,3) [OF assms(1), of H t'] s1 by simp_all
  show ?thesis
  proof (cases r)
    case (Inr u)
    have "lease_kept w k e raw (queue_of (snd (execute s1 t' (claim_next_script (rs_clock s1) v ttl))) t)"
      using held_schema(2) [OF assms(1)] s1 Inr assms(2) h1(2)
      by (intro held_execute [OF _ h1(1) undisturbed_scripts(4)]) auto
    then show ?thesis using s1 Inr
      by (simp add: redis_claim_task_def case_prod_beta Let_def split: sum.split)
  qed (simp add: redis_claim_task_def s1 h1 Let_def)
qed

lemma execute_clock: "execute s t script = (r, s1) \<Longrightarrow> rs_clock s1 = rs_clock s"
  by (auto simp: execute_def set_queue_def split: option.splits prod.splits)

lemma schema_clock: "ensure_queue_schema H s t = (r, s1) \<Longrightarrow> rs_clock s1 = rs_clock s"
  by (auto simp: ensure_queue_schema_def Let_def dest!: execute_clock split: prod.splits sum.splits if_splits)

lemma run_clock: "rs_clock (snd (run_operation H s t name script)) = rs_clock s"
  by (auto simp: run_operation_def dest!: execute_clock schema_clock split: prod.split sum.split)

lemma read_only_operations:
  "snd (redis_list_processing H s t) = snd (ensure_queue_schema H s t)"
  "snd (redis_list_dead_letter H s t) = snd (ensure_queue_schema H s t)"
  "snd (redis_pending_depth H s t) = snd (ensure_queue_schema H s t)"
  by (simp_all add: redis_list_processing_def redis_list_dead_letter_def redis_pending_depth_def Let_def split: prod.split sum.split)

lemma claim_clock: "rs_clock (snd (redis_claim_task H ttl s t v)) = rs_clock s"
  by (auto simp: redis_claim_task_def Let_def dest!: execute_clock schema_clock split: prod.split sum.split)

lemma others_clock: "others_step H ttl w s s' \<Longrightarrow> rs_clock s \<le> rs_clock s'"
  by (erule others_step.cases)
    (simp_all add: redis_ops read_only_operations Let_def run_clock claim_clock schema_clock [OF surjective_pairing])

lemma others_clock_run: "(others_step H ttl w)\<^sup>*\<^sup>* s s' \<Longrightarrow> rs_clock s \<le> rs_clock s'"
  by (induction rule: rtranclp_induct) (auto dest: others_clock)

lemma others_hold:
  assumes "others_step H ttl w s s'" and "lua_host_ok H" and "0 < ttl" and "claim_held t w k e raw s" and "rs_clock s \<le> e"
  shows "claim_held t w k e raw s'"
proof -
  have ok: "redis_ok s'" using redis_step_ok [OF others_step_step [OF assms(1)] assms(2,3)] assms(4) by (simp add: claim_held_def)
  note run = held_run [OF assms(4) undisturbed_scripts(1) [OF assms(5)]] held_run [OF assms(4) undisturbed_scripts(2) [OF assms(5)]]
    held_run [OF assms(4) undisturbed_scripts(3) [OF assms(5)]] held_run [OF assms(4) undisturbed_scripts(5) [OF assms(5)]]
    held_run [OF assms(4) undisturbed_scripts(6) [OF assms(5)]] held_run [OF assms(4) undisturbed_scripts(7) [OF assms(5)]]
    held_run [OF assms(4) undisturbed_scripts(8) [OF assms(5)]] held_run [OF assms(4) undisturbed_scripts(9) [OF assms(5)]]
    held_run [OF assms(4) undisturbed_scripts(10) [OF assms(5)]] held_run [OF assms(4) undisturbed_scripts(12) [OF assms(5)]]
  have "lease_kept w k e raw (queue_of s' t)"
    using assms(1)
  proof cases
    case (buries worker now t' j why)
    then have "(case worker of None \<Rightarrow> [] | Some v \<Rightarrow> v) \<noteq> w \<or> (case worker of None \<Rightarrow> [] | Some v \<Rightarrow> v) = []"
      by (cases worker) auto
    from held_run [OF assms(4) undisturbed_scripts(11) [OF assms(5) this]] show ?thesis
      by (simp add: buries(1) redis_dead_letter_def Let_def)
  next
    case (time_passes d)
    then show ?thesis using assms(4) by (simp add: claim_held_def queue_of_def)
  next
    case (connection_changes x)
    then show ?thesis using assms(4) by (simp add: claim_held_def queue_of_def)
  qed (simp_all add: redis_ops run held_claim [OF assms(4,5)] read_only_operations held_schema(1) [OF assms(4)])
  then show ?thesis using ok by (simp add: claim_held_def)
qed

lemma others_hold_run:
  assumes "(others_step H ttl w)\<^sup>*\<^sup>* s s'" and "lua_host_ok H" and "0 < ttl" and "claim_held t w k e raw s" and "rs_clock s' \<le> e"
  shows "claim_held t w k e raw s' \<and> rs_clock s \<le> rs_clock s'"
  using assms(1,5)
proof (induction rule: rtranclp_induct)
  case (step s1 s2)
  note clock = others_clock [OF step.hyps(2)]
  then have "claim_held t w k e raw s1 \<and> rs_clock s \<le> rs_clock s1" using step.IH step.prems by linarith
  then show ?case using others_hold [OF step.hyps(2) assms(2,3)] clock step.prems by fastforce
qed (use assms(4) in simp)

text \<open>
  C17: a worker keeps its claim on the Redis queue. From any reachable state until the instant its lease ends, whatever the other clients do, for any tenant
  and task, in any number and order, however time passes and the connection fails: the task stays claimed by the same worker, with the
  same payload and the same end of the lease; no claim returns it, and nobody else can claim it by its key.
\<close>

theorem redis_ownership_stable:
  assumes "lua_host_ok H" and "0 < ttl" and "redis_ok s"
    and "map_of (rq_leases (queue_of s t)) k = Some (w, e)"
    and "(others_step H ttl w)\<^sup>*\<^sup>* s s'" and "rs_clock s' \<le> e"
  shows "redis_owner s' t k = Some w \<and> map_of (rq_leases (queue_of s' t)) k = Some (w, e) \<and>
    map_of (rq_processing (queue_of s' t)) k = map_of (rq_processing (queue_of s t)) k \<and>
    (\<forall>v m s2. redis_claim_task H ttl s' t v = (Inr (Some m), s2) \<longrightarrow> q_task_id m \<noteq> k) \<and>
    (\<forall>v. v \<noteq> w \<longrightarrow> \<not> r_ok (fst (redis_claim_existing_task H ttl s' t k v)))"
proof -
  note ok = assms(3)
  have clock: "rs_clock s \<le> e" using others_clock_run [OF assms(5)] assms(6) by linarith
  have "queue_of s t \<noteq> empty_tenant" using assms(4) empty_tenant_sel by (metis map_of.simps(1) option.distinct(1))
  then have wf: "wf_tenant t (rs_clock s) (queue_of s t)" using ok by (auto simp: redis_ok_def)
  have "lease_get (rs_clock s) (queue_of s t) k = Some w" using assms(4) clock by (simp add: lease_get_def)
  then obtain raw where raw: "map_of (rq_processing (queue_of s t)) k = Some raw"
    using wf unfolding wf_tenant_def leases_processing_def by (metis domD option.exhaust option.distinct(1))
  have "claim_held t w k e raw s" using ok assms(4) raw by (simp add: claim_held_def lease_kept_def)
  then have held: "claim_held t w k e raw s'" using others_hold_run [OF assms(5,1,2) _ assms(6)] by blast
  have keep: "redis_owner s' t k = Some w" "map_of (rq_leases (queue_of s' t)) k = Some (w, e)"
    "map_of (rq_processing (queue_of s' t)) k = Some raw"
    using held assms(6) by (auto simp: claim_held_def lease_kept_def redis_owner_def lease_get_def)
  have wf': "wf_tenant t (rs_clock s') (queue_of s' t)" by (rule claim_held_wf [OF held])
  have "q_task_id m \<noteq> k" if "redis_claim_task H ttl s' t v = (Inr (Some m), s2)" for v m s2
  proof -
    have "rs_down s' = None" using that by (auto simp: redis_claim_task_def ensure_queue_schema_def execute_def Let_def split: option.splits)
    then have inv: "redis_inv t s'" using wf' by (simp add: redis_inv_def)
    have contract: "queue_contract (redis_adapter H ttl) redis_inv redis_pending redis_holding redis_owner redis_seen"
      using redis_env.intro [OF assms(1,2)] by (rule redis_env.contract)
    show ?thesis
      using queue_contract.claim_some [OF contract inv] queue_contract.owner_holding [OF contract inv keep(1)] that
      by (metis redis_adapter_sel(4))
  qed
  moreover have "\<not> r_ok (fst (redis_claim_existing_task H ttl s' t k v))" if "v \<noteq> w" for v
    using that keep wf' migrate_ready [OF wf', of H]
    by (auto simp: redis_claim_existing_task_def run_operation_def ensure_queue_schema_def execute_def operation_result_def set_queue_def
        queue_of_def claim_existing_script_def redis_owner_def op_fail_def Let_def split: option.split)
  ultimately show ?thesis using keep raw by simp
qed

text \<open>The worker claims; another one tries to complete, the maintainer to recover, an operator to bury and to cancel; a minute passes.\<close>

definition contested_state :: redis_state where
  "contested_state =
     (let s1 = snd (redis_complete_task plain_host claimed_state ''acme'' uuid_a ''w2'');
          s2 = snd (redis_recover_task_for_retry plain_host s1 ''acme'' uuid_a ''w2'');
          s3 = snd (redis_dead_letter plain_host s2 9 ''acme'' uuid_a None ''gone'');
          s4 = snd (redis_cancel_task plain_host s3 ''acme'' uuid_a)
      in s4\<lparr>rs_clock := rs_clock s4 + seconds 60\<rparr>)"

lemma claimed_state_ok: "redis_ok claimed_state"
proof -
  have "redis_ok (redis_ready 0)"
    using wf_migrated_empty(3) by (simp add: redis_ok_def redis_ready_def queue_of_def)
  from redis_step_ok [OF redis_step.enqueues plain_host_ok _ this, of "example_message ''acme'' uuid_a" 90]
  have "redis_ok (snd (redis_enqueue_task plain_host (redis_ready 0) (example_message ''acme'' uuid_a)))"
    by (simp add: example_message_wf)
  from redis_step_ok [OF redis_step.claims plain_host_ok _ this, of 90 "''acme''" "''w1''"] show ?thesis
    by (simp add: claimed_state_def)
qed

lemma claimed_state_lease:
  "map_of (rq_leases (queue_of claimed_state ''acme'')) uuid_a = Some (''w1'', seconds 90)" "rs_clock claimed_state = 0"
proof -
  let ?s = "snd (redis_enqueue_task plain_host (redis_ready 0) (example_message ''acme'' uuid_a))"
  have inv: "redis_inv ''acme'' ?s"
    using enqueue_order(2) [of "''acme''" "redis_ready 0" "example_message ''acme'' uuid_a" plain_host] by simp
  have clock: "rs_clock ?s = 0" by (simp add: redis_ops run_clock) (simp add: redis_ready_def)
  obtain raw where c: "claimed_state = set_queue ''acme'' (lease_set (rs_clock ?s) uuid_a ''w1'' 90
      ((drop_pending uuid_a (queue_of ?s ''acme''))\<lparr>rq_processing :=
         AList.update uuid_a raw (rq_processing (queue_of ?s ''acme''))\<rparr>)) ?s"
    by (rule redis_claim_cases [OF inv, of 90 plain_host "''w1''"]) (use claimed_state_view(1) in auto)
  show "map_of (rq_leases (queue_of claimed_state ''acme'')) uuid_a = Some (''w1'', seconds 90)"
    by (simp add: c clock lease_set_def update_conv)
  show "rs_clock claimed_state = 0" by (simp add: c set_queue_def clock)
qed

lemma contested_run: "(others_step plain_host 90 ''w1'')\<^sup>*\<^sup>* claimed_state contested_state"
proof -
  note also_then = rtranclp.rtrancl_into_rtrancl [where r = "others_step plain_host 90 ''w1''"]
  note first = r_into_rtranclp [where r = "others_step plain_host 90 ''w1''"]
  show ?thesis
    unfolding contested_state_def Let_def
    by (rule also_then [OF also_then [OF also_then [OF also_then [OF first [OF others_step.completes]
      others_step.recovers] others_step.buries] others_step.cancels] others_step.time_passes]) (simp_all add: seconds_def)
qed

lemma contested_clock: "rs_clock contested_state = seconds 60"
  unfolding contested_state_def by (simp add: Let_def redis_ops run_clock redis_dead_letter_def claimed_state_lease(2))

lemma redis_ownership_stable_witness:
  "redis_owner contested_state ''acme'' uuid_a = Some ''w1'' \<and>
   \<not> r_ok (fst (redis_claim_existing_task plain_host 90 contested_state ''acme'' uuid_a ''w2''))"
  using redis_ownership_stable [OF plain_host_ok _ claimed_state_ok claimed_state_lease(1) contested_run]
  by (simp add: contested_clock seconds_def)

subsection \<open>The migration of legacy lists\<close>

text \<open>The task a legacy text names, as the script reads it.\<close>

definition legacy_task :: "raw_text \<Rightarrow> string" where
  "legacy_task raw =
     (case raw of Text j \<Rightarrow> (case lua_field j ''task_id'' of Some (JStr k) \<Rightarrow> k | _ \<Rightarrow> []) | Garbage _ \<Rightarrow> [])"

lemma legacy_live_rows_good:
  assumes "\<forall>raw \<in> set raws. good_payload t (legacy_task raw) raw"
    and "distinct (map legacy_task raws)" and "set (map legacy_task raws) \<inter> set seen = {}"
  shows "legacy_live_rows H t kind seen raws = Inr (map (\<lambda>raw. (legacy_task raw, raw)) raws)"
  using assms
proof (induction raws arbitrary: seen)
  case (Cons raw raws)
  from Cons.prems(1) have "good_payload t (legacy_task raw) raw" by simp
  then obtain j where j: "raw = Text j" "lua_field j ''task_id'' = Some (JStr (legacy_task raw))"
    "lua_field_is H j ''tenant_id'' t"
    by (auto simp: good_payload_def good_body_def lua_field_is_def split: raw_text.splits)
  moreover have "legacy_live_rows H t kind (legacy_task raw # seen) raws = Inr (map (\<lambda>raw. (legacy_task raw, raw)) raws)"
    using Cons.prems by (intro Cons.IH) auto
  moreover have "legacy_task raw \<notin> set seen" using Cons.prems(3) by simp
  ultimately show ?case by simp
qed simp

text \<open>A legacy dead-letter envelope as the former adapter wrote it.\<close>

definition good_legacy_dead :: "string \<Rightarrow> raw_text \<Rightarrow> bool" where
  "good_legacy_dead t raw \<longleftrightarrow>
     (case raw of
        Text j \<Rightarrow> lua_field j ''task_id'' = Some (JStr (legacy_task raw)) \<and>
          (case lua_field j ''payload'' of
             None \<Rightarrow> False
           | Some p \<Rightarrow> lua_is_table p \<and> lua_field p ''tenant_id'' = Some (JStr t))
      | Garbage _ \<Rightarrow> False) \<and> good_dead t raw"

lemma legacy_dead_rows_good:
  assumes "\<forall>raw \<in> set raws. good_legacy_dead t raw"
    and "distinct (map legacy_task raws)" and "set (map legacy_task raws) \<inter> set seen = {}"
  shows "legacy_dead_rows H t seen raws = Inr (map (\<lambda>raw. (legacy_task raw, raw)) raws)"
  using assms
proof (induction raws arbitrary: seen)
  case (Cons raw raws)
  from Cons.prems(1) have "good_legacy_dead t raw" by simp
  then obtain j p where j: "raw = Text j" "lua_field j ''task_id'' = Some (JStr (legacy_task raw))"
    "lua_field j ''payload'' = Some p" "lua_is_table p" "lua_field_is H p ''tenant_id'' t"
    by (auto simp: good_legacy_dead_def lua_field_is_def split: raw_text.splits option.splits)
  moreover have "legacy_dead_rows H t (legacy_task raw # seen) raws = Inr (map (\<lambda>raw. (legacy_task raw, raw)) raws)"
    using Cons.prems by (intro Cons.IH) auto
  moreover have "legacy_task raw \<notin> set seen" using Cons.prems(3) by simp
  ultimately show ?case by simp
qed simp

text \<open>The invariant but for the marker and the legacy lists, which the script sets last.\<close>

definition wf_indexed :: "string \<Rightarrow> tenant_queue \<Rightarrow> bool" where
  "wf_indexed t T \<longleftrightarrow>
     zset_ok (rq_pending_order T) (rq_pending T) (rq_sequence T) \<and>
     zset_ok (rq_dead_order T) (rq_dead T) (rq_sequence T) \<and>
     disjoint_hash (rq_pending T) (rq_processing T) \<and>
     hash_all (good_payload t) (rq_pending T) \<and> hash_all (good_payload t) (rq_processing T) \<and>
     hash_all (\<lambda>_. good_dead t) (rq_dead T)"

lemma put_pending_index [simp]:
  "rq_sequence (put_pending k r T) = rq_sequence T + 1" "rq_dead_order (put_pending k r T) = rq_dead_order T"
  "rq_pending_order (put_pending k r T) = zadd (rq_sequence T + 1) k (rq_pending_order T)"
  "rq_sequence (put_dead k r T) = rq_sequence T + 1" "rq_pending_order (put_dead k r T) = rq_pending_order T"
  "rq_dead_order (put_dead k r T) = zadd (rq_sequence T + 1) k (rq_dead_order T)"
  by (simp_all add: put_pending_def put_dead_def Let_def)

lemma wf_indexed_put_pending:
  assumes "wf_indexed t T" and "good_payload t k r" and "map_of (rq_processing T) k = None"
  shows "wf_indexed t (put_pending k r T)"
proof -
  from assms(1) have "zset_ok (zadd (rq_sequence T + 1) k (rq_pending_order T))
      (AList.update k r (rq_pending T)) (rq_sequence T + 1)"
    unfolding wf_indexed_def by (intro zset_ok_zadd) auto
  moreover from assms(1) have "zset_ok (rq_dead_order T) (rq_dead T) (rq_sequence T + 1)"
    unfolding wf_indexed_def by (auto intro: zset_ok_mono)
  ultimately show ?thesis using assms by (simp add: wf_indexed_def)
qed

lemma wf_indexed_put_dead:
  assumes "wf_indexed t T" and "good_dead t r"
  shows "wf_indexed t (put_dead k r T)"
proof -
  from assms(1) have "zset_ok (zadd (rq_sequence T + 1) k (rq_dead_order T))
      (AList.update k r (rq_dead T)) (rq_sequence T + 1)"
    unfolding wf_indexed_def by (intro zset_ok_zadd) auto
  moreover from assms(1) have "zset_ok (rq_pending_order T) (rq_pending T) (rq_sequence T + 1)"
    unfolding wf_indexed_def by (auto intro: zset_ok_mono)
  ultimately show ?thesis using assms by (simp add: wf_indexed_def)
qed

lemma load_pending:
  assumes "wf_indexed t T" and "rq_processing T = []"
    and "\<forall>raw \<in> set raws. good_payload t (legacy_task raw) raw"
    and "distinct (map legacy_task raws)" and "\<forall>raw \<in> set raws. map_of (rq_pending T) (legacy_task raw) = None"
  shows "let T' = fold (\<lambda>(k, raw). put_pending k raw) (map (\<lambda>raw. (legacy_task raw, raw)) raws) T
    in wf_indexed t T' \<and> rq_processing T' = [] \<and> rq_dead T' = rq_dead T \<and> rq_dead_order T' = rq_dead_order T \<and>
       rq_leases T' = rq_leases T \<and> rq_odd T' = rq_odd T \<and>
       dom (map_of (rq_pending T')) = dom (map_of (rq_pending T)) \<union> legacy_task ` set raws \<and>
       map snd (rq_pending_order T') = map snd (rq_pending_order T) @ map legacy_task raws"
  using assms
proof (induction raws arbitrary: T)
  case (Cons raw raws)
  let ?T = "put_pending (legacy_task raw) raw T"
  have z: "zset_ok (rq_pending_order T) (rq_pending T) (rq_sequence T)"
    using Cons.prems(1) by (simp add: wf_indexed_def)
  have "legacy_task raw \<notin> snd ` set (rq_pending_order T)"
    using z Cons.prems(5) unfolding zset_ok_def by (metis domIff list.set_intros(1) set_map)
  then have order: "map snd (rq_pending_order ?T) = map snd (rq_pending_order T) @ [legacy_task raw]"
    using zadd_fresh [of "rq_pending_order T" "rq_sequence T" "legacy_task raw"] z by (simp add: zset_ok_def)
  have "wf_indexed t ?T" using Cons.prems by (intro wf_indexed_put_pending) auto
  moreover have "\<forall>r \<in> set raws. map_of (rq_pending ?T) (legacy_task r) = None"
    using Cons.prems(4,5) by (auto simp: image_iff)
  moreover have "rq_odd ?T = rq_odd T" by (simp add: put_pending_def Let_def)
  ultimately show ?case using Cons.IH [of ?T] Cons.prems order by (simp add: Let_def) auto
qed simp

lemma load_processing:
  assumes "wf_indexed t T" and "\<forall>raw \<in> set raws. good_payload t (legacy_task raw) raw"
    and "\<forall>raw \<in> set raws. map_of (rq_pending T) (legacy_task raw) = None"
  shows "let T' = fold (\<lambda>(k, raw) T. T\<lparr>rq_processing := AList.update k raw (rq_processing T)\<rparr>)
      (map (\<lambda>raw. (legacy_task raw, raw)) raws) T
    in wf_indexed t T' \<and> rq_pending T' = rq_pending T \<and> rq_pending_order T' = rq_pending_order T \<and>
       rq_leases T' = rq_leases T \<and> rq_odd T' = rq_odd T \<and>
       dom (map_of (rq_processing T')) = dom (map_of (rq_processing T)) \<union> legacy_task ` set raws"
  using assms
proof (induction raws arbitrary: T)
  case (Cons raw raws)
  let ?T = "T\<lparr>rq_processing := AList.update (legacy_task raw) raw (rq_processing T)\<rparr>"
  have "disjoint_hash (rq_pending T) (AList.update (legacy_task raw) raw (rq_processing T))"
    using Cons.prems(1,3) by (auto simp: wf_indexed_def disjoint_hash_def)
  then have "wf_indexed t ?T" using Cons.prems by (simp add: wf_indexed_def)
  then show ?case using Cons.IH [of ?T] Cons.prems by (simp add: Let_def) (auto split: if_splits)
qed simp

lemma load_dead:
  assumes "wf_indexed t T" and "\<forall>raw \<in> set raws. good_dead t raw"
  shows "let T' = fold (\<lambda>(k, raw). put_dead k raw) (map (\<lambda>raw. (legacy_task raw, raw)) raws) T
    in wf_indexed t T' \<and> rq_pending T' = rq_pending T \<and> rq_pending_order T' = rq_pending_order T \<and>
       rq_processing T' = rq_processing T \<and> rq_leases T' = rq_leases T \<and> rq_odd T' = rq_odd T"
  using assms
proof (induction raws arbitrary: T)
  case (Cons raw raws)
  then have "wf_indexed t (put_dead (legacy_task raw) raw T)" by (intro wf_indexed_put_dead) auto
  moreover have "rq_odd (put_dead (legacy_task raw) raw T) = rq_odd T" by (simp add: put_dead_def Let_def)
  ultimately show ?case using Cons.IH [of "put_dead (legacy_task raw) raw T"] Cons.prems by (simp add: Let_def)
qed simp

text \<open>
  The migration from the legacy lists fails closed. Whatever a tenant's keys hold, a migration
  that does not reply success changes no key, so a malformed or duplicate entry never
  loses or half-moves a payload.
\<close>

theorem migration_fails_closed:
  "fst (fst (migrate_script H t T)) \<noteq> 1 \<longrightarrow> snd (migrate_script H t T) = T"
  by (auto simp: migrate_script_def Let_def split: sum.split)

lemma migration_fails_closed_witness:
  "migrate_script plain_host ''acme'' (empty_tenant\<lparr>rq_legacy_pending := [Garbage ''x'']\<rparr>) =
     ((0, ''legacy pending payload is corrupt''), empty_tenant\<lparr>rq_legacy_pending := [Garbage ''x'']\<rparr>)"
proof -
  have "fst (migrate_script plain_host ''acme'' (empty_tenant\<lparr>rq_legacy_pending := [Garbage ''x'']\<rparr>)) =
      (0, ''legacy pending payload is corrupt'')"
    by (simp add: migrate_script_def empty_tenant_def odd_among_def indexed_exists_def)
  then show ?thesis
    using migration_fails_closed [of plain_host "''acme''" "empty_tenant\<lparr>rq_legacy_pending := [Garbage ''x'']\<rparr>"]
    by (metis fst_conv prod.collapse zero_neq_one)
qed

text \<open>
  C19: a well-formed legacy tenant migrates. When the lists hold payloads of the tenant, each task
  once among pending and processing, and no index exists yet, the script succeeds, keeps
  the pending tasks in their order, makes exactly the processing payloads processing,
  establishes the invariant of all later operations, and running it again changes nothing.
\<close>

theorem migration_establishes_invariant:
  assumes "\<not> rq_schema T" and "rq_odd T = []" and "\<not> indexed_exists T"
    and pending: "\<forall>raw \<in> set (rq_legacy_pending T). good_payload t (legacy_task raw) raw"
    and processing: "\<forall>raw \<in> set (rq_legacy_processing T). good_payload t (legacy_task raw) raw"
    and dead: "\<forall>raw \<in> set (rq_legacy_dead T). good_legacy_dead t raw"
    and once: "distinct (map legacy_task (rq_legacy_pending T @ rq_legacy_processing T))"
      "distinct (map legacy_task (rq_legacy_dead T))"
    and leases: "\<forall>k. lease_get c T k \<noteq> None \<longrightarrow> k \<in> legacy_task ` set (rq_legacy_processing T)"
  shows "\<exists>T'. migrate_script H t T = ((1, ''migrated''), T') \<and> wf_tenant t c T' \<and>
    map snd (rq_pending_order T') = map legacy_task (rq_legacy_pending T) \<and>
    dom (map_of (rq_processing T')) = legacy_task ` set (rq_legacy_processing T) \<and>
    migrate_script H t T' = ((1, ''ready''), T')"
proof -
  let ?row = "\<lambda>raw. (legacy_task raw, raw)"
  have idx: "rq_pending_order T = []" "rq_pending T = []" "rq_processing T = []" "rq_dead_order T = []" "rq_dead T = []"
    using assms(3) by (simp_all add: indexed_exists_def)
  have wf0: "wf_indexed t T" by (simp add: wf_indexed_def zset_ok_def idx)
  define T1 where "T1 = fold (\<lambda>(k, raw). put_pending k raw) (map ?row (rq_legacy_pending T)) T"
  define T2 where "T2 = fold (\<lambda>(k, raw) T. T\<lparr>rq_processing := AList.update k raw (rq_processing T)\<rparr>)
      (map ?row (rq_legacy_processing T)) T1"
  define T3 where "T3 = fold (\<lambda>(k, raw). put_dead k raw) (map ?row (rq_legacy_dead T)) T2"
  define T' where "T' = T3\<lparr>rq_legacy_pending := [], rq_legacy_processing := [], rq_legacy_dead := [], rq_schema := True\<rparr>"
  have 1: "wf_indexed t T1 \<and> rq_processing T1 = [] \<and> rq_leases T1 = rq_leases T \<and> rq_odd T1 = [] \<and>
      dom (map_of (rq_pending T1)) = legacy_task ` set (rq_legacy_pending T) \<and>
      map snd (rq_pending_order T1) = map legacy_task (rq_legacy_pending T)"
    using load_pending [OF wf0 idx(3) pending] once(1) idx assms(2) unfolding T1_def by (simp add: Let_def)
  have "\<forall>raw \<in> set (rq_legacy_processing T). legacy_task raw \<notin> dom (map_of (rq_pending T1))"
    using 1 once(1) by auto
  then have "\<forall>raw \<in> set (rq_legacy_processing T). map_of (rq_pending T1) (legacy_task raw) = None"
    by (simp add: domIff)
  then have 2: "wf_indexed t T2 \<and> rq_leases T2 = rq_leases T \<and> rq_odd T2 = [] \<and> rq_pending_order T2 = rq_pending_order T1 \<and>
      dom (map_of (rq_processing T2)) = legacy_task ` set (rq_legacy_processing T)"
    using load_processing [of t T1 "rq_legacy_processing T"] processing 1 unfolding T2_def by (simp add: Let_def)
  have "\<forall>raw \<in> set (rq_legacy_dead T). good_dead t raw" using dead by (simp add: good_legacy_dead_def)
  then have 3: "wf_indexed t T3 \<and> rq_leases T3 = rq_leases T \<and> rq_odd T3 = [] \<and> rq_pending_order T3 = rq_pending_order T1 \<and>
      dom (map_of (rq_processing T3)) = legacy_task ` set (rq_legacy_processing T)"
    using load_dead [of t T2 "rq_legacy_dead T"] 2 unfolding T3_def by (simp add: Let_def)
  have run: "migrate_script H t T = ((1, ''migrated''), T')"
  proof -
    have "legacy_live_rows H t ''pending'' [] (rq_legacy_pending T) = Inr (map ?row (rq_legacy_pending T))"
      using legacy_live_rows_good [OF pending, of "[]"] once(1) by simp
    moreover have "legacy_live_rows H t ''processing'' (map fst (map ?row (rq_legacy_pending T)))
        (rq_legacy_processing T) = Inr (map ?row (rq_legacy_processing T))"
      using legacy_live_rows_good [OF processing] once(1) by (simp add: comp_def Int_commute)
    moreover have "legacy_dead_rows H t [] (rq_legacy_dead T) = Inr (map ?row (rq_legacy_dead T))"
      using legacy_dead_rows_good [OF dead, of "[]"] once(2) by simp
    ultimately show ?thesis
      using assms(1-3) unfolding migrate_script_def Let_def T'_def T3_def T2_def T1_def
      by (simp add: odd_among_def)
  qed
  have "leases_processing c T'"
  proof -
    have "lease_get c T' k = lease_get c T k" for k using 3 by (simp add: lease_get_def T'_def)
    moreover have "map_of (rq_processing T') k \<noteq> None \<longleftrightarrow> k \<in> legacy_task ` set (rq_legacy_processing T)" for k
      using 3 by (auto simp: T'_def)
    ultimately show ?thesis using leases unfolding leases_processing_def by metis
  qed
  then have wf: "wf_tenant t c T'"
  proof -
    have "wf_indexed t T'" using conjunct1 [OF 3] unfolding wf_indexed_def T'_def by simp
    moreover have "rq_schema T' \<and> legacy_is_empty T'" using 3 by (simp add: T'_def legacy_is_empty_def)
    ultimately show ?thesis using \<open>leases_processing c T'\<close> unfolding wf_tenant_def wf_indexed_def by blast
  qed
  have "map snd (rq_pending_order T') = map legacy_task (rq_legacy_pending T)"
    "dom (map_of (rq_processing T')) = legacy_task ` set (rq_legacy_processing T)"
    using 1 3 by (simp_all add: T'_def)
  with run wf migrate_ready [OF wf] show ?thesis by blast
qed

definition legacy_tenant :: tenant_queue where
  "legacy_tenant = empty_tenant\<lparr>rq_legacy_pending := [redis_encode_message (example_message ''acme'' uuid_b)],
     rq_legacy_processing := [redis_encode_message (example_message ''acme'' uuid_a)]\<rparr>"

lemma migration_establishes_invariant_witness:
  "\<exists>T'. migrate_script plain_host ''acme'' legacy_tenant = ((1, ''migrated''), T') \<and> wf_tenant ''acme'' 0 T' \<and>
     map snd (rq_pending_order T') = [uuid_b]"
proof -
  have task: "legacy_task (redis_encode_message (example_message ''acme'' k)) = k" for k
    by (simp add: legacy_task_def redis_encode_message_def message_object_def example_message_def opt_str_def)
  have good: "good_payload ''acme'' uuid_a (redis_encode_message (example_message ''acme'' uuid_a))"
    "good_payload ''acme'' uuid_b (redis_encode_message (example_message ''acme'' uuid_b))"
    using encode_good [of "example_message ''acme'' uuid_a"] encode_good [of "example_message ''acme'' uuid_b"]
    by simp_all
  have "uuid_a \<noteq> uuid_b" by (simp add: uuid_a_def uuid_b_def)
  then have "\<exists>T'. migrate_script plain_host ''acme'' legacy_tenant = ((1, ''migrated''), T') \<and> wf_tenant ''acme'' 0 T' \<and>
    map snd (rq_pending_order T') = map legacy_task (rq_legacy_pending legacy_tenant) \<and>
    dom (map_of (rq_processing T')) = legacy_task ` set (rq_legacy_processing legacy_tenant) \<and>
    migrate_script plain_host ''acme'' T' = ((1, ''ready''), T')"
    using task good
    by (intro migration_establishes_invariant)
      (auto simp: legacy_tenant_def empty_tenant_def indexed_exists_def lease_get_def)
  then show ?thesis by (auto simp: legacy_tenant_def task)
qed

end
