(* ===== verification/RedisWire.thy ===== *)
theory RedisWire
  imports Prelude
begin

section \<open>The Redis wire protocol\<close>

text \<open>
  \<open>_write_command\<close>, \<open>_read_response\<close> and \<open>_read_line\<close> of \<open>redis_adapter.py\<close>, over the bytes
  of the connection: a text is its UTF-8 bytes, so \<open>encode\<close> and \<open>decode\<close> are the identity
  here. A read returns what it consumed and the bytes left.

  The reader of nested arrays carries fuel. Every response consumes at least its prefix,
  so more fuel than bytes is enough (\<open>read_response_enough\<close>); running out is \<open>None\<close>.
\<close>

definition CR :: char where "CR = CHR 0x0D"
definition LF :: char where "LF = CHR 0x0A"

datatype resp = RNil | RText string | RInt int | RList "resp list"

fun write_parts :: "string list \<Rightarrow> string" where
  "write_parts [] = []"
| "write_parts (p # ps) = CHR ''$'' # nat_digits (length p) @ [CR, LF] @ p @ [CR, LF] @ write_parts ps"

definition write_command :: "string list \<Rightarrow> string" where
  "write_command command = CHR ''*'' # nat_digits (length command) @ [CR, LF] @ write_parts command"

text \<open>\<open>readline\<close> returns the bytes up to and with the next line feed, or all that are left.\<close>

definition read_line :: "string \<Rightarrow> (string \<times> string) result" where
  "read_line bs =
     (let body = takeWhile (\<lambda>c. c \<noteq> LF) bs
      in case dropWhile (\<lambda>c. c \<noteq> LF) bs of
           [] \<Rightarrow> Inl (RedisProtocolError ''malformed Redis line response'')
         | _ # rest \<Rightarrow>
             if body \<noteq> [] \<and> last body = CR then Inr (butlast body, rest)
             else Inl (RedisProtocolError ''malformed Redis line response''))"

text \<open>\<open>int(text)\<close>: surrounding blanks, a sign, digits (single underscores between digits,
  which Python also takes, are refused).\<close>

definition is_digit :: "char \<Rightarrow> bool" where
  "is_digit c \<longleftrightarrow> 48 \<le> (of_char c :: nat) \<and> (of_char c :: nat) \<le> 57"

definition digits_value :: "string \<Rightarrow> nat" where
  "digits_value ds = foldl (\<lambda>n c. 10 * n + (of_char c - 48)) 0 ds"

definition int_parse :: "string \<Rightarrow> int result" where
  "int_parse s =
     (case strip s of
        [] \<Rightarrow> Inl (ValueError ''invalid literal for int() with base 10'')
      | c # cs \<Rightarrow>
          let ds = (if c = CHR ''-'' \<or> c = CHR ''+'' then cs else c # cs)
          in if ds = [] \<or> \<not> list_all is_digit ds
             then Inl (ValueError ''invalid literal for int() with base 10'')
             else Inr (if c = CHR ''-'' then - int (digits_value ds) else int (digits_value ds)))"

fun read_response :: "nat \<Rightarrow> string \<Rightarrow> (resp \<times> string) result option"
and read_responses :: "nat \<Rightarrow> nat \<Rightarrow> string \<Rightarrow> (resp list \<times> string) result option" where
  "read_response 0 bs = None"
| "read_response (Suc n) [] = Some (Inl (RedisProtocolError ''empty response from Redis''))"
| "read_response (Suc n) (p # bs) =
     (if p = CHR ''+'' then
        Some (case read_line bs of Inl e \<Rightarrow> Inl e | Inr (l, rest) \<Rightarrow> Inr (RText l, rest))
      else if p = CHR ''-'' then
        Some (case read_line bs of Inl e \<Rightarrow> Inl e | Inr (l, rest) \<Rightarrow> Inl (RedisProtocolError l))
      else if p = CHR '':'' then
        Some (case read_line bs of Inl e \<Rightarrow> Inl e
          | Inr (l, rest) \<Rightarrow> (case int_parse l of Inl e \<Rightarrow> Inl e | Inr i \<Rightarrow> Inr (RInt i, rest)))
      else if p = CHR ''$'' then
        Some (case read_line bs of Inl e \<Rightarrow> Inl e
          | Inr (l, rest) \<Rightarrow> (case int_parse l of Inl e \<Rightarrow> Inl e
              | Inr i \<Rightarrow> if i = -1 then Inr (RNil, rest)
                         else if i < 0 then Inr (RText rest, [])
                         else Inr (RText (take (nat i) rest), drop (nat i + 2) rest)))
      else if p = CHR ''*'' then
        (case read_line bs of Inl e \<Rightarrow> Some (Inl e)
           | Inr (l, rest) \<Rightarrow> (case int_parse l of Inl e \<Rightarrow> Some (Inl e)
              | Inr i \<Rightarrow> if i = -1 then Some (Inr (RNil, rest))
                         else (case read_responses n (nat i) rest of
                                 None \<Rightarrow> None
                               | Some (Inl e) \<Rightarrow> Some (Inl e)
                               | Some (Inr (rs, rest')) \<Rightarrow> Some (Inr (RList rs, rest')))))
      else Some (Inl (RedisProtocolError ''unsupported Redis response prefix'')))"
| "read_responses n 0 bs = Some (Inr ([], bs))"
| "read_responses n (Suc c) bs =
     (case read_response n bs of
        None \<Rightarrow> None
      | Some (Inl e) \<Rightarrow> Some (Inl e)
      | Some (Inr (r, rest)) \<Rightarrow>
          (case read_responses n c rest of
             None \<Rightarrow> None
           | Some (Inl e) \<Rightarrow> Some (Inl e)
           | Some (Inr (rs, rest')) \<Rightarrow> Some (Inr (r # rs, rest'))))"

text \<open>The reply to a command over a connection that has delivered the bytes \<open>bs\<close>.\<close>

definition read_reply :: "string \<Rightarrow> resp result" where
  "read_reply bs =
     (case read_response (Suc (length bs)) bs of
        None \<Rightarrow> Inl (RuntimeError ''out of fuel'')
      | Some (Inl e) \<Rightarrow> Inl e
      | Some (Inr (r, _)) \<Rightarrow> Inr r)"

subsection \<open>Fuel\<close>

lemma read_line_shorter: "read_line bs = Inr (l, rest) \<Longrightarrow> length rest < length bs"
proof -
  assume "read_line bs = Inr (l, rest)"
  then obtain c where "dropWhile (\<lambda>c. c \<noteq> LF) bs = c # rest"
    by (auto simp: read_line_def Let_def split: list.splits if_splits)
  then have "length (c # rest) \<le> length bs" by (metis length_dropWhile_le)
  then show ?thesis by simp
qed

lemma read_response_shorter:
  "(read_response n bs = Some (Inr (r, rest)) \<longrightarrow> length rest < length bs)"
  "(read_responses n c bs = Some (Inr (rs, rest)) \<longrightarrow> length rest \<le> length bs)"
proof (induction n bs and n c bs arbitrary: r rest and rs rest rule: read_response_read_responses.induct)
  case (3 n p bs)
  show ?case
    using "3.IH" read_line_shorter [of bs]
    by (auto split: sum.splits option.splits if_splits prod.splits) (fastforce)+
next
  case (5 n c bs)
  then show ?case by (fastforce split: option.splits sum.splits prod.splits)
qed simp_all

lemma read_enough:
  "length bs < n \<Longrightarrow> read_response n bs \<noteq> None"
  "length bs < n \<Longrightarrow> read_responses n c bs \<noteq> None"
proof (induction n bs and n c bs rule: read_response_read_responses.induct)
  case (3 n p bs)
  show ?case
    using "3.IH" "3.prems" read_line_shorter [of bs]
    by (simp split: sum.split option.splits prod.split) fastforce
next
  case (5 n c bs)
  then show ?case
    by (fastforce split: option.splits sum.splits prod.splits dest: read_response_shorter(1) [rule_format])
qed simp_all

lemma read_reply_fuel: "Suc (length bs) \<le> n \<Longrightarrow> read_response n bs \<noteq> None"
  by (rule read_enough) simp

subsection \<open>Reading back what was written\<close>

lemma nat_digits_digits: "\<forall>c \<in> set (nat_digits n). is_digit c"
proof (induction n rule: nat_digits.induct)
  case (1 n)
  then show ?case by (subst nat_digits.simps) (auto simp: is_digit_def)
qed

lemma nat_digits_not_empty [simp]: "nat_digits n \<noteq> []"
  by (subst nat_digits.simps) simp

lemma digits_value_snoc: "digits_value (ds @ [c]) = 10 * digits_value ds + (of_char c - 48)"
  by (simp add: digits_value_def)

lemma digits_value_digits [simp]: "digits_value (nat_digits n) = n"
proof (induction n rule: nat_digits.induct)
  case (1 n)
  show ?case
  proof (cases "n < 10")
    case True
    then show ?thesis by (subst nat_digits.simps) (simp add: digits_value_def)
  next
    case False
    then have "nat_digits n = nat_digits (n div 10) @ [char_of (48 + n mod 10)]"
      by (subst nat_digits.simps) simp
    moreover have "48 + n mod 10 < 256" by presburger
    ultimately show ?thesis using 1 False by (simp add: digits_value_snoc)
  qed
qed

lemma digit_plain: "is_digit c \<Longrightarrow> \<not> is_space c \<and> c \<noteq> CHR ''-'' \<and> c \<noteq> CHR ''+'' \<and> c \<noteq> LF"
  by (auto simp: is_digit_def is_space_def LF_def)

lemma strip_plain: "\<forall>c \<in> set s. \<not> is_space c \<Longrightarrow> strip s = s"
proof -
  have drop: "dropWhile is_space xs = xs" if "\<forall>c \<in> set xs. \<not> is_space c" for xs
    using that by (cases xs) auto
  assume "\<forall>c \<in> set s. \<not> is_space c"
  then show ?thesis by (simp add: strip_def drop)
qed

lemma int_parse_digits [simp]: "int_parse (nat_digits n) = Inr (int n)"
proof -
  have ds: "\<forall>c \<in> set (nat_digits n). is_digit c" by (rule nat_digits_digits)
  then have "strip (nat_digits n) = nat_digits n" using digit_plain by (intro strip_plain) blast
  moreover obtain c cs where c: "nat_digits n = c # cs" by (cases "nat_digits n") auto
  moreover have "is_digit c" "list_all is_digit (c # cs)" using ds c by (simp_all add: list_all_iff)
  moreover have "digits_value (c # cs) = n" using digits_value_digits [of n] c by simp
  ultimately show ?thesis using digit_plain [of c] by (simp add: int_parse_def Let_def)
qed

lemma read_line_back: "LF \<notin> set l \<Longrightarrow> read_line (l @ CR # LF # rest) = Inr (l, rest)"
proof -
  assume l: "LF \<notin> set l"
  have "takeWhile (\<lambda>c. c \<noteq> LF) (l @ CR # LF # rest) = l @ [CR]"
    "dropWhile (\<lambda>c. c \<noteq> LF) (l @ CR # LF # rest) = LF # rest"
    using l by (auto simp: takeWhile_append dropWhile_append CR_def LF_def takeWhile_eq_all_conv dropWhile_eq_Nil_conv)
  then show ?thesis by (simp add: read_line_def Let_def)
qed

lemma read_digits_line [simp]: "read_line (nat_digits n @ CR # LF # rest) = Inr (nat_digits n, rest)"
  using nat_digits_digits [of n] digit_plain by (intro read_line_back) blast

lemma read_parts_back:
  "read_responses (Suc n) (length ps) (write_parts ps @ rest) = Some (Inr (map RText ps, rest))"
  by (induction ps) simp_all

text \<open>
  What the server reads is what the adapter sent. Parsing the bytes of a command with the
  protocol gives back exactly its parts, one bulk string each, whatever bytes they hold
  (line ends, dollar signs or stars in a payload, a key or a reason cannot add or split an
  argument), and leaves the bytes behind the command for the next one.
\<close>

theorem write_command_read_back:
  "read_response (Suc (length (write_command command @ rest))) (write_command command @ rest) =
     Some (Inr (RList (map RText command), rest))"
proof -
  have "\<exists>n. length (write_command command @ rest) = Suc n" by (simp add: write_command_def)
  then obtain n where n: "length (write_command command @ rest) = Suc n" by blast
  show ?thesis unfolding n by (simp add: write_command_def read_parts_back)
qed

end
