(* ===== verification/Store.thy ===== *)
theory Store
  imports QueueBase
begin

section \<open>The database session and the runtime's world\<close>

text \<open>
  The services of \<open>backend/services\<close> work on a SQLAlchemy session and a queue. A table is the
  list of its rows in insertion order; an ORM object that a service changes is written back
  with \<open>put_row\<close>. \<open>commit\<close> makes the session's rows durable, \<open>rollback\<close> restores the last
  durable ones. The after-commit publication of dispatches is in \<open>Dispatch\<close>.

  \<open>w_clock\<close> is the wall clock; it stands still within one operation. \<open>w_ids\<close> supplies the
  identifiers \<open>uuid.uuid4\<close> draws.
\<close>

datatype dispatch_status = DHeldReview | DPending | DPublished | DCancelled

text \<open>\<open>RuntimeQueueDispatch\<close> of \<open>domain/runtime_queue_dispatch.py\<close>.\<close>

record runtime_dispatch =
  rd_id :: uuid
  rd_tenant_id :: string
  rd_task_id :: uuid
  rd_mission_id :: uuid
  rd_fleet_id :: "uuid option"
  rd_branch_id :: "uuid option"
  rd_payload :: dict
  rd_status :: dispatch_status
  rd_attempt_count :: int
  rd_next_attempt_at :: time
  rd_last_error :: "string option"
  rd_published_at :: "time option"
  rd_cancelled_at :: "time option"
  rd_created_at :: time
  rd_updated_at :: time

text \<open>
  A row of \<open>evidence_records\<close>, \<open>lineage_records\<close> or \<open>outcome_reviews\<close>: its key, its tenant and the
  other columns by name.
\<close>

record data_row =
  dr_id :: uuid
  dr_tenant_id :: string
  dr_columns :: dict

record db =
  db_tasks :: "execution_task list"
  db_missions :: "mission list"
  db_leases :: "worker_lease list"
  db_agents :: "workforce_agent list"
  db_dispatches :: "runtime_dispatch list"
  db_audit :: "audit_event list"
  db_governance :: "governance_event list"
  db_evidence :: "data_row list"
  db_lineage :: "data_row list"
  db_reviews :: "data_row list"

definition empty_db :: db where
  "empty_db = \<lparr>db_tasks = [], db_missions = [], db_leases = [], db_agents = [], db_dispatches = [],
     db_audit = [], db_governance = [], db_evidence = [], db_lineage = [], db_reviews = []\<rparr>"

record dispatch_intent =
  di_dispatch_id :: uuid
  di_tenant_id :: string

record 'q world =
  w_db :: db
  w_durable :: db
  w_queue :: 'q
  w_clock :: time
  w_intents :: "dispatch_intent list"
  w_ids :: "nat \<Rightarrow> uuid"
  w_next_id :: nat

definition put_row :: "('r \<Rightarrow> uuid) \<Rightarrow> 'r \<Rightarrow> 'r list \<Rightarrow> 'r list" where
  "put_row key r rows = map (\<lambda>x. if key x = key r then r else x) rows"

definition find_row :: "('r \<Rightarrow> uuid) \<Rightarrow> uuid \<Rightarrow> 'r list \<Rightarrow> 'r option" where
  "find_row key i rows = find (\<lambda>x. key x = i) rows"

definition map_db :: "(db \<Rightarrow> db) \<Rightarrow> 'q world \<Rightarrow> 'q world" where
  "map_db f w = w\<lparr>w_db := f (w_db w)\<rparr>"

definition save_task :: "execution_task \<Rightarrow> db \<Rightarrow> db" where
  "save_task t d = d\<lparr>db_tasks := put_row t_id t (db_tasks d)\<rparr>"

definition save_lease :: "worker_lease \<Rightarrow> db \<Rightarrow> db" where
  "save_lease l d = d\<lparr>db_leases := put_row l_id l (db_leases d)\<rparr>"

definition save_mission :: "mission \<Rightarrow> db \<Rightarrow> db" where
  "save_mission m d = d\<lparr>db_missions := put_row m_id m (db_missions d)\<rparr>"

definition save_dispatch :: "runtime_dispatch \<Rightarrow> db \<Rightarrow> db" where
  "save_dispatch r d = d\<lparr>db_dispatches := put_row rd_id r (db_dispatches d)\<rparr>"

definition add_audit :: "audit_event \<Rightarrow> db \<Rightarrow> db" where
  "add_audit e d = d\<lparr>db_audit := db_audit d @ [e]\<rparr>"

definition find_task :: "uuid \<Rightarrow> db \<Rightarrow> execution_task option" where
  "find_task k d = find_row t_id k (db_tasks d)"

definition find_lease :: "uuid \<Rightarrow> db \<Rightarrow> worker_lease option" where
  "find_lease k d = find_row l_id k (db_leases d)"

definition find_dispatch :: "uuid \<Rightarrow> db \<Rightarrow> runtime_dispatch option" where
  "find_dispatch k d = find_row rd_id k (db_dispatches d)"

definition rollback :: "'q world \<Rightarrow> 'q world" where
  "rollback w = w\<lparr>w_db := w_durable w, w_intents := []\<rparr>"

lemma put_row_keys [simp]: "map key (put_row key r rows) = map key rows"
  by (induction rows) (auto simp: put_row_def)

lemma find_row_put [simp]:
  "find_row key i (put_row key r rows) =
     (if i = key r then (if find_row key i rows = None then None else Some r) else find_row key i rows)"
  by (induction rows) (auto simp: put_row_def find_row_def)

lemma find_row_key: "find_row key i rows = Some r \<Longrightarrow> key r = i \<and> r \<in> set rows"
  by (auto simp: find_row_def find_Some_iff)

lemma find_row_append [simp]:
  "find_row key i (rows @ [r]) = (case find_row key i rows of Some x \<Rightarrow> Some x
     | None \<Rightarrow> if key r = i then Some r else None)"
  by (induction rows) (auto simp: find_row_def)

lemma find_saved [simp]:
  "find_task k (save_lease l d) = find_task k d" "find_task k (save_mission m d) = find_task k d"
  "find_task k (save_dispatch r d) = find_task k d" "find_task k (add_audit e d) = find_task k d"
  "find_lease k (save_task t d) = find_lease k d" "find_lease k (save_mission m d) = find_lease k d"
  "find_lease k (save_dispatch r d) = find_lease k d" "find_lease k (add_audit e d) = find_lease k d"
  "find_dispatch k (save_task t d) = find_dispatch k d" "find_dispatch k (save_lease l d) = find_dispatch k d"
  "find_dispatch k (save_mission m d) = find_dispatch k d" "find_dispatch k (add_audit e d) = find_dispatch k d"
  "find_task k (save_task t d) = (if k = t_id t then (if find_task k d = None then None else Some t) else find_task k d)"
  "find_lease k (save_lease l d) = (if k = l_id l then (if find_lease k d = None then None else Some l) else find_lease k d)"
  "find_dispatch k (save_dispatch r d) =
     (if k = rd_id r then (if find_dispatch k d = None then None else Some r) else find_dispatch k d)"
  by (simp_all add: find_task_def find_lease_def find_dispatch_def save_task_def save_lease_def save_mission_def
      save_dispatch_def add_audit_def)

end
