(* ===== verification/Dispatch.thy ===== *)
theory Dispatch
  imports Store LocalQueue RedisReach
begin

section \<open>Durable queue dispatches\<close>

text \<open>
  \<open>backend/services/runtime_queue_dispatcher.py\<close> with its repository: a task is admitted to the
  queue by a row of \<open>runtime_queue_dispatches\<close> in the transaction that queues it; the message
  is published after that transaction is durable, immediately and, when that fails, by
  \<open>publish_due\<close> with a growing delay.

  The session's intents carry the dispatch id and its tenant; the code also stores the
  message, which the publication rebuilds from the committed row and never reads. The task of a
  dispatch has a mission (\<open>mission_id\<close> is not null in the table), so admitting a task
  without one is the database's error.
\<close>

definition retry_key :: string where "retry_key = ''_runtime_queue_retry_generation''"

subsection \<open>The repository\<close>

definition dispatch_for_task :: "string \<Rightarrow> uuid \<Rightarrow> db \<Rightarrow> runtime_dispatch option" where
  "dispatch_for_task t k d = find (\<lambda>r. rd_tenant_id r = t \<and> rd_task_id r = k) (db_dispatches d)"

definition due_pending :: "time \<Rightarrow> nat \<Rightarrow> db \<Rightarrow> runtime_dispatch list" where
  "due_pending now limit d =
     take limit (sort_key (\<lambda>r. (rd_next_attempt_at r, rd_created_at r))
       (filter (\<lambda>r. rd_status r = DPending \<and> rd_next_attempt_at r \<le> now) (db_dispatches d)))"

definition cancelled_for_cleanup :: "time \<Rightarrow> nat \<Rightarrow> db \<Rightarrow> runtime_dispatch list" where
  "cancelled_for_cleanup now limit d =
     take limit (sort_key rd_updated_at
       (filter (\<lambda>r. rd_status r = DCancelled \<and> rd_published_at r \<noteq> None \<and> rd_cancelled_at r = None \<and>
          rd_next_attempt_at r \<le> now) (db_dispatches d)))"

subsection \<open>Publication\<close>

definition retry_generation :: "runtime_dispatch \<Rightarrow> int result" where
  "retry_generation r =
     (case map_of (rd_payload r) retry_key of
        None \<Rightarrow> Inr 0
      | Some (JInt n) \<Rightarrow>
          if n < 0 then Inl (ValueError ''runtime queue dispatch has an invalid retry generation'') else Inr n
      | Some _ \<Rightarrow> Inl (ValueError ''runtime queue dispatch has an invalid retry generation''))"

definition idempotency_key :: "runtime_dispatch \<Rightarrow> string result" where
  "idempotency_key r =
     bind_result (retry_generation r) (\<lambda>g.
       Inr (if g = 0 then rd_id r else rd_id r @ '':retry:'' @ int_text g))"

definition backoff :: "int \<Rightarrow> time" where
  "backoff attempt_count = seconds (min 300 (2 ^ nat (min (max attempt_count 1) 8)))"

definition dispatch_message :: "runtime_dispatch \<Rightarrow> queue_message" where
  "dispatch_message r =
     \<lparr>q_tenant_id = rd_tenant_id r, q_task_id = rd_task_id r, q_mission_id = rd_mission_id r,
      q_fleet_id = rd_fleet_id r, q_branch_id = rd_branch_id r, q_payload = rd_payload r,
      q_enqueued_at = rd_created_at r\<rparr>"

definition publish :: "'q queue_adapter \<Rightarrow> 'q \<Rightarrow> runtime_dispatch \<Rightarrow> op_result result \<times> 'q" where
  "publish Q q r =
     (case retry_generation r of
        Inl e \<Rightarrow> (Inl e, q)
      | Inr g \<Rightarrow>
          (let enqueue = (\<lambda>q. case idempotency_key r of
                Inl e \<Rightarrow> (Inl e, q)
              | Inr key \<Rightarrow> (case enqueue_task_idempotent Q q (dispatch_message r) key of
                    (res, q') \<Rightarrow> (Inr res, q')))
           in if g \<noteq> 0 then
                (case retry_dead_letter Q q (rd_tenant_id r) (rd_task_id r) of
                   (recovered, q1) \<Rightarrow>
                     if r_ok recovered \<or> r_reason recovered = Some ''task already pending'' \<or>
                        r_reason recovered = Some ''task already processing''
                     then (Inr op_ok, q1)
                     else if r_reason recovered \<noteq> Some ''dead-letter entry not found''
                     then (Inr recovered, q1)
                     else enqueue q1)
              else enqueue q))"

text \<open>\<open>result.reason or text\<close>.\<close>

definition reason_or :: "op_result \<Rightarrow> string \<Rightarrow> string" where
  "reason_or res text = (case r_reason res of None \<Rightarrow> text | Some [] \<Rightarrow> text | Some why \<Rightarrow> why)"

text \<open>What both publishers record on the row (\<open>now\<close> is each one's clock).\<close>

definition mark_result :: "time \<Rightarrow> op_result \<Rightarrow> runtime_dispatch \<Rightarrow> runtime_dispatch" where
  "mark_result now res r =
     (let r1 = r\<lparr>rd_attempt_count := rd_attempt_count r + 1, rd_updated_at := now\<rparr>
      in if r_ok res
         then r1\<lparr>rd_status := DPublished, rd_published_at := Some now, rd_last_error := None\<rparr>
         else r1\<lparr>rd_last_error := Some (reason_or res ''queue publication failed''),
                 rd_next_attempt_at := now + backoff (rd_attempt_count r1)\<rparr>)"

subsection \<open>After the commit\<close>

definition queue_dispatch_after_commit :: "dispatch_intent \<Rightarrow> 'q world \<Rightarrow> 'q world" where
  "queue_dispatch_after_commit i w =
     (if \<exists>x \<in> set (w_intents w). di_dispatch_id x = di_dispatch_id i then w
      else w\<lparr>w_intents := w_intents w @ [i]\<rparr>)"

text \<open>
  One intent in its own session, on the durable rows; an exception rolls that session back. The
  service's session reads the rows again after its commit.
\<close>

definition publish_intent :: "'q queue_adapter \<Rightarrow> dispatch_intent \<Rightarrow> 'q world \<Rightarrow> 'q world" where
  "publish_intent Q i w =
     (case find_dispatch (di_dispatch_id i) (w_durable w) of
        None \<Rightarrow> w
      | Some r \<Rightarrow>
          if rd_tenant_id r \<noteq> di_tenant_id i \<or> rd_status r \<noteq> DPending then w
          else (case publish Q (w_queue w) r of
                  (Inl e, q) \<Rightarrow> w\<lparr>w_queue := q\<rparr>
                | (Inr res, q) \<Rightarrow>
                    let d = save_dispatch (mark_result (w_clock w) res r) (w_durable w)
                    in w\<lparr>w_queue := q, w_durable := d, w_db := d\<rparr>))"

definition commit :: "'q queue_adapter \<Rightarrow> 'q world \<Rightarrow> 'q world" where
  "commit Q w =
     fold (publish_intent Q) (w_intents w) (w\<lparr>w_durable := w_db w, w_intents := []\<rparr>)"

definition schedule_after_commit :: "runtime_dispatch \<Rightarrow> 'q world \<Rightarrow> 'q world" where
  "schedule_after_commit r w =
     queue_dispatch_after_commit \<lparr>di_dispatch_id = rd_id r, di_tenant_id = rd_tenant_id r\<rparr> w"

subsection \<open>The service\<close>

definition release_review_hold :: "execution_task \<Rightarrow> 'q world \<Rightarrow> runtime_dispatch result \<times> 'q world" where
  "release_review_hold task w =
     (case dispatch_for_task (t_tenant_id task) (t_id task) (w_db w) of
        None \<Rightarrow> (Inl (ValueError ''reviewed task has no held runtime queue admission''), w)
      | Some r \<Rightarrow>
          if rd_status r \<noteq> DHeldReview
          then (Inl (ValueError ''reviewed task has no held runtime queue admission''), w)
          else let r1 = r\<lparr>rd_status := DPending, rd_payload := t_metadata task,
                          rd_next_attempt_at := w_clock w, rd_last_error := None, rd_updated_at := w_clock w\<rparr>
               in (Inr r1, schedule_after_commit r1 (map_db (save_dispatch r1) w)))"

definition admit :: "execution_task \<Rightarrow> bool \<Rightarrow> 'q world \<Rightarrow> (runtime_dispatch \<times> bool) result \<times> 'q world" where
  "admit task held w =
     (case dispatch_for_task (t_tenant_id task) (t_id task) (w_db w) of
        Some r \<Rightarrow>
          if \<not> held \<and> rd_status r = DHeldReview
          then (case release_review_hold task w of
                  (Inl e, w') \<Rightarrow> (Inl e, w')
                | (Inr r1, w') \<Rightarrow> (Inr (r1, False), w'))
          else (Inr (r, False), w)
      | None \<Rightarrow>
          (case t_mission_id task of
             None \<Rightarrow> (Inl (RuntimeError ''null value in column mission_id''), w)
           | Some mid \<Rightarrow>
               let r = \<lparr>rd_id = w_ids w (w_next_id w), rd_tenant_id = t_tenant_id task, rd_task_id = t_id task,
                        rd_mission_id = mid, rd_fleet_id = t_fleet_id task, rd_branch_id = t_branch_id task,
                        rd_payload = t_metadata task,
                        rd_status = (if held then DHeldReview else DPending), rd_attempt_count = 0,
                        rd_next_attempt_at = w_clock w, rd_last_error = None, rd_published_at = None,
                        rd_cancelled_at = None, rd_created_at = w_clock w, rd_updated_at = w_clock w\<rparr>;
                   w1 = map_db (\<lambda>d. d\<lparr>db_dispatches := db_dispatches d @ [r]\<rparr>) (w\<lparr>w_next_id := w_next_id w + 1\<rparr>)
               in (Inr (r, True), if held then w1 else schedule_after_commit r w1)))"

definition retry_dispatch :: "execution_task \<Rightarrow> 'q world \<Rightarrow> runtime_dispatch result \<times> 'q world" where
  "retry_dispatch task w =
     (case dispatch_for_task (t_tenant_id task) (t_id task) (w_db w) of
        None \<Rightarrow> (case admit task False w of (Inl e, w') \<Rightarrow> (Inl e, w') | (Inr (r, _), w') \<Rightarrow> (Inr r, w'))
      | Some r \<Rightarrow>
          (case retry_generation r of
             Inl e \<Rightarrow> (Inl e, w)
           | Inr g \<Rightarrow>
               let r1 = r\<lparr>rd_payload := AList.update retry_key (JInt (g + 1)) (t_metadata task),
                          rd_status := DPending, rd_next_attempt_at := w_clock w, rd_last_error := None,
                          rd_published_at := None, rd_cancelled_at := None, rd_updated_at := w_clock w\<rparr>
               in (Inr r1, schedule_after_commit r1 (map_db (save_dispatch r1) w))))"

definition cancel_dispatch :: "execution_task \<Rightarrow> 'q world \<Rightarrow> 'q world" where
  "cancel_dispatch task w =
     (case dispatch_for_task (t_tenant_id task) (t_id task) (w_db w) of
        None \<Rightarrow> w
      | Some r \<Rightarrow>
          if rd_status r = DCancelled then w
          else map_db (save_dispatch (r\<lparr>rd_status := DCancelled, rd_last_error := None,
                 rd_next_attempt_at := w_clock w,
                 rd_cancelled_at := (if rd_published_at r = None then Some (w_clock w) else rd_cancelled_at r),
                 rd_updated_at := w_clock w\<rparr>)) w)"

fun reconcile_rows ::
  "'q queue_adapter \<Rightarrow> runtime_dispatch list \<Rightarrow> nat \<times> nat \<Rightarrow> 'q world \<Rightarrow> (nat \<times> nat) \<times> 'q world" where
  "reconcile_rows Q [] (cleaned, failed) w = ((cleaned, failed), w)"
| "reconcile_rows Q (r # rs) (cleaned, failed) w =
     (case cancel_task Q (w_queue w) (rd_tenant_id r) (rd_task_id r) of
        (res, q) \<Rightarrow>
          if r_ok res
          then reconcile_rows Q rs (cleaned + 1, failed)
                 (commit Q (map_db (save_dispatch (r\<lparr>rd_cancelled_at := Some (w_clock w), rd_last_error := None,
                    rd_updated_at := w_clock w\<rparr>)) (w\<lparr>w_queue := q\<rparr>)))
          else reconcile_rows Q rs (cleaned, failed + 1)
                 (commit Q (map_db (save_dispatch (r\<lparr>rd_attempt_count := rd_attempt_count r + 1,
                    rd_last_error := Some (reason_or res ''cancelled queue cleanup failed''),
                    rd_next_attempt_at := w_clock w + backoff (rd_attempt_count r + 1),
                    rd_updated_at := w_clock w\<rparr>)) (w\<lparr>w_queue := q\<rparr>))))"

definition reconcile_cancelled :: "'q queue_adapter \<Rightarrow> nat \<Rightarrow> 'q world \<Rightarrow> (nat \<times> nat) \<times> 'q world" where
  "reconcile_cancelled Q limit w =
     reconcile_rows Q (cancelled_for_cleanup (w_clock w) limit (w_db w)) (0, 0) w"

text \<open>The loop of \<open>publish_due\<close>: each row is committed on its own; an exception of the publication
  ends the loop.\<close>

fun publish_rows ::
  "'q queue_adapter \<Rightarrow> runtime_dispatch list \<Rightarrow> nat \<times> nat \<Rightarrow> 'q world \<Rightarrow> (nat \<times> nat) result \<times> 'q world" where
  "publish_rows Q [] counts w = (Inr counts, w)"
| "publish_rows Q (r # rs) (published, retried) w =
     (case find_task (rd_task_id r) (w_db w) of
        Some task \<Rightarrow>
          if t_tenant_id task \<noteq> rd_tenant_id r \<or> t_status task \<noteq> TQueued
          then publish_rows Q rs (published, retried) (commit Q (map_db (save_dispatch
                 (r\<lparr>rd_status := DCancelled,
                    rd_cancelled_at := (if rd_published_at r = None then Some (w_clock w) else None),
                    rd_last_error := Some ''dispatch task is missing, cross-tenant, or no longer queued'',
                    rd_updated_at := w_clock w\<rparr>)) w))
          else (case publish Q (w_queue w) r of
                  (Inl e, q) \<Rightarrow> (Inl e, w\<lparr>w_queue := q\<rparr>)
                | (Inr res, q) \<Rightarrow>
                    publish_rows Q rs (if r_ok res then (published + 1, retried) else (published, retried + 1))
                      (commit Q (map_db (save_dispatch (mark_result (w_clock w) res r)) (w\<lparr>w_queue := q\<rparr>))))
      | None \<Rightarrow>
          publish_rows Q rs (published, retried) (commit Q (map_db (save_dispatch
            (r\<lparr>rd_status := DCancelled,
               rd_cancelled_at := (if rd_published_at r = None then Some (w_clock w) else None),
               rd_last_error := Some ''dispatch task is missing, cross-tenant, or no longer queued'',
               rd_updated_at := w_clock w\<rparr>)) w)))"

record publish_summary =
  ps_published :: nat
  ps_retried :: nat
  ps_cleaned :: nat
  ps_cleanup_failed :: nat

definition publish_due :: "'q queue_adapter \<Rightarrow> nat \<Rightarrow> 'q world \<Rightarrow> publish_summary result \<times> 'q world" where
  "publish_due Q limit w =
     (case publish_rows Q (due_pending (w_clock w) limit (w_db w)) (0, 0) w of
        (Inl e, w1) \<Rightarrow> (Inl e, w1)
      | (Inr (published, retried), w1) \<Rightarrow>
          (case reconcile_cancelled Q limit w1 of
             ((cleaned, failed), w2) \<Rightarrow>
               (Inr \<lparr>ps_published = published, ps_retried = retried, ps_cleaned = cleaned,
                     ps_cleanup_failed = failed\<rparr>, w2)))"

subsection \<open>Delivery at most once\<close>

lemma set_insert_prefix: "x \<in> set xs \<Longrightarrow> x \<in> set (y # xs)" by simp

lemma ensure_keeps_dispatch:
  "set (rq_dispatch (queue_of (snd (ensure_queue_schema H s t)) u)) = set (rq_dispatch (queue_of s u))"
proof -
  have pend: "rq_dispatch (fold (\<lambda>(k, raw). put_pending k raw) rows T) = rq_dispatch T" for rows T
    by (induction rows arbitrary: T) (auto simp: put_pending_def Let_def)
  have proc: "rq_dispatch (fold (\<lambda>(k, raw) T. T\<lparr>rq_processing := AList.update k raw (rq_processing T)\<rparr>) rows T) =
      rq_dispatch T" for rows T
    by (induction rows arbitrary: T) auto
  have dead: "rq_dispatch (fold (\<lambda>(k, raw). put_dead k raw) rows T) = rq_dispatch T" for rows T
    by (induction rows arbitrary: T) (auto simp: put_dead_def Let_def)
  have "rq_dispatch (snd (migrate_script H t T)) = rq_dispatch T" for T
    by (simp add: migrate_script_def Let_def pend proc dead split: sum.split)
  then show ?thesis
    by (auto simp: ensure_queue_schema_def execute_def Let_def case_prod_beta split: option.split)
qed

definition keeps_dispatch :: "(tenant_queue \<Rightarrow> 'r \<times> tenant_queue) \<Rightarrow> bool" where
  "keeps_dispatch script \<longleftrightarrow> (\<forall>T. set (rq_dispatch T) \<subseteq> set (rq_dispatch (snd (script T))))"

lemma execute_keeps:
  "keeps_dispatch script \<Longrightarrow> key \<in> set (rq_dispatch (queue_of s u)) \<Longrightarrow>
     key \<in> set (rq_dispatch (queue_of (snd (execute s t script)) u))"
  by (auto simp: execute_def keeps_dispatch_def case_prod_beta split: option.split)

lemma run_operation_keeps:
  assumes "keeps_dispatch script" and "key \<in> set (rq_dispatch (queue_of s u))"
  shows "key \<in> set (rq_dispatch (queue_of (snd (run_operation H s t name script)) u))"
proof -
  obtain e s1 where e: "ensure_queue_schema H s t = (e, s1)" by (cases "ensure_queue_schema H s t")
  then have "key \<in> set (rq_dispatch (queue_of s1 u))"
    using ensure_keeps_dispatch [of H s t u] assms(2) by simp
  then have "key \<in> set (rq_dispatch (queue_of (snd (execute s1 t script)) u))"
    by (rule execute_keeps [OF assms(1)])
  with e \<open>key \<in> set (rq_dispatch (queue_of s1 u))\<close> show ?thesis
    by (simp add: run_operation_def case_prod_beta split: sum.split)
qed

lemma tenant_op_dispatch [simp]:
  "rq_dispatch (put_pending k r T) = rq_dispatch T" "rq_dispatch (put_dead k r T) = rq_dispatch T"
  "rq_dispatch (drop_pending k T) = rq_dispatch T" "rq_dispatch (drop_processing k T) = rq_dispatch T"
  "rq_dispatch (lease_del k T) = rq_dispatch T" "rq_dispatch (lease_set c k w ttl T) = rq_dispatch T"
  "rq_dispatch (lease_expire c k ttl T) = rq_dispatch T"
  by (simp_all add: tenant_ops lease_expire_def split: option.split)

lemma scripts_keep_dispatch:
  "keeps_dispatch (enqueue_script k r)" "keeps_dispatch (idempotent_enqueue_script key k r)"
  "keeps_dispatch (cancel_script k)" "keeps_dispatch (claim_next_script c w ttl)"
  "keeps_dispatch (claim_existing_script c k w ttl)" "keeps_dispatch (heartbeat_script c k w ttl)"
  "keeps_dispatch (complete_script c k w)" "keeps_dispatch (fail_script H c k w why now)"
  "keeps_dispatch (release_script c k w)" "keeps_dispatch (recover_script c k w)"
  "keeps_dispatch (dead_letter_script H c k e why now t)" "keeps_dispatch (retry_script H t k)"
  unfolding keeps_dispatch_def
  by (auto simp: enqueue_script_def idempotent_enqueue_script_def cancel_script_def claim_next_script_def
      claim_existing_script_def heartbeat_script_def complete_script_def fail_script_def release_script_def
      recover_script_def dead_letter_script_def retry_script_def Let_def
      split: option.split list.split sum.split)

lemma redis_step_keeps_dispatch:
  assumes "redis_step H ttl s s'" and "key \<in> set (rq_dispatch (queue_of s u))"
  shows "key \<in> set (rq_dispatch (queue_of s' u))"
  using assms(1)
proof cases
  case (claims t w)
  obtain e s1 where e: "ensure_queue_schema H s t = (e, s1)" by (cases "ensure_queue_schema H s t")
  then have k1: "key \<in> set (rq_dispatch (queue_of s1 u))"
    using ensure_keeps_dispatch [of H s t u] assms(2) by simp
  have "key \<in> set (rq_dispatch (queue_of (snd (execute s1 t (claim_next_script (rs_clock s1) w ttl))) u))"
    by (rule execute_keeps [OF scripts_keep_dispatch(4) k1])
  with claims e k1 show ?thesis
    by (simp add: redis_claim_task_def Let_def case_prod_beta split: sum.split)
next
  case (lists t)
  have "snd (redis_list_processing H s t) = snd (ensure_queue_schema H s t)"
    by (simp add: redis_list_processing_def Let_def split: prod.split sum.split)
  with lists assms(2) show ?thesis by (simp add: ensure_keeps_dispatch)
next
  case (lists_dead t)
  have "snd (redis_list_dead_letter H s t) = snd (ensure_queue_schema H s t)"
    by (simp add: redis_list_dead_letter_def split: prod.split sum.split)
  with lists_dead assms(2) show ?thesis by (simp add: ensure_keeps_dispatch)
next
  case (counts t)
  have "snd (redis_pending_depth H s t) = snd (ensure_queue_schema H s t)"
    by (simp add: redis_pending_depth_def split: prod.split sum.split)
  with counts assms(2) show ?thesis by (simp add: ensure_keeps_dispatch)
next
  case (time_passes d)
  then show ?thesis using assms(2) by (simp add: queue_of_def)
next
  case (connection_changes x)
  then show ?thesis using assms(2) by (simp add: queue_of_def)
qed (use assms(2) in \<open>simp_all add: redis_ops Let_def run_operation_keeps scripts_keep_dispatch\<close>)

lemma publish_seen:
  assumes "publish (redis_adapter H ttl) q r = (Inr res, q1)" and "r_ok res" and "retry_generation r = Inr 0"
    and "redis_inv (rd_tenant_id r) q" and "lua_host_ok H" and "0 < ttl"
  shows "rd_id r \<in> set (rq_dispatch (queue_of q1 (rd_tenant_id r)))"
proof -
  have contract: "queue_contract (redis_adapter H ttl) redis_inv redis_pending redis_holding redis_owner redis_seen"
    using redis_env.intro [OF assms(5,6)] by (rule redis_env.contract)
  have e: "enqueue_task_idempotent (redis_adapter H ttl) q (dispatch_message r) (rd_id r) = (res, q1)"
    using assms(1,3) by (simp add: publish_def idempotency_key_def Let_def split: prod.splits)
  have t: "q_tenant_id (dispatch_message r) = rd_tenant_id r" by (simp add: dispatch_message_def)
  have "redis_seen q1 (rd_tenant_id r) (rd_id r)"
  proof (cases "redis_seen q (rd_tenant_id r) (rd_id r)")
    case True
    with queue_contract.enqueue_seen [OF contract assms(4) t True] e show ?thesis by simp
  next
    case False
    then show ?thesis using queue_contract.enqueue_fresh [OF contract assms(4) t False e assms(2)] by simp
  qed
  then show ?thesis by (simp add: redis_seen_def)
qed

text \<open>
  C9: a dispatch that was never retried is delivered at most once. Once a publication of a row of generation 0 has reached the Redis queue,
  publishing the row again, as happens when the process dies before it is marked published, answers success and
  changes nothing: however much later, and whatever workers, recoveries and other dispatches did to the queue meanwhile, so a
  task that has already run to completion is not queued a second time. A retry (generation 1 and more) is published through the
  dead letter of the task, which remembers no key, and is not covered.
\<close>

theorem dispatch_delivered_at_most_once:
  assumes "lua_host_ok H" and "0 < ttl" and "redis_inv (rd_tenant_id r) q"
    and "retry_generation r = Inr 0" and "publish (redis_adapter H ttl) q r = (Inr res, q1)" and "r_ok res"
    and "(redis_step H ttl)\<^sup>*\<^sup>* q1 q2" and "redis_inv (rd_tenant_id r) q2"
  shows "publish (redis_adapter H ttl) q2 r = (Inr op_ok, q2)"
proof -
  have seen: "rd_id r \<in> set (rq_dispatch (queue_of q1 (rd_tenant_id r)))"
    using publish_seen [OF assms(5,6,4,3,1,2)] .
  from assms(7) have "rd_id r \<in> set (rq_dispatch (queue_of q2 (rd_tenant_id r)))"
    by (induction rule: rtranclp_induct) (use seen redis_step_keeps_dispatch in blast)+
  then have "enqueue_task_idempotent (redis_adapter H ttl) q2 (dispatch_message r) (rd_id r) = (op_ok, q2)"
    using queue_contract.enqueue_seen [OF redis_env.contract [OF redis_env.intro [OF assms(1,2)]] assms(8), of "dispatch_message r"]
    by (simp add: redis_seen_def dispatch_message_def)
  then show ?thesis using assms(4) by (simp add: publish_def idempotency_key_def Let_def)
qed

definition example_dispatch :: runtime_dispatch where
  "example_dispatch = \<lparr>rd_id = ''d1'', rd_tenant_id = ''acme'', rd_task_id = uuid_a,
     rd_mission_id = ''00000000-0000-0000-0000-00000000000f'', rd_fleet_id = None, rd_branch_id = None,
     rd_payload = [], rd_status = DPending, rd_attempt_count = 0, rd_next_attempt_at = 0, rd_last_error = None,
     rd_published_at = None, rd_cancelled_at = None, rd_created_at = 0, rd_updated_at = 0\<rparr>"

lemma ready_dispatch: "rq_dispatch (queue_of (redis_ready c) t) = []"
  by (simp add: redis_ready_def queue_of_def empty_tenant_def)

lemma dispatch_delivered_at_most_once_witness:
  "\<exists>q1. publish (redis_adapter plain_host 90) (redis_ready 0) example_dispatch = (Inr op_ok, q1) \<and>
     redis_pending q1 ''acme'' uuid_a \<and>
     publish (redis_adapter plain_host 90) (snd (redis_claim_task plain_host 90 q1 ''acme'' ''w1'')) example_dispatch =
       (Inr op_ok, snd (redis_claim_task plain_host 90 q1 ''acme'' ''w1''))"
proof -
  let ?Q = "redis_adapter plain_host 90" and ?m = "dispatch_message example_dispatch"
  have gen: "retry_generation example_dispatch = Inr 0"
    by (simp add: retry_generation_def example_dispatch_def)
  have wf: "wf_message ?m" "q_tenant_id ?m = ''acme''" "q_task_id ?m = uuid_a" "rd_tenant_id example_dispatch = ''acme''"
    using example_uuids by (simp_all add: wf_message_def dispatch_message_def example_dispatch_def)
  obtain res q1 where e: "enqueue_task_idempotent ?Q (redis_ready 0) ?m ''d1'' = (res, q1)"
    by (cases "enqueue_task_idempotent ?Q (redis_ready 0) ?m ''d1''")
  have "res = op_ok"
    using e wf redis_ready_inv(3,4) [of 0 "''acme''" uuid_a]
    by (auto simp: redis_ops run_operation_ready idempotent_enqueue_script_def redis_views ready_dispatch)
  then have p: "publish ?Q (redis_ready 0) example_dispatch = (Inr op_ok, q1)"
    using e gen by (simp add: publish_def idempotency_key_def Let_def) (simp add: example_dispatch_def)
  have inv1: "redis_inv ''acme'' q1" and pend: "redis_pending q1 ''acme'' uuid_a"
    using redis.enqueue_inv [OF _ wf(1), of "''acme''" "redis_ready 0" "''d1''"] e wf \<open>res = op_ok\<close>
      redis.enqueue_fresh [of "''acme''" "redis_ready 0" ?m "''d1''" res q1]
    by (simp_all add: redis_seen_def ready_dispatch)
  let ?q2 = "snd (redis_claim_task plain_host 90 q1 ''acme'' ''w1'')"
  have "publish ?Q ?q2 example_dispatch = (Inr op_ok, ?q2)"
  proof -
    have "(redis_step plain_host 90)\<^sup>*\<^sup>* q1 ?q2" by (rule r_into_rtranclp) (rule redis_step.claims)
    moreover have "redis_inv (rd_tenant_id example_dispatch) ?q2" using redis_claim_inv [OF inv1] wf(4) by simp
    ultimately show ?thesis
      using dispatch_delivered_at_most_once [OF plain_host_ok, of 90 example_dispatch "redis_ready 0" op_ok q1 ?q2] gen p
      by simp
  qed
  with p pend show ?thesis by blast
qed

subsection \<open>Nothing is published before the commit\<close>

lemma find_dispatch_in: "find_dispatch k d = None \<longleftrightarrow> (\<forall>r \<in> set (db_dispatches d). rd_id r \<noteq> k)"
  by (auto simp: find_dispatch_def find_row_def find_None_iff)

lemma admit_new:
  assumes "admit task False w = (Inr (r, True), w1)"
  shows "rd_status r = DPending" "rd_tenant_id r = t_tenant_id task" "rd_task_id r = t_id task"
    "rd_id r = w_ids w (w_next_id w)" "w_queue w1 = w_queue w" "w_clock w1 = w_clock w" "w_durable w1 = w_durable w"
    "db_dispatches (w_db w1) = db_dispatches (w_db w) @ [r]"
    "w_intents w = [] \<Longrightarrow> w_intents w1 = [\<lparr>di_dispatch_id = rd_id r, di_tenant_id = rd_tenant_id r\<rparr>]"
  using assms
  by (auto simp: admit_def Let_def map_db_def schedule_after_commit_def queue_dispatch_after_commit_def
      release_review_hold_def split: option.splits if_splits prod.splits sum.splits)

text \<open>
  C20: a task enters the queue if and only if the transaction that admits it becomes durable.
  Admission itself leaves the queue alone; rolling back publishes nothing, also at the
  next commit; committing makes the row durable and publishes it exactly once, and the row
  then records the outcome: published, or still pending with the error, one attempt
  counted and the next one due two seconds later.
\<close>

theorem admission_publishes_on_commit:
  fixes Q :: "'q queue_adapter"
  assumes "admit task False w = (Inr (r, True), w1)" and "w_intents w = []"
    and "find_dispatch (rd_id r) (w_db w) = None"
  shows "w_queue w1 = w_queue w \<and> w_queue (commit Q (rollback w1)) = w_queue w \<and>
    (case publish Q (w_queue w) r of
       (Inl e, q) \<Rightarrow> w_queue (commit Q w1) = q \<and> find_dispatch (rd_id r) (w_durable (commit Q w1)) = Some r
     | (Inr res, q) \<Rightarrow> w_queue (commit Q w1) = q \<and>
         (\<exists>r'. find_dispatch (rd_id r) (w_durable (commit Q w1)) = Some r' \<and>
            rd_status r' = (if r_ok res then DPublished else DPending) \<and>
            rd_attempt_count r' = rd_attempt_count r + 1 \<and>
            (if r_ok res then rd_published_at r' = Some (w_clock w)
             else rd_next_attempt_at r' = w_clock w + seconds 2)))"
proof -
  note a = admit_new [OF assms(1)]
  have found: "find_dispatch (rd_id r) (w_db w1) = Some r"
    using assms(3) a(8) by (simp add: find_dispatch_def)
  have count: "rd_attempt_count r = 0"
    using assms(1) by (auto simp: admit_def Let_def release_review_hold_def split: option.splits if_splits prod.splits sum.splits)
  have commit: "commit Q w1 = publish_intent Q \<lparr>di_dispatch_id = rd_id r, di_tenant_id = rd_tenant_id r\<rparr>
      (w1\<lparr>w_durable := w_db w1, w_intents := []\<rparr>)"
    using a(9) [OF assms(2)] by (simp add: commit_def)
  have undone: "w_queue (commit Q (rollback w1)) = w_queue w"
    using a(5) by (simp add: commit_def rollback_def)
  show ?thesis
  proof (cases "publish Q (w_queue w) r")
    case (Pair x q)
    show ?thesis
    proof (cases x)
      case (Inl e)
      with Pair a found undone show ?thesis by (simp add: commit publish_intent_def)
    next
      case (Inr res)
      have "find_dispatch (rd_id r) (w_durable (commit Q w1)) = Some (mark_result (w_clock w) res r)"
        "w_queue (commit Q w1) = q"
        using Inr Pair a found by (simp_all add: commit publish_intent_def Let_def mark_result_def)
      with Inr Pair a(1,5) undone count show ?thesis by (simp add: mark_result_def Let_def backoff_def)
    qed
  qed
qed

definition example_queued :: execution_task where
  "example_queued = (example_task TQueued)\<lparr>t_id := uuid_a, t_tenant_id := ''acme'',
     t_mission_id := Some ''00000000-0000-0000-0000-00000000000f'', t_metadata := []\<rparr>"

definition empty_world :: "'q \<Rightarrow> 'q world" where
  "empty_world q = \<lparr>w_db = empty_db\<lparr>db_tasks := [example_queued]\<rparr>, w_durable = empty_db, w_queue = q, w_clock = 0,
     w_intents = [], w_ids = (\<lambda>n. ''d'' @ replicate n CHR ''x''), w_next_id = 0\<rparr>"

lemma admission_publishes_on_commit_witness:
  "\<exists>r w1. admit example_queued False (empty_world local_init) = (Inr (r, True), w1) \<and>
     w_queue (commit local_adapter (rollback w1)) = local_init"
proof -
  obtain r w1 where "admit example_queued False (empty_world local_init) = (Inr (r, True), w1)"
    "rd_id r = ''d''"
    by (simp add: admit_def empty_world_def empty_db_def dispatch_for_task_def example_queued_def example_task_def Let_def)
  moreover have "w_intents (empty_world local_init) = []" "find_dispatch ''d'' (w_db (empty_world local_init)) = None"
    "w_queue (empty_world local_init) = local_init"
    by (simp_all add: empty_world_def empty_db_def find_dispatch_def find_row_def)
  ultimately show ?thesis
    using admission_publishes_on_commit [of example_queued "empty_world local_init" r w1 local_adapter] by auto
qed

subsection \<open>Retries that are never delivered\<close>

text \<open>
  Retrying a task that was buried without its queue payload never delivers it. The re-armed
  dispatch first retries the dead letter, gets the refusal of the synthesised entry, and,
  since the reason is not that the entry is missing, never falls back to enqueueing: every
  publication fails, the queue stays as it is, and the row stays pending.
\<close>

theorem buried_task_retry_never_delivered:
  assumes "lua_host_ok H" and "0 < ttl" and "redis_inv (rd_tenant_id r) q"
    and "\<not> redis_pending q (rd_tenant_id r) (rd_task_id r)" and "\<not> redis_holding q (rd_tenant_id r) (rd_task_id r)"
    and "redis_move_to_dead_letter H q now (rd_tenant_id r) (rd_task_id r) why = (res, q1)"
    and "retry_generation r = Inr g" and "g \<noteq> 0" and "rd_status r = DPending"
  shows "\<exists>failed. publish (redis_adapter H ttl) q1 r = (Inr failed, q1) \<and> \<not> r_ok failed \<and>
    rd_status (mark_result later failed r) = DPending"
proof -
  from redis_synthesised_dead_letter_is_final [OF assms(1,3,4,5), of now why] assms(6)
  have retry: "redis_retry_dead_letter H q1 (rd_tenant_id r) (rd_task_id r) =
      (op_fail ''dead-letter payload is corrupt: missing mission_id'', q1)"
    by auto
  then have "publish (redis_adapter H ttl) q1 r =
      (Inr (op_fail ''dead-letter payload is corrupt: missing mission_id''), q1)"
    using assms(7,8) by (simp add: publish_def Let_def)
  then show ?thesis using assms(9) by (simp add: mark_result_def Let_def)
qed

lemma buried_task_retry_never_delivered_witness:
  "\<exists>q1 failed. redis_move_to_dead_letter plain_host (redis_ready 0) 7 ''acme'' uuid_a ''gone'' = (op_ok, q1) \<and>
     publish (redis_adapter plain_host 90) q1 (example_dispatch\<lparr>rd_payload := [(retry_key, JInt 1)]\<rparr>) = (Inr failed, q1) \<and>
     \<not> r_ok failed"
proof -
  let ?r = "example_dispatch\<lparr>rd_payload := [(retry_key, JInt 1)]\<rparr>"
  obtain q1 where q1: "redis_move_to_dead_letter plain_host (redis_ready 0) 7 ''acme'' uuid_a ''gone'' = (op_ok, q1)"
    using redis_synthesised_dead_letter_is_final [OF plain_host_ok, of "''acme''" "redis_ready 0" uuid_a 7 "''gone''"] by auto
  have r: "rd_tenant_id ?r = ''acme''" "rd_task_id ?r = uuid_a" "retry_generation ?r = Inr 1" "rd_status ?r = DPending"
    by (simp_all add: example_dispatch_def retry_generation_def)
  show ?thesis
    using buried_task_retry_never_delivered [OF plain_host_ok, of 90 ?r "redis_ready 0" 7 "''gone''" op_ok q1 1 0] q1 r
    by auto
qed

text \<open>
  One row with an unusable retry generation stops all publication. When it is the first due row
  and its task is queued, \<open>publish_due\<close> raises before anything is published or recorded,
  leaving the world as it was, so the same row is first again at every later call and no
  other dispatch of any tenant is published.
\<close>

theorem invalid_generation_blocks_publication:
  assumes "due_pending (w_clock w) limit (w_db w) = r # rs" and "retry_generation r = Inl e"
    and "find_task (rd_task_id r) (w_db w) = Some task" and "t_tenant_id task = rd_tenant_id r"
    and "t_status task = TQueued"
  shows "publish_due Q limit w = (Inl e, w)"
  using assms by (simp add: publish_due_def publish_def)

definition poisoned_dispatch :: runtime_dispatch where
  "poisoned_dispatch = example_dispatch\<lparr>rd_payload := [(retry_key, JInt (-1))]\<rparr>"

definition poisoned_world :: "local_queue world" where
  "poisoned_world = (empty_world local_init)\<lparr>w_db := empty_db\<lparr>db_tasks := [example_queued],
     db_dispatches := [poisoned_dispatch, example_dispatch]\<rparr>\<rparr>"

lemma invalid_generation_blocks_publication_witness:
  "publish_due local_adapter 25 poisoned_world =
     (Inl (ValueError ''runtime queue dispatch has an invalid retry generation''), poisoned_world)"
proof -
  have "due_pending (w_clock poisoned_world) 25 (w_db poisoned_world) = poisoned_dispatch # [example_dispatch]"
    by (simp add: due_pending_def poisoned_world_def empty_world_def empty_db_def example_dispatch_def poisoned_dispatch_def)
  moreover have "retry_generation poisoned_dispatch = Inl (ValueError ''runtime queue dispatch has an invalid retry generation'')"
    by (simp add: retry_generation_def poisoned_dispatch_def)
  moreover have "find_task (rd_task_id poisoned_dispatch) (w_db poisoned_world) = Some example_queued"
    "t_tenant_id example_queued = rd_tenant_id poisoned_dispatch" "t_status example_queued = TQueued"
    by (simp_all add: poisoned_world_def poisoned_dispatch_def example_dispatch_def find_task_def find_row_def
        empty_db_def example_queued_def example_task_def)
  ultimately show ?thesis by (rule invalid_generation_blocks_publication)
qed

end
