(* ===== verification/RateLimit.thy ===== *)
theory RateLimit
  imports Prelude
begin

section \<open>Rate limiting\<close>

text \<open>
  \<open>backend/rate_limit/limiter.py\<close>: the fixed-window limiter with its route policies, and the
  part of \<open>backend/middleware/rate_limit.py\<close> that classifies a request, scales the limit
  with the plan and asks the limiter. \<open>time.monotonic()\<close> is an argument, a rational number of
  seconds that never decreases. The monthly API-call quota the middleware checks after
  the limiter, and its whole \<open>dispatch\<close>, are in \<open>Quota\<close>.
\<close>

subsection \<open>The limiter\<close>

record rate_limit_key =
  rk_tenant_id :: string
  rk_principal_id :: string
  rk_route :: string

record rate_limit_decision =
  rl_allowed :: bool
  rl_remaining :: int
  rl_retry_after :: "int option"

record route_policy =
  rp_max_requests :: int
  rp_window_seconds :: int

type_synonym bucket_key = "rate_limit_key \<times> int \<times> int"

record rate_limiter =
  lm_max_requests :: int
  lm_window_seconds :: int
  lm_route_policies :: "(string \<times> route_policy) list"
  lm_buckets :: "bucket_key \<Rightarrow> (int \<times> rat) option"

text \<open>\<open>RoutePolicy.__post_init__\<close>.\<close>

definition route_policy_of :: "int \<Rightarrow> int \<Rightarrow> route_policy result" where
  "route_policy_of max_requests window_seconds =
     (if max_requests \<le> 0 then Inl (ValueError ''RoutePolicy.max_requests must be positive'')
      else if window_seconds \<le> 0 then Inl (ValueError ''RoutePolicy.window_seconds must be positive'')
      else Inr \<lparr>rp_max_requests = max_requests, rp_window_seconds = window_seconds\<rparr>)"

text \<open>\<open>sorted(..., reverse=True)\<close> is stable, as is \<open>sort_key\<close> on the negated length.\<close>

definition rate_limiter_init :: "int \<Rightarrow> int \<Rightarrow> (string \<times> route_policy) list \<Rightarrow> rate_limiter result" where
  "rate_limiter_init max_requests window_seconds route_policies =
     (if max_requests \<le> 0 then Inl (ValueError ''max_requests must be positive'')
      else if window_seconds \<le> 0 then Inl (ValueError ''window_seconds must be positive'')
      else Inr \<lparr>lm_max_requests = max_requests, lm_window_seconds = window_seconds,
                lm_route_policies = sort_key (\<lambda>item. - int (length (fst item))) route_policies,
                lm_buckets = (\<lambda>_. None)\<rparr>)"

definition route_matches :: "string \<Rightarrow> string \<Rightarrow> bool" where
  "route_matches route prefix \<longleftrightarrow>
     route = prefix \<or> starts_with route (prefix @ ''/'') \<or> starts_with route prefix"

definition resolve_policy :: "rate_limiter \<Rightarrow> string \<Rightarrow> int \<times> int" where
  "resolve_policy lm route =
     (case find (\<lambda>item. route_matches route (fst item)) (lm_route_policies lm) of
        Some (prefix, policy) \<Rightarrow> (rp_max_requests policy, rp_window_seconds policy)
      | None \<Rightarrow> (lm_max_requests lm, lm_window_seconds lm))"

text \<open>The bucket's count and start as an evaluation at \<open>now\<close> sees them.\<close>

definition current_window :: "rat \<Rightarrow> int \<Rightarrow> (int \<times> rat) option \<Rightarrow> int \<times> rat" where
  "current_window now window_seconds bucket =
     (case bucket of
        None \<Rightarrow> (0, now)
      | Some (count, window_start) \<Rightarrow>
          if now - window_start \<ge> of_int window_seconds then (0, now) else (count, window_start))"

definition evaluate_with_policy ::
  "rate_limiter \<Rightarrow> rat \<Rightarrow> rate_limit_key \<Rightarrow> int \<Rightarrow> int \<Rightarrow> rate_limit_decision result \<times> rate_limiter" where
  "evaluate_with_policy lm now key max_requests window_seconds =
     (if max_requests \<le> 0 then (Inl (ValueError ''max_requests must be positive''), lm)
      else if window_seconds \<le> 0 then (Inl (ValueError ''window_seconds must be positive''), lm)
      else let bucket_key = (key, max_requests, window_seconds);
               (count, window_start) = current_window now window_seconds (lm_buckets lm bucket_key)
           in if count \<ge> max_requests
              then (Inr \<lparr>rl_allowed = False, rl_remaining = 0,
                         rl_retry_after = Some (max 1 \<lfloor>of_int window_seconds - (now - window_start)\<rfloor>)\<rparr>, lm)
              else (Inr \<lparr>rl_allowed = True, rl_remaining = max_requests - (count + 1), rl_retry_after = None\<rparr>,
                    lm\<lparr>lm_buckets := (lm_buckets lm)(bucket_key \<mapsto> (count + 1, window_start))\<rparr>))"

definition evaluate :: "rate_limiter \<Rightarrow> rat \<Rightarrow> rate_limit_key \<Rightarrow> rate_limit_decision result \<times> rate_limiter" where
  "evaluate lm now key =
     (case resolve_policy lm (rk_route key) of
        (max_requests, window_seconds) \<Rightarrow> evaluate_with_policy lm now key max_requests window_seconds)"

subsection \<open>The middleware's policy\<close>

definition onboarding_route_policies :: "(string \<times> route_policy) list" where
  "onboarding_route_policies =
     [(''/v1/onboarding/signup'', \<lparr>rp_max_requests = 5, rp_window_seconds = 3600\<rparr>),
      (''/v1/onboarding/verify-email'', \<lparr>rp_max_requests = 20, rp_window_seconds = 3600\<rparr>),
      (''/v1/onboarding/resend-verification'', \<lparr>rp_max_requests = 3, rp_window_seconds = 3600\<rparr>)]"

definition default_route_policies :: "(string \<times> route_policy) list" where
  "default_route_policies =
     [(''/v1/webhooks'', \<lparr>rp_max_requests = 10, rp_window_seconds = 60\<rparr>),
      (''/v1/admin'', \<lparr>rp_max_requests = 20, rp_window_seconds = 60\<rparr>),
      (''/v1/billing/webhook/'', \<lparr>rp_max_requests = 200, rp_window_seconds = 60\<rparr>)]"

definition plan_rate_multiplier :: "(string \<times> rat) list" where
  "plan_rate_multiplier = [(''free'', 1), (''starter'', 5 / 4), (''pro'', 7 / 4), (''enterprise'', 5 / 2)]"

definition plan_burst_credit :: "(string \<times> int) list" where
  "plan_burst_credit = [(''free'', 0), (''starter'', 2), (''pro'', 5), (''enterprise'', 10)]"

definition classify_route :: "string \<Rightarrow> string" where
  "classify_route path =
     (if starts_with path ''/v1/admin'' then ''admin''
      else if starts_with path ''/v1/webhooks'' then ''webhooks''
      else if starts_with path ''/v1/billing/webhook/'' then ''stripe_webhook''
      else if starts_with path ''/v1/onboarding/'' then ''onboarding''
      else ''default'')"

definition onboarding_route_policy :: "string \<Rightarrow> int \<Rightarrow> route_policy option result" where
  "onboarding_route_policy path signup_ip_limit_per_hour =
     (case find (\<lambda>item. starts_with path (fst item)) onboarding_route_policies of
        Some (prefix, policy) \<Rightarrow>
          bind_result (route_policy_of signup_ip_limit_per_hour (rp_window_seconds policy)) (\<lambda>p. Inr (Some p))
      | None \<Rightarrow> Inr None)"

record principal =
  pr_subject_id :: string
  pr_is_machine :: bool
  pr_key_id :: "string option"

definition is_billable_external_api_request :: "principal option \<Rightarrow> string \<Rightarrow> bool" where
  "is_billable_external_api_request p path =
     (if starts_with path ''/v1/onboarding/'' then False
      else case p of None \<Rightarrow> False
           | Some pr \<Rightarrow> pr_is_machine pr \<and> pr_key_id pr \<notin> {None, Some []})"

text \<open>
  What the middleware reads of a request: \<open>request.state\<close> and the path. \<open>hr_plan\<close> is the plan of
  the tenant, None without a tenant or plan; \<open>hr_client_ip_hash\<close> is what
  \<open>hash_client_ip(extract_client_ip(request))\<close> returns.
\<close>

record http_request =
  hr_path :: string
  hr_tenant_id :: "string option"
  hr_principal :: "principal option"
  hr_plan :: "string option"
  hr_client_ip_hash :: string

definition request_tenant :: "http_request \<Rightarrow> string" where
  "request_tenant r = (case hr_tenant_id r of None \<Rightarrow> ''anonymous'' | Some [] \<Rightarrow> ''anonymous'' | Some t \<Rightarrow> t)"

definition request_key :: "http_request \<Rightarrow> rate_limit_key" where
  "request_key r =
     (if classify_route (hr_path r) = ''onboarding''
      then \<lparr>rk_tenant_id = ''onboarding'', rk_principal_id = hr_client_ip_hash r, rk_route = hr_path r\<rparr>
      else \<lparr>rk_tenant_id = request_tenant r,
            rk_principal_id = (case hr_principal r of None \<Rightarrow> ''anonymous'' | Some p \<Rightarrow> pr_subject_id p),
            rk_route = hr_path r\<rparr>)"

text \<open>
  The float product is exact: every multiplier is a multiple of a quarter and the limits are far
  below \<open>2 ^ 50\<close>. \<open>str(None)\<close> is no plan of the tables.
\<close>

definition effective_max :: "int \<Rightarrow> string option \<Rightarrow> int" where
  "effective_max base_max plan =
     (let slug = (case plan of None \<Rightarrow> ''None'' | Some p \<Rightarrow> p);
          multiplier = (case map_of plan_rate_multiplier slug of None \<Rightarrow> 1 | Some m \<Rightarrow> m);
          burst_credit = (case map_of plan_burst_credit slug of None \<Rightarrow> 0 | Some b \<Rightarrow> b)
      in max 1 (\<lfloor>of_int base_max * multiplier\<rfloor> + burst_credit))"

definition base_policy :: "rate_limiter \<Rightarrow> int \<Rightarrow> string \<Rightarrow> (int \<times> int) result" where
  "base_policy lm signup_limit path =
     bind_result (onboarding_route_policy path signup_limit) (\<lambda>policy.
       Inr (case policy of Some p \<Rightarrow> (rp_max_requests p, rp_window_seconds p)
            | None \<Rightarrow> resolve_policy lm path))"

definition limit_request ::
  "rate_limiter \<Rightarrow> rat \<Rightarrow> int \<Rightarrow> http_request \<Rightarrow> rate_limit_decision result \<times> rate_limiter" where
  "limit_request lm now signup_limit r =
     (case base_policy lm signup_limit (hr_path r) of
        Inl e \<Rightarrow> (Inl e, lm)
      | Inr (base_max, base_window) \<Rightarrow>
          evaluate_with_policy lm now (request_key r) (effective_max base_max (hr_plan r)) base_window)"

subsection \<open>Runs\<close>

text \<open>One limiter answering a list of evaluations, each with its time, key and limits.\<close>

type_synonym evaluation = "rat \<times> bucket_key"

fun evaluations :: "rate_limiter \<Rightarrow> evaluation list \<Rightarrow> (evaluation \<times> rate_limit_decision result) list" where
  "evaluations lm [] = []"
| "evaluations lm ((now, key, max_requests, window_seconds) # es) =
     (case evaluate_with_policy lm now key max_requests window_seconds of
        (d, lm') \<Rightarrow> ((now, key, max_requests, window_seconds), d) # evaluations lm' es)"

definition was_allowed :: "bucket_key \<Rightarrow> rat \<Rightarrow> rat \<Rightarrow> evaluation \<times> rate_limit_decision result \<Rightarrow> bool" where
  "was_allowed bucket from until e =
     (case e of ((now, b), d) \<Rightarrow> b = bucket \<and> from \<le> now \<and> now < until \<and>
        (case d of Inl _ \<Rightarrow> False | Inr decision \<Rightarrow> rl_allowed decision))"

definition allowed_between :: "bucket_key \<Rightarrow> rat \<Rightarrow> rat \<Rightarrow> rate_limiter \<Rightarrow> evaluation list \<Rightarrow> nat" where
  "allowed_between bucket from until lm es = length (filter (was_allowed bucket from until) (evaluations lm es))"

text \<open>Times do not run backwards.\<close>

definition in_order :: "evaluation list \<Rightarrow> bool" where
  "in_order es \<longleftrightarrow> sorted (map fst es)"

definition count_ok :: "bucket_key \<Rightarrow> rate_limiter \<Rightarrow> bool" where
  "count_ok bucket lm \<longleftrightarrow>
     (case lm_buckets lm bucket of None \<Rightarrow> True | Some (c, s) \<Rightarrow> 1 \<le> c \<and> c \<le> fst (snd bucket))"

lemma in_order_Cons [simp]: "in_order (e # es) \<longleftrightarrow> (\<forall>x \<in> set es. fst e \<le> fst x) \<and> in_order es"
  by (auto simp: in_order_def)

lemma other_bucket:
  "(key, m, w) \<noteq> bucket \<Longrightarrow> lm_buckets (snd (evaluate_with_policy lm now key m w)) bucket = lm_buckets lm bucket"
  by (auto simp: evaluate_with_policy_def Let_def split: prod.split)

text \<open>The three answers an evaluation of a valid bucket can give.\<close>

lemma evaluation_cases [consumes 2, case_names denied counted opened]:
  assumes "0 < m" and "0 < w"
  obtains
    (denied) c s where "lm_buckets lm (key, m, w) = Some (c, s)" "now - s < of_int w" "m \<le> c"
      "evaluate_with_policy lm now key m w =
         (Inr \<lparr>rl_allowed = False, rl_remaining = 0, rl_retry_after = Some (max 1 \<lfloor>of_int w - (now - s)\<rfloor>)\<rparr>, lm)"
  | (counted) c s where "lm_buckets lm (key, m, w) = Some (c, s)" "now - s < of_int w" "c < m"
      "evaluate_with_policy lm now key m w =
         (Inr \<lparr>rl_allowed = True, rl_remaining = m - (c + 1), rl_retry_after = None\<rparr>,
          lm\<lparr>lm_buckets := (lm_buckets lm)((key, m, w) \<mapsto> (c + 1, s))\<rparr>)"
  | (opened) "\<forall>c s. lm_buckets lm (key, m, w) = Some (c, s) \<longrightarrow> of_int w \<le> now - s"
      "evaluate_with_policy lm now key m w =
         (Inr \<lparr>rl_allowed = True, rl_remaining = m - 1, rl_retry_after = None\<rparr>,
          lm\<lparr>lm_buckets := (lm_buckets lm)((key, m, w) \<mapsto> (1, now))\<rparr>)"
proof (cases "lm_buckets lm (key, m, w)")
  case None
  then show ?thesis using assms by (intro opened) (simp_all add: evaluate_with_policy_def current_window_def)
next
  case (Some p)
  obtain c s where p: "p = (c, s)" by (cases p)
  consider "of_int w \<le> now - s" | "now - s < of_int w" "m \<le> c" | "now - s < of_int w" "c < m" by linarith
  then show ?thesis
  proof cases
    case 1
    then show ?thesis using Some p assms
      by (intro opened) (simp_all add: evaluate_with_policy_def current_window_def)
  next
    case 2
    then show ?thesis using Some p assms
      by (intro denied [of c s]) (simp_all add: evaluate_with_policy_def current_window_def)
  next
    case 3
    then show ?thesis using Some p assms
      by (intro counted [of c s]) (simp_all add: evaluate_with_policy_def current_window_def)
  qed
qed

lemma invalid_policy:
  "\<not> (0 < m \<and> 0 < w) \<Longrightarrow> \<exists>e. evaluate_with_policy lm now key m w = (Inl e, lm)"
  by (auto simp: evaluate_with_policy_def)

lemma allowed_Cons:
  assumes "evaluate_with_policy lm now key m w = (d, lm')"
  shows "allowed_between bucket a b lm ((now, key, m, w) # es) =
    (if was_allowed bucket a b ((now, key, m, w), d) then 1 else 0) + allowed_between bucket a b lm' es"
  using assms by (simp add: allowed_between_def)

lemma count_ok_step:
  assumes "0 < m" and "0 < w" and "count_ok (key, m, w) lm"
  shows "count_ok (key, m, w) (snd (evaluate_with_policy lm now key m w))"
  by (cases rule: evaluation_cases [OF assms(1,2), of lm key now]) (use assms in \<open>auto simp: count_ok_def\<close>)

subsection \<open>The bound of a window\<close>

lemma none_after:
  "\<forall>e \<in> set es. b \<le> fst e \<Longrightarrow> allowed_between bucket a b lm es = 0"
proof (induction es arbitrary: lm)
  case Nil
  then show ?case by (simp add: allowed_between_def)
next
  case (Cons e es)
  obtain now key m w where e: "e = (now, key, m, w)" by (metis prod_cases4)
  obtain d lm' where d: "evaluate_with_policy lm now key m w = (d, lm')" by fastforce
  from Cons.prems have "\<not> was_allowed bucket a b ((now, key, m, w), d)"
    by (auto simp: was_allowed_def e)
  with Cons show ?case by (simp add: e allowed_Cons [OF d])
qed

lemma skip_other:
  assumes "(key, m, w) \<noteq> bucket"
  shows "allowed_between bucket a b lm ((now, key, m, w) # es) =
    allowed_between bucket a b (snd (evaluate_with_policy lm now key m w)) es"
proof -
  obtain d lm' where d: "evaluate_with_policy lm now key m w = (d, lm')" by fastforce
  have "\<not> was_allowed bucket a b ((now, key, m, w), d)" using assms by (auto simp: was_allowed_def)
  then show ?thesis by (simp add: allowed_Cons [OF d] d)
qed

text \<open>Inside the window that began at \<open>s\<close>, at most what is left of it is allowed.\<close>

lemma rest_of_window:
  assumes "0 < m" and "0 < w"
  shows "lm_buckets lm (key, m, w) = Some (c, s) \<Longrightarrow> c \<le> m \<Longrightarrow> b \<le> s + of_int w \<Longrightarrow> in_order es \<Longrightarrow>
    int (allowed_between (key, m, w) a b lm es) \<le> m - c"
proof (induction es arbitrary: lm c)
  case Nil
  then show ?case by (simp add: allowed_between_def)
next
  case (Cons e es)
  obtain now key' m' w' where e: "e = (now, key', m', w')" by (metis prod_cases4)
  show ?case
  proof (cases "(key', m', w') = (key, m, w)")
    case False
    then have "lm_buckets (snd (evaluate_with_policy lm now key' m' w')) (key, m, w) = Some (c, s)"
      using Cons.prems(1) other_bucket [OF False, of lm now] by simp
    from Cons.IH [OF this] False Cons.prems show ?thesis by (simp add: e skip_other)
  next
    case True
    show ?thesis
    proof (cases "b \<le> now")
      case True
      then have "\<forall>x \<in> set (e # es). b \<le> fst x" using Cons.prems(4) e by force
      from none_after [OF this] Cons.prems(2) show ?thesis by simp
    next
      case False
      then have inw: "now - s < of_int w" using Cons.prems(3) by simp
      from assms show ?thesis
      proof (cases rule: evaluation_cases [of m w lm key now])
        case (denied c' s')
        then show ?thesis
          using Cons.IH [OF Cons.prems(1-3)] Cons.prems(4) True by (simp add: e allowed_Cons was_allowed_def)
      next
        case (counted c' s')
        then have c: "c' = c" "s' = s" using Cons.prems(1) by auto
        have "int (allowed_between (key, m, w) a b (lm\<lparr>lm_buckets := (lm_buckets lm)((key, m, w) \<mapsto> (c + 1, s))\<rparr>) es) \<le> m - (c + 1)"
          by (rule Cons.IH) (use Cons.prems counted c in simp_all)
        with counted True show ?thesis by (simp add: e c allowed_Cons)
      next
        case opened
        with Cons.prems(1) inw show ?thesis by fastforce
      qed
    qed
  qed
qed

text \<open>An interval no longer than the window that begins inside the present one meets two windows.\<close>

lemma two_windows:
  assumes "0 < m" and "0 < w" and "b \<le> a + of_int w"
  shows "\<forall>x \<in> set es. a \<le> fst x \<Longrightarrow> in_order es \<Longrightarrow> count_ok (key, m, w) lm \<Longrightarrow>
    int (allowed_between (key, m, w) a b lm es) \<le>
      (case lm_buckets lm (key, m, w) of None \<Rightarrow> m | Some (c, s) \<Rightarrow> (m - c) + m)"
proof (induction es arbitrary: lm)
  case Nil
  then show ?case using assms by (auto simp: allowed_between_def count_ok_def split: option.splits)
next
  case (Cons e es)
  obtain now key' m' w' where e: "e = (now, key', m', w')" by (metis prod_cases4)
  have now: "a \<le> now" using Cons.prems(1) e by simp
  show ?case
  proof (cases "(key', m', w') = (key, m, w)")
    case False
    then have same: "lm_buckets (snd (evaluate_with_policy lm now key' m' w')) (key, m, w) = lm_buckets lm (key, m, w)"
      by (rule other_bucket)
    have "count_ok (key, m, w) (snd (evaluate_with_policy lm now key' m' w'))"
      using Cons.prems(3) same by (simp add: count_ok_def)
    from Cons.IH [OF _ _ this] False Cons.prems same show ?thesis by (simp add: e skip_other)
  next
    case True
    have ok: "count_ok (key, m, w) (snd (evaluate_with_policy lm now key m w))"
      by (rule count_ok_step [OF assms(1,2) Cons.prems(3)])
    from assms(1,2) show ?thesis
    proof (cases rule: evaluation_cases [of m w lm key now])
      case (denied c s)
      then show ?thesis using Cons.IH [of lm] Cons.prems True by (simp add: e allowed_Cons was_allowed_def)
    next
      case (counted c s)
      then show ?thesis using Cons.IH [of "snd (evaluate_with_policy lm now key m w)"] ok Cons.prems True
        by (simp add: e allowed_Cons)
    next
      case opened
      let ?lm' = "lm\<lparr>lm_buckets := (lm_buckets lm)((key, m, w) \<mapsto> (1, now))\<rparr>"
      have "int (allowed_between (key, m, w) a b ?lm' es) \<le> m - 1"
        by (rule rest_of_window [OF assms(1,2), of _ _ _ now]) (use assms now Cons.prems in simp_all)
      then have "int (allowed_between (key, m, w) a b lm (e # es)) \<le> m"
        using opened True by (simp add: e allowed_Cons)
      then show ?thesis using Cons.prems(3) assms by (auto simp: count_ok_def split: option.splits)
    qed
  qed
qed

lemma at_most_twice:
  assumes "0 < m" and "0 < w"
  shows "in_order es \<Longrightarrow> count_ok (key, m, w) lm \<Longrightarrow>
    int (allowed_between (key, m, w) a (a + of_int w) lm es) \<le> 2 * m - 1"
proof (induction es arbitrary: lm)
  case Nil
  then show ?case using assms by (simp add: allowed_between_def)
next
  case (Cons e es)
  obtain now key' m' w' where e: "e = (now, key', m', w')" by (metis prod_cases4)
  show ?case
  proof (cases "a \<le> now")
    case True
    then have "\<forall>x \<in> set (e # es). a \<le> fst x" using Cons.prems(1) e by force
    from two_windows [OF assms order_refl this Cons.prems] Cons.prems(2) assms show ?thesis
      by (auto simp: count_ok_def split: option.splits)
  next
    case False
    obtain d lm' where d: "evaluate_with_policy lm now key' m' w' = (d, lm')" by fastforce
    have "count_ok (key, m, w) lm'"
    proof (cases "(key', m', w') = (key, m, w)")
      case True
      then show ?thesis using count_ok_step [OF assms Cons.prems(2), of now] d by simp
    next
      case False
      then show ?thesis using other_bucket [OF False, of lm now] Cons.prems(2) d by (simp add: count_ok_def)
    qed
    with Cons False d show ?thesis by (simp add: e allowed_Cons was_allowed_def)
  qed
qed

lemma at_most_twice_any:
  assumes "in_order es" and "count_ok bucket lm" and "0 < fst (snd bucket)" and "0 < snd (snd bucket)"
  shows "int (allowed_between bucket a (a + of_int (snd (snd bucket))) lm es) \<le> 2 * fst (snd bucket) - 1"
  using at_most_twice [of "fst (snd bucket)" "snd (snd bucket)" es "fst bucket" lm a] assms by simp

lemma init_buckets:
  "rate_limiter_init m w ps = Inr lm \<Longrightarrow> lm_buckets lm = (\<lambda>_. None) \<and> 0 < m \<and> 0 < w"
  by (auto simp: rate_limiter_init_def split: if_splits)

text \<open>
  C21: the limiter never allows more than twice its limit, less one, in any stretch of one window's
  length, wherever the stretch lies against the fixed windows and whatever the other keys
  and limits are asked in between.
\<close>

theorem rate_limit_window_bound:
  assumes "rate_limiter_init m w ps = Inr lm" and "in_order es"
    and "0 < fst (snd bucket)" and "0 < snd (snd bucket)"
  shows "int (allowed_between bucket a (a + of_int (snd (snd bucket))) lm es) \<le> 2 * fst (snd bucket) - 1"
  by (rule at_most_twice_any [OF assms(2) _ assms(3,4)]) (simp add: count_ok_def init_buckets [OF assms(1)])

definition example_limiter :: rate_limiter where
  "example_limiter = \<lparr>lm_max_requests = 100, lm_window_seconds = 60,
     lm_route_policies = sort_key (\<lambda>item. - int (length (fst item))) default_route_policies, lm_buckets = (\<lambda>_. None)\<rparr>"

definition example_rate_key :: rate_limit_key where
  "example_rate_key = \<lparr>rk_tenant_id = ''acme'', rk_principal_id = ''bob'', rk_route = ''/v1/webhooks''\<rparr>"

definition example_burst :: "evaluation list" where
  "example_burst = map (\<lambda>t. (t, (example_rate_key, 2, 60))) [0, 59, 60, 61, 62]"

lemma example_limiter_init: "rate_limiter_init 100 60 default_route_policies = Inr example_limiter"
  by (simp add: rate_limiter_init_def example_limiter_def)

lemma example_burst_count:
  "allowed_between (example_rate_key, 2, 60) 59 119 example_limiter example_burst = 3"
  by (simp add: allowed_between_def example_burst_def evaluate_with_policy_def current_window_def was_allowed_def
      example_limiter_def)

text \<open>The bound is met: three of the five requests of the example fall within sixty seconds.\<close>

lemma rate_limit_window_bound_witness:
  "int (allowed_between (example_rate_key, 2, 60) 59 119 example_limiter example_burst) \<le> 3 \<and>
   allowed_between (example_rate_key, 2, 60) 59 119 example_limiter example_burst = 3"
proof -
  have "in_order example_burst" by (simp add: in_order_def example_burst_def)
  from rate_limit_window_bound [OF example_limiter_init this, of "(example_rate_key, 2, 60)" 59]
  show ?thesis by (simp add: example_burst_count)
qed

subsection \<open>Denials\<close>

fun limiter_after :: "rate_limiter \<Rightarrow> evaluation list \<Rightarrow> rate_limiter" where
  "limiter_after lm [] = lm"
| "limiter_after lm ((now, key, m, w) # es) = limiter_after (snd (evaluate_with_policy lm now key m w)) es"

lemma limiter_after_snoc:
  "limiter_after lm (es @ [(now, key, m, w)]) = snd (evaluate_with_policy (limiter_after lm es) now key m w)"
  by (induction lm es rule: limiter_after.induct) simp_all

lemma evaluations_snoc:
  "evaluations lm (es @ [(now, key, m, w)]) =
     evaluations lm es @ [((now, key, m, w), fst (evaluate_with_policy (limiter_after lm es) now key m w))]"
  by (induction lm es rule: limiter_after.induct) (simp_all add: case_prod_beta)

lemma in_order_snoc: "in_order (es @ [e]) \<longleftrightarrow> in_order es \<and> (\<forall>x \<in> set es. fst x \<le> fst e)"
  by (auto simp: in_order_def sorted_append)

definition allowed_times :: "bucket_key \<Rightarrow> rate_limiter \<Rightarrow> evaluation list \<Rightarrow> rat list" where
  "allowed_times bucket lm es =
     map (\<lambda>e. fst (fst e))
       (filter (\<lambda>e. snd (fst e) = bucket \<and> (\<exists>d. snd e = Inr d \<and> rl_allowed d)) (evaluations lm es))"

lemma allowed_between_times:
  "allowed_between bucket a b lm es = length (filter (\<lambda>t. a \<le> t \<and> t < b) (allowed_times bucket lm es))"
  unfolding allowed_between_def allowed_times_def filter_map filter_filter length_map
  by (rule arg_cong [of _ _ length], rule filter_cong)
    (auto simp: was_allowed_def comp_def split: prod.splits sum.splits)

lemma allowed_times_snoc:
  "allowed_times bucket lm (es @ [(now, key, m, w)]) =
     allowed_times bucket lm es @
       (if (key, m, w) = bucket \<and> (\<exists>d. fst (evaluate_with_policy (limiter_after lm es) now key m w) = Inr d \<and> rl_allowed d)
        then [now] else [])"
  by (simp add: allowed_times_def evaluations_snoc)

text \<open>The times a bucket was allowed split into those before its window and the counted ones in it.\<close>

definition bucket_history :: "bucket_key \<Rightarrow> (int \<times> rat) option \<Rightarrow> rat list \<Rightarrow> bool" where
  "bucket_history bucket b ts \<longleftrightarrow>
     (case b of None \<Rightarrow> ts = []
      | Some (c, s) \<Rightarrow> \<exists>old recent. ts = old @ recent \<and> int (length recent) = c \<and> (\<forall>t \<in> set old. t < s) \<and>
          (\<forall>t \<in> set recent. s \<le> t \<and> t < s + of_int (snd (snd bucket))) \<and>
          1 \<le> c \<and> c \<le> fst (snd bucket))"

lemma bucket_history_holds:
  assumes "lm_buckets lm = (\<lambda>_. None)" and "0 < m" and "0 < w"
  shows "in_order es \<Longrightarrow>
    bucket_history (key, m, w) (lm_buckets (limiter_after lm es) (key, m, w)) (allowed_times (key, m, w) lm es) \<and>
    (\<forall>c s. lm_buckets (limiter_after lm es) (key, m, w) = Some (c, s) \<longrightarrow> (\<exists>e \<in> set es. fst e = s))"
proof (induction es rule: rev_induct)
  case Nil
  then show ?case using assms(1) by (simp add: bucket_history_def allowed_times_def)
next
  case (snoc e es)
  obtain now key' m' w' where e: "e = (now, key', m', w')" by (metis prod_cases4)
  let ?lm = "limiter_after lm es" and ?b = "(key, m, w)"
  from snoc have IH: "bucket_history ?b (lm_buckets ?lm ?b) (allowed_times ?b lm es)"
    and start: "\<And>c s. lm_buckets ?lm ?b = Some (c, s) \<Longrightarrow> \<exists>e \<in> set es. fst e = s"
    and before: "\<forall>x \<in> set es. fst x \<le> now"
    by (auto simp: in_order_snoc e)
  show ?case
  proof (cases "(key', m', w') = ?b")
    case False
    then have "lm_buckets (snd (evaluate_with_policy ?lm now key' m' w')) ?b = lm_buckets ?lm ?b"
      by (rule other_bucket)
    with False IH start show ?thesis by (auto simp: e limiter_after_snoc allowed_times_snoc)
  next
    case True
    from assms(2,3) show ?thesis
    proof (cases rule: evaluation_cases [of m w ?lm key now])
      case (denied c s)
      with True IH start show ?thesis by (auto simp: e limiter_after_snoc allowed_times_snoc)
    next
      case (counted c s)
      from IH counted(1) obtain old recent where h: "allowed_times ?b lm es = old @ recent"
        "int (length recent) = c" "\<forall>t \<in> set old. t < s" "\<forall>t \<in> set recent. s \<le> t \<and> t < s + of_int w" "1 \<le> c"
        by (auto simp: bucket_history_def)
      have now: "s \<le> now" using start [OF counted(1)] before by auto
      have "bucket_history ?b (Some (c + 1, s)) ((old @ recent) @ [now])"
        unfolding bucket_history_def option.case prod.case
        by (rule exI [of _ old], rule exI [of _ "recent @ [now]"]) (use h counted(2,3) now in auto)
      with counted True h start show ?thesis by (auto simp: e limiter_after_snoc allowed_times_snoc)
    next
      case opened
      have "\<forall>t \<in> set (allowed_times ?b lm es). t < now"
      proof (cases "lm_buckets ?lm ?b")
        case None
        with IH show ?thesis by (simp add: bucket_history_def)
      next
        case (Some p)
        obtain c s where p: "p = (c, s)" by (cases p)
        with Some IH obtain old recent where h: "allowed_times ?b lm es = old @ recent"
          "\<forall>t \<in> set old. t < s" "\<forall>t \<in> set recent. s \<le> t \<and> t < s + of_int w" "1 \<le> c" "int (length recent) = c"
          unfolding bucket_history_def option.case prod.case fst_conv snd_conv Some p by blast
        from opened(1) Some p have ge: "s + of_int w \<le> now" by simp
        obtain t where "t \<in> set recent" using h(4,5) by (cases recent) auto
        with h(3) have "s < s + of_int w" by force
        with h ge show ?thesis by force
      qed
      note old = this
      have "bucket_history ?b (Some (1, now)) (allowed_times ?b lm es @ [now])"
        unfolding bucket_history_def option.case prod.case
        by (rule exI [of _ "allowed_times ?b lm es"], rule exI [of _ "[now]"]) (use assms old in auto)
      with opened True show ?thesis by (auto simp: e limiter_after_snoc allowed_times_snoc)
    qed
  qed
qed

lemma filter_recent:
  fixes s :: rat
  assumes "\<forall>t \<in> set old. t < s" and "\<forall>t \<in> set recent. s \<le> t \<and> t < b"
  shows "filter (\<lambda>t. s \<le> t \<and> t < b) (old @ recent) = recent"
proof -
  have "filter (\<lambda>t. s \<le> t \<and> t < b) old = []" using assms(1) by (force simp: filter_empty_conv)
  moreover have "filter (\<lambda>t. s \<le> t \<and> t < b) recent = recent" using assms(2) by (simp add: filter_id_conv)
  ultimately show ?thesis by simp
qed

text \<open>
  A request is denied only when its budget is really spent: the limiter allowed exactly the
  limit's number of requests of the same key and limits in a window that began less than
  one window's length before the denial.
\<close>

theorem rate_limit_denial_is_due:
  assumes "rate_limiter_init m0 w0 ps = Inr lm" and "in_order (es @ [(now, key, m, w)])"
    and "fst (evaluate_with_policy (limiter_after lm es) now key m w) = Inr d" and "\<not> rl_allowed d"
  shows "\<exists>s. now - of_int w < s \<and> s \<le> now \<and>
    int (allowed_between (key, m, w) s (s + of_int w) lm es) = m"
proof -
  have pos: "0 < m" "0 < w" using assms(3) invalid_policy [of m w "limiter_after lm es" now key] by fastforce+
  have ord: "in_order es" "\<forall>x \<in> set es. fst x \<le> now" using assms(2) by (simp_all add: in_order_snoc)
  from pos show ?thesis
  proof (cases rule: evaluation_cases [of m w "limiter_after lm es" key now])
    case (denied c s)
    have "lm_buckets lm = (\<lambda>_. None)" using init_buckets [OF assms(1)] by blast
    note history = bucket_history_holds [OF this pos ord(1), of key, unfolded denied(1)]
    then obtain e where e: "e \<in> set es" "fst e = s" by blast
    from history obtain old recent where h: "allowed_times (key, m, w) lm es = old @ recent" "int (length recent) = c"
      "\<forall>t \<in> set old. t < s" "\<forall>t \<in> set recent. s \<le> t \<and> t < s + of_int w" "c \<le> m"
      unfolding bucket_history_def option.case prod.case fst_conv snd_conv by blast
    have "allowed_between (key, m, w) s (s + of_int w) lm es = length recent"
      by (simp only: allowed_between_times h(1) filter_recent [OF h(3,4)])
    then show ?thesis using denied h e ord(2) by (intro exI [of _ s]) auto
  qed (use assms(3,4) in auto)
qed

lemma rate_limit_denial_is_due_witness:
  "\<exists>s. 62 - 60 < s \<and> s \<le> 62 \<and> int (allowed_between (example_rate_key, 2, 60) s (s + 60) example_limiter
     (map (\<lambda>t. (t, (example_rate_key, 2, 60))) [0, 59, 60, 61])) = 2"
proof -
  let ?es = "map (\<lambda>t. (t :: rat, (example_rate_key, 2 :: int, 60 :: int))) [0, 59, 60, 61]"
  have ord: "in_order (?es @ [(62, example_rate_key, 2, 60)])" by (simp add: in_order_def)
  have "fst (evaluate_with_policy (limiter_after example_limiter ?es) 62 example_rate_key 2 60) =
      Inr \<lparr>rl_allowed = False, rl_remaining = 0, rl_retry_after = Some 58\<rparr>"
    by (simp add: evaluate_with_policy_def current_window_def example_limiter_def)
  from rate_limit_denial_is_due [OF example_limiter_init ord this] show ?thesis by simp
qed

text \<open>
  The hint of a denial. With \<open>r\<close> seconds of the window left, the limiter answers the whole
  seconds of \<open>r\<close>, at least one, and from then on the key is denied until those \<open>r\<close> seconds have
  passed and allowed afterwards, whatever the other keys do: a client that comes back
  after exactly \<open>Retry-After\<close> is denied again whenever \<open>r\<close> is above one and no whole
  number, one that waits a second more is always allowed.
\<close>

theorem rate_limit_retry_after:
  assumes "evaluate_with_policy lm now key m w = (Inr d, lm1)" and "\<not> rl_allowed d"
    and "lm_buckets lm2 (key, m, w) = lm_buckets lm1 (key, m, w)"
  shows "\<exists>r. 0 < r \<and> rl_retry_after d = Some (max 1 \<lfloor>r\<rfloor>) \<and>
    (\<forall>later. (\<exists>d'. fst (evaluate_with_policy lm2 later key m w) = Inr d' \<and> rl_allowed d' = (now + r \<le> later)))"
proof -
  have pos: "0 < m" "0 < w" using assms(1) invalid_policy [of m w lm now key] by fastforce+
  from pos show ?thesis
  proof (cases rule: evaluation_cases [of m w lm key now])
    case (denied c s)
    let ?r = "of_int w - (now - s)"
    have d: "rl_retry_after d = Some (max 1 \<lfloor>?r\<rfloor>)" and lm1: "lm1 = lm" using denied(4) assms(1) by auto
    have "\<exists>d'. fst (evaluate_with_policy lm2 later key m w) = Inr d' \<and> rl_allowed d' = (now + ?r \<le> later)" for later
      using denied(1,3) assms(3) pos unfolding lm1 evaluate_with_policy_def current_window_def
      by (cases "now + ?r \<le> later") auto
    then show ?thesis using denied(2) d by (intro exI [of _ ?r]) auto
  qed (use assms in auto)
qed

definition spent_limiter :: rate_limiter where
  "spent_limiter = example_limiter\<lparr>lm_buckets := [(example_rate_key, 2, 60) \<mapsto> (2, 1 / 2)]\<rparr>"

text \<open>Two and a half seconds are left, the hint says two, and a request two seconds later is denied.\<close>

lemma rate_limit_retry_after_witness:
  "(\<exists>d. fst (evaluate_with_policy spent_limiter 58 example_rate_key 2 60) = Inr d \<and> rl_retry_after d = Some 2) \<and>
   (\<exists>d'. fst (evaluate_with_policy spent_limiter (58 + 2) example_rate_key 2 60) = Inr d' \<and> \<not> rl_allowed d') \<and>
   (\<exists>d'. fst (evaluate_with_policy spent_limiter (58 + 3) example_rate_key 2 60) = Inr d' \<and> rl_allowed d')"
proof -
  let ?d = "\<lparr>rl_allowed = False, rl_remaining = 0, rl_retry_after = Some 2\<rparr>"
  have d: "evaluate_with_policy spent_limiter 58 example_rate_key 2 60 = (Inr ?d, spent_limiter)"
    by (simp add: evaluate_with_policy_def current_window_def spent_limiter_def) linarith
  then obtain r where r: "0 < r" "Some 2 = Some (max 1 \<lfloor>r\<rfloor>)"
    "\<And>later. \<exists>d'. fst (evaluate_with_policy spent_limiter later example_rate_key 2 60) = Inr d' \<and>
       rl_allowed d' = (58 + r \<le> later)"
    using rate_limit_retry_after [of spent_limiter 58 example_rate_key 2 60 ?d spent_limiter spent_limiter] by auto
  have "fst (evaluate_with_policy spent_limiter (58 + 2) example_rate_key 2 60) =
      Inr \<lparr>rl_allowed = False, rl_remaining = 0, rl_retry_after = Some 1\<rparr>"
    by (simp add: evaluate_with_policy_def current_window_def spent_limiter_def)
  moreover have "r \<le> 3" using r(2) by (simp add: max_def split: if_splits) linarith
  ultimately show ?thesis using d r(3) [of "58 + 3"] by auto
qed

subsection \<open>Policies\<close>

lemma find_sorted:
  assumes "sorted (map f xs)" and "find P xs = Some x"
  shows "x \<in> set xs \<and> P x \<and> (\<forall>y \<in> set xs. P y \<longrightarrow> f x \<le> f y)"
  using assms
proof (induction xs)
  case (Cons a xs)
  then show ?case by (cases "P a") auto
qed simp

text \<open>
  The most specific policy wins. A limiter applies to a path the policy of a matching prefix of
  greatest length, and the global limits exactly when no prefix matches.
\<close>

theorem longest_prefix_wins:
  assumes "rate_limiter_init m w policies = Inr lm"
  shows "if \<exists>p \<in> set policies. starts_with route (fst p)
    then \<exists>(prefix, policy) \<in> set policies. starts_with route prefix \<and>
      (\<forall>p \<in> set policies. starts_with route (fst p) \<longrightarrow> length (fst p) \<le> length prefix) \<and>
      resolve_policy lm route = (rp_max_requests policy, rp_window_seconds policy)
    else resolve_policy lm route = (m, w)"
proof -
  let ?f = "\<lambda>item. - int (length (fst item))"
  from assms have lm: "lm_route_policies lm = sort_key ?f policies" "lm_max_requests lm = m" "lm_window_seconds lm = w"
    by (auto simp: rate_limiter_init_def split: if_splits)
  have match: "route_matches route p = starts_with route p" for p
    by (auto simp: route_matches_def starts_with_iff)
  show ?thesis
  proof (cases "find (\<lambda>item. route_matches route (fst item)) (lm_route_policies lm)")
    case None
    then have "\<not> (\<exists>p \<in> set policies. starts_with route (fst p))" by (force simp: find_None_iff lm match)
    with None show ?thesis by (simp add: resolve_policy_def lm)
  next
    case (Some x)
    obtain prefix policy where x: "x = (prefix, policy)" by (cases x)
    have "sorted (map ?f (lm_route_policies lm))" unfolding lm by simp
    from find_sorted [OF this Some] have x_in: "(prefix, policy) \<in> set policies" and m: "starts_with route prefix"
      and long: "\<forall>p \<in> set policies. starts_with route (fst p) \<longrightarrow> length (fst p) \<le> length prefix"
      by (simp_all add: lm match x)
    have res: "resolve_policy lm route = (rp_max_requests policy, rp_window_seconds policy)"
      using Some x by (simp add: resolve_policy_def)
    have ex: "\<exists>p \<in> set policies. starts_with route (fst p)" using x_in m by force
    show ?thesis unfolding if_P [OF ex] by (rule bexI [OF _ x_in]) (use m long res in simp)
  qed
qed

lemma longest_prefix_wins_witness:
  "if \<exists>p \<in> set default_route_policies. starts_with ''/v1/webhooks/1'' (fst p)
    then \<exists>(prefix, policy) \<in> set default_route_policies. starts_with ''/v1/webhooks/1'' prefix \<and>
      (\<forall>p \<in> set default_route_policies. starts_with ''/v1/webhooks/1'' (fst p) \<longrightarrow> length (fst p) \<le> length prefix) \<and>
      resolve_policy example_limiter ''/v1/webhooks/1'' = (rp_max_requests policy, rp_window_seconds policy)
    else resolve_policy example_limiter ''/v1/webhooks/1'' = (100, 60)"
  by (rule longest_prefix_wins [OF example_limiter_init])

lemma evaluation_depends:
  "lm_buckets lm (key, m, w) = lm_buckets lm' (key, m, w) \<Longrightarrow>
     fst (evaluate_with_policy lm now key m w) = fst (evaluate_with_policy lm' now key m w)"
  by (simp add: evaluate_with_policy_def Let_def split: prod.split)

lemma evaluation_frame:
  "lm_route_policies (snd (evaluate_with_policy lm now key m w)) = lm_route_policies lm"
  "lm_max_requests (snd (evaluate_with_policy lm now key m w)) = lm_max_requests lm"
  "lm_window_seconds (snd (evaluate_with_policy lm now key m w)) = lm_window_seconds lm"
  by (simp_all add: evaluate_with_policy_def Let_def split: prod.split)

lemma limit_request_frame [simp]:
  "lm_route_policies (snd (limit_request lm t s r)) = lm_route_policies lm"
  "lm_max_requests (snd (limit_request lm t s r)) = lm_max_requests lm"
  "lm_window_seconds (snd (limit_request lm t s r)) = lm_window_seconds lm"
  by (simp_all add: limit_request_def evaluation_frame split: sum.split prod.split)

lemma limit_request_other:
  "key \<noteq> request_key r \<Longrightarrow> lm_buckets (snd (limit_request lm t s r)) (key, m, w) = lm_buckets lm (key, m, w)"
  by (simp add: limit_request_def other_bucket split: sum.split prod.split)

text \<open>
  The budget belongs to the whole path and to one principal, not to the prefix a policy names.
  A request to another path, or of another tenant or principal outside the onboarding routes,
  never changes the answer to a request, not even when both paths match the same policy; so a
  client of \<open>/v1/webhooks\<close> has the ten requests anew for every id below it.
\<close>

theorem rate_limit_budget_per_path:
  assumes "hr_path r1 \<noteq> hr_path r2 \<or>
    (classify_route (hr_path r2) \<noteq> ''onboarding'' \<and>
      (request_tenant r1 \<noteq> request_tenant r2 \<or>
       (hr_principal r1 = Some p1 \<and> hr_principal r2 = Some p2 \<and> pr_subject_id p1 \<noteq> pr_subject_id p2)))"
  shows "fst (limit_request (snd (limit_request lm t1 s r1)) t2 s r2) = fst (limit_request lm t2 s r2)"
proof -
  have key: "request_key r2 \<noteq> request_key r1" using assms by (auto simp: request_key_def split: option.splits)
  let ?lm = "snd (limit_request lm t1 s r1)"
  have res: "resolve_policy ?lm x = resolve_policy lm x" for x by (simp add: resolve_policy_def split: option.split)
  have base: "base_policy ?lm s (hr_path r2) = base_policy lm s (hr_path r2)"
    by (simp only: base_policy_def res)
  show ?thesis unfolding limit_request_def [of ?lm] limit_request_def [of lm t2] base
    using limit_request_other [OF key] by (auto split: sum.split intro: evaluation_depends)
qed

definition example_request :: "string \<Rightarrow> http_request" where
  "example_request path = \<lparr>hr_path = path, hr_tenant_id = Some ''acme'',
     hr_principal = Some \<lparr>pr_subject_id = ''bob'', pr_is_machine = True, pr_key_id = Some ''k1''\<rparr>,
     hr_plan = Some ''free'', hr_client_ip_hash = ''h''\<rparr>"

lemma rate_limit_budget_per_path_witness:
  "fst (limit_request (snd (limit_request example_limiter 0 5 (example_request ''/v1/webhooks/1''))) 0 5
     (example_request ''/v1/webhooks/2'')) =
   fst (limit_request example_limiter 0 5 (example_request ''/v1/webhooks/2''))"
  by (rule rate_limit_budget_per_path) (simp add: example_request_def)

end
