(* ===== verification/Idempotency.thy ===== *)
theory Idempotency
  imports Prelude
begin

section \<open>HTTP idempotency\<close>

text \<open>
  \<open>backend/services/http_idempotency_authority.py\<close> and
  \<open>repositories/http_idempotency_repository.py\<close>; the middleware is in \<open>IdempotencyFlow\<close>. A keyed request claims a receipt, executes, and completes
  the receipt with its response, or releases it; a later request with the same key replays
  the response. The contract both authorities keep, the durable one and the one in memory,
  is the locale \<open>idempotency_contract\<close>.

  Each claim, renewal, completion and release is one transaction (or one section under the
  lock) and is atomic here. Bytes are characters; SHA-256 and Fernet are parameters, what
  Fernet encrypts being the JSON value that is serialised; a Fernet text depends on the
  instant, which stands for the random vector drawn then. A uuid of a claim is its argument.
\<close>

subsection \<open>Receipts and decisions\<close>

record replay_response =
  rr_status_code :: int
  rr_headers :: "(string \<times> string) list"
  rr_body :: string

datatype idempotency_decision =
    Owner string
  | Replay replay_response
  | InFlight
  | PayloadMismatch

text \<open>What the two authorities share of a receipt: \<open>Claiming\<close> carries the claim's expiry.\<close>

datatype receipt_phase = Claiming time | Completed replay_response

record receipt =
  rc_fingerprint :: string
  rc_owner :: string
  rc_phase :: receipt_phase
  rc_expires_at :: time

text \<open>The operations; the instant is the authority's clock.\<close>

record 's idempotency_authority =
  ia_claim :: "'s \<Rightarrow> time \<Rightarrow> string \<Rightarrow> string \<Rightarrow> string \<Rightarrow> idempotency_decision result \<times> 's"
  ia_renew :: "'s \<Rightarrow> time \<Rightarrow> string \<Rightarrow> string \<Rightarrow> bool \<times> 's"
  ia_complete :: "'s \<Rightarrow> time \<Rightarrow> string \<Rightarrow> string \<Rightarrow> replay_response \<Rightarrow> bool \<times> 's"
  ia_release :: "'s \<Rightarrow> string \<Rightarrow> string \<Rightarrow> bool \<times> 's"

subsection \<open>The authority in memory\<close>

record memory_receipt =
  mr_request_fingerprint :: string
  mr_owner_token :: string
  mr_completed :: bool
  mr_claim_expires_at :: time
  mr_expires_at :: time
  mr_response :: "replay_response option"

type_synonym memory_store = "(string \<times> memory_receipt) list"

definition memory_claim ::
  "int \<Rightarrow> int \<Rightarrow> memory_store \<Rightarrow> time \<Rightarrow> string \<Rightarrow> string \<Rightarrow> string \<Rightarrow> idempotency_decision result \<times> memory_store" where
  "memory_claim claim_ttl receipt_ttl store now key fingerprint token =
     (let fresh = (Inr (Owner token), AList.update key
            \<lparr>mr_request_fingerprint = fingerprint, mr_owner_token = token, mr_completed = False,
             mr_claim_expires_at = now + seconds claim_ttl, mr_expires_at = now + seconds receipt_ttl,
             mr_response = None\<rparr> store)
      in case map_of store key of
           None \<Rightarrow> fresh
         | Some row \<Rightarrow>
             if mr_expires_at row \<le> now then fresh
             else if mr_request_fingerprint row \<noteq> fingerprint then (Inr PayloadMismatch, store)
             else (case (mr_completed row, mr_response row) of
                 (True, Some response) \<Rightarrow> (Inr (Replay response), store)
               | _ \<Rightarrow>
                   if mr_claim_expires_at row \<le> now
                   then (Inr (Owner token), AList.update key (row\<lparr>mr_owner_token := token,
                           mr_claim_expires_at := now + seconds claim_ttl,
                           mr_expires_at := now + seconds receipt_ttl\<rparr>) store)
                   else (Inr InFlight, store)))"

definition memory_held :: "memory_store \<Rightarrow> string \<Rightarrow> string \<Rightarrow> memory_receipt option" where
  "memory_held store key token =
     (case map_of store key of
        None \<Rightarrow> None
      | Some row \<Rightarrow> if mr_owner_token row \<noteq> token \<or> mr_completed row then None else Some row)"

definition memory_renew :: "int \<Rightarrow> memory_store \<Rightarrow> time \<Rightarrow> string \<Rightarrow> string \<Rightarrow> bool \<times> memory_store" where
  "memory_renew claim_ttl store now key token =
     (case memory_held store key token of
        None \<Rightarrow> (False, store)
      | Some row \<Rightarrow> (True, AList.update key (row\<lparr>mr_claim_expires_at := now + seconds claim_ttl\<rparr>) store))"

definition memory_complete ::
  "int \<Rightarrow> memory_store \<Rightarrow> time \<Rightarrow> string \<Rightarrow> string \<Rightarrow> replay_response \<Rightarrow> bool \<times> memory_store" where
  "memory_complete receipt_ttl store now key token response =
     (case memory_held store key token of
        None \<Rightarrow> (False, store)
      | Some row \<Rightarrow> (True, AList.update key (row\<lparr>mr_completed := True, mr_response := Some response,
           mr_expires_at := now + seconds receipt_ttl\<rparr>) store))"

definition memory_release :: "memory_store \<Rightarrow> string \<Rightarrow> string \<Rightarrow> bool \<times> memory_store" where
  "memory_release store key token =
     (case memory_held store key token of None \<Rightarrow> (False, store) | Some row \<Rightarrow> (True, AList.delete key store))"

definition memory_authority :: "int \<Rightarrow> int \<Rightarrow> memory_store idempotency_authority" where
  "memory_authority claim_ttl receipt_ttl =
     \<lparr>ia_claim = memory_claim claim_ttl receipt_ttl, ia_renew = memory_renew claim_ttl,
      ia_complete = memory_complete receipt_ttl, ia_release = memory_release\<rparr>"

subsection \<open>The durable repository\<close>

text \<open>
  \<open>HttpIdempotencyReceipt\<close> without the surrogate id and the time stamps. The table has a unique
  constraint on the operation key; the type of the encrypted texts is a parameter; \<open>on_conflict_do_nothing\<close> inserts when no row has the key.
\<close>

record 'c receipt_row =
  ir_operation_key :: string
  ir_request_fingerprint :: string
  ir_owner_token :: string
  ir_completed :: bool
  ir_claim_expires_at :: "time option"
  ir_response_ciphertext :: "'c option"
  ir_expires_at :: time

datatype 'c claim_decision = Acquired string | ReplayText 'c | RowInFlight | RowMismatch

definition update_row :: "'c receipt_row \<Rightarrow> 'c receipt_row list \<Rightarrow> 'c receipt_row list" where
  "update_row r rows = map (\<lambda>x. if ir_operation_key x = ir_operation_key r then r else x) rows"

definition row_for :: "string \<Rightarrow> 'c receipt_row list \<Rightarrow> 'c receipt_row option" where
  "row_for key rows = find (\<lambda>r. ir_operation_key r = key) rows"

definition repository_claim ::
  "('c \<Rightarrow> bool) \<Rightarrow> 'c receipt_row list \<Rightarrow> time \<Rightarrow> string \<Rightarrow> string \<Rightarrow> string \<Rightarrow> int \<Rightarrow> int \<Rightarrow> 'c claim_decision \<times> 'c receipt_row list" where
  "repository_claim is_empty rows now key fingerprint token claim_ttl receipt_ttl =
     (let claim_expires_at = now + seconds claim_ttl;
          expires_at = now + seconds receipt_ttl;
          rows = filter (\<lambda>r. \<not> ir_expires_at r \<le> now) rows;
          new = \<lparr>ir_operation_key = key, ir_request_fingerprint = fingerprint, ir_owner_token = token,
                 ir_completed = False, ir_claim_expires_at = Some claim_expires_at,
                 ir_response_ciphertext = None, ir_expires_at = expires_at\<rparr>
      in case row_for key rows of
           None \<Rightarrow> (Acquired token, rows @ [new])
         | Some row \<Rightarrow>
             if ir_expires_at row \<le> now then (Acquired token, update_row new rows)
             else if ir_request_fingerprint row \<noteq> fingerprint then (RowMismatch, rows)
             else if ir_completed row \<and> (case ir_response_ciphertext row of None \<Rightarrow> False | Some c \<Rightarrow> \<not> is_empty c)
             then (ReplayText (the (ir_response_ciphertext row)), rows)
             else if \<not> ir_completed row \<and>
                (case ir_claim_expires_at row of None \<Rightarrow> False | Some e \<Rightarrow> e \<le> now)
             then (Acquired token, update_row (row\<lparr>ir_owner_token := token,
                     ir_claim_expires_at := Some claim_expires_at, ir_expires_at := expires_at\<rparr>) rows)
             else (RowInFlight, rows))"

text \<open>The \<open>UPDATE\<close> and \<open>DELETE\<close> statements with their condition and row count.\<close>

definition held_by :: "string \<Rightarrow> string \<Rightarrow> 'c receipt_row \<Rightarrow> bool" where
  "held_by key token r \<longleftrightarrow> ir_operation_key r = key \<and> ir_owner_token r = token \<and> \<not> ir_completed r"

definition repository_renew :: "'c receipt_row list \<Rightarrow> string \<Rightarrow> string \<Rightarrow> time \<Rightarrow> int \<Rightarrow> bool \<times> 'c receipt_row list" where
  "repository_renew rows key token now claim_ttl =
     (length (filter (held_by key token) rows) = 1,
      map (\<lambda>r. if held_by key token r then r\<lparr>ir_claim_expires_at := Some (now + seconds claim_ttl)\<rparr> else r) rows)"

definition repository_complete ::
  "'c receipt_row list \<Rightarrow> string \<Rightarrow> string \<Rightarrow> 'c \<Rightarrow> time \<Rightarrow> int \<Rightarrow> bool \<times> 'c receipt_row list" where
  "repository_complete rows key token ciphertext now receipt_ttl =
     (length (filter (held_by key token) rows) = 1,
      map (\<lambda>r. if held_by key token r
          then r\<lparr>ir_completed := True, ir_claim_expires_at := None, ir_response_ciphertext := Some ciphertext,
                 ir_expires_at := now + seconds receipt_ttl\<rparr>
          else r) rows)"

definition repository_release :: "'c receipt_row list \<Rightarrow> string \<Rightarrow> string \<Rightarrow> bool \<times> 'c receipt_row list" where
  "repository_release rows key token =
     (length (filter (held_by key token) rows) = 1, filter (\<lambda>r. \<not> held_by key token r) rows)"

subsection \<open>Stored responses\<close>

text \<open>
  \<open>base64.b64encode\<close> and its inverse; the decoder answers None on texts the encoder never writes.
\<close>

definition b64_alphabet :: string where
  "b64_alphabet = ''ABCDEFGHIJKLMNOPQRSTUVWXYZabcdefghijklmnopqrstuvwxyz0123456789+/''"

definition b64_char :: "nat \<Rightarrow> char" where
  "b64_char n = b64_alphabet ! n"

definition b64_value :: "char \<Rightarrow> nat option" where
  "b64_value c = map_of (zip b64_alphabet [0..<64]) c"

fun b64_encode :: "string \<Rightarrow> string" where
  "b64_encode [] = []"
| "b64_encode [a] =
     [b64_char (of_char a div 4), b64_char (of_char a mod 4 * 16), CHR ''='', CHR ''='']"
| "b64_encode [a, b] =
     [b64_char (of_char a div 4), b64_char (of_char a mod 4 * 16 + of_char b div 16),
      b64_char (of_char b mod 16 * 4), CHR ''='']"
| "b64_encode (a # b # c # s) =
     [b64_char (of_char a div 4), b64_char (of_char a mod 4 * 16 + of_char b div 16),
      b64_char (of_char b mod 16 * 4 + of_char c div 64), b64_char (of_char c mod 64)] @ b64_encode s"

fun b64_decode :: "string \<Rightarrow> string option" where
  "b64_decode [] = Some []"
| "b64_decode (p # q # r # t # s) =
     (case (b64_value p, b64_value q, b64_value r, b64_value t) of
        (Some w, Some x, Some y, Some z) \<Rightarrow>
          map_option (\<lambda>rest. char_of (w * 4 + x div 16) # char_of (x mod 16 * 16 + y div 4) #
            char_of (y mod 4 * 64 + z) # rest) (b64_decode s)
      | (Some w, Some x, Some y, None) \<Rightarrow>
          if t = CHR ''='' \<and> s = [] then Some [char_of (w * 4 + x div 16), char_of (x mod 16 * 16 + y div 4)] else None
      | (Some w, Some x, None, None) \<Rightarrow>
          if r = CHR ''='' \<and> t = CHR ''='' \<and> s = [] then Some [char_of (w * 4 + x div 16)] else None
      | _ \<Rightarrow> None)"
| "b64_decode _ = None"

lemma b64_length: "length b64_alphabet = 64"
  by (simp add: b64_alphabet_def)

lemma b64_distinct: "distinct b64_alphabet"
  by (simp add: b64_alphabet_def)

lemma b64_value_char [simp]: "n < 64 \<Longrightarrow> b64_value (b64_char n) = Some n"
  using map_of_zip_nth [of b64_alphabet "[0..<64]" n] by (simp add: b64_value_def b64_char_def b64_length b64_distinct)

lemma b64_pad [simp]: "b64_value CHR ''='' = None"
  by (simp add: b64_value_def b64_alphabet_def upt_rec)

lemma packed:
  fixes n x y :: nat
  assumes "y < n"
  shows "(x * n + y) div n = x" and "(x * n + y) mod n = y"
  using assms by simp_all

lemma b64_small:
  fixes b c :: nat
  assumes "b < 256" and "c < 256"
  shows "b div 16 < 16" "c div 64 < 4"
  using assms by (simp_all add: div_less_iff_less_mult)

lemma below_packed:
  fixes x y k n :: nat
  assumes "x < k" and "y < n"
  shows "x * n + y < k * n"
proof -
  have "x * n + y < Suc x * n" using assms(2) by simp
  also have "\<dots> \<le> k * n" using assms(1) by (simp only: mult_le_mono1 Suc_leI)
  finally show ?thesis .
qed

lemma b64_parts:
  fixes a b c :: nat
  assumes "a < 256" and "b < 256" and "c < 256"
  shows "a div 4 < 64" "a mod 4 * 16 + b div 16 < 64" "b mod 16 * 4 + c div 64 < 64" "c mod 64 < 64"
    "a mod 4 * 16 < 64" "b mod 16 * 4 < 64"
    "a div 4 * 4 + (a mod 4 * 16 + b div 16) div 16 = a"
    "a div 4 * 4 + (a mod 4 * 16) div 16 = a"
    "(a mod 4 * 16 + b div 16) mod 16 * 16 + (b mod 16 * 4 + c div 64) div 4 = b"
    "(a mod 4 * 16 + b div 16) mod 16 * 16 + (b mod 16 * 4) div 4 = b"
    "(b mod 16 * 4 + c div 64) mod 4 * 64 + c mod 64 = c"
proof -
  have s: "b div 16 < 16" "c div 64 < 4" by (rule b64_small [OF assms(2,3)])+
  show "a div 4 < 64" using assms(1) by (simp add: div_less_iff_less_mult)
  show "a mod 4 * 16 + b div 16 < 64" using below_packed [of "a mod 4" 4 "b div 16" 16] s by simp
  show "b mod 16 * 4 + c div 64 < 64" using below_packed [of "b mod 16" 16 "c div 64" 4] s by simp
  show "c mod 64 < 64" by simp
  show "a mod 4 * 16 < 64" using below_packed [of "a mod 4" 4 0 16] by simp
  show "b mod 16 * 4 < 64" using below_packed [of "b mod 16" 16 0 4] by simp
  show "a div 4 * 4 + (a mod 4 * 16 + b div 16) div 16 = a" by (simp only: packed [OF s(1)] div_mult_mod_eq)
  show "a div 4 * 4 + (a mod 4 * 16) div 16 = a"
    by simp
  show "(a mod 4 * 16 + b div 16) mod 16 * 16 + (b mod 16 * 4 + c div 64) div 4 = b"
    by (simp only: packed [OF s(1)] packed [OF s(2)] div_mult_mod_eq)
  show "(a mod 4 * 16 + b div 16) mod 16 * 16 + (b mod 16 * 4) div 4 = b"
    by (simp only: packed [OF s(1)]) simp
  show "(b mod 16 * 4 + c div 64) mod 4 * 64 + c mod 64 = c" by (simp only: packed [OF s(2)] div_mult_mod_eq)
qed

lemma b64_roundtrip [simp]: "b64_decode (b64_encode s) = Some s"
proof (induction s rule: b64_encode.induct)
  case (4 a b c s)
  then show ?case
    using b64_parts [of "of_char a" "of_char b" "of_char c"] by simp
next
  case (3 a b)
  then show ?case using b64_parts [of "of_char a" "of_char b" 0] by simp
next
  case (2 a)
  then show ?case using b64_parts [of "of_char a" 0 0] by simp
qed simp

record 'c fernet =
  fernet_encrypt :: "time \<Rightarrow> json \<Rightarrow> 'c"
  fernet_decrypt :: "'c \<Rightarrow> json option"
  fernet_empty :: "'c \<Rightarrow> bool"

text \<open>What the code relies on: a text Fernet wrote is not empty and decrypts to what was encrypted.\<close>

definition fernet_ok :: "'c fernet \<Rightarrow> bool" where
  "fernet_ok F \<longleftrightarrow> (\<forall>now v. \<not> fernet_empty F (fernet_encrypt F now v) \<and> fernet_decrypt F (fernet_encrypt F now v) = Some v)"

definition encrypt_response :: "'c fernet \<Rightarrow> time \<Rightarrow> replay_response \<Rightarrow> 'c" where
  "encrypt_response F now response =
     fernet_encrypt F now (JObj
       [(''body'', JStr (b64_encode (rr_body response))),
        (''headers'', JArr (map (\<lambda>(name, value). JArr [JStr (b64_encode name), JStr (b64_encode value)])
           (rr_headers response))),
        (''status_code'', JInt (rr_status_code response))])"

fun decoded_header :: "json \<Rightarrow> (string \<times> string) option" where
  "decoded_header (JArr [JStr name, JStr value]) =
     (case (b64_decode name, b64_decode value) of (Some n, Some v) \<Rightarrow> Some (n, v) | _ \<Rightarrow> None)"
| "decoded_header _ = None"

fun decoded_headers :: "json list \<Rightarrow> (string \<times> string) list option" where
  "decoded_headers [] = Some []"
| "decoded_headers (h # hs) =
     (case (decoded_header h, decoded_headers hs) of (Some p, Some ps) \<Rightarrow> Some (p # ps) | _ \<Rightarrow> None)"

text \<open>Any exception of the last three statements is one \<open>ValueError\<close> here.\<close>

definition decrypt_response :: "'c fernet \<Rightarrow> 'c \<Rightarrow> replay_response result" where
  "decrypt_response F ciphertext =
     (case fernet_decrypt F ciphertext of
        Some (JObj payload) \<Rightarrow>
          (case (map_of payload ''status_code'', map_of payload ''headers'', map_of payload ''body'') of
             (Some (JInt status), Some (JArr headers), Some (JStr body)) \<Rightarrow>
               (case (decoded_headers headers, b64_decode body) of
                  (Some hs, Some bytes) \<Rightarrow>
                    Inr \<lparr>rr_status_code = status, rr_headers = hs, rr_body = bytes\<rparr>
                | _ \<Rightarrow> Inl (ValueError ''invalid stored response''))
           | _ \<Rightarrow> Inl (ValueError ''invalid stored response''))
      | _ \<Rightarrow> Inl (ValueError ''invalid durable HTTP idempotency response ciphertext''))"

lemma decoded_headers_encoded:
  "decoded_headers (map (\<lambda>(name, value). JArr [JStr (b64_encode name), JStr (b64_encode value)]) hs) = Some hs"
  by (induction hs) auto

lemma response_roundtrip:
  "fernet_ok F \<Longrightarrow> decrypt_response F (encrypt_response F now response) = Inr response"
  by (simp add: fernet_ok_def decrypt_response_def encrypt_response_def decoded_headers_encoded)

subsection \<open>The durable authority\<close>

definition durable_claim ::
  "'c fernet \<Rightarrow> int \<Rightarrow> int \<Rightarrow> 'c receipt_row list \<Rightarrow> time \<Rightarrow> string \<Rightarrow> string \<Rightarrow> string \<Rightarrow>
     idempotency_decision result \<times> 'c receipt_row list" where
  "durable_claim F claim_ttl receipt_ttl rows now key fingerprint token =
     (case repository_claim (fernet_empty F) rows now key fingerprint token claim_ttl receipt_ttl of
        (Acquired t, rows') \<Rightarrow> (Inr (Owner token), rows')
      | (ReplayText ciphertext, rows') \<Rightarrow>
          (bind_result (decrypt_response F ciphertext) (\<lambda>response. Inr (Replay response)), rows')
      | (RowMismatch, rows') \<Rightarrow> (Inr PayloadMismatch, rows')
      | (RowInFlight, rows') \<Rightarrow> (Inr InFlight, rows'))"

definition durable_renew :: "int \<Rightarrow> 'c receipt_row list \<Rightarrow> time \<Rightarrow> string \<Rightarrow> string \<Rightarrow> bool \<times> 'c receipt_row list" where
  "durable_renew claim_ttl rows now key token = repository_renew rows key token now claim_ttl"

definition durable_complete ::
  "'c fernet \<Rightarrow> int \<Rightarrow> 'c receipt_row list \<Rightarrow> time \<Rightarrow> string \<Rightarrow> string \<Rightarrow> replay_response \<Rightarrow> bool \<times> 'c receipt_row list" where
  "durable_complete F receipt_ttl rows now key token response =
     repository_complete rows key token (encrypt_response F now response) now receipt_ttl"

definition durable_release :: "'c receipt_row list \<Rightarrow> string \<Rightarrow> string \<Rightarrow> bool \<times> 'c receipt_row list" where
  "durable_release rows key token = repository_release rows key token"

definition durable_authority :: "'c fernet \<Rightarrow> int \<Rightarrow> int \<Rightarrow> 'c receipt_row list idempotency_authority" where
  "durable_authority F claim_ttl receipt_ttl =
     \<lparr>ia_claim = durable_claim F claim_ttl receipt_ttl, ia_renew = durable_renew claim_ttl,
      ia_complete = durable_complete F receipt_ttl, ia_release = durable_release\<rparr>"

subsection \<open>The contract\<close>

datatype idempotency_event =
    ClaimEvent time string string string
  | RenewEvent time string string
  | CompleteEvent time string string replay_response
  | ReleaseEvent time string string

fun event_time :: "idempotency_event \<Rightarrow> time" where
  "event_time (ClaimEvent now _ _ _) = now"
| "event_time (RenewEvent now _ _) = now"
| "event_time (CompleteEvent now _ _ _) = now"
| "event_time (ReleaseEvent now _ _) = now"

fun run_event :: "'s idempotency_authority \<Rightarrow> idempotency_event \<Rightarrow> 's \<Rightarrow> 's" where
  "run_event A (ClaimEvent now k f t) s = snd (ia_claim A s now k f t)"
| "run_event A (RenewEvent now k t) s = snd (ia_renew A s now k t)"
| "run_event A (CompleteEvent now k t response) s = snd (ia_complete A s now k t response)"
| "run_event A (ReleaseEvent now k t) s = snd (ia_release A s k t)"

definition run_events :: "'s idempotency_authority \<Rightarrow> idempotency_event list \<Rightarrow> 's \<Rightarrow> 's" where
  "run_events A es s = fold (run_event A) es s"

text \<open>An event in which the holder \<open>t\<close> of \<open>k\<close> itself renews, completes or releases.\<close>

fun event_of_holder :: "string \<Rightarrow> string \<Rightarrow> idempotency_event \<Rightarrow> bool" where
  "event_of_holder k t (ClaimEvent _ _ _ _) = False"
| "event_of_holder k t (RenewEvent _ k' t') = (k' = k \<and> t' = t)"
| "event_of_holder k t (CompleteEvent _ k' t' _) = (k' = k \<and> t' = t)"
| "event_of_holder k t (ReleaseEvent _ k' t') = (k' = k \<and> t' = t)"

fun claiming_of :: "receipt option \<Rightarrow> string \<Rightarrow> receipt option" where
  "claiming_of None t = None"
| "claiming_of (Some r) t =
     (case rc_phase r of Claiming e \<Rightarrow> if rc_owner r = t then Some r else None | Completed _ \<Rightarrow> None)"

locale idempotency_contract =
  fixes A :: "'s idempotency_authority"
    and inv :: "'s \<Rightarrow> bool"
    and view :: "'s \<Rightarrow> string \<Rightarrow> receipt option"
    and claim_ttl :: int
    and receipt_ttl :: int
  assumes claim_inv: "inv s \<Longrightarrow> inv (snd (ia_claim A s now k f t))"
    and renew_inv: "inv s \<Longrightarrow> inv (snd (ia_renew A s now k t))"
    and complete_inv: "inv s \<Longrightarrow> inv (snd (ia_complete A s now k t response))"
    and release_inv: "inv s \<Longrightarrow> inv (snd (ia_release A s k t))"
    and claim_free: "inv s \<Longrightarrow> (\<forall>r. view s k = Some r \<longrightarrow> rc_expires_at r \<le> now) \<Longrightarrow>
      fst (ia_claim A s now k f t) = Inr (Owner t) \<and>
      view (snd (ia_claim A s now k f t)) k =
        Some \<lparr>rc_fingerprint = f, rc_owner = t, rc_phase = Claiming (now + seconds claim_ttl),
              rc_expires_at = now + seconds receipt_ttl\<rparr>"
    and claim_mismatch: "inv s \<Longrightarrow> view s k = Some r \<Longrightarrow> now < rc_expires_at r \<Longrightarrow> rc_fingerprint r \<noteq> f \<Longrightarrow>
      fst (ia_claim A s now k f t) = Inr PayloadMismatch \<and> view (snd (ia_claim A s now k f t)) k = Some r"
    and claim_replay: "inv s \<Longrightarrow> view s k = Some r \<Longrightarrow> now < rc_expires_at r \<Longrightarrow> rc_fingerprint r = f \<Longrightarrow>
      rc_phase r = Completed response \<Longrightarrow>
      fst (ia_claim A s now k f t) = Inr (Replay response) \<and> view (snd (ia_claim A s now k f t)) k = Some r"
    and claim_in_flight: "inv s \<Longrightarrow> view s k = Some r \<Longrightarrow> now < rc_expires_at r \<Longrightarrow> rc_fingerprint r = f \<Longrightarrow>
      rc_phase r = Claiming e \<Longrightarrow> now < e \<Longrightarrow>
      fst (ia_claim A s now k f t) = Inr InFlight \<and> view (snd (ia_claim A s now k f t)) k = Some r"
    and claim_takeover: "inv s \<Longrightarrow> view s k = Some r \<Longrightarrow> now < rc_expires_at r \<Longrightarrow> rc_fingerprint r = f \<Longrightarrow>
      rc_phase r = Claiming e \<Longrightarrow> e \<le> now \<Longrightarrow>
      fst (ia_claim A s now k f t) = Inr (Owner t) \<and>
      view (snd (ia_claim A s now k f t)) k =
        Some (r\<lparr>rc_owner := t, rc_phase := Claiming (now + seconds claim_ttl),
                rc_expires_at := now + seconds receipt_ttl\<rparr>)"
    and claim_frame: "inv s \<Longrightarrow> k' \<noteq> k \<Longrightarrow> view s k' = Some r \<Longrightarrow> now < rc_expires_at r \<Longrightarrow>
      view (snd (ia_claim A s now k f t)) k' = Some r"
    and claim_makes_nothing_else: "inv s \<Longrightarrow> k' \<noteq> k \<Longrightarrow>
      view (snd (ia_claim A s now k f t)) k' = Some r \<Longrightarrow> view s k' = Some r"
    and renew_holder: "inv s \<Longrightarrow> claiming_of (view s k) t = Some r \<Longrightarrow> fst (ia_renew A s now k t) \<and>
      view (snd (ia_renew A s now k t)) k = Some (r\<lparr>rc_phase := Claiming (now + seconds claim_ttl)\<rparr>)"
    and renew_refused: "inv s \<Longrightarrow> claiming_of (view s k) t = None \<Longrightarrow>
      \<not> fst (ia_renew A s now k t) \<and> view (snd (ia_renew A s now k t)) = view s"
    and renew_frame: "inv s \<Longrightarrow> k' \<noteq> k \<Longrightarrow> view (snd (ia_renew A s now k t)) k' = view s k'"
    and complete_holder: "inv s \<Longrightarrow> claiming_of (view s k) t = Some r \<Longrightarrow> fst (ia_complete A s now k t response) \<and>
      view (snd (ia_complete A s now k t response)) k =
        Some (r\<lparr>rc_phase := Completed response, rc_expires_at := now + seconds receipt_ttl\<rparr>)"
    and complete_refused: "inv s \<Longrightarrow> claiming_of (view s k) t = None \<Longrightarrow>
      \<not> fst (ia_complete A s now k t response) \<and> view (snd (ia_complete A s now k t response)) = view s"
    and complete_frame: "inv s \<Longrightarrow> k' \<noteq> k \<Longrightarrow> view (snd (ia_complete A s now k t response)) k' = view s k'"
    and release_holder: "inv s \<Longrightarrow> claiming_of (view s k) t = Some r \<Longrightarrow>
      fst (ia_release A s k t) \<and> view (snd (ia_release A s k t)) k = None"
    and release_refused: "inv s \<Longrightarrow> claiming_of (view s k) t = None \<Longrightarrow>
      \<not> fst (ia_release A s k t) \<and> view (snd (ia_release A s k t)) = view s"
    and release_frame: "inv s \<Longrightarrow> k' \<noteq> k \<Longrightarrow> view (snd (ia_release A s k t)) k' = view s k'"
begin

lemma event_inv: "inv s \<Longrightarrow> inv (run_event A e s)"
  by (cases e) (simp_all add: claim_inv renew_inv complete_inv release_inv)

lemma events_inv: "inv s \<Longrightarrow> inv (run_events A es s)"
  unfolding run_events_def by (induction es arbitrary: s) (simp_all add: event_inv)

text \<open>A claim of a live receipt leaves it, unless its claim has lapsed.\<close>

lemma claim_keeps:
  assumes "inv s" and "view s k = Some r" and "now < rc_expires_at r"
    and "\<forall>e. rc_phase r = Claiming e \<longrightarrow> now < e"
  shows "view (snd (ia_claim A s now k' f t)) k = Some r"
proof (cases "k' = k")
  case False
  then show ?thesis using claim_frame [OF assms(1) _ assms(2,3)] by simp
next
  case True
  show ?thesis
  proof (cases "rc_fingerprint r = f")
    case False
    then show ?thesis using claim_mismatch [OF assms(1-3)] True by simp
  next
    case fp: True
    show ?thesis
    proof (cases "rc_phase r")
      case (Claiming e)
      then show ?thesis using claim_in_flight [OF assms(1-3) fp Claiming] assms(4) True by simp
    next
      case (Completed response)
      then show ?thesis using claim_replay [OF assms(1-3) fp Completed] True by simp
    qed
  qed
qed

lemma event_keeps:
  assumes "inv s" and "view s k = Some r" and "event_time e < rc_expires_at r"
    and "\<forall>c. rc_phase r = Claiming c \<longrightarrow> event_time e < c \<and> \<not> event_of_holder k (rc_owner r) e"
  shows "view (run_event A e s) k = Some r"
proof -
  have refused: "claiming_of (view s k) t = None" if "\<forall>c. rc_phase r = Claiming c \<longrightarrow> t \<noteq> rc_owner r" for t
    using that assms(2) by (cases "rc_phase r") auto
  show ?thesis
  proof (cases e)
    case (ClaimEvent now k' f t)
    then show ?thesis using claim_keeps [OF assms(1,2)] assms(3,4) by simp
  next
    case (RenewEvent now k' t)
    show ?thesis
    proof (cases "k' = k")
      case True
      have "claiming_of (view s k) t = None" by (rule refused) (use assms(4) RenewEvent True in auto)
      from renew_refused [OF assms(1) this] show ?thesis using RenewEvent True assms(2) by simp
    next
      case False
      then show ?thesis using renew_frame [OF assms(1)] RenewEvent assms(2) by simp
    qed
  next
    case (CompleteEvent now k' t response)
    show ?thesis
    proof (cases "k' = k")
      case True
      have "claiming_of (view s k) t = None" by (rule refused) (use assms(4) CompleteEvent True in auto)
      from complete_refused [OF assms(1) this] show ?thesis using CompleteEvent True assms(2) by simp
    next
      case False
      then show ?thesis using complete_frame [OF assms(1)] CompleteEvent assms(2) by simp
    qed
  next
    case (ReleaseEvent now k' t)
    show ?thesis
    proof (cases "k' = k")
      case True
      have "claiming_of (view s k) t = None" by (rule refused) (use assms(4) ReleaseEvent True in auto)
      from release_refused [OF assms(1) this] show ?thesis using ReleaseEvent True assms(2) by simp
    next
      case False
      then show ?thesis using release_frame [OF assms(1)] ReleaseEvent assms(2) by simp
    qed
  qed
qed

lemma events_keep:
  assumes "inv s" and "view s k = Some r" and "\<forall>e \<in> set es. event_time e < rc_expires_at r"
    and "\<forall>e \<in> set es. \<forall>c. rc_phase r = Claiming c \<longrightarrow> event_time e < c \<and> \<not> event_of_holder k (rc_owner r) e"
  shows "view (run_events A es s) k = Some r"
  using assms
proof (induction es arbitrary: s)
  case (Cons e es)
  have "view (run_event A e s) k = Some r" by (rule event_keeps [OF Cons.prems(1,2)]) (use Cons.prems in auto)
  from Cons.IH [OF event_inv [OF Cons.prems(1)] this] Cons.prems show ?case by (simp add: run_events_def)
qed (simp add: run_events_def)

lemma claim_owner:
  assumes "inv s" and "fst (ia_claim A s now k f t) = Inr (Owner t')"
  shows "\<exists>r. view (snd (ia_claim A s now k f t)) k = Some r \<and> rc_owner r = t \<and> t' = t \<and> rc_fingerprint r = f \<and>
    rc_phase r = Claiming (now + seconds claim_ttl) \<and> rc_expires_at r = now + seconds receipt_ttl"
proof (cases "\<exists>r. view s k = Some r \<and> now < rc_expires_at r")
  case False
  then have "\<forall>r. view s k = Some r \<longrightarrow> rc_expires_at r \<le> now" by (simp add: not_less)
  from claim_free [OF assms(1) this] assms(2) show ?thesis by simp
next
  case True
  then obtain r where r: "view s k = Some r" "now < rc_expires_at r" by blast
  consider "rc_fingerprint r \<noteq> f" | response where "rc_fingerprint r = f" "rc_phase r = Completed response"
    | e where "rc_fingerprint r = f" "rc_phase r = Claiming e" "now < e"
    | e where "rc_fingerprint r = f" "rc_phase r = Claiming e" "e \<le> now"
    by (metis not_less receipt_phase.exhaust)
  then show ?thesis
  proof cases
    case 1
    then show ?thesis using claim_mismatch [OF assms(1) r] assms(2) by simp
  next
    case 2
    then show ?thesis using claim_replay [OF assms(1) r] assms(2) by simp
  next
    case 3
    then show ?thesis using claim_in_flight [OF assms(1) r] assms(2) by simp
  next
    case 4
    then show ?thesis using claim_takeover [OF assms(1) r] assms(2) by simp
  qed
qed

end

subsection \<open>The authority in memory keeps the contract\<close>

definition memory_phase :: "memory_receipt \<Rightarrow> receipt_phase" where
  "memory_phase row =
     (case mr_response row of Some response \<Rightarrow> Completed response | None \<Rightarrow> Claiming (mr_claim_expires_at row))"

definition memory_receipt_view :: "memory_receipt \<Rightarrow> receipt" where
  "memory_receipt_view row =
     \<lparr>rc_fingerprint = mr_request_fingerprint row, rc_owner = mr_owner_token row, rc_phase = memory_phase row,
      rc_expires_at = mr_expires_at row\<rparr>"

definition memory_view :: "memory_store \<Rightarrow> string \<Rightarrow> receipt option" where
  "memory_view store k = map_option memory_receipt_view (map_of store k)"

definition memory_inv :: "memory_store \<Rightarrow> bool" where
  "memory_inv store \<longleftrightarrow> (\<forall>k row. map_of store k = Some row \<longrightarrow> mr_completed row = (mr_response row \<noteq> None))"

lemma memory_inv_row: "memory_inv store \<Longrightarrow> map_of store k = Some row \<Longrightarrow> mr_completed row = (mr_response row \<noteq> None)"
  by (simp add: memory_inv_def)

lemma memory_inv_update [simp]:
  "memory_inv store \<Longrightarrow> mr_completed row = (mr_response row \<noteq> None) \<Longrightarrow> memory_inv (AList.update k row store)"
  by (simp add: memory_inv_def)

lemma memory_inv_delete [simp]: "memory_inv store \<Longrightarrow> memory_inv (AList.delete k store)"
  by (simp add: memory_inv_def)

lemma memory_view_update [simp]:
  "memory_view (AList.update k row store) = (memory_view store)(k \<mapsto> memory_receipt_view row)"
  by (auto simp: memory_view_def)

lemma memory_view_delete [simp]: "memory_view (AList.delete k store) = (memory_view store)(k := None)"
  by (auto simp: memory_view_def)

lemma memory_view_Some:
  assumes "memory_view store k = Some r"
  obtains row where "map_of store k = Some row" "rc_fingerprint r = mr_request_fingerprint row"
    "rc_owner r = mr_owner_token row" "rc_phase r = memory_phase row" "rc_expires_at r = mr_expires_at row"
    "r = memory_receipt_view row"
  using assms by (auto simp: memory_view_def memory_receipt_view_def)

lemma memory_view_None: "memory_view store k = None \<longleftrightarrow> map_of store k = None"
  by (simp add: memory_view_def)

lemma memory_held_view:
  assumes "memory_inv store"
  shows "claiming_of (memory_view store k) t = map_option memory_receipt_view (memory_held store k t)"
proof (cases "map_of store k")
  case None
  then show ?thesis by (simp add: memory_held_def memory_view_def)
next
  case (Some row)
  with memory_inv_row [OF assms Some] show ?thesis
    by (cases "mr_response row") (auto simp: memory_held_def memory_view_def memory_receipt_view_def memory_phase_def)
qed

lemma memory_held_Some:
  "memory_inv store \<Longrightarrow> memory_held store k t = Some row \<Longrightarrow>
     map_of store k = Some row \<and> \<not> mr_completed row \<and> mr_response row = None"
  by (auto simp: memory_held_def memory_inv_def split: option.splits if_splits)

lemma memory_phase_iff:
  "memory_phase row = Completed response \<longleftrightarrow> mr_response row = Some response"
  "memory_phase row = Claiming e \<longleftrightarrow> mr_response row = None \<and> mr_claim_expires_at row = e"
  by (auto simp: memory_phase_def split: option.splits)

text \<open>The claim, by what it finds.\<close>

lemma memory_claim_free:
  assumes "\<forall>row. map_of store k = Some row \<longrightarrow> mr_expires_at row \<le> now"
  shows "memory_claim cttl rttl store now k f t =
    (Inr (Owner t), AList.update k
       \<lparr>mr_request_fingerprint = f, mr_owner_token = t, mr_completed = False, mr_claim_expires_at = now + seconds cttl,
        mr_expires_at = now + seconds rttl, mr_response = None\<rparr> store)"
  using assms by (cases "map_of store k") (simp_all add: memory_claim_def)

lemma memory_claim_live:
  assumes "memory_inv store" and "map_of store k = Some row" and "now < mr_expires_at row"
  shows "memory_claim cttl rttl store now k f t =
    (if mr_request_fingerprint row \<noteq> f then (Inr PayloadMismatch, store)
     else (case memory_phase row of
         Completed response \<Rightarrow> (Inr (Replay response), store)
       | Claiming e \<Rightarrow>
           if e \<le> now
           then (Inr (Owner t), AList.update k (row\<lparr>mr_owner_token := t, mr_claim_expires_at := now + seconds cttl,
                   mr_expires_at := now + seconds rttl\<rparr>) store)
           else (Inr InFlight, store)))"
  using assms memory_inv_row [OF assms(1,2)]
  by (cases "mr_response row") (simp_all add: memory_claim_def memory_phase_def)

lemma memory_claim_inv: "memory_inv store \<Longrightarrow> memory_inv (snd (memory_claim cttl rttl store now k f t))"
proof (cases "\<exists>row. map_of store k = Some row \<and> now < mr_expires_at row")
  case False
  assume "memory_inv store"
  with memory_claim_free [of store k now cttl rttl f t] False show ?thesis by (simp add: not_less)
next
  case True
  assume inv: "memory_inv store"
  from True obtain row where row: "map_of store k = Some row" "now < mr_expires_at row" by blast
  have "mr_completed row = (mr_response row \<noteq> None)" by (rule memory_inv_row [OF inv row(1)])
  with inv show ?thesis by (simp add: memory_claim_live [OF inv row] memory_phase_def split: option.split)
qed

lemmas memory_ops = memory_authority_def memory_renew_def memory_complete_def memory_release_def

interpretation memory: idempotency_contract "memory_authority cttl rttl" memory_inv memory_view cttl rttl for cttl rttl
proof unfold_locales
  fix s :: memory_store and now k f t response r e k'
  assume inv: "memory_inv s"
  show "memory_inv (snd (ia_claim (memory_authority cttl rttl) s now k f t))"
    using memory_claim_inv [OF inv] by (simp add: memory_ops)
  show "memory_inv (snd (ia_renew (memory_authority cttl rttl) s now k t))"
    "memory_inv (snd (ia_complete (memory_authority cttl rttl) s now k t response))"
    "memory_inv (snd (ia_release (memory_authority cttl rttl) s k t))"
    using inv memory_held_Some [OF inv, of k t] by (simp_all add: memory_ops split: option.split)
  show "fst (ia_claim (memory_authority cttl rttl) s now k f t) = Inr (Owner t) \<and>
      memory_view (snd (ia_claim (memory_authority cttl rttl) s now k f t)) k =
        Some \<lparr>rc_fingerprint = f, rc_owner = t, rc_phase = Claiming (now + seconds cttl),
              rc_expires_at = now + seconds rttl\<rparr>"
    if "\<forall>r. memory_view s k = Some r \<longrightarrow> rc_expires_at r \<le> now"
  proof -
    have "\<forall>row. map_of s k = Some row \<longrightarrow> mr_expires_at row \<le> now"
      using that by (auto simp: memory_view_def memory_receipt_view_def)
    from memory_claim_free [OF this] show ?thesis
      by (simp add: memory_ops memory_receipt_view_def memory_phase_def)
  qed
  show "fst (ia_claim (memory_authority cttl rttl) s now k f t) = Inr PayloadMismatch \<and>
      memory_view (snd (ia_claim (memory_authority cttl rttl) s now k f t)) k = Some r"
    if "memory_view s k = Some r" "now < rc_expires_at r" "rc_fingerprint r \<noteq> f"
    by (rule memory_view_Some [OF that(1)]) (use that in \<open>simp add: memory_ops memory_claim_live [OF inv]\<close>)
  show "fst (ia_claim (memory_authority cttl rttl) s now k f t) = Inr (Replay response) \<and>
      memory_view (snd (ia_claim (memory_authority cttl rttl) s now k f t)) k = Some r"
    if "memory_view s k = Some r" "now < rc_expires_at r" "rc_fingerprint r = f" "rc_phase r = Completed response"
    by (rule memory_view_Some [OF that(1)]) (use that in \<open>simp add: memory_ops memory_claim_live [OF inv]\<close>)
  show "fst (ia_claim (memory_authority cttl rttl) s now k f t) = Inr InFlight \<and>
      memory_view (snd (ia_claim (memory_authority cttl rttl) s now k f t)) k = Some r"
    if "memory_view s k = Some r" "now < rc_expires_at r" "rc_fingerprint r = f" "rc_phase r = Claiming e" "now < e"
    by (rule memory_view_Some [OF that(1)]) (use that in \<open>simp add: memory_ops memory_claim_live [OF inv]\<close>)
  show "fst (ia_claim (memory_authority cttl rttl) s now k f t) = Inr (Owner t) \<and>
      memory_view (snd (ia_claim (memory_authority cttl rttl) s now k f t)) k =
        Some (r\<lparr>rc_owner := t, rc_phase := Claiming (now + seconds cttl), rc_expires_at := now + seconds rttl\<rparr>)"
    if "memory_view s k = Some r" "now < rc_expires_at r" "rc_fingerprint r = f" "rc_phase r = Claiming e" "e \<le> now"
    by (rule memory_view_Some [OF that(1)])
      (use that in \<open>simp add: memory_ops memory_claim_live [OF inv] memory_receipt_view_def memory_phase_iff,
         simp add: memory_receipt_view_def memory_phase_def\<close>)
  show "memory_view (snd (ia_claim (memory_authority cttl rttl) s now k f t)) k' = Some r"
    if "k' \<noteq> k" "memory_view s k' = Some r" "now < rc_expires_at r"
    using that by (simp add: memory_ops memory_claim_def Let_def split: option.split bool.split)
  show "memory_view s k' = Some r"
    if "k' \<noteq> k" "memory_view (snd (ia_claim (memory_authority cttl rttl) s now k f t)) k' = Some r"
    using that by (simp add: memory_ops memory_claim_def Let_def split: option.splits bool.splits if_splits)
  show "fst (ia_renew (memory_authority cttl rttl) s now k t) \<and>
      memory_view (snd (ia_renew (memory_authority cttl rttl) s now k t)) k =
        Some (r\<lparr>rc_phase := Claiming (now + seconds cttl)\<rparr>)"
    if "claiming_of (memory_view s k) t = Some r"
    using that memory_held_Some [OF inv, of k t] by (auto simp: memory_held_view [OF inv] memory_ops memory_receipt_view_def memory_phase_def)
  show "\<not> fst (ia_renew (memory_authority cttl rttl) s now k t) \<and>
      memory_view (snd (ia_renew (memory_authority cttl rttl) s now k t)) = memory_view s"
    if "claiming_of (memory_view s k) t = None"
    using that by (simp add: memory_held_view [OF inv] memory_ops)
  show "fst (ia_complete (memory_authority cttl rttl) s now k t response) \<and>
      memory_view (snd (ia_complete (memory_authority cttl rttl) s now k t response)) k =
        Some (r\<lparr>rc_phase := Completed response, rc_expires_at := now + seconds rttl\<rparr>)"
    if "claiming_of (memory_view s k) t = Some r"
    using that by (auto simp: memory_held_view [OF inv] memory_ops memory_receipt_view_def memory_phase_def)
  show "\<not> fst (ia_complete (memory_authority cttl rttl) s now k t response) \<and>
      memory_view (snd (ia_complete (memory_authority cttl rttl) s now k t response)) = memory_view s"
    if "claiming_of (memory_view s k) t = None"
    using that by (simp add: memory_held_view [OF inv] memory_ops)
  show "fst (ia_release (memory_authority cttl rttl) s k t) \<and>
      memory_view (snd (ia_release (memory_authority cttl rttl) s k t)) k = None"
    if "claiming_of (memory_view s k) t = Some r"
    using that by (auto simp: memory_held_view [OF inv] memory_ops)
  show "\<not> fst (ia_release (memory_authority cttl rttl) s k t) \<and>
      memory_view (snd (ia_release (memory_authority cttl rttl) s k t)) = memory_view s"
    if "claiming_of (memory_view s k) t = None"
    using that by (simp add: memory_held_view [OF inv] memory_ops)
  show "memory_view (snd (ia_renew (memory_authority cttl rttl) s now k t)) k' = memory_view s k'"
    "memory_view (snd (ia_complete (memory_authority cttl rttl) s now k t response)) k' = memory_view s k'"
    "memory_view (snd (ia_release (memory_authority cttl rttl) s k t)) k' = memory_view s k'"
    if "k' \<noteq> k"
    using that by (simp_all add: memory_ops split: option.split)
qed

subsection \<open>The durable authority keeps the contract\<close>

definition row_ok :: "'c fernet \<Rightarrow> 'c receipt_row \<Rightarrow> bool" where
  "row_ok F r \<longleftrightarrow>
     (if ir_completed r then \<exists>now response. ir_response_ciphertext r = Some (encrypt_response F now response)
      else ir_claim_expires_at r \<noteq> None)"

definition durable_inv :: "'c fernet \<Rightarrow> 'c receipt_row list \<Rightarrow> bool" where
  "durable_inv F rows \<longleftrightarrow> distinct (map ir_operation_key rows) \<and> list_all (row_ok F) rows"

definition row_phase :: "'c fernet \<Rightarrow> 'c receipt_row \<Rightarrow> receipt_phase" where
  "row_phase F r =
     (if ir_completed r
      then (case decrypt_response F (the (ir_response_ciphertext r)) of
              Inr response \<Rightarrow> Completed response | Inl e \<Rightarrow> Claiming 0)
      else Claiming (the (ir_claim_expires_at r)))"

definition row_view :: "'c fernet \<Rightarrow> 'c receipt_row \<Rightarrow> receipt" where
  "row_view F r =
     \<lparr>rc_fingerprint = ir_request_fingerprint r, rc_owner = ir_owner_token r, rc_phase = row_phase F r,
      rc_expires_at = ir_expires_at r\<rparr>"

definition durable_view :: "'c fernet \<Rightarrow> 'c receipt_row list \<Rightarrow> string \<Rightarrow> receipt option" where
  "durable_view F rows k = map_option (row_view F) (row_for k rows)"

lemma row_for_key: "row_for k rows = Some r \<Longrightarrow> ir_operation_key r = k \<and> r \<in> set rows"
  by (auto simp: row_for_def find_Some_iff)

lemma row_for_map:
  "\<forall>r \<in> set rows. ir_operation_key (g r) = ir_operation_key r \<Longrightarrow>
     row_for k (map g rows) = map_option g (row_for k rows)"
  by (induction rows) (auto simp: row_for_def)

lemma row_for_absent: "k \<notin> ir_operation_key ` set rows \<Longrightarrow> row_for k rows = None"
  by (auto simp: row_for_def find_None_iff)

lemma row_for_filter:
  "distinct (map ir_operation_key rows) \<Longrightarrow>
     row_for k (filter P rows) = (case row_for k rows of None \<Rightarrow> None | Some r \<Rightarrow> if P r then Some r else None)"
proof (induction rows)
  case (Cons a rows)
  then show ?case
    using row_for_absent [of k rows] row_for_absent [of k "filter P rows"] by (auto simp: row_for_def)
qed (simp add: row_for_def)

lemma row_for_append:
  "row_for k (rows @ [r]) = (case row_for k rows of Some x \<Rightarrow> Some x
     | None \<Rightarrow> if ir_operation_key r = k then Some r else None)"
  by (induction rows) (auto simp: row_for_def)

lemma held_count:
  "distinct (map ir_operation_key rows) \<Longrightarrow>
     length (filter (held_by k t) rows) = (case row_for k rows of None \<Rightarrow> 0 | Some r \<Rightarrow> if held_by k t r then 1 else 0)"
proof (induction rows)
  case (Cons a rows)
  then show ?case
    using row_for_absent [of k rows] by (auto simp: row_for_def held_by_def)
qed (simp add: row_for_def)

lemma held_row:
  "distinct (map ir_operation_key rows) \<Longrightarrow> r \<in> set rows \<Longrightarrow> held_by k t r \<Longrightarrow> row_for k rows = Some r"
proof (induction rows)
  case (Cons a rows)
  then show ?case by (force simp: row_for_def held_by_def)
qed simp

text \<open>The three guarded statements in terms of the row of the key.\<close>

lemma guarded_update:
  assumes "distinct (map ir_operation_key rows)"
    and "\<And>r. ir_operation_key (g r) = ir_operation_key r"
  shows "row_for k (map (\<lambda>r. if held_by k t r then g r else r) rows) =
      (case row_for k rows of None \<Rightarrow> None | Some r \<Rightarrow> if held_by k t r then Some (g r) else Some r)"
    and "k' \<noteq> k \<Longrightarrow> row_for k' (map (\<lambda>r. if held_by k t r then g r else r) rows) = row_for k' rows"
    and "map ir_operation_key (map (\<lambda>r. if held_by k t r then g r else r) rows) = map ir_operation_key rows"
proof -
  have m: "row_for x (map (\<lambda>r. if held_by k t r then g r else r) rows) =
      map_option (\<lambda>r. if held_by k t r then g r else r) (row_for x rows)" for x
    by (rule row_for_map) (simp add: assms(2))
  show "row_for k (map (\<lambda>r. if held_by k t r then g r else r) rows) =
      (case row_for k rows of None \<Rightarrow> None | Some r \<Rightarrow> if held_by k t r then Some (g r) else Some r)"
    unfolding m by (simp split: option.split)
  show "row_for k' (map (\<lambda>r. if held_by k t r then g r else r) rows) = row_for k' rows" if "k' \<noteq> k"
  proof (cases "row_for k' rows")
    case (Some r)
    then show ?thesis using that row_for_key [OF Some] unfolding m by (simp add: held_by_def)
  qed (simp add: m)
  show "map ir_operation_key (map (\<lambda>r. if held_by k t r then g r else r) rows) = map ir_operation_key rows"
    by (simp add: assms(2))
qed

lemma durable_row: "durable_inv F rows \<Longrightarrow> row_for k rows = Some r \<Longrightarrow> row_ok F r"
  using row_for_key [of k rows r] by (auto simp: durable_inv_def list_all_iff)

lemma claiming_row:
  assumes "fernet_ok F" and "durable_inv F rows"
  shows "claiming_of (durable_view F rows k) t =
    (case row_for k rows of None \<Rightarrow> None | Some r \<Rightarrow> if held_by k t r then Some (row_view F r) else None)"
proof (cases "row_for k rows")
  case None
  then show ?thesis by (simp add: durable_view_def)
next
  case (Some r)
  have "ir_operation_key r = k" using row_for_key [OF Some] by simp
  moreover have "ir_completed r \<Longrightarrow> \<exists>response. row_phase F r = Completed response"
    using durable_row [OF assms(2) Some] response_roundtrip [OF assms(1)] by (auto simp: row_ok_def row_phase_def)
  ultimately show ?thesis using Some
    by (cases "ir_completed r") (auto simp: durable_view_def row_view_def held_by_def row_phase_def)
qed

lemma row_phase_Claiming:
  assumes "fernet_ok F" and "row_ok F r"
  shows "row_phase F r = Claiming e \<longleftrightarrow> \<not> ir_completed r \<and> ir_claim_expires_at r = Some e"
    and "row_phase F r = Completed response \<longleftrightarrow> ir_completed r \<and>
      decrypt_response F (the (ir_response_ciphertext r)) = Inr response"
  using assms response_roundtrip [OF assms(1)] by (auto simp: row_ok_def row_phase_def split: sum.splits)

lemma ciphertext_present: "fernet_ok F \<Longrightarrow> \<not> fernet_empty F (encrypt_response F now response)"
  by (simp add: fernet_ok_def encrypt_response_def)

definition live_rows :: "time \<Rightarrow> 'c receipt_row list \<Rightarrow> 'c receipt_row list" where
  "live_rows now rows = filter (\<lambda>r. \<not> ir_expires_at r \<le> now) rows"

definition fresh_row :: "int \<Rightarrow> int \<Rightarrow> time \<Rightarrow> string \<Rightarrow> string \<Rightarrow> string \<Rightarrow> 'c receipt_row" where
  "fresh_row cttl rttl now k f t =
     \<lparr>ir_operation_key = k, ir_request_fingerprint = f, ir_owner_token = t, ir_completed = False,
      ir_claim_expires_at = Some (now + seconds cttl), ir_response_ciphertext = None,
      ir_expires_at = now + seconds rttl\<rparr>"

definition taken_row :: "int \<Rightarrow> int \<Rightarrow> time \<Rightarrow> string \<Rightarrow> 'c receipt_row \<Rightarrow> 'c receipt_row" where
  "taken_row cttl rttl now t r =
     r\<lparr>ir_owner_token := t, ir_claim_expires_at := Some (now + seconds cttl), ir_expires_at := now + seconds rttl\<rparr>"

lemma live_row_for:
  "durable_inv F rows \<Longrightarrow> row_for k (live_rows now rows) =
     (case row_for k rows of None \<Rightarrow> None | Some r \<Rightarrow> if ir_expires_at r \<le> now then None else Some r)"
  by (auto simp: live_rows_def durable_inv_def row_for_filter split: option.split)

lemma live_inv: "durable_inv F rows \<Longrightarrow> durable_inv F (live_rows now rows)"
  by (auto simp: durable_inv_def live_rows_def distinct_map inj_on_def list_all_iff)

lemma durable_claim_free:
  assumes "durable_inv F rows" and "\<forall>r. row_for k rows = Some r \<longrightarrow> ir_expires_at r \<le> now"
  shows "durable_claim F cttl rttl rows now k f t =
    (Inr (Owner t), live_rows now rows @ [fresh_row cttl rttl now k f t])"
proof -
  have "row_for k (live_rows now rows) = None"
    using assms by (cases "row_for k rows") (simp_all add: live_row_for)
  then show ?thesis
    by (simp add: durable_claim_def repository_claim_def live_rows_def [symmetric] fresh_row_def)
qed

lemma durable_claim_live:
  assumes "fernet_ok F" and "durable_inv F rows" and "row_for k rows = Some r" and "now < ir_expires_at r"
  shows "durable_claim F cttl rttl rows now k f t =
    (if ir_request_fingerprint r \<noteq> f then (Inr PayloadMismatch, live_rows now rows)
     else (case row_phase F r of
         Completed response \<Rightarrow> (Inr (Replay response), live_rows now rows)
       | Claiming e \<Rightarrow>
           if e \<le> now then (Inr (Owner t), update_row (taken_row cttl rttl now t r) (live_rows now rows))
           else (Inr InFlight, live_rows now rows)))"
proof -
  have live: "row_for k (live_rows now rows) = Some r"
    using assms(4) by (simp add: live_row_for [OF assms(2)] assms(3))
  have ok: "row_ok F r" by (rule durable_row [OF assms(2,3)])
  show ?thesis
  proof (cases "ir_completed r")
    case True
    with ok obtain made response where c: "ir_response_ciphertext r = Some (encrypt_response F made response)"
      by (auto simp: row_ok_def)
    then show ?thesis using True live assms(4) response_roundtrip [OF assms(1), of made response]
        ciphertext_present [OF assms(1), of made response]
      by (simp add: durable_claim_def repository_claim_def live_rows_def [symmetric] row_phase_def)
  next
    case False
    with ok obtain e where "ir_claim_expires_at r = Some e" by (auto simp: row_ok_def)
    then show ?thesis using False live assms(4)
      by (simp add: durable_claim_def repository_claim_def live_rows_def [symmetric] row_phase_def taken_row_def)
  qed
qed

lemma update_row_for:
  "row_for k rows = Some r0 \<Longrightarrow> ir_operation_key r = k \<Longrightarrow> row_for k' (update_row r rows) =
     (if k' = k then Some r else row_for k' rows)"
proof -
  assume a: "row_for k rows = Some r0" "ir_operation_key r = k"
  have m: "row_for k' (update_row r rows) =
      map_option (\<lambda>x. if ir_operation_key x = ir_operation_key r then r else x) (row_for k' rows)"
    unfolding update_row_def by (rule row_for_map) simp
  show ?thesis using a row_for_key [of k' rows] unfolding m by (cases "row_for k' rows") auto
qed

lemma update_row_inv:
  "durable_inv F rows \<Longrightarrow> row_ok F r \<Longrightarrow> durable_inv F (update_row r rows)"
proof -
  assume a: "durable_inv F rows" "row_ok F r"
  have keys: "map ir_operation_key (update_row r rows) = map ir_operation_key rows"
    by (simp add: update_row_def comp_def)
  have "list_all (row_ok F) (update_row r rows)"
    using a by (auto simp: durable_inv_def list_all_iff update_row_def)
  with a(1) show ?thesis unfolding durable_inv_def keys by simp
qed

lemma taken_row_simps [simp]:
  "ir_operation_key (taken_row cttl rttl now t r) = ir_operation_key r"
  "\<not> ir_completed r \<Longrightarrow> row_ok F (taken_row cttl rttl now t r)"
  "\<not> ir_completed r \<Longrightarrow> row_view F (taken_row cttl rttl now t r) =
     (row_view F r)\<lparr>rc_owner := t, rc_phase := Claiming (now + seconds cttl), rc_expires_at := now + seconds rttl\<rparr>"
  by (simp_all add: taken_row_def row_ok_def row_view_def row_phase_def)

lemma fresh_row_simps [simp]:
  "ir_operation_key (fresh_row cttl rttl now k f t) = k" "row_ok F (fresh_row cttl rttl now k f t)"
  "row_view F (fresh_row cttl rttl now k f t) =
     \<lparr>rc_fingerprint = f, rc_owner = t, rc_phase = Claiming (now + seconds cttl), rc_expires_at = now + seconds rttl\<rparr>"
  by (simp_all add: fresh_row_def row_ok_def row_view_def row_phase_def)

lemma durable_claim_inv:
  assumes "fernet_ok F" and "durable_inv F rows"
  shows "durable_inv F (snd (durable_claim F cttl rttl rows now k f t))"
proof (cases "\<exists>r. row_for k rows = Some r \<and> now < ir_expires_at r")
  case False
  then have free: "\<forall>r. row_for k rows = Some r \<longrightarrow> ir_expires_at r \<le> now" by (simp add: not_less)
  then have "row_for k (live_rows now rows) = None"
    by (cases "row_for k rows") (simp_all add: live_row_for [OF assms(2)])
  then have "k \<notin> ir_operation_key ` set (live_rows now rows)" by (auto simp: row_for_def find_None_iff)
  then show ?thesis using live_inv [OF assms(2), of now]
    by (simp add: durable_claim_free [OF assms(2) free] durable_inv_def)
next
  case True
  then obtain r where r: "row_for k rows = Some r" "now < ir_expires_at r" by blast
  have ok: "row_ok F r" by (rule durable_row [OF assms(2) r(1)])
  have taken: "durable_inv F (update_row (taken_row cttl rttl now t r) (live_rows now rows))"
    if "row_phase F r = Claiming e" for e
    using that row_phase_Claiming(1) [OF assms(1) ok] by (intro update_row_inv live_inv [OF assms(2)]) simp
  show ?thesis
    using live_inv [OF assms(2)] taken by (simp add: durable_claim_live [OF assms r] split: receipt_phase.split)
qed

lemma guarded_inv:
  assumes "durable_inv F rows" and "\<And>r. ir_operation_key (g r) = ir_operation_key r"
    and "\<And>r. held_by k t r \<Longrightarrow> row_ok F (g r)"
  shows "durable_inv F (map (\<lambda>r. if held_by k t r then g r else r) rows)"
proof -
  have d: "distinct (map ir_operation_key rows)" using assms(1) by (simp add: durable_inv_def)
  have "list_all (row_ok F) (map (\<lambda>r. if held_by k t r then g r else r) rows)"
    using assms(1,3) by (auto simp: durable_inv_def list_all_iff)
  with d show ?thesis unfolding durable_inv_def guarded_update(3) [OF d assms(2)] by simp
qed

lemmas durable_ops = durable_authority_def durable_renew_def durable_complete_def durable_release_def
  repository_renew_def repository_complete_def repository_release_def

definition renewed_row :: "time \<Rightarrow> int \<Rightarrow> 'c receipt_row \<Rightarrow> 'c receipt_row" where
  "renewed_row now cttl r = r\<lparr>ir_claim_expires_at := Some (now + seconds cttl)\<rparr>"

definition completed_row :: "time \<Rightarrow> int \<Rightarrow> 'c \<Rightarrow> 'c receipt_row \<Rightarrow> 'c receipt_row" where
  "completed_row now rttl ciphertext r =
     r\<lparr>ir_completed := True, ir_claim_expires_at := None, ir_response_ciphertext := Some ciphertext,
       ir_expires_at := now + seconds rttl\<rparr>"

lemma renewed_row_simps [simp]:
  "ir_operation_key (renewed_row now cttl r) = ir_operation_key r"
  "held_by k t r \<Longrightarrow> row_ok F (renewed_row now cttl r)"
  "held_by k t r \<Longrightarrow> row_view F (renewed_row now cttl r) = (row_view F r)\<lparr>rc_phase := Claiming (now + seconds cttl)\<rparr>"
  by (simp_all add: renewed_row_def held_by_def row_ok_def row_view_def row_phase_def)

lemma completed_row_simps [simp]:
  "ir_operation_key (completed_row now rttl c r) = ir_operation_key r"
  "row_ok F (completed_row now rttl (encrypt_response F now response) r)"
  by (auto simp: completed_row_def row_ok_def)

lemma completed_row_view:
  "fernet_ok F \<Longrightarrow> row_view F (completed_row now rttl (encrypt_response F now response) r) =
     (row_view F r)\<lparr>rc_phase := Completed response, rc_expires_at := now + seconds rttl\<rparr>"
  by (simp add: completed_row_def row_view_def row_phase_def response_roundtrip)

lemma renew_rows:
  "repository_renew rows k t now cttl = (length (filter (held_by k t) rows) = 1,
     map (\<lambda>r. if held_by k t r then renewed_row now cttl r else r) rows)"
  by (simp add: repository_renew_def renewed_row_def)

lemma complete_rows:
  "repository_complete rows k t c now rttl = (length (filter (held_by k t) rows) = 1,
     map (\<lambda>r. if held_by k t r then completed_row now rttl c r else r) rows)"
  by (simp add: repository_complete_def completed_row_def)

text \<open>A guarded statement by the holder, by anyone else, and on the other keys.\<close>

lemma guarded_holder:
  assumes "fernet_ok F" and "durable_inv F rows" and "claiming_of (durable_view F rows k) t = Some r"
    and "\<And>r. ir_operation_key (g r) = ir_operation_key r"
  obtains row where "held_by k t row" "r = row_view F row" "length (filter (held_by k t) rows) = 1"
    "durable_view F (map (\<lambda>r. if held_by k t r then g r else r) rows) k = Some (row_view F (g row))"
    "row_for k rows = Some row"
proof -
  have d: "distinct (map ir_operation_key rows)" using assms(2) by (simp add: durable_inv_def)
  from assms(3) obtain row where row: "row_for k rows = Some row" "held_by k t row" "r = row_view F row"
    by (auto simp: claiming_row [OF assms(1,2)] split: option.splits if_splits)
  then show ?thesis
    by (intro that [of row]) (simp_all add: held_count [OF d] durable_view_def guarded_update(1) [OF d assms(4)])
qed

lemma guarded_refused:
  assumes "fernet_ok F" and "durable_inv F rows" and "claiming_of (durable_view F rows k) t = None"
  shows "length (filter (held_by k t) rows) \<noteq> 1" and "map (\<lambda>r. if held_by k t r then g r else r) rows = rows"
    and "filter (\<lambda>r. \<not> held_by k t r) rows = rows"
proof -
  have d: "distinct (map ir_operation_key rows)" using assms(2) by (simp add: durable_inv_def)
  have none: "\<not> (\<exists>r. row_for k rows = Some r \<and> held_by k t r)"
    using assms(3) by (auto simp: claiming_row [OF assms(1,2)])
  then have "\<forall>r \<in> set rows. \<not> held_by k t r" using held_row [OF d] by blast
  then show "map (\<lambda>r. if held_by k t r then g r else r) rows = rows" "filter (\<lambda>r. \<not> held_by k t r) rows = rows"
    "length (filter (held_by k t) rows) \<noteq> 1"
    by (auto simp: map_idI filter_id_conv)
qed

lemma release_rows:
  assumes "durable_inv F rows"
  shows "durable_inv F (filter (\<lambda>r. \<not> held_by k t r) rows)"
    and "k' \<noteq> k \<Longrightarrow> row_for k' (filter (\<lambda>r. \<not> held_by k t r) rows) = row_for k' rows"
    and "row_for k rows = Some row \<Longrightarrow> held_by k t row \<Longrightarrow> row_for k (filter (\<lambda>r. \<not> held_by k t r) rows) = None"
proof -
  have d: "distinct (map ir_operation_key rows)" using assms by (simp add: durable_inv_def)
  show "durable_inv F (filter (\<lambda>r. \<not> held_by k t r) rows)"
    using assms by (auto simp: durable_inv_def distinct_map inj_on_def list_all_iff)
  show "row_for k' (filter (\<lambda>r. \<not> held_by k t r) rows) = row_for k' rows" if "k' \<noteq> k"
    using that row_for_key [of k' rows] by (auto simp: row_for_filter [OF d] held_by_def split: option.split)
  show "row_for k (filter (\<lambda>r. \<not> held_by k t r) rows) = None" if "row_for k rows = Some row" "held_by k t row"
    using that by (simp add: row_for_filter [OF d])
qed

lemma durable_view_Some:
  assumes "durable_view F rows k = Some r"
  obtains row where "row_for k rows = Some row" "rc_fingerprint r = ir_request_fingerprint row"
    "rc_phase r = row_phase F row" "rc_expires_at r = ir_expires_at row" "r = row_view F row"
  using assms by (auto simp: durable_view_def row_view_def)

lemma durable_view_live:
  "durable_inv F rows \<Longrightarrow> durable_view F rows k = Some r \<Longrightarrow> now < rc_expires_at r \<Longrightarrow>
     durable_view F (live_rows now rows) k = Some r"
  by (auto simp: durable_view_def live_row_for row_view_def)

lemma durable_claim_frame:
  assumes "fernet_ok F" and "durable_inv F rows" and "k' \<noteq> k" and "durable_view F rows k' = Some r"
    and "now < rc_expires_at r"
  shows "durable_view F (snd (durable_claim F cttl rttl rows now k f t)) k' = Some r"
proof -
  note live = durable_view_live [OF assms(2,4,5)]
  show ?thesis
  proof (cases "\<exists>r. row_for k rows = Some r \<and> now < ir_expires_at r")
    case False
    then have free: "\<forall>r. row_for k rows = Some r \<longrightarrow> ir_expires_at r \<le> now" by (simp add: not_less)
    from live show ?thesis using assms(3)
      by (auto simp: durable_claim_free [OF assms(2) free] durable_view_def row_for_append)
  next
    case True
    then obtain row where r: "row_for k rows = Some row" "now < ir_expires_at row" by blast
    have lr: "row_for k (live_rows now rows) = Some row" using r by (simp add: live_row_for [OF assms(2)])
    have taken: "durable_view F (update_row (taken_row cttl rttl now t row) (live_rows now rows)) k' = Some r"
      using live assms(3) row_for_key [OF r(1)] by (simp add: durable_view_def update_row_for [OF lr])
    show ?thesis using live taken
      by (simp add: durable_claim_live [OF assms(1,2) r] split: receipt_phase.split)
  qed
qed

lemma durable_claim_nothing_else:
  assumes "fernet_ok F" and "durable_inv F rows" and "k' \<noteq> k"
    and "durable_view F (snd (durable_claim F cttl rttl rows now k f t)) k' = Some r"
  shows "durable_view F rows k' = Some r"
proof -
  have live: "durable_view F (live_rows now rows) k' = Some r \<Longrightarrow> durable_view F rows k' = Some r"
    by (auto simp: durable_view_def live_row_for [OF assms(2)] split: option.splits if_splits)
  show ?thesis
  proof (cases "\<exists>r. row_for k rows = Some r \<and> now < ir_expires_at r")
    case False
    then have free: "\<forall>r. row_for k rows = Some r \<longrightarrow> ir_expires_at r \<le> now" by (simp add: not_less)
    have "row_for k' (live_rows now rows @ [fresh_row cttl rttl now k f t]) = row_for k' (live_rows now rows)"
      using assms(3) by (simp add: row_for_append split: option.split)
    then show ?thesis using live assms(4) by (simp add: durable_claim_free [OF assms(2) free] durable_view_def)
  next
    case True
    then obtain row where r: "row_for k rows = Some row" "now < ir_expires_at row" by blast
    have lr: "row_for k (live_rows now rows) = Some row" using r by (simp add: live_row_for [OF assms(2)])
    have "row_for k' (update_row (taken_row cttl rttl now t row) (live_rows now rows)) = row_for k' (live_rows now rows)"
      using assms(3) row_for_key [OF r(1)] by (simp add: update_row_for [OF lr])
    then have "durable_view F (snd (durable_claim F cttl rttl rows now k f t)) k' = durable_view F (live_rows now rows) k'"
      by (simp add: durable_claim_live [OF assms(1,2) r] durable_view_def split: receipt_phase.split)
    then show ?thesis using live assms(4) by simp
  qed
qed

lemma durable_contract:
  assumes F: "fernet_ok F"
  shows "idempotency_contract (durable_authority F cttl rttl) (durable_inv F) (durable_view F) cttl rttl"
proof unfold_locales
  fix s :: "'a receipt_row list" and now k f t response r e k'
  assume inv: "durable_inv F s"
  have d: "distinct (map ir_operation_key s)" using inv by (simp add: durable_inv_def)
  show "durable_inv F (snd (ia_claim (durable_authority F cttl rttl) s now k f t))"
    using durable_claim_inv [OF F inv] by (simp add: durable_ops)
  show "durable_inv F (snd (ia_renew (durable_authority F cttl rttl) s now k t))"
    unfolding durable_authority_def durable_renew_def renew_rows by simp (rule guarded_inv [OF inv], simp_all)
  show "durable_inv F (snd (ia_complete (durable_authority F cttl rttl) s now k t response))"
    unfolding durable_authority_def durable_complete_def complete_rows by simp (rule guarded_inv [OF inv], simp_all)
  show "durable_inv F (snd (ia_release (durable_authority F cttl rttl) s k t))"
    using release_rows(1) [OF inv] by (simp add: durable_ops)
  show "fst (ia_claim (durable_authority F cttl rttl) s now k f t) = Inr (Owner t) \<and>
      durable_view F (snd (ia_claim (durable_authority F cttl rttl) s now k f t)) k =
        Some \<lparr>rc_fingerprint = f, rc_owner = t, rc_phase = Claiming (now + seconds cttl),
              rc_expires_at = now + seconds rttl\<rparr>"
    if "\<forall>r. durable_view F s k = Some r \<longrightarrow> rc_expires_at r \<le> now"
  proof -
    have free: "\<forall>r. row_for k s = Some r \<longrightarrow> ir_expires_at r \<le> now"
      using that by (auto simp: durable_view_def row_view_def)
    then have "row_for k (live_rows now s) = None" by (cases "row_for k s") (simp_all add: live_row_for [OF inv])
    then show ?thesis
      by (simp add: durable_authority_def durable_claim_free [OF inv free] durable_view_def row_for_append)
  qed
  show "fst (ia_claim (durable_authority F cttl rttl) s now k f t) = Inr PayloadMismatch \<and>
      durable_view F (snd (ia_claim (durable_authority F cttl rttl) s now k f t)) k = Some r"
    if "durable_view F s k = Some r" "now < rc_expires_at r" "rc_fingerprint r \<noteq> f"
    by (rule durable_view_Some [OF that(1)])
      (use that durable_view_live [OF inv that(1,2)] in \<open>simp add: durable_authority_def durable_claim_live [OF F inv]\<close>)
  show "fst (ia_claim (durable_authority F cttl rttl) s now k f t) = Inr (Replay response) \<and>
      durable_view F (snd (ia_claim (durable_authority F cttl rttl) s now k f t)) k = Some r"
    if "durable_view F s k = Some r" "now < rc_expires_at r" "rc_fingerprint r = f" "rc_phase r = Completed response"
    by (rule durable_view_Some [OF that(1)])
      (use that durable_view_live [OF inv that(1,2)] in \<open>simp add: durable_authority_def durable_claim_live [OF F inv]\<close>)
  show "fst (ia_claim (durable_authority F cttl rttl) s now k f t) = Inr InFlight \<and>
      durable_view F (snd (ia_claim (durable_authority F cttl rttl) s now k f t)) k = Some r"
    if "durable_view F s k = Some r" "now < rc_expires_at r" "rc_fingerprint r = f" "rc_phase r = Claiming e" "now < e"
    by (rule durable_view_Some [OF that(1)])
      (use that durable_view_live [OF inv that(1,2)] in \<open>simp add: durable_authority_def durable_claim_live [OF F inv]\<close>)
  show "fst (ia_claim (durable_authority F cttl rttl) s now k f t) = Inr (Owner t) \<and>
      durable_view F (snd (ia_claim (durable_authority F cttl rttl) s now k f t)) k =
        Some (r\<lparr>rc_owner := t, rc_phase := Claiming (now + seconds cttl), rc_expires_at := now + seconds rttl\<rparr>)"
    if v: "durable_view F s k = Some r" "now < rc_expires_at r" "rc_fingerprint r = f" "rc_phase r = Claiming e" "e \<le> now"
  proof (rule durable_view_Some [OF v(1)])
    fix row assume row: "row_for k s = Some row" "rc_fingerprint r = ir_request_fingerprint row"
      "rc_phase r = row_phase F row" "rc_expires_at r = ir_expires_at row" "r = row_view F row"
    have live: "now < ir_expires_at row" using v(2) row(4) by simp
    have "row_for k (live_rows now s) = Some row" using live by (simp add: live_row_for [OF inv] row(1))
    note upd = update_row_for [OF this, of "taken_row cttl rttl now t row"]
    have ph: "row_phase F row = Claiming e" "ir_request_fingerprint row = f" using v(3,4) row by simp_all
    have "\<not> ir_completed row" using row_phase_Claiming(1) [OF F durable_row [OF inv row(1)], of e] ph by simp
    then show ?thesis
      using v(5) ph row(5) upd row_for_key [OF row(1)]
      by (simp add: durable_authority_def durable_claim_live [OF F inv row(1) live] durable_view_def)
  qed
  show "durable_view F (snd (ia_claim (durable_authority F cttl rttl) s now k f t)) k' = Some r"
    if "k' \<noteq> k" "durable_view F s k' = Some r" "now < rc_expires_at r"
    using durable_claim_frame [OF F inv that] by (simp add: durable_authority_def)
  show "durable_view F s k' = Some r"
    if "k' \<noteq> k" "durable_view F (snd (ia_claim (durable_authority F cttl rttl) s now k f t)) k' = Some r"
    using durable_claim_nothing_else [OF F inv that(1)] that(2) by (simp add: durable_authority_def)
  show "fst (ia_renew (durable_authority F cttl rttl) s now k t) \<and>
      durable_view F (snd (ia_renew (durable_authority F cttl rttl) s now k t)) k =
        Some (r\<lparr>rc_phase := Claiming (now + seconds cttl)\<rparr>)"
    if "claiming_of (durable_view F s k) t = Some r"
    by (rule guarded_holder [OF F inv that, of "renewed_row now cttl"])
      (simp_all add: durable_authority_def durable_renew_def renew_rows)
  show "\<not> fst (ia_renew (durable_authority F cttl rttl) s now k t) \<and>
      durable_view F (snd (ia_renew (durable_authority F cttl rttl) s now k t)) = durable_view F s"
    if "claiming_of (durable_view F s k) t = None"
    using guarded_refused [OF F inv that] by (simp add: durable_authority_def durable_renew_def renew_rows)
  show "fst (ia_complete (durable_authority F cttl rttl) s now k t response) \<and>
      durable_view F (snd (ia_complete (durable_authority F cttl rttl) s now k t response)) k =
        Some (r\<lparr>rc_phase := Completed response, rc_expires_at := now + seconds rttl\<rparr>)"
    if "claiming_of (durable_view F s k) t = Some r"
    by (rule guarded_holder [OF F inv that, of "completed_row now rttl (encrypt_response F now response)"])
      (simp_all add: durable_authority_def durable_complete_def complete_rows completed_row_view [OF F])
  show "\<not> fst (ia_complete (durable_authority F cttl rttl) s now k t response) \<and>
      durable_view F (snd (ia_complete (durable_authority F cttl rttl) s now k t response)) = durable_view F s"
    if "claiming_of (durable_view F s k) t = None"
    using guarded_refused [OF F inv that] by (simp add: durable_authority_def durable_complete_def complete_rows)
  show "fst (ia_release (durable_authority F cttl rttl) s k t) \<and>
      durable_view F (snd (ia_release (durable_authority F cttl rttl) s k t)) k = None"
    if c: "claiming_of (durable_view F s k) t = Some r"
  proof -
    obtain row where row: "row_for k s = Some row" "held_by k t row"
      using c by (auto simp: claiming_row [OF F inv] split: option.splits if_splits)
    then show ?thesis
      by (simp add: durable_ops held_count [OF d] durable_view_def release_rows(3) [OF inv])
  qed
  show "\<not> fst (ia_release (durable_authority F cttl rttl) s k t) \<and>
      durable_view F (snd (ia_release (durable_authority F cttl rttl) s k t)) = durable_view F s"
    if "claiming_of (durable_view F s k) t = None"
    using guarded_refused [OF F inv that] by (simp add: durable_ops)
  show "durable_view F (snd (ia_renew (durable_authority F cttl rttl) s now k t)) k' = durable_view F s k'"
    "durable_view F (snd (ia_complete (durable_authority F cttl rttl) s now k t response)) k' = durable_view F s k'"
    "durable_view F (snd (ia_release (durable_authority F cttl rttl) s k t)) k' = durable_view F s k'"
    if "k' \<noteq> k"
    using guarded_update(2) [OF d _ that, of "renewed_row now cttl" t]
      guarded_update(2) [OF d _ that, of "completed_row now rttl (encrypt_response F now response)" t]
      release_rows(2) [OF inv that]
    by (simp_all add: durable_authority_def durable_renew_def renew_rows durable_complete_def complete_rows
        durable_release_def repository_release_def durable_view_def)
qed

definition plain_fernet :: "(time \<times> json) fernet" where
  "plain_fernet = \<lparr>fernet_encrypt = Pair, fernet_decrypt = (\<lambda>c. Some (snd c)), fernet_empty = (\<lambda>_. False)\<rparr>"

lemma plain_fernet_ok: "fernet_ok plain_fernet"
  by (simp add: fernet_ok_def plain_fernet_def)

interpretation durable: idempotency_contract
  "durable_authority plain_fernet cttl rttl" "durable_inv plain_fernet" "durable_view plain_fernet" cttl rttl for cttl rttl
  by (rule durable_contract [OF plain_fernet_ok])

end
