(* ===== verification/IdempotencyFlow.thy ===== *)
theory IdempotencyFlow
  imports Idempotency
begin

section \<open>The idempotency middleware\<close>

text \<open>
  \<open>backend/middleware/idempotency.py\<close> over an authority of \<open>Idempotency\<close>, split where the
  application runs: between the two halves any other requests, heartbeats and instances act
  on the same receipts. The properties hold for the durable authority.
\<close>

subsection \<open>The request\<close>

text \<open>
  \<open>uuid.UUID(value)\<close> on ASCII text accepts more than canonical texts: prefixes, braces, dashes
  anywhere, and whatever \<open>int(hex, 16)\<close> reads, among it underscores between digits.
\<close>

function remove_text :: "string \<Rightarrow> string \<Rightarrow> string" where
  "remove_text p [] = []"
| "remove_text p (c # cs) =
     (if p \<noteq> [] \<and> starts_with (c # cs) p then remove_text p (drop (length p) (c # cs))
      else c # remove_text p cs)"
  by pat_completeness auto
termination by (relation "measure (\<lambda>(p, s). length s)") (auto simp: Suc_diff_le neq_Nil_conv)

fun hex_groups :: "bool \<Rightarrow> string \<Rightarrow> bool" where
  "hex_groups after_digit [] = after_digit"
| "hex_groups after_digit (c # cs) =
     (if c = CHR ''_'' then after_digit \<and> hex_groups False cs
      else is_hex (hex_lower c) \<and> hex_groups True cs)"

definition reads_as_hex :: "string \<Rightarrow> bool" where
  "reads_as_hex s =
     (let t = strip s;
          t = (if starts_with t ''+'' then tl t else t)
      in if starts_with t ''0x'' \<or> starts_with t ''0X''
         then hex_groups False (if starts_with (drop 2 t) ''_'' then drop 3 t else drop 2 t)
         else hex_groups False t)"

definition is_valid_uuid :: "string \<Rightarrow> bool" where
  "is_valid_uuid value =
     (let brace = (\<lambda>c. c = CHR ''{'' \<or> c = CHR ''}'');
          h = remove_text ''uuid:'' (remove_text ''urn:'' value);
          h = filter (\<lambda>c. c \<noteq> CHR ''-'') (rev (dropWhile brace (rev (dropWhile brace h))))
      in length h = 32 \<and> reads_as_hex h)"

definition upper_char :: "char \<Rightarrow> char" where
  "upper_char c = (if 97 \<le> (of_char c :: nat) \<and> (of_char c :: nat) \<le> 122 then char_of ((of_char c :: nat) - 32) else c)"

text \<open>An HTTP scope; \<open>sc_headers\<close> in their order, names and values as the server gives them.\<close>

record http_scope =
  sc_type :: string
  sc_method :: string
  sc_path :: string
  sc_query :: string
  sc_headers :: "(string \<times> string) list"
  sc_tenant_id :: "string option"
  sc_principal_id :: "string option"

definition mutating_methods :: "string list" where
  "mutating_methods = [''POST'', ''PUT'', ''PATCH'']"

definition scope_namespace :: "http_scope \<Rightarrow> string" where
  "scope_namespace sc =
     (case (sc_tenant_id sc, sc_principal_id sc) of
        (Some tenant, Some subject) \<Rightarrow> ''tenant:'' @ tenant @ ''|principal:'' @ subject
      | _ \<Rightarrow> ''public'')"

definition NUL :: char where "NUL = CHR 0x00"

definition key_material :: "http_scope \<Rightarrow> string \<Rightarrow> string" where
  "key_material sc raw_key =
     scope_namespace sc @ [NUL] @ map upper_char (sc_method sc) @ [NUL] @ sc_path sc @ [NUL] @ raw_key"

definition build_operation_key :: "(string \<Rightarrow> string) \<Rightarrow> http_scope \<Rightarrow> string \<Rightarrow> string" where
  "build_operation_key sha256 sc raw_key = sha256 (key_material sc raw_key)"

definition build_request_fingerprint :: "(string \<Rightarrow> string) \<Rightarrow> http_scope \<Rightarrow> string \<Rightarrow> string" where
  "build_request_fingerprint sha256 sc body = sha256 (sc_query sc @ [NUL] @ body)"

definition should_store_response :: "int \<Rightarrow> bool" where
  "should_store_response status_code \<longleftrightarrow> status_code < 500 \<and> status_code \<noteq> 429"

text \<open>The last of several headers of one name wins.\<close>

definition header_value :: "string \<Rightarrow> http_scope \<Rightarrow> string option" where
  "header_value name sc = map_of (rev (map (\<lambda>(k, v). (map lower_char k, v)) (sc_headers sc))) name"

datatype middleware_answer =
    PassThrough
  | Refused int string
  | Sent replay_response

definition marked :: "string \<Rightarrow> replay_response \<Rightarrow> replay_response" where
  "marked flag response =
     response\<lparr>rr_headers := filter (\<lambda>h. map lower_char (fst h) \<noteq> ''idempotency-replayed'') (rr_headers response) @
       [(''idempotency-replayed'', flag)]\<rparr>"

datatype middleware_start = Answered middleware_answer | Execute string string

text \<open>
  The middleware up to the call of the application: an answer, or the operation key and owner
  token under which the application runs. The heartbeats meanwhile are renewals.
\<close>

definition middleware_begin ::
  "(string \<Rightarrow> string) \<Rightarrow> 's idempotency_authority \<Rightarrow> 's \<Rightarrow> time \<Rightarrow> string \<Rightarrow> http_scope \<Rightarrow> string \<Rightarrow>
     middleware_start \<times> 's" where
  "middleware_begin sha256 A s now token sc body =
     (if sc_type sc \<noteq> ''http'' \<or> map upper_char (sc_method sc) \<notin> set mutating_methods then (Answered PassThrough, s)
      else case header_value ''idempotency-key'' sc of
        None \<Rightarrow> (Answered PassThrough, s)
      | Some raw_header \<Rightarrow>
          let raw_key = strip raw_header
          in if \<not> is_valid_uuid raw_key
             then (Answered (Refused 400 ''Idempotency-Key must be a valid UUID v4.''), s)
             else let operation_key = build_operation_key sha256 sc raw_key
                  in case ia_claim A s now operation_key (build_request_fingerprint sha256 sc body) token of
                       (Inl e, s') \<Rightarrow> (Answered (Refused 503 ''IDEMPOTENCY_UNAVAILABLE''), s')
                     | (Inr (Replay response), s') \<Rightarrow> (Answered (Sent (marked ''true'' response)), s')
                     | (Inr PayloadMismatch, s') \<Rightarrow> (Answered (Refused 409 ''IDEMPOTENCY_KEY_REUSED''), s')
                     | (Inr InFlight, s') \<Rightarrow> (Answered (Refused 409 ''IDEMPOTENCY_IN_PROGRESS''), s')
                     | (Inr (Owner t), s') \<Rightarrow> (Execute operation_key t, s'))"

text \<open>The rest, with what the application returned: an exception is raised again after the release.\<close>

definition middleware_finish ::
  "'s idempotency_authority \<Rightarrow> 's \<Rightarrow> time \<Rightarrow> string \<Rightarrow> string \<Rightarrow> replay_response result \<Rightarrow>
     middleware_answer result \<times> 's" where
  "middleware_finish A s now operation_key token outcome =
     (case outcome of
        Inl e \<Rightarrow> (Inl e, snd (ia_release A s operation_key token))
      | Inr response \<Rightarrow>
          if should_store_response (rr_status_code response)
          then (case ia_complete A s now operation_key token response of
                  (completed, s') \<Rightarrow>
                    if completed then (Inr (Sent (marked ''false'' response)), s')
                    else (Inr (Refused 503 ''IDEMPOTENCY_FINALIZATION_FAILED''), s'))
          else (Inr (Sent (marked ''false'' response)), snd (ia_release A s operation_key token)))"

subsection \<open>What the middleware keeps\<close>

fun claims_as :: "string \<Rightarrow> idempotency_event \<Rightarrow> bool" where
  "claims_as t (ClaimEvent _ _ _ t') = (t' = t)"
| "claims_as t _ = False"

text \<open>
  The instant at which the claim of \<open>t\<close> on \<open>k\<close> lapses after some events, given when it would lapse
  before them: renewals in time move it; None when it lapsed or \<open>t\<close> itself finished.
\<close>

fun claim_lapse :: "string \<Rightarrow> string \<Rightarrow> int \<Rightarrow> time \<Rightarrow> idempotency_event list \<Rightarrow> time option" where
  "claim_lapse k t claim_ttl lapse [] = Some lapse"
| "claim_lapse k t claim_ttl lapse (e # es) =
     (if lapse \<le> event_time e then None
      else if \<not> event_of_holder k t e then claim_lapse k t claim_ttl lapse es
      else (case e of RenewEvent now _ _ \<Rightarrow> claim_lapse k t claim_ttl (now + seconds claim_ttl) es | _ \<Rightarrow> None))"

lemma begin_execute:
  "middleware_begin sha A s now token sc body = (Execute k t, s') \<longleftrightarrow>
     sc_type sc = ''http'' \<and> map upper_char (sc_method sc) \<in> set mutating_methods \<and>
     (\<exists>raw. header_value ''idempotency-key'' sc = Some raw \<and> is_valid_uuid (strip raw) \<and>
       k = build_operation_key sha sc (strip raw) \<and>
       ia_claim A s now k (build_request_fingerprint sha sc body) token = (Inr (Owner t), s'))"
  by (auto simp: middleware_begin_def Let_def split: option.split prod.splits sum.splits idempotency_decision.splits if_splits)

lemma begin_again:
  assumes "middleware_begin sha A s now token sc body = (Execute k t, s')"
  shows "fst (middleware_begin sha A s2 now2 token2 sc body2) =
    (case fst (ia_claim A s2 now2 k (build_request_fingerprint sha sc body2) token2) of
       Inl e \<Rightarrow> Answered (Refused 503 ''IDEMPOTENCY_UNAVAILABLE'')
     | Inr (Replay response) \<Rightarrow> Answered (Sent (marked ''true'' response))
     | Inr PayloadMismatch \<Rightarrow> Answered (Refused 409 ''IDEMPOTENCY_KEY_REUSED'')
     | Inr InFlight \<Rightarrow> Answered (Refused 409 ''IDEMPOTENCY_IN_PROGRESS'')
     | Inr (Owner t) \<Rightarrow> Execute k t)"
  using assms unfolding begin_execute by (auto simp: middleware_begin_def Let_def split: prod.split sum.split idempotency_decision.split)

context idempotency_contract
begin

lemma renew_keeps_holder:
  assumes "inv s" and "view s k = Some r" and "rc_phase r = Claiming c"
  shows "view (snd (ia_renew A s now k (rc_owner r))) k = Some (r\<lparr>rc_phase := Claiming (now + seconds claim_ttl)\<rparr>)"
proof -
  have "claiming_of (view s k) (rc_owner r) = Some r" using assms by simp
  from renew_holder [OF assms(1) this] show ?thesis by simp
qed

text \<open>While the claim has not lapsed its holder keeps the receipt.\<close>

lemma claim_lapse_holds:
  assumes "inv s" and "view s k = Some r" and "rc_phase r = Claiming c"
    and "claim_lapse k (rc_owner r) claim_ttl c es = Some c'" and "\<forall>e \<in> set es. event_time e < rc_expires_at r"
  shows "view (run_events A es s) k = Some (r\<lparr>rc_phase := Claiming c'\<rparr>)"
  using assms
proof (induction es arbitrary: s r c)
  case Nil
  then show ?case by (simp add: run_events_def)
next
  case (Cons e es)
  have lapse: "event_time e < c" using Cons.prems(4) by (simp split: if_splits)
  note inv' = event_inv [OF Cons.prems(1), of e]
  show ?case
  proof (cases "event_of_holder k (rc_owner r) e")
    case False
    have "view (run_event A e s) k = Some r"
      by (rule event_keeps [OF Cons.prems(1,2)]) (use Cons.prems lapse False in simp_all)
    from Cons.IH [OF inv' this Cons.prems(3)] Cons.prems False lapse show ?thesis by (simp add: run_events_def)
  next
    case True
    with Cons.prems(4) lapse obtain now where e: "e = RenewEvent now k (rc_owner r)"
      by (cases e) auto
    have "view (run_event A e s) k = Some (r\<lparr>rc_phase := Claiming (now + seconds claim_ttl)\<rparr>)"
      using renew_keeps_holder [OF Cons.prems(1-3)] e by simp
    from Cons.IH [OF inv' this] Cons.prems True lapse e show ?thesis by (simp add: run_events_def)
  qed
qed

text \<open>A receipt whose owner is \<open>t\<close> has the fingerprint \<open>t\<close> claimed with.\<close>

definition owned_with :: "'s \<Rightarrow> string \<Rightarrow> string \<Rightarrow> string \<Rightarrow> bool" where
  "owned_with s k t f \<longleftrightarrow> (\<forall>r. view s k = Some r \<longrightarrow> rc_owner r = t \<longrightarrow> rc_fingerprint r = f)"

lemma owned_with_claim:
  assumes "inv s" and "owned_with s k t f" and "t' \<noteq> t"
  shows "owned_with (snd (ia_claim A s now k' f' t')) k t f"
proof (cases "k' = k")
  case False
  then have "view s k = Some r" if "view (snd (ia_claim A s now k' f' t')) k = Some r" for r
    using claim_makes_nothing_else [OF assms(1) _ that] by simp
  with assms(2) show ?thesis unfolding owned_with_def by blast
next
  case k: True
  show ?thesis
  proof (cases "fst (ia_claim A s now k f' t') = Inr (Owner t')")
    case True
    from claim_owner [OF assms(1) True] show ?thesis using assms(3) k by (auto simp: owned_with_def)
  next
    case False
    then have "\<not> (\<forall>r. view s k = Some r \<longrightarrow> rc_expires_at r \<le> now)" using claim_free [OF assms(1)] by blast
    then obtain r where r: "view s k = Some r" "now < rc_expires_at r" by (auto simp: not_le)
    have "\<forall>e. rc_fingerprint r = f' \<longrightarrow> rc_phase r = Claiming e \<longrightarrow> now < e"
      using claim_takeover [OF assms(1) r] False by (metis not_less)
    then have "view (snd (ia_claim A s now k f' t')) k = Some r"
      using claim_mismatch [OF assms(1) r, of f' t'] claim_keeps [OF assms(1) r, of k f' t'] by (cases "rc_fingerprint r = f'") auto
    then show ?thesis using assms(2) r k by (simp add: owned_with_def)
  qed
qed

lemma claiming_of_Some: "claiming_of v t = Some r \<Longrightarrow> v = Some r \<and> rc_owner r = t \<and> (\<exists>c. rc_phase r = Claiming c)"
  by (cases v) (auto split: receipt_phase.splits if_splits)

lemma owned_with_event:
  assumes "inv s" and "owned_with s k t f" and "\<not> claims_as t e"
  shows "owned_with (run_event A e s) k t f"
proof (cases e)
  case (ClaimEvent now k' f' t')
  then show ?thesis using owned_with_claim [OF assms(1,2)] assms(3) by simp
next
  case (RenewEvent now k' t')
  show ?thesis
  proof (cases "k' = k")
    case True
    show ?thesis
    proof (cases "claiming_of (view s k) t'")
      case None
      then show ?thesis using renew_refused [OF assms(1) None] assms(2) RenewEvent True by (simp add: owned_with_def)
    next
      case (Some r)
      then show ?thesis using renew_holder [OF assms(1) Some] claiming_of_Some [OF Some] assms(2) RenewEvent True
        by (simp add: owned_with_def)
    qed
  next
    case False
    then show ?thesis using renew_frame [OF assms(1)] assms(2) RenewEvent by (simp add: owned_with_def)
  qed
next
  case (CompleteEvent now k' t' response)
  show ?thesis
  proof (cases "k' = k")
    case True
    show ?thesis
    proof (cases "claiming_of (view s k) t'")
      case None
      then show ?thesis using complete_refused [OF assms(1) None] assms(2) CompleteEvent True by (simp add: owned_with_def)
    next
      case (Some r)
      then show ?thesis using complete_holder [OF assms(1) Some] claiming_of_Some [OF Some] assms(2) CompleteEvent True
        by (simp add: owned_with_def)
    qed
  next
    case False
    then show ?thesis using complete_frame [OF assms(1)] assms(2) CompleteEvent by (simp add: owned_with_def)
  qed
next
  case (ReleaseEvent now k' t')
  show ?thesis
  proof (cases "k' = k")
    case True
    show ?thesis
    proof (cases "claiming_of (view s k) t'")
      case None
      then show ?thesis using release_refused [OF assms(1) None] assms(2) ReleaseEvent True by (simp add: owned_with_def)
    next
      case (Some r)
      then show ?thesis using release_holder [OF assms(1) Some] ReleaseEvent True by (simp add: owned_with_def)
    qed
  next
    case False
    then show ?thesis using release_frame [OF assms(1)] assms(2) ReleaseEvent by (simp add: owned_with_def)
  qed
qed

lemma owned_with_events:
  "inv s \<Longrightarrow> owned_with s k t f \<Longrightarrow> \<forall>e \<in> set es. \<not> claims_as t e \<Longrightarrow> owned_with (run_events A es s) k t f"
proof (induction es arbitrary: s)
  case Nil
  then show ?case by (simp add: run_events_def)
next
  case (Cons e es)
  from Cons.IH [OF event_inv [OF Cons.prems(1)] owned_with_event [OF Cons.prems(1,2)]] Cons.prems(3)
  show ?case by (simp add: run_events_def)
qed

end

context idempotency_contract
begin

lemma begin_claims:
  assumes "inv s" and "middleware_begin sha A s now token sc body = (Execute k t, s')"
  shows "t = token \<and> inv s' \<and> view s' k = Some \<lparr>rc_fingerprint = build_request_fingerprint sha sc body, rc_owner = token,
      rc_phase = Claiming (now + seconds claim_ttl), rc_expires_at = now + seconds receipt_ttl\<rparr>"
proof -
  from assms(2) have c: "ia_claim A s now k (build_request_fingerprint sha sc body) token = (Inr (Owner t), s')"
    unfolding begin_execute by blast
  with claim_owner [OF assms(1), of now k "build_request_fingerprint sha sc body" token t]
    claim_inv [OF assms(1), of now k "build_request_fingerprint sha sc body" token]
  show ?thesis by (auto simp: receipt.equality)
qed

text \<open>A stored response is replayed, or the reuse refused, until its receipt expires.\<close>

lemma stored_is_replayed:
  assumes "inv s0" and "middleware_begin sha A s0 t0 token sc body = (Execute k t, s1)"
    and "\<forall>e \<in> set es1. \<not> claims_as token e"
    and "middleware_finish A (run_events A es1 s1) t1 k t (Inr response) = (Inr (Sent live), s2)"
    and "should_store_response (rr_status_code response)"
    and "\<forall>e \<in> set es2. event_time e < t1 + seconds receipt_ttl" and "t2 < t1 + seconds receipt_ttl"
  shows "fst (middleware_begin sha A (run_events A es2 s2) t2 token2 sc body2) =
    Answered (if build_request_fingerprint sha sc body2 = build_request_fingerprint sha sc body
      then Sent (marked ''true'' response) else Refused 409 ''IDEMPOTENCY_KEY_REUSED'')"
proof -
  let ?f = "build_request_fingerprint sha sc body" and ?m = "run_events A es1 s1"
  from begin_claims [OF assms(1,2)] have t: "t = token" and inv1: "inv s1" and own: "owned_with s1 k token ?f"
    by (auto simp: owned_with_def)
  note invm = events_inv [OF inv1, of es1]
  have own: "owned_with ?m k token ?f" by (rule owned_with_events [OF inv1 own assms(3)])
  obtain ok where c: "ia_complete A ?m t1 k t response = (ok, s2)" and ok
    using assms(4,5) by (cases "ia_complete A ?m t1 k t response") (auto simp: middleware_finish_def split: if_splits)
  then obtain r where r: "claiming_of (view ?m k) t = Some r"
    using complete_refused [OF invm, of k t t1 response] by (cases "claiming_of (view ?m k) t") auto
  let ?r = "r\<lparr>rc_phase := Completed response, rc_expires_at := t1 + seconds receipt_ttl\<rparr>"
  have v2: "view s2 k = Some ?r" using complete_holder [OF invm r, of t1 response] c by simp
  have inv2: "inv s2" using complete_inv [OF invm, of t1 k t response] c by simp
  have f: "rc_fingerprint r = ?f" using own claiming_of_Some [OF r] t by (simp add: owned_with_def)
  have v3: "view (run_events A es2 s2) k = Some ?r"
    by (rule events_keep [OF inv2 v2]) (use assms(6) in simp_all)
  note inv3 = events_inv [OF inv2, of es2]
  have "fst (ia_claim A (run_events A es2 s2) t2 k g token2) =
      Inr (if g = ?f then Replay response else PayloadMismatch)" for g
    using claim_replay [OF inv3 v3, of t2 g response token2] claim_mismatch [OF inv3 v3, of t2 g token2] f assms(7)
    by auto
  then show ?thesis unfolding begin_again [OF assms(2)] by simp
qed

lemma one_executor:
  assumes "inv s0" and "middleware_begin sha A s0 t0 token sc body = (Execute k t, s1)"
    and "claim_lapse k token claim_ttl (t0 + seconds claim_ttl) es = Some lapse"
    and "\<forall>e \<in> set es. event_time e < t0 + seconds receipt_ttl"
    and "now < lapse" and "now < t0 + seconds receipt_ttl"
  shows "fst (middleware_begin sha A (run_events A es s1) now token2 sc body2) =
      Answered (Refused 409 (if build_request_fingerprint sha sc body2 = build_request_fingerprint sha sc body
        then ''IDEMPOTENCY_IN_PROGRESS'' else ''IDEMPOTENCY_KEY_REUSED''))"
    and "fst (middleware_finish A (run_events A es s1) later k t (Inr response)) = Inr (Sent (marked ''false'' response))"
proof -
  let ?f = "build_request_fingerprint sha sc body" and ?s = "run_events A es s1"
  from begin_claims [OF assms(1,2)] have t: "t = token" and inv1: "inv s1"
    and v1: "view s1 k = Some \<lparr>rc_fingerprint = ?f, rc_owner = token, rc_phase = Claiming (t0 + seconds claim_ttl),
      rc_expires_at = t0 + seconds receipt_ttl\<rparr>" by auto
  let ?r = "\<lparr>rc_fingerprint = ?f, rc_owner = token, rc_phase = Claiming lapse, rc_expires_at = t0 + seconds receipt_ttl\<rparr>"
  have v: "view ?s k = Some ?r" using claim_lapse_holds [OF inv1 v1, of "t0 + seconds claim_ttl" es lapse] assms(3,4) by simp
  note inv = events_inv [OF inv1, of es]
  have "fst (ia_claim A ?s now k g token2) = Inr (if g = ?f then InFlight else PayloadMismatch)" for g
    using claim_in_flight [OF inv v, of now g lapse token2] claim_mismatch [OF inv v, of now g token2] assms(5,6) by auto
  then show "fst (middleware_begin sha A ?s now token2 sc body2) =
      Answered (Refused 409 (if build_request_fingerprint sha sc body2 = ?f
        then ''IDEMPOTENCY_IN_PROGRESS'' else ''IDEMPOTENCY_KEY_REUSED''))"
    unfolding begin_again [OF assms(2)] by simp
  have "claiming_of (view ?s k) t = Some ?r" using v t by simp
  from complete_holder [OF inv this, of later response]
  show "fst (middleware_finish A ?s later k t (Inr response)) = Inr (Sent (marked ''false'' response))"
    by (simp add: middleware_finish_def case_prod_beta)
qed

lemma failure_is_retried:
  assumes "inv s0" and "middleware_begin sha A s0 t0 token sc body = (Execute k t, s1)"
    and "claim_lapse k token claim_ttl (t0 + seconds claim_ttl) es = Some lapse"
    and "\<forall>e \<in> set es. event_time e < t0 + seconds receipt_ttl"
    and "case outcome of Inl e \<Rightarrow> True | Inr response \<Rightarrow> \<not> should_store_response (rr_status_code response)"
  shows "fst (middleware_begin sha A (snd (middleware_finish A (run_events A es s1) t1 k t outcome)) t2 token2 sc body2) =
    Execute k token2"
proof -
  let ?f = "build_request_fingerprint sha sc body" and ?s = "run_events A es s1"
  from begin_claims [OF assms(1,2)] have t: "t = token" and inv1: "inv s1"
    and v1: "view s1 k = Some \<lparr>rc_fingerprint = ?f, rc_owner = token, rc_phase = Claiming (t0 + seconds claim_ttl),
      rc_expires_at = t0 + seconds receipt_ttl\<rparr>" by auto
  have v: "view ?s k = Some \<lparr>rc_fingerprint = ?f, rc_owner = token, rc_phase = Claiming lapse,
      rc_expires_at = t0 + seconds receipt_ttl\<rparr>"
    using claim_lapse_holds [OF inv1 v1, of "t0 + seconds claim_ttl" es lapse] assms(3,4) by simp
  note inv = events_inv [OF inv1, of es]
  have s2: "snd (middleware_finish A ?s t1 k t outcome) = snd (ia_release A ?s k t)"
    using assms(5) by (auto simp: middleware_finish_def split: sum.splits)
  from v t have "claiming_of (view ?s k) t \<noteq> None" by simp
  then have "view (snd (ia_release A ?s k t)) k = None" using release_holder [OF inv] by blast
  then have "\<forall>r. view (snd (ia_release A ?s k t)) k = Some r \<longrightarrow> rc_expires_at r \<le> t2" by simp
  from claim_free [OF release_inv [OF inv] this]
  have "fst (ia_claim A (snd (ia_release A ?s k t)) t2 k g token2) = Inr (Owner token2)" for g by simp
  then show ?thesis unfolding s2 begin_again [OF assms(2)] by simp
qed

end

subsection \<open>Properties of the durable authority\<close>

definition example_scope :: http_scope where
  "example_scope = \<lparr>sc_type = ''http'', sc_method = ''post'', sc_path = ''/v1/missions'', sc_query = [],
     sc_headers = [(''Idempotency-Key'', '' {6BA7B810-9dad-11d1-80b4-00c04fd430c8}'')],
     sc_tenant_id = Some ''acme'', sc_principal_id = Some ''bob''\<rparr>"

definition example_operation_key :: string where
  "example_operation_key =
     build_operation_key (\<lambda>x. x) example_scope ''{6BA7B810-9dad-11d1-80b4-00c04fd430c8}''"

definition example_rows :: "string \<Rightarrow> (time \<times> json) receipt_row list" where
  "example_rows body =
     snd (durable_claim plain_fernet 120 86400 [] 0 example_operation_key
       (build_request_fingerprint (\<lambda>x. x) example_scope body) ''w1'')"

definition example_response :: "int \<Rightarrow> replay_response" where
  "example_response status = \<lparr>rr_status_code = status, rr_headers = [(''content-type'', ''text/plain'')], rr_body = ''done''\<rparr>"

lemma example_key_accepted:
  "header_value ''idempotency-key'' example_scope = Some '' {6BA7B810-9dad-11d1-80b4-00c04fd430c8}''"
  "strip '' {6BA7B810-9dad-11d1-80b4-00c04fd430c8}'' = ''{6BA7B810-9dad-11d1-80b4-00c04fd430c8}''"
  "is_valid_uuid ''{6BA7B810-9dad-11d1-80b4-00c04fd430c8}''"
  "sc_type example_scope = ''http''" "map upper_char (sc_method example_scope) \<in> set mutating_methods"
  by code_simp+

lemma example_begin:
  "middleware_begin (\<lambda>x. x) (durable_authority plain_fernet 120 86400) [] 0 ''w1'' example_scope body =
     (Execute example_operation_key ''w1'', example_rows body)"
proof -
  have free: "durable_inv plain_fernet []" "\<forall>r. row_for k [] = Some r \<longrightarrow> ir_expires_at r \<le> 0" for k
    by (simp_all add: durable_inv_def row_for_def)
  show ?thesis unfolding begin_execute
    by (simp add: example_key_accepted example_operation_key_def durable_authority_def example_rows_def
        durable_claim_free [OF free])
qed

lemma example_inv: "durable_inv plain_fernet []"
  by (simp add: durable_inv_def)

text \<open>
  C22: exactly one result. Once a keyed request has executed and its storable response was
  recorded, every later request with the same scope and key, until the receipt expires and
  whatever other requests, heartbeats and stale owners do meanwhile, is answered with
  that response, marked as replayed, when its query and body are the same, and refused with a
  conflict when their digest differs; it never executes again.
\<close>

theorem idempotent_response_replayed:
  assumes "fernet_ok F" and "durable_inv F s0"
    and "middleware_begin sha (durable_authority F cttl rttl) s0 t0 token sc body = (Execute k t, s1)"
    and "\<forall>e \<in> set es1. \<not> claims_as token e"
    and "middleware_finish (durable_authority F cttl rttl) (run_events (durable_authority F cttl rttl) es1 s1) t1 k t
      (Inr response) = (Inr (Sent live), s2)"
    and "should_store_response (rr_status_code response)"
    and "\<forall>e \<in> set es2. event_time e < t1 + seconds rttl" and "t2 < t1 + seconds rttl"
  shows "fst (middleware_begin sha (durable_authority F cttl rttl) (run_events (durable_authority F cttl rttl) es2 s2)
      t2 token2 sc body2) =
    Answered (if build_request_fingerprint sha sc body2 = build_request_fingerprint sha sc body
      then Sent (marked ''true'' response) else Refused 409 ''IDEMPOTENCY_KEY_REUSED'')"
  by (rule idempotency_contract.stored_is_replayed [OF durable_contract [OF assms(1)] assms(2-8)])

lemma idempotent_response_replayed_witness:
  "\<exists>s2. fst (middleware_finish (durable_authority plain_fernet 120 86400) (example_rows ''x'') 5 example_operation_key
      ''w1'' (Inr (example_response 201))) = Inr (Sent (marked ''false'' (example_response 201))) \<and>
    fst (middleware_begin (\<lambda>x. x) (durable_authority plain_fernet 120 86400) s2 6 ''w2'' example_scope ''x'') =
      Answered (Sent (marked ''true'' (example_response 201)))"
proof -
  let ?A = "durable_authority plain_fernet 120 86400"
  let ?fin = "middleware_finish ?A (example_rows ''x'') 5 example_operation_key ''w1'' (Inr (example_response 201))"
  have fst: "fst ?fin = Inr (Sent (marked ''false'' (example_response 201)))"
    using durable.one_executor(2) [OF example_inv example_begin, where es = "[]" and lapse = "seconds 120" and now = 1]
    by (simp add: run_events_def seconds_def)
  then obtain s2 where s2: "?fin = (Inr (Sent (marked ''false'' (example_response 201))), s2)" by (cases ?fin) simp
  have "fst (middleware_begin (\<lambda>x. x) ?A (run_events ?A [] s2) 6 ''w2'' example_scope ''x'') =
      Answered (if build_request_fingerprint (\<lambda>x. x) example_scope ''x'' = build_request_fingerprint (\<lambda>x. x) example_scope ''x''
        then Sent (marked ''true'' (example_response 201)) else Refused 409 ''IDEMPOTENCY_KEY_REUSED'')"
  proof (rule idempotent_response_replayed [OF plain_fernet_ok example_inv example_begin])
    show "middleware_finish ?A (run_events ?A [] (example_rows ''x'')) 5 example_operation_key ''w1''
        (Inr (example_response 201)) = (Inr (Sent (marked ''false'' (example_response 201))), s2)"
      using s2 by (simp add: run_events_def)
  qed (simp_all add: should_store_response_def example_response_def seconds_def)
  with fst show ?thesis by (auto simp: run_events_def)
qed

text \<open>
  C10: one execution at a time. From the start of an execution until its claim lapses, renewals in
  time included, every other request with the same scope and key is refused with a conflict,
  and the execution still completes and answers its own response.
\<close>

theorem idempotent_single_executor:
  assumes "fernet_ok F" and "durable_inv F s0"
    and "middleware_begin sha (durable_authority F cttl rttl) s0 t0 token sc body = (Execute k t, s1)"
    and "claim_lapse k token cttl (t0 + seconds cttl) es = Some lapse"
    and "\<forall>e \<in> set es. event_time e < t0 + seconds rttl"
    and "now < lapse" and "now < t0 + seconds rttl"
  shows "(\<exists>why. fst (middleware_begin sha (durable_authority F cttl rttl)
        (run_events (durable_authority F cttl rttl) es s1) now token2 sc body2) = Answered (Refused 409 why)) \<and>
    fst (middleware_finish (durable_authority F cttl rttl) (run_events (durable_authority F cttl rttl) es s1) later k t
      (Inr response)) = Inr (Sent (marked ''false'' response))"
  using idempotency_contract.one_executor [OF durable_contract [OF assms(1)] assms(2-7)] by blast

lemma idempotent_single_executor_witness:
  "\<exists>why. fst (middleware_begin (\<lambda>x. x) (durable_authority plain_fernet 120 86400)
     (run_events (durable_authority plain_fernet 120 86400) [RenewEvent (seconds 100) example_operation_key ''w1'']
       (example_rows ''x'')) (seconds 200) ''w2'' example_scope ''x'') = Answered (Refused 409 why)"
proof -
  let ?es = "[RenewEvent (seconds 100) example_operation_key ''w1'']"
  have lapse: "claim_lapse example_operation_key ''w1'' 120 (0 + seconds 120) ?es = Some (seconds 220)"
    and early: "\<forall>e \<in> set ?es. event_time e < 0 + seconds 86400" and
    now: "seconds 200 < seconds 220" "seconds 200 < 0 + seconds 86400"
    by (simp_all add: seconds_def)
  from idempotent_single_executor [OF plain_fernet_ok example_inv example_begin lapse early now] show ?thesis by blast
qed

text \<open>
  Failures are not sticky. When the application raised, or answered 429 or a server error,
  the receipt is released, and the next request with the same scope and key executes, even
  with another body.
\<close>

theorem idempotent_failure_released:
  assumes "fernet_ok F" and "durable_inv F s0"
    and "middleware_begin sha (durable_authority F cttl rttl) s0 t0 token sc body = (Execute k t, s1)"
    and "claim_lapse k token cttl (t0 + seconds cttl) es = Some lapse"
    and "\<forall>e \<in> set es. event_time e < t0 + seconds rttl"
    and "case outcome of Inl e \<Rightarrow> True | Inr response \<Rightarrow> 500 \<le> rr_status_code response \<or> rr_status_code response = 429"
  shows "fst (middleware_begin sha (durable_authority F cttl rttl)
      (snd (middleware_finish (durable_authority F cttl rttl) (run_events (durable_authority F cttl rttl) es s1) t1 k t
        outcome)) t2 token2 sc body2) = Execute k token2"
  by (rule idempotency_contract.failure_is_retried [OF durable_contract [OF assms(1)] assms(2-5)])
    (use assms(6) in \<open>auto simp: should_store_response_def split: sum.splits\<close>)

lemma idempotent_failure_released_witness:
  "fst (middleware_begin (\<lambda>x. x) (durable_authority plain_fernet 120 86400)
     (snd (middleware_finish (durable_authority plain_fernet 120 86400)
       (run_events (durable_authority plain_fernet 120 86400) [] (example_rows ''x'')) 5 example_operation_key ''w1''
       (Inr (example_response 503)))) 6 ''w2'' example_scope ''y'') = Execute example_operation_key ''w2''"
  by (rule idempotent_failure_released [OF plain_fernet_ok example_inv example_begin, where es = "[]" and lapse = "seconds 120"])
    (simp_all add: example_response_def)

subsection \<open>Scopes of the operation key\<close>

lemma split_at_NUL:
  "NUL \<notin> set a \<Longrightarrow> NUL \<notin> set b \<Longrightarrow> a @ NUL # x = b @ NUL # y \<Longrightarrow> a = b \<and> x = y"
proof (induction a arbitrary: b)
  case Nil
  then show ?case by (cases b) auto
next
  case (Cons c a)
  then show ?case by (cases b) auto
qed

lemma split_at_last_NUL:
  assumes "NUL \<notin> set a" and "NUL \<notin> set b" and "x @ NUL # a = y @ NUL # b"
  shows "x = y \<and> a = b"
proof -
  have "rev a @ NUL # rev x = rev b @ NUL # rev y"
    using arg_cong [OF assms(3), of rev] by simp
  from split_at_NUL [OF _ _ this] assms show ?thesis by simp
qed

text \<open>
  Keys of different clients never meet. Unless SHA-256 collides on them, two requests share an
  operation key only when they have the same key, method, path and namespace, whatever the
  paths contain; and the namespaces of two authenticated requests are the same only for the
  same tenant and principal, for tenants without a bar.
\<close>

theorem operation_keys_isolated:
  assumes "inj sha256" and "build_operation_key sha256 sc k = build_operation_key sha256 sc' k'"
    and "NUL \<notin> set (scope_namespace sc)" and "NUL \<notin> set (scope_namespace sc')"
    and "NUL \<notin> set (map upper_char (sc_method sc))" and "NUL \<notin> set (map upper_char (sc_method sc'))"
    and "NUL \<notin> set k" and "NUL \<notin> set k'"
  shows "k = k' \<and> map upper_char (sc_method sc) = map upper_char (sc_method sc') \<and> sc_path sc = sc_path sc' \<and>
    (sc_tenant_id sc = Some t \<longrightarrow> sc_principal_id sc = Some p \<longrightarrow> sc_tenant_id sc' = Some t' \<longrightarrow>
      sc_principal_id sc' = Some p' \<longrightarrow> CHR ''|'' \<notin> set t \<longrightarrow> CHR ''|'' \<notin> set t' \<longrightarrow> t = t' \<and> p = p')"
proof -
  have "key_material sc k = key_material sc' k'" using assms(1,2) by (simp add: build_operation_key_def inj_eq)
  then have m: "scope_namespace sc @ NUL # (map upper_char (sc_method sc) @ NUL # (sc_path sc @ NUL # k)) =
      scope_namespace sc' @ NUL # (map upper_char (sc_method sc') @ NUL # (sc_path sc' @ NUL # k'))"
    by (simp add: key_material_def)
  from split_at_NUL [OF assms(3,4) m] have n: "scope_namespace sc = scope_namespace sc'"
    and m2: "map upper_char (sc_method sc) @ NUL # (sc_path sc @ NUL # k) =
      map upper_char (sc_method sc') @ NUL # (sc_path sc' @ NUL # k')" by blast+
  from split_at_NUL [OF assms(5,6) m2] have me: "map upper_char (sc_method sc) = map upper_char (sc_method sc')"
    and m3: "sc_path sc @ NUL # k = sc_path sc' @ NUL # k'" by blast+
  from split_at_last_NUL [OF assms(7,8) m3] have pk: "sc_path sc = sc_path sc'" "k = k'" by blast+
  have bar: "a @ CHR ''|'' # x = b @ CHR ''|'' # y \<Longrightarrow> CHR ''|'' \<notin> set a \<Longrightarrow> CHR ''|'' \<notin> set b \<Longrightarrow> a = b \<and> x = y"
    for a b x y :: string
  proof (induction a arbitrary: b)
    case Nil
    then show ?case by (cases b) auto
  next
    case (Cons c a)
    then show ?case by (cases b) auto
  qed
  have "t = t' \<and> p = p'" if "sc_tenant_id sc = Some t" "sc_principal_id sc = Some p" "sc_tenant_id sc' = Some t'"
    "sc_principal_id sc' = Some p'" "CHR ''|'' \<notin> set t" "CHR ''|'' \<notin> set t'"
    using n that bar [of t "''principal:'' @ p" t' "''principal:'' @ p'"] by (simp add: scope_namespace_def)
  with pk me show ?thesis by blast
qed

lemma operation_keys_isolated_witness:
  "build_operation_key (\<lambda>x. x) example_scope ''k'' = build_operation_key (\<lambda>x. x) (example_scope\<lparr>sc_query := ''a=1''\<rparr>) ''k'' \<and>
   sc_path example_scope = sc_path (example_scope\<lparr>sc_query := ''a=1''\<rparr>)"
proof -
  have same: "build_operation_key (\<lambda>x. x) example_scope ''k'' =
      build_operation_key (\<lambda>x. x) (example_scope\<lparr>sc_query := ''a=1''\<rparr>) ''k''"
    by (simp add: build_operation_key_def key_material_def scope_namespace_def)
  have n: "NUL \<notin> set (scope_namespace example_scope)"
    "NUL \<notin> set (scope_namespace (example_scope\<lparr>sc_query := ''a=1''\<rparr>))"
    "NUL \<notin> set (map upper_char (sc_method example_scope))"
    "NUL \<notin> set (map upper_char (sc_method (example_scope\<lparr>sc_query := ''a=1''\<rparr>)))"
    "NUL \<notin> set ''k''"
    by code_simp+
  from operation_keys_isolated [OF inj_on_id2 same n(1-5) n(5)] same show ?thesis by blast
qed

end
