(* ===== verification/Governance.thy ===== *)
theory Governance
  imports Domain
begin

section \<open>Governance decisions\<close>

text \<open>
  The decisions the execution coordinator asks for before a task is queued:
  \<open>domain/compliance.py\<close> and \<open>services/policy_guardian.py\<close> (compliance of a task or mission),
  \<open>services/runtime_governor.py\<close> with \<open>services/control_specialist.py\<close> (health of the runtime),
  \<open>services/retry_policy.py\<close> and \<open>services/circuit_breaker.py\<close>.
\<close>

subsection \<open>Categories and jurisdictions\<close>

datatype compliance_category =
    Operational | ConsumerInteraction | Marketing | Employment | Financial | Healthcare | PublicContent

fun category_value :: "compliance_category \<Rightarrow> string" where
  "category_value Operational = ''operational''"
| "category_value ConsumerInteraction = ''consumer_interaction''"
| "category_value Marketing = ''marketing''"
| "category_value Employment = ''employment''"
| "category_value Financial = ''financial''"
| "category_value Healthcare = ''healthcare''"
| "category_value PublicContent = ''public_content''"

definition allowed_compliance_categories :: "string list" where
  "allowed_compliance_categories =
     map category_value [Operational, ConsumerInteraction, Marketing, Employment, Financial, Healthcare, PublicContent]"

definition canonical_explicit_jurisdictions :: "string list" where
  "canonical_explicit_jurisdictions = [''US-ALL'', ''US-CO'', ''US-NY'', ''global'']"

definition is_supported_compliance_category :: "string \<Rightarrow> bool" where
  "is_supported_compliance_category value \<longleftrightarrow> value \<in> set allowed_compliance_categories"

text \<open>The two regular expressions, matched against the whole text.\<close>

definition capital :: "char \<Rightarrow> bool" where
  "capital c \<longleftrightarrow> c \<in> set ''ABCDEFGHIJKLMNOPQRSTUVWXYZ''"

fun us_state_jurisdiction :: "string \<Rightarrow> bool" where
  "us_state_jurisdiction [u, s, d, a, b] = ([u, s, d] = ''US-'' \<and> capital a \<and> capital b)"
| "us_state_jurisdiction _ = False"

fun eu_jurisdiction :: "string \<Rightarrow> bool" where
  "eu_jurisdiction [e, u] = ([e, u] = ''EU'')"
| "eu_jurisdiction [e, u, d, a, b] = ([e, u, d] = ''EU-'' \<and> capital a \<and> capital b)"
| "eu_jurisdiction _ = False"

definition is_supported_jurisdiction :: "string \<Rightarrow> bool" where
  "is_supported_jurisdiction value \<longleftrightarrow>
     value \<in> set canonical_explicit_jurisdictions \<or> us_state_jurisdiction value \<or> eu_jurisdiction value"

subsection \<open>The policy guardian\<close>

record policy_decision =
  pd_allowed :: bool
  pd_reason :: string

definition allow :: "string \<Rightarrow> policy_decision" where
  "allow why = \<lparr>pd_allowed = True, pd_reason = why\<rparr>"

definition deny :: "string \<Rightarrow> policy_decision" where
  "deny why = \<lparr>pd_allowed = False, pd_reason = why\<rparr>"

definition validate_privileged_action :: "string \<Rightarrow> string \<Rightarrow> policy_decision" where
  "validate_privileged_action tenant_id action =
     (if strip tenant_id = [] then deny ''tenant_id is required''
      else deny (''Privileged action '' @ quoted action @ '' is not enabled in Phase 1 foundation.''))"

definition high_risk :: "string \<Rightarrow> bool" where
  "high_risk category \<longleftrightarrow> category \<in> category_value ` {Employment, Financial, Healthcare}"

text \<open>\<open>_evaluate_jurisdiction_policy\<close>: the blocks in their order; the first that objects decides.\<close>

definition eu_policy :: "string \<Rightarrow> dict \<Rightarrow> policy_decision option" where
  "eu_policy category metadata =
     (if high_risk category \<and> map_of metadata ''eu_technical_doc_ref'' = None
      then Some (deny (''EU AI Act violation: High-risk category '' @ quoted category @
             '' missing technical doc reference (Annex III).''))
      else if category = category_value ConsumerInteraction \<and> \<not> get_truthy metadata ''disclosure_provided''
      then Some (deny ''EU AI Act violation: Consumer interaction missing AI disclosure.'')
      else None)"

definition colorado_policy :: "string \<Rightarrow> dict \<Rightarrow> policy_decision option" where
  "colorado_policy category metadata =
     (if high_risk category
      then if \<not> get_truthy metadata ''consequential_decision_disclosure''
           then Some (deny ''Colorado SB24-205 violation: Consequential decision missing disclosure.'')
           else if \<not> get_truthy metadata ''appeal_path_provided''
           then Some (deny ''Colorado SB24-205 violation: Consequential decision missing appeal path.'')
           else None
      else None)"

definition new_york_policy :: "string \<Rightarrow> dict \<Rightarrow> policy_decision option" where
  "new_york_policy category metadata =
     (if category = category_value Employment \<and> map_of metadata ''bias_audit_date'' = None
      then Some (deny ''NYC LL144 violation: Employment tool missing bias audit date.'')
      else None)"

definition marketing_policy :: "string \<Rightarrow> dict \<Rightarrow> policy_decision option" where
  "marketing_policy category metadata =
     (if category = category_value Marketing
      then if \<not> get_truthy metadata ''opt_out_provided''
           then Some (deny ''FTC CAN-SPAM violation: Marketing workflow missing opt-out mechanism.'')
           else if get_truthy metadata ''uses_ai_voice'' \<and> \<not> get_truthy metadata ''prior_express_consent''
           then Some (deny ''FCC TCPA violation: AI voice outreach missing prior express consent.'')
           else None
      else None)"

fun first_objection :: "policy_decision option list \<Rightarrow> policy_decision" where
  "first_objection [] = allow ''Jurisdictional compliance checks passed''"
| "first_objection (None # ds) = first_objection ds"
| "first_objection (Some d # ds) = d"

definition evaluate_jurisdiction_policy :: "string \<Rightarrow> string \<Rightarrow> dict \<Rightarrow> policy_decision" where
  "evaluate_jurisdiction_policy category jurisdiction metadata =
     (if \<not> is_supported_compliance_category category
      then deny (''Unsupported compliance category: '' @ category)
      else if \<not> is_supported_jurisdiction jurisdiction
      then deny (''Unsupported compliance jurisdiction: '' @ jurisdiction)
      else first_objection
        [if starts_with jurisdiction ''EU'' then eu_policy category metadata else None,
         if jurisdiction = ''US-CO'' then colorado_policy category metadata else None,
         if jurisdiction = ''US-NY'' then new_york_policy category metadata else None,
         marketing_policy category metadata])"

definition evaluate_mission :: "mission \<Rightarrow> policy_decision" where
  "evaluate_mission m =
     (if m_compliance_category m = category_value Operational then allow ''Operational mission allowed''
      else evaluate_jurisdiction_policy (m_compliance_category m) (m_jurisdiction m) (m_metadata m))"

text \<open>\<open>x or default\<close> on texts.\<close>

definition or_default :: "string \<Rightarrow> string \<Rightarrow> string" where
  "or_default s d = (if s = [] then d else s)"

definition evaluate_task :: "execution_task \<Rightarrow> policy_decision" where
  "evaluate_task t =
     (if t_compliance_category t = category_value Operational then allow ''Operational task allowed''
      else if t_compliance_category t \<in> category_value ` {Employment, Financial} \<and> \<not> t_requires_human_review t
      then deny (''Policy violation: Task '' @ t_id t @ '' in category '' @ t_compliance_category t @
             '' requires human review but requires_human_review is False.'')
      else evaluate_jurisdiction_policy (or_default (t_compliance_category t) (category_value Operational))
             (or_default (t_jurisdiction t) ''US-ALL'') (t_compliance_metadata t))"

subsection \<open>The runtime governor\<close>

datatype runtime_mode = Normal | Degraded | Restricted | Recovery

record runtime_decision =
  gv_mode :: runtime_mode
  gv_provisioning_allowed :: bool
  gv_execution_allowed :: bool
  gv_reason :: string

record continuity_assessment =
  ca_dependency_healthy :: bool
  ca_continuity_floor_met :: bool
  ca_signal :: string
  ca_failure_reason :: string

text \<open>The health check, given whether \<open>SELECT 1\<close> succeeded.\<close>

definition assess_foundation_health :: "bool \<Rightarrow> continuity_assessment" where
  "assess_foundation_health db_alive =
     (if db_alive
      then \<lparr>ca_dependency_healthy = True, ca_continuity_floor_met = True, ca_signal = ''normal'', ca_failure_reason = []\<rparr>
      else \<lparr>ca_dependency_healthy = False, ca_continuity_floor_met = False, ca_signal = ''degraded'',
            ca_failure_reason = ''Database connectivity check failed (SELECT 1 raised exception)''\<rparr>)"

text \<open>\<open>evaluate\<close> on what the health check returned or raised; the dash of its message is two hyphens here.\<close>

definition governor_evaluate :: "continuity_assessment result \<Rightarrow> runtime_decision" where
  "governor_evaluate assessment =
     (case assessment of
        Inl e \<Rightarrow> \<lparr>gv_mode = Degraded, gv_provisioning_allowed = False, gv_execution_allowed = True,
           gv_reason = ''Health check failed -- operating in degraded drain mode: '' @ exn_text e\<rparr>
      | Inr a \<Rightarrow>
          if ca_continuity_floor_met a
          then \<lparr>gv_mode = Normal, gv_provisioning_allowed = True, gv_execution_allowed = True,
                gv_reason = ''All dependencies healthy. Normal execution permitted.''\<rparr>
          else \<lparr>gv_mode = Degraded, gv_provisioning_allowed = False, gv_execution_allowed = True,
                gv_reason = ''Dependency health degraded below continuity floor. New provisioning blocked.''\<rparr>)"

definition force_restricted :: "string \<Rightarrow> runtime_decision" where
  "force_restricted why =
     \<lparr>gv_mode = Restricted, gv_provisioning_allowed = False, gv_execution_allowed = False, gv_reason = why\<rparr>"

subsection \<open>Retries and the circuit breaker\<close>

record retry_decision =
  rt_retry :: bool
  rt_delay_seconds :: int
  rt_terminal :: bool

definition retry_policy_evaluate :: "int \<Rightarrow> int \<Rightarrow> int \<Rightarrow> bool \<Rightarrow> retry_decision" where
  "retry_policy_evaluate max_attempts base_delay attempt_number terminal_failure =
     (if terminal_failure then \<lparr>rt_retry = False, rt_delay_seconds = 0, rt_terminal = True\<rparr>
      else if attempt_number \<ge> max_attempts then \<lparr>rt_retry = False, rt_delay_seconds = 0, rt_terminal = True\<rparr>
      else \<lparr>rt_retry = True, rt_delay_seconds = base_delay * max 1 attempt_number, rt_terminal = False\<rparr>)"

record circuit_breaker =
  cb_failure_threshold :: int
  cb_failure_count :: int
  cb_open :: bool

definition circuit_breaker_init :: "int \<Rightarrow> circuit_breaker" where
  "circuit_breaker_init threshold = \<lparr>cb_failure_threshold = threshold, cb_failure_count = 0, cb_open = False\<rparr>"

definition record_success :: "circuit_breaker \<Rightarrow> circuit_breaker" where
  "record_success b = b\<lparr>cb_failure_count := 0, cb_open := False\<rparr>"

definition record_failure :: "circuit_breaker \<Rightarrow> circuit_breaker" where
  "record_failure b =
     (let b = b\<lparr>cb_failure_count := cb_failure_count b + 1\<rparr>
      in if cb_failure_count b \<ge> cb_failure_threshold b then b\<lparr>cb_open := True\<rparr> else b)"

definition breaker_allow :: "circuit_breaker \<Rightarrow> bool" where
  "breaker_allow b = (\<not> cb_open b)"

subsection \<open>What the guardian requires\<close>

text \<open>The evidence a category needs in a jurisdiction, whatever the order in which it is looked for.\<close>

definition evidence_complete :: "string \<Rightarrow> string \<Rightarrow> dict \<Rightarrow> bool" where
  "evidence_complete category jurisdiction metadata \<longleftrightarrow>
     (starts_with jurisdiction ''EU'' \<longrightarrow>
        (high_risk category \<longrightarrow> map_of metadata ''eu_technical_doc_ref'' \<noteq> None) \<and>
        (category = category_value ConsumerInteraction \<longrightarrow> get_truthy metadata ''disclosure_provided'')) \<and>
     (jurisdiction = ''US-CO'' \<longrightarrow> high_risk category \<longrightarrow>
        get_truthy metadata ''consequential_decision_disclosure'' \<and> get_truthy metadata ''appeal_path_provided'') \<and>
     (jurisdiction = ''US-NY'' \<longrightarrow> category = category_value Employment \<longrightarrow>
        map_of metadata ''bias_audit_date'' \<noteq> None) \<and>
     (category = category_value Marketing \<longrightarrow> get_truthy metadata ''opt_out_provided'' \<and>
        (get_truthy metadata ''uses_ai_voice'' \<longrightarrow> get_truthy metadata ''prior_express_consent''))"

lemma decision_simps [simp]: "pd_allowed (allow w)" "\<not> pd_allowed (deny w)" "pd_reason (deny w) = w"
  by (simp_all add: allow_def deny_def)

text \<open>An objection is a denial, so nothing is allowed past one.\<close>

lemma policies_deny:
  "eu_policy c m = Some d \<Longrightarrow> \<not> pd_allowed d" "colorado_policy c m = Some d \<Longrightarrow> \<not> pd_allowed d"
  "new_york_policy c m = Some d \<Longrightarrow> \<not> pd_allowed d" "marketing_policy c m = Some d \<Longrightarrow> \<not> pd_allowed d"
  by (auto simp: eu_policy_def colorado_policy_def new_york_policy_def marketing_policy_def split: if_splits)

lemma policies_pass:
  "eu_policy c m = None \<longleftrightarrow> (high_risk c \<longrightarrow> map_of m ''eu_technical_doc_ref'' \<noteq> None) \<and>
     (c = category_value ConsumerInteraction \<longrightarrow> get_truthy m ''disclosure_provided'')"
  "colorado_policy c m = None \<longleftrightarrow> (high_risk c \<longrightarrow>
     get_truthy m ''consequential_decision_disclosure'' \<and> get_truthy m ''appeal_path_provided'')"
  "new_york_policy c m = None \<longleftrightarrow> (c = category_value Employment \<longrightarrow> map_of m ''bias_audit_date'' \<noteq> None)"
  "marketing_policy c m = None \<longleftrightarrow> (c = category_value Marketing \<longrightarrow> get_truthy m ''opt_out_provided'' \<and>
     (get_truthy m ''uses_ai_voice'' \<longrightarrow> get_truthy m ''prior_express_consent''))"
  by (auto simp: eu_policy_def colorado_policy_def new_york_policy_def marketing_policy_def)

lemma first_objection_allowed:
  "\<forall>d \<in> set ds. \<forall>p. d = Some p \<longrightarrow> \<not> pd_allowed p \<Longrightarrow> pd_allowed (first_objection ds) \<longleftrightarrow> (\<forall>d \<in> set ds. d = None)"
  by (induction ds rule: first_objection.induct) auto

lemma jurisdiction_allowed:
  "pd_allowed (evaluate_jurisdiction_policy c j m) \<longleftrightarrow>
     is_supported_compliance_category c \<and> is_supported_jurisdiction j \<and> evidence_complete c j m"
proof -
  let ?ds = "[if starts_with j ''EU'' then eu_policy c m else None, if j = ''US-CO'' then colorado_policy c m else None,
     if j = ''US-NY'' then new_york_policy c m else None, marketing_policy c m]"
  have "\<forall>d \<in> set ?ds. \<forall>p. d = Some p \<longrightarrow> \<not> pd_allowed p" using policies_deny by auto
  note first = first_objection_allowed [OF this]
  have guard: "(if P then x else None) = None \<longleftrightarrow> (P \<longrightarrow> x = None)" for P and x :: "policy_decision option" by simp
  have "(\<forall>d \<in> set ?ds. d = None) \<longleftrightarrow>
      (starts_with j ''EU'' \<longrightarrow> eu_policy c m = None) \<and> (j = ''US-CO'' \<longrightarrow> colorado_policy c m = None) \<and>
      (j = ''US-NY'' \<longrightarrow> new_york_policy c m = None) \<and> marketing_policy c m = None"
    unfolding list.set ball_simps guard by blast
  also have "\<dots> \<longleftrightarrow> evidence_complete c j m" unfolding evidence_complete_def policies_pass by (rule refl)
  finally have "pd_allowed (first_objection ?ds) \<longleftrightarrow> evidence_complete c j m" unfolding first .
  then show ?thesis by (simp add: evaluate_jurisdiction_policy_def)
qed

text \<open>
  C23: the guardian lets a task run exactly when it is operational, or its category and jurisdiction
  (with their defaults) are supported, employment and financial tasks are marked for human
  review, and the evidence its category needs there is complete. In particular no order of
  the checks can let a later objection through.
\<close>

theorem guardian_task_allowed_iff:
  "pd_allowed (evaluate_task t) \<longleftrightarrow>
     t_compliance_category t = ''operational'' \<or>
     ((t_compliance_category t \<in> {''employment'', ''financial''} \<longrightarrow> t_requires_human_review t) \<and>
      is_supported_compliance_category (or_default (t_compliance_category t) ''operational'') \<and>
      is_supported_jurisdiction (or_default (t_jurisdiction t) ''US-ALL'') \<and>
      evidence_complete (or_default (t_compliance_category t) ''operational'') (or_default (t_jurisdiction t) ''US-ALL'')
        (t_compliance_metadata t))"
  by (auto simp: evaluate_task_def jurisdiction_allowed)

definition employment_task :: execution_task where
  "employment_task = \<lparr>t_id = ''t'', t_tenant_id = ''acme'', t_mission_id = None, t_fleet_id = None, t_branch_id = None,
     t_assigned_agent_id = None, t_title = ''screen'', t_description = [], t_status = TPlanned, t_metadata = [],
     t_compliance_category = ''employment'', t_jurisdiction = ''US-CO'', t_requires_human_review = True,
     t_compliance_metadata = [(''consequential_decision_disclosure'', JBool True), (''appeal_path_provided'', JBool True)],
     t_retry_count = 0, t_created_at = 0, t_updated_at = 0\<rparr>"

lemma guardian_task_allowed_iff_witness:
  "pd_allowed (evaluate_task employment_task) \<and> \<not> pd_allowed (evaluate_task (employment_task\<lparr>t_requires_human_review := False\<rparr>))"
  unfolding guardian_task_allowed_iff
  by (simp add: employment_task_def or_default_def is_supported_compliance_category_def allowed_compliance_categories_def
      is_supported_jurisdiction_def canonical_explicit_jurisdictions_def evidence_complete_def high_risk_def get_truthy_def)

text \<open>
  Evidence never hurts. A task that is allowed stays allowed when its compliance metadata gains
  entries or values become true, as long as it is not newly declared to use an AI voice.
\<close>

theorem guardian_evidence_monotone:
  assumes "pd_allowed (evaluate_task t)"
    and "\<forall>k. map_of (t_compliance_metadata t) k \<noteq> None \<longrightarrow> map_of metadata k \<noteq> None"
    and "\<forall>k. get_truthy (t_compliance_metadata t) k \<longrightarrow> get_truthy metadata k"
    and "get_truthy metadata ''uses_ai_voice'' \<longrightarrow> get_truthy (t_compliance_metadata t) ''uses_ai_voice''"
  shows "pd_allowed (evaluate_task (t\<lparr>t_compliance_metadata := metadata\<rparr>))"
proof -
  have "evidence_complete c j metadata" if "evidence_complete c j (t_compliance_metadata t)" for c j
    using that assms(2-4) unfolding evidence_complete_def by blast
  with assms(1) show ?thesis by (auto simp: evaluate_task_def jurisdiction_allowed split: if_splits)
qed

lemma guardian_evidence_monotone_witness:
  "pd_allowed (evaluate_task (employment_task\<lparr>t_compliance_metadata :=
     [(''note'', JNull), (''consequential_decision_disclosure'', JBool True), (''appeal_path_provided'', JBool True)]\<rparr>))"
proof (rule guardian_evidence_monotone)
  show "pd_allowed (evaluate_task employment_task)"
    by (simp add: evaluate_task_def jurisdiction_allowed employment_task_def or_default_def
      is_supported_compliance_category_def allowed_compliance_categories_def is_supported_jurisdiction_def
      canonical_explicit_jurisdictions_def evidence_complete_def high_risk_def get_truthy_def)
qed (auto simp: employment_task_def get_truthy_def)

subsection \<open>The breaker\<close>

definition after_outcomes :: "bool list \<Rightarrow> circuit_breaker \<Rightarrow> circuit_breaker" where
  "after_outcomes outcomes b = fold (\<lambda>ok b. if ok then record_success b else record_failure b) outcomes b"

text \<open>
  The breaker is open exactly when the last recorded outcomes are at least threshold many
  failures in a row: one success closes it whatever came before, and it never opens early.
\<close>

theorem breaker_open_iff:
  assumes "0 < threshold"
  shows "\<not> breaker_allow (after_outcomes outcomes (circuit_breaker_init threshold)) \<longleftrightarrow>
    threshold \<le> int (length (takeWhile Not (rev outcomes)))"
proof -
  have "cb_failure_threshold b = threshold \<and> cb_failure_count b = int (length (takeWhile Not (rev outcomes))) \<and>
      cb_open b = (threshold \<le> int (length (takeWhile Not (rev outcomes))))"
    if "b = after_outcomes outcomes (circuit_breaker_init threshold)" for b
    using that
  proof (induction outcomes arbitrary: b rule: rev_induct)
    case Nil
    then show ?case using assms by (simp add: after_outcomes_def circuit_breaker_init_def)
  next
    case (snoc ok outcomes)
    then show ?case
      using assms snoc.IH [OF refl] by (cases ok) (auto simp: after_outcomes_def record_success_def record_failure_def Let_def)
  qed
  then show ?thesis by (simp add: breaker_allow_def)
qed

lemma breaker_open_iff_witness:
  "\<not> breaker_allow (after_outcomes [False, True, False, False] (circuit_breaker_init 2)) \<and>
   breaker_allow (after_outcomes [False, False, True, False] (circuit_breaker_init 2))"
  using breaker_open_iff [of 2 "[False, True, False, False]"] breaker_open_iff [of 2 "[False, False, True, False]"] by simp

end
