(* ===== verification/Scheduler.thy ===== *)
theory Scheduler
  imports QueueBase LocalQueue
begin

section \<open>Which tenant a worker polls\<close>

text \<open>
  \<open>backend/workers/tenant_scheduler.py\<close>: the fixed and the round-robin claim targets. The clock
  is a rational number of seconds and stands still during one call; what the repository's
  \<open>list_active_tenant_ids\<close> returns or raises is an argument of the call, since it reads a
  database others write. The queue, when the target has one, is an adapter and its state.
\<close>

record round_robin =
  rr_refresh_interval :: rat
  rr_has_queue :: bool
  rr_tenant_ids :: "string list"
  rr_priority_tenant_ids :: "string list"
  rr_index :: nat
  rr_sticky_tenant_id :: "string option"
  rr_last_refresh :: rat

definition round_robin_init :: "rat \<Rightarrow> bool \<Rightarrow> round_robin" where
  "round_robin_init interval has_queue =
     \<lparr>rr_refresh_interval = interval, rr_has_queue = has_queue, rr_tenant_ids = [], rr_priority_tenant_ids = [],
      rr_index = 0, rr_sticky_tenant_id = None, rr_last_refresh = 0\<rparr>"

fun tenants_with_pending_work :: "'q queue_adapter \<Rightarrow> 'q \<Rightarrow> string list \<Rightarrow> string list \<times> 'q" where
  "tenants_with_pending_work Q q [] = ([], q)"
| "tenants_with_pending_work Q q (t # ts) =
     (case pending_depth Q q t of
        (depth, q1) \<Rightarrow>
          (case tenants_with_pending_work Q q1 ts of
             (rest, q2) \<Rightarrow> (if depth > 0 then t # rest else rest, q2)))"

definition maybe_refresh ::
  "'q queue_adapter \<Rightarrow> rat \<Rightarrow> string list result \<Rightarrow> round_robin \<Rightarrow> 'q \<Rightarrow> unit result \<times> round_robin \<times> 'q" where
  "maybe_refresh Q now active rr q =
     (if rr_tenant_ids rr \<noteq> [] \<and> now - rr_last_refresh rr < rr_refresh_interval rr then (Inr (), rr, q)
      else (case active of
          Inl e \<Rightarrow> (Inl e, rr, q)
        | Inr tenant_ids \<Rightarrow>
            (case (if rr_has_queue rr then tenants_with_pending_work Q q tenant_ids else ([], q)) of
               (priority, q1) \<Rightarrow>
                 (Inr (),
                  rr\<lparr>rr_tenant_ids := tenant_ids, rr_priority_tenant_ids := priority,
                     rr_sticky_tenant_id := (case rr_sticky_tenant_id rr of
                        Some t \<Rightarrow> if t \<in> set tenant_ids then Some t else None | None \<Rightarrow> None),
                     rr_last_refresh := now\<rparr>,
                  q1))))"

definition candidates :: "round_robin \<Rightarrow> string list" where
  "candidates rr = (if rr_priority_tenant_ids rr \<noteq> [] then rr_priority_tenant_ids rr else rr_tenant_ids rr)"

definition pick_tenant :: "round_robin \<Rightarrow> string option \<times> round_robin" where
  "pick_tenant rr =
     (if rr_tenant_ids rr = [] then (None, rr)
      else case rr_sticky_tenant_id rr of
        Some t \<Rightarrow> (Some t, rr)
      | None \<Rightarrow>
          (Some (candidates rr ! (rr_index rr mod length (candidates rr))),
           rr\<lparr>rr_index := (rr_index rr + 1) mod length (candidates rr)\<rparr>))"

definition next_tenant_id ::
  "'q queue_adapter \<Rightarrow> rat \<Rightarrow> string list result \<Rightarrow> round_robin \<Rightarrow> 'q \<Rightarrow> string option result \<times> round_robin \<times> 'q" where
  "next_tenant_id Q now active rr q =
     (case maybe_refresh Q now active rr q of
        (Inl e, rr1, q1) \<Rightarrow> (Inl e, rr1, q1)
      | (Inr _, rr1, q1) \<Rightarrow> (case pick_tenant rr1 of (t, rr2) \<Rightarrow> (Inr t, rr2, q1)))"

definition record_claim_result :: "string \<Rightarrow> bool \<Rightarrow> round_robin \<Rightarrow> round_robin" where
  "record_claim_result tenant_id claimed rr =
     (if claimed then rr\<lparr>rr_sticky_tenant_id := Some tenant_id\<rparr>
      else if rr_sticky_tenant_id rr = Some tenant_id then rr\<lparr>rr_sticky_tenant_id := None\<rparr>
      else rr)"

text \<open>The fixed target and the choice between the two.\<close>

definition fixed_next_tenant_id :: "string \<Rightarrow> string option" where
  "fixed_next_tenant_id tenant_id = (if strip tenant_id = [] then None else Some (strip tenant_id))"

datatype claim_target = FixedTarget string | RoundRobinTarget round_robin

definition build_claim_target :: "string \<Rightarrow> rat \<Rightarrow> string \<Rightarrow> bool \<Rightarrow> claim_target" where
  "build_claim_target mode refresh_seconds worker_tenant_id has_queue =
     (if mode = ''multi'' then RoundRobinTarget (round_robin_init refresh_seconds has_queue)
      else FixedTarget worker_tenant_id)"

subsection \<open>Polling\<close>

text \<open>
  A worker's polls: each asks for a tenant and records whether it claimed a task there. The list
  gives for every poll the clock, the repository's answer and the outcome of a claim; the
  result is the list of tenants polled (nothing for a poll that got none or raised).
\<close>

fun polls ::
  "'q queue_adapter \<Rightarrow> (rat \<times> string list result \<times> bool) list \<Rightarrow> round_robin \<Rightarrow> 'q \<Rightarrow> string list \<times> round_robin \<times> 'q" where
  "polls Q [] rr q = ([], rr, q)"
| "polls Q ((now, active, claimed) # ps) rr q =
     (case next_tenant_id Q now active rr q of
        (Inr (Some t), rr1, q1) \<Rightarrow>
          (case polls Q ps (record_claim_result t claimed rr1) q1 of (ts, rr2, q2) \<Rightarrow> (t # ts, rr2, q2))
      | (_, rr1, q1) \<Rightarrow> polls Q ps rr1 q1)"

definition scheduler_ok :: "round_robin \<Rightarrow> bool" where
  "scheduler_ok rr \<longleftrightarrow> set (rr_priority_tenant_ids rr) \<subseteq> set (rr_tenant_ids rr) \<and>
     (\<forall>t. rr_sticky_tenant_id rr = Some t \<longrightarrow> t \<in> set (rr_tenant_ids rr))"

lemma pending_work_subset: "set (fst (tenants_with_pending_work Q q ts)) \<subseteq> set ts"
  by (induction Q q ts rule: tenants_with_pending_work.induct) (auto split: prod.splits if_splits)

lemma pending_work_in: "tenants_with_pending_work Q q ts = (rest, q') \<Longrightarrow> t \<in> set rest \<Longrightarrow> t \<in> set ts"
  using pending_work_subset [of Q q ts] by auto

lemma refresh_ok:
  "scheduler_ok rr \<Longrightarrow> scheduler_ok (fst (snd (maybe_refresh Q now active rr q)))"
  by (auto simp: scheduler_ok_def maybe_refresh_def dest: pending_work_in split: sum.splits prod.splits option.splits if_splits)

lemma candidates_subset: "scheduler_ok rr \<Longrightarrow> set (candidates rr) \<subseteq> set (rr_tenant_ids rr)"
  by (auto simp: scheduler_ok_def candidates_def)

lemma candidates_nonempty: "rr_tenant_ids rr \<noteq> [] \<Longrightarrow> candidates rr \<noteq> []"
  by (simp add: candidates_def)

lemma pick_ok:
  assumes "scheduler_ok rr"
  shows "scheduler_ok (snd (pick_tenant rr))" and "rr_tenant_ids (snd (pick_tenant rr)) = rr_tenant_ids rr"
    and "fst (pick_tenant rr) = Some t \<Longrightarrow> t \<in> set (rr_tenant_ids rr)"
proof -
  show "scheduler_ok (snd (pick_tenant rr))" "rr_tenant_ids (snd (pick_tenant rr)) = rr_tenant_ids rr"
    using assms by (auto simp: pick_tenant_def scheduler_ok_def split: option.split)
  assume t: "fst (pick_tenant rr) = Some t"
  show "t \<in> set (rr_tenant_ids rr)"
  proof (cases "rr_sticky_tenant_id rr")
    case None
    with t have ne: "rr_tenant_ids rr \<noteq> []" and te: "t = candidates rr ! (rr_index rr mod length (candidates rr))"
      by (auto simp: pick_tenant_def split: if_splits)
    have "rr_index rr mod length (candidates rr) < length (candidates rr)"
      using candidates_nonempty [OF ne] by simp
    from nth_mem [OF this] show ?thesis using candidates_subset [OF assms] te by auto
  next
    case (Some x)
    with t assms show ?thesis by (auto simp: pick_tenant_def scheduler_ok_def split: if_splits)
  qed
qed

lemma no_refresh:
  "rr_tenant_ids rr \<noteq> [] \<Longrightarrow> now - rr_last_refresh rr < rr_refresh_interval rr \<Longrightarrow>
     next_tenant_id Q now active rr q = (Inr (fst (pick_tenant rr)), snd (pick_tenant rr), q)"
  by (simp add: next_tenant_id_def maybe_refresh_def case_prod_beta)

definition unclaimed :: "(rat \<times> string list result \<times> bool) list \<Rightarrow> bool" where
  "unclaimed ps \<longleftrightarrow> list_all (\<lambda>(now, active, claimed). \<not> claimed) ps"

definition before_refresh :: "round_robin \<Rightarrow> (rat \<times> string list result \<times> bool) list \<Rightarrow> bool" where
  "before_refresh rr ps \<longleftrightarrow> list_all (\<lambda>(now, active, claimed). now - rr_last_refresh rr < rr_refresh_interval rr) ps"

lemma round_robin_order:
  assumes "rr_tenant_ids rr \<noteq> []" and "rr_sticky_tenant_id rr = None" and "unclaimed ps" and "before_refresh rr ps"
  shows "fst (polls Q ps rr q) =
    map (\<lambda>i. candidates rr ! ((rr_index rr + i) mod length (candidates rr))) [0..<length ps]"
  using assms
proof (induction ps arbitrary: rr)
  case Nil
  then show ?case by simp
next
  case (Cons p ps)
  obtain now active claimed where p: "p = (now, active, claimed)" by (metis prod_cases3)
  let ?n = "length (candidates rr)" and ?rr = "rr\<lparr>rr_index := Suc (rr_index rr) mod length (candidates rr)\<rparr>"
  from Cons.prems p have step: "next_tenant_id Q now active rr q =
      (Inr (Some (candidates rr ! (rr_index rr mod ?n))), ?rr, q)" and c: "\<not> claimed"
    by (simp_all add: no_refresh pick_tenant_def before_refresh_def unclaimed_def)
  have rec: "record_claim_result t claimed ?rr = ?rr" for t
    using c Cons.prems(2) by (simp add: record_claim_result_def)
  have cand: "candidates ?rr = candidates rr" by (simp add: candidates_def)
  have IH: "fst (polls Q ps ?rr q) = map (\<lambda>i. candidates rr ! ((Suc (rr_index rr) mod ?n + i) mod ?n)) [0..<length ps]"
    using Cons.IH [of ?rr] Cons.prems p unfolding cand by (simp add: before_refresh_def unclaimed_def)
  have "map (\<lambda>i. candidates rr ! ((rr_index rr + i) mod ?n)) [0..<length (p # ps)] =
      candidates rr ! (rr_index rr mod ?n) #
        map (\<lambda>i. candidates rr ! ((rr_index rr + Suc i) mod ?n)) [0..<length ps]"
    by (simp add: upt_conv_Cons map_Suc_upt [symmetric] del: upt_Suc)
  then show ?case
    by (simp add: p step rec IH case_prod_beta mod_simps del: upt_Suc)
qed

text \<open>
  As long as nothing is claimed, polling is fair: between two refreshes the polls go round the
  candidates in roster order (the tenants with pending work, or all active ones when none is
  known to have any), so every candidate is polled within as many polls as there are.
\<close>

theorem polling_is_round_robin:
  assumes "rr_tenant_ids rr \<noteq> []" and "rr_sticky_tenant_id rr = None" and "unclaimed ps" and "before_refresh rr ps"
  shows "fst (polls Q ps rr q) =
      map (\<lambda>i. candidates rr ! ((rr_index rr + i) mod length (candidates rr))) [0..<length ps] \<and>
    (length (candidates rr) \<le> length ps \<longrightarrow> set (candidates rr) \<subseteq> set (fst (polls Q ps rr q)))"
proof (intro conjI impI subsetI)
  show order: "fst (polls Q ps rr q) =
      map (\<lambda>i. candidates rr ! ((rr_index rr + i) mod length (candidates rr))) [0..<length ps]"
    by (rule round_robin_order [OF assms])
  let ?n = "length (candidates rr)"
  fix t assume long: "?n \<le> length ps" and t: "t \<in> set (candidates rr)"
  then obtain j where j: "j < ?n" "candidates rr ! j = t" by (auto simp: in_set_conv_nth)
  define i where "i = (j + (?n - rr_index rr mod ?n)) mod ?n"
  have n: "0 < ?n" using j(1) by linarith
  have "(rr_index rr + i) mod ?n = (rr_index rr mod ?n + (j + (?n - rr_index rr mod ?n))) mod ?n"
    unfolding i_def by (simp add: mod_simps)
  also have "rr_index rr mod ?n + (j + (?n - rr_index rr mod ?n)) = j + ?n"
    using mod_less_divisor [OF n, of "rr_index rr"] by linarith
  also have "(j + ?n) mod ?n = j" using j(1) by simp
  finally have ij: "(rr_index rr + i) mod ?n = j" .
  have "i < length ps" using long mod_less_divisor [OF n, of "j + (?n - rr_index rr mod ?n)"] unfolding i_def by linarith
  then have "(\<lambda>i. candidates rr ! ((rr_index rr + i) mod ?n)) i \<in> set (fst (polls Q ps rr q))"
    unfolding order by (intro image_eqI [of _ _ i, THEN subsetD [OF equalityD2 [OF set_map]]]) simp_all
  then show "t \<in> set (fst (polls Q ps rr q))" using ij j(2) by simp
qed

definition example_roster :: round_robin where
  "example_roster = \<lparr>rr_refresh_interval = 30, rr_has_queue = False, rr_tenant_ids = [''a'', ''b'', ''c''],
     rr_priority_tenant_ids = [], rr_index = 2, rr_sticky_tenant_id = None, rr_last_refresh = 0\<rparr>"

lemma polling_is_round_robin_witness:
  "fst (polls local_adapter (replicate 4 (1, Inr [], False)) example_roster local_init) = [''c'', ''a'', ''b'', ''c'']"
proof -
  have a: "rr_tenant_ids example_roster \<noteq> []" "rr_sticky_tenant_id example_roster = None"
    "unclaimed (replicate 4 (1, Inr [], False))" "before_refresh example_roster (replicate 4 (1, Inr [], False))"
    by (simp_all add: example_roster_def unclaimed_def before_refresh_def list_all_iff)
  from polling_is_round_robin [OF a, of local_adapter local_init] show ?thesis
    by (simp add: example_roster_def candidates_def upt_rec)
qed

text \<open>
  A busy tenant is never left. While every poll claims a task, and the tenant stays active, the
  scheduler polls the tenant of the first claim for ever, through all refreshes, and no other
  tenant, however much work the others have pending.
\<close>

theorem busy_tenant_is_never_left:
  assumes "rr_sticky_tenant_id rr = Some t" and "rr_tenant_ids rr \<noteq> []"
    and "list_all (\<lambda>(now, active, claimed). claimed \<and> (\<exists>ids. active = Inr ids \<and> t \<in> set ids)) ps"
  shows "fst (polls Q ps rr q) = replicate (length ps) t"
  using assms
proof (induction ps arbitrary: rr q)
  case Nil
  then show ?case by simp
next
  case (Cons p ps)
  obtain now active claimed where p: "p = (now, active, claimed)" by (metis prod_cases3)
  from Cons.prems p obtain ids where ids: "active = Inr ids" "t \<in> set ids" and claimed by auto
  obtain rr1 q1 where m: "maybe_refresh Q now active rr q = (Inr (), rr1, q1)"
    and rr1: "rr_sticky_tenant_id rr1 = Some t" "rr_tenant_ids rr1 \<noteq> []"
  proof -
    let ?m = "maybe_refresh Q now active rr q"
    have "fst ?m = Inr ()" "rr_sticky_tenant_id (fst (snd ?m)) = Some t" "rr_tenant_ids (fst (snd ?m)) \<noteq> []"
      using ids Cons.prems(1,2) by (auto simp: maybe_refresh_def case_prod_beta)
    then show ?thesis using that [of "fst (snd ?m)" "snd (snd ?m)"] by (simp add: prod_eq_iff)
  qed
  have "next_tenant_id Q now active rr q = (Inr (Some t), rr1, q1)"
    using m rr1 by (simp add: next_tenant_id_def pick_tenant_def)
  moreover have "fst (polls Q ps (record_claim_result t claimed rr1) q1) = replicate (length ps) t"
    by (rule Cons.IH) (use Cons.prems \<open>claimed\<close> rr1 in \<open>simp_all add: record_claim_result_def\<close>)
  ultimately show ?case by (simp add: p case_prod_beta)
qed

lemma busy_tenant_is_never_left_witness:
  "fst (polls local_adapter (replicate 3 (100, Inr [''a'', ''b''], True))
     (example_roster\<lparr>rr_sticky_tenant_id := Some ''b''\<rparr>) local_init) = [''b'', ''b'', ''b'']"
proof -
  have a: "rr_sticky_tenant_id (example_roster\<lparr>rr_sticky_tenant_id := Some ''b''\<rparr>) = Some ''b''"
    "rr_tenant_ids (example_roster\<lparr>rr_sticky_tenant_id := Some ''b''\<rparr>) \<noteq> []"
    "list_all (\<lambda>(now, active, claimed). claimed \<and> (\<exists>ids. active = Inr ids \<and> ''b'' \<in> set ids))
       (replicate 3 (100 :: rat, Inr [''a'', ''b''], True))"
    by (simp_all add: example_roster_def list_all_iff)
  from busy_tenant_is_never_left [OF a, of local_adapter local_init] show ?thesis
    by (simp add: numeral_3_eq_3)
qed

definition answered :: "(rat \<times> string list result \<times> bool) list \<Rightarrow> string set" where
  "answered ps = (\<Union>p \<in> set ps. case fst (snd p) of Inl e \<Rightarrow> {} | Inr ids \<Rightarrow> set ids)"

lemma refresh_roster:
  "set (rr_tenant_ids (fst (snd (maybe_refresh Q now active rr q)))) \<subseteq>
     set (rr_tenant_ids rr) \<union> (case active of Inl e \<Rightarrow> {} | Inr ids \<Rightarrow> set ids)"
  by (auto simp: maybe_refresh_def case_prod_beta split: sum.split)

lemma polls_in_roster:
  "scheduler_ok rr \<Longrightarrow> set (fst (polls Q ps rr q)) \<subseteq> set (rr_tenant_ids rr) \<union> answered ps"
proof (induction ps arbitrary: rr q)
  case Nil
  then show ?case by simp
next
  case (Cons p ps)
  obtain now active claimed where p: "p = (now, active, claimed)" by (metis prod_cases3)
  obtain e rr1 q1 where m: "maybe_refresh Q now active rr q = (e, rr1, q1)" by (metis prod_cases3)
  have ok: "scheduler_ok rr1" using refresh_ok [OF Cons.prems, of Q now active q] m by simp
  have ans: "answered (p # ps) = (case active of Inl e \<Rightarrow> {} | Inr ids \<Rightarrow> set ids) \<union> answered ps"
    by (simp add: answered_def p)
  have roster: "set (rr_tenant_ids rr1) \<subseteq> set (rr_tenant_ids rr) \<union> answered (p # ps)"
    using refresh_roster [of Q now active rr q] m unfolding ans by auto
  have later: "answered ps \<subseteq> answered (p # ps)" unfolding ans by simp
  obtain t rr2 where pick: "pick_tenant rr1 = (t, rr2)" by fastforce
  have pok: "scheduler_ok rr2" "rr_tenant_ids rr2 = rr_tenant_ids rr1" using pick_ok [OF ok] pick by simp_all
  show ?case
  proof (cases "\<exists>x. e = Inr () \<and> t = Some x")
    case True
    then obtain x where e: "e = Inr ()" and t: "t = Some x" by blast
    have x: "x \<in> set (rr_tenant_ids rr1)" using pick_ok(3) [OF ok] pick t by simp
    have "scheduler_ok (record_claim_result x claimed rr2)"
      using pok x by (auto simp: scheduler_ok_def record_claim_result_def)
    from Cons.IH [OF this, of q1]
    have "set (fst (polls Q ps (record_claim_result x claimed rr2) q1)) \<subseteq> set (rr_tenant_ids rr1) \<union> answered ps"
      using pok(2) by (simp add: record_claim_result_def split: if_splits)
    moreover have "fst (polls Q (p # ps) rr q) = x # fst (polls Q ps (record_claim_result x claimed rr2) q1)"
      by (simp add: p next_tenant_id_def m e pick t case_prod_beta)
    ultimately show ?thesis using x roster later by auto
  next
    case False
    define rr' where "rr' = (case e of Inl _ \<Rightarrow> rr1 | Inr _ \<Rightarrow> rr2)"
    have "fst (polls Q (p # ps) rr q) = fst (polls Q ps rr' q1)"
      using False by (cases e; cases t) (simp_all add: p next_tenant_id_def m pick rr'_def case_prod_beta)
    moreover have "scheduler_ok rr'" "rr_tenant_ids rr' = rr_tenant_ids rr1"
      using ok pok by (simp_all add: rr'_def split: sum.split)
    ultimately show ?thesis using Cons.IH [of rr' q1] roster later by auto
  qed
qed

text \<open>
  A worker polls only tenants the repository named as active in one of the polls, whatever the
  refreshes, priorities and sticky tenants.
\<close>

theorem polled_tenants_were_active:
  "set (fst (polls Q ps (round_robin_init interval has_queue) q)) \<subseteq> answered ps"
  using polls_in_roster [of "round_robin_init interval has_queue" Q ps q]
  by (simp add: scheduler_ok_def round_robin_init_def)

end
