(* ===== verification/Tenancy.thy ===== *)
theory Tenancy
  imports Store
begin

section \<open>Tenants, plans and their lifecycle\<close>

text \<open>
  \<open>backend/domain/tenant.py\<close>, \<open>tenant_plan.py\<close> and \<open>tenant_usage.py\<close>,
  \<open>repositories/tenant_repository.py\<close>, \<open>services/tenant_lifecycle.py\<close> and
  \<open>services/feature_flag_service.py\<close>. The tables the tenant services share are the record
  \<open>tenant_db\<close>; their session is a \<open>tenant_session\<close>, whose rows become durable with
  \<open>commit_session\<close> and are lost with \<open>rollback_session\<close>.

  \<open>ts_period\<close> is \<open>date.today().replace(day=1)\<close> as its ISO text and \<open>ts_clock\<close> the wall clock;
  both stand still within one call. An exception leaves the session with the rows written so
  far, as in the code; the caller rolls it back. Row-level security settings of the session
  change no row and are left out.
\<close>

subsection \<open>Rows\<close>

record tenant =
  tn_id :: uuid
  tn_name :: string
  tn_slug :: string
  tn_status :: string
  tn_plan :: string
  tn_stripe_customer_id :: "string option"
  tn_deleted_at :: "time option"
  tn_created_at :: time

record tenant_plan =
  tp_slug :: string
  tp_max_missions_per_month :: int
  tp_max_tasks_per_month :: int
  tp_max_agents_per_fleet :: int
  tp_max_concurrent_workers :: int
  tp_max_api_keys :: int
  tp_max_monthly_api_calls :: int
  tp_features_enabled :: "string list"

record tenant_usage =
  tu_id :: uuid
  tu_tenant_id :: uuid
  tu_billing_period_start :: string
  tu_missions_created :: int
  tu_tasks_created :: int
  tu_api_calls_count :: int
  tu_agents_provisioned :: int
  tu_active_workers :: int

definition unlimited :: int where "unlimited = -1"

definition is_active :: "tenant \<Rightarrow> bool" where
  "is_active t \<longleftrightarrow> tn_status t = ''active'' \<and> tn_deleted_at t = None"

definition is_suspended :: "tenant \<Rightarrow> bool" where
  "is_suspended t \<longleftrightarrow> tn_status t = ''suspended''"

definition is_deleted :: "tenant \<Rightarrow> bool" where
  "is_deleted t \<longleftrightarrow> tn_deleted_at t \<noteq> None"

definition allows_feature :: "tenant_plan \<Rightarrow> string \<Rightarrow> bool" where
  "allows_feature p feature \<longleftrightarrow> feature \<in> set (tp_features_enabled p)"

text \<open>\<open>getattr(self, field, UNLIMITED)\<close>, for the fields that hold limits.\<close>

definition plan_field :: "tenant_plan \<Rightarrow> string \<Rightarrow> int" where
  "plan_field p name =
     (case map_of [(''max_missions_per_month'', tp_max_missions_per_month p),
                   (''max_tasks_per_month'', tp_max_tasks_per_month p),
                   (''max_agents_per_fleet'', tp_max_agents_per_fleet p),
                   (''max_concurrent_workers'', tp_max_concurrent_workers p),
                   (''max_api_keys'', tp_max_api_keys p),
                   (''max_monthly_api_calls'', tp_max_monthly_api_calls p)] name of
        None \<Rightarrow> unlimited | Some limit \<Rightarrow> limit)"

definition check_limit :: "tenant_plan \<Rightarrow> string \<Rightarrow> int \<Rightarrow> bool" where
  "check_limit p name current_count =
     (if plan_field p name = unlimited then True else current_count < plan_field p name)"

text \<open>A committed usage increment that is to be reported to Stripe (\<open>domain/billing_meter_dispatch.py\<close>).\<close>

record meter_dispatch =
  md_id :: uuid
  md_tenant_id :: uuid
  md_metric :: string
  md_quantity :: int
  md_status :: string
  md_attempt_count :: int
  md_next_attempt_at :: time
  md_last_error :: "string option"
  md_subscription_item_id :: "string option"
  md_reported_at :: "time option"
  md_created_at :: time

text \<open>An API key's row (\<open>domain/api_key_record.py\<close>), without the columns the services here do not read.\<close>

record api_key_record =
  ak_key_id :: string
  ak_tenant_id :: string
  ak_purpose :: string
  ak_revoked :: bool
  ak_revoked_at :: "time option"

record tenant_db =
  td_tenants :: "tenant list"
  td_plans :: "tenant_plan list"
  td_usage :: "tenant_usage list"
  td_meters :: "meter_dispatch list"
  td_keys :: "api_key_record list"
  td_governance :: "governance_event list"

text \<open>A usage record sent to Stripe (the arguments of \<open>create_usage_record\<close>).\<close>

record usage_report =
  ur_subscription_item :: string
  ur_quantity :: int
  ur_timestamp :: int
  ur_idempotency_key :: string

text \<open>\<open>ts_reports\<close> is not in the session: it logs what was sent to Stripe and whether it was accepted.\<close>

record meter_intent =
  mi_dispatch_id :: uuid
  mi_tenant_id :: uuid

record tenant_session =
  ts_db :: tenant_db
  ts_durable :: tenant_db
  ts_intents :: "meter_intent list"
  ts_clock :: time
  ts_period :: string
  ts_ids :: "nat \<Rightarrow> uuid"
  ts_next_id :: nat
  ts_reports :: "(usage_report \<times> bool) list"

definition map_rows :: "(tenant_db \<Rightarrow> tenant_db) \<Rightarrow> tenant_session \<Rightarrow> tenant_session" where
  "map_rows f s = s\<lparr>ts_db := f (ts_db s)\<rparr>"

definition new_id :: "tenant_session \<Rightarrow> uuid \<times> tenant_session" where
  "new_id s = (ts_ids s (ts_next_id s), s\<lparr>ts_next_id := ts_next_id s + 1\<rparr>)"

definition rollback_session :: "tenant_session \<Rightarrow> tenant_session" where
  "rollback_session s = s\<lparr>ts_db := ts_durable s, ts_intents := []\<rparr>"

subsection \<open>Errors\<close>

datatype tenancy_error =
    TenantNotFoundError string
  | TenantSuspendedError string
  | TenantDeletedError string
  | QuotaExceededError string int int string
  | QuotaConfigurationError string
  | FeatureNotAvailableError string string
  | BudgetGateDeniedError string int int string
  | Raised exn

type_synonym 'a outcome = "tenancy_error + 'a"
type_synonym 'a session_op = "tenant_session \<Rightarrow> 'a outcome \<times> tenant_session"

text \<open>One statement after another: an exception of the first ends the call.\<close>

definition and_then :: "'a session_op \<Rightarrow> ('a \<Rightarrow> 'b session_op) \<Rightarrow> 'b session_op" where
  "and_then f g s = (case f s of (Inl e, s1) \<Rightarrow> (Inl e, s1) | (Inr x, s1) \<Rightarrow> g x s1)"

definition reading :: "(tenant_db \<Rightarrow> 'a outcome) \<Rightarrow> 'a session_op" where
  "reading f s = (f (ts_db s), s)"

lemma and_then_Inl [simp]: "f s = (Inl e, s1) \<Longrightarrow> and_then f g s = (Inl e, s1)"
  by (simp add: and_then_def)

lemma and_then_Inr [simp]: "f s = (Inr x, s1) \<Longrightarrow> and_then f g s = g x s1"
  by (simp add: and_then_def)

lemma and_then_Inr_iff:
  "and_then f g s = (Inr y, s2) \<longleftrightarrow> (\<exists>x s1. f s = (Inr x, s1) \<and> g x s1 = (Inr y, s2))"
  by (auto simp: and_then_def split: prod.splits sum.splits)

lemma reading_simps [simp]: "reading f s = (f (ts_db s), s)"
  by (simp add: reading_def)

subsection \<open>The repository\<close>

definition get_tenant :: "uuid \<Rightarrow> tenant_db \<Rightarrow> tenant option" where
  "get_tenant i d = find_row tn_id i (td_tenants d)"

definition get_active :: "uuid \<Rightarrow> tenant_db \<Rightarrow> tenant outcome" where
  "get_active i d =
     (case get_tenant i d of
        None \<Rightarrow> Inl (TenantNotFoundError (''Tenant '' @ i @ '' not found''))
      | Some t \<Rightarrow>
          if is_deleted t then Inl (TenantDeletedError (''Tenant '' @ i @ '' has been deleted''))
          else if is_suspended t then Inl (TenantSuspendedError (''Tenant '' @ i @ '' is suspended''))
          else Inr t)"

text \<open>The same under the lock of the tenant's row, which ends with the transaction.\<close>

definition get_active_for_update :: "uuid \<Rightarrow> tenant_db \<Rightarrow> tenant outcome" where
  "get_active_for_update i d =
     (case get_tenant i d of
        None \<Rightarrow> Inl (TenantNotFoundError (''Tenant '' @ i @ '' not found''))
      | Some t \<Rightarrow>
          if is_deleted t then Inl (TenantDeletedError (''Tenant '' @ i @ '' has been deleted''))
          else if is_suspended t then Inl (TenantSuspendedError (''Tenant '' @ i @ '' is suspended''))
          else Inr t)"

definition get_by_slug :: "string \<Rightarrow> tenant_db \<Rightarrow> tenant option" where
  "get_by_slug slug d = find (\<lambda>t. tn_slug t = slug) (td_tenants d)"

definition list_active_tenant_ids :: "tenant_db \<Rightarrow> uuid list" where
  "list_active_tenant_ids d =
     map tn_id (sort_key tn_created_at (filter (\<lambda>t. tn_status t = ''active'' \<and> tn_deleted_at t = None) (td_tenants d)))"

definition put_tenant :: "tenant \<Rightarrow> tenant_db \<Rightarrow> tenant_db" where
  "put_tenant t d = d\<lparr>td_tenants := put_row tn_id t (td_tenants d)\<rparr>"

definition create_tenant :: "string \<Rightarrow> string \<Rightarrow> string \<Rightarrow> tenant session_op" where
  "create_tenant name slug plan s =
     (case new_id s of (i, s1) \<Rightarrow>
        (let t = \<lparr>tn_id = i, tn_name = name, tn_slug = slug, tn_status = ''active'', tn_plan = plan,
                  tn_stripe_customer_id = None, tn_deleted_at = None, tn_created_at = ts_clock s\<rparr>
         in (Inr t, map_rows (\<lambda>d. d\<lparr>td_tenants := td_tenants d @ [t]\<rparr>) s1)))"

definition repo_suspend :: "uuid \<Rightarrow> tenant session_op" where
  "repo_suspend i s =
     (case get_tenant i (ts_db s) of
        None \<Rightarrow> (Inl (TenantNotFoundError (''Tenant '' @ i @ '' not found'')), s)
      | Some t \<Rightarrow>
          if is_deleted t then (Inl (TenantDeletedError (''Cannot suspend deleted tenant '' @ i)), s)
          else let t1 = t\<lparr>tn_status := ''suspended''\<rparr> in (Inr t1, map_rows (put_tenant t1) s))"

definition repo_reactivate :: "uuid \<Rightarrow> tenant session_op" where
  "repo_reactivate i s =
     (case get_tenant i (ts_db s) of
        None \<Rightarrow> (Inl (TenantNotFoundError (''Tenant '' @ i @ '' not found'')), s)
      | Some t \<Rightarrow>
          if is_deleted t then (Inl (TenantDeletedError (''Cannot reactivate deleted tenant '' @ i)), s)
          else let t1 = t\<lparr>tn_status := ''active''\<rparr> in (Inr t1, map_rows (put_tenant t1) s))"

definition soft_delete :: "uuid \<Rightarrow> tenant session_op" where
  "soft_delete i s =
     (case get_tenant i (ts_db s) of
        None \<Rightarrow> (Inl (TenantNotFoundError (''Tenant '' @ i @ '' not found'')), s)
      | Some t \<Rightarrow>
          let t1 = t\<lparr>tn_status := ''deleted'', tn_deleted_at := Some (ts_clock s)\<rparr>
          in (Inr t1, map_rows (put_tenant t1) s))"

definition update_plan :: "uuid \<Rightarrow> string \<Rightarrow> tenant session_op" where
  "update_plan i new_plan s =
     (case get_tenant i (ts_db s) of
        None \<Rightarrow> (Inl (TenantNotFoundError (''Tenant '' @ i @ '' not found'')), s)
      | Some t \<Rightarrow> let t1 = t\<lparr>tn_plan := new_plan\<rparr> in (Inr t1, map_rows (put_tenant t1) s))"

definition get_plan :: "string \<Rightarrow> tenant_db \<Rightarrow> tenant_plan option" where
  "get_plan slug d = find (\<lambda>p. tp_slug p = slug) (td_plans d)"

definition get_plan_for_tenant :: "uuid \<Rightarrow> tenant_db \<Rightarrow> tenant_plan option" where
  "get_plan_for_tenant i d = (case get_tenant i d of None \<Rightarrow> None | Some t \<Rightarrow> get_plan (tn_plan t) d)"

definition find_usage :: "uuid \<Rightarrow> string \<Rightarrow> tenant_db \<Rightarrow> tenant_usage option" where
  "find_usage i period d = find (\<lambda>u. tu_tenant_id u = i \<and> tu_billing_period_start u = period) (td_usage d)"

text \<open>The insert does nothing on a conflict of tenant and period; the identifier is drawn in any case.\<close>

definition get_or_create_usage :: "uuid \<Rightarrow> string \<Rightarrow> tenant_usage session_op" where
  "get_or_create_usage i period s =
     (case new_id s of (k, s1) \<Rightarrow>
        (let s2 = (if find_usage i period (ts_db s1) \<noteq> None then s1
                   else map_rows (\<lambda>d. d\<lparr>td_usage := td_usage d @
                     [\<lparr>tu_id = k, tu_tenant_id = i, tu_billing_period_start = period, tu_missions_created = 0,
                       tu_tasks_created = 0, tu_api_calls_count = 0, tu_agents_provisioned = 0,
                       tu_active_workers = 0\<rparr>]\<rparr>) s1)
         in case find_usage i period (ts_db s2) of
              None \<Rightarrow> (Inl (Raised (RuntimeError (''Failed to create TenantUsage for tenant '' @ i @
                        '' period '' @ period))), s2)
            | Some u \<Rightarrow> (Inr u, s2)))"

definition usage_fields :: "string list" where
  "usage_fields = [''agents_provisioned'', ''api_calls_count'', ''missions_created'', ''tasks_created'']"

definition usage_count :: "string \<Rightarrow> tenant_usage \<Rightarrow> int" where
  "usage_count name u =
     (if name = ''missions_created'' then tu_missions_created u
      else if name = ''tasks_created'' then tu_tasks_created u
      else if name = ''api_calls_count'' then tu_api_calls_count u
      else tu_agents_provisioned u)"

definition bump_usage :: "string \<Rightarrow> int \<Rightarrow> tenant_usage \<Rightarrow> tenant_usage" where
  "bump_usage name amount u =
     (if name = ''missions_created'' then u\<lparr>tu_missions_created := tu_missions_created u + amount\<rparr>
      else if name = ''tasks_created'' then u\<lparr>tu_tasks_created := tu_tasks_created u + amount\<rparr>
      else if name = ''api_calls_count'' then u\<lparr>tu_api_calls_count := tu_api_calls_count u + amount\<rparr>
      else u\<lparr>tu_agents_provisioned := tu_agents_provisioned u + amount\<rparr>)"

definition increment_usage :: "uuid \<Rightarrow> string \<Rightarrow> int \<Rightarrow> string \<Rightarrow> unit session_op" where
  "increment_usage i name amount period s =
     (if name \<notin> set usage_fields
      then (Inl (Raised (ValueError (''Unknown usage field '' @ quoted name @ ''. Allowed: '' @ list_text usage_fields))), s)
      else and_then (get_or_create_usage i period)
        (\<lambda>_ s1. (Inr (), map_rows (\<lambda>d. d\<lparr>td_usage := map (\<lambda>u.
           if tu_tenant_id u = i \<and> tu_billing_period_start u = period then bump_usage name amount u else u)
           (td_usage d)\<rparr>) s1)) s)"

subsection \<open>Feature flags\<close>

definition is_enabled :: "uuid \<Rightarrow> string \<Rightarrow> tenant_db \<Rightarrow> bool" where
  "is_enabled i feature d =
     (case get_active i d of
        Inl _ \<Rightarrow> False
      | Inr t \<Rightarrow> (case get_plan (tn_plan t) d of None \<Rightarrow> True | Some p \<Rightarrow> allows_feature p feature))"

subsection \<open>The lifecycle service\<close>

datatype provision_source = Admin | SelfServe

fun source_value :: "provision_source \<Rightarrow> string" where
  "source_value Admin = ''admin''"
| "source_value SelfServe = ''self_serve''"

definition self_serve_allowed_plans :: "string list" where
  "self_serve_allowed_plans = [''free'']"

record provision_result =
  pv_tenant_id :: uuid
  pv_slug :: string
  pv_plan :: string
  pv_status :: string
  pv_source :: provision_source

definition validate_plan_for_source :: "string \<Rightarrow> provision_source \<Rightarrow> unit outcome" where
  "validate_plan_for_source plan source =
     (if source = SelfServe \<and> plan \<notin> set self_serve_allowed_plans
      then Inl (Raised (ValueError (''Self-serve provisioning may only create free-plan tenants; got '' @
             quoted plan @ ''.'')))
      else Inr ())"

definition provision_event_metadata :: "provision_source \<Rightarrow> string \<Rightarrow> string \<Rightarrow> string \<times> string" where
  "provision_event_metadata source slug plan =
     (if source = SelfServe
      then (''tenant_self_serve_provisioned'',
            ''Tenant '' @ quoted slug @ '' self-serve provisioned on plan '' @ quoted plan)
      else (''tenant_provisioned'', ''Tenant '' @ quoted slug @ '' provisioned on plan '' @ quoted plan))"

definition emit_event :: "uuid \<Rightarrow> string \<Rightarrow> string \<Rightarrow> string \<Rightarrow> dict \<Rightarrow> unit session_op" where
  "emit_event i event_type actor decision payload s =
     (Inr (), map_rows (\<lambda>d. d\<lparr>td_governance := td_governance d @
        [\<lparr>ge_tenant_id = i, ge_mission_id = None, ge_event_type = event_type, ge_actor = actor,
          ge_decision = decision, ge_payload = payload, ge_created_at = ts_clock s\<rparr>]\<rparr>) s)"

text \<open>
  \<open>credentials\<close> is what registering the platform's HubSpot and email credentials raises, None when
  they are registered or switched off; their rows are in tables that are not modelled here.
\<close>

definition provision ::
  "(uuid \<Rightarrow> string \<Rightarrow> tenancy_error option) \<Rightarrow> string \<Rightarrow> string \<Rightarrow> string \<Rightarrow> string \<Rightarrow> provision_source \<Rightarrow>
     provision_result session_op" where
  "provision credentials name slug plan actor source s =
     (let plan' = lower_text (strip plan) in
      case validate_plan_for_source plan' source of
        Inl e \<Rightarrow> (Inl e, s)
      | Inr _ \<Rightarrow>
          (case get_by_slug slug (ts_db s) of
             Some existing \<Rightarrow>
               (Inl (Raised (ValueError (''Tenant with slug '' @ quoted slug @ '' already exists (id='' @
                  tn_id existing @ '')''))), s)
           | None \<Rightarrow>
               and_then (create_tenant name slug plan') (\<lambda>t s1.
                 case credentials (tn_id t) actor of
                   Some e \<Rightarrow> (Inl e, s1)
                 | None \<Rightarrow>
                     (case provision_event_metadata source slug plan' of (event_type, decision) \<Rightarrow>
                        and_then (emit_event (tn_id t) event_type actor decision
                            [(''name'', JStr name), (''slug'', JStr slug), (''plan'', JStr plan'),
                             (''source'', JStr (source_value source))])
                          (\<lambda>_ s2. (Inr \<lparr>pv_tenant_id = tn_id t, pv_slug = tn_slug t, pv_plan = tn_plan t,
                                       pv_status = tn_status t, pv_source = source\<rparr>, s2)) s1)) s))"

definition suspend :: "uuid \<Rightarrow> string \<Rightarrow> string \<Rightarrow> unit session_op" where
  "suspend i reason actor s =
     (if reason = [] \<or> strip reason = []
      then (Inl (Raised (ValueError ''Suspension reason must be a non-empty string.'')), s)
      else and_then (repo_suspend i)
        (\<lambda>_. emit_event i ''tenant_suspended'' actor (''Tenant suspended: '' @ reason) [(''reason'', JStr reason)]) s)"

definition reactivate :: "uuid \<Rightarrow> string \<Rightarrow> unit session_op" where
  "reactivate i actor =
     and_then (repo_reactivate i) (\<lambda>_. emit_event i ''tenant_reactivated'' actor ''Tenant reactivated'' [])"

definition delete_tenant :: "uuid \<Rightarrow> string \<Rightarrow> string \<Rightarrow> unit session_op" where
  "delete_tenant i actor reason =
     and_then (soft_delete i)
       (\<lambda>_. emit_event i ''tenant_deleted'' actor (''Tenant soft-deleted: '' @ reason) [(''reason'', JStr reason)])"

definition upgrade_plan :: "uuid \<Rightarrow> string \<Rightarrow> string \<Rightarrow> unit session_op" where
  "upgrade_plan i new_plan actor s =
     (case get_tenant i (ts_db s) of
        None \<Rightarrow> (Inl (TenantNotFoundError (''Tenant '' @ i @ '' not found'')), s)
      | Some t \<Rightarrow>
          and_then (update_plan i new_plan)
            (\<lambda>_. emit_event i ''tenant_plan_changed'' actor
               (''Plan changed from '' @ quoted (tn_plan t) @ '' to '' @ quoted new_plan)
               [(''old_plan'', JStr (tn_plan t)), (''new_plan'', JStr new_plan)]) s)"

subsection \<open>Requests\<close>

text \<open>
  A lifecycle request is one call and its transaction: the callers in \<open>api/routes/admin.py\<close> and
  the onboarding commit when the call returns and roll back when it raises.
\<close>

datatype lifecycle_call =
    Provision string string string string provision_source
  | Suspend uuid string string
  | Reactivate uuid string
  | Delete uuid string string
  | UpgradePlan uuid string string

definition commit_rows :: "tenant_session \<Rightarrow> tenant_session" where
  "commit_rows s = s\<lparr>ts_durable := ts_db s\<rparr>"

definition in_transaction :: "'a session_op \<Rightarrow> 'a session_op" where
  "in_transaction f s =
     (case f s of (Inl e, s1) \<Rightarrow> (Inl e, rollback_session s1) | (Inr x, s1) \<Rightarrow> (Inr x, commit_rows s1))"

fun call_op :: "(uuid \<Rightarrow> string \<Rightarrow> tenancy_error option) \<Rightarrow> lifecycle_call \<Rightarrow> unit session_op" where
  "call_op C (Provision name slug plan actor source) =
     and_then (provision C name slug plan actor source) (\<lambda>_ s. (Inr (), s))"
| "call_op C (Suspend i reason actor) = suspend i reason actor"
| "call_op C (Reactivate i actor) = reactivate i actor"
| "call_op C (Delete i actor reason) = delete_tenant i actor reason"
| "call_op C (UpgradePlan i plan actor) = upgrade_plan i plan actor"

definition lifecycle_request ::
  "(uuid \<Rightarrow> string \<Rightarrow> tenancy_error option) \<Rightarrow> time \<times> lifecycle_call \<Rightarrow> tenant_session \<Rightarrow> tenant_session" where
  "lifecycle_request C r s = snd (in_transaction (call_op C (snd r)) (s\<lparr>ts_clock := fst r\<rparr>))"

definition lifecycle_requests ::
  "(uuid \<Rightarrow> string \<Rightarrow> tenancy_error option) \<Rightarrow> (time \<times> lifecycle_call) list \<Rightarrow> tenant_session \<Rightarrow> tenant_session" where
  "lifecycle_requests C rs s = fold (lifecycle_request C) rs s"

text \<open>
  What the audit trail says of a tenant: status and plan, from its governance events in order.
\<close>

definition payload_text :: "string \<Rightarrow> governance_event \<Rightarrow> string" where
  "payload_text k e = (case map_of (ge_payload e) k of Some (JStr v) \<Rightarrow> v | _ \<Rightarrow> [])"

definition replay_event :: "governance_event \<Rightarrow> (string \<times> string) option \<Rightarrow> (string \<times> string) option" where
  "replay_event e st =
     (if ge_event_type e \<in> {''tenant_provisioned'', ''tenant_self_serve_provisioned''}
      then Some (''active'', payload_text ''plan'' e)
      else map_option (\<lambda>(status, plan).
        if ge_event_type e = ''tenant_suspended'' then (''suspended'', plan)
        else if ge_event_type e = ''tenant_reactivated'' then (''active'', plan)
        else if ge_event_type e = ''tenant_deleted'' then (''deleted'', plan)
        else if ge_event_type e = ''tenant_plan_changed'' then (status, payload_text ''new_plan'' e)
        else (status, plan)) st)"

definition audited_state :: "uuid \<Rightarrow> tenant_db \<Rightarrow> (string \<times> string) option" where
  "audited_state i d = fold replay_event (filter (\<lambda>e. ge_tenant_id e = i) (td_governance d)) None"

definition lifecycle_state :: "uuid \<Rightarrow> tenant_db \<Rightarrow> (string \<times> string) option" where
  "lifecycle_state i d = map_option (\<lambda>t. (tn_status t, tn_plan t)) (get_tenant i d)"

text \<open>The invariant: the trail accounts for every tenant, identifiers are the drawn ones and distinct.\<close>

definition trail_inv :: "tenant_db \<Rightarrow> bool" where
  "trail_inv d \<longleftrightarrow> (\<forall>i. audited_state i d = lifecycle_state i d)"

definition ids_inv :: "tenant_session \<Rightarrow> bool" where
  "ids_inv s \<longleftrightarrow> inj (ts_ids s) \<and> distinct (map tn_id (td_tenants (ts_db s))) \<and>
     tn_id ` set (td_tenants (ts_db s)) \<subseteq> ts_ids s ` {..<ts_next_id s}"

definition deleted_inv :: "tenant_db \<Rightarrow> bool" where
  "deleted_inv d \<longleftrightarrow> (\<forall>t \<in> set (td_tenants d). is_deleted t \<longleftrightarrow> tn_status t = ''deleted'')"

definition tenancy_inv :: "tenant_session \<Rightarrow> bool" where
  "tenancy_inv s \<longleftrightarrow> trail_inv (ts_db s) \<and> ids_inv s \<and> deleted_inv (ts_db s)"

definition fresh_session :: "tenant_session \<Rightarrow> bool" where
  "fresh_session s \<longleftrightarrow> td_tenants (ts_db s) = [] \<and> td_governance (ts_db s) = [] \<and> ts_durable s = ts_db s \<and> inj (ts_ids s)"

lemma fresh_session_inv: "fresh_session s \<Longrightarrow> tenancy_inv s"
  by (simp add: fresh_session_def tenancy_inv_def trail_inv_def ids_inv_def deleted_inv_def audited_state_def
      lifecycle_state_def get_tenant_def find_row_def)

text \<open>The two shapes of a successful call: one tenant's row is replaced and one event follows, or one is added.\<close>

definition replaced :: "tenant \<Rightarrow> tenant \<Rightarrow> string \<Rightarrow> dict \<Rightarrow> tenant_session \<Rightarrow> tenant_session \<Rightarrow> bool" where
  "replaced t t1 event_type payload s s1 \<longleftrightarrow>
     get_tenant (tn_id t) (ts_db s) = Some t \<and> tn_id t1 = tn_id t \<and> ts_ids s1 = ts_ids s \<and> ts_next_id s1 = ts_next_id s \<and>
     td_tenants (ts_db s1) = put_row tn_id t1 (td_tenants (ts_db s)) \<and>
     (\<exists>actor decision now. td_governance (ts_db s1) = td_governance (ts_db s) @
        [\<lparr>ge_tenant_id = tn_id t, ge_mission_id = None, ge_event_type = event_type, ge_actor = actor,
          ge_decision = decision, ge_payload = payload, ge_created_at = now\<rparr>])"

definition added :: "tenant \<Rightarrow> string \<Rightarrow> dict \<Rightarrow> tenant_session \<Rightarrow> tenant_session \<Rightarrow> bool" where
  "added t event_type payload s s1 \<longleftrightarrow>
     tn_id t = ts_ids s (ts_next_id s) \<and> ts_ids s1 = ts_ids s \<and> ts_next_id s1 = ts_next_id s + 1 \<and>
     td_tenants (ts_db s1) = td_tenants (ts_db s) @ [t] \<and>
     (\<exists>actor decision now. td_governance (ts_db s1) = td_governance (ts_db s) @
        [\<lparr>ge_tenant_id = tn_id t, ge_mission_id = None, ge_event_type = event_type, ge_actor = actor,
          ge_decision = decision, ge_payload = payload, ge_created_at = now\<rparr>])"

lemma audited_append:
  "td_governance d1 = td_governance d @ [e] \<Longrightarrow>
     audited_state i d1 = (if ge_tenant_id e = i then replay_event e (audited_state i d) else audited_state i d)"
  by (simp add: audited_state_def)

lemma get_tenant_key: "get_tenant i d = Some t \<Longrightarrow> tn_id t = i \<and> t \<in> set (td_tenants d)"
  by (simp add: get_tenant_def find_row_key)

lemma replaced_keeps:
  assumes "replaced t t1 event_type payload s s1" and "tenancy_inv s"
    and step: "\<And>e. ge_event_type e = event_type \<Longrightarrow> ge_payload e = payload \<Longrightarrow>
      replay_event e (Some (tn_status t, tn_plan t)) = Some (tn_status t1, tn_plan t1)"
    and del: "is_deleted t1 \<longleftrightarrow> tn_status t1 = ''deleted''"
  shows "tenancy_inv s1"
proof -
  from assms(1) obtain actor decision now where t: "get_tenant (tn_id t) (ts_db s) = Some t" and k: "tn_id t1 = tn_id t"
    and rows: "td_tenants (ts_db s1) = put_row tn_id t1 (td_tenants (ts_db s))"
    and gov: "td_governance (ts_db s1) = td_governance (ts_db s) @
        [\<lparr>ge_tenant_id = tn_id t, ge_mission_id = None, ge_event_type = event_type, ge_actor = actor,
          ge_decision = decision, ge_payload = payload, ge_created_at = now\<rparr>]" (is "_ = _ @ [?e]")
    and ids: "ts_ids s1 = ts_ids s" "ts_next_id s1 = ts_next_id s"
    unfolding replaced_def by blast
  have "audited_state i (ts_db s1) = lifecycle_state i (ts_db s1)" for i
  proof -
    have inv: "audited_state j (ts_db s) = lifecycle_state j (ts_db s)" for j
      using assms(2) by (simp add: tenancy_inv_def trail_inv_def)
    have new: "lifecycle_state i (ts_db s1) =
        (if i = tn_id t then Some (tn_status t1, tn_plan t1) else lifecycle_state i (ts_db s))"
      using t k by (simp add: lifecycle_state_def get_tenant_def rows)
    show ?thesis
      using step [of ?e] t by (auto simp: audited_append [OF gov] inv new) (simp_all add: lifecycle_state_def)
  qed
  moreover have "ids_inv s1"
  proof -
    have "map tn_id (td_tenants (ts_db s1)) = map tn_id (td_tenants (ts_db s))" by (simp add: rows)
    then have "tn_id ` set (td_tenants (ts_db s1)) = tn_id ` set (td_tenants (ts_db s))"
      by (metis list.set_map)
    then show ?thesis using assms(2) by (simp add: tenancy_inv_def ids_inv_def ids rows)
  qed
  moreover have "deleted_inv (ts_db s1)"
    using assms(2) del by (auto simp: tenancy_inv_def deleted_inv_def rows put_row_def)
  ultimately show ?thesis by (simp add: tenancy_inv_def trail_inv_def)
qed

lemma drawn_fresh:
  assumes "ids_inv s"
  shows "get_tenant (ts_ids s (ts_next_id s)) (ts_db s) = None" (is "get_tenant ?i _ = None")
proof (rule ccontr)
  assume "get_tenant ?i (ts_db s) \<noteq> None"
  then obtain t where "t \<in> set (td_tenants (ts_db s))" "tn_id t = ?i" by (auto dest: get_tenant_key)
  then have "?i \<in> ts_ids s ` {..<ts_next_id s}" using assms unfolding ids_inv_def by (metis imageI subsetD)
  then show False using assms by (auto simp: ids_inv_def inj_def)
qed

lemma added_keeps:
  assumes "added t event_type payload s s1" and "tenancy_inv s"
    and step: "\<And>e. ge_event_type e = event_type \<Longrightarrow> ge_payload e = payload \<Longrightarrow>
      replay_event e None = Some (tn_status t, tn_plan t)"
    and del: "is_deleted t \<longleftrightarrow> tn_status t = ''deleted''"
  shows "tenancy_inv s1"
proof -
  from assms(1) obtain actor decision now where k: "tn_id t = ts_ids s (ts_next_id s)"
    and rows: "td_tenants (ts_db s1) = td_tenants (ts_db s) @ [t]"
    and gov: "td_governance (ts_db s1) = td_governance (ts_db s) @
        [\<lparr>ge_tenant_id = tn_id t, ge_mission_id = None, ge_event_type = event_type, ge_actor = actor,
          ge_decision = decision, ge_payload = payload, ge_created_at = now\<rparr>]" (is "_ = _ @ [?e]")
    and ids: "ts_ids s1 = ts_ids s" "ts_next_id s1 = ts_next_id s + 1"
    unfolding added_def by blast
  have fresh: "get_tenant (tn_id t) (ts_db s) = None"
    using drawn_fresh [of s] assms(2) by (simp add: tenancy_inv_def k)
  have "audited_state i (ts_db s1) = lifecycle_state i (ts_db s1)" for i
  proof -
    have inv: "audited_state j (ts_db s) = lifecycle_state j (ts_db s)" for j
      using assms(2) by (simp add: tenancy_inv_def trail_inv_def)
    have new: "lifecycle_state i (ts_db s1) =
        (if i = tn_id t then Some (tn_status t, tn_plan t) else lifecycle_state i (ts_db s))"
      using fresh by (auto simp: lifecycle_state_def get_tenant_def rows split: option.splits)
    show ?thesis
      using step [of ?e] fresh by (auto simp: audited_append [OF gov] inv new) (simp_all add: lifecycle_state_def)
  qed
  moreover have "ids_inv s1"
  proof -
    have "tn_id t \<notin> tn_id ` set (td_tenants (ts_db s))"
      using fresh by (auto simp: get_tenant_def find_row_def find_None_iff)
    then show ?thesis using assms(2) k by (auto simp: tenancy_inv_def ids_inv_def ids rows lessThan_Suc)
  qed
  moreover have "deleted_inv (ts_db s1)"
    using assms(2) del by (auto simp: tenancy_inv_def deleted_inv_def rows)
  ultimately show ?thesis by (simp add: tenancy_inv_def trail_inv_def)
qed

lemma replacedI:
  assumes "get_tenant i (ts_db s) = Some t"
    and "emit_event i event_type actor decision payload (map_rows (put_tenant t1) s) = (Inr (), s1)" and "tn_id t1 = tn_id t"
  shows "replaced t t1 event_type payload s s1"
  using assms get_tenant_key [OF assms(1)]
  by (auto simp: replaced_def emit_event_def map_rows_def put_tenant_def)

lemma calls_shape:
  assumes "call_op C c s = (Inr (), s1)"
  obtains
    (provisioned) t source e where "added t e [(''name'', JStr (tn_name t)), (''slug'', JStr (tn_slug t)),
        (''plan'', JStr (tn_plan t)), (''source'', JStr (source_value source))] s s1"
      "e = ''tenant_provisioned'' \<or> e = ''tenant_self_serve_provisioned''" "tn_status t = ''active''" "tn_deleted_at t = None"
      "get_by_slug (tn_slug t) (ts_db s) = None" "source = SelfServe \<longrightarrow> tn_plan t = ''free''"
  | (suspended) t reason where "replaced t (t\<lparr>tn_status := ''suspended''\<rparr>) ''tenant_suspended'' [(''reason'', JStr reason)] s s1"
      "\<not> is_deleted t" "strip reason \<noteq> []"
  | (reactivated) t where "replaced t (t\<lparr>tn_status := ''active''\<rparr>) ''tenant_reactivated'' [] s s1" "\<not> is_deleted t"
  | (deleted) t reason where "replaced t (t\<lparr>tn_status := ''deleted'', tn_deleted_at := Some (ts_clock s)\<rparr>)
      ''tenant_deleted'' [(''reason'', JStr reason)] s s1"
  | (planned) t plan where "replaced t (t\<lparr>tn_plan := plan\<rparr>) ''tenant_plan_changed''
      [(''old_plan'', JStr (tn_plan t)), (''new_plan'', JStr plan)] s s1"
proof (cases c)
  case (Provision name slug plan actor source)
  let ?t = "\<lparr>tn_id = ts_ids s (ts_next_id s), tn_name = name, tn_slug = slug, tn_status = ''active'',
      tn_plan = lower_text (strip plan), tn_stripe_customer_id = None, tn_deleted_at = None, tn_created_at = ts_clock s\<rparr>"
  have "added ?t (fst (provision_event_metadata source slug (lower_text (strip plan))))
      [(''name'', JStr (tn_name ?t)), (''slug'', JStr (tn_slug ?t)), (''plan'', JStr (tn_plan ?t)),
       (''source'', JStr (source_value source))] s s1 \<and> get_by_slug slug (ts_db s) = None \<and>
      (source = SelfServe \<longrightarrow> tn_plan ?t = ''free'')"
    using assms unfolding Provision
    by (auto simp: and_then_Inr_iff provision_def Let_def added_def create_tenant_def new_id_def emit_event_def map_rows_def
        validate_plan_for_source_def self_serve_allowed_plans_def
        split: sum.splits option.splits prod.splits if_splits)
  moreover have "fst (provision_event_metadata source slug (lower_text (strip plan))) \<in>
      {''tenant_provisioned'', ''tenant_self_serve_provisioned''}"
    by (simp add: provision_event_metadata_def)
  ultimately show ?thesis by (intro provisioned [of ?t _ source]) auto
next
  case (Suspend i reason actor)
  with assms obtain t where t: "get_tenant i (ts_db s) = Some t" "\<not> is_deleted t" "strip reason \<noteq> []"
    "emit_event i ''tenant_suspended'' actor (''Tenant suspended: '' @ reason) [(''reason'', JStr reason)]
       (map_rows (put_tenant (t\<lparr>tn_status := ''suspended''\<rparr>)) s) = (Inr (), s1)"
    by (auto simp: suspend_def repo_suspend_def and_then_Inr_iff Let_def simp del: append.simps split: option.splits if_splits)
  then show ?thesis by (intro suspended replacedI) auto
next
  case (Reactivate i actor)
  with assms obtain t where t: "get_tenant i (ts_db s) = Some t" "\<not> is_deleted t"
    "emit_event i ''tenant_reactivated'' actor ''Tenant reactivated'' []
       (map_rows (put_tenant (t\<lparr>tn_status := ''active''\<rparr>)) s) = (Inr (), s1)"
    by (auto simp: reactivate_def repo_reactivate_def and_then_Inr_iff Let_def split: option.splits if_splits)
  then show ?thesis by (intro reactivated replacedI) auto
next
  case (Delete i actor reason)
  with assms obtain t where t: "get_tenant i (ts_db s) = Some t"
    "emit_event i ''tenant_deleted'' actor (''Tenant soft-deleted: '' @ reason) [(''reason'', JStr reason)]
       (map_rows (put_tenant (t\<lparr>tn_status := ''deleted'', tn_deleted_at := Some (ts_clock s)\<rparr>)) s) = (Inr (), s1)"
    by (auto simp: delete_tenant_def soft_delete_def and_then_Inr_iff Let_def simp del: append.simps split: option.splits if_splits)
  then show ?thesis by (intro deleted replacedI) auto
next
  case (UpgradePlan i plan actor)
  with assms obtain t where t: "get_tenant i (ts_db s) = Some t"
    "emit_event i ''tenant_plan_changed'' actor (''Plan changed from '' @ quoted (tn_plan t) @ '' to '' @ quoted plan)
       [(''old_plan'', JStr (tn_plan t)), (''new_plan'', JStr plan)]
       (map_rows (put_tenant (t\<lparr>tn_plan := plan\<rparr>)) s) = (Inr (), s1)"
    by (auto simp: upgrade_plan_def update_plan_def and_then_Inr_iff Let_def simp del: append.simps split: option.splits if_splits)
  then show ?thesis by (intro planned replacedI) auto
qed

lemma call_frame:
  "call_op C c s = (res, s1) \<Longrightarrow> ts_durable s1 = ts_durable s \<and> ts_ids s1 = ts_ids s \<and> ts_next_id s \<le> ts_next_id s1"
  by (cases c) (auto simp: provision_def suspend_def reactivate_def delete_tenant_def upgrade_plan_def repo_suspend_def
      repo_reactivate_def soft_delete_def update_plan_def and_then_def Let_def create_tenant_def new_id_def emit_event_def
      map_rows_def split: option.splits if_splits sum.splits prod.splits)

lemma call_keeps:
  assumes "call_op C c s = (Inr (), s1)" and "tenancy_inv s"
  shows "tenancy_inv s1"
  using assms(1)
proof (cases rule: calls_shape)
  case (provisioned t source e)
  show ?thesis
    by (rule added_keeps [OF provisioned(1) assms(2)]; use provisioned(2-4) in \<open>auto simp: replay_event_def payload_text_def is_deleted_def\<close>)
next
  case (suspended t reason)
  have "tn_status t \<noteq> ''deleted''"
    using suspended(1,2) assms(2) by (auto simp: replaced_def tenancy_inv_def deleted_inv_def dest!: get_tenant_key)
  then show ?thesis
    by (intro replaced_keeps [OF suspended(1) assms(2)]) (use suspended(2) in \<open>auto simp: replay_event_def is_deleted_def\<close>)
next
  case (reactivated t)
  then show ?thesis
    by (intro replaced_keeps [OF reactivated(1) assms(2)]) (auto simp: replay_event_def is_deleted_def)
next
  case (deleted t reason)
  show ?thesis
    by (rule replaced_keeps [OF deleted assms(2)]) (auto simp: replay_event_def is_deleted_def)
next
  case (planned t plan)
  have "is_deleted t \<longleftrightarrow> tn_status t = ''deleted''"
    using planned(1) assms(2) by (auto simp: replaced_def tenancy_inv_def deleted_inv_def dest!: get_tenant_key)
  then show ?thesis
    by (intro replaced_keeps [OF planned assms(2)]) (auto simp: replay_event_def payload_text_def is_deleted_def)
qed

lemma request_outcome:
  obtains
    (failed) e s1 where "call_op C c (s\<lparr>ts_clock := now\<rparr>) = (Inl e, s1)"
      "lifecycle_request C (now, c) s = rollback_session s1"
  | (succeeded) s1 where "call_op C c (s\<lparr>ts_clock := now\<rparr>) = (Inr (), s1)"
      "lifecycle_request C (now, c) s = commit_rows s1"
proof (cases "call_op C c (s\<lparr>ts_clock := now\<rparr>)")
  case (Pair res s1)
  show ?thesis
  proof (cases res)
    case (Inl e)
    with Pair show ?thesis by (intro failed [of e s1]) (simp_all add: lifecycle_request_def in_transaction_def)
  next
    case (Inr x)
    with Pair show ?thesis by (intro succeeded [of s1]) (simp_all add: lifecycle_request_def in_transaction_def)
  qed
qed

lemma clock_inv [simp]: "tenancy_inv (s\<lparr>ts_clock := now\<rparr>) = tenancy_inv s"
  by (simp add: tenancy_inv_def ids_inv_def)

lemma commit_inv [simp]: "tenancy_inv (commit_rows s) = tenancy_inv s"
  by (simp add: tenancy_inv_def ids_inv_def commit_rows_def)

lemma rollback_inv:
  assumes "tenancy_inv s" and "ts_durable s1 = ts_db s" "ts_ids s1 = ts_ids s" "ts_next_id s \<le> ts_next_id s1"
  shows "tenancy_inv (rollback_session s1)"
proof -
  have "ts_ids s ` {..<ts_next_id s} \<subseteq> ts_ids s ` {..<ts_next_id s1}" using assms(4) by auto
  then show ?thesis using assms(1-3)
    by (simp add: tenancy_inv_def ids_inv_def rollback_session_def) (blast intro: order_trans)
qed

lemma request_keeps:
  assumes "tenancy_inv s" and "ts_durable s = ts_db s"
  shows "tenancy_inv (lifecycle_request C r s) \<and> ts_durable (lifecycle_request C r s) = ts_db (lifecycle_request C r s)"
proof (cases r)
  case (Pair now c)
  show ?thesis
  proof (cases rule: request_outcome [where C = C and c = c and s = s and now = now])
    case (failed e s1)
    show ?thesis using call_frame [OF failed(1)] assms
      by (simp add: Pair failed(2) rollback_inv [OF assms(1)]) (simp add: rollback_session_def)
  next
    case (succeeded s1)
    show ?thesis using call_keeps [OF succeeded(1)] assms
      by (simp add: Pair succeeded(2)) (simp add: commit_rows_def)
  qed
qed

lemma requests_keep:
  "tenancy_inv s \<Longrightarrow> ts_durable s = ts_db s \<Longrightarrow>
     tenancy_inv (lifecycle_requests C rs s) \<and> ts_durable (lifecycle_requests C rs s) = ts_db (lifecycle_requests C rs s)"
proof (induction rs arbitrary: s)
  case (Cons r rs)
  then show ?case using request_keeps [of s C r] by (simp add: lifecycle_requests_def)
qed (simp add: lifecycle_requests_def)

subsection \<open>The audit trail and deletion\<close>

definition example_session :: tenant_session where
  "example_session =
     (let d = \<lparr>td_tenants = [], td_plans = [], td_usage = [], td_meters = [], td_keys = [], td_governance = []\<rparr>
      in \<lparr>ts_db = d, ts_durable = d, ts_intents = [], ts_clock = 0, ts_period = ''2026-01-01'',
          ts_ids = (\<lambda>n. replicate n (CHR ''i'')), ts_next_id = 0, ts_reports = []\<rparr>)"

lemma example_session_fresh: "fresh_session example_session"
proof -
  have "inj (\<lambda>n. replicate n (CHR ''i''))" by (rule injI) (metis length_replicate)
  then show ?thesis by (simp add: fresh_session_def example_session_def Let_def)
qed

text \<open>
  C24: the governance trail is complete. After any lifecycle requests on an empty database,
  failed ones included, the status and the plan of every tenant are what its governance
  events say, and a tenant without a provisioning event does not exist.
\<close>

theorem audit_trail_replays:
  assumes "fresh_session s"
  shows "audited_state i (ts_db (lifecycle_requests C rs s)) = lifecycle_state i (ts_db (lifecycle_requests C rs s))"
  using requests_keep [of s C rs] fresh_session_inv [OF assms] assms
  by (simp add: tenancy_inv_def trail_inv_def fresh_session_def)

definition example_lifecycle :: "(time \<times> lifecycle_call) list" where
  "example_lifecycle =
     [(1, Provision ''Acme'' ''acme'' '' Free '' ''admin'' SelfServe), (2, Suspend [] ''unpaid'' ''admin''),
      (3, UpgradePlan [] ''pro'' ''admin''), (4, Suspend ''x'' ''unpaid'' ''admin''), (5, Delete [] ''admin'' ''gone''),
      (6, Reactivate [] ''admin'')]"

theorem audit_trail_replays_witness:
  "audited_state [] (ts_db (lifecycle_requests (\<lambda>i a. None) example_lifecycle example_session)) = Some (''deleted'', ''pro'')"
  unfolding audit_trail_replays [OF example_session_fresh]
  by code_simp

lemma deleted_stays:
  assumes "tenancy_inv s" "ts_durable s = ts_db s" and "get_tenant i (ts_db s) = Some t" "is_deleted t"
  shows "\<exists>t1. get_tenant i (ts_db (lifecycle_request C r s)) = Some t1 \<and> is_deleted t1"
proof (cases r)
  case (Pair now c)
  show ?thesis
  proof (cases rule: request_outcome [where C = C and c = c and s = s and now = now])
    case (failed e s1)
    show ?thesis
      by (rule exI [of _ t]) (use call_frame [OF failed(1)] assms in \<open>simp_all add: Pair failed(2) rollback_session_def\<close>)
  next
    case (succeeded s1)
    have repl: ?thesis if "replaced u u1 e p (s\<lparr>ts_clock := now\<rparr>) s1" "is_deleted u \<longrightarrow> is_deleted u1" for u u1 e p
    proof (cases "i = tn_id u")
      case True
      then have "is_deleted u1" using that assms by (simp add: replaced_def)
      then show ?thesis using that(1) True assms(3)
        by (intro exI [of _ u1]) (simp_all add: Pair succeeded(2) commit_rows_def replaced_def get_tenant_def)
    next
      case False
      then show ?thesis using that(1) assms(3,4)
        by (intro exI [of _ t]) (auto simp: Pair succeeded(2) commit_rows_def replaced_def get_tenant_def)
    qed
    show ?thesis
      using succeeded(1)
    proof (cases rule: calls_shape)
      case (provisioned u source e)
      then show ?thesis using assms(3,4)
        by (intro exI [of _ t]) (auto simp: Pair succeeded(2) commit_rows_def added_def get_tenant_def)
    qed (erule repl, simp add: is_deleted_def)+
  qed
qed

lemma deleted_for_good:
  "tenancy_inv s \<Longrightarrow> ts_durable s = ts_db s \<Longrightarrow> get_tenant i (ts_db s) = Some t \<Longrightarrow> is_deleted t \<Longrightarrow>
     \<exists>t1. get_tenant i (ts_db (lifecycle_requests C rs s)) = Some t1 \<and> is_deleted t1"
proof (induction rs arbitrary: s t)
  case (Cons r rs)
  from deleted_stays [OF Cons.prems] obtain t1 where
    "get_tenant i (ts_db (lifecycle_request C r s)) = Some t1" "is_deleted t1" by blast
  from Cons.IH [OF _ _ this] request_keeps [OF Cons.prems(1,2)] show ?case
    by (simp add: lifecycle_requests_def)
qed (simp add: lifecycle_requests_def)

lemma deleted_not_listed:
  assumes "ids_inv s" and "get_tenant i (ts_db s) = Some t" "is_deleted t"
  shows "i \<notin> set (list_active_tenant_ids (ts_db s))"
proof
  assume "i \<in> set (list_active_tenant_ids (ts_db s))"
  then obtain u where "u \<in> set (td_tenants (ts_db s))" "tn_id u = i" "tn_deleted_at u = None"
    by (auto simp: list_active_tenant_ids_def)
  moreover have "t \<in> set (td_tenants (ts_db s))" "tn_id t = i" using get_tenant_key [OF assms(2)] by auto
  ultimately have "u = t" using assms(1) by (auto simp: ids_inv_def distinct_map dest: inj_onD)
  with \<open>tn_deleted_at u = None\<close> assms(3) show False by (simp add: is_deleted_def)
qed

text \<open>
  Deletion is final. Once a deletion of a tenant has gone through, then whatever lifecycle
  requests follow, the tenant is kept as deleted, admission to work on it is refused as
  deleted, no feature is enabled for it, no worker polls it, and suspending or reactivating
  it fails.
\<close>

theorem deletion_is_final:
  assumes "fresh_session s0" and "s = lifecycle_requests C rs s0"
    and "fst (delete_tenant i actor reason s) = Inr ()"
    and "s1 = lifecycle_requests C rs1 (lifecycle_request C (now, Delete i actor reason) s)"
  shows "(\<exists>plan. lifecycle_state i (ts_db s1) = Some (''deleted'', plan)) \<and>
    get_active i (ts_db s1) = Inl (TenantDeletedError (''Tenant '' @ i @ '' has been deleted'')) \<and>
    \<not> is_enabled i feature (ts_db s1) \<and> i \<notin> set (list_active_tenant_ids (ts_db s1)) \<and>
    fst (repo_suspend i s1) = Inl (TenantDeletedError (''Cannot suspend deleted tenant '' @ i)) \<and>
    fst (repo_reactivate i s1) = Inl (TenantDeletedError (''Cannot reactivate deleted tenant '' @ i))"
proof -
  have inv: "tenancy_inv s" "ts_durable s = ts_db s"
    using requests_keep [of s0 C rs] fresh_session_inv [OF assms(1)] assms(1,2) by (simp_all add: fresh_session_def)
  obtain t where t: "get_tenant i (ts_db s) = Some t"
    using assms(3) by (auto simp: delete_tenant_def soft_delete_def and_then_def split: option.splits)
  let ?s = "lifecycle_request C (now, Delete i actor reason) s"
  have del: "get_tenant i (ts_db ?s) = Some (t\<lparr>tn_status := ''deleted'', tn_deleted_at := Some now\<rparr>)"
    using t get_tenant_key [OF t] by (simp add: lifecycle_request_def in_transaction_def delete_tenant_def soft_delete_def
        Let_def emit_event_def map_rows_def commit_rows_def put_tenant_def) (simp add: get_tenant_def)
  have inv1: "tenancy_inv ?s" "ts_durable ?s = ts_db ?s" using request_keeps [OF inv] by simp_all
  from deleted_for_good [OF inv1 del, of C rs1] obtain t1 where t1: "get_tenant i (ts_db s1) = Some t1" "is_deleted t1"
    by (auto simp: assms(4) is_deleted_def)
  have inv2: "tenancy_inv s1" using requests_keep [OF inv1, of C rs1] by (simp add: assms(4))
  then have status: "tn_status t1 = ''deleted''"
    using t1 get_tenant_key [OF t1(1)] by (simp add: tenancy_inv_def deleted_inv_def)
  have act: "get_active i (ts_db s1) = Inl (TenantDeletedError (''Tenant '' @ i @ '' has been deleted''))"
    using t1 by (simp add: get_active_def)
  show ?thesis
    using t1 status inv2 deleted_not_listed [OF _ t1]
    by (simp add: act lifecycle_state_def is_enabled_def repo_suspend_def repo_reactivate_def tenancy_inv_def)
qed

theorem deletion_is_final_witness:
  "get_active [] (ts_db (lifecycle_requests (\<lambda>i a. None) [(6, Reactivate [] ''admin''), (7, UpgradePlan [] ''free'' ''b'')]
       (lifecycle_request (\<lambda>i a. None) (5, Delete [] ''admin'' ''gone'')
         (lifecycle_requests (\<lambda>i a. None) (take 4 example_lifecycle) example_session)))) =
     Inl (TenantDeletedError ''Tenant  has been deleted'')"
proof -
  have "fst (delete_tenant [] ''admin'' ''gone'' (lifecycle_requests (\<lambda>i a. None) (take 4 example_lifecycle) example_session)) = Inr ()"
    by code_simp
  from deletion_is_final [OF example_session_fresh refl this refl] show ?thesis by simp
qed

end
