(* ===== verification/Metering.thy ===== *)
theory Metering
  imports Tenancy "HOL-Library.Product_Lexorder"
begin

section \<open>Metered usage and its reports to Stripe\<close>

text \<open>
  \<open>backend/services/billing_meter_dispatcher.py\<close>, \<open>repositories/billing_meter_dispatch_repository.py\<close>
  and the part of \<open>services/billing_stripe_integration.py\<close> that reports usage. A usage increment is a
  row written with its counter; after the commit, and again when it is due, its report is sent
  with the row's idempotency key.

  The Stripe client and the database are the record \<open>stripe\<close>: what they answer is an argument of each call. Stripe's
  exceptions are pairs of their text and their class name. A usage record can be recorded by Stripe although the call raises, when the
  answer is lost, and the commit that follows a delivery can fail: the row is then what it was, but what was sent stays sent.
\<close>

subsection \<open>Reporting one increment\<close>

type_synonym stripe_error = "string \<times> string"

text \<open>
  \<open>st_subscriptions\<close> gives the active subscriptions of a customer, each with its items as item id and
  price id; \<open>st_usage_record\<close> what becomes of a usage record; \<open>st_commit_error\<close> the error of the commit that is to make a delivered row
  durable, if there is one.
\<close>

datatype usage_answer = UsageRecorded | UsageRefused stripe_error | AnswerLost stripe_error

fun answer_error :: "usage_answer \<Rightarrow> stripe_error option" where
  "answer_error UsageRecorded = None"
| "answer_error (UsageRefused e) = Some e"
| "answer_error (AnswerLost e) = Some e"

fun usage_recorded :: "usage_answer \<Rightarrow> bool" where
  "usage_recorded (UsageRefused _) \<longleftrightarrow> False"
| "usage_recorded _ \<longleftrightarrow> True"

record stripe =
  st_subscriptions :: "string \<Rightarrow> stripe_error + (string \<times> string option) list list"
  st_usage_record :: "usage_report \<Rightarrow> usage_answer"
  st_commit_error :: "meter_dispatch \<Rightarrow> exn option"

record report_result =
  mr_reported :: bool
  mr_detail :: string
  mr_subscription_item_id :: "string option"

text \<open>The reverse of the map from plans to their configured prices; a later plan wins.\<close>

definition price_id_to_plan :: "(string \<times> string) list \<Rightarrow> string \<Rightarrow> string option" where
  "price_id_to_plan plan_map price_id =
     map_of (rev (map (\<lambda>(k, v). (v, k)) (filter (\<lambda>(k, v). v \<noteq> []) plan_map))) price_id"

definition metered_item :: "(string \<times> string) list \<Rightarrow> string \<times> string option \<Rightarrow> bool" where
  "metered_item plan_map item \<longleftrightarrow>
     (case snd item of None \<Rightarrow> False
      | Some price_id \<Rightarrow> price_id \<noteq> [] \<and> price_id_to_plan plan_map price_id \<notin> {None, Some []})"

definition report_subscription_item_usage ::
  "stripe \<Rightarrow> string \<Rightarrow> int \<Rightarrow> int \<Rightarrow> string \<Rightarrow> stripe_error option \<times> (usage_report \<times> bool)" where
  "report_subscription_item_usage S item quantity timestamp idempotency_key =
     (let report = \<lparr>ur_subscription_item = item, ur_quantity = quantity, ur_timestamp = timestamp,
                    ur_idempotency_key = idempotency_key\<rparr>
      in (answer_error (st_usage_record S report), (report, usage_recorded (st_usage_record S report))))"

definition report_metered_usage ::
  "stripe \<Rightarrow> (string \<times> string) list \<Rightarrow> tenant_db \<Rightarrow> uuid \<Rightarrow> int \<Rightarrow> string \<Rightarrow> int \<Rightarrow>
     (stripe_error + report_result) \<times> (usage_report \<times> bool) list" where
  "report_metered_usage S plan_map d i quantity idempotency_key timestamp =
     (let skip = (\<lambda>detail. (Inr \<lparr>mr_reported = False, mr_detail = detail, mr_subscription_item_id = None\<rparr>, []))
      in if quantity \<le> 0 then (Inl (''metered usage quantity must be positive'', ''ValueError''), [])
         else if strip idempotency_key = []
         then (Inl (''metered usage idempotency_key is required'', ''ValueError''), [])
         else (case get_tenant i d of
             None \<Rightarrow> skip ''tenant not found''
           | Some t \<Rightarrow>
               (case tn_stripe_customer_id t of
                  None \<Rightarrow> skip ''tenant has no Stripe customer''
                | Some [] \<Rightarrow> skip ''tenant has no Stripe customer''
                | Some customer \<Rightarrow>
                    (case st_subscriptions S customer of
                       Inl e \<Rightarrow> (Inl e, [])
                     | Inr subs \<Rightarrow>
                         (case find (metered_item plan_map) (concat subs) of
                            None \<Rightarrow> skip ''no active metered subscription item''
                          | Some (item, price) \<Rightarrow>
                              (case report_subscription_item_usage S item quantity timestamp idempotency_key of
                                 (Some e, r) \<Rightarrow> (Inl e, [r])
                               | (None, r) \<Rightarrow>
                                   (Inr \<lparr>mr_reported = True, mr_detail = ''usage reported'',
                                         mr_subscription_item_id = Some item\<rparr>, [r])))))))"

subsection \<open>The repository and the service\<close>

definition find_meter :: "uuid \<Rightarrow> tenant_db \<Rightarrow> meter_dispatch option" where
  "find_meter k d = find_row md_id k (td_meters d)"

definition put_meter :: "meter_dispatch \<Rightarrow> tenant_db \<Rightarrow> tenant_db" where
  "put_meter r d = d\<lparr>td_meters := put_row md_id r (td_meters d)\<rparr>"

definition get_for_tenant :: "uuid \<Rightarrow> uuid \<Rightarrow> tenant_db \<Rightarrow> meter_dispatch option" where
  "get_for_tenant i k d = find (\<lambda>r. md_id r = k \<and> md_tenant_id r = i) (td_meters d)"

definition list_due_pending :: "time \<Rightarrow> nat \<Rightarrow> tenant_db \<Rightarrow> meter_dispatch list" where
  "list_due_pending now limit d =
     take limit (sort_key (\<lambda>r. (md_next_attempt_at r, md_created_at r))
       (filter (\<lambda>r. md_status r = ''pending'' \<and> md_next_attempt_at r \<le> now) (td_meters d)))"

definition supported_metrics :: "string list" where
  "supported_metrics = [''missions'', ''tasks'', ''agents'', ''api_calls'']"

definition billing_meter_after_commit :: "meter_intent \<Rightarrow> tenant_session \<Rightarrow> tenant_session" where
  "billing_meter_after_commit intent s =
     (if \<forall>existing \<in> set (ts_intents s). mi_dispatch_id existing \<noteq> mi_dispatch_id intent
      then s\<lparr>ts_intents := ts_intents s @ [intent]\<rparr> else s)"

definition record_meter :: "uuid \<Rightarrow> int \<Rightarrow> string \<Rightarrow> meter_dispatch session_op" where
  "record_meter i quantity metric s =
     (if quantity \<le> 0 then (Inl (Raised (ValueError ''billing meter quantity must be positive'')), s)
      else if metric \<notin> set supported_metrics
      then (Inl (Raised (ValueError (''unsupported billing meter metric: '' @ quoted metric))), s)
      else case new_id s of (k, s1) \<Rightarrow>
        (let r = \<lparr>md_id = k, md_tenant_id = i, md_metric = metric, md_quantity = quantity, md_status = ''pending'',
                  md_attempt_count = 0, md_next_attempt_at = ts_clock s, md_last_error = None,
                  md_subscription_item_id = None, md_reported_at = None, md_created_at = ts_clock s\<rparr>
         in (Inr r, billing_meter_after_commit \<lparr>mi_dispatch_id = k, mi_tenant_id = i\<rparr>
               (map_rows (\<lambda>d. d\<lparr>td_meters := td_meters d @ [r]\<rparr>) s1))))"

definition meter_backoff :: "int \<Rightarrow> time" where
  "meter_backoff attempt_count = seconds (min 3600 (2 ^ nat (min (max attempt_count 1) 12)))"

record meter_summary =
  ms_delivered :: nat
  ms_retry_scheduled :: nat
  ms_skipped :: nat

text \<open>\<open>int(created_at.timestamp())\<close> truncates towards zero.\<close>

definition whole_seconds :: "time \<Rightarrow> int" where
  "whole_seconds t = (if t < 0 then - ((- t) div 1000000) else t div 1000000)"

definition meter_key :: "meter_dispatch \<Rightarrow> string" where
  "meter_key r = ''billing-meter:'' @ md_id r"

definition deliver ::
  "stripe \<Rightarrow> (string \<times> string) list \<Rightarrow> time \<Rightarrow> tenant_db \<Rightarrow> meter_dispatch \<Rightarrow>
     meter_summary \<times> meter_dispatch \<times> (usage_report \<times> bool) list" where
  "deliver S plan_map now d r0 =
     (let r = r0\<lparr>md_attempt_count := md_attempt_count r0 + 1\<rparr> in
      case report_metered_usage S plan_map d (md_tenant_id r) (md_quantity r) (meter_key r) (whole_seconds (md_created_at r)) of
        (Inl (text, cls), sent) \<Rightarrow>
          (\<lparr>ms_delivered = 0, ms_retry_scheduled = 1, ms_skipped = 0\<rparr>,
           r\<lparr>md_last_error := Some (if text = [] then cls else text),
             md_next_attempt_at := now + meter_backoff (md_attempt_count r)\<rparr>, sent)
      | (Inr outcome, sent) \<Rightarrow>
          (let r1 = r\<lparr>md_last_error := Some (mr_detail outcome),
                      md_subscription_item_id := mr_subscription_item_id outcome\<rparr>
           in if mr_reported outcome
              then (\<lparr>ms_delivered = 1, ms_retry_scheduled = 0, ms_skipped = 0\<rparr>,
                    r1\<lparr>md_status := ''delivered'', md_reported_at := Some now\<rparr>, sent)
              else (\<lparr>ms_delivered = 0, ms_retry_scheduled = 0, ms_skipped = 1\<rparr>,
                    r1\<lparr>md_status := ''skipped''\<rparr>, sent)))"

text \<open>
  A flush writes the columns that were changed on the object the session has, which is a copy of the row from when it was read, and
  leaves the others of the row alone.
\<close>

definition merged_column :: "'a \<Rightarrow> 'a \<Rightarrow> 'a \<Rightarrow> 'a" where
  "merged_column old new current = (if new = old then current else new)"

definition write_changes :: "meter_dispatch \<Rightarrow> meter_dispatch \<Rightarrow> meter_dispatch \<Rightarrow> meter_dispatch" where
  "write_changes r0 r1 row = row
     \<lparr>md_status := merged_column (md_status r0) (md_status r1) (md_status row),
      md_attempt_count := merged_column (md_attempt_count r0) (md_attempt_count r1) (md_attempt_count row),
      md_next_attempt_at := merged_column (md_next_attempt_at r0) (md_next_attempt_at r1) (md_next_attempt_at row),
      md_last_error := merged_column (md_last_error r0) (md_last_error r1) (md_last_error row),
      md_subscription_item_id := merged_column (md_subscription_item_id r0) (md_subscription_item_id r1) (md_subscription_item_id row),
      md_reported_at := merged_column (md_reported_at r0) (md_reported_at r1) (md_reported_at row)\<rparr>"

definition save_changes :: "meter_dispatch \<Rightarrow> meter_dispatch \<Rightarrow> tenant_db \<Rightarrow> tenant_db" where
  "save_changes r0 r1 d =
     d\<lparr>td_meters := map (\<lambda>row. if md_id row = md_id r0 then write_changes r0 r1 row else row) (td_meters d)\<rparr>"

text \<open>A delivery, written back and made durable; when the commit fails, its error.\<close>

definition deliver_row ::
  "stripe \<Rightarrow> (string \<times> string) list \<Rightarrow> meter_dispatch \<Rightarrow> tenant_session \<Rightarrow> meter_summary result \<times> tenant_session" where
  "deliver_row S plan_map r s =
     (case deliver S plan_map (ts_clock s) (ts_db s) r of
        (summary, r1, sent) \<Rightarrow>
          (let s1 = s\<lparr>ts_reports := ts_reports s @ sent\<rparr>
           in case st_commit_error S r1 of
                Some e \<Rightarrow> (Inl e, rollback_session s1)
              | None \<Rightarrow> (Inr summary, commit_rows (map_rows (save_changes r r1) s1))))"

definition no_meters :: meter_summary where
  "no_meters = \<lparr>ms_delivered = 0, ms_retry_scheduled = 0, ms_skipped = 0\<rparr>"

definition publish_one ::
  "stripe \<Rightarrow> (string \<times> string) list \<Rightarrow> uuid \<Rightarrow> uuid \<Rightarrow> tenant_session \<Rightarrow> meter_summary result \<times> tenant_session" where
  "publish_one S plan_map i k s =
     (case get_for_tenant i k (ts_db s) of
        None \<Rightarrow> (Inr no_meters, rollback_session s)
      | Some r \<Rightarrow>
          if md_status r \<noteq> ''pending'' then (Inr no_meters, rollback_session s)
          else deliver_row S plan_map r s)"

definition add_summary :: "meter_summary \<Rightarrow> meter_summary \<Rightarrow> meter_summary" where
  "add_summary a b = \<lparr>ms_delivered = ms_delivered a + ms_delivered b,
     ms_retry_scheduled = ms_retry_scheduled a + ms_retry_scheduled b, ms_skipped = ms_skipped a + ms_skipped b\<rparr>"

text \<open>The rows were read, and locked, by one statement; the first commit releases the locks, and the copies are not read again.\<close>

fun deliver_rows ::
  "stripe \<Rightarrow> (string \<times> string) list \<Rightarrow> meter_dispatch list \<Rightarrow> meter_summary \<Rightarrow> tenant_session \<Rightarrow>
     meter_summary result \<times> tenant_session" where
  "deliver_rows S plan_map [] acc s = (Inr acc, s)"
| "deliver_rows S plan_map (r # rs) acc s =
     (case deliver_row S plan_map r s of
        (Inl e, s1) \<Rightarrow> (Inl e, s1)
      | (Inr summary, s1) \<Rightarrow> deliver_rows S plan_map rs (add_summary acc summary) s1)"

definition publish_due_meters ::
  "stripe \<Rightarrow> (string \<times> string) list \<Rightarrow> nat \<Rightarrow> tenant_session \<Rightarrow> meter_summary result \<times> tenant_session" where
  "publish_due_meters S plan_map limit s =
     deliver_rows S plan_map (list_due_pending (ts_clock s) limit (ts_db s)) no_meters s"

text \<open>
  A commit of the session: its rows become durable, then each intent is published in a session of
  its own, which reads the durable rows; one that raises is rolled back and the next one is published. The session reads its rows
  again afterwards.
\<close>

definition publish_committed :: "stripe \<Rightarrow> (string \<times> string) list \<Rightarrow> meter_intent \<Rightarrow> tenant_session \<Rightarrow> tenant_session" where
  "publish_committed S plan_map intent s =
     (case publish_one S plan_map (mi_tenant_id intent) (mi_dispatch_id intent) s of
        (Inl e, s1) \<Rightarrow> rollback_session s1
      | (Inr _, s1) \<Rightarrow> s1)"

definition commit_session :: "stripe \<Rightarrow> (string \<times> string) list \<Rightarrow> tenant_session \<Rightarrow> tenant_session" where
  "commit_session S plan_map s = fold (publish_committed S plan_map) (ts_intents s) ((commit_rows s)\<lparr>ts_intents := []\<rparr>)"

definition meter_transaction :: "stripe \<Rightarrow> (string \<times> string) list \<Rightarrow> 'a session_op \<Rightarrow> 'a session_op" where
  "meter_transaction S plan_map f s =
     (case f s of (Inl e, s1) \<Rightarrow> (Inl e, rollback_session s1) | (Inr x, s1) \<Rightarrow> (Inr x, commit_session S plan_map s1))"

subsection \<open>What is reported of an increment\<close>

definition report_of :: "meter_dispatch \<Rightarrow> usage_report \<times> bool \<Rightarrow> bool" where
  "report_of r sent \<longleftrightarrow> ur_idempotency_key (fst sent) = meter_key r"

text \<open>What identifies an increment, which no delivery changes.\<close>

definition increment_of :: "meter_dispatch \<Rightarrow> uuid \<times> uuid \<times> string \<times> int \<times> time" where
  "increment_of r = (md_id r, md_tenant_id r, md_metric r, md_quantity r, md_created_at r)"

definition increments_of :: "tenant_db \<Rightarrow> (uuid \<times> uuid \<times> string \<times> int \<times> time) list" where
  "increments_of d = map increment_of (td_meters d)"

text \<open>The reports sent for a row all carry its quantity and its instant, and one was recorded if the row is delivered.\<close>

definition reports_ok :: "(usage_report \<times> bool) list \<Rightarrow> meter_dispatch \<Rightarrow> bool" where
  "reports_ok reports r \<longleftrightarrow>
     (md_status r = ''delivered'' \<longrightarrow> list_ex (\<lambda>sent. report_of r sent \<and> snd sent) reports) \<and>
     list_all (\<lambda>sent. report_of r sent \<longrightarrow> ur_quantity (fst sent) = md_quantity r \<and>
        ur_timestamp (fst sent) = whole_seconds (md_created_at r)) reports"

definition meter_inv :: "tenant_session \<Rightarrow> bool" where
  "meter_inv s \<longleftrightarrow> inj (ts_ids s) \<and> distinct (map md_id (td_meters (ts_durable s))) \<and>
     md_id ` set (td_meters (ts_durable s)) \<subseteq> ts_ids s ` {..<ts_next_id s} \<and>
     (\<forall>sent \<in> set (ts_reports s). \<exists>r \<in> set (td_meters (ts_durable s)). report_of r sent) \<and>
     (\<forall>r \<in> set (td_meters (ts_durable s)). reports_ok (ts_reports s) r)"

lemma meter_key_eq [simp]: "meter_key r = meter_key r' \<longleftrightarrow> md_id r = md_id r'"
  by (simp add: meter_key_def)

text \<open>What a delivery does to a row: it keeps what identifies the increment and sends at most one report.\<close>

lemma delivery_cases:
  assumes "deliver S plan_map now d r = (summary, r1, sent)"
  obtains
    (unsent) "sent = []" "md_status r1 \<in> {md_status r, ''skipped''}"
  | (sent) rep b where "sent = [(rep, b)]" "report_of r (rep, b)" "ur_quantity rep = md_quantity r"
      "ur_timestamp rep = whole_seconds (md_created_at r)" "md_status r1 = md_status r \<or> md_status r1 = ''delivered'' \<and> b"
proof -
  have rec: "answer_error a = None \<Longrightarrow> usage_recorded a" for a by (cases a) simp_all
  show thesis
    using assms that rec
    by (auto simp: deliver_def report_metered_usage_def report_subscription_item_usage_def Let_def report_of_def meter_key_def
        split: prod.splits sum.splits option.splits if_splits list.splits)
qed

lemma delivery_frame: "deliver S plan_map now d r = (summary, r1, sent) \<Longrightarrow> increment_of r1 = increment_of r"
  by (auto simp: deliver_def increment_of_def Let_def split: prod.splits sum.splits if_splits)

lemma report_of_id: "md_id r1 = md_id r \<Longrightarrow> report_of r1 = report_of r"
  by (simp add: report_of_def fun_eq_iff meter_key_def)

lemma write_changes_sel [simp]:
  "md_id (write_changes r0 r1 row) = md_id row" "increment_of (write_changes r0 r1 row) = increment_of row"
  "md_status (write_changes r0 r1 row) = merged_column (md_status r0) (md_status r1) (md_status row)"
  by (simp_all add: write_changes_def increment_of_def)

lemma save_changes_sel [simp]:
  "td_usage (save_changes r0 r1 d) = td_usage d" "td_tenants (save_changes r0 r1 d) = td_tenants d"
  "td_plans (save_changes r0 r1 d) = td_plans d" "increments_of (save_changes r0 r1 d) = increments_of d"
  by (simp_all add: save_changes_def increments_of_def)

lemma increment_sel: "increment_of x = increment_of y \<Longrightarrow> md_id x = md_id y \<and> md_quantity x = md_quantity y \<and> md_created_at x = md_created_at y"
  by (simp add: increment_of_def)

lemma same_row:
  assumes "distinct (map md_id (td_meters d))" and "increment_of r \<in> set (increments_of d)" and "x \<in> set (td_meters d)" and "md_id x = md_id r"
  shows "increment_of x = increment_of r"
proof -
  obtain y where y: "y \<in> set (td_meters d)" "increment_of y = increment_of r" using assms(2) by (auto simp: increments_of_def)
  then have "md_id y = md_id x" using assms(4) by (simp add: increment_of_def)
  then have "y = x" using assms(1,3) y(1) by (auto simp: distinct_map dest: inj_onD)
  then show ?thesis using y(2) by simp
qed

text \<open>One delivery, from a copy of a row that may no longer be what the row is.\<close>

lemma delivered_reports:
  assumes del: "deliver S plan_map now d r = (summary, r1, sent)" and x: "reports_ok reports x"
    and same: "md_id x = md_id r \<longrightarrow> increment_of x = increment_of r"
  shows "reports_ok (reports @ sent) x" and "md_id x = md_id r \<Longrightarrow> reports_ok (reports @ sent) (write_changes r r1 x)"
proof -
  have sent: "ur_quantity (fst y) = md_quantity x \<and> ur_timestamp (fst y) = whole_seconds (md_created_at x)"
    if y: "y \<in> set sent" "report_of x y" for y
    using del
  proof (cases rule: delivery_cases)
    case (sent rep b)
    then have "md_id x = md_id r" using y by (simp add: report_of_def)
    then show ?thesis using increment_sel [of x r] same sent y by simp
  qed (use y in simp)
  have all: "list_all (\<lambda>sent. report_of x sent \<longrightarrow> ur_quantity (fst sent) = md_quantity x \<and>
      ur_timestamp (fst sent) = whole_seconds (md_created_at x)) (reports @ sent)"
    using x sent by (auto simp: reports_ok_def list_all_iff)
  then show "reports_ok (reports @ sent) x" using x by (auto simp: reports_ok_def)
  assume id: "md_id x = md_id r"
  have "list_ex (\<lambda>sent. report_of x sent \<and> snd sent) (reports @ sent)" if "md_status (write_changes r r1 x) = ''delivered''"
    using del
  proof (cases rule: delivery_cases)
    case unsent
    then have "md_status x = ''delivered''" using that by (auto simp: merged_column_def split: if_splits)
    then show ?thesis using x by (simp add: reports_ok_def)
  next
    case (sent rep b)
    then show ?thesis
      using that x report_of_id [OF id] by (auto simp: merged_column_def reports_ok_def split: if_splits)
  qed
  moreover have "md_quantity (write_changes r r1 x) = md_quantity x" "md_created_at (write_changes r r1 x) = md_created_at x"
    by (simp_all add: write_changes_def)
  ultimately show "reports_ok (reports @ sent) (write_changes r r1 x)"
    using all report_of_id [of "write_changes r r1 x" x] by (simp add: reports_ok_def)
qed

text \<open>Publication touches the meter rows only, and of them not what identifies the increments.\<close>

definition meters_published :: "tenant_session \<Rightarrow> tenant_session \<Rightarrow> bool" where
  "meters_published s s1 \<longleftrightarrow> meter_inv s1 \<and> ts_db s1 = ts_durable s1 \<and> td_usage (ts_db s1) = td_usage (ts_db s) \<and>
     td_tenants (ts_db s1) = td_tenants (ts_db s) \<and> td_plans (ts_db s1) = td_plans (ts_db s) \<and>
     ts_ids s1 = ts_ids s \<and> ts_next_id s1 = ts_next_id s \<and> ts_period s1 = ts_period s \<and>
     increments_of (ts_db s1) = increments_of (ts_db s) \<and> set (ts_reports s) \<subseteq> set (ts_reports s1)"

lemma published_trans: "meters_published s s1 \<Longrightarrow> meters_published s1 s2 \<Longrightarrow> meters_published s s2"
  by (auto simp: meters_published_def)

lemma published_increments: "meters_published s s1 \<Longrightarrow> increments_of (ts_db s1) = increments_of (ts_db s)"
  unfolding meters_published_def by blast

lemma published_inv: "meters_published s s1 \<Longrightarrow> meter_inv s1 \<and> ts_db s1 = ts_durable s1"
  by (simp add: meters_published_def)

lemma rollback_published: "meter_inv s \<Longrightarrow> ts_db s = ts_durable s \<Longrightarrow> meters_published s (rollback_session s)"
  by (simp add: meters_published_def meter_inv_def rollback_session_def)

lemma deliver_row_published:
  assumes inv: "meter_inv s" and db: "ts_db s = ts_durable s" and r: "increment_of r \<in> set (increments_of (ts_db s))"
    and out: "deliver_row S plan_map r s = (res, s1)"
  shows "meters_published s s1"
proof -
  obtain summary r1 sent where del: "deliver S plan_map (ts_clock s) (ts_db s) r = (summary, r1, sent)" by (metis prod_cases3)
  let ?s = "s\<lparr>ts_reports := ts_reports s @ sent\<rparr>" and ?rows = "td_meters (ts_durable s)"
  have dist: "distinct (map md_id ?rows)" using inv by (simp add: meter_inv_def)
  have same: "md_id x = md_id r \<longrightarrow> increment_of x = increment_of r" if "x \<in> set ?rows" for x
    using same_row [OF _ r, of x] dist that db by simp
  have ok: "reports_ok (ts_reports s @ sent) x" "md_id x = md_id r \<Longrightarrow> reports_ok (ts_reports s @ sent) (write_changes r r1 x)"
    if "x \<in> set ?rows" for x
    using delivered_reports [OF del _ same [OF that]] inv that by (auto simp: meter_inv_def)
  have owner: "\<exists>x \<in> set ?rows. report_of x y" if y: "y \<in> set (ts_reports s @ sent)" for y
  proof (cases "y \<in> set sent")
    case True
    have "report_of r y" using del by (cases rule: delivery_cases) (use True in auto)
    moreover obtain x where x: "x \<in> set ?rows" "increment_of x = increment_of r" using r db by (auto simp: increments_of_def)
    ultimately have "report_of x y" using report_of_id [of x r] by (simp add: increment_of_def)
    then show ?thesis using x(1) by blast
  next
    case False
    then show ?thesis using y inv by (auto simp: meter_inv_def)
  qed
  show ?thesis
  proof (cases "st_commit_error S r1")
    case (Some e)
    then have "s1 = rollback_session ?s" using out del by (simp add: deliver_row_def)
    then show ?thesis using inv ok(1) owner db by (simp add: meters_published_def meter_inv_def rollback_session_def)
  next
    case None
    then have s1: "s1 = commit_rows (map_rows (save_changes r r1) ?s)" using out del by (simp add: deliver_row_def)
    let ?new = "td_meters (ts_durable s1)"
    have new: "?new = map (\<lambda>row. if md_id row = md_id r then write_changes r r1 row else row) ?rows"
      by (simp add: s1 commit_rows_def map_rows_def save_changes_def db)
    have ids: "map md_id ?new = map md_id ?rows" by (simp add: new)
    then have idset: "md_id ` set ?new = md_id ` set ?rows" by (metis list.set_map)
    have "reports_ok (ts_reports s @ sent) x" if "x \<in> set ?new" for x
      using that ok unfolding new by auto
    moreover have "\<exists>x \<in> set ?new. report_of x y" if y: "y \<in> set (ts_reports s @ sent)" for y
    proof -
      obtain x where "x \<in> set ?rows" "report_of x y" using owner [OF y] by blast
      then have "md_id x \<in> md_id ` set ?new" by (simp add: idset)
      then obtain z where "z \<in> set ?new" "md_id z = md_id x" by auto
      then show ?thesis using \<open>report_of x y\<close> report_of_id [of z x] by (intro bexI [of _ z]) simp_all
    qed
    ultimately have "meter_inv s1"
      using inv ids idset by (simp add: meter_inv_def) (simp add: s1 commit_rows_def map_rows_def)
    then show ?thesis by (simp add: meters_published_def) (simp add: s1 commit_rows_def map_rows_def)
  qed
qed

lemma deliver_rows_published:
  "meter_inv s \<Longrightarrow> ts_db s = ts_durable s \<Longrightarrow> \<forall>r \<in> set rs. increment_of r \<in> set (increments_of (ts_db s)) \<Longrightarrow>
     deliver_rows S plan_map rs acc s = (res, s1) \<Longrightarrow> meters_published s s1"
proof (induction rs arbitrary: acc s)
  case Nil
  then show ?case by (simp add: meters_published_def)
next
  case (Cons r rs)
  obtain q s2 where out: "deliver_row S plan_map r s = (q, s2)" by (rule prod.exhaust)
  have p: "meters_published s s2" using deliver_row_published [OF Cons.prems(1,2) _ out] Cons.prems(3) by simp
  show ?case
  proof (cases q)
    case (Inl e)
    then show ?thesis using Cons.prems(4) out p by simp
  next
    case (Inr su)
    have "\<forall>r \<in> set rs. increment_of r \<in> set (increments_of (ts_db s2))" using Cons.prems(3) by (simp add: published_increments [OF p])
    then have "meters_published s2 s1" using Cons.IH [of s2] published_inv [OF p] Cons.prems(4) out Inr by simp
    then show ?thesis by (rule published_trans [OF p])
  qed
qed

lemma due_rows:
  "r \<in> set (list_due_pending now limit d) \<Longrightarrow> r \<in> set (td_meters d) \<and> md_status r = ''pending'' \<and> md_next_attempt_at r \<le> now"
  by (auto simp: list_due_pending_def dest!: in_set_takeD)

lemma publish_due_published:
  "meter_inv s \<Longrightarrow> ts_db s = ts_durable s \<Longrightarrow> meters_published s (snd (publish_due_meters S plan_map limit s))"
  unfolding publish_due_meters_def
  by (rule deliver_rows_published [OF _ _ _ surjective_pairing]) (auto simp: increments_of_def dest: due_rows)

lemma publish_one_published:
  assumes "meter_inv s" "ts_db s = ts_durable s" and "publish_one S plan_map i k s = (res, s1)"
  shows "meters_published s s1"
proof (cases "get_for_tenant i k (ts_db s)")
  case None
  then show ?thesis using assms rollback_published by (auto simp: publish_one_def)
next
  case (Some r)
  then have "increment_of r \<in> set (increments_of (ts_db s))" by (auto simp: get_for_tenant_def find_Some_iff increments_of_def)
  then show ?thesis using assms Some rollback_published deliver_row_published [OF assms(1,2)]
    by (auto simp: publish_one_def split: if_splits)
qed

lemma publish_committed_published:
  assumes "meter_inv s" "ts_db s = ts_durable s"
  shows "meters_published s (publish_committed S plan_map intent s)"
proof -
  obtain res s1 where out: "publish_one S plan_map (mi_tenant_id intent) (mi_dispatch_id intent) s = (res, s1)" by (rule prod.exhaust)
  have p: "meters_published s s1" by (rule publish_one_published [OF assms out])
  then have "meters_published s (rollback_session s1)"
    using published_trans [OF p rollback_published] published_inv [OF p] by blast
  then show ?thesis using p out by (simp add: publish_committed_def split: sum.split)
qed

lemma publish_intents_published:
  "meter_inv s \<Longrightarrow> ts_db s = ts_durable s \<Longrightarrow> meters_published s (fold (publish_committed S plan_map) intents s)"
proof (induction intents arbitrary: s)
  case Nil
  then show ?case by (simp add: meters_published_def)
next
  case (Cons x intents)
  note p = publish_committed_published [OF Cons.prems, of S plan_map x]
  show ?case using published_trans [OF p Cons.IH] published_inv [OF p] by simp
qed

lemma commit_session_published:
  assumes "meter_inv (commit_rows s)"
  shows "meters_published s (commit_session S plan_map s)"
proof -
  let ?s = "(commit_rows s)\<lparr>ts_intents := []\<rparr>"
  have "meter_inv ?s" "ts_db ?s = ts_durable ?s" using assms by (simp_all add: meter_inv_def commit_rows_def)
  from publish_intents_published [OF this, of S plan_map "ts_intents s"]
  have *: "meters_published ?s (commit_session S plan_map s)" by (simp only: commit_session_def)
  have same: "ts_db ?s = ts_db s" "ts_ids ?s = ts_ids s" "ts_next_id ?s = ts_next_id s" "ts_period ?s = ts_period s" "ts_reports ?s = ts_reports s"
    by (simp_all add: commit_rows_def)
  show ?thesis using * unfolding meters_published_def same .
qed

end
