(* ===== verification/Quota.thy ===== *)
theory Quota
  imports Metering RateLimit
begin

section \<open>Plan limits\<close>

text \<open>
  \<open>backend/services/quota_enforcement.py\<close> with the admission and the recording of API calls in
  \<open>middleware/rate_limit.py\<close>. A check reads the committed usage of the month and the plan's
  limit; the increment that follows is an atomic update of the row, written together with the
  meter row that reports it. Counters do not overflow their 64-bit columns.
\<close>

subsection \<open>Settings\<close>

record quota_settings =
  qs_env :: string
  qs_dev_bypass_api_call_quota :: bool
  qs_budget_policy_enabled :: bool
  qs_budget_policy_observe_only :: bool
  qs_budget_policy_enforce :: bool
  qs_budget_policy_enforce_tenant_ids :: string
  qs_budget_policy_enforce_plans :: string

definition api_call_quota_bypassed :: "quota_settings \<Rightarrow> bool" where
  "api_call_quota_bypassed c = (if qs_env c = ''production'' then False else qs_dev_bypass_api_call_quota c)"

fun split_commas :: "string \<Rightarrow> string list" where
  "split_commas [] = [[]]"
| "split_commas (c # cs) =
     (case split_commas cs of
        [] \<Rightarrow> [[c]]
      | item # items \<Rightarrow> if c = CHR '','' then [] # item # items else (c # item) # items)"

definition csv_set :: "string \<Rightarrow> string set" where
  "csv_set value = set (map (\<lambda>item. lower_text (strip item)) (filter (\<lambda>item. strip item \<noteq> []) (split_commas value)))"

subsection \<open>Checks and increments\<close>

definition check_tenant_active :: "uuid \<Rightarrow> unit session_op" where
  "check_tenant_active i = and_then (reading (get_active i)) (\<lambda>_ s. (Inr (), s))"

definition record_usage :: "uuid \<Rightarrow> string \<Rightarrow> int \<Rightarrow> string \<Rightarrow> unit session_op" where
  "record_usage i name amount metric s =
     and_then (increment_usage i name amount (ts_period s))
       (\<lambda>_. and_then (record_meter i amount metric) (\<lambda>_ s. (Inr (), s))) s"

definition check_and_record_mission_creation :: "uuid \<Rightarrow> unit session_op" where
  "check_and_record_mission_creation i =
     and_then (reading (get_active i)) (\<lambda>t s.
       case get_plan (tn_plan t) (ts_db s) of
         None \<Rightarrow> (Inr (), s)
       | Some p \<Rightarrow>
           and_then (get_or_create_usage i (ts_period s)) (\<lambda>u s.
             if tp_max_missions_per_month p \<noteq> -1 \<and> tu_missions_created u \<ge> tp_max_missions_per_month p
             then (Inl (QuotaExceededError ''missions_per_month'' (tp_max_missions_per_month p)
                     (tu_missions_created u) (tn_plan t)), s)
             else record_usage i ''missions_created'' 1 ''missions'' s) s)"

definition check_and_record_task_creation :: "uuid \<Rightarrow> int \<Rightarrow> unit session_op" where
  "check_and_record_task_creation i count s =
     (if count < 1 then (Inl (Raised (ValueError (''count must be >= 1, got '' @ int_text count))), s)
      else and_then (reading (get_active i)) (\<lambda>t s.
        case get_plan (tn_plan t) (ts_db s) of
          None \<Rightarrow> (Inr (), s)
        | Some p \<Rightarrow>
            and_then (get_or_create_usage i (ts_period s)) (\<lambda>u s.
              if tp_max_tasks_per_month p \<noteq> -1 \<and> tu_tasks_created u + count > tp_max_tasks_per_month p
              then (Inl (QuotaExceededError ''tasks_per_month'' (tp_max_tasks_per_month p)
                      (tu_tasks_created u) (tn_plan t)), s)
              else record_usage i ''tasks_created'' count ''tasks'' s) s) s)"

definition check_and_record_agent_provisioning :: "uuid \<Rightarrow> int \<Rightarrow> unit session_op" where
  "check_and_record_agent_provisioning i agents_requested =
     and_then (reading (get_active i)) (\<lambda>t s.
       case get_plan (tn_plan t) (ts_db s) of
         None \<Rightarrow> (Inr (), s)
       | Some p \<Rightarrow>
           if tp_max_agents_per_fleet p \<noteq> -1 \<and> agents_requested > tp_max_agents_per_fleet p
           then (Inl (QuotaExceededError ''agents_per_fleet'' (tp_max_agents_per_fleet p)
                   agents_requested (tn_plan t)), s)
           else record_usage i ''agents_provisioned'' agents_requested ''agents'' s)"

definition count_active_for_tenant :: "string \<Rightarrow> tenant_db \<Rightarrow> int" where
  "count_active_for_tenant i d = int (length (filter (\<lambda>k. ak_tenant_id k = i \<and> \<not> ak_revoked k) (td_keys d)))"

definition reserve_api_key_capacity :: "uuid \<Rightarrow> int \<Rightarrow> unit session_op" where
  "reserve_api_key_capacity i replacing_active_keys s =
     (if replacing_active_keys < 0 then (Inl (Raised (ValueError ''replacing_active_keys must be >= 0'')), s)
      else and_then (reading (get_active_for_update i)) (\<lambda>t s.
        case get_plan (tn_plan t) (ts_db s) of
          None \<Rightarrow> (Inl (QuotaConfigurationError (''API-key quota plan '' @ quoted (tn_plan t) @
                    '' is not configured for tenant '' @ i)), s)
        | Some p \<Rightarrow>
            (let current = count_active_for_tenant i (ts_db s); limit = tp_max_api_keys p;
                 projected = current + 1 - replacing_active_keys
             in if projected < 0
                then (Inl (Raised (ValueError ''replacing_active_keys exceeds projected API-key gauge'')), s)
                else if limit \<noteq> -1 \<and> projected > limit
                then (Inl (QuotaExceededError ''api_keys'' limit current (tn_plan t)), s)
                else (Inr (), s))) s)"

definition check_api_key_limit :: "uuid \<Rightarrow> int \<Rightarrow> unit session_op" where
  "check_api_key_limit i current_key_count =
     and_then (reading (get_active i)) (\<lambda>t s.
       case get_plan (tn_plan t) (ts_db s) of
         None \<Rightarrow> (Inr (), s)
       | Some p \<Rightarrow>
           if tp_max_api_keys p \<noteq> -1 \<and> current_key_count \<ge> tp_max_api_keys p
           then (Inl (QuotaExceededError ''api_keys'' (tp_max_api_keys p) current_key_count (tn_plan t)), s)
           else (Inr (), s))"

definition check_api_call_quota :: "quota_settings \<Rightarrow> uuid \<Rightarrow> unit session_op" where
  "check_api_call_quota c i s =
     (if api_call_quota_bypassed c then (Inr (), s)
      else and_then (reading (get_active i)) (\<lambda>t s.
        case get_plan (tn_plan t) (ts_db s) of
          None \<Rightarrow> (Inr (), s)
        | Some p \<Rightarrow>
            and_then (get_or_create_usage i (ts_period s)) (\<lambda>u s.
              if tp_max_monthly_api_calls p \<noteq> -1 \<and> tu_api_calls_count u \<ge> tp_max_monthly_api_calls p
              then (Inl (QuotaExceededError ''api_calls_per_month'' (tp_max_monthly_api_calls p)
                      (tu_api_calls_count u) (tn_plan t)), s)
              else (Inr (), s)) s) s)"

definition record_api_call :: "uuid \<Rightarrow> unit session_op" where
  "record_api_call i =
     and_then (reading (get_active i)) (\<lambda>t s.
       case get_plan (tn_plan t) (ts_db s) of
         None \<Rightarrow> (Inr (), s)
       | Some p \<Rightarrow> record_usage i ''api_calls_count'' 1 ''api_calls'' s)"

definition check_and_record_api_call :: "quota_settings \<Rightarrow> uuid \<Rightarrow> unit session_op" where
  "check_and_record_api_call c i = and_then (check_api_call_quota c i) (\<lambda>_. record_api_call i)"

definition require_feature :: "uuid \<Rightarrow> string \<Rightarrow> unit session_op" where
  "require_feature i feature =
     and_then (reading (get_active i)) (\<lambda>t s.
       if is_enabled i feature (ts_db s) then (Inr (), s)
       else (Inl (FeatureNotAvailableError feature (tn_plan t)), s))"

record quota_status =
  qt_tenant_id :: uuid
  qt_plan :: string
  qt_billing_period :: string
  qt_missions_created :: int
  qt_missions_limit :: int
  qt_tasks_created :: int
  qt_tasks_limit :: int
  qt_agents_provisioned :: int
  qt_api_calls_count :: int
  qt_api_calls_limit :: int

definition get_quota_status :: "uuid \<Rightarrow> quota_status session_op" where
  "get_quota_status i =
     and_then (reading (get_active i)) (\<lambda>t s.
       let limit = (\<lambda>f. case get_plan (tn_plan t) (ts_db s) of None \<Rightarrow> -1 | Some p \<Rightarrow> f p)
       in and_then (get_or_create_usage i (ts_period s)) (\<lambda>u s.
            (Inr \<lparr>qt_tenant_id = i, qt_plan = tn_plan t, qt_billing_period = ts_period s,
                  qt_missions_created = tu_missions_created u, qt_missions_limit = limit tp_max_missions_per_month,
                  qt_tasks_created = tu_tasks_created u, qt_tasks_limit = limit tp_max_tasks_per_month,
                  qt_agents_provisioned = tu_agents_provisioned u, qt_api_calls_count = tu_api_calls_count u,
                  qt_api_calls_limit = limit tp_max_monthly_api_calls\<rparr>, s)) s)"

text \<open>\<open>isinstance(max_tasks, int)\<close> holds for booleans too, which count as 0 and 1.\<close>

fun int_value :: "json option \<Rightarrow> int option" where
  "int_value (Some (JInt n)) = Some n"
| "int_value (Some (JBool b)) = Some (if b then 1 else 0)"
| "int_value _ = None"

definition enforce_mission_budget_gate :: "quota_settings \<Rightarrow> uuid \<Rightarrow> dict option \<Rightarrow> unit session_op" where
  "enforce_mission_budget_gate c i budget_limits s =
     (case budget_limits of
        None \<Rightarrow> (Inr (), s)
      | Some [] \<Rightarrow> (Inr (), s)
      | Some limits \<Rightarrow>
          if \<not> qs_budget_policy_enabled c \<or> qs_budget_policy_observe_only c \<or> \<not> qs_budget_policy_enforce c
          then (Inr (), s)
          else and_then (reading (get_active i)) (\<lambda>t s.
            if lower_text (strip i) \<notin> csv_set (qs_budget_policy_enforce_tenant_ids c) \<and>
               lower_text (strip (tn_plan t)) \<notin> csv_set (qs_budget_policy_enforce_plans c)
            then (Inr (), s)
            else (case get_plan (tn_plan t) (ts_db s) of
                None \<Rightarrow> (Inr (), s)
              | Some p \<Rightarrow>
                  (case int_value (map_of limits ''max_tasks'') of
                     None \<Rightarrow> (Inr (), s)
                   | Some max_tasks \<Rightarrow>
                       if tp_max_tasks_per_month p \<noteq> -1 \<and> max_tasks > tp_max_tasks_per_month p
                       then (Inl (BudgetGateDeniedError ''max_tasks'' (tp_max_tasks_per_month p) max_tasks (tn_plan t)), s)
                       else (Inr (), s)))) s)"

subsection \<open>API calls in the middleware\<close>

text \<open>
  \<open>RateLimitMiddleware.dispatch\<close> after the rate limit has allowed the request: the quota is checked
  before the application runs and the call recorded after it answered. \<open>database\<close> tells whether the
  application has a database runtime; both use a session of their own.
\<close>

datatype admission =
    Admitted
  | QuotaResponse string int int string
  | QuotaUnavailable

definition enforce_api_call_quota_admission ::
  "stripe \<Rightarrow> (string \<times> string) list \<Rightarrow> quota_settings \<Rightarrow> bool \<Rightarrow> string \<Rightarrow> tenant_session \<Rightarrow> admission \<times> tenant_session" where
  "enforce_api_call_quota_admission S plan_map c database tenant_id s =
     (if \<not> database then (Admitted, s)
      else case uuid_parse tenant_id of
        None \<Rightarrow> (QuotaUnavailable, rollback_session s)
      | Some i \<Rightarrow>
          (case meter_transaction S plan_map (check_api_call_quota c i) s of
             (Inr _, s1) \<Rightarrow> (Admitted, s1)
           | (Inl (QuotaExceededError name limit current plan), s1) \<Rightarrow> (QuotaResponse name limit current plan, s1)
           | (Inl _, s1) \<Rightarrow> (QuotaUnavailable, s1)))"

definition record_api_call_usage ::
  "stripe \<Rightarrow> (string \<times> string) list \<Rightarrow> bool \<Rightarrow> string \<Rightarrow> tenant_session \<Rightarrow> tenant_session" where
  "record_api_call_usage S plan_map database tenant_id s =
     (if \<not> database then s
      else case uuid_parse tenant_id of
        None \<Rightarrow> rollback_session s
      | Some i \<Rightarrow> snd (meter_transaction S plan_map (record_api_call i) s))"

datatype dispatch_answer =
    TooManyRequests int
  | QuotaDenied string int int string
  | Unavailable
  | Passed int int int "string option"

definition billable :: "http_request \<Rightarrow> bool" where
  "billable r = is_billable_external_api_request (hr_principal r) (hr_path r)"

definition dispatch_admission ::
  "stripe \<Rightarrow> (string \<times> string) list \<Rightarrow> quota_settings \<Rightarrow> bool \<Rightarrow> http_request \<Rightarrow> tenant_session \<Rightarrow> admission \<times> tenant_session" where
  "dispatch_admission S plan_map c database r s =
     (if billable r \<and> request_tenant r \<noteq> ''anonymous'' \<and> \<not> api_call_quota_bypassed c
      then enforce_api_call_quota_admission S plan_map c database (request_tenant r) s
      else (Admitted, s))"

definition dispatch_recording ::
  "stripe \<Rightarrow> (string \<times> string) list \<Rightarrow> bool \<Rightarrow> http_request \<Rightarrow> int \<Rightarrow> tenant_session \<Rightarrow> tenant_session" where
  "dispatch_recording S plan_map database r status_code s =
     (if billable r \<and> request_tenant r \<noteq> ''anonymous'' \<and> 200 \<le> status_code \<and> status_code < 400
      then record_api_call_usage S plan_map database (request_tenant r) s
      else s)"

text \<open>
  The whole of \<open>dispatch\<close>. \<open>app\<close> is the rest of the application: the status code it answers and
  what it does to the shared rows. A passed answer carries its status code and the headers
  for what remains, the limit and the plan.
\<close>

definition dispatch_request ::
  "stripe \<Rightarrow> (string \<times> string) list \<Rightarrow> quota_settings \<Rightarrow> bool \<Rightarrow> (tenant_session \<Rightarrow> int \<times> tenant_session) \<Rightarrow>
     rate_limiter \<Rightarrow> rat \<Rightarrow> int \<Rightarrow> http_request \<Rightarrow> tenant_session \<Rightarrow>
     dispatch_answer result \<times> rate_limiter \<times> tenant_session" where
  "dispatch_request S plan_map c database app lm now signup_limit r s =
     (case limit_request lm now signup_limit r of
        (Inl e, lm1) \<Rightarrow> (Inl e, lm1, s)
      | (Inr decision, lm1) \<Rightarrow>
          if \<not> rl_allowed decision
          then (Inr (TooManyRequests (case rl_retry_after decision of None \<Rightarrow> 0 | Some n \<Rightarrow> n)), lm1, s)
          else (case dispatch_admission S plan_map c database r s of
              (QuotaResponse name limit current plan, s1) \<Rightarrow> (Inr (QuotaDenied name limit current plan), lm1, s1)
            | (QuotaUnavailable, s1) \<Rightarrow> (Inr Unavailable, lm1, s1)
            | (Admitted, s1) \<Rightarrow>
                (case app s1 of (status_code, s2) \<Rightarrow>
                   (Inr (Passed status_code (rl_remaining decision)
                           (effective_max (case base_policy lm signup_limit (hr_path r) of
                              Inr (base_max, _) \<Rightarrow> base_max | Inl _ \<Rightarrow> 0) (hr_plan r))
                           (case hr_plan r of Some [] \<Rightarrow> None | p \<Rightarrow> p)),
                    lm1, dispatch_recording S plan_map database r status_code s2))))"

end
