(* ===== verification/UsageRuns.thy ===== *)
theory UsageRuns
  imports Quota
begin

section \<open>Usage, its limits and its bills over runs\<close>

text \<open>
  What the quota checks, the counters and the meter rows guarantee together: sequences of
  transactions of \<open>Quota\<close> and publications of \<open>Metering\<close>, publications that overlap, and requests of one tenant that overlap.
\<close>

datatype usage_event =
    MissionCreated uuid
  | TasksCreated uuid int
  | AgentsProvisioned uuid int
  | ApiCallRecorded uuid
  | MetersDue nat

fun usage_op :: "usage_event \<Rightarrow> unit session_op" where
  "usage_op (MissionCreated i) = check_and_record_mission_creation i"
| "usage_op (TasksCreated i count) = check_and_record_task_creation i count"
| "usage_op (AgentsProvisioned i n) = check_and_record_agent_provisioning i n"
| "usage_op (ApiCallRecorded i) = record_api_call i"
| "usage_op (MetersDue limit) = (\<lambda>s. (Inr (), s))"

text \<open>One event at an instant of a billing period, with the Stripe client as it then answers.\<close>

type_synonym timed_usage = "time \<times> string \<times> stripe \<times> usage_event"

fun run_usage :: "(string \<times> string) list \<Rightarrow> timed_usage \<Rightarrow> tenant_session \<Rightarrow> tenant_session" where
  "run_usage plan_map (now, period, S, MetersDue limit) s =
     snd (publish_due_meters S plan_map limit (s\<lparr>ts_clock := now, ts_period := period\<rparr>))"
| "run_usage plan_map (now, period, S, ev) s =
     snd (meter_transaction S plan_map (usage_op ev) (s\<lparr>ts_clock := now, ts_period := period\<rparr>))"

definition run_usages :: "(string \<times> string) list \<Rightarrow> timed_usage list \<Rightarrow> tenant_session \<Rightarrow> tenant_session" where
  "run_usages plan_map evs s = fold (run_usage plan_map) evs s"

subsection \<open>What one transaction writes\<close>

definition frame :: "tenant_session \<Rightarrow> tenant_session \<Rightarrow> bool" where
  "frame s s1 \<longleftrightarrow> ts_durable s1 = ts_durable s \<and> ts_reports s1 = ts_reports s \<and> ts_ids s1 = ts_ids s \<and>
     ts_period s1 = ts_period s \<and> ts_next_id s \<le> ts_next_id s1"

definition framed :: "'a session_op \<Rightarrow> bool" where
  "framed f \<longleftrightarrow> (\<forall>s. frame s (snd (f s)))"

lemma framed_and_then [intro]: "framed f \<Longrightarrow> (\<And>x. framed (g x)) \<Longrightarrow> framed (and_then f g)"
  unfolding framed_def and_then_def frame_def
  by (auto split: prod.split sum.split) (metis snd_conv order_trans)+

lemma framed_basic [intro]:
  "framed (reading h)" "framed (\<lambda>s. (x, s))" "framed (get_or_create_usage i period)" "framed (record_meter i n metric)"
  by (auto simp: framed_def frame_def reading_def get_or_create_usage_def record_meter_def new_id_def map_rows_def Let_def
      billing_meter_after_commit_def split: option.splits)

lemma framed_if: "framed (\<lambda>s. f s) \<Longrightarrow> framed g \<Longrightarrow> framed (\<lambda>s. if b s then f s else g s)"
  by (simp add: framed_def)

lemma framed_option: "framed f \<Longrightarrow> (\<And>x. framed (g x)) \<Longrightarrow> framed (\<lambda>s. case m s of None \<Rightarrow> f s | Some x \<Rightarrow> g x s)"
  by (simp add: framed_def split: option.split)

lemma framed_record_usage: "framed (record_usage i name n metric)"
proof -
  have "framed (increment_usage i name n period)" for period
    unfolding increment_usage_def
    by (intro framed_if framed_basic framed_and_then) (auto simp: framed_def frame_def map_rows_def)
  then have "framed (and_then (increment_usage i name n period)
      (\<lambda>_. and_then (record_meter i n metric) (\<lambda>_ s. (Inr (), s))))" for period
    by (intro framed_and_then framed_basic)
  then show ?thesis by (simp add: framed_def record_usage_def)
qed

lemma framed_usage_with:
  "(\<And>u. framed (g u)) \<Longrightarrow> framed (\<lambda>s. and_then (get_or_create_usage i (ts_period s)) g s)"
  using framed_and_then [OF framed_basic(3) [of i], of g] by (simp add: framed_def)

lemma framed_op: "framed (usage_op ev)"
  by (cases ev)
    (auto simp: check_and_record_mission_creation_def check_and_record_task_creation_def [abs_def]
      check_and_record_agent_provisioning_def record_api_call_def
      intro!: framed_and_then framed_if framed_option framed_usage_with framed_record_usage framed_basic)

lemma op_frame: "usage_op ev s = (res, s1) \<Longrightarrow> frame s s1"
  using framed_op [of ev] by (metis framed_def snd_conv)

text \<open>A successful operation either writes nothing or reads the month's row and records an increment.\<close>

definition metric_fields :: "(string \<times> string) list" where
  "metric_fields = [(''missions'', ''missions_created''), (''tasks'', ''tasks_created''),
     (''agents'', ''agents_provisioned''), (''api_calls'', ''api_calls_count'')]"

lemma planned_call:
  assumes "and_then (reading (get_active i)) (\<lambda>t s. case get_plan (tn_plan t) (ts_db s) of None \<Rightarrow> (Inr (), s)
      | Some p \<Rightarrow> h t p s) s = (Inr (), s1)"
  shows "s1 = s \<or> (\<exists>t p. get_active i (ts_db s) = Inr t \<and> get_plan (tn_plan t) (ts_db s) = Some p \<and> h t p s = (Inr (), s1))"
  using assms by (auto simp: and_then_Inr_iff split: option.splits)

lemma checked_usage:
  assumes "and_then (get_or_create_usage i period) (\<lambda>u s. if b u then (Inl (e u), s) else h s) s = (Inr (), s1)"
  shows "\<exists>u s0. get_or_create_usage i period s = (Inr u, s0) \<and> \<not> b u \<and> h s0 = (Inr (), s1)"
  using assms by (auto simp: and_then_Inr_iff split: if_splits)

lemma op_cases:
  assumes "usage_op ev s = (Inr (), s1)"
  obtains (unchanged) "s1 = s"
  | (counted) i name n metric s0 where "s0 = s \<or> (\<exists>u. get_or_create_usage i (ts_period s) s = (Inr u, s0))"
      "(metric, name) \<in> set metric_fields" "record_usage i name n metric s0 = (Inr (), s1)"
proof (cases ev)
  case (MissionCreated i)
  from planned_call [OF assms [unfolded MissionCreated usage_op.simps check_and_record_mission_creation_def]]
  show ?thesis
    by (auto dest!: checked_usage intro: unchanged counted [of _ i "''missions''" "''missions_created''"] simp: metric_fields_def)
next
  case (TasksCreated i count)
  from assms have "0 < count" by (simp add: TasksCreated check_and_record_task_creation_def split: if_splits)
  with assms have "s1 = s \<or> (\<exists>t p. get_active i (ts_db s) = Inr t \<and> get_plan (tn_plan t) (ts_db s) = Some p \<and>
      and_then (get_or_create_usage i (ts_period s)) (\<lambda>u s.
        if tp_max_tasks_per_month p \<noteq> -1 \<and> tu_tasks_created u + count > tp_max_tasks_per_month p
        then (Inl (QuotaExceededError ''tasks_per_month'' (tp_max_tasks_per_month p) (tu_tasks_created u) (tn_plan t)), s)
        else record_usage i ''tasks_created'' count ''tasks'' s) s = (Inr (), s1))"
    by (intro planned_call) (simp add: TasksCreated check_and_record_task_creation_def)
  then show ?thesis
    by (auto dest!: checked_usage intro: unchanged counted [of _ i "''tasks''" "''tasks_created''"] simp: metric_fields_def)
next
  case (AgentsProvisioned i count)
  from planned_call [OF assms [unfolded AgentsProvisioned usage_op.simps check_and_record_agent_provisioning_def]]
  show ?thesis
    by (auto intro: unchanged counted [of _ i "''agents''" "''agents_provisioned''"] simp: metric_fields_def split: if_splits)
next
  case (ApiCallRecorded i)
  from planned_call [OF assms [unfolded ApiCallRecorded usage_op.simps record_api_call_def]]
  show ?thesis
    by (auto intro: unchanged counted [of _ i "''api_calls''" "''api_calls_count''"] simp: metric_fields_def)
next
  case (MetersDue limit)
  then show ?thesis using assms unchanged by simp
qed

subsection \<open>Counters and meter rows\<close>

definition usage_total :: "uuid \<Rightarrow> string \<Rightarrow> tenant_db \<Rightarrow> int" where
  "usage_total i name d = sum_list (map (usage_count name) (filter (\<lambda>u. tu_tenant_id u = i) (td_usage d)))"

definition meter_total :: "uuid \<Rightarrow> string \<Rightarrow> tenant_db \<Rightarrow> int" where
  "meter_total i metric d =
     sum_list (map md_quantity (filter (\<lambda>r. md_tenant_id r = i \<and> md_metric r = metric) (td_meters d)))"

definition period_key :: "tenant_usage \<Rightarrow> uuid \<times> string" where
  "period_key u = (tu_tenant_id u, tu_billing_period_start u)"

definition usage_inv :: "tenant_db \<Rightarrow> bool" where
  "usage_inv d \<longleftrightarrow> distinct (map period_key (td_usage d)) \<and>
     (\<forall>i. \<forall>(metric, name) \<in> set metric_fields. usage_total i name d = meter_total i metric d)"

text \<open>A transaction adds at most one meter row, of a fresh identifier.\<close>

definition grown :: "tenant_session \<Rightarrow> tenant_session \<Rightarrow> bool" where
  "grown s s1 \<longleftrightarrow> frame s s1 \<and> (td_meters (ts_db s1) = td_meters (ts_db s) \<or>
     (\<exists>r k. td_meters (ts_db s1) = td_meters (ts_db s) @ [r] \<and> md_id r = ts_ids s k \<and> ts_next_id s \<le> k \<and>
        k < ts_next_id s1 \<and> md_status r = ''pending''))"

lemma find_usage_key: "find_usage i period d = Some u \<Longrightarrow> period_key u = (i, period) \<and> u \<in> set (td_usage d)"
  by (auto simp: find_usage_def find_Some_iff period_key_def)

lemma find_usage_None: "find_usage i period d = None \<longleftrightarrow> (i, period) \<notin> period_key ` set (td_usage d)"
  by (auto simp: find_usage_def find_None_iff period_key_def)

lemma usage_row_effect:
  assumes "get_or_create_usage i period s = (Inr u, s1)" and "usage_inv (ts_db s)"
  shows "usage_inv (ts_db s1) \<and> find_usage i period (ts_db s1) = Some u \<and> frame s s1 \<and>
    td_meters (ts_db s1) = td_meters (ts_db s) \<and>
    (find_usage i period (ts_db s) = Some u \<longrightarrow> ts_db s1 = ts_db s)"
proof (cases "find_usage i period (ts_db s)")
  case (Some v)
  then show ?thesis using assms
    by (auto simp: get_or_create_usage_def new_id_def Let_def frame_def)
next
  case None
  let ?u = "\<lparr>tu_id = ts_ids s (ts_next_id s), tu_tenant_id = i, tu_billing_period_start = period, tu_missions_created = 0,
      tu_tasks_created = 0, tu_api_calls_count = 0, tu_agents_provisioned = 0, tu_active_workers = 0\<rparr>"
  have new: "td_usage (ts_db s1) = td_usage (ts_db s) @ [?u]" "td_meters (ts_db s1) = td_meters (ts_db s)"
    using assms(1) None by (auto simp: get_or_create_usage_def new_id_def Let_def map_rows_def split: option.splits)
  have "usage_total j name (ts_db s1) = usage_total j name (ts_db s)" for j name
    by (simp add: usage_total_def new usage_count_def)
  then have "usage_inv (ts_db s1)"
    using assms(2) None
    by (auto simp: usage_inv_def new meter_total_def period_key_def find_usage_None)
  moreover have "find_usage i period (ts_db s1) = Some u" "frame s s1"
    using assms(1) None by (auto simp: get_or_create_usage_def new_id_def Let_def map_rows_def frame_def split: option.splits)
  ultimately show ?thesis using new None by simp
qed

lemma bump_count:
  "name \<in> set usage_fields \<Longrightarrow> name' \<in> set usage_fields \<Longrightarrow>
     usage_count name' (bump_usage name n u) = usage_count name' u + (if name' = name then n else 0)"
  by (auto simp: usage_fields_def usage_count_def bump_usage_def)

lemma bump_key [simp]:
  "period_key (bump_usage name n u) = period_key u" "tu_tenant_id (bump_usage name n u) = tu_tenant_id u"
  "tu_billing_period_start (bump_usage name n u) = tu_billing_period_start u"
  by (simp_all add: bump_usage_def period_key_def)

lemma bumped_total:
  assumes "distinct (map period_key us)" and "(i, period) \<in> period_key ` set us"
    and "name \<in> set usage_fields" "name' \<in> set usage_fields"
  shows "sum_list (map (usage_count name') (filter (\<lambda>u. tu_tenant_id u = j)
      (map (\<lambda>u. if tu_tenant_id u = i \<and> tu_billing_period_start u = period then bump_usage name n u else u) us))) =
    sum_list (map (usage_count name') (filter (\<lambda>u. tu_tenant_id u = j) us)) + (if j = i \<and> name' = name then n else 0)"
  using assms(1,2)
proof (induction us)
  case (Cons u us)
  show ?case
  proof (cases "period_key u = (i, period)")
    case True
    then have "\<forall>v \<in> set us. \<not> (tu_tenant_id v = i \<and> tu_billing_period_start v = period)"
      using Cons.prems(1) by (auto simp: period_key_def image_iff)
    then have "map (\<lambda>u. if tu_tenant_id u = i \<and> tu_billing_period_start u = period then bump_usage name n u else u) us = us"
      by (intro map_idI) auto
    then show ?thesis using True bump_count [OF assms(3,4), of n u] by (auto simp: period_key_def)
  next
    case False
    then show ?thesis using Cons by (auto simp: period_key_def)
  qed
qed simp

lemma find_bumped:
  "find (\<lambda>u. tu_tenant_id u = i \<and> tu_billing_period_start u = period)
     (map (\<lambda>u. if tu_tenant_id u = i \<and> tu_billing_period_start u = period then bump_usage name n u else u) us) =
   map_option (bump_usage name n) (find (\<lambda>u. tu_tenant_id u = i \<and> tu_billing_period_start u = period) us)"
  by (induction us) auto

lemma record_usage_effect:
  assumes "record_usage i name n metric s = (Inr (), s1)" and "usage_inv (ts_db s)" and "(metric, name) \<in> set metric_fields"
  shows "usage_inv (ts_db s1) \<and> grown s s1 \<and> 0 < n \<and>
    (\<forall>u. find_usage i (ts_period s) (ts_db s) = Some u \<longrightarrow>
       find_usage i (ts_period s) (ts_db s1) = Some (bump_usage name n u))"
proof -
  obtain u s2 s3 r where get: "get_or_create_usage i (ts_period s) s = (Inr u, s2)"
    and s3: "s3 = map_rows (\<lambda>d. d\<lparr>td_usage := map (\<lambda>u.
        if tu_tenant_id u = i \<and> tu_billing_period_start u = ts_period s then bump_usage name n u else u) (td_usage d)\<rparr>) s2"
    and rec: "record_meter i n metric s3 = (Inr r, s1)" and known: "name \<in> set usage_fields"
    using assms(1) unfolding record_usage_def increment_usage_def by (auto simp: and_then_Inr_iff split: if_splits)
  note eff = usage_row_effect [OF get assms(2)]
  let ?bump = "\<lambda>u. if tu_tenant_id u = i \<and> tu_billing_period_start u = ts_period s then bump_usage name n u else u"
  have u3: "td_usage (ts_db s3) = map ?bump (td_usage (ts_db s2))" "td_meters (ts_db s3) = td_meters (ts_db s2)"
    by (simp_all add: s3 map_rows_def)
  let ?r = "\<lparr>md_id = ts_ids s3 (ts_next_id s3), md_tenant_id = i, md_metric = metric, md_quantity = n, md_status = ''pending'',
      md_attempt_count = 0, md_next_attempt_at = ts_clock s3, md_last_error = None,
      md_subscription_item_id = None, md_reported_at = None, md_created_at = ts_clock s3\<rparr>"
  have n: "0 < n" and rows: "td_meters (ts_db s1) = td_meters (ts_db s3) @ [?r]" "td_usage (ts_db s1) = td_usage (ts_db s3)"
    and fr: "frame s3 s1" "ts_next_id s1 = ts_next_id s3 + 1"
    using rec by (auto simp: record_meter_def new_id_def map_rows_def billing_meter_after_commit_def Let_def frame_def split: if_splits)
  have present: "(i, ts_period s) \<in> period_key ` set (td_usage (ts_db s2))"
    using eff find_usage_None [of i "ts_period s" "ts_db s2"] by auto
  have dist: "distinct (map period_key (td_usage (ts_db s2)))" using eff by (simp add: usage_inv_def)
  have keys: "map period_key (td_usage (ts_db s1)) = map period_key (td_usage (ts_db s2))"
    by (simp add: rows(2) u3(1))
  have "usage_total j name' (ts_db s1) = meter_total j metric' (ts_db s1)"
    if "(metric', name') \<in> set metric_fields" for j metric' name'
  proof -
    have n': "name' \<in> set usage_fields" using that by (auto simp: metric_fields_def usage_fields_def)
    have "name' = name \<longleftrightarrow> metric' = metric" using that assms(3) by (auto simp: metric_fields_def)
    moreover have "usage_total j name' (ts_db s1) = usage_total j name' (ts_db s2) + (if j = i \<and> name' = name then n else 0)"
      using bumped_total [OF dist present known n', of j n] by (simp add: usage_total_def rows(2) u3(1))
    moreover have "meter_total j metric' (ts_db s1) = meter_total j metric' (ts_db s2) + (if j = i \<and> metric' = metric then n else 0)"
      by (simp add: meter_total_def rows(1) u3(2))
    moreover have "usage_total j name' (ts_db s2) = meter_total j metric' (ts_db s2)"
      using eff that by (auto simp: usage_inv_def)
    ultimately show ?thesis by simp
  qed
  then have inv: "usage_inv (ts_db s1)" using dist by (auto simp: usage_inv_def keys)
  have frame: "frame s s3" using eff by (simp add: frame_def s3 map_rows_def)
  have "grown s s1"
    unfolding grown_def
  proof (intro conjI disjI2 exI)
    show "frame s s1" using frame fr by (simp add: frame_def)
    show "td_meters (ts_db s1) = td_meters (ts_db s) @ [?r]" using rows(1) u3(2) eff by simp
    show "md_id ?r = ts_ids s (ts_next_id s3)" "ts_next_id s \<le> ts_next_id s3" using frame by (simp_all add: frame_def)
  qed (simp_all add: fr(2))
  moreover have "find_usage i (ts_period s) (ts_db s1) = Some (bump_usage name n u)"
  proof -
    have "find_usage i (ts_period s) (ts_db s2) = Some u" using eff by simp
    then show ?thesis by (simp add: find_usage_def rows(2) u3(1) find_bumped)
  qed
  moreover have "u' = u" if "find_usage i (ts_period s) (ts_db s) = Some u'" for u'
    using get that by (auto simp: get_or_create_usage_def new_id_def Let_def)
  ultimately show ?thesis using inv n by auto
qed

subsection \<open>Every run\<close>

text \<open>Both invariants between transactions.\<close>

definition billing_inv :: "tenant_session \<Rightarrow> bool" where
  "billing_inv s \<longleftrightarrow> meter_inv s \<and> ts_db s = ts_durable s \<and> usage_inv (ts_db s)"

lemma grown_after:
  assumes "frame s s0" "td_meters (ts_db s0) = td_meters (ts_db s)" and "grown s0 s1"
  shows "grown s s1"
proof -
  have fr: "frame s s1" "ts_next_id s \<le> ts_next_id s0" "ts_ids s0 = ts_ids s"
    using assms by (simp_all add: grown_def frame_def)
  from assms(3) consider "td_meters (ts_db s1) = td_meters (ts_db s0)"
    | r k where "td_meters (ts_db s1) = td_meters (ts_db s0) @ [r]" "md_id r = ts_ids s0 k" "ts_next_id s0 \<le> k"
        "k < ts_next_id s1" "md_status r = ''pending''"
    unfolding grown_def by blast
  then show ?thesis
  proof cases
    case 1
    then show ?thesis using fr assms(2) by (simp add: grown_def)
  next
    case (2 r k)
    then show ?thesis unfolding grown_def using fr assms(2)
      by (intro conjI disjI2 exI [of _ r] exI [of _ k]) simp_all
  qed
qed

lemma billing_invI: "meter_inv s \<Longrightarrow> ts_db s = ts_durable s \<Longrightarrow> usage_inv (ts_db s) \<Longrightarrow> billing_inv s"
  by (simp add: billing_inv_def)

lemma billing_invD:
  assumes "billing_inv s"
  shows "meter_inv s" "ts_db s = ts_durable s" "usage_inv (ts_db s)" "usage_inv (ts_durable s)"
  using assms unfolding billing_inv_def by (blast, blast, blast, metis)

lemma op_grown:
  assumes "usage_op ev s = (Inr (), s1)" and "usage_inv (ts_db s)"
  shows "grown s s1 \<and> usage_inv (ts_db s1)"
  using assms(1)
proof (cases rule: op_cases)
  case unchanged
  then show ?thesis using assms(2) by (simp add: grown_def frame_def)
next
  case (counted i name n metric s0)
  have s0: "usage_inv (ts_db s0) \<and> frame s s0 \<and> td_meters (ts_db s0) = td_meters (ts_db s)"
    using counted(1) usage_row_effect [OF _ assms(2)] assms(2) by (auto simp: frame_def)
  have g: "grown s0 s1" "usage_inv (ts_db s1)" using record_usage_effect [OF counted(3) _ counted(2)] s0 by simp_all
  then show ?thesis using s0 grown_after by blast
qed

lemma grown_commits:
  assumes "grown s s1" and "meter_inv s" "ts_db s = ts_durable s"
  shows "meter_inv (commit_rows s1)"
proof -
  have fr: "ts_ids s1 = ts_ids s" "ts_next_id s \<le> ts_next_id s1" "ts_reports s1 = ts_reports s"
    using assms(1) by (simp_all add: grown_def frame_def)
  have sub: "ts_ids s ` {..<ts_next_id s} \<subseteq> ts_ids s ` {..<ts_next_id s1}" using fr(2) by auto
  from assms(1) consider "td_meters (ts_db s1) = td_meters (ts_db s)"
    | r k where "td_meters (ts_db s1) = td_meters (ts_db s) @ [r]" "md_id r = ts_ids s k" "ts_next_id s \<le> k"
        "k < ts_next_id s1" "md_status r = ''pending''"
    unfolding grown_def by blast
  then show ?thesis
  proof cases
    case 1
    then show ?thesis using assms(2,3) fr sub
      by (simp add: meter_inv_def commit_rows_def) (blast intro: order_trans)
  next
    case (2 r k)
    let ?rows = "td_meters (ts_durable s)"
    have fresh: "md_id r \<notin> md_id ` set ?rows"
    proof
      assume "md_id r \<in> md_id ` set ?rows"
      then have "ts_ids s k \<in> ts_ids s ` {..<ts_next_id s}" using assms(2) 2(2) unfolding meter_inv_def by (metis subsetD)
      then obtain j where "j < ts_next_id s" "ts_ids s j = ts_ids s k" by auto
      moreover have "inj (ts_ids s)" using assms(2) by (simp add: meter_inv_def)
      ultimately show False using 2(3) by (auto dest: injD)
    qed
    have "\<not> report_of r y" if y: "y \<in> set (ts_reports s)" for y
    proof
      assume "report_of r y"
      moreover obtain x where "x \<in> set ?rows" "report_of x y" using assms(2) y by (auto simp: meter_inv_def)
      ultimately have "md_id r = md_id x" by (simp add: report_of_def)
      with \<open>x \<in> set ?rows\<close> fresh show False by auto
    qed
    then have "reports_ok (ts_reports s) r"
      using 2(5) by (simp add: reports_ok_def list_all_iff filter_False)
    moreover have "md_id r \<in> ts_ids s ` {..<ts_next_id s1}" using 2(2,4) by simp
    ultimately show ?thesis
      using assms(2,3) fr sub fresh 2(1)
      by (simp add: meter_inv_def commit_rows_def) (blast intro: order_trans)
  qed
qed

lemma meter_total_increments:
  assumes "increments_of d1 = increments_of d"
  shows "meter_total i metric d1 = meter_total i metric d"
proof -
  have "map md_quantity (filter (\<lambda>r. md_tenant_id r = i \<and> md_metric r = metric) rows) =
      map (\<lambda>x. fst (snd (snd (snd x)))) (filter (\<lambda>x. fst (snd x) = i \<and> fst (snd (snd x)) = metric) (map increment_of rows))" for rows
    by (induction rows) (simp_all add: increment_of_def)
  then show ?thesis using assms by (simp add: meter_total_def increments_of_def)
qed

lemma published_usage:
  assumes "meters_published s s1" and "usage_inv (ts_db s)"
  shows "usage_inv (ts_db s1)"
proof -
  have "td_usage (ts_db s1) = td_usage (ts_db s)" using assms(1) unfolding meters_published_def by blast
  moreover have "usage_total i name (ts_db s1) = usage_total i name (ts_db s)" for i name
    using calculation by (simp add: usage_total_def)
  ultimately show ?thesis using assms(2) meter_total_increments [OF published_increments [OF assms(1)]]
    by (simp add: usage_inv_def)
qed

lemma meter_transaction_inv:
  assumes "billing_inv s"
  shows "billing_inv (snd (meter_transaction S plan_map (usage_op ev) s))"
proof (cases "usage_op ev s")
  case (Pair res s1)
  show ?thesis
  proof (cases res)
    case (Inl e)
    have "ts_ids s ` {..<ts_next_id s} \<subseteq> ts_ids s ` {..<ts_next_id s1}"
      using op_frame [OF Pair] by (auto simp: frame_def)
    then have ids: "md_id ` set (td_meters (ts_durable s)) \<subseteq> ts_ids s ` {..<ts_next_id s1}"
      using assms unfolding billing_inv_def meter_inv_def by (meson order_trans)
    show ?thesis using billing_invD [OF assms] op_frame [OF Pair] ids
      by (simp add: meter_transaction_def Pair Inl billing_inv_def meter_inv_def rollback_session_def frame_def)
  next
    case (Inr x)
    then have g: "grown s s1" "usage_inv (ts_db s1)" using op_grown [of ev s s1] Pair billing_invD(3) [OF assms] by simp_all
    have m: "meter_inv (commit_rows s1)" using grown_commits [OF g(1)] assms by (simp add: billing_inv_def)
    note p = commit_session_published [OF m, of S plan_map]
    have "billing_inv (commit_session S plan_map s1)"
      using published_inv [OF p] published_usage [OF p g(2)] by (intro billing_invI) blast+
    then show ?thesis by (simp add: meter_transaction_def Pair Inr)
  qed
qed

lemma clock_billing: "billing_inv s \<Longrightarrow> billing_inv (s\<lparr>ts_clock := now, ts_period := period\<rparr>)"
  using billing_invD [of s] by (intro billing_invI) (simp_all add: meter_inv_def)

lemma published_billing: "meters_published s s1 \<Longrightarrow> billing_inv s \<Longrightarrow> billing_inv s1"
  using published_inv published_usage billing_invD(3) by (intro billing_invI) blast+

lemma publish_due_billing: "billing_inv s \<Longrightarrow> billing_inv (snd (publish_due_meters S plan_map limit s))"
  by (rule published_billing [OF publish_due_published]) (blast dest: billing_invD)+

lemma run_usage_inv: "billing_inv s \<Longrightarrow> billing_inv (run_usage plan_map e s)"
proof -
  assume inv: "billing_inv s"
  obtain now period S ev where e: "e = (now, period, S, ev)" by (cases e)
  show ?thesis
    using meter_transaction_inv [OF clock_billing [OF inv], of S plan_map ev period now]
      publish_due_billing [OF clock_billing [OF inv], of S plan_map _ period now]
    by (cases ev) (simp_all add: e)
qed

lemma run_usages_inv: "billing_inv s \<Longrightarrow> billing_inv (run_usages plan_map evs s)"
  unfolding run_usages_def
proof (induction evs arbitrary: s)
  case (Cons e evs)
  then show ?case using run_usage_inv [of s plan_map e] by simp
qed simp

definition unbilled :: "tenant_session \<Rightarrow> bool" where
  "unbilled s \<longleftrightarrow> td_usage (ts_db s) = [] \<and> td_meters (ts_db s) = [] \<and> ts_durable s = ts_db s \<and> ts_reports s = [] \<and>
     inj (ts_ids s)"

lemma unbilled_inv: "unbilled s \<Longrightarrow> billing_inv s"
  by (simp add: unbilled_def billing_inv_def meter_inv_def usage_inv_def usage_total_def meter_total_def)

text \<open>
  C25: the bills account for the usage. Whatever usage is recorded, refused or reported, and
  however Stripe answers, each counter of a tenant summed over its billing periods is the
  sum of the quantities of its meter rows for that metric.
\<close>

theorem usage_is_metered:
  assumes "unbilled s" and "(metric, name) \<in> set metric_fields"
  shows "usage_total i name (ts_db (run_usages plan_map evs s)) = meter_total i metric (ts_db (run_usages plan_map evs s))"
  using billing_invD(3) [OF run_usages_inv [OF unbilled_inv [OF assms(1)], of plan_map evs]] assms(2)
  unfolding usage_inv_def by blast

subsection \<open>Publications that overlap\<close>

text \<open>
  The loop of \<open>publish_due\<close> locks the rows it reads until its first commit; from then on other publications read the rows it still has copies
  of, and a publication after a commit locks nothing. Here each publication, named by a number, holds copies of durable pending rows, read
  at one moment and delivered one by one, each whenever it comes to it, while usage is recorded and other publications deliver. A commit
  that fails, or the end of the process, ends the publication after its report was sent.
\<close>

type_synonym billing = "tenant_session \<times> (nat \<Rightarrow> meter_dispatch list)"

inductive billing_step :: "(string \<times> string) list \<Rightarrow> billing \<Rightarrow> billing \<Rightarrow> bool" for plan_map where
  transacts: "billing_step plan_map (s, L) (run_usage plan_map e s, L)"
| reads: "list_all (\<lambda>r. md_status r = ''pending'' \<and> r \<in> set (td_meters (ts_durable s))) rs \<Longrightarrow>
    billing_step plan_map (s, L) (s, L(j := rs))"
| delivers: "L j = r # rs \<Longrightarrow> deliver_row S plan_map r (s\<lparr>ts_clock := now\<rparr>) = (Inr m, s1) \<Longrightarrow>
    billing_step plan_map (s, L) (s1, L(j := rs))"
| breaks: "L j = r # rs \<Longrightarrow> deliver_row S plan_map r (s\<lparr>ts_clock := now\<rparr>) = (Inl e, s1) \<Longrightarrow>
    billing_step plan_map (s, L) (s1, L(j := []))"

text \<open>Every copy is one of an increment that is durable.\<close>

definition copies_inv :: "billing \<Rightarrow> bool" where
  "copies_inv x \<longleftrightarrow> billing_inv (fst x) \<and> (\<forall>j. \<forall>r \<in> set (snd x j). increment_of r \<in> set (increments_of (ts_db (fst x))))"

lemma transaction_increments:
  assumes "billing_inv s"
  shows "set (increments_of (ts_db s)) \<subseteq> set (increments_of (ts_db (snd (meter_transaction S plan_map (usage_op ev) s))))"
proof -
  obtain res s1 where op: "usage_op ev s = (res, s1)" by (rule prod.exhaust)
  show ?thesis
  proof (cases res)
    case (Inl e)
    then show ?thesis using op op_frame [OF op] billing_invD(2) [OF assms]
      by (simp add: meter_transaction_def rollback_session_def frame_def)
  next
    case (Inr x)
    then have g: "grown s s1" using op_grown [of ev s s1] op billing_invD(3) [OF assms] by simp
    have m: "meter_inv (commit_rows s1)" using grown_commits [OF g] billing_invD(1,2) [OF assms] by blast
    have "increments_of (ts_db (commit_session S plan_map s1)) = increments_of (ts_db s1)"
      by (rule published_increments [OF commit_session_published [OF m]])
    then show ?thesis using g op Inr by (auto simp: meter_transaction_def increments_of_def grown_def)
  qed
qed

lemma run_usage_increments:
  assumes "billing_inv s"
  shows "set (increments_of (ts_db s)) \<subseteq> set (increments_of (ts_db (run_usage plan_map e s)))"
proof -
  obtain now period S ev where e: "e = (now, period, S, ev)" by (cases e)
  note inv = clock_billing [OF assms, of period now]
  have "increments_of (ts_db (snd (publish_due_meters S plan_map limit (s\<lparr>ts_clock := now, ts_period := period\<rparr>)))) =
      increments_of (ts_db s)" for limit
    using published_increments [OF publish_due_published] billing_invD(1,2) [OF inv] by fastforce
  then show ?thesis using transaction_increments [OF inv, of S plan_map ev] by (cases ev) (simp_all add: e)
qed

lemma delivery_keeps_copies:
  assumes "copies_inv (s, L)" and "L j = r # rs" and "deliver_row S plan_map r (s\<lparr>ts_clock := now\<rparr>) = (res, s1)"
  shows "meters_published (s\<lparr>ts_clock := now\<rparr>) s1"
proof -
  have "meter_inv (s\<lparr>ts_clock := now\<rparr>)" "ts_db (s\<lparr>ts_clock := now\<rparr>) = ts_durable (s\<lparr>ts_clock := now\<rparr>)"
    using assms(1) billing_invD(1,2) [of s] by (simp_all add: copies_inv_def meter_inv_def)
  moreover have "increment_of r \<in> set (increments_of (ts_db (s\<lparr>ts_clock := now\<rparr>)))"
  proof -
    have "r \<in> set (L j)" using assms(2) by simp
    then show ?thesis using assms(1) by (simp add: copies_inv_def)
  qed
  ultimately show ?thesis using assms(3) by (rule deliver_row_published)
qed

lemma clock_only: "billing_inv s \<Longrightarrow> billing_inv (s\<lparr>ts_clock := now\<rparr>)"
  using billing_invD [of s] by (intro billing_invI) (simp_all add: meter_inv_def)

lemma copies_step:
  assumes "billing_step plan_map x y" and "copies_inv x"
  shows "copies_inv y"
  using assms(1)
proof cases
  case (transacts s L e)
  then show ?thesis using assms(2) run_usage_inv [of s plan_map e] run_usage_increments [of s plan_map e]
    by (auto simp: copies_inv_def)
next
  case (reads s rs L j)
  then have "ts_db s = ts_durable s" using assms(2) billing_invD(2) by (simp add: copies_inv_def)
  then show ?thesis using reads assms(2) by (auto simp: copies_inv_def increments_of_def list_all_iff)
next
  case (delivers L j r rs S now s m s1)
  have inv: "billing_inv (s\<lparr>ts_clock := now\<rparr>)"
    using assms(2) delivers clock_only by (simp add: copies_inv_def)
  have p: "meters_published (s\<lparr>ts_clock := now\<rparr>) s1" using delivery_keeps_copies assms(2) delivers by blast
  have all: "increment_of q \<in> set (increments_of (ts_db s))" if "q \<in> set (L i)" for q i
    using assms(2) delivers(1) that by (simp add: copies_inv_def)
  have "q \<in> set (L j)" if "q \<in> set rs" for q using delivers(3) that by simp
  then have "\<forall>i. \<forall>r \<in> set ((L(j := rs)) i). increment_of r \<in> set (increments_of (ts_db s))"
    using all by (auto intro: all)
  then show ?thesis using delivers published_billing [OF p inv] published_increments [OF p] by (simp add: copies_inv_def)
next
  case (breaks L j r rs S now s e s1)
  have inv: "billing_inv (s\<lparr>ts_clock := now\<rparr>)"
    using assms(2) breaks clock_only by (simp add: copies_inv_def)
  have p: "meters_published (s\<lparr>ts_clock := now\<rparr>) s1" using delivery_keeps_copies assms(2) breaks by blast
  then show ?thesis using assms(2) breaks published_billing [OF p inv] published_increments [OF p]
    by (auto simp: copies_inv_def)
qed

lemma copies_run:
  assumes "(billing_step plan_map)\<^sup>*\<^sup>* (s0, \<lambda>_. []) (s, L)" and "unbilled s0"
  shows "billing_inv s"
proof -
  have "copies_inv (s0, \<lambda>_. [])" using unbilled_inv [OF assms(2)] by (simp add: copies_inv_def)
  with assms(1) have "copies_inv (s, L)" by (induction rule: rtranclp_induct) (auto intro: copies_step)
  then show ?thesis by (simp add: copies_inv_def)
qed

subsection \<open>Billed once\<close>

text \<open>
  What Stripe bills: a usage record that comes with the idempotency key of an earlier one is answered with the earlier answer and
  adds nothing, for as long as Stripe keeps the key.
\<close>

fun first_per_key :: "usage_report list \<Rightarrow> usage_report list" where
  "first_per_key [] = []"
| "first_per_key (r # rs) = r # filter (\<lambda>x. ur_idempotency_key x \<noteq> ur_idempotency_key r) (first_per_key rs)"

definition billed :: "(usage_report \<times> bool) list \<Rightarrow> int" where
  "billed reports = sum_list (map ur_quantity (first_per_key (map fst (filter snd reports))))"

definition recorded_for :: "(usage_report \<times> bool) list \<Rightarrow> meter_dispatch \<Rightarrow> bool" where
  "recorded_for reports r \<longleftrightarrow> list_ex (\<lambda>sent. ur_idempotency_key (fst sent) = meter_key r \<and> snd sent) reports"

lemma first_per_key_keys:
  "distinct (map ur_idempotency_key (first_per_key rs)) \<and> set (first_per_key rs) \<subseteq> set rs \<and>
   ur_idempotency_key ` set (first_per_key rs) = ur_idempotency_key ` set rs"
proof (induction rs)
  case (Cons r rs)
  have "distinct (map ur_idempotency_key (filter P xs))" if "distinct (map ur_idempotency_key xs)" for P xs
    using that by (induction xs) auto
  moreover have "insert a (f ` {x \<in> A. f x \<noteq> a}) = insert a (f ` A)" for a A and f :: "usage_report \<Rightarrow> string" by auto
  from this [of "ur_idempotency_key r" ur_idempotency_key "set (first_per_key rs)"] calculation Cons show ?case by auto
qed simp

lemma sum_by_key:
  fixes a :: "'x \<Rightarrow> int" and b :: "'y \<Rightarrow> int"
  assumes "distinct (map f xs)" and "distinct (map g ys)" and "f ` set xs = g ` set ys"
    and "\<And>x y. x \<in> set xs \<Longrightarrow> y \<in> set ys \<Longrightarrow> f x = g y \<Longrightarrow> a x = b y"
  shows "sum_list (map a xs) = sum_list (map b ys)"
  using assms
proof (induction xs arbitrary: ys)
  case (Cons x xs)
  then obtain y where y: "y \<in> set ys" "f x = g y" by (metis image_iff list.set_intros(1))
  then obtain us vs where ys: "ys = us @ y # vs" by (meson split_list)
  have "f ` set xs = g ` set (us @ vs)"
  proof -
    have "f ` set xs = f ` set (x # xs) - {f x}" using Cons.prems(1) by auto
    also have "\<dots> = g ` set ys - {g y}" using Cons.prems(3) y(2) by simp
    also have "\<dots> = set (map g us @ g y # map g vs) - {g y}" by (simp add: ys image_Un)
    also have "\<dots> = set (map g us @ map g vs)"
    proof -
      have "distinct (map g us @ g y # map g vs)" using Cons.prems(2) by (simp add: ys)
      then show ?thesis by auto
    qed
    finally show ?thesis by (simp add: image_Un)
  qed
  then have "sum_list (map a xs) = sum_list (map b (us @ vs))"
    using Cons.prems by (intro Cons.IH) (auto simp: ys)
  moreover have "a x = b y" using Cons.prems(4) [OF _ y(1,2)] by simp
  ultimately show ?case by (simp add: ys)
qed simp

text \<open>
  C14: an increment is billed once. However often and by however many overlapping publications its row is delivered, whatever answers of
  Stripe are lost and whatever commits fail after a report was sent: every report carries the key of one durable row, with the
  quantity and the instant of that row; a row is marked delivered only if Stripe has recorded a report of it; and what Stripe bills,
  counting the reports of one key once, as it does while it keeps the key, is the sum of the quantities of the rows it has
  recorded a report of, each of them once.
\<close>

theorem metered_increment_billed_once:
  assumes "unbilled s0" and "(billing_step plan_map)\<^sup>*\<^sup>* (s0, \<lambda>_. []) (s, L)"
  shows "list_all (\<lambda>sent. list_ex (\<lambda>r. ur_idempotency_key (fst sent) = meter_key r \<and> ur_quantity (fst sent) = md_quantity r \<and>
      ur_timestamp (fst sent) = whole_seconds (md_created_at r)) (td_meters (ts_durable s))) (ts_reports s) \<and>
    list_all (\<lambda>r. md_status r = ''delivered'' \<longrightarrow> recorded_for (ts_reports s) r) (td_meters (ts_durable s)) \<and>
    billed (ts_reports s) = sum_list (map md_quantity (filter (recorded_for (ts_reports s)) (td_meters (ts_durable s))))"
proof -
  have inv: "meter_inv s" using billing_invD(1) [OF copies_run [OF assms(2,1)]] .
  let ?rows = "td_meters (ts_durable s)" and ?first = "first_per_key (map fst (filter snd (ts_reports s)))"
  have ok: "reports_ok (ts_reports s) r" if "r \<in> set ?rows" for r using inv that by (simp add: meter_inv_def)
  have row: "\<exists>r \<in> set ?rows. ur_idempotency_key (fst y) = meter_key r" if "y \<in> set (ts_reports s)" for y
    using inv that by (auto simp: meter_inv_def report_of_def)
  have amount: "ur_quantity (fst y) = md_quantity r \<and> ur_timestamp (fst y) = whole_seconds (md_created_at r)"
    if "y \<in> set (ts_reports s)" "r \<in> set ?rows" "ur_idempotency_key (fst y) = meter_key r" for y r
    using ok [OF that(2)] that by (auto simp: reports_ok_def report_of_def list_all_iff)
  have "billed (ts_reports s) = sum_list (map md_quantity (filter (recorded_for (ts_reports s)) ?rows))"
    unfolding billed_def
  proof (rule sum_by_key [where f = ur_idempotency_key and g = meter_key])
    show "distinct (map ur_idempotency_key ?first)" using first_per_key_keys by blast
    have "distinct ?rows" "inj_on md_id (set ?rows)" using inv by (auto simp: meter_inv_def distinct_map)
    then show "distinct (map meter_key (filter (recorded_for (ts_reports s)) ?rows))"
      by (auto simp: distinct_map inj_on_def)
    show "ur_idempotency_key ` set ?first = meter_key ` set (filter (recorded_for (ts_reports s)) ?rows)"
    proof -
      have "ur_idempotency_key ` set ?first = ur_idempotency_key ` set (map fst (filter snd (ts_reports s)))"
        using first_per_key_keys by blast
      also have "\<dots> = (\<lambda>y. ur_idempotency_key (fst y)) ` {y \<in> set (ts_reports s). snd y}" by (simp add: image_image)
      also have "\<dots> = meter_key ` set (filter (recorded_for (ts_reports s)) ?rows)"
      proof (intro set_eqI iffI)
        fix k assume "k \<in> (\<lambda>y. ur_idempotency_key (fst y)) ` {y \<in> set (ts_reports s). snd y}"
        then obtain y where y: "y \<in> set (ts_reports s)" "snd y" "k = ur_idempotency_key (fst y)" by blast
        then obtain r where "r \<in> set ?rows" "ur_idempotency_key (fst y) = meter_key r" using row by blast
        then show "k \<in> meter_key ` set (filter (recorded_for (ts_reports s)) ?rows)"
          using y by (intro image_eqI [of _ _ r]) (auto simp: recorded_for_def list_ex_iff)
      next
        fix k assume "k \<in> meter_key ` set (filter (recorded_for (ts_reports s)) ?rows)"
        then obtain r y where "k = meter_key r" "y \<in> set (ts_reports s)" "ur_idempotency_key (fst y) = meter_key r" "snd y"
          by (auto simp: recorded_for_def list_ex_iff)
        then show "k \<in> (\<lambda>y. ur_idempotency_key (fst y)) ` {y \<in> set (ts_reports s). snd y}"
          by (intro image_eqI [of _ _ y]) auto
      qed
      finally show ?thesis .
    qed
  next
    fix x r
    assume x: "x \<in> set ?first" "r \<in> set (filter (recorded_for (ts_reports s)) ?rows)" "ur_idempotency_key x = meter_key r"
    then obtain y where "y \<in> set (ts_reports s)" "fst y = x"
      using first_per_key_keys [of "map fst (filter snd (ts_reports s))"] by auto
    then show "ur_quantity x = md_quantity r" using amount [of y r] x(2,3) by auto
  qed
  moreover have "md_status r = ''delivered'' \<longrightarrow> recorded_for (ts_reports s) r" if "r \<in> set ?rows" for r
    using ok [OF that] by (simp add: reports_ok_def recorded_for_def report_of_def)
  moreover have "\<exists>r \<in> set ?rows. ur_idempotency_key (fst y) = meter_key r \<and> ur_quantity (fst y) = md_quantity r \<and>
      ur_timestamp (fst y) = whole_seconds (md_created_at r)" if "y \<in> set (ts_reports s)" for y
    using row [OF that] amount [OF that] by blast
  ultimately show ?thesis by (simp add: list_all_iff list_ex_iff)
qed

text \<open>A tenant with one plan; Stripe refuses the first report and accepts the next.\<close>

definition paying_tenant :: tenant where
  "paying_tenant = \<lparr>tn_id = ''T'', tn_name = ''Acme'', tn_slug = ''acme'', tn_status = ''active'', tn_plan = ''starter'',
     tn_stripe_customer_id = Some ''cus'', tn_deleted_at = None, tn_created_at = 0\<rparr>"

definition starter_plan :: tenant_plan where
  "starter_plan = \<lparr>tp_slug = ''starter'', tp_max_missions_per_month = 2, tp_max_tasks_per_month = 10,
     tp_max_agents_per_fleet = 2, tp_max_concurrent_workers = 1, tp_max_api_keys = 2, tp_max_monthly_api_calls = 5,
     tp_features_enabled = []\<rparr>"

definition billed_session :: tenant_session where
  "billed_session = example_session
     \<lparr>ts_db := (ts_db example_session)\<lparr>td_tenants := [paying_tenant], td_plans := [starter_plan]\<rparr>,
      ts_durable := (ts_db example_session)\<lparr>td_tenants := [paying_tenant], td_plans := [starter_plan]\<rparr>\<rparr>"

definition example_stripe :: "bool \<Rightarrow> stripe" where
  "example_stripe up = \<lparr>st_subscriptions = (\<lambda>c. Inr [[(''si'', Some ''price'')]]),
     st_usage_record = (\<lambda>r. if up then UsageRecorded else UsageRefused (''down'', ''StripeError'')), st_commit_error = (\<lambda>r. None)\<rparr>"

definition example_usage :: "timed_usage list" where
  "example_usage =
     [(1000000, ''2026-01-01'', example_stripe False, MissionCreated ''T''),
      (2000000, ''2026-01-01'', example_stripe True, TasksCreated ''T'' 4),
      (3000000, ''2026-01-01'', example_stripe True, TasksCreated ''T'' 7),
      (9000000, ''2026-02-01'', example_stripe True, MetersDue 5),
      (9500000, ''2026-02-01'', example_stripe True, MetersDue 5)]"

lemma billed_session_unbilled: "unbilled billed_session"
  using example_session_fresh
  by (simp add: unbilled_def billed_session_def fresh_session_def) (simp add: example_session_def Let_def)

theorem usage_is_metered_witness:
  "meter_total ''T'' ''tasks'' (ts_db (run_usages [(''starter'', ''price'')] example_usage billed_session)) = 4"
proof -
  have "(''tasks'', ''tasks_created'') \<in> set metric_fields" by (simp add: metric_fields_def)
  from usage_is_metered [OF billed_session_unbilled this, symmetric] show ?thesis
    by (rule trans) code_simp
qed

text \<open>
  A mission is recorded and the answer to its report is lost; two publications then read its row. The commit of the first one fails, a third
  one reads the row once more, and the second and the third deliver it.
\<close>

definition lost_stripe :: stripe where
  "lost_stripe = (example_stripe True)\<lparr>st_usage_record := (\<lambda>r. AnswerLost (''timeout'', ''APIConnectionError''))\<rparr>"

definition broken_database :: stripe where
  "broken_database = (example_stripe True)\<lparr>st_commit_error := (\<lambda>r. Some (RuntimeError ''connection lost''))\<rparr>"

definition starter_price :: "(string \<times> string) list" where
  "starter_price = [(''starter'', ''price'')]"

definition lost_answer :: tenant_session where
  "lost_answer = run_usage starter_price (1000000, ''2026-01-01'', lost_stripe, MissionCreated ''T'') billed_session"

definition delivered_thrice :: tenant_session where
  "delivered_thrice =
     (let r = hd (td_meters (ts_durable lost_answer));
          s1 = snd (deliver_row broken_database starter_price r (lost_answer\<lparr>ts_clock := 9000000\<rparr>));
          s2 = snd (deliver_row (example_stripe True) starter_price r (s1\<lparr>ts_clock := 9000001\<rparr>))
      in snd (deliver_row (example_stripe True) starter_price r (s2\<lparr>ts_clock := 9000002\<rparr>)))"

lemma delivered_thrice_run: "\<exists>L. (billing_step starter_price)\<^sup>*\<^sup>* (billed_session, \<lambda>_. []) (delivered_thrice, L)"
proof -
  let ?r = "hd (td_meters (ts_durable lost_answer))"
  have pending: "list_all (\<lambda>r. md_status r = ''pending'' \<and> r \<in> set (td_meters (ts_durable lost_answer))) [?r]"
    by code_simp
  obtain e s1 where s1: "deliver_row broken_database starter_price ?r (lost_answer\<lparr>ts_clock := 9000000\<rparr>) = (Inl e, s1)"
  proof -
    have "case fst (deliver_row broken_database starter_price ?r (lost_answer\<lparr>ts_clock := 9000000\<rparr>)) of Inl _ \<Rightarrow> True | Inr _ \<Rightarrow> False"
      by code_simp
    then show thesis using that by (metis prod.collapse sum.case_eq_if sum.collapse(1))
  qed
  have up: "\<exists>m s2. deliver_row (example_stripe True) starter_price r s = (Inr m, s2)" for r s
    by (simp add: deliver_row_def example_stripe_def Let_def split: prod.split)
  obtain m s2 where s2: "deliver_row (example_stripe True) starter_price ?r (s1\<lparr>ts_clock := 9000001\<rparr>) = (Inr m, s2)" using up by blast
  obtain n s3 where s3: "deliver_row (example_stripe True) starter_price ?r (s2\<lparr>ts_clock := 9000002\<rparr>) = (Inr n, s3)" using up by blast
  have "delivered_thrice = s3" by (simp add: delivered_thrice_def s1 s2 s3 Let_def)
  note also_then = rtranclp.rtrancl_into_rtrancl [where r = "billing_step starter_price"]
  define L where "L = (\<lambda>_::nat. [] :: meter_dispatch list)"
  have L: "L = (\<lambda>_. [])" by (simp add: L_def)
  have "billing_step starter_price (billed_session, L) (lost_answer, L)" unfolding lost_answer_def by (rule billing_step.transacts)
  then have "(billing_step starter_price)\<^sup>*\<^sup>* (billed_session, L) (lost_answer, L)" by blast
  from also_then [OF also_then [OF also_then [OF this billing_step.reads [OF pending, of _ _ 1]] billing_step.reads [OF pending, of _ _ 2]]
      billing_step.reads [OF pending, of _ _ 3]]
  have "(billing_step starter_price)\<^sup>*\<^sup>* (billed_session, L) (lost_answer, L(1 := [?r], 2 := [?r], 3 := [?r]))" .
  from also_then [OF this billing_step.breaks [OF _ s1, of _ 1 "[]"]]
  have "(billing_step starter_price)\<^sup>*\<^sup>* (billed_session, L) (s1, L(1 := [?r], 2 := [?r], 3 := [?r], 1 := []))" by simp
  from also_then [OF this billing_step.delivers [OF _ s2, of _ 2 "[]"]]
  have "(billing_step starter_price)\<^sup>*\<^sup>* (billed_session, L) (s2, L(1 := [?r], 2 := [?r], 3 := [?r], 1 := [], 2 := []))" by simp
  from also_then [OF this billing_step.delivers [OF _ s3, of _ 3 "[]"]]
  have "(billing_step starter_price)\<^sup>*\<^sup>* (billed_session, L) (s3, L(1 := [?r], 2 := [?r], 3 := [?r], 1 := [], 2 := [], 3 := []))" by simp
  then show ?thesis unfolding \<open>delivered_thrice = s3\<close> L by blast
qed

theorem metered_increment_billed_once_witness:
  "length (ts_reports delivered_thrice) = 4 \<and> list_all snd (ts_reports delivered_thrice) \<and> billed (ts_reports delivered_thrice) = 1"
proof -
  obtain L where "(billing_step starter_price)\<^sup>*\<^sup>* (billed_session, \<lambda>_. []) (delivered_thrice, L)" using delivered_thrice_run by blast
  note once = metered_increment_billed_once [OF billed_session_unbilled this]
  have "length (ts_reports delivered_thrice) = 4" "list_all snd (ts_reports delivered_thrice)"
    "sum_list (map md_quantity (filter (recorded_for (ts_reports delivered_thrice)) (td_meters (ts_durable delivered_thrice)))) = 1"
    by code_simp+
  then show ?thesis using once by simp
qed

text \<open>
  A copy that is no longer what the row is can overwrite it: when the second publication finds the subscription ended, the row
  that the first one delivered becomes a skipped one, although Stripe has recorded its report.
\<close>

definition ended_stripe :: stripe where
  "ended_stripe = (example_stripe True)\<lparr>st_subscriptions := (\<lambda>c. Inr [])\<rparr>"

lemma stale_copy_unmarks_delivery:
  "(let r = hd (td_meters (ts_durable lost_answer));
        s1 = snd (deliver_row (example_stripe True) starter_price r (lost_answer\<lparr>ts_clock := 9000000\<rparr>));
        s2 = snd (deliver_row ended_stripe starter_price r (s1\<lparr>ts_clock := 9000001\<rparr>))
    in map md_status (td_meters (ts_durable s1)) = [''delivered''] \<and> map md_status (td_meters (ts_durable s2)) = [''skipped''] \<and>
       list_all snd (ts_reports s2))"
  by code_simp

subsection \<open>Requests that overlap\<close>

text \<open>
  The check of a mission's quota and what records it, apart: between them other transactions commit. At
  read committed the check sees the committed row and does not lock it.
\<close>

definition mission_check :: "uuid \<Rightarrow> bool session_op" where
  "mission_check i =
     and_then (reading (get_active i)) (\<lambda>t s.
       case get_plan (tn_plan t) (ts_db s) of
         None \<Rightarrow> (Inr False, s)
       | Some p \<Rightarrow>
           and_then (get_or_create_usage i (ts_period s)) (\<lambda>u s.
             if tp_max_missions_per_month p \<noteq> -1 \<and> tu_missions_created u \<ge> tp_max_missions_per_month p
             then (Inl (QuotaExceededError ''missions_per_month'' (tp_max_missions_per_month p)
                     (tu_missions_created u) (tn_plan t)), s)
             else (Inr True, s)) s)"

definition mission_record :: "uuid \<Rightarrow> unit session_op" where
  "mission_record i = record_usage i ''missions_created'' 1 ''missions''"

lemma mission_in_two:
  "check_and_record_mission_creation i =
     and_then (mission_check i) (\<lambda>go. if go then mission_record i else (\<lambda>s. (Inr (), s)))"
  by (rule ext) (auto simp: check_and_record_mission_creation_def mission_check_def mission_record_def and_then_def
      split: prod.splits sum.splits option.splits)

text \<open>
  At most \<open>k\<close> requests of a tenant between check and commit; \<open>n\<close> of them are. Each step is of one of them: it
  is admitted, it records and commits, or it is rolled back.
\<close>

inductive overlap_step ::
  "(string \<times> string) list \<Rightarrow> uuid \<Rightarrow> nat \<Rightarrow> tenant_session \<times> nat \<Rightarrow> tenant_session \<times> nat \<Rightarrow> bool"
  for plan_map i k where
  admitted: "mission_check i s = (Inr True, s1) \<Longrightarrow> n < k \<Longrightarrow>
     overlap_step plan_map i k (s, n) (s\<lparr>ts_next_id := ts_next_id s1\<rparr>, Suc n)"
| recorded: "mission_record i s = (Inr (), s1) \<Longrightarrow>
     overlap_step plan_map i k (s, Suc n) (commit_session S plan_map s1, n)"
| abandoned: "overlap_step plan_map i k (s, Suc n) (s, n)"

inductive_cases overlap_stepE: "overlap_step plan_map i k (s, n) (s1, n1)"

text \<open>The tenant's plan and its row for the month, in a session between transactions.\<close>

definition monthly :: "uuid \<Rightarrow> tenant \<Rightarrow> tenant_plan \<Rightarrow> string \<Rightarrow> tenant_usage \<Rightarrow> tenant_session \<Rightarrow> bool" where
  "monthly i t p period u s \<longleftrightarrow> billing_inv s \<and> ts_period s = period \<and> get_active i (ts_db s) = Inr t \<and>
     get_plan (tn_plan t) (ts_db s) = Some p \<and> find_usage i period (ts_db s) = Some u"

lemma monthly_check:
  assumes "monthly i t p period u s"
  shows "mission_check i s =
    (if tp_max_missions_per_month p \<noteq> -1 \<and> tu_missions_created u \<ge> tp_max_missions_per_month p
     then Inl (QuotaExceededError ''missions_per_month'' (tp_max_missions_per_month p) (tu_missions_created u) (tn_plan t))
     else Inr True, s\<lparr>ts_next_id := ts_next_id s + 1\<rparr>)"
  using assms by (auto simp: monthly_def mission_check_def and_then_def get_or_create_usage_def new_id_def Let_def)

lemma next_id_billing:
  assumes "billing_inv s" "ts_next_id s \<le> k"
  shows "billing_inv (s\<lparr>ts_next_id := k\<rparr>)"
proof -
  have "ts_ids s ` {..<ts_next_id s} \<subseteq> ts_ids s ` {..<k}" using assms(2) by auto
  then have "md_id ` set (td_meters (ts_durable s)) \<subseteq> ts_ids s ` {..<k}"
    using billing_invD(1) [OF assms(1)] unfolding meter_inv_def by (meson order_trans)
  then show ?thesis using billing_invD [OF assms(1)] by (intro billing_invI) (simp_all add: meter_inv_def)
qed

lemma monthly_admitted:
  assumes "monthly i t p period u s" "mission_check i s = (res, s1)"
  shows "monthly i t p period u (s\<lparr>ts_next_id := ts_next_id s1\<rparr>)"
  using assms monthly_check [OF assms(1)] next_id_billing [of s "ts_next_id s + 1"] by (auto simp: monthly_def)

lemma record_usage_rows:
  "record_usage i name n metric s = (Inr (), s1) \<Longrightarrow> td_tenants (ts_db s1) = td_tenants (ts_db s) \<and>
     td_plans (ts_db s1) = td_plans (ts_db s)"
  by (auto simp: record_usage_def increment_usage_def and_then_Inr_iff get_or_create_usage_def record_meter_def new_id_def
      map_rows_def billing_meter_after_commit_def Let_def split: option.splits if_splits)

lemma monthly_recorded:
  assumes "monthly i t p period u s" "mission_record i s = (Inr (), s1)"
  shows "monthly i t p period (bump_usage ''missions_created'' 1 u) (commit_session S plan_map s1)"
proof -
  note m = assms(1) [unfolded monthly_def]
  have inv: "meter_inv s" "ts_db s = ts_durable s" "usage_inv (ts_db s)" using billing_invD m by blast+
  have eff: "usage_inv (ts_db s1)" "grown s s1" "find_usage i period (ts_db s1) = Some (bump_usage ''missions_created'' 1 u)"
    using record_usage_effect [OF assms(2) [unfolded mission_record_def] inv(3)] m by (simp_all add: metric_fields_def)
  have commit: "meter_inv (commit_rows s1)" by (rule grown_commits [OF eff(2) inv(1,2)])
  note p = commit_session_published [OF commit, of S plan_map]
  have same: "td_usage (ts_db (commit_session S plan_map s1)) = td_usage (ts_db s1)"
    "td_tenants (ts_db (commit_session S plan_map s1)) = td_tenants (ts_db s1)"
    "td_plans (ts_db (commit_session S plan_map s1)) = td_plans (ts_db s1)"
    "ts_period (commit_session S plan_map s1) = ts_period s1"
    using p unfolding meters_published_def by blast+
  have "billing_inv (commit_session S plan_map s1)"
    using published_inv [OF p] published_usage [OF p eff(1)] by (intro billing_invI) blast+
  moreover have "ts_period s1 = ts_period s" using eff(2) by (simp add: grown_def frame_def)
  ultimately show ?thesis
    using m eff(3) same record_usage_rows [OF assms(2) [unfolded mission_record_def]]
    by (simp add: monthly_def get_active_def get_tenant_def get_plan_def find_usage_def)
qed

lemma monthly_can_record:
  assumes "monthly i t p period u s"
  shows "\<exists>s1. mission_record i s = (Inr (), s1)"
  using assms
  by (auto simp: monthly_def mission_record_def record_usage_def increment_usage_def and_then_def get_or_create_usage_def
      new_id_def Let_def usage_fields_def record_meter_def supported_metrics_def map_rows_def)

lemma bump_missions [simp]: "tu_missions_created (bump_usage ''missions_created'' n u) = tu_missions_created u + n"
  by (simp add: bump_usage_def)

abbreviation overlapping ::
  "(string \<times> string) list \<Rightarrow> uuid \<Rightarrow> nat \<Rightarrow> tenant_session \<times> nat \<Rightarrow> tenant_session \<times> nat \<Rightarrow> bool" where
  "overlapping plan_map i k \<equiv> (overlap_step plan_map i k)\<^sup>*\<^sup>*"

lemma overlap_bound:
  assumes "overlapping plan_map i k x y" and "x = (s0, 0)" and "monthly i t p period u0 s0"
    and "tp_max_missions_per_month p \<noteq> -1" "tu_missions_created u0 \<le> tp_max_missions_per_month p" "0 < k"
  shows "\<exists>u. monthly i t p period u (fst y) \<and>
    tu_missions_created u + int (snd y) \<le> tp_max_missions_per_month p + int k - 1"
  using assms(1)
proof (induction rule: rtranclp_induct)
  case base
  show ?case using assms by (intro exI [of _ u0]) simp
next
  case (step y z)
  obtain s n s1 n1 where y: "y = (s, n)" and z: "z = (s1, n1)" by (cases y, cases z)
  from step.IH obtain u where u: "monthly i t p period u s"
    "tu_missions_created u + int n \<le> tp_max_missions_per_month p + int k - 1" by (auto simp: y)
  from step.hyps(2) [unfolded y z] show ?case
  proof (rule overlap_stepE)
    fix s2 assume adm: "mission_check i s = (Inr True, s2)" "n < k" "s1 = s\<lparr>ts_next_id := ts_next_id s2\<rparr>" "n1 = Suc n"
    have "tu_missions_created u < tp_max_missions_per_month p"
      using adm(1) monthly_check [OF u(1)] assms(4) by (auto split: if_splits)
    then show ?thesis using adm monthly_admitted [OF u(1) adm(1)] by (intro exI [of _ u]) (simp add: z)
  next
    fix s2 S assume rec: "n = Suc n1" "s1 = commit_session S plan_map s2" "mission_record i s = (Inr (), s2)"
    then show ?thesis using monthly_recorded [OF u(1) rec(3), of S plan_map] u(2)
      by (intro exI [of _ "bump_usage ''missions_created'' 1 u"]) (simp add: z)
  next
    assume "n = Suc n1" "s1 = s"
    then show ?thesis using u by (intro exI [of _ u]) (simp add: z)
  qed
qed

text \<open>The bound is reached: first one by one up to the last free mission, then \<open>k\<close> at once.\<close>

lemma admit_many:
  assumes "monthly i t p period u s" and "tu_missions_created u < tp_max_missions_per_month p" "m + n \<le> k"
  shows "\<exists>s1. overlapping plan_map i k (s, n) (s1, m + n) \<and> monthly i t p period u s1"
  using assms(3)
proof (induction m)
  case 0
  show ?case using assms(1) by auto
next
  case (Suc m)
  then obtain s1 where s1: "overlapping plan_map i k (s, n) (s1, m + n)" "monthly i t p period u s1" by auto
  have chk: "mission_check i s1 = (Inr True, s1\<lparr>ts_next_id := ts_next_id s1 + 1\<rparr>)"
    using monthly_check [OF s1(2)] assms(2) by simp
  have "overlap_step plan_map i k (s1, m + n) (s1\<lparr>ts_next_id := ts_next_id s1 + 1\<rparr>, Suc (m + n))"
    using overlap_step.admitted [OF chk, of "m + n" k plan_map] Suc.prems by simp
  moreover have "monthly i t p period u (s1\<lparr>ts_next_id := ts_next_id s1 + 1\<rparr>)"
    using monthly_admitted [OF s1(2) chk] by simp
  ultimately show ?case using s1(1) by (auto intro: rtranclp.rtrancl_into_rtrancl)
qed

lemma record_many:
  assumes "monthly i t p period u s"
  shows "\<exists>s1 u1. overlapping plan_map i k (s, m + n) (s1, n) \<and> monthly i t p period u1 s1 \<and>
    tu_missions_created u1 = tu_missions_created u + int m"
  using assms
proof (induction m arbitrary: s u)
  case 0
  then show ?case by (intro exI [of _ s] exI [of _ u]) simp
next
  case (Suc m)
  from monthly_can_record [OF Suc.prems] obtain s2 where rec: "mission_record i s = (Inr (), s2)" ..
  let ?s = "commit_session (example_stripe True) plan_map s2"
  from Suc.IH [OF monthly_recorded [OF Suc.prems rec, of "example_stripe True" plan_map]] obtain s1 u1 where
    s1: "overlapping plan_map i k (?s, m + n) (s1, n)" "monthly i t p period u1 s1"
      "tu_missions_created u1 = tu_missions_created (bump_usage ''missions_created'' 1 u) + int m" by blast
  have "overlap_step plan_map i k (s, Suc m + n) (?s, m + n)"
    unfolding add_Suc by (rule overlap_step.recorded [OF rec])
  then have "overlapping plan_map i k (s, Suc m + n) (s1, n)" using s1(1) by (rule converse_rtranclp_into_rtranclp)
  then show ?case using s1(2,3) by (intro exI [of _ s1] exI [of _ u1]) simp
qed

lemma one_by_one:
  assumes "monthly i t p period u s" and "tu_missions_created u + int m \<le> tp_max_missions_per_month p" "0 < k"
  shows "\<exists>s1 u1. overlapping plan_map i k (s, 0) (s1, 0) \<and> monthly i t p period u1 s1 \<and>
    tu_missions_created u1 = tu_missions_created u + int m"
  using assms(1,2)
proof (induction m arbitrary: s u)
  case 0
  then show ?case by (intro exI [of _ s] exI [of _ u]) simp
next
  case (Suc m)
  have "tu_missions_created u < tp_max_missions_per_month p" using Suc.prems(2) by simp
  from admit_many [OF Suc.prems(1) this, of 1 0 k plan_map] assms(3) obtain s1 where
    s1: "overlapping plan_map i k (s, 0) (s1, 1)" "monthly i t p period u s1" by auto
  from record_many [OF s1(2), of plan_map k 1 0] obtain s2 u2 where
    s2: "overlapping plan_map i k (s1, 1) (s2, 0)" "monthly i t p period u2 s2"
      "tu_missions_created u2 = tu_missions_created u + 1" by auto
  from Suc.IH [OF s2(2)] Suc.prems(2) s2(3) obtain s3 u3 where
    s3: "overlapping plan_map i k (s2, 0) (s3, 0)" "monthly i t p period u3 s3"
      "tu_missions_created u3 = tu_missions_created u2 + int m" by auto
  have "overlapping plan_map i k (s, 0) (s3, 0)" using s1(1) s2(1) s3(1) by (meson rtranclp_trans)
  then show ?case using s3(2,3) s2(3) by (intro exI [of _ s3] exI [of _ u3]) simp
qed

text \<open>
  C26: how far overlapping requests exceed a plan. With at most k mission requests of a tenant
  between their quota check and their commit, the missions of a month never exceed the plan's
  limit by more than k - 1; one at a time, they never exceed it. The bound is sharp: with
  k at once, a tenant below its limit can end exactly k - 1 above it.
\<close>

theorem mission_quota_overshoot:
  assumes "monthly i t p period u0 s0" and "tp_max_missions_per_month p \<noteq> -1"
    and "tu_missions_created u0 < tp_max_missions_per_month p" and "0 < k"
  shows "(\<forall>s n u. overlapping plan_map i k (s0, 0) (s, n) \<longrightarrow> find_usage i period (ts_db s) = Some u \<longrightarrow>
      tu_missions_created u \<le> tp_max_missions_per_month p + int k - 1) \<and>
    (\<exists>s u. overlapping plan_map i k (s0, 0) (s, 0) \<and> find_usage i period (ts_db s) = Some u \<and>
      tu_missions_created u = tp_max_missions_per_month p + int k - 1)"
proof (intro conjI allI impI)
  fix s n u
  assume "overlapping plan_map i k (s0, 0) (s, n)" "find_usage i period (ts_db s) = Some u"
  then show "tu_missions_created u \<le> tp_max_missions_per_month p + int k - 1"
    using overlap_bound [OF _ refl assms(1,2) _ assms(4)] assms(3) by (fastforce simp: monthly_def)
next
  let ?m = "nat (tp_max_missions_per_month p - 1 - tu_missions_created u0)"
  from one_by_one [OF assms(1) _ assms(4), of ?m plan_map] assms(3) obtain s1 u1 where
    s1: "overlapping plan_map i k (s0, 0) (s1, 0)" "monthly i t p period u1 s1"
      "tu_missions_created u1 = tp_max_missions_per_month p - 1" by auto
  from admit_many [OF s1(2), of k 0 k plan_map] s1(3) obtain s2 where
    s2: "overlapping plan_map i k (s1, 0) (s2, k)" "monthly i t p period u1 s2" by auto
  from record_many [OF s2(2), of plan_map k k 0] obtain s3 u3 where
    s3: "overlapping plan_map i k (s2, k) (s3, 0)" "monthly i t p period u3 s3"
      "tu_missions_created u3 = tu_missions_created u1 + int k" by auto
  have "overlapping plan_map i k (s0, 0) (s3, 0)" using s1(1) s2(1) s3(1) by (meson rtranclp_trans)
  then show "\<exists>s u. overlapping plan_map i k (s0, 0) (s, 0) \<and> find_usage i period (ts_db s) = Some u \<and>
      tu_missions_created u = tp_max_missions_per_month p + int k - 1"
    using s3(2,3) s1(3) by (intro exI [of _ s3] exI [of _ u3]) (simp add: monthly_def)
qed

definition opened_month :: tenant_session where
  "opened_month = run_usage [] (1, ''2026-01-01'', example_stripe False, MissionCreated ''T'') billed_session"

lemma opened_month_monthly:
  "\<exists>u. monthly ''T'' paying_tenant starter_plan ''2026-01-01'' u opened_month \<and> tu_missions_created u = 1"
proof -
  have "billing_inv opened_month"
    unfolding opened_month_def by (rule run_usage_inv [OF unbilled_inv [OF billed_session_unbilled]])
  moreover have "ts_period opened_month = ''2026-01-01''" "get_active ''T'' (ts_db opened_month) = Inr paying_tenant"
    "get_plan (tn_plan paying_tenant) (ts_db opened_month) = Some starter_plan"
    "map_option tu_missions_created (find_usage ''T'' ''2026-01-01'' (ts_db opened_month)) = Some 1"
    by code_simp+
  ultimately show ?thesis by (auto simp: monthly_def)
qed

theorem mission_quota_overshoot_witness:
  "\<exists>s u. overlapping [] ''T'' 3 (opened_month, 0) (s, 0) \<and> find_usage ''T'' ''2026-01-01'' (ts_db s) = Some u \<and>
     tu_missions_created u = 4"
proof -
  from opened_month_monthly obtain u where u: "monthly ''T'' paying_tenant starter_plan ''2026-01-01'' u opened_month"
    "tu_missions_created u = 1" by blast
  have "tp_max_missions_per_month starter_plan = 2" by (simp add: starter_plan_def)
  then show ?thesis
    using mission_quota_overshoot [OF u(1), of 3 "[]"] u(2) by simp
qed

end
