(* ===== verification/Ledger.thy ===== *)
theory Ledger
  imports Domain "HOL-Library.Multiset"
begin

section \<open>The runtime evidence ledger\<close>

text \<open>
  \<open>backend/services/runtime_evidence_ledger.py\<close>: facts of the runtime are audit rows whose payload
  holds an envelope with a MAC, and \<open>read_envelope\<close> gives the envelope of a row back when it is
  genuine. \<open>hashlib\<close> and \<open>hmac\<close> are the functions of a \<open>ledger_host\<close> on the JSON
  value whose canonical text they digest; the text sorts the keys of every object, which
  \<open>canonical\<close> does to the value. A column of type JSONB gives a payload back with its keys in another order.

  A reference is the \<open>str()\<close> of a text, a whole number or a boolean, what the producers write. The
  adding of the row to the session (\<open>AuditEventRepository\<close>) is
  not part of this theory.
\<close>

subsection \<open>Canonical values\<close>

lemma size_pair_member: "kv \<in> set kvs \<Longrightarrow> size (snd kv) < Suc (size_list (\<lambda>x. Suc (size (snd x))) kvs)"
  by (induction kvs) auto

function (sequential) canonical :: "json \<Rightarrow> json" where
  "canonical (JArr xs) = JArr (map canonical xs)"
| "canonical (JObj kvs) = JObj (sort_key fst (map (\<lambda>kv. (fst kv, canonical (snd kv))) kvs))"
| "canonical v = v"
  by pat_completeness auto

termination
proof (relation "measure size")
  fix xs :: "json list" and x
  show "x \<in> set xs \<Longrightarrow> (x, JArr xs) \<in> measure size"
    by (induction xs) auto
next
  fix kvs :: "(string \<times> json) list" and kv
  assume "kv \<in> set kvs"
  then show "(snd kv, JObj kvs) \<in> measure size" using size_pair_member [of kv kvs] by (simp add: size_prod_simp)
qed simp

definition canonical_dict :: "dict \<Rightarrow> json" where
  "canonical_dict d = canonical (JObj d)"

subsection \<open>Envelopes\<close>

record ledger_host =
  lh_hmac :: "string \<Rightarrow> json \<Rightarrow> string"
  lh_sha256 :: "json \<Rightarrow> string"
  lh_key_digest :: "string \<Rightarrow> string"

record ledger_settings =
  ls_current_key :: "string option"
  ls_previous_key :: "string option"
  ls_env :: string

record ledger_event = audit_event +
  ae_id :: uuid

record evidence_envelope =
  ev_schema_version :: int
  ev_event_id :: uuid
  ev_event_type :: string
  ev_producer :: string
  ev_occurred_at :: time
  ev_tenant_id :: string
  ev_mission_id :: "uuid option"
  ev_causation_id :: "string option"
  ev_correlation_id :: "string option"
  ev_authority_context :: dict
  ev_subject_references :: "(string \<times> string) list"
  ev_facts :: dict
  ev_evidence_references :: "string list"
  ev_integrity_algorithm :: string
  ev_integrity_key_id :: string
  ev_integrity_sha256 :: string

definition evidence_key :: string where "evidence_key = ''runtime_evidence''"
definition integrity_algorithm :: string where "integrity_algorithm = ''hmac-sha256''"
definition development_key :: string where
  "development_key = ''ajenda-development-runtime-evidence-key-not-for-production''"

definition integrity_key_candidates :: "ledger_settings \<Rightarrow> string list result" where
  "integrity_key_candidates S =
     (let configured = (\<lambda>k. case k of None \<Rightarrow> [] | Some s \<Rightarrow> strip s);
          keys = filter (\<lambda>k. k \<noteq> []) [configured (ls_current_key S), configured (ls_previous_key S)]
      in if keys \<noteq> [] then Inr keys
         else if ls_env S = ''production''
         then Inl (RuntimeError ''runtime evidence requires AJENDA_RUNTIME_SECRET_ENCRYPTION_KEY in production'')
         else Inr [development_key])"

definition integrity_hash :: "ledger_host \<Rightarrow> dict \<Rightarrow> string" where
  "integrity_hash H payload = ''sha256:'' @ lh_sha256 H (canonical_dict payload)"

definition integrity_key_id :: "ledger_host \<Rightarrow> string \<Rightarrow> string" where
  "integrity_key_id H key = ''sha256:'' @ take 24 (lh_key_digest H key)"

definition integrity_mac :: "ledger_host \<Rightarrow> dict \<Rightarrow> string \<Rightarrow> string" where
  "integrity_mac H payload key = ''hmac-sha256:'' @ lh_hmac H key (canonical_dict payload)"

definition reference_names :: "string list" where
  "reference_names =
     [''task_id'', ''lease_id'', ''proposal_id'', ''plan_id'', ''dispatch_id'', ''grant_id'', ''evidence_id'']"

definition string_references :: "dict \<Rightarrow> (string \<times> string) list" where
  "string_references payload =
     List.map_filter (\<lambda>k. case map_of payload k of
         None \<Rightarrow> None | Some JNull \<Rightarrow> None | Some v \<Rightarrow> map_option (Pair k) (key_text v)) reference_names"

text \<open>The arguments of \<open>append_fact\<close>; \<open>fa_occurred_at\<close> is timezone-aware, as \<open>datetime.now(UTC)\<close> is.\<close>

record fact_args =
  fa_event_id :: uuid
  fa_tenant_id :: string
  fa_mission_id :: "uuid option"
  fa_category :: string
  fa_action :: string
  fa_producer :: string
  fa_actor :: string
  fa_details :: string
  fa_facts :: dict
  fa_authority_context :: dict
  fa_causation_id :: "string option"
  fa_correlation_id :: "string option"
  fa_evidence_references :: "string list"
  fa_occurred_at :: time

definition event_type_of :: "string \<Rightarrow> string \<Rightarrow> string" where
  "event_type_of category action = category @ ''.'' @ action"

definition unsigned_envelope :: "ledger_host \<Rightarrow> string \<Rightarrow> fact_args \<Rightarrow> dict" where
  "unsigned_envelope H key a =
     [(''schema_version'', JInt 2), (''event_id'', JStr (fa_event_id a)),
      (''event_type'', JStr (event_type_of (fa_category a) (fa_action a))),
      (''producer'', JStr (fa_producer a)), (''occurred_at'', JStamp (fa_occurred_at a)),
      (''tenant_id'', JStr (fa_tenant_id a)), (''mission_id'', opt_str (fa_mission_id a)),
      (''causation_id'', opt_str (fa_causation_id a)), (''correlation_id'', opt_str (fa_correlation_id a)),
      (''authority_context'', JObj (fa_authority_context a)),
      (''subject_references'', JObj (map (\<lambda>(k, v). (k, JStr v)) (string_references (fa_facts a)))),
      (''facts'', JObj (fa_facts a)), (''evidence_references'', JArr (map JStr (fa_evidence_references a))),
      (''integrity_algorithm'', JStr integrity_algorithm), (''integrity_key_id'', JStr (integrity_key_id H key))]"

definition signed_envelope :: "ledger_host \<Rightarrow> string \<Rightarrow> fact_args \<Rightarrow> dict" where
  "signed_envelope H key a =
     unsigned_envelope H key a @ [(''integrity_sha256'', JStr (integrity_mac H (unsigned_envelope H key a) key))]"

definition append_fact :: "ledger_host \<Rightarrow> string \<Rightarrow> fact_args \<Rightarrow> ledger_event" where
  "append_fact H key a =
     \<lparr>ae_tenant_id = fa_tenant_id a, ae_mission_id = fa_mission_id a, ae_category = fa_category a,
      ae_action = fa_action a, ae_actor = fa_actor a, ae_details = fa_details a,
      ae_payload = AList.update evidence_key (JObj (signed_envelope H key a)) (fa_facts a),
      ae_created_at = fa_occurred_at a, ae_id = fa_event_id a\<rparr>"

subsection \<open>Causal observations\<close>

text \<open>
  \<open>RuntimeCausalObservation\<close>: the constructor checks the declared lengths; None is its
  \<open>ValidationError\<close>.
\<close>

record causal_observation =
  co_schema_version :: int
  co_stage :: string
  co_decision :: string
  co_reason_code :: string
  co_transformation_id :: "string option"
  co_alternatives :: "string list"
  co_selected_path :: "string option"
  co_rejected_paths :: "string list"
  co_source_provenance :: "(string \<times> string) list"
  co_field_lineage :: "(string \<times> string) list"
  co_constraints :: "string list"
  co_safe_metadata :: dict

definition within_length :: "nat \<Rightarrow> nat \<Rightarrow> string \<Rightarrow> bool" where
  "within_length lo hi s \<longleftrightarrow> lo \<le> length s \<and> length s \<le> hi"

definition valid_observation :: "causal_observation \<Rightarrow> bool" where
  "valid_observation c \<longleftrightarrow> within_length 1 120 (co_stage c) \<and> within_length 1 160 (co_decision c) \<and>
     within_length 1 160 (co_reason_code c) \<and>
     (case co_transformation_id c of None \<Rightarrow> True | Some s \<Rightarrow> length s \<le> 160) \<and>
     (case co_selected_path c of None \<Rightarrow> True | Some s \<Rightarrow> length s \<le> 160)"

definition make_observation :: "causal_observation \<Rightarrow> causal_observation result" where
  "make_observation c = (if valid_observation c then Inr c else Inl (ValueError ''RuntimeCausalObservation''))"

definition text_object :: "(string \<times> string) list \<Rightarrow> dict" where
  "text_object refs = map (\<lambda>(k, v). (k, JStr v)) refs"

definition observation_dump :: "causal_observation \<Rightarrow> dict" where
  "observation_dump c =
     (let texts = (\<lambda>ts. JArr (map JStr ts))
      in [(''schema_version'', JInt (co_schema_version c)), (''stage'', JStr (co_stage c)), (''decision'', JStr (co_decision c)),
          (''reason_code'', JStr (co_reason_code c)), (''transformation_id'', opt_str (co_transformation_id c)),
          (''alternatives'', texts (co_alternatives c)), (''selected_path'', opt_str (co_selected_path c)),
          (''rejected_paths'', texts (co_rejected_paths c)),
          (''source_provenance'', JObj (text_object (co_source_provenance c))),
          (''field_lineage'', JObj (text_object (co_field_lineage c))), (''constraints'', texts (co_constraints c)),
          (''safe_metadata'', JObj (co_safe_metadata c))])"

text \<open>\<open>append_causal_observation\<close>, up to the identifier and the instant.\<close>

definition causal_fact ::
  "string \<Rightarrow> uuid option \<Rightarrow> string \<Rightarrow> string \<Rightarrow> causal_observation \<Rightarrow> string option \<Rightarrow> string option \<Rightarrow> string list \<Rightarrow> fact_args" where
  "causal_fact tenant mid producer actor c cause corr refs =
     \<lparr>fa_event_id = [], fa_tenant_id = tenant, fa_mission_id = mid, fa_category = ''runtime_decision'',
      fa_action = co_stage c, fa_producer = producer, fa_actor = actor,
      fa_details = ''Observed '' @ co_decision c @ '' ('' @ co_reason_code c @ '')'',
      fa_facts = [(''causal_observation'', JObj (observation_dump c))],
      fa_authority_context = [(''authority_class'', JStr ''observation''), (''grants_execution_authority'', JBool False)],
      fa_causation_id = cause, fa_correlation_id = corr, fa_evidence_references = refs, fa_occurred_at = 0\<rparr>"

subsection \<open>Reading an envelope\<close>

text \<open>
  \<open>RuntimeEvidenceEnvelope.model_validate\<close>: no other keys, lengths as declared, defaults for what may be
  absent; None is the \<open>ValidationError\<close>, a \<open>ValueError\<close>. Time stamps are the only values that
  read as a datetime here.
\<close>

definition text_field :: "dict \<Rightarrow> string \<Rightarrow> (string \<Rightarrow> bool) \<Rightarrow> string option" where
  "text_field d k ok = (case map_of d k of Some (JStr s) \<Rightarrow> if ok s then Some s else None | _ \<Rightarrow> None)"

definition uuid_field :: "dict \<Rightarrow> string \<Rightarrow> uuid option" where
  "uuid_field d k = (case map_of d k of Some (JStr s) \<Rightarrow> uuid_parse s | _ \<Rightarrow> None)"

definition optional_field :: "(dict \<Rightarrow> string \<Rightarrow> 'a option) \<Rightarrow> dict \<Rightarrow> string \<Rightarrow> 'a option option" where
  "optional_field field d k =
     (case map_of d k of None \<Rightarrow> Some None | Some JNull \<Rightarrow> Some None | Some _ \<Rightarrow> map_option Some (field d k))"

definition dict_field :: "dict \<Rightarrow> string \<Rightarrow> dict option" where
  "dict_field d k = (case map_of d k of None \<Rightarrow> Some [] | v \<Rightarrow> dict_of v)"

definition all_texts :: "json list \<Rightarrow> string list option" where
  "all_texts vs = (if list_all (\<lambda>v. text_of v \<noteq> None) vs then Some (map (\<lambda>v. the (text_of v)) vs) else None)"

definition reference_field :: "dict \<Rightarrow> string \<Rightarrow> (string \<times> string) list option" where
  "reference_field d k =
     (case dict_field d k of None \<Rightarrow> None
      | Some kvs \<Rightarrow> if list_all (\<lambda>kv. text_of (snd kv) \<noteq> None) kvs
                    then Some (map (\<lambda>kv. (fst kv, the (text_of (snd kv)))) kvs) else None)"

definition texts_field :: "dict \<Rightarrow> string \<Rightarrow> string list option" where
  "texts_field d k = (case map_of d k of None \<Rightarrow> Some [] | v \<Rightarrow> (case list_of v of None \<Rightarrow> None | Some vs \<Rightarrow> all_texts vs))"

definition envelope_fields :: "string list" where
  "envelope_fields =
     [''schema_version'', ''event_id'', ''event_type'', ''producer'', ''occurred_at'', ''tenant_id'', ''mission_id'',
      ''causation_id'', ''correlation_id'', ''authority_context'', ''subject_references'', ''facts'',
      ''evidence_references'', ''integrity_algorithm'', ''integrity_key_id'', ''integrity_sha256'']"

definition validate_envelope :: "int \<Rightarrow> dict \<Rightarrow> evidence_envelope option" where
  "validate_envelope version raw =
     (case (if set (map fst raw) \<subseteq> set envelope_fields then uuid_field raw ''event_id'' else None,
            text_field raw ''event_type'' (within_length 3 255), text_field raw ''producer'' (within_length 1 255),
            map_of raw ''occurred_at'', text_field raw ''tenant_id'' (within_length 1 128)) of
        (Some event, Some type, Some producer, Some (JStamp instant), Some tenant) \<Rightarrow>
          (case (optional_field uuid_field raw ''mission_id'',
                 optional_field (\<lambda>d k. text_field d k (within_length 0 255)) raw ''causation_id'',
                 optional_field (\<lambda>d k. text_field d k (within_length 0 255)) raw ''correlation_id'',
                 dict_field raw ''authority_context'', reference_field raw ''subject_references'') of
             (Some mid, Some cause, Some corr, Some authority, Some subjects) \<Rightarrow>
               (case (dict_field raw ''facts'', texts_field raw ''evidence_references'',
                      text_field raw ''integrity_algorithm'' (within_length 1 64),
                      text_field raw ''integrity_key_id'' (within_length 1 80),
                      text_field raw ''integrity_sha256'' (\<lambda>s. True)) of
                  (Some facts, Some refs, Some alg, Some kid, Some mac) \<Rightarrow>
                    Some \<lparr>ev_schema_version = version, ev_event_id = event, ev_event_type = type, ev_producer = producer,
                      ev_occurred_at = instant, ev_tenant_id = tenant, ev_mission_id = mid, ev_causation_id = cause,
                      ev_correlation_id = corr, ev_authority_context = authority, ev_subject_references = subjects,
                      ev_facts = facts, ev_evidence_references = refs, ev_integrity_algorithm = alg,
                      ev_integrity_key_id = kid, ev_integrity_sha256 = mac\<rparr>
                | _ \<Rightarrow> None)
           | _ \<Rightarrow> None)
      | _ \<Rightarrow> None)"

text \<open>\<open>==\<close> of a JSON value and a whole number.\<close>

fun equals_int :: "json option \<Rightarrow> int \<Rightarrow> bool" where
  "equals_int (Some (JInt m)) n = (m = n)"
| "equals_int (Some (JBool b)) n = ((if b then 1 else 0) = n)"
| "equals_int (Some (JFloat r)) n = (r = of_int n)"
| "equals_int _ n = False"

definition unsigned_part :: "dict \<Rightarrow> dict" where
  "unsigned_part raw = filter (\<lambda>(k, v). k \<noteq> ''integrity_sha256'') raw"

definition matches_row :: "ledger_event \<Rightarrow> evidence_envelope \<Rightarrow> bool" where
  "matches_row e env \<longleftrightarrow> ev_event_id env = ae_id e \<and> ev_tenant_id env = ae_tenant_id e \<and>
     ev_mission_id env = ae_mission_id e \<and> ev_event_type env = event_type_of (ae_category e) (ae_action e)"

definition checked_envelope :: "ledger_event \<Rightarrow> int \<Rightarrow> dict \<Rightarrow> evidence_envelope option result" where
  "checked_envelope e version raw =
     (case validate_envelope version raw of
        None \<Rightarrow> Inl (ValueError ''RuntimeEvidenceEnvelope'')
      | Some env \<Rightarrow> Inr (if matches_row e env then Some env else None))"

definition read_envelope :: "ledger_host \<Rightarrow> ledger_settings \<Rightarrow> ledger_event \<Rightarrow> evidence_envelope option result" where
  "read_envelope H S e =
     (case dict_of (map_of (ae_payload e) evidence_key) of
        None \<Rightarrow> Inr None
      | Some raw \<Rightarrow>
          (let unsigned = unsigned_part raw; version = map_of raw ''schema_version''
           in case map_of raw ''integrity_sha256'' of
             Some (JStr integrity) \<Rightarrow>
               if equals_int version 1
               then (if integrity \<noteq> integrity_hash H unsigned then Inr None
                     else checked_envelope e 1 (AList.update ''integrity_key_id'' (JStr ''legacy-v1'')
                            (AList.update ''integrity_algorithm'' (JStr ''sha256'') raw)))
               else if equals_int version 2
               then (if map_of raw ''integrity_algorithm'' \<noteq> Some (JStr integrity_algorithm) then Inr None
                     else (case integrity_key_candidates S of
                         Inl x \<Rightarrow> Inl x
                       | Inr keys \<Rightarrow>
                           if list_ex (\<lambda>key. integrity = integrity_mac H unsigned key) keys
                           then checked_envelope e 2 raw else Inr None))
               else Inr None
           | _ \<Rightarrow> Inr None))"

text \<open>\<open>RuntimeCausalObservation.model_validate\<close>; no text stands for a number.\<close>

fun int_of :: "json \<Rightarrow> int option" where
  "int_of (JInt n) = Some n"
| "int_of (JBool b) = Some (if b then 1 else 0)"
| "int_of (JFloat r) = (if r = of_int \<lfloor>r\<rfloor> then Some \<lfloor>r\<rfloor> else None)"
| "int_of _ = None"

definition observation_fields :: "string list" where
  "observation_fields =
     [''schema_version'', ''stage'', ''decision'', ''reason_code'', ''transformation_id'', ''alternatives'',
      ''selected_path'', ''rejected_paths'', ''source_provenance'', ''field_lineage'', ''constraints'', ''safe_metadata'']"

definition parse_observation :: "dict \<Rightarrow> causal_observation option" where
  "parse_observation raw =
     (let bounded = (\<lambda>d k. text_field d k (within_length 0 160))
      in if \<not> set (map fst raw) \<subseteq> set observation_fields then None
         else case (case map_of raw ''schema_version'' of None \<Rightarrow> Some 1 | Some v \<Rightarrow> int_of v,
                    text_field raw ''stage'' (within_length 1 120), text_field raw ''decision'' (within_length 1 160),
                    text_field raw ''reason_code'' (within_length 1 160),
                    optional_field bounded raw ''transformation_id'', texts_field raw ''alternatives'') of
           (Some version, Some stage, Some decision, Some reason, Some transformation, Some alternatives) \<Rightarrow>
             (case (optional_field bounded raw ''selected_path'', texts_field raw ''rejected_paths'',
                    reference_field raw ''source_provenance'', reference_field raw ''field_lineage'',
                    texts_field raw ''constraints'', dict_field raw ''safe_metadata'') of
                (Some selected, Some rejected, Some provenance, Some lineage, Some constraints, Some safe) \<Rightarrow>
                  Some \<lparr>co_schema_version = version, co_stage = stage, co_decision = decision, co_reason_code = reason,
                    co_transformation_id = transformation, co_alternatives = alternatives, co_selected_path = selected,
                    co_rejected_paths = rejected, co_source_provenance = provenance, co_field_lineage = lineage,
                    co_constraints = constraints, co_safe_metadata = safe\<rparr>
              | _ \<Rightarrow> None)
         | _ \<Rightarrow> None)"

subsection \<open>What a stored payload still says\<close>

function (sequential) unique_keys :: "json \<Rightarrow> bool" where
  "unique_keys (JArr xs) = list_all unique_keys xs"
| "unique_keys (JObj kvs) = (distinct (map fst kvs) \<and> list_all (\<lambda>kv. unique_keys (snd kv)) kvs)"
| "unique_keys v = True"
  by pat_completeness auto

termination
proof (relation "measure size")
  fix xs :: "json list" and x
  show "x \<in> set xs \<Longrightarrow> (x, JArr xs) \<in> measure size"
    by (induction xs) auto
next
  fix kvs :: "(string \<times> json) list" and kv
  assume "kv \<in> set kvs"
  then show "(snd kv, JObj kvs) \<in> measure size" using size_pair_member [of kv kvs] by (simp add: size_prod_simp)
qed simp

text \<open>A JSONB column returns the same value with the keys of its objects in some order.\<close>

definition stored_as :: "dict \<Rightarrow> dict \<Rightarrow> bool" where
  "stored_as d d' \<longleftrightarrow> canonical_dict d' = canonical_dict d \<and> unique_keys (JObj d')"

lemma canonical_scalar [simp]:
  "canonical v = JStr s \<longleftrightarrow> v = JStr s" "canonical v = JInt n \<longleftrightarrow> v = JInt n" "canonical v = JNull \<longleftrightarrow> v = JNull"
  "canonical v = JStamp a \<longleftrightarrow> v = JStamp a" "canonical v = JBool b \<longleftrightarrow> v = JBool b"
  by (cases v; simp)+

lemma canonical_opt_str [simp]: "canonical v = opt_str x \<longleftrightarrow> v = opt_str x" "canonical (opt_str x) = opt_str x"
  by (auto simp: opt_str_def split: option.splits)

lemma canonical_object: "canonical v = canonical (JObj d) \<Longrightarrow> \<exists>d'. v = JObj d' \<and> canonical_dict d' = canonical_dict d"
  by (cases v) (auto simp: canonical_dict_def)

lemma canonical_entries:
  "canonical_dict d' = canonical_dict d \<Longrightarrow>
     mset (map (\<lambda>kv. (fst kv, canonical (snd kv))) d') = mset (map (\<lambda>kv. (fst kv, canonical (snd kv))) d)"
proof -
  let ?f = "map (\<lambda>kv. (fst kv, canonical (snd kv)))"
  assume "canonical_dict d' = canonical_dict d"
  then have "sort_key fst (?f d') = sort_key fst (?f d)" by (simp add: canonical_dict_def)
  then have "mset (sort_key fst (?f d')) = mset (sort_key fst (?f d))" by (rule arg_cong)
  then show ?thesis by (simp only: mset_sort)
qed

lemma canonical_keys: "canonical_dict d' = canonical_dict d \<Longrightarrow> mset (map fst d') = mset (map fst d)"
  by (drule canonical_entries, drule arg_cong [where f = "image_mset fst"]) (simp add: image_mset.compositionality comp_def)

lemma map_of_canonical: "map_of (map (\<lambda>kv. (fst kv, canonical (snd kv))) d) k = map_option canonical (map_of d k)"
  by (induction d) auto

lemma canonical_lookup:
  assumes "canonical_dict d' = canonical_dict d" and "distinct (map fst d')"
  shows "map_option canonical (map_of d' k) = map_option canonical (map_of d k)"
proof -
  let ?f = "map (\<lambda>kv. (fst kv, canonical (snd kv)))"
  have eq: "set (?f d') = set (?f d)" using canonical_entries [OF assms(1)] by (rule mset_eq_setD)
  have "mset (map fst d') = mset (map fst d)" by (rule canonical_keys [OF assms(1)])
  then have "distinct (map fst d)" using assms(2) by (metis distinct_count_atmost_1 set_mset_mset)
  then have "distinct (map fst (?f d))" by (simp add: comp_def)
  moreover have "distinct (map fst (?f d'))" using assms(2) by (simp add: comp_def)
  ultimately have "map_of (?f d') = map_of (?f d)" using eq by (simp add: map_of_inject_set)
  then show ?thesis by (simp add: map_of_canonical [symmetric])
qed

lemma canonical_unsigned:
  assumes "canonical_dict d' = canonical_dict d"
  shows "canonical_dict (unsigned_part d') = canonical_dict (unsigned_part d)"
proof -
  have "canonical_dict (unsigned_part x) =
      JObj (filter (\<lambda>kv. fst kv \<noteq> ''integrity_sha256'') (sort_key fst (map (\<lambda>kv. (fst kv, canonical (snd kv))) x)))" for x
    by (simp add: canonical_dict_def unsigned_part_def filter_sort filter_map comp_def case_prod_unfold)
  then show ?thesis using assms by (simp add: canonical_dict_def)
qed

lemma canonical_texts: "canonical v = JArr (map JStr ts) \<Longrightarrow> v = JArr (map JStr ts)"
proof (cases v)
  case (JArr xs)
  moreover have "map canonical xs = map JStr ts \<Longrightarrow> xs = map JStr ts"
    by (induction xs arbitrary: ts) (auto simp: Cons_eq_map_conv)
  moreover assume "canonical v = JArr (map JStr ts)"
  ultimately show ?thesis by simp
qed simp_all

lemma canonical_text_list: "canonical (JArr (map JStr ts)) = JArr (map JStr ts)"
  by simp

lemma lookup_like:
  assumes "canonical_dict d' = canonical_dict d" and "unique_keys (JObj d')" and "map_of d k = Some v"
  obtains v' where "map_of d' k = Some v'" "canonical v' = canonical v" "unique_keys v'"
proof -
  have "map_option canonical (map_of d' k) = Some (canonical v)"
    using canonical_lookup [OF assms(1), of k] assms(2,3) by simp
  then obtain v' where v': "map_of d' k = Some v'" "canonical v' = canonical v" by auto
  moreover have "unique_keys v'"
    using assms(2) map_of_SomeD [OF v'(1)] by (auto simp: list_all_iff)
  ultimately show ?thesis by (rule that)
qed

lemma text_object_lookup: "map_of (text_object refs) k = map_option JStr (map_of refs k)"
  by (induction refs) (auto simp: text_object_def)

lemma reference_read_back:
  assumes "canonical_dict d' = canonical_dict (text_object refs)" and "unique_keys (JObj d')"
  shows "list_all (\<lambda>kv. text_of (snd kv) \<noteq> None) d' \<and>
    map_of (map (\<lambda>kv. (fst kv, the (text_of (snd kv)))) d') = map_of refs"
proof -
  have dist: "distinct (map fst d')" using assms(2) by simp
  have texts: "\<exists>s. v = JStr s" if "(k, v) \<in> set d'" for k v
  proof -
    have "map_of d' k = Some v" using that dist by simp
    then have "Some (canonical v) = map_option canonical (map_option JStr (map_of refs k))"
      using canonical_lookup [OF assms(1) dist, of k] by (simp add: text_object_lookup)
    then show ?thesis by (cases "map_of refs k") auto
  qed
  have "map_of (map (\<lambda>kv. (fst kv, the (text_of (snd kv)))) d') k = map_of refs k" for k
  proof -
    have "map_of (map (\<lambda>kv. (fst kv, the (text_of (snd kv)))) d') k = map_option (\<lambda>v. the (text_of v)) (map_of d' k)"
      by (induction d') auto
    moreover have "map_option canonical (map_of d' k) = map_option JStr (map_of refs k)"
      using canonical_lookup [OF assms(1) dist, of k] by (simp add: text_object_lookup option.map_comp comp_def)
    ultimately show ?thesis by (cases "map_of d' k"; cases "map_of refs k") auto
  qed
  then show ?thesis using texts by (fastforce simp: list_all_iff)
qed

text \<open>A fact whose envelope the reader's model accepts.\<close>

definition readable_fact :: "fact_args \<Rightarrow> bool" where
  "readable_fact a \<longleftrightarrow> is_uuid (fa_event_id a) \<and> (\<forall>m. fa_mission_id a = Some m \<longrightarrow> is_uuid m) \<and>
     within_length 3 255 (event_type_of (fa_category a) (fa_action a)) \<and> within_length 1 255 (fa_producer a) \<and>
     within_length 1 128 (fa_tenant_id a) \<and>
     (\<forall>c. fa_causation_id a = Some c \<longrightarrow> length c \<le> 255) \<and> (\<forall>c. fa_correlation_id a = Some c \<longrightarrow> length c \<le> 255)"

definition envelope_of :: "evidence_envelope \<Rightarrow> fact_args \<Rightarrow> bool" where
  "envelope_of env a \<longleftrightarrow> ev_event_id env = fa_event_id a \<and> ev_tenant_id env = fa_tenant_id a \<and>
     ev_mission_id env = fa_mission_id a \<and> ev_event_type env = event_type_of (fa_category a) (fa_action a) \<and>
     ev_producer env = fa_producer a \<and> ev_occurred_at env = fa_occurred_at a \<and>
     ev_causation_id env = fa_causation_id a \<and> ev_correlation_id env = fa_correlation_id a \<and>
     ev_evidence_references env = fa_evidence_references a \<and>
     canonical_dict (ev_facts env) = canonical_dict (fa_facts a) \<and>
     canonical_dict (ev_authority_context env) = canonical_dict (fa_authority_context a) \<and>
     map_of (ev_subject_references env) = map_of (string_references (fa_facts a))"

lemma signed_lookup:
  "map_of (signed_envelope H key a) ''schema_version'' = Some (JInt 2)"
  "map_of (signed_envelope H key a) ''event_id'' = Some (JStr (fa_event_id a))"
  "map_of (signed_envelope H key a) ''event_type'' = Some (JStr (event_type_of (fa_category a) (fa_action a)))"
  "map_of (signed_envelope H key a) ''producer'' = Some (JStr (fa_producer a))"
  "map_of (signed_envelope H key a) ''occurred_at'' = Some (JStamp (fa_occurred_at a))"
  "map_of (signed_envelope H key a) ''tenant_id'' = Some (JStr (fa_tenant_id a))"
  "map_of (signed_envelope H key a) ''mission_id'' = Some (opt_str (fa_mission_id a))"
  "map_of (signed_envelope H key a) ''causation_id'' = Some (opt_str (fa_causation_id a))"
  "map_of (signed_envelope H key a) ''correlation_id'' = Some (opt_str (fa_correlation_id a))"
  "map_of (signed_envelope H key a) ''authority_context'' = Some (JObj (fa_authority_context a))"
  "map_of (signed_envelope H key a) ''subject_references'' = Some (JObj (text_object (string_references (fa_facts a))))"
  "map_of (signed_envelope H key a) ''facts'' = Some (JObj (fa_facts a))"
  "map_of (signed_envelope H key a) ''evidence_references'' = Some (JArr (map JStr (fa_evidence_references a)))"
  "map_of (signed_envelope H key a) ''integrity_algorithm'' = Some (JStr integrity_algorithm)"
  "map_of (signed_envelope H key a) ''integrity_key_id'' = Some (JStr (integrity_key_id H key))"
  "map_of (signed_envelope H key a) ''integrity_sha256'' = Some (JStr (integrity_mac H (unsigned_envelope H key a) key))"
  by (simp_all add: signed_envelope_def unsigned_envelope_def text_object_def)

lemma signed_unsigned: "unsigned_part (signed_envelope H key a) = unsigned_envelope H key a"
  by (simp add: signed_envelope_def unsigned_envelope_def unsigned_part_def)

lemma signed_keys: "set (map fst (signed_envelope H key a)) = set envelope_fields"
  by (simp add: signed_envelope_def unsigned_envelope_def envelope_fields_def insert_commute)

lemma validate_signed:
  assumes fact: "readable_fact a" and like: "canonical_dict raw = canonical_dict (signed_envelope H key a)" "unique_keys (JObj raw)"
  shows "\<exists>env. validate_envelope 2 raw = Some env \<and> envelope_of env a"
proof -
  have texts: "map_of raw k = Some (JStr s)" if "map_of (signed_envelope H key a) k = Some (JStr s)" for k s
    using lookup_like [OF like that] by (auto simp del: canonical_scalar simp: canonical_scalar(1))
  have opts: "map_of raw k = Some (opt_str x)" if "map_of (signed_envelope H key a) k = Some (opt_str x)" for k x
    using lookup_like [OF like that] by auto
  have objs: "\<exists>d'. map_of raw k = Some (JObj d') \<and> canonical_dict d' = canonical_dict d \<and> unique_keys (JObj d')"
    if "map_of (signed_envelope H key a) k = Some (JObj d)" for k d
    using lookup_like [OF like that] canonical_object by blast
  have instant: "map_of raw ''occurred_at'' = Some (JStamp (fa_occurred_at a))"
    using lookup_like [OF like signed_lookup(5)] by auto
  have refs: "map_of raw ''evidence_references'' = Some (JArr (map JStr (fa_evidence_references a)))"
  proof -
    obtain v where v: "map_of raw ''evidence_references'' = Some v" "canonical v = canonical (JArr (map JStr (fa_evidence_references a)))"
      by (rule lookup_like [OF like signed_lookup(13)])
    have "v = JArr (map JStr (fa_evidence_references a))"
      by (rule canonical_texts) (simp only: v(2) canonical_text_list)
    then show ?thesis using v(1) by simp
  qed
  obtain auth where auth: "map_of raw ''authority_context'' = Some (JObj auth)"
      "canonical_dict auth = canonical_dict (fa_authority_context a)"
    using objs [OF signed_lookup(10)] by blast
  obtain subj where subj: "map_of raw ''subject_references'' = Some (JObj subj)"
      "canonical_dict subj = canonical_dict (text_object (string_references (fa_facts a)))" "unique_keys (JObj subj)"
    using objs [OF signed_lookup(11)] by blast
  obtain facts where facts: "map_of raw ''facts'' = Some (JObj facts)" "canonical_dict facts = canonical_dict (fa_facts a)"
    using objs [OF signed_lookup(12)] by blast
  have keys: "set (map fst raw) \<subseteq> set envelope_fields"
    using canonical_keys [OF like(1)] signed_keys [of H key a] by (metis set_mset_mset subset_refl)
  have subj_ok: "reference_field raw ''subject_references'' = Some (map (\<lambda>kv. (fst kv, the (text_of (snd kv)))) subj)"
    using reference_read_back [OF subj(2,3)] subj(1) by (simp add: reference_field_def dict_field_def)
  have mid: "optional_field uuid_field raw ''mission_id'' = Some (fa_mission_id a)"
    using opts [OF signed_lookup(7)] fact
    by (cases "fa_mission_id a") (auto simp: optional_field_def uuid_field_def opt_str_def readable_fact_def is_uuid_def)
  have opt: "optional_field (\<lambda>d k. text_field d k (within_length 0 255)) raw k = Some x"
    if "map_of raw k = Some (opt_str x)" "\<forall>c. x = Some c \<longrightarrow> length c \<le> 255" for k x
    using that by (cases x) (auto simp: optional_field_def text_field_def opt_str_def within_length_def)
  note cause = opt [OF opts [OF signed_lookup(8)]] and corr = opt [OF opts [OF signed_lookup(9)]]
  have "length (integrity_key_id H key) \<le> 80" by (simp add: integrity_key_id_def)
  moreover have "1 \<le> length (integrity_key_id H key)" by (simp add: integrity_key_id_def)
  ultimately have kid: "within_length 1 80 (integrity_key_id H key)" by (simp add: within_length_def)
  have alg: "within_length 1 64 integrity_algorithm" by (simp add: within_length_def integrity_algorithm_def)
  have refs_ok: "texts_field raw ''evidence_references'' = Some (fa_evidence_references a)"
    using refs by (simp add: texts_field_def all_texts_def list_all_iff comp_def)
  have "map_of (map (\<lambda>kv. (fst kv, the (text_of (snd kv)))) subj) = map_of (string_references (fa_facts a))"
    using reference_read_back [OF subj(2,3)] by blast
  then show ?thesis
    using fact keys subj_ok mid cause corr kid alg refs_ok auth facts instant
      texts [OF signed_lookup(2)] texts [OF signed_lookup(3)] texts [OF signed_lookup(4)] texts [OF signed_lookup(6)]
      texts [OF signed_lookup(14)] texts [OF signed_lookup(15)] texts [OF signed_lookup(16)]
    by (simp add: validate_envelope_def readable_fact_def text_field_def uuid_field_def is_uuid_def dict_field_def envelope_of_def)
qed

text \<open>
  C30: a recorded fact is read back. Whatever order the database gives the keys of the payload, a fact
  whose envelope fits the declared lengths is read as genuine under every configuration in which the
  signing key is current or previous, and the envelope carries the producer, the time, the causal
  identifiers, the facts, the references and the authority the producer gave.
\<close>

theorem fact_read_back:
  assumes "readable_fact a" and "integrity_key_candidates S = Inr keys" and "key \<in> set keys"
    and "stored_as (ae_payload (append_fact H key a)) p"
  shows "\<exists>env. read_envelope H S ((append_fact H key a)\<lparr>ae_payload := p\<rparr>) = Inr (Some env) \<and> envelope_of env a"
proof -
  let ?e = "(append_fact H key a)\<lparr>ae_payload := p\<rparr>"
  have top: "canonical_dict p = canonical_dict (AList.update evidence_key (JObj (signed_envelope H key a)) (fa_facts a))"
      "unique_keys (JObj p)"
    using assms(4) by (simp_all add: stored_as_def append_fact_def)
  have "map_of (AList.update evidence_key (JObj (signed_envelope H key a)) (fa_facts a)) evidence_key =
      Some (JObj (signed_envelope H key a))" by simp
  from lookup_like [OF top this] obtain v where v: "map_of p evidence_key = Some v"
      "canonical v = canonical (JObj (signed_envelope H key a))" "unique_keys v" .
  from canonical_object [OF v(2)] obtain raw where raw: "v = JObj raw"
      "canonical_dict raw = canonical_dict (signed_envelope H key a)" by blast
  have like: "canonical_dict raw = canonical_dict (signed_envelope H key a)" "unique_keys (JObj raw)"
    using raw v(3) by simp_all
  have mac: "map_of raw ''integrity_sha256'' = Some (JStr (integrity_mac H (unsigned_envelope H key a) key))"
    and ver: "map_of raw ''schema_version'' = Some (JInt 2)" and alg: "map_of raw ''integrity_algorithm'' = Some (JStr integrity_algorithm)"
    using lookup_like [OF like signed_lookup(16)] lookup_like [OF like signed_lookup(1)] lookup_like [OF like signed_lookup(14)]
    by auto
  have "canonical_dict (unsigned_part raw) = canonical_dict (unsigned_envelope H key a)"
    using canonical_unsigned [OF like(1)] by (simp add: signed_unsigned)
  then have same: "integrity_mac H (unsigned_part raw) key = integrity_mac H (unsigned_envelope H key a) key"
    by (simp add: integrity_mac_def)
  obtain env where env: "validate_envelope 2 raw = Some env" "envelope_of env a"
    using validate_signed [OF assms(1) like] by blast
  have "matches_row ?e env"
    using env(2) by (simp add: matches_row_def envelope_of_def append_fact_def)
  moreover have "list_ex (\<lambda>k. integrity_mac H (unsigned_envelope H key a) key = integrity_mac H (unsigned_part raw) k) keys"
    unfolding list_ex_iff using assms(3) same by (intro bexI [of _ key]) simp_all
  ultimately have "read_envelope H S ?e = Inr (Some env)"
    using v(1) raw(1) mac ver alg assms(2) env(1)
    by (simp add: read_envelope_def checked_envelope_def Let_def)
  then show ?thesis using env(2) by blast
qed

text \<open>A fact signed under the configured key, as the database returns it.\<close>

definition plain_hash :: ledger_host where
  "plain_hash = \<lparr>lh_hmac = (\<lambda>k v. k), lh_sha256 = (\<lambda>v. ''0''), lh_key_digest = (\<lambda>k. k)\<rparr>"

definition example_fact :: fact_args where
  "example_fact = \<lparr>fa_event_id = ''00000000-0000-0000-0000-00000000000a'', fa_tenant_id = ''acme'', fa_mission_id = None,
     fa_category = ''execution_task'', fa_action = ''started'', fa_producer = ''worker_runtime'', fa_actor = ''w'',
     fa_details = ''d'', fa_facts = [(''task_id'', JStr ''t''), (''n'', JInt 1)], fa_authority_context = [],
     fa_causation_id = Some ''l'', fa_correlation_id = None, fa_evidence_references = [''e''],
     fa_occurred_at = 7\<rparr>"

definition rotated_settings :: ledger_settings where
  "rotated_settings = \<lparr>ls_current_key = Some ''new'', ls_previous_key = Some '' old '', ls_env = ''production''\<rparr>"

theorem fact_read_back_witness:
  "\<exists>env. read_envelope plain_hash rotated_settings
       ((append_fact plain_hash ''old'' example_fact)\<lparr>ae_payload := rev (ae_payload (append_fact plain_hash ''old'' example_fact))\<rparr>) =
     Inr (Some env) \<and> envelope_of env example_fact"
proof -
  have "readable_fact example_fact"
    by (simp add: readable_fact_def example_fact_def within_length_def event_type_of_def is_uuid_def uuid_parse_def
        is_hex_def hex_lower_def)
  moreover have "integrity_key_candidates rotated_settings = Inr [''new'', ''old'']"
    by (simp add: integrity_key_candidates_def rotated_settings_def strip_def is_space_def Let_def)
  moreover have "stored_as (ae_payload (append_fact plain_hash ''old'' example_fact))
      (rev (ae_payload (append_fact plain_hash ''old'' example_fact)))"
    by code_simp
  ultimately show ?thesis using fact_read_back [of example_fact rotated_settings "[''new'', ''old'']" "''old''" plain_hash] by simp
qed

lemma text_fieldD: "text_field d k ok = Some s \<Longrightarrow> map_of d k = Some (JStr s)"
  by (auto simp: text_field_def split: option.splits json.splits if_splits)

lemma validate_fields:
  assumes "validate_envelope n raw = Some env"
  shows "ev_schema_version env = n \<and>
     map_of raw ''integrity_sha256'' = Some (JStr (ev_integrity_sha256 env)) \<and>
     map_of raw ''integrity_algorithm'' = Some (JStr (ev_integrity_algorithm env)) \<and>
     map_of raw ''integrity_key_id'' = Some (JStr (ev_integrity_key_id env))"
  using assms unfolding validate_envelope_def
  by (auto dest!: text_fieldD split: option.split_asm json.split_asm)

text \<open>
  C29: an envelope that is read is authentic and belongs to its row. The row has the event id, tenant,
  mission and type the envelope names, so an envelope copied to another row is not read; an
  envelope of the current version carries the MAC, under a configured key, of all its other fields; and one of the
  old version is marked with the plain hash it was written with, whatever algorithm its
  payload claims.
\<close>

theorem read_envelope_authentic:
  assumes "read_envelope H S e = Inr (Some env)"
  shows "matches_row e env \<and>
    (\<exists>raw. map_of (ae_payload e) evidence_key = Some (JObj raw) \<and>
      (ev_schema_version env = 2 \<and> ev_integrity_algorithm env = integrity_algorithm \<and>
         (\<exists>keys key. integrity_key_candidates S = Inr keys \<and> key \<in> set keys \<and>
            ev_integrity_sha256 env = integrity_mac H (unsigned_part raw) key) \<or>
       ev_schema_version env = 1 \<and> ev_integrity_algorithm env = ''sha256'' \<and> ev_integrity_key_id env = ''legacy-v1'' \<and>
         ev_integrity_sha256 env = integrity_hash H (unsigned_part raw)))"
proof -
  obtain raw where raw: "map_of (ae_payload e) evidence_key = Some (JObj raw)"
    using assms by (auto simp: read_envelope_def split: option.splits elim: dict_of.elims)
  obtain mac where mac: "map_of raw ''integrity_sha256'' = Some (JStr mac)"
    using assms raw by (auto simp: read_envelope_def Let_def split: option.splits json.splits)
  consider (old) "equals_int (map_of raw ''schema_version'') 1" "mac = integrity_hash H (unsigned_part raw)"
      "checked_envelope e 1 (AList.update ''integrity_key_id'' (JStr ''legacy-v1'')
         (AList.update ''integrity_algorithm'' (JStr ''sha256'') raw)) = Inr (Some env)"
    | (keyed) keys key where "map_of raw ''integrity_algorithm'' = Some (JStr integrity_algorithm)"
      "integrity_key_candidates S = Inr keys" "key \<in> set keys" "mac = integrity_mac H (unsigned_part raw) key"
      "checked_envelope e 2 raw = Inr (Some env)"
    using assms raw mac by (auto simp: read_envelope_def Let_def list_ex_iff split: if_splits sum.splits)
  then show ?thesis
  proof cases
    case old
    let ?raw1 = "AList.update ''integrity_key_id'' (JStr ''legacy-v1'') (AList.update ''integrity_algorithm'' (JStr ''sha256'') raw)"
    have v: "validate_envelope 1 ?raw1 = Some env" and m: "matches_row e env"
      using old(3) by (auto simp: checked_envelope_def split: option.splits if_splits)
    then show ?thesis using raw old(2) validate_fields [OF v] mac by simp
  next
    case keyed
    then have v: "validate_envelope 2 raw = Some env" and m: "matches_row e env"
      by (auto simp: checked_envelope_def split: option.splits if_splits)
    then show ?thesis using raw keyed validate_fields [OF v] mac by auto
  qed
qed

theorem read_envelope_authentic_witness:
  "matches_row (append_fact plain_hash ''new'' example_fact)
     (the (case read_envelope plain_hash rotated_settings (append_fact plain_hash ''new'' example_fact) of
        Inl x \<Rightarrow> None | Inr r \<Rightarrow> r))"
proof -
  have "case read_envelope plain_hash rotated_settings (append_fact plain_hash ''new'' example_fact) of
      Inr (Some _) \<Rightarrow> True | _ \<Rightarrow> False"
    by code_simp
  then obtain env where "read_envelope plain_hash rotated_settings (append_fact plain_hash ''new'' example_fact) = Inr (Some env)"
    by (auto split: sum.splits option.splits)
  then show ?thesis using read_envelope_authentic by fastforce
qed

subsection \<open>The lineage of a mission's meaning\<close>

text \<open>\<open>semantic_lineage_from_mission_metadata\<close>: digests of what the mission was to be about.\<close>

definition inner_dict :: "dict \<Rightarrow> string \<Rightarrow> dict" where
  "inner_dict d k = (case dict_of (map_of d k) of None \<Rightarrow> [] | Some kvs \<Rightarrow> kvs)"

definition value_at :: "dict \<Rightarrow> string \<Rightarrow> json" where
  "value_at d k = (case map_of d k of None \<Rightarrow> JNull | Some v \<Rightarrow> v)"

definition semantic_lineage :: "ledger_host \<Rightarrow> dict \<Rightarrow> (string \<times> string) list" where
  "semantic_lineage H metadata =
     (let intake = inner_dict metadata ''mission_intake'';
          composition = inner_dict (inner_dict intake ''context'') ''composition'';
          intent = inner_dict composition ''intent'';
          assessment = inner_dict (inner_dict composition ''semantic_snapshot'') ''business_need_assessment_reference'';
          objective = value_at intent ''objective'';
          values =
            [(''instruction'', value_at composition ''instruction''),
             (''objective'', if truthy objective then objective else value_at composition ''objective''),
             (''target_entities'', value_at intent ''target_entities''),
             (''requested_outcomes'', value_at intent ''requested_outcomes''),
             (''constraints'', value_at intake ''constraints''),
             (''success_criteria'', value_at intake ''success_criteria'')] @
            (case dict_of (map_of assessment ''response_advancement'') of
               None \<Rightarrow> [] | Some advancement \<Rightarrow> [(''response_advancement'', JObj advancement)])
      in map (\<lambda>(k, v). (k, integrity_hash H [(k, v)]))
           (filter (\<lambda>(k, v). v \<notin> {JNull, JArr [], JObj [], JStr []}) values))"

end
