(* ===== verification/TaskGraph.thy ===== *)
theory TaskGraph
  imports Dispatch Ledger
begin

section \<open>The task graph of a mission\<close>

text \<open>
  \<open>backend/services/worker_runtime_rollup.py\<close>, the dependency part of
  \<open>services/tools/mission_input_binding.py\<close> and the reads of
  \<open>repositories/mission_repository.py\<close> that change a mission: which tasks wait for which,
  what a finished task releases or blocks, and what the mission becomes.

  A mission's tasks are the rows of the session, in their order. A node key that reads as a date is not
  told from other texts in the code and does not occur here; \<open>str()\<close> of a key is taken of
  texts, whole numbers, booleans and None, and no other value names a node.

  What the acceptance contract finds missing (\<open>services/mission_acceptance.py\<close>), what the
  artifact algorithm reports of it and what the deliverable read model makes of the mission's
  metadata are functions of a \<open>runtime_host\<close>.
\<close>

subsection \<open>Nodes and dependencies\<close>

definition stripped_text :: "json option \<Rightarrow> string option" where
  "stripped_text v =
     (case v of Some (JStr raw) \<Rightarrow> if strip raw = [] then None else Some (strip raw) | _ \<Rightarrow> None)"

definition graph_node_key_for_task :: "execution_task \<Rightarrow> string option" where
  "graph_node_key_for_task task =
     (case stripped_text (map_of (t_metadata task) ''graph_node_key'') of
        Some k \<Rightarrow> Some k
      | None \<Rightarrow>
          (case dict_of (map_of (t_metadata task) ''materialization_selection_reference'') of
             None \<Rightarrow> None
           | Some selection \<Rightarrow> stripped_text (map_of selection ''node_key'')))"

definition dependency_keys_for_task :: "execution_task \<Rightarrow> string list" where
  "dependency_keys_for_task task =
     (case list_of (map_of (t_metadata task) ''dependency_keys'') of
        None \<Rightarrow> []
      | Some raw \<Rightarrow> filter (\<lambda>k. k \<noteq> []) (map strip (List.map_filter text_of raw)))"

definition handler_output_for_task :: "execution_task \<Rightarrow> dict" where
  "handler_output_for_task task =
     (let md = t_metadata task;
          projected = (case dict_of (map_of md ''output'') of
             None \<Rightarrow> []
           | Some nested \<Rightarrow>
               if map_of nested ''handler'' = None \<and> map_of nested ''schema_version'' = None then nested
               else (case dict_of (map_of nested ''output'') of Some inner \<Rightarrow> inner | None \<Rightarrow> []))
      in case dict_of (map_of md ''handler_result'') of
           None \<Rightarrow> projected
         | Some handler_result \<Rightarrow>
             (case dict_of (map_of handler_result ''output'') of Some nested \<Rightarrow> nested | None \<Rightarrow> projected))"

definition node_rank :: "execution_task \<Rightarrow> nat \<times> nat \<times> nat" where
  "node_rank task =
     (let out = handler_output_for_task task
      in (if t_status task = TCompleted then 1 else 0, if out = [] then 0 else 1, length out))"

text \<open>The index prefers the completed task with the larger output, and of equals the earlier one.\<close>

fun index_tasks :: "(string \<times> execution_task) list \<Rightarrow> execution_task list \<Rightarrow> (string \<times> execution_task) list" where
  "index_tasks indexed [] = indexed"
| "index_tasks indexed (task # tasks) =
     (case graph_node_key_for_task task of
        None \<Rightarrow> index_tasks indexed tasks
      | Some k \<Rightarrow>
          (case map_of indexed k of
             None \<Rightarrow> index_tasks (AList.update k task indexed) tasks
           | Some existing \<Rightarrow>
               if node_rank task > node_rank existing
               then index_tasks (AList.update k task indexed) tasks
               else index_tasks indexed tasks))"

definition index_mission_tasks_by_node_key :: "execution_task list \<Rightarrow> (string \<times> execution_task) list" where
  "index_mission_tasks_by_node_key tasks = index_tasks [] tasks"

definition pending_dependency_keys :: "execution_task \<Rightarrow> execution_task list \<Rightarrow> string list" where
  "pending_dependency_keys task mission_tasks =
     filter (\<lambda>k. case map_of (index_mission_tasks_by_node_key mission_tasks) k of
               None \<Rightarrow> True | Some upstream \<Rightarrow> t_status upstream \<noteq> TCompleted)
       (dependency_keys_for_task task)"

subsection \<open>Missions\<close>

definition find_mission :: "uuid \<Rightarrow> db \<Rightarrow> mission option" where
  "find_mission i d = find_row m_id i (db_missions d)"

definition list_for_mission :: "uuid \<Rightarrow> db \<Rightarrow> execution_task list" where
  "list_for_mission i d = filter (\<lambda>task. t_mission_id task = Some i) (db_tasks d)"

definition list_for_mission_for_tenant :: "uuid \<Rightarrow> string \<Rightarrow> db \<Rightarrow> execution_task list" where
  "list_for_mission_for_tenant i tenant d =
     sort_key (\<lambda>task. (t_created_at task, t_id task))
       (filter (\<lambda>task. t_mission_id task = Some i \<and> t_tenant_id task = tenant) (db_tasks d))"

text \<open>\<open>_reconcile_review_holds\<close> of one mission: it is paused when only reviews are left.\<close>

definition reconcile_review_hold :: "time \<Rightarrow> string \<Rightarrow> mission \<Rightarrow> db \<Rightarrow> mission" where
  "reconcile_review_hold now tenant m d =
     (if m_status m \<noteq> MRunning then m
      else let states = map t_status (filter (\<lambda>task. t_tenant_id task = tenant \<and> t_mission_id task = Some (m_id m)) (db_tasks d));
               pending_review = length (filter (\<lambda>st. st = TPendingReview) states);
               active = length (filter (\<lambda>st. st \<in> {TPlanned, TQueued, TClaimed, TRunning, TRecovering}) states)
           in if pending_review = 0 \<or> active > 0 then m
              else m\<lparr>m_status := MPaused,
                     m_metadata := AList.update ''runtime_reconciliation''
                       (JObj [(''schema_version'', JInt 1), (''reason'', JStr ''review_hold_without_active_tasks''),
                              (''previous_status'', JStr (mission_value MRunning)),
                              (''pending_review_task_count'', JInt (int pending_review)), (''reconciled_at'', JStamp now)])
                       (m_metadata m)\<rparr>)"

definition get_mission_for_tenant :: "uuid \<Rightarrow> string \<Rightarrow> 'q world \<Rightarrow> mission option \<times> 'q world" where
  "get_mission_for_tenant i tenant w =
     (case find_mission i (w_db w) of
        None \<Rightarrow> (None, w)
      | Some m \<Rightarrow>
          if m_tenant_id m \<noteq> tenant then (None, w)
          else let m1 = reconcile_review_hold (w_clock w) tenant m (w_db w)
               in (Some m1, map_db (save_mission m1) w))"

subsection \<open>The runtime's other parts\<close>

record runtime_host =
  rh_clarification :: "dict \<Rightarrow> bool"
  rh_artifact_errors :: "string \<Rightarrow> json \<Rightarrow> string list option"
  rh_proven_empty :: "string \<Rightarrow> json \<Rightarrow> dict \<Rightarrow> bool"
  rh_evidence_rows :: "execution_task \<Rightarrow> worker_lease \<Rightarrow> dict \<Rightarrow> uuid \<Rightarrow> dict list result"
  rh_acceptance_reasons :: "mission \<Rightarrow> execution_task list \<Rightarrow> string list result"
  rh_artifact_completeness :: "execution_task list \<Rightarrow> string list \<Rightarrow> json"
  rh_deliverable_state :: "dict \<Rightarrow> execution_task list \<Rightarrow> dict option"
  rh_ledger :: ledger_host
  rh_ledger_key :: string

definition audit :: "string \<Rightarrow> uuid option \<Rightarrow> string \<Rightarrow> string \<Rightarrow> string \<Rightarrow> string \<Rightarrow> dict \<Rightarrow> 'q world \<Rightarrow> 'q world" where
  "audit tenant mid category action actor details payload w =
     map_db (add_audit \<lparr>ae_tenant_id = tenant, ae_mission_id = mid, ae_category = category, ae_action = action,
       ae_actor = actor, ae_details = details, ae_payload = payload, ae_created_at = w_clock w\<rparr>) w"

text \<open>\<open>RuntimeEvidenceLedger.append_fact\<close> in the session: the row draws its identifier.\<close>

definition record_fact :: "runtime_host \<Rightarrow> fact_args \<Rightarrow> 'q world \<Rightarrow> 'q world" where
  "record_fact K a w =
     map_db (add_audit (audit_event.truncate (append_fact (rh_ledger K) (rh_ledger_key K)
         (a\<lparr>fa_event_id := w_ids w (w_next_id w), fa_occurred_at := w_clock w\<rparr>))))
       (w\<lparr>w_next_id := w_next_id w + 1\<rparr>)"

definition terminal_task :: "task_state \<Rightarrow> bool" where
  "terminal_task st \<longleftrightarrow> st \<in> {TCompleted, TFailed, TCancelled, TDeadLettered, TBlocked}"

definition terminal_mission :: "mission_state \<Rightarrow> bool" where
  "terminal_mission st \<longleftrightarrow> st \<in> {MCompleted, MFailed, MCancelled, MArchived}"

definition failedish :: "task_state \<Rightarrow> bool" where
  "failedish st \<longleftrightarrow> st \<in> {TFailed, TDeadLettered, TBlocked}"

definition refresh_deliverable :: "runtime_host \<Rightarrow> execution_task \<Rightarrow> 'q world \<Rightarrow> 'q world" where
  "refresh_deliverable K task w =
     (case t_mission_id task of
        None \<Rightarrow> w
      | Some i \<Rightarrow>
          (case get_mission_for_tenant i (t_tenant_id task) w of
             (None, w1) \<Rightarrow> w1
           | (Some m, w1) \<Rightarrow>
               (case rh_deliverable_state K (m_metadata m) (list_for_mission i (w_db w1)) of
                  None \<Rightarrow> w1
                | Some md \<Rightarrow> map_db (save_mission (m\<lparr>m_metadata := md\<rparr>)) w1)))"

subsection \<open>What a finished task changes\<close>

definition raw_node_key :: "execution_task \<Rightarrow> string option" where
  "raw_node_key task = (case map_of (t_metadata task) ''graph_node_key'' of Some v \<Rightarrow> text_of v | None \<Rightarrow> None)"

text \<open>\<open>node_tasks\<close>: the last task with the key.\<close>

definition node_task :: "execution_task list \<Rightarrow> string \<Rightarrow> execution_task option" where
  "node_task siblings k = find (\<lambda>task. raw_node_key task = Some k) (rev siblings)"

definition dependencies_completed :: "execution_task list \<Rightarrow> json list \<Rightarrow> bool" where
  "dependencies_completed siblings dependencies \<longleftrightarrow>
     dependencies \<noteq> [] \<and>
     list_all (\<lambda>v. case key_text v of None \<Rightarrow> False
        | Some k \<Rightarrow> (case node_task siblings k of None \<Rightarrow> False | Some d \<Rightarrow> t_status d = TCompleted)) dependencies"

definition key_texts :: "json list \<Rightarrow> json" where
  "key_texts vs = JArr (map JStr (List.map_filter key_text vs))"

definition last_20 :: "'a list \<Rightarrow> 'a list" where
  "last_20 xs = drop (length xs - 20) xs"

definition recoverable :: "execution_task list \<Rightarrow> execution_task \<Rightarrow> bool" where
  "recoverable siblings dep \<longleftrightarrow>
     t_status dep = TBlocked \<and>
     (case (list_of (map_of (t_metadata dep) ''blocked_by_dependency_failure''),
            list_of (map_of (t_metadata dep) ''dependency_keys''), dict_of (map_of (t_metadata dep) ''failure'')) of
        (Some blocked_by, Some dependencies, Some failure) \<Rightarrow>
          blocked_by \<noteq> [] \<and> map_of failure ''code'' = Some (JStr ''DEPENDENCY_FAILED'') \<and>
          dependencies_completed siblings dependencies
      | _ \<Rightarrow> False)"

definition recovered_metadata :: "time \<Rightarrow> dict \<Rightarrow> dict" where
  "recovered_metadata now md =
     (let entry = JObj [(''blocked_by_dependency_failure'',
                key_texts (case list_of (map_of md ''blocked_by_dependency_failure'') of Some vs \<Rightarrow> vs | None \<Rightarrow> [])),
              (''failure'', case map_of md ''failure'' of Some f \<Rightarrow> f | None \<Rightarrow> JNull), (''recovered_at'', JStamp now)];
          history = (case list_of (map_of md ''dependency_block_history'') of Some h \<Rightarrow> h | None \<Rightarrow> []) @ [entry]
      in AList.update ''dependency_block_history'' (JArr (last_20 history))
           (AList.delete ''failure'' (AList.delete ''blocked_by_dependency_failure'' md)))"

text \<open>The first loop: tasks blocked for a dependency that has completed since are queued again.\<close>

fun recover_dependents ::
  "uuid list \<Rightarrow> uuid \<Rightarrow> string \<Rightarrow> 'q world \<Rightarrow> unit result \<times> 'q world" where
  "recover_dependents [] i wk w = (Inr (), w)"
| "recover_dependents (k # ks) i wk w =
     (case find_task k (w_db w) of
        None \<Rightarrow> recover_dependents ks i wk w
      | Some dep \<Rightarrow>
          if \<not> recoverable (list_for_mission i (w_db w)) dep then recover_dependents ks i wk w
          else (case transition_task dep TQueued of
              Inl e \<Rightarrow> (Inl e, w)
            | Inr dep1 \<Rightarrow>
                let dep2 = dep1\<lparr>t_metadata := recovered_metadata (w_clock w) (t_metadata dep)\<rparr>
                in case retry_dispatch dep2 (map_db (save_task dep2) w) of
                     (Inl e, w1) \<Rightarrow> (Inl e, w1)
                   | (Inr _, w1) \<Rightarrow>
                       recover_dependents ks i wk
                         (audit (t_tenant_id dep) (t_mission_id dep) ''execution_task'' ''dependency_recovered'' wk
                           (''Task '' @ k @ '' re-admitted after all recorded dependencies completed.'')
                           [(''task_id'', JStr k),
                            (''dependency_keys'', key_texts (the (list_of (map_of (t_metadata dep) ''dependency_keys''))))] w1)))"

definition redispatchable :: "execution_task list \<Rightarrow> execution_task \<Rightarrow> bool" where
  "redispatchable siblings dep \<longleftrightarrow>
     t_status dep = TQueued \<and>
     (case (dict_of (map_of (t_metadata dep) ''dependency_deferral''), list_of (map_of (t_metadata dep) ''dependency_keys'')) of
        (Some _, Some dependencies) \<Rightarrow> dependencies_completed siblings dependencies
      | _ \<Rightarrow> False)"

text \<open>The second loop: tasks deferred until now are dispatched again.\<close>

fun redispatch_dependents ::
  "uuid list \<Rightarrow> uuid \<Rightarrow> string \<Rightarrow> 'q world \<Rightarrow> unit result \<times> 'q world" where
  "redispatch_dependents [] i wk w = (Inr (), w)"
| "redispatch_dependents (k # ks) i wk w =
     (case find_task k (w_db w) of
        None \<Rightarrow> redispatch_dependents ks i wk w
      | Some dep \<Rightarrow>
          if \<not> redispatchable (list_for_mission i (w_db w)) dep then redispatch_dependents ks i wk w
          else let dep1 = dep\<lparr>t_metadata := AList.update ''dependency_redispatched_at'' (JStamp (w_clock w))
                 (AList.delete ''dependency_deferral'' (t_metadata dep))\<rparr>
               in case retry_dispatch dep1 (map_db (save_task dep1) w) of
                    (Inl e, w1) \<Rightarrow> (Inl e, w1)
                  | (Inr _, w1) \<Rightarrow>
                      redispatch_dependents ks i wk
                        (audit (t_tenant_id dep) (t_mission_id dep) ''execution_task'' ''dependency_redispatched'' wk
                          (''Task '' @ k @ '' re-dispatched after all dependencies completed.'')
                          [(''task_id'', JStr k),
                           (''dependency_keys'', key_texts (the (list_of (map_of (t_metadata dep) ''dependency_keys''))))] w1))"

definition failed_node_keys :: "execution_task list \<Rightarrow> string set" where
  "failed_node_keys siblings =
     set (List.map_filter (\<lambda>task. if failedish (t_status task) then raw_node_key task else None) siblings)"

definition failed_dependencies :: "string set \<Rightarrow> execution_task \<Rightarrow> string list" where
  "failed_dependencies failed dep =
     (case list_of (map_of (t_metadata dep) ''dependency_keys'') of
        None \<Rightarrow> []
      | Some deps \<Rightarrow> filter (\<lambda>k. k \<in> failed) (List.map_filter key_text deps))"

definition blocks :: "string set \<Rightarrow> execution_task \<Rightarrow> bool" where
  "blocks failed dep \<longleftrightarrow> t_status dep \<in> {TPlanned, TQueued, TClaimed} \<and> failed_dependencies failed dep \<noteq> []"

definition block_dependent :: "string set \<Rightarrow> execution_task \<Rightarrow> execution_task" where
  "block_dependent failed dep =
     (if blocks failed dep
      then dep\<lparr>t_status := TBlocked,
             t_metadata := AList.update ''failure'' (JObj [(''code'', JStr ''DEPENDENCY_FAILED''), (''retryable'', JBool False)])
               (AList.update ''blocked_by_dependency_failure''
                  (JArr (map JStr (sort (remdups (failed_dependencies failed dep))))) (t_metadata dep))\<rparr>
      else dep)"

text \<open>
  The third loop. Each of its transitions is legal, so it is a map over the rows: \<open>blocked\<close> can be
  reached from the three states it starts in.
\<close>

definition block_dependents :: "uuid \<Rightarrow> db \<Rightarrow> db" where
  "block_dependents i d =
     (let failed = failed_node_keys (list_for_mission i d)
      in d\<lparr>db_tasks := map (\<lambda>task. if t_mission_id task = Some i then block_dependent failed task else task) (db_tasks d)\<rparr>)"

definition any_blocked :: "uuid \<Rightarrow> db \<Rightarrow> bool" where
  "any_blocked i d \<longleftrightarrow> list_ex (blocks (failed_node_keys (list_for_mission i d))) (list_for_mission i d)"

subsection \<open>What the mission becomes\<close>

definition sub_dict :: "dict option \<Rightarrow> string \<Rightarrow> dict option" where
  "sub_dict d k = (case d of None \<Rightarrow> None | Some kvs \<Rightarrow> dict_of (map_of kvs k))"

definition mission_composition_of :: "mission \<Rightarrow> dict option" where
  "mission_composition_of m =
     sub_dict (sub_dict (sub_dict (Some (m_metadata m)) ''mission_intake'') ''context'') ''composition''"

definition mission_acceptance_contract :: "mission \<Rightarrow> dict" where
  "mission_acceptance_contract m =
     (case sub_dict (mission_composition_of m) ''acceptance_contract'' of None \<Rightarrow> [] | Some c \<Rightarrow> c)"

definition deliverable_incomplete :: "mission \<Rightarrow> bool" where
  "deliverable_incomplete m \<longleftrightarrow>
     (case sub_dict (mission_composition_of m) ''deliverable_runtime_state'' of
        None \<Rightarrow> False
      | Some st \<Rightarrow> \<not> (case dict_of (map_of st ''completion'') of None \<Rightarrow> False
                       | Some c \<Rightarrow> map_of c ''complete'' = Some (JBool True)))"

text \<open>\<open>list_for_mission\<close> order: the last sibling that reports a status wins.\<close>

definition business_outcome_status :: "execution_task list \<Rightarrow> json" where
  "business_outcome_status siblings =
     fold (\<lambda>task acc.
       case dict_of (map_of (t_metadata task) ''handler_result'') of None \<Rightarrow> acc
       | Some result \<Rightarrow> (case dict_of (map_of result ''output'') of None \<Rightarrow> acc
         | Some output \<Rightarrow> (case dict_of (map_of output ''goal_progress_evaluation'') of None \<Rightarrow> acc
           | Some evaluation \<Rightarrow> (case map_of evaluation ''status'' of Some (JStr st) \<Rightarrow> JStr st | _ \<Rightarrow> acc)))) siblings JNull"

definition acceptance_record :: "runtime_host \<Rightarrow> time \<Rightarrow> execution_task list \<Rightarrow> string list \<Rightarrow> json" where
  "acceptance_record K now siblings reasons =
     JObj [(''status'', JStr (if reasons = [] then ''met'' else ''partially_met'')),
           (''scope'', JStr ''runtime_execution_and_deliverable''),
           (''business_outcome_status'', business_outcome_status siblings),
           (''reasons'', JArr (map JStr reasons)), (''evaluated_at'', JStamp now),
           (''task_count'', JInt (int (length siblings))),
           (''algorithm_results'', JArr [rh_artifact_completeness K siblings reasons])]"

fun joined :: "string list \<Rightarrow> string" where
  "joined [] = []"
| "joined [x] = x"
| "joined (x # y # xs) = x @ ''; '' @ joined (y # xs)"

definition runs_from :: "mission_state \<Rightarrow> bool" where
  "runs_from st \<longleftrightarrow> st \<in> {MPlanned, MApproved, MQueued, MPaused}"

definition acceptance_observation :: "execution_task list \<Rightarrow> string list \<Rightarrow> causal_observation" where
  "acceptance_observation siblings reasons =
     (let status = (if reasons = [] then ''met'' else ''partially_met'')
      in \<lparr>co_schema_version = 1, co_stage = ''deliverable_acceptance'', co_decision = ''mission_acceptance_evaluated'',
          co_reason_code = ''acceptance_contract_and_runtime_evidence'',
          co_transformation_id = Some ''mission-acceptance:runtime-rollup:v1'', co_alternatives = [],
          co_selected_path = Some status, co_rejected_paths = reasons, co_source_provenance = [],
          co_field_lineage = [(''acceptance.contract'', ''mission.metadata.acceptance_contract''),
            (''acceptance.reasons'', ''terminal_tasks_and_deliverable_runtime_state'')],
          co_constraints = [''terminal_task_graph'', ''declared_deliverable_contract''],
          co_safe_metadata = [(''status'', JStr status), (''task_count'', JInt (int (length siblings))),
            (''failed_task_count'', JInt (int (length (filter (\<lambda>x. failedish (t_status x)) siblings)))),
            (''reason_count'', JInt (int (length reasons)))]\<rparr>)"

text \<open>
  The block under \<open>try\<close>, for a mission that is not terminal; an \<open>InvalidTransitionError\<close> is
  swallowed there and leaves what was already written.
\<close>

definition roll_mission ::
  "runtime_host \<Rightarrow> execution_task \<Rightarrow> string \<Rightarrow> mission \<Rightarrow> 'q world \<Rightarrow> unit result \<times> 'q world" where
  "roll_mission K task wk m w =
     (let i = m_id m; siblings = list_for_mission i (w_db w);
          open_tasks = filter (\<lambda>x. \<not> terminal_task (t_status x)) siblings
      in if open_tasks \<noteq> []
         then (if runs_from (m_status m)
               then (case transition_mission m MRunning of
                   Inl e \<Rightarrow> (Inr (), w)
                 | Inr m1 \<Rightarrow>
                     (Inr (), audit (t_tenant_id task) (t_mission_id task) ''mission'' ''mission_running'' wk
                        (''Mission '' @ i @ '' marked running after task '' @ t_id task)
                        [(''task_id'', JStr (t_id task)), (''open_tasks'', JInt (int (length open_tasks)))]
                        (map_db (save_mission m1) w)))
               else (Inr (), w))
         else (case rh_acceptance_reasons K m siblings of
             Inl e \<Rightarrow> (if (case e of InvalidTransition _ _ _ _ \<Rightarrow> True | _ \<Rightarrow> False) then Inr () else Inl e, w)
           | Inr contract_reasons \<Rightarrow>
               (let any_failed = list_ex (\<lambda>x. failedish (t_status x)) siblings;
                    reasons = contract_reasons @ (if any_failed then [''one or more runtime tasks failed''] else []) @
                      (if deliverable_incomplete m then [''durable deliverable is incomplete''] else []);
                    m1 = m\<lparr>m_metadata := AList.update ''acceptance'' (acceptance_record K (w_clock w) siblings reasons) (m_metadata m)\<rparr>;
                    w0 = record_fact K (causal_fact (t_tenant_id task) (t_mission_id task) ''worker_runtime_rollup'' wk
                           (acceptance_observation siblings reasons) (Some (t_id task)) (Some i) []) w;
                    w1 = map_db (save_mission m1) w0;
                    w2 = (if reasons = [] then w1
                          else audit (t_tenant_id task) (t_mission_id task) ''mission'' ''mission_acceptance_unmet'' wk
                                 (joined reasons)
                                 [(''status'', JStr ''partially_met''), (''reasons'', JArr (map JStr reasons)),
                                  (''contract'', JObj (mission_acceptance_contract m))] w1);
                    target = (if any_failed \<or> reasons \<noteq> [] then MFailed else MCompleted);
                    hop = (if runs_from (m_status m1) then transition_mission m1 MRunning else Inr m1)
                in case hop of
                     Inl e \<Rightarrow> (Inr (), w2)
                   | Inr m2 \<Rightarrow>
                       (case transition_mission m2 target of
                          Inl e \<Rightarrow> (Inr (), map_db (save_mission m2) w2)
                        | Inr m3 \<Rightarrow>
                            (Inr (), audit (t_tenant_id task) (t_mission_id task) ''mission''
                               (if target = MCompleted then ''mission_completed'' else ''mission_failed'') wk
                               (''Mission '' @ i @ '' rolled up to '' @ mission_value target @ '' after graph terminalization'')
                               [(''task_id'', JStr (t_id task)), (''task_count'', JInt (int (length siblings))),
                                (''mission_status'', JStr (mission_value target)),
                                (''acceptance_status'', JStr (if reasons = [] then ''met'' else ''partially_met''))]
                               (map_db (save_mission m3) w2))))))"

text \<open>
  \<open>maybe_rollup_mission_status\<close>. Its recursion has no bound of its own; the first argument is the depth the
  interpreter's stack has left, and using it up is its \<open>RecursionError\<close>.
\<close>

definition recursion_error :: exn where
  "recursion_error = RuntimeError ''maximum recursion depth exceeded''"

fun rollup_mission ::
  "nat \<Rightarrow> runtime_host \<Rightarrow> execution_task \<Rightarrow> string \<Rightarrow> 'q world \<Rightarrow> unit result \<times> 'q world" where
  "rollup_mission 0 K task wk w = (Inl recursion_error, w)"
| "rollup_mission (Suc n) K task wk w =
     (case t_mission_id task of
        None \<Rightarrow> (Inr (), w)
      | Some i \<Rightarrow>
          (case get_mission_for_tenant i (t_tenant_id task) w of
             (None, w1) \<Rightarrow> (Inr (), w1)
           | (Some m, w1) \<Rightarrow>
               if terminal_mission (m_status m) then (Inr (), w1)
               else let ids = map t_id (list_for_mission i (w_db w1))
                    in if ids = [] then (Inr (), w1)
                       else (case recover_dependents ids i wk w1 of
                           (Inl e, w2) \<Rightarrow> (Inl e, w2)
                         | (Inr _, w2) \<Rightarrow>
                             (case redispatch_dependents ids i wk w2 of
                                (Inl e, w3) \<Rightarrow> (Inl e, w3)
                              | (Inr _, w3) \<Rightarrow>
                                  if any_blocked i (w_db w3)
                                  then rollup_mission n K task wk (map_db (block_dependents i) w3)
                                  else roll_mission K task wk m w3))))"

subsection \<open>The loops keep the graph\<close>

text \<open>What no loop changes of a task, and when two tasks are both completed or neither is.\<close>

definition same_node :: "execution_task \<Rightarrow> execution_task \<Rightarrow> bool" where
  "same_node x y \<longleftrightarrow> t_id y = t_id x \<and> t_mission_id y = t_mission_id x \<and> t_tenant_id y = t_tenant_id x \<and>
     map_of (t_metadata y) ''graph_node_key'' = map_of (t_metadata x) ''graph_node_key'' \<and>
     map_of (t_metadata y) ''dependency_keys'' = map_of (t_metadata x) ''dependency_keys'' \<and>
     (t_status y = TCompleted \<longleftrightarrow> t_status x = TCompleted)"

definition same_graph :: "execution_task list \<Rightarrow> execution_task list \<Rightarrow> bool" where
  "same_graph xs ys \<longleftrightarrow> list_all2 same_node xs ys"

lemma same_node_refl [simp]: "same_node x x"
  by (simp add: same_node_def)

lemma same_graph_refl [simp]: "same_graph xs xs"
  by (simp add: same_graph_def list_all2_refl)

lemma same_node_key: "same_node x y \<Longrightarrow> raw_node_key y = raw_node_key x"
  by (simp add: same_node_def raw_node_key_def)

lemma find_all2:
  "list_all2 R xs ys \<Longrightarrow> (\<And>x y. R x y \<Longrightarrow> P y = P x) \<Longrightarrow> rel_option R (find P xs) (find P ys)"
  by (induction rule: list_all2_induct) auto

lemma node_task_same: "same_graph xs ys \<Longrightarrow> rel_option same_node (node_task xs k) (node_task ys k)"
  unfolding node_task_def same_graph_def by (rule find_all2) (simp_all add: same_node_key)

lemma dependencies_same:
  assumes "same_graph xs ys"
  shows "dependencies_completed ys deps = dependencies_completed xs deps"
proof -
  have "(case node_task ys k of None \<Rightarrow> False | Some d \<Rightarrow> t_status d = TCompleted) =
      (case node_task xs k of None \<Rightarrow> False | Some d \<Rightarrow> t_status d = TCompleted)" for k
    using node_task_same [OF assms, of k] by (cases rule: option.rel_cases) (auto simp: same_node_def)
  then show ?thesis by (simp only: dependencies_completed_def)
qed

lemma list_for_mission_all2:
  "list_all2 R (db_tasks d) (db_tasks d1) \<Longrightarrow> (\<And>x y. R x y \<Longrightarrow> t_mission_id y = t_mission_id x) \<Longrightarrow>
     list_all2 R (list_for_mission i d) (list_for_mission i d1)"
  unfolding list_for_mission_def by (induction rule: list_all2_induct) auto

text \<open>The dependencies of a task, as the loops read them.\<close>

definition ready :: "execution_task list \<Rightarrow> execution_task \<Rightarrow> bool" where
  "ready siblings x \<longleftrightarrow>
     (case list_of (map_of (t_metadata x) ''dependency_keys'') of
        None \<Rightarrow> False | Some deps \<Rightarrow> dependencies_completed siblings deps)"

lemma ready_same: "same_graph xs ys \<Longrightarrow> same_node x y \<Longrightarrow> ready ys y = ready xs x"
  by (simp add: ready_def same_node_def dependencies_same split: option.split)

definition released :: "execution_task list \<Rightarrow> execution_task \<Rightarrow> execution_task \<Rightarrow> bool" where
  "released siblings x y \<longleftrightarrow> same_node x y \<and>
     (t_status y = t_status x \<or> t_status x = TBlocked \<and> t_status y = TQueued \<and> ready siblings x)"

lemma released_refl [simp]: "released S x x"
  by (simp add: released_def)

lemma released_trans: "released S x y \<Longrightarrow> released S y z \<Longrightarrow> released S x z"
  by (auto simp: released_def same_node_def ready_def)

lemma all2_released_trans:
  "list_all2 (released S) xs ys \<Longrightarrow> list_all2 (released S) ys zs \<Longrightarrow> list_all2 (released S) xs zs"
  by (rule list_all2_trans [of "released S"]) (auto intro: released_trans)

lemma retry_frame:
  assumes "retry_dispatch task w = (res, w1)"
  shows "db_tasks (w_db w1) = db_tasks (w_db w) \<and> db_missions (w_db w1) = db_missions (w_db w) \<and>
    db_leases (w_db w1) = db_leases (w_db w) \<and> db_audit (w_db w1) = db_audit (w_db w) \<and> w_clock w1 = w_clock w \<and>
    w_durable w1 = w_durable w \<and> w_queue w1 = w_queue w"
  using assms
  by (auto simp: retry_dispatch_def admit_def release_review_hold_def Let_def map_db_def schedule_after_commit_def
      queue_dispatch_after_commit_def save_dispatch_def split: option.splits sum.splits prod.splits if_splits)

lemma audit_frame [simp]:
  "db_tasks (w_db (audit t m c a wk ds p w)) = db_tasks (w_db w)"
  "db_missions (w_db (audit t m c a wk ds p w)) = db_missions (w_db w)"
  "db_leases (w_db (audit t m c a wk ds p w)) = db_leases (w_db w)"
  "db_dispatches (w_db (audit t m c a wk ds p w)) = db_dispatches (w_db w)"
  "w_clock (audit t m c a wk ds p w) = w_clock w" "w_durable (audit t m c a wk ds p w) = w_durable w"
  "w_queue (audit t m c a wk ds p w) = w_queue w" "w_intents (audit t m c a wk ds p w) = w_intents w"
  by (simp_all add: audit_def map_db_def add_audit_def)

lemma record_fact_frame [simp]:
  "db_tasks (w_db (record_fact K a w)) = db_tasks (w_db w)" "db_missions (w_db (record_fact K a w)) = db_missions (w_db w)"
  "db_leases (w_db (record_fact K a w)) = db_leases (w_db w)"
  "db_dispatches (w_db (record_fact K a w)) = db_dispatches (w_db w)" "w_clock (record_fact K a w) = w_clock w"
  "w_durable (record_fact K a w) = w_durable w" "w_queue (record_fact K a w) = w_queue w"
  "w_intents (record_fact K a w) = w_intents w"
  by (simp_all add: record_fact_def map_db_def add_audit_def)

lemma put_row_all2:
  assumes "R x y" "\<And>z. R z z" "find_row key (key y) rows = Some x" "distinct (map key rows)"
  shows "list_all2 R rows (put_row key y rows)"
proof -
  have x: "x \<in> set rows" "key x = key y" using find_row_key [OF assms(3)] by auto
  have "z = x" if "z \<in> set rows" "key z = key y" for z
    using that x assms(4) by (metis distinct_map inj_onD)
  then show ?thesis using assms(1,2)
    by (auto simp: put_row_def list_all2_map2 intro!: list.rel_refl_strong)
qed

lemma all2_ids: "list_all2 (released S) xs ys \<Longrightarrow> map t_id ys = map t_id xs"
  by (induction rule: list_all2_induct) (auto simp: released_def same_node_def)

lemma released_graph: "list_all2 (released S) xs ys \<Longrightarrow> same_graph xs ys"
  unfolding same_graph_def by (erule list_all2_mono) (simp add: released_def)

lemma recover_effect:
  assumes "recover_dependents ks i wk w = (res, w1)" and "distinct (map t_id (db_tasks (w_db w)))"
    and "same_graph S (list_for_mission i (w_db w))"
  shows "list_all2 (released S) (db_tasks (w_db w)) (db_tasks (w_db w1)) \<and> db_missions (w_db w1) = db_missions (w_db w)"
  using assms
proof (induction ks arbitrary: w)
  case Nil
  then show ?case by (simp add: list.rel_refl)
next
  case (Cons k ks)
  show ?case
  proof (cases "find_task k (w_db w)")
    case None
    then show ?thesis using Cons by simp
  next
    case (Some dep)
    show ?thesis
    proof (cases "recoverable (list_for_mission i (w_db w)) dep")
      case False
      then show ?thesis using Cons Some by simp
    next
      case True
      let ?d1 = "dep\<lparr>t_status := TQueued\<rparr>"
      let ?d2 = "?d1\<lparr>t_metadata := recovered_metadata (w_clock w) (t_metadata dep)\<rparr>"
      have tr: "transition_task dep TQueued = Inr ?d1"
        using True by (simp add: recoverable_def transition_task_Inr)
      have id: "t_id dep = k" using Some by (simp add: find_task_def find_row_key)
      have ready: "ready S dep"
        using True dependencies_same [OF Cons.prems(3)] by (auto simp: recoverable_def ready_def split: option.splits)
      have rel: "released S dep ?d2"
        using True ready by (auto simp: released_def same_node_def recoverable_def recovered_metadata_def Let_def)
      let ?w = "map_db (save_task ?d2) w"
      have rows: "list_all2 (released S) (db_tasks (w_db w)) (db_tasks (w_db ?w))"
        using put_row_all2 [of "released S" dep ?d2 t_id "db_tasks (w_db w)", OF rel] Some Cons.prems(2) id
        by (simp add: map_db_def save_task_def find_task_def)
      obtain r w2 where retry: "retry_dispatch ?d2 ?w = (r, w2)" by (cases "retry_dispatch ?d2 ?w")
      have rows2: "list_all2 (released S) (db_tasks (w_db w)) (db_tasks (w_db w2))"
        "db_missions (w_db w2) = db_missions (w_db w)"
        using rows retry_frame [OF retry] by (simp_all add: map_db_def save_task_def)
      show ?thesis
      proof (cases r)
        case (Inl e)
        then show ?thesis using Cons.prems(1) Some True tr retry rows2 by (simp add: Let_def)
      next
        case (Inr rd)
        let ?w3 = "audit (t_tenant_id dep) (t_mission_id dep) ''execution_task'' ''dependency_recovered'' wk
          (''Task '' @ k @ '' re-admitted after all recorded dependencies completed.'')
          [(''task_id'', JStr k),
           (''dependency_keys'', key_texts (the (list_of (map_of (t_metadata dep) ''dependency_keys''))))] w2"
        have step: "recover_dependents ks i wk ?w3 = (res, w1)"
          using Cons.prems(1) Some True tr retry Inr by (simp add: Let_def)
        have "distinct (map t_id (db_tasks (w_db ?w3)))" using all2_ids [OF rows2(1)] Cons.prems(2) by simp
        moreover have "same_graph S (list_for_mission i (w_db ?w3))"
        proof -
          have "list_all2 (released S) (list_for_mission i (w_db w)) (list_for_mission i (w_db ?w3))"
            using rows2(1) by (intro list_for_mission_all2) (simp_all add: released_def same_node_def)
          then have "same_graph (list_for_mission i (w_db w)) (list_for_mission i (w_db ?w3))" by (rule released_graph)
          with Cons.prems(3) show ?thesis unfolding same_graph_def
            by (rule list_all2_trans [rotated]) (auto simp: same_node_def)
        qed
        ultimately show ?thesis
          using Cons.IH [OF step] rows2 all2_released_trans [OF rows2(1)] by simp
      qed
    qed
  qed
qed

lemma redispatch_effect:
  assumes "redispatch_dependents ks i wk w = (res, w1)" and "distinct (map t_id (db_tasks (w_db w)))"
  shows "list_all2 (released S) (db_tasks (w_db w)) (db_tasks (w_db w1)) \<and> db_missions (w_db w1) = db_missions (w_db w)"
  using assms
proof (induction ks arbitrary: w)
  case Nil
  then show ?case by (simp add: list.rel_refl)
next
  case (Cons k ks)
  show ?case
  proof (cases "find_task k (w_db w)")
    case None
    then show ?thesis using Cons by simp
  next
    case (Some dep)
    show ?thesis
    proof (cases "redispatchable (list_for_mission i (w_db w)) dep")
      case False
      then show ?thesis using Cons Some by simp
    next
      case True
      let ?d1 = "dep\<lparr>t_metadata := AList.update ''dependency_redispatched_at'' (JStamp (w_clock w))
        (AList.delete ''dependency_deferral'' (t_metadata dep))\<rparr>"
      have id: "t_id dep = k" using Some by (simp add: find_task_def find_row_key)
      have rel: "released S dep ?d1" by (simp add: released_def same_node_def)
      let ?w = "map_db (save_task ?d1) w"
      have rows: "list_all2 (released S) (db_tasks (w_db w)) (db_tasks (w_db ?w))"
        using put_row_all2 [of "released S" dep ?d1 t_id "db_tasks (w_db w)", OF rel] Some Cons.prems(2) id
        by (simp add: map_db_def save_task_def find_task_def)
      obtain r w2 where retry: "retry_dispatch ?d1 ?w = (r, w2)" by (cases "retry_dispatch ?d1 ?w")
      have rows2: "list_all2 (released S) (db_tasks (w_db w)) (db_tasks (w_db w2))"
        "db_missions (w_db w2) = db_missions (w_db w)"
        using rows retry_frame [OF retry] by (simp_all add: map_db_def save_task_def)
      show ?thesis
      proof (cases r)
        case (Inl e)
        then show ?thesis using Cons.prems(1) Some True retry rows2 by (simp add: Let_def)
      next
        case (Inr rd)
        let ?w3 = "audit (t_tenant_id dep) (t_mission_id dep) ''execution_task'' ''dependency_redispatched'' wk
          (''Task '' @ k @ '' re-dispatched after all dependencies completed.'')
          [(''task_id'', JStr k),
           (''dependency_keys'', key_texts (the (list_of (map_of (t_metadata dep) ''dependency_keys''))))] w2"
        have step: "redispatch_dependents ks i wk ?w3 = (res, w1)"
          using Cons.prems(1) Some True retry Inr by (simp add: Let_def)
        have "distinct (map t_id (db_tasks (w_db ?w3)))" using all2_ids [OF rows2(1)] Cons.prems(2) by simp
        from Cons.IH [OF step this] show ?thesis
          using rows2 all2_released_trans [OF rows2(1)] by simp
      qed
    qed
  qed
qed

subsection \<open>The recursion ends when node keys are unique\<close>

definition unique_nodes :: "execution_task list \<Rightarrow> bool" where
  "unique_nodes siblings \<longleftrightarrow> distinct (List.map_filter raw_node_key siblings)"

text \<open>The tasks a round can still block: waiting for something that is not completed.\<close>

definition waiting :: "execution_task list \<Rightarrow> execution_task \<Rightarrow> bool" where
  "waiting siblings x \<longleftrightarrow> t_status x \<in> {TPlanned, TQueued, TClaimed} \<and> \<not> ready siblings x"

definition waiting_count :: "uuid \<Rightarrow> db \<Rightarrow> nat" where
  "waiting_count i d = length (filter (waiting (list_for_mission i d)) (list_for_mission i d))"

lemma map_filter_Cons [simp]:
  "List.map_filter f (x # xs) = (case f x of None \<Rightarrow> List.map_filter f xs | Some y \<Rightarrow> y # List.map_filter f xs)"
  by (auto simp: List.map_filter_def split: option.split)

lemma map_filter_Nil [simp]: "List.map_filter f [] = []"
  by (simp add: List.map_filter_def)

lemma set_map_filter: "set (List.map_filter f xs) = {y. \<exists>x \<in> set xs. f x = Some y}"
  by (induction xs) (auto split: option.splits)

lemma unique_node_eq:
  assumes "unique_nodes siblings" and "x \<in> set siblings" "y \<in> set siblings" "raw_node_key x = Some k" "raw_node_key y = Some k"
  shows "x = y"
  using assms unfolding unique_nodes_def
  by (induction siblings) (auto simp: set_map_filter split: option.splits)

lemma unique_same: "same_graph xs ys \<Longrightarrow> unique_nodes ys = unique_nodes xs"
proof -
  assume "same_graph xs ys"
  then have "List.map_filter raw_node_key ys = List.map_filter raw_node_key xs"
    unfolding same_graph_def by (induction rule: list_all2_induct) (auto simp: same_node_key split: option.split)
  then show ?thesis by (simp add: unique_nodes_def)
qed

lemma node_task_Some: "node_task siblings k = Some c \<Longrightarrow> c \<in> set siblings \<and> raw_node_key c = Some k"
  by (auto simp: node_task_def find_Some_iff) (metis length_rev nth_mem set_rev)

lemma filter_all2:
  "list_all2 R xs ys \<Longrightarrow> (\<And>x y. R x y \<Longrightarrow> Q y = P x) \<Longrightarrow> length (filter Q ys) = length (filter P xs)"
  by (induction rule: list_all2_induct) auto

lemma failed_not_ready:
  assumes "unique_nodes siblings" and "blocks (failed_node_keys siblings) x"
  shows "\<not> ready siblings x"
proof
  assume "ready siblings x"
  then obtain deps where deps: "list_of (map_of (t_metadata x) ''dependency_keys'') = Some deps"
    "dependencies_completed siblings deps" by (auto simp: ready_def split: option.splits)
  from assms(2) deps obtain v k where v: "v \<in> set deps" "key_text v = Some k" "k \<in> failed_node_keys siblings"
    by (auto simp: blocks_def failed_dependencies_def filter_empty_conv set_map_filter)
  from v(3) obtain f where f: "f \<in> set siblings" "failedish (t_status f)" "raw_node_key f = Some k"
    by (auto simp: failed_node_keys_def set_map_filter split: if_splits)
  from deps(2) v(1,2) obtain c where c: "node_task siblings k = Some c" "t_status c = TCompleted"
    by (auto simp: dependencies_completed_def list_all_iff split: option.splits dest!: bspec)
  then have "c \<in> set siblings" "raw_node_key c = Some k" using node_task_Some by blast+
  then have "c = f" using unique_node_eq [OF assms(1)] f by blast
  with c(2) f(2) show False by (simp add: failedish_def)
qed

lemma released_waiting:
  assumes "list_all2 (released S) xs ys" and "same_graph S xs" "same_graph S ys"
  shows "length (filter (waiting ys) ys) = length (filter (waiting xs) xs)"
proof -
  have g: "same_graph xs ys" using released_graph [OF assms(1)] .
  have "waiting ys y = waiting xs x" if "released S x y" for x y
    using that ready_same [OF g, of x y] ready_same [OF assms(2), of x x] dependencies_same [OF assms(2)]
    by (auto simp: released_def waiting_def ready_def split: option.splits)
  then show ?thesis by (rule filter_all2 [OF assms(1)])
qed

lemma block_same_node: "same_node x (block_dependent failed x)"
  by (auto simp: same_node_def block_dependent_def blocks_def)

lemma blocked_graph:
  "same_graph (list_for_mission i d) (list_for_mission i (block_dependents i d))"
proof -
  have "list_all2 same_node (db_tasks d) (db_tasks (block_dependents i d))"
    by (auto simp: block_dependents_def Let_def list_all2_map2 block_same_node intro!: list.rel_refl_strong)
  then show ?thesis unfolding same_graph_def by (rule list_for_mission_all2) (simp add: same_node_def)
qed

lemma blocked_list:
  "list_for_mission i (block_dependents i d) =
     map (block_dependent (failed_node_keys (list_for_mission i d))) (list_for_mission i d)"
proof -
  have "filter (\<lambda>x. t_mission_id x = Some i) (map (\<lambda>x. if t_mission_id x = Some i then block_dependent F x else x) xs) =
      map (block_dependent F) (filter (\<lambda>x. t_mission_id x = Some i) xs)" for xs F
    by (induction xs) (auto simp: block_dependent_def)
  then show ?thesis by (simp add: list_for_mission_def block_dependents_def Let_def)
qed

lemma filter_map_shrinks:
  assumes "\<forall>x \<in> set xs. Q (f x) \<longrightarrow> P x" and "\<exists>x \<in> set xs. P x \<and> \<not> Q (f x)"
  shows "length (filter Q (map f xs)) < length (filter P xs)"
  using assms
proof (induction xs)
  case (Cons x xs)
  have "length (filter Q (map f xs)) \<le> length (filter P xs)"
    using Cons.prems(1) by (induction xs) auto
  then show ?case using Cons by (cases "P x \<and> \<not> Q (f x)") auto
qed simp

lemma waiting_decreases:
  assumes "unique_nodes (list_for_mission i d)" and "any_blocked i d"
  shows "waiting_count i (block_dependents i d) < waiting_count i d"
proof -
  let ?S = "list_for_mission i d" and ?F = "failed_node_keys (list_for_mission i d)"
  let ?S1 = "list_for_mission i (block_dependents i d)"
  have graph: "same_graph ?S ?S1" by (rule blocked_graph)
  have ready: "ready ?S1 (block_dependent ?F x) = ready ?S x" for x
    by (rule ready_same [OF graph block_same_node])
  from assms(2) obtain x where x: "x \<in> set ?S" "blocks ?F x" by (auto simp: any_blocked_def list_ex_iff)
  have "waiting ?S x \<and> \<not> waiting ?S1 (block_dependent ?F x)"
    using x(2) failed_not_ready [OF assms(1) x(2)] by (auto simp: waiting_def blocks_def block_dependent_def)
  moreover have "waiting ?S1 (block_dependent ?F y) \<longrightarrow> waiting ?S y" for y
    unfolding waiting_def ready by (auto simp: block_dependent_def)
  ultimately show ?thesis
    unfolding waiting_count_def blocked_list [of i d] using x(1)
    by (intro filter_map_shrinks) (auto simp: blocked_list [symmetric])
qed

lemma review_hold_mission:
  "get_mission_for_tenant i tenant w = (res, w1) \<Longrightarrow> db_tasks (w_db w1) = db_tasks (w_db w) \<and>
     db_dispatches (w_db w1) = db_dispatches (w_db w) \<and> db_leases (w_db w1) = db_leases (w_db w) \<and>
     w_durable w1 = w_durable w \<and> w_clock w1 = w_clock w"
  by (auto simp: get_mission_for_tenant_def Let_def map_db_def save_mission_def split: option.splits if_splits)

text \<open>What a round does apart from recurring never gives the error of the stack.\<close>

definition bounded_host :: "runtime_host \<Rightarrow> bool" where
  "bounded_host K \<longleftrightarrow> (\<forall>m ts. rh_acceptance_reasons K m ts \<noteq> Inl recursion_error)"

lemma retry_not_exhausted: "fst (retry_dispatch task w) \<noteq> Inl recursion_error"
  by (auto simp: retry_dispatch_def admit_def release_review_hold_def retry_generation_def Let_def recursion_error_def
      split: option.splits sum.splits prod.splits if_splits json.splits)

lemma transition_not_exhausted: "transition_task x target \<noteq> Inl recursion_error"
  by (simp add: transition_task_def ensure_task_transition_def ensure_allowed_def bind_result_def recursion_error_def split: sum.split)

lemma recover_not_exhausted: "recover_dependents ks i wk w = (res, w1) \<Longrightarrow> res \<noteq> Inl recursion_error"
proof (induction ks arbitrary: w)
  case (Cons k ks)
  show ?case
  proof (cases "find_task k (w_db w)")
    case None
    then show ?thesis using Cons by simp
  next
    case (Some dep)
    show ?thesis
    proof (cases "recoverable (list_for_mission i (w_db w)) dep")
      case True
      let ?d2 = "dep\<lparr>t_status := TQueued, t_metadata := recovered_metadata (w_clock w) (t_metadata dep)\<rparr>"
      have tr: "transition_task dep TQueued = Inr (dep\<lparr>t_status := TQueued\<rparr>)"
        using True by (simp add: recoverable_def transition_task_Inr)
      obtain r w2 where retry: "retry_dispatch ?d2 (map_db (save_task ?d2) w) = (r, w2)" by (rule prod.exhaust)
      have "r \<noteq> Inl recursion_error" using retry_not_exhausted [of ?d2 "map_db (save_task ?d2) w"] retry by simp
      then show ?thesis using Cons Some True tr retry by (cases r) (auto simp: Let_def)
    qed (use Cons Some in simp)
  qed
qed (auto simp: recursion_error_def)

lemma redispatch_not_exhausted: "redispatch_dependents ks i wk w = (res, w1) \<Longrightarrow> res \<noteq> Inl recursion_error"
proof (induction ks arbitrary: w)
  case (Cons k ks)
  show ?case
  proof (cases "find_task k (w_db w)")
    case None
    then show ?thesis using Cons by simp
  next
    case (Some dep)
    show ?thesis
    proof (cases "redispatchable (list_for_mission i (w_db w)) dep")
      case True
      let ?d1 = "dep\<lparr>t_metadata := AList.update ''dependency_redispatched_at'' (JStamp (w_clock w))
        (AList.delete ''dependency_deferral'' (t_metadata dep))\<rparr>"
      obtain r w2 where retry: "retry_dispatch ?d1 (map_db (save_task ?d1) w) = (r, w2)" by (rule prod.exhaust)
      have "r \<noteq> Inl recursion_error" using retry_not_exhausted [of ?d1 "map_db (save_task ?d1) w"] retry by simp
      then show ?thesis using Cons Some True retry by (cases r) (auto simp: Let_def)
    qed (use Cons Some in simp)
  qed
qed (auto simp: recursion_error_def)

lemma fst_branches:
  "(\<And>x. fst (f x) \<noteq> e) \<Longrightarrow> fst (Let v f) \<noteq> e"
  "(P \<Longrightarrow> fst x \<noteq> e) \<Longrightarrow> (\<not> P \<Longrightarrow> fst y \<noteq> e) \<Longrightarrow> fst (if P then x else y) \<noteq> e"
  "(\<And>a. z = Inl a \<Longrightarrow> fst (g a) \<noteq> e) \<Longrightarrow> (\<And>b. z = Inr b \<Longrightarrow> fst (h b) \<noteq> e) \<Longrightarrow>
     fst (case z of Inl a \<Rightarrow> g a | Inr b \<Rightarrow> h b) \<noteq> e"
  by (simp_all split: sum.split)

lemma roll_not_exhausted: "bounded_host K \<Longrightarrow> fst (roll_mission K task wk m w) \<noteq> Inl recursion_error"
  unfolding roll_mission_def by (intro fst_branches) (auto simp: bounded_host_def recursion_error_def)

text \<open>One round of the rollup.\<close>

lemma rollup_cases:
  obtains
    (ended) res w1 where "\<And>n. rollup_mission (Suc n) K task wk w = (res, w1)"
      "bounded_host K \<Longrightarrow> res \<noteq> Inl recursion_error"
  | (again) i w3 where "t_mission_id task = Some i" "any_blocked i (w_db w3)"
      "\<And>n. rollup_mission (Suc n) K task wk w = rollup_mission n K task wk (map_db (block_dependents i) w3)"
      "distinct (map t_id (db_tasks (w_db w))) \<Longrightarrow>
         list_all2 (released (list_for_mission i (w_db w))) (db_tasks (w_db w)) (db_tasks (w_db w3))"
proof (cases "t_mission_id task")
  case None
  then show ?thesis using ended by simp
next
  case (Some i)
  obtain om w1 where get: "get_mission_for_tenant i (t_tenant_id task) w = (om, w1)"
    by (cases "get_mission_for_tenant i (t_tenant_id task) w")
  note tasks1 = review_hold_mission [OF get]
  let ?S = "list_for_mission i (w_db w)"
  have S1: "list_for_mission i (w_db w1) = ?S" using tasks1 by (simp add: list_for_mission_def)
  show ?thesis
  proof (cases om)
    case None
    then show ?thesis using Some get ended by simp
  next
    case (Some m)
    let ?ids = "map t_id (list_for_mission i (w_db w1))"
    obtain r2 w2 where rec: "recover_dependents ?ids i wk w1 = (r2, w2)" by (cases "recover_dependents ?ids i wk w1")
    obtain r3 w3 where red: "redispatch_dependents ?ids i wk w2 = (r3, w3)" by (cases "redispatch_dependents ?ids i wk w2")
    show ?thesis
    proof (cases "terminal_mission (m_status m) \<or> ?ids = [] \<or> r2 \<noteq> Inr () \<or> r3 \<noteq> Inr () \<or> \<not> any_blocked i (w_db w3)")
      case True
      have "rollup_mission (Suc n) K task wk w = rollup_mission (Suc 0) K task wk w \<and>
          (bounded_host K \<longrightarrow> fst (rollup_mission (Suc n) K task wk w) \<noteq> Inl recursion_error)" for n
      proof (cases "terminal_mission (m_status m) \<or> ?ids = []")
        case True
        then show ?thesis using \<open>t_mission_id task = Some i\<close> get Some by (auto simp: Let_def)
      next
        case False
        then show ?thesis
          using \<open>t_mission_id task = Some i\<close> get Some rec red \<open>terminal_mission (m_status m) \<or> _\<close>
            recover_not_exhausted [OF rec] redispatch_not_exhausted [OF red] roll_not_exhausted [of K task wk m w3]
          by (cases r2; cases r3) (simp_all add: Let_def)
      qed
      then show ?thesis using ended by (metis surj_pair fst_conv)
    next
      case False
      have "list_all2 (released ?S) (db_tasks (w_db w)) (db_tasks (w_db w3))" if d: "distinct (map t_id (db_tasks (w_db w)))"
      proof -
        have e2: "list_all2 (released ?S) (db_tasks (w_db w1)) (db_tasks (w_db w2))"
          using recover_effect [OF rec, of ?S] d tasks1 S1 by simp
        then have "distinct (map t_id (db_tasks (w_db w2)))" using all2_ids [OF e2] d tasks1 by simp
        from redispatch_effect [OF red this] show ?thesis using all2_released_trans [OF e2] tasks1 by simp
      qed
      then show ?thesis using \<open>t_mission_id task = Some i\<close> get Some rec red False
        by (intro again [of i w3]) (auto simp: Let_def)
    qed
  qed
qed

lemma rollup_depth:
  "unique_nodes (list_for_mission i (w_db w)) \<Longrightarrow> distinct (map t_id (db_tasks (w_db w))) \<Longrightarrow> t_mission_id task = Some i \<Longrightarrow>
     waiting_count i (w_db w) < n \<Longrightarrow> n \<le> m \<Longrightarrow>
     rollup_mission m K task wk w = rollup_mission n K task wk w \<and>
     (bounded_host K \<longrightarrow> fst (rollup_mission n K task wk w) \<noteq> Inl recursion_error)"
proof (induction n arbitrary: m w)
  case (Suc n)
  then obtain m' where m: "m = Suc m'" "n \<le> m'" by (cases m) auto
  let ?S = "list_for_mission i (w_db w)"
  show ?case
  proof (cases rule: rollup_cases [of K task wk w])
    case (ended res w1)
    then show ?thesis by (simp add: m)
  next
    case (again j w3)
    have j: "j = i" using again(1) Suc.prems(3) by simp
    have rel: "list_all2 (released ?S) (db_tasks (w_db w)) (db_tasks (w_db w3))"
      using again(4) [OF Suc.prems(2)] j by simp
    let ?w = "map_db (block_dependents i) w3"
    have relS: "list_all2 (released ?S) ?S (list_for_mission i (w_db w3))"
      using rel by (rule list_for_mission_all2) (simp add: released_def same_node_def)
    have graph: "same_graph ?S (list_for_mission i (w_db w3))" by (rule released_graph [OF relS])
    have uniq: "unique_nodes (list_for_mission i (w_db w3))" using unique_same [OF graph] Suc.prems(1) by simp
    have "waiting_count i (w_db w3) = waiting_count i (w_db w)"
      unfolding waiting_count_def by (rule released_waiting [OF relS _ graph]) simp
    then have "waiting_count i (w_db ?w) < n"
      using waiting_decreases [OF uniq] again(2) j Suc.prems(4) by (simp add: map_db_def)
    moreover have "unique_nodes (list_for_mission i (w_db ?w))"
      using unique_same [OF blocked_graph [of i "w_db w3"]] uniq by (simp add: map_db_def)
    moreover have "distinct (map t_id (db_tasks (w_db ?w)))"
    proof -
      have "map t_id (db_tasks (w_db ?w)) = map t_id (db_tasks (w_db w3))"
        by (simp add: map_db_def block_dependents_def Let_def block_dependent_def)
      then show ?thesis using all2_ids [OF rel] Suc.prems(2) by simp
    qed
    ultimately have "rollup_mission m' K task wk ?w = rollup_mission n K task wk ?w \<and>
        (bounded_host K \<longrightarrow> fst (rollup_mission n K task wk ?w) \<noteq> Inl recursion_error)"
      using Suc.IH Suc.prems(3) m(2) by blast
    then show ?thesis using again(3) by (simp add: m j)
  qed
qed simp

text \<open>
  C27: the rollup ends. If no two tasks of a mission share a graph node key, the recursion of the rollup ends on every mission: given
  more depth than the mission has tasks it does not use up the stack, and its result is the same with any larger depth. The acceptance
  check of the mission, which the rollup calls at its end, is another part's: it is taken not to exhaust the stack on its own.
\<close>

theorem rollup_terminates:
  assumes "unique_nodes (list_for_mission i (w_db w))" and "distinct (map t_id (db_tasks (w_db w)))"
    and "t_mission_id task = Some i" and "length (list_for_mission i (w_db w)) < n" and "bounded_host K"
  shows "fst (rollup_mission n K task wk w) \<noteq> Inl recursion_error \<and>
    (\<forall>m \<ge> n. rollup_mission m K task wk w = rollup_mission n K task wk w)"
proof -
  have "waiting_count i (w_db w) < n"
    using assms(4) le_less_trans [OF length_filter_le] by (simp add: waiting_count_def)
  then show ?thesis using rollup_depth [OF assms(1,2,3)] assms(5) by blast
qed

definition graph_task :: "string \<Rightarrow> task_state \<Rightarrow> string \<Rightarrow> string list \<Rightarrow> dict \<Rightarrow> execution_task" where
  "graph_task k st node deps extra =
     (example_task st)\<lparr>t_id := k, t_mission_id := Some ''m'',
       t_metadata := [(''graph_node_key'', JStr node), (''dependency_keys'', JArr (map JStr deps))] @ extra\<rparr>"

definition graph_mission :: mission where
  "graph_mission = \<lparr>m_id = ''m'', m_tenant_id = ''acme'', m_objective = ''o'', m_status = MRunning,
     m_compliance_category = ''operational'', m_jurisdiction = ''US-ALL'', m_metadata = [], m_created_at = 0, m_updated_at = 0\<rparr>"

definition plain_runtime :: runtime_host where
  "plain_runtime = \<lparr>rh_clarification = (\<lambda>d. False), rh_artifact_errors = (\<lambda>k v. None),
     rh_proven_empty = (\<lambda>k v d. False), rh_evidence_rows = (\<lambda>t l d i. Inr []),
     rh_acceptance_reasons = (\<lambda>m ts. Inr []), rh_artifact_completeness = (\<lambda>ts rs. JNull), rh_deliverable_state = (\<lambda>d ts. None),
     rh_ledger = plain_hash, rh_ledger_key = ''k''\<rparr>"

definition graph_world :: "execution_task list \<Rightarrow> unit world" where
  "graph_world tasks =
     (let d = empty_db\<lparr>db_tasks := tasks, db_missions := [graph_mission]\<rparr>
      in \<lparr>w_db = d, w_durable = d, w_queue = (), w_clock = 5, w_intents = [], w_ids = (\<lambda>n. replicate n (CHR ''d'')),
          w_next_id = 1\<rparr>)"

text \<open>A chain of three: the first has failed, the others wait.\<close>

definition failed_chain :: "unit world" where
  "failed_chain = graph_world [graph_task ''1'' TFailed ''a'' [] [], graph_task ''2'' TQueued ''b'' [''a''] [],
     graph_task ''3'' TPlanned ''c'' [''b''] []]"

lemma plain_runtime_bounded [simp]: "bounded_host plain_runtime"
  by (simp add: bounded_host_def plain_runtime_def)

theorem rollup_terminates_witness:
  "fst (rollup_mission 1000 plain_runtime (graph_task ''1'' TFailed ''a'' [] []) ''w'' failed_chain) \<noteq> Inl recursion_error \<and>
   map t_status (db_tasks (w_db (snd (rollup_mission 1000 plain_runtime (graph_task ''1'' TFailed ''a'' [] []) ''w'' failed_chain)))) =
     [TFailed, TBlocked, TBlocked]"
proof -
  have chain: "unique_nodes (list_for_mission ''m'' (w_db failed_chain))" "distinct (map t_id (db_tasks (w_db failed_chain)))"
    "length (list_for_mission ''m'' (w_db failed_chain)) < 4"
    by (simp_all add: failed_chain_def graph_world_def graph_task_def example_task_def unique_nodes_def list_for_mission_def
        raw_node_key_def Let_def)
  have "t_mission_id (graph_task ''1'' TFailed ''a'' [] []) = Some ''m''" by (simp add: graph_task_def)
  note ends = rollup_terminates [OF chain(1,2) this chain(3) plain_runtime_bounded]
  have eq: "rollup_mission 1000 plain_runtime (graph_task ''1'' TFailed ''a'' [] []) ''w'' failed_chain =
      rollup_mission 4 plain_runtime (graph_task ''1'' TFailed ''a'' [] []) ''w'' failed_chain"
    by (rule ends [THEN conjunct2, rule_format]) simp
  have "map t_status (db_tasks (w_db (snd (rollup_mission 4 plain_runtime (graph_task ''1'' TFailed ''a'' [] []) ''w'' failed_chain)))) =
      [TFailed, TBlocked, TBlocked]" by code_simp
  then show ?thesis unfolding eq using ends by blast
qed

end
