(* ===== verification/GraphRuns.thy ===== *)
theory GraphRuns
  imports TaskGraph
begin

section \<open>What a rollup leaves behind\<close>

text \<open>
  Over \<open>rollup_mission\<close> of TaskGraph: the mission on which its recursion does not end, and what
  holds of the graph and of the mission when it has returned.
\<close>

subsection \<open>The recursion does not end when a failed and a completed task share a key\<close>

definition blocked_for :: "string \<Rightarrow> execution_task \<Rightarrow> bool" where
  "blocked_for k x \<longleftrightarrow> t_status x = TBlocked \<and> raw_node_key x \<noteq> Some k \<and> map_of (t_metadata x) ''dependency_deferral'' = None \<and>
     map_of (t_metadata x) ''dependency_keys'' = Some (JArr [JStr k]) \<and>
     (\<exists>vs. list_of (map_of (t_metadata x) ''blocked_by_dependency_failure'') = Some vs \<and> vs \<noteq> []) \<and>
     (\<exists>f. dict_of (map_of (t_metadata x) ''failure'') = Some f \<and> map_of f ''code'' = Some (JStr ''DEPENDENCY_FAILED''))"

text \<open>
  A mission of three tasks: a failed attempt at node \<open>k\<close>, a completed one, and a task that was blocked
  for the failure.
\<close>

definition retried_node :: "uuid \<Rightarrow> string \<Rightarrow> string \<Rightarrow> 'q world \<Rightarrow> bool" where
  "retried_node i k tenant w \<longleftrightarrow>
     (\<exists>a c b m r g. db_tasks (w_db w) = [a, c, b] \<and> distinct [t_id a, t_id c, t_id b] \<and>
        t_mission_id a = Some i \<and> t_mission_id c = Some i \<and> t_mission_id b = Some i \<and>
        t_status a = TFailed \<and> raw_node_key a = Some k \<and> t_status c = TCompleted \<and> raw_node_key c = Some k \<and>
        blocked_for k b \<and> find_mission i (w_db w) = Some m \<and> m_tenant_id m = tenant \<and> \<not> terminal_mission (m_status m) \<and>
        dispatch_for_task (t_tenant_id b) (t_id b) (w_db w) = Some r \<and> retry_generation r = Inr g \<and> 0 \<le> g)"

lemma put_same_row: "find_row key (key r) rows = Some r \<Longrightarrow> distinct (map key rows) \<Longrightarrow> put_row key r rows = rows"
proof -
  assume f: "find_row key (key r) rows = Some r" and d: "distinct (map key rows)"
  have "x = r" if "x \<in> set rows" "key x = key r" for x
    using find_row_key [OF f] that d by (metis distinct_map inj_onD)
  then show ?thesis unfolding put_row_def by (intro map_idI) metis
qed

lemma find_put_dispatch:
  "find (\<lambda>r. rd_tenant_id r = t \<and> rd_task_id r = k) rs = Some r \<Longrightarrow>
     rd_id r1 = rd_id r \<Longrightarrow> rd_tenant_id r1 = t \<Longrightarrow> rd_task_id r1 = k \<Longrightarrow>
     \<exists>r2. find (\<lambda>r. rd_tenant_id r = t \<and> rd_task_id r = k) (put_row rd_id r1 rs) = Some r2 \<and> r2 = r1"
proof (induction rs)
  case (Cons x rs)
  then show ?case
    by (cases "rd_id x = rd_id r1"; cases "rd_tenant_id x = t \<and> rd_task_id x = k") (auto simp: put_row_def)
qed simp

lemma retry_rearms:
  assumes "dispatch_for_task (t_tenant_id x) (t_id x) (w_db w) = Some r" and "retry_generation r = Inr g" "0 \<le> g"
  obtains rd w1 r1 where "retry_dispatch x w = (Inr rd, w1)"
    "dispatch_for_task (t_tenant_id x) (t_id x) (w_db w1) = Some r1" "retry_generation r1 = Inr (g + 1)"
proof -
  let ?r1 = "r\<lparr>rd_payload := AList.update retry_key (JInt (g + 1)) (t_metadata x),
      rd_status := DPending, rd_next_attempt_at := w_clock w, rd_last_error := None,
      rd_published_at := None, rd_cancelled_at := None, rd_updated_at := w_clock w\<rparr>"
  let ?w1 = "schedule_after_commit ?r1 (map_db (save_dispatch ?r1) w)"
  have ok: "retry_dispatch x w = (Inr ?r1, ?w1)"
    using assms(1,2) by (simp add: retry_dispatch_def Let_def)
  have "rd_tenant_id r = t_tenant_id x \<and> rd_task_id r = t_id x"
    using assms(1) by (auto simp: dispatch_for_task_def find_Some_iff)
  then have "dispatch_for_task (t_tenant_id x) (t_id x) (w_db ?w1) = Some ?r1"
    using find_put_dispatch [of "t_tenant_id x" "t_id x" "db_dispatches (w_db w)" r ?r1] assms(1)
    by (simp add: dispatch_for_task_def schedule_after_commit_def queue_dispatch_after_commit_def map_db_def save_dispatch_def)
  moreover have "retry_generation ?r1 = Inr (g + 1)" using assms(3) by (simp add: retry_generation_def)
  ultimately show ?thesis using ok that by blast
qed

lemma retried_node_round:
  assumes "retried_node i k (t_tenant_id task) w" and "t_mission_id task = Some i"
  shows "\<exists>w1. retried_node i k (t_tenant_id task) w1 \<and> (\<forall>n. rollup_mission (Suc n) K task wk w = rollup_mission n K task wk w1)"
proof -
  from assms(1) obtain a c b m r g where tasks: "db_tasks (w_db w) = [a, c, b]" "distinct [t_id a, t_id c, t_id b]"
    and mid: "t_mission_id a = Some i" "t_mission_id c = Some i" "t_mission_id b = Some i"
    and a: "t_status a = TFailed" "raw_node_key a = Some k" and c: "t_status c = TCompleted" "raw_node_key c = Some k"
    and b: "blocked_for k b" and m: "find_mission i (w_db w) = Some m" "m_tenant_id m = t_tenant_id task"
      "\<not> terminal_mission (m_status m)"
    and r: "dispatch_for_task (t_tenant_id b) (t_id b) (w_db w) = Some r" "retry_generation r = Inr g" "0 \<le> g"
    unfolding retried_node_def by blast
  have bst: "t_status b = TBlocked" using b by (simp add: blocked_for_def)
  have hold: "reconcile_review_hold (w_clock w) (t_tenant_id task) m (w_db w) = m"
    by (simp add: reconcile_review_hold_def tasks a c bst)
  let ?w1 = "map_db (save_mission m) w"
  have mkey: "m_id m = i" using m(1) by (simp add: find_mission_def find_row_key)
  have get: "get_mission_for_tenant i (t_tenant_id task) w = (Some m, ?w1)"
    using m(1,2) hold by (simp add: get_mission_for_tenant_def Let_def)
  have t1: "db_tasks (w_db ?w1) = [a, c, b]" "db_dispatches (w_db ?w1) = db_dispatches (w_db w)" "w_clock ?w1 = w_clock w"
    "find_mission i (w_db ?w1) = Some m"
    using m(1) mkey tasks by (simp_all add: map_db_def save_mission_def find_mission_def)
  have S: "list_for_mission i (w_db ?w1) = [a, c, b]" using t1 mid by (simp add: list_for_mission_def)
  obtain vs f where md: "map_of (t_metadata b) ''dependency_keys'' = Some (JArr [JStr k])"
      "map_of (t_metadata b) ''dependency_deferral'' = None"
      "list_of (map_of (t_metadata b) ''blocked_by_dependency_failure'') = Some vs" "vs \<noteq> []"
      "dict_of (map_of (t_metadata b) ''failure'') = Some f" "map_of f ''code'' = Some (JStr ''DEPENDENCY_FAILED'')"
    using b by (auto simp: blocked_for_def)
  have bkey: "raw_node_key b \<noteq> Some k" using b by (simp add: blocked_for_def)
  have node: "node_task [a, c, x] k = Some c" if "raw_node_key x \<noteq> Some k" for x
    using that c by (simp add: node_task_def)
  have rec: "recoverable [a, c, b] b"
    using md bst node [OF bkey] c by (simp add: recoverable_def dependencies_completed_def)
  let ?b1 = "b\<lparr>t_status := TQueued\<rparr>"
  let ?b2 = "?b1\<lparr>t_metadata := recovered_metadata (w_clock w) (t_metadata b)\<rparr>"
  let ?w2 = "map_db (save_task ?b2) ?w1"
  have rows2: "db_tasks (w_db ?w2) = [a, c, ?b2]" "db_missions (w_db ?w2) = db_missions (w_db ?w1)"
    "db_dispatches (w_db ?w2) = db_dispatches (w_db w)"
    using tasks(2) t1 by (simp_all add: map_db_def save_task_def save_mission_def put_row_def)
  have r2: "dispatch_for_task (t_tenant_id ?b2) (t_id ?b2) (w_db ?w2) = Some r"
    using r(1) rows2(3) by (simp add: dispatch_for_task_def)
  obtain rd w3 r3 where w3: "retry_dispatch ?b2 ?w2 = (Inr rd, w3)"
    "dispatch_for_task (t_tenant_id ?b2) (t_id ?b2) (w_db w3) = Some r3" "retry_generation r3 = Inr (g + 1)"
    by (rule retry_rearms [OF r2 r(2,3)])
  note f3 = retry_frame [OF w3(1)]
  let ?w4 = "audit (t_tenant_id b) (t_mission_id b) ''execution_task'' ''dependency_recovered'' wk
      (''Task '' @ t_id b @ '' re-admitted after all recorded dependencies completed.'')
      [(''task_id'', JStr (t_id b)),
       (''dependency_keys'', key_texts (the (list_of (map_of (t_metadata b) ''dependency_keys''))))] w3"
  have find1: "find_task (t_id a) (w_db ?w1) = Some a" "find_task (t_id c) (w_db ?w1) = Some c" "find_task (t_id b) (w_db ?w1) = Some b"
    using t1(1) tasks(2) by (simp_all add: find_task_def find_row_def)
  have tr: "transition_task b TQueued = Inr ?b1" using bst by (simp add: transition_task_Inr)
  have recd: "recover_dependents [t_id a, t_id c, t_id b] i wk ?w1 = (Inr (), ?w4)"
    using find1 S rec tr w3(1) a(1) c(1) t1(3) by (simp add: recoverable_def [of _ a] recoverable_def [of _ c] Let_def)
  have rows4: "db_tasks (w_db ?w4) = [a, c, ?b2]" using f3 rows2 by simp
  have S4: "list_for_mission i (w_db ?w4) = [a, c, ?b2]" using rows4 mid by (simp add: list_for_mission_def)
  have find4: "find_task (t_id a) (w_db ?w4) = Some a" "find_task (t_id c) (w_db ?w4) = Some c" "find_task (t_id b) (w_db ?w4) = Some ?b2"
    using rows4 tasks(2) by (simp_all add: find_task_def find_row_def)
  have red: "redispatch_dependents [t_id a, t_id c, t_id b] i wk ?w4 = (Inr (), ?w4)"
    using find4 a(1) c(1) md(2) by (simp add: redispatchable_def recovered_metadata_def Let_def)
  have failed: "k \<in> failed_node_keys [a, c, ?b2]" using a by (simp add: failed_node_keys_def failedish_def)
  have dk: "map_of (t_metadata ?b2) ''dependency_keys'' = Some (JArr [JStr k])"
    using md(1) by (simp add: recovered_metadata_def Let_def)
  have blk: "blocks (failed_node_keys [a, c, ?b2]) ?b2"
    using failed dk by (simp add: blocks_def failed_dependencies_def)
  then have any: "any_blocked i (w_db ?w4)" using S4 by (simp add: any_blocked_def)
  let ?w5 = "map_db (block_dependents i) ?w4"
  let ?b3 = "block_dependent (failed_node_keys [a, c, ?b2]) ?b2"
  have rows5: "db_tasks (w_db ?w5) = [a, c, ?b3]"
    using rows4 S4 mid a(1) c(1)
    by (simp add: map_db_def block_dependents_def Let_def) (simp add: block_dependent_def blocks_def)
  have roll: "rollup_mission (Suc n) K task wk w = rollup_mission n K task wk ?w5" for n
    using assms(2) get m(3) S recd red any by (simp add: Let_def)
  have "blocked_for k ?b3"
  proof -
    have "raw_node_key ?b3 = raw_node_key b"
      using same_node_key [OF block_same_node [where x = ?b2]] by (simp add: raw_node_key_def recovered_metadata_def Let_def)
    then show ?thesis
      using blk bkey dk md(2) failed
      by (simp add: blocked_for_def block_dependent_def failed_dependencies_def recovered_metadata_def Let_def)
  qed
  moreover have "find_mission i (w_db ?w5) = Some m"
    using f3 rows2 t1(4) by (simp add: map_db_def block_dependents_def Let_def find_mission_def)
  moreover have "dispatch_for_task (t_tenant_id ?b3) (t_id ?b3) (w_db ?w5) = Some r3"
    using w3(2) by (simp add: map_db_def block_dependents_def Let_def dispatch_for_task_def block_dependent_def)
  moreover have "t_id ?b3 = t_id b" "t_mission_id ?b3 = Some i" using mid(3) by (simp_all add: block_dependent_def)
  ultimately have "retried_node i k (t_tenant_id task) ?w5"
    unfolding retried_node_def
    using rows5 tasks(2) mid a c m(2,3) w3(3) r(3) by (intro exI [of _ a] exI [of _ c] exI [of _ ?b3] exI [of _ m] exI [of _ r3] exI [of _ "g + 1"]) simp
  then show ?thesis using roll by (intro exI [of _ ?w5]) simp
qed

text \<open>
  C28: \<open>maybe_rollup_mission_status\<close> has a mission on which it does not come back. A mission
  holds a failed attempt at node \<open>k\<close>, a completed attempt at the same node after it and a
  dependent blocked for the failure. The first loop reads the node map, where the later, completed row
  stands for \<open>k\<close>, and readmits the dependent; the third loop reads the set of keys with a failed row,
  where \<open>k\<close> is as well, and blocks it again; the function then calls itself on the graph it was
  given. Whatever depth \<open>n\<close> the stack has, the call ends in the interpreter's \<open>RecursionError\<close>.
\<close>

theorem retried_node_exhausts_stack:
  assumes "retried_node i k (t_tenant_id task) w" and "t_mission_id task = Some i"
  shows "fst (rollup_mission n K task wk w) = Inl recursion_error"
  using assms(1)
proof (induction n arbitrary: w)
  case (Suc n)
  obtain w1 where "retried_node i k (t_tenant_id task) w1"
    "\<forall>n. rollup_mission (Suc n) K task wk w = rollup_mission n K task wk w1"
    using retried_node_round [OF Suc.prems assms(2)] by blast
  then show ?case using Suc.IH by simp
qed simp

definition blocked_task :: execution_task where
  "blocked_task = (graph_task ''3'' TBlocked ''b'' [''a'']
     [(''blocked_by_dependency_failure'', JArr [JStr ''a'']),
      (''failure'', JObj [(''code'', JStr ''DEPENDENCY_FAILED''), (''retryable'', JBool False)])])"

definition retried_mission :: "unit world" where
  "retried_mission =
     (let w = graph_world [graph_task ''1'' TFailed ''a'' [] [], graph_task ''2'' TCompleted ''a'' [] [], blocked_task]
      in w\<lparr>w_db := (w_db w)\<lparr>db_dispatches := [\<lparr>rd_id = ''d'', rd_tenant_id = ''acme'', rd_task_id = ''3'', rd_mission_id = ''m'', rd_fleet_id = None, rd_branch_id = None, rd_payload = [],
             rd_status = DPublished, rd_attempt_count = 1, rd_next_attempt_at = 0, rd_last_error = None,
             rd_published_at = Some 1, rd_cancelled_at = None, rd_created_at = 0, rd_updated_at = 1\<rparr>]\<rparr>\<rparr>)"

theorem retried_node_exhausts_stack_witness:
  "fst (rollup_mission 1000 plain_runtime (graph_task ''2'' TCompleted ''a'' [] []) ''w'' retried_mission) =
     Inl recursion_error"
proof -
  have "retried_node ''m'' ''a'' ''acme'' retried_mission"
    unfolding retried_node_def
    by (intro exI [of _ "graph_task ''1'' TFailed ''a'' [] []"] exI [of _ "graph_task ''2'' TCompleted ''a'' [] []"]
        exI [of _ blocked_task] exI [of _ graph_mission] exI [of _ "hd (db_dispatches (w_db retried_mission))"] exI [of _ 0])
      (simp add: retried_mission_def graph_world_def blocked_task_def graph_task_def example_task_def raw_node_key_def
        blocked_for_def find_mission_def find_row_def graph_mission_def terminal_mission_def dispatch_for_task_def
        retry_generation_def Let_def)
  then show ?thesis
    using retried_node_exhausts_stack [of "''m''" "''a''" "graph_task ''2'' TCompleted ''a'' [] []" retried_mission 1000 plain_runtime "''w''"]
    by (simp add: graph_task_def example_task_def)
qed

subsection \<open>The verdict on a mission\<close>

lemma recover_missions: "recover_dependents ks i wk w = (res, w1) \<Longrightarrow> db_missions (w_db w1) = db_missions (w_db w)"
proof (induction ks arbitrary: w)
  case (Cons k ks)
  show ?case
  proof (cases "find_task k (w_db w)")
    case None
    then show ?thesis using Cons by simp
  next
    case (Some dep)
    show ?thesis
      using Cons.prems Cons.IH Some
      by (auto simp: Let_def map_db_def save_task_def dest!: retry_frame split: sum.splits prod.splits if_splits)
  qed
qed simp

lemma redispatch_missions: "redispatch_dependents ks i wk w = (res, w1) \<Longrightarrow> db_missions (w_db w1) = db_missions (w_db w)"
proof (induction ks arbitrary: w)
  case (Cons k ks)
  show ?case
  proof (cases "find_task k (w_db w)")
    case None
    then show ?thesis using Cons by simp
  next
    case (Some dep)
    show ?thesis
      using Cons.prems Cons.IH Some
      by (auto simp: Let_def map_db_def save_task_def dest!: retry_frame split: sum.splits prod.splits if_splits)
  qed
qed simp

text \<open>What a status says of the mission's tasks.\<close>

definition verdict_holds :: "mission_state \<Rightarrow> execution_task list \<Rightarrow> bool" where
  "verdict_holds st siblings \<longleftrightarrow>
     (st \<in> {MCompleted, MFailed} \<longrightarrow> list_all (\<lambda>x. terminal_task (t_status x)) siblings) \<and>
     (st = MCompleted \<longrightarrow> list_all (\<lambda>x. t_status x \<in> {TCompleted, TCancelled}) siblings)"

lemma verdict_open [simp]: "\<not> terminal_mission st \<Longrightarrow> verdict_holds st siblings"
  by (auto simp: verdict_holds_def terminal_mission_def)

lemma verdict_all:
  "list_all (\<lambda>x. terminal_task (t_status x)) siblings \<Longrightarrow> list_ex (\<lambda>x. failedish (t_status x)) siblings \<Longrightarrow> st \<noteq> MCompleted \<Longrightarrow>
     verdict_holds st siblings"
  "list_all (\<lambda>x. terminal_task (t_status x)) siblings \<Longrightarrow> \<not> list_ex (\<lambda>x. failedish (t_status x)) siblings \<Longrightarrow>
     verdict_holds st siblings"
  by (auto simp: verdict_holds_def list_all_iff list_ex_iff terminal_task_def failedish_def)

lemma transition_mission_sets: "transition_mission m st = Inr m' \<Longrightarrow> m_id m' = m_id m \<and> m_status m' = st"
  by (auto simp: transition_mission_Inr)

lemma roll_verdict:
  assumes "roll_mission K task wk m w = (Inr (), w')" and "find_mission (m_id m) (w_db w) = Some m"
    and "\<not> terminal_mission (m_status m)"
  shows "db_tasks (w_db w') = db_tasks (w_db w) \<and>
    (\<exists>m'. find_mission (m_id m) (w_db w') = Some m' \<and> verdict_holds (m_status m') (list_for_mission (m_id m) (w_db w)))"
proof -
  let ?S = "list_for_mission (m_id m) (w_db w)"
  have saved: "find_mission (m_id m) (w_db (map_db (save_mission x) w)) = Some x"
    if "m_id x = m_id m" for x
    using assms(2) that by (auto simp: find_mission_def map_db_def save_mission_def)
  show ?thesis
  proof (cases "filter (\<lambda>x. \<not> terminal_task (t_status x)) ?S = []")
    case False
    then show ?thesis
      using assms saved
      by (auto simp: roll_mission_def Let_def find_mission_def map_db_def save_mission_def transition_mission_Inr terminal_mission_def
          split: if_splits sum.splits)
  next
    case True
    then have all: "list_all (\<lambda>x. terminal_task (t_status x)) ?S" by (simp add: list_all_iff filter_empty_conv)
    show ?thesis
    proof (cases "rh_acceptance_reasons K m ?S")
      case (Inl e)
      then show ?thesis using assms True by (auto simp: roll_mission_def Let_def split: if_splits)
    next
      case (Inr rs)
      let ?bad = "list_ex (\<lambda>x. failedish (t_status x)) ?S"
      let ?rs = "rs @ (if ?bad then [''one or more runtime tasks failed''] else []) @
        (if deliverable_incomplete m then [''durable deliverable is incomplete''] else [])"
      let ?m1 = "m\<lparr>m_metadata := AList.update ''acceptance'' (acceptance_record K (w_clock w) ?S ?rs) (m_metadata m)\<rparr>"
      let ?target = "if ?bad \<or> ?rs \<noteq> [] then MFailed else MCompleted"
      have "verdict_holds ?target ?S"
        using verdict_all(1) [OF all, of MFailed] verdict_all(2) [OF all, of ?target] by (cases ?bad) simp_all
      define w0 where "w0 = record_fact K (causal_fact (t_tenant_id task) (t_mission_id task) ''worker_runtime_rollup'' wk
          (acceptance_observation ?S ?rs) (Some (t_id task)) (Some (m_id m)) []) w"
      define w2 where "w2 = (if ?rs = [] then map_db (save_mission ?m1) w0
        else audit (t_tenant_id task) (t_mission_id task) ''mission'' ''mission_acceptance_unmet'' wk (joined ?rs)
          [(''status'', JStr ''partially_met''), (''reasons'', JArr (map JStr ?rs)),
           (''contract'', JObj (mission_acceptance_contract m))] (map_db (save_mission ?m1) w0))"
      define F where "F = (\<lambda>x. audit (t_tenant_id task) (t_mission_id task) ''mission''
         (if ?target = MCompleted then ''mission_completed'' else ''mission_failed'') wk
         (''Mission '' @ m_id m @ '' rolled up to '' @ mission_value ?target @ '' after graph terminalization'')
         [(''task_id'', JStr (t_id task)), (''task_count'', JInt (int (length ?S))),
          (''mission_status'', JStr (mission_value ?target)),
          (''acceptance_status'', JStr (if ?rs = [] then ''met'' else ''partially_met''))]
         (map_db (save_mission x) w2))"
      have w2: "db_tasks (w_db w2) = db_tasks (w_db w)" "find_mission (m_id m) (w_db w2) = Some ?m1"
        using assms(2) by (simp_all add: w2_def w0_def find_mission_def map_db_def save_mission_def)
      have save2: "db_tasks (w_db (map_db (save_mission x) w2)) = db_tasks (w_db w)"
        "m_id x = m_id m \<Longrightarrow> find_mission (m_id m) (w_db (map_db (save_mission x) w2)) = Some x" for x
        using w2 by (simp_all add: find_mission_def map_db_def save_mission_def)
      have F: "db_tasks (w_db (F x)) = db_tasks (w_db w)" "m_id x = m_id m \<Longrightarrow> find_mission (m_id m) (w_db (F x)) = Some x" for x
        using save2 by (simp_all add: F_def find_mission_def)
      have eq: "roll_mission K task wk m w =
          (case (if runs_from (m_status ?m1) then transition_mission ?m1 MRunning else Inr ?m1) of
             Inl e \<Rightarrow> (Inr (), w2)
           | Inr m2 \<Rightarrow> (case transition_mission m2 ?target of
               Inl e \<Rightarrow> (Inr (), map_db (save_mission m2) w2) | Inr m3 \<Rightarrow> (Inr (), F m3)))"
        unfolding roll_mission_def Let_def w2_def w0_def F_def using True Inr by simp
      show ?thesis
      proof (cases "if runs_from (m_status ?m1) then transition_mission ?m1 MRunning else Inr ?m1")
        case (Inl e)
        then have "w' = w2" using assms(1) eq by simp
        then show ?thesis using w2 assms(3) by simp
      next
        case (Inr m2)
        have m2: "m_id m2 = m_id m" "\<not> terminal_mission (m_status m2)"
          using Inr assms(3) by (auto simp: transition_mission_Inr terminal_mission_def split: if_splits)
        show ?thesis
        proof (cases "transition_mission m2 ?target")
          case (Inl e)
          then have "w' = map_db (save_mission m2) w2" using assms(1) eq Inr by simp
          then show ?thesis using save2 m2 by simp
        next
          case (Inr m3)
          have m3: "m_id m3 = m_id m" "m_status m3 = ?target" using transition_mission_sets [OF Inr] m2 by simp_all
          have "w' = F m3" using assms(1) eq \<open>_ = Inr m2\<close> Inr by simp
          then show ?thesis using F m3 \<open>verdict_holds ?target ?S\<close> by simp
        qed
      qed
    qed
  qed
qed

lemma block_missions [simp]: "db_missions (w_db (map_db (block_dependents i) w)) = db_missions (w_db w)"
  by (simp add: map_db_def block_dependents_def Let_def)

lemma review_hold_open:
  "\<not> terminal_mission (m_status m) \<Longrightarrow> \<not> terminal_mission (m_status (reconcile_review_hold now t m d)) \<and>
     m_id (reconcile_review_hold now t m d) = m_id m \<and> m_tenant_id (reconcile_review_hold now t m d) = m_tenant_id m"
  by (simp add: reconcile_review_hold_def terminal_mission_def Let_def)

lemma rollup_sound:
  assumes "rollup_mission n K task wk w = (Inr (), w')" and "t_mission_id task = Some i"
    and "find_mission i (w_db w) = Some m" and "m_tenant_id m = t_tenant_id task" and "\<not> terminal_mission (m_status m)"
  shows "\<not> any_blocked i (w_db w') \<and>
    (\<exists>m'. find_mission i (w_db w') = Some m' \<and> verdict_holds (m_status m') (list_for_mission i (w_db w')))"
  using assms(1,3,4,5)
proof (induction n arbitrary: w m)
  case (Suc n)
  let ?m1 = "reconcile_review_hold (w_clock w) (t_tenant_id task) m (w_db w)"
  let ?w1 = "map_db (save_mission ?m1) w"
  have mid: "m_id m = i" using Suc.prems(2) by (simp add: find_mission_def find_row_key)
  note open1 = review_hold_open [OF Suc.prems(4), of "w_clock w" "t_tenant_id task" "w_db w"]
  have get: "get_mission_for_tenant i (t_tenant_id task) w = (Some ?m1, ?w1)"
    using Suc.prems by (simp add: get_mission_for_tenant_def Let_def)
  have find1: "find_mission i (w_db ?w1) = Some ?m1"
    using Suc.prems(2) open1 mid by (simp add: find_mission_def map_db_def save_mission_def)
  let ?ids = "map t_id (list_for_mission i (w_db ?w1))"
  obtain r2 w2 where rec: "recover_dependents ?ids i wk ?w1 = (r2, w2)" by (cases "recover_dependents ?ids i wk ?w1")
  obtain r3 w3 where red: "redispatch_dependents ?ids i wk w2 = (r3, w3)" by (cases "redispatch_dependents ?ids i wk w2")
  show ?case
  proof (cases "?ids = []")
    case True
    then have "w' = ?w1" using Suc.prems(1) assms(2) get open1 by (simp add: Let_def)
    then show ?thesis using True find1 open1 by (simp add: any_blocked_def)
  next
    case False
    then have ok: "r2 = Inr ()" "r3 = Inr ()"
      using Suc.prems(1) assms(2) get rec red open1 by (auto simp: Let_def split: sum.splits)
    have find3: "find_mission i (w_db w3) = Some ?m1"
      using find1 recover_missions [OF rec] redispatch_missions [OF red] by (simp add: find_mission_def)
    show ?thesis
    proof (cases "any_blocked i (w_db w3)")
      case True
      have "rollup_mission n K task wk (map_db (block_dependents i) w3) = (Inr (), w')"
        using Suc.prems(1) assms(2) get rec red open1 ok False True by (simp add: Let_def)
      moreover have "find_mission i (w_db (map_db (block_dependents i) w3)) = Some ?m1"
        using find3 by (simp add: find_mission_def)
      ultimately show ?thesis using Suc.IH [of _ ?m1] open1 Suc.prems(3) by simp
    next
      case still: False
      have "roll_mission K task wk ?m1 w3 = (Inr (), w')"
        using Suc.prems(1) assms(2) get rec red open1 ok False still by (simp add: Let_def)
      then show ?thesis
        using roll_verdict [of K task wk ?m1 w3 w'] find3 open1 mid still by (simp add: any_blocked_def list_for_mission_def)
    qed
  qed
qed simp

text \<open>The guard of the loop, over the tasks and their dependencies.\<close>

lemma blocked_edge:
  assumes "x \<in> set (list_for_mission i d)" and "t_status x \<in> {TPlanned, TQueued, TClaimed}"
    and "list_of (map_of (t_metadata x) ''dependency_keys'') = Some deps" and "v \<in> set deps" and "key_text v = Some k"
    and "f \<in> set (list_for_mission i d)" and "t_status f \<in> {TFailed, TDeadLettered, TBlocked}" and "raw_node_key f = Some k"
  shows "any_blocked i d"
proof -
  have "k \<in> failed_node_keys (list_for_mission i d)"
    using assms(6-8) by (auto simp: failed_node_keys_def set_map_filter failedish_def intro!: bexI [of _ f])
  moreover have "k \<in> set (List.map_filter key_text deps)" using assms(4,5) by (auto simp: set_map_filter)
  ultimately have "failed_dependencies (failed_node_keys (list_for_mission i d)) x \<noteq> []"
    using assms(3) by (auto simp: failed_dependencies_def filter_empty_conv)
  then show ?thesis using assms(1,2) by (auto simp: any_blocked_def list_ex_iff blocks_def)
qed

text \<open>
  C11: what a rollup that returns has established, for a mission that was not terminal before. In the state it leaves no planned, queued or
  claimed task of the mission has a failed, dead-lettered or blocked task among its dependencies, however many edges the failure had
  to travel; a mission it completed or failed has only terminal tasks; and a completed mission has only completed and cancelled tasks.
\<close>

theorem rollup_verdict_sound:
  assumes "rollup_mission n K task wk w = (Inr (), w')" and "t_mission_id task = Some i"
    and "find_mission i (w_db w) = Some m" and "m_tenant_id m = t_tenant_id task" and "\<not> terminal_mission (m_status m)"
  shows "\<not> (\<exists>x f deps v k. x \<in> set (list_for_mission i (w_db w')) \<and> f \<in> set (list_for_mission i (w_db w')) \<and>
      t_status x \<in> {TPlanned, TQueued, TClaimed} \<and> list_of (map_of (t_metadata x) ''dependency_keys'') = Some deps \<and>
      v \<in> set deps \<and> key_text v = Some k \<and> t_status f \<in> {TFailed, TDeadLettered, TBlocked} \<and> raw_node_key f = Some k) \<and>
    (\<exists>m'. find_mission i (w_db w') = Some m' \<and>
      (m_status m' \<in> {MCompleted, MFailed} \<longrightarrow> list_all (\<lambda>x. terminal_task (t_status x)) (list_for_mission i (w_db w'))) \<and>
      (m_status m' = MCompleted \<longrightarrow> list_all (\<lambda>x. t_status x \<in> {TCompleted, TCancelled}) (list_for_mission i (w_db w'))))"
  using rollup_sound [OF assms] by (auto simp: verdict_holds_def simp del: insert_iff dest: blocked_edge)

theorem rollup_verdict_sound_witness:
  "map t_status (list_for_mission ''m'' (w_db (snd (rollup_mission 5 plain_runtime (graph_task ''1'' TFailed ''a'' [] []) ''w'' failed_chain)))) =
     [TFailed, TBlocked, TBlocked] \<and>
   (\<exists>m'. find_mission ''m'' (w_db (snd (rollup_mission 5 plain_runtime (graph_task ''1'' TFailed ''a'' [] []) ''w'' failed_chain))) = Some m' \<and>
     m_status m' = MFailed)"
proof -
  let ?r = "rollup_mission 5 plain_runtime (graph_task ''1'' TFailed ''a'' [] []) ''w'' failed_chain"
  have run: "fst ?r = Inr ()" "map t_status (list_for_mission ''m'' (w_db (snd ?r))) = [TFailed, TBlocked, TBlocked]"
    "map_option m_status (find_mission ''m'' (w_db (snd ?r))) = Some MFailed" by code_simp+
  then have "?r = (Inr (), snd ?r)" by (simp add: prod_eq_iff)
  from rollup_verdict_sound [OF this, of "''m''" graph_mission] run(2,3) show ?thesis
    by (auto simp: graph_task_def example_task_def failed_chain_def graph_world_def graph_mission_def find_mission_def
        find_row_def terminal_mission_def Let_def)
qed

text \<open>
  The comment of the loop speaks of every open dependent. One that waits for a review is not among them: its mission goes on running
  although the task it depends on has failed.
\<close>

definition failed_before_review :: "unit world" where
  "failed_before_review = graph_world [graph_task ''1'' TFailed ''a'' [] [], graph_task ''2'' TPendingReview ''b'' [''a''] []]"

lemma review_outlives_failure:
  "(let r = rollup_mission 5 plain_runtime (graph_task ''1'' TFailed ''a'' [] []) ''w'' failed_before_review
    in fst r = Inr () \<and> map t_status (db_tasks (w_db (snd r))) = [TFailed, TPendingReview] \<and>
      map m_status (db_missions (w_db (snd r))) = [MRunning])"
  by code_simp

end
