(* ===== verification/Observation.thy ===== *)
theory Observation
  imports Ledger
begin

section \<open>Descriptions of information\<close>

text \<open>
  \<open>backend/services/runtime_information_observation.py\<close>: what the runtime writes into an audit event
  about a payload in place of the payload. A value of the payload that JSON has no type for does not occur;
  a time stamp is a text. The digest is the one of the ledger's host.
\<close>

subsection \<open>Names that may be written\<close>

definition sensitive_fragments :: "string list" where
  "sensitive_fragments = [''secret'', ''token'', ''password'', ''credential'', ''authorization'', ''api_key'', ''cookie'']"

fun occurs_in :: "string \<Rightarrow> string \<Rightarrow> bool" where
  "occurs_in p [] = (p = [])"
| "occurs_in p (c # cs) = (starts_with (c # cs) p \<or> occurs_in p cs)"

definition key_start :: "char \<Rightarrow> bool" where
  "key_start c \<longleftrightarrow> c \<in> set ''abcdefghijklmnopqrstuvwxyz''"

definition is_digit :: "char \<Rightarrow> bool" where
  "is_digit c \<longleftrightarrow> c \<in> set ''0123456789''"

definition key_body :: "char \<Rightarrow> bool" where
  "key_body c \<longleftrightarrow> key_start c \<or> is_digit c \<or> c \<in> set ''_.-''"

text \<open>The rest of the pattern after its first character: body characters and indices of one or two digits.\<close>

fun key_rest :: "string \<Rightarrow> bool" where
  "key_rest [] = True"
| "key_rest (c # cs) =
     (if key_body c then key_rest cs
      else c = CHR ''['' \<and>
        (case cs of
           d # e # r \<Rightarrow>
             is_digit d \<and>
             (if e = CHR '']'' then key_rest r
              else is_digit e \<and> (case r of [] \<Rightarrow> False | f # r2 \<Rightarrow> f = CHR '']'' \<and> key_rest r2))
         | _ \<Rightarrow> False))"

definition technical_key :: "string \<Rightarrow> bool" where
  "technical_key s \<longleftrightarrow> (case s of [] \<Rightarrow> False | c # cs \<Rightarrow> key_start c \<and> key_rest cs)"

definition public_key :: "string \<Rightarrow> bool" where
  "public_key k \<longleftrightarrow> length k \<le> 80 \<and> technical_key k \<and> \<not> list_ex (\<lambda>part. occurs_in part (lower_text k)) sensitive_fragments"

definition safe_decision_keys :: "string list \<Rightarrow> nat \<Rightarrow> string list" where
  "safe_decision_keys values limit =
     map (\<lambda>v. if length v \<le> 80 \<and> technical_key v then v else ''[redacted]'') (take limit values)"

subsection \<open>The structure of a value\<close>

fun kind_name :: "json \<Rightarrow> string" where
  "kind_name (JObj kvs) = ''object''"
| "kind_name (JArr xs) = ''array''"
| "kind_name JNull = ''null''"
| "kind_name (JBool b) = ''bool''"
| "kind_name (JInt n) = ''int''"
| "kind_name (JFloat r) = ''float''"
| "kind_name (JStr s) = ''str''"
| "kind_name (JStamp t) = ''str''"

fun nonempty_container :: "json \<Rightarrow> bool" where
  "nonempty_container (JObj kvs) = (kvs \<noteq> [])"
| "nonempty_container (JArr xs) = (xs \<noteq> [])"
| "nonempty_container v = False"

type_synonym walk_state = "(string \<times> string) list \<times> bool"

definition max_depth :: nat where "max_depth = 4"
definition max_paths :: nat where "max_paths = 80"

definition child_path :: "string \<Rightarrow> string \<Rightarrow> string" where
  "child_path path k = (if path = [] then k else path @ ''.'' @ k)"

text \<open>\<open>walk\<close>: the first argument is how many levels \<open>max_depth\<close> leaves below the value.\<close>

fun walk :: "nat \<Rightarrow> json \<Rightarrow> string \<Rightarrow> walk_state \<Rightarrow> walk_state" where
  "walk n v path (paths, truncated) =
     (if length paths \<ge> max_paths then (paths, True)
      else let st = (paths @ [(if path = [] then ''$'' else path, kind_name v)], truncated)
           in case n of
                0 \<Rightarrow> (fst st, truncated \<or> nonempty_container v)
              | Suc m \<Rightarrow>
                  (case v of
                     JObj kvs \<Rightarrow>
                       fold (\<lambda>kv st. if public_key (fst kv) then walk m (snd kv) (child_path path (fst kv)) st
                                     else (fst st, True)) (sort_key fst kvs) st
                   | JArr (x # xs) \<Rightarrow>
                       (let st1 = walk m x (path @ ''[]'') st in (fst st1, snd st1 \<or> xs \<noteq> []))
                   | _ \<Rightarrow> st))"

declare walk.simps [simp del]

definition structural_paths :: "json \<Rightarrow> walk_state" where
  "structural_paths v = walk max_depth v [] ([], False)"

fun item_count :: "json \<Rightarrow> nat" where
  "item_count (JObj kvs) = length kvs"
| "item_count (JArr xs) = length xs"
| "item_count JNull = 0"
| "item_count v = 1"

fun public_names :: "json \<Rightarrow> string list" where
  "public_names (JObj kvs) = filter public_key (sort (map fst kvs))"
| "public_names v = []"

definition path_object :: "string \<times> string \<Rightarrow> json" where
  "path_object p = JObj [(''path'', JStr (fst p)), (''type'', JStr (snd p))]"

definition describe_information :: "ledger_host \<Rightarrow> json \<Rightarrow> dict" where
  "describe_information H v =
     (let names = public_names v; (paths, nested_truncated) = structural_paths v;
          shape = JStr (kind_name v); count = JInt (int (item_count v));
          field_names = JArr (map JStr (take 64 names)); path_list = JArr (map path_object paths)
      in [(''shape'', shape), (''item_count'', count), (''field_names'', field_names),
          (''field_name_count'', JInt (int (length names))),
          (''truncated'', JBool (length names > 64 \<or> nested_truncated)), (''structural_paths'', path_list),
          (''sha256'', JStr (integrity_hash H
             [(''shape'', shape), (''count'', count), (''field_names'', field_names), (''paths'', path_list)]))])"

subsection \<open>No value is described\<close>

text \<open>A payload without its contents: every leaf is emptied and what is under a name that is not public is dropped.\<close>

function (sequential) redact :: "json \<Rightarrow> json" where
  "redact (JArr xs) = JArr (map redact xs)"
| "redact (JObj kvs) = JObj (map (\<lambda>kv. (fst kv, if public_key (fst kv) then redact (snd kv) else JNull)) kvs)"
| "redact (JStr s) = JStr []"
| "redact (JStamp t) = JStr []"
| "redact (JInt n) = JInt 0"
| "redact (JFloat r) = JFloat 0"
| "redact (JBool b) = JBool False"
| "redact JNull = JNull"
  by pat_completeness auto

termination
proof (relation "measure size")
  fix xs :: "json list" and x
  show "x \<in> set xs \<Longrightarrow> (x, JArr xs) \<in> measure size"
    by (induction xs) auto
next
  fix kvs :: "(string \<times> json) list" and kv
  assume "kv \<in> set kvs"
  then show "(snd kv, JObj kvs) \<in> measure size" using size_pair_member [of kv kvs] by (simp add: size_prod_simp)
qed simp

lemma redact_kind [simp]: "kind_name (redact v) = kind_name v" "nonempty_container (redact v) = nonempty_container v"
  "item_count (redact v) = item_count v"
  by (cases v; simp)+

lemma sort_key_map_fst:
  "sort_key fst (map (\<lambda>kv. (fst kv, g kv)) kvs) = map (\<lambda>kv. (fst kv, g kv)) (sort_key fst kvs)"
proof -
  have "insort_key fst (fst x, g x) (map (\<lambda>kv. (fst kv, g kv)) xs) = map (\<lambda>kv. (fst kv, g kv)) (insort_key fst x xs)" for x xs
    by (induction xs) auto
  then show ?thesis by (induction kvs) (simp_all add: sort_key_def)
qed

lemma redact_names [simp]: "public_names (redact v) = public_names v"
  by (cases v) (simp_all add: comp_def)

lemma fold_map_same: "(\<And>x st. x \<in> set xs \<Longrightarrow> f (h x) st = g x st) \<Longrightarrow> fold f (map h xs) st = fold g xs st"
  by (induction xs arbitrary: st) simp_all

lemma walk_redact: "walk n (redact v) path st = walk n v path st"
proof (induction n arbitrary: v path st)
  case 0
  then show ?case by (cases st) (simp add: walk.simps)
next
  case (Suc m)
  obtain paths tr where st: "st = (paths, tr)" by (cases st)
  show ?case
  proof (cases v)
    case (JObj kvs)
    let ?h = "\<lambda>kv. (fst kv, if public_key (fst kv) then redact (snd kv) else JNull)"
    have "fold (\<lambda>kv st. if public_key (fst kv) then walk m (snd kv) (child_path path (fst kv)) st else (fst st, True))
        (sort_key fst (map ?h kvs)) s =
      fold (\<lambda>kv st. if public_key (fst kv) then walk m (snd kv) (child_path path (fst kv)) st else (fst st, True))
        (sort_key fst kvs) s" for s
      unfolding sort_key_map_fst by (rule fold_map_same) (simp add: Suc.IH)
    then show ?thesis by (simp add: st JObj walk.simps [of "Suc m"] Let_def)
  next
    case (JArr xs)
    then show ?thesis by (cases xs) (simp_all add: st walk.simps [of "Suc m"] Suc.IH Let_def)
  qed (simp_all add: st walk.simps [of "Suc m"])
qed

text \<open>
  C31: a description depends on the structure of a payload alone. Emptying every text, number and
  flag of a payload, and dropping everything under a name that is too long, not technical or
  sensitive, does not change its description: no value of the payload, and nothing below a sensitive name,
  can reach the audit event, by the digest neither.
\<close>

theorem description_reveals_no_value: "describe_information H (redact v) = describe_information H v"
  by (simp add: describe_information_def structural_paths_def walk_redact)

subsection \<open>Bounds\<close>

definition bounded_state :: "walk_state \<Rightarrow> bool" where
  "bounded_state st \<longleftrightarrow> length (fst st) \<le> max_paths \<and> list_all (\<lambda>p. length (fst p) \<le> 81 * max_depth) (fst st)"

lemma bounded_flag: "bounded_state (ps, b) \<Longrightarrow> bounded_state (ps, c)"
  by (simp add: bounded_state_def)

lemma bounded_fst [simp]: "bounded_state (fst st, b) \<longleftrightarrow> bounded_state st"
  by (simp add: bounded_state_def)

lemma bounded_fold:
  "bounded_state st \<Longrightarrow> (\<And>x st. x \<in> set xs \<Longrightarrow> bounded_state st \<Longrightarrow> bounded_state (f x st)) \<Longrightarrow> bounded_state (fold f xs st)"
  by (induction xs arbitrary: st) simp_all

lemma bounded_snoc:
  "bounded_state (ps, b) \<Longrightarrow> length ps < max_paths \<Longrightarrow> length (fst p) \<le> 81 * max_depth \<Longrightarrow> bounded_state (ps @ [p], c)"
  by (simp add: bounded_state_def)

lemma child_path_length: "public_key k \<Longrightarrow> length (child_path path k) \<le> length path + 81"
  by (simp add: child_path_def public_key_def)

lemma walk_bounded:
  "length path + 81 * n \<le> 81 * max_depth \<Longrightarrow> bounded_state st \<Longrightarrow> bounded_state (walk n v path st)"
proof (induction n arbitrary: v path st)
  case 0
  obtain ps b where st: "st = (ps, b)" by (cases st)
  have "length ps < max_paths \<Longrightarrow> bounded_state (ps @ [(if path = [] then ''$'' else path, kind_name v)], b \<or> nonempty_container v)"
    using 0 bounded_snoc [of ps b] by (simp add: st max_depth_def)
  moreover have "bounded_state (ps, True)" using 0(2) bounded_flag st by blast
  ultimately show ?case by (simp add: st walk.simps)
next
  case (Suc m)
  obtain ps b where st: "st = (ps, b)" by (cases st)
  show ?case
  proof (cases "length ps \<ge> max_paths")
    case True
    then show ?thesis using Suc.prems(2) bounded_flag by (simp add: st walk.simps)
  next
    case False
    let ?s = "(ps @ [(if path = [] then ''$'' else path, kind_name v)], b)"
    have s: "bounded_state ?s"
      using Suc.prems False bounded_snoc [of ps b] by (simp add: st max_depth_def)
    show ?thesis
    proof (cases v)
      case (JObj kvs)
      let ?f = "\<lambda>kv st. if public_key (fst kv) then walk m (snd kv) (child_path path (fst kv)) st else (fst st, True)"
      have step: "bounded_state (?f kv s)" if "bounded_state s" for kv s
      proof (cases "public_key (fst kv)")
        case True
        then show ?thesis
          using Suc.IH [of "child_path path (fst kv)" s "snd kv"] child_path_length [of "fst kv" path] Suc.prems(1) that by simp
      next
        case False
        then show ?thesis using that by simp
      qed
      have "bounded_state (fold ?f (sort_key fst kvs) ?s)"
        by (rule bounded_fold [OF s]) (rule step)
      then show ?thesis using False by (simp add: st JObj walk.simps [of "Suc m"])
    next
      case (JArr xs)
      show ?thesis
      proof (cases xs)
        case (Cons x ys)
        have "bounded_state (walk m x (path @ ''[]'') ?s)"
          using Suc.IH [of "path @ ''[]''" ?s x] Suc.prems(1) s by simp
        then show ?thesis using False by (simp add: st JArr Cons walk.simps [of "Suc m"] Let_def)
      qed (use False s in \<open>simp add: st JArr walk.simps [of "Suc m"]\<close>)
    qed (use False s in \<open>simp_all add: st walk.simps [of "Suc m"]\<close>)
  qed
qed

lemma structural_bounded: "bounded_state (structural_paths v)"
  unfolding structural_paths_def by (rule walk_bounded) (simp_all add: bounded_state_def)

text \<open>
  A description is small whatever the payload is. It lists at most 80 structural paths of at most 324
  characters and at most 64 names, and every name it lists is technical, at most 80 characters long and
  free of the sensitive fragments.
\<close>

theorem description_is_bounded:
  "\<exists>paths names. map_of (describe_information H v) ''structural_paths'' = Some (JArr (map path_object paths)) \<and>
     map_of (describe_information H v) ''field_names'' = Some (JArr (map JStr names)) \<and>
     length paths \<le> 80 \<and> list_all (\<lambda>p. length (fst p) \<le> 324) paths \<and> length names \<le> 64 \<and> list_all public_key names"
proof -
  obtain paths tr where p: "structural_paths v = (paths, tr)" by (cases "structural_paths v")
  have "list_all public_key (public_names v)" by (cases v) (simp_all add: list_all_iff)
  then have "list_all public_key (take 64 (public_names v))" by (auto simp: list_all_iff dest: in_set_takeD)
  moreover have "length paths \<le> 80 \<and> list_all (\<lambda>p. length (fst p) \<le> 324) paths"
    using structural_bounded [of v] p by (simp add: bounded_state_def max_paths_def max_depth_def)
  ultimately show ?thesis
    by (intro exI [of _ paths] exI [of _ "take 64 (public_names v)"])
      (simp add: describe_information_def p Let_def)
qed

end
