(* ===== verification/Contracts.thy ===== *)
theory Contracts
  imports TaskGraph Observation
begin

section \<open>What the worker runtime makes of a task's output\<close>

text \<open>
  The functions of \<open>backend/services/worker_runtime_contracts.py\<close> and
  \<open>worker_runtime_outcome_review.py\<close> over a task and its output, and the observations of
  \<open>worker_runtime_service.py\<close> about it: the declared output contract, the projection of the output onto the
  task, the evidence of a failure, the draft of an outcome review. The table of artifact schemas with its
  validator and the test for a proven empty artifact are functions of the \<open>runtime_host\<close>.

  A value that is printed into a message is a text, a whole number, a boolean or None.
\<close>

definition shown :: "json \<Rightarrow> string" where
  "shown v = (case key_text v of None \<Rightarrow> [] | Some s \<Rightarrow> s)"

definition text_at :: "dict \<Rightarrow> string \<Rightarrow> string option" where
  "text_at d k = (case map_of d k of None \<Rightarrow> None | Some v \<Rightarrow> text_of v)"

definition set_fields :: "dict \<Rightarrow> dict \<Rightarrow> dict" where
  "set_fields d new = fold (\<lambda>(k, v) d. AList.update k v d) new d"

subsection \<open>The output contract\<close>

definition output_contract_of :: "dict \<Rightarrow> dict option" where
  "output_contract_of metadata =
     (let given = value_at metadata ''expected_output_contract'';
          contract = (if given = JNull then value_at metadata ''output_contract'' else given)
      in case contract of JObj c \<Rightarrow> if c = [] then None else Some c | _ \<Rightarrow> None)"

definition public_discovery_stage :: "dict \<Rightarrow> dict \<Rightarrow> bool" where
  "public_discovery_stage contract metadata \<longleftrightarrow>
     map_of contract ''allow_empty'' = Some (JBool True) \<and>
     (case dict_of (map_of metadata ''tool_invocation'') of
        None \<Rightarrow> False
      | Some invocation \<Rightarrow>
          map_of invocation ''action'' = Some (JStr ''web.research'') \<and>
          (case dict_of (map_of invocation ''input'') of
             None \<Rightarrow> False
           | Some given \<Rightarrow> map_of given ''include_public_search'' = Some (JBool True)))"

definition artifact_error_texts :: "dict \<Rightarrow> json \<Rightarrow> string list \<Rightarrow> string list" where
  "artifact_error_texts output payload errors =
     (let reported = (case payload of
            JObj p \<Rightarrow> (case text_at p ''error'' of None \<Rightarrow> [] | Some e \<Rightarrow> [''handler reported failure: '' @ take 500 e])
          | _ \<Rightarrow> []);
          gap = (case text_at output ''research_gap'' of
            None \<Rightarrow> [] | Some g \<Rightarrow> if strip g = [] then [] else [''research gap: '' @ take 500 g])
      in gap @ reported @ errors)"

definition validate_declared_output :: "runtime_host \<Rightarrow> execution_task \<Rightarrow> dict option \<Rightarrow> unit result" where
  "validate_declared_output K task task_output =
     (case output_contract_of (t_metadata task) of
        None \<Rightarrow> Inr ()
      | Some contract \<Rightarrow>
          (case stripped_text (map_of contract ''artifact'') of
             None \<Rightarrow> Inl (ValueError ''declared output contract must include a non-empty artifact'')
           | Some artifact \<Rightarrow>
               (let no_output = Inl (ValueError (''completed task must provide output for declared artifact '' @ quoted artifact))
                in case task_output of
                  None \<Rightarrow> no_output
                | Some given \<Rightarrow>
                    (case dict_of (map_of given ''output'') of
                       None \<Rightarrow> no_output
                     | Some output \<Rightarrow>
                         (let payload = value_at output artifact
                          in if payload = JNull
                             then Inl (ValueError (''completed task must emit declared artifact '' @ quoted artifact))
                             else case rh_artifact_errors K artifact payload of
                               None \<Rightarrow> Inr ()
                             | Some errors \<Rightarrow>
                                 if map_of contract ''materialization_role'' = Some (JStr ''intermediate'')
                                 then (if public_discovery_stage contract (t_metadata task) then Inr ()
                                       else Inl (ValueError ''intermediate output contract is only permitted for public web discovery''))
                                 else if rh_proven_empty K artifact payload output \<or> errors = [] then Inr ()
                                 else Inl (ValueError (''declared artifact '' @ quoted artifact @ '' failed schema validation: '' @
                                        joined (artifact_error_texts output payload errors))))))))"

subsection \<open>Projections of the output\<close>

definition mirror_task_output :: "dict \<Rightarrow> dict" where
  "mirror_task_output task_output =
     [(''handler_result'', JObj task_output),
      (''output'', if value_at task_output ''output'' \<noteq> JNull then value_at task_output ''output'' else JObj task_output)]"

definition materialized_artifact_reference :: "execution_task \<Rightarrow> uuid list \<Rightarrow> dict list" where
  "materialized_artifact_reference task evidence_ids =
     (case dict_of (map_of (t_metadata task) ''expected_output_contract'') of
        None \<Rightarrow> []
      | Some contract \<Rightarrow>
          (case (stripped_text (map_of contract ''artifact''), evidence_ids) of
             (Some artifact, e # _) \<Rightarrow>
               [[(''artifact_id'', JStr e), (''artifact_key'', JStr artifact), (''evidence_id'', JStr e)]]
           | _ \<Rightarrow> []))"

definition failure_evidence_columns :: "execution_task \<Rightarrow> uuid \<Rightarrow> string \<Rightarrow> string \<Rightarrow> dict" where
  "failure_evidence_columns task lease worker reason =
     (let graph = filter (\<lambda>(k, v). k \<in> {''graph_version'', ''graph_fingerprint'', ''graph_node_key''}) (t_metadata task)
      in [(''mission_id'', opt_str (t_mission_id task)),
          (''task_graph_node_key'', opt_str (text_at (t_metadata task) ''graph_node_key'')),
          (''materialization_reference'', if graph = [] then JNull else JObj graph),
          (''execution_task_id'', JStr (t_id task)), (''evidence_type'', JStr ''validation''),
          (''evidence_source'', JStr ''worker_runtime.fail''),
          (''summary'', JStr (take 4000 (''Task '' @ t_id task @ '' failed: '' @ reason))),
          (''structured_payload'', JObj
             [(''task_id'', JStr (t_id task)), (''lease_id'', JStr lease), (''worker_id'', JStr worker),
              (''failure_code'', JStr ''HANDLER_FAILED''), (''reason'', JStr reason), (''artifact_produced'', JBool False)]),
          (''artifact_references'', JArr []),
          (''provenance_metadata'', JObj
             [(''runtime_path'', JStr ''WorkerRuntimeService.fail''), (''tenant_isolation'', JStr (t_tenant_id task))]),
          (''trust_signal'', JObj [(''runtime_authoritative'', JBool True), (''failure_only'', JBool True)]),
          (''confidence'', JFloat 1), (''collection_status'', JStr ''rejected''), (''schema_version'', JInt 1)])"

subsection \<open>What is observed of a tool's output\<close>

definition safe_output_names :: "string list" where
  "safe_output_names =
     [''include_public_search'', ''local_fixture_only'', ''exclude_internal_records'', ''public_search_real'',
      ''web_result_count'', ''internal_count'', ''prospect_count'', ''verified_public_candidate_count'',
      ''rejected_public_candidates'', ''source'', ''access_mode'', ''business_context_source'', ''research_gap'',
      ''valid_empty_result'', ''provider_attempts'']"

definition safe_input_names :: "string list" where
  "safe_input_names =
     [''include_public_search'', ''local_fixture_only'', ''exclude_internal_records'', ''binding_required'', ''collect_contacts'']"

definition picked :: "string list \<Rightarrow> dict \<Rightarrow> dict" where
  "picked names d = List.map_filter (\<lambda>k. map_option (Pair k) (map_of d k)) names"

fun semicolons :: "string list \<Rightarrow> string" where
  "semicolons [] = []"
| "semicolons [x] = x"
| "semicolons (x # y # xs) = x @ '';'' @ semicolons (y # xs)"

definition partition_text :: "dict \<Rightarrow> string" where
  "partition_text p =
     semicolons (map (\<lambda>(k, v). k @ ''='' @ shown v) (picked [''candidate_count'', ''result_count'', ''provider_observed''] p))"

definition source_provenance :: "dict \<Rightarrow> (string \<times> string) list" where
  "source_provenance output =
     List.map_filter (\<lambda>(name, v). map_option (\<lambda>p. (name, partition_text p)) (dict_of (Some v)))
       (inner_dict output ''source_partitions'')"

definition output_source :: "dict \<Rightarrow> string" where
  "output_source output =
     (if get_truthy output ''source'' then shown (value_at output ''source'')
      else if get_truthy output ''access_mode'' then shown (value_at output ''access_mode'') else ''unknown'')"

text \<open>\<open>_causal_observation_for_tool_output\<close>: the constructor of an observation may raise.\<close>

definition tool_output_observations :: "execution_task \<Rightarrow> dict \<Rightarrow> causal_observation list result" where
  "tool_output_observations task task_output =
     (case text_at task_output ''action'' of
        None \<Rightarrow> Inr []
      | Some action \<Rightarrow>
          (let output = inner_dict task_output ''output'';
               given = inner_dict (inner_dict (t_metadata task) ''tool_invocation'') ''input'';
               safe = picked safe_output_names output @ map (\<lambda>(k, v). (''input_'' @ k, v)) (picked safe_input_names given);
               provenance = source_provenance output; source = output_source output;
               public_only = get_truthy given ''exclude_internal_records'';
               constraints = (if public_only then [''public_only''] else []);
               classified = \<lparr>co_schema_version = 1, co_stage = ''tool_output'', co_decision = ''provider_output_classified'',
                 co_reason_code = (if public_only then ''public_only_research'' else ''tool_invocation''),
                 co_transformation_id = Some (''tool:'' @ action @ '':output:v1''), co_alternatives = [],
                 co_selected_path = Some source, co_rejected_paths = [], co_source_provenance = provenance,
                 co_field_lineage = [(''tool.input.include_public_search'', ''mission.constraints.public_source_scope''),
                   (''tool.input.local_fixture_only'', ''mission.constraints.fixture_scope''),
                   (''tool.output.source'', ''provider_or_record_source'')],
                 co_constraints = constraints, co_safe_metadata = safe\<rparr>;
               partition = classified\<lparr>co_stage := ''source_partition'', co_decision := ''information_source_classified'',
                 co_reason_code := ''source_partition_observed'',
                 co_transformation_id := Some (''tool:'' @ action @ '':source-partition:v1''), co_field_lineage := []\<rparr>
           in bind_result (make_observation classified) (\<lambda>c.
                if provenance = [] then Inr [c]
                else bind_result (make_observation partition) (\<lambda>p. Inr [c, p]))))"

text \<open>\<open>_append_task_causal_observations\<close>: what does not parse is logged and left out.\<close>

definition task_observations :: "execution_task \<Rightarrow> causal_observation list" where
  "task_observations task =
     (case list_of (map_of (t_metadata task) ''runtime_causal_observations'') of
        None \<Rightarrow> []
      | Some raws \<Rightarrow> List.map_filter (\<lambda>raw. case dict_of (Some raw) of None \<Rightarrow> None | Some d \<Rightarrow> parse_observation d) raws)"

subsection \<open>The draft of an outcome review\<close>

definition gtm_side_effect_was_real :: "dict \<Rightarrow> bool" where
  "gtm_side_effect_was_real task_output =
     (case dict_of (map_of task_output ''output'') of
        Some nested \<Rightarrow> (if map_of nested ''real'' \<noteq> None then get_truthy nested ''real'' else get_truthy task_output ''real'')
      | None \<Rightarrow> get_truthy task_output ''real'')"

definition is_high_risk_gtm_side_effect :: "dict \<Rightarrow> bool" where
  "is_high_risk_gtm_side_effect task_output \<longleftrightarrow>
     task_output \<noteq> [] \<and>
     (case text_at task_output ''action'' of None \<Rightarrow> False | Some a \<Rightarrow> starts_with a ''gtm.'') \<and>
     (case text_at task_output ''side_effect_class'' of None \<Rightarrow> False
      | Some c \<Rightarrow> c \<in> {''external_send'', ''external_write'', ''external_publish''}) \<and>
     gtm_side_effect_was_real task_output"

text \<open>\<open>(d.get(k) or {})\<close> when only an object can be read further: None is the \<open>AttributeError\<close>.\<close>

definition object_or_empty :: "dict \<Rightarrow> string \<Rightarrow> dict option" where
  "object_or_empty d k = (if get_truthy d k then dict_of (map_of d k) else Some [])"

definition or_else :: "json \<Rightarrow> json \<Rightarrow> json" where
  "or_else v w = (if truthy v then v else w)"

definition outcome_review_columns :: "execution_task \<Rightarrow> dict \<Rightarrow> uuid list \<Rightarrow> dict option" where
  "outcome_review_columns task task_output evidence_ids =
     (case (object_or_empty (t_metadata task) ''tool_invocation'', object_or_empty (t_metadata task) ''execution_constraints'') of
        (Some invocation, Some constraints) \<Rightarrow>
          (case object_or_empty constraints ''side_effect_authorization'' of
             None \<Rightarrow> None
           | Some auth \<Rightarrow>
               (let action = or_else (value_at invocation ''action'')
                      (case map_of task_output ''action'' of None \<Rightarrow> JStr ''gtm.unknown'' | Some a \<Rightarrow> a);
                    why = or_else (value_at auth ''reason'') (JStr ''High-risk GTM side effect completed'')
                in Some
                 [(''mission_id'', opt_str (t_mission_id task)),
                  (''task_graph_reference'', JObj [(''execution_task_id'', JStr (t_id task)), (''action'', action)]),
                  (''reviewed_success_criteria'', JArr [JObj
                     [(''criteria'', JStr ''high-risk GTM action completed with evidence and guardian approval''), (''action'', action)]]),
                  (''evidence_references'', JArr (map (\<lambda>e. JObj [(''evidence_id'', JStr e)]) evidence_ids)),
                  (''review_status'', JStr ''draft''), (''review_decision'', JStr ''inconclusive''),
                  (''reviewer_type'', JStr ''system''),
                  (''reviewer_source'', or_else (value_at auth ''approved_by'') (JStr ''system'')),
                  (''review_summary'', JStr (''Auto-generated draft from completion of high-risk GTM action '' @ shown action @
                     ''. Reason: '' @ shown why)),
                  (''structured_findings'', JArr []), (''confidence'', JNull),
                  (''trust_signal'', JObj [(''source'', JStr ''worker_runtime_completion_bridge''),
                     (''side_effect_authorization'', JObj auth)]),
                  (''unresolved_gaps'', JArr []),
                  (''recommended_next_actions'', JArr [JObj [(''action'', JStr ''human_review''),
                     (''reason'', JStr ''high-risk external side effect'')]]),
                  (''human_approval_required'', JBool True), (''human_approval_status'', JStr ''pending'')]))
      | _ \<Rightarrow> None)"

definition mission_under_review :: "execution_task \<Rightarrow> db \<Rightarrow> bool" where
  "mission_under_review task d \<longleftrightarrow>
     list_ex (\<lambda>r. dr_tenant_id r = t_tenant_id task \<and> map_of (dr_columns r) ''mission_id'' = Some (opt_str (t_mission_id task)) \<and>
         map_of (dr_columns r) ''review_status'' \<in> {Some (JStr ''draft''), Some (JStr ''in_review'')}) (db_reviews d)"

definition create_draft_outcome_review :: "execution_task \<Rightarrow> dict \<Rightarrow> uuid list \<Rightarrow> 'q world \<Rightarrow> 'q world" where
  "create_draft_outcome_review task task_output evidence_ids w =
     (if mission_under_review task (w_db w) then w
      else case outcome_review_columns task task_output evidence_ids of
             None \<Rightarrow> w
           | Some columns \<Rightarrow>
               map_db (\<lambda>d. d\<lparr>db_reviews := db_reviews d @
                   [\<lparr>dr_id = w_ids w (w_next_id w), dr_tenant_id = t_tenant_id task, dr_columns = columns\<rparr>]\<rparr>)
                 (w\<lparr>w_next_id := w_next_id w + 1\<rparr>))"

end
