(* ===== verification/Worker.thy ===== *)
theory Worker
  imports Contracts
begin

section \<open>The worker runtime\<close>

text \<open>
  \<open>backend/services/worker_runtime_service.py\<close> with
  \<open>worker_runtime_queue_reconciliation.py\<close>: what a worker does with a task from the claim of
  its message to the release of its lease, and the cancellation of tasks and missions. An operation returns its
  result or the exception it raises with the state it leaves; the caller of an operation that raises
  closes the session, which is \<open>rollback\<close>. \<open>n\<close> is the depth the rollup may recurse to.

  The queue adapter's operations report failures as results here, they do not raise; logging is left out.
\<close>

definition andthen :: "'a result \<times> 'w \<Rightarrow> ('a \<Rightarrow> 'w \<Rightarrow> 'b result \<times> 'w) \<Rightarrow> 'b result \<times> 'w" where
  "andthen r f = (case r of (Inl e, w) \<Rightarrow> (Inl e, w) | (Inr x, w) \<Rightarrow> f x w)"

lemma andthen_simps [simp]: "andthen (Inl e, w) f = (Inl e, w)" "andthen (Inr x, w) f = f x w"
  by (simp_all add: andthen_def)

lemma andthen_Inr: "andthen r f = (Inr y, w2) \<longleftrightarrow> (\<exists>x w1. r = (Inr x, w1) \<and> f x w1 = (Inr y, w2))"
  by (cases r; cases "fst r") auto

text \<open>A change of a row: it is written back with its new value.\<close>

definition update_task :: "execution_task result \<Rightarrow> 'q world \<Rightarrow> execution_task result \<times> 'q world" where
  "update_task r w = (case r of Inl e \<Rightarrow> (Inl e, w) | Inr x \<Rightarrow> (Inr x, map_db (save_task x) w))"

definition update_lease :: "worker_lease result \<Rightarrow> 'q world \<Rightarrow> worker_lease result \<times> 'q world" where
  "update_lease r w = (case r of Inl e \<Rightarrow> (Inl e, w) | Inr l \<Rightarrow> (Inr l, map_db (save_lease l) w))"

definition on_queue :: "('q \<Rightarrow> 'a \<times> 'q) \<Rightarrow> 'q world \<Rightarrow> 'a \<times> 'q world" where
  "on_queue f w = (case f (w_queue w) of (x, q) \<Rightarrow> (x, w\<lparr>w_queue := q\<rparr>))"

definition live_lease :: "worker_lease \<Rightarrow> bool" where
  "live_lease l \<longleftrightarrow> l_status l \<in> {LClaimed, LActive}"

subsection \<open>Leases\<close>

definition get_owned_lease :: "string \<Rightarrow> uuid \<Rightarrow> string \<Rightarrow> db \<Rightarrow> worker_lease result" where
  "get_owned_lease tenant lid worker d =
     (case find_lease lid d of
        None \<Rightarrow> Inl (ValueError ''lease not found for tenant worker'')
      | Some l \<Rightarrow> if l_tenant_id l \<noteq> tenant \<or> l_holder_identity l \<noteq> worker
                  then Inl (ValueError ''lease not found for tenant worker'') else Inr l)"

definition get_task_for_lease :: "worker_lease \<Rightarrow> db \<Rightarrow> execution_task result" where
  "get_task_for_lease l d =
     (case find_task (l_task_id l) d of None \<Rightarrow> Inl (ValueError ''task not found'') | Some x \<Rightarrow> Inr x)"

definition assert_no_active_lease :: "string \<Rightarrow> uuid \<Rightarrow> db \<Rightarrow> unit result" where
  "assert_no_active_lease tenant k d =
     (if list_ex (\<lambda>l. l_tenant_id l = tenant \<and> l_task_id l = k \<and> live_lease l) (db_leases d)
      then Inl (ValueError ''task already has an active lease'') else Inr ())"

definition assert_current_releasable_claim :: "string \<Rightarrow> worker_lease \<Rightarrow> execution_task \<Rightarrow> unit result" where
  "assert_current_releasable_claim tenant l task =
     (if \<not> live_lease l then Inl (ValueError ''lease is not release-eligible'')
      else if t_tenant_id task \<noteq> tenant \<or> l_tenant_id l \<noteq> tenant then Inl (ValueError ''task not found for tenant lease'')
      else if t_status task \<noteq> TClaimed then Inl (ValueError ''task is not claimed'')
      else if map_of (t_metadata task) ''worker_lease_id'' \<noteq> Some (JStr (l_id l))
      then Inl (ValueError ''lease is not current task claim'') else Inr ())"

definition transition_lease_to_released :: "worker_lease \<Rightarrow> worker_lease result" where
  "transition_lease_to_released l =
     (if l_status l = LReleased then Inr l
      else bind_result (if l_status l = LClaimed then transition_lease l LActive else Inr l)
             (\<lambda>l1. transition_lease l1 LReleased))"

subsection \<open>Cleaning up after the queue\<close>

definition record_terminal_queue_cleanup_failure ::
  "'q queue_adapter \<Rightarrow> string \<Rightarrow> execution_task \<Rightarrow> worker_lease \<Rightarrow> string \<Rightarrow> string \<Rightarrow> string \<Rightarrow> string \<Rightarrow>
     'q world \<Rightarrow> 'q world" where
  "record_terminal_queue_cleanup_failure Q tenant task l worker queue_operation action reason w =
     commit Q (audit tenant (t_mission_id task) ''worker_queue_cleanup'' action worker
       (''Queue '' @ queue_operation @ '' cleanup failed after DB terminal commit for task '' @ t_id task @ '': '' @ reason)
       [(''task_id'', JStr (t_id task)), (''task_status'', JStr (task_value (t_status task))), (''lease_id'', JStr (l_id l)),
        (''lease_status'', JStr (lease_value (l_status l))), (''queue_operation'', JStr queue_operation),
        (''reason'', JStr reason), (''requeue_allowed'', JBool False)] w)"

definition reconcile_claimed_terminal ::
  "'q queue_adapter \<Rightarrow> string \<Rightarrow> execution_task \<Rightarrow> string \<Rightarrow> 'q world \<Rightarrow> 'q world" where
  "reconcile_claimed_terminal Q tenant task worker w =
     (case on_queue (\<lambda>q. complete_task Q q tenant (t_id task) worker) w of (res, w1) \<Rightarrow>
        let reason = reason_or res ''complete rejected''
        in commit Q (audit tenant (t_mission_id task) ''worker_queue_cleanup''
             (if r_ok res then ''terminal_task_queue_claim_reconciled'' else ''terminal_task_queue_claim_cleanup_failed'') worker
             (if r_ok res then ''Removed stale queue claim for terminal task '' @ t_id task @ ''.''
              else ''Queue cleanup failed for terminal task '' @ t_id task @ '': '' @ reason)
             [(''task_id'', JStr (t_id task)), (''task_status'', JStr (task_value (t_status task))),
              (''queue_operation'', JStr ''complete_task''), (''cleanup_succeeded'', JBool (r_ok res)),
              (''reason'', if r_ok res then JNull else JStr reason), (''requeue_allowed'', JBool False)] w1))"

subsection \<open>Claiming\<close>

definition visibility_grace :: time where "visibility_grace = seconds 30"

definition claim_orphan ::
  "'q queue_adapter \<Rightarrow> string \<Rightarrow> string \<Rightarrow> queue_message \<Rightarrow> 'q world \<Rightarrow> execution_task option result \<times> 'q world" where
  "claim_orphan Q tenant worker msg w =
     (let age = max 0 (w_clock w - q_enqueued_at msg)
      in if find_task (q_task_id msg) (w_db w) = None \<and> age < visibility_grace
         then (case on_queue (\<lambda>q. release_lease Q q tenant (q_task_id msg) worker) w of (res, w1) \<Rightarrow>
                 if r_ok res then (Inr None, w1)
                 else (Inl (RuntimeError (reason_or res ''failed to release queue payload during DB visibility grace'')), w1))
         else (case on_queue (\<lambda>q. fail_task Q q (w_clock w) tenant (q_task_id msg) worker
                   ''claimed queue payload has no matching tenant execution task'') w of (res, w1) \<Rightarrow>
                 let w2 = (if r_ok res then w1
                           else snd (on_queue (\<lambda>q. release_lease Q q tenant (q_task_id msg) worker) w1))
                 in (Inr None, commit Q (audit tenant None ''worker''
                      (if r_ok res then ''orphan_queue_payload_quarantined'' else ''orphan_queue_payload_quarantine_failed'') worker
                      ''Claimed queue payload did not resolve to a tenant-owned execution task.''
                      [(''task_id'', JStr (q_task_id msg)), (''payload_mission_id'', JStr (q_mission_id msg)),
                       (''payload_age_seconds'', JFloat (of_int age / 1000000)), (''quarantined'', JBool (r_ok res)),
                       (''reason'', opt_str (r_reason res))] w2))))"

definition cancel_stale_task ::
  "nat \<Rightarrow> runtime_host \<Rightarrow> 'q queue_adapter \<Rightarrow> string \<Rightarrow> string \<Rightarrow> execution_task \<Rightarrow> 'q world \<Rightarrow>
     execution_task option result \<times> 'q world" where
  "cancel_stale_task n K Q tenant worker task w =
     andthen (update_task (transition_task task TCancelled) w) (\<lambda>task1 w1.
     andthen (rollup_mission n K task1 worker (audit tenant (t_mission_id task) ''worker'' ''stale_task_cancelled'' worker
         ''Queued task cancelled because mission intake contains planner clarification text.''
         [(''task_id'', JStr (t_id task))] w1)) (\<lambda>_ w2.
       let w3 = commit Q (cancel_dispatch task1 w2);
           w4 = snd (on_queue (\<lambda>q. complete_task Q q tenant (t_id task) worker) w3)
       in (Inr None, snd (reconcile_cancelled Q 25 w4))))"

definition new_lease :: "string \<Rightarrow> uuid \<Rightarrow> string \<Rightarrow> 'q world \<Rightarrow> worker_lease" where
  "new_lease tenant k worker w =
     \<lparr>l_id = w_ids w (w_next_id w), l_tenant_id = tenant, l_task_id = k, l_status = LClaimed, l_holder_identity = worker,
      l_heartbeat_at = Some (w_clock w), l_metadata = [], l_created_at = w_clock w, l_updated_at = w_clock w\<rparr>"

definition add_lease :: "worker_lease \<Rightarrow> 'q world \<Rightarrow> 'q world" where
  "add_lease l w = map_db (\<lambda>d. d\<lparr>db_leases := db_leases d @ [l]\<rparr>) (w\<lparr>w_next_id := w_next_id w + 1\<rparr>)"

definition pending_keys_of :: "execution_task \<Rightarrow> db \<Rightarrow> string list" where
  "pending_keys_of task d =
     (case t_mission_id task of None \<Rightarrow> [] | Some i \<Rightarrow> pending_dependency_keys task (list_for_mission i d))"

text \<open>The branch of the block under \<open>try\<close> for a task that waits for others.\<close>

definition defer_claim ::
  "'q queue_adapter \<Rightarrow> string \<Rightarrow> string \<Rightarrow> execution_task \<Rightarrow> worker_lease \<Rightarrow> string list \<Rightarrow> 'q world \<Rightarrow>
     execution_task option result \<times> 'q world" where
  "defer_claim Q tenant worker task l pending w =
     andthen (update_lease (transition_lease_to_released l) w) (\<lambda>_ w1.
     andthen (update_task (bind_result (transition_task task TQueued) (\<lambda>x. Inr (x\<lparr>t_metadata :=
           AList.delete ''worker_lease_id'' (AList.update ''dependency_deferral''
             (JObj [(''pending_keys'', JArr (map JStr pending)), (''deferred_at'', JStamp (w_clock w))]) (t_metadata x))\<rparr>))) w1)
       (\<lambda>_ w2.
       case on_queue (\<lambda>q. complete_task Q q tenant (t_id task) worker) (commit Q w2) of (res, w3) \<Rightarrow>
         if r_ok res then (Inr None, w3)
         else (Inr None, commit Q (audit tenant (t_mission_id task) ''execution_task'' ''dependency_deferral_queue_cleanup_failed''
                worker ''Deferred task retained its claimed queue payload after cleanup failed.''
                [(''task_id'', JStr (t_id task)), (''reason'', opt_str (r_reason res))] w3))))"

definition claim_body ::
  "'q queue_adapter \<Rightarrow> string \<Rightarrow> string \<Rightarrow> execution_task \<Rightarrow> 'q world \<Rightarrow> execution_task option result \<times> 'q world" where
  "claim_body Q tenant worker task w =
     andthen (assert_no_active_lease tenant (t_id task) (w_db w), w) (\<lambda>_ w1.
     andthen (update_task (transition_task task TClaimed) w1) (\<lambda>task1 w2.
       let l = new_lease tenant (t_id task) worker w2;
           task2 = task1\<lparr>t_metadata := AList.update ''worker_lease_id'' (JStr (l_id l)) (t_metadata task1)\<rparr>;
           w3 = map_db (save_task task2) (add_lease l w2);
           pending = pending_keys_of task2 (w_db w3)
       in if pending \<noteq> [] then defer_claim Q tenant worker task2 l pending w3
          else (Inr (Some task2), commit Q w3)))"

text \<open>The \<open>except\<close>: the rows go back to the savepoint and the message to the queue.\<close>

definition claim_in_savepoint ::
  "'q queue_adapter \<Rightarrow> string \<Rightarrow> string \<Rightarrow> execution_task \<Rightarrow> 'q world \<Rightarrow> execution_task option result \<times> 'q world" where
  "claim_in_savepoint Q tenant worker task w =
     (case claim_body Q tenant worker task w of
        (Inl e, w1) \<Rightarrow>
          (Inl e, snd (on_queue (\<lambda>q. release_lease Q q tenant (t_id task) worker) (w1\<lparr>w_db := w_db w\<rparr>)))
      | (Inr r, w1) \<Rightarrow> (Inr r, w1))"

text \<open>A message of a task of the tenant.\<close>

definition claim_row ::
  "nat \<Rightarrow> runtime_host \<Rightarrow> 'q queue_adapter \<Rightarrow> string \<Rightarrow> string \<Rightarrow> execution_task \<Rightarrow> 'q world \<Rightarrow>
     execution_task option result \<times> 'q world" where
  "claim_row n K Q tenant worker task w =
     (if terminal_task (t_status task) then (Inr None, reconcile_claimed_terminal Q tenant task worker w)
      else (case (case t_mission_id task of None \<Rightarrow> (None, w) | Some i \<Rightarrow> get_mission_for_tenant i tenant w) of
          (m, w1) \<Rightarrow>
            if (case m of None \<Rightarrow> False | Some m \<Rightarrow> rh_clarification K (m_metadata m))
            then cancel_stale_task n K Q tenant worker task w1
            else claim_in_savepoint Q tenant worker task w1))"

definition claim_next_task ::
  "nat \<Rightarrow> runtime_host \<Rightarrow> 'q queue_adapter \<Rightarrow> string \<Rightarrow> string \<Rightarrow> 'q world \<Rightarrow> execution_task option result \<times> 'q world" where
  "claim_next_task n K Q tenant worker w =
     andthen (on_queue (\<lambda>q. claim_task Q q tenant worker) w) (\<lambda>message w1.
       case message of
         None \<Rightarrow> (Inr None, w1)
       | Some msg \<Rightarrow>
           (case find_task (q_task_id msg) (w_db w1) of
              None \<Rightarrow> claim_orphan Q tenant worker msg w1
            | Some task \<Rightarrow>
                if t_tenant_id task \<noteq> tenant then claim_orphan Q tenant worker msg w1
                else claim_row n K Q tenant worker task w1))"

subsection \<open>Running\<close>

definition worker_heartbeat ::
  "'q queue_adapter \<Rightarrow> string \<Rightarrow> uuid \<Rightarrow> string \<Rightarrow> 'q world \<Rightarrow> worker_lease result \<times> 'q world" where
  "worker_heartbeat Q tenant lid worker w =
     andthen (get_owned_lease tenant lid worker (w_db w), w) (\<lambda>l w.
       if \<not> live_lease l then (Inl (ValueError ''lease is not heartbeat-eligible''), w)
       else case on_queue (\<lambda>q. heartbeat Q q tenant (l_task_id l) worker) w of (res, w1) \<Rightarrow>
         if \<not> r_ok res then (Inl (ValueError (reason_or res ''heartbeat rejected'')), w1)
         else andthen (update_lease (bind_result (if l_status l = LClaimed then transition_lease l LActive else Inr l)
                  (\<lambda>l1. Inr (l1\<lparr>l_heartbeat_at := Some (w_clock w)\<rparr>))) w1)
                (\<lambda>l2 w2. (Inr l2, commit Q w2)))"

definition describe_field :: "runtime_host \<Rightarrow> dict \<Rightarrow> string \<Rightarrow> json" where
  "describe_field K metadata k = JObj (describe_information (rh_ledger K) (value_at metadata k))"

definition start_fact :: "string \<Rightarrow> string \<Rightarrow> execution_task \<Rightarrow> worker_lease \<Rightarrow> fact_args" where
  "start_fact tenant worker task l =
     \<lparr>fa_event_id = [], fa_tenant_id = tenant, fa_mission_id = t_mission_id task, fa_category = ''execution_task'',
      fa_action = ''started'', fa_producer = ''worker_runtime'', fa_actor = worker,
      fa_details = ''Worker started task '' @ t_id task @ '' under lease '' @ l_id l @ ''.'',
      fa_facts = [(''task_id'', JStr (t_id task)), (''lease_id'', JStr (l_id l)), (''state'', JStr (task_value (t_status task))),
        (''task_type'', value_at (t_metadata task) ''task_type''),
        (''action'', opt_str (text_at (inner_dict (t_metadata task) ''tool_invocation'') ''action''))],
      fa_authority_context = [(''lease_owner'', JStr worker), (''lease_status'', JStr (lease_value (l_status l)))],
      fa_causation_id = Some (l_id l), fa_correlation_id = Some (shown (opt_str (t_mission_id task))),
      fa_evidence_references = [], fa_occurred_at = 0\<rparr>"

definition start_execution ::
  "runtime_host \<Rightarrow> 'q queue_adapter \<Rightarrow> string \<Rightarrow> uuid \<Rightarrow> string \<Rightarrow> 'q world \<Rightarrow> execution_task result \<times> 'q world" where
  "start_execution K Q tenant lid worker w =
     andthen (get_owned_lease tenant lid worker (w_db w), w) (\<lambda>l w.
     andthen (get_task_for_lease l (w_db w), w) (\<lambda>task w.
       if t_status task \<noteq> TClaimed then (Inr task, w)
       else andthen (update_lease (bind_result (if l_status l = LClaimed then transition_lease l LActive else Inr l)
                (\<lambda>l1. Inr (l1\<lparr>l_heartbeat_at := Some (w_clock w)\<rparr>))) w) (\<lambda>l1 w1.
            andthen (update_task (bind_result (transition_task task TRunning) (\<lambda>x. Inr (x\<lparr>t_metadata :=
                AList.update ''runtime_evidence_contract_version'' (JStr ''1'') (t_metadata x)\<rparr>))) w1) (\<lambda>task1 w2.
              let md = t_metadata task1;
                  w3 = audit tenant (t_mission_id task) ''mission_information'' ''execution_started'' worker
                    ''Observed task input representation at execution start''
                    [(''schema_version'', JInt 1), (''task_id'', JStr (t_id task)), (''lease_id'', JStr lid),
                     (''input'', describe_field K md ''input_bindings''),
                     (''declared_output'', describe_field K md ''expected_output_contract''),
                     (''resolved_input'', describe_field K md ''input''),
                     (''tool_invocation'', describe_field K md ''tool_invocation''),
                     (''grants_execution_authority'', JBool False)] w2
              in (Inr task1, commit Q (record_fact K (start_fact tenant worker task1 l1) w3))))))"

subsection \<open>Completing\<close>

definition finalize_cancelled_queue_cleanup ::
  "'q queue_adapter \<Rightarrow> string \<Rightarrow> execution_task \<Rightarrow> worker_lease \<Rightarrow> string \<Rightarrow> 'q world \<Rightarrow> 'q world" where
  "finalize_cancelled_queue_cleanup Q tenant task l worker w =
     (case on_queue (\<lambda>q. complete_task Q q tenant (t_id task) worker) w of (res, w1) \<Rightarrow>
        let w2 = (if r_ok res then w1
                  else record_terminal_queue_cleanup_failure Q tenant task l worker ''complete_task''
                         ''cancelled_queue_complete_cleanup_failed'' (reason_or res ''cancelled task cleanup rejected'') w1)
        in snd (reconcile_cancelled Q 25 w2))"

definition complete_cancel_requested ::
  "'q queue_adapter \<Rightarrow> string \<Rightarrow> execution_task \<Rightarrow> worker_lease \<Rightarrow> string \<Rightarrow> 'q world \<Rightarrow> execution_task result \<times> 'q world" where
  "complete_cancel_requested Q tenant task l worker w =
     andthen (update_task (transition_task task TCancelled) w) (\<lambda>task1 w1.
     andthen (update_lease (transition_lease_to_released l) w1) (\<lambda>l1 w2.
       let w3 = commit Q (audit tenant (t_mission_id task) ''worker'' ''task_cancelled_after_request'' worker
             (''Cancelled task '' @ t_id task @ '' after a stop request; handler output was not committed.'')
             [(''task_id'', JStr (t_id task)), (''lease_id'', JStr (l_id l))] (cancel_dispatch task1 w2))
       in (Inr task1, finalize_cancelled_queue_cleanup Q tenant task1 l1 worker w3)))"

definition runtime_metadata_keys :: "string list" where
  "runtime_metadata_keys = [''runtime_causal_observations'', ''input_binding_audit'', ''tool_invocation'']"

definition accept_runtime_metadata :: "dict option \<Rightarrow> execution_task \<Rightarrow> execution_task" where
  "accept_runtime_metadata runtime_metadata task =
     (case runtime_metadata of
        None \<Rightarrow> task
      | Some md \<Rightarrow> task\<lparr>t_metadata := set_fields (t_metadata task) (filter (\<lambda>(k, v). k \<in> set runtime_metadata_keys) md)\<rparr>)"

definition validation_observation :: "execution_task \<Rightarrow> causal_observation" where
  "validation_observation task =
     \<lparr>co_schema_version = 1, co_stage = ''output_validation'', co_decision = ''output_accepted'',
      co_reason_code = ''declared_contract_validation_passed'',
      co_transformation_id = Some ''runtime-output-validation:v1'', co_alternatives = [],
      co_selected_path = Some ''accepted'', co_rejected_paths = [], co_source_provenance = [],
      co_field_lineage = [(''task.output'', ''declared_output_contract'')], co_constraints = [''declared_output_contract''],
      co_safe_metadata = [(''contract_present'', JBool (get_truthy (t_metadata task) ''expected_output_contract''))]\<rparr>"

definition observe ::
  "runtime_host \<Rightarrow> string \<Rightarrow> string \<Rightarrow> execution_task \<Rightarrow> uuid \<Rightarrow> string \<Rightarrow> uuid list \<Rightarrow> causal_observation \<Rightarrow>
     'q world \<Rightarrow> 'q world" where
  "observe K tenant producer task lid worker refs c w =
     record_fact K (causal_fact tenant (t_mission_id task) producer worker c (Some lid)
       (Some (shown (opt_str (t_mission_id task)))) refs) w"

text \<open>\<open>EvidenceRepository.add\<close>: a row with a logical identity that is taken must be the same evidence.\<close>

definition same_logical_evidence :: "dict \<Rightarrow> dict \<Rightarrow> bool" where
  "same_logical_evidence old new \<longleftrightarrow>
     list_all (\<lambda>k. map_of old k = map_of new k) [''evidence_type'', ''evidence_source'', ''structured_payload''] \<and>
     list_all (\<lambda>k. map_of (inner_dict old ''provenance_metadata'') k = map_of (inner_dict new ''provenance_metadata'') k)
       [''action_name'', ''evidence_role'']"

definition add_evidence :: "string \<Rightarrow> dict \<Rightarrow> 'q world \<Rightarrow> uuid result \<times> 'q world" where
  "add_evidence tenant columns w =
     (let row = \<lparr>dr_id = w_ids w (w_next_id w), dr_tenant_id = tenant, dr_columns = columns\<rparr>;
          logical = value_at columns ''logical_identity'';
          taken = find (\<lambda>r. dr_tenant_id r = tenant \<and> value_at (dr_columns r) ''logical_identity'' = logical) (db_evidence (w_db w));
          w1 = w\<lparr>w_next_id := w_next_id w + 1\<rparr>
      in case (if logical = JNull then None else taken) of
           None \<Rightarrow> (Inr (dr_id row), map_db (\<lambda>d. d\<lparr>db_evidence := db_evidence d @ [row]\<rparr>) w1)
         | Some old \<Rightarrow>
             if same_logical_evidence (dr_columns old) columns then (Inr (dr_id old), w1)
             else (Inl (ValueError ''logical evidence identity conflicts with an existing canonical record''), w1))"

fun add_evidence_rows :: "string \<Rightarrow> dict list \<Rightarrow> 'q world \<Rightarrow> uuid list result \<times> 'q world" where
  "add_evidence_rows tenant [] w = (Inr [], w)"
| "add_evidence_rows tenant (c # cs) w =
     andthen (add_evidence tenant c w) (\<lambda>i w1.
     andthen (add_evidence_rows tenant cs w1) (\<lambda>is w2. (Inr (i # is), w2)))"

text \<open>The declared artifact is noted on its evidence row as well; there is at most one reference.\<close>

fun link_artifacts :: "string \<Rightarrow> dict list \<Rightarrow> 'q world \<Rightarrow> unit result \<times> 'q world" where
  "link_artifacts tenant [] w = (Inr (), w)"
| "link_artifacts tenant (reference # rest) w =
     (case text_at reference ''evidence_id'' of
        None \<Rightarrow> link_artifacts tenant rest w
      | Some i \<Rightarrow>
          (case find (\<lambda>r. dr_id r = i \<and> dr_tenant_id r = tenant) (db_evidence (w_db w)) of
             None \<Rightarrow> (Inl (ValueError ''materialized artifact evidence is missing for the task tenant''), w)
           | Some r \<Rightarrow>
               (let references = (case list_of (map_of (dr_columns r) ''artifact_references'') of None \<Rightarrow> [] | Some xs \<Rightarrow> xs);
                    w1 = (if JObj reference \<in> set references then w
                          else map_db (\<lambda>d. d\<lparr>db_evidence := put_row dr_id (r\<lparr>dr_columns :=
                                 AList.update ''artifact_references'' (JArr (references @ [JObj reference])) (dr_columns r)\<rparr>)
                                 (db_evidence d)\<rparr>) w)
                in link_artifacts tenant rest w1)))"

definition lineage_columns :: "execution_task \<Rightarrow> uuid \<Rightarrow> string option \<Rightarrow> dict \<Rightarrow> dict" where
  "lineage_columns task lid output_reason task_output =
     [(''mission_id'', opt_str (t_mission_id task)), (''fleet_id'', opt_str (t_fleet_id task)),
      (''branch_id'', opt_str (t_branch_id task)), (''task_id'', JStr (t_id task)), (''worker_lease_id'', JStr lid),
      (''relationship_type'', JStr ''task_output''), (''relationship_reason'', opt_str output_reason),
      (''metadata_json'', JObj task_output)]"

definition add_lineage :: "string \<Rightarrow> dict \<Rightarrow> 'q world \<Rightarrow> uuid \<times> 'q world" where
  "add_lineage tenant columns w =
     (let i = w_ids w (w_next_id w)
      in (i, map_db (\<lambda>d. d\<lparr>db_lineage := db_lineage d @ [\<lparr>dr_id = i, dr_tenant_id = tenant, dr_columns = columns\<rparr>]\<rparr>)
               (w\<lparr>w_next_id := w_next_id w + 1\<rparr>)))"

text \<open>The block \<open>if task_output is not None\<close>: the task with the output on it and the evidence it got.\<close>

definition record_output ::
  "runtime_host \<Rightarrow> execution_task \<Rightarrow> worker_lease \<Rightarrow> string option \<Rightarrow> dict \<Rightarrow> 'q world \<Rightarrow>
     (execution_task \<times> uuid list) result \<times> 'q world" where
  "record_output K task l output_reason task_output w =
     (let task1 = task\<lparr>t_metadata := set_fields (t_metadata task) (mirror_task_output task_output)\<rparr>
      in case add_lineage (t_tenant_id task) (lineage_columns task (l_id l) output_reason task_output) (map_db (save_task task1) w) of
           (lineage, w1) \<Rightarrow>
             andthen (rh_evidence_rows K task1 l task_output lineage, w1) (\<lambda>rows w1.
             andthen (add_evidence_rows (t_tenant_id task) rows w1) (\<lambda>ids w2.
               let artifacts = materialized_artifact_reference task1 ids;
                   task2 = (if artifacts = [] then task1
                     else task1\<lparr>t_metadata := AList.update ''materialized_artifacts'' (JArr (map JObj artifacts)) (t_metadata task1)\<rparr>)
               in andthen (link_artifacts (t_tenant_id task) artifacts (map_db (save_task task2) w2)) (\<lambda>_ w3.
                    (Inr (task2, ids), if is_high_risk_gtm_side_effect task_output
                       then create_draft_outcome_review task2 task_output ids w3 else w3)))))"

definition completion_fact :: "string \<Rightarrow> string \<Rightarrow> execution_task \<Rightarrow> worker_lease \<Rightarrow> uuid list \<Rightarrow> fact_args" where
  "completion_fact tenant worker task l refs =
     \<lparr>fa_event_id = [], fa_tenant_id = tenant, fa_mission_id = t_mission_id task, fa_category = ''runtime_evidence'',
      fa_action = ''worker_completion_recorded'', fa_producer = ''worker_runtime'', fa_actor = worker,
      fa_details = ''Completed task '' @ t_id task,
      fa_facts = [(''task_id'', JStr (t_id task)), (''lease_id'', JStr (l_id l)), (''state'', JStr (task_value (t_status task)))],
      fa_authority_context = [(''lease_owner'', JStr worker), (''lease_status'', JStr (lease_value (l_status l)))],
      fa_causation_id = Some (l_id l), fa_correlation_id = Some (shown (opt_str (t_mission_id task))),
      fa_evidence_references = refs, fa_occurred_at = 0\<rparr>"

definition completion_audit ::
  "runtime_host \<Rightarrow> string \<Rightarrow> string \<Rightarrow> execution_task \<Rightarrow> worker_lease \<Rightarrow> dict option \<Rightarrow> uuid list \<Rightarrow> 'q world \<Rightarrow> 'q world" where
  "completion_audit K tenant worker task l task_output ids w =
     record_fact K (completion_fact tenant worker task l ids)
       (audit tenant (t_mission_id task) ''worker'' ''task_completed'' worker (''Completed task '' @ t_id task)
          [(''task_id'', JStr (t_id task)), (''lease_id'', JStr (l_id l))]
         (audit tenant (t_mission_id task) ''mission_information'' ''execution_completed'' worker
            ''Observed task output representation at completion''
            [(''schema_version'', JInt 1), (''task_id'', JStr (t_id task)), (''lease_id'', JStr (l_id l)),
             (''output'', JObj (describe_information (rh_ledger K) (case task_output of None \<Rightarrow> JNull | Some d \<Rightarrow> JObj d))),
             (''evidence_record_ids'', JArr (map JStr (take 100 ids))), (''evidence_ids_truncated'', JBool (length ids > 100)),
             (''grants_execution_authority'', JBool False)] w))"

text \<open>The transaction of \<open>complete\<close>, from the validation of the output to before the commit.\<close>

definition complete_rows ::
  "nat \<Rightarrow> runtime_host \<Rightarrow> string \<Rightarrow> string \<Rightarrow> worker_lease \<Rightarrow> execution_task \<Rightarrow> dict option \<Rightarrow> string option \<Rightarrow>
     'q world \<Rightarrow> (execution_task \<times> worker_lease) result \<times> 'q world" where
  "complete_rows n K tenant worker l task task_output output_reason w =
     andthen (validate_declared_output K task task_output, w) (\<lambda>_ w.
     andthen (update_task (bind_result (transition_task task TCompleted)
           (\<lambda>x. Inr (x\<lparr>t_metadata := AList.delete ''failure'' (t_metadata x)\<rparr>)))
         (observe K tenant ''worker_runtime'' task (l_id l) worker [] (validation_observation task) w)) (\<lambda>task1 w1.
     andthen (update_lease (bind_result (transition_lease_to_released l)
           (\<lambda>x. Inr (x\<lparr>l_heartbeat_at := Some (w_clock w)\<rparr>))) w1) (\<lambda>l1 w2.
     andthen (case task_output of None \<Rightarrow> (Inr (task1, []), w2)
              | Some given \<Rightarrow> record_output K task1 l1 output_reason given w2) (\<lambda>(task2, ids) w3.
     andthen (case task_output of None \<Rightarrow> Inr [] | Some given \<Rightarrow> tool_output_observations task2 given,
         completion_audit K tenant worker task2 l1 task_output ids w3) (\<lambda>cs w4.
       let w5 = fold (observe K tenant ''worker_runtime'' task2 (l_id l) worker ids) cs w4;
           w6 = fold (observe K tenant ''tool_runtime_authority'' task2 (l_id l) worker ids) (task_observations task2) w5
       in andthen (rollup_mission n K task2 worker (refresh_deliverable K task2 w6)) (\<lambda>_ w7. (Inr (task2, l1), w7)))))))"

definition worker_complete ::
  "nat \<Rightarrow> runtime_host \<Rightarrow> 'q queue_adapter \<Rightarrow> string \<Rightarrow> uuid \<Rightarrow> string \<Rightarrow> dict option \<Rightarrow> string option \<Rightarrow>
     dict option \<Rightarrow> 'q world \<Rightarrow> execution_task result \<times> 'q world" where
  "worker_complete n K Q tenant lid worker task_output output_reason runtime_metadata w =
     andthen (get_owned_lease tenant lid worker (w_db w), w) (\<lambda>l w.
     andthen (get_task_for_lease l (w_db w), w) (\<lambda>task w.
       if t_status task \<noteq> TRunning then (Inl (ValueError ''task is not running''), w)
       else let task0 = accept_runtime_metadata runtime_metadata task; w0 = map_db (save_task task0) w
            in if get_truthy (t_metadata task0) ''cancel_requested''
               then complete_cancel_requested Q tenant task0 l worker w0
               else andthen (complete_rows n K tenant worker l task0 task_output output_reason w0) (\<lambda>(task1, l1) w1.
                 case on_queue (\<lambda>q. complete_task Q q tenant (t_id task1) worker) (commit Q w1) of (res, w2) \<Rightarrow>
                   (Inr task1, if r_ok res then w2
                      else record_terminal_queue_cleanup_failure Q tenant task1 l1 worker ''complete_task''
                             ''terminal_queue_complete_cleanup_failed'' (reason_or res ''complete rejected'') w2))))"

subsection \<open>Failing and releasing\<close>

definition block_completion_failure ::
  "'q queue_adapter \<Rightarrow> string \<Rightarrow> uuid \<Rightarrow> string \<Rightarrow> string \<Rightarrow> string \<Rightarrow> string \<Rightarrow> 'q world \<Rightarrow>
     execution_task result \<times> 'q world" where
  "block_completion_failure Q tenant lid worker task_type side_effect_class reason w =
     andthen (get_owned_lease tenant lid worker (w_db w), w) (\<lambda>l w.
     andthen (get_task_for_lease l (w_db w), w) (\<lambda>task w.
       if t_status task \<noteq> TRunning then (Inl (ValueError ''task is not running''), w)
       else andthen (update_task (transition_task task TBlocked) w) (\<lambda>task1 w1.
            andthen (update_lease (bind_result (transition_lease_to_released l)
                (\<lambda>x. Inr (x\<lparr>l_heartbeat_at := Some (w_clock w)\<rparr>))) w1) (\<lambda>l1 w2.
              let ids = [(''task_id'', JStr (t_id task)), (''lease_id'', JStr lid)];
                  w3 = audit tenant (t_mission_id task) ''mission_information'' ''execution_completion_blocked'' worker
                    ''Observed completion persistence failure after side effect''
                    ([(''schema_version'', JInt 1)] @ ids @
                     [(''side_effect_class'', JStr side_effect_class), (''grants_execution_authority'', JBool False)]) w2;
                  w4 = audit tenant (t_mission_id task) ''worker'' ''task_completion_failed_after_side_effect'' worker
                    (''Blocked task '' @ t_id task @ '' after completed '' @ task_type @
                       '' side effect failed completion: '' @ reason)
                    (ids @ [(''task_type'', JStr task_type), (''side_effect_class'', JStr side_effect_class),
                       (''reason'', JStr reason), (''handler_completed'', JBool True), (''requeue_allowed'', JBool False)]) w3
              in case on_queue (\<lambda>q. complete_task Q q tenant (t_id task) worker) (commit Q w4) of (res, w5) \<Rightarrow>
                (Inr task1, if r_ok res then w5
                   else record_terminal_queue_cleanup_failure Q tenant task1 l1 worker ''complete_task''
                          ''completion_failure_queue_complete_cleanup_failed'' (reason_or res ''complete rejected'') w5)))))"

definition failure_fact :: "string \<Rightarrow> string \<Rightarrow> execution_task \<Rightarrow> worker_lease \<Rightarrow> string \<Rightarrow> fact_args" where
  "failure_fact tenant worker task l reason =
     (completion_fact tenant worker task l [])\<lparr>fa_action := ''worker_failure_recorded'', fa_details := reason,
        fa_facts := [(''task_id'', JStr (t_id task)), (''lease_id'', JStr (l_id l)),
          (''state'', JStr (task_value (t_status task))), (''reason'', JStr reason)]\<rparr>"

definition failure_metadata :: "time \<Rightarrow> string \<Rightarrow> dict \<Rightarrow> dict" where
  "failure_metadata now reason metadata =
     AList.update ''failure'' (JObj [(''code'', JStr ''HANDLER_FAILED''), (''message'', JStr reason),
       (''retryable'', JBool True), (''failed_at'', JStamp now)]) metadata"

definition fail_rows ::
  "nat \<Rightarrow> runtime_host \<Rightarrow> string \<Rightarrow> string \<Rightarrow> worker_lease \<Rightarrow> execution_task \<Rightarrow> string \<Rightarrow> 'q world \<Rightarrow>
     (execution_task \<times> worker_lease) result \<times> 'q world" where
  "fail_rows n K tenant worker l task reason w =
     andthen (update_task (bind_result (transition_task task TFailed)
           (\<lambda>x. Inr (x\<lparr>t_metadata := failure_metadata (w_clock w) reason (t_metadata x)\<rparr>))) w) (\<lambda>task1 w1.
     andthen (add_evidence (t_tenant_id task) (failure_evidence_columns task1 (l_id l) worker reason) w1) (\<lambda>_ w2.
     andthen (update_lease (bind_result (transition_lease_to_released l)
           (\<lambda>x. Inr (x\<lparr>l_heartbeat_at := Some (w_clock w)\<rparr>))) w2) (\<lambda>l1 w3.
       let ids = [(''task_id'', JStr (t_id task)), (''lease_id'', JStr (l_id l))];
           w4 = audit tenant (t_mission_id task) ''mission_information'' ''execution_failed'' worker
             ''Observed terminal execution failure''
             ([(''schema_version'', JInt 1)] @ ids @
              [(''failure_code'', JStr ''HANDLER_FAILED''), (''grants_execution_authority'', JBool False)]) w3;
           w5 = record_fact K (failure_fact tenant worker task1 l1 reason)
             (audit tenant (t_mission_id task) ''worker'' ''task_failed'' worker reason ids w4);
           w6 = fold (observe K tenant ''tool_runtime_authority'' task1 (l_id l) worker []) (task_observations task1) w5
       in andthen (rollup_mission n K task1 worker (refresh_deliverable K task1 w6)) (\<lambda>_ w7. (Inr (task1, l1), w7)))))"

definition worker_fail ::
  "nat \<Rightarrow> runtime_host \<Rightarrow> 'q queue_adapter \<Rightarrow> string \<Rightarrow> uuid \<Rightarrow> string \<Rightarrow> string \<Rightarrow> 'q world \<Rightarrow>
     execution_task result \<times> 'q world" where
  "worker_fail n K Q tenant lid worker reason w =
     andthen (get_owned_lease tenant lid worker (w_db w), w) (\<lambda>l w.
     andthen (get_task_for_lease l (w_db w), w) (\<lambda>task w.
       if t_status task \<notin> {TClaimed, TRunning, TBlocked} then (Inl (ValueError ''task is not fail-eligible''), w)
       else andthen (fail_rows n K tenant worker l task reason w) (\<lambda>(task1, l1) w1.
         case on_queue (\<lambda>q. fail_task Q q (w_clock w1) tenant (t_id task1) worker reason) (commit Q w1) of (res, w2) \<Rightarrow>
           (Inr task1, if r_ok res then w2
              else record_terminal_queue_cleanup_failure Q tenant task1 l1 worker ''fail_task''
                     ''terminal_queue_fail_cleanup_failed'' (reason_or res ''fail rejected'') w2))))"

definition worker_release ::
  "'q queue_adapter \<Rightarrow> string \<Rightarrow> uuid \<Rightarrow> string \<Rightarrow> 'q world \<Rightarrow> worker_lease result \<times> 'q world" where
  "worker_release Q tenant lid worker w =
     andthen (get_owned_lease tenant lid worker (w_db w), w) (\<lambda>l w.
     andthen (get_task_for_lease l (w_db w), w) (\<lambda>task w.
     andthen (assert_current_releasable_claim tenant l task, w) (\<lambda>_ w.
     andthen (update_lease (transition_lease_to_released l) w) (\<lambda>l1 w1.
     andthen (update_task (transition_task task TQueued) w1) (\<lambda>_ w2.
       case on_queue (\<lambda>q. release_lease Q q tenant (l_task_id l) worker) w2 of (res, w3) \<Rightarrow>
         if \<not> r_ok res then (Inl (ValueError (reason_or res ''release rejected'')), rollback w3)
         else andthen (update_lease (Inr (l1\<lparr>l_heartbeat_at := Some (w_clock w)\<rparr>)) w3) (\<lambda>l2 w4. (Inr l2, commit Q w4)))))))"

subsection \<open>Cancelling\<close>

definition cancel_rows ::
  "nat \<Rightarrow> runtime_host \<Rightarrow> string \<Rightarrow> execution_task \<Rightarrow> string \<Rightarrow> string \<Rightarrow> 'q world \<Rightarrow> execution_task result \<times> 'q world" where
  "cancel_rows n K tenant task actor reason w =
     andthen
       (if t_status task \<in> {TRunning, TClaimed}
        then update_task (Inr (task\<lparr>t_metadata := set_fields (t_metadata task)
               [(''cancel_requested'', JBool True), (''cancel_requested_at'', JStamp (w_clock w)), (''cancel_reason'', JStr reason)]\<rparr>)) w
        else andthen (update_task (bind_result (transition_task task TCancelled)
               (\<lambda>x. Inr (x\<lparr>t_metadata := AList.update ''cancel_reason'' (JStr reason) (t_metadata x)\<rparr>))) w)
             (\<lambda>x w1. (Inr x, cancel_dispatch x w1)))
       (\<lambda>task1 w1.
         let w2 = audit tenant (t_mission_id task) ''worker''
               (if t_status task \<in> {TRunning, TClaimed} then ''task_cancellation_requested'' else ''task_cancelled'') actor reason
               [(''task_id'', JStr (t_id task)), (''status'', JStr (task_value (t_status task1)))] w1
         in andthen (rollup_mission n K task1 actor w2) (\<lambda>_ w3. (Inr task1, w3)))"

definition worker_cancel_task ::
  "nat \<Rightarrow> runtime_host \<Rightarrow> 'q queue_adapter \<Rightarrow> string \<Rightarrow> uuid \<Rightarrow> string \<Rightarrow> string \<Rightarrow> 'q world \<Rightarrow>
     execution_task result \<times> 'q world" where
  "worker_cancel_task n K Q tenant k actor reason w =
     (case find_task k (w_db w) of
        None \<Rightarrow> (Inl (ValueError ''task not found for tenant''), w)
      | Some task \<Rightarrow>
          if t_tenant_id task \<noteq> tenant then (Inl (ValueError ''task not found for tenant''), w)
          else if terminal_task (t_status task) then (Inr task, w)
          else andthen (cancel_rows n K tenant task actor reason w) (\<lambda>task1 w1.
            let w2 = commit Q w1
            in (Inr task1, if t_status task1 = TCancelled then snd (reconcile_cancelled Q 25 w2) else w2)))"

text \<open>
  The loop of \<open>cancel_mission\<close> over the tasks it listed, with the numbers of cancelled and of
  requested ones; a task a rollup in between has made terminal is passed over.
\<close>

fun cancel_tasks ::
  "nat \<Rightarrow> runtime_host \<Rightarrow> 'q queue_adapter \<Rightarrow> string \<Rightarrow> string \<Rightarrow> string \<Rightarrow> uuid list \<Rightarrow> nat \<times> nat \<Rightarrow> 'q world \<Rightarrow>
     (nat \<times> nat) result \<times> 'q world" where
  "cancel_tasks n K Q tenant actor reason [] counts w = (Inr counts, w)"
| "cancel_tasks n K Q tenant actor reason (k # ks) (cancelled, requested) w =
     (if (case find_task k (w_db w) of None \<Rightarrow> True | Some x \<Rightarrow> terminal_task (t_status x))
      then cancel_tasks n K Q tenant actor reason ks (cancelled, requested) w
      else andthen (worker_cancel_task n K Q tenant k actor reason w) (\<lambda>x w1.
        cancel_tasks n K Q tenant actor reason ks
          (if t_status x = TCancelled then (cancelled + 1, requested) else (cancelled, requested + 1)) w1))"

record cancel_summary =
  cs_mission_id :: uuid
  cs_status :: mission_state
  cs_cancelled_tasks :: nat
  cs_cancellation_requested_tasks :: nat

definition worker_cancel_mission ::
  "nat \<Rightarrow> runtime_host \<Rightarrow> 'q queue_adapter \<Rightarrow> string \<Rightarrow> uuid \<Rightarrow> string \<Rightarrow> string \<Rightarrow> 'q world \<Rightarrow>
     cancel_summary result \<times> 'q world" where
  "worker_cancel_mission n K Q tenant i actor reason w =
     (case find_mission i (w_db w) of
        None \<Rightarrow> (Inl (ValueError ''mission not found for tenant''), w)
      | Some m0 \<Rightarrow>
          if m_tenant_id m0 \<noteq> tenant then (Inl (ValueError ''mission not found for tenant''), w)
          else andthen (cancel_tasks n K Q tenant actor reason (map t_id (list_for_mission_for_tenant i tenant (w_db w))) (0, 0) w)
            (\<lambda>(cancelled, requested) w1.
              case find_mission i (w_db w1) of
                None \<Rightarrow> (Inl (ValueError ''mission not found for tenant''), w1)
              | Some m \<Rightarrow>
                  andthen
                    (if terminal_mission (m_status m) then (Inr m, w1)
                     else case transition_mission m MCancelled of
                         Inl e \<Rightarrow> (Inl e, w1)
                       | Inr m1 \<Rightarrow>
                           (let m2 = m1\<lparr>m_metadata := set_fields (m_metadata m1)
                                  [(''cancel_reason'', JStr reason), (''cancelled_at'', JStamp (w_clock w1))]\<rparr>
                            in (Inr m2, audit tenant (Some i) ''mission'' ''mission_cancelled'' actor reason
                                  [(''cancelled_tasks'', JInt (int cancelled)),
                                   (''cancellation_requested_tasks'', JInt (int requested))] (map_db (save_mission m2) w1))))
                    (\<lambda>m2 w2. (Inr \<lparr>cs_mission_id = i, cs_status = m_status m2, cs_cancelled_tasks = cancelled,
                                cs_cancellation_requested_tasks = requested\<rparr>, commit Q w2))))"

end
