(* ===== verification/LeaseSteps.thy ===== *)
theory LeaseSteps
  imports Worker GraphRuns
begin

section \<open>Leases under the calls of the workers\<close>

text \<open>
  What each operation of Worker does to the leases: most leave them alone (\<open>lease_frame\<close>), the others change one
  lease forward or add one to a task that has none (\<open>lease_step\<close>), and keep \<open>lease_inv\<close>, by which a task has
  one live lease at most.
\<close>

subsection \<open>What leaves the leases alone\<close>

definition lease_frame :: "'q world \<Rightarrow> 'q world \<Rightarrow> bool" where
  "lease_frame w w' \<longleftrightarrow> db_leases (w_db w') = db_leases (w_db w) \<and> w_ids w' = w_ids w \<and> w_next_id w \<le> w_next_id w' \<and>
     db_leases (w_durable w') \<in> {db_leases (w_durable w), db_leases (w_db w)}"

named_theorems frames \<open>operations that leave the leases alone\<close>

lemma lease_frame_refl [frames]: "lease_frame w w"
  by (simp add: lease_frame_def)

lemma lease_frame_trans: "lease_frame w w1 \<Longrightarrow> lease_frame w1 w2 \<Longrightarrow> lease_frame w w2"
  by (auto simp: lease_frame_def)

lemma frame_map_db: "lease_frame w0 w \<Longrightarrow> (\<And>d. db_leases (f d) = db_leases d) \<Longrightarrow> lease_frame w0 (map_db f w)"
  by (simp add: lease_frame_def map_db_def)

lemma frame_audit [frames]: "lease_frame w0 w \<Longrightarrow> lease_frame w0 (audit t m c a wk ds p w)"
  unfolding audit_def by (rule frame_map_db) (simp_all add: add_audit_def)

lemma frame_next_id: "lease_frame w0 w \<Longrightarrow> lease_frame w0 (w\<lparr>w_next_id := Suc (w_next_id w)\<rparr>)"
  by (auto simp: lease_frame_def)

lemma frame_record_fact [frames]: "lease_frame w0 w \<Longrightarrow> lease_frame w0 (record_fact K a w)"
  unfolding record_fact_def by (rule frame_map_db) (simp_all add: add_audit_def frame_next_id)

lemma frame_observe [frames]: "lease_frame w0 w \<Longrightarrow> lease_frame w0 (observe K t p task lid wk refs c w)"
  unfolding observe_def by (rule frame_record_fact)

lemma frame_observe_all [frames]:
  "lease_frame w0 w \<Longrightarrow> lease_frame w0 (fold (observe K t p task lid wk refs) cs w)"
  by (induction cs arbitrary: w) (simp_all add: frame_observe)

lemma frame_save_task [frames]: "lease_frame w0 w \<Longrightarrow> lease_frame w0 (map_db (save_task x) w)"
  by (rule frame_map_db) (simp_all add: save_task_def)

lemma frame_save_mission [frames]: "lease_frame w0 w \<Longrightarrow> lease_frame w0 (map_db (save_mission m) w)"
  by (rule frame_map_db) (simp_all add: save_mission_def)

lemma frame_save_dispatch [frames]: "lease_frame w0 w \<Longrightarrow> lease_frame w0 (map_db (save_dispatch r) w)"
  by (rule frame_map_db) (simp_all add: save_dispatch_def)

lemma frame_block [frames]: "lease_frame w0 w \<Longrightarrow> lease_frame w0 (map_db (block_dependents i) w)"
  by (rule frame_map_db) (simp_all add: block_dependents_def Let_def)

lemma frame_queue [frames]: "lease_frame w0 w \<Longrightarrow> lease_frame w0 (w\<lparr>w_queue := q\<rparr>)"
  by (simp add: lease_frame_def)

lemma frame_on_queue [frames]: "lease_frame w0 w \<Longrightarrow> lease_frame w0 (snd (on_queue f w))"
  by (simp add: on_queue_def frame_queue split: prod.split)

lemma frame_schedule [frames]: "lease_frame w0 w \<Longrightarrow> lease_frame w0 (schedule_after_commit r w)"
  by (simp add: lease_frame_def schedule_after_commit_def queue_dispatch_after_commit_def)

lemma frame_cancel_dispatch [frames]: "lease_frame w0 w \<Longrightarrow> lease_frame w0 (cancel_dispatch x w)"
  by (simp add: cancel_dispatch_def frame_save_dispatch split: option.split)

lemma frame_get_mission: "get_mission_for_tenant i t w = (m, w1) \<Longrightarrow> lease_frame w w1"
  by (auto simp: get_mission_for_tenant_def Let_def frame_save_mission lease_frame_refl split: option.splits if_splits)

lemma frame_refresh [frames]: "lease_frame w0 w \<Longrightarrow> lease_frame w0 (refresh_deliverable K x w)"
  by (auto simp: refresh_deliverable_def lease_frame_trans [OF _ frame_get_mission]
      intro: frame_save_mission split: option.split prod.split)

subsubsection \<open>Commits\<close>

definition committed :: "'q world \<Rightarrow> 'q world \<Rightarrow> bool" where
  "committed w w' \<longleftrightarrow> w_durable w' = w_db w' \<and> db_leases (w_db w') = db_leases (w_db w) \<and> db_tasks (w_db w') = db_tasks (w_db w) \<and>
     db_missions (w_db w') = db_missions (w_db w) \<and> w_ids w' = w_ids w \<and> w_next_id w' = w_next_id w \<and> w_clock w' = w_clock w"

lemma publish_committed: "committed w0 w \<Longrightarrow> committed w0 (publish_intent Q i w)"
  by (auto simp: committed_def publish_intent_def save_dispatch_def Let_def split: option.split sum.split prod.split)

lemma commit_committed: "committed w (commit Q w)"
proof -
  have "committed w0 w1 \<Longrightarrow> committed w0 (fold (publish_intent Q) is w1)" for w0 w1 :: "'a world" and "is"
    by (induction "is" arbitrary: w1) (simp_all add: publish_committed)
  moreover have "committed w (w\<lparr>w_durable := w_db w, w_intents := []\<rparr>)" by (simp add: committed_def)
  ultimately show ?thesis unfolding commit_def .
qed

lemma frame_commit [frames]: "lease_frame w0 w \<Longrightarrow> lease_frame w0 (commit Q w)"
  using commit_committed [of w Q] by (auto simp: lease_frame_def committed_def)

lemma frame_reconcile_rows: "lease_frame w0 w \<Longrightarrow> reconcile_rows Q rs c w = (r, w1) \<Longrightarrow> lease_frame w0 w1"
proof (induction rs arbitrary: c w)
  case (Cons x rs)
  show ?case
    using Cons.prems by (cases c) (auto split: prod.splits if_splits elim!: Cons.IH [rotated] intro!: frames)
qed auto

lemma frame_reconcile_cancelled [frames]: "lease_frame w0 w \<Longrightarrow> lease_frame w0 (snd (reconcile_cancelled Q k w))"
  unfolding reconcile_cancelled_def by (rule frame_reconcile_rows [OF _ surjective_pairing])

subsubsection \<open>The rollup\<close>

lemma frame_admit: "admit x h w = (r, w1) \<Longrightarrow> lease_frame w w1"
proof -
  have "lease_frame w (map_db (\<lambda>d. d\<lparr>db_dispatches := db_dispatches d @ [y]\<rparr>) (w\<lparr>w_next_id := Suc (w_next_id w)\<rparr>))" for y
    by (rule frame_map_db) (simp_all add: frame_next_id lease_frame_refl)
  then show "admit x h w = (r, w1) \<Longrightarrow> ?thesis"
    by (auto simp: admit_def release_review_hold_def Let_def frames split: option.splits if_splits)
qed

lemma frame_retry: "retry_dispatch x w = (r, w1) \<Longrightarrow> lease_frame w w1"
  by (auto simp: retry_dispatch_def Let_def frames dest: frame_admit split: option.splits sum.splits prod.splits)

lemma frame_retried:
  "lease_frame w0 w \<Longrightarrow> retry_dispatch x (map_db (save_task x) w) = (r, w1) \<Longrightarrow> lease_frame w0 w1"
  by (rule lease_frame_trans [OF frame_save_task frame_retry])

lemma frame_recover: "lease_frame w0 w \<Longrightarrow> recover_dependents ks i wk w = (r, w1) \<Longrightarrow> lease_frame w0 w1"
proof (induction ks arbitrary: w)
  case (Cons k ks)
  show ?case
  proof (cases "find_task k (w_db w)")
    case None
    then show ?thesis using Cons by simp
  next
    case (Some dep)
    show ?thesis
    proof (cases "recoverable (list_for_mission i (w_db w)) dep")
      case False
      then show ?thesis using Cons Some by simp
    next
      case True
      show ?thesis
      proof (cases "transition_task dep TQueued")
        case (Inl e)
        then show ?thesis using Cons.prems Some True by simp
      next
        case (Inr dep1)
        let ?dep2 = "dep1\<lparr>t_metadata := recovered_metadata (w_clock w) (t_metadata dep)\<rparr>"
        obtain r2 w2 where retry: "retry_dispatch ?dep2 (map_db (save_task ?dep2) w) = (r2, w2)" by fastforce
        note f2 = frame_retried [OF Cons.prems(1) retry]
        show ?thesis
        proof (cases r2)
          case (Inl e)
          then show ?thesis using Cons.prems(2) Some True Inr retry f2 by (simp add: Let_def)
        next
          case (Inr d)
          then show ?thesis
            using Cons.prems(2) Some True \<open>transition_task dep TQueued = _\<close> retry Cons.IH [OF frame_audit [OF f2]]
            by (simp add: Let_def)
        qed
      qed
    qed
  qed
qed simp

lemma frame_redispatch: "lease_frame w0 w \<Longrightarrow> redispatch_dependents ks i wk w = (r, w1) \<Longrightarrow> lease_frame w0 w1"
proof (induction ks arbitrary: w)
  case (Cons k ks)
  show ?case
  proof (cases "find_task k (w_db w)")
    case None
    then show ?thesis using Cons by simp
  next
    case (Some dep)
    show ?thesis
    proof (cases "redispatchable (list_for_mission i (w_db w)) dep")
      case False
      then show ?thesis using Cons Some by simp
    next
      case True
      let ?dep1 = "dep\<lparr>t_metadata := AList.update ''dependency_redispatched_at'' (JStamp (w_clock w))
        (AList.delete ''dependency_deferral'' (t_metadata dep))\<rparr>"
      obtain r2 w2 where retry: "retry_dispatch ?dep1 (map_db (save_task ?dep1) w) = (r2, w2)" by fastforce
      note f2 = frame_retried [OF Cons.prems(1) retry]
      show ?thesis
        using Cons.prems(2) Some True retry f2 Cons.IH [OF frame_audit [OF f2]]
        by (cases r2) (simp_all add: Let_def)
    qed
  qed
qed simp

lemma frame_snd [frames]: "lease_frame w0 w \<Longrightarrow> lease_frame w0 (snd (r, w))"
  by simp

lemma frame_if [frames]: "lease_frame w0 (snd a) \<Longrightarrow> lease_frame w0 (snd b) \<Longrightarrow> lease_frame w0 (snd (if c then a else b))"
  by simp

lemma frame_if_world [frames]: "lease_frame w0 a \<Longrightarrow> lease_frame w0 b \<Longrightarrow> lease_frame w0 (if c then a else b)"
  by simp

lemma frame_sum [frames]:
  "(\<And>e. lease_frame w0 (snd (f e))) \<Longrightarrow> (\<And>x. lease_frame w0 (snd (g x))) \<Longrightarrow>
     lease_frame w0 (snd (case r of Inl e \<Rightarrow> f e | Inr x \<Rightarrow> g x))"
  by (simp split: sum.split)

lemma frame_roll [frames]: "lease_frame w0 w \<Longrightarrow> lease_frame w0 (snd (roll_mission K task wk m w))"
  unfolding roll_mission_def Let_def by (intro frames)

lemma frame_rollup: "lease_frame w0 w \<Longrightarrow> rollup_mission n K task wk w = (r, w1) \<Longrightarrow> lease_frame w0 w1"
proof (induction n arbitrary: w)
  case (Suc n)
  show ?case
  proof (cases "t_mission_id task")
    case None
    then show ?thesis using Suc.prems by simp
  next
    case (Some i)
    obtain om w2 where get: "get_mission_for_tenant i (t_tenant_id task) w = (om, w2)" by fastforce
    have f2: "lease_frame w0 w2" by (rule lease_frame_trans [OF Suc.prems(1) frame_get_mission [OF get]])
    obtain r3 w3 where rec: "recover_dependents (map t_id (list_for_mission i (w_db w2))) i wk w2 = (r3, w3)" by fastforce
    note f3 = frame_recover [OF f2 rec]
    obtain r4 w4 where red: "redispatch_dependents (map t_id (list_for_mission i (w_db w2))) i wk w3 = (r4, w4)" by fastforce
    note f4 = frame_redispatch [OF f3 red]
    have "lease_frame w0 w1" if "rollup_mission n K task wk (map_db (block_dependents i) w4) = (r, w1)"
      using Suc.IH [OF frame_block [OF f4] that] .
    moreover have "lease_frame w0 w1" if "roll_mission K task wk m w4 = (r, w1)" for m
      using frame_roll [OF f4, of K task wk m] that by simp
    ultimately show ?thesis
      using Suc.prems(2) Some get rec red f2 f3 f4
      by (auto simp: Let_def split: option.splits if_splits sum.splits)
  qed
qed simp

lemma frame_andthen:
  "lease_frame w0 (snd r) \<Longrightarrow> (\<And>x w. lease_frame w0 w \<Longrightarrow> lease_frame w0 (snd (f x w))) \<Longrightarrow>
     lease_frame w0 (snd (andthen r f))"
  by (cases r; cases "fst r") auto

lemma frame_rollup_snd [frames]: "lease_frame w0 w \<Longrightarrow> lease_frame w0 (snd (rollup_mission n K task wk w))"
  by (rule frame_rollup [OF _ surjective_pairing])

lemma frame_append [frames]:
  "lease_frame w0 w \<Longrightarrow> lease_frame w0 (map_db (\<lambda>d. d\<lparr>db_evidence := f d\<rparr>) w)"
  "lease_frame w0 w \<Longrightarrow> lease_frame w0 (map_db (\<lambda>d. d\<lparr>db_lineage := f d\<rparr>) w)"
  "lease_frame w0 w \<Longrightarrow> lease_frame w0 (map_db (\<lambda>d. d\<lparr>db_reviews := f d\<rparr>) w)"
  by (rule frame_map_db; simp)+

lemma frame_add_evidence [frames]: "lease_frame w0 w \<Longrightarrow> lease_frame w0 (snd (add_evidence t c w))"
  by (simp add: add_evidence_def Let_def frames frame_next_id split: option.split)

lemma frame_evidence_rows [frames]: "lease_frame w0 w \<Longrightarrow> lease_frame w0 (snd (add_evidence_rows t cs w))"
proof (induction cs arbitrary: w)
  case (Cons c cs)
  show ?case
    unfolding add_evidence_rows.simps
    by (rule frame_andthen, rule frame_add_evidence [OF Cons.prems], rule frame_andthen, erule Cons.IH, simp)
qed simp

lemma frame_link [frames]: "lease_frame w0 w \<Longrightarrow> lease_frame w0 (snd (link_artifacts t rs w))"
  by (induction rs arbitrary: w) (simp_all add: Let_def frames split: option.split)

lemma frame_lineage: "lease_frame w0 w \<Longrightarrow> add_lineage t c w = (i, w1) \<Longrightarrow> lease_frame w0 w1"
  by (auto simp: add_lineage_def Let_def frames frame_next_id)

lemma frame_review [frames]: "lease_frame w0 w \<Longrightarrow> lease_frame w0 (create_draft_outcome_review x given ids w)"
  by (simp add: create_draft_outcome_review_def frames frame_next_id split: option.split)

lemma frame_record_output [frames]:
  assumes "lease_frame w0 w"
  shows "lease_frame w0 (snd (record_output K x l why given w))"
proof -
  let ?x1 = "x\<lparr>t_metadata := set_fields (t_metadata x) (mirror_task_output given)\<rparr>"
  obtain i w1 where lin: "add_lineage (t_tenant_id x) (lineage_columns x (l_id l) why given) (map_db (save_task ?x1) w) = (i, w1)"
    by fastforce
  note f1 = frame_lineage [OF frame_save_task [OF assms] lin]
  show ?thesis
    unfolding record_output_def Let_def
    by (simp only: lin prod.case) (intro frame_andthen frames f1)
qed

lemma frame_completion_audit [frames]:
  "lease_frame w0 w \<Longrightarrow> lease_frame w0 (completion_audit K t wk x l given ids w)"
  unfolding completion_audit_def by (intro frames)

subsection \<open>One live lease per task\<close>

definition single_live :: "worker_lease list \<Rightarrow> bool" where
  "single_live ls \<longleftrightarrow>
     (\<forall>l1 \<in> set ls. \<forall>l2 \<in> set ls. live_lease l1 \<longrightarrow> live_lease l2 \<longrightarrow> l_tenant_id l1 = l_tenant_id l2 \<longrightarrow>
        l_task_id l1 = l_task_id l2 \<longrightarrow> l_id l1 = l_id l2)"

lemma single_liveD:
  "single_live ls \<Longrightarrow> l1 \<in> set ls \<Longrightarrow> l2 \<in> set ls \<Longrightarrow> live_lease l1 \<Longrightarrow> live_lease l2 \<Longrightarrow>
     l_tenant_id l1 = l_tenant_id l2 \<Longrightarrow> l_task_id l1 = l_task_id l2 \<Longrightarrow> l_id l1 = l_id l2"
  unfolding single_live_def by blast

definition leases_from :: "(nat \<Rightarrow> uuid) \<Rightarrow> nat \<Rightarrow> worker_lease list \<Rightarrow> bool" where
  "leases_from ids k ls \<longleftrightarrow> distinct (map l_id ls) \<and> (\<forall>l \<in> set ls. \<exists>j < k. l_id l = ids j) \<and> single_live ls"

definition lease_inv :: "'q world \<Rightarrow> bool" where
  "lease_inv w \<longleftrightarrow> inj (w_ids w) \<and> leases_from (w_ids w) (w_next_id w) (db_leases (w_db w)) \<and>
     leases_from (w_ids w) (w_next_id w) (db_leases (w_durable w))"

lemma leases_from_mono: "leases_from ids k ls \<Longrightarrow> k \<le> m \<Longrightarrow> leases_from ids m ls"
  unfolding leases_from_def by (meson less_le_trans)

lemma lease_inv_frame: "lease_inv w \<Longrightarrow> lease_frame w w' \<Longrightarrow> lease_inv w'"
  by (auto simp: lease_inv_def lease_frame_def intro: leases_from_mono)

lemma lease_inv_rollback: "lease_inv w \<Longrightarrow> lease_inv (rollback w)"
  by (simp add: lease_inv_def rollback_def)

text \<open>A lease that was changed: the same lease, and not live if it was not.\<close>

definition advances :: "worker_lease \<Rightarrow> worker_lease \<Rightarrow> bool" where
  "advances l l' \<longleftrightarrow> l_id l' = l_id l \<and> l_tenant_id l' = l_tenant_id l \<and> l_task_id l' = l_task_id l \<and>
     (live_lease l' \<longrightarrow> live_lease l)"

lemma put_row_in: "x \<in> set (put_row key r rows) \<Longrightarrow> (x = r \<and> (\<exists>y \<in> set rows. key y = key r)) \<or> (x \<in> set rows \<and> key x \<noteq> key r)"
  by (auto simp: put_row_def split: if_splits)

lemma leases_from_put:
  assumes "leases_from ids k ls" and "l \<in> set ls" and "advances l l'"
  shows "leases_from ids k (put_row l_id l' ls)"
proof -
  have d: "distinct (map l_id ls)" and ids: "\<forall>l \<in> set ls. \<exists>j < k. l_id l = ids j" and one: "single_live ls"
    using assms(1) by (auto simp: leases_from_def)
  note adv = assms(3) [unfolded advances_def]
  have orig: "\<exists>y \<in> set ls. advances y x" if "x \<in> set (put_row l_id l' ls)" for x
    using put_row_in [OF that] assms(2,3) by (auto simp: advances_def)
  have "single_live (put_row l_id l' ls)"
    unfolding single_live_def
  proof (intro ballI impI)
    fix l1 l2
    assume in1: "l1 \<in> set (put_row l_id l' ls)" and in2: "l2 \<in> set (put_row l_id l' ls)"
      and live: "live_lease l1" "live_lease l2" and same: "l_tenant_id l1 = l_tenant_id l2" "l_task_id l1 = l_task_id l2"
    obtain y1 y2 where y: "y1 \<in> set ls" "advances y1 l1" "y2 \<in> set ls" "advances y2 l2" using orig [OF in1] orig [OF in2] by blast
    have "l_id y1 = l_id y2"
      by (rule single_liveD [OF one y(1,3)]) (use y live same in \<open>simp_all add: advances_def\<close>)
    then show "l_id l1 = l_id l2" using y by (simp add: advances_def)
  qed
  moreover have "\<exists>j < k. l_id x = ids j" if "x \<in> set (put_row l_id l' ls)" for x
    using orig [OF that] ids by (auto simp: advances_def)
  ultimately show ?thesis using d by (simp add: leases_from_def)
qed

lemma update_lease_inv:
  assumes "lease_inv w" and "\<And>l'. r = Inr l' \<Longrightarrow> \<exists>l \<in> set (db_leases (w_db w)). advances l l'"
  shows "lease_inv (snd (update_lease r w))"
proof (cases r)
  case (Inr l')
  then obtain l where "l \<in> set (db_leases (w_db w))" "advances l l'" using assms(2) by blast
  then have "leases_from (w_ids w) (w_next_id w) (put_row l_id l' (db_leases (w_db w)))"
    using leases_from_put assms(1) unfolding lease_inv_def by blast
  then show ?thesis using assms(1) Inr by (simp add: update_lease_def lease_inv_def map_db_def save_lease_def)
qed (use assms(1) in \<open>simp add: update_lease_def\<close>)

lemma single_live_snoc:
  assumes "single_live ls"
    and "\<And>x. x \<in> set ls \<Longrightarrow> l_tenant_id x = l_tenant_id l \<Longrightarrow> l_task_id x = l_task_id l \<Longrightarrow> \<not> live_lease x"
  shows "single_live (ls @ [l])"
  unfolding single_live_def
proof (intro ballI impI)
  fix l1 l2
  assume "l1 \<in> set (ls @ [l])" "l2 \<in> set (ls @ [l])" "live_lease l1" "live_lease l2"
    "l_tenant_id l1 = l_tenant_id l2" "l_task_id l1 = l_task_id l2"
  then show "l_id l1 = l_id l2"
    using single_liveD [OF assms(1), of l1 l2] assms(2) [of l1] assms(2) [of l2] by auto
qed

lemma add_lease_inv:
  assumes "lease_inv w" and "assert_no_active_lease tenant k (w_db w) = Inr ()"
  shows "lease_inv (add_lease (new_lease tenant k wk w) w)"
proof -
  let ?ls = "db_leases (w_db w)" and ?l = "new_lease tenant k wk w"
  have old: "leases_from (w_ids w) (w_next_id w) ?ls" "inj (w_ids w)" using assms(1) by (auto simp: lease_inv_def)
  have idl: "l_id ?l = w_ids w (w_next_id w)" by (simp add: new_lease_def)
  have fresh: "l_id ?l \<notin> l_id ` set ?ls"
  proof
    assume "l_id ?l \<in> l_id ` set ?ls"
    then obtain j where "j < w_next_id w" "w_ids w (w_next_id w) = w_ids w j" using old(1) idl by (auto simp: leases_from_def)
    then show False using old(2) by (auto dest: injD)
  qed
  have none: "\<not> live_lease x" if "x \<in> set ?ls" "l_tenant_id x = tenant" "l_task_id x = k" for x
    using assms(2) that by (auto simp: assert_no_active_lease_def list_ex_iff split: if_splits)
  have new: "l_tenant_id ?l = tenant" "l_task_id ?l = k" by (simp_all add: new_lease_def)
  have "single_live (?ls @ [?l])"
  proof (rule single_live_snoc)
    show "single_live ?ls" using old(1) by (simp add: leases_from_def)
    show "\<not> live_lease x" if "x \<in> set ?ls" "l_tenant_id x = l_tenant_id ?l" "l_task_id x = l_task_id ?l" for x
      using none [OF that(1)] that(2,3) new by simp
  qed
  moreover have "\<exists>j < Suc (w_next_id w). l_id x = w_ids w j" if "x \<in> set (?ls @ [?l])" for x
    using that old(1) idl by (auto simp: leases_from_def less_Suc_eq)
  ultimately have "leases_from (w_ids w) (Suc (w_next_id w)) (?ls @ [?l])"
    using old(1) fresh by (simp add: leases_from_def)
  moreover have "leases_from (w_ids w) (Suc (w_next_id w)) (db_leases (w_durable w))"
    using assms(1) leases_from_mono [of "w_ids w" "w_next_id w"] by (simp add: lease_inv_def)
  ultimately show ?thesis using old(2) by (simp add: lease_inv_def add_lease_def map_db_def)
qed

lemma released_advances: "transition_lease_to_released l = Inr l' \<Longrightarrow> advances l l' \<and> l_status l' = LReleased"
  by (auto simp: transition_lease_to_released_def advances_def bind_result_Inr transition_lease_Inr live_lease_def split: if_splits)

lemma activated_advances:
  "live_lease l \<Longrightarrow> (if l_status l = LClaimed then transition_lease l LActive else Inr l) = Inr l' \<Longrightarrow> advances l l'"
  by (auto simp: advances_def transition_lease_Inr live_lease_def split: if_splits)

subsection \<open>Steps\<close>

definition lease_step :: "'q world \<Rightarrow> 'q world \<Rightarrow> bool" where
  "lease_step w w' \<longleftrightarrow> (lease_inv w \<longrightarrow> lease_inv w') \<and> w_ids w' = w_ids w \<and> w_next_id w \<le> w_next_id w'"

lemma step_frame: "lease_frame w w' \<Longrightarrow> lease_step w w'"
  using lease_inv_frame by (auto simp: lease_step_def lease_frame_def)

lemma step_trans: "lease_step w w1 \<Longrightarrow> lease_step w1 w2 \<Longrightarrow> lease_step w w2"
  by (auto simp: lease_step_def)

lemma step_then_frame: "lease_step w w1 \<Longrightarrow> lease_frame w1 w2 \<Longrightarrow> lease_step w w2"
  using step_trans step_frame by blast

lemma step_rollback: "lease_step w w1 \<Longrightarrow> lease_step w (rollback w1)"
  using lease_inv_rollback [of w1] by (auto simp: lease_step_def rollback_def)

lemma step_check: "(\<And>x. r = Inr x \<Longrightarrow> lease_step w (snd (f x w))) \<Longrightarrow> lease_step w (snd (andthen (r, w) f))"
  by (cases r) (simp_all add: step_frame lease_frame_refl)

lemma step_andthen:
  assumes "lease_frame w (snd r)" and "\<And>x w1. r = (Inr x, w1) \<Longrightarrow> lease_frame w w1 \<Longrightarrow> lease_step w (snd (f x w1))"
  shows "lease_step w (snd (andthen r f))"
  using assms by (cases r; cases "fst r") (auto intro: step_frame)

lemma step_update:
  assumes "lease_frame w w1" and "l \<in> set (db_leases (w_db w))" and "\<And>l'. r = Inr l' \<Longrightarrow> advances l l'"
    and "\<And>l' w2. r = Inr l' \<Longrightarrow> l' \<in> set (db_leases (w_db w2)) \<Longrightarrow> lease_step w w2 \<Longrightarrow> lease_step w (snd (f l' w2))"
  shows "lease_step w (snd (andthen (update_lease r w1) f))"
proof (cases r)
  case (Inl e)
  then show ?thesis using step_frame [OF assms(1)] by (simp add: update_lease_def)
next
  case (Inr l')
  let ?w2 = "map_db (save_lease l') w1"
  have l: "l \<in> set (db_leases (w_db w1))" using assms(1,2) by (simp add: lease_frame_def)
  have "lease_inv w1 \<Longrightarrow> lease_inv (snd (update_lease r w1))"
    using update_lease_inv [of w1 r] assms(3) l by blast
  then have "lease_step w1 ?w2" using Inr by (simp add: lease_step_def update_lease_def map_db_def)
  then have "lease_step w ?w2" using step_trans step_frame [OF assms(1)] by blast
  moreover have "l' \<in> set (db_leases (w_db ?w2))"
    using l assms(3) [OF Inr] by (force simp: map_db_def save_lease_def put_row_def advances_def)
  ultimately show ?thesis using assms(4) [OF Inr] Inr by (simp add: update_lease_def)
qed

lemma frame_update_task: "lease_frame w0 w \<Longrightarrow> lease_frame w0 (snd (update_task r w))"
  by (cases r) (simp_all add: update_task_def frame_save_task)

lemma owned_in: "get_owned_lease t lid wk d = Inr l \<Longrightarrow> l \<in> set (db_leases d) \<and> l_id l = lid"
  by (auto simp: get_owned_lease_def find_lease_def dest!: find_row_key split: option.splits if_splits)

lemma frame_cleanup [frames]:
  "lease_frame w0 w \<Longrightarrow> lease_frame w0 (record_terminal_queue_cleanup_failure Q t x l wk op a why w)"
  unfolding record_terminal_queue_cleanup_failure_def by (intro frames)

lemma frame_on_queue_case [frames]:
  "lease_frame w0 w \<Longrightarrow> (\<And>x w1. lease_frame w0 w1 \<Longrightarrow> lease_frame w0 (snd (g x w1))) \<Longrightarrow>
     lease_frame w0 (snd (case on_queue f w of (x, w1) \<Rightarrow> g x w1))"
  "lease_frame w0 w \<Longrightarrow> (\<And>x w1. lease_frame w0 w1 \<Longrightarrow> lease_frame w0 (h x w1)) \<Longrightarrow>
     lease_frame w0 (case on_queue f w of (x, w1) \<Rightarrow> h x w1)"
proof -
  assume w: "lease_frame w0 w"
  obtain x w1 where q: "on_queue f w = (x, w1)" by (cases "on_queue f w")
  have w1: "lease_frame w0 w1" using frame_on_queue [OF w, of f] q by simp
  show "(\<And>x w1. lease_frame w0 w1 \<Longrightarrow> lease_frame w0 (snd (g x w1))) \<Longrightarrow>
      lease_frame w0 (snd (case on_queue f w of (x, w1) \<Rightarrow> g x w1))"
    using w1 by (simp add: q)
  show "(\<And>x w1. lease_frame w0 w1 \<Longrightarrow> lease_frame w0 (h x w1)) \<Longrightarrow>
      lease_frame w0 (case on_queue f w of (x, w1) \<Rightarrow> h x w1)"
    using w1 by (simp add: q)
qed

lemma frame_terminal [frames]: "lease_frame w0 w \<Longrightarrow> lease_frame w0 (reconcile_claimed_terminal Q t x wk w)"
  unfolding reconcile_claimed_terminal_def Let_def by (intro frames)

lemma frame_orphan [frames]: "lease_frame w0 w \<Longrightarrow> lease_frame w0 (snd (claim_orphan Q t wk msg w))"
  unfolding claim_orphan_def Let_def by (intro frames)

lemma frame_stale [frames]: "lease_frame w0 w \<Longrightarrow> lease_frame w0 (snd (cancel_stale_task n K Q t wk x w))"
  unfolding cancel_stale_task_def Let_def by (intro frame_andthen frame_update_task frames)

lemma frame_finalize [frames]:
  "lease_frame w0 w \<Longrightarrow> lease_frame w0 (finalize_cancelled_queue_cleanup Q t x l wk w)"
  unfolding finalize_cancelled_queue_cleanup_def Let_def by (intro frames)

lemma frame_cancel_rows [frames]: "lease_frame w0 w \<Longrightarrow> lease_frame w0 (snd (cancel_rows n K t x a why w))"
  unfolding cancel_rows_def Let_def by (intro frame_andthen frame_update_task frames)

lemma frame_cancel_task [frames]: "lease_frame w0 w \<Longrightarrow> lease_frame w0 (snd (worker_cancel_task n K Q t k a why w))"
  unfolding worker_cancel_task_def Let_def
  by (cases "find_task k (w_db w)") (simp_all only: option.case, (intro frames frame_andthen | assumption)+)

lemma frame_cancel_tasks: "lease_frame w0 w \<Longrightarrow> lease_frame w0 (snd (cancel_tasks n K Q t a why ks c w))"
proof (induction ks arbitrary: c w)
  case (Cons k ks)
  obtain i j where c: "c = (i, j)" by (cases c)
  show ?case
    unfolding cancel_tasks.simps c
    by (intro frame_if Cons.IH Cons.prems frame_andthen frame_cancel_task)
qed simp

lemma frame_cancel_mission [frames]:
  "lease_frame w0 w \<Longrightarrow> lease_frame w0 (snd (worker_cancel_mission n K Q t i a why w))"
  unfolding worker_cancel_mission_def Let_def
  by (auto intro!: frame_andthen frame_cancel_tasks frames split: option.split sum.split)

lemma advances_heartbeat: "advances l (l1\<lparr>l_heartbeat_at := h\<rparr>) \<longleftrightarrow> advances l l1"
  by (simp add: advances_def live_lease_def)

lemma released_beat:
  "bind_result (transition_lease_to_released l) (\<lambda>x. Inr (x\<lparr>l_heartbeat_at := h\<rparr>)) = Inr l' \<Longrightarrow> advances l l'"
  by (auto simp: bind_result_Inr advances_heartbeat dest: released_advances)

lemma activated_beat:
  "bind_result (if l_status l = LClaimed then transition_lease l LActive else Inr l)
     (\<lambda>x. Inr (x\<lparr>l_heartbeat_at := h\<rparr>)) = Inr l' \<Longrightarrow> advances l l'"
  by (auto simp: bind_result_Inr advances_def live_lease_def transition_lease_Inr split: if_splits)

lemma step_pure: "lease_frame w w1 \<Longrightarrow> lease_step w (snd (r, w1))"
  by (simp add: step_frame)

lemma step_if: "lease_step w (snd a) \<Longrightarrow> lease_step w (snd b) \<Longrightarrow> lease_step w (snd (if c then a else b))"
  by simp

lemma step_on_queue:
  assumes "lease_frame w w0" and "\<And>x w1. lease_frame w w1 \<Longrightarrow> lease_step w (snd (g x w1))"
  shows "lease_step w (snd (case on_queue f w0 of (x, w1) \<Rightarrow> g x w1))"
proof -
  obtain x w1 where q: "on_queue f w0 = (x, w1)" by (cases "on_queue f w0")
  have "lease_frame w w1" using frame_on_queue [OF assms(1), of f] q by simp
  then show ?thesis using assms(2) by (simp add: q)
qed

text \<open>A change of a lease the worker owns, with nothing but frames before and after it.\<close>

lemma step_update_frames:
  assumes "lease_frame w w1" and "l \<in> set (db_leases (w_db w))" and "\<And>l'. r = Inr l' \<Longrightarrow> advances l l'"
    and "\<And>l' w2. lease_frame w2 (snd (f l' w2))"
  shows "lease_step w (snd (andthen (update_lease r w1) f))"
  using assms(4) by (intro step_update [OF assms(1-3)]) (auto intro: step_then_frame)

lemma step_heartbeat: "lease_step w (snd (worker_heartbeat Q t lid wk w))"
  unfolding worker_heartbeat_def
  by (rule step_check, drule owned_in, rule step_if, rule step_pure, rule lease_frame_refl, rule step_on_queue,
      rule lease_frame_refl, rule step_if, erule step_pure, erule step_update_frames, erule conjunct1, erule activated_beat)
    (intro frames)

lemma step_start: "lease_step w (snd (start_execution K Q t lid wk w))"
  unfolding start_execution_def Let_def
  by (rule step_check, drule owned_in, rule step_check, rule step_if, rule step_pure, rule lease_frame_refl,
      rule step_update_frames, rule lease_frame_refl, erule conjunct1, erule activated_beat)
    (intro frame_andthen frame_update_task frames)

lemma step_from: "lease_frame w w1 \<Longrightarrow> lease_step w1 w2 \<Longrightarrow> lease_step w w2"
  using step_trans step_frame by blast

lemma step_cancel_requested:
  assumes "lease_frame w w1" and "l \<in> set (db_leases (w_db w))"
  shows "lease_step w (snd (complete_cancel_requested Q t x l wk w1))"
proof (rule step_from [OF assms(1)])
  have l: "l \<in> set (db_leases (w_db w1))" using assms by (simp add: lease_frame_def)
  show "lease_step w1 (snd (complete_cancel_requested Q t x l wk w1))"
    unfolding complete_cancel_requested_def Let_def
    by (rule step_andthen, rule frame_update_task, rule lease_frame_refl, erule step_update_frames, rule l,
        erule conjunct1 [OF released_advances]) (intro frames)
qed

lemma step_complete_rows:
  assumes "lease_frame w w1" and "l \<in> set (db_leases (w_db w))"
  shows "lease_step w (snd (complete_rows n K t wk l x given why w1))"
proof (rule step_from [OF assms(1)])
  have l: "l \<in> set (db_leases (w_db w1))" using assms by (simp add: lease_frame_def)
  have outp: "lease_frame w2 (snd (case given of None \<Rightarrow> (Inr (x1, []), w2) | Some g \<Rightarrow> record_output K x1 l1 why g w2))"
    for x1 l1 and w2 :: "'a world"
    by (cases given) (simp_all add: lease_frame_refl frame_record_output)
  show "lease_step w1 (snd (complete_rows n K t wk l x given why w1))"
    unfolding complete_rows_def Let_def case_prod_beta
    by (rule step_check, rule step_andthen, rule frame_update_task, rule frame_observe, rule lease_frame_refl,
        erule step_update_frames, rule l, erule released_beat)
      (intro frame_andthen outp frames)
qed

lemma step_fail_rows:
  assumes "l \<in> set (db_leases (w_db w))"
  shows "lease_step w (snd (fail_rows n K t wk l x why w))"
  unfolding fail_rows_def Let_def
  by (rule step_andthen, rule frame_update_task, rule lease_frame_refl, rule step_andthen, erule frame_add_evidence,
      erule step_update_frames, rule assms, erule released_beat)
    (intro frame_andthen frames)

lemma step_block: "lease_step w (snd (block_completion_failure Q t lid wk ty cls why w))"
  unfolding block_completion_failure_def Let_def
  by (rule step_check, drule owned_in, rule step_check, rule step_if, rule step_pure, rule lease_frame_refl,
      rule step_andthen, rule frame_update_task, rule lease_frame_refl, erule step_update_frames, erule conjunct1,
      erule released_beat)
    (intro frame_andthen frames)

lemma step_then: "lease_step w (snd r) \<Longrightarrow> (\<And>x w1. lease_frame w1 (snd (f x w1))) \<Longrightarrow> lease_step w (snd (andthen r f))"
  by (cases r; cases "fst r") (auto intro: step_then_frame)

lemma step_fail: "lease_step w (snd (worker_fail n K Q t lid wk why w))"
  unfolding worker_fail_def case_prod_beta
  by (rule step_check, drule owned_in, rule step_check, rule step_if, rule step_pure, rule lease_frame_refl,
      rule step_then, rule step_fail_rows, erule conjunct1)
    (intro frames)

lemma step_complete: "lease_step w (snd (worker_complete n K Q t lid wk given why md w))"
  unfolding worker_complete_def Let_def case_prod_beta
  by (rule step_check, drule owned_in, rule step_check, rule step_if, rule step_pure, rule lease_frame_refl, rule step_if,
      rule step_cancel_requested, rule frame_save_task, rule lease_frame_refl, erule conjunct1,
      rule step_then, rule step_complete_rows, rule frame_save_task, rule lease_frame_refl, erule conjunct1)
    (intro frames)

lemma advances_trans: "advances l l1 \<Longrightarrow> advances l1 l2 \<Longrightarrow> advances l l2"
  by (simp add: advances_def)

lemma advances_beat: "Inr (l\<lparr>l_heartbeat_at := h\<rparr>) = (Inr l' :: worker_lease result) \<Longrightarrow> advances l l'"
  by (auto simp: advances_def live_lease_def)

lemma step_rolled_back: "lease_frame w w1 \<Longrightarrow> lease_step w (snd (r, rollback w1))"
  using step_rollback [OF step_frame] by simp

lemma step_release: "lease_step w (snd (worker_release Q t lid wk w))"
  unfolding worker_release_def
proof (rule step_check, drule owned_in, rule step_check, rule step_check)
  fix l x
  assume "l \<in> set (db_leases (w_db w)) \<and> l_id l = lid"
  then have l: "l \<in> set (db_leases (w_db w))" ..
  show "lease_step w (snd (andthen (update_lease (transition_lease_to_released l) w) (\<lambda>l1 w1.
     andthen (update_task (transition_task x TQueued) w1) (\<lambda>_ w2.
       case on_queue (\<lambda>q. release_lease Q q t (l_task_id l) wk) w2 of (res, w3) \<Rightarrow>
         if \<not> r_ok res then (Inl (ValueError (reason_or res ''release rejected'')), rollback w3)
         else andthen (update_lease (Inr (l1\<lparr>l_heartbeat_at := Some (w_clock w)\<rparr>)) w3) (\<lambda>l2 w4. (Inr l2, commit Q w4))))))"
  proof (rule step_update [OF lease_frame_refl l])
    show "transition_lease_to_released l = Inr l' \<Longrightarrow> advances l l'" for l' using released_advances by blast
  next
    fix l1 w1
    assume l1: "l1 \<in> set (db_leases (w_db w1))" and st: "lease_step w w1"
    show "lease_step w (snd (andthen (update_task (transition_task x TQueued) w1) (\<lambda>_ w2.
       case on_queue (\<lambda>q. release_lease Q q t (l_task_id l) wk) w2 of (res, w3) \<Rightarrow>
         if \<not> r_ok res then (Inl (ValueError (reason_or res ''release rejected'')), rollback w3)
         else andthen (update_lease (Inr (l1\<lparr>l_heartbeat_at := Some (w_clock w)\<rparr>)) w3) (\<lambda>l2 w4. (Inr l2, commit Q w4)))))"
      by (rule step_trans [OF st], rule step_andthen, rule frame_update_task, rule lease_frame_refl, erule step_on_queue,
          rule step_if, erule step_rolled_back, erule step_update_frames, rule l1, erule advances_beat) (intro frames)
  qed
qed

lemma step_defer:
  "l \<in> set (db_leases (w_db w)) \<Longrightarrow> lease_step w (snd (defer_claim Q t wk x l ks w))"
  unfolding defer_claim_def
  by (rule step_update_frames, rule lease_frame_refl, assumption, erule conjunct1 [OF released_advances])
    (intro frame_andthen frame_update_task frames)

lemma step_claim_body: "lease_step w (snd (claim_body Q t wk x w))"
  unfolding claim_body_def Let_def
proof (rule step_check, rule step_andthen, rule frame_update_task, rule lease_frame_refl)
  fix u :: unit and x1 :: execution_task and w2 :: "'a world"
  assume none: "assert_no_active_lease t (t_id x) (w_db w) = Inr u" and f: "lease_frame w w2"
  let ?l = "new_lease t (t_id x) wk w2"
  let ?x2 = "x1\<lparr>t_metadata := AList.update ''worker_lease_id'' (JStr (l_id ?l)) (t_metadata x1)\<rparr>"
  let ?w3 = "map_db (save_task ?x2) (add_lease ?l w2)"
  have "assert_no_active_lease t (t_id x) (w_db w2) = Inr ()"
    using none f by (simp add: assert_no_active_lease_def lease_frame_def split: if_splits)
  from add_lease_inv [OF _ this] have "lease_inv w2 \<Longrightarrow> lease_inv (add_lease ?l w2)" by blast
  then have "lease_step w2 (add_lease ?l w2)" by (simp add: lease_step_def add_lease_def map_db_def)
  then have "lease_step w2 ?w3" by (rule step_then_frame) (intro frames)
  then have st: "lease_step w ?w3" by (rule step_from [OF f])
  have l: "?l \<in> set (db_leases (w_db ?w3))" by (simp add: map_db_def add_lease_def save_task_def)
  have "lease_step w (snd (defer_claim Q t wk ?x2 ?l ks ?w3))" for ks
    by (rule step_trans [OF st step_defer [OF l]])
  moreover have "lease_step w (commit Q ?w3)"
    by (rule step_then_frame [OF st]) (intro frames)
  ultimately show "lease_step w (snd (if pending_keys_of ?x2 (w_db ?w3) \<noteq> []
      then defer_claim Q t wk ?x2 ?l (pending_keys_of ?x2 (w_db ?w3)) ?w3 else (Inr (Some ?x2), commit Q ?w3)))"
    by simp
qed

lemma step_savepoint: "lease_step w (snd (claim_in_savepoint Q t wk x w))"
proof -
  obtain r w1 where body: "claim_body Q t wk x w = (r, w1)" by fastforce
  have st: "lease_step w w1" using step_claim_body [of w Q t wk x] body by simp
  have "lease_inv w \<Longrightarrow> lease_inv (w1\<lparr>w_db := w_db w\<rparr>)"
    using st by (auto simp: lease_step_def lease_inv_def intro: leases_from_mono)
  then have "lease_step w (w1\<lparr>w_db := w_db w\<rparr>)" using st by (simp add: lease_step_def)
  then have "lease_step w (snd (on_queue (\<lambda>q. release_lease Q q t (t_id x) wk) (w1\<lparr>w_db := w_db w\<rparr>)))"
    by (rule step_then_frame) (intro frames)
  then show ?thesis using st by (simp add: claim_in_savepoint_def body split: sum.split)
qed

lemma step_claim_row: "lease_step w (snd (claim_row n K Q t wk x w))"
proof -
  obtain m w1 where hold: "(case t_mission_id x of None \<Rightarrow> (None, w) | Some i \<Rightarrow> get_mission_for_tenant i t w) = (m, w1)"
    by fastforce
  then have f: "lease_frame w w1" by (auto simp: lease_frame_refl dest: frame_get_mission split: option.splits)
  have "lease_step w (snd (cancel_stale_task n K Q t wk x w1))" by (rule step_frame) (intro frames f)
  moreover have "lease_step w (snd (claim_in_savepoint Q t wk x w1))" by (rule step_from [OF f step_savepoint])
  moreover have "lease_step w (reconcile_claimed_terminal Q t x wk w)" by (rule step_frame) (intro frames)
  ultimately show ?thesis by (simp add: claim_row_def hold)
qed

lemma step_option:
  "lease_step w (snd a) \<Longrightarrow> (\<And>x. lease_step w (snd (f x))) \<Longrightarrow> lease_step w (snd (case v of None \<Rightarrow> a | Some x \<Rightarrow> f x))"
  by (cases v) simp_all

lemma step_orphan: "lease_frame w w1 \<Longrightarrow> lease_step w (snd (claim_orphan Q t wk msg w1))"
  by (rule step_frame) (intro frames)

lemma step_claim: "lease_step w (snd (claim_next_task n K Q t wk w))"
  unfolding claim_next_task_def
  by (rule step_andthen, rule frame_on_queue, rule lease_frame_refl)
    (intro step_option step_if step_pure step_orphan step_from [OF _ step_claim_row]; assumption)

end
