(* ===== verification/Maintenance.thy ===== *)
theory Maintenance
  imports Worker Metering
begin

section \<open>Recovery of expired leases\<close>

text \<open>
  \<open>backend/services/runtime_maintainer.py\<close>: a pass publishes what is due, takes the tasks of workers whose
  heartbeat is too old back into the queue or buries them, cleans up what is still being processed without a
  lease, and refreshes the deliverable read models.

  The rows of the session are those its role may see: with row-level security the rows of the tenant the
  pass is for, which every commit and every step activates again. The tenants of these rows are visited in the order of
  their tasks; in the code they are a set. The tables of the usage meters are the session of \<open>Metering\<close>.
\<close>

record maintainer =
  mt_expiry_seconds :: int
  mt_max_retries :: int

definition default_maintainer :: maintainer where
  "default_maintainer = \<lparr>mt_expiry_seconds = 60, mt_max_retries = 3\<rparr>"

text \<open>The counters of a \<open>RecoverySummary\<close> that the two loops over leases and payloads fill.\<close>

record recovery_counts =
  rc_expired :: nat
  rc_requeued :: nat
  rc_dead_lettered :: nat
  rc_mismatched :: nat

definition no_counts :: recovery_counts where
  "no_counts = \<lparr>rc_expired = 0, rc_requeued = 0, rc_dead_lettered = 0, rc_mismatched = 0\<rparr>"

definition add_counts :: "recovery_counts \<Rightarrow> recovery_counts \<Rightarrow> recovery_counts" where
  "add_counts a b =
     \<lparr>rc_expired = rc_expired a + rc_expired b, rc_requeued = rc_requeued a + rc_requeued b,
      rc_dead_lettered = rc_dead_lettered a + rc_dead_lettered b, rc_mismatched = rc_mismatched a + rc_mismatched b\<rparr>"

subsection \<open>One expired lease\<close>

definition heartbeat_expired :: "time \<Rightarrow> worker_lease \<Rightarrow> bool" where
  "heartbeat_expired threshold l \<longleftrightarrow>
     live_lease l \<and> (case l_heartbeat_at l of None \<Rightarrow> False | Some t \<Rightarrow> t < threshold)"

definition expired_leases :: "time \<Rightarrow> db \<Rightarrow> (uuid \<times> uuid) list" where
  "expired_leases threshold d =
     map (\<lambda>l. (l_id l, l_task_id l))
       (filter (\<lambda>l. heartbeat_expired threshold l \<and> find_task (l_task_id l) d \<noteq> None) (db_leases d))"

definition retries_text :: "maintainer \<Rightarrow> execution_task \<Rightarrow> string" where
  "retries_text M x = int_text (t_retry_count x) @ ''/'' @ int_text (mt_max_retries M)"

definition recovery_payload :: "execution_task \<Rightarrow> worker_lease \<Rightarrow> dict" where
  "recovery_payload x l =
     [(''task_id'', JStr (t_id x)), (''lease_id'', JStr (l_id l)), (''retry_count'', JInt (t_retry_count x))]"

definition refused :: "string \<Rightarrow> op_result \<Rightarrow> exn" where
  "refused what res = RuntimeError (''runtime maintainer failed to '' @ what @ shown (opt_str (r_reason res)))"

definition buried_task :: "execution_task \<Rightarrow> execution_task result" where
  "buried_task x =
     bind_result (if t_status x = TRunning then transition_task x TRecovering else Inr x) (\<lambda>y. transition_task y TDeadLettered)"

definition requeued_task :: "execution_task \<Rightarrow> execution_task result" where
  "requeued_task x =
     bind_result (if t_status x = TRunning then transition_task x TRecovering else Inr x)
       (\<lambda>y. transition_task (y\<lparr>t_retry_count := t_retry_count x + 1\<rparr>) TQueued)"

text \<open>A task that was tried often enough.\<close>

definition bury_expired ::
  "maintainer \<Rightarrow> 'q queue_adapter \<Rightarrow> worker_lease \<Rightarrow> execution_task \<Rightarrow> 'q world \<Rightarrow> recovery_counts result \<times> 'q world" where
  "bury_expired M Q l x w =
     (let running = t_status x = TRunning;
          why = ''max retries exceeded during '' @ (if running then [] else ''claimed '') @ ''recovery ('' @ retries_text M x @ '')''
      in case on_queue (\<lambda>q. move_owned_to_dead_letter Q q (w_clock w) (t_tenant_id x) (t_id x) (l_holder_identity l) why) w of
           (res, w1) \<Rightarrow>
             if \<not> r_ok res
             then (Inl (refused (''move '' @ (if running then [] else ''claimed '') @ ''task '' @ t_id x @ '' to dead-letter: '') res), w1)
             else andthen (update_lease (transition_lease l LExpired) w1) (\<lambda>_ w2.
                  andthen (update_task (buried_task x) w2) (\<lambda>_ w3.
                    (Inr (no_counts\<lparr>rc_expired := 1, rc_dead_lettered := 1\<rparr>),
                     commit Q (audit (t_tenant_id x) (t_mission_id x) ''runtime_recovery''
                       (if running then ''task_dead_lettered_max_retries'' else ''claimed_task_dead_lettered_max_retries'')
                       ''runtime_maintainer''
                       (if running
                        then ''Task '' @ t_id x @ '' dead-lettered after '' @ int_text (t_retry_count x) @
                             '' retries. Expired lease: '' @ l_id l @ ''.''
                        else ''Expired claimed lease '' @ l_id l @ '': task '' @ t_id x @ '' dead-lettered after '' @
                             int_text (t_retry_count x) @ '' retries without starting.'')
                       (recovery_payload x l) w3)))))"

text \<open>The arrow in the message of a recovered task is \<open>U+2192\<close>; here it is its ASCII spelling.\<close>

definition requeue_expired ::
  "maintainer \<Rightarrow> 'q queue_adapter \<Rightarrow> worker_lease \<Rightarrow> execution_task \<Rightarrow> 'q world \<Rightarrow> recovery_counts result \<times> 'q world" where
  "requeue_expired M Q l x w =
     (let running = t_status x = TRunning; retry = int_text (t_retry_count x + 1) @ ''/'' @ int_text (mt_max_retries M)
      in case on_queue (\<lambda>q. recover_task_for_retry Q q (t_tenant_id x) (t_id x) (l_holder_identity l)) w of
           (res, w1) \<Rightarrow>
             if \<not> r_ok res
             then (Inl (refused (''reconcile '' @ (if running then [] else ''claimed '') @ ''task '' @ t_id x @ '' for retry: '') res), w1)
             else andthen (update_lease (transition_lease l LExpired) w1) (\<lambda>_ w2.
                  andthen (update_task (requeued_task x) w2) (\<lambda>_ w3.
                    (Inr (no_counts\<lparr>rc_expired := 1, rc_requeued := 1\<rparr>),
                     commit Q (audit (t_tenant_id x) (t_mission_id x) ''runtime_recovery''
                       (if running then ''lease_expired_task_requeued'' else ''claimed_task_requeued_on_lease_expiry'')
                       ''runtime_maintainer''
                       (if running
                        then ''Expired lease '' @ l_id l @ '' caused task '' @ t_id x @
                             '' to be recovered (running->recovering->queued). Retry '' @ retry @ ''.''
                        else ''Expired lease '' @ l_id l @ '': task '' @ t_id x @
                             '' was claimed but never started. Re-queued directly (claimed->queued). Retry '' @ retry @ ''.'')
                       (recovery_payload x l) w3)))))"

definition recover_lease ::
  "maintainer \<Rightarrow> 'q queue_adapter \<Rightarrow> worker_lease \<Rightarrow> execution_task \<Rightarrow> 'q world \<Rightarrow> recovery_counts result \<times> 'q world" where
  "recover_lease M Q l x w =
     (if t_status x \<notin> {TRunning, TClaimed}
      then andthen (update_lease (transition_lease l LExpired) w) (\<lambda>_ w1. (Inr (no_counts\<lparr>rc_expired := 1\<rparr>), commit Q w1))
      else if t_retry_count x \<ge> mt_max_retries M then bury_expired M Q l x w
      else requeue_expired M Q l x w)"

definition state_mismatch :: "worker_lease \<Rightarrow> execution_task \<Rightarrow> recovery_counts" where
  "state_mismatch l x =
     (if t_status x = TClaimed \<and> l_status l = LActive then no_counts\<lparr>rc_mismatched := 1\<rparr> else no_counts)"

text \<open>The loop: an exception undoes the rows of its lease and ends the pass.\<close>

fun recover_leases ::
  "maintainer \<Rightarrow> 'q queue_adapter \<Rightarrow> (uuid \<times> uuid) list \<Rightarrow> recovery_counts \<Rightarrow> 'q world \<Rightarrow> recovery_counts result \<times> 'q world" where
  "recover_leases M Q [] c w = (Inr c, w)"
| "recover_leases M Q ((i, k) # rest) c w =
     (case (find_lease i (w_db w), find_task k (w_db w)) of
        (Some l, Some x) \<Rightarrow>
          (case recover_lease M Q l x w of
             (Inl e, w1) \<Rightarrow> (Inl e, rollback w1)
           | (Inr c1, w1) \<Rightarrow> recover_leases M Q rest (add_counts (add_counts c (state_mismatch l x)) c1) w1)
      | _ \<Rightarrow> recover_leases M Q rest c w)"

subsection \<open>Payloads without a lease\<close>

definition active_lease_for_task :: "string \<Rightarrow> uuid \<Rightarrow> db \<Rightarrow> worker_lease option" where
  "active_lease_for_task tenant k d = find (\<lambda>l. l_tenant_id l = tenant \<and> l_task_id l = k \<and> live_lease l) (db_leases d)"

definition latest_lease_holder :: "string \<Rightarrow> uuid \<Rightarrow> db \<Rightarrow> string option" where
  "latest_lease_holder tenant k d =
     (case sort_key (\<lambda>l. - l_updated_at l) (filter (\<lambda>l. l_tenant_id l = tenant \<and> l_task_id l = k) (db_leases d)) of
        [] \<Rightarrow> None | l # _ \<Rightarrow> Some (l_holder_identity l))"

definition cleanup_holder :: "string \<Rightarrow> uuid \<Rightarrow> db \<Rightarrow> string" where
  "cleanup_holder tenant k d =
     (case latest_lease_holder tenant k d of None \<Rightarrow> ''runtime_maintainer'' | Some [] \<Rightarrow> ''runtime_maintainer'' | Some h \<Rightarrow> h)"

text \<open>The task of a payload that went back to the queue; None is a state that is left as it is.\<close>

definition orphan_requeued :: "execution_task \<Rightarrow> execution_task result option" where
  "orphan_requeued x =
     (case t_status x of
        TRunning \<Rightarrow> Some (requeued_task x)
      | TClaimed \<Rightarrow> Some (transition_task x TQueued)
      | TRecovering \<Rightarrow> Some (transition_task x TQueued)
      | TQueued \<Rightarrow> Some (Inr x)
      | _ \<Rightarrow> None)"

definition requeue_orphan ::
  "'q queue_adapter \<Rightarrow> string \<Rightarrow> execution_task \<Rightarrow> 'q world \<Rightarrow> recovery_counts result \<times> 'q world" where
  "requeue_orphan Q tenant x w =
     (case on_queue (\<lambda>q. recover_task_for_retry Q q tenant (t_id x) ''runtime_maintainer'') w of (res, w1) \<Rightarrow>
        if \<not> r_ok res then (Inr (no_counts\<lparr>rc_mismatched := 1\<rparr>), w1)
        else case orphan_requeued x of
          None \<Rightarrow> (Inr (no_counts\<lparr>rc_mismatched := 1\<rparr>), w1)
        | Some r \<Rightarrow> andthen (update_task r w1) (\<lambda>x1 w2.
            (Inr (no_counts\<lparr>rc_requeued := 1\<rparr>),
             commit Q (audit tenant (t_mission_id x) ''runtime_recovery'' ''orphan_processing_payload_requeued'' ''runtime_maintainer''
               (''Requeued processing payload for task '' @ t_id x @ '' without an active DB lease.'')
               [(''task_id'', JStr (t_id x)), (''task_status'', JStr (task_value (t_status x1)))] w2))))"

definition reconcile_payload ::
  "'q queue_adapter \<Rightarrow> string \<Rightarrow> payload_inspection \<Rightarrow> 'q world \<Rightarrow> recovery_counts result \<times> 'q world" where
  "reconcile_payload Q tenant inspection w =
     (let mismatch = Inr (no_counts\<lparr>rc_mismatched := 1\<rparr>)
      in case (pi_error inspection, pi_message inspection) of
        (None, Some msg) \<Rightarrow>
          (case find_task (q_task_id msg) (w_db w) of
             None \<Rightarrow> (mismatch, w)
           | Some x \<Rightarrow>
               if t_tenant_id x \<noteq> tenant then (mismatch, w)
               else if active_lease_for_task tenant (t_id x) (w_db w) \<noteq> None then (Inr no_counts, w)
               else if t_status x \<in> {TCompleted, TBlocked, TCancelled}
               then (case on_queue (\<lambda>q. complete_task Q q tenant (t_id x) (cleanup_holder tenant (t_id x) (w_db w))) w of
                       (res, w1) \<Rightarrow> (if r_ok res then Inr no_counts else mismatch, w1))
               else if t_status x \<in> {TFailed, TDeadLettered}
               then (case on_queue (\<lambda>q. move_to_dead_letter Q q (w_clock w) tenant (t_id x)
                         (''reconciled '' @ task_value (t_status x) @ '' task from processing without active lease'')) w of
                       (res, w1) \<Rightarrow> (if r_ok res then Inr (no_counts\<lparr>rc_dead_lettered := 1\<rparr>) else mismatch, w1))
               else requeue_orphan Q tenant x w)
      | _ \<Rightarrow> (mismatch, w))"

fun reconcile_payloads ::
  "'q queue_adapter \<Rightarrow> string \<Rightarrow> payload_inspection list \<Rightarrow> recovery_counts \<Rightarrow> 'q world \<Rightarrow> recovery_counts result \<times> 'q world" where
  "reconcile_payloads Q tenant [] c w = (Inr c, w)"
| "reconcile_payloads Q tenant (p # ps) c w =
     andthen (reconcile_payload Q tenant p w) (\<lambda>c1 w1. reconcile_payloads Q tenant ps (add_counts c c1) w1)"

fun reconcile_tenants ::
  "'q queue_adapter \<Rightarrow> string list \<Rightarrow> recovery_counts \<Rightarrow> 'q world \<Rightarrow> recovery_counts result \<times> 'q world" where
  "reconcile_tenants Q [] c w = (Inr c, w)"
| "reconcile_tenants Q (tenant # rest) c w =
     andthen (on_queue (\<lambda>q. list_processing Q q tenant) w) (\<lambda>ps w1.
     andthen (reconcile_payloads Q tenant ps c w1) (\<lambda>c1 w2. reconcile_tenants Q rest c1 w2))"

definition task_tenants :: "db \<Rightarrow> string list" where
  "task_tenants d = remdups (map t_tenant_id (db_tasks d))"

definition reconcile_processing :: "'q queue_adapter \<Rightarrow> 'q world \<Rightarrow> recovery_counts result \<times> 'q world" where
  "reconcile_processing Q w = reconcile_tenants Q (task_tenants (w_db w)) no_counts w"

subsection \<open>Read models\<close>

definition refreshed_mission :: "runtime_host \<Rightarrow> db \<Rightarrow> mission \<Rightarrow> mission" where
  "refreshed_mission K d m =
     (if m_tenant_id m \<notin> set (task_tenants d) then m
      else case rh_deliverable_state K (m_metadata m) (list_for_mission (m_id m) d) of
             None \<Rightarrow> m
           | Some md \<Rightarrow> if canonical_dict md = canonical_dict (m_metadata m) then m else m\<lparr>m_metadata := md\<rparr>)"

definition reconcile_deliverables :: "runtime_host \<Rightarrow> 'q queue_adapter \<Rightarrow> 'q world \<Rightarrow> nat \<times> 'q world" where
  "reconcile_deliverables K Q w =
     (let d = w_db w; changed = length (filter (\<lambda>m. refreshed_mission K d m \<noteq> m) (db_missions d))
      in (changed, if changed = 0 then w
            else commit Q (map_db (\<lambda>d. d\<lparr>db_missions := map (refreshed_mission K d) (db_missions d)\<rparr>) w)))"

subsection \<open>A pass\<close>

record recovery_summary =
  rs_counts :: recovery_counts
  rs_deliverables :: nat
  rs_dispatch :: publish_summary
  rs_meters :: meter_summary

text \<open>What follows the publications.\<close>

definition recover_runtime ::
  "runtime_host \<Rightarrow> maintainer \<Rightarrow> 'q queue_adapter \<Rightarrow> 'q world \<Rightarrow> (recovery_counts \<times> nat) result \<times> 'q world" where
  "recover_runtime K M Q w =
     andthen (recover_leases M Q (expired_leases (w_clock w - seconds (mt_expiry_seconds M)) (w_db w)) no_counts w) (\<lambda>c w1.
     andthen (reconcile_processing Q w1) (\<lambda>c1 w2.
       case reconcile_deliverables K Q w2 of (n, w3) \<Rightarrow> (Inr (add_counts c c1, n), w3)))"

definition recover_expired_leases ::
  "stripe \<Rightarrow> (string \<times> string) list \<Rightarrow> runtime_host \<Rightarrow> maintainer \<Rightarrow> 'q queue_adapter \<Rightarrow> 'q world \<times> tenant_session \<Rightarrow>
     recovery_summary result \<times> 'q world \<times> tenant_session" where
  "recover_expired_leases S plan_map K M Q ws =
     (case publish_due Q 25 (fst ws) of
        (Inl e, w1) \<Rightarrow> (Inl e, w1, snd ws)
      | (Inr published, w1) \<Rightarrow>
          (case publish_due_meters S plan_map 25 (snd ws) of
             (Inl e, s1) \<Rightarrow> (Inl e, w1, s1)
           | (Inr meters, s1) \<Rightarrow>
             (case recover_runtime K M Q w1 of
                (Inl e, w2) \<Rightarrow> (Inl e, w2, s1)
              | (Inr (c, n), w2) \<Rightarrow>
                  (Inr \<lparr>rs_counts = c, rs_deliverables = n, rs_dispatch = published, rs_meters = meters\<rparr>, w2, s1))))"

end
