(* ===== verification/MaintenanceRuns.thy ===== *)
theory MaintenanceRuns
  imports LeaseSteps Maintenance
begin

section \<open>What a recovery pass guarantees\<close>

text \<open>
  Over the pass of Maintenance: the leases it expires, the tasks it takes back, and what it cannot recover.
\<close>

subsection \<open>The leases\<close>

lemma expired_advances: "transition_lease l LExpired = Inr l' \<Longrightarrow> advances l l' \<and> l_status l' = LExpired"
  by (auto simp: advances_def transition_lease_Inr live_lease_def)

lemma step_recover_lease:
  assumes "l \<in> set (db_leases (w_db w))"
  shows "lease_step w (snd (recover_lease M Q l x w))"
proof -
  have plain: "lease_step w (snd (andthen (update_lease (transition_lease l LExpired) w) (\<lambda>_ w1. (Inr c, commit Q w1))))" for c
    by (rule step_update_frames, rule lease_frame_refl, rule assms, erule conjunct1 [OF expired_advances]) (intro frames)
  have queue: "lease_step w (snd (case on_queue f w of (res, w1) \<Rightarrow>
      if \<not> r_ok res then (Inl (e res), w1)
      else andthen (update_lease (transition_lease l LExpired) w1) (\<lambda>_ w2.
           andthen (update_task r w2) (\<lambda>y w3. (Inr c, commit Q (audit t m a b d g p w3))))))"
    for f :: "'a \<Rightarrow> op_result \<times> 'a" and e r c t m a b d g p
    by (rule step_on_queue, rule lease_frame_refl, rule step_if, erule step_pure, erule step_update_frames, rule assms,
        erule conjunct1 [OF expired_advances])
      (intro frame_andthen frame_update_task frames)
  show ?thesis
    unfolding recover_lease_def bury_expired_def requeue_expired_def Let_def
    by (intro step_if plain queue)
qed

lemma step_recover_leases: "lease_step w0 w \<Longrightarrow> lease_step w0 (snd (recover_leases M Q ps c w))"
proof (induction ps arbitrary: c w)
  case (Cons p ps)
  obtain i k where p: "p = (i, k)" by (cases p)
  show ?case
  proof (cases "find_lease i (w_db w)")
    case None
    then show ?thesis using Cons by (simp add: p)
  next
    case (Some l)
    show ?thesis
    proof (cases "find_task k (w_db w)")
      case None
      then show ?thesis using Cons Some by (simp add: p)
    next
      case found: (Some x)
      have "l \<in> set (db_leases (w_db w))" using Some find_row_key by (fastforce simp: find_lease_def)
      note s = step_trans [OF Cons.prems step_recover_lease [OF this, of M Q x]]
      show ?thesis
        using Cons.IH s by (cases "recover_lease M Q l x w"; cases "fst (recover_lease M Q l x w)")
          (auto simp: p Some found intro: step_rollback)
    qed
  qed
qed simp

lemma frame_orphan_requeue [frames]: "lease_frame w0 w \<Longrightarrow> lease_frame w0 (snd (requeue_orphan Q t x w))"
proof -
  have "lease_frame w0 (snd (case orphan_requeued x of None \<Rightarrow> (Inr c, w1)
      | Some r \<Rightarrow> andthen (update_task r w1) (\<lambda>x1 w2. (Inr (d x1), commit Q (audit t m a b e g (p x1) w2)))))"
    if "lease_frame w0 w1" for w1 :: "'a world" and c d m a b e g and p :: "execution_task \<Rightarrow> dict"
    using that by (cases "orphan_requeued x") (auto intro!: frame_andthen frame_update_task frames)
  then show "lease_frame w0 w \<Longrightarrow> ?thesis"
    unfolding requeue_orphan_def by (intro frames)
qed

lemma frame_payload: "lease_frame w0 w \<Longrightarrow> lease_frame w0 (snd (reconcile_payload Q t p w))"
  by (auto simp: reconcile_payload_def Let_def intro!: frames split: option.splits)

lemma frame_payloads: "lease_frame w0 w \<Longrightarrow> lease_frame w0 (snd (reconcile_payloads Q t ps c w))"
  by (induction ps arbitrary: c w) (auto intro!: frame_andthen frame_payload)

lemma frame_tenants: "lease_frame w0 w \<Longrightarrow> lease_frame w0 (snd (reconcile_tenants Q ts c w))"
  by (induction ts arbitrary: c w) (auto intro!: frame_andthen frame_payloads frame_on_queue)

lemma frame_deliverables: "lease_frame w0 w \<Longrightarrow> lease_frame w0 (snd (reconcile_deliverables K Q w))"
  unfolding reconcile_deliverables_def Let_def by (auto intro!: frame_commit frame_map_db)

lemma step_recover: "lease_step w (snd (recover_runtime K M Q w))"
proof -
  have "lease_frame w1 (snd (andthen (reconcile_processing Q w1) (\<lambda>c1 w2.
      case reconcile_deliverables K Q w2 of (n, w3) \<Rightarrow> (Inr (add_counts c c1, n), w3))))" for w1 c
    unfolding reconcile_processing_def case_prod_beta snd_conv
    by (rule frame_andthen, rule frame_tenants, rule lease_frame_refl)
      (simp add: frame_deliverables)
  then show ?thesis
    unfolding recover_runtime_def by (rule step_then [OF step_recover_leases [OF step_frame [OF lease_frame_refl]]])
qed

lemma frame_publish_rows: "lease_frame w0 w \<Longrightarrow> lease_frame w0 (snd (publish_rows Q rs c w))"
proof (induction rs arbitrary: c w)
  case (Cons r rs)
  obtain a b where c: "c = (a, b)" by (cases c)
  show ?case
    using Cons.prems by (auto simp: c Let_def intro!: Cons.IH frames split: option.split sum.split prod.split)
qed simp

lemma frame_publish_due: "lease_frame w0 w \<Longrightarrow> lease_frame w0 (snd (publish_due Q limit w))"
proof -
  assume w: "lease_frame w0 w"
  obtain r w1 where pub: "publish_rows Q (due_pending (w_clock w) limit (w_db w)) (0, 0) w = (r, w1)" by fastforce
  have w1: "lease_frame w0 w1" using frame_publish_rows [OF w, of Q "due_pending (w_clock w) limit (w_db w)" "(0, 0)"] pub by simp
  show ?thesis
    using w1 frame_reconcile_cancelled [OF w1, of Q limit]
    by (auto simp: publish_due_def pub split: sum.split prod.split)
qed

subsection \<open>No expired lease is left\<close>

lemma commit_sel [simp]:
  "w_durable (commit Q w) = w_db (commit Q w)" "db_leases (w_db (commit Q w)) = db_leases (w_db w)"
  "db_tasks (w_db (commit Q w)) = db_tasks (w_db w)" "w_clock (commit Q w) = w_clock w"
  using commit_committed [of w Q] by (simp_all add: committed_def)

lemma rows_sel [simp]:
  "db_leases (w_db (audit t m a b d g p w)) = db_leases (w_db w)" "db_tasks (w_db (audit t m a b d g p w)) = db_tasks (w_db w)"
  "db_leases (w_db (map_db (save_task x) w)) = db_leases (w_db w)"
  "db_tasks (w_db (map_db (save_task x) w)) = put_row t_id x (db_tasks (w_db w))"
  "db_leases (w_db (map_db (save_lease l) w)) = put_row l_id l (db_leases (w_db w))"
  "db_tasks (w_db (map_db (save_lease l) w)) = db_tasks (w_db w)"
  by (simp_all add: audit_def map_db_def add_audit_def save_task_def save_lease_def)

lemma requeued_Inr: "requeued_task x = Inr y \<Longrightarrow> t_status x \<in> {TRunning, TClaimed} \<Longrightarrow>
   y = x\<lparr>t_status := TQueued, t_retry_count := t_retry_count x + 1\<rparr>"
  by (auto simp: requeued_task_def bind_result_Inr transition_task_Inr split: if_splits)

lemma buried_Inr: "buried_task x = Inr y \<Longrightarrow> t_status x \<in> {TRunning, TClaimed} \<Longrightarrow> y = x\<lparr>t_status := TDeadLettered\<rparr>"
  by (auto simp: buried_task_def bind_result_Inr transition_task_Inr split: if_splits)

lemma on_queue_sel: "on_queue f w = (r, w1) \<Longrightarrow> f (w_queue w) = (r, w_queue w1) \<and> w_db w1 = w_db w \<and> w_clock w1 = w_clock w \<and>
   w_intents w1 = w_intents w \<and> w_durable w1 = w_durable w"
  by (auto simp: on_queue_def split: prod.splits)

text \<open>What a recovered lease leaves: the lease expired, its task changed or left alone, all of it committed.\<close>

definition recovered_rows :: "maintainer \<Rightarrow> worker_lease \<Rightarrow> execution_task \<Rightarrow> db \<Rightarrow> db \<Rightarrow> bool" where
  "recovered_rows M l x d d' \<longleftrightarrow>
     db_leases d' = put_row l_id (l\<lparr>l_status := LExpired\<rparr>) (db_leases d) \<and>
     db_tasks d' = (if t_status x \<notin> {TRunning, TClaimed} then db_tasks d
       else put_row t_id (if t_retry_count x \<ge> mt_max_retries M then x\<lparr>t_status := TDeadLettered\<rparr>
                          else x\<lparr>t_status := TQueued, t_retry_count := t_retry_count x + 1\<rparr>) (db_tasks d))"

lemma recover_lease_rows:
  assumes "recover_lease M Q l x w = (Inr c, w1)"
  shows "recovered_rows M l x (w_db w) (w_db w1) \<and> w_durable w1 = w_db w1 \<and> w_clock w1 = w_clock w"
proof -
  have lease: "transition_lease l LExpired = Inr l' \<Longrightarrow> l' = l\<lparr>l_status := LExpired\<rparr>" for l'
    by (auto simp: transition_lease_Inr)
  show ?thesis
  proof (cases "t_status x \<in> {TRunning, TClaimed}")
    case False
    then show ?thesis
      using assms lease
      by (auto simp: recover_lease_def update_lease_def recovered_rows_def map_db_def save_lease_def andthen_Inr split: sum.splits)
  next
    case st: True
    show ?thesis
    proof (cases "t_retry_count x \<ge> mt_max_retries M")
      case True
      then show ?thesis
        using assms st lease buried_Inr [OF _ st]
        by (auto simp: recover_lease_def bury_expired_def update_lease_def update_task_def recovered_rows_def andthen_Inr Let_def
            dest!: on_queue_sel split: sum.splits prod.splits if_splits)
          (auto simp: map_db_def audit_def)
    next
      case False
      then show ?thesis
        using assms st lease requeued_Inr [OF _ st]
        by (auto simp: recover_lease_def requeue_expired_def update_lease_def update_task_def recovered_rows_def andthen_Inr Let_def
            dest!: on_queue_sel split: sum.splits prod.splits if_splits)
          (auto simp: map_db_def audit_def)
    qed
  qed
qed

lemma find_task_none: "find_task k d = None \<longleftrightarrow> k \<notin> t_id ` set (db_tasks d)"
  by (auto simp: find_task_def find_row_def find_None_iff)

lemma recovered_ids: "recovered_rows M l x d d' \<Longrightarrow> find_task k d' = None \<longleftrightarrow> find_task k d = None"
proof -
  assume r: "recovered_rows M l x d d'"
  have "map t_id (db_tasks d') = map t_id (db_tasks d)" using r by (simp add: recovered_rows_def)
  then have "t_id ` set (db_tasks d') = t_id ` set (db_tasks d)" by (metis set_map)
  then show ?thesis by (simp add: find_task_none)
qed

lemma expired_in: "(i, k) \<in> set (expired_leases thr d) \<longleftrightarrow>
   (\<exists>l \<in> set (db_leases d). heartbeat_expired thr l \<and> l_id l = i \<and> l_task_id l = k \<and> find_task k d \<noteq> None)"
  by (auto simp: expired_leases_def)

lemma find_lease_in: "l \<in> set (db_leases d) \<Longrightarrow> find_lease (l_id l) d \<noteq> None"
  by (auto simp: find_lease_def find_row_def find_None_iff)

lemma recovered_expired:
  assumes "recovered_rows M l x d d'" and "(j, k) \<in> set (expired_leases thr d')"
  shows "(j, k) \<in> set (expired_leases thr d) \<and> j \<noteq> l_id l"
proof -
  obtain y where y: "y \<in> set (db_leases d')" "heartbeat_expired thr y" "l_id y = j" "l_task_id y = k" "find_task k d' \<noteq> None"
    using assms(2) by (auto simp: expired_in)
  have "y \<in> set (db_leases d) \<and> l_id y \<noteq> l_id l"
    using y(1,2) assms(1) by (auto simp: recovered_rows_def heartbeat_expired_def live_lease_def dest!: put_row_in)
  then show ?thesis using y recovered_ids [OF assms(1), of k] by (auto simp: expired_in)
qed

lemma recover_leases_done:
  assumes "recover_leases M Q ps c w = (Inr c', w')"
    and "set (expired_leases thr (w_db w)) \<subseteq> set ps" and "db_leases (w_durable w) = db_leases (w_db w)"
  shows "expired_leases thr (w_db w') = [] \<and> db_leases (w_durable w') = db_leases (w_db w') \<and>
    (\<forall>k. find_task k (w_db w') = None \<longleftrightarrow> find_task k (w_db w) = None)"
  using assms
proof (induction ps arbitrary: c w)
  case (Cons p ps)
  obtain i k where p: "p = (i, k)" by (cases p)
  show ?case
  proof (cases "find_lease i (w_db w) = None \<or> find_task k (w_db w) = None")
    case True
    then have "(i, k) \<notin> set (expired_leases thr (w_db w))" using find_lease_in by (fastforce simp: expired_in)
    then have "set (expired_leases thr (w_db w)) \<subseteq> set ps" using Cons.prems(2) p by auto
    then show ?thesis using Cons True by (auto simp: p split: option.splits)
  next
    case False
    then obtain l x where found: "find_lease i (w_db w) = Some l" "find_task k (w_db w) = Some x" by auto
    obtain c1 w1 where step: "recover_lease M Q l x w = (Inr c1, w1)"
      and rest: "recover_leases M Q ps (add_counts (add_counts c (state_mismatch l x)) c1) w1 = (Inr c', w')"
      using Cons.prems(1) by (auto simp: p found split: prod.splits sum.splits)
    note rows = recover_lease_rows [OF step]
    have id: "l_id l = i" using found(1) find_row_key by (fastforce simp: find_lease_def)
    have "set (expired_leases thr (w_db w1)) \<subseteq> set ps"
      using recovered_expired [OF conjunct1 [OF rows]] Cons.prems(2) p id by fastforce
    then show ?thesis
      using Cons.IH [OF rest] rows recovered_ids [OF conjunct1 [OF rows]] by simp
  qed
qed auto

lemma recover_runtime_Inr:
  assumes "recover_runtime K M Q w = (Inr r, w')"
  obtains c w1 where "recover_leases M Q (expired_leases (w_clock w - seconds (mt_expiry_seconds M)) (w_db w)) no_counts w = (Inr c, w1)"
    and "lease_frame w1 w'"
proof -
  obtain c w1 where run: "recover_leases M Q (expired_leases (w_clock w - seconds (mt_expiry_seconds M)) (w_db w)) no_counts w = (Inr c, w1)"
    and rest: "andthen (reconcile_processing Q w1) (\<lambda>c1 w2.
       case reconcile_deliverables K Q w2 of (n, w3) \<Rightarrow> (Inr (add_counts c c1, n), w3)) = (Inr r, w')"
    using assms unfolding recover_runtime_def andthen_Inr by blast
  have "lease_frame w1 (snd (andthen (reconcile_processing Q w1) (\<lambda>c1 w2.
      case reconcile_deliverables K Q w2 of (n, w3) \<Rightarrow> (Inr (add_counts c c1, n), w3))))"
    unfolding reconcile_processing_def case_prod_beta
    by (rule frame_andthen, rule frame_tenants, rule lease_frame_refl) (simp add: frame_deliverables)
  then show ?thesis using that [OF run] rest by simp
qed

text \<open>
  C12: a recovery pass that ends leaves no expired lease. Every lease that was still held and whose last heartbeat is older
  than the expiry has been expired in the database, unless its task does not exist.
\<close>

theorem no_expired_lease_left:
  assumes "recover_runtime K M Q w = (Inr r, w')" and "w_durable w = w_db w"
    and "l \<in> set (db_leases (w_durable w'))" and "find_task (l_task_id l) (w_db w) \<noteq> None"
  shows "\<not> heartbeat_expired (w_clock w - seconds (mt_expiry_seconds M)) l"
proof -
  let ?thr = "w_clock w - seconds (mt_expiry_seconds M)"
  obtain c w1 where run: "recover_leases M Q (expired_leases ?thr (w_db w)) no_counts w = (Inr c, w1)" and frame: "lease_frame w1 w'"
    using recover_runtime_Inr [OF assms(1)] .
  have done_: "expired_leases ?thr (w_db w1) = []" "db_leases (w_durable w1) = db_leases (w_db w1)"
    "find_task (l_task_id l) (w_db w1) \<noteq> None"
    using recover_leases_done [OF run subset_refl] assms(2,4) by auto
  have "l \<in> set (db_leases (w_db w1))" using frame done_(2) assms(3) by (auto simp: lease_frame_def)
  then show ?thesis using expired_in [of "l_id l" "l_task_id l" ?thr "w_db w1"] done_ by auto
qed

text \<open>A worker claimed and started a task and has not been heard of for 61 seconds.\<close>

definition crashed_world :: "local_queue world" where
  "crashed_world =
     (let d = empty_db\<lparr>db_tasks := [(example_task TRunning)\<lparr>t_id := uuid_a\<rparr>],
            db_leases := [\<lparr>l_id = ''l'', l_tenant_id = ''acme'', l_task_id = uuid_a, l_status = LActive,
              l_holder_identity = ''a'', l_heartbeat_at = Some 0, l_metadata = [], l_created_at = 0, l_updated_at = 0\<rparr>]\<rparr>;
          q = snd (enqueue_task local_adapter local_init (example_message ''acme'' uuid_a))
      in \<lparr>w_db = d, w_durable = d, w_queue = snd (claim_task local_adapter q ''acme'' ''a''), w_clock = seconds 61, w_intents = [],
          w_ids = (\<lambda>n. CHR ''l'' # replicate n (CHR ''x'')), w_next_id = 1\<rparr>)"

definition recovered_world :: "local_queue world" where
  "recovered_world = snd (recover_runtime plain_runtime default_maintainer local_adapter crashed_world)"

lemma crashed_recovers:
  "fst (recover_runtime plain_runtime default_maintainer local_adapter crashed_world) =
     Inr (no_counts\<lparr>rc_expired := 1, rc_requeued := 1\<rparr>, 0)"
  "map (\<lambda>l. (l_task_id l, l_status l)) (db_leases (w_durable recovered_world)) = [(uuid_a, LExpired)]"
  by code_simp+

theorem no_expired_lease_left_witness:
  "\<not> heartbeat_expired (seconds 1) (hd (db_leases (w_durable recovered_world)))"
proof -
  let ?ls = "db_leases (w_durable recovered_world)"
  have run: "recover_runtime plain_runtime default_maintainer local_adapter crashed_world =
      (Inr (no_counts\<lparr>rc_expired := 1, rc_requeued := 1\<rparr>, 0), recovered_world)"
    using crashed_recovers(1) by (simp add: recovered_world_def prod_eq_iff)
  have "?ls \<noteq> []" "l_task_id (hd ?ls) = uuid_a" using crashed_recovers(2) by (cases ?ls; simp)+
  then have "hd ?ls \<in> set ?ls" "find_task (l_task_id (hd ?ls)) (w_db crashed_world) \<noteq> None" "w_durable crashed_world = w_db crashed_world"
    by (simp_all add: crashed_world_def find_task_def find_row_def Let_def)
  then show ?thesis
    using no_expired_lease_left [OF run] by (simp add: crashed_world_def default_maintainer_def seconds_def Let_def)
qed

subsection \<open>What becomes of the task\<close>

lemma commit_quiet: "w_intents w = [] \<Longrightarrow> w_queue (commit Q w) = w_queue w"
  by (simp add: commit_def)

lemma quiet_rows [simp]:
  "w_intents (audit t m a b d g p w) = w_intents w" "w_queue (audit t m a b d g p w) = w_queue w"
  "w_intents (map_db f w) = w_intents w" "w_queue (map_db f w) = w_queue w"
  by (simp_all add: audit_def map_db_def)

lemma recover_lease_queue:
  assumes "recover_lease M Q l x w = (Inr c, w1)" and "w_intents w = []" and "t_status x \<in> {TRunning, TClaimed}"
  shows "if t_retry_count x \<ge> mt_max_retries M
    then \<exists>r why. move_owned_to_dead_letter Q (w_queue w) (w_clock w) (t_tenant_id x) (t_id x) (l_holder_identity l) why = (r, w_queue w1) \<and> r_ok r
    else \<exists>r. recover_task_for_retry Q (w_queue w) (t_tenant_id x) (t_id x) (l_holder_identity l) = (r, w_queue w1) \<and> r_ok r"
proof (cases "t_retry_count x \<ge> mt_max_retries M")
  case True
  then show ?thesis
    using assms
    by (auto simp: recover_lease_def bury_expired_def update_lease_def update_task_def andthen_Inr Let_def commit_quiet
        dest!: on_queue_sel split: sum.splits prod.splits if_splits) blast+
next
  case False
  then show ?thesis
    using assms
    by (auto simp: recover_lease_def requeue_expired_def update_lease_def update_task_def andthen_Inr Let_def commit_quiet
        dest!: on_queue_sel split: sum.splits prod.splits if_splits)
qed

context queue_contract
begin

lemma recovered_queue:
  assumes "inv (t_tenant_id x) (w_queue w)" and "l_holder_identity l \<noteq> []"
    and "recover_lease M Q l x w = (Inr c, w1)" and "w_intents w = []" and "t_status x \<in> {TRunning, TClaimed}"
  shows "\<not> holding (w_queue w1) (t_tenant_id x) (t_id x) \<and> owner (w_queue w1) (t_tenant_id x) (t_id x) = None \<and>
    (t_retry_count x < mt_max_retries M \<longrightarrow> pending (w_queue w1) (t_tenant_id x) (t_id x))"
proof (cases "t_retry_count x \<ge> mt_max_retries M")
  case True
  then show ?thesis using recover_lease_queue [OF assms(3-5)] move_owned_ok [OF assms(1,2)] by fastforce
next
  case False
  then show ?thesis using recover_lease_queue [OF assms(3-5)] recover_ok [OF assms(1)] by fastforce
qed

lemma lapsed_complete:
  assumes "inv t q" and "owner q t k = None"
  shows "\<not> r_ok (fst (complete_task Q q t k w)) \<and> snd (complete_task Q q t k w) = q"
  using assms complete_ok [of t q k w] complete_fail [of t q k w] by (metis option.distinct(1) prod.collapse)

end

text \<open>
  C13: recovering an expired lease returns its task or buries it, and queue and database agree on which. On the Redis
  queue a claimed or running task below the retry limit is queued with one retry more, waits in the queue for any worker, and is
  nobody's; at the limit it is dead-lettered and not being processed.
\<close>

theorem recovered_task_is_claimable:
  assumes "lua_host_ok H" and "0 < ttl" and "redis_inv (t_tenant_id x) (w_queue w)" and "w_intents w = []"
    and "find_task (t_id x) (w_db w) = Some x" and "t_status x \<in> {TRunning, TClaimed}" and "l_holder_identity l \<noteq> []"
    and "recover_lease M (redis_adapter H ttl) l x w = (Inr c, w')"
  shows "find_task (t_id x) (w_durable w') =
      Some (if t_retry_count x < mt_max_retries M then x\<lparr>t_status := TQueued, t_retry_count := t_retry_count x + 1\<rparr>
            else x\<lparr>t_status := TDeadLettered\<rparr>) \<and>
    redis_owner (w_queue w') (t_tenant_id x) (t_id x) = None \<and> \<not> redis_holding (w_queue w') (t_tenant_id x) (t_id x) \<and>
    (t_retry_count x < mt_max_retries M \<longrightarrow> redis_pending (w_queue w') (t_tenant_id x) (t_id x))"
proof -
  have contract: "queue_contract (redis_adapter H ttl) redis_inv redis_pending redis_holding redis_owner redis_seen"
    using redis_env.intro [OF assms(1,2)] by (rule redis_env.contract)
  note rows = recover_lease_rows [OF assms(8), unfolded recovered_rows_def]
  have "find_task (t_id x) (w_durable w') =
      Some (if t_retry_count x < mt_max_retries M then x\<lparr>t_status := TQueued, t_retry_count := t_retry_count x + 1\<rparr>
            else x\<lparr>t_status := TDeadLettered\<rparr>)"
    using rows assms(5,6) by (auto simp: find_task_def)
  then show ?thesis using queue_contract.recovered_queue [OF contract assms(3,7,8,4,6)] by simp
qed

text \<open>
  The payload of an ended task whose Redis lease has lapsed is never cleaned up. The maintainer removes it by
  completing it for the last holder, which needs the lease that is gone: the step counts a mismatch and changes nothing, in this
  pass and in every later one.
\<close>

theorem terminal_payload_is_stuck:
  assumes "lua_host_ok H" and "0 < ttl" and "redis_inv t (w_queue w)"
    and "pi_error p = None" and "pi_message p = Some msg" and "find_task (q_task_id msg) (w_db w) = Some x" and "t_tenant_id x = t"
    and "t_status x \<in> {TCompleted, TBlocked, TCancelled}" and "active_lease_for_task t (t_id x) (w_db w) = None"
    and "redis_owner (w_queue w) t (t_id x) = None"
  shows "reconcile_payload (redis_adapter H ttl) t p w = (Inr (no_counts\<lparr>rc_mismatched := 1\<rparr>), w)"
proof -
  have contract: "queue_contract (redis_adapter H ttl) redis_inv redis_pending redis_holding redis_owner redis_seen"
    using redis_env.intro [OF assms(1,2)] by (rule redis_env.contract)
  obtain r where "complete_task (redis_adapter H ttl) (w_queue w) t (t_id x) (cleanup_holder t (t_id x) (w_db w)) = (r, w_queue w)"
    and "\<not> r_ok r"
    using queue_contract.lapsed_complete [OF contract assms(3,10), of "cleanup_holder t (t_id x) (w_db w)"]
    by (cases "complete_task (redis_adapter H ttl) (w_queue w) t (t_id x) (cleanup_holder t (t_id x) (w_db w))") auto
  then show ?thesis using assms(4-9) by (simp add: reconcile_payload_def on_queue_def)
qed

text \<open>
  One lease the queue will not give back ends the recovery of all that come after it. When the queue refuses the
  task of the first expired lease, the pass raises, the database stays as it was, and the next pass meets the same lease first.
\<close>

theorem refused_recovery_ends_pass:
  assumes "expired_leases (w_clock w - seconds (mt_expiry_seconds M)) (w_db w) = (i, k) # rest"
    and "find_lease i (w_db w) = Some l" and "find_task k (w_db w) = Some x" and "t_status x \<in> {TRunning, TClaimed}"
    and "t_retry_count x < mt_max_retries M"
    and "\<not> r_ok (fst (recover_task_for_retry Q (w_queue w) (t_tenant_id x) (t_id x) (l_holder_identity l)))"
  shows "\<exists>e w'. recover_runtime K M Q w = (Inl e, w') \<and> w_db w' = w_durable w \<and> w_durable w' = w_durable w"
proof -
  let ?f = "\<lambda>q. recover_task_for_retry Q q (t_tenant_id x) (t_id x) (l_holder_identity l)"
  obtain r w1 where q: "on_queue ?f w = (r, w1)" by fastforce
  have "\<not> r_ok r" "w_durable w1 = w_durable w" using on_queue_sel [OF q] assms(6) by auto
  moreover have "recover_lease M Q l x w = requeue_expired M Q l x w" using assms(4,5) by (auto simp: recover_lease_def)
  ultimately obtain e where "recover_lease M Q l x w = (Inl e, w1)"
    using q by (simp add: requeue_expired_def Let_def)
  then show ?thesis using assms(1-3) \<open>w_durable w1 = _\<close> by (simp add: recover_runtime_def rollback_def)
qed

text \<open>The queue of the crashed worker has lost the message.\<close>

theorem refused_recovery_ends_pass_witness:
  "\<exists>e w'. recover_runtime plain_runtime default_maintainer local_adapter (crashed_world\<lparr>w_queue := local_init\<rparr>) = (Inl e, w') \<and>
     w_db w' = w_durable crashed_world \<and> w_durable w' = w_durable crashed_world"
proof -
  let ?w = "crashed_world\<lparr>w_queue := local_init\<rparr>" and ?d = "w_db crashed_world"
  have "expired_leases (w_clock ?w - seconds (mt_expiry_seconds default_maintainer)) (w_db ?w) = (''l'', uuid_a) # []"
    "find_lease ''l'' (w_db ?w) = Some (hd (db_leases ?d))" "find_task uuid_a (w_db ?w) = Some (hd (db_tasks ?d))"
    "t_status (hd (db_tasks ?d)) \<in> {TRunning, TClaimed}" "t_retry_count (hd (db_tasks ?d)) < mt_max_retries default_maintainer"
    by (simp_all add: crashed_world_def default_maintainer_def expired_leases_def heartbeat_expired_def live_lease_def seconds_def
        find_lease_def find_task_def find_row_def example_task_def Let_def)
  moreover have "\<not> r_ok (fst (recover_task_for_retry local_adapter (w_queue ?w) (t_tenant_id (hd (db_tasks ?d)))
      (t_id (hd (db_tasks ?d))) (l_holder_identity (hd (db_leases ?d)))))"
    by code_simp
  ultimately show ?thesis
    using refused_recovery_ends_pass [of ?w default_maintainer "''l''" uuid_a "[]" "hd (db_leases ?d)" "hd (db_tasks ?d)" local_adapter plain_runtime]
    by simp
qed

subsection \<open>Two worlds on the Redis queue\<close>

lemma claim_lapses:
  assumes "redis_inv t s"
  obtains d where "redis_inv t (advance d s)" and "redis_owner (advance d s) t k = None"
proof (cases "map_of (rq_leases (queue_of s t)) k")
  case None
  then show ?thesis using that [of 0] advance_inv [OF assms] by (simp add: redis_owner_def lease_get_def)
next
  case (Some own)
  obtain holder e where own: "own = (holder, e)" by (cases own)
  let ?d = "max 0 (e - rs_clock s + 1)"
  have "redis_owner (advance ?d s) t k = None" using Some own by (simp add: redis_owner_def lease_get_def)
  then show ?thesis using that [of ?d] advance_inv [OF assms, of ?d] by simp
qed

definition redis_world :: "task_state \<Rightarrow> lease_state \<Rightarrow> redis_state \<Rightarrow> redis_state world" where
  "redis_world st lst s =
     (let d = empty_db\<lparr>db_tasks := [(example_task st)\<lparr>t_id := uuid_a\<rparr>],
            db_leases := [\<lparr>l_id = ''l'', l_tenant_id = ''acme'', l_task_id = uuid_a, l_status = lst,
              l_holder_identity = ''w1'', l_heartbeat_at = Some 0, l_metadata = [], l_created_at = 0, l_updated_at = 0\<rparr>]\<rparr>
      in \<lparr>w_db = d, w_durable = d, w_queue = s, w_clock = seconds 61, w_intents = [],
          w_ids = (\<lambda>n. CHR ''l'' # replicate n (CHR ''x'')), w_next_id = 1\<rparr>)"

lemma redis_world_sel:
  "w_queue (redis_world st lst s) = s" "w_intents (redis_world st lst s) = []"
  "find_task uuid_a (w_db (redis_world st lst s)) = Some ((example_task st)\<lparr>t_id := uuid_a\<rparr>)"
  "\<not> live_lease (hd (db_leases (w_db (redis_world st lst s)))) \<Longrightarrow> active_lease_for_task t k (w_db (redis_world st lst s)) = None"
  "l_holder_identity (hd (db_leases (w_db (redis_world st lst s)))) = ''w1''"
  "l_status (hd (db_leases (w_db (redis_world st lst s)))) = lst"
  by (simp_all add: redis_world_def find_task_def find_row_def active_lease_for_task_def Let_def)

text \<open>The worker completed its task and went away before it cleaned up the queue.\<close>

theorem terminal_payload_is_stuck_witness:
  "\<exists>s. redis_owner s ''acme'' uuid_a = None \<and>
     reconcile_payload (redis_adapter plain_host 90) ''acme''
       \<lparr>pi_tenant_id = ''acme'', pi_raw = Text JNull, pi_message = Some (example_message ''acme'' uuid_a), pi_error = None\<rparr>
       (redis_world TCompleted LReleased s) =
     (Inr (no_counts\<lparr>rc_mismatched := 1\<rparr>), redis_world TCompleted LReleased s)"
proof -
  obtain d where d: "redis_inv ''acme'' (advance d claimed_state)" "redis_owner (advance d claimed_state) ''acme'' uuid_a = None"
    using claim_lapses [OF claimed_state_view(2)] .
  let ?w = "redis_world TCompleted LReleased (advance d claimed_state)"
  have "active_lease_for_task ''acme'' uuid_a (w_db ?w) = None" by (rule redis_world_sel(4)) (simp add: redis_world_sel live_lease_def)
  then show ?thesis
    using terminal_payload_is_stuck [OF plain_host_ok, of 90 "''acme''" ?w _ "example_message ''acme'' uuid_a"
        "(example_task TCompleted)\<lparr>t_id := uuid_a\<rparr>"] d
    by (intro exI [of _ "advance d claimed_state"]) (simp add: redis_world_sel example_task_def)
qed

lemma recover_lease_enabled:
  assumes "r_ok (fst (recover_task_for_retry Q (w_queue w) (t_tenant_id x) (t_id x) (l_holder_identity l)))"
    and "t_status x \<in> {TRunning, TClaimed}" and "t_retry_count x < mt_max_retries M" and "live_lease l"
  shows "\<exists>c w'. recover_lease M Q l x w = (Inr c, w')"
proof -
  let ?f = "\<lambda>q. recover_task_for_retry Q q (t_tenant_id x) (t_id x) (l_holder_identity l)"
  obtain r w1 where q: "on_queue ?f w = (r, w1)" by fastforce
  have "r_ok r" using on_queue_sel [OF q] assms(1) by simp
  moreover have "recover_lease M Q l x w = requeue_expired M Q l x w" using assms(2,3) by (auto simp: recover_lease_def)
  moreover have "\<exists>l'. transition_lease l LExpired = Inr l'"
    using assms(4) by (auto simp: transition_lease_Inr live_lease_def targets_def lease_allowed_def)
  moreover have "\<exists>y. requeued_task x = Inr y"
    using assms(2) by (auto simp: requeued_task_def bind_result_Inr transition_task_Inr targets_def task_allowed_def)
  ultimately show ?thesis using q by (auto simp: requeue_expired_def update_lease_def update_task_def Let_def)
qed

theorem recovered_task_is_claimable_witness:
  "\<exists>w' :: redis_state world. find_task uuid_a (w_durable w') = Some ((example_task TQueued)\<lparr>t_id := uuid_a, t_retry_count := 1\<rparr>) \<and>
     redis_owner (w_queue w') ''acme'' uuid_a = None \<and> redis_pending (w_queue w') ''acme'' uuid_a"
proof -
  let ?w = "redis_world TRunning LActive claimed_state" and ?x = "(example_task TRunning)\<lparr>t_id := uuid_a\<rparr>"
  let ?l = "hd (db_leases (w_db ?w))"
  have "lease_get (rs_clock claimed_state) (queue_of claimed_state ''acme'') uuid_a = Some ''w1''"
    using claimed_state_view(3) by (simp add: redis_owner_def)
  moreover obtain p where "map_of (rq_processing (queue_of claimed_state ''acme'')) uuid_a = Some (Text p)"
    using owner_processing [OF redis_inv_wf [OF claimed_state_view(2)] calculation] by blast
  moreover have "map_of (rq_pending (queue_of claimed_state ''acme'')) uuid_a = None"
    using redis_inv_wf [OF claimed_state_view(2)] calculation(2) unfolding wf_tenant_def disjoint_hash_def by (metis option.distinct(1))
  ultimately have "r_ok (fst (recover_task_for_retry (redis_adapter plain_host 90) claimed_state ''acme'' uuid_a ''w1''))"
    by (simp add: redis_ops run_operation_ready [OF claimed_state_view(2)] recover_script_def)
  then have "\<exists>c w'. recover_lease default_maintainer (redis_adapter plain_host 90) ?l ?x ?w = (Inr c, w')"
    by (intro recover_lease_enabled) (simp_all add: redis_world_sel example_task_def default_maintainer_def live_lease_def)
  then obtain c w' where run: "recover_lease default_maintainer (redis_adapter plain_host 90) ?l ?x ?w = (Inr c, w')" by blast
  have "find_task uuid_a (w_durable w') = Some ((example_task TQueued)\<lparr>t_id := uuid_a, t_retry_count := 1\<rparr>) \<and>
      redis_owner (w_queue w') ''acme'' uuid_a = None \<and> redis_pending (w_queue w') ''acme'' uuid_a"
    using recovered_task_is_claimable [OF plain_host_ok _ _ _ _ _ _ run] claimed_state_view(2)
    by (simp add: redis_world_sel example_task_def default_maintainer_def)
  then show ?thesis by blast
qed

end
