(* ===== verification/Grants.thy ===== *)
theory Grants
  imports Ledger
begin

section \<open>Tool invocations and the grants that admit them\<close>

text \<open>
  The authority part of \<open>backend/services/tools/schemas.py\<close>, \<open>services/tools/action_registry.py\<close> and
  \<open>services/abilities\<close> (\<open>manifest.py\<close>, \<open>runtime_governance.py\<close>): what a tool invocation is, which class of
  side effect its action has, and when the metadata of a task holds a human approval for it.

  A \<open>model_validate\<close> returns None where the model raises its \<open>ValidationError\<close>; a version literal is the whole
  number itself, and a time stamp is the only value that reads as a datetime, so each is timezone-aware. SHA-256 is the
  \<open>ledger_host\<close>'s, on the canonical value. Handlers, input models and credential requirements of
  actions are left out.
\<close>

subsection \<open>Side effects and invocations\<close>

datatype side_effect_class =
  NoEffect | InternalRead | InternalWrite | ExternalRead | ExternalWrite | ExternalSend | ExternalPublish

fun effect_value :: "side_effect_class \<Rightarrow> string" where
  "effect_value NoEffect = ''none''"
| "effect_value InternalRead = ''internal_read''"
| "effect_value InternalWrite = ''internal_write''"
| "effect_value ExternalRead = ''external_read''"
| "effect_value ExternalWrite = ''external_write''"
| "effect_value ExternalSend = ''external_send''"
| "effect_value ExternalPublish = ''external_publish''"

definition has_side_effect :: "side_effect_class \<Rightarrow> bool" where
  "has_side_effect c \<longleftrightarrow> c \<in> {InternalWrite, ExternalWrite, ExternalSend, ExternalPublish}"

definition literal_field :: "dict \<Rightarrow> string \<Rightarrow> int \<Rightarrow> bool" where
  "literal_field d k n \<longleftrightarrow> (case map_of d k of None \<Rightarrow> True | Some v \<Rightarrow> v = JInt n)"

definition only_fields :: "string list \<Rightarrow> dict \<Rightarrow> bool" where
  "only_fields names d \<longleftrightarrow> list_all (\<lambda>kv. fst kv \<in> set names) d"

definition stamp_field :: "dict \<Rightarrow> string \<Rightarrow> time option" where
  "stamp_field d k = (case map_of d k of Some v \<Rightarrow> stamp_of v | None \<Rightarrow> None)"

definition bounded_text :: "nat \<Rightarrow> nat \<Rightarrow> dict \<Rightarrow> string \<Rightarrow> string option" where
  "bounded_text lo hi d k = text_field d k (within_length lo hi)"

text \<open>A text that is stripped after its length was checked and may not become empty.\<close>

definition stripped_field :: "nat \<Rightarrow> dict \<Rightarrow> string \<Rightarrow> string option" where
  "stripped_field hi d k =
     (case bounded_text 1 hi d k of None \<Rightarrow> None | Some s \<Rightarrow> if strip s = [] then None else Some (strip s))"

record credential_reference =
  cr_credential_id :: string
  cr_provider :: string
  cr_credential_type :: string

definition validate_credential :: "dict \<Rightarrow> credential_reference option" where
  "validate_credential d =
     (if only_fields [''schema_version'', ''credential_id'', ''provider'', ''credential_type''] d \<and> literal_field d ''schema_version'' 1
      then (case (stripped_field 160 d ''credential_id'', stripped_field 120 d ''provider'', stripped_field 80 d ''credential_type'') of
              (Some i, Some p, Some t) \<Rightarrow> Some \<lparr>cr_credential_id = i, cr_provider = p, cr_credential_type = t\<rparr>
            | _ \<Rightarrow> None)
      else None)"

definition credential_dump :: "credential_reference \<Rightarrow> dict" where
  "credential_dump c =
     [(''schema_version'', JInt 1), (''credential_id'', JStr (cr_credential_id c)), (''provider'', JStr (cr_provider c)),
      (''credential_type'', JStr (cr_credential_type c))]"

record tool_invocation =
  ti_action :: string
  ti_input :: dict
  ti_provider :: "string option"
  ti_idempotency_key :: "string option"
  ti_credential_reference :: "credential_reference option"

definition credential_field :: "dict \<Rightarrow> string \<Rightarrow> credential_reference option" where
  "credential_field d k = (case dict_of (map_of d k) of None \<Rightarrow> None | Some c \<Rightarrow> validate_credential c)"

definition validate_invocation :: "dict \<Rightarrow> tool_invocation option" where
  "validate_invocation d =
     (if only_fields [''schema_version'', ''action'', ''input'', ''provider'', ''idempotency_key'', ''credential_reference''] d \<and>
         literal_field d ''schema_version'' 1
      then (case (stripped_field 160 d ''action'', dict_field d ''input'', optional_field (bounded_text 0 120) d ''provider'',
                  optional_field (bounded_text 0 200) d ''idempotency_key'',
                  optional_field credential_field d ''credential_reference'') of
              (Some a, Some i, Some p, Some k, Some c) \<Rightarrow>
                Some \<lparr>ti_action = a, ti_input = i, ti_provider = p, ti_idempotency_key = k, ti_credential_reference = c\<rparr>
            | _ \<Rightarrow> None)
      else None)"

definition invocation_dump :: "tool_invocation \<Rightarrow> dict" where
  "invocation_dump i =
     [(''schema_version'', JInt 1), (''action'', JStr (ti_action i)), (''input'', JObj (ti_input i)),
      (''provider'', opt_str (ti_provider i)), (''idempotency_key'', opt_str (ti_idempotency_key i)),
      (''credential_reference'', case ti_credential_reference i of None \<Rightarrow> JNull | Some c \<Rightarrow> JObj (credential_dump c))]"

definition tool_invocation_sha256 :: "ledger_host \<Rightarrow> tool_invocation \<Rightarrow> string" where
  "tool_invocation_sha256 H i = ''sha256:'' @ lh_sha256 H (canonical_dict (invocation_dump i))"

subsection \<open>The action registry\<close>

record action_definition =
  ad_name :: string
  ad_side_effect_class :: side_effect_class
  ad_provider :: string
  ad_required_tools :: "string list"
  ad_required_permissions :: "string list"
  ad_aliases :: "string list"
  ad_resolver :: "(tool_invocation \<Rightarrow> side_effect_class result) option"

text \<open>A resolver that reads the input of the invocation raises when it is not valid.\<close>

definition side_effect_for :: "action_definition \<Rightarrow> tool_invocation \<Rightarrow> side_effect_class result" where
  "side_effect_for a i = (case ad_resolver a of None \<Rightarrow> Inr (ad_side_effect_class a) | Some f \<Rightarrow> f i)"

definition credential_reference_external_read :: "tool_invocation \<Rightarrow> side_effect_class result" where
  "credential_reference_external_read i = Inr (if ti_credential_reference i \<noteq> None then ExternalRead else InternalRead)"

definition credential_reference_external_write :: "tool_invocation \<Rightarrow> side_effect_class result" where
  "credential_reference_external_write i = Inr (if ti_credential_reference i \<noteq> None then ExternalWrite else InternalWrite)"

record action_registry =
  ar_actions :: "(string \<times> action_definition) list"
  ar_frozen :: bool

definition empty_registry :: action_registry where
  "empty_registry = \<lparr>ar_actions = [], ar_frozen = False\<rparr>"

definition normalize_action_name :: "string \<Rightarrow> string result" where
  "normalize_action_name name =
     (if strip name = [] then Inl (ValueError ''action name must be non-empty'') else Inr (strip name))"

fun normalize_names :: "string list \<Rightarrow> string list result" where
  "normalize_names [] = Inr []"
| "normalize_names (n # ns) = bind_result (normalize_action_name n) (\<lambda>m. bind_result (normalize_names ns) (\<lambda>ms. Inr (m # ms)))"

definition register_action :: "action_definition \<Rightarrow> action_registry \<Rightarrow> action_registry result" where
  "register_action a R =
     (if ar_frozen R then Inl (ValueError ''action registry is frozen'')
      else bind_result (normalize_names (ad_name a # ad_aliases a)) (\<lambda>names.
        case find (\<lambda>n. map_of (ar_actions R) n \<noteq> None) names of
          Some n \<Rightarrow> Inl (ValueError (''action already registered: '' @ n))
        | None \<Rightarrow>
            let b = a\<lparr>ad_name := hd names, ad_aliases := tl names\<rparr>
            in Inr (R\<lparr>ar_actions := fold (\<lambda>n. AList.update n b) names (ar_actions R)\<rparr>)))"

definition freeze_registry :: "action_registry \<Rightarrow> action_registry" where
  "freeze_registry R = R\<lparr>ar_frozen := True\<rparr>"

definition get_action :: "action_registry \<Rightarrow> string \<Rightarrow> action_definition result" where
  "get_action R name =
     bind_result (normalize_action_name name) (\<lambda>n.
       case map_of (ar_actions R) n of None \<Rightarrow> Inl (ValueError (''unknown action: '' @ n)) | Some a \<Rightarrow> Inr a)"

subsection \<open>Ability manifests\<close>

datatype risk_level = LowRisk | MediumRisk | HighRisk | CriticalRisk

record ability_manifest =
  am_ability_id :: string
  am_display_name :: string
  am_action_name :: string
  am_provider :: string
  am_capability_name :: string
  am_capability_version :: string
  am_adapter_name :: string
  am_adapter_version :: string
  am_input_schema_ref :: string
  am_output_schema_ref :: string
  am_side_effect_class :: side_effect_class
  am_max_side_effect_class :: "side_effect_class option"
  am_resolver_classes :: "side_effect_class list"
  am_risk_level :: risk_level
  am_required_permissions :: "string list"
  am_required_tools :: "string list"
  am_approval_required :: bool
  am_idempotency_required :: bool
  am_idempotency_contract_ref :: "string option"
  am_evidence_required :: bool
  am_evidence_expectations :: "string list"
  am_readback_required :: bool
  am_readback_deferred_reason :: "string option"
  am_enabled_by_default :: bool

fun side_effect_rank :: "side_effect_class \<Rightarrow> nat" where
  "side_effect_rank NoEffect = 0"
| "side_effect_rank InternalRead = 1"
| "side_effect_rank ExternalRead = 2"
| "side_effect_rank InternalWrite = 3"
| "side_effect_rank ExternalWrite = 4"
| "side_effect_rank ExternalSend = 5"
| "side_effect_rank ExternalPublish = 6"

definition effective_class :: "ability_manifest \<Rightarrow> side_effect_class" where
  "effective_class m = (case am_max_side_effect_class m of None \<Rightarrow> am_side_effect_class m | Some c \<Rightarrow> c)"

text \<open>\<open>max(classes, key=rank)\<close>: the first of the greatest.\<close>

fun greatest_class :: "side_effect_class \<Rightarrow> side_effect_class list \<Rightarrow> side_effect_class" where
  "greatest_class c [] = c"
| "greatest_class c (d # ds) = greatest_class (if side_effect_rank d > side_effect_rank c then d else c) ds"

definition text_given :: "string option \<Rightarrow> bool" where
  "text_given x \<longleftrightarrow> (case x of None \<Rightarrow> False | Some s \<Rightarrow> s \<noteq> [])"

definition rollout_policy_error :: "ability_manifest \<Rightarrow> string option" where
  "rollout_policy_error m =
     (let e = effective_class m; external = starts_with (effect_value e) ''external_''
      in if side_effect_rank e < side_effect_rank (am_side_effect_class m)
      then Some ''max_side_effect_class cannot be lower than side_effect_class''
      else if am_resolver_classes m \<noteq> [] \<and> am_max_side_effect_class m = None
      then Some ''resolver side-effect manifests require max_side_effect_class''
      else if am_resolver_classes m \<noteq> [] \<and>
        am_max_side_effect_class m \<noteq> Some (greatest_class (hd (am_resolver_classes m)) (tl (am_resolver_classes m)))
      then Some ''max_side_effect_class must match resolver_side_effect_classes maximum''
      else if has_side_effect e \<and> \<not> am_approval_required m
      then Some ''side-effecting abilities require approval_required=true''
      else if am_approval_required m \<and> \<not> has_side_effect e
      then Some ''read-only abilities must not require independent human approval''
      else if e \<in> {ExternalWrite, ExternalSend, ExternalPublish} \<and> \<not> am_idempotency_required m
      then Some ''external write/send/publish abilities require idempotency_required=true''
      else if am_idempotency_required m \<and> \<not> text_given (am_idempotency_contract_ref m)
      then Some ''idempotency-required abilities require idempotency_contract_ref''
      else if \<not> am_evidence_required m then Some ''runtime ability manifests require evidence_required=true''
      else if am_evidence_expectations m = [] then Some ''evidence-required abilities require evidence_expectations''
      else if has_side_effect e \<and> \<not> am_readback_required m \<and> \<not> text_given (am_readback_deferred_reason m)
      then Some ''write/send/publish abilities require readback_required=true or a deferred reason''
      else if am_enabled_by_default m \<and> am_risk_level m \<in> {HighRisk, CriticalRisk}
      then Some ''high or critical risk abilities cannot be enabled by default''
      else if am_enabled_by_default m \<and> external then Some ''external abilities cannot be enabled by default''
      else if am_enabled_by_default m \<and> am_approval_required m
      then Some ''approval-required abilities cannot be enabled by default''
      else None)"

text \<open>The constructor: lengths, then stripping, then the policy. The text of its error is not kept.\<close>

definition manifest_text :: "nat \<Rightarrow> string \<Rightarrow> string option" where
  "manifest_text hi s = (if within_length 1 hi s \<and> strip s \<noteq> [] then Some (strip s) else None)"

definition optional_manifest_text :: "nat \<Rightarrow> string option \<Rightarrow> string option option" where
  "optional_manifest_text hi x =
     (case x of None \<Rightarrow> Some None | Some s \<Rightarrow> if length s \<le> hi then Some (if strip s = [] then None else Some (strip s)) else None)"

definition manifest_texts :: "string list \<Rightarrow> string list option" where
  "manifest_texts xs = (if list_all (\<lambda>s. strip s \<noteq> []) xs then Some (map strip xs) else None)"

definition unique_texts :: "string list \<Rightarrow> string list option" where
  "unique_texts xs = (case manifest_texts xs of None \<Rightarrow> None | Some ys \<Rightarrow> if distinct ys then Some ys else None)"

definition normalized_manifest :: "ability_manifest \<Rightarrow> ability_manifest option" where
  "normalized_manifest m =
     (case (manifest_text 160 (am_ability_id m), manifest_text 240 (am_display_name m), manifest_text 160 (am_action_name m),
            manifest_text 160 (am_provider m), manifest_text 160 (am_capability_name m)) of
        (Some a, Some d, Some n, Some p, Some c) \<Rightarrow>
          (case (manifest_text 80 (am_capability_version m), manifest_text 160 (am_adapter_name m),
                 manifest_text 80 (am_adapter_version m), manifest_text 240 (am_input_schema_ref m),
                 manifest_text 240 (am_output_schema_ref m)) of
             (Some cv, Some an, Some av, Some ins, Some outs) \<Rightarrow>
               (case (optional_manifest_text 240 (am_idempotency_contract_ref m),
                      optional_manifest_text 500 (am_readback_deferred_reason m), manifest_texts (am_required_permissions m),
                      manifest_texts (am_required_tools m), unique_texts (am_evidence_expectations m)) of
                  (Some contract, Some deferral, Some perms, Some tools, Some expected) \<Rightarrow>
                    Some (m\<lparr>am_ability_id := a, am_display_name := d, am_action_name := n, am_provider := p,
                      am_capability_name := c, am_capability_version := cv, am_adapter_name := an, am_adapter_version := av,
                      am_input_schema_ref := ins, am_output_schema_ref := outs, am_idempotency_contract_ref := contract,
                      am_readback_deferred_reason := deferral, am_required_permissions := perms, am_required_tools := tools,
                      am_evidence_expectations := expected\<rparr>)
                | _ \<Rightarrow> None)
           | _ \<Rightarrow> None)
      | _ \<Rightarrow> None)"

definition make_manifest :: "ability_manifest \<Rightarrow> ability_manifest option" where
  "make_manifest m =
     (case normalized_manifest m of
        None \<Rightarrow> None | Some n \<Rightarrow> if rollout_policy_error n = None then Some n else None)"

fun risk_value :: "risk_level \<Rightarrow> string" where
  "risk_value LowRisk = ''low''"
| "risk_value MediumRisk = ''medium''"
| "risk_value HighRisk = ''high''"
| "risk_value CriticalRisk = ''critical''"

definition text_array :: "string list \<Rightarrow> json" where
  "text_array xs = JArr (map JStr xs)"

definition optional_effect :: "side_effect_class option \<Rightarrow> json" where
  "optional_effect c = opt_str (map_option effect_value c)"

definition manifest_dump :: "ability_manifest \<Rightarrow> dict" where
  "manifest_dump m =
     [(''schema_version'', JInt 1), (''ability_id'', JStr (am_ability_id m)), (''display_name'', JStr (am_display_name m)),
      (''action_name'', JStr (am_action_name m)), (''provider'', JStr (am_provider m)),
      (''capability_name'', JStr (am_capability_name m)), (''capability_version'', JStr (am_capability_version m)),
      (''adapter_name'', JStr (am_adapter_name m)), (''adapter_version'', JStr (am_adapter_version m)),
      (''input_schema_ref'', JStr (am_input_schema_ref m)), (''output_schema_ref'', JStr (am_output_schema_ref m)),
      (''side_effect_class'', JStr (effect_value (am_side_effect_class m))),
      (''max_side_effect_class'', optional_effect (am_max_side_effect_class m)),
      (''resolver_side_effect_classes'', text_array (map effect_value (am_resolver_classes m))),
      (''risk_level'', JStr (risk_value (am_risk_level m))), (''required_permissions'', text_array (am_required_permissions m)),
      (''required_tools'', text_array (am_required_tools m)), (''approval_required'', JBool (am_approval_required m)),
      (''idempotency_required'', JBool (am_idempotency_required m)),
      (''idempotency_contract_ref'', opt_str (am_idempotency_contract_ref m)),
      (''evidence_required'', JBool (am_evidence_required m)), (''evidence_expectations'', text_array (am_evidence_expectations m)),
      (''readback_required'', JBool (am_readback_required m)),
      (''readback_deferred_reason'', opt_str (am_readback_deferred_reason m)),
      (''enabled_by_default'', JBool (am_enabled_by_default m))]"

definition manifest_fingerprint :: "ledger_host \<Rightarrow> ability_manifest \<Rightarrow> string" where
  "manifest_fingerprint H m = ''sha256:'' @ lh_sha256 H (canonical_dict (manifest_dump m))"

definition manifest_governance_snapshot :: "ledger_host \<Rightarrow> ability_manifest \<Rightarrow> dict" where
  "manifest_governance_snapshot H m =
     [(''schema_version'', JInt 1), (''ability_id'', JStr (am_ability_id m)), (''action_name'', JStr (am_action_name m)),
      (''provider'', JStr (am_provider m)),
      (''capability'', JObj [(''name'', JStr (am_capability_name m)), (''version'', JStr (am_capability_version m))]),
      (''adapter'', JObj [(''name'', JStr (am_adapter_name m)), (''version'', JStr (am_adapter_version m))]),
      (''side_effect_class'', JStr (effect_value (am_side_effect_class m))),
      (''max_side_effect_class'', optional_effect (am_max_side_effect_class m)),
      (''risk_level'', JStr (risk_value (am_risk_level m))), (''approval_required'', JBool (am_approval_required m)),
      (''evidence_required'', JBool (am_evidence_required m)), (''readback_required'', JBool (am_readback_required m)),
      (''manifest_fingerprint'', JStr (manifest_fingerprint H m))]"

subsection \<open>Grants\<close>

text \<open>\<open>SideEffectAuthorization\<close>, the first version: it names actions and nothing else.\<close>

record effect_grant_v1 =
  g1_allowed_actions :: "string list"
  g1_reason :: string
  g1_approved_by :: string

definition validate_grant_v1 :: "dict \<Rightarrow> effect_grant_v1 option" where
  "validate_grant_v1 d =
     (if only_fields [''schema_version'', ''allowed_actions'', ''reason'', ''approved_by''] d \<and> literal_field d ''schema_version'' 1
      then (case (texts_field d ''allowed_actions'', bounded_text 1 500 d ''reason'', bounded_text 1 160 d ''approved_by'') of
              (Some actions, Some why, Some who) \<Rightarrow>
                Some \<lparr>g1_allowed_actions = actions, g1_reason = why, g1_approved_by = who\<rparr>
            | _ \<Rightarrow> None)
      else None)"

text \<open>The part \<open>SideEffectAuthorizationV2\<close> and \<open>AbilityAuthorizationV1\<close> share.\<close>

record grant =
  gr_grant_id :: uuid
  gr_tenant_id :: string
  gr_task_id :: uuid
  gr_allowed_action :: string
  gr_invocation_sha256 :: string
  gr_reason :: string
  gr_approved_by :: string
  gr_approved_at :: time
  gr_expires_at :: time
  gr_revoked_at :: "time option"
  gr_revoked_by :: "string option"
  gr_revocation_reason :: "string option"

definition grant_fields :: "string list" where
  "grant_fields =
     [''schema_version'', ''grant_id'', ''tenant_id'', ''task_id'', ''allowed_action'', ''invocation_sha256'', ''reason'',
      ''approved_by'', ''approved_at'', ''expires_at'', ''revoked_at'', ''revoked_by'', ''revocation_reason'']"

definition parse_grant :: "(string \<Rightarrow> bool) \<Rightarrow> dict \<Rightarrow> grant option" where
  "parse_grant hash_ok d =
     (case (uuid_field d ''grant_id'', bounded_text 1 128 d ''tenant_id'', uuid_field d ''task_id'',
            bounded_text 1 160 d ''allowed_action'', text_field d ''invocation_sha256'' hash_ok) of
        (Some i, Some tenant, Some k, Some action, Some digest) \<Rightarrow>
          (case (bounded_text 1 500 d ''reason'', bounded_text 1 160 d ''approved_by'', stamp_field d ''approved_at'',
                 stamp_field d ''expires_at'') of
             (Some why, Some who, Some since, Some until) \<Rightarrow>
               (case (optional_field stamp_field d ''revoked_at'', optional_field (bounded_text 1 160) d ''revoked_by'',
                      optional_field (bounded_text 1 500) d ''revocation_reason'') of
                  (Some revoked, Some revoker, Some revocation) \<Rightarrow>
                    Some \<lparr>gr_grant_id = i, gr_tenant_id = tenant, gr_task_id = k, gr_allowed_action = action,
                      gr_invocation_sha256 = digest, gr_reason = why, gr_approved_by = who, gr_approved_at = since,
                      gr_expires_at = until, gr_revoked_at = revoked, gr_revoked_by = revoker,
                      gr_revocation_reason = revocation\<rparr>
                | _ \<Rightarrow> None)
           | _ \<Rightarrow> None)
      | _ \<Rightarrow> None)"

text \<open>\<open>validate_lifetime\<close>, what both versions ask.\<close>

definition valid_lifetime :: "grant \<Rightarrow> bool" where
  "valid_lifetime g \<longleftrightarrow> gr_approved_at g < gr_expires_at g \<and> (gr_revoked_by g = None \<longleftrightarrow> gr_revoked_at g = None)"

definition sha256_text :: "string \<Rightarrow> bool" where
  "sha256_text s \<longleftrightarrow> take 7 s = ''sha256:'' \<and> length s = 71 \<and> list_all is_hex (drop 7 s)"

definition validate_grant_v2 :: "dict \<Rightarrow> grant option" where
  "validate_grant_v2 d =
     (if only_fields grant_fields d \<and> literal_field d ''schema_version'' 2
      then (case parse_grant sha256_text d of
              None \<Rightarrow> None
            | Some g \<Rightarrow> if valid_lifetime g \<and> (gr_revoked_at g = None \<longrightarrow> gr_revocation_reason g = None) then Some g else None)
      else None)"

definition untrusted_approvers :: "string list" where
  "untrusted_approvers =
     [''mission-dispatch-ui'', ''mission_dispatch_ui'', ''dispatch-ui-v1'', ''mission-dispatch-ui-compiler'',
      ''mission_composition_engine'', ''mission_composition_confirm'', ''server:runtime_task_materialization'']"

definition client_forged_approver :: "string \<Rightarrow> bool" where
  "client_forged_approver who \<longleftrightarrow>
     (let name = lower_text (strip who)
      in name \<in> set untrusted_approvers \<or> starts_with name ''mission-dispatch'' \<or> starts_with name ''mission_dispatch'')"

definition constraints_of :: "dict \<Rightarrow> dict" where
  "constraints_of md = (case dict_of (map_of md ''execution_constraints'') of None \<Rightarrow> [] | Some c \<Rightarrow> c)"

definition invocation_of :: "dict \<Rightarrow> tool_invocation option" where
  "invocation_of md = (case dict_of (map_of md ''tool_invocation'') of None \<Rightarrow> None | Some d \<Rightarrow> validate_invocation d)"

definition side_effect_authorized ::
  "ledger_host \<Rightarrow> dict \<Rightarrow> string \<Rightarrow> string option \<Rightarrow> uuid option \<Rightarrow> time \<Rightarrow> bool" where
  "side_effect_authorized H md action tenant task now =
     (case dict_of (map_of (constraints_of md) ''side_effect_authorization'') of
        None \<Rightarrow> False
      | Some auth \<Rightarrow>
          if equals_int (map_of auth ''schema_version'') 2
          then (case (validate_grant_v2 auth, tenant, task, invocation_of md) of
                  (Some g, Some t, Some k, Some i) \<Rightarrow>
                    gr_tenant_id g = t \<and> gr_task_id g = k \<and> gr_allowed_action g = action \<and>
                    gr_invocation_sha256 g = tool_invocation_sha256 H i \<and> gr_revoked_at g = None \<and>
                    now < gr_expires_at g \<and> \<not> client_forged_approver (gr_approved_by g)
                | _ \<Rightarrow> False)
          else (case validate_grant_v1 auth of
                  None \<Rightarrow> False
                | Some g \<Rightarrow> \<not> client_forged_approver (g1_approved_by g) \<and> action \<in> set (g1_allowed_actions g)))"

record ability_grant = grant +
  ag_ability_id :: string
  ag_manifest_fingerprint :: string

definition validate_ability_grant :: "dict \<Rightarrow> ability_grant option" where
  "validate_ability_grant d =
     (if only_fields ([''ability_id'', ''manifest_fingerprint''] @ grant_fields) d \<and> literal_field d ''schema_version'' 1
      then (case (parse_grant (within_length 8 80) d, bounded_text 1 160 d ''ability_id'', bounded_text 8 80 d ''manifest_fingerprint'') of
              (Some g, Some ability, Some print) \<Rightarrow>
                if valid_lifetime g
                then Some (grant.extend g (ability_grant.fields ability print)) else None
            | _ \<Rightarrow> None)
      else None)"

definition ability_authorized :: "ledger_host \<Rightarrow> dict \<Rightarrow> ability_manifest \<Rightarrow> string \<Rightarrow> uuid \<Rightarrow> time \<Rightarrow> bool" where
  "ability_authorized H md m tenant task now =
     (case (dict_of (map_of (constraints_of md) ''ability_authorization''), invocation_of md) of
        (Some raw, Some i) \<Rightarrow>
          (case validate_ability_grant raw of
             None \<Rightarrow> False
           | Some g \<Rightarrow>
               gr_tenant_id g = tenant \<and> gr_task_id g = task \<and> ag_ability_id g = am_ability_id m \<and>
               ag_manifest_fingerprint g = manifest_fingerprint H m \<and> gr_allowed_action g = am_action_name m \<and>
               gr_invocation_sha256 g = tool_invocation_sha256 H i \<and> gr_revoked_at g = None \<and> now < gr_expires_at g)
      | _ \<Rightarrow> False)"

end
