(* ===== verification/QueueReceipt.thy ===== *)
theory QueueReceipt
  imports Contracts
begin

section \<open>The queue admission receipt of a mission\<close>

text \<open>
  \<open>backend/services/mission_bridge/queue_admission.py\<close>: the receipt kept in a mission's metadata of which of
  its materialized tasks were admitted, are held for review or are blocked, and its update when a held task is
  approved. A value that is iterated is an array, a text or an object; anything else raises.
\<close>

definition receipt_key :: string where "receipt_key = ''runtime_queue_admission''"
definition materialization_key :: string where "materialization_key = ''runtime_task_materialization''"

text \<open>\<open>for item in metadata.get(key, [])\<close>.\<close>

definition iterated :: "dict \<Rightarrow> string \<Rightarrow> json list result" where
  "iterated d k =
     (case map_of d k of
        None \<Rightarrow> Inr []
      | Some (JArr xs) \<Rightarrow> Inr xs
      | Some (JStr s) \<Rightarrow> Inr (map (\<lambda>c. JStr [c]) s)
      | Some (JObj kvs) \<Rightarrow> Inr (map (\<lambda>kv. JStr (fst kv)) kvs)
      | Some _ \<Rightarrow> Inl (TypeError ''object is not iterable''))"

definition texts_of :: "json list \<Rightarrow> string list" where
  "texts_of vs = List.map_filter text_of vs"

fun distinct_uuids :: "json list \<Rightarrow> uuid list \<Rightarrow> uuid list" where
  "distinct_uuids [] seen = []"
| "distinct_uuids (v # vs) seen =
     (case uuid_of_json v of
        None \<Rightarrow> distinct_uuids vs seen
      | Some i \<Rightarrow> if i \<in> set seen then distinct_uuids vs seen else i # distinct_uuids vs (i # seen))"

definition current_materialized_task_ids :: "dict \<Rightarrow> uuid list" where
  "current_materialized_task_ids metadata =
     (case dict_of (map_of metadata materialization_key) of
        None \<Rightarrow> []
      | Some m \<Rightarrow>
          if map_of m ''materialization_status'' \<noteq> Some (JStr ''materialized'') then []
          else (case list_of (map_of m ''created_execution_task_ids'') of None \<Rightarrow> [] | Some vs \<Rightarrow> distinct_uuids vs []))"

definition queue_blocker :: "uuid option \<Rightarrow> string \<Rightarrow> string \<Rightarrow> string option \<Rightarrow> string option \<Rightarrow> dict" where
  "queue_blocker task code message state reason =
     (let field = (\<lambda>k x. case x of None \<Rightarrow> [] | Some s \<Rightarrow> [(k, JStr s)])
      in [(''code'', JStr code), (''message'', JStr message)] @ field ''task_id'' task @ field ''state'' state @ field ''reason'' reason)"

definition admission_status :: "string list \<Rightarrow> dict list \<Rightarrow> string" where
  "admission_status admitted blockers =
     (if blockers = [] then ''admitted'' else if admitted \<noteq> [] then ''partially_admitted'' else ''blocked'')"

definition blocked_task_ids :: "dict list \<Rightarrow> string list" where
  "blocked_task_ids blockers = texts_of (List.map_filter (\<lambda>b. map_of b ''task_id'') blockers)"

definition names_task :: "uuid \<Rightarrow> dict \<Rightarrow> bool" where
  "names_task k b \<longleftrightarrow>
     (case map_of b ''task_id'' of None \<Rightarrow> k = [] | Some v \<Rightarrow> if truthy v then key_text v = Some k else k = [])"

definition append_new :: "string \<Rightarrow> string list \<Rightarrow> string list" where
  "append_new x xs = (if x \<in> set xs then xs else xs @ [x])"

definition record_reviewed_task_admission :: "dict \<Rightarrow> uuid \<Rightarrow> time \<Rightarrow> dict result" where
  "record_reviewed_task_admission metadata k now =
     bind_result (iterated metadata ''queued_execution_task_ids'') (\<lambda>queued.
     bind_result (iterated metadata ''admitted_execution_task_ids'') (\<lambda>admitted.
     bind_result (iterated metadata ''pending_review_execution_task_ids'') (\<lambda>pending.
     bind_result (iterated metadata ''blockers'') (\<lambda>blockers.
       let queued1 = append_new k (texts_of queued); admitted1 = append_new k (texts_of admitted);
           pending1 = filter (\<lambda>x. x \<noteq> k) (texts_of pending);
           blockers1 = filter (\<lambda>b. \<not> names_task k b) (List.map_filter (\<lambda>v. dict_of (Some v)) blockers)
       in Inr (set_fields metadata
            [(''queued_execution_task_ids'', JArr (map JStr queued1)), (''admitted_execution_task_ids'', JArr (map JStr admitted1)),
             (''pending_review_execution_task_ids'', JArr (map JStr pending1)),
             (''blocked_execution_task_ids'', JArr (map JStr (blocked_task_ids blockers1))),
             (''blockers'', JArr (map JObj blockers1)),
             (''admission_status'', JStr (admission_status admitted1 blockers1)), (''updated_at'', JStamp now)])))))"

definition queue_admission_metadata ::
  "uuid \<Rightarrow> string \<Rightarrow> uuid list \<Rightarrow> string list \<Rightarrow> string list \<Rightarrow> string list \<Rightarrow> string list \<Rightarrow> dict list \<Rightarrow> dict list \<Rightarrow> time \<Rightarrow> dict" where
  "queue_admission_metadata mid tenant materialized planned queued already pending denied blockers now =
     (let admitted = already @ queued; ids = (\<lambda>xs. JArr (map JStr xs))
      in [(''schema_version'', JInt 1), (''mission_id'', JStr mid), (''tenant_id'', JStr tenant),
          (''admission_status'', JStr (admission_status admitted blockers)),
          (''materialized_execution_task_ids'', ids materialized), (''planned_execution_task_ids'', ids planned),
          (''queued_execution_task_ids'', ids queued), (''already_queued_execution_task_ids'', ids already),
          (''admitted_execution_task_ids'', ids admitted), (''pending_review_execution_task_ids'', ids pending),
          (''blocked_execution_task_ids'', ids (blocked_task_ids blockers)), (''denied_tasks'', JArr (map JObj denied)),
          (''blockers'', JArr (map JObj blockers)),
          (''runtime_authority'', JObj [(''creates_execution_tasks'', JBool False), (''enqueues_work'', JBool True),
             (''dispatches_workers'', JBool False), (''executes_adapters'', JBool False),
             (''calls_task_dispatcher'', JBool False), (''calls_coordinator'', JBool True)]),
          (''updated_at'', JStamp now)])"

definition queue_admission_response :: "dict \<Rightarrow> dict" where
  "queue_admission_response metadata =
     (let field = (\<lambda>k default. case map_of metadata k of None \<Rightarrow> default | Some v \<Rightarrow> v)
      in [(''queued_task_ids'', field ''queued_execution_task_ids'' (JArr [])),
          (''pending_review_task_ids'', field ''pending_review_execution_task_ids'' (JArr [])),
          (''denied_tasks'', field ''denied_tasks'' (JArr [])),
          (''admission_status'', field ''admission_status'' (JStr ''blocked'')),
          (''admitted_task_ids'', field ''admitted_execution_task_ids'' (JArr [])),
          (''blocked_task_ids'', field ''blocked_execution_task_ids'' (JArr [])),
          (''blockers'', field ''blockers'' (JArr [])), (''runtime_queue_admission'', JObj metadata)])"

subsection \<open>What the update leaves\<close>

lemma map_filter_texts [simp]: "texts_of (map JStr xs) = xs"
  by (induction xs) (simp_all add: texts_of_def List.map_filter_simps)

lemma map_filter_dicts [simp]: "List.map_filter (\<lambda>v. dict_of (Some v)) (map JObj xs) = xs"
  by (induction xs) (simp_all add: List.map_filter_simps)

lemma append_new_simps [simp]: "k \<in> set (append_new k xs)" "append_new k (append_new k xs) = append_new k xs"
  by (simp_all add: append_new_def)

lemma set_fields_Nil [simp]: "set_fields d [] = d"
  by (simp add: set_fields_def)

lemma set_fields_Cons [simp]: "set_fields d ((k, v) # kvs) = set_fields (AList.update k v d) kvs"
  by (simp add: set_fields_def)

lemma iterated_array: "map_of d k = Some (JArr xs) \<Longrightarrow> iterated d k = Inr xs"
  by (simp add: iterated_def)

lemma update_same: "map_of d k = Some v \<Longrightarrow> distinct (map fst d) \<Longrightarrow> AList.update k v d = d"
  by (induction d) (auto split: if_splits)

definition reviewed_fields :: "string list \<Rightarrow> string list \<Rightarrow> string list \<Rightarrow> dict list \<Rightarrow> time \<Rightarrow> dict" where
  "reviewed_fields queued admitted pending blockers now =
     [(''queued_execution_task_ids'', JArr (map JStr queued)), (''admitted_execution_task_ids'', JArr (map JStr admitted)),
      (''pending_review_execution_task_ids'', JArr (map JStr pending)),
      (''blocked_execution_task_ids'', JArr (map JStr (blocked_task_ids blockers))),
      (''blockers'', JArr (map JObj blockers)),
      (''admission_status'', JStr (admission_status admitted blockers)), (''updated_at'', JStamp now)]"

lemma reviewed_Inr:
  assumes "record_reviewed_task_admission metadata k now = Inr r"
  obtains queued admitted pending blockers where
    "r = set_fields metadata (reviewed_fields (append_new k queued) (append_new k admitted) (filter (\<lambda>x. x \<noteq> k) pending)
           (filter (\<lambda>b. \<not> names_task k b) blockers) now)"
proof -
  obtain q a p b where it: "iterated metadata ''queued_execution_task_ids'' = Inr q"
      "iterated metadata ''admitted_execution_task_ids'' = Inr a"
      "iterated metadata ''pending_review_execution_task_ids'' = Inr p" "iterated metadata ''blockers'' = Inr b"
    using assms by (auto simp: record_reviewed_task_admission_def bind_result_Inr)
  show thesis
    by (rule that [of "texts_of q" "texts_of a" "texts_of p" "List.map_filter (\<lambda>v. dict_of (Some v)) b"])
      (use assms it in \<open>simp add: record_reviewed_task_admission_def reviewed_fields_def Let_def\<close>)
qed

lemma reviewed_lookups:
  "map_of (set_fields d (reviewed_fields q a p b now)) ''queued_execution_task_ids'' = Some (JArr (map JStr q))"
  "map_of (set_fields d (reviewed_fields q a p b now)) ''admitted_execution_task_ids'' = Some (JArr (map JStr a))"
  "map_of (set_fields d (reviewed_fields q a p b now)) ''pending_review_execution_task_ids'' = Some (JArr (map JStr p))"
  "map_of (set_fields d (reviewed_fields q a p b now)) ''blockers'' = Some (JArr (map JObj b))"
  "map_of (set_fields d (reviewed_fields q a p b now)) ''blocked_execution_task_ids'' = Some (JArr (map JStr (blocked_task_ids b)))"
  "map_of (set_fields d (reviewed_fields q a p b now)) ''admission_status'' = Some (JStr (admission_status a b))"
  by (simp_all add: reviewed_fields_def)

lemma distinct_set_fields: "distinct (map fst d) \<Longrightarrow> distinct (map fst (set_fields d kvs))"
  by (induction kvs arbitrary: d) (auto simp: distinct_update)

lemma set_fields_known:
  assumes "\<forall>kv \<in> set kvs. map_of d (fst kv) = Some (snd kv)" and "distinct (map fst d)"
  shows "set_fields d (kvs @ rest) = set_fields d rest"
  using assms by (induction kvs) (auto simp: update_same)

text \<open>
  Approving a held task moves it, and only it, in the receipt. It is admitted and queued, is no longer
  pending, no blocker names it, the blockers of other tasks stay, and a second approval changes nothing but the time.
\<close>

theorem reviewed_admission_recorded:
  assumes "record_reviewed_task_admission metadata k now = Inr r" and "distinct (map fst metadata)"
    and "map_of metadata ''blockers'' = Some (JArr (map JObj blockers))"
  shows "(\<exists>queued admitted pending others.
      map_of r ''queued_execution_task_ids'' = Some (JArr (map JStr queued)) \<and> k \<in> set queued \<and>
      map_of r ''admitted_execution_task_ids'' = Some (JArr (map JStr admitted)) \<and> k \<in> set admitted \<and>
      map_of r ''pending_review_execution_task_ids'' = Some (JArr (map JStr pending)) \<and> k \<notin> set pending \<and>
      map_of r ''blockers'' = Some (JArr (map JObj others)) \<and> others = filter (\<lambda>b. \<not> names_task k b) blockers \<and>
      map_of r ''admission_status'' = Some (JStr (admission_status admitted others))) \<and>
    record_reviewed_task_admission r k later = Inr (AList.update ''updated_at'' (JStamp later) r)"
proof -
  obtain q a p b where r: "r = set_fields metadata (reviewed_fields (append_new k q) (append_new k a)
      (filter (\<lambda>x. x \<noteq> k) p) (filter (\<lambda>b. \<not> names_task k b) b) now)"
    using reviewed_Inr [OF assms(1)] by metis
  let ?q = "append_new k q" and ?a = "append_new k a" and ?p = "filter (\<lambda>x. x \<noteq> k) p"
    and ?b = "filter (\<lambda>b. \<not> names_task k b) b"
  have at: "map_of r ''queued_execution_task_ids'' = Some (JArr (map JStr ?q))"
    "map_of r ''admitted_execution_task_ids'' = Some (JArr (map JStr ?a))"
    "map_of r ''pending_review_execution_task_ids'' = Some (JArr (map JStr ?p))"
    "map_of r ''blockers'' = Some (JArr (map JObj ?b))"
    "map_of r ''blocked_execution_task_ids'' = Some (JArr (map JStr (blocked_task_ids ?b)))"
    "map_of r ''admission_status'' = Some (JStr (admission_status ?a ?b))"
    unfolding r by (rule reviewed_lookups)+
  have "iterated metadata ''blockers'' = Inr (map JObj blockers)" using assms(3) by (rule iterated_array)
  then have "map_of r ''blockers'' = Some (JArr (map JObj (filter (\<lambda>b. \<not> names_task k b) blockers)))"
    using assms(1) by (auto simp: record_reviewed_task_admission_def bind_result_Inr Let_def)
  then have b: "?b = filter (\<lambda>b. \<not> names_task k b) blockers" using at(4) by (simp add: inj_map_eq_map inj_def)
  have "record_reviewed_task_admission r k later = Inr (set_fields r (reviewed_fields ?q ?a ?p ?b later))"
    by (simp add: record_reviewed_task_admission_def iterated_array [OF at(1)] iterated_array [OF at(2)]
        iterated_array [OF at(3)] iterated_array [OF at(4)] reviewed_fields_def Let_def)
  also have "set_fields r (reviewed_fields ?q ?a ?p ?b later) = set_fields r [(''updated_at'', JStamp later)]"
  proof -
    have "distinct (map fst r)" unfolding r using assms(2) by (rule distinct_set_fields)
    moreover have "reviewed_fields ?q ?a ?p ?b later = butlast (reviewed_fields ?q ?a ?p ?b later) @ [(''updated_at'', JStamp later)]"
      by (simp add: reviewed_fields_def)
    moreover have "\<forall>kv \<in> set (butlast (reviewed_fields ?q ?a ?p ?b later)). map_of r (fst kv) = Some (snd kv)"
      using at by (simp add: reviewed_fields_def)
    ultimately show ?thesis by (metis set_fields_known)
  qed
  finally have again: "record_reviewed_task_admission r k later = Inr (AList.update ''updated_at'' (JStamp later) r)" by simp
  have "k \<notin> set ?p" by simp
  then show ?thesis using at b again append_new_simps(1) by blast
qed

definition held_receipt :: dict where
  "held_receipt =
     [(''admission_status'', JStr ''blocked''), (''queued_execution_task_ids'', JArr []), (''admitted_execution_task_ids'', JArr []),
      (''pending_review_execution_task_ids'', JArr [JStr ''a'', JStr ''b'']),
      (''blockers'', JArr [JObj [(''code'', JStr ''policy_review_required''), (''task_id'', JStr ''a'')],
         JObj [(''code'', JStr ''policy_review_required''), (''task_id'', JStr ''b'')]])]"

theorem reviewed_admission_recorded_witness:
  "\<exists>r. record_reviewed_task_admission held_receipt ''a'' 7 = Inr r \<and>
     map_of r ''blockers'' = Some (JArr [JObj [(''code'', JStr ''policy_review_required''), (''task_id'', JStr ''b'')]]) \<and>
     record_reviewed_task_admission r ''a'' 9 = Inr (AList.update ''updated_at'' (JStamp 9) r)"
proof -
  let ?bs = "[[(''code'', JStr ''policy_review_required''), (''task_id'', JStr ''a'')],
      [(''code'', JStr ''policy_review_required''), (''task_id'', JStr ''b'')]]"
  have bs: "map_of held_receipt ''blockers'' = Some (JArr (map JObj ?bs))" and d: "distinct (map fst held_receipt)"
    by (simp_all add: held_receipt_def)
  have it: "iterated held_receipt ''queued_execution_task_ids'' = Inr []"
    "iterated held_receipt ''admitted_execution_task_ids'' = Inr []"
    "iterated held_receipt ''pending_review_execution_task_ids'' = Inr [JStr ''a'', JStr ''b'']"
    "iterated held_receipt ''blockers'' = Inr (map JObj ?bs)"
    by (simp_all add: held_receipt_def iterated_def)
  obtain r where r: "record_reviewed_task_admission held_receipt ''a'' 7 = Inr r"
    by (simp add: record_reviewed_task_admission_def it Let_def)
  have "filter (\<lambda>b. \<not> names_task ''a'' b) ?bs = [[(''code'', JStr ''policy_review_required''), (''task_id'', JStr ''b'')]]"
    by (simp add: names_task_def)
  then show ?thesis using reviewed_admission_recorded [OF r d bs, of 9] r by auto
qed

end
