(* ===== verification/Coordinator.thy ===== *)
theory Coordinator
  imports Grants QueueReceipt Governance Quota Worker
begin

section \<open>The execution coordinator\<close>

text \<open>
  \<open>backend/services/execution_coordinator.py\<close> and \<open>services/mission_executor.py\<close>: the one way a task gets into
  the queue. A task passes the governor, the two reviews of what its tool may do and the guardian; it is then queued
  with a durable dispatch and charged to the plan of its tenant, or held for a human whose approval is a grant
  bound to the task and its invocation.

  The session is the runtime's \<open>world\<close> and the tenants' session together; both belong to one database transaction, which the caller
  commits. The action registry, the table of ability manifests, the binding of inputs
  (\<open>apply_input_bindings\<close>) and the health check are arguments. A column that should hold an object and holds
  something else that is not empty makes \<open>dict()\<close> raise.
\<close>

type_synonym 'q runtime = "'q world \<times> tenant_session"

text \<open>What a step does: its value or its exception, and the session it leaves.\<close>

definition then_do :: "'a outcome \<times> 's \<Rightarrow> ('a \<Rightarrow> 's \<Rightarrow> 'b outcome \<times> 's) \<Rightarrow> 'b outcome \<times> 's" where
  "then_do r f = (case r of (Inl e, s) \<Rightarrow> (Inl e, s) | (Inr x, s) \<Rightarrow> f x s)"

lemma then_do_simps [simp]: "then_do (Inl e, s) f = (Inl e, s)" "then_do (Inr x, s) f = f x s"
  by (simp_all add: then_do_def)

lemma then_do_Inr: "then_do r f = (Inr y, s2) \<longleftrightarrow> (\<exists>x s1. r = (Inr x, s1) \<and> f x s1 = (Inr y, s2))"
  by (cases r; cases "fst r") auto

definition raised :: "'a result \<Rightarrow> 'a outcome" where
  "raised r = (case r of Inl e \<Rightarrow> Inl (Raised e) | Inr x \<Rightarrow> Inr x)"

definition value_error :: "string \<Rightarrow> 'a outcome" where
  "value_error why = Inl (Raised (ValueError why))"

definition on_world :: "('q world \<Rightarrow> 'a result \<times> 'q world) \<Rightarrow> 'q runtime \<Rightarrow> 'a outcome \<times> 'q runtime" where
  "on_world f s = (case f (fst s) of (r, w) \<Rightarrow> (raised r, w, snd s))"

definition on_tenants :: "'a session_op \<Rightarrow> 'q runtime \<Rightarrow> 'a outcome \<times> 'q runtime" where
  "on_tenants f s = (case f (snd s) of (r, t) \<Rightarrow> (r, fst s, t))"

definition change :: "('q world \<Rightarrow> 'q world) \<Rightarrow> 'q runtime \<Rightarrow> 'q runtime" where
  "change f s = (f (fst s), snd s)"

record coordination_result =
  cn_ok :: bool
  cn_task_id :: uuid
  cn_state :: task_state
  cn_reason :: "string option"

datatype binding = Bound dict dict | Deferred string | Unbindable string

record coordinator_host =
  ch_runtime :: runtime_host
  ch_registry :: action_registry
  ch_manifests :: "(string \<times> ability_manifest) list"
  ch_bind :: "dict \<Rightarrow> execution_task \<Rightarrow> execution_task list \<Rightarrow> binding"
  ch_health :: "continuity_assessment result"

definition ch_ledger :: "coordinator_host \<Rightarrow> ledger_host" where
  "ch_ledger K = rh_ledger (ch_runtime K)"

fun mode_value :: "runtime_mode \<Rightarrow> string" where
  "mode_value Normal = ''normal''"
| "mode_value Degraded = ''degraded''"
| "mode_value Restricted = ''restricted''"
| "mode_value Recovery = ''recovery''"

definition govern :: "string \<Rightarrow> uuid option \<Rightarrow> string \<Rightarrow> string \<Rightarrow> string \<Rightarrow> dict \<Rightarrow> 'q world \<Rightarrow> 'q world" where
  "govern tenant mid type actor decision payload w =
     map_db (\<lambda>d. d\<lparr>db_governance := db_governance d @
       [\<lparr>ge_tenant_id = tenant, ge_mission_id = mid, ge_event_type = type, ge_actor = actor, ge_decision = decision,
         ge_payload = payload, ge_created_at = w_clock w\<rparr>]\<rparr>) w"

definition require_task :: "string \<Rightarrow> uuid \<Rightarrow> 'q runtime \<Rightarrow> execution_task outcome \<times> 'q runtime" where
  "require_task tenant k s =
     (case find_task k (w_db (fst s)) of
        None \<Rightarrow> (value_error ''task not found for tenant'', s)
      | Some x \<Rightarrow> if t_tenant_id x \<noteq> tenant then (value_error ''task not found for tenant'', s) else (Inr x, s))"

definition set_task :: "execution_task result \<Rightarrow> 'q runtime \<Rightarrow> execution_task outcome \<times> 'q runtime" where
  "set_task r = on_world (update_task r)"

subsection \<open>What a task may do\<close>

definition tool_action :: "coordinator_host \<Rightarrow> dict \<Rightarrow> (tool_invocation \<times> action_definition) option" where
  "tool_action K md =
     (case invocation_of md of
        None \<Rightarrow> None
      | Some i \<Rightarrow> (case get_action (ch_registry K) (ti_action i) of Inl _ \<Rightarrow> None | Inr a \<Rightarrow> Some (i, a)))"

definition requires_effect_review :: "coordinator_host \<Rightarrow> execution_task \<Rightarrow> time \<Rightarrow> bool result" where
  "requires_effect_review K x now =
     (case tool_action K (t_metadata x) of
        None \<Rightarrow> Inr False
      | Some (i, a) \<Rightarrow>
          bind_result (side_effect_for a i) (\<lambda>c. Inr (has_side_effect c \<and>
            \<not> side_effect_authorized (ch_ledger K) (t_metadata x) (ad_name a) (Some (t_tenant_id x)) (Some (t_id x)) now)))"

definition requires_ability_review :: "coordinator_host \<Rightarrow> execution_task \<Rightarrow> time \<Rightarrow> bool" where
  "requires_ability_review K x now =
     (case tool_action K (t_metadata x) of
        None \<Rightarrow> False
      | Some (i, a) \<Rightarrow>
          (case map_of (ch_manifests K) (ad_name a) of
             None \<Rightarrow> False
           | Some m \<Rightarrow> am_approval_required m \<and>
               \<not> ability_authorized (ch_ledger K) (t_metadata x) m (t_tenant_id x) (t_id x) now))"

subsection \<open>Holding a task\<close>

definition publication_reviewed :: "dict \<Rightarrow> dict" where
  "publication_reviewed md =
     (if map_of md ''social_publication_state'' = Some (JStr ''draft'')
      then AList.update ''social_publication_state'' (JStr ''reviewed'') md else md)"

definition held_task :: "execution_task \<Rightarrow> execution_task result" where
  "held_task x =
     bind_result (transition_task x TPendingReview)
       (\<lambda>y. Inr (y\<lparr>t_requires_human_review := True, t_metadata := publication_reviewed (t_metadata y)\<rparr>))"

definition place_in_review :: "string \<Rightarrow> execution_task \<Rightarrow> string \<Rightarrow> 'q runtime \<Rightarrow> execution_task outcome \<times> 'q runtime" where
  "place_in_review tenant x reason s =
     then_do (set_task (held_task x) s) (\<lambda>y s1.
       (Inr y, change (audit tenant (t_mission_id x) ''compliance'' ''task_pending_review'' ''policy_guardian''
            (''Task '' @ t_id x @ '' requires human review before execution. Reason: '' @ reason)
            [(''task_id'', JStr (t_id x)), (''reason'', JStr reason)])
          (change (govern tenant (t_mission_id x) ''compliance_review_required'' ''policy_guardian'' reason
            [(''task_id'', JStr (t_id x)), (''compliance_category'', JStr (t_compliance_category x)),
             (''jurisdiction'', JStr (t_jurisdiction x)), (''reason'', JStr reason)]) s1)))"

definition emit_denial :: "string \<Rightarrow> execution_task \<Rightarrow> string \<Rightarrow> 'q runtime \<Rightarrow> 'q runtime" where
  "emit_denial tenant x reason =
     change (govern tenant (t_mission_id x) ''dispatch_denied'' ''runtime_governor'' reason [(''task_id'', JStr (t_id x))])"

text \<open>The dispatch and, when it is a new one, the charge to the plan.\<close>

definition record_task_admission :: "execution_task \<Rightarrow> bool \<Rightarrow> 'q runtime \<Rightarrow> unit outcome \<times> 'q runtime" where
  "record_task_admission x held s =
     then_do (on_world (admit x held) s) (\<lambda>(r, created) s1.
       if \<not> created then (Inr (), s1)
       else (case uuid_parse (t_tenant_id x) of
               None \<Rightarrow> (value_error ''badly formed hexadecimal UUID string'', s1)
             | Some i \<Rightarrow> on_tenants (check_and_record_task_creation i 1) s1))"

definition not_admitted :: "execution_task \<Rightarrow> string \<Rightarrow> coordination_result" where
  "not_admitted x reason = \<lparr>cn_ok = False, cn_task_id = t_id x, cn_state = t_status x, cn_reason = Some reason\<rparr>"

definition admitted :: "execution_task \<Rightarrow> coordination_result" where
  "admitted x = \<lparr>cn_ok = True, cn_task_id = t_id x, cn_state = t_status x, cn_reason = None\<rparr>"

definition hold_for_review :: "string \<Rightarrow> execution_task \<Rightarrow> string \<Rightarrow> 'q runtime \<Rightarrow> coordination_result outcome \<times> 'q runtime" where
  "hold_for_review tenant x reason s =
     then_do (place_in_review tenant x reason s) (\<lambda>y s1.
     then_do (record_task_admission y True s1) (\<lambda>_ s2. (Inr (not_admitted y reason), s2)))"

subsection \<open>Queueing\<close>

definition effect_reason :: string where "effect_reason = ''side-effecting action requires independent human approval''"
definition ability_reason :: string where "ability_reason = ''ability manifest requires independent human approval''"

definition mission_text :: "execution_task \<Rightarrow> string" where
  "mission_text x = (case t_mission_id x of None \<Rightarrow> ''None'' | Some i \<Rightarrow> i)"

definition task_mission :: "execution_task \<Rightarrow> db \<Rightarrow> mission option" where
  "task_mission x d = (case t_mission_id x of None \<Rightarrow> None | Some i \<Rightarrow> find_mission i d)"

definition admission_fact :: "coordinator_host \<Rightarrow> string \<Rightarrow> execution_task \<Rightarrow> runtime_decision \<Rightarrow> policy_decision \<Rightarrow> db \<Rightarrow> fact_args" where
  "admission_fact K tenant x decision policy d =
     \<lparr>fa_event_id = [], fa_tenant_id = tenant, fa_mission_id = t_mission_id x, fa_category = ''runtime_evidence'',
      fa_action = ''queue_admission_recorded'', fa_producer = ''execution_coordinator'', fa_actor = ''execution_coordinator'',
      fa_details = ''Task '' @ t_id x @ '' queued for execution.'',
      fa_facts = [(''task_id'', JStr (t_id x)), (''mode'', JStr (mode_value (gv_mode decision))),
        (''state'', JStr (task_value (t_status x))),
        (''semantic_lineage'', JObj (case task_mission x d of None \<Rightarrow> []
           | Some m \<Rightarrow> text_object (semantic_lineage (ch_ledger K) (m_metadata m))))],
      fa_authority_context = [(''runtime_governor_mode'', JStr (mode_value (gv_mode decision))),
        (''execution_allowed'', JBool (gv_execution_allowed decision)), (''policy_allowed'', JBool (pd_allowed policy))],
      fa_causation_id = Some (t_id x), fa_correlation_id = Some (mission_text x), fa_evidence_references = [], fa_occurred_at = 0\<rparr>"

definition admit_to_queue ::
  "coordinator_host \<Rightarrow> string \<Rightarrow> execution_task \<Rightarrow> runtime_decision \<Rightarrow> policy_decision \<Rightarrow> 'q runtime \<Rightarrow>
     coordination_result outcome \<times> 'q runtime" where
  "admit_to_queue K tenant x decision policy s =
     then_do (set_task (transition_task x TQueued) s) (\<lambda>y s1.
     then_do (record_task_admission y False s1) (\<lambda>_ s2.
       if (case task_mission y (w_db (fst s2)) of None \<Rightarrow> False | Some m \<Rightarrow> m_tenant_id m \<noteq> tenant)
       then (value_error ''task mission is not owned by tenant'', s2)
       else (Inr (admitted y),
             change (record_fact (ch_runtime K) (admission_fact K tenant y decision policy (w_db (fst s2))))
               (change (audit tenant (t_mission_id y) ''execution_task'' ''queued'' ''execution_coordinator''
                 (''Task '' @ t_id y @ '' queued for execution.'')
                 [(''task_id'', JStr (t_id y)), (''mode'', JStr (mode_value (gv_mode decision)))]) s2))))"

definition queue_task :: "coordinator_host \<Rightarrow> string \<Rightarrow> uuid \<Rightarrow> 'q runtime \<Rightarrow> coordination_result outcome \<times> 'q runtime" where
  "queue_task K tenant k s =
     then_do (require_task tenant k s) (\<lambda>x s.
       let decision = governor_evaluate (ch_health K); now = w_clock (fst s)
       in if \<not> gv_execution_allowed decision
          then (Inr (not_admitted x (gv_reason decision)), emit_denial tenant x (gv_reason decision) s)
          else then_do (raised (requires_effect_review K x now), s) (\<lambda>effect s.
            if effect then hold_for_review tenant x effect_reason s
            else if requires_ability_review K x now then hold_for_review tenant x ability_reason s
            else let policy = evaluate_task x
                 in if \<not> pd_allowed policy then hold_for_review tenant x (pd_reason policy) s
                    else admit_to_queue K tenant x decision policy s))"

subsection \<open>Approving a held task\<close>

text \<open>\<open>dict(value or {})\<close>; an array of pairs is not read as one.\<close>

definition object_or_empty :: "json option \<Rightarrow> dict result" where
  "object_or_empty v =
     (case v of
        None \<Rightarrow> Inr []
      | Some x \<Rightarrow> if \<not> truthy x then Inr [] else
          (case x of
             JObj kvs \<Rightarrow> Inr kvs
           | JStr _ \<Rightarrow> Inl (ValueError ''dictionary update sequence element #0 has length 1; 2 is required'')
           | _ \<Rightarrow> Inl (TypeError ''cannot convert dictionary update sequence'')))"

definition full_array :: "json option \<Rightarrow> bool" where
  "full_array v \<longleftrightarrow> (case list_of v of None \<Rightarrow> False | Some xs \<Rightarrow> xs \<noteq> [])"

definition binding_failed_fact :: "execution_task \<Rightarrow> fact_args" where
  "binding_failed_fact x =
     \<lparr>fa_event_id = [], fa_tenant_id = t_tenant_id x, fa_mission_id = t_mission_id x, fa_category = ''runtime_evidence'',
      fa_action = ''review_approval_input_binding_failed'', fa_producer = ''execution_coordinator'', fa_actor = ''execution_coordinator'',
      fa_details = ''Required upstream evidence could not bind before human-review approval; provider execution was blocked.'',
      fa_facts = [(''task_id'', JStr (t_id x)), (''code'', JStr ''INPUT_BINDING_FAILED''), (''retryable'', JBool False),
        (''enforcement_boundary'', JStr ''review_approval_pre_provider'')],
      fa_authority_context = [], fa_causation_id = Some (t_id x), fa_correlation_id = t_mission_id x,
      fa_evidence_references = [], fa_occurred_at = 0\<rparr>"

definition binding_failed_task :: "execution_task \<Rightarrow> execution_task result" where
  "binding_failed_task x =
     bind_result (transition_task x TFailed) (\<lambda>y. Inr (y\<lparr>t_metadata := AList.update ''failure''
       (JObj [(''code'', JStr ''INPUT_BINDING_FAILED''), (''retryable'', JBool False), (''stage'', JStr ''review_approval'')])
       (t_metadata y)\<rparr>))"

definition fail_review_input_binding :: "coordinator_host \<Rightarrow> execution_task \<Rightarrow> 'q runtime \<Rightarrow> execution_task outcome \<times> 'q runtime" where
  "fail_review_input_binding K x s =
     then_do (set_task (binding_failed_task x) s) (\<lambda>y s1.
       (Inr y, change (record_fact (ch_runtime K) (binding_failed_fact x))
         (change (audit (t_tenant_id x) (t_mission_id x) ''compliance'' ''task_review_binding_failed'' ''execution_coordinator''
           ''Task approval failed because required upstream evidence could not bind to its invocation.''
           [(''task_id'', JStr (t_id x)), (''code'', JStr ''INPUT_BINDING_FAILED'')]) s1)))"

definition bind_invocation_for_approval ::
  "coordinator_host \<Rightarrow> execution_task \<Rightarrow> dict \<Rightarrow> tool_invocation \<Rightarrow> 'q runtime \<Rightarrow> (tool_invocation \<times> dict option) outcome \<times> 'q runtime" where
  "bind_invocation_for_approval K x md i s =
     (case t_mission_id x of
        None \<Rightarrow> (Inr (i, None), s)
      | Some mid \<Rightarrow>
          if \<not> full_array (map_of md ''dependency_keys'') \<and> \<not> full_array (map_of md ''input_bindings'') then (Inr (i, None), s)
          else (case ch_bind K (ti_input i) x (list_for_mission_for_tenant mid (t_tenant_id x) (w_db (fst s))) of
                  Bound given audited \<Rightarrow> (Inr (i\<lparr>ti_input := given\<rparr>, Some audited), s)
                | Deferred why \<Rightarrow> (value_error (''review approval input binding deferred: '' @ why), s)
                | Unbindable why \<Rightarrow> then_do (fail_review_input_binding K x s) (\<lambda>_ s1.
                    (value_error (''review approval input binding failed: '' @ why), s1))))"

text \<open>The payloads of the two grants; the one of an ability is checked when it is made.\<close>

definition effect_grant_payload :: "ledger_host \<Rightarrow> uuid \<Rightarrow> string \<Rightarrow> uuid \<Rightarrow> string \<Rightarrow> tool_invocation \<Rightarrow> string \<Rightarrow> time \<Rightarrow> time \<Rightarrow> dict" where
  "effect_grant_payload H i tenant k action call actor now expires =
     [(''schema_version'', JInt 2), (''grant_id'', JStr i), (''tenant_id'', JStr tenant), (''task_id'', JStr k),
      (''allowed_action'', JStr action), (''invocation_sha256'', JStr (tool_invocation_sha256 H call)),
      (''reason'', JStr ''human_review_approved''), (''approved_by'', JStr actor), (''approved_at'', JStamp now),
      (''expires_at'', JStamp expires), (''revoked_at'', JNull)]"

definition ability_grant_payload ::
  "ledger_host \<Rightarrow> uuid \<Rightarrow> string \<Rightarrow> uuid \<Rightarrow> ability_manifest \<Rightarrow> tool_invocation \<Rightarrow> string \<Rightarrow> time \<Rightarrow> time \<Rightarrow> dict" where
  "ability_grant_payload H i tenant k m call actor now expires =
     [(''schema_version'', JInt 1), (''grant_id'', JStr i), (''tenant_id'', JStr tenant), (''task_id'', JStr k),
      (''ability_id'', JStr (am_ability_id m)), (''manifest_fingerprint'', JStr (manifest_fingerprint H m)),
      (''allowed_action'', JStr (am_action_name m)), (''invocation_sha256'', JStr (tool_invocation_sha256 H call)),
      (''reason'', JStr ''human_review_approved''), (''approved_by'', JStr actor), (''approved_at'', JStamp now),
      (''expires_at'', JStamp expires), (''revoked_at'', JNull), (''revoked_by'', JNull), (''revocation_reason'', JNull)]"

definition draw_id :: "'q runtime \<Rightarrow> uuid \<times> 'q runtime" where
  "draw_id s = (w_ids (fst s) (w_next_id (fst s)), change (\<lambda>w. w\<lparr>w_next_id := w_next_id w + 1\<rparr>) s)"

text \<open>The invocation as it is to run, with the audit of its binding, once the expiry is known to be in the future.\<close>

definition final_invocation ::
  "coordinator_host \<Rightarrow> execution_task \<Rightarrow> dict \<Rightarrow> tool_invocation \<Rightarrow> time option \<Rightarrow> 'q runtime \<Rightarrow>
     (tool_invocation \<times> dict \<times> time) outcome \<times> 'q runtime" where
  "final_invocation K x md i expires s =
     then_do (bind_invocation_for_approval K x md i s) (\<lambda>(j, audited) s1.
       let md1 = AList.update ''tool_invocation'' (JObj (invocation_dump j)) md;
           md2 = (case audited of None \<Rightarrow> md1 | Some a \<Rightarrow> AList.update ''input_binding_audit'' (JObj a) md1)
       in case expires of
            None \<Rightarrow> (value_error ''review approval requires a timezone-aware expiry'', s1)
          | Some e \<Rightarrow> if e \<le> w_clock (fst s1) then (value_error ''review approval expiry must be in the future'', s1)
                      else (Inr (j, md2, e), s1))"

definition add_effect_grant ::
  "coordinator_host \<Rightarrow> string \<Rightarrow> uuid \<Rightarrow> string \<Rightarrow> tool_invocation \<Rightarrow> string \<Rightarrow> time \<Rightarrow> dict \<Rightarrow> 'q runtime \<Rightarrow> (dict \<times> dict) \<times> 'q runtime" where
  "add_effect_grant K tenant k action call actor expires constraints s =
     (case draw_id s of (i, s1) \<Rightarrow>
        let g = effect_grant_payload (ch_ledger K) i tenant k action call actor (w_clock (fst s)) expires
        in ((g, AList.update ''side_effect_authorization'' (JObj g) constraints), s1))"

definition add_ability_grant ::
  "coordinator_host \<Rightarrow> string \<Rightarrow> uuid \<Rightarrow> ability_manifest \<Rightarrow> tool_invocation \<Rightarrow> string \<Rightarrow> time \<Rightarrow> dict \<Rightarrow> 'q runtime \<Rightarrow>
     (dict \<times> dict) outcome \<times> 'q runtime" where
  "add_ability_grant K tenant k m call actor expires constraints s =
     (case draw_id s of (i, s1) \<Rightarrow>
        let g = ability_grant_payload (ch_ledger K) i tenant k m call actor (w_clock (fst s)) expires
        in if validate_ability_grant g = None then (value_error ''AbilityAuthorizationV1'', s1)
           else (Inr (g, AList.update ''ability_authorization'' (JObj g) constraints), s1))"

definition publication_authorized :: "tool_invocation \<Rightarrow> dict \<Rightarrow> dict" where
  "publication_authorized i md =
     (if ti_action i = ''gtm.social_publish'' then AList.update ''social_publication_state'' (JStr ''authorized'') md else md)"

definition effect_grant_if ::
  "coordinator_host \<Rightarrow> bool \<Rightarrow> string \<Rightarrow> uuid \<Rightarrow> string \<Rightarrow> tool_invocation \<Rightarrow> string \<Rightarrow> time \<Rightarrow> dict \<Rightarrow> 'q runtime \<Rightarrow>
     (dict option \<times> dict) outcome \<times> 'q runtime" where
  "effect_grant_if K effect tenant k action call actor e constraints s =
     (if effect then (case add_effect_grant K tenant k action call actor e constraints s of ((g, cs), s1) \<Rightarrow> (Inr (Some g, cs), s1))
      else (Inr (None, constraints), s))"

definition approval_required :: "ability_manifest option \<Rightarrow> bool" where
  "approval_required m \<longleftrightarrow> (case m of None \<Rightarrow> False | Some m \<Rightarrow> am_approval_required m)"

definition ability_grant_if ::
  "coordinator_host \<Rightarrow> ability_manifest option \<Rightarrow> string \<Rightarrow> uuid \<Rightarrow> tool_invocation \<Rightarrow> string \<Rightarrow> time \<Rightarrow> dict \<Rightarrow> 'q runtime \<Rightarrow>
     (dict option \<times> dict) outcome \<times> 'q runtime" where
  "ability_grant_if K manifest tenant k call actor e constraints s =
     (case manifest of
        None \<Rightarrow> (Inr (None, constraints), s)
      | Some m \<Rightarrow> if am_approval_required m
                  then then_do (add_ability_grant K tenant k m call actor e constraints s) (\<lambda>(g, cs) s1. (Inr (Some g, cs), s1))
                  else (Inr (None, constraints), s))"

text \<open>The metadata of the approved task, with the payloads of its grants.\<close>

definition grant_metadata ::
  "coordinator_host \<Rightarrow> string \<Rightarrow> execution_task \<Rightarrow> tool_invocation \<Rightarrow> action_definition \<Rightarrow> dict \<Rightarrow> string \<Rightarrow> time option \<Rightarrow> 'q runtime \<Rightarrow>
     (dict \<times> dict option \<times> dict option) outcome \<times> 'q runtime" where
  "grant_metadata K tenant x i a constraints actor expires s =
     (let md = t_metadata x; manifest = map_of (ch_manifests K) (ad_name a)
      in then_do (raised (side_effect_for a i), s) (\<lambda>c s.
         if \<not> has_side_effect c \<and> \<not> approval_required manifest
         then (Inr (publication_authorized i (AList.update ''execution_constraints'' (JObj constraints) md), None, None), s)
         else then_do (final_invocation K x md i expires s) (\<lambda>(j, md1, e) s1.
              then_do (effect_grant_if K (has_side_effect c) tenant (t_id x) (ad_name a) j actor e constraints s1) (\<lambda>(g1, cs1) s2.
              then_do (ability_grant_if K manifest tenant (t_id x) j actor e cs1 s2) (\<lambda>(g2, cs2) s3.
                (Inr (publication_authorized j (AList.update ''execution_constraints'' (JObj cs2) md1), g1, g2), s3))))))"

definition no_action :: "'a outcome" where
  "no_action = value_error ''pending-review tool task has no valid action to approve''"

definition approval_metadata ::
  "coordinator_host \<Rightarrow> string \<Rightarrow> execution_task \<Rightarrow> string \<Rightarrow> time option \<Rightarrow> 'q runtime \<Rightarrow>
     (dict \<times> dict option \<times> dict option) outcome \<times> 'q runtime" where
  "approval_metadata K tenant x actor expires s =
     (let md = t_metadata x
      in case dict_of (map_of md ''tool_invocation'') of
           None \<Rightarrow> if map_of md ''task_type'' = Some (JStr ''tool.invoke'') then (no_action, s) else (Inr (md, None, None), s)
         | Some raw \<Rightarrow>
             (case text_at raw ''action'' of
                None \<Rightarrow> (no_action, s)
              | Some name \<Rightarrow>
                  if strip name = [] then (no_action, s)
                  else (case tool_action K md of
                          None \<Rightarrow> (no_action, s)
                        | Some (i, a) \<Rightarrow>
                            then_do (raised (object_or_empty (map_of md ''execution_constraints'')), s)
                              (\<lambda>constraints s. grant_metadata K tenant x i a constraints actor expires s))))"

definition reconciled_mission_metadata :: "time \<Rightarrow> dict \<Rightarrow> dict" where
  "reconciled_mission_metadata now md =
     (case dict_of (map_of md ''runtime_reconciliation'') of
        None \<Rightarrow> md
      | Some r \<Rightarrow>
          if map_of r ''reason'' \<noteq> Some (JStr ''review_hold_without_active_tasks'') then md
          else AList.update ''runtime_reconciliation''
                 (JObj (set_fields r [(''status'', JStr ''aligned''), (''reason'', JStr ''reviewed_task_admitted''),
                    (''pending_review_task_count'', JInt 0), (''reconciled_at'', JStamp now)])) md)"

definition reviewed_mission :: "uuid \<Rightarrow> time \<Rightarrow> mission \<Rightarrow> mission result" where
  "reviewed_mission k now m =
     (case dict_of (map_of (m_metadata m) receipt_key) of
        None \<Rightarrow> Inl (ValueError ''mission runtime queue admission receipt is missing'')
      | Some receipt \<Rightarrow>
          bind_result (record_reviewed_task_admission receipt k now) (\<lambda>r. Inr (m\<lparr>m_metadata :=
            reconciled_mission_metadata now (AList.update receipt_key (JObj r) (m_metadata m))\<rparr>)))"

definition lock_mission_for_tenant :: "uuid \<Rightarrow> string \<Rightarrow> db \<Rightarrow> mission option" where
  "lock_mission_for_tenant i tenant d =
     (case find_mission i d of None \<Rightarrow> None | Some m \<Rightarrow> if m_tenant_id m = tenant then Some m else None)"

definition set_mission :: "mission result \<Rightarrow> 'q world \<Rightarrow> unit result \<times> 'q world" where
  "set_mission r w = (case r of Inl e \<Rightarrow> (Inl e, w) | Inr m \<Rightarrow> (Inr (), map_db (save_mission m) w))"

definition record_reviewed_queue_admission :: "string \<Rightarrow> execution_task \<Rightarrow> 'q runtime \<Rightarrow> unit outcome \<times> 'q runtime" where
  "record_reviewed_queue_admission tenant x s =
     (case t_mission_id x of
        None \<Rightarrow> (Inr (), s)
      | Some mid \<Rightarrow>
          (case lock_mission_for_tenant mid tenant (w_db (fst s)) of
             None \<Rightarrow> (value_error ''reviewed task mission is not owned by tenant'', s)
           | Some m \<Rightarrow> on_world (set_mission (reviewed_mission (t_id x) (w_clock (fst s)) m)) s))"

definition opt_object :: "dict option \<Rightarrow> json" where
  "opt_object d = (case d of None \<Rightarrow> JNull | Some kvs \<Rightarrow> JObj kvs)"

definition approve_review_and_queue ::
  "coordinator_host \<Rightarrow> string \<Rightarrow> uuid \<Rightarrow> string \<Rightarrow> time option \<Rightarrow> 'q runtime \<Rightarrow> coordination_result outcome \<times> 'q runtime" where
  "approve_review_and_queue K tenant k actor expires s =
     then_do (require_task tenant k s) (\<lambda>x s.
       if t_status x \<noteq> TPendingReview
       then (value_error (''expected status '' @ quoted ''pending_review'' @ '', got '' @ quoted (task_value (t_status x))), s)
       else then_do (approval_metadata K tenant x actor expires s) (\<lambda>(md, g1, g2) s1.
            then_do (set_task (Inr (x\<lparr>t_metadata := md\<rparr>)) s1) (\<lambda>_ s2.
            then_do (queue_task K tenant k s2) (\<lambda>r s3.
              if \<not> cn_ok r
              then (value_error (case cn_reason r of None \<Rightarrow> ''reviewed task failed runtime admission''
                     | Some why \<Rightarrow> if why = [] then ''reviewed task failed runtime admission'' else why), s3)
              else then_do (record_reviewed_queue_admission tenant x s3) (\<lambda>_ s4.
                let payload = [(''task_id'', JStr (t_id x)), (''previous_status'', JStr (task_value (t_status x))),
                      (''approval_grant'', opt_object g1), (''ability_approval_grant'', opt_object g2)]
                in (Inr r, change (audit tenant (t_mission_id x) ''compliance'' ''task_review_approved'' actor
                     (''Task '' @ t_id x @ '' approved by human review and queued for execution.'') payload)
                   (change (govern tenant (t_mission_id x) ''human_review_approved'' actor ''approved'' payload) s4)))))))"

subsection \<open>Dead letters and retries\<close>

text \<open>A refusal of the queue puts the state of the task back.\<close>

definition mark_dead_letter ::
  "'q queue_adapter \<Rightarrow> string \<Rightarrow> uuid \<Rightarrow> string \<Rightarrow> 'q runtime \<Rightarrow> coordination_result outcome \<times> 'q runtime" where
  "mark_dead_letter Q tenant k reason s =
     then_do (require_task tenant k s) (\<lambda>x s.
     then_do (set_task (transition_task x TDeadLettered) s) (\<lambda>y s1.
       case on_queue (\<lambda>q. move_to_dead_letter Q q (w_clock (fst s1)) tenant (t_id x) reason) (fst s1) of (res, w2) \<Rightarrow>
         if \<not> r_ok res
         then (value_error (reason_or res ''move to dead letter failed''), map_db (save_task x) w2, snd s1)
         else (Inr (admitted y), change (govern tenant (t_mission_id x) ''dead_letter'' ''execution_coordinator'' reason
                 [(''task_id'', JStr (t_id x))]) (w2, snd s1))))"

text \<open>Histories are projections of at most twenty entries.\<close>

definition push_history :: "string \<Rightarrow> dict \<Rightarrow> dict \<Rightarrow> dict" where
  "push_history k entry md =
     (let old = (case list_of (map_of md k) of None \<Rightarrow> [] | Some xs \<Rightarrow> xs); new = old @ [JObj entry]
      in AList.update k (JArr (drop (length new - 20) new)) md)"

definition retry_metadata :: "time \<Rightarrow> task_state \<Rightarrow> dict \<Rightarrow> dict" where
  "retry_metadata now previous md =
     (let md1 = AList.delete ''failure'' md
      in case dict_of (map_of md ''failure'') of
           None \<Rightarrow> md1
         | Some failure \<Rightarrow> push_history ''retry_history''
             [(''failure'', JObj failure), (''previous_status'', JStr (task_value previous)), (''retried_at'', JStamp now)] md1)"

definition retryable_task :: "time \<Rightarrow> execution_task \<Rightarrow> execution_task" where
  "retryable_task now x = x\<lparr>t_metadata := retry_metadata now (t_status x) (t_metadata x)\<rparr>"

definition reopened_metadata :: "time \<Rightarrow> uuid \<Rightarrow> dict \<Rightarrow> dict" where
  "reopened_metadata now k md =
     (let md1 = AList.delete ''acceptance'' md;
          md2 = (case dict_of (map_of md ''acceptance'') of
              None \<Rightarrow> md1
            | Some acceptance \<Rightarrow> push_history ''acceptance_history''
                [(''acceptance'', JObj acceptance), (''superseded_by'', JStr ''governed_task_retry''), (''task_id'', JStr k),
                 (''superseded_at'', JStamp now)] md1)
      in AList.update ''runtime_recovery''
           (JObj [(''schema_version'', JInt 1), (''reason'', JStr ''governed_task_retry''), (''retry_task_id'', JStr k),
              (''previous_mission_status'', JStr (mission_value MFailed)), (''reopened_at'', JStamp now)]) md2)"

definition reopen_failed_mission_for_retry :: "string \<Rightarrow> execution_task \<Rightarrow> 'q runtime \<Rightarrow> unit outcome \<times> 'q runtime" where
  "reopen_failed_mission_for_retry tenant x s =
     (case t_mission_id x of
        None \<Rightarrow> (Inr (), s)
      | Some mid \<Rightarrow>
          (case lock_mission_for_tenant mid tenant (w_db (fst s)) of
             None \<Rightarrow> (value_error ''task mission is not owned by tenant'', s)
           | Some m \<Rightarrow>
               if m_status m \<noteq> MFailed then (Inr (), s)
               else then_do (on_world (set_mission (transition_mission
                        (m\<lparr>m_metadata := reopened_metadata (w_clock (fst s)) (t_id x) (m_metadata m)\<rparr>) MRunning)) s) (\<lambda>_ s1.
                    (Inr (), change (audit tenant (Some mid) ''mission'' ''mission_reopened_for_retry'' ''execution_coordinator''
                       (''Mission '' @ mid @ '' reopened after governed retry of task '' @ t_id x @ ''.'')
                       [(''task_id'', JStr (t_id x)), (''previous_status'', JStr (mission_value MFailed))]) s1))))"

definition readmit ::
  "string \<Rightarrow> execution_task \<Rightarrow> 'q runtime \<Rightarrow> coordination_result outcome \<times> 'q runtime" where
  "readmit tenant x s =
     then_do (set_task (Inr (retryable_task (w_clock (fst s)) x)) s) (\<lambda>y s1.
     then_do (reopen_failed_mission_for_retry tenant y s1) (\<lambda>_ s2.
     then_do (set_task (transition_task y TQueued) s2) (\<lambda>z s3.
     then_do (on_world (retry_dispatch z) s3) (\<lambda>_ s4.
       (Inr (admitted z), change (audit tenant (t_mission_id z) ''operations'' ''retry_dead_letter'' ''execution_coordinator''
          (''Re-admitted retry task '' @ t_id z @ '' through runtime gates.'')
          [(''task_id'', JStr (t_id z)), (''previous_status'', JStr (task_value (t_status x)))]) s4)))))"

definition retry_effect_reason :: string where
  "retry_effect_reason = ''side-effecting retry requires a current independent human approval''"
definition retry_ability_reason :: string where
  "retry_ability_reason = ''ability retry requires a current independent human approval''"

text \<open>A retry that needs a review holds the task and leaves its dispatch as it is.\<close>

definition hold_retry :: "string \<Rightarrow> execution_task \<Rightarrow> string \<Rightarrow> 'q runtime \<Rightarrow> coordination_result outcome \<times> 'q runtime" where
  "hold_retry tenant x reason s = then_do (place_in_review tenant x reason s) (\<lambda>y s1. (Inr (not_admitted y reason), s1))"

definition retry_task :: "coordinator_host \<Rightarrow> string \<Rightarrow> uuid \<Rightarrow> 'q runtime \<Rightarrow> coordination_result outcome \<times> 'q runtime" where
  "retry_task K tenant k s =
     then_do (require_task tenant k s) (\<lambda>x s.
       if t_status x \<notin> {TDeadLettered, TFailed} then (value_error ''task is not dead-lettered or failed'', s)
       else let governor = governor_evaluate (ch_health K); now = w_clock (fst s)
            in if \<not> gv_execution_allowed governor
               then (Inr (not_admitted x (gv_reason governor)), emit_denial tenant x (gv_reason governor) s)
               else then_do (raised (requires_effect_review K x now), s) (\<lambda>effect s.
                 if effect then hold_retry tenant x retry_effect_reason s
                 else if requires_ability_review K x now then hold_retry tenant x retry_ability_reason s
                 else if \<not> pd_allowed (evaluate_task x) then hold_retry tenant x (pd_reason (evaluate_task x)) s
                 else readmit tenant x s))"

subsection \<open>Revoking an approval\<close>

definition versioned :: "int \<Rightarrow> json option \<Rightarrow> bool" where
  "versioned n raw \<longleftrightarrow> (case dict_of raw of None \<Rightarrow> False | Some g \<Rightarrow> equals_int (map_of g ''schema_version'') n)"

definition revoked_at_set :: "json option \<Rightarrow> bool" where
  "revoked_at_set raw \<longleftrightarrow>
     (case dict_of raw of None \<Rightarrow> False | Some g \<Rightarrow> map_of g ''revoked_at'' \<notin> {None, Some JNull})"

definition revoke_grant :: "time \<Rightarrow> string \<Rightarrow> string \<Rightarrow> string \<Rightarrow> dict \<Rightarrow> dict" where
  "revoke_grant now actor reason k constraints =
     (case dict_of (map_of constraints k) of
        None \<Rightarrow> constraints
      | Some g \<Rightarrow> AList.update k (JObj (set_fields g
          [(''revoked_at'', JStamp now), (''revoked_by'', JStr actor), (''revocation_reason'', JStr reason)])) constraints)"

definition revoked_grant_ids :: "dict \<Rightarrow> dict" where
  "revoked_grant_ids constraints =
     List.map_filter (\<lambda>k. map_option (\<lambda>g. (k, value_at g ''grant_id'')) (dict_of (map_of constraints k)))
       [''side_effect_authorization'', ''ability_authorization'']"

definition revoked_constraints :: "time \<Rightarrow> string \<Rightarrow> string \<Rightarrow> dict \<Rightarrow> dict" where
  "revoked_constraints now actor reason constraints =
     revoke_grant now actor reason ''ability_authorization''
       (revoke_grant now actor reason ''side_effect_authorization'' constraints)"

definition revoke_side_effect_approval ::
  "string \<Rightarrow> uuid \<Rightarrow> string \<Rightarrow> string \<Rightarrow> 'q runtime \<Rightarrow> coordination_result outcome \<times> 'q runtime" where
  "revoke_side_effect_approval tenant k actor reason s =
     then_do (require_task tenant k s) (\<lambda>x s.
       if t_status x \<notin> {TPendingReview, TQueued}
       then (value_error (''approval cannot be revoked from task status '' @ quoted (task_value (t_status x))), s)
       else then_do (raised (object_or_empty (map_of (t_metadata x) ''execution_constraints'')), s) (\<lambda>constraints s.
         let effect = map_of constraints ''side_effect_authorization''; ability = map_of constraints ''ability_authorization'';
             now = w_clock (fst s)
         in if \<not> versioned 2 effect \<and> \<not> versioned 1 ability
            then (value_error ''task has no revocable execution approval'', s)
            else if revoked_at_set effect \<or> revoked_at_set ability
            then (value_error ''execution approval is already revoked'', s)
            else then_do (set_task (Inr (x\<lparr>t_metadata := AList.update ''execution_constraints''
                     (JObj (revoked_constraints now actor reason constraints)) (t_metadata x)\<rparr>)) s) (\<lambda>y s1.
                 let payload = [(''task_id'', JStr (t_id x)), (''grant_ids'', JObj (revoked_grant_ids constraints)),
                       (''reason'', JStr reason), (''revoked_at'', JStamp now)]
                 in (Inr \<lparr>cn_ok = True, cn_task_id = t_id y, cn_state = t_status y, cn_reason = Some ''approval_revoked''\<rparr>,
                     change (audit tenant (t_mission_id x) ''compliance'' ''task_review_revoked'' actor
                       (''Execution approval for task '' @ t_id x @ '' was revoked before execution.'') payload)
                     (change (govern tenant (t_mission_id x) ''human_review_revoked'' actor ''revoked'' payload) s1)))))"

subsection \<open>A mission's tasks\<close>

record queue_summary =
  qs_queued :: "uuid list"
  qs_pending_review :: "uuid list"
  qs_denied :: "coordination_result list"

definition summarize :: "coordination_result \<Rightarrow> queue_summary \<Rightarrow> queue_summary" where
  "summarize r acc =
     (if cn_ok r then acc\<lparr>qs_queued := qs_queued acc @ [cn_task_id r]\<rparr>
      else if cn_state r = TPendingReview then acc\<lparr>qs_pending_review := qs_pending_review acc @ [cn_task_id r]\<rparr>
      else acc\<lparr>qs_denied := qs_denied acc @ [r]\<rparr>)"

fun queue_planned :: "coordinator_host \<Rightarrow> string \<Rightarrow> uuid list \<Rightarrow> queue_summary \<Rightarrow> 'q runtime \<Rightarrow> queue_summary outcome \<times> 'q runtime" where
  "queue_planned K tenant [] acc s = (Inr acc, s)"
| "queue_planned K tenant (k # ks) acc s =
     (case find_task k (w_db (fst s)) of
        None \<Rightarrow> queue_planned K tenant ks acc s
      | Some x \<Rightarrow>
          if t_tenant_id x \<noteq> tenant \<or> t_status x \<noteq> TPlanned then queue_planned K tenant ks acc s
          else then_do (queue_task K tenant k s) (\<lambda>r s1. queue_planned K tenant ks (summarize r acc) s1))"

definition queue_all_planned_tasks :: "coordinator_host \<Rightarrow> string \<Rightarrow> uuid \<Rightarrow> 'q runtime \<Rightarrow> queue_summary outcome \<times> 'q runtime" where
  "queue_all_planned_tasks K tenant mid s =
     queue_planned K tenant (map t_id (list_for_mission mid (w_db (fst s))))
       \<lparr>qs_queued = [], qs_pending_review = [], qs_denied = []\<rparr> s"

subsection \<open>The requests\<close>

text \<open>
  The session of a request (\<open>db/session.py\<close>): its commit makes both parts durable and publishes what was
  admitted, an exception rolls both back. \<open>request_commit\<close> is the former.
\<close>

definition request_commit :: "'q queue_adapter \<Rightarrow> stripe \<Rightarrow> (string \<times> string) list \<Rightarrow> 'q runtime \<Rightarrow> 'q runtime" where
  "request_commit Q S plan_map s = (commit Q (fst s), commit_session S plan_map (snd s))"

definition request_rollback :: "'q runtime \<Rightarrow> 'q runtime" where
  "request_rollback s = (rollback (fst s), rollback_session (snd s))"

definition session_scope ::
  "'q queue_adapter \<Rightarrow> stripe \<Rightarrow> (string \<times> string) list \<Rightarrow> 'a outcome \<times> 'q runtime \<Rightarrow> 'a outcome \<times> 'q runtime" where
  "session_scope Q S plan_map r =
     (case r of (Inl e, s) \<Rightarrow> (Inl e, request_rollback s) | (Inr x, s) \<Rightarrow> (Inr x, request_commit Q S plan_map s))"

text \<open>\<open>POST /tasks/{id}/queue\<close>: what is not admitted is answered with an HTTP error, an exception.\<close>

definition queue_route ::
  "coordinator_host \<Rightarrow> 'q queue_adapter \<Rightarrow> stripe \<Rightarrow> (string \<times> string) list \<Rightarrow> string \<Rightarrow> uuid \<Rightarrow> 'q runtime \<Rightarrow>
     coordination_result outcome \<times> 'q runtime" where
  "queue_route K Q S plan_map tenant k s =
     session_scope Q S plan_map
       (then_do (require_task tenant k s) (\<lambda>_ s.
        then_do (queue_task K tenant k s) (\<lambda>r s1.
          if cn_ok r then (Inr r, s1)
          else (value_error (case cn_reason r of None \<Rightarrow> ''task queue rejected'' | Some why \<Rightarrow>
                  if why = [] then ''task queue rejected'' else why), s1))))"

definition approve_route ::
  "coordinator_host \<Rightarrow> 'q queue_adapter \<Rightarrow> stripe \<Rightarrow> (string \<times> string) list \<Rightarrow> string \<Rightarrow> uuid \<Rightarrow> string \<Rightarrow> time option \<Rightarrow>
     'q runtime \<Rightarrow> coordination_result outcome \<times> 'q runtime" where
  "approve_route K Q S plan_map tenant k actor expires s =
     session_scope Q S plan_map
       (then_do (require_task tenant k s) (\<lambda>_ s.
        if actor = [] then (value_error ''authenticated reviewer required'', s)
        else approve_review_and_queue K tenant k actor expires s))"

definition revoke_route ::
  "'q queue_adapter \<Rightarrow> stripe \<Rightarrow> (string \<times> string) list \<Rightarrow> string \<Rightarrow> uuid \<Rightarrow> string \<Rightarrow> string \<Rightarrow> 'q runtime \<Rightarrow>
     coordination_result outcome \<times> 'q runtime" where
  "revoke_route Q S plan_map tenant k actor reason s =
     session_scope Q S plan_map
       (then_do (require_task tenant k s) (\<lambda>_ s.
        if actor = [] then (value_error ''authenticated reviewer required'', s)
        else revoke_side_effect_approval tenant k actor reason s))"

definition retry_route ::
  "coordinator_host \<Rightarrow> 'q queue_adapter \<Rightarrow> stripe \<Rightarrow> (string \<times> string) list \<Rightarrow> string \<Rightarrow> uuid \<Rightarrow> 'q runtime \<Rightarrow>
     coordination_result outcome \<times> 'q runtime" where
  "retry_route K Q S plan_map tenant k s = session_scope Q S plan_map (retry_task K tenant k s)"

end
