(* ===== verification/InputBinding.thy ===== *)
theory InputBinding
  imports Coordinator
begin

section \<open>Binding the outputs of a mission to the input of a task\<close>

text \<open>
  The rest of \<open>backend/services/tools/mission_input_binding.py\<close>: which outputs of the completed tasks of a
  mission are put where in the input of a tool invocation, how lists of prospects are merged, what is derived from
  the first prospect, and when the binding fails closed. The index of the tasks and the keys they wait for are in
  \<open>TaskGraph\<close>.

  \<open>str()\<close> of values other than texts, integers, truth values and \<open>None\<close>, and the dash in a topic, are arguments. A value that is bound is a
  copy: the code shares it with the row it came from, which is not written back.
\<close>

record binding_host =
  bh_text :: "json \<Rightarrow> string"
  bh_dash :: char

definition py_text :: "binding_host \<Rightarrow> json \<Rightarrow> string" where
  "py_text H v = (case key_text v of Some s \<Rightarrow> s | None \<Rightarrow> bh_text H v)"

text \<open>\<open>a or b or c\<close>.\<close>

fun py_or :: "json list \<Rightarrow> json" where
  "py_or [] = JNull"
| "py_or [v] = v"
| "py_or (v # w # vs) = (if truthy v then v else py_or (w # vs))"

definition is_false :: "dict \<Rightarrow> string \<Rightarrow> bool" where
  "is_false d k \<longleftrightarrow> map_of d k = Some (JBool False)"

subsection \<open>Paths\<close>

fun split_on :: "char \<Rightarrow> string \<Rightarrow> string list" where
  "split_on c [] = [[]]"
| "split_on c (x # xs) =
     (if x = c then [] # split_on c xs else (case split_on c xs of [] \<Rightarrow> [[x]] | p # ps \<Rightarrow> (x # p) # ps))"

definition path_parts :: "string \<Rightarrow> string list" where
  "path_parts s = filter (\<lambda>p. p \<noteq> []) (split_on (CHR ''.'') s)"

definition ends_with :: "string \<Rightarrow> string \<Rightarrow> bool" where
  "ends_with s p \<longleftrightarrow> starts_with (rev s) (rev p)"

fun walk_path :: "string list \<Rightarrow> json \<Rightarrow> json" where
  "walk_path [] v = v"
| "walk_path (t # ts) v =
     (if v = JNull then JNull
      else if ends_with t ''[*]''
      then (case v of
              JObj d \<Rightarrow> (case map_of d (take (length t - 3) t) of Some (JArr xs) \<Rightarrow> walk_path ts (JArr xs) | _ \<Rightarrow> JNull)
            | _ \<Rightarrow> JNull)
      else (case v of
              JArr xs \<Rightarrow> walk_path ts (JArr (List.map_filter (\<lambda>x. case x of JObj d \<Rightarrow> map_of d t | _ \<Rightarrow> None) xs))
            | JObj d \<Rightarrow> walk_path ts (value_at d t)
            | _ \<Rightarrow> JNull))"

definition json_path_get :: "dict \<Rightarrow> string \<Rightarrow> json" where
  "json_path_get payload path =
     (let raw = strip path
      in if \<not> starts_with raw ''$'' then JNull
         else if raw = ''$'' \<or> raw = ''$.input'' then JObj payload
         else walk_path (path_parts (dropWhile (\<lambda>c. c = CHR ''$'') raw)) (JObj payload))"

definition input_path_keys :: "string \<Rightarrow> string list" where
  "input_path_keys path =
     (let raw = strip path
      in if raw \<in> {''$'', ''$.input'', ''input''} then []
         else if starts_with raw ''$.input.'' then path_parts (drop 8 raw)
         else if starts_with raw ''$.''
         then (case path_parts (drop 2 raw) of k # ks \<Rightarrow> if k = ''input'' then ks else k # ks | [] \<Rightarrow> [])
         else path_parts raw)"

fun get_keys :: "string list \<Rightarrow> json \<Rightarrow> json" where
  "get_keys [] v = v"
| "get_keys (k # ks) v = (case v of JObj d \<Rightarrow> get_keys ks (value_at d k) | _ \<Rightarrow> JNull)"

definition get_input_path :: "dict \<Rightarrow> string \<Rightarrow> json" where
  "get_input_path tool_input path = get_keys (input_path_keys path) (JObj tool_input)"

fun set_keys :: "string list \<Rightarrow> json \<Rightarrow> dict \<Rightarrow> dict" where
  "set_keys [] v d = (case v of JObj e \<Rightarrow> e | _ \<Rightarrow> d)"
| "set_keys [k] v d = AList.update k v d"
| "set_keys (k # l # ks) v d =
     AList.update k (JObj (set_keys (l # ks) v (case map_of d k of Some (JObj e) \<Rightarrow> e | _ \<Rightarrow> []))) d"

definition set_input_path :: "dict \<Rightarrow> string \<Rightarrow> json \<Rightarrow> dict" where
  "set_input_path tool_input path v = set_keys (input_path_keys path) v tool_input"

text \<open>The aggregate of the prospects, rebuilt from its partitions when it is absent.\<close>

definition partition_of :: "dict \<Rightarrow> string \<Rightarrow> json list" where
  "partition_of d k = (case map_of d k of Some (JArr xs) \<Rightarrow> xs | _ \<Rightarrow> [])"

definition binding_value :: "dict \<Rightarrow> string \<Rightarrow> json" where
  "binding_value result path =
     (let v = json_path_get result path
      in if v \<noteq> JNull then v
         else if path = ''$.prospect_candidates''
         then (case partition_of result ''internal_prospect_candidates'' @ partition_of result ''public_prospect_candidates'' of
                 [] \<Rightarrow> JNull | xs \<Rightarrow> JArr xs)
         else JNull)"

subsection \<open>What is bound where\<close>

definition binding_spec :: "string \<Rightarrow> string \<Rightarrow> string \<Rightarrow> dict" where
  "binding_spec dep out inp = [(''from_step'', JStr dep), (''output_path'', JStr out), (''input_path'', JStr inp)]"

definition any_in :: "string list \<Rightarrow> string \<Rightarrow> bool" where
  "any_in ps s \<longleftrightarrow> list_ex (contains_text s) ps"

definition research_actions :: "string list" where
  "research_actions = [''research.observe_contacts'', ''research.verify_public_candidates'']"

definition default_binding :: "string \<Rightarrow> string list \<Rightarrow> string \<Rightarrow> dict list" where
  "default_binding act deps dep =
     (let qualify = act \<in> {''sales.qualify'', ''sales.score_lead''}; has = contains_text dep;
          one = (\<lambda>out inp. [binding_spec dep out inp])
      in (if qualify \<and> has ''observe''
          then [binding_spec dep ''$.verified_prospect_candidates'' ''$.input.prospects'',
                binding_spec dep ''$.observed_contacts'' ''$.input.context.observed_contacts''] else []) @
         (if qualify \<and> has ''record-search'' then one ''$.crm_records'' ''$.input.prospects'' else []) @
         (if act = ''sales.create_followup_task'' \<and> has ''record-search''
          then one ''$.crm_records'' ''$.input.context.crm_records'' else []) @
         (if act \<in> set research_actions \<and> has ''web-research'' then one ''$.prospect_candidates'' ''$.input.prospects''
          else if act \<in> set research_actions \<and> has ''record-search'' then one ''$.crm_records'' ''$.input.prospects''
          else if qualify \<and> has ''web-research'' \<and> \<not> list_ex (\<lambda>d. contains_text d ''observe'') deps
          then one ''$.prospect_candidates'' ''$.input.prospects''
          else if act = ''decision.recommend_next_action'' \<and> has ''retrieve''
          then one ''$.business_profile_facts'' ''$.input.context.business_profile_facts''
          else if act = ''decision.recommend_next_action'' \<and> any_in [''observe'', ''observe-contacts'', ''observe_sources''] dep
          then one ''$.observed_contacts'' ''$.input.context.observed_contacts''
          else if act = ''gtm.lead_enrich''
          then (if any_in [''sales-qualify'', ''qualify''] dep then one ''$.qualified_prospects'' ''$.input.prospects''
                else if has ''web-research'' \<and> \<not> list_ex (any_in [''qualif'', ''enrich'']) deps
                then one ''$.prospect_candidates'' ''$.input.prospects'' else [])
          else if act \<in> {''sales.research'', ''crm.research''} \<and> any_in [''discover'', ''research'', ''web''] dep
          then one ''$.prospect_candidates'' ''$.input.context.prospect_candidates''
          else if act = ''research.synthesize_report'' \<and> any_in [''discover'', ''research'', ''web''] dep
          then one ''$.prospect_candidates'' ''$.input.prospects''
          else if act = ''gtm.social_draft'' \<and> any_in [''synthesize'', ''report'', ''research'', ''web''] dep
          then one ''$.research_report'' ''$.input.context.upstream.research_report''
          else if act = ''record.write''
          then (if has ''observe'' then one ''$.observed_contacts'' ''$.input.context.observed_contacts''
                else if has ''qualif'' then one ''$.qualified_prospects'' ''$.input.context.qualified_prospects'' else [])
          else if act \<in> {''vertical.finance.prepare_reconciliation'', ''vertical.finance.prepare_invoice_drafts''} \<and>
            any_in [''accounting-read-revenue'', ''read_revenue'', ''revenue''] dep
          then one ''$.revenue_records'' ''$.input.revenue_records''
          else if act = ''gtm.crm_upsert''
          then (if has ''qualif'' then one ''$.qualified_prospects'' ''$.input.context.qualified_prospects''
                else if any_in [''discover'', ''research'', ''web''] dep
                then one ''$.prospect_candidates'' ''$.input.context.prospect_candidates'' else [])
          else if act \<in> {''gtm.email_draft'', ''gtm.email_send'', ''sales.draft_followup''}
          then (if act = ''gtm.email_send'' \<and> any_in [''prepare'', ''draft''] dep
                then one ''$.introduction_drafts'' ''$.input.context.introduction_drafts''
                else if any_in [''lead_enrich'', ''enrich''] dep then one ''$.enriched_prospects'' ''$.input.prospects''
                else if has ''qualify'' then one ''$.qualified_prospects'' ''$.input.prospects''
                else if has ''web-research'' then one ''$.prospect_candidates'' ''$.input.prospects'' else [])
          else []))"

definition default_bindings_for_action :: "string \<Rightarrow> string list \<Rightarrow> dict list" where
  "default_bindings_for_action act deps = concat (map (default_binding act deps) deps)"

definition action_name_of :: "dict \<Rightarrow> string option" where
  "action_name_of metadata =
     (case dict_of (map_of metadata ''tool_invocation'') of
        None \<Rightarrow> None
      | Some i \<Rightarrow> (case map_of i ''action'' of Some (JStr s) \<Rightarrow> Some s | _ \<Rightarrow> None))"

definition binding_specs_from_metadata :: "binding_host \<Rightarrow> dict \<Rightarrow> dict list" where
  "binding_specs_from_metadata H metadata =
     (case map_of metadata ''input_bindings'' of
        Some (JArr (x # xs)) \<Rightarrow> List.map_filter (\<lambda>v. dict_of (Some v)) (x # xs)
      | _ \<Rightarrow>
          (case (action_name_of metadata, map_of metadata ''dependency_keys'') of
             (Some act, Some (JArr deps)) \<Rightarrow>
               if act = [] then [] else default_bindings_for_action act (map (py_text H) (filter truthy deps))
           | _ \<Rightarrow> []))"

subsection \<open>Prospects\<close>

definition prospect_merge_key :: "binding_host \<Rightarrow> dict \<Rightarrow> string" where
  "prospect_merge_key H p =
     lower_text (strip (py_text H (py_or (map (value_at p) [''prospect_id'', ''id'', ''domain'', ''company'', ''name''] @ [JStr []]))))"

definition prospect_richness :: "dict \<Rightarrow> nat" where
  "prospect_richness p =
     (if get_truthy p ''contacts'' then 4 else 0) + (if get_truthy p ''email'' then 3 else 0) +
     (if get_truthy p ''domain'' then 2 else 0) + (if get_truthy p ''signals'' \<or> get_truthy p ''reasons'' then 1 else 0) +
     (if value_at p ''score'' \<noteq> JNull then 1 else 0)"

definition fill_missing :: "dict \<Rightarrow> dict \<Rightarrow> dict" where
  "fill_missing current p =
     fold (\<lambda>(k, v) d. if value_at d k \<in> {JNull, JStr [], JArr [], JObj []} then AList.update k v d else d) p current"

definition merge_prospect :: "dict \<Rightarrow> dict \<Rightarrow> dict" where
  "merge_prospect current p =
     (if prospect_richness p \<ge> prospect_richness current
      then let combined = set_fields current p
           in if \<not> get_truthy combined ''contacts'' \<and> get_truthy current ''contacts''
              then AList.update ''contacts'' (value_at current ''contacts'') combined else combined
      else fill_missing current p)"

text \<open>The merged prospects by key, in the order of their first occurrence; a prospect without a key gets one from its position.\<close>

definition merge_one :: "binding_host \<Rightarrow> dict \<Rightarrow> (string \<times> dict) list \<Rightarrow> (string \<times> dict) list" where
  "merge_one H p merged =
     (let key = prospect_merge_key H p; k = (if key = [] then ''anon:'' @ nat_digits (length merged) else key)
      in case map_of merged k of
           None \<Rightarrow> merged @ [(k, p)]
         | Some current \<Rightarrow> AList.update k (merge_prospect current p) merged)"

definition objects_of :: "json list \<Rightarrow> dict list" where
  "objects_of vs = List.map_filter (\<lambda>v. dict_of (Some v)) vs"

definition merge_prospect_lists :: "binding_host \<Rightarrow> json list \<Rightarrow> json list \<Rightarrow> dict list" where
  "merge_prospect_lists H left right = map snd (fold (merge_one H) (objects_of left @ objects_of right) [])"

subsection \<open>Provenance\<close>

definition context_of :: "dict \<Rightarrow> dict" where
  "context_of bound = (case dict_of (map_of bound ''context'') of None \<Rightarrow> [] | Some c \<Rightarrow> c)"

definition copy_field :: "bool \<Rightarrow> string \<Rightarrow> json \<Rightarrow> dict \<Rightarrow> dict" where
  "copy_field given_it k v d = (if given_it then AList.update k v d else d)"

definition propagate_research_provenance :: "string option \<Rightarrow> dict \<Rightarrow> dict \<Rightarrow> dict" where
  "propagate_research_provenance act upstream bound =
     (if (case act of None \<Rightarrow> True | Some a \<Rightarrow> a \<notin> set research_actions) then bound
      else let fixture = map_of upstream ''local_fixture_only'' \<noteq> None;
               only = JBool (get_truthy upstream ''local_fixture_only'');
               context = copy_field fixture ''local_fixture_only'' only
                 (copy_field (get_truthy upstream ''source_partitions'') ''source_partitions'' (value_at upstream ''source_partitions'')
                   (copy_field (get_truthy upstream ''source'') ''source'' (value_at upstream ''source'') (context_of bound)))
           in AList.update ''context'' (JObj context) (copy_field fixture ''local_fixture_only'' only bound))"

definition valid_empty_research_result :: "execution_task \<Rightarrow> dict \<Rightarrow> dict option" where
  "valid_empty_research_result upstream result =
     (case dict_of (map_of result ''valid_empty_result'') of
        None \<Rightarrow> None
      | Some marker \<Rightarrow>
          if map_of marker ''classification'' \<noteq> Some (JStr ''valid_empty'') then None
          else (case (map_of marker ''reason'', action_name_of (t_metadata upstream)) of
                  (Some (JStr reason), Some act) \<Rightarrow>
                    if strip reason = [] \<or> act \<notin> set (''web.research'' # research_actions) then None
                    else Some [(''classification'', JStr ''valid_empty''), (''reason'', JStr (take 500 reason)),
                      (''source_task_id'', JStr (t_id upstream)), (''source_action'', JStr act)]
                | _ \<Rightarrow> None))"

subsection \<open>Recipients\<close>

definition at_domain :: "string \<Rightarrow> string" where
  "at_domain email = rev (takeWhile (\<lambda>c. c \<noteq> CHR ''@'') (rev email))"

definition is_deliverable_recipient :: "json \<Rightarrow> bool" where
  "is_deliverable_recipient v =
     (case v of
        JStr s \<Rightarrow>
          let email = lower_text (strip s); domain = at_domain email
          in CHR ''@'' \<in> set email \<and> length domain + 1 < length email \<and> domain \<noteq> [] \<and>
             domain \<notin> {''invalid.local'', ''example'', ''example.com'', ''test'', ''local'', ''localhost''} \<and>
             \<not> list_ex (ends_with domain) [''.invalid.local'', ''.example'', ''.test'', ''.local'', ''.localhost'']
      | _ \<Rightarrow> False)"

definition simulated_contact :: "dict \<Rightarrow> bool" where
  "simulated_contact c \<longleftrightarrow> get_truthy c ''simulated'' \<or> is_false c ''real''"

definition email_send_has_world_state :: "dict \<Rightarrow> bool" where
  "email_send_has_world_state bound \<longleftrightarrow>
     is_deliverable_recipient (value_at bound ''to'') \<or>
     (case map_of (context_of bound) ''introduction_drafts'' of
        Some (JArr drafts) \<Rightarrow>
          list_ex (\<lambda>d. \<not> is_false d ''recipient_bound'' \<and>
            is_deliverable_recipient (py_or [value_at d ''recipient'', value_at d ''to''])) (objects_of drafts)
      | _ \<Rightarrow> False)"

text \<open>\<open>str(d.get(k) or "")\<close>.\<close>

definition text_or_empty :: "binding_host \<Rightarrow> dict \<Rightarrow> string \<Rightarrow> string" where
  "text_or_empty H d k = py_text H (py_or [value_at d k, JStr []])"

text \<open>The first draft, and then the first real contact of the first enriched prospect.\<close>

definition bind_recipient :: "string \<Rightarrow> string \<Rightarrow> dict \<times> dict \<Rightarrow> dict \<times> dict" where
  "bind_recipient recipient source bc =
     (case bc of (bound, context) \<Rightarrow>
        (AList.update ''to'' (JStr recipient) bound,
         set_fields context [(''recipient_bound'', JBool True), (''recipient_source'', JStr source)]))"

definition bind_draft :: "binding_host \<Rightarrow> dict \<Rightarrow> dict \<times> dict \<Rightarrow> dict \<times> dict" where
  "bind_draft H draft bc =
     (let recipient = strip (py_text H (py_or [value_at draft ''recipient'', value_at draft ''to'', JStr []]));
          to_field = value_at (fst bc) ''to'';
          bc1 = (if is_deliverable_recipient (JStr recipient) \<and> \<not> is_false draft ''recipient_bound'' \<and>
                    (\<not> truthy to_field \<or> ends_with (text_or_empty H (fst bc) ''to'') ''@invalid.local'' \<or> \<not> is_deliverable_recipient to_field)
                 then bind_recipient recipient ''introduction_drafts'' bc else bc);
          b1 = fst bc1;
          b2 = copy_field (get_truthy draft ''subject'' \<and>
                 (strip (text_or_empty H b1 ''subject'') = [] \<or> starts_with (text_or_empty H b1 ''subject'') ''Introduction''))
                 ''subject'' (JStr (take 240 (py_text H (value_at draft ''subject'')))) b1;
          b3 = copy_field (get_truthy draft ''body'' \<and>
                 (contains_text (text_or_empty H b2 ''body'') ''requires bound recipient'' \<or> strip (text_or_empty H b2 ''body'') = []))
                 ''body'' (JStr (take 5000 (py_text H (value_at draft ''body'')))) b2;
          b4 = copy_field (get_truthy draft ''artifact_id'' \<and> \<not> get_truthy b3 ''artifact_id'')
                 ''artifact_id'' (JStr (take 160 (py_text H (value_at draft ''artifact_id'')))) b3
      in (b4, AList.update ''bound_from_introduction_drafts'' (JBool True) (snd bc1)))"

definition real_contacts :: "dict \<Rightarrow> dict list" where
  "real_contacts p =
     filter (\<lambda>c. get_truthy c ''email'' \<and> \<not> simulated_contact c)
       (case map_of p ''contacts'' of Some (JArr cs) \<Rightarrow> objects_of cs | _ \<Rightarrow> [])"

definition bind_contact :: "binding_host \<Rightarrow> dict \<Rightarrow> dict \<times> dict \<Rightarrow> dict \<times> dict" where
  "bind_contact H prospect bc =
     (case real_contacts prospect of
        [] \<Rightarrow> bc
      | c # _ \<Rightarrow>
          let email = strip (py_text H (value_at c ''email'')); to_field = value_at (fst bc) ''to''
          in if is_deliverable_recipient (JStr email) \<and> (\<not> truthy to_field \<or> \<not> is_deliverable_recipient to_field)
             then bind_recipient email ''enriched_prospects'' bc else bc)"

definition first_object :: "dict \<Rightarrow> string \<Rightarrow> dict option" where
  "first_object d k = (case map_of d k of Some (JArr vs) \<Rightarrow> (case objects_of vs of [] \<Rightarrow> None | x # _ \<Rightarrow> Some x) | _ \<Rightarrow> None)"

definition specialize_email_send_input :: "binding_host \<Rightarrow> dict \<Rightarrow> dict" where
  "specialize_email_send_input H bound =
     (let context = context_of bound; bc = (bound, context);
          bc1 = (case first_object context ''introduction_drafts'' of None \<Rightarrow> bc | Some d \<Rightarrow> bind_draft H d bc);
          bc2 = (case first_object context ''enriched_prospects'' of None \<Rightarrow> bc1 | Some p \<Rightarrow> bind_contact H p bc1)
      in AList.update ''context'' (JObj (snd bc2)) (fst bc2))"

subsection \<open>Drafts and decisions\<close>

definition primary_prospect :: "dict \<Rightarrow> dict option" where
  "primary_prospect bound = (case map_of bound ''prospects'' of Some (JArr (JObj p # _)) \<Rightarrow> Some p | _ \<Rightarrow> None)"

definition prospect_email :: "binding_host \<Rightarrow> dict \<Rightarrow> string" where
  "prospect_email H p =
     (let email = (case real_contacts p of [] \<Rightarrow> [] | c # _ \<Rightarrow> strip (py_text H (value_at c ''email'')))
      in if email = [] \<and> get_truthy p ''email'' \<and> \<not> is_false p ''real'' then strip (py_text H (value_at p ''email'')) else email)"

definition replace_known :: "bool \<Rightarrow> string \<Rightarrow> json \<Rightarrow> dict \<Rightarrow> dict" where
  "replace_known wanted k v d = (if wanted \<and> map_of d k \<noteq> None then AList.update k v d else d)"

definition unbound_address :: "binding_host \<Rightarrow> dict \<Rightarrow> string \<Rightarrow> bool" where
  "unbound_address H d k \<longleftrightarrow> \<not> get_truthy d k \<or> ends_with (text_or_empty H d k) ''@invalid.local''"

definition outreach_context :: "binding_host \<Rightarrow> dict \<Rightarrow> string \<Rightarrow> string \<Rightarrow> dict \<Rightarrow> dict" where
  "outreach_context H p company domain context =
     set_fields
       (copy_field (value_at p ''location'' \<noteq> JNull) ''location'' (value_at p ''location'')
         (copy_field (value_at p ''industry'' \<noteq> JNull) ''industry'' (value_at p ''industry'')
           (copy_field (domain \<noteq> []) ''prospect_domain'' (JStr domain)
             (copy_field (company \<noteq> []) ''prospect_company'' (JStr company) context))))
       [(''prospect_id'', py_or [value_at p ''prospect_id'', value_at p ''id'']),
        (''upstream_signals'', py_or [value_at p ''signals'', value_at p ''reasons'', JArr []]),
        (''bound_from_world_state'', JBool True)]"

definition outreach_lead :: "dict \<Rightarrow> string \<Rightarrow> string \<Rightarrow> dict \<Rightarrow> dict" where
  "outreach_lead p company email lead =
     copy_field (get_truthy p ''location'') ''location'' (value_at p ''location'')
       (copy_field (get_truthy p ''industry'') ''industry'' (value_at p ''industry'')
         (copy_field (get_truthy p ''intent'') ''intent'' (value_at p ''intent'')
           (copy_field (get_truthy p ''role'' \<or> get_truthy p ''title'') ''role'' (py_or [value_at p ''role'', value_at p ''title''])
             (copy_field (email \<noteq> []) ''email'' (JStr email)
               (copy_field (company \<noteq> []) ''company'' (JStr company) lead)))))"

definition specialize_outreach_input :: "binding_host \<Rightarrow> dict \<Rightarrow> dict" where
  "specialize_outreach_input H bound =
     (case primary_prospect bound of
        None \<Rightarrow> bound
      | Some p \<Rightarrow>
          let company = strip (py_text H (py_or [value_at p ''company'', value_at p ''name'', JStr []]));
              domain = strip (text_or_empty H p ''domain''); email = prospect_email H p;
              context = outreach_context H p company domain (context_of bound);
              b1 = replace_known (domain \<noteq> []) ''domain'' (JStr domain) (replace_known (company \<noteq> []) ''company'' (JStr company) bound);
              b2 = replace_known (company \<noteq> [] \<and>
                     (strip (text_or_empty H b1 ''topic'') = [] \<or> starts_with (text_or_empty H b1 ''topic'') ''Introduction''))
                     ''topic'' (JStr (take 240 (''Introduction '' @ [bh_dash H] @ '' '' @ company))) b1;
              known = email \<noteq> [] \<and> \<not> ends_with email ''@invalid.local'';
              b3 = replace_known (known \<and> unbound_address H b2 ''recipient'') ''recipient'' (JStr email) b2;
              b4 = replace_known (known \<and> unbound_address H b3 ''to'') ''to'' (JStr email) b3;
              context1 = (if known then set_fields context [(''recipient_bound'', JBool True), (''recipient_source'', JStr ''enriched_prospects'')]
                          else AList.update ''recipient_bound'' (JBool False) context);
              b5 = AList.update ''context'' (JObj context1) b4
          in (case dict_of (map_of b5 ''lead'') of
                None \<Rightarrow> b5
              | Some lead \<Rightarrow> AList.update ''lead'' (JObj (outreach_lead p company email lead)) b5))"

text \<open>One option and one piece of evidence per observed contact that is real, and no option twice.\<close>

definition contact_option :: "binding_host \<Rightarrow> nat \<Rightarrow> dict \<Rightarrow> string \<times> dict \<times> dict" where
  "contact_option H i c =
     (let company = take 240 (py_text H (py_or [value_at c ''company'', value_at c ''domain'', JStr (''source-'' @ nat_digits (i + 1))]));
          option_id = take 120 (''contact:'' @ nat_digits i @ '':'' @ company);
          kind = py_text H (py_or [value_at c ''kind'', JStr ''contact'']); val = text_or_empty H c ''value''; url = text_or_empty H c ''source_url''
      in (option_id,
          [(''option_id'', JStr option_id), (''label'', JStr (''Use observed '' @ kind @ '' for '' @ company)),
           (''description'', JStr (take 1000 (kind @ ''='' @ val @ '' from '' @ url)))],
          [(''evidence_id'', JStr (take 160 (''obs-'' @ nat_digits i @ ''-'' @ kind))),
           (''claim'', JStr (''Observed '' @ kind @ '' '' @ val @ '' on '' @ url)), (''status'', JStr ''known''),
           (''source'', JStr (if url = [] then ''research.observe_contacts'' else url)), (''confidence'', JFloat (17 / 20)),
           (''supports_option_ids'', JArr [JStr option_id]), (''supports_criterion_ids'', JArr [JStr ''has_real_contact''])]))"

definition add_option :: "binding_host \<Rightarrow> nat \<times> json \<Rightarrow> (string \<times> dict \<times> dict) list \<Rightarrow> (string \<times> dict \<times> dict) list" where
  "add_option H ic acc =
     (case snd ic of
        JObj c \<Rightarrow>
          if map_of c ''real'' \<noteq> Some (JBool True) then acc
          else let opt = contact_option H (fst ic) c in if fst opt \<in> set (map fst acc) then acc else acc @ [opt]
      | _ \<Rightarrow> acc)"

definition specialize_decision_recommend_input :: "binding_host \<Rightarrow> dict \<Rightarrow> dict" where
  "specialize_decision_recommend_input H bound =
     (case map_of (context_of bound) ''observed_contacts'' of
        Some (JArr observed) \<Rightarrow>
          let found = fold (add_option H) (List.enumerate 0 observed) []
          in if found = [] then bound
             else set_fields bound [(''options'', JArr (map (\<lambda>f. JObj (fst (snd f))) found)),
               (''evidence'', JArr (map (\<lambda>f. JObj (snd (snd f))) found))]
      | _ \<Rightarrow> bound)"

subsection \<open>Applying the bindings\<close>

record binding_state =
  bs_bound :: dict
  bs_applied :: "dict list"
  bs_empty :: "dict list"

fun type_name :: "json \<Rightarrow> string" where
  "type_name (JObj kvs) = ''dict''"
| "type_name (JArr xs) = ''list''"
| "type_name JNull = ''NoneType''"
| "type_name (JBool b) = ''bool''"
| "type_name (JInt n) = ''int''"
| "type_name (JFloat r) = ''float''"
| "type_name (JStr s) = ''str''"
| "type_name (JStamp t) = ''str''"

definition bind_value :: "binding_host \<Rightarrow> string option \<Rightarrow> execution_task \<Rightarrow> string \<Rightarrow> string \<Rightarrow> string \<Rightarrow> json \<Rightarrow> binding_state \<Rightarrow> binding_state" where
  "bind_value H act upstream step out inp v st =
     (let result = handler_output_for_task upstream;
          found = (if v = JArr [] then (case valid_empty_research_result upstream result of None \<Rightarrow> [] | Some e \<Rightarrow> [e]) else []);
          w = (case (v, get_input_path (bs_bound st) inp) of
                 (JArr new, JArr old) \<Rightarrow> JArr (map JObj (merge_prospect_lists H old new)) | _ \<Rightarrow> v)
      in \<lparr>bs_bound = propagate_research_provenance act result (set_input_path (bs_bound st) inp w),
          bs_applied = bs_applied st @ [[(''from_step'', JStr step), (''output_path'', JStr out), (''input_path'', JStr inp),
            (''value_kind'', JStr (type_name w)), (''count'', JInt (case w of JArr xs \<Rightarrow> int (length xs) | _ \<Rightarrow> 1))]],
          bs_empty = bs_empty st @ found\<rparr>)"

fun apply_specs ::
  "binding_host \<Rightarrow> string option \<Rightarrow> (string \<times> execution_task) list \<Rightarrow> dict list \<Rightarrow> binding_state \<Rightarrow> string + binding_state" where
  "apply_specs H act by_key [] st = Inr st"
| "apply_specs H act by_key (spec # specs) st =
     (let step = strip (text_or_empty H spec ''from_step''); out = strip (text_or_empty H spec ''output_path'');
          inp = strip (py_text H (py_or [value_at spec ''input_path'', JStr ''$.input'']))
      in if step = [] \<or> out = [] then apply_specs H act by_key specs st
         else (case map_of by_key step of
                 None \<Rightarrow> Inl (''binding source step not complete: '' @ step)
               | Some upstream \<Rightarrow>
                   if t_status upstream \<noteq> TCompleted then Inl (''binding source step not complete: '' @ step)
                   else let v = binding_value (handler_output_for_task upstream) out
                        in apply_specs H act by_key specs (if v = JNull then st else bind_value H act upstream step out inp v st)))"

definition specialized_input :: "binding_host \<Rightarrow> string option \<Rightarrow> dict \<Rightarrow> dict" where
  "specialized_input H act bound =
     (let b1 = (if act \<noteq> Some ''research.synthesize_report'' then specialize_outreach_input H bound else bound);
          b2 = (if act = Some ''gtm.email_send'' then specialize_email_send_input H b1 else b1)
      in if act = Some ''decision.recommend_next_action'' then specialize_decision_recommend_input H b2 else b2)"

definition needs_prospect_world :: "string option \<Rightarrow> bool" where
  "needs_prospect_world act \<longleftrightarrow>
     act \<in> Some ` {''sales.qualify'', ''sales.score_lead'', ''gtm.lead_enrich'', ''gtm.email_draft'', ''gtm.email_send'',
       ''sales.draft_followup'', ''research.observe_contacts'', ''research.verify_public_candidates'', ''research.synthesize_report''}"

text \<open>The bound input with its valid empty sources, and the context the checks look at.\<close>

definition note_empty_sources :: "string option \<Rightarrow> dict list \<Rightarrow> dict \<Rightarrow> dict \<times> dict" where
  "note_empty_sources act sources bound =
     (let marks = JArr (map JObj sources); context = context_of bound
      in if sources = [] then (bound, context)
         else if act = Some ''research.synthesize_report'' then (AList.update ''valid_empty_upstream'' marks bound, context)
         else let context1 = AList.update ''valid_empty_upstream'' marks context
              in (AList.update ''context'' (JObj context1) bound, context1))"

definition has_prospects :: "dict \<Rightarrow> bool" where
  "has_prospects bound \<longleftrightarrow> (case map_of bound ''prospects'' of Some (JArr (_ # _)) \<Rightarrow> True | _ \<Rightarrow> False)"

definition valid_empty_allowed :: "string option \<Rightarrow> dict \<Rightarrow> dict \<Rightarrow> bool" where
  "valid_empty_allowed act bound context =
     (if act = Some ''research.synthesize_report'' then get_truthy bound ''valid_empty_upstream''
      else get_truthy context ''valid_empty_upstream'' \<and> act \<in> Some ` {''research.observe_contacts'', ''research.verify_public_candidates'', ''sales.qualify''})"

definition binding_required :: "dict \<Rightarrow> dict \<Rightarrow> bool" where
  "binding_required bound context \<longleftrightarrow> get_truthy context ''binding_required'' \<or> get_truthy bound ''binding_required''"

definition action_text :: "string option \<Rightarrow> string" where
  "action_text act = (case act of None \<Rightarrow> ''ability'' | Some a \<Rightarrow> if a = [] then ''ability'' else a)"

definition finish_binding :: "string option \<Rightarrow> binding_state \<Rightarrow> dict \<Rightarrow> binding" where
  "finish_binding act st specialized =
     (case note_empty_sources act (bs_empty st) specialized of (bound, context) \<Rightarrow>
        let required = binding_required bound context;
            trail = [(''bindings_applied'', JArr (map JObj (bs_applied st))), (''binding_required'', JBool required),
              (''prospect_count'', JInt (case map_of bound ''prospects'' of Some (JArr xs) \<Rightarrow> int (length xs) | _ \<Rightarrow> 0)),
              (''action'', opt_str act), (''valid_empty_upstream'', JArr (map JObj (bs_empty st)))]
        in if \<not> (required \<and> needs_prospect_world act) then Bound bound trail
           else if act = Some ''gtm.email_send''
           then (if email_send_has_world_state bound then Bound bound trail
                 else Unbindable (''binding_required but no introduction_drafts or enriched prospects '' @
                        ''were available for gtm.email_send''))
           else if \<not> has_prospects bound \<and> \<not> valid_empty_allowed act bound context
           then Unbindable (''binding_required but no upstream prospects were available for '' @ action_text act)
           else Bound bound (trail @ [(''primary_prospect'',
                  case primary_prospect bound of None \<Rightarrow> JNull | Some p \<Rightarrow> JObj p)]))"

fun comma_joined :: "string list \<Rightarrow> string" where
  "comma_joined [] = []"
| "comma_joined [x] = x"
| "comma_joined (x # y # xs) = x @ '', '' @ comma_joined (y # xs)"

definition apply_input_bindings :: "binding_host \<Rightarrow> dict \<Rightarrow> execution_task \<Rightarrow> execution_task list \<Rightarrow> binding" where
  "apply_input_bindings H tool_input x mission_tasks =
     (let pending = pending_dependency_keys x mission_tasks; md = t_metadata x; act = action_name_of md
      in if pending \<noteq> [] then Deferred (''ability dependencies not complete: '' @ comma_joined pending)
         else (case apply_specs H act (index_mission_tasks_by_node_key mission_tasks) (binding_specs_from_metadata H md)
                  \<lparr>bs_bound = tool_input, bs_applied = [], bs_empty = []\<rparr> of
                 Inl why \<Rightarrow> Deferred why
               | Inr st \<Rightarrow> finish_binding act st (specialized_input H act (bs_bound st))))"

text \<open>
  \<open>bind_tool_invocation_for_task\<close>: the invocation as the worker is to run it. Nothing is bound without
  dependencies; \<open>skipped\<close> says why. The tasks are those of the mission in the tenant.
\<close>

definition bind_tool_invocation_for_task :: "binding_host \<Rightarrow> execution_task \<Rightarrow> db \<Rightarrow> binding" where
  "bind_tool_invocation_for_task H x d =
     (case dict_of (map_of (t_metadata x) ''tool_invocation'') of
        None \<Rightarrow> Bound [] [(''bindings_applied'', JArr []), (''skipped'', JStr ''missing_tool_invocation'')]
      | Some raw \<Rightarrow>
          (case t_mission_id x of
             None \<Rightarrow> Bound raw [(''bindings_applied'', JArr []), (''skipped'', JStr ''no_dependencies'')]
           | Some mid \<Rightarrow>
               if dependency_keys_for_task x = [] \<and> binding_specs_from_metadata H (t_metadata x) = []
               then Bound raw [(''bindings_applied'', JArr []), (''skipped'', JStr ''no_dependencies'')]
               else (case apply_input_bindings H (case dict_of (map_of raw ''input'') of None \<Rightarrow> [] | Some i \<Rightarrow> i) x
                        (list_for_mission_for_tenant mid (t_tenant_id x) d) of
                       Bound bound trail \<Rightarrow> Bound (AList.update ''input'' (JObj bound) raw) trail
                     | r \<Rightarrow> r)))"

subsection \<open>Binding again\<close>

text \<open>The worker binds again what the reviewer approved. A list of prospects is then merged with itself.\<close>

lemma nat_digits_inj: "nat_digits m = nat_digits n \<Longrightarrow> m = n"
proof (induction m arbitrary: n rule: less_induct)
  case (less m)
  have code: "(char_of (48 + a) :: char) = char_of (48 + b) \<longleftrightarrow> a = b" if "a < 10" "b < 10" for a b :: nat
  proof -
    have "of_char (char_of (48 + a) :: char) = (48 + a)" "of_char (char_of (48 + b) :: char) = (48 + b)"
      using that by simp_all
    then show ?thesis by (metis add_left_cancel)
  qed
  have nonempty: "nat_digits k \<noteq> []" "[] \<noteq> nat_digits k" for k by (subst nat_digits.simps, simp)+
  have split: "nat_digits k = (if k < 10 then [char_of (48 + k)] else nat_digits (k div 10) @ [char_of (48 + k mod 10)])" for k
    by (rule nat_digits.simps)
  show ?case
  proof (cases "m < 10"; cases "n < 10")
    assume s: "m < 10" "n < 10"
    then show ?case using less.prems code by (simp add: split [of m] split [of n])
  next
    assume s: "\<not> m < 10" "\<not> n < 10"
    then have e: "nat_digits (m div 10) = nat_digits (n div 10)" "(char_of (48 + m mod 10) :: char) = char_of (48 + n mod 10)"
      using less.prems by (simp_all add: split [of m] split [of n])
    have "m div 10 = n div 10" using less.IH [OF _ e(1)] s by simp
    moreover have "m mod 10 = n mod 10" using e(2) code by simp
    ultimately show ?case by (metis div_mult_mod_eq)
  qed (use less.prems nonempty in \<open>auto simp: split [of m] split [of n]\<close>)
qed

lemma objects_of_JObj [simp]: "objects_of (map JObj ps) = ps"
  by (induction ps) (simp_all add: objects_of_def List.map_filter_simps)

definition unidentified :: "binding_host \<Rightarrow> dict list \<Rightarrow> bool" where
  "unidentified H ps \<longleftrightarrow> list_all (\<lambda>p. prospect_merge_key H p = []) ps"

definition identified :: "binding_host \<Rightarrow> dict list \<Rightarrow> bool" where
  "identified H ps \<longleftrightarrow> list_all (\<lambda>p. prospect_merge_key H p \<noteq> [] \<and> distinct (map fst p)) ps \<and> distinct (map (prospect_merge_key H) ps)"

definition anonymous :: "dict list \<Rightarrow> (string \<times> dict) list" where
  "anonymous ps = map (\<lambda>(i, p). (''anon:'' @ nat_digits i, p)) (List.enumerate 0 ps)"

lemma anonymous_fresh: "map_of (anonymous ps) (''anon:'' @ nat_digits (length ps)) = None"
proof -
  have "''anon:'' @ nat_digits (length ps) \<notin> fst ` set (anonymous ps)"
    by (auto simp: anonymous_def in_set_enumerate_eq dest: nat_digits_inj)
  then show ?thesis by (simp add: map_of_eq_None_iff)
qed

lemma anonymous_snoc: "anonymous ps @ [(''anon:'' @ nat_digits (length ps), p)] = anonymous (ps @ [p])"
  by (simp add: anonymous_def enumerate_append_eq)

lemma fold_unidentified: "unidentified H qs \<Longrightarrow> fold (merge_one H) qs (anonymous ps) = anonymous (ps @ qs)"
proof (induction qs arbitrary: ps)
  case (Cons q qs)
  have "length (anonymous ps) = length ps" by (simp add: anonymous_def)
  then have "merge_one H q (anonymous ps) = anonymous (ps @ [q])"
    using Cons.prems anonymous_fresh [of ps] anonymous_snoc [of ps q] by (simp add: merge_one_def unidentified_def Let_def)
  then show ?case using Cons by (simp add: unidentified_def)
qed simp

lemma merge_unidentified:
  assumes "unidentified H ps" and "unidentified H qs"
  shows "merge_prospect_lists H (map JObj ps) (map JObj qs) = ps @ qs"
proof -
  have "fold (merge_one H) (ps @ qs) (anonymous []) = anonymous (ps @ qs)"
    using assms fold_unidentified [of H "ps @ qs" "[]"] by (simp add: unidentified_def)
  moreover have "anonymous [] = []" by (simp add: anonymous_def)
  moreover have "map snd (anonymous (ps @ qs)) = ps @ qs"
    by (simp add: anonymous_def case_prod_unfold comp_def)
  ultimately show ?thesis by (simp add: merge_prospect_lists_def)
qed

lemma set_fields_member: "distinct (map fst d) \<Longrightarrow> set kvs \<subseteq> set d \<Longrightarrow> set_fields d kvs = d"
proof (induction kvs)
  case (Cons kv kvs)
  obtain k v where kv: "kv = (k, v)" by (rule prod.exhaust)
  have "AList.update k v d = d" using Cons.prems kv by (intro update_same) auto
  then show ?case using Cons kv by simp
qed simp

lemma merge_prospect_self: "distinct (map fst p) \<Longrightarrow> merge_prospect p p = p"
  by (simp add: merge_prospect_def set_fields_member Let_def)

definition keyed :: "binding_host \<Rightarrow> dict list \<Rightarrow> (string \<times> dict) list" where
  "keyed H ps = map (\<lambda>p. (prospect_merge_key H p, p)) ps"

lemma fold_new: "identified H (ps @ qs) \<Longrightarrow> fold (merge_one H) qs (keyed H ps) = keyed H (ps @ qs)"
proof (induction qs arbitrary: ps)
  case (Cons q qs)
  have "map_of (keyed H ps) (prospect_merge_key H q) = None"
    using Cons.prems by (auto simp: identified_def keyed_def map_of_eq_None_iff)
  then have "merge_one H q (keyed H ps) = keyed H (ps @ [q])"
    using Cons.prems by (simp add: merge_one_def keyed_def identified_def Let_def)
  then show ?case using Cons by simp
qed simp

lemma fold_known: "identified H ps \<Longrightarrow> set qs \<subseteq> set ps \<Longrightarrow> fold (merge_one H) qs (keyed H ps) = keyed H ps"
proof (induction qs)
  case (Cons q qs)
  have d: "distinct (map fst (keyed H ps))" using Cons.prems by (simp add: keyed_def identified_def comp_def)
  have "(prospect_merge_key H q, q) \<in> set (keyed H ps)" using Cons.prems by (auto simp: keyed_def)
  then have at: "map_of (keyed H ps) (prospect_merge_key H q) = Some q" using d by simp
  have "merge_prospect q q = q" using Cons.prems by (intro merge_prospect_self) (auto simp: identified_def list_all_iff)
  then have "merge_one H q (keyed H ps) = keyed H ps"
    using Cons.prems at d by (auto simp: merge_one_def identified_def list_all_iff Let_def intro: update_same)
  then show ?case using Cons by simp
qed simp

lemma merge_identified:
  assumes "identified H ps"
  shows "merge_prospect_lists H (map JObj ps) (map JObj ps) = ps"
proof -
  have "fold (merge_one H) (ps @ ps) (keyed H []) = keyed H ps"
    using fold_new [of H "[]" ps] fold_known [of H ps ps] assms by simp
  then show ?thesis by (simp add: merge_prospect_lists_def keyed_def comp_def)
qed

definition prospects_of :: "dict \<Rightarrow> json option" where
  "prospects_of d = map_of d ''prospects''"

lemma prospects_kept:
  "j \<noteq> ''prospects'' \<Longrightarrow> prospects_of d = r \<Longrightarrow> prospects_of (replace_known c j v d) = r"
  "j \<noteq> ''prospects'' \<Longrightarrow> prospects_of d = r \<Longrightarrow> prospects_of (copy_field c j v d) = r"
  "j \<noteq> ''prospects'' \<Longrightarrow> prospects_of d = r \<Longrightarrow> prospects_of (AList.update j v d) = r"
  "(y = None \<Longrightarrow> prospects_of a = r) \<Longrightarrow> (\<And>z. prospects_of (f z) = r) \<Longrightarrow> prospects_of (case y of None \<Rightarrow> a | Some z \<Rightarrow> f z) = r"
  by (auto simp: prospects_of_def replace_known_def copy_field_def split: option.split)

lemma outreach_prospects: "prospects_of (specialize_outreach_input H b) = prospects_of b"
  unfolding specialize_outreach_input_def Let_def by (intro prospects_kept refl) simp_all

lemma recipient_prospects: "prospects_of (fst (bind_recipient r source bc)) = prospects_of (fst bc)"
  by (cases bc) (simp add: bind_recipient_def prospects_of_def)

lemma draft_prospects: "prospects_of (fst (bind_draft H d bc)) = prospects_of (fst bc)"
proof -
  have step: "prospects_of (fst (if c then bind_recipient r source bc else bc)) = prospects_of (fst bc)" for c r source
    by (simp add: recipient_prospects)
  show ?thesis unfolding bind_draft_def Let_def fst_conv by (intro prospects_kept step) simp_all
qed

lemma contact_prospects: "prospects_of (fst (bind_contact H p bc)) = prospects_of (fst bc)"
  by (simp add: bind_contact_def Let_def recipient_prospects split: list.split)

lemma email_prospects: "prospects_of (specialize_email_send_input H b) = prospects_of b"
  unfolding specialize_email_send_input_def Let_def
  by (intro prospects_kept) (simp_all add: draft_prospects contact_prospects split: option.split)

lemma decision_prospects: "prospects_of (specialize_decision_recommend_input H b) = prospects_of b"
  by (simp add: specialize_decision_recommend_input_def prospects_of_def Let_def split: option.split json.split)

lemma specialized_prospects: "prospects_of (specialized_input H act b) = prospects_of b"
  by (simp add: specialized_input_def Let_def outreach_prospects email_prospects decision_prospects)

lemma propagate_prospects: "prospects_of (propagate_research_provenance act u b) = prospects_of b"
proof -
  have "prospects_of (copy_field c ''local_fixture_only'' v b) = prospects_of b" for c v by (intro prospects_kept) simp_all
  then show ?thesis by (simp add: propagate_research_provenance_def Let_def prospects_kept split: option.split)
qed

lemma finish_prospects: "finish_binding act st b = Bound b1 t \<Longrightarrow> prospects_of b1 = prospects_of b"
  by (auto simp: finish_binding_def prospects_of_def note_empty_sources_def Let_def split: if_splits)

lemma prospects_path: "input_path_keys ''$.input.prospects'' = [''prospects'']"
  by code_simp

lemma py_text_JStr [simp]: "py_text H (JStr s) = s"
  by (simp add: py_text_def)

lemma spec_fields:
  "text_or_empty H (binding_spec step out inp) ''from_step'' = step" "text_or_empty H (binding_spec step out inp) ''output_path'' = out"
  "value_at (binding_spec step out inp) ''input_path'' = JStr inp"
  by (simp_all add: text_or_empty_def value_at_def binding_spec_def)

text \<open>What one binding of a list of prospects puts into the input.\<close>

definition prospect_source :: "binding_host \<Rightarrow> execution_task \<Rightarrow> execution_task list \<Rightarrow> dict list \<Rightarrow> bool" where
  "prospect_source H x tasks ps \<longleftrightarrow>
     (\<exists>step out upstream. binding_specs_from_metadata H (t_metadata x) = [binding_spec step out ''$.input.prospects''] \<and>
        strip step \<noteq> [] \<and> strip out \<noteq> [] \<and> map_of (index_mission_tasks_by_node_key tasks) (strip step) = Some upstream \<and>
        binding_value (handler_output_for_task upstream) (strip out) = JArr (map JObj ps))"

lemma bound_prospects:
  assumes "apply_input_bindings H input x tasks = Bound b t" and "prospect_source H x tasks ps"
  shows "map_of b ''prospects'' = Some (JArr (map JObj
    (case map_of input ''prospects'' of Some (JArr old) \<Rightarrow> merge_prospect_lists H old (map JObj ps) | _ \<Rightarrow> ps)))"
proof -
  let ?act = "action_name_of (t_metadata x)" and ?st = "\<lparr>bs_bound = input, bs_applied = [], bs_empty = []\<rparr>"
  obtain step out upstream where src: "binding_specs_from_metadata H (t_metadata x) = [binding_spec step out ''$.input.prospects'']"
    "strip step \<noteq> []" "strip out \<noteq> []" "map_of (index_mission_tasks_by_node_key tasks) (strip step) = Some upstream"
    "binding_value (handler_output_for_task upstream) (strip out) = JArr (map JObj ps)"
    using assms(2) by (auto simp: prospect_source_def)
  obtain st where run: "apply_specs H ?act (index_mission_tasks_by_node_key tasks) [binding_spec step out ''$.input.prospects''] ?st = Inr st"
    and fin: "finish_binding ?act st (specialized_input H ?act (bs_bound st)) = Bound b t"
    using assms(1) src(1) by (auto simp: apply_input_bindings_def Let_def split: if_splits sum.splits)
  have inp: "strip (py_text H (py_or [JStr ''$.input.prospects'', JStr ''$.input''])) = ''$.input.prospects''"
    by (simp add: strip_def is_space_def)
  have st: "st = bind_value H ?act upstream (strip step) (strip out) ''$.input.prospects'' (JArr (map JObj ps)) ?st"
    using run src(2-5) inp by (auto simp: spec_fields Let_def split: if_splits)
  have "map_of b ''prospects'' = prospects_of (bs_bound st)"
    using finish_prospects [OF fin] by (simp add: specialized_prospects prospects_of_def [symmetric])
  also have "\<dots> = Some (JArr (map JObj
      (case map_of input ''prospects'' of Some (JArr old) \<Rightarrow> merge_prospect_lists H old (map JObj ps) | _ \<Rightarrow> ps)))"
    unfolding st
    by (simp add: bind_value_def Let_def propagate_prospects)
      (simp add: prospects_of_def set_input_path_def get_input_path_def prospects_path value_at_def split: option.split json.split)
  finally show ?thesis .
qed

text \<open>
  What was approved is bound again when it is run, and the binding is not stable. When the prospects that an upstream
  task produced have no identifier, domain, company or name, the first binding puts them into the input once and the second,
  which merges them with what is already there, once more. With identifiers that are all different the second binding leaves
  them as they were.
\<close>

theorem rebinding_doubles_unidentified:
  assumes "prospect_source H x tasks ps" and "list_of (map_of input ''prospects'') = None"
    and "apply_input_bindings H input x tasks = Bound b t" and "apply_input_bindings H b x tasks = Bound b2 t2"
  shows "map_of b ''prospects'' = Some (JArr (map JObj ps)) \<and>
    (unidentified H ps \<longrightarrow> map_of b2 ''prospects'' = Some (JArr (map JObj (ps @ ps)))) \<and>
    (identified H ps \<longrightarrow> map_of b2 ''prospects'' = map_of b ''prospects'')"
proof -
  have "(case map_of input ''prospects'' of Some (JArr old) \<Rightarrow> merge_prospect_lists H old (map JObj ps) | _ \<Rightarrow> ps) = ps"
    using assms(2) by (auto split: option.split json.split)
  then have b: "map_of b ''prospects'' = Some (JArr (map JObj ps))" using bound_prospects [OF assms(3,1)] by simp
  then have "map_of b2 ''prospects'' = Some (JArr (map JObj (merge_prospect_lists H (map JObj ps) (map JObj ps))))"
    using bound_prospects [OF assms(4,1)] by simp
  then show ?thesis using b merge_unidentified [of H ps ps] merge_identified [of H ps] by auto
qed

definition scout_task :: execution_task where
  "scout_task = (example_task TCompleted)\<lparr>t_id := uuid_a, t_metadata := [(''graph_node_key'', JStr ''scout''),
     (''output'', JObj [(''prospect_candidates'', JArr [JObj [(''email'', JStr ''ann@firm.io'')]])])]\<rparr>"

definition outreach_task :: execution_task where
  "outreach_task = (example_task TPendingReview)\<lparr>t_id := uuid_b, t_metadata := [(''dependency_keys'', JArr [JStr ''scout'']),
     (''input_bindings'', JArr [JObj (binding_spec ''scout'' ''$.prospect_candidates'' ''$.input.prospects'')]),
     (''tool_invocation'', JObj [(''action'', JStr ''crm.mutate'')])]\<rparr>"

lemma scout_indexed: "index_mission_tasks_by_node_key [scout_task] = [(''scout'', scout_task)]"
proof -
  have "graph_node_key_for_task scout_task = Some ''scout''"
    by (simp add: graph_node_key_for_task_def stripped_text_def scout_task_def strip_def is_space_def)
  then show ?thesis by (simp add: index_mission_tasks_by_node_key_def)
qed

lemma scout_completed: "t_status scout_task = TCompleted"
  by (simp add: scout_task_def)

lemma outreach_specs: "binding_specs_from_metadata H (t_metadata outreach_task) =
      [binding_spec ''scout'' ''$.prospect_candidates'' ''$.input.prospects'']"
  by (simp add: binding_specs_from_metadata_def outreach_task_def List.map_filter_simps)

lemma path_stripped: "strip ''scout'' = ''scout''" "strip ''$.prospect_candidates'' = ''$.prospect_candidates''"
  by (simp_all add: strip_def is_space_def)

lemma apply_one_spec:
  assumes "strip step \<noteq> []" and "strip out \<noteq> []" and "map_of by_key (strip step) = Some u" and "t_status u = TCompleted"
  shows "\<exists>st. apply_specs H act by_key [binding_spec step out inp] st0 = Inr st"
  using assms by (simp add: spec_fields Let_def)

lemma outreach_source: "prospect_source H outreach_task [scout_task] [[(''email'', JStr ''ann@firm.io'')]]"
proof -
  have "path_parts ''.prospect_candidates'' = [''prospect_candidates'']" by code_simp
  moreover have "\<not> ends_with ''prospect_candidates'' ''[*]''" by code_simp
  ultimately have "json_path_get (handler_output_for_task scout_task) ''$.prospect_candidates'' = JArr [JObj [(''email'', JStr ''ann@firm.io'')]]"
    by (simp add: json_path_get_def handler_output_for_task_def scout_task_def strip_def is_space_def value_at_def Let_def)
  then have "binding_value (handler_output_for_task scout_task) ''$.prospect_candidates'' = JArr [JObj [(''email'', JStr ''ann@firm.io'')]]"
    by (simp add: binding_value_def Let_def)
  then show ?thesis
    unfolding prospect_source_def by (intro exI [of _ "''scout''"] exI [of _ "''$.prospect_candidates''"] exI [of _ scout_task])
      (simp add: path_stripped outreach_specs scout_indexed)
qed

lemma outreach_binds: "\<exists>b t. apply_input_bindings H input outreach_task [scout_task] = Bound b t"
proof -
  have ready: "pending_dependency_keys outreach_task [scout_task] = []"
    by (simp add: pending_dependency_keys_def dependency_keys_for_task_def outreach_task_def scout_indexed path_stripped
        scout_completed List.map_filter_simps)
  have act: "action_name_of (t_metadata outreach_task) = Some ''crm.mutate''"
    by (simp add: action_name_of_def outreach_task_def)
  have idle: "\<not> needs_prospect_world (Some ''crm.mutate'')" by (simp add: needs_prospect_world_def)
  have finish: "\<exists>b t. finish_binding (Some ''crm.mutate'') st sp = Bound b t" for st sp
    using idle by (simp add: finish_binding_def Let_def split: prod.split)
  have "\<exists>st. apply_specs H (Some ''crm.mutate'') [(''scout'', scout_task)]
      [binding_spec ''scout'' ''$.prospect_candidates'' ''$.input.prospects''] \<lparr>bs_bound = input, bs_applied = [], bs_empty = []\<rparr> = Inr st"
    by (rule apply_one_spec [where u = scout_task]) (simp_all add: path_stripped scout_completed)
  then show ?thesis using finish by (auto simp: apply_input_bindings_def ready act outreach_specs scout_indexed Let_def simp del: apply_specs.simps)
qed

theorem rebinding_doubles_unidentified_witness:
  "\<exists>b t b2 t2. apply_input_bindings \<lparr>bh_text = (\<lambda>v. []), bh_dash = CHR ''-''\<rparr> [] outreach_task [scout_task] = Bound b t \<and>
     apply_input_bindings \<lparr>bh_text = (\<lambda>v. []), bh_dash = CHR ''-''\<rparr> b outreach_task [scout_task] = Bound b2 t2 \<and>
     map_of b2 ''prospects'' = Some (JArr [JObj [(''email'', JStr ''ann@firm.io'')], JObj [(''email'', JStr ''ann@firm.io'')]])"
proof -
  let ?H = "\<lparr>bh_text = (\<lambda>v. []), bh_dash = CHR ''-''\<rparr>"
  obtain b t where b: "apply_input_bindings ?H [] outreach_task [scout_task] = Bound b t" using outreach_binds by blast
  obtain b2 t2 where b2: "apply_input_bindings ?H b outreach_task [scout_task] = Bound b2 t2" using outreach_binds by blast
  have "unidentified ?H [[(''email'', JStr ''ann@firm.io'')]]"
    by (simp add: unidentified_def prospect_merge_key_def value_at_def strip_def lower_text_def)
  then show ?thesis using rebinding_doubles_unidentified [OF outreach_source _ b b2] b b2 by auto
qed

end
