(* ===== verification/Capabilities.thy ===== *)
theory Capabilities
  imports InputBinding
begin

section \<open>What a tenant lets an action do\<close>

text \<open>
  The declarations an action is checked against before it runs: its ability manifest
  (\<open>backend/services/abilities/rollout_validation.py\<close>), the capability and the adapter its task refers to
  (\<open>services/tools/capability_validation.py\<close>, \<open>services/capability_adapter_compatibility.py\<close>), the operating charter of its
  tenant (\<open>services/operating_charter.py\<close>) and the credential it uses (\<open>services/credentials/runtime_authority.py\<close>).
  The name of the schema of an action's input, \<open>int()\<close> of a text, the search for secrets in JSON values and the credentials that
  plugins accept are arguments.
\<close>

subsection \<open>Manifests of registered actions\<close>

definition output_schema_ref :: string where
  "output_schema_ref = ''backend.services.tools.schemas.ActionResult''"

definition resolver_alignment_error :: "action_definition \<Rightarrow> ability_manifest \<Rightarrow> string option" where
  "resolver_alignment_error a m =
     (case am_max_side_effect_class m of
        None \<Rightarrow> Some ''resolver-backed actions require max_side_effect_class''
      | Some most \<Rightarrow>
          (case am_resolver_classes m of
             [] \<Rightarrow> Some ''resolver-backed actions require resolver_side_effect_classes''
           | c # cs \<Rightarrow>
               if am_side_effect_class m \<noteq> ad_side_effect_class a
               then Some ''ability manifest side_effect_class must match registered action default side_effect_class''
               else if ad_side_effect_class a \<notin> set (c # cs)
               then Some ''resolver_side_effect_classes must include registered default side_effect_class''
               else if most \<noteq> greatest_class c cs
               then Some ''ability manifest max_side_effect_class must match resolver_side_effect_classes maximum''
               else None))"

definition alignment_error :: "(action_definition \<Rightarrow> string) \<Rightarrow> action_definition \<Rightarrow> ability_manifest \<Rightarrow> string option" where
  "alignment_error schema_of a m =
     (if am_action_name m \<noteq> ad_name a then Some ''ability manifest action_name must match registered action name''
      else if am_provider m \<noteq> ad_provider a then Some ''ability manifest provider must match registered action provider''
      else if am_input_schema_ref m \<noteq> schema_of a
      then Some ''ability manifest input_schema_ref must match registered action input model''
      else if am_output_schema_ref m \<noteq> output_schema_ref then Some ''ability manifest output_schema_ref must match ActionResult''
      else (case (if ad_resolver a = None
                  then (if am_side_effect_class m \<noteq> ad_side_effect_class a
                        then Some ''ability manifest side_effect_class must match registered action side_effect_class'' else None)
                  else resolver_alignment_error a m) of
              Some e \<Rightarrow> Some e
            | None \<Rightarrow>
                if am_required_permissions m \<noteq> ad_required_permissions a
                then Some ''ability manifest required_permissions must match registered action permissions''
                else if am_required_tools m \<noteq> ad_required_tools a
                then Some ''ability manifest required_tools must match registered action tools''
                else None))"

subsection \<open>Capabilities and adapters\<close>

record capability =
  cp_id :: uuid
  cp_tenant_id :: "string option"
  cp_name :: string
  cp_version :: string
  cp_supported_task_types :: "string list"
  cp_required_tools :: "string list"
  cp_risk_level :: string
  cp_enabled :: bool

record adapter =
  ap_id :: uuid
  ap_tenant_id :: "string option"
  ap_capability_id :: "uuid option"
  ap_capability_name :: "string option"
  ap_capability_version :: "string option"
  ap_supported_task_types :: "string list"
  ap_required_tools :: "string list"
  ap_risk_level :: string
  ap_approval_requirements :: dict
  ap_side_effect_classification :: string
  ap_enabled :: bool

definition visible_to :: "string \<Rightarrow> string option \<Rightarrow> bool" where
  "visible_to tenant owner \<longleftrightarrow> owner = None \<or> owner = Some tenant"

definition capability_by_id :: "uuid \<Rightarrow> string \<Rightarrow> capability list \<Rightarrow> capability option" where
  "capability_by_id k tenant rows = find (\<lambda>c. cp_id c = k \<and> visible_to tenant (cp_tenant_id c)) rows"

text \<open>The tenant's own row before the global one.\<close>

definition capability_by_name_version :: "string \<Rightarrow> string \<Rightarrow> string \<Rightarrow> capability list \<Rightarrow> capability option" where
  "capability_by_name_version name version tenant rows =
     (let named = filter (\<lambda>c. cp_name c = name \<and> cp_version c = version) rows
      in case find (\<lambda>c. cp_tenant_id c = Some tenant) named of
           Some c \<Rightarrow> Some c
         | None \<Rightarrow> find (\<lambda>c. cp_tenant_id c = None) named)"

definition adapter_by_id :: "uuid \<Rightarrow> string \<Rightarrow> adapter list \<Rightarrow> adapter option" where
  "adapter_by_id k tenant rows = find (\<lambda>a. ap_id a = k \<and> visible_to tenant (ap_tenant_id a)) rows"

definition risk_rank :: "string \<Rightarrow> nat option" where
  "risk_rank s = map_of [(''low'', 1), (''medium'', 2), (''high'', 3), (''critical'', 4)] s"

definition binding_mismatch :: "capability \<Rightarrow> adapter \<Rightarrow> string option" where
  "binding_mismatch c a =
     (if ap_capability_id a \<noteq> None \<and> ap_capability_id a \<noteq> Some (cp_id c)
      then Some ''adapter capability_id does not match resolved capability''
      else if ap_capability_name a \<noteq> None \<and> ap_capability_name a \<noteq> Some (cp_name c)
      then Some ''adapter capability_name does not match resolved capability''
      else if ap_capability_version a \<noteq> None \<and> ap_capability_version a \<noteq> Some (cp_version c)
      then Some ''adapter capability_version does not match resolved capability''
      else None)"

definition risk_mismatch :: "capability \<Rightarrow> adapter \<Rightarrow> string option" where
  "risk_mismatch c a =
     (case (risk_rank (cp_risk_level c), risk_rank (ap_risk_level a)) of
        (None, _) \<Rightarrow> Some (''capability risk_level is unsupported: '' @ cp_risk_level c)
      | (_, None) \<Rightarrow> Some (''adapter risk_level is unsupported: '' @ ap_risk_level a)
      | (Some m, Some n) \<Rightarrow> if n < m then Some ''adapter risk_level cannot understate capability risk_level'' else None)"

definition approval_mismatch :: "adapter \<Rightarrow> string option" where
  "approval_mismatch a =
     (if ap_side_effect_classification a \<in> {''external_side_effect'', ''external_write'', ''external_send'', ''external_publish''} \<and>
         map_of (ap_approval_requirements a) ''required'' \<noteq> Some (JBool True)
      then Some (ap_side_effect_classification a @ '' adapters require approval_requirements.required'') else None)"

fun first_error :: "string option list \<Rightarrow> string option" where
  "first_error [] = None"
| "first_error (None # es) = first_error es"
| "first_error (Some e # es) = Some e"

definition compatibility_error :: "capability \<Rightarrow> adapter \<Rightarrow> string option" where
  "compatibility_error c a =
     (let unsupported = sort (remdups (filter (\<lambda>t. t \<notin> set (cp_supported_task_types c)) (ap_supported_task_types a)))
      in first_error
          [binding_mismatch c a,
           if unsupported \<noteq> []
           then Some (''adapter supported_task_types must be declared by capability: '' @ comma_joined unsupported) else None,
           risk_mismatch c a, approval_mismatch a,
           if ap_enabled a \<and> \<not> cp_enabled c then Some ''enabled adapter cannot bind to a disabled capability'' else None])"

subsection \<open>The authority of an action\<close>

text \<open>A denial of this check, or another exception on the way.\<close>

datatype denial = Denied string | Failure exn

definition deny_unless :: "bool \<Rightarrow> string \<Rightarrow> denial + unit" where
  "deny_unless ok why = (if ok then Inr () else Inl (Denied why))"

definition and_also :: "'e + 'a \<Rightarrow> ('a \<Rightarrow> 'e + 'b) \<Rightarrow> 'e + 'b" where
  "and_also r f = (case r of Inl e \<Rightarrow> Inl e | Inr x \<Rightarrow> f x)"

definition no_uuid :: "denial" where
  "no_uuid = Failure (ValueError ''badly formed hexadecimal UUID string'')"

definition resolve_capability :: "binding_host \<Rightarrow> string \<Rightarrow> capability list \<Rightarrow> json option \<Rightarrow> denial + capability option" where
  "resolve_capability H tenant rows ref =
     (if ref \<in> {None, Some JNull} then Inr None
      else (case dict_of ref of
              None \<Rightarrow> Inl (Denied ''capability_reference must be an object'')
            | Some r \<Rightarrow>
                and_also
                  (if get_truthy r ''capability_id''
                   then (case uuid_of_json (value_at r ''capability_id'') of
                           None \<Rightarrow> Inl no_uuid | Some k \<Rightarrow> Inr (capability_by_id k tenant rows))
                   else if get_truthy r ''name'' \<and> get_truthy r ''version''
                   then Inr (capability_by_name_version (py_text H (value_at r ''name'')) (py_text H (value_at r ''version'')) tenant rows)
                   else Inl (Denied ''capability_reference requires capability_id or name/version''))
                  (\<lambda>found. case found of
                     None \<Rightarrow> Inl (Denied ''capability_reference is not visible for tenant'')
                   | Some c \<Rightarrow> and_also (deny_unless (cp_enabled c) ''capability_reference is disabled'') (\<lambda>_. Inr (Some c)))))"

definition resolve_adapter :: "string \<Rightarrow> adapter list \<Rightarrow> json option \<Rightarrow> denial + adapter option" where
  "resolve_adapter tenant rows ref =
     (if ref \<in> {None, Some JNull} then Inr None
      else (case dict_of ref of
              None \<Rightarrow> Inl (Denied ''adapter_reference must be an object'')
            | Some r \<Rightarrow>
                if \<not> get_truthy r ''adapter_id'' then Inl (Denied ''adapter_reference requires adapter_id'')
                else (case uuid_of_json (value_at r ''adapter_id'') of
                        None \<Rightarrow> Inl no_uuid
                      | Some k \<Rightarrow>
                          (case adapter_by_id k tenant rows of
                             None \<Rightarrow> Inl (Denied ''adapter_reference is not visible for tenant'')
                           | Some a \<Rightarrow> and_also (deny_unless (ap_enabled a) ''adapter_reference is disabled'') (\<lambda>_. Inr (Some a))))))"

definition names_of :: "action_definition \<Rightarrow> string list" where
  "names_of a = ad_name a # ad_aliases a"

text \<open>The same three checks of a capability and of an adapter, which is named in the message.\<close>

definition validate_scope :: "string \<Rightarrow> string list \<Rightarrow> string list \<Rightarrow> string list \<Rightarrow> bool \<Rightarrow> denial + unit" where
  "validate_scope what types tools names concrete =
     (let supported = list_ex (\<lambda>t. t \<in> set names) types; exact = list_ex (\<lambda>t. t \<in> set names) tools
      in and_also (deny_unless (''tool.invoke'' \<in> set types \<or> supported) (what @ '' does not support tool.invoke or exact action'')) (\<lambda>_.
         and_also (deny_unless (\<not> concrete \<or> supported \<or> exact) (what @ '' required_tools does not include exact side-effect action'')) (\<lambda>_.
           deny_unless (tools = [] \<or> ''*'' \<in> set tools \<or> exact) (what @ '' required_tools does not include exact action''))))"

definition external_class :: "side_effect_class \<Rightarrow> bool" where
  "external_class c \<longleftrightarrow> starts_with (effect_value c) ''external_''"

definition requires_promotion :: "side_effect_class \<Rightarrow> bool" where
  "requires_promotion c \<longleftrightarrow> has_side_effect c \<or> external_class c"

definition adapter_authorizes :: "string \<Rightarrow> side_effect_class \<Rightarrow> bool" where
  "adapter_authorizes classification c =
     (if classification = effect_value c then True
      else if classification = ''read_only'' \<and> c = InternalRead then True
      else if classification \<in> {''internal_side_effect'', ''idempotent_write'', ''non_idempotent_write''}
      then starts_with (effect_value c) ''internal_''
      else False)"

definition validate_promotion ::
  "ledger_host \<Rightarrow> dict \<Rightarrow> action_definition \<Rightarrow> side_effect_class \<Rightarrow> capability option \<Rightarrow> adapter option \<Rightarrow> string \<Rightarrow> uuid \<Rightarrow> time \<Rightarrow>
     denial + unit" where
  "validate_promotion L metadata a c capability adapter tenant k now =
     and_also (deny_unless (capability \<noteq> None \<or> adapter \<noteq> None) ''runtime promotion requires explicit capability/adapter authority'') (\<lambda>_.
     and_also (deny_unless (\<not> external_class c \<or> adapter \<noteq> None)
       ''external runtime promotion requires adapter_reference with exact side_effect_classification'') (\<lambda>_.
     and_also (deny_unless (case adapter of None \<Rightarrow> True | Some p \<Rightarrow> adapter_authorizes (ap_side_effect_classification p) c)
       ''adapter side_effect_classification does not authorize action'') (\<lambda>_.
       deny_unless (\<not> has_side_effect c \<or> side_effect_authorized L metadata (ad_name a) (Some tenant) (Some k) now)
         ''side-effecting action requires execution_constraints.side_effect_authorization'')))"

definition validate_capability_action_authority ::
  "binding_host \<Rightarrow> ledger_host \<Rightarrow> capability list \<Rightarrow> adapter list \<Rightarrow> string \<Rightarrow> dict \<Rightarrow> action_definition \<Rightarrow> side_effect_class \<Rightarrow> uuid \<Rightarrow> time \<Rightarrow>
     denial + unit" where
  "validate_capability_action_authority H L capabilities adapters tenant metadata a c k now =
     and_also (resolve_capability H tenant capabilities (map_of metadata ''capability_reference'')) (\<lambda>capability.
     and_also (resolve_adapter tenant adapters (map_of metadata ''adapter_reference'')) (\<lambda>adapter.
     and_also (case capability of None \<Rightarrow> Inr () | Some p \<Rightarrow>
       validate_scope ''capability'' (cp_supported_task_types p) (cp_required_tools p) (names_of a) (requires_promotion c)) (\<lambda>_.
     and_also (case adapter of None \<Rightarrow> Inr () | Some p \<Rightarrow>
       validate_scope ''adapter'' (ap_supported_task_types p) (ap_required_tools p) (names_of a) (requires_promotion c)) (\<lambda>_.
     and_also (case (capability, adapter) of
         (Some p, Some q) \<Rightarrow> (case compatibility_error p q of None \<Rightarrow> Inr () | Some e \<Rightarrow> Inl (Failure (ValueError e)))
       | _ \<Rightarrow> Inr ()) (\<lambda>_.
       if requires_promotion c then validate_promotion L metadata a c capability adapter tenant k now else Inr ())))))"

subsection \<open>The operating charter\<close>

definition default_may_prepare :: "string list" where
  "default_may_prepare =
     [''retrieval.hybrid_search'', ''record.search'', ''record.read'', ''web.research'', ''web.search'', ''web.page_read'',
      ''research.observe_contacts'', ''research.verify_public_candidates'', ''research.verify_public_identity'',
      ''research.synthesize_report'', ''knowledge.retrieve_current'', ''knowledge.inform_decision'',
      ''decision.recommend_next_action'', ''web.browser_session'', ''http.request'', ''sales.qualify'', ''sales.score_lead'',
      ''sales.recommend_next_action'', ''gtm.lead_enrich'', ''gtm.email_draft'', ''gtm.social_draft'', ''sales.draft_followup'',
      ''document.generate'', ''document.search'', ''document.read'', ''sales.research'', ''crm.research'', ''crm.read'',
      ''crm.observe'', ''crm.reconcile'', ''crm.verify_effect'', ''salesforce.soql_read'', ''provider.external_read'',
      ''linkedin.profile_read'', ''github.repo_read'', ''gtm.email_check'', ''google_calendar.events_read'', ''calendar.read'',
      ''vertical.finance.sync_revenue'', ''vertical.finance.prepare_reconciliation'', ''vertical.finance.prepare_invoice_drafts'',
      ''runtime.verify_controls'', ''analysis.evaluate_goal_progress'']"

definition default_may_perform :: "string list" where
  "default_may_perform =
     [''gtm.crm_upsert'', ''record.write'', ''sales.log_activity'', ''sales.create_followup_task'', ''calendar.create_event'',
      ''web.open_write'', ''crm.mutate'']"

definition default_never_do :: "string list" where
  "default_never_do = [''gtm.email_send'', ''gtm.social_publish'', ''webhook.dispatch'']"

record charter =
  ct_may_prepare :: "string list"
  ct_may_perform :: "string list"
  ct_never_do :: "string list"
  ct_approval_mode :: string
  ct_escalation_email :: "string option"
  ct_escalation_phone :: "string option"
  ct_revision :: int

text \<open>\<open>int()\<close>, which raises on what is no number.\<close>

fun py_int :: "(string \<Rightarrow> int option) \<Rightarrow> json \<Rightarrow> int option" where
  "py_int P (JInt n) = Some n"
| "py_int P (JBool b) = Some (if b then 1 else 0)"
| "py_int P (JFloat r) = Some (if r \<ge> 0 then \<lfloor>r\<rfloor> else \<lceil>r\<rceil>)"
| "py_int P (JStr s) = P s"
| "py_int P _ = None"

definition charter_error :: "string \<Rightarrow> string \<Rightarrow> 'a result" where
  "charter_error field what = Inl (ValueError (''operating_charter.'' @ field @ what))"

definition normalize_action_list :: "string \<Rightarrow> json \<Rightarrow> string list result" where
  "normalize_action_list field raw =
     (case raw of
        JArr vs \<Rightarrow>
          if \<not> list_all (\<lambda>v. case v of JStr s \<Rightarrow> strip s \<noteq> [] | _ \<Rightarrow> False) vs then charter_error field '' entries must be non-empty strings''
          else let names = map strip (List.map_filter text_of vs)
               in if distinct names then Inr names else charter_error field '' entries must be unique''
      | _ \<Rightarrow> charter_error field '' must be a list'')"

definition charter_payload_from_fact :: "json option \<Rightarrow> dict option" where
  "charter_payload_from_fact raw =
     (case dict_of raw of
        None \<Rightarrow> None
      | Some d \<Rightarrow> (case dict_of (map_of d ''value'') of Some nested \<Rightarrow> Some nested | None \<Rightarrow> Some d))"

definition common :: "string list \<Rightarrow> string list \<Rightarrow> string list" where
  "common xs ys = sort (remdups (filter (\<lambda>x. x \<in> set ys) xs))"

definition validate_action_sets :: "string list \<Rightarrow> string list \<Rightarrow> string list \<Rightarrow> unit result" where
  "validate_action_sets prepare perform never =
     (let supported = default_may_prepare @ default_may_perform @ default_never_do;
          unknown = sort (remdups (filter (\<lambda>x. x \<notin> set supported) (prepare @ perform @ never)));
          conflicting = common (prepare @ perform) never; dual = common prepare perform
      in if unknown \<noteq> [] then Inl (ValueError (''operating_charter contains unsupported actions: '' @ comma_joined unknown))
         else if conflicting \<noteq> []
         then Inl (ValueError (''operating_charter actions cannot be both allowed and never_do: '' @ comma_joined conflicting))
         else if dual \<noteq> []
         then Inl (ValueError (''operating_charter actions cannot be both may_prepare and may_perform: '' @ comma_joined dual))
         else Inr ())"

definition charter_revision :: "(string \<Rightarrow> int option) \<Rightarrow> dict \<Rightarrow> int result" where
  "charter_revision P payload =
     (case (case map_of payload ''revision'' of None \<Rightarrow> Some 0 | Some (JBool b) \<Rightarrow> None | Some v \<Rightarrow> py_int P v) of
        None \<Rightarrow> charter_error ''revision'' '' must be a non-negative integer''
      | Some n \<Rightarrow> if n < 0 then charter_error ''revision'' '' must be a non-negative integer'' else Inr n)"

definition stripped_or_none :: "json \<Rightarrow> string option" where
  "stripped_or_none v = (case v of JStr s \<Rightarrow> if strip s = [] then None else Some (strip s) | _ \<Rightarrow> None)"

definition parse_charter_payload :: "binding_host \<Rightarrow> (string \<Rightarrow> int option) \<Rightarrow> dict \<Rightarrow> charter result" where
  "parse_charter_payload H P payload =
     (let missing = filter (\<lambda>k. map_of payload k = None) [''schema_version'', ''may_prepare'', ''may_perform'', ''never_do'', ''approval_mode'']
      in if missing \<noteq> [] then Inl (ValueError (''operating_charter is missing required fields: '' @ comma_joined missing))
         else (case py_int P (value_at payload ''schema_version'') of
                 None \<Rightarrow> charter_error ''schema_version'' '' must be an integer''
               | Some version \<Rightarrow>
                   if version \<noteq> 1 then charter_error ''schema_version '' (int_text version @ '' is not supported'')
                   else bind_result (charter_revision P payload) (\<lambda>revision.
                     let mode = strip (py_text H (value_at payload ''approval_mode''))
                     in if mode \<notin> {''notify_before_external'', ''always_notify'', ''none''} then charter_error ''approval_mode'' '' is invalid''
                        else bind_result (normalize_action_list ''may_prepare'' (value_at payload ''may_prepare'')) (\<lambda>prepare.
                             bind_result (normalize_action_list ''may_perform'' (value_at payload ''may_perform'')) (\<lambda>perform.
                             bind_result (normalize_action_list ''never_do'' (value_at payload ''never_do'')) (\<lambda>never.
                             bind_result (validate_action_sets prepare perform never) (\<lambda>_.
                               Inr \<lparr>ct_may_prepare = prepare, ct_may_perform = perform, ct_never_do = never, ct_approval_mode = mode,
                                 ct_escalation_email = stripped_or_none (value_at payload ''escalation_email''),
                                 ct_escalation_phone = stripped_or_none (value_at payload ''escalation_phone''),
                                 ct_revision = revision\<rparr>)))))))"

text \<open>A violation has a code and a message.\<close>

definition load_operating_charter :: "binding_host \<Rightarrow> (string \<Rightarrow> int option) \<Rightarrow> dict \<Rightarrow> (string \<times> string) + charter" where
  "load_operating_charter H P facts =
     (case map_of facts ''operating_charter'' of
        None \<Rightarrow> Inl (''CHARTER_MISSING'', ''No persisted operating charter is configured for this tenant.'')
      | Some raw \<Rightarrow>
          (case charter_payload_from_fact (Some raw) of
             None \<Rightarrow> Inl (''CHARTER_INVALID'', ''operating_charter must be an object'')
           | Some payload \<Rightarrow>
               (case parse_charter_payload H P payload of Inl e \<Rightarrow> Inl (''CHARTER_INVALID'', exn_text e) | Inr c \<Rightarrow> Inr c)))"

definition list_allows :: "string \<Rightarrow> string list \<Rightarrow> bool" where
  "list_allows name allowed \<longleftrightarrow> ''*'' \<in> set allowed \<or> name \<in> set allowed"

definition assert_action_allowed :: "string \<Rightarrow> side_effect_class \<Rightarrow> charter \<Rightarrow> (string \<times> string) + unit" where
  "assert_action_allowed name c ch =
     (if name \<in> set (ct_never_do ch)
      then Inl (''CHARTER_NEVER_DO'', ''Action '' @ quoted name @ '' is blocked by the tenant operating charter.'')
      else if has_side_effect c
      then (if list_allows name (ct_may_perform ch) then Inr ()
            else Inl (''CHARTER_PERFORM_NOT_ALLOWED'', ''Action '' @ quoted name @ '' requires perform permission in the operating charter.''))
      else if list_allows name (ct_may_prepare ch) then Inr ()
      else Inl (''CHARTER_PREPARE_NOT_ALLOWED'', ''Action '' @ quoted name @ '' requires prepare permission in the operating charter.''))"

definition charter_requires_human_review :: "charter \<Rightarrow> side_effect_class \<Rightarrow> bool" where
  "charter_requires_human_review ch c \<longleftrightarrow>
     ct_approval_mode ch \<noteq> ''none'' \<and> c \<in> {ExternalSend, ExternalWrite, ExternalPublish} \<and>
     ct_approval_mode ch \<in> {''notify_before_external'', ''always_notify''}"

subsection \<open>Credentials\<close>

record credential_requirement =
  cq_provider :: string
  cq_credential_type :: string
  cq_allowed_classes :: "side_effect_class list"
  cq_allowed_types :: "string list"

definition accepts_credential_type :: "credential_requirement \<Rightarrow> string \<Rightarrow> bool" where
  "accepts_credential_type q t \<longleftrightarrow> t \<in> set (if cq_allowed_types q = [] then [cq_credential_type q] else cq_allowed_types q)"

record credential_record =
  cd_provider :: string
  cd_credential_type :: string
  cd_enabled :: bool
  cd_revoked :: bool
  cd_deleted :: bool
  cd_allowed_actions :: "string list"
  cd_allowed_classes :: "side_effect_class list"
  cd_secret :: string

record credential_material =
  cm_reference :: credential_reference
  cm_secret :: string

record credential_host =
  kh_sensitive :: "json \<Rightarrow> bool"
  kh_bridged :: "string \<Rightarrow> string \<Rightarrow> string \<Rightarrow> bool"
  kh_records :: "string \<Rightarrow> string \<Rightarrow> credential_record option"

definition credential_denied :: "string \<Rightarrow> 'a result" where
  "credential_denied why = Inl (ValueError (''credential_reference '' @ why))"

definition requirement_error :: "credential_requirement option \<Rightarrow> credential_reference \<Rightarrow> side_effect_class \<Rightarrow> string option" where
  "requirement_error q r c =
     (case q of
        None \<Rightarrow> None
      | Some q \<Rightarrow>
          if cr_provider r \<noteq> cq_provider q \<or> \<not> accepts_credential_type q (cr_credential_type r)
          then Some ''is not compatible with action provider/type''
          else if cq_allowed_classes q \<noteq> [] \<and> c \<notin> set (cq_allowed_classes q) then Some ''is not allowed for side-effect class''
          else None)"

definition record_error :: "credential_record \<Rightarrow> credential_reference \<Rightarrow> string \<Rightarrow> side_effect_class \<Rightarrow> bool \<Rightarrow> string option" where
  "record_error d r name c relax =
     (if \<not> cd_enabled d then Some ''is disabled'' else if cd_revoked d then Some ''is revoked'' else if cd_deleted d then Some ''is deleted''
      else if cd_provider d \<noteq> cr_provider r \<or> cd_credential_type d \<noteq> cr_credential_type r
      then Some ''is not compatible with stored credential''
      else if cd_allowed_actions d \<noteq> [] \<and> name \<notin> set (cd_allowed_actions d) then Some ''is not allowed for action''
      else if \<not> relax \<and> cd_allowed_classes d \<noteq> [] \<and> c \<notin> set (cd_allowed_classes d) then Some ''is not allowed for side-effect class''
      else None)"

text \<open>The reference in the metadata of the task goes before the one in the invocation.\<close>

definition effective_reference :: "json option \<Rightarrow> tool_invocation \<Rightarrow> credential_reference option result" where
  "effective_reference ref i =
     (if ref \<in> {None, Some JNull} then Inr (ti_credential_reference i)
      else (case dict_of ref of
              None \<Rightarrow> Inl (ValueError ''CredentialReference'')
            | Some d \<Rightarrow> (case validate_credential d of None \<Rightarrow> Inl (ValueError ''CredentialReference'') | Some r \<Rightarrow> Inr (Some r))))"

definition resolve_for_action ::
  "credential_host \<Rightarrow> string \<Rightarrow> tool_invocation \<Rightarrow> json option \<Rightarrow> action_definition \<Rightarrow> side_effect_class \<Rightarrow> credential_requirement option \<Rightarrow>
     credential_material option result" where
  "resolve_for_action C tenant i ref a c q =
     (if kh_sensitive C (JObj (ti_input i)) then Inl (ValueError ''raw secret material is not allowed in tool invocation input'')
      else bind_result (effective_reference ref i) (\<lambda>found.
        case found of
          None \<Rightarrow> (if q = None then Inr None else credential_denied ''is required'')
        | Some r \<Rightarrow>
            (case requirement_error q r c of
               Some why \<Rightarrow> credential_denied why
             | None \<Rightarrow>
                 let bridged = cr_provider r \<noteq> ad_provider a
                 in if bridged \<and> \<not> kh_bridged C (ad_name a) (ad_provider a) (cr_provider r)
                    then credential_denied ''provider does not match action provider''
                    else (case kh_records C tenant (cr_credential_id r) of
                            None \<Rightarrow> credential_denied ''is not visible for tenant''
                          | Some d \<Rightarrow>
                              (case record_error d r (ad_name a) c bridged of
                                 Some why \<Rightarrow> credential_denied why
                               | None \<Rightarrow> Inr (Some \<lparr>cm_reference = r, cm_secret = cd_secret d\<rparr>))))))"

end
