(* ===== verification/ToolAuthority.thy ===== *)
theory ToolAuthority
  imports Capabilities
begin

section \<open>The authority that runs a tool\<close>

text \<open>
  \<open>backend/services/tools/runtime_authority.py\<close> and the running of an action in
  \<open>services/tools/action_registry.py\<close>: the last gate before a provider is called. The input is bound again, the action, its
  manifest, the charter of the tenant, the capability and the adapter, the grants and the credential are checked, and then the
  handler runs.

  A handler with the validation and the redaction of what it returns is an argument, as are the input models, the credential
  requirements of the actions and the approved facts of the tenants. The task is detached: its changed metadata reaches the
  database only through the completion of the task. Each session opened here is a new one, so it reads what is committed. The audit
  rows of a denial can be written: a database that refuses them is not modelled.
\<close>

subsection \<open>Results of actions\<close>

text \<open>Of an item of evidence the fields that the contract compares; the whole of it, as it is written, is its dump.\<close>

record evidence_item =
  ev_action_name :: string
  ev_tool_provider :: string
  ev_side_effect_class :: side_effect_class
  ev_tenant_id :: string
  ev_task_id :: string
  ev_mission_id :: "string option"
  ev_dump :: dict

record action_result =
  rs_action :: string
  rs_provider :: string
  rs_side_effect_class :: side_effect_class
  rs_output :: dict
  rs_evidence :: "evidence_item list"
  rs_records_inspected :: "string list"
  rs_records_changed :: "string list"
  rs_summary :: string
  rs_confidence :: "rat option"
  rs_limitations :: "string list"

record action_context =
  ax_tenant_id :: string
  ax_task_id :: uuid
  ax_mission_id :: "uuid option"
  ax_worker_id :: string
  ax_lease_id :: string
  ax_credentials :: "(string \<times> credential_material) list"

text \<open>What the authority is given: the declarations of the process, the rows of a tenant it looks up, and the handlers.\<close>

record 'q tool_host =
  th_runtime :: runtime_host
  th_registry :: action_registry
  th_manifests :: "(string \<times> ability_manifest) list"
  th_binding :: binding_host
  th_int :: "string \<Rightarrow> int option"
  th_schema :: "action_definition \<Rightarrow> string"
  th_facts :: "string \<Rightarrow> dict"
  th_capabilities :: "capability list"
  th_adapters :: "adapter list"
  th_credentials :: credential_host
  th_requirement :: "action_definition \<Rightarrow> credential_requirement option"
  th_input_ok :: "action_definition \<Rightarrow> dict \<Rightarrow> bool"
  th_handler :: "action_definition \<Rightarrow> tool_invocation \<Rightarrow> action_context \<Rightarrow> 'q world \<Rightarrow> action_result result \<times> 'q world"

definition th_ledger :: "'q tool_host \<Rightarrow> ledger_host" where
  "th_ledger H = rh_ledger (th_runtime H)"

definition require_that :: "bool \<Rightarrow> string \<Rightarrow> unit result" where
  "require_that ok why = (if ok then Inr () else Inl (ValueError why))"

text \<open>The contract of a result; the evidence is checked item by item.\<close>

definition evidence_error :: "action_definition \<Rightarrow> action_context \<Rightarrow> action_result \<Rightarrow> evidence_item \<Rightarrow> string option" where
  "evidence_error a x r e =
     (if ev_action_name e \<noteq> ad_name a then Some ''action evidence action_name must match registered canonical action''
      else if ev_tool_provider e \<noteq> rs_provider r then Some ''action evidence tool_provider must match action result provider''
      else if ev_side_effect_class e \<noteq> rs_side_effect_class r
      then Some ''action evidence side_effect_class must match action result side_effect_class''
      else if ev_tenant_id e \<noteq> ax_tenant_id x then Some ''action evidence tenant_id must match runtime context tenant_id''
      else if ev_task_id e \<noteq> ax_task_id x then Some ''action evidence task_id must match runtime context task_id''
      else if ev_mission_id e \<noteq> ax_mission_id x then Some ''action evidence mission_id must match runtime context mission_id''
      else None)"

definition validate_result_contract ::
  "action_definition \<Rightarrow> tool_invocation \<Rightarrow> action_context \<Rightarrow> action_result \<Rightarrow> unit result" where
  "validate_result_contract a i x r =
     bind_result (side_effect_for a i) (\<lambda>expected.
       if rs_action r \<noteq> ad_name a then Inl (ValueError ''action result action must match registered canonical action'')
       else if rs_provider r \<noteq> ad_provider a then Inl (ValueError ''action result provider must match registered action provider'')
       else if rs_side_effect_class r \<noteq> expected
       then Inl (ValueError ''action result side_effect_class must match effective action side_effect_class'')
       else if rs_evidence r = [] then Inl (ValueError ''action result must include at least one EvidenceItem'')
       else (case first_error (map (evidence_error a x r) (rs_evidence r)) of None \<Rightarrow> Inr () | Some e \<Rightarrow> Inl (ValueError e)))"

definition invoke_action ::
  "'q tool_host \<Rightarrow> tool_invocation \<Rightarrow> action_context \<Rightarrow> 'q world \<Rightarrow> action_result result \<times> 'q world" where
  "invoke_action H i x w =
     andthen (get_action (th_registry H) (ti_action i), w) (\<lambda>a w.
     andthen (require_that (th_input_ok H a (ti_input i)) (''invalid input for action '' @ ad_name a), w) (\<lambda>_ w.
     andthen (th_handler H a i x w) (\<lambda>r w1.
     andthen (validate_result_contract a i x r, w1) (\<lambda>_ w2. (Inr r, w2)))))"

subsection \<open>Binding and reading the request\<close>

text \<open>The task with the bound invocation in its metadata, and the audit of the binding.\<close>

definition bound_task :: "binding_host \<Rightarrow> execution_task \<Rightarrow> db \<Rightarrow> (execution_task \<times> dict) result" where
  "bound_task B x d =
     (case bind_tool_invocation_for_task B x d of
        Deferred why \<Rightarrow> Inl (RuntimeError why)
      | Unbindable why \<Rightarrow> Inl (ValueError (''tool.invoke input binding failed: '' @ why))
      | Bound call trail \<Rightarrow>
          Inr (if call \<noteq> [] \<and> \<not> get_truthy trail ''skipped''
               then x\<lparr>t_metadata := set_fields (t_metadata x) [(''tool_invocation'', JObj call), (''input_binding_audit'', JObj trail)]\<rparr>
               else x, trail))"

definition enriched :: "dict \<Rightarrow> tool_invocation \<Rightarrow> tool_invocation" where
  "enriched md i =
     (if ti_credential_reference i \<noteq> None then i
      else (case credential_field md ''credential_reference'' of
              None \<Rightarrow> i | Some r \<Rightarrow> i\<lparr>ti_credential_reference := Some r\<rparr>))"

definition read_invocation :: "dict \<Rightarrow> tool_invocation result" where
  "read_invocation md =
     (case dict_of (map_of md ''tool_invocation'') of
        None \<Rightarrow> Inl (ValueError ''tool.invoke requires metadata_json.tool_invocation object'')
      | Some raw \<Rightarrow> (case validate_invocation raw of
                      None \<Rightarrow> Inl (ValueError ''invalid tool_invocation'') | Some i \<Rightarrow> Inr (enriched md i)))"

definition aligned_manifest :: "'q tool_host \<Rightarrow> action_definition \<Rightarrow> ability_manifest result" where
  "aligned_manifest H a =
     (case map_of (th_manifests H) (ad_name a) of
        None \<Rightarrow> Inl (ValueError (''tool.invoke action '' @ quoted (ad_name a) @ '' has no ability manifest''))
      | Some m \<Rightarrow>
          (case alignment_error (th_schema H) a m of
             Some e \<Rightarrow> Inl (ValueError (''tool.invoke action '' @ quoted (ad_name a) @ '' ability manifest is invalid: '' @ e))
           | None \<Rightarrow> Inr m))"

text \<open>What \<open>authorize\<close> settles before it opens a session.\<close>

definition requested_action ::
  "'q tool_host \<Rightarrow> string \<Rightarrow> execution_task \<Rightarrow> (tool_invocation \<times> action_definition \<times> ability_manifest \<times> side_effect_class) result" where
  "requested_action H tenant x =
     bind_result (require_that (t_tenant_id x = tenant) ''tool.invoke tenant mismatch'') (\<lambda>_.
     bind_result (require_that (\<not> kh_sensitive (th_credentials H) (JObj (t_metadata x)))
       ''tool.invoke credential denied: raw secret material is not allowed in task metadata'') (\<lambda>_.
     bind_result (read_invocation (t_metadata x)) (\<lambda>i.
     bind_result (get_action (th_registry H) (ti_action i)) (\<lambda>a.
     bind_result (aligned_manifest H a) (\<lambda>m.
     bind_result (side_effect_for a i) (\<lambda>c.
     bind_result (require_that (\<not> has_side_effect c \<or> t_status x = TRunning)
       ''side-effecting tool.invoke action requires running task state'') (\<lambda>_. Inr (i, a, m, c))))))))"

subsection \<open>The charter\<close>

definition charter_verdict :: "'q tool_host \<Rightarrow> execution_task \<Rightarrow> action_definition \<Rightarrow> side_effect_class \<Rightarrow> (string \<times> string) + unit" where
  "charter_verdict H x a c =
     (case load_operating_charter (th_binding H) (th_int H) (th_facts H (t_tenant_id x)) of
        Inl e \<Rightarrow> Inl e | Inr ch \<Rightarrow> assert_action_allowed (ad_name a) c ch)"

definition persisted_mission :: "execution_task \<Rightarrow> db \<Rightarrow> uuid option" where
  "persisted_mission x d =
     (case t_mission_id x of
        None \<Rightarrow> None
      | Some mid \<Rightarrow> map_option m_id (find (\<lambda>m. m_id m = mid \<and> m_tenant_id m = t_tenant_id x) (db_missions d)))"

definition mission_reference :: "execution_task \<Rightarrow> uuid option \<Rightarrow> dict" where
  "mission_reference x mid =
     [(''mission_reference_status'', JStr (if mid \<noteq> None then ''persisted'' else ''unverified'')),
      (''original_mission_id'', opt_str (t_mission_id x))]"

definition denial_fact :: "execution_task \<Rightarrow> uuid option \<Rightarrow> string \<Rightarrow> string \<Rightarrow> string \<Rightarrow> dict \<Rightarrow> fact_args" where
  "denial_fact x mid category action details facts =
     \<lparr>fa_event_id = [], fa_tenant_id = t_tenant_id x, fa_mission_id = mid, fa_category = category, fa_action = action,
      fa_producer = ''tool_runtime_authority'', fa_actor = ''tool_runtime_authority'', fa_details = details,
      fa_facts = facts @ mission_reference x mid, fa_authority_context = [], fa_causation_id = Some (t_id x), fa_correlation_id = mid,
      fa_evidence_references = [], fa_occurred_at = 0\<rparr>"

definition record_charter_denial ::
  "'q tool_host \<Rightarrow> 'q queue_adapter \<Rightarrow> execution_task \<Rightarrow> string \<Rightarrow> side_effect_class \<Rightarrow> string \<Rightarrow> 'q world \<Rightarrow> 'q world" where
  "record_charter_denial H Q x name c code w =
     commit Q (record_fact (th_runtime H)
       (denial_fact x (persisted_mission x (w_db w)) ''operating_charter'' ''side_effect_denied_at_execution''
          ''Current tenant charter denied a queued side-effect before provider invocation.''
          [(''task_id'', JStr (t_id x)), (''action'', JStr name), (''side_effect_class'', JStr (effect_value c)),
           (''reason_code'', JStr code), (''enforcement_boundary'', JStr ''pre_provider_invocation'')]) w)"

definition check_charter ::
  "'q tool_host \<Rightarrow> 'q queue_adapter \<Rightarrow> execution_task \<Rightarrow> action_definition \<Rightarrow> side_effect_class \<Rightarrow> 'q world \<Rightarrow> unit result \<times> 'q world" where
  "check_charter H Q x a c w =
     (if \<not> has_side_effect c then (Inr (), w)
      else (case charter_verdict H x a c of
              Inr _ \<Rightarrow> (Inr (), w)
            | Inl (code, message) \<Rightarrow>
                (Inl (ValueError (''tool.invoke charter denied ['' @ code @ '']: '' @ message)),
                 record_charter_denial H Q x (ad_name a) c code w)))"

subsection \<open>The ability\<close>

definition check_promotion :: "'q tool_host \<Rightarrow> execution_task \<Rightarrow> action_definition \<Rightarrow> side_effect_class \<Rightarrow> time \<Rightarrow> unit result" where
  "check_promotion H x a c now =
     (case validate_capability_action_authority (th_binding H) (th_ledger H) (th_capabilities H) (th_adapters H) (t_tenant_id x)
         (t_metadata x) a c (t_id x) now of
        Inl (Denied why) \<Rightarrow> Inl (ValueError (''tool.invoke promotion denied: '' @ why))
      | Inl (Failure e) \<Rightarrow> Inl e
      | Inr _ \<Rightarrow> Inr ())"

definition approval_revalidated :: "'q tool_host \<Rightarrow> execution_task \<Rightarrow> ability_manifest \<Rightarrow> time \<Rightarrow> bool option" where
  "approval_revalidated H x m now =
     (if am_approval_required m then Some (ability_authorized (th_ledger H) (t_metadata x) m (t_tenant_id x) (t_id x) now) else None)"

definition optional_bool :: "bool option \<Rightarrow> json" where
  "optional_bool b = (case b of None \<Rightarrow> JNull | Some v \<Rightarrow> JBool v)"

definition is_object :: "dict \<Rightarrow> string \<Rightarrow> bool" where
  "is_object d k \<longleftrightarrow> dict_of (map_of d k) \<noteq> None"

definition governance_snapshot :: "'q tool_host \<Rightarrow> execution_task \<Rightarrow> ability_manifest \<Rightarrow> bool option \<Rightarrow> dict" where
  "governance_snapshot H x m approved =
     manifest_governance_snapshot (th_ledger H) m @
     [(''capability_reference_present'', JBool (is_object (t_metadata x) ''capability_reference'')),
      (''adapter_reference_present'', JBool (is_object (t_metadata x) ''adapter_reference'')),
      (''ability_approval_revalidated'', optional_bool approved)]"

definition plain_observation :: "string \<Rightarrow> string \<Rightarrow> string \<Rightarrow> string \<Rightarrow> string \<Rightarrow> dict \<Rightarrow> causal_observation" where
  "plain_observation stage decision reason transformation path safe =
     \<lparr>co_schema_version = 1, co_stage = stage, co_decision = decision, co_reason_code = reason,
      co_transformation_id = Some transformation, co_alternatives = [], co_selected_path = Some path, co_rejected_paths = [],
      co_source_provenance = [], co_field_lineage = [], co_constraints = [], co_safe_metadata = safe\<rparr>"

definition governance_observation :: "ability_manifest \<Rightarrow> bool option \<Rightarrow> dict \<Rightarrow> causal_observation" where
  "governance_observation m approved snapshot =
     (plain_observation ''ability_governance'' ''ability_manifest_revalidated''
        (case approved of None \<Rightarrow> ''approval_not_required''
         | Some ok \<Rightarrow> if ok then ''human_approval_current'' else ''human_approval_missing_or_invalid'')
        ''ability-manifest-governance:v1'' (am_ability_id m) snapshot)
       \<lparr>co_constraints := [''manifest_alignment'', ''tenant_capability_adapter_authority'']\<rparr>"

definition noted_observations :: "dict \<Rightarrow> json list" where
  "noted_observations md = (case list_of (map_of md ''runtime_causal_observations'') of None \<Rightarrow> [] | Some vs \<Rightarrow> vs)"

definition observation_json :: "causal_observation \<Rightarrow> json result" where
  "observation_json c = bind_result (make_observation c) (\<lambda>c. Inr (JObj (observation_dump c)))"

definition note_governance :: "'q tool_host \<Rightarrow> execution_task \<Rightarrow> ability_manifest \<Rightarrow> bool option \<Rightarrow> execution_task result" where
  "note_governance H x m approved =
     (let snapshot = governance_snapshot H x m approved
      in bind_result (observation_json (governance_observation m approved snapshot)) (\<lambda>v.
           Inr (x\<lparr>t_metadata := set_fields (t_metadata x)
             [(''ability_governance'', JObj snapshot),
              (''runtime_causal_observations'', JArr (noted_observations (t_metadata x) @ [v]))]\<rparr>)))"

definition record_ability_denial :: "'q tool_host \<Rightarrow> 'q queue_adapter \<Rightarrow> execution_task \<Rightarrow> ability_manifest \<Rightarrow> 'q world \<Rightarrow> 'q world" where
  "record_ability_denial H Q x m w =
     commit Q (record_fact (th_runtime H)
       (denial_fact x (persisted_mission x (w_db w)) ''ability_governance'' ''ability_approval_denied_at_execution''
          (''Current task-bound ability approval was missing, expired, revoked, or '' @ ''invalid before provider invocation.'')
          [(''task_id'', JStr (t_id x)), (''ability_id'', JStr (am_ability_id m)), (''action'', JStr (am_action_name m)),
           (''manifest_fingerprint'', JStr (manifest_fingerprint (th_ledger H) m)), (''approval_required'', JBool True),
           (''reason_code'', JStr ''human_approval_missing_or_invalid''),
           (''enforcement_boundary'', JStr ''pre_provider_invocation'')]) w)"

definition check_ability ::
  "'q tool_host \<Rightarrow> 'q queue_adapter \<Rightarrow> execution_task \<Rightarrow> ability_manifest \<Rightarrow> 'q world \<Rightarrow> execution_task result \<times> 'q world" where
  "check_ability H Q x m w =
     (let approved = approval_revalidated H x m (w_clock w)
      in andthen (note_governance H x m approved, w) (\<lambda>y w.
           if approved = Some False
           then (Inl (ValueError ''tool.invoke ability manifest requires a current task-bound human approval''),
                 record_ability_denial H Q y m w)
           else (Inr y, w)))"

text \<open>\<open>authorize\<close>: what may run, and the task with the observation of the ability in its metadata.\<close>

definition authorize ::
  "'q tool_host \<Rightarrow> 'q queue_adapter \<Rightarrow> string \<Rightarrow> execution_task \<Rightarrow> 'q world \<Rightarrow>
     (execution_task \<times> tool_invocation \<times> action_definition \<times> side_effect_class) result \<times> 'q world" where
  "authorize H Q tenant x w =
     andthen (requested_action H tenant x, rollback w) (\<lambda>(i, a, m, c) w.
     andthen (check_charter H Q x a c w) (\<lambda>_ w.
     andthen (check_promotion H x a c (w_clock w), w) (\<lambda>_ w.
     andthen (check_ability H Q x m w) (\<lambda>y w1. (Inr (y, i, a, c), w1)))))"

subsection \<open>Running the action\<close>

record tool_context =
  tc_tenant_id :: string
  tc_worker_id :: string
  tc_lease_id :: string

definition binding_observation :: "action_definition \<Rightarrow> dict \<Rightarrow> causal_observation" where
  "binding_observation a trail =
     (let skipped = get_truthy trail ''skipped''
      in (plain_observation ''input_binding'' ''invocation_bound''
            (if trail \<noteq> [] \<and> \<not> skipped then ''dependency_binding'' else ''no_dependencies'') ''mission-input-binding:v1'' (ad_name a)
            [(''binding_skipped'', JBool skipped),
             (''binding_key_count'', JInt (case list_of (map_of trail ''bindings_applied'') of None \<Rightarrow> 0 | Some vs \<Rightarrow> int (length vs)))])
           \<lparr>co_field_lineage := [(''task.input'', if skipped then ''task.declared_input'' else ''upstream.artifact'')]\<rparr>)"

definition provider_observation :: "action_definition \<Rightarrow> side_effect_class \<Rightarrow> causal_observation" where
  "provider_observation a c =
     plain_observation ''provider_selection'' ''provider_selected'' ''registered_action_provider''
       ''action-registry:provider-selection:v1'' (ad_provider a)
       [(''action'', JStr (ad_name a)), (''side_effect_class'', JStr (effect_value c))]"

definition note_selection :: "action_definition \<Rightarrow> side_effect_class \<Rightarrow> dict \<Rightarrow> execution_task \<Rightarrow> execution_task result" where
  "note_selection a c trail x =
     bind_result (observation_json (binding_observation a trail)) (\<lambda>v1.
     bind_result (observation_json (provider_observation a c)) (\<lambda>v2.
       Inr (x\<lparr>t_metadata := AList.update ''runtime_causal_observations''
         (JArr (noted_observations (t_metadata x) @ [v1, v2])) (t_metadata x)\<rparr>)))"

definition runtime_credential ::
  "'q tool_host \<Rightarrow> execution_task \<Rightarrow> tool_invocation \<Rightarrow> action_definition \<Rightarrow> side_effect_class \<Rightarrow> credential_material option result" where
  "runtime_credential H x i a c =
     (case resolve_for_action (th_credentials H) (t_tenant_id x) i (map_of (t_metadata x) ''credential_reference'') a c (th_requirement H a) of
        Inl e \<Rightarrow> Inl (ValueError (''tool.invoke credential denied: '' @ exn_text e))
      | Inr m \<Rightarrow> Inr m)"

definition handed_credentials :: "action_definition \<Rightarrow> credential_material option \<Rightarrow> (string \<times> credential_material) list" where
  "handed_credentials a found =
     (case found of
        None \<Rightarrow> []
      | Some k \<Rightarrow>
          (if cr_provider (cm_reference k) \<noteq> ad_provider a then AList.update (cr_provider (cm_reference k)) k else id) [(ad_name a, k)])"

definition action_context_of ::
  "tool_context \<Rightarrow> execution_task \<Rightarrow> (string \<times> credential_material) list \<Rightarrow> action_context result" where
  "action_context_of cx x credentials =
     (if t_tenant_id x = [] \<or> tc_worker_id cx = [] \<or> tc_lease_id cx = [] then Inl (ValueError ''ActionRuntimeContext'')
      else Inr \<lparr>ax_tenant_id = t_tenant_id x, ax_task_id = t_id x, ax_mission_id = t_mission_id x, ax_worker_id = tc_worker_id cx,
             ax_lease_id = tc_lease_id cx, ax_credentials = credentials\<rparr>)"

definition texts :: "string list \<Rightarrow> json" where
  "texts ts = JArr (map JStr ts)"

definition tool_output ::
  "tool_context \<Rightarrow> execution_task \<Rightarrow> tool_invocation \<Rightarrow> action_definition \<Rightarrow> dict \<Rightarrow> action_result \<Rightarrow> dict" where
  "tool_output cx x i a trail r =
     [(''handler'', JStr ''tool.invoke''), (''status'', JStr ''completed''), (''schema_version'', JInt 1), (''action'', JStr (ad_name a)),
      (''requested_action'', JStr (ti_action i)), (''provider'', JStr (rs_provider r)),
      (''side_effect_class'', JStr (effect_value (rs_side_effect_class r))), (''output'', JObj (rs_output r)),
      (''evidence'', JArr (map (\<lambda>e. JObj (ev_dump e)) (rs_evidence r))), (''records_inspected'', texts (rs_records_inspected r)),
      (''records_changed'', texts (rs_records_changed r)), (''summary'', JStr (rs_summary r)),
      (''confidence'', case rs_confidence r of None \<Rightarrow> JNull | Some q \<Rightarrow> JFloat q), (''limitations'', texts (rs_limitations r)),
      (''input_binding_audit'', JObj trail),
      (''runtime_context'', JObj [(''tenant_id'', JStr (t_tenant_id x)), (''task_id'', JStr (t_id x)),
         (''mission_id'', opt_str (t_mission_id x)), (''worker_id'', JStr (tc_worker_id cx)), (''lease_id'', JStr (tc_lease_id cx))])]"

text \<open>
  \<open>execute\<close>: the output and the task as the completion sees it. An exception leaves the metadata of the detached task as it was when it
  was raised; the dispatcher does not read it then.
\<close>

definition tool_execute ::
  "'q tool_host \<Rightarrow> 'q queue_adapter \<Rightarrow> tool_context \<Rightarrow> execution_task \<Rightarrow> 'q world \<Rightarrow> (dict \<times> execution_task) result \<times> 'q world" where
  "tool_execute H Q cx x w =
     andthen (bound_task (th_binding H) x (w_durable w), rollback w) (\<lambda>(y, trail) w.
     andthen (authorize H Q (tc_tenant_id cx) y w) (\<lambda>(y1, i, a, c) w.
     andthen (note_selection a c trail y1, w) (\<lambda>y2 w.
     andthen (runtime_credential H y2 i a c, w) (\<lambda>found w.
     andthen (action_context_of cx y2 (handed_credentials a found), w) (\<lambda>ax w.
     andthen (invoke_action H i ax w) (\<lambda>r w1. (Inr (tool_output cx y2 i a trail r, y2), w1)))))))"


subsection \<open>What has been checked when a handler runs\<close>

text \<open>Nothing before the handler looks at the handlers.\<close>

definition with_handler ::
  "(action_definition \<Rightarrow> tool_invocation \<Rightarrow> action_context \<Rightarrow> 'q world \<Rightarrow> action_result result \<times> 'q world) \<Rightarrow> 'q tool_host \<Rightarrow> 'q tool_host" where
  "with_handler f H = H\<lparr>th_handler := f\<rparr>"

lemma with_handler_sel [simp]:
  "th_binding (with_handler f H) = th_binding H" "th_registry (with_handler f H) = th_registry H"
  "th_input_ok (with_handler f H) = th_input_ok H" "th_handler (with_handler f H) = f" "th_ledger (with_handler f H) = th_ledger H"
  "th_runtime (with_handler f H) = th_runtime H" "th_credentials (with_handler f H) = th_credentials H"
  "th_requirement (with_handler f H) = th_requirement H" "th_manifests (with_handler f H) = th_manifests H"
  "th_schema (with_handler f H) = th_schema H" "th_facts (with_handler f H) = th_facts H" "th_int (with_handler f H) = th_int H"
  "th_capabilities (with_handler f H) = th_capabilities H" "th_adapters (with_handler f H) = th_adapters H"
  by (simp_all add: with_handler_def th_ledger_def)

lemma with_handler_steps [simp]:
  "aligned_manifest (with_handler f H) a = aligned_manifest H a"
  "requested_action (with_handler f H) tenant x = requested_action H tenant x"
  "check_charter (with_handler f H) Q x a c w = check_charter H Q x a c w"
  "check_promotion (with_handler f H) x a c now = check_promotion H x a c now"
  "check_ability (with_handler f H) Q x m w = check_ability H Q x m w"
  "runtime_credential (with_handler f H) x i a c = runtime_credential H x i a c"
proof -
  show manifest: "aligned_manifest (with_handler f H) a = aligned_manifest H a" for a
    by (simp add: aligned_manifest_def split: option.split)
  show "requested_action (with_handler f H) tenant x = requested_action H tenant x"
    by (simp add: requested_action_def manifest)
  have denial: "record_ability_denial (with_handler f H) Q y m w = record_ability_denial H Q y m w" for y w
    by (simp add: record_ability_denial_def)
  show "check_ability (with_handler f H) Q x m w = check_ability H Q x m w"
    by (simp add: check_ability_def approval_revalidated_def note_governance_def governance_snapshot_def denial cong: if_cong)
qed (simp_all add: check_charter_def charter_verdict_def record_charter_denial_def check_promotion_def
    runtime_credential_def split: sum.split)

lemma with_handler_authorize [simp]: "authorize (with_handler f H) Q tenant x w = authorize H Q tenant x w"
  by (simp add: authorize_def)

text \<open>The run up to the handler: what it would be called with.\<close>

definition handler_call ::
  "'q tool_host \<Rightarrow> 'q queue_adapter \<Rightarrow> tool_context \<Rightarrow> execution_task \<Rightarrow> 'q world \<Rightarrow>
     (dict \<times> execution_task \<times> tool_invocation \<times> action_definition \<times> action_context) result \<times> 'q world" where
  "handler_call H Q cx x w =
     andthen (bound_task (th_binding H) x (w_durable w), rollback w) (\<lambda>(y, trail) w.
     andthen (authorize H Q (tc_tenant_id cx) y w) (\<lambda>(y1, i, a, c) w.
     andthen (note_selection a c trail y1, w) (\<lambda>y2 w.
     andthen (runtime_credential H y2 i a c, w) (\<lambda>found w.
     andthen (action_context_of cx y2 (handed_credentials a found), w) (\<lambda>ax w. (Inr (trail, y2, i, a, ax), w))))))"

lemma tool_execute_call:
  "tool_execute H Q cx x w =
     andthen (handler_call H Q cx x w) (\<lambda>(trail, y, i, a, ax) w1.
       andthen (invoke_action H i ax w1) (\<lambda>r w2. (Inr (tool_output cx y i a trail r, y), w2)))"
  by (simp add: tool_execute_def handler_call_def andthen_def split: sum.split prod.split)

lemma with_handler_call [simp]: "handler_call (with_handler f H) Q cx x w = handler_call H Q cx x w"
  by (simp add: handler_call_def)

lemma execute_differs:
  assumes "tool_execute (with_handler f H) Q cx x w \<noteq> tool_execute (with_handler g H) Q cx x w"
  obtains trail y i a ax w1 where "handler_call H Q cx x w = (Inr (trail, y, i, a, ax), w1)"
proof (cases "fst (handler_call H Q cx x w)")
  case (Inl e)
  then have "tool_execute (with_handler f H) Q cx x w = tool_execute (with_handler g H) Q cx x w"
    by (cases "handler_call H Q cx x w") (simp add: tool_execute_call)
  then show thesis using assms by simp
next
  case (Inr r)
  then show thesis using that by (cases r; cases "handler_call H Q cx x w") auto
qed

lemma require_that_Inr [simp]: "require_that b why = Inr u \<longleftrightarrow> b"
  by (simp add: require_that_def)

lemma deny_unless_Inr [simp]: "deny_unless b why = Inr u \<longleftrightarrow> b"
  by (simp add: deny_unless_def)

lemma and_also_Inr: "and_also r f = Inr y \<longleftrightarrow> (\<exists>x. r = Inr x \<and> f x = Inr y)"
  by (auto simp: and_also_def split: sum.split)

lemma requested_Inr:
  "requested_action H tenant x = Inr (i, a, m, c) \<longleftrightarrow>
     t_tenant_id x = tenant \<and> \<not> kh_sensitive (th_credentials H) (JObj (t_metadata x)) \<and> read_invocation (t_metadata x) = Inr i \<and>
     get_action (th_registry H) (ti_action i) = Inr a \<and> aligned_manifest H a = Inr m \<and> side_effect_for a i = Inr c \<and>
     (has_side_effect c \<longrightarrow> t_status x = TRunning)"
  by (auto simp: requested_action_def bind_result_Inr)

lemma check_charter_Inr:
  "check_charter H Q x a c w = (Inr u, w1) \<longleftrightarrow> w1 = w \<and> (has_side_effect c \<longrightarrow> charter_verdict H x a c = Inr ())"
  by (auto simp: check_charter_def split: sum.split)

lemma check_promotion_Inr:
  "check_promotion H x a c now = Inr u \<longleftrightarrow>
     validate_capability_action_authority (th_binding H) (th_ledger H) (th_capabilities H) (th_adapters H) (t_tenant_id x)
       (t_metadata x) a c (t_id x) now = Inr ()"
  by (auto simp: check_promotion_def split: sum.split denial.split)

lemma check_ability_Inr:
  assumes "check_ability H Q x m w = (Inr y, w1)"
  shows "w1 = w \<and> note_governance H x m (approval_revalidated H x m (w_clock w)) = Inr y \<and>
    (am_approval_required m \<longrightarrow> ability_authorized (th_ledger H) (t_metadata x) m (t_tenant_id x) (t_id x) (w_clock w))"
  using assms by (auto simp: check_ability_def andthen_Inr Let_def approval_revalidated_def split: if_splits)

lemma authorize_Inr:
  assumes "authorize H Q tenant x w = (Inr (y, i, a, c), w1)"
  shows "\<exists>m. w1 = rollback w \<and> requested_action H tenant x = Inr (i, a, m, c) \<and>
    (has_side_effect c \<longrightarrow> charter_verdict H x a c = Inr ()) \<and> check_promotion H x a c (w_clock w) = Inr () \<and>
    note_governance H x m (approval_revalidated H x m (w_clock w)) = Inr y \<and>
    (am_approval_required m \<longrightarrow> ability_authorized (th_ledger H) (t_metadata x) m (t_tenant_id x) (t_id x) (w_clock w))"
  using assms check_ability_Inr [of H Q x]
  by (auto simp: authorize_def andthen_Inr check_charter_Inr rollback_def dest!: check_ability_Inr)

text \<open>What the checks of the capability and the adapter give.\<close>

lemma promotion_needs:
  assumes "validate_capability_action_authority B L caps ads tenant md a c k now = Inr ()"
  shows "has_side_effect c \<longrightarrow> side_effect_authorized L md (ad_name a) (Some tenant) (Some k) now"
    and "external_class c \<longrightarrow> (\<exists>p. resolve_adapter tenant ads (map_of md ''adapter_reference'') = Inr (Some p) \<and>
      ap_enabled p \<and> adapter_authorizes (ap_side_effect_classification p) c)"
proof -
  obtain cap adp where "resolve_adapter tenant ads (map_of md ''adapter_reference'') = Inr adp"
    and "requires_promotion c \<longrightarrow> validate_promotion L md a c cap adp tenant k now = Inr ()"
    using assms by (auto simp: validate_capability_action_authority_def and_also_Inr split: if_splits)
  moreover have "ap_enabled p" if "adp = Some p" for p
    using calculation(1) that by (auto simp: resolve_adapter_def and_also_Inr split: if_splits option.splits)
  ultimately show "has_side_effect c \<longrightarrow> side_effect_authorized L md (ad_name a) (Some tenant) (Some k) now"
    and "external_class c \<longrightarrow> (\<exists>p. resolve_adapter tenant ads (map_of md ''adapter_reference'') = Inr (Some p) \<and>
      ap_enabled p \<and> adapter_authorizes (ap_side_effect_classification p) c)"
    by (auto simp: requires_promotion_def validate_promotion_def and_also_Inr split: option.splits)
qed

lemma charter_needs:
  assumes "charter_verdict H x a c = Inr ()" and "has_side_effect c"
  shows "\<exists>ch. load_operating_charter (th_binding H) (th_int H) (th_facts H (t_tenant_id x)) = Inr ch \<and>
    ad_name a \<notin> set (ct_never_do ch) \<and> list_allows (ad_name a) (ct_may_perform ch)"
  using assms by (auto simp: charter_verdict_def assert_action_allowed_def split: sum.splits if_splits)

end
