(* ===== verification/WorkerRuns.thy ===== *)
theory WorkerRuns
  imports MaintenanceRuns
begin

section \<open>What the worker runtime keeps\<close>

text \<open>
  Over the operations of Worker and Maintenance: a task has one live lease whatever its workers do in whatever order, what a
  claim grants, and the calls that cannot succeed or succeed too easily.
\<close>

subsection \<open>Runs of calls\<close>

text \<open>
  The calls of all workers, users and schedulers of the service and the passes of the maintainer, in the order they take the database. Each has its own
  session, which is closed at its end. Between calls the queue may change in any way, as leases lapse there and
  other services publish and recover messages, and time passes.
\<close>

datatype 'q worker_call =
    Claim string string
  | Heartbeat string uuid string
  | StartExecution string uuid string
  | Complete string uuid string "dict option" "string option" "dict option"
  | BlockCompletion string uuid string string string string
  | FailTask string uuid string string
  | Release string uuid string
  | CancelTask string uuid string string
  | CancelMission string uuid string string
  | PublishDue nat
  | Recover maintainer
  | QueueChange 'q
  | Elapse nat

primrec do_call :: "nat \<Rightarrow> runtime_host \<Rightarrow> 'q queue_adapter \<Rightarrow> 'q worker_call \<Rightarrow> 'q world \<Rightarrow> 'q world" where
  "do_call n K Q (Claim t wk) w = snd (claim_next_task n K Q t wk w)"
| "do_call n K Q (Heartbeat t lid wk) w = snd (worker_heartbeat Q t lid wk w)"
| "do_call n K Q (StartExecution t lid wk) w = snd (start_execution K Q t lid wk w)"
| "do_call n K Q (Complete t lid wk given why md) w = snd (worker_complete n K Q t lid wk given why md w)"
| "do_call n K Q (BlockCompletion t lid wk ty cls why) w = snd (block_completion_failure Q t lid wk ty cls why w)"
| "do_call n K Q (FailTask t lid wk why) w = snd (worker_fail n K Q t lid wk why w)"
| "do_call n K Q (Release t lid wk) w = snd (worker_release Q t lid wk w)"
| "do_call n K Q (CancelTask t k a why) w = snd (worker_cancel_task n K Q t k a why w)"
| "do_call n K Q (CancelMission t i a why) w = snd (worker_cancel_mission n K Q t i a why w)"
| "do_call n K Q (PublishDue limit) w = snd (publish_due Q limit w)"
| "do_call n K Q (Recover M) w = snd (recover_runtime K M Q w)"
| "do_call n K Q (QueueChange q) w = w\<lparr>w_queue := q\<rparr>"
| "do_call n K Q (Elapse k) w = w\<lparr>w_clock := w_clock w + int k\<rparr>"

definition run_calls ::
  "nat \<Rightarrow> runtime_host \<Rightarrow> 'q queue_adapter \<Rightarrow> 'q worker_call list \<Rightarrow> 'q world \<Rightarrow> 'q world" where
  "run_calls n K Q calls w = fold (\<lambda>c w. rollback (do_call n K Q c w)) calls w"

lemma step_call: "lease_step w (do_call n K Q c w)"
proof (cases c)
  case (Elapse k)
  then show ?thesis by (simp add: lease_step_def lease_inv_def)
qed (simp_all add: step_claim step_heartbeat step_start step_complete step_block step_fail step_release step_frame
    frame_cancel_task frame_cancel_mission frame_publish_due step_recover frame_queue lease_frame_refl)

lemma run_calls_inv: "lease_inv w \<Longrightarrow> lease_inv (run_calls n K Q calls w)"
  unfolding run_calls_def
proof (induction calls arbitrary: w)
  case (Cons c calls)
  have "lease_inv (rollback (do_call n K Q c w))"
    using step_rollback [OF step_call] Cons.prems unfolding lease_step_def by blast
  then show ?case using Cons.IH by simp
qed simp

text \<open>
  C1: a task has at most one live lease. Whatever calls the workers and users make and whenever expired leases are recovered, with whatever
  arguments and in whatever order, and however the queue behaves in between, no two leases
  of a task are claimed or active at once in the database, although no constraint of the table forbids it.
\<close>

theorem one_live_lease_per_task:
  assumes "lease_inv w" and "w' = run_calls n K Q calls w"
    and "l1 \<in> set (db_leases (w_durable w'))" "l2 \<in> set (db_leases (w_durable w'))"
    and "live_lease l1" "live_lease l2" and "l_tenant_id l1 = l_tenant_id l2" "l_task_id l1 = l_task_id l2"
  shows "l1 = l2"
proof -
  have "leases_from (w_ids w') (w_next_id w') (db_leases (w_durable w'))"
    using run_calls_inv [OF assms(1)] assms(2) by (simp add: lease_inv_def)
  then have d: "distinct (map l_id (db_leases (w_durable w')))" and one: "single_live (db_leases (w_durable w'))"
    by (simp_all add: leases_from_def)
  have "l_id l1 = l_id l2" by (rule single_liveD [OF one assms(3-8)])
  then show ?thesis using d assms(3,4) by (metis distinct_map inj_onD)
qed

text \<open>A tenant with one queued task, whose message is in the in-process queue.\<close>

definition small_queue :: local_queue where
  "small_queue = snd (enqueue_task local_adapter local_init (example_message ''acme'' uuid_a))"

definition small_world :: "local_queue world" where
  "small_world =
     (let d = empty_db\<lparr>db_tasks := [(example_task TQueued)\<lparr>t_id := uuid_a\<rparr>]\<rparr>
      in \<lparr>w_db = d, w_durable = d, w_queue = small_queue, w_clock = 0, w_intents = [],
          w_ids = (\<lambda>n. CHR ''l'' # replicate n (CHR ''x'')), w_next_id = 0\<rparr>)"

lemma small_world_inv: "lease_inv small_world"
  by (simp add: lease_inv_def small_world_def Let_def leases_from_def single_live_def inj_def empty_db_def)

definition two_claims :: "local_queue worker_call list" where
  "two_claims = [Claim ''acme'' ''a'', Release ''acme'' ''l'' ''a'', Claim ''acme'' ''b'']"

lemma two_claims_leases:
  "map (\<lambda>l. (l_id l, l_holder_identity l, l_status l)) (db_leases (w_durable (run_calls 3 plain_runtime local_adapter two_claims small_world))) =
     [(''l'', ''a'', LReleased), (''lx'', ''b'', LClaimed)]"
  by code_simp

theorem one_live_lease_per_task_witness:
  "\<exists>l. l \<in> set (db_leases (w_durable (run_calls 3 plain_runtime local_adapter two_claims small_world))) \<and> live_lease l \<and>
     (\<forall>l2 \<in> set (db_leases (w_durable (run_calls 3 plain_runtime local_adapter two_claims small_world))).
        live_lease l2 \<longrightarrow> l_tenant_id l2 = l_tenant_id l \<longrightarrow> l_task_id l2 = l_task_id l \<longrightarrow> l2 = l)"
proof -
  let ?ls = "db_leases (w_durable (run_calls 3 plain_runtime local_adapter two_claims small_world))"
  have "(''lx'', ''b'', LClaimed) \<in> set (map (\<lambda>l. (l_id l, l_holder_identity l, l_status l)) ?ls)"
    by (simp add: two_claims_leases)
  then obtain l where l: "l \<in> set ?ls" "l_status l = LClaimed" by auto
  then have live: "live_lease l" by (simp add: live_lease_def)
  have "l2 = l" if "l2 \<in> set ?ls" "live_lease l2" "l_tenant_id l2 = l_tenant_id l" "l_task_id l2 = l_task_id l" for l2
    by (rule one_live_lease_per_task [OF small_world_inv refl that(1) l(1) that(2) live that(3,4)])
  then show ?thesis using l(1) live by blast
qed

subsection \<open>What a claim grants\<close>

lemma pending_same: "db_tasks d = db_tasks d' \<Longrightarrow> pending_keys_of x d = pending_keys_of x d'"
  by (cases "t_mission_id x") (simp_all add: pending_keys_of_def list_for_mission_def)

lemma orphan_none: "claim_orphan Q t wk msg w \<noteq> (Inr (Some x), w')"
  by (auto simp: claim_orphan_def Let_def split: prod.split)

lemma stale_none: "cancel_stale_task n K Q t wk y w \<noteq> (Inr (Some x), w')"
  by (auto simp: cancel_stale_task_def Let_def andthen_Inr)

lemma defer_none: "defer_claim Q t wk y l ks w \<noteq> (Inr (Some x), w')"
  by (auto simp: defer_claim_def andthen_Inr split: prod.split)

lemma claimed_task_leased:
  assumes "claim_next_task n K Q t wk w = (Inr (Some x), w')"
  shows "w_db w' = w_durable w' \<and> t_status x = TClaimed \<and> t_tenant_id x = t \<and> find_task (t_id x) (w_durable w') = Some x \<and>
    pending_keys_of x (w_durable w') = [] \<and>
    (\<exists>l \<in> set (db_leases (w_durable w')). live_lease l \<and> l_holder_identity l = wk \<and> l_tenant_id l = t \<and> l_task_id l = t_id x \<and> l_id l = w_ids w (w_next_id w) \<and>
       map_of (t_metadata x) ''worker_lease_id'' = Some (JStr (l_id l)))"
proof -
  obtain msg w1 where msg: "on_queue (\<lambda>q. claim_task Q q t wk) w = (Inr (Some msg), w1)"
  proof -
    obtain r w1 where r: "on_queue (\<lambda>q. claim_task Q q t wk) w = (r, w1)" by fastforce
    then show ?thesis using assms that by (cases r) (auto simp: claim_next_task_def split: option.splits)
  qed
  obtain task where task: "find_task (q_task_id msg) (w_db w1) = Some task" "t_tenant_id task = t"
    and row: "claim_row n K Q t wk task w1 = (Inr (Some x), w')"
    using assms msg by (auto simp: claim_next_task_def orphan_none split: option.splits if_splits)
  obtain m w2 where hold: "(case t_mission_id task of None \<Rightarrow> (None, w1) | Some i \<Rightarrow> get_mission_for_tenant i t w1) = (m, w2)"
    by fastforce
  have claim: "claim_in_savepoint Q t wk task w2 = (Inr (Some x), w')"
    using row by (auto simp: claim_row_def hold stale_none split: if_splits)
  have "db_tasks (w_db w2) = db_tasks (w_db w1)"
    using hold by (auto dest: review_hold_mission split: option.splits)
  moreover have ids: "w_ids w2 = w_ids w" "w_next_id w2 = w_next_id w"
    using hold msg by (auto simp: get_mission_for_tenant_def on_queue_def map_db_def Let_def split: option.splits prod.splits if_splits)
  ultimately have found: "find_task (t_id task) (w_db w2) = Some task"
    using task(1) find_row_key [OF task(1) [unfolded find_task_def]] by (simp add: find_task_def)
  have body: "claim_body Q t wk task w2 = (Inr (Some x), w')"
    using claim by (auto simp: claim_in_savepoint_def split: sum.splits prod.splits)
  obtain w3 where w3: "update_task (transition_task task TClaimed) w2 = (Inr (task\<lparr>t_status := TClaimed\<rparr>), w3)"
    "w3 = map_db (save_task (task\<lparr>t_status := TClaimed\<rparr>)) w2"
    using body
    by (cases "transition_task task TClaimed"; cases "assert_no_active_lease t (t_id task) (w_db w2)")
      (auto simp: claim_body_def update_task_def transition_task_Inr)
  let ?l = "new_lease t (t_id task) wk w3" and ?x1 = "task\<lparr>t_status := TClaimed\<rparr>"
  let ?x2 = "?x1\<lparr>t_metadata := AList.update ''worker_lease_id'' (JStr (l_id ?l)) (t_metadata ?x1)\<rparr>"
  let ?w4 = "map_db (save_task ?x2) (add_lease ?l w3)"
  have eq: "(if pending_keys_of ?x2 (w_db ?w4) \<noteq> [] then defer_claim Q t wk ?x2 ?l (pending_keys_of ?x2 (w_db ?w4)) ?w4
      else (Inr (Some ?x2), commit Q ?w4)) = (Inr (Some x), w')"
    using body by (cases "assert_no_active_lease t (t_id task) (w_db w2)") (simp_all add: claim_body_def w3(1) Let_def)
  have ready: "pending_keys_of ?x2 (w_db ?w4) = []"
  proof (rule ccontr)
    assume "pending_keys_of ?x2 (w_db ?w4) \<noteq> []"
    then show False using eq by (simp add: defer_none)
  qed
  have pr: "(Inr (Some ?x2) :: execution_task option result, commit Q ?w4) = (Inr (Some x), w')"
    using eq unfolding ready by (simp only: simp_thms if_False)
  have x: "x = ?x2" using arg_cong [OF pr, of fst] by (simp only: fst_conv sum.inject option.inject)
  have w': "w' = commit Q ?w4" using arg_cong [OF pr, of snd] by (simp only: snd_conv)
  note c = commit_committed [of ?w4 Q]
  have f4: "find_task (t_id x) (w_db ?w4) = Some x"
    using found by (simp add: x find_task_def map_db_def save_task_def add_lease_def w3(2))
  have "find_task (t_id x) (w_durable w') = Some x" using f4 c by (simp add: committed_def find_task_def w')
  moreover have "pending_keys_of x (w_durable w') = []"
  proof -
    have "db_tasks (w_durable w') = db_tasks (w_db ?w4)" using c by (simp add: committed_def w')
    then show ?thesis using pending_same [of "w_durable w'" "w_db ?w4" x] ready unfolding x by (simp only:)
  qed
  moreover have "w_db w' = w_durable w'" using c by (simp add: committed_def w')
  moreover have "?l \<in> set (db_leases (w_durable w'))"
    using c by (simp add: committed_def w') (simp add: map_db_def save_task_def add_lease_def)
  ultimately show ?thesis
    using task(2) by (intro conjI bexI [of _ ?l]) (simp_all add: x new_lease_def live_lease_def w3(2) map_db_def ids)
qed

text \<open>
  C7: a claim that returns a task has made the worker its holder. In the database the task is claimed and carries
  the key of a live lease of this worker on it, and every task it depends on has completed.
\<close>

theorem claim_grants_lease:
  assumes "claim_next_task n K Q t wk w = (Inr (Some x), w')"
  shows "t_status x = TClaimed \<and> t_tenant_id x = t \<and> find_task (t_id x) (w_durable w') = Some x \<and>
    pending_keys_of x (w_durable w') = [] \<and>
    (\<exists>l \<in> set (db_leases (w_durable w')). live_lease l \<and> l_holder_identity l = wk \<and> l_tenant_id l = t \<and> l_task_id l = t_id x \<and>
       map_of (t_metadata x) ''worker_lease_id'' = Some (JStr (l_id l)))"
  using claimed_task_leased [OF assms] by blast

theorem claim_grants_lease_witness:
  "find_task uuid_a (w_durable (snd (claim_next_task 3 plain_runtime local_adapter ''acme'' ''a'' small_world))) \<noteq> None"
proof -
  let ?r = "claim_next_task 3 plain_runtime local_adapter ''acme'' ''a'' small_world"
  have "case fst ?r of Inr (Some x) \<Rightarrow> t_id x = uuid_a | _ \<Rightarrow> False" by code_simp
  then obtain x where x: "fst ?r = Inr (Some x)" "t_id x = uuid_a" by (auto split: sum.splits option.splits)
  then have "?r = (Inr (Some x), snd ?r)" by (simp add: prod_eq_iff)
  from claim_grants_lease [OF this] show ?thesis using x(2) by simp
qed

subsection \<open>Calls that cannot succeed\<close>

lemma set_fields_other: "k \<notin> fst ` set new \<Longrightarrow> map_of (set_fields d new) k = map_of d k"
  unfolding set_fields_def by (induction new arbitrary: d) auto

lemma accept_keeps:
  "k \<notin> set runtime_metadata_keys \<Longrightarrow> map_of (t_metadata (accept_runtime_metadata md x)) k = map_of (t_metadata x) k"
  by (auto simp: accept_runtime_metadata_def intro!: set_fields_other split: option.splits)

lemma accept_status [simp]: "t_status (accept_runtime_metadata md x) = t_status x" "t_id (accept_runtime_metadata md x) = t_id x"
  by (simp_all add: accept_runtime_metadata_def split: option.splits)

text \<open>
  C32: a stop request of a running task is never honoured. Cancelling a running task only marks it, and completing a
  marked task is meant to cancel it; but the transition from running to cancelled is not in the table, so the call
  that completes it raises, whatever the output, and leaves the database and the queue as they were: the task can
  neither be completed nor cancelled any more.
\<close>

theorem stop_request_blocks_completion:
  assumes "get_owned_lease t lid wk (w_db w) = Inr l" and "get_task_for_lease l (w_db w) = Inr x"
    and "t_status x = TRunning" and "get_truthy (t_metadata x) ''cancel_requested''"
  shows "\<exists>e w'. worker_complete n K Q t lid wk given why md w = (Inl e, w') \<and> w_durable w' = w_durable w \<and> w_queue w' = w_queue w"
proof -
  let ?x0 = "accept_runtime_metadata md x"
  have "get_truthy (t_metadata ?x0) ''cancel_requested''"
    using assms(4) accept_keeps [of "''cancel_requested''" md x] by (simp add: get_truthy_def runtime_metadata_keys_def)
  moreover have "\<exists>e. transition_task ?x0 TCancelled = Inl e"
    using assms(3) by (cases "transition_task ?x0 TCancelled") (simp_all add: transition_task_Inr)
  ultimately show ?thesis
    using assms(1-3)
    by (auto simp: worker_complete_def complete_cancel_requested_def update_task_def Let_def map_db_def)
qed

definition stopped_world :: "local_queue world" where
  "stopped_world =
     (let d = (w_db small_world)\<lparr>db_tasks := [(example_task TRunning)\<lparr>t_id := uuid_a, t_metadata := [(''cancel_requested'', JBool True)]\<rparr>],
            db_leases := [\<lparr>l_id = ''l'', l_tenant_id = ''acme'', l_task_id = uuid_a, l_status = LActive, l_holder_identity = ''a'',
              l_heartbeat_at = None, l_metadata = [], l_created_at = 0, l_updated_at = 0\<rparr>]\<rparr>
      in small_world\<lparr>w_db := d, w_durable := d\<rparr>)"

theorem stop_request_blocks_completion_witness:
  "\<exists>e w'. worker_complete 3 plain_runtime local_adapter ''acme'' ''l'' ''a'' None None None stopped_world = (Inl e, w') \<and>
     map t_status (db_tasks (w_durable w')) = [TRunning]"
proof -
  let ?l = "hd (db_leases (w_db stopped_world))" and ?x = "hd (db_tasks (w_db stopped_world))"
  have "get_owned_lease ''acme'' ''l'' ''a'' (w_db stopped_world) = Inr ?l" "get_task_for_lease ?l (w_db stopped_world) = Inr ?x"
    "t_status ?x = TRunning" "get_truthy (t_metadata ?x) ''cancel_requested''"
    "map t_status (db_tasks (w_durable stopped_world)) = [TRunning]"
    by (simp_all add: stopped_world_def get_owned_lease_def get_task_for_lease_def find_lease_def find_task_def find_row_def
        get_truthy_def Let_def)
  then show ?thesis
    using stop_request_blocks_completion [of "''acme''" "''l''" "''a''" stopped_world ?l ?x 3 plain_runtime local_adapter None None None]
    by fastforce
qed

lemma long_source_invalid:
  "text_at given ''action'' = Some action \<Longrightarrow> length (output_source (inner_dict given ''output'')) > 160 \<Longrightarrow>
     \<exists>e. tool_output_observations x given = Inl e"
  by (simp add: tool_output_observations_def make_observation_def valid_observation_def Let_def)

lemma andthen_raises: "(\<And>x w. \<exists>e. fst (f x w) = Inl e) \<Longrightarrow> \<exists>e. fst (andthen r f) = Inl e"
  by (cases r; cases "fst r") auto

lemma andthen_first: "\<exists>e. r = Inl e \<Longrightarrow> \<exists>e. fst (andthen (r, w) f) = Inl e"
  by auto

text \<open>
  An observation can undo a completed tool action. An output whose source text is longer than an
  observation's selected path may be can never be recorded: completing the task raises, after the tool
  has had its effect, although the observation is only a note about the output.
\<close>

theorem long_source_blocks_completion:
  assumes "text_at given ''action'' = Some action" and "length (output_source (inner_dict given ''output'')) > 160"
  shows "\<exists>e. fst (worker_complete n K Q t lid wk (Some given) why md w) = Inl e"
proof -
  have rows: "\<exists>e. fst (complete_rows n K t wk l x (Some given) why w) = Inl e" for l x and w :: "'a world"
    unfolding complete_rows_def Let_def case_prod_beta option.case
    by (rule andthen_raises, rule andthen_raises, rule andthen_raises, rule andthen_raises, rule andthen_first,
        rule long_source_invalid [OF assms])
  have "\<exists>e. fst (complete_cancel_requested Q t (accept_runtime_metadata md x) l wk w) = Inl e"
    if "t_status x = TRunning" for l x w
    using that by (cases "transition_task (accept_runtime_metadata md x) TCancelled")
      (simp_all add: complete_cancel_requested_def update_task_def transition_task_Inr)
  moreover have "\<exists>e. fst (andthen (complete_rows n K t wk l x (Some given) why w) f) = Inl e" for l x w and f :: "_ \<Rightarrow> 'a world \<Rightarrow> execution_task result \<times> 'a world"
    using rows [of l x w] by (cases "complete_rows n K t wk l x (Some given) why w") auto
  ultimately show ?thesis
    unfolding worker_complete_def Let_def by (intro andthen_raises) auto
qed

definition long_output :: dict where
  "long_output = [(''action'', JStr ''web.research''), (''output'', JObj [(''source'', JStr (replicate 200 CHR ''s''))])]"

theorem long_source_blocks_completion_witness:
  "\<exists>e. fst (worker_complete 3 plain_runtime local_adapter ''acme'' ''l'' ''a'' (Some long_output) None None
     (stopped_world\<lparr>w_db := (w_db stopped_world)\<lparr>db_tasks := [(example_task TRunning)\<lparr>t_id := uuid_a\<rparr>]\<rparr>\<rparr>)) = Inl e"
proof -
  have "text_at long_output ''action'' = Some ''web.research''"
    "output_source (inner_dict long_output ''output'') = replicate 200 CHR ''s''"
    by (simp_all add: long_output_def text_at_def inner_dict_def output_source_def get_truthy_def value_at_def shown_def)
  then show ?thesis by (intro long_source_blocks_completion) simp_all
qed

text \<open>
  Only a running task can be failed. The call admits claimed and blocked tasks as well, but for these the
  transition it then makes is not in the table; a worker whose claimed task cannot start has no call to fail it.
\<close>

theorem only_running_tasks_fail:
  assumes "worker_fail n K Q t lid wk why w = (Inr x', w')"
  shows "\<exists>l x. get_owned_lease t lid wk (w_db w) = Inr l \<and> get_task_for_lease l (w_db w) = Inr x \<and> t_status x = TRunning \<and>
     t_status x' = TFailed"
proof -
  obtain l where l: "get_owned_lease t lid wk (w_db w) = Inr l"
    using assms by (cases "get_owned_lease t lid wk (w_db w)") (simp_all add: worker_fail_def)
  obtain x where x: "get_task_for_lease l (w_db w) = Inr x"
    using assms l by (cases "get_task_for_lease l (w_db w)") (simp_all add: worker_fail_def)
  have st: "t_status x \<in> {TClaimed, TRunning, TBlocked}"
    using assms l x by (simp add: worker_fail_def split: if_splits)
  obtain r w1 where r: "fail_rows n K t wk l x why w = (r, w1)" by fastforce
  obtain x1 l1 where rows: "fail_rows n K t wk l x why w = (Inr (x1, l1), w1)" and "x' = x1"
  proof (cases r)
    case (Inl e)
    then show ?thesis using assms l x st r by (auto simp: worker_fail_def)
  next
    case (Inr p)
    then show ?thesis using assms l x st r that by (cases p) (auto simp: worker_fail_def split: prod.splits)
  qed
  obtain x2 w2 where "update_task (bind_result (transition_task x TFailed)
           (\<lambda>x. Inr (x\<lparr>t_metadata := failure_metadata (w_clock w) why (t_metadata x)\<rparr>))) w = (Inr x2, w2)"
      and "x1 = x2"
    using rows by (auto simp: fail_rows_def andthen_Inr Let_def)
  then have "TFailed \<in> set (targets task_allowed (t_status x))" "t_status x1 = TFailed"
    by (auto simp: update_task_def bind_result_Inr transition_task_Inr split: sum.splits)
  moreover have "t_status x = TRunning" using calculation(1) st by (auto simp: targets_def task_allowed_def)
  ultimately show ?thesis using l x \<open>x' = x1\<close> by blast
qed

subsection \<open>A lease that was given back still completes\<close>

definition same_rows :: "'q world \<Rightarrow> 'q world \<Rightarrow> bool" where
  "same_rows w w' \<longleftrightarrow> db_tasks (w_db w') = db_tasks (w_db w) \<and> db_leases (w_db w') = db_leases (w_db w)"

lemma same_rows_refl: "same_rows w w"
  by (simp add: same_rows_def)

lemma same_rows_fact: "same_rows w0 w \<Longrightarrow> same_rows w0 (record_fact K a w)"
  by (simp add: same_rows_def)

lemma same_rows_audit: "same_rows w0 w \<Longrightarrow> same_rows w0 (audit t m c a wk ds p w)"
  by (simp add: same_rows_def)

lemma same_rows_observe: "same_rows w0 w \<Longrightarrow> same_rows w0 (observe K t p x lid wk refs c w)"
  unfolding observe_def by (rule same_rows_fact)

lemma same_rows_observe_all: "same_rows w0 w \<Longrightarrow> same_rows w0 (fold (observe K t p x lid wk refs) cs w)"
  by (induction cs arbitrary: w) (simp_all add: same_rows_observe)

lemma same_rows_completion: "same_rows w0 w \<Longrightarrow> same_rows w0 (completion_audit K t wk x l given ids w)"
  unfolding completion_audit_def by (intro same_rows_fact same_rows_audit)

lemma commit_rows: "same_rows w (commit Q w) \<and> w_durable (commit Q w) = w_db (commit Q w)"
  using commit_committed [of w Q] by (simp add: same_rows_def committed_def)

lemma cleanup_rows: "same_rows w (record_terminal_queue_cleanup_failure Q t x l wk op a why w) \<and>
    w_durable (record_terminal_queue_cleanup_failure Q t x l wk op a why w) =
      w_db (record_terminal_queue_cleanup_failure Q t x l wk op a why w)"
proof -
  let ?a = "audit t (t_mission_id x) ''worker_queue_cleanup'' a wk
       (''Queue '' @ op @ '' cleanup failed after DB terminal commit for task '' @ t_id x @ '': '' @ why)
       [(''task_id'', JStr (t_id x)), (''task_status'', JStr (task_value (t_status x))), (''lease_id'', JStr (l_id l)),
        (''lease_status'', JStr (lease_value (l_status l))), (''queue_operation'', JStr op),
        (''reason'', JStr why), (''requeue_allowed'', JBool False)] w"
  have "same_rows w ?a" by (rule same_rows_audit [OF same_rows_refl])
  then show ?thesis
    using commit_rows [of ?a Q] by (simp add: record_terminal_queue_cleanup_failure_def same_rows_def)
qed

text \<open>
  C33: a lease that was lost still completes a task that another worker is running. No call checks that the lease is
  live or the current one of the task: a worker whose lease was given back, or expired while it was slow, can still complete the
  task of the new holder, whose own lease stays live and whose result is then refused.
\<close>

theorem stale_lease_completes:
  assumes "get_owned_lease t lid wk (w_db w) = Inr l" and "\<not> live_lease l"
    and "get_task_for_lease l (w_db w) = Inr x" and "t_status x = TRunning"
    and "t_mission_id x = None" and "output_contract_of (t_metadata x) = None" and "\<not> get_truthy (t_metadata x) ''cancel_requested''"
    and "l2 \<in> set (db_leases (w_db w))" and "l_id l2 \<noteq> lid"
  shows "\<exists>x' w'. worker_complete (Suc n) K Q t lid wk None why None w = (Inr x', w') \<and> t_status x' = TCompleted \<and>
    find_task (t_id x) (w_durable w') = Some x' \<and> l2 \<in> set (db_leases (w_durable w'))"
proof -
  let ?x1 = "x\<lparr>t_status := TCompleted, t_metadata := AList.delete ''failure'' (t_metadata x)\<rparr>"
  let ?l1 = "l\<lparr>l_status := LReleased, l_heartbeat_at := Some (w_clock w)\<rparr>"
  let ?w0 = "map_db (save_task x) w"
  let ?w1 = "observe K t ''worker_runtime'' x (l_id l) wk [] (validation_observation x) ?w0"
  let ?w2 = "map_db (save_lease ?l1) (map_db (save_task ?x1) ?w1)"
  let ?w3 = "fold (observe K t ''tool_runtime_authority'' ?x1 (l_id l) wk []) (task_observations ?x1)
      (completion_audit K t wk ?x1 ?l1 None [] ?w2)"
  have lid: "l_id l = lid" using owned_in [OF assms(1)] by simp
  have found: "find_task (t_id x) (w_db w) = Some x"
    using assms(3) find_row_key [of t_id] by (fastforce simp: get_task_for_lease_def find_task_def split: option.splits)
  have ok: "transition_task x TCompleted = Inr (x\<lparr>t_status := TCompleted\<rparr>)"
    using assms(4) by (simp add: transition_task_Inr targets_def task_allowed_def)
  have rel: "transition_lease_to_released l = Inr (l\<lparr>l_status := LReleased\<rparr>)"
    using assms(2)
    by (cases l; cases "l_status l")
      (simp_all add: transition_lease_to_released_def live_lease_def transition_lease_Inr targets_def lease_allowed_def)
  have rows: "complete_rows (Suc n) K t wk l x None why ?w0 = (Inr (?x1, ?l1), ?w3)"
    using assms(5,6)
    by (simp add: complete_rows_def validate_declared_output_def update_task_def update_lease_def ok rel
        refresh_deliverable_def map_db_def Let_def)
  have same1: "same_rows ?w0 ?w1" by (rule same_rows_observe [OF same_rows_refl])
  have same3: "same_rows ?w2 ?w3"
    by (intro same_rows_observe_all same_rows_completion same_rows_refl)
  have t3: "find_task (t_id x) (w_db ?w3) = Some ?x1"
    using same1 same3 found by (simp add: same_rows_def find_task_def map_db_def save_task_def save_lease_def)
  have l3: "l2 \<in> set (db_leases (w_db ?w3))"
    using same1 same3 assms(8,9) lid
    by (simp add: same_rows_def map_db_def save_task_def save_lease_def put_row_def)
  obtain res w4 where q: "on_queue (\<lambda>q. complete_task Q q t (t_id x) wk) (commit Q ?w3) = (res, w4)" by fastforce
  have w4: "w_db w4 = w_db (commit Q ?w3)" "w_durable w4 = w_durable (commit Q ?w3)"
    using q by (auto simp: on_queue_def split: prod.splits)
  let ?w5 = "if r_ok res then w4 else record_terminal_queue_cleanup_failure Q t ?x1 ?l1 wk ''complete_task''
                     ''terminal_queue_complete_cleanup_failed'' (reason_or res ''complete rejected'') w4"
  have "db_tasks (w_durable ?w5) = db_tasks (w_db ?w3) \<and> db_leases (w_durable ?w5) = db_leases (w_db ?w3)"
    using commit_rows [of ?w3 Q] w4 cleanup_rows [of w4] by (simp add: same_rows_def)
  moreover have "worker_complete (Suc n) K Q t lid wk None why None w = (Inr ?x1, ?w5)"
    using assms(1,3,4,7) rows q by (simp add: worker_complete_def accept_runtime_metadata_def Let_def)
  ultimately show ?thesis
    using t3 l3 by (intro exI [of _ ?x1] exI [of _ ?w5]) (simp add: find_task_def)
qed

text \<open>Worker a gave its lease back; worker b has claimed the task again and is running it.\<close>

definition released_lease :: worker_lease where
  "released_lease = \<lparr>l_id = ''l'', l_tenant_id = ''acme'', l_task_id = uuid_a, l_status = LReleased, l_holder_identity = ''a'',
     l_heartbeat_at = None, l_metadata = [], l_created_at = 0, l_updated_at = 0\<rparr>"

definition taken_over :: "local_queue world" where
  "taken_over =
     (let d = (w_db small_world)\<lparr>db_tasks := [(example_task TRunning)\<lparr>t_id := uuid_a, t_metadata := [(''worker_lease_id'', JStr ''lx'')]\<rparr>],
            db_leases := [released_lease, released_lease\<lparr>l_id := ''lx'', l_status := LActive, l_holder_identity := ''b''\<rparr>]\<rparr>
      in small_world\<lparr>w_db := d, w_durable := d\<rparr>)"

theorem stale_lease_completes_witness:
  "\<exists>x' w'. worker_complete 1 plain_runtime local_adapter ''acme'' ''l'' ''a'' None None None taken_over = (Inr x', w') \<and>
     t_status x' = TCompleted \<and> find_task uuid_a (w_durable w') = Some x' \<and>
     released_lease\<lparr>l_id := ''lx'', l_status := LActive, l_holder_identity := ''b''\<rparr> \<in> set (db_leases (w_durable w'))"
proof -
  let ?x = "hd (db_tasks (w_db taken_over))"
  have "get_owned_lease ''acme'' ''l'' ''a'' (w_db taken_over) = Inr released_lease"
    "get_task_for_lease released_lease (w_db taken_over) = Inr ?x"
    "\<not> live_lease released_lease" "t_status ?x = TRunning" "t_mission_id ?x = None"
    "output_contract_of (t_metadata ?x) = None" "\<not> get_truthy (t_metadata ?x) ''cancel_requested''" "t_id ?x = uuid_a"
    "released_lease\<lparr>l_id := ''lx'', l_status := LActive, l_holder_identity := ''b''\<rparr> \<in> set (db_leases (w_db taken_over))"
    by (simp_all add: taken_over_def released_lease_def get_owned_lease_def get_task_for_lease_def find_lease_def find_task_def
        find_row_def get_truthy_def output_contract_of_def value_at_def example_task_def live_lease_def Let_def)
  then show ?thesis
    using stale_lease_completes [of "''acme''" "''l''" "''a''" taken_over released_lease ?x _ 0 plain_runtime local_adapter None]
    by (simp add: released_lease_def)
qed

lemma running_task_fails:
  assumes "get_owned_lease t lid wk (w_db w) = Inr l" and "get_task_for_lease l (w_db w) = Inr x"
    and "t_status x = TRunning" and "t_mission_id x = None" and "l_status l \<in> {LActive, LReleased}"
  shows "\<exists>x'. fst (worker_fail (Suc n) K Q t lid wk why w) = Inr x'"
proof -
  let ?x1 = "x\<lparr>t_status := TFailed, t_metadata := failure_metadata (w_clock w) why (t_metadata x)\<rparr>"
  have ok: "transition_task x TFailed = Inr (x\<lparr>t_status := TFailed\<rparr>)"
    using assms(3) by (simp add: transition_task_Inr targets_def task_allowed_def)
  obtain l1 where rel: "transition_lease_to_released l = Inr l1"
    using assms(5) by (auto simp: transition_lease_to_released_def transition_lease_Inr targets_def lease_allowed_def)
  have "\<exists>p w'. fail_rows (Suc n) K t wk l x why w = (Inr p, w')"
    using assms(4)
    by (simp add: fail_rows_def update_task_def update_lease_def ok rel refresh_deliverable_def failure_evidence_columns_def value_at_def add_evidence_def Let_def)
  then obtain p w' where "fail_rows (Suc n) K t wk l x why w = (Inr p, w')" by blast
  then show ?thesis
    using assms(1-3) by (cases p) (simp add: worker_fail_def split: prod.splits)
qed

theorem only_running_tasks_fail_witness:
  "case fst (worker_fail 3 plain_runtime local_adapter ''acme'' ''lx'' ''b'' ''no'' taken_over) of Inl _ \<Rightarrow> False | Inr x \<Rightarrow> t_status x = TFailed"
proof -
  let ?r = "worker_fail 3 plain_runtime local_adapter ''acme'' ''lx'' ''b'' ''no'' taken_over"
  let ?l = "released_lease\<lparr>l_id := ''lx'', l_status := LActive, l_holder_identity := ''b''\<rparr>"
  have "get_owned_lease ''acme'' ''lx'' ''b'' (w_db taken_over) = Inr ?l"
    "get_task_for_lease ?l (w_db taken_over) = Inr (hd (db_tasks (w_db taken_over)))"
    "t_status (hd (db_tasks (w_db taken_over))) = TRunning" "t_mission_id (hd (db_tasks (w_db taken_over))) = None"
    by (simp_all add: taken_over_def released_lease_def get_owned_lease_def get_task_for_lease_def find_lease_def find_task_def
        find_row_def example_task_def Let_def)
  then obtain x where x: "fst ?r = Inr x"
    using running_task_fails [of "''acme''" "''lx''" "''b''" taken_over ?l _ 2 plain_runtime local_adapter "''no''"] by auto
  then have "?r = (Inr x, snd ?r)" by (simp add: prod_eq_iff)
  from only_running_tasks_fail [OF this] show ?thesis using x by auto
qed

end
