(* ===== verification/TaskDispatcher.thy ===== *)
theory TaskDispatcher
  imports ToolAuthority WorkerRuns
begin

section \<open>Running a claimed task\<close>

text \<open>
  \<open>backend/workers/task_dispatcher.py\<close>, \<open>workers/handler_registry.py\<close> and the handlers of
  \<open>workers/handlers\<close>, and the part of \<open>workers/worker_loop.py\<close> that claims, starts and runs one task.

  Every session is a new one, so each call starts from the committed rows, and one that raises is rolled back. Setting the tenant of
  a session and reading a task do not fail. The heartbeats of the thread beside the handler are taken
  together, after it; their number is an argument. Logging, the liveness file and the sleeping of the loop are left out.
\<close>

subsection \<open>Handlers\<close>

datatype task_handler = ForceFail | Echo | ToolInvoke

record handler_registry =
  hr_handlers :: "(string \<times> task_handler) list"
  hr_output_reasons :: "(string \<times> string) list"

definition normalize_task_type :: "string \<Rightarrow> string result" where
  "normalize_task_type s = (if strip s = [] then Inl (ValueError ''task_type must be a non-empty string'') else Inr (strip s))"

definition normalize_output_reason :: "string option \<Rightarrow> string option result" where
  "normalize_output_reason reason =
     (case reason of
        None \<Rightarrow> Inr None
      | Some s \<Rightarrow> if strip s = [] then Inl (ValueError ''output_reason must be a non-empty string when provided'') else Inr (Some (strip s)))"

definition register_handler :: "string \<Rightarrow> string option \<Rightarrow> task_handler \<Rightarrow> handler_registry \<Rightarrow> handler_registry result" where
  "register_handler task_type reason h R =
     bind_result (normalize_task_type task_type) (\<lambda>t.
     bind_result (normalize_output_reason reason) (\<lambda>why.
       if map_of (hr_handlers R) t \<noteq> None then Inl (ValueError (''task handler already registered for task_type='' @ quoted t))
       else Inr (R\<lparr>hr_handlers := AList.update t h (hr_handlers R),
              hr_output_reasons := (case why of None \<Rightarrow> hr_output_reasons R | Some y \<Rightarrow> AList.update t y (hr_output_reasons R))\<rparr>)))"

text \<open>What importing the dispatcher registers.\<close>

definition worker_handlers :: "handler_registry result" where
  "worker_handlers =
     bind_result (register_handler ''force_fail'' None ForceFail \<lparr>hr_handlers = [], hr_output_reasons = []\<rparr>) (\<lambda>R.
     bind_result (register_handler ''echo'' (Some ''echo handler completed'') Echo R)
       (register_handler ''tool.invoke'' (Some ''tool action completed'') ToolInvoke))"

definition task_type_for_task :: "execution_task \<Rightarrow> string result" where
  "task_type_for_task x =
     (case map_of (t_metadata x) ''task_type'' of
        None \<Rightarrow> normalize_task_type ''default''
      | Some JNull \<Rightarrow> normalize_task_type ''default''
      | Some (JStr s) \<Rightarrow> normalize_task_type s
      | Some _ \<Rightarrow> Inl (ValueError ''task metadata task_type must be a string''))"

definition echo_result :: "execution_task \<Rightarrow> dict result" where
  "echo_result x =
     (case map_of (t_metadata x) ''input'' of
        None \<Rightarrow> Inr [(''handler'', JStr ''echo''), (''input'', JObj []), (''output'', JObj []), (''status'', JStr ''completed'')]
      | Some (JObj d) \<Rightarrow> Inr [(''handler'', JStr ''echo''), (''input'', JObj d), (''output'', JObj d), (''status'', JStr ''completed'')]
      | Some _ \<Rightarrow> Inl (ValueError ''echo task input must be an object''))"

definition run_handler ::
  "'q tool_host \<Rightarrow> 'q queue_adapter \<Rightarrow> tool_context \<Rightarrow> task_handler \<Rightarrow> execution_task \<Rightarrow> 'q world \<Rightarrow>
     (dict \<times> execution_task) result \<times> 'q world" where
  "run_handler H Q cx h x w =
     (case h of
        ForceFail \<Rightarrow> (Inl (RuntimeError ''intentional failure for runtime validation''), w)
      | Echo \<Rightarrow> (bind_result (echo_result x) (\<lambda>d. Inr (d, x)), w)
      | ToolInvoke \<Rightarrow> tool_execute H Q cx x w)"

definition non_empty_text :: "dict \<Rightarrow> string \<Rightarrow> bool" where
  "non_empty_text d k \<longleftrightarrow> (case map_of d k of Some (JStr s) \<Rightarrow> strip s \<noteq> [] | _ \<Rightarrow> False)"

definition validate_handler_result :: "dict \<Rightarrow> unit result" where
  "validate_handler_result d =
     (if \<not> non_empty_text d ''handler'' then Inl (ValueError ''task handler result must include non-empty \"handler\"'')
      else if \<not> non_empty_text d ''status'' then Inl (ValueError ''task handler result must include non-empty \"status\"'')
      else if map_of d ''status'' \<noteq> Some (JStr ''completed'') then Inl (ValueError ''task handler result status must be \"completed\"'')
      else Inr ())"

definition effect_classes :: "side_effect_class list" where
  "effect_classes = [NoEffect, InternalRead, InternalWrite, ExternalRead, ExternalWrite, ExternalSend, ExternalPublish]"

definition side_effecting_class :: "string \<Rightarrow> dict \<Rightarrow> string option" where
  "side_effecting_class task_type d =
     (if task_type \<noteq> ''tool.invoke'' \<or> map_of d ''handler'' \<noteq> Some (JStr ''tool.invoke'') \<or> map_of d ''status'' \<noteq> Some (JStr ''completed'')
      then None
      else (case map_of d ''side_effect_class'' of
              Some (JStr s) \<Rightarrow>
                (case find (\<lambda>c. effect_value c = strip s) effect_classes of
                   None \<Rightarrow> None | Some c \<Rightarrow> if has_side_effect c then Some (effect_value c) else None)
            | _ \<Rightarrow> None))"

subsection \<open>The dispatcher\<close>

record 'q dispatcher =
  dp_host :: "'q tool_host"
  dp_adapter :: "'q queue_adapter"
  dp_handlers :: handler_registry
  dp_depth :: nat
  dp_worker_id :: string
  dp_tenant_id :: string

text \<open>One session: what it does is committed, or rolled back when it raises.\<close>

definition own_session :: "('q world \<Rightarrow> 'a result \<times> 'q world) \<Rightarrow> 'q world \<Rightarrow> 'a result \<times> 'q world" where
  "own_session f w = (case f (rollback w) of (Inl e, w1) \<Rightarrow> (Inl e, rollback w1) | r \<Rightarrow> r)"

definition committing :: "'q queue_adapter \<Rightarrow> ('q world \<Rightarrow> 'a result \<times> 'q world) \<Rightarrow> 'q world \<Rightarrow> 'a result \<times> 'q world" where
  "committing Q f w = andthen (f w) (\<lambda>x w1. (Inr x, commit Q w1))"

definition beat_once :: "'q dispatcher \<Rightarrow> uuid \<Rightarrow> 'q world \<Rightarrow> 'q world" where
  "beat_once D lid w =
     snd (own_session (committing (dp_adapter D) (worker_heartbeat (dp_adapter D) (dp_tenant_id D) lid (dp_worker_id D))) w)"

definition fail_call :: "'q dispatcher \<Rightarrow> uuid \<Rightarrow> string \<Rightarrow> 'q world \<Rightarrow> execution_task result \<times> 'q world" where
  "fail_call D lid reason =
     committing (dp_adapter D)
       (worker_fail (dp_depth D) (th_runtime (dp_host D)) (dp_adapter D) (dp_tenant_id D) lid (dp_worker_id D) reason)"

text \<open>\<open>_fail\<close>: once more after an exception, which it then gives up on.\<close>

definition dispatcher_fail :: "'q dispatcher \<Rightarrow> uuid \<Rightarrow> string \<Rightarrow> 'q world \<Rightarrow> 'q world" where
  "dispatcher_fail D lid reason w =
     (case own_session (fail_call D lid reason) w of
        (Inr _, w1) \<Rightarrow> w1
      | (Inl _, w1) \<Rightarrow> snd (own_session (fail_call D lid reason) w1))"

definition complete_call ::
  "'q dispatcher \<Rightarrow> uuid \<Rightarrow> dict option \<Rightarrow> string option \<Rightarrow> dict option \<Rightarrow> 'q world \<Rightarrow> execution_task result \<times> 'q world" where
  "complete_call D lid given reason md =
     worker_complete (dp_depth D) (th_runtime (dp_host D)) (dp_adapter D) (dp_tenant_id D) lid (dp_worker_id D) given reason md"

definition block_call :: "'q dispatcher \<Rightarrow> uuid \<Rightarrow> string \<Rightarrow> string \<Rightarrow> string \<Rightarrow> 'q world \<Rightarrow> execution_task result \<times> 'q world" where
  "block_call D lid task_type cls reason =
     block_completion_failure (dp_adapter D) (dp_tenant_id D) lid (dp_worker_id D) task_type cls reason"

definition reported_metadata :: "execution_task \<Rightarrow> dict option" where
  "reported_metadata x =
     (case picked [''runtime_causal_observations'', ''input_binding_audit'', ''tool_invocation''] (t_metadata x) of [] \<Rightarrow> None | d \<Rightarrow> Some d)"

text \<open>What follows a handler that returned: the completion, and what becomes of one that raises.\<close>

definition finish_handled :: "'q dispatcher \<Rightarrow> string \<Rightarrow> uuid \<Rightarrow> dict \<Rightarrow> execution_task \<Rightarrow> 'q world \<Rightarrow> 'q world" where
  "finish_handled D task_type lid d y w =
     (let why = map_of (hr_output_reasons (dp_handlers D)) task_type; given = (if why = None then None else Some d)
      in case own_session (complete_call D lid given why (reported_metadata y)) w of
           (Inr _, w1) \<Rightarrow> w1
         | (Inl e, w1) \<Rightarrow>
             (case side_effecting_class task_type d of
                None \<Rightarrow> dispatcher_fail D lid (exn_text e) w1
              | Some cls \<Rightarrow> snd (own_session (block_call D lid task_type cls (exn_text e)) w1)))"

definition handle_task :: "'q dispatcher \<Rightarrow> task_handler \<Rightarrow> string \<Rightarrow> uuid \<Rightarrow> nat \<Rightarrow> execution_task \<Rightarrow> 'q world \<Rightarrow> 'q world" where
  "handle_task D h task_type lid beats x w =
     (case run_handler (dp_host D) (dp_adapter D) \<lparr>tc_tenant_id = dp_tenant_id D, tc_worker_id = dp_worker_id D, tc_lease_id = lid\<rparr> h x w of
        (r, w0) \<Rightarrow>
          let w1 = (beat_once D lid ^^ beats) (rollback w0)
          in case bind_result r (\<lambda>(d, y). bind_result (validate_handler_result d) (\<lambda>_. Inr (d, y))) of
               Inl e \<Rightarrow> dispatcher_fail D lid (exn_text e) w1
             | Inr (d, y) \<Rightarrow> finish_handled D task_type lid d y w1)"

definition dispatch_task :: "'q dispatcher \<Rightarrow> uuid \<Rightarrow> uuid \<Rightarrow> nat \<Rightarrow> 'q world \<Rightarrow> 'q world" where
  "dispatch_task D k lid beats w =
     (case find_task k (w_durable w) of
        None \<Rightarrow> dispatcher_fail D lid ''task not found at dispatch time'' w
      | Some x \<Rightarrow>
          (case task_type_for_task x of
             Inl e \<Rightarrow> dispatcher_fail D lid (exn_text e) w
           | Inr task_type \<Rightarrow>
               let handlers = hr_handlers (dp_handlers D)
               in case (case map_of handlers task_type of None \<Rightarrow> map_of handlers ''default'' | h \<Rightarrow> h) of
                    None \<Rightarrow> dispatcher_fail D lid (''no handler registered for task_type='' @ quoted task_type) w
                  | Some h \<Rightarrow> handle_task D h task_type lid beats x w))"

subsection \<open>One turn of the worker loop\<close>

definition worker_daemon_holder :: "string \<Rightarrow> string result" where
  "worker_daemon_holder worker =
     (if strip worker = [] then Inl (ValueError ''worker_id must be non-empty for daemon claim holder'') else Inr (strip worker))"

definition release_unstarted :: "'q dispatcher \<Rightarrow> uuid \<Rightarrow> 'q world \<Rightarrow> 'q world" where
  "release_unstarted D lid w =
     snd (own_session (committing (dp_adapter D) (worker_release (dp_adapter D) (dp_tenant_id D) lid (dp_worker_id D))) w)"

text \<open>The lease the claim noted in the task, and the heartbeat and the start under it.\<close>

definition claimed_lease :: "execution_task \<Rightarrow> uuid result" where
  "claimed_lease x =
     (case text_at (t_metadata x) ''worker_lease_id'' of
        None \<Rightarrow> Inl (ValueError ''claimed task missing worker_lease_id in metadata'')
      | Some s \<Rightarrow> (case uuid_of_json (JStr s) of
                    None \<Rightarrow> Inl (ValueError ''badly formed hexadecimal UUID string'') | Some lid \<Rightarrow> Inr lid))"

definition start_claimed :: "'q dispatcher \<Rightarrow> uuid \<Rightarrow> 'q world \<Rightarrow> execution_task result \<times> 'q world" where
  "start_claimed D lid w =
     andthen (worker_heartbeat (dp_adapter D) (dp_tenant_id D) lid (dp_worker_id D) w) (\<lambda>_ w1.
       committing (dp_adapter D) (start_execution (th_runtime (dp_host D)) (dp_adapter D) (dp_tenant_id D) lid (dp_worker_id D)) w1)"

text \<open>\<open>_claim_and_start_task\<close> for the tenant of the dispatcher: the claimed task and its lease, when both steps went well.\<close>

definition claim_and_start :: "'q dispatcher \<Rightarrow> 'q world \<Rightarrow> (uuid \<times> uuid) option \<times> 'q world" where
  "claim_and_start D w =
     (case andthen (worker_daemon_holder (dp_worker_id D), rollback w)
         (\<lambda>holder. claim_next_task (dp_depth D) (th_runtime (dp_host D)) (dp_adapter D) (dp_tenant_id D) holder) of
        (Inr (Some x), w1) \<Rightarrow>
          (case claimed_lease x of
             Inl _ \<Rightarrow> (None, rollback w1)
           | Inr lid \<Rightarrow>
               (case start_claimed D lid w1 of
                  (Inr _, w2) \<Rightarrow> (Some (t_id x, lid), w2)
                | (Inl _, w2) \<Rightarrow> (None, release_unstarted D lid (rollback w2))))
      | (_, w1) \<Rightarrow> (None, rollback w1))"

text \<open>A turn for one tenant; the loop recovers expired leases before it when the interval has passed (\<open>recover_expired_leases\<close>).\<close>

definition worker_turn :: "'q dispatcher \<Rightarrow> nat \<Rightarrow> 'q world \<Rightarrow> 'q world" where
  "worker_turn D beats w =
     (case claim_and_start D w of (None, w1) \<Rightarrow> w1 | (Some (k, lid), w1) \<Rightarrow> dispatch_task D k lid beats w1)"

end
