(* ===== verification/Approvals.thy ===== *)
theory Approvals
  imports Grants
begin

section \<open>What an approval is\<close>

text \<open>
  The abstract side of the grants of \<open>Grants\<close>: what has to be stored with a task for a human approval of one of its calls to be current.
  The checks of the code are shown to give it. A grant of the first version is another thing: it names actions, and neither a tenant nor
  a task nor an invocation, and it does not expire.
\<close>

definition stored_grant :: "dict \<Rightarrow> string \<Rightarrow> dict \<Rightarrow> bool" where
  "stored_grant md key auth \<longleftrightarrow> map_of (constraints_of md) key = Some (JObj auth)"

definition current_approval :: "ledger_host \<Rightarrow> dict \<Rightarrow> string \<Rightarrow> string \<Rightarrow> uuid \<Rightarrow> tool_invocation \<Rightarrow> time \<Rightarrow> bool" where
  "current_approval H md action tenant k i now \<longleftrightarrow>
     (\<exists>auth g. stored_grant md ''side_effect_authorization'' auth \<and> validate_grant_v2 auth = Some g \<and>
        gr_tenant_id g = tenant \<and> gr_task_id g = k \<and> gr_allowed_action g = action \<and>
        gr_invocation_sha256 g = ''sha256:'' @ lh_sha256 H (canonical_dict (invocation_dump i)) \<and>
        gr_revoked_at g = None \<and> gr_approved_at g < gr_expires_at g \<and> now < gr_expires_at g \<and>
        \<not> client_forged_approver (gr_approved_by g))"

definition named_approval :: "dict \<Rightarrow> string \<Rightarrow> bool" where
  "named_approval md action \<longleftrightarrow>
     (\<exists>auth g. stored_grant md ''side_effect_authorization'' auth \<and> validate_grant_v1 auth = Some g \<and>
        action \<in> set (g1_allowed_actions g) \<and> \<not> client_forged_approver (g1_approved_by g))"

definition ability_approval :: "ledger_host \<Rightarrow> dict \<Rightarrow> ability_manifest \<Rightarrow> string \<Rightarrow> uuid \<Rightarrow> tool_invocation \<Rightarrow> time \<Rightarrow> bool" where
  "ability_approval H md m tenant k i now \<longleftrightarrow>
     (\<exists>auth g. stored_grant md ''ability_authorization'' auth \<and> validate_ability_grant auth = Some g \<and>
        gr_tenant_id g = tenant \<and> gr_task_id g = k \<and> ag_ability_id g = am_ability_id m \<and>
        ag_manifest_fingerprint g = ''sha256:'' @ lh_sha256 H (canonical_dict (manifest_dump m)) \<and>
        gr_allowed_action g = am_action_name m \<and>
        gr_invocation_sha256 g = ''sha256:'' @ lh_sha256 H (canonical_dict (invocation_dump i)) \<and>
        gr_revoked_at g = None \<and> now < gr_expires_at g)"

lemma stored_grant_dict: "stored_grant md key auth \<longleftrightarrow> dict_of (map_of (constraints_of md) key) = Some auth"
  by (cases "map_of (constraints_of md) key" rule: dict_of.cases) (simp_all add: stored_grant_def)

lemma authorized_means:
  assumes "side_effect_authorized H md action (Some tenant) (Some k) now" and "invocation_of md = Some i"
  shows "current_approval H md action tenant k i now \<or> named_approval md action"
proof -
  obtain auth where auth: "stored_grant md ''side_effect_authorization'' auth"
    using assms(1) by (auto simp: side_effect_authorized_def stored_grant_dict split: option.splits)
  show ?thesis
  proof (cases "equals_int (map_of auth ''schema_version'') 2")
    case True
    then obtain g where g: "validate_grant_v2 auth = Some g" "gr_tenant_id g = tenant" "gr_task_id g = k" "gr_allowed_action g = action"
      "gr_invocation_sha256 g = tool_invocation_sha256 H i" "gr_revoked_at g = None" "now < gr_expires_at g"
      "\<not> client_forged_approver (gr_approved_by g)"
      using assms auth by (auto simp: side_effect_authorized_def stored_grant_dict split: option.splits)
    then have "gr_approved_at g < gr_expires_at g"
      by (auto simp: validate_grant_v2_def valid_lifetime_def split: option.splits if_splits)
    then show ?thesis using auth g by (auto simp: current_approval_def tool_invocation_sha256_def)
  next
    case False
    then show ?thesis
      using assms auth by (auto simp: side_effect_authorized_def stored_grant_dict named_approval_def split: option.splits)
  qed
qed

lemma ability_authorized_means:
  assumes "ability_authorized H md m tenant k now"
  obtains i where "invocation_of md = Some i" "ability_approval H md m tenant k i now"
proof -
  obtain auth i g where auth: "stored_grant md ''ability_authorization'' auth" and i: "invocation_of md = Some i"
    and "validate_ability_grant auth = Some g" "gr_tenant_id g = tenant" "gr_task_id g = k" "ag_ability_id g = am_ability_id m"
      "ag_manifest_fingerprint g = manifest_fingerprint H m" "gr_allowed_action g = am_action_name m"
      "gr_invocation_sha256 g = tool_invocation_sha256 H i" "gr_revoked_at g = None" "now < gr_expires_at g"
    using assms by (auto simp: ability_authorized_def stored_grant_dict split: option.splits)
  then have "ability_approval H md m tenant k i now"
    by (auto simp: ability_approval_def manifest_fingerprint_def tool_invocation_sha256_def)
  then show thesis using that i by blast
qed

end
