(* ===== verification/CoordinatorRuns.thy ===== *)
theory CoordinatorRuns
  imports Coordinator Approvals
begin

section \<open>What the coordinator guarantees\<close>

text \<open>
  The lemmas take an operation of \<open>Coordinator\<close> that succeeded apart into the branch it took; the properties
  are about tasks that were queued, held, approved, revoked and retried.
\<close>

subsection \<open>Steps that leave rows alone\<close>

lemma change_sel [simp]: "fst (change f s) = f (fst s)" "snd (change f s) = snd s"
  by (simp_all add: change_def)

definition task_frame :: "'q world \<Rightarrow> 'q world \<Rightarrow> bool" where
  "task_frame w w1 \<longleftrightarrow> db_tasks (w_db w1) = db_tasks (w_db w) \<and> db_dispatches (w_db w1) = db_dispatches (w_db w) \<and>
     w_durable w1 = w_durable w \<and> w_queue w1 = w_queue w \<and> w_intents w1 = w_intents w \<and> w_clock w1 = w_clock w"

lemma task_frame_refl [simp]: "task_frame w w"
  by (simp add: task_frame_def)

lemma task_frame_trans: "task_frame w w1 \<Longrightarrow> task_frame w1 w2 \<Longrightarrow> task_frame w w2"
  by (simp add: task_frame_def)

lemma task_frame_rows [simp]:
  "task_frame w0 (audit t m c a b ds p w) = task_frame w0 w"
  "task_frame w0 (govern t m ty ac dec pl w) = task_frame w0 w"
  "task_frame w0 (record_fact K fa w) = task_frame w0 w"
  "task_frame w0 (map_db (save_mission mi) w) = task_frame w0 w"
  "task_frame w0 (w\<lparr>w_next_id := n\<rparr>) = task_frame w0 w"
  by (simp_all add: task_frame_def audit_def govern_def record_fact_def map_db_def add_audit_def save_mission_def)

lemma frame_lookup:
  assumes "task_frame w w1"
  shows "find_task k (w_db w1) = find_task k (w_db w)" "dispatch_for_task t k (w_db w1) = dispatch_for_task t k (w_db w)"
  using assms by (simp_all add: task_frame_def find_task_def dispatch_for_task_def)

lemma set_task_sel [simp]: "set_task (Inr y) s = (Inr y, change (map_db (save_task y)) s)" "set_task (Inl e) s = (Inl (Raised e), s)"
  by (simp_all add: set_task_def on_world_def update_task_def raised_def change_def)

lemma set_task_Inr: "set_task r s = (Inr y, s1) \<longleftrightarrow> r = Inr y \<and> s1 = change (map_db (save_task y)) s"
  by (cases r) auto

lemma raised_Inr [simp]: "raised r = Inr x \<longleftrightarrow> r = Inr x"
  by (cases r) (simp_all add: raised_def)

lemma raised_simps [simp]: "raised (Inr x) = Inr x" "raised (Inl e) = Inl (Raised e)"
  by (simp_all add: raised_def)

lemma value_error_not_Inr [simp]: "value_error why \<noteq> Inr x"
  by (simp add: value_error_def)

lemma require_task_Inr: "require_task tenant k s = (Inr x, s1) \<longleftrightarrow> s1 = s \<and> find_task k (w_db (fst s)) = Some x \<and> t_tenant_id x = tenant"
  by (auto simp: require_task_def split: option.splits)

lemma found_id: "find_task k d = Some x \<Longrightarrow> t_id x = k"
  unfolding find_task_def by (drule find_row_key) simp

lemma governor_allows [simp]: "gv_execution_allowed (governor_evaluate a)"
  by (auto simp: governor_evaluate_def split: sum.splits)

subsection \<open>Nothing durable before the commit\<close>

definition quiet :: "'q runtime \<Rightarrow> 'q runtime \<Rightarrow> bool" where
  "quiet s s1 \<longleftrightarrow> w_durable (fst s1) = w_durable (fst s) \<and> w_queue (fst s1) = w_queue (fst s)"

named_theorems quiets

lemma quiet_refl [quiets]: "quiet s s"
  by (simp add: quiet_def)

lemma quiet_snd [quiets]: "quiet s s1 \<Longrightarrow> quiet s (snd (r, s1))"
  by simp

lemma quiet_trans: "quiet s s1 \<Longrightarrow> quiet s1 s2 \<Longrightarrow> quiet s s2"
  by (simp add: quiet_def)

lemma quiet_then [quiets]:
  "quiet s (snd r) \<Longrightarrow> (\<And>x s1. quiet s s1 \<Longrightarrow> quiet s (snd (f x s1))) \<Longrightarrow> quiet s (snd (then_do r f))"
  by (cases r; cases "fst r") auto

lemma quiet_if [quiets]: "quiet s (snd a) \<Longrightarrow> quiet s (snd b) \<Longrightarrow> quiet s (snd (if c then a else b))"
  by simp

lemma quiet_option [quiets]: "quiet s (snd a) \<Longrightarrow> (\<And>x. quiet s (snd (f x))) \<Longrightarrow> quiet s (snd (case v of None \<Rightarrow> a | Some x \<Rightarrow> f x))"
  by (cases v) simp_all

lemma quiet_pair [quiets]: "(\<And>a b. quiet s (snd (f a b))) \<Longrightarrow> quiet s (snd (case p of (a, b) \<Rightarrow> f a b))"
  by (cases p) simp

lemma quiet_pair_step [quiets]: "(\<And>a b. quiet s (snd (f a b z))) \<Longrightarrow> quiet s (snd ((case p of (a, b) \<Rightarrow> f a b) z))"
  by (cases p) simp

lemma quiet_rows_only [quiets]:
  "quiet s s1 \<Longrightarrow> quiet s (change (map_db f) s1)"
  "quiet s s1 \<Longrightarrow> quiet s (change (audit t m c a b ds p) s1)"
  "quiet s s1 \<Longrightarrow> quiet s (change (govern t m ty ac dec pl) s1)"
  "quiet s s1 \<Longrightarrow> quiet s (change (record_fact K fa) s1)"
  "quiet s s1 \<Longrightarrow> quiet s (change (\<lambda>w. w\<lparr>w_next_id := n w\<rparr>) s1)"
  by (simp_all add: quiet_def audit_def govern_def record_fact_def map_db_def)

lemma quiet_set_task [quiets]: "quiet s s1 \<Longrightarrow> quiet s (snd (set_task r s1))"
  by (cases r) (auto intro: quiets)

lemma quiet_require [quiets]: "quiet s s1 \<Longrightarrow> quiet s (snd (require_task t k s1))"
  by (simp add: require_task_def split: option.split)

lemma quiet_emit [quiets]: "quiet s s1 \<Longrightarrow> quiet s (emit_denial t x why s1)"
  unfolding emit_denial_def by (intro quiets)

lemma quiet_place [quiets]: "quiet s s1 \<Longrightarrow> quiet s (snd (place_in_review t x why s1))"
  unfolding place_in_review_def by (intro quiets)

subsection \<open>Holding and admitting\<close>

lemma held_task_Inr:
  assumes "held_task x = Inr y"
  shows "t_id y = t_id x" "t_tenant_id y = t_tenant_id x" "t_status y = TPendingReview" "t_requires_human_review y"
    "t_mission_id y = t_mission_id x"
  using assms by (auto simp: held_task_def bind_result_Inr transition_task_def)

lemma place_in_review_Inr:
  assumes "place_in_review tenant x why s = (Inr y, s1)"
  shows "held_task x = Inr y" "snd s1 = snd s" "task_frame (map_db (save_task y) (fst s)) (fst s1)"
  using assms by (auto simp: place_in_review_def then_do_Inr set_task_Inr)

lemma admit_world:
  assumes "admit x held w = (r, w1)"
  shows "db_tasks (w_db w1) = db_tasks (w_db w)" "w_durable w1 = w_durable w" "w_queue w1 = w_queue w" "w_clock w1 = w_clock w"
  using assms
  by (auto simp: admit_def release_review_hold_def schedule_after_commit_def queue_dispatch_after_commit_def map_db_def
      save_dispatch_def Let_def split: option.splits if_splits prod.splits sum.splits)

lemma record_admission_world:
  assumes "record_task_admission x held s = (r, s1)"
  shows "db_tasks (w_db (fst s1)) = db_tasks (w_db (fst s))" "w_durable (fst s1) = w_durable (fst s)"
    "w_queue (fst s1) = w_queue (fst s)" "w_clock (fst s1) = w_clock (fst s)"
proof -
  obtain r0 w1 where a: "admit x held (fst s) = (r0, w1)" by fastforce
  have "fst s1 = w1"
    using assms a by (auto simp: record_task_admission_def then_do_def on_world_def on_tenants_def raised_def
      split: prod.splits sum.splits if_splits option.splits)
  then show "db_tasks (w_db (fst s1)) = db_tasks (w_db (fst s))" "w_durable (fst s1) = w_durable (fst s)"
    "w_queue (fst s1) = w_queue (fst s)" "w_clock (fst s1) = w_clock (fst s)"
    using admit_world [OF a] by simp_all
qed

lemma quiet_admission [quiets]: "quiet s s1 \<Longrightarrow> quiet s (snd (record_task_admission x held s1))"
  using record_admission_world(2,3) [OF surjective_pairing, of x held s1] by (simp add: quiet_def)

lemma quiet_hold [quiets]: "quiet s s1 \<Longrightarrow> quiet s (snd (hold_for_review t x why s1))"
  unfolding hold_for_review_def by (intro quiets)

lemma quiet_admit [quiets]: "quiet s s1 \<Longrightarrow> quiet s (snd (admit_to_queue K t x dec policy s1))"
  unfolding admit_to_queue_def by (intro quiets)

lemma quiet_queue_task [quiets]: "quiet s s1 \<Longrightarrow> quiet s (snd (queue_task K t k s1))"
  unfolding queue_task_def Let_def by (intro quiets)

lemma record_admission_existing:
  assumes "record_task_admission x held s = (r, s1)" and "dispatch_for_task (t_tenant_id x) (t_id x) (w_db (fst s)) = Some D"
    and "held \<or> rd_status D \<noteq> DHeldReview"
  shows "s1 = s"
proof -
  have "admit x held (fst s) = (Inr (D, False), fst s)" using assms(2,3) by (auto simp: admit_def)
  then show ?thesis using assms(1) by (simp add: record_task_admission_def on_world_def)
qed

lemma hold_for_review_Inr:
  assumes "hold_for_review tenant x why s = (Inr r, s1)"
  obtains y where "held_task x = Inr y" "r = not_admitted y why"
    "db_tasks (w_db (fst s1)) = put_row t_id y (db_tasks (w_db (fst s)))"
    "w_durable (fst s1) = w_durable (fst s)" "w_queue (fst s1) = w_queue (fst s)"
proof -
  obtain y s2 where y: "place_in_review tenant x why s = (Inr y, s2)" and r: "r = not_admitted y why"
    and rec: "\<exists>u. record_task_admission y True s2 = (Inr u, s1)"
    using assms by (auto simp: hold_for_review_def then_do_Inr)
  from rec obtain u where u: "record_task_admission y True s2 = (Inr u, s1)" ..
  note p = place_in_review_Inr [OF y] and a = record_admission_world [OF u]
  show thesis
    by (rule that [OF p(1) r]) (use p(3) a in \<open>auto simp: task_frame_def map_db_def save_task_def\<close>)
qed

lemma admit_to_queue_Inr:
  assumes "admit_to_queue K tenant x dec policy s = (Inr r, s1)"
  obtains y s2 where "transition_task x TQueued = Inr y" "r = admitted y"
    "record_task_admission y False (change (map_db (save_task y)) s) = (Inr (), s2)" "snd s1 = snd s2" "task_frame (fst s2) (fst s1)"
proof -
  obtain y s2 where y: "transition_task x TQueued = Inr y"
    and rec: "record_task_admission y False (change (map_db (save_task y)) s) = (Inr (), s2)"
    and rest: "r = admitted y" "snd s1 = snd s2" "task_frame (fst s2) (fst s1)"
    using assms by (auto simp: admit_to_queue_def then_do_Inr set_task_Inr split: if_splits)
  show thesis by (rule that [OF y rest(1) rec rest(2,3)])
qed

lemma queue_task_Inr:
  assumes "queue_task K tenant k s = (Inr r, s1)"
  obtains x where "find_task k (w_db (fst s)) = Some x" "t_tenant_id x = tenant"
    "(\<exists>why. hold_for_review tenant x why s = (Inr r, s1)) \<or>
     requires_effect_review K x (w_clock (fst s)) = Inr False \<and> \<not> requires_ability_review K x (w_clock (fst s)) \<and>
       pd_allowed (evaluate_task x) \<and>
       admit_to_queue K tenant x (governor_evaluate (ch_health K)) (evaluate_task x) s = (Inr r, s1)"
proof -
  obtain x where x: "find_task k (w_db (fst s)) = Some x" "t_tenant_id x = tenant"
    using assms by (auto simp: queue_task_def then_do_Inr require_task_Inr)
  then have "require_task tenant k s = (Inr x, s)" by (simp add: require_task_Inr)
  then have "(\<exists>why. hold_for_review tenant x why s = (Inr r, s1)) \<or>
     requires_effect_review K x (w_clock (fst s)) = Inr False \<and> \<not> requires_ability_review K x (w_clock (fst s)) \<and>
       pd_allowed (evaluate_task x) \<and>
       admit_to_queue K tenant x (governor_evaluate (ch_health K)) (evaluate_task x) s = (Inr r, s1)"
    using assms by (auto simp: queue_task_def Let_def then_do_Inr split: if_splits)
  then show thesis by (rule that [OF x])
qed

lemma queued_status: "transition_task x TQueued = Inr y \<Longrightarrow> t_status y = TQueued \<and> t_id y = t_id x \<and> t_tenant_id y = t_tenant_id x \<and>
    t_metadata y = t_metadata x \<and> t_mission_id y = t_mission_id x"
  by (auto simp: transition_task_def bind_result_Inr)

subsection \<open>Approving\<close>

lemma draw_id_sel: "draw_id s = (i, s1) \<Longrightarrow> task_frame (fst s) (fst s1) \<and> snd s1 = snd s"
  by (auto simp: draw_id_def)

lemma bind_Inr: "bind_invocation_for_approval K x md i s = (Inr r, s1) \<Longrightarrow> s1 = s"
  by (auto simp: bind_invocation_for_approval_def then_do_Inr split: option.splits if_splits binding.splits)

lemma final_invocation_Inr:
  assumes "final_invocation K x md i expires s = (Inr (j, md1, e), s1)"
  shows "s1 = s" "expires = Some e" "w_clock (fst s) < e"
    "\<exists>audited. md1 = (case audited of None \<Rightarrow> AList.update ''tool_invocation'' (JObj (invocation_dump j)) md
       | Some a \<Rightarrow> AList.update ''input_binding_audit'' (JObj a) (AList.update ''tool_invocation'' (JObj (invocation_dump j)) md))"
proof -
  obtain j0 audited s2 where b: "bind_invocation_for_approval K x md i s = (Inr (j0, audited), s2)"
    using assms by (auto simp: final_invocation_def then_do_Inr)
  have "s2 = s" using bind_Inr [OF b] .
  obtain e0 where e0: "expires = Some e0"
    using assms b by (cases expires) (simp_all add: final_invocation_def Let_def)
  have "\<not> e0 \<le> w_clock (fst s)"
    using assms b e0 \<open>s2 = s\<close> by (auto simp: final_invocation_def Let_def)
  then have all: "(case audited of None \<Rightarrow> AList.update ''tool_invocation'' (JObj (invocation_dump j0)) md
       | Some a \<Rightarrow> AList.update ''input_binding_audit'' (JObj a) (AList.update ''tool_invocation'' (JObj (invocation_dump j0)) md)) = md1 \<and>
      j0 = j \<and> e0 = e \<and> s = s1"
    using assms b e0 \<open>s2 = s\<close> by (simp add: final_invocation_def Let_def)
  show "s1 = s" "expires = Some e" "w_clock (fst s) < e"
    "\<exists>audited. md1 = (case audited of None \<Rightarrow> AList.update ''tool_invocation'' (JObj (invocation_dump j)) md
       | Some a \<Rightarrow> AList.update ''input_binding_audit'' (JObj a) (AList.update ''tool_invocation'' (JObj (invocation_dump j)) md))"
    using all e0 \<open>\<not> e0 \<le> w_clock (fst s)\<close> by auto
qed

lemma add_ability_grant_Inr:
  assumes "add_ability_grant K tenant k m call actor e cs s = (Inr (g, cs1), s1)"
  shows "task_frame (fst s) (fst s1) \<and> snd s1 = snd s \<and> cs1 = AList.update ''ability_authorization'' (JObj g) cs"
  using assms by (auto simp: add_ability_grant_def Let_def split: prod.splits if_splits dest!: draw_id_sel)

lemma add_effect_grant_sel:
  assumes "add_effect_grant K tenant k a call actor e cs s = ((g, cs1), s1)"
  shows "task_frame (fst s) (fst s1)" "snd s1 = snd s" "cs1 = AList.update ''side_effect_authorization'' (JObj g) cs"
    "\<exists>i. g = effect_grant_payload (ch_ledger K) i tenant k a call actor (w_clock (fst s)) e"
  using assms by (auto simp: add_effect_grant_def Let_def split: prod.splits dest!: draw_id_sel)

text \<open>The metadata an approval gives an action without a side effect and without an ability to approve, and any other.\<close>

lemma effect_grant_if_Inr:
  assumes "effect_grant_if K effect tenant k act j actor e cs s = (Inr (g, cs1), s1)"
  shows "task_frame (fst s) (fst s1)" "snd s1 = snd s"
    "effect \<Longrightarrow> \<exists>i. map_of cs1 ''side_effect_authorization'' =
       Some (JObj (effect_grant_payload (ch_ledger K) i tenant k act j actor (w_clock (fst s)) e))"
  using assms add_effect_grant_sel [of K tenant k act j actor e cs s]
  by (auto simp: effect_grant_if_def split: if_splits prod.splits)

lemma ability_grant_if_Inr:
  assumes "ability_grant_if K m tenant k j actor e cs s = (Inr (g, cs1), s1)"
  shows "task_frame (fst s) (fst s1)" "snd s1 = snd s" "map_of cs1 ''side_effect_authorization'' = map_of cs ''side_effect_authorization''"
  using assms by (auto simp: ability_grant_if_def then_do_Inr split: if_splits option.splits dest!: add_ability_grant_Inr)

lemma grant_metadata_Inr:
  assumes "grant_metadata K tenant x i a cs actor expires s = (Inr (md, g1, g2), s1)"
  obtains (plain) c where "side_effect_for a i = Inr c" "\<not> has_side_effect c" "s1 = s"
      "md = publication_authorized i (AList.update ''execution_constraints'' (JObj cs) (t_metadata x))"
  | (granted) c j md1 e cs1 where "side_effect_for a i = Inr c" "final_invocation K x (t_metadata x) i expires s = (Inr (j, md1, e), s)"
      "md = publication_authorized j (AList.update ''execution_constraints'' (JObj cs1) md1)"
      "has_side_effect c \<Longrightarrow> \<exists>gi. map_of cs1 ''side_effect_authorization'' =
         Some (JObj (effect_grant_payload (ch_ledger K) gi tenant (t_id x) (ad_name a) j actor (w_clock (fst s)) e))"
      "task_frame (fst s) (fst s1)" "snd s1 = snd s"
proof -
  let ?m = "map_of (ch_manifests K) (ad_name a)"
  obtain c where c: "side_effect_for a i = Inr c"
    using assms by (auto simp: grant_metadata_def Let_def then_do_Inr)
  show thesis
  proof (cases "\<not> has_side_effect c \<and> \<not> approval_required ?m")
    case True
    then show thesis using assms c plain [OF c] by (auto simp: grant_metadata_def Let_def)
  next
    case False
    then have f: "(\<not> has_side_effect c \<and> \<not> approval_required ?m) = False" by simp
    have "then_do (final_invocation K x (t_metadata x) i expires s) (\<lambda>(j, md1, e) s1.
              then_do (effect_grant_if K (has_side_effect c) tenant (t_id x) (ad_name a) j actor e cs s1) (\<lambda>(g1, cs1) s2.
              then_do (ability_grant_if K ?m tenant (t_id x) j actor e cs1 s2) (\<lambda>(g2, cs2) s3.
                (Inr (publication_authorized j (AList.update ''execution_constraints'' (JObj cs2) md1), g1, g2), s3)))) =
        (Inr (md, g1, g2), s1)"
      using assms c by (simp only: grant_metadata_def Let_def raised_simps then_do_simps f if_False)
    then obtain j md1 e s0 cs0 h s2 cs2 h2 where fin: "final_invocation K x (t_metadata x) i expires s = (Inr (j, md1, e), s0)"
      and g: "effect_grant_if K (has_side_effect c) tenant (t_id x) (ad_name a) j actor e cs s0 = (Inr (h, cs0), s2)"
      and ab: "ability_grant_if K ?m tenant (t_id x) j actor e cs0 s2 = (Inr (h2, cs2), s1)"
      and md: "md = publication_authorized j (AList.update ''execution_constraints'' (JObj cs2) md1)"
      by (auto simp: then_do_Inr)
    have "s0 = s" using final_invocation_Inr(1) [OF fin] .
    note steps = effect_grant_if_Inr [OF g] ability_grant_if_Inr [OF ab]
    show thesis
      by (rule granted [OF c fin [unfolded \<open>s0 = s\<close>] md]) (use steps \<open>s0 = s\<close> in \<open>auto intro: task_frame_trans\<close>)
  qed
qed

lemma approval_metadata_Inr:
  assumes "approval_metadata K tenant x actor expires s = (Inr (md, g1, g2), s1)"
  shows "task_frame (fst s) (fst s1) \<and> snd s1 = snd s"
proof -
  have *: "task_frame (fst s) (fst s1) \<and> snd s1 = snd s"
    if "grant_metadata K tenant x i a cs actor expires s = (Inr (md, g1, g2), s1)" for i a cs
    using grant_metadata_Inr [OF that] by (metis task_frame_refl)
  show ?thesis
    using assms * by (auto simp: approval_metadata_def no_action_def Let_def then_do_Inr split: option.splits if_splits)
qed

lemma quiet_fail_binding [quiets]: "quiet s s1 \<Longrightarrow> quiet s (snd (fail_review_input_binding K x s1))"
  unfolding fail_review_input_binding_def by (intro quiets)

lemma quiet_bind [quiets]: "quiet s s1 \<Longrightarrow> quiet s (snd (bind_invocation_for_approval K x md i s1))"
  unfolding bind_invocation_for_approval_def by (intro quiets) (auto split: binding.split intro: quiets)

lemma quiet_final [quiets]: "quiet s s1 \<Longrightarrow> quiet s (snd (final_invocation K x md i expires s1))"
  unfolding final_invocation_def Let_def by (intro quiets)

lemma quiet_draw [quiets]: "quiet s s1 \<Longrightarrow> quiet s (snd (draw_id s1))"
  by (simp add: draw_id_def quiet_def)

lemma quiet_effect_grant [quiets]: "quiet s s1 \<Longrightarrow> quiet s (snd (add_effect_grant K t k a call actor e cs s1))"
  by (simp add: add_effect_grant_def draw_id_def Let_def quiet_def)

lemma quiet_ability_grant [quiets]: "quiet s s1 \<Longrightarrow> quiet s (snd (add_ability_grant K t k m call actor e cs s1))"
  by (simp add: add_ability_grant_def draw_id_def Let_def quiet_def)

lemma quiet_effect_if [quiets]: "quiet s s1 \<Longrightarrow> quiet s (snd (effect_grant_if K b t k a call actor e cs s1))"
  using quiet_effect_grant [of s s1 K t k a call actor e cs] by (auto simp: effect_grant_if_def split: prod.split)

lemma quiet_ability_if [quiets]: "quiet s s1 \<Longrightarrow> quiet s (snd (ability_grant_if K m t k call actor e cs s1))"
  unfolding ability_grant_if_def by (intro quiets)

lemma quiet_grant_metadata [quiets]: "quiet s s1 \<Longrightarrow> quiet s (snd (grant_metadata K t x i a cs actor expires s1))"
  unfolding grant_metadata_def Let_def by (intro quiets)

lemma quiet_approval_metadata [quiets]: "quiet s s1 \<Longrightarrow> quiet s (snd (approval_metadata K t x actor expires s1))"
  unfolding approval_metadata_def Let_def by (intro quiets)

lemma quiet_reviewed [quiets]: "quiet s s1 \<Longrightarrow> quiet s (snd (record_reviewed_queue_admission t x s1))"
  by (auto simp: record_reviewed_queue_admission_def on_world_def set_mission_def map_db_def quiet_def split: option.split sum.split)

lemma quiet_approve [quiets]: "quiet s s1 \<Longrightarrow> quiet s (snd (approve_review_and_queue K t k actor expires s1))"
  unfolding approve_review_and_queue_def Let_def by (intro quiets)

lemma reviewed_queue_Inr:
  assumes "record_reviewed_queue_admission tenant x s = (Inr u, s1)"
  shows "task_frame (fst s) (fst s1) \<and> snd s1 = snd s"
  using assms
  by (auto simp: record_reviewed_queue_admission_def on_world_def set_mission_def raised_def split: option.splits sum.splits prod.splits)

lemma approve_Inr:
  assumes "approve_review_and_queue K tenant k actor expires s = (Inr r, s')"
  obtains x md g1 g2 s1 y s2 where "find_task k (w_db (fst s)) = Some x" "t_tenant_id x = tenant" "t_status x = TPendingReview"
    "approval_metadata K tenant x actor expires s = (Inr (md, g1, g2), s1)" "task_frame (fst s) (fst s1)" "snd s1 = snd s"
    "requires_effect_review K (x\<lparr>t_metadata := md\<rparr>) (w_clock (fst s)) = Inr False"
    "pd_allowed (evaluate_task (x\<lparr>t_metadata := md\<rparr>))"
    "transition_task (x\<lparr>t_metadata := md\<rparr>) TQueued = Inr y" "r = admitted y"
    "record_task_admission y False (change (map_db (save_task y)) (change (map_db (save_task (x\<lparr>t_metadata := md\<rparr>))) s1)) = (Inr (), s2)"
    "snd s' = snd s2" "task_frame (fst s2) (fst s')"
proof -
  obtain x where x: "find_task k (w_db (fst s)) = Some x" "t_tenant_id x = tenant" and st: "t_status x = TPendingReview"
    using assms by (auto simp: approve_review_and_queue_def then_do_Inr require_task_Inr split: if_splits)
  have req: "require_task tenant k s = (Inr x, s)" using x by (simp add: require_task_Inr)
  obtain md g1 g2 s1 where md: "approval_metadata K tenant x actor expires s = (Inr (md, g1, g2), s1)"
    using assms req st by (auto simp: approve_review_and_queue_def then_do_Inr)
  note f = approval_metadata_Inr [OF md]
  let ?x = "x\<lparr>t_metadata := md\<rparr>"
  let ?s2 = "change (map_db (save_task ?x)) s1"
  obtain r0 s3 s4 u where q: "queue_task K tenant k ?s2 = (Inr r0, s3)" and ok: "cn_ok r0"
    and rec: "record_reviewed_queue_admission tenant x s3 = (Inr u, s4)" and r: "r = r0"
    and fin: "snd s' = snd s4" "task_frame (fst s4) (fst s')"
    using assms req st md
    by (auto simp: approve_review_and_queue_def then_do_Inr Let_def split: if_splits option.splits)
  have found: "find_task k (w_db (fst ?s2)) = Some ?x"
    using x(1) found_id [OF x(1)] frame_lookup(1) [of "fst s" "fst s1" k] f by (simp add: map_db_def)
  obtain x' where x': "find_task k (w_db (fst ?s2)) = Some x'"
    and branch: "(\<exists>why. hold_for_review tenant x' why ?s2 = (Inr r0, s3)) \<or>
     requires_effect_review K x' (w_clock (fst ?s2)) = Inr False \<and> \<not> requires_ability_review K x' (w_clock (fst ?s2)) \<and>
       pd_allowed (evaluate_task x') \<and>
       admit_to_queue K tenant x' (governor_evaluate (ch_health K)) (evaluate_task x') ?s2 = (Inr r0, s3)"
    using queue_task_Inr [OF q] by metis
  have "x' = ?x" using found x' by simp
  have "\<not> (\<exists>why. hold_for_review tenant x' why ?s2 = (Inr r0, s3))"
    using ok by (auto elim!: hold_for_review_Inr simp: not_admitted_def)
  then have adm: "admit_to_queue K tenant ?x (governor_evaluate (ch_health K)) (evaluate_task ?x) ?s2 = (Inr r0, s3)"
    and pass: "requires_effect_review K ?x (w_clock (fst s)) = Inr False" "pd_allowed (evaluate_task ?x)"
    using branch \<open>x' = ?x\<close> f by (auto simp: task_frame_def map_db_def)
  from admit_to_queue_Inr [OF adm] obtain y s5 where y: "transition_task ?x TQueued = Inr y" "r0 = admitted y"
    "record_task_admission y False (change (map_db (save_task y)) ?s2) = (Inr (), s5)" "snd s3 = snd s5" "task_frame (fst s5) (fst s3)"
    by metis
  have "snd s' = snd s5" "task_frame (fst s5) (fst s')"
    using y(4,5) reviewed_queue_Inr [OF rec] fin task_frame_trans by metis+
  then show thesis using that [OF x st md _ _ pass y(1) _ y(3)] f r y(2) by simp
qed

subsection \<open>A retry that a human has to approve\<close>

lemma session_scope_Inr: "session_scope Q S pm r = (Inr x, s1) \<longleftrightarrow> (\<exists>s. r = (Inr x, s) \<and> s1 = request_commit Q S pm s)"
  by (cases r; cases "fst r") (auto simp: session_scope_def)

lemma commit_no_intents: "w_intents w = [] \<Longrightarrow> commit Q w = w\<lparr>w_durable := w_db w\<rparr>"
  by (simp add: commit_def)

lemma admitted_state: "transition_task x TQueued = Inr y \<Longrightarrow> cn_state (admitted y) = TQueued"
  by (simp add: admitted_def queued_status)

lemma readmit_state: "readmit tenant x s = (Inr r, s1) \<Longrightarrow> cn_state r = TQueued"
  by (auto simp: readmit_def then_do_Inr set_task_Inr admitted_def dest: queued_status)

lemma retry_held:
  assumes "retry_task K tenant k s = (Inr r, s1)" and "cn_state r \<noteq> TQueued"
  obtains x y where "find_task k (w_db (fst s)) = Some x" "t_tenant_id x = tenant" "t_status x \<in> {TDeadLettered, TFailed}" "held_task x = Inr y"
    "task_frame (map_db (save_task y) (fst s)) (fst s1)" "snd s1 = snd s"
proof -
  obtain x where x: "find_task k (w_db (fst s)) = Some x" "t_tenant_id x = tenant" "t_status x \<in> {TDeadLettered, TFailed}"
    using assms by (auto simp: retry_task_def then_do_Inr require_task_Inr split: if_splits)
  then have "require_task tenant k s = (Inr x, s)" by (simp add: require_task_Inr)
  then obtain why where "hold_retry tenant x why s = (Inr r, s1)"
    using assms x by (auto simp: retry_task_def then_do_Inr Let_def split: if_splits dest: readmit_state)
  then obtain y where "place_in_review tenant x why s = (Inr y, s1)" by (auto simp: hold_retry_def then_do_Inr)
  from place_in_review_Inr [OF this] show thesis using that x by blast
qed

lemma approve_keeps_dispatch:
  assumes "approve_review_and_queue K tenant k actor expires s = (Inr r, s')"
    and "dispatch_for_task tenant k (w_db (fst s)) = Some D" and "rd_status D \<noteq> DHeldReview"
  shows "(\<exists>x. find_task k (w_db (fst s')) = Some x \<and> t_status x = TQueued) \<and> dispatch_for_task tenant k (w_db (fst s')) = Some D \<and>
    w_queue (fst s') = w_queue (fst s) \<and> w_intents (fst s') = w_intents (fst s) \<and> snd s' = snd s"
proof -
  from approve_Inr [OF assms(1)] obtain x md s1 y s2 where x: "find_task k (w_db (fst s)) = Some x" "t_tenant_id x = tenant"
    and f1: "task_frame (fst s) (fst s1)" "snd s1 = snd s"
    and y: "transition_task (x\<lparr>t_metadata := md\<rparr>) TQueued = Inr y"
    and rec: "record_task_admission y False (change (map_db (save_task y)) (change (map_db (save_task (x\<lparr>t_metadata := md\<rparr>))) s1)) = (Inr (), s2)"
    and f2: "snd s' = snd s2" "task_frame (fst s2) (fst s')"
    by metis
  let ?s3 = "change (map_db (save_task y)) (change (map_db (save_task (x\<lparr>t_metadata := md\<rparr>))) s1)"
  have key: "t_id x = k" using found_id [OF x(1)] .
  have ty: "t_status y = TQueued" "t_id y = k" "t_tenant_id y = tenant" using queued_status [OF y] key x(2) by auto
  have d: "dispatch_for_task (t_tenant_id y) (t_id y) (w_db (fst ?s3)) = Some D"
    using frame_lookup(2) [OF f1(1)] assms(2) ty by (simp add: map_db_def dispatch_for_task_def save_task_def)
  then have "s2 = ?s3" using record_admission_existing [OF rec] assms(3) by blast
  moreover have "find_task k (w_db (fst ?s3)) = Some y"
    using frame_lookup(1) [OF f1(1), of k] x(1) key ty(2) by (simp add: map_db_def)
  moreover have "w_queue (fst ?s3) = w_queue (fst s)" "w_intents (fst ?s3) = w_intents (fst s)" "snd ?s3 = snd s"
    using f1 by (simp_all add: map_db_def task_frame_def)
  ultimately show ?thesis using f2 d ty frame_lookup [OF f2(2)] by (auto simp: task_frame_def)
qed

text \<open>
  C35: a task that fails, is retried, is held for review by the retry and is then approved is never delivered. Both
  requests succeed and the task is queued in the database for good, but its old dispatch, which the retry did not renew, is
  still marked as published: nothing reaches the queue and no later publication looks at it.
\<close>

theorem approved_retry_never_delivered:
  assumes "retry_route K Q S pm tenant k s = (Inr r, s1)" and "cn_state r = TPendingReview"
    and "dispatch_for_task tenant k (w_db (fst s)) = Some D" and "rd_status D = DPublished" and "w_intents (fst s) = []"
    and "approve_route K1 Q S pm tenant k actor expires (change (\<lambda>w. w\<lparr>w_clock := now\<rparr>) s1) = (Inr r1, s2)"
  shows "(\<exists>x. find_task k (w_durable (fst s2)) = Some x \<and> t_status x = TQueued) \<and> w_queue (fst s2) = w_queue (fst s) \<and>
    dispatch_for_task tenant k (w_durable (fst s2)) = Some D \<and> D \<notin> set (due_pending later limit (w_durable (fst s2)))"
proof -
  obtain s0 where retry: "retry_task K tenant k s = (Inr r, s0)" and s1: "s1 = request_commit Q S pm s0"
    using assms(1) by (auto simp: retry_route_def session_scope_Inr)
  obtain y where f: "task_frame (map_db (save_task y) (fst s)) (fst s0)"
    using retry_held [OF retry] assms(2) by (metis task_state.distinct(40) task_state.simps)
  then have "w_intents (fst s0) = []" and q0: "w_queue (fst s0) = w_queue (fst s)"
    and d0: "dispatch_for_task tenant k (w_db (fst s0)) = Some D"
    using assms(3,5) by (simp_all add: task_frame_def map_db_def dispatch_for_task_def save_task_def)
  then have w1: "fst s1 = (fst s0)\<lparr>w_durable := w_db (fst s0)\<rparr>" by (simp add: s1 request_commit_def commit_no_intents)
  let ?s = "change (\<lambda>w. w\<lparr>w_clock := now\<rparr>) s1"
  obtain s3 where app: "approve_review_and_queue K1 tenant k actor expires ?s = (Inr r1, s3)" and s2: "s2 = request_commit Q S pm s3"
    using assms(6) by (auto simp: approve_route_def session_scope_Inr then_do_Inr require_task_Inr split: if_splits)
  have "dispatch_for_task tenant k (w_db (fst ?s)) = Some D" using d0 w1 by simp
  from approve_keeps_dispatch [OF app this] assms(4)
  have *: "\<exists>x. find_task k (w_db (fst s3)) = Some x \<and> t_status x = TQueued" "dispatch_for_task tenant k (w_db (fst s3)) = Some D"
    "w_queue (fst s3) = w_queue (fst s)" "w_intents (fst s3) = []"
    using w1 q0 \<open>w_intents (fst s0) = []\<close> by auto
  then have "fst s2 = (fst s3)\<lparr>w_durable := w_db (fst s3)\<rparr>" by (simp add: s2 request_commit_def commit_no_intents)
  moreover have "D \<notin> set (due_pending later limit d)" for d
    using assms(4) by (auto simp: due_pending_def dest: in_set_takeD)
  ultimately show ?thesis using * by auto
qed

subsection \<open>What a review hold leaves\<close>

text \<open>
  Through the queueing route a task that needs a review is never held for one. The hold is answered with an
  HTTP error, which rolls back the request: the task, its dispatches and the record of the decision are what they were, so no reviewer ever sees it,
  and the next request meets the same task again.
\<close>

theorem review_hold_rolled_back:
  assumes "find_task k (w_db (fst s)) = Some x" and "t_tenant_id x = tenant" and "w_durable (fst s) = w_db (fst s)"
    and "requires_effect_review K x (w_clock (fst s)) = Inr effect"
    and "effect \<or> requires_ability_review K x (w_clock (fst s)) \<or> \<not> pd_allowed (evaluate_task x)"
  shows "\<exists>e s1. queue_route K Q S pm tenant k s = (Inl e, s1) \<and> w_db (fst s1) = w_db (fst s) \<and> w_durable (fst s1) = w_db (fst s) \<and>
    w_queue (fst s1) = w_queue (fst s)"
proof -
  have req: "require_task tenant k s = (Inr x, s)" using assms by (simp add: require_task_Inr)
  have "queue_task K tenant k s = (if effect then hold_for_review tenant x effect_reason s
      else if requires_ability_review K x (w_clock (fst s)) then hold_for_review tenant x ability_reason s
      else hold_for_review tenant x (pd_reason (evaluate_task x)) s)"
    using assms(4,5) req by (auto simp: queue_task_def Let_def)
  then obtain why where q: "queue_task K tenant k s = hold_for_review tenant x why s" by metis
  obtain r0 s0 where h: "hold_for_review tenant x why s = (r0, s0)" by (rule prod.exhaust)
  have world: "w_durable (fst s0) = w_durable (fst s)" "w_queue (fst s0) = w_queue (fst s)"
    using quiet_hold [OF quiet_refl, of s tenant x why] h by (simp_all add: quiet_def)
  have "\<exists>e. queue_route K Q S pm tenant k s = (Inl e, request_rollback s0)"
  proof (cases r0)
    case (Inl e)
    then show ?thesis using req q h by (simp add: queue_route_def session_scope_def)
  next
    case (Inr r)
    have "hold_for_review tenant x why s = (Inr r, s0)" using h Inr by simp
    from hold_for_review_Inr [OF this] obtain y where "r = not_admitted y why" by metis
    then have "\<not> cn_ok r" by (simp add: not_admitted_def)
    then show ?thesis using req q h Inr by (simp add: queue_route_def session_scope_def value_error_def)
  qed
  then show ?thesis using world assms(3) by (auto simp: request_rollback_def rollback_def)
qed

subsection \<open>What enters the queue\<close>

text \<open>The row of a task that was queued, retried or approved: what it carries of an approval is what was checked.\<close>

lemma same_approval:
  assumes "invocation_of md1 = invocation_of md" and "constraints_of md1 = constraints_of md"
  shows "tool_action K md1 = tool_action K md" "current_approval H md1 = current_approval H md" "named_approval md1 = named_approval md"
  using assms by (auto simp: tool_action_def current_approval_def named_approval_def stored_grant_def fun_eq_iff)

lemma saved_row:
  assumes "record_task_admission y False (change (map_db (save_task y)) s) = (Inr (), s2)" and "task_frame (fst s2) (fst s1)"
    and "find_task (t_id y) (w_db (fst s)) \<noteq> None"
  shows "find_task (t_id y) (w_db (fst s1)) = Some y"
proof -
  have "find_task (t_id y) (w_db (fst s1)) = find_task (t_id y) (w_db (fst s2))" using frame_lookup(1) [OF assms(2)] .
  also have "\<dots> = find_task (t_id y) (save_task y (w_db (fst s)))"
    using record_admission_world(1) [OF assms(1)] by (simp add: find_task_def map_db_def)
  finally show ?thesis using assms(3) by simp
qed

lemma queued_row:
  assumes "queue_task K tenant k s = (Inr r, s1)" and "cn_state r = TQueued"
    and "find_task k (w_db (fst s)) = Some x" and "t_status x \<noteq> TQueued"
  shows "requires_effect_review K x (w_clock (fst s)) = Inr False \<and> t_tenant_id x = tenant \<and>
    (\<exists>z. find_task k (w_db (fst s1)) = Some z \<and> t_status z = TQueued \<and> t_metadata z = t_metadata x)"
proof -
  have no_hold: "\<not> (\<exists>why. hold_for_review tenant x why s = (Inr r, s1))"
    using assms(2) by (auto elim!: hold_for_review_Inr dest: held_task_Inr(3) simp: not_admitted_def)
  from queue_task_Inr [OF assms(1)] obtain x0 where x0: "find_task k (w_db (fst s)) = Some x0" "t_tenant_id x0 = tenant"
    "(\<exists>why. hold_for_review tenant x0 why s = (Inr r, s1)) \<or>
     requires_effect_review K x0 (w_clock (fst s)) = Inr False \<and> \<not> requires_ability_review K x0 (w_clock (fst s)) \<and>
       pd_allowed (evaluate_task x0) \<and>
       admit_to_queue K tenant x0 (governor_evaluate (ch_health K)) (evaluate_task x0) s = (Inr r, s1)" by metis
  then have pass: "requires_effect_review K x (w_clock (fst s)) = Inr False" "t_tenant_id x = tenant"
    and adm: "admit_to_queue K tenant x (governor_evaluate (ch_health K)) (evaluate_task x) s = (Inr r, s1)"
    using no_hold assms(3) by auto
  from admit_to_queue_Inr [OF adm] obtain y s2 where y: "transition_task x TQueued = Inr y"
    "record_task_admission y False (change (map_db (save_task y)) s) = (Inr (), s2)" "task_frame (fst s2) (fst s1)" by metis
  have id: "t_id y = k" using queued_status [OF y(1)] found_id [OF assms(3)] by simp
  have "find_task k (w_db (fst s1)) = Some y" using saved_row [OF y(2,3)] assms(3) id by simp
  then show ?thesis using pass queued_status [OF y(1)] by blast
qed

lemma retry_metadata_keeps:
  "k \<noteq> ''failure'' \<Longrightarrow> k \<noteq> ''retry_history'' \<Longrightarrow> map_of (retry_metadata now previous md) k = map_of md k"
  by (simp add: retry_metadata_def push_history_def Let_def delete_conv' split: option.split)

lemma reopened_tasks:
  assumes "reopen_failed_mission_for_retry tenant x s = (Inr u, s1)"
  shows "db_tasks (w_db (fst s1)) = db_tasks (w_db (fst s))"
  using assms
  by (auto simp: reopen_failed_mission_for_retry_def then_do_Inr on_world_def set_mission_def map_db_def save_mission_def audit_def add_audit_def
      split: option.splits if_splits sum.splits)

lemma retried_row:
  assumes "retry_task K tenant k s = (Inr r, s1)" and "cn_state r = TQueued"
    and "find_task k (w_db (fst s)) = Some x" and "t_status x \<noteq> TQueued"
  shows "requires_effect_review K x (w_clock (fst s)) = Inr False \<and> t_tenant_id x = tenant \<and>
    (\<exists>z. find_task k (w_db (fst s1)) = Some z \<and> t_status z = TQueued \<and> invocation_of (t_metadata z) = invocation_of (t_metadata x) \<and>
       constraints_of (t_metadata z) = constraints_of (t_metadata x))"
proof -
  have no_hold: "hold_retry tenant x why s \<noteq> (Inr r, s1)" for why
    using assms(2) by (auto simp: hold_retry_def then_do_Inr not_admitted_def dest!: place_in_review_Inr(1) dest: held_task_Inr(3))
  have t: "t_tenant_id x = tenant"
    using assms(1,3) by (auto simp: retry_task_def then_do_Inr require_task_Inr)
  then have req: "require_task tenant k s = (Inr x, s)" using assms(3) by (simp add: require_task_Inr)
  have not_self: "(Inr (not_admitted x why), s2) \<noteq> (Inr r, s1)" for why s2
    using assms(2,4) by (auto simp: not_admitted_def)
  obtain effect where e: "requires_effect_review K x (w_clock (fst s)) = Inr effect"
    using assms(1) req not_self by (auto simp: retry_task_def then_do_Inr Let_def split: if_splits)
  then have pass: "\<not> effect" and re: "readmit tenant x s = (Inr r, s1)"
    using assms(1) req not_self no_hold by (auto simp: retry_task_def then_do_Inr Let_def split: if_splits)
  let ?y = "retryable_task (w_clock (fst s)) x"
  let ?s0 = "change (map_db (save_task ?y)) s"
  obtain u s2 z s4 where reopen: "reopen_failed_mission_for_retry tenant ?y ?s0 = (Inr u, s2)"
    and z: "transition_task ?y TQueued = Inr z"
    and disp: "\<exists>d. on_world (retry_dispatch z) (change (map_db (save_task z)) s2) = (Inr d, s4)"
    and fin: "db_tasks (w_db (fst s1)) = db_tasks (w_db (fst s4))"
    using re by (auto simp: readmit_def then_do_Inr set_task_Inr)
  from disp obtain d where d: "on_world (retry_dispatch z) (change (map_db (save_task z)) s2) = (Inr d, s4)" ..
  have tasks4: "db_tasks (w_db (fst s4)) = db_tasks (save_task z (w_db (fst s2)))"
    using d retry_frame [OF surjective_pairing, of z "map_db (save_task z) (fst s2)"]
    by (auto simp: on_world_def map_db_def split: prod.splits)
  have id: "t_id z = k" using queued_status [OF z] found_id [OF assms(3)] by (simp add: retryable_task_def)
  have "find_task k (w_db (fst s2)) \<noteq> None"
    using reopened_tasks [OF reopen] assms(3) found_id [OF assms(3)] by (simp add: find_task_def map_db_def save_task_def retryable_task_def)
  then have "find_task k (save_task z (w_db (fst s2))) = Some z" using id by simp
  then have "find_task k (w_db (fst s1)) = Some z" using tasks4 fin by (simp add: find_task_def)
  moreover have "t_metadata z = retry_metadata (w_clock (fst s)) (t_status x) (t_metadata x)"
    using queued_status [OF z] by (simp add: retryable_task_def)
  ultimately show ?thesis
    using e pass t queued_status [OF z] by (simp add: invocation_of_def constraints_of_def retry_metadata_keeps)
qed

lemma approved_row:
  assumes "approve_review_and_queue K tenant k actor expires s = (Inr r, s1)"
  obtains x md g1 g2 s0 z where "find_task k (w_db (fst s)) = Some x" "t_tenant_id x = tenant"
    "approval_metadata K tenant x actor expires s = (Inr (md, g1, g2), s0)"
    "requires_effect_review K (x\<lparr>t_metadata := md\<rparr>) (w_clock (fst s)) = Inr False"
    "find_task k (w_db (fst s1)) = Some z" "t_status z = TQueued" "t_metadata z = md"
proof -
  from approve_Inr [OF assms] obtain x md g1 g2 s0 y s2 where x: "find_task k (w_db (fst s)) = Some x" "t_tenant_id x = tenant"
    and md: "approval_metadata K tenant x actor expires s = (Inr (md, g1, g2), s0)" "task_frame (fst s) (fst s0)"
    and pass: "requires_effect_review K (x\<lparr>t_metadata := md\<rparr>) (w_clock (fst s)) = Inr False"
    and y: "transition_task (x\<lparr>t_metadata := md\<rparr>) TQueued = Inr y"
    and rec: "record_task_admission y False (change (map_db (save_task y)) (change (map_db (save_task (x\<lparr>t_metadata := md\<rparr>))) s0)) = (Inr (), s2)"
    and fin: "task_frame (fst s2) (fst s1)"
    by metis
  have ty: "t_status y = TQueued" "t_id y = k" "t_metadata y = md" using queued_status [OF y] found_id [OF x(1)] by auto
  have "find_task k (w_db (fst (change (map_db (save_task (x\<lparr>t_metadata := md\<rparr>))) s0))) \<noteq> None"
    using frame_lookup(1) [OF md(2), of k] x(1) found_id [OF x(1)] by (simp add: map_db_def)
  then have "find_task k (w_db (fst s1)) = Some y" using saved_row [OF rec fin] ty(2) by simp
  then show thesis using that x md(1) pass ty by blast
qed

subsection \<open>Grants\<close>

lemma dropWhile_idem [simp]: "dropWhile P (dropWhile P xs) = dropWhile P xs"
  by (induction xs) auto

lemma dropWhile_prefix:
  assumes "xs = ys @ zs" and "ys \<noteq> []" and "dropWhile P xs = xs"
  shows "dropWhile P ys = ys"
  using assms by (metis dropWhile_eq_self_iff hd_append2 append_is_Nil_conv)

lemma strip_strip [simp]: "strip (strip s) = strip s"
proof -
  let ?u = "dropWhile is_space s"
  have pre: "?u = strip s @ rev (takeWhile is_space (rev ?u))"
    unfolding strip_def by (metis rev_append rev_rev_ident takeWhile_dropWhile_id)
  have "dropWhile is_space (strip s) = strip s"
    using dropWhile_prefix [OF pre] by (cases "strip s = []") auto
  then show ?thesis by (simp add: strip_def)
qed

lemma strip_length: "length (strip s) \<le> length s"
  unfolding strip_def by (metis length_dropWhile_le length_rev order_trans)

lemma stripped_field_Some:
  assumes "stripped_field hi d k = Some t"
  shows "strip t = t" "t \<noteq> []" "within_length 1 hi t"
  using assms strip_length [of "case map_of d k of Some (JStr s) \<Rightarrow> s | _ \<Rightarrow> []"]
  by (auto simp: stripped_field_def bounded_text_def text_field_def within_length_def Suc_le_eq
      split: option.splits if_splits json.splits)

lemma stripped_field_given: "strip t = t \<Longrightarrow> t \<noteq> [] \<Longrightarrow> within_length 1 hi t \<Longrightarrow> map_of d k = Some (JStr t) \<Longrightarrow> stripped_field hi d k = Some t"
  by (simp add: stripped_field_def bounded_text_def text_field_def)

lemma credential_round_trip:
  assumes "validate_credential d = Some c"
  shows "validate_credential (credential_dump c) = Some c"
proof -
  obtain a b t where c: "c = \<lparr>cr_credential_id = a, cr_provider = b, cr_credential_type = t\<rparr>"
    and at: "stripped_field 160 d ''credential_id'' = Some a" "stripped_field 120 d ''provider'' = Some b"
      "stripped_field 80 d ''credential_type'' = Some t"
    using assms by (auto simp: validate_credential_def split: if_splits option.splits)
  have "stripped_field 160 (credential_dump c) ''credential_id'' = Some a"
    "stripped_field 120 (credential_dump c) ''provider'' = Some b"
    "stripped_field 80 (credential_dump c) ''credential_type'' = Some t"
    using stripped_field_Some [OF at(1)] stripped_field_Some [OF at(2)] stripped_field_Some [OF at(3)]
    by (simp_all add: stripped_field_given c credential_dump_def)
  moreover have "only_fields [''schema_version'', ''credential_id'', ''provider'', ''credential_type''] (credential_dump c)"
    "literal_field (credential_dump c) ''schema_version'' 1"
    by (simp_all add: only_fields_def literal_field_def credential_dump_def)
  ultimately show ?thesis by (simp add: validate_credential_def c)
qed

lemma optional_text_dump:
  assumes "optional_field (bounded_text 0 n) d k = Some p" and "map_of e k = Some (opt_str p)"
  shows "optional_field (bounded_text 0 n) e k = Some p"
  using assms by (auto simp: optional_field_def opt_str_def bounded_text_def text_field_def split: option.splits json.splits if_splits)

text \<open>What was read as an invocation is read back from its dump, also when its input is another.\<close>

lemma invocation_round_trip:
  assumes "validate_invocation d = Some i"
  shows "validate_invocation (invocation_dump (i\<lparr>ti_input := given\<rparr>)) = Some (i\<lparr>ti_input := given\<rparr>)"
proof -
  obtain a inp p k c where i: "i = \<lparr>ti_action = a, ti_input = inp, ti_provider = p, ti_idempotency_key = k, ti_credential_reference = c\<rparr>"
    and at: "stripped_field 160 d ''action'' = Some a" "optional_field (bounded_text 0 120) d ''provider'' = Some p"
      "optional_field (bounded_text 0 200) d ''idempotency_key'' = Some k"
      "optional_field credential_field d ''credential_reference'' = Some c"
    using assms by (auto simp: validate_invocation_def split: if_splits option.splits)
  let ?e = "invocation_dump (i\<lparr>ti_input := given\<rparr>)"
  have "stripped_field 160 ?e ''action'' = Some a"
    using stripped_field_Some [OF at(1)] by (simp add: stripped_field_given i invocation_dump_def)
  moreover have "optional_field (bounded_text 0 120) ?e ''provider'' = Some p"
    by (rule optional_text_dump [OF at(2)]) (simp add: i invocation_dump_def)
  moreover have "optional_field (bounded_text 0 200) ?e ''idempotency_key'' = Some k"
    by (rule optional_text_dump [OF at(3)]) (simp add: i invocation_dump_def)
  moreover have "optional_field credential_field ?e ''credential_reference'' = Some c"
  proof (cases c)
    case None
    then show ?thesis by (simp add: i invocation_dump_def optional_field_def)
  next
    case (Some r)
    then obtain raw where "validate_credential raw = Some r"
      using at(4) by (auto simp: optional_field_def credential_field_def split: option.splits json.splits)
    from credential_round_trip [OF this] show ?thesis
      by (simp add: i Some invocation_dump_def optional_field_def credential_field_def)
  qed
  moreover have "dict_field ?e ''input'' = Some given" by (simp add: invocation_dump_def dict_field_def)
  moreover have "only_fields [''schema_version'', ''action'', ''input'', ''provider'', ''idempotency_key'', ''credential_reference''] ?e"
    "literal_field ?e ''schema_version'' 1"
    by (simp_all add: only_fields_def literal_field_def invocation_dump_def)
  ultimately show ?thesis by (simp add: validate_invocation_def i)
qed

lemma invocation_Some: "invocation_of md = Some i \<Longrightarrow> \<exists>d. dict_of (map_of md ''tool_invocation'') = Some d \<and> validate_invocation d = Some i"
  by (auto simp: invocation_of_def split: option.splits)

lemma tool_action_Some: "tool_action K md = Some (i, a) \<longleftrightarrow> invocation_of md = Some i \<and> get_action (ch_registry K) (ti_action i) = Inr a"
  by (auto simp: tool_action_def split: option.splits sum.splits)

lemma publication_lookup:
  "k \<noteq> ''social_publication_state'' \<Longrightarrow> map_of (publication_authorized i md) k = map_of md k"
  by (simp add: publication_authorized_def)

text \<open>
  The invocation that is approved: the one of the task, with the input bound to what its dependencies produced where it has any.
\<close>

definition approved_call :: "coordinator_host \<Rightarrow> execution_task \<Rightarrow> dict \<Rightarrow> tool_invocation \<Rightarrow> db \<Rightarrow> tool_invocation \<Rightarrow> bool" where
  "approved_call K x md i d j \<longleftrightarrow>
     ti_action j = ti_action i \<and> ti_provider j = ti_provider i \<and> ti_idempotency_key j = ti_idempotency_key i \<and>
     ti_credential_reference j = ti_credential_reference i \<and>
     (case t_mission_id x of
        None \<Rightarrow> ti_input j = ti_input i
      | Some mid \<Rightarrow>
          if full_array (map_of md ''dependency_keys'') \<or> full_array (map_of md ''input_bindings'')
          then \<exists>audited. ch_bind K (ti_input i) x (list_for_mission_for_tenant mid (t_tenant_id x) d) = Bound (ti_input j) audited
          else ti_input j = ti_input i)"

lemma approved_call_bound: "approved_call K x md i d j \<Longrightarrow> j = i\<lparr>ti_input := ti_input j\<rparr>"
  by (simp add: approved_call_def)

lemma bound_invocation:
  assumes "bind_invocation_for_approval K x md i s = (Inr (j, aud), s1)"
  shows "approved_call K x md i (w_db (fst s)) j"
  using assms
  by (auto simp: bind_invocation_for_approval_def approved_call_def then_do_Inr split: option.splits if_splits binding.splits)

lemma final_invocation_bound:
  assumes "final_invocation K x md i expires s = (Inr (j, md1, e), s1)"
  shows "approved_call K x md i (w_db (fst s)) j"
proof -
  obtain j0 aud s2 where b: "bind_invocation_for_approval K x md i s = (Inr (j0, aud), s2)"
    using assms by (auto simp: final_invocation_def then_do_Inr)
  have "j0 = j"
    using assms b by (cases expires) (auto simp: final_invocation_def Let_def value_error_def split: if_splits)
  then show ?thesis using bound_invocation [OF b] by simp
qed

lemma approval_grant:
  assumes "approval_metadata K tenant x actor expires s = (Inr (md, g1, g2), s1)" and "tool_action K (t_metadata x) = Some (i, a)"
  obtains cs where "grant_metadata K tenant x i a cs actor expires s = (Inr (md, g1, g2), s1)"
proof -
  have "invocation_of (t_metadata x) = Some i" using assms(2) by (simp add: tool_action_Some)
  from invocation_Some [OF this] obtain d where d: "dict_of (map_of (t_metadata x) ''tool_invocation'') = Some d" by blast
  have "text_at d ''action'' \<noteq> None"
    using assms(1) d(1) by (intro notI) (simp add: approval_metadata_def no_action_def)
  then obtain name where name: "text_at d ''action'' = Some name" by blast
  have "strip name \<noteq> []"
    using assms(1) d(1) name by (intro notI) (simp add: approval_metadata_def no_action_def)
  then have "then_do (raised (object_or_empty (map_of (t_metadata x) ''execution_constraints'')), s)
      (\<lambda>cs s. grant_metadata K tenant x i a cs actor expires s) = (Inr (md, g1, g2), s1)"
    using assms(1,2) d(1) name by (simp add: approval_metadata_def)
  then show thesis using that by (auto simp: then_do_Inr)
qed

text \<open>A request that can not succeed leaves the rows as they were.\<close>

lemma approve_route_refused:
  assumes "\<And>r s'. approve_review_and_queue K tenant k actor expires s \<noteq> (Inr r, s')"
  obtains e s1 where "approve_route K Q S pm tenant k actor expires s = (Inl e, s1)" "w_db (fst s1) = w_durable (fst s)"
    "w_durable (fst s1) = w_durable (fst s)" "w_queue (fst s1) = w_queue (fst s)"
proof -
  let ?r = "then_do (require_task tenant k s) (\<lambda>_ s. if actor = [] then (value_error ''authenticated reviewer required'', s)
        else approve_review_and_queue K tenant k actor expires s)"
  obtain r s0 where r: "?r = (r, s0)" by (rule prod.exhaust)
  have "quiet s (snd ?r)" by (intro quiets)
  then have "quiet s s0" by (simp only: r snd_conv)
  moreover obtain e where "r = Inl e"
  proof (cases r)
    case (Inr x)
    then have "approve_review_and_queue K tenant k actor expires s = (Inr x, s0)"
      using r by (auto simp: then_do_Inr require_task_Inr split: if_splits)
    then show thesis using assms by blast
  qed
  ultimately show thesis using that r
    by (simp add: approve_route_def session_scope_def request_rollback_def rollback_def quiet_def)
qed

text \<open>The invocation a granted task carries, and its grant.\<close>

lemma granted_task:
  assumes "approval_metadata K tenant x actor expires s = (Inr (md, g1, g2), s1)"
    and "tool_action K (t_metadata x) = Some (i, a)" and "\<And>j. \<exists>c. side_effect_for a j = Inr c \<and> has_side_effect c"
  obtains j e gi where "tool_action K md = Some (j, a)" "approved_call K x (t_metadata x) i (w_db (fst s)) j"
    "expires = Some e" "w_clock (fst s) < e"
    "dict_of (map_of (constraints_of md) ''side_effect_authorization'') =
       Some (effect_grant_payload (ch_ledger K) gi tenant (t_id x) (ad_name a) j actor (w_clock (fst s)) e)"
proof -
  have inv: "invocation_of (t_metadata x) = Some i" "get_action (ch_registry K) (ti_action i) = Inr a"
    using assms(2) by (simp_all add: tool_action_Some)
  from invocation_Some [OF inv(1)] obtain d where d: "validate_invocation d = Some i" by blast
  obtain cs where g: "grant_metadata K tenant x i a cs actor expires s = (Inr (md, g1, g2), s1)"
    using approval_grant [OF assms(1,2)] .
  obtain c0 where c0: "side_effect_for a i = Inr c0" "has_side_effect c0" using assms(3) by blast
  obtain j md1 e cs1 where
    fin: "final_invocation K x (t_metadata x) i expires s = (Inr (j, md1, e), s)"
    and md: "md = publication_authorized j (AList.update ''execution_constraints'' (JObj cs1) md1)"
    and grant: "\<exists>gi. map_of cs1 ''side_effect_authorization'' =
         Some (JObj (effect_grant_payload (ch_ledger K) gi tenant (t_id x) (ad_name a) j actor (w_clock (fst s)) e))"
  proof (cases rule: grant_metadata_Inr [OF g])
    case (1 c)
    then show thesis using c0 by simp
  next
    case (2 c j md1 e cs1)
    have "c = c0" using 2(1) c0(1) by simp
    then show thesis using that [OF 2(2,3)] 2(4) c0(2) by blast
  qed
  note call = final_invocation_bound [OF fin]
  obtain given where j: "j = i\<lparr>ti_input := given\<rparr>" using approved_call_bound [OF call] by blast
  have "map_of md1 ''tool_invocation'' = Some (JObj (invocation_dump j))"
    using final_invocation_Inr(4) [OF fin] by (auto split: option.splits)
  then have "invocation_of md = Some j"
    using invocation_round_trip [OF d, of given] by (simp add: invocation_of_def md publication_lookup j)
  then have "tool_action K md = Some (j, a)" using inv(2) j by (simp add: tool_action_Some)
  moreover have "constraints_of md = cs1" by (simp add: constraints_of_def md publication_lookup)
  ultimately show thesis using that call final_invocation_Inr(2,3) [OF fin] grant by fastforce
qed

lemma effect_payload_version [simp]:
  "equals_int (map_of (effect_grant_payload H gi tenant k act j actor now e) ''schema_version'') 2"
  by (simp add: effect_grant_payload_def)

lemma validated_payload:
  assumes "validate_grant_v2 (effect_grant_payload H gi tenant k act j actor now e) = Some g"
  shows "gr_expires_at g = e" "gr_invocation_sha256 g = tool_invocation_sha256 H j"
  using assms
  by (auto simp: validate_grant_v2_def parse_grant_def effect_grant_payload_def stamp_field_def text_field_def
      split: if_splits option.splits)

lemma authorized_payload:
  assumes "side_effect_authorized H md act (Some tenant) (Some k) now" and "invocation_of md = Some j"
    and "dict_of (map_of (constraints_of md) ''side_effect_authorization'') = Some (effect_grant_payload H gi tenant k act j actor t e)"
  shows "side_effect_authorized H md act (Some tenant) (Some k) later \<longleftrightarrow> later < e"
  using assms validated_payload [of H gi tenant k act j actor t e]
  by (auto simp: side_effect_authorized_def split: option.splits)

text \<open>
  C6: what a human approves is what may run, until the approval expires. When the approval of a task succeeds whose action has a side effect
  whatever its invocation, the task is queued with the invocation that was approved: the same action, provider, idempotency key and credential
  reference, and the same input, or, where the task has dependencies or bindings, the input bound from the results of its
  mission's tasks. It is authorised for exactly that action at every instant before the expiry that was given and at none after it; and with the
  same grant, an invocation is not authorised at any instant if the digest of its dump is another one.
\<close>

theorem approval_binds_invocation:
  assumes "approve_review_and_queue K tenant k actor expires s = (Inr r, s')"
    and "find_task k (w_db (fst s)) = Some x" and "tool_action K (t_metadata x) = Some (i, a)"
    and "\<And>j. \<exists>c. side_effect_for a j = Inr c \<and> has_side_effect c"
  shows "\<exists>z j e. find_task k (w_db (fst s')) = Some z \<and> t_status z = TQueued \<and> tool_action K (t_metadata z) = Some (j, a) \<and>
    approved_call K x (t_metadata x) i (w_db (fst s)) j \<and> expires = Some e \<and>
    (\<forall>t. side_effect_authorized (ch_ledger K) (t_metadata z) (ad_name a) (Some tenant) (Some k) t \<longleftrightarrow> t < e) \<and>
    (\<forall>md j1 t. constraints_of md = constraints_of (t_metadata z) \<longrightarrow> invocation_of md = Some j1 \<longrightarrow>
       lh_sha256 (ch_ledger K) (canonical_dict (invocation_dump j1)) \<noteq> lh_sha256 (ch_ledger K) (canonical_dict (invocation_dump j)) \<longrightarrow>
       \<not> side_effect_authorized (ch_ledger K) md (ad_name a) (Some tenant) (Some k) t)"
proof -
  from approved_row [OF assms(1)] obtain x0 md g1 g2 s0 z where x0: "find_task k (w_db (fst s)) = Some x0" "t_tenant_id x0 = tenant"
    and md: "approval_metadata K tenant x0 actor expires s = (Inr (md, g1, g2), s0)"
    and pass: "requires_effect_review K (x0\<lparr>t_metadata := md\<rparr>) (w_clock (fst s)) = Inr False"
    and z: "find_task k (w_db (fst s')) = Some z" "t_status z = TQueued" "t_metadata z = md" .
  have x: "x0 = x" "t_id x = k" using x0 assms(2) found_id by auto
  from granted_task [OF md] obtain j e gi where j: "tool_action K md = Some (j, a)" and e: "expires = Some e"
    and call: "approved_call K x (t_metadata x) i (w_db (fst s)) j"
    and grant: "dict_of (map_of (constraints_of md) ''side_effect_authorization'') =
       Some (effect_grant_payload (ch_ledger K) gi tenant k (ad_name a) j actor (w_clock (fst s)) e)"
    using assms(3,4) x by metis
  have inv: "invocation_of md = Some j" using j by (simp add: tool_action_Some)
  have now: "side_effect_authorized (ch_ledger K) md (ad_name a) (Some tenant) (Some k) (w_clock (fst s))"
  proof -
    obtain c where "side_effect_for a j = Inr c" "has_side_effect c" using assms(4) by blast
    then show ?thesis using pass j x x0 by (simp add: requires_effect_review_def)
  qed
  have "side_effect_authorized (ch_ledger K) md (ad_name a) (Some tenant) (Some k) t \<longleftrightarrow> t < e" for t
    by (rule authorized_payload [OF now inv grant])
  moreover have "\<not> side_effect_authorized (ch_ledger K) md1 (ad_name a) (Some tenant) (Some k) t"
    if "constraints_of md1 = constraints_of md" "invocation_of md1 = Some j1"
      "lh_sha256 (ch_ledger K) (canonical_dict (invocation_dump j1)) \<noteq> lh_sha256 (ch_ledger K) (canonical_dict (invocation_dump j))"
    for md1 j1 t
    using that grant validated_payload(2)
    by (auto simp: side_effect_authorized_def tool_invocation_sha256_def split: option.splits)
  ultimately show ?thesis using z j e call by (intro exI [of _ z] exI [of _ j] exI [of _ e]) auto
qed

subsection \<open>Revoked and overruled\<close>

lemma revoked_field:
  assumes "dict_of (map_of (revoke_grant now actor why k cs) k) = Some g"
  shows "map_of g ''revoked_at'' = Some (JStamp now)"
  using assms by (auto simp: revoke_grant_def split: option.splits)

lemma revoked_other: "j \<noteq> k \<Longrightarrow> map_of (revoke_grant now actor why k cs) j = map_of cs j"
  by (simp add: revoke_grant_def split: option.splits)

lemma map_of_fst: "map_of d k = Some v \<Longrightarrow> only_fields names d \<Longrightarrow> k \<in> set names"
  by (force simp: only_fields_def list_all_iff dest: map_of_SomeD)

lemma parsed_revocation: "parse_grant ok g = Some h \<Longrightarrow> map_of g ''revoked_at'' = Some (JStamp now) \<Longrightarrow> gr_revoked_at h = Some now"
  by (auto simp: parse_grant_def optional_field_def stamp_field_def split: option.splits)

lemma revoked_effect_denied:
  assumes "map_of auth ''revoked_at'' = Some (JStamp now)"
  shows "validate_grant_v1 auth = None" "validate_grant_v2 auth = Some g \<Longrightarrow> gr_revoked_at g = Some now"
    "validate_ability_grant auth = Some h \<Longrightarrow> gr_revoked_at h = Some now"
proof -
  have "\<not> only_fields [''schema_version'', ''allowed_actions'', ''reason'', ''approved_by''] auth"
    using map_of_fst [OF assms, of "[''schema_version'', ''allowed_actions'', ''reason'', ''approved_by'']"] by auto
  then show "validate_grant_v1 auth = None" by (simp add: validate_grant_v1_def)
  show "gr_revoked_at g = Some now" if "validate_grant_v2 auth = Some g"
    using that parsed_revocation [OF _ assms] by (auto simp: validate_grant_v2_def split: if_splits option.splits)
  show "gr_revoked_at h = Some now" if "validate_ability_grant auth = Some h"
    using that parsed_revocation [OF _ assms]
    by (auto simp: validate_ability_grant_def grant.extend_def ability_grant.fields_def split: if_splits option.splits)
qed

text \<open>
  C8: a revoked approval authorises nothing, ever. After a revocation no action of the task is authorised at any instant, by
  either kind of grant and under any digest; a grant of the first version, which has no place for a revocation, is no longer
  a grant at all.
\<close>

theorem revocation_is_final:
  assumes "revoke_side_effect_approval tenant k actor why s = (Inr r, s1)"
  shows "\<exists>z. find_task k (w_db (fst s1)) = Some z \<and>
    (\<forall>H act t i now. \<not> side_effect_authorized H (t_metadata z) act t i now) \<and>
    (\<forall>H m t i now. \<not> ability_authorized H (t_metadata z) m t i now)"
proof -
  obtain x where x: "find_task k (w_db (fst s)) = Some x" "t_tenant_id x = tenant"
    using assms by (auto simp: revoke_side_effect_approval_def then_do_Inr require_task_Inr)
  then have req: "require_task tenant k s = (Inr x, s)" by (simp add: require_task_Inr)
  obtain cs where cs: "object_or_empty (map_of (t_metadata x) ''execution_constraints'') = Inr cs"
    using assms req by (auto simp: revoke_side_effect_approval_def then_do_Inr split: if_splits)
  let ?cs = "revoked_constraints (w_clock (fst s)) actor why cs"
  let ?z = "x\<lparr>t_metadata := AList.update ''execution_constraints'' (JObj ?cs) (t_metadata x)\<rparr>"
  have "task_frame (map_db (save_task ?z) (fst s)) (fst s1)"
    using assms req cs by (auto simp: revoke_side_effect_approval_def Let_def value_error_def split: if_splits)
  then have z: "find_task k (w_db (fst s1)) = Some ?z"
    using frame_lookup(1) [of "map_db (save_task ?z) (fst s)" "fst s1" k] x(1) found_id [OF x(1)] by (simp add: map_db_def)
  have c: "constraints_of (t_metadata ?z) = ?cs" by (simp add: constraints_of_def)
  have effect: "map_of auth ''revoked_at'' = Some (JStamp (w_clock (fst s)))"
    if "dict_of (map_of ?cs ''side_effect_authorization'') = Some auth" for auth
    using that revoked_field by (simp add: revoked_constraints_def revoked_other)
  have ability: "map_of auth ''revoked_at'' = Some (JStamp (w_clock (fst s)))"
    if "dict_of (map_of ?cs ''ability_authorization'') = Some auth" for auth
    using that revoked_field by (simp add: revoked_constraints_def)
  have "\<not> side_effect_authorized H (t_metadata ?z) act t i now" for H act t i now
    unfolding side_effect_authorized_def c
    by (auto simp: revoked_effect_denied(1) [OF effect] dest: revoked_effect_denied(2) [OF effect] split: option.splits)
  moreover have "\<not> ability_authorized H (t_metadata ?z) m t i now" for H m t i now
    unfolding ability_authorized_def c
    by (auto dest: revoked_effect_denied(3) [OF ability] split: option.splits)
  ultimately show ?thesis using z by blast
qed

lemma evaluate_task_metadata [simp]: "evaluate_task (x\<lparr>t_metadata := md\<rparr>) = evaluate_task x"
  by (simp add: evaluate_task_def)

text \<open>
  C34: a human approval never overrules the guardian. As long as the guardian objects to a held task, approving it fails whoever
  approves and until when, and the rows are what they were.
\<close>

theorem approval_never_overrules_guardian:
  assumes "find_task k (w_db (fst s)) = Some x" and "\<not> pd_allowed (evaluate_task x)" and "w_durable (fst s) = w_db (fst s)"
  shows "\<exists>e s1. approve_route K Q S pm tenant k actor expires s = (Inl e, s1) \<and> w_db (fst s1) = w_db (fst s) \<and>
    w_queue (fst s1) = w_queue (fst s)"
proof -
  have no: "approve_review_and_queue K tenant k actor expires s \<noteq> (Inr r, s')" for r s'
  proof
    assume "approve_review_and_queue K tenant k actor expires s = (Inr r, s')"
    from approve_Inr [OF this] obtain x0 md where "find_task k (w_db (fst s)) = Some x0"
      "pd_allowed (evaluate_task (x0\<lparr>t_metadata := md\<rparr>))" by metis
    then show False using assms(1,2) by simp
  qed
  show ?thesis by (rule approve_route_refused [OF no, of Q S pm]) (use assms(3) in auto)
qed

subsection \<open>Admission with an approval\<close>

text \<open>
  C2: what the coordinator lets into the queue with a side effect has been approved. When queueing, retrying or approving a task that was
  not queued ends with it queued, and the action of the queued row is known and has a side effect, then the row carries an approval whose
  approver is not a client's label: either a current one of this very invocation, for this tenant, task, action and digest, neither revoked
  nor expired at that moment, or a grant of the first version that names the action.
\<close>

theorem queued_effect_is_approved:
  assumes "queue_task K tenant k s = (Inr r, s1) \<or> retry_task K tenant k s = (Inr r, s1) \<or>
      approve_review_and_queue K tenant k actor expires s = (Inr r, s1)"
    and "cn_state r = TQueued" and "find_task k (w_db (fst s)) = Some x" and "t_status x \<noteq> TQueued"
  shows "\<exists>z. find_task k (w_db (fst s1)) = Some z \<and> t_status z = TQueued \<and>
    (\<forall>i a c. tool_action K (t_metadata z) = Some (i, a) \<longrightarrow> side_effect_for a i = Inr c \<longrightarrow> has_side_effect c \<longrightarrow>
       current_approval (ch_ledger K) (t_metadata z) (ad_name a) tenant k i (w_clock (fst s)) \<or> named_approval (t_metadata z) (ad_name a))"
proof -
  have approved: "current_approval (ch_ledger K) (t_metadata y) (ad_name a) tenant k i now \<or> named_approval (t_metadata y) (ad_name a)"
    if "requires_effect_review K y now = Inr False" "t_tenant_id y = tenant" "t_id y = k" "tool_action K (t_metadata y) = Some (i, a)"
      "side_effect_for a i = Inr c" "has_side_effect c" for y now i a c
    using that authorized_means [of "ch_ledger K" "t_metadata y" "ad_name a" tenant k now i]
    by (simp add: requires_effect_review_def tool_action_Some)
  have key: "t_id x = k" using found_id [OF assms(3)] .
  consider "queue_task K tenant k s = (Inr r, s1)" | "retry_task K tenant k s = (Inr r, s1)"
    | "approve_review_and_queue K tenant k actor expires s = (Inr r, s1)"
    using assms(1) by blast
  then show ?thesis
  proof cases
    case 1
    from queued_row [OF this assms(2-4)] show ?thesis using approved key by metis
  next
    case 2
    from retried_row [OF this assms(2-4)] obtain z where z: "requires_effect_review K x (w_clock (fst s)) = Inr False" "t_tenant_id x = tenant"
      "find_task k (w_db (fst s1)) = Some z" "t_status z = TQueued"
      "invocation_of (t_metadata z) = invocation_of (t_metadata x)" "constraints_of (t_metadata z) = constraints_of (t_metadata x)" by blast
    show ?thesis using approved [OF z(1,2) key] z(3,4) same_approval [OF z(5,6)] by auto
  next
    case 3
    from approved_row [OF this] obtain x0 md z where z: "find_task k (w_db (fst s)) = Some x0" "t_tenant_id x0 = tenant"
      "requires_effect_review K (x0\<lparr>t_metadata := md\<rparr>) (w_clock (fst s)) = Inr False"
      "find_task k (w_db (fst s1)) = Some z" "t_status z = TQueued" "t_metadata z = md" by metis
    then show ?thesis using approved [OF z(3)] found_id [OF z(1)] by auto
  qed
qed

text \<open>
  An approval whose inputs can not be bound leaves the task held for ever. The coordinator marks the task
  as failed and raises; the route rolls that back with everything else, so the task is still pending review, without a trace
  of the failure, and the next approval meets the same inputs.
\<close>

theorem failed_binding_is_lost:
  assumes "find_task k (w_db (fst s)) = Some x" and "w_durable (fst s) = w_db (fst s)" and "t_mission_id x = Some mid"
    and "tool_action K (t_metadata x) = Some (i, a)" and "side_effect_for a i = Inr c" and "has_side_effect c"
    and "full_array (map_of (t_metadata x) ''dependency_keys'')"
    and "ch_bind K (ti_input i) x (list_for_mission_for_tenant mid (t_tenant_id x) (w_db (fst s))) = Unbindable why"
  shows "\<exists>e s1. approve_route K Q S pm tenant k actor expires s = (Inl e, s1) \<and> find_task k (w_durable (fst s1)) = Some x \<and>
    db_audit (w_durable (fst s1)) = db_audit (w_db (fst s))"
proof -
  have no_bind: "final_invocation K x (t_metadata x) i expires s \<noteq> (Inr p, s')" for p s'
  proof -
    have "bind_invocation_for_approval K x (t_metadata x) i s \<noteq> (Inr p, s')" for p s'
      using assms(3,7,8) by (auto simp: bind_invocation_for_approval_def then_do_Inr)
    then show ?thesis by (auto simp: final_invocation_def then_do_Inr)
  qed
  have no: "approve_review_and_queue K tenant k actor expires s \<noteq> (Inr r, s')" for r s'
  proof
    assume "approve_review_and_queue K tenant k actor expires s = (Inr r, s')"
    from approve_Inr [OF this] obtain x0 md g1 g2 s1 where "find_task k (w_db (fst s)) = Some x0"
      and "approval_metadata K tenant x0 actor expires s = (Inr (md, g1, g2), s1)" by metis
    then have m: "approval_metadata K tenant x actor expires s = (Inr (md, g1, g2), s1)" using assms(1) by simp
    obtain cs where "grant_metadata K tenant x i a cs actor expires s = (Inr (md, g1, g2), s1)"
      using approval_grant [OF m assms(4)] .
    then show False
      by (rule grant_metadata_Inr) (use assms(5,6) no_bind in auto)
  qed
  show ?thesis by (rule approve_route_refused [OF no, of Q S pm]) (use assms(1,2) in auto)
qed

end
