(* ===== verification/QueueAdmission.thy ===== *)
theory QueueAdmission
  imports CoordinatorRuns
begin

section \<open>Admitting the tasks of a mission\<close>

text \<open>
  \<open>backend/services/mission_runtime_queue_admission_service.py\<close>: the materialized tasks of a mission are
  queued one by one, each in a savepoint of its own, and what became of each is kept as a receipt in the metadata of the
  mission. A task that is refused by the quota or by the coordinator takes back its rows and nothing else: what
  was to be published after the commit is kept, and a publication looks its row up again. Any other
  exception ends the admission. \<open>contains_composition_clarification\<close> is from
  \<open>backend/services/mission_intake_quality.py\<close>; its patterns are written out.
\<close>

subsection \<open>Clarifications\<close>

definition clarification_markers :: "string list" where
  "clarification_markers =
     [''i cannot compose this mission reliably'', ''restate the complete mission'', ''restating the complete mission'',
      ''the revised mission still does not include'']"

function (sequential) contains_clarification :: "json \<Rightarrow> bool" where
  "contains_clarification (JStr s) \<longleftrightarrow> list_ex (contains_text (lower_text s)) clarification_markers"
| "contains_clarification (JObj kvs) \<longleftrightarrow> list_ex (\<lambda>kv. contains_clarification (snd kv)) kvs"
| "contains_clarification (JArr vs) \<longleftrightarrow> list_ex contains_clarification vs"
| "contains_clarification _ \<longleftrightarrow> False"
  by pat_completeness auto

termination
proof (relation "measure size")
  fix kvs :: "(string \<times> json) list" and kv
  assume "kv \<in> set kvs"
  then show "(snd kv, JObj kvs) \<in> measure size" using size_pair_member [of kv kvs] by (simp add: size_prod_simp)
next
  fix vs :: "json list" and v
  show "v \<in> set vs \<Longrightarrow> (v, JArr vs) \<in> measure size"
    by (induction vs) auto
qed simp

subsection \<open>Savepoints\<close>

definition in_savepoint :: "('q runtime \<Rightarrow> 'a outcome \<times> 'q runtime) \<Rightarrow> 'q runtime \<Rightarrow> 'a outcome \<times> 'q runtime" where
  "in_savepoint f s =
     (case f s of
        (Inr x, s1) \<Rightarrow> (Inr x, s1)
      | (Inl e, s1) \<Rightarrow> (Inl e, (fst s1)\<lparr>w_db := w_db (fst s)\<rparr>, (snd s1)\<lparr>ts_db := ts_db (snd s)\<rparr>))"

text \<open>\<open>str(exc)\<close>, and which exceptions are a \<open>ValueError\<close>.\<close>

fun refusal_text :: "tenancy_error \<Rightarrow> string" where
  "refusal_text (TenantNotFoundError s) = s"
| "refusal_text (TenantSuspendedError s) = s"
| "refusal_text (TenantDeletedError s) = s"
| "refusal_text (QuotaExceededError field limit current plan) =
     ''Quota exceeded for '' @ quoted field @ '': current='' @ int_text current @ '', limit='' @ int_text limit @
       '' (plan='' @ quoted plan @ ''). Upgrade your plan to continue.''"
| "refusal_text (QuotaConfigurationError s) = s"
| "refusal_text (FeatureNotAvailableError feature plan) =
     ''Feature '' @ quoted feature @ '' is not available on plan '' @ quoted plan @ ''. Upgrade your plan to access this feature.''"
| "refusal_text (BudgetGateDeniedError field limit proposed plan) =
     ''Budget gate denied for '' @ quoted field @ '': proposed='' @ int_text proposed @ '', limit='' @ int_text limit @
       '' (plan='' @ quoted plan @ '').''"
| "refusal_text (Raised e) = exn_text e"

fun refusal_code :: "tenancy_error \<Rightarrow> (string \<times> string) option" where
  "refusal_code (QuotaExceededError _ _ _ _) = Some (''quota_exceeded'', ''Task admission exceeded the tenant runtime quota.'')"
| "refusal_code (QuotaConfigurationError _) = None"
| "refusal_code (Raised e) =
     (if is_value_error e then Some (''queue_task_failed'', ''Execution coordinator failed to queue the materialized task.'') else None)"
| "refusal_code _ = Some (''queue_task_failed'', ''Execution coordinator failed to queue the materialized task.'')"

subsection \<open>Sorting the tasks\<close>

record mission_admission =
  mq_planned :: "uuid list"
  mq_already :: "uuid list"
  mq_queued :: "uuid list"
  mq_pending :: "uuid list"
  mq_denied :: "dict list"
  mq_blockers :: "dict list"

definition no_admission :: mission_admission where
  "no_admission = \<lparr>mq_planned = [], mq_already = [], mq_queued = [], mq_pending = [], mq_denied = [], mq_blockers = []\<rparr>"

definition block :: "dict \<Rightarrow> mission_admission \<Rightarrow> mission_admission" where
  "block b a = a\<lparr>mq_blockers := mq_blockers a @ [b]\<rparr>"

definition sort_task :: "string \<Rightarrow> uuid \<Rightarrow> execution_task list \<Rightarrow> uuid \<Rightarrow> mission_admission \<Rightarrow> mission_admission" where
  "sort_task tenant mid tasks k a =
     (case find (\<lambda>x. t_id x = k) tasks of
        None \<Rightarrow> block (queue_blocker (Some k) ''materialized_task_missing''
                  ''Materialized execution task row was not found for this mission.'' None None) a
      | Some x \<Rightarrow>
          if t_tenant_id x \<noteq> tenant \<or> t_mission_id x \<noteq> Some mid
          then block (queue_blocker (Some k) ''materialized_task_scope_mismatch''
                 ''Materialized execution task is not owned by this tenant and mission.'' (Some (task_value (t_status x))) None) a
          else if t_status x = TPlanned then a\<lparr>mq_planned := mq_planned a @ [k]\<rparr>
          else if t_status x = TQueued then a\<lparr>mq_already := mq_already a @ [k]\<rparr>
          else block (queue_blocker (Some k) ''materialized_task_not_queueable''
                 ''Materialized execution task is not planned or already queued.'' (Some (task_value (t_status x))) None) a)"

definition intake_clarifies :: "dict \<Rightarrow> bool" where
  "intake_clarifies metadata \<longleftrightarrow> (case map_of metadata ''mission_intake'' of None \<Rightarrow> False | Some v \<Rightarrow> contains_clarification v)"

definition intake_blockers :: "dict \<Rightarrow> dict list" where
  "intake_blockers metadata =
     (if intake_clarifies metadata
      then [queue_blocker None ''composition_clarification_required''
             (''Mission intake contains planner clarification text; runtime queue admission is blocked '' @
              ''until the user submits a complete mission objective.'') None None] else []) @
     (if current_materialized_task_ids metadata = []
      then [queue_blocker None ''no_current_materialized_tasks''
             ''Mission has no current materialized execution tasks for queue admission.'' None None] else [])"

definition sort_tasks :: "string \<Rightarrow> mission \<Rightarrow> db \<Rightarrow> mission_admission" where
  "sort_tasks tenant m d =
     fold (sort_task tenant (m_id m) (list_for_mission (m_id m) d))
       (if intake_clarifies (m_metadata m) then [] else current_materialized_task_ids (m_metadata m))
       (no_admission\<lparr>mq_blockers := intake_blockers (m_metadata m)\<rparr>)"

subsection \<open>Queueing the planned tasks\<close>

definition status_text :: "uuid \<Rightarrow> 'q runtime \<Rightarrow> string option" where
  "status_text k s = map_option (\<lambda>x. task_value (t_status x)) (find_task k (w_db (fst s)))"

definition refuse :: "uuid \<Rightarrow> string \<Rightarrow> string \<Rightarrow> string option \<Rightarrow> string \<Rightarrow> mission_admission \<Rightarrow> mission_admission" where
  "refuse k code message state why a = block (queue_blocker (Some k) code message state (Some why)) a"

definition note_result :: "uuid \<Rightarrow> coordination_result \<Rightarrow> mission_admission \<Rightarrow> mission_admission" where
  "note_result k r a =
     (if cn_ok r then a\<lparr>mq_queued := mq_queued a @ [k]\<rparr>
      else if cn_state r = TPendingReview
      then block (queue_blocker (Some k) ''policy_review_required''
             ''Execution coordinator routed the materialized task to policy review.'' (Some (task_value (cn_state r))) (cn_reason r))
             (a\<lparr>mq_pending := mq_pending a @ [k]\<rparr>)
      else block (queue_blocker (Some k) ''runtime_governor_denied''
             ''Runtime governor denied queue admission for the materialized task.'' (Some (task_value (cn_state r))) (cn_reason r))
             (a\<lparr>mq_denied := mq_denied a @ [[(''task_id'', JStr k), (''state'', JStr (task_value (cn_state r))),
                (''reason'', opt_str (cn_reason r))]]\<rparr>))"

fun admit_tasks :: "coordinator_host \<Rightarrow> string \<Rightarrow> uuid list \<Rightarrow> mission_admission \<Rightarrow> 'q runtime \<Rightarrow> mission_admission outcome \<times> 'q runtime" where
  "admit_tasks K tenant [] a s = (Inr a, s)"
| "admit_tasks K tenant (k # ks) a s =
     (case in_savepoint (queue_task K tenant k) s of
        (Inl e, s1) \<Rightarrow>
          (case refusal_code e of
             None \<Rightarrow> (Inl e, s1)
           | Some (code, message) \<Rightarrow> admit_tasks K tenant ks (refuse k code message (status_text k s1) (refusal_text e) a) s1)
      | (Inr r, s1) \<Rightarrow> admit_tasks K tenant ks (note_result k r a) s1)"

definition admission_receipt :: "string \<Rightarrow> mission \<Rightarrow> mission_admission \<Rightarrow> time \<Rightarrow> dict" where
  "admission_receipt tenant m a now =
     queue_admission_metadata (m_id m) tenant (current_materialized_task_ids (m_metadata m)) (mq_planned a) (mq_queued a)
       (mq_already a) (mq_pending a) (mq_denied a) (mq_blockers a) now"

definition admit_mission :: "coordinator_host \<Rightarrow> string \<Rightarrow> uuid \<Rightarrow> 'q runtime \<Rightarrow> dict outcome \<times> 'q runtime" where
  "admit_mission K tenant mid s =
     (case lock_mission_for_tenant mid tenant (w_db (fst s)) of
        None \<Rightarrow> (value_error ''mission not found for tenant'', s)
      | Some m \<Rightarrow>
          let sorted = sort_tasks tenant m (w_db (fst s))
          in then_do (admit_tasks K tenant (mq_planned sorted) sorted s) (\<lambda>a s1.
             let receipt = admission_receipt tenant m a (w_clock (fst s1))
             in (Inr (queue_admission_response receipt),
                 change (map_db (save_mission (m\<lparr>m_metadata := AList.update receipt_key (JObj receipt) (m_metadata m)\<rparr>))) s1)))"

subsection \<open>What queueing one task does to the others\<close>

definition same_missions :: "'q runtime \<Rightarrow> 'q runtime \<Rightarrow> bool" where
  "same_missions s s1 \<longleftrightarrow> db_missions (w_db (fst s1)) = db_missions (w_db (fst s))"

named_theorems keeps

lemma same_missions_refl [keeps]: "same_missions s s"
  by (simp add: same_missions_def)

lemma same_missions_then [keeps]:
  "same_missions s (snd r) \<Longrightarrow> (\<And>x s1. same_missions s s1 \<Longrightarrow> same_missions s (snd (f x s1))) \<Longrightarrow> same_missions s (snd (then_do r f))"
  by (cases r; cases "fst r") auto

lemma same_missions_snd [keeps]: "same_missions s s1 \<Longrightarrow> same_missions s (snd (r, s1))"
  by simp

lemma same_missions_if [keeps]: "same_missions s (snd a) \<Longrightarrow> same_missions s (snd b) \<Longrightarrow> same_missions s (snd (if c then a else b))"
  by simp

lemma same_missions_rows [keeps]:
  "same_missions s s1 \<Longrightarrow> same_missions s (change (audit t m c a b ds p) s1)"
  "same_missions s s1 \<Longrightarrow> same_missions s (change (govern t m ty ac dec pl) s1)"
  "same_missions s s1 \<Longrightarrow> same_missions s (change (record_fact K fa) s1)"
  by (simp_all add: same_missions_def audit_def govern_def record_fact_def map_db_def add_audit_def)

lemma same_missions_task [keeps]: "same_missions s s1 \<Longrightarrow> same_missions s (snd (set_task r s1))"
  by (cases r) (simp_all add: same_missions_def map_db_def save_task_def)

lemma same_missions_require [keeps]: "same_missions s s1 \<Longrightarrow> same_missions s (snd (require_task t k s1))"
  by (simp add: require_task_def split: option.split)

lemma admit_missions: "db_missions (w_db (snd (admit x held w))) = db_missions (w_db w)"
  by (auto simp: admit_def release_review_hold_def schedule_after_commit_def queue_dispatch_after_commit_def map_db_def
      save_dispatch_def Let_def split: option.splits if_splits prod.splits sum.splits)

lemma same_missions_admission [keeps]:
  assumes "same_missions s s1"
  shows "same_missions s (snd (record_task_admission x held s1))"
proof -
  obtain r0 w1 where a: "admit x held (fst s1) = (r0, w1)" by (rule prod.exhaust)
  have "db_missions (w_db w1) = db_missions (w_db (fst s1))" using admit_missions [of x held "fst s1"] a by simp
  moreover have "fst (snd (record_task_admission x held s1)) = w1"
    using a by (auto simp: record_task_admission_def then_do_def on_world_def on_tenants_def raised_def
      split: prod.splits sum.splits if_splits option.splits)
  ultimately show ?thesis using assms by (simp add: same_missions_def)
qed

lemma same_missions_queue [keeps]:
  assumes "same_missions s s1"
  shows "same_missions s (snd (queue_task K t k s1))"
proof -
  have place: "same_missions s (snd (place_in_review t x why s2))" if "same_missions s s2" for x why s2
    using that unfolding place_in_review_def by (intro keeps)
  have hold: "same_missions s (snd (hold_for_review t x why s2))" if "same_missions s s2" for x why s2
    using place [OF that] unfolding hold_for_review_def by (intro keeps)
  have enter: "same_missions s (snd (admit_to_queue K t x dec policy s2))" if "same_missions s s2" for x dec policy s2
    using that unfolding admit_to_queue_def by (intro keeps)
  have deny: "same_missions s (emit_denial t x why s2)" if "same_missions s s2" for x why s2
    using that unfolding emit_denial_def by (intro keeps)
  show ?thesis using assms unfolding queue_task_def Let_def by (intro keeps hold enter deny)
qed

text \<open>A task that is queued or held is the only one whose row changes.\<close>

definition moved :: "uuid \<Rightarrow> coordination_result \<Rightarrow> db \<Rightarrow> db \<Rightarrow> bool" where
  "moved k r d d1 \<longleftrightarrow>
     (\<exists>y. find_task k d1 = Some y \<and> (if cn_ok r then t_status y = TQueued else cn_state r = TPendingReview \<and> t_status y = TPendingReview)) \<and>
     (\<forall>j. j \<noteq> k \<longrightarrow> find_task j d1 = find_task j d) \<and> db_missions d1 = db_missions d"

lemma moved_by_put:
  assumes "find_task k d = Some x" and "t_id y = k" and "db_tasks d1 = put_row t_id y (db_tasks d)" and "db_missions d1 = db_missions d"
    and "if cn_ok r then t_status y = TQueued else cn_state r = TPendingReview \<and> t_status y = TPendingReview"
  shows "moved k r d d1"
  using assms by (auto simp: moved_def find_task_def)

lemma queue_task_moves:
  assumes "queue_task K tenant k s = (Inr r, s1)"
  shows "moved k r (w_db (fst s)) (w_db (fst s1))"
proof -
  have m: "db_missions (w_db (fst s1)) = db_missions (w_db (fst s))"
    using same_missions_queue [OF same_missions_refl, of s K tenant k] assms by (simp add: same_missions_def)
  from assms show ?thesis
  proof (rule queue_task_Inr)
    fix x assume x: "find_task k (w_db (fst s)) = Some x"
      and how: "(\<exists>why. hold_for_review tenant x why s = (Inr r, s1)) \<or>
     requires_effect_review K x (w_clock (fst s)) = Inr False \<and> \<not> requires_ability_review K x (w_clock (fst s)) \<and>
       pd_allowed (evaluate_task x) \<and>
       admit_to_queue K tenant x (governor_evaluate (ch_health K)) (evaluate_task x) s = (Inr r, s1)"
    have id: "t_id x = k" using found_id [OF x] .
    from how show ?thesis
    proof (elim disjE conjE exE)
      fix why assume "hold_for_review tenant x why s = (Inr r, s1)"
      then show ?thesis
      proof (rule hold_for_review_Inr)
        fix y assume y: "held_task x = Inr y" "r = not_admitted y why" "db_tasks (w_db (fst s1)) = put_row t_id y (db_tasks (w_db (fst s)))"
        then show ?thesis using held_task_Inr [OF y(1)] id m by (intro moved_by_put [OF x]) (auto simp: not_admitted_def)
      qed
    next
      assume "admit_to_queue K tenant x (governor_evaluate (ch_health K)) (evaluate_task x) s = (Inr r, s1)"
      then show ?thesis
      proof (rule admit_to_queue_Inr)
        fix y s2 assume y: "transition_task x TQueued = Inr y" "r = admitted y"
          and rec: "record_task_admission y False (change (map_db (save_task y)) s) = (Inr (), s2)"
          and fr: "task_frame (fst s2) (fst s1)"
        have "db_tasks (w_db (fst s1)) = put_row t_id y (db_tasks (w_db (fst s)))"
          using fr record_admission_world(1) [OF rec] by (simp add: task_frame_def map_db_def save_task_def)
        then show ?thesis using queued_status [OF y(1)] y(2) id m by (intro moved_by_put [OF x]) (auto simp: admitted_def)
      qed
    qed
  qed
qed

subsection \<open>What became of each task\<close>

definition names :: "uuid \<Rightarrow> dict \<Rightarrow> bool" where
  "names k b \<longleftrightarrow> map_of b ''task_id'' = Some (JStr k)"

definition settled :: "db \<Rightarrow> db \<Rightarrow> mission_admission \<Rightarrow> uuid \<Rightarrow> bool" where
  "settled d d1 a k \<longleftrightarrow>
     k \<in> set (mq_queued a) \<and> map_option t_status (find_task k d1) = Some TQueued \<or>
     k \<in> set (mq_pending a) \<and> map_option t_status (find_task k d1) = Some TPendingReview \<or>
     list_ex (names k) (mq_blockers a) \<and> find_task k d1 = find_task k d"

definition grows :: "mission_admission \<Rightarrow> mission_admission \<Rightarrow> bool" where
  "grows a a1 \<longleftrightarrow> mq_planned a1 = mq_planned a \<and> mq_already a1 = mq_already a \<and> set (mq_queued a) \<subseteq> set (mq_queued a1) \<and>
     set (mq_pending a) \<subseteq> set (mq_pending a1) \<and> set (mq_blockers a) \<subseteq> set (mq_blockers a1)"

lemma grows_refl [simp]: "grows a a"
  by (simp add: grows_def)

lemma grows_trans: "grows a b \<Longrightarrow> grows b c \<Longrightarrow> grows a c"
  by (auto simp: grows_def)

lemma grows_block [simp]: "grows a (block b a)"
  by (auto simp: grows_def block_def)

lemma grows_note [simp]: "grows a (note_result k r a)"
  by (auto simp: grows_def note_result_def block_def)

lemma grows_refuse [simp]: "grows a (refuse k c m st why a)"
  by (simp add: refuse_def)

lemma names_blocker [simp]: "names k (queue_blocker (Some j) c m st why) \<longleftrightarrow> j = k"
  by (auto simp: names_def queue_blocker_def)

lemma settled_grows:
  assumes "settled d d1 a k" and "grows a a1" and "find_task k d2 = find_task k d1"
  shows "settled d d2 a1 k"
  using assms unfolding settled_def grows_def list_ex_iff by auto

lemma settled_start: "find_task k d0 = find_task k d \<Longrightarrow> settled d0 d1 a k \<longleftrightarrow> settled d d1 a k"
  by (simp add: settled_def)

lemma in_savepoint_Inl: "in_savepoint f s = (Inl e, s1) \<Longrightarrow> w_db (fst s1) = w_db (fst s)"
  by (auto simp: in_savepoint_def split: prod.splits sum.splits)

lemma in_savepoint_Inr: "in_savepoint f s = (Inr r, s1) \<longleftrightarrow> f s = (Inr r, s1)"
  by (auto simp: in_savepoint_def split: prod.splits sum.splits)

definition step_settles :: "uuid \<Rightarrow> db \<Rightarrow> db \<Rightarrow> mission_admission \<Rightarrow> mission_admission \<Rightarrow> bool" where
  "step_settles k d d1 a a1 \<longleftrightarrow> settled d d1 a1 k \<and> (\<forall>j. j \<noteq> k \<longrightarrow> find_task j d1 = find_task j d) \<and>
     db_missions d1 = db_missions d \<and> grows a a1"

lemma refused_settles: "step_settles k d d a (refuse k code message st why a)"
  by (simp add: step_settles_def settled_def) (simp add: refuse_def block_def)

lemma noted_settles:
  assumes "moved k r d d1"
  shows "step_settles k d d1 a (note_result k r a)"
  unfolding step_settles_def
proof (intro conjI)
  show "settled d d1 (note_result k r a) k"
    using assms by (auto simp: moved_def settled_def note_result_def block_def split: if_splits)
qed (use assms in \<open>simp_all add: moved_def\<close>)

text \<open>One task is settled, and then the others, which no longer touch it.\<close>

lemma admit_tasks_Cons:
  assumes "admit_tasks K tenant (k # ks) a s = (Inr a1, s1)"
  obtains a2 s2 where "step_settles k (w_db (fst s)) (w_db (fst s2)) a a2" "admit_tasks K tenant ks a2 s2 = (Inr a1, s1)"
proof -
  obtain r s2 where q: "in_savepoint (queue_task K tenant k) s = (r, s2)" by (rule prod.exhaust)
  show thesis
  proof (cases r)
    case (Inl e)
    have same: "w_db (fst s2) = w_db (fst s)" using in_savepoint_Inl [OF q [unfolded Inl]] .
    obtain code message where c: "refusal_code e = Some (code, message)"
      using assms q Inl by (cases "refusal_code e") auto
    show thesis
      by (rule that [of s2 "refuse k code message (status_text k s2) (refusal_text e) a"])
         (use same refused_settles assms q Inl c in auto)
  next
    case (Inr c)
    have m: "moved k c (w_db (fst s)) (w_db (fst s2))" using q Inr by (intro queue_task_moves) (simp add: in_savepoint_Inr)
    show thesis
      by (rule that [of s2 "note_result k c a"]) (use noted_settles [OF m] assms q Inr in auto)
  qed
qed

lemma admit_tasks_settles:
  assumes "admit_tasks K tenant ks a s = (Inr a1, s1)" and "distinct ks"
  shows "list_all (settled (w_db (fst s)) (w_db (fst s1)) a1) ks \<and>
    (\<forall>j. j \<notin> set ks \<longrightarrow> find_task j (w_db (fst s1)) = find_task j (w_db (fst s))) \<and>
    db_missions (w_db (fst s1)) = db_missions (w_db (fst s)) \<and> grows a a1"
  using assms
proof (induction ks arbitrary: a s)
  case Nil
  then show ?case by simp
next
  case (Cons k ks)
  from Cons.prems(1) obtain a2 s2 where st: "step_settles k (w_db (fst s)) (w_db (fst s2)) a a2"
    and rest: "admit_tasks K tenant ks a2 s2 = (Inr a1, s1)" by (rule admit_tasks_Cons)
  have new: "k \<notin> set ks" "distinct ks" using Cons.prems(2) by simp_all
  have IH: "list_all (settled (w_db (fst s2)) (w_db (fst s1)) a1) ks"
    "\<And>j. j \<notin> set ks \<Longrightarrow> find_task j (w_db (fst s1)) = find_task j (w_db (fst s2))"
    "db_missions (w_db (fst s1)) = db_missions (w_db (fst s2))" "grows a2 a1"
    using Cons.IH [OF rest new(2)] by simp_all
  have head: "settled (w_db (fst s)) (w_db (fst s1)) a1 k"
    using st IH(4) IH(2) [OF new(1)] by (auto simp: step_settles_def intro: settled_grows)
  have others: "find_task j (w_db (fst s2)) = find_task j (w_db (fst s))" if "j \<noteq> k" for j
    using st that by (simp add: step_settles_def)
  have tail: "list_all (settled (w_db (fst s)) (w_db (fst s1)) a1) ks"
    unfolding list_all_iff
  proof
    fix j assume j: "j \<in> set ks"
    then have "j \<noteq> k" using new by auto
    moreover have "settled (w_db (fst s2)) (w_db (fst s1)) a1 j" using IH(1) j by (simp add: list_all_iff)
    ultimately show "settled (w_db (fst s)) (w_db (fst s1)) a1 j" using settled_start [OF others] by blast
  qed
  show ?case using head tail IH others st by (auto simp: step_settles_def intro: grows_trans)
qed

text \<open>Sorting touches no row; every task is planned, already queued or blocked by name.\<close>

definition sorted_out :: "db \<Rightarrow> mission_admission \<Rightarrow> uuid \<Rightarrow> bool" where
  "sorted_out d a k \<longleftrightarrow> k \<in> set (mq_planned a) \<or> k \<in> set (mq_already a) \<and> map_option t_status (find_task k d) = Some TQueued \<or>
     list_ex (names k) (mq_blockers a)"

lemma find_distinct:
  assumes "distinct (map key rows)" and "x \<in> set rows"
  shows "find_row key (key x) rows = Some x"
  using assms by (induction rows) (auto simp: find_row_def)

lemma found_member: "find (\<lambda>x. t_id x = k) (list_for_mission i d) = Some x \<Longrightarrow> x \<in> set (db_tasks d) \<and> t_id x = k"
  using find_row_key [of t_id k "list_for_mission i d" x] by (simp add: find_row_def list_for_mission_def)

lemma sort_task_sorts:
  assumes "distinct (map t_id (db_tasks d))"
  shows "sorted_out d (sort_task tenant mid (list_for_mission i d) k a) k"
proof (cases "find (\<lambda>x. t_id x = k) (list_for_mission i d)")
  case None
  then show ?thesis by (simp add: sort_task_def sorted_out_def block_def)
next
  case (Some x)
  have "find_task k d = Some x"
    using found_member [OF Some] find_distinct [OF assms] by (auto simp: find_task_def)
  then show ?thesis using Some by (simp add: sort_task_def sorted_out_def block_def)
qed

lemma sorted_out_kept: "sorted_out d a k \<Longrightarrow> sorted_out d (sort_task tenant mid tasks j a) k"
  by (auto simp: sort_task_def sorted_out_def block_def split: option.splits)

lemma sorted_out_fold: "sorted_out d a k \<Longrightarrow> sorted_out d (fold (sort_task tenant mid tasks) ks a) k"
  by (induction ks arbitrary: a) (simp_all add: sorted_out_kept)

lemma fold_sorts:
  assumes "distinct (map t_id (db_tasks d))"
  shows "k \<in> set ks \<Longrightarrow> sorted_out d (fold (sort_task tenant mid (list_for_mission i d)) ks a) k"
  by (induction ks arbitrary: a) (auto intro: sorted_out_fold sort_task_sorts [OF assms])

lemma fold_planned:
  "\<exists>js. mq_planned (fold (sort_task tenant mid tasks) ks a) = mq_planned a @ js \<and> set js \<subseteq> set ks \<and> (distinct ks \<longrightarrow> distinct js)"
proof (induction ks arbitrary: a)
  case (Cons k ks)
  have "mq_planned (sort_task tenant mid tasks k a) \<in> {mq_planned a, mq_planned a @ [k]}"
    by (auto simp: sort_task_def block_def split: option.splits)
  then obtain js where js: "mq_planned (sort_task tenant mid tasks k a) = mq_planned a @ js" "js = [] \<or> js = [k]" by auto
  obtain ls where "mq_planned (fold (sort_task tenant mid tasks) ks (sort_task tenant mid tasks k a)) =
      mq_planned (sort_task tenant mid tasks k a) @ ls" "set ls \<subseteq> set ks" "distinct ks \<longrightarrow> distinct ls"
    using Cons.IH by blast
  then show ?case using js by (intro exI [of _ "js @ ls"]) auto
qed simp

lemma distinct_uuids_distinct: "distinct (distinct_uuids vs seen) \<and> set (distinct_uuids vs seen) \<inter> set seen = {}"
  by (induction vs seen rule: distinct_uuids.induct) (auto split: option.splits)

lemma materialized_distinct: "distinct (current_materialized_task_ids md)"
  by (auto simp: current_materialized_task_ids_def distinct_uuids_distinct split: option.splits)

lemma sort_tasks_sorts:
  assumes "distinct (map t_id (db_tasks d))" and "\<not> intake_clarifies (m_metadata m)"
  shows "k \<in> set (current_materialized_task_ids (m_metadata m)) \<Longrightarrow> sorted_out d (sort_tasks tenant m d) k"
    and "distinct (mq_planned (sort_tasks tenant m d))"
    and "set (mq_planned (sort_tasks tenant m d)) \<subseteq> set (current_materialized_task_ids (m_metadata m))"
proof -
  let ?ks = "current_materialized_task_ids (m_metadata m)"
  show "k \<in> set ?ks \<Longrightarrow> sorted_out d (sort_tasks tenant m d) k"
    using assms fold_sorts [OF assms(1)] by (simp add: sort_tasks_def)
  let ?a = "no_admission\<lparr>mq_blockers := intake_blockers (m_metadata m)\<rparr>"
  obtain js where "mq_planned (sort_tasks tenant m d) = mq_planned ?a @ js" "set js \<subseteq> set ?ks" "distinct ?ks \<longrightarrow> distinct js"
    using fold_planned [of tenant "m_id m" "list_for_mission (m_id m) d" ?ks ?a] assms(2) by (auto simp: sort_tasks_def)
  then show "distinct (mq_planned (sort_tasks tenant m d))" "set (mq_planned (sort_tasks tenant m d)) \<subseteq> set ?ks"
    using materialized_distinct by (simp_all add: no_admission_def)
qed

lemma admit_mission_Inr:
  assumes "admit_mission K tenant mid s = (Inr response, s1)" and "lock_mission_for_tenant mid tenant (w_db (fst s)) = Some m"
  obtains a s2 where "admit_tasks K tenant (mq_planned (sort_tasks tenant m (w_db (fst s)))) (sort_tasks tenant m (w_db (fst s))) s = (Inr a, s2)"
    "response = queue_admission_response (admission_receipt tenant m a (w_clock (fst s2)))"
    "s1 = change (map_db (save_mission (m\<lparr>m_metadata :=
        AList.update receipt_key (JObj (admission_receipt tenant m a (w_clock (fst s2)))) (m_metadata m)\<rparr>))) s2"
  using assms by (auto simp: admit_mission_def Let_def then_do_Inr)

lemma receipt_fields:
  "map_of (admission_receipt tenant m a now) ''admitted_execution_task_ids'' = Some (JArr (map JStr (mq_already a @ mq_queued a)))"
  "map_of (admission_receipt tenant m a now) ''pending_review_execution_task_ids'' = Some (JArr (map JStr (mq_pending a)))"
  "map_of (admission_receipt tenant m a now) ''blockers'' = Some (JArr (map JObj (mq_blockers a)))"
  "map_of (admission_receipt tenant m a now) ''admission_status'' = Some (JStr (admission_status (mq_already a @ mq_queued a) (mq_blockers a)))"
  by (simp_all add: admission_receipt_def queue_admission_metadata_def Let_def)

lemma locked_mission: "lock_mission_for_tenant mid tenant d = Some m \<Longrightarrow> find_mission mid d = Some m \<and> m_id m = mid"
  by (auto simp: lock_mission_for_tenant_def find_mission_def dest: find_row_key split: option.splits if_splits)

lemma receipt_stored:
  assumes "lock_mission_for_tenant mid tenant (w_db (fst s)) = Some m" and "db_missions (w_db (fst s2)) = db_missions (w_db (fst s))"
  shows "find_mission mid (w_db (fst (change (map_db (save_mission (m\<lparr>m_metadata := md\<rparr>))) s2))) = Some (m\<lparr>m_metadata := md\<rparr>)"
  using locked_mission [OF assms(1)] assms(2) by (simp add: map_db_def save_mission_def find_mission_def)

lemma admission_without_clarification:
  assumes "admit_mission K tenant mid s = (Inr response, s1)" and "lock_mission_for_tenant mid tenant (w_db (fst s)) = Some m"
    and "distinct (map t_id (db_tasks (w_db (fst s))))" and "\<not> intake_clarifies (m_metadata m)"
  shows "\<exists>m1 receipt admitted pending blockers. find_mission mid (w_db (fst s1)) = Some m1 \<and>
    map_of (m_metadata m1) receipt_key = Some (JObj receipt) \<and> map_of response ''runtime_queue_admission'' = Some (JObj receipt) \<and>
    map_of receipt ''admitted_execution_task_ids'' = Some (JArr (map JStr admitted)) \<and>
    map_of receipt ''pending_review_execution_task_ids'' = Some (JArr (map JStr pending)) \<and>
    map_of receipt ''blockers'' = Some (JArr (map JObj blockers)) \<and>
    (\<forall>k. if k \<in> set (current_materialized_task_ids (m_metadata m))
         then k \<in> set admitted \<and> map_option t_status (find_task k (w_db (fst s1))) = Some TQueued \<or>
           k \<in> set pending \<and> map_option t_status (find_task k (w_db (fst s1))) = Some TPendingReview \<or>
           list_ex (names k) blockers \<and> find_task k (w_db (fst s1)) = find_task k (w_db (fst s))
         else find_task k (w_db (fst s1)) = find_task k (w_db (fst s)))"
proof -
  let ?d = "w_db (fst s)" and ?sorted = "sort_tasks tenant m (w_db (fst s))"
  note sorts = sort_tasks_sorts [OF assms(3,4), where tenant = tenant]
  obtain a s2 where run: "admit_tasks K tenant (mq_planned ?sorted) ?sorted s = (Inr a, s2)"
    and response: "response = queue_admission_response (admission_receipt tenant m a (w_clock (fst s2)))"
    and s1: "s1 = change (map_db (save_mission (m\<lparr>m_metadata :=
        AList.update receipt_key (JObj (admission_receipt tenant m a (w_clock (fst s2)))) (m_metadata m)\<rparr>))) s2"
    using admit_mission_Inr [OF assms(1,2)] by metis
  note settles = admit_tasks_settles [OF run sorts(2)]
  have rows: "find_task k (w_db (fst s1)) = find_task k (w_db (fst s2))" for k unfolding s1 by (simp add: map_db_def)
  have kept: "find_task k (w_db (fst s1)) = find_task k ?d" if "k \<notin> set (mq_planned ?sorted)" for k
    using settles that unfolding rows by simp
  have placed: "k \<in> set (mq_already a @ mq_queued a) \<and> map_option t_status (find_task k (w_db (fst s1))) = Some TQueued \<or>
      k \<in> set (mq_pending a) \<and> map_option t_status (find_task k (w_db (fst s1))) = Some TPendingReview \<or>
      list_ex (names k) (mq_blockers a) \<and> find_task k (w_db (fst s1)) = find_task k ?d"
    if k: "k \<in> set (current_materialized_task_ids (m_metadata m))" for k
  proof (cases "k \<in> set (mq_planned ?sorted)")
    case True
    then have "settled ?d (w_db (fst s2)) a k" using settles by (simp add: list_all_iff)
    then show ?thesis unfolding rows by (auto simp: settled_def)
  next
    case False
    have "mq_already a = mq_already ?sorted" "set (mq_blockers ?sorted) \<subseteq> set (mq_blockers a)" using settles by (auto simp: grows_def)
    then show ?thesis using sorts(1) [OF k] kept [OF False] False by (auto simp: sorted_out_def list_ex_iff)
  qed
  have stored: "find_mission mid (w_db (fst s1)) = Some (m\<lparr>m_metadata :=
      AList.update receipt_key (JObj (admission_receipt tenant m a (w_clock (fst s2)))) (m_metadata m)\<rparr>)"
    unfolding s1 using settles by (intro receipt_stored [OF assms(2)]) simp
  have other: "k \<notin> set (current_materialized_task_ids (m_metadata m)) \<Longrightarrow> k \<notin> set (mq_planned ?sorted)" for k using sorts(3) by auto
  show ?thesis
    by (rule exI, rule exI [of _ "admission_receipt tenant m a (w_clock (fst s2))"], rule exI [of _ "mq_already a @ mq_queued a"],
        rule exI [of _ "mq_pending a"], rule exI [of _ "mq_blockers a"])
      (use stored placed kept other in \<open>auto simp: receipt_fields response queue_admission_response_def Let_def\<close>)
qed

lemma admission_with_clarification:
  assumes "admit_mission K tenant mid s = (Inr response, s1)" and "lock_mission_for_tenant mid tenant (w_db (fst s)) = Some m"
    and "intake_clarifies (m_metadata m)"
  shows "\<exists>m1 receipt blockers. find_mission mid (w_db (fst s1)) = Some m1 \<and>
    map_of (m_metadata m1) receipt_key = Some (JObj receipt) \<and> map_of response ''runtime_queue_admission'' = Some (JObj receipt) \<and>
    map_of receipt ''admitted_execution_task_ids'' = Some (JArr (map JStr [])) \<and>
    map_of receipt ''pending_review_execution_task_ids'' = Some (JArr (map JStr [])) \<and>
    map_of receipt ''blockers'' = Some (JArr (map JObj blockers)) \<and>
    (\<exists>b \<in> set blockers. map_of b ''code'' = Some (JStr ''composition_clarification_required'')) \<and>
    (\<forall>k. find_task k (w_db (fst s1)) = find_task k (w_db (fst s)))"
proof -
  let ?a = "no_admission\<lparr>mq_blockers := intake_blockers (m_metadata m)\<rparr>"
  have sorted: "sort_tasks tenant m (w_db (fst s)) = ?a" using assms(3) by (simp add: sort_tasks_def)
  obtain a s2 where run: "admit_tasks K tenant (mq_planned ?a) ?a s = (Inr a, s2)"
    and response: "response = queue_admission_response (admission_receipt tenant m a (w_clock (fst s2)))"
    and s1: "s1 = change (map_db (save_mission (m\<lparr>m_metadata :=
        AList.update receipt_key (JObj (admission_receipt tenant m a (w_clock (fst s2)))) (m_metadata m)\<rparr>))) s2"
    using admit_mission_Inr [OF assms(1,2)] unfolding sorted by metis
  have a: "a = ?a" "s2 = s" using run by (auto simp: no_admission_def)
  have lists: "mq_already a @ mq_queued a = []" "mq_pending a = []" "mq_blockers a = intake_blockers (m_metadata m)"
    unfolding a(1) by (simp_all add: no_admission_def)
  have "\<exists>b \<in> set (intake_blockers (m_metadata m)). map_of b ''code'' = Some (JStr ''composition_clarification_required'')"
    using assms(3) by (simp add: intake_blockers_def queue_blocker_def Let_def)
  moreover have "find_mission mid (w_db (fst s1)) = Some (m\<lparr>m_metadata :=
      AList.update receipt_key (JObj (admission_receipt tenant m a (w_clock (fst s2)))) (m_metadata m)\<rparr>)"
    unfolding s1 by (rule receipt_stored [OF assms(2)]) (simp add: a(2))
  moreover have "find_task k (w_db (fst s1)) = find_task k (w_db (fst s))" for k unfolding s1 by (simp add: map_db_def a(2))
  ultimately show ?thesis
    by (intro exI [of _ "m\<lparr>m_metadata := AList.update receipt_key (JObj (admission_receipt tenant m a (w_clock (fst s2)))) (m_metadata m)\<rparr>"]
        exI [of _ "admission_receipt tenant m a (w_clock (fst s2))"] exI [of _ "intake_blockers (m_metadata m)"])
      (simp add: receipt_fields response queue_admission_response_def lists Let_def)
qed


subsection \<open>Admitting again\<close>

lemma sort_started:
  assumes "list_all (\<lambda>x. t_status x \<notin> {TPlanned, TQueued}) tasks"
  shows "\<exists>b. sort_task tenant mid tasks k a = block b a"
proof (cases "find (\<lambda>x. t_id x = k) tasks")
  case None
  then show ?thesis by (auto simp: sort_task_def)
next
  case (Some x)
  have "x \<in> set tasks" using Some by (auto simp: find_Some_iff)
  then have "t_status x \<noteq> TPlanned" "t_status x \<noteq> TQueued" using assms by (auto simp: list_all_iff)
  then show ?thesis using Some by (auto simp: sort_task_def)
qed

lemma fold_started:
  assumes "list_all (\<lambda>x. t_status x \<notin> {TPlanned, TQueued}) tasks"
  shows "\<exists>bs. fold (sort_task tenant mid tasks) ks a = a\<lparr>mq_blockers := mq_blockers a @ bs\<rparr> \<and> length bs = length ks"
proof (induction ks arbitrary: a)
  case (Cons k ks)
  obtain b where b: "sort_task tenant mid tasks k a = block b a" using sort_started [OF assms] by blast
  obtain bs where "fold (sort_task tenant mid tasks) ks (block b a) = (block b a)\<lparr>mq_blockers := mq_blockers (block b a) @ bs\<rparr>"
    "length bs = length ks" using Cons.IH by blast
  then show ?case using b by (intro exI [of _ "b # bs"]) (simp add: block_def)
qed simp

text \<open>
  C37: admitting a mission again forgets what was admitted. When none of the tasks of a mission is planned or queued any more,
  because workers have claimed, run or completed them or because they are held for a review, an admission
  replaces the receipt by one that says \<open>blocked\<close>, with no task admitted and none pending a review.
\<close>

theorem readmission_forgets_admitted:
  assumes "admit_mission K tenant mid s = (Inr response, s1)" and "lock_mission_for_tenant mid tenant (w_db (fst s)) = Some m"
    and "list_all (\<lambda>x. t_status x \<notin> {TPlanned, TQueued}) (list_for_mission mid (w_db (fst s)))"
  shows "\<exists>m1 receipt. find_mission mid (w_db (fst s1)) = Some m1 \<and> map_of (m_metadata m1) receipt_key = Some (JObj receipt) \<and>
    map_of receipt ''admission_status'' = Some (JStr ''blocked'') \<and> map_of receipt ''admitted_execution_task_ids'' = Some (JArr []) \<and>
    map_of receipt ''pending_review_execution_task_ids'' = Some (JArr [])"
proof -
  let ?md = "m_metadata m"
  let ?ks = "if intake_clarifies ?md then [] else current_materialized_task_ids ?md"
  have mid: "m_id m = mid" using locked_mission [OF assms(2)] by simp
  obtain bs where sorted: "sort_tasks tenant m (w_db (fst s)) = no_admission\<lparr>mq_blockers := intake_blockers ?md @ bs\<rparr>"
    and len: "length bs = length ?ks"
    using fold_started [OF assms(3), of tenant mid ?ks "no_admission\<lparr>mq_blockers := intake_blockers ?md\<rparr>"]
    by (auto simp: sort_tasks_def mid)
  have "intake_blockers ?md @ bs \<noteq> []"
    using len by (cases bs) (auto simp: intake_blockers_def split: if_splits)
  then have blocked: "admission_status [] (intake_blockers ?md @ bs) = ''blocked''" by (simp add: admission_status_def)
  obtain a s2 where run: "admit_tasks K tenant (mq_planned (sort_tasks tenant m (w_db (fst s)))) (sort_tasks tenant m (w_db (fst s))) s = (Inr a, s2)"
    and s1: "s1 = change (map_db (save_mission (m\<lparr>m_metadata :=
        AList.update receipt_key (JObj (admission_receipt tenant m a (w_clock (fst s2)))) ?md\<rparr>))) s2"
    using admit_mission_Inr [OF assms(1,2)] by metis
  have a: "a = no_admission\<lparr>mq_blockers := intake_blockers ?md @ bs\<rparr>" "s2 = s"
    using run sorted by (auto simp: no_admission_def)
  have stored: "find_mission mid (w_db (fst s1)) = Some (m\<lparr>m_metadata :=
      AList.update receipt_key (JObj (admission_receipt tenant m a (w_clock (fst s2)))) ?md\<rparr>)"
    unfolding s1 by (rule receipt_stored [OF assms(2)]) (simp add: a(2))
  have lists: "mq_already a @ mq_queued a = []" "mq_pending a = []" "mq_blockers a = intake_blockers ?md @ bs"
    unfolding a(1) by (simp_all add: no_admission_def)
  show ?thesis
    by (rule exI, rule exI [of _ "admission_receipt tenant m a (w_clock (fst s2))"])
      (use stored lists blocked in \<open>auto simp: receipt_fields\<close>)
qed

end
