(* ===== verification/CoordinatorExamples.thy ===== *)
theory CoordinatorExamples
  imports CoordinatorRuns QueueAdmission UsageRuns
begin

section \<open>The coordinator on concrete tasks\<close>

text \<open>
  A mission with one task, its dispatch and its receipt, and requests on it: each property of \<open>CoordinatorRuns\<close>
  applied where its hypotheses hold.
\<close>

subsection \<open>When a request succeeds\<close>

lemma queue_task_admits:
  assumes "find_task k (w_db (fst s)) = Some x" and "t_tenant_id x = tenant"
    and "requires_effect_review K x (w_clock (fst s)) = Inr False" and "\<not> requires_ability_review K x (w_clock (fst s))"
    and "pd_allowed (evaluate_task x)" and "transition_task x TQueued = Inr y"
    and "record_task_admission y False (change (map_db (save_task y)) s) = (Inr (), s2)"
    and "\<And>m. task_mission y (w_db (fst s2)) = Some m \<Longrightarrow> m_tenant_id m = tenant"
  obtains s1 where "queue_task K tenant k s = (Inr (admitted y), s1)" "task_frame (fst s2) (fst s1)"
    "db_missions (w_db (fst s1)) = db_missions (w_db (fst s2))"
proof -
  have "require_task tenant k s = (Inr x, s)" using assms(1,2) by (simp add: require_task_Inr)
  then have "queue_task K tenant k s = admit_to_queue K tenant x (governor_evaluate (ch_health K)) (evaluate_task x) s"
    using assms(3-5) by (simp add: queue_task_def Let_def)
  moreover have "(case task_mission y (w_db (fst s2)) of None \<Rightarrow> False | Some m \<Rightarrow> m_tenant_id m \<noteq> tenant) = False"
    using assms(8) by (auto split: option.split)
  ultimately show thesis
    using that assms(6,7) by (simp add: admit_to_queue_def audit_def record_fact_def map_db_def add_audit_def task_frame_def)
qed

lemma approve_succeeds:
  assumes "find_task k (w_db (fst s)) = Some x" and "t_tenant_id x = tenant" and "t_status x = TPendingReview"
    and "approval_metadata K tenant x actor expires s = (Inr (md, g1, g2), s1)"
    and "queue_task K tenant k (change (map_db (save_task (x\<lparr>t_metadata := md\<rparr>))) s1) = (Inr (admitted y), s3)"
    and "record_reviewed_queue_admission tenant x s3 = (Inr u, s4)"
  obtains s' where "approve_review_and_queue K tenant k actor expires s = (Inr (admitted y), s')"
proof -
  have "require_task tenant k s = (Inr x, s)" using assms(1,2) by (simp add: require_task_Inr)
  then show thesis
    using that assms(3-6) by (simp add: approve_review_and_queue_def Let_def admitted_def)
qed

lemma record_existing:
  "dispatch_for_task (t_tenant_id x) (t_id x) (w_db (fst s)) = Some D \<Longrightarrow> held \<or> rd_status D \<noteq> DHeldReview \<Longrightarrow>
     record_task_admission x held s = (Inr (), s)"
  by (auto simp: record_task_admission_def on_world_def admit_def)

subsection \<open>A mission with one task\<close>

definition zero_hash :: ledger_host where
  "zero_hash = \<lparr>lh_hmac = (\<lambda>k v. k), lh_sha256 = (\<lambda>v. replicate 64 (CHR ''0'')), lh_key_digest = (\<lambda>k. k)\<rparr>"

definition mail_action :: action_definition where
  "mail_action = \<lparr>ad_name = ''mail.send'', ad_side_effect_class = ExternalSend, ad_provider = ''smtp'', ad_required_tools = [],
     ad_required_permissions = [], ad_aliases = [], ad_resolver = None\<rparr>"

definition review_host :: "binding \<Rightarrow> coordinator_host" where
  "review_host b = \<lparr>ch_runtime = plain_runtime\<lparr>rh_ledger := zero_hash\<rparr>,
     ch_registry = \<lparr>ar_actions = [(''mail.send'', mail_action)], ar_frozen = True\<rparr>, ch_manifests = [],
     ch_bind = (\<lambda>i t ts. b), ch_health = Inr (assess_foundation_health True)\<rparr>"

definition receipted_mission :: mission where
  "receipted_mission = graph_mission\<lparr>m_metadata := [(receipt_key, JObj held_receipt)]\<rparr>"

definition review_task :: "task_state \<Rightarrow> dict \<Rightarrow> execution_task" where
  "review_task st md = (example_task st)\<lparr>t_id := uuid_a, t_mission_id := Some ''m'', t_metadata := md\<rparr>"

definition review_dispatch :: "dispatch_status \<Rightarrow> runtime_dispatch" where
  "review_dispatch st = \<lparr>rd_id = ''d'', rd_tenant_id = ''acme'', rd_task_id = uuid_a, rd_mission_id = ''m'', rd_fleet_id = None,
     rd_branch_id = None, rd_payload = [], rd_status = st, rd_attempt_count = 1, rd_next_attempt_at = 0, rd_last_error = None,
     rd_published_at = None, rd_cancelled_at = None, rd_created_at = 0, rd_updated_at = 0\<rparr>"

definition review_state :: "execution_task \<Rightarrow> dispatch_status \<Rightarrow> local_queue runtime" where
  "review_state x st =
     (let d = empty_db\<lparr>db_tasks := [x], db_missions := [receipted_mission], db_dispatches := [review_dispatch st]\<rparr>
      in (\<lparr>w_db = d, w_durable = d, w_queue = local_init, w_clock = 100, w_intents = [], w_ids = (\<lambda>n. uuid_b), w_next_id = 1\<rparr>,
          example_session))"

lemma review_state_db:
  "w_db (fst (review_state x st)) = empty_db\<lparr>db_tasks := [x], db_missions := [receipted_mission], db_dispatches := [review_dispatch st]\<rparr>"
  by (simp add: review_state_def Let_def)

lemma review_state_sel [simp]:
  "w_durable (fst (review_state x st)) = w_db (fst (review_state x st))" "w_clock (fst (review_state x st)) = 100"
  "w_intents (fst (review_state x st)) = []" "w_queue (fst (review_state x st)) = local_init"
  by (simp_all add: review_state_def Let_def)

lemma review_task_sel [simp]:
  "t_id (review_task st md) = uuid_a" "t_tenant_id (review_task st md) = ''acme''" "t_status (review_task st md) = st"
  "t_metadata (review_task st md) = md" "t_mission_id (review_task st md) = Some ''m''"
  by (simp_all add: review_task_def example_task_def)

lemma review_found [simp]: "t_id x = uuid_a \<Longrightarrow> find_task uuid_a (w_db (fst (review_state x st))) = Some x"
  by (simp add: find_task_def find_row_def review_state_db)

lemma review_dispatched [simp]: "dispatch_for_task ''acme'' uuid_a (w_db (fst (review_state x st))) = Some (review_dispatch st)"
  by (simp add: dispatch_for_task_def review_dispatch_def review_state_db)

lemma operational_allowed [simp]: "pd_allowed (evaluate_task (review_task st md))"
  by (simp add: evaluate_task_def review_task_def example_task_def allow_def)

text \<open>A task about people that nobody has reviewed.\<close>

definition hiring_task :: "task_state \<Rightarrow> execution_task" where
  "hiring_task st = (review_task st [])\<lparr>t_compliance_category := ''employment''\<rparr>"

lemma hiring_sel [simp]:
  "t_id (hiring_task st) = uuid_a" "t_tenant_id (hiring_task st) = ''acme''" "t_status (hiring_task st) = st"
  "t_metadata (hiring_task st) = []" "t_mission_id (hiring_task st) = Some ''m''"
  by (simp_all add: hiring_task_def)

lemma hiring_denied [simp]: "\<not> pd_allowed (evaluate_task (hiring_task st))"
  by (simp add: evaluate_task_def hiring_task_def review_task_def example_task_def deny_def)

lemma hiring_reviewed [simp]: "pd_allowed (evaluate_task ((hiring_task st)\<lparr>t_requires_human_review := True\<rparr>))"
  unfolding guardian_task_allowed_iff
  by (simp add: hiring_task_def review_task_def example_task_def or_default_def is_supported_compliance_category_def
      allowed_compliance_categories_def is_supported_jurisdiction_def canonical_explicit_jurisdictions_def evidence_complete_def
      high_risk_def)

lemma no_tool [simp]: "requires_effect_review K x now = Inr False" "\<not> requires_ability_review K x now"
  if "t_metadata x = []" for K x now
  using that by (simp_all add: requires_effect_review_def requires_ability_review_def tool_action_def invocation_of_def)

theorem review_hold_rolled_back_witness:
  "\<exists>e s1. queue_route (review_host (Bound [] [])) local_adapter (example_stripe True) [] ''acme'' uuid_a
       (review_state (hiring_task TPlanned) DHeldReview) = (Inl e, s1) \<and>
     find_task uuid_a (w_durable (fst s1)) = Some (hiring_task TPlanned)"
proof -
  let ?s = "review_state (hiring_task TPlanned) DHeldReview"
  have "find_task uuid_a (w_db (fst ?s)) = Some (hiring_task TPlanned)" by (rule review_found) simp
  moreover have "\<exists>e s1. queue_route (review_host (Bound [] [])) local_adapter (example_stripe True) [] ''acme'' uuid_a ?s = (Inl e, s1) \<and>
      w_db (fst s1) = w_db (fst ?s) \<and> w_durable (fst s1) = w_db (fst ?s) \<and> w_queue (fst s1) = w_queue (fst ?s)"
    by (rule review_hold_rolled_back [where x = "hiring_task TPlanned" and effect = False]) (use calculation in simp_all)
  ultimately show ?thesis by (elim exE conjE) (intro exI conjI, assumption, simp only:)
qed

subsection \<open>A failed task that is retried and approved\<close>

definition held_hiring :: execution_task where
  "held_hiring = (hiring_task TPendingReview)\<lparr>t_requires_human_review := True\<rparr>"

lemma held_hiring_sel [simp]:
  "t_id held_hiring = uuid_a" "t_tenant_id held_hiring = ''acme''" "t_status held_hiring = TPendingReview"
  "t_metadata held_hiring = []" "t_mission_id held_hiring = Some ''m''"
  by (simp_all add: held_hiring_def)

lemma held_hiring_allowed [simp]: "pd_allowed (evaluate_task held_hiring)"
proof -
  have "evaluate_task held_hiring = evaluate_task ((hiring_task TPendingReview)\<lparr>t_requires_human_review := True\<rparr>)"
    by (simp add: held_hiring_def)
  then show ?thesis by (simp only: hiring_reviewed)
qed

lemma hiring_held: "held_task (hiring_task TFailed) = Inr held_hiring"
proof -
  have "transition_task (hiring_task TFailed) TPendingReview = Inr (hiring_task TPendingReview)"
    by (simp add: transition_task_def ensure_task_transition_def ensure_allowed_def targets_def task_allowed_def hiring_task_def review_task_def example_task_def)
  then show ?thesis by (simp add: held_task_def publication_reviewed_def held_hiring_def)
qed

text \<open>The receipt of the mission takes any approval.\<close>

lemma receipt_takes: "\<exists>r. record_reviewed_task_admission held_receipt k now = Inr r"
proof -
  have "iterated held_receipt ''queued_execution_task_ids'' = Inr []" "iterated held_receipt ''admitted_execution_task_ids'' = Inr []"
    "iterated held_receipt ''pending_review_execution_task_ids'' = Inr [JStr ''a'', JStr ''b'']"
    "\<exists>bs. iterated held_receipt ''blockers'' = Inr bs"
    by (simp_all add: held_receipt_def iterated_def)
  then show ?thesis by (auto simp: record_reviewed_task_admission_def Let_def)
qed

lemma receipt_recorded:
  assumes "find_mission ''m'' (w_db (fst s)) = Some receipted_mission" and "t_mission_id x = Some ''m''"
  obtains s1 where "record_reviewed_queue_admission ''acme'' x s = (Inr (), s1)"
proof -
  obtain m where "reviewed_mission (t_id x) (w_clock (fst s)) receipted_mission = Inr m"
    using receipt_takes [of "t_id x" "w_clock (fst s)"] by (auto simp: reviewed_mission_def receipted_mission_def)
  then show thesis using that assms
    by (simp add: record_reviewed_queue_admission_def lock_mission_for_tenant_def on_world_def set_mission_def
        receipted_mission_def graph_mission_def)
qed

text \<open>Approving a held task of the mission that has its dispatch, with the metadata it is given.\<close>

lemma approve_reviewed:
  assumes "find_task uuid_a (w_db (fst s)) = Some x" and "t_tenant_id x = ''acme''" and "t_status x = TPendingReview" and "t_mission_id x = Some ''m''"
    and "approval_metadata K ''acme'' x actor expires s = (Inr (md, g1, g2), s1)" and "db_missions (w_db (fst s1)) = [receipted_mission]"
    and "dispatch_for_task ''acme'' uuid_a (w_db (fst s)) = Some (review_dispatch DPublished)"
    and "requires_effect_review K (x\<lparr>t_metadata := md\<rparr>) (w_clock (fst s)) = Inr False"
    and "\<not> requires_ability_review K (x\<lparr>t_metadata := md\<rparr>) (w_clock (fst s))" and "pd_allowed (evaluate_task x)"
  obtains r s' where "approve_review_and_queue K ''acme'' uuid_a actor expires s = (Inr r, s')"
proof -
  let ?x = "x\<lparr>t_metadata := md\<rparr>" and ?y = "x\<lparr>t_metadata := md, t_status := TQueued\<rparr>"
  let ?s2 = "change (map_db (save_task ?x)) s1" and ?s3 = "change (map_db (save_task ?y)) (change (map_db (save_task ?x)) s1)"
  have f: "task_frame (fst s) (fst s1)" "snd s1 = snd s" using approval_metadata_Inr [OF assms(5)] by auto
  have key: "t_id x = uuid_a" using found_id [OF assms(1)] .
  have y: "transition_task ?x TQueued = Inr ?y"
    using assms(3) by (simp add: transition_task_def ensure_task_transition_def ensure_allowed_def targets_def task_allowed_def)
  have found: "find_task uuid_a (w_db (fst ?s2)) = Some ?x"
    using frame_lookup(1) [OF f(1), of uuid_a] assms(1) key by (simp add: map_db_def)
  have "dispatch_for_task (t_tenant_id ?y) (t_id ?y) (w_db (fst ?s3)) = Some (review_dispatch DPublished)"
    using frame_lookup(2) [OF f(1)] assms(2,7) key by (simp add: map_db_def dispatch_for_task_def save_task_def)
  then have rec: "record_task_admission ?y False ?s3 = (Inr (), ?s3)"
    by (rule record_existing) (simp add: review_dispatch_def)
  have ms: "db_missions (w_db (fst ?s3)) = [receipted_mission]" using assms(6) by (simp add: map_db_def save_task_def)
  have clock: "w_clock (fst ?s2) = w_clock (fst s)" using f(1) by (simp add: task_frame_def map_db_def)
  have owned: "m_tenant_id m = ''acme''" if "task_mission ?y (w_db (fst ?s3)) = Some m" for m
    using that assms(4) ms by (auto simp: task_mission_def find_mission_def find_row_def receipted_mission_def graph_mission_def split: if_splits)
  have pass: "requires_effect_review K ?x (w_clock (fst ?s2)) = Inr False" "\<not> requires_ability_review K ?x (w_clock (fst ?s2))"
    using assms(8,9) unfolding clock by auto
  obtain s4 where s4: "queue_task K ''acme'' uuid_a ?s2 = (Inr (admitted ?y), s4)" "db_missions (w_db (fst s4)) = [receipted_mission]"
  proof (rule queue_task_admits [OF found _ pass _ y rec owned])
    show "t_tenant_id ?x = ''acme''" using assms(2) by simp
    show "pd_allowed (evaluate_task ?x)" using assms(10) by simp
  next
    fix s4
    assume "queue_task K ''acme'' uuid_a ?s2 = (Inr (admitted ?y), s4)" "db_missions (w_db (fst s4)) = db_missions (w_db (fst ?s3))"
    then show thesis using that ms by simp
  qed
  have "find_mission ''m'' (w_db (fst s4)) = Some receipted_mission"
    using s4(2) by (simp add: find_mission_def find_row_def receipted_mission_def graph_mission_def)
  then obtain s5 where "record_reviewed_queue_admission ''acme'' x s4 = (Inr (), s5)" using receipt_recorded assms(4) by blast
  then show thesis using approve_succeeds [OF assms(1-3,5) s4(1)] that by blast
qed

lemma approval_metadata_plain:
  "t_metadata x = [] \<Longrightarrow> approval_metadata K tenant x actor expires s = (Inr ([], None, None), s)"
  by (simp add: approval_metadata_def)

theorem approved_retry_never_delivered_witness:
  "\<exists>s1 s2 r r1. retry_route (review_host (Bound [] [])) local_adapter (example_stripe True) [] ''acme'' uuid_a
       (review_state (hiring_task TFailed) DPublished) = (Inr r, s1) \<and> cn_state r = TPendingReview \<and>
     approve_route (review_host (Bound [] [])) local_adapter (example_stripe True) [] ''acme'' uuid_a ''ann'' None
       (change (\<lambda>w. w\<lparr>w_clock := 200\<rparr>) s1) = (Inr r1, s2) \<and>
     w_queue (fst s2) = local_init \<and> review_dispatch DPublished \<notin> set (due_pending 300 9 (w_durable (fst s2)))"
proof -
  let ?K = "review_host (Bound [] [])" and ?s = "review_state (hiring_task TFailed) DPublished" and ?Q = "local_adapter"
    and ?S = "example_stripe True"
  have req: "require_task ''acme'' uuid_a ?s = (Inr (hiring_task TFailed), ?s)" by (simp add: require_task_Inr)
  obtain s0 where place: "place_in_review ''acme'' (hiring_task TFailed) (pd_reason (evaluate_task (hiring_task TFailed))) ?s = (Inr held_hiring, s0)"
    by (simp add: place_in_review_def hiring_held)
  then have retry: "retry_task ?K ''acme'' uuid_a ?s = (Inr (not_admitted held_hiring (pd_reason (evaluate_task (hiring_task TFailed)))), s0)"
    using req by (simp add: retry_task_def Let_def hold_retry_def)
  define s1 where "s1 = request_commit ?Q ?S [] s0"
  have route: "retry_route ?K ?Q ?S [] ''acme'' uuid_a ?s = (Inr (not_admitted held_hiring (pd_reason (evaluate_task (hiring_task TFailed)))), s1)"
    using retry by (simp add: retry_route_def session_scope_def s1_def)
  have s0: "fst s0 = (fst s0)\<lparr>w_db := w_db (fst s0)\<rparr>" "find_task uuid_a (w_db (fst s0)) = Some held_hiring"
    "db_missions (w_db (fst s0)) = [receipted_mission]" "w_intents (fst s0) = []"
    "dispatch_for_task ''acme'' uuid_a (w_db (fst s0)) = Some (review_dispatch DPublished)"
    using place review_dispatched [of "hiring_task TFailed" DPublished]
    by (auto simp: review_state_db place_in_review_def hiring_held audit_def govern_def map_db_def add_audit_def save_task_def find_task_def put_row_def find_row_def
        dispatch_for_task_def)
  let ?s1 = "change (\<lambda>w. w\<lparr>w_clock := 200\<rparr>) s1"
  have w1: "w_db (fst ?s1) = w_db (fst s0)" using s0(4) by (simp add: s1_def request_commit_def commit_no_intents)
  obtain r1 s3 where "approve_review_and_queue ?K ''acme'' uuid_a ''ann'' None ?s1 = (Inr r1, s3)"
    by (rule approve_reviewed [of ?s1 held_hiring ?K "''ann''" None "[]" None None ?s1])
      (use w1 s0 in \<open>simp_all add: approval_metadata_plain\<close>)
  then have app: "approve_route ?K ?Q ?S [] ''acme'' uuid_a ''ann'' None ?s1 = (Inr r1, request_commit ?Q ?S [] s3)"
    using w1 s0(2) by (simp add: approve_route_def session_scope_def require_task_def)
  have st: "cn_state (not_admitted held_hiring why) = TPendingReview" for why by (simp add: not_admitted_def)
  have "rd_status (review_dispatch DPublished) = DPublished" by (simp add: review_dispatch_def)
  from approved_retry_never_delivered [OF route st review_dispatched this review_state_sel(3) app, of 300 9]
  have "w_queue (fst (request_commit ?Q ?S [] s3)) = local_init \<and>
      review_dispatch DPublished \<notin> set (due_pending 300 9 (w_durable (fst (request_commit ?Q ?S [] s3))))" by simp
  then show ?thesis using route st app by blast
qed

subsection \<open>A task that sends mail\<close>

definition mail_task :: "task_state \<Rightarrow> dict \<Rightarrow> dict \<Rightarrow> execution_task" where
  "mail_task st constraints extra =
     review_task st ([(''tool_invocation'', JObj [(''action'', JStr ''mail.send'')]),
       (''execution_constraints'', JObj constraints)] @ extra)"

definition mail_call :: tool_invocation where
  "mail_call = \<lparr>ti_action = ''mail.send'', ti_input = [], ti_provider = None, ti_idempotency_key = None,
     ti_credential_reference = None\<rparr>"

lemma mail_sel [simp]:
  "t_id (mail_task st cs extra) = uuid_a" "t_tenant_id (mail_task st cs extra) = ''acme''" "t_status (mail_task st cs extra) = st"
  "t_mission_id (mail_task st cs extra) = Some ''m''" "pd_allowed (evaluate_task (mail_task st cs extra))"
  by (simp_all add: mail_task_def)

lemma mail_invocation: "invocation_of (t_metadata (mail_task st cs extra)) = Some mail_call"
  by (simp add: mail_task_def invocation_of_def validate_invocation_def only_fields_def literal_field_def stripped_field_def
      bounded_text_def text_field_def within_length_def strip_def is_space_def optional_field_def dict_field_def mail_call_def)

lemma mail_tool: "tool_action (review_host b) (t_metadata (mail_task st cs extra)) = Some (mail_call, mail_action)"
  using mail_invocation
  by (simp add: tool_action_Some review_host_def get_action_def normalize_action_name_def mail_call_def strip_def is_space_def)

lemma mail_effect: "side_effect_for mail_action j = Inr ExternalSend" "has_side_effect ExternalSend"
  by (simp_all add: side_effect_for_def mail_action_def has_side_effect_def)

lemma mail_ability [simp]: "\<not> requires_ability_review (review_host b) x now"
  by (simp add: requires_ability_review_def review_host_def split: option.split)

theorem failed_binding_is_lost_witness:
  "\<exists>e s1. approve_route (review_host (Unbindable ''no evidence'')) local_adapter (example_stripe True) [] ''acme'' uuid_a ''ann'' (Some 500)
       (review_state (mail_task TPendingReview [] [(''dependency_keys'', JArr [JStr ''research''])]) DHeldReview) = (Inl e, s1) \<and>
     find_task uuid_a (w_durable (fst s1)) = Some (mail_task TPendingReview [] [(''dependency_keys'', JArr [JStr ''research''])])"
proof -
  let ?x = "mail_task TPendingReview [] [(''dependency_keys'', JArr [JStr ''research''])]"
  have "\<exists>e s1. approve_route (review_host (Unbindable ''no evidence'')) local_adapter (example_stripe True) [] ''acme'' uuid_a ''ann'' (Some 500)
       (review_state ?x DHeldReview) = (Inl e, s1) \<and> find_task uuid_a (w_durable (fst s1)) = Some ?x \<and>
       db_audit (w_durable (fst s1)) = db_audit (w_db (fst (review_state ?x DHeldReview)))"
    by (rule failed_binding_is_lost [where why = "''no evidence''", OF review_found review_state_sel(1) mail_sel(4) mail_tool mail_effect])
      (simp_all add: mail_task_def full_array_def review_host_def)
  then show ?thesis by blast
qed

theorem approval_never_overrules_guardian_witness:
  "\<exists>e s1. approve_route (review_host (Bound [] [])) local_adapter (example_stripe True) [] ''acme'' uuid_a ''ann'' (Some 500)
       (review_state (hiring_task TPendingReview) DHeldReview) = (Inl e, s1) \<and>
     w_db (fst s1) = w_db (fst (review_state (hiring_task TPendingReview) DHeldReview))"
  using approval_never_overrules_guardian [OF review_found hiring_denied review_state_sel(1)]
  by (metis hiring_sel(1))

theorem revocation_is_final_witness:
  "\<exists>r s1 z. revoke_side_effect_approval ''acme'' uuid_a ''ann'' ''changed our mind''
       (review_state (mail_task TQueued [(''side_effect_authorization'', JObj [(''schema_version'', JInt 2)])] []) DPublished) = (Inr r, s1) \<and>
     find_task uuid_a (w_db (fst s1)) = Some z \<and> \<not> side_effect_authorized zero_hash (t_metadata z) ''mail.send'' (Some ''acme'') (Some uuid_a) 0"
proof -
  let ?cs = "[(''side_effect_authorization'', JObj [(''schema_version'', JInt 2)])]"
  let ?s = "review_state (mail_task TQueued ?cs []) DPublished"
  have "find_task uuid_a (w_db (fst ?s)) = Some (mail_task TQueued ?cs [])" by (rule review_found) simp
  then have req: "require_task ''acme'' uuid_a ?s = (Inr (mail_task TQueued ?cs []), ?s)" by (simp add: require_task_Inr)
  have "map_of (t_metadata (mail_task TQueued ?cs [])) ''execution_constraints'' = Some (JObj ?cs)" by (simp add: mail_task_def)
  then obtain r s1 where rev: "revoke_side_effect_approval ''acme'' uuid_a ''ann'' ''changed our mind'' ?s = (Inr r, s1)"
    using req by (simp add: revoke_side_effect_approval_def object_or_empty_def versioned_def revoked_at_set_def Let_def)
  from revocation_is_final [OF rev] rev show ?thesis by blast
qed

subsection \<open>An approval with a grant\<close>

definition mail_grant :: dict where
  "mail_grant = effect_grant_payload zero_hash uuid_b ''acme'' uuid_a ''mail.send'' mail_call ''ann'' 100 500"

definition mail_metadata :: dict where
  "mail_metadata = [(''tool_invocation'', JObj (invocation_dump mail_call)),
     (''execution_constraints'', JObj [(''side_effect_authorization'', JObj mail_grant)])]"

lemma mail_approval:
  "\<exists>s1. approval_metadata (review_host b) ''acme'' (mail_task TPendingReview [] []) ''ann'' (Some 500)
       (review_state (mail_task TPendingReview [] []) DPublished) = (Inr (mail_metadata, Some mail_grant, None), s1) \<and>
     db_missions (w_db (fst s1)) = [receipted_mission]"
proof -
  let ?x = "mail_task TPendingReview [] []" and ?K = "review_host b"
  let ?s = "review_state ?x DPublished"
  have bind: "bind_invocation_for_approval ?K ?x (t_metadata ?x) mail_call ?s = (Inr (mail_call, None), ?s)"
    by (simp add: bind_invocation_for_approval_def mail_task_def full_array_def)
  have fin: "final_invocation ?K ?x (t_metadata ?x) mail_call (Some 500) ?s =
      (Inr (mail_call, AList.update ''tool_invocation'' (JObj (invocation_dump mail_call)) (t_metadata ?x), 500), ?s)"
    by (simp add: final_invocation_def bind Let_def)
  have "ch_manifests ?K = []" "ch_ledger ?K = zero_hash" by (simp_all add: review_host_def ch_ledger_def)
  then have "grant_metadata ?K ''acme'' ?x mail_call mail_action [] ''ann'' (Some 500) ?s =
      (Inr (mail_metadata, Some mail_grant, None), change (\<lambda>w. w\<lparr>w_next_id := w_next_id w + 1\<rparr>) ?s)"
    using mail_effect fin
    by (simp add: grant_metadata_def Let_def effect_grant_if_def ability_grant_if_def add_effect_grant_def draw_id_def
        publication_authorized_def mail_call_def mail_grant_def mail_metadata_def mail_action_def mail_task_def review_state_def)
  moreover have "dict_of (map_of (t_metadata ?x) ''tool_invocation'') = Some [(''action'', JStr ''mail.send'')]"
    "map_of (t_metadata ?x) ''execution_constraints'' = Some (JObj [])"
    by (simp_all add: mail_task_def)
  ultimately show ?thesis
    by (simp add: approval_metadata_def mail_tool text_at_def strip_def is_space_def object_or_empty_def review_state_db)
qed

lemma uuid_b_parses: "uuid_parse uuid_b = Some uuid_b" "uuid_parse uuid_a = Some uuid_a"
  using example_uuids by (simp_all add: is_uuid_def)

lemma mail_grant_valid: "\<exists>g. validate_grant_v2 mail_grant = Some g \<and> gr_tenant_id g = ''acme'' \<and> gr_task_id g = uuid_a \<and>
    gr_allowed_action g = ''mail.send'' \<and> gr_invocation_sha256 g = tool_invocation_sha256 zero_hash mail_call \<and>
    gr_revoked_at g = None \<and> gr_expires_at g = 500 \<and> gr_approved_by g = ''ann''"
proof -
  have "list_all is_hex (replicate 64 (CHR ''0''))" by (simp add: list_all_iff is_hex_def)
  then have sha: "sha256_text (tool_invocation_sha256 zero_hash mail_call)"
    by (simp add: sha256_text_def tool_invocation_sha256_def zero_hash_def)
  show ?thesis
    using uuid_b_parses sha
    by (simp add: validate_grant_v2_def mail_grant_def effect_grant_payload_def parse_grant_def only_fields_def grant_fields_def
        literal_field_def Ledger.uuid_field_def text_field_def bounded_text_def within_length_def stamp_field_def optional_field_def valid_lifetime_def)
qed

lemma mail_invocation_read: "invocation_of mail_metadata = Some mail_call"
  using invocation_round_trip [of "[(''action'', JStr ''mail.send'')]" mail_call "[]"] mail_invocation [of TPlanned "[]" "[]"]
  by (simp add: mail_metadata_def invocation_of_def mail_task_def mail_call_def)

lemma mail_tool_read: "tool_action (review_host b) mail_metadata = Some (mail_call, mail_action)"
  using mail_invocation_read mail_tool [of b TPlanned "[]" "[]"] by (simp add: tool_action_Some)

lemma mail_unnamed: "\<not> named_approval mail_metadata act"
proof -
  have "validate_grant_v1 mail_grant = None"
    by (simp add: validate_grant_v1_def only_fields_def mail_grant_def effect_grant_payload_def)
  then show ?thesis by (auto simp: named_approval_def stored_grant_def constraints_of_def mail_metadata_def)
qed

text \<open>The request succeeds, and the row that was planned for review is queued with the metadata of the approval.\<close>

lemma mail_approved:
  obtains r s' z where "approve_review_and_queue (review_host (Bound [] [])) ''acme'' uuid_a ''ann'' (Some 500)
       (review_state (mail_task TPendingReview [] []) DPublished) = (Inr r, s')" "cn_state r = TQueued"
    "find_task uuid_a (w_db (fst s')) = Some z" "t_metadata z = mail_metadata"
proof -
  let ?K = "review_host (Bound [] [])" and ?x = "mail_task TPendingReview [] []"
  let ?s = "review_state ?x DPublished"
  have found: "find_task uuid_a (w_db (fst ?s)) = Some ?x" by (rule review_found) simp
  obtain s1 where s1: "approval_metadata ?K ''acme'' ?x ''ann'' (Some 500) ?s = (Inr (mail_metadata, Some mail_grant, None), s1)"
    "db_missions (w_db (fst s1)) = [receipted_mission]"
    using mail_approval by blast
  have "side_effect_authorized zero_hash mail_metadata ''mail.send'' (Some ''acme'') (Some uuid_a) 100"
  proof -
    have "equals_int (map_of mail_grant ''schema_version'') 2" by (simp add: mail_grant_def)
    then show ?thesis using mail_grant_valid mail_invocation_read
      by (auto simp: side_effect_authorized_def constraints_of_def mail_metadata_def client_forged_approver_def untrusted_approvers_def
          lower_text_def lower_char_def strip_def is_space_def Let_def)
  qed
  then have pass: "requires_effect_review ?K (?x\<lparr>t_metadata := mail_metadata\<rparr>) (w_clock (fst ?s)) = Inr False"
    using mail_tool_read mail_effect by (simp add: requires_effect_review_def review_host_def ch_ledger_def mail_action_def)
  obtain r s' where app: "approve_review_and_queue ?K ''acme'' uuid_a ''ann'' (Some 500) ?s = (Inr r, s')"
    by (rule approve_reviewed [OF found mail_sel(2-4) s1 review_dispatched pass mail_ability mail_sel(5)])
  have state: "cn_state r = TQueued" using approve_Inr [OF app] by (metis admitted_state)
  from approved_row [OF app] obtain x0 md g1 g2 s0 z where x0: "find_task uuid_a (w_db (fst ?s)) = Some x0"
    and md: "approval_metadata ?K ''acme'' x0 ''ann'' (Some 500) ?s = (Inr (md, g1, g2), s0)"
    and z: "find_task uuid_a (w_db (fst s')) = Some z" "t_metadata z = md" .
  have "md = mail_metadata" using x0 found md s1(1) by simp
  then show thesis using that [OF app state z(1)] z(2) by simp
qed

theorem queued_effect_is_approved_witness:
  "\<exists>r s' z. approve_review_and_queue (review_host (Bound [] [])) ''acme'' uuid_a ''ann'' (Some 500)
       (review_state (mail_task TPendingReview [] []) DPublished) = (Inr r, s') \<and>
     find_task uuid_a (w_db (fst s')) = Some z \<and> t_status z = TQueued \<and>
     current_approval zero_hash (t_metadata z) ''mail.send'' ''acme'' uuid_a mail_call 100"
proof -
  obtain r s' z where app: "approve_review_and_queue (review_host (Bound [] [])) ''acme'' uuid_a ''ann'' (Some 500)
       (review_state (mail_task TPendingReview [] []) DPublished) = (Inr r, s')" "cn_state r = TQueued"
    and z: "find_task uuid_a (w_db (fst s')) = Some z" "t_metadata z = mail_metadata"
    by (rule mail_approved)
  have found: "find_task uuid_a (w_db (fst (review_state (mail_task TPendingReview [] []) DPublished))) = Some (mail_task TPendingReview [] [])"
    by (rule review_found) simp
  have "t_status (mail_task TPendingReview [] []) \<noteq> TQueued" by simp
  from queued_effect_is_approved [OF disjI2 [OF disjI2 [OF app(1)]] app(2) found this]
  have "t_status z = TQueued" "current_approval zero_hash (t_metadata z) ''mail.send'' ''acme'' uuid_a mail_call 100"
    using z mail_tool_read mail_effect mail_unnamed by (auto simp: review_host_def ch_ledger_def mail_action_def)
  then show ?thesis using app(1) z(1) by blast
qed

theorem approval_binds_invocation_witness:
  "\<exists>r s' z. approve_review_and_queue (review_host (Bound [] [])) ''acme'' uuid_a ''ann'' (Some 500)
       (review_state (mail_task TPendingReview [] []) DPublished) = (Inr r, s') \<and>
     find_task uuid_a (w_db (fst s')) = Some z \<and> t_status z = TQueued \<and>
     side_effect_authorized zero_hash (t_metadata z) ''mail.send'' (Some ''acme'') (Some uuid_a) 499 \<and>
     \<not> side_effect_authorized zero_hash (t_metadata z) ''mail.send'' (Some ''acme'') (Some uuid_a) 500"
proof -
  let ?K = "review_host (Bound [] [])" and ?x = "mail_task TPendingReview [] []"
  obtain r s' z where app: "approve_review_and_queue ?K ''acme'' uuid_a ''ann'' (Some 500) (review_state ?x DPublished) = (Inr r, s')"
    by (rule mail_approved)
  have found: "find_task uuid_a (w_db (fst (review_state ?x DPublished))) = Some ?x" by (rule review_found) simp
  have "\<And>j. \<exists>c. side_effect_for mail_action j = Inr c \<and> has_side_effect c" using mail_effect by blast
  from approval_binds_invocation [OF app found mail_tool this] app
  show ?thesis by (fastforce simp: review_host_def ch_ledger_def mail_action_def)
qed

subsection \<open>A readmission without an approval\<close>

text \<open>
  The recovery of blocked dependents in the rollup is another way into the queue, and it asks for no approval. A task whose action has a side
  effect, which was planned and never reviewed when the task it depends on failed and was blocked for that, is queued and handed to the
  dispatcher as soon as the other one completes after a retry, although the coordinator would have held it for a review.
\<close>

definition unreviewed_task :: execution_task where
  "unreviewed_task = graph_task ''2'' TBlocked ''b'' [''a'']
     [(''blocked_by_dependency_failure'', JArr [JStr ''a'']), (''failure'', JObj [(''code'', JStr ''DEPENDENCY_FAILED'')]),
      (''tool_invocation'', JObj [(''action'', JStr ''mail.send'')])]"

definition unreviewed_world :: "unit world" where
  "unreviewed_world = graph_world [graph_task ''1'' TCompleted ''a'' [] [], unreviewed_task]"

lemma recovered_effect_is_unapproved:
  "requires_effect_review (review_host b) unreviewed_task now = Inr True"
  "(let r = rollup_mission 5 plain_runtime (graph_task ''1'' TCompleted ''a'' [] []) ''w'' unreviewed_world
    in fst r = Inr () \<and> map t_status (db_tasks (w_db (snd r))) = [TCompleted, TQueued] \<and>
      map rd_status (db_dispatches (w_db (snd r))) = [DPending] \<and> length (w_intents (snd r)) = 1 \<and>
      map_of (t_metadata (last (db_tasks (w_db (snd r))))) ''execution_constraints'' = None)"
proof -
  have md: "dict_of (map_of (t_metadata unreviewed_task) ''tool_invocation'') = Some [(''action'', JStr ''mail.send'')]"
    "constraints_of (t_metadata unreviewed_task) = []"
    by (simp_all add: unreviewed_task_def graph_task_def constraints_of_def)
  have "invocation_of (t_metadata unreviewed_task) = Some mail_call"
    using mail_invocation [of TPlanned "[]" "[]"] md(1) by (simp add: invocation_of_def mail_task_def)
  then have "tool_action (review_host b) (t_metadata unreviewed_task) = Some (mail_call, mail_action)"
    using mail_tool [of b TPlanned "[]" "[]"] by (simp add: tool_action_Some)
  then show "requires_effect_review (review_host b) unreviewed_task now = Inr True"
    using mail_effect md(2) by (simp add: requires_effect_review_def side_effect_authorized_def)
qed code_simp

subsection \<open>Admitting a mission\<close>

definition ready_mission :: mission where
  "ready_mission = graph_mission\<lparr>m_metadata := [(materialization_key, JObj
     [(''materialization_status'', JStr ''materialized''), (''created_execution_task_ids'', JArr [JStr uuid_a])])]\<rparr>"

definition ready_state :: "execution_task \<Rightarrow> local_queue runtime" where
  "ready_state x = change (map_db (\<lambda>d. d\<lparr>db_missions := [ready_mission]\<rparr>)) (review_state x DHeldReview)"

lemma ready_db: "w_db (fst (ready_state x)) = empty_db\<lparr>db_tasks := [x], db_missions := [ready_mission], db_dispatches := [review_dispatch DHeldReview]\<rparr>"
  by (simp add: ready_state_def map_db_def review_state_db)

lemma ready_locked: "lock_mission_for_tenant ''m'' ''acme'' (w_db (fst (ready_state x))) = Some ready_mission"
  by (simp add: ready_db lock_mission_for_tenant_def find_mission_def find_row_def ready_mission_def graph_mission_def)

lemma ready_ids: "current_materialized_task_ids (m_metadata ready_mission) = [uuid_a]" "\<not> intake_clarifies (m_metadata ready_mission)"
proof -
  have "uuid_of_json (JStr uuid_a) = Some uuid_a" using example_uuids(1) by (simp add: is_uuid_def)
  then show "current_materialized_task_ids (m_metadata ready_mission) = [uuid_a]"
    by (simp add: ready_mission_def current_materialized_task_ids_def materialization_key_def)
  show "\<not> intake_clarifies (m_metadata ready_mission)" by (simp add: ready_mission_def intake_clarifies_def materialization_key_def)
qed

lemma ready_mission_id: "m_id ready_mission = ''m''"
  by (simp add: ready_mission_def graph_mission_def)

lemma ready_sorted:
  "sort_tasks ''acme'' ready_mission (w_db (fst (ready_state (hiring_task TPlanned)))) = no_admission\<lparr>mq_planned := [uuid_a]\<rparr>"
  by (simp add: sort_tasks_def ready_ids ready_db intake_blockers_def sort_task_def list_for_mission_def no_admission_def)
    (simp add: ready_mission_def graph_mission_def)

lemma planned_held: "held_task (hiring_task TPlanned) = Inr held_hiring"
proof -
  have "transition_task (hiring_task TPlanned) TPendingReview = Inr (hiring_task TPendingReview)"
    by (simp add: transition_task_def ensure_task_transition_def ensure_allowed_def targets_def task_allowed_def hiring_task_def review_task_def example_task_def)
  then show ?thesis by (simp add: held_task_def publication_reviewed_def held_hiring_def)
qed


theorem readmission_forgets_admitted_witness:
  "\<exists>response s1 m1 receipt. admit_mission (review_host (Bound [] [])) ''acme'' ''m'' (ready_state (hiring_task TRunning)) = (Inr response, s1) \<and>
     find_mission ''m'' (w_db (fst s1)) = Some m1 \<and> map_of (m_metadata m1) receipt_key = Some (JObj receipt) \<and>
     map_of receipt ''admission_status'' = Some (JStr ''blocked'')"
proof -
  let ?K = "review_host (Bound [] [])" and ?s = "ready_state (hiring_task TRunning)"
  have started: "list_all (\<lambda>x. t_status x \<notin> {TPlanned, TQueued}) (list_for_mission ''m'' (w_db (fst ?s)))"
    by (simp add: ready_db list_for_mission_def)
  obtain bs where "sort_tasks ''acme'' ready_mission (w_db (fst ?s)) = no_admission\<lparr>mq_blockers := bs\<rparr>"
    using fold_started [OF started, of "''acme''" "''m''" "[uuid_a]" "no_admission\<lparr>mq_blockers := intake_blockers (m_metadata ready_mission)\<rparr>"]
      that by (auto simp: sort_tasks_def ready_ids ready_mission_id)
  then obtain response s1 where run: "admit_mission ?K ''acme'' ''m'' ?s = (Inr response, s1)"
    by (simp add: admit_mission_def ready_locked no_admission_def Let_def)
  from readmission_forgets_admitted [OF run ready_locked started] show ?thesis using run by blast
qed

end
