(* ===== verification/ToolRuns.thy ===== *)
theory ToolRuns
  imports ToolAuthority CoordinatorExamples
begin

section \<open>What runs a handler\<close>

text \<open>
  A handler runs only with every authority the code asks for, and what that means for an approval: the last two are stated of
  all handlers, so that a run which is the same with any two of them has called neither.
\<close>

lemma bound_task_Inr:
  assumes "bound_task B x d = Inr (y, trail)"
  shows "t_id y = t_id x" "t_tenant_id y = t_tenant_id x" "t_status y = t_status x" "t_mission_id y = t_mission_id x"
  using assms by (auto simp: bound_task_def split: binding.splits if_splits)

lemma noted_task:
  "note_governance H x m approved = Inr y \<Longrightarrow> t_tenant_id y = t_tenant_id x \<and> map_of (t_metadata y) ''credential_reference'' = map_of (t_metadata x) ''credential_reference''"
  "note_selection a c trail x = Inr y \<Longrightarrow> t_tenant_id y = t_tenant_id x \<and> map_of (t_metadata y) ''credential_reference'' = map_of (t_metadata x) ''credential_reference''"
  by (auto simp: note_governance_def note_selection_def bind_result_Inr set_fields_def Let_def)

lemma handler_call_Inr:
  assumes "handler_call H Q cx x w = (Inr (trail, y2, i, a, ax), w1)"
  shows "\<exists>y c y1. bound_task (th_binding H) x (w_durable w) = Inr (y, trail) \<and>
    authorize H Q (tc_tenant_id cx) y (rollback w) = (Inr (y1, i, a, c), rollback w) \<and>
    note_selection a c trail y1 = Inr y2 \<and> (\<exists>found. runtime_credential H y2 i a c = Inr found)"
proof -
  obtain y y1 c w0 found w2 where y: "bound_task (th_binding H) x (w_durable w) = Inr (y, trail)"
    and au: "authorize H Q (tc_tenant_id cx) y (rollback w) = (Inr (y1, i, a, c), w0)"
    and "note_selection a c trail y1 = Inr y2" and "runtime_credential H y2 i a c = Inr found"
    using assms by (auto simp: handler_call_def andthen_Inr)
  moreover have "w0 = rollback w" using authorize_Inr [OF au] by (auto simp: rollback_def)
  ultimately show ?thesis by blast
qed

subsection \<open>What the authorities are\<close>

text \<open>An action within the scope of a capability or an adapter: it is named there, and nothing there excludes it.\<close>

definition scope_covers :: "string list \<Rightarrow> string list \<Rightarrow> action_definition \<Rightarrow> bool" where
  "scope_covers types tools a \<longleftrightarrow>
     (\<exists>n \<in> set (names_of a). n \<in> set types \<or> n \<in> set tools) \<and>
     (''tool.invoke'' \<in> set types \<or> (\<exists>n \<in> set (names_of a). n \<in> set types)) \<and>
     (tools = [] \<or> ''*'' \<in> set tools \<or> (\<exists>n \<in> set (names_of a). n \<in> set tools))"

text \<open>The capability, the adapter and the credential that the metadata of a task name.\<close>

definition names_capability :: "binding_host \<Rightarrow> dict \<Rightarrow> capability \<Rightarrow> bool" where
  "names_capability B md p \<longleftrightarrow>
     (\<exists>r. map_of md ''capability_reference'' = Some (JObj r) \<and>
        (if get_truthy r ''capability_id'' then uuid_of_json (value_at r ''capability_id'') = Some (cp_id p)
         else cp_name p = py_text B (value_at r ''name'') \<and> cp_version p = py_text B (value_at r ''version'')))"

definition names_adapter :: "dict \<Rightarrow> adapter \<Rightarrow> bool" where
  "names_adapter md p \<longleftrightarrow>
     (\<exists>r. map_of md ''adapter_reference'' = Some (JObj r) \<and> uuid_of_json (value_at r ''adapter_id'') = Some (ap_id p))"

definition names_credential :: "dict \<Rightarrow> tool_invocation \<Rightarrow> credential_reference \<Rightarrow> bool" where
  "names_credential md i r \<longleftrightarrow>
     (case map_of md ''credential_reference'' of
        Some (JObj d) \<Rightarrow> validate_credential d = Some r
      | _ \<Rightarrow> ti_credential_reference i = Some r)"

definition capability_for :: "binding_host \<Rightarrow> dict \<Rightarrow> string \<Rightarrow> capability list \<Rightarrow> action_definition \<Rightarrow> bool" where
  "capability_for B md tenant rows a \<longleftrightarrow>
     (\<exists>p \<in> set rows. names_capability B md p \<and> visible_to tenant (cp_tenant_id p) \<and> cp_enabled p \<and>
        scope_covers (cp_supported_task_types p) (cp_required_tools p) a)"

definition adapter_for :: "dict \<Rightarrow> string \<Rightarrow> adapter list \<Rightarrow> action_definition \<Rightarrow> side_effect_class \<Rightarrow> bool" where
  "adapter_for md tenant rows a c \<longleftrightarrow>
     (\<exists>p \<in> set rows. names_adapter md p \<and> visible_to tenant (ap_tenant_id p) \<and> ap_enabled p \<and>
        adapter_authorizes (ap_side_effect_classification p) c \<and> scope_covers (ap_supported_task_types p) (ap_required_tools p) a)"

definition usable_credential ::
  "credential_host \<Rightarrow> dict \<Rightarrow> string \<Rightarrow> tool_invocation \<Rightarrow> credential_requirement \<Rightarrow> action_definition \<Rightarrow> side_effect_class \<Rightarrow> bool" where
  "usable_credential C md tenant i q a c \<longleftrightarrow>
     (\<exists>(r :: credential_reference) (d :: credential_record).
        names_credential md i r \<and> kh_records C tenant (cr_credential_id r) = Some d \<and>
        cr_provider r = cq_provider q \<and> accepts_credential_type q (cr_credential_type r) \<and>
        (cq_allowed_classes q = [] \<or> c \<in> set (cq_allowed_classes q)) \<and>
        (cr_provider r = ad_provider a \<or> kh_bridged C (ad_name a) (ad_provider a) (cr_provider r)) \<and>
        cd_enabled d \<and> \<not> cd_revoked d \<and> \<not> cd_deleted d \<and> cd_provider d = cr_provider r \<and>
        cd_credential_type d = cr_credential_type r \<and> (cd_allowed_actions d = [] \<or> ad_name a \<in> set (cd_allowed_actions d)) \<and>
        (cd_allowed_classes d = [] \<or> c \<in> set (cd_allowed_classes d) \<or> cr_provider r \<noteq> ad_provider a))"

lemma find_in: "find P xs = Some x \<Longrightarrow> x \<in> set xs \<and> P x"
  by (auto simp: find_Some_iff)

lemma dict_of_Some: "dict_of j = Some d \<longleftrightarrow> j = Some (JObj d)"
  by (cases j rule: dict_of.cases) auto

lemma named_capability_row:
  "capability_by_name_version name version tenant rows = Some p \<Longrightarrow>
     p \<in> set rows \<and> visible_to tenant (cp_tenant_id p) \<and> cp_name p = name \<and> cp_version p = version"
  by (auto simp: capability_by_name_version_def visible_to_def Let_def split: option.splits dest!: find_in)

lemma resolved_capability:
  assumes "resolve_capability B tenant rows (map_of md ''capability_reference'') = Inr (Some p)"
  shows "p \<in> set rows \<and> names_capability B md p \<and> visible_to tenant (cp_tenant_id p) \<and> cp_enabled p"
proof -
  obtain r where r: "map_of md ''capability_reference'' = Some (JObj r)" and p: "cp_enabled p"
    "if get_truthy r ''capability_id''
     then \<exists>k. uuid_of_json (value_at r ''capability_id'') = Some k \<and> capability_by_id k tenant rows = Some p
     else capability_by_name_version (py_text B (value_at r ''name'')) (py_text B (value_at r ''version'')) tenant rows = Some p"
    using assms by (auto simp: resolve_capability_def and_also_Inr deny_unless_def dict_of_Some split: if_splits option.splits)
  show ?thesis
  proof (cases "get_truthy r ''capability_id''")
    case True
    then show ?thesis using p r by (auto simp: names_capability_def capability_by_id_def dest!: find_in)
  next
    case False
    with p(2) have "capability_by_name_version (py_text B (value_at r ''name'')) (py_text B (value_at r ''version'')) tenant rows = Some p" by simp
    from named_capability_row [OF this] show ?thesis using p(1) r False by (simp add: names_capability_def)
  qed
qed

lemma resolved_adapter:
  assumes "resolve_adapter tenant rows (map_of md ''adapter_reference'') = Inr (Some p)"
  shows "p \<in> set rows \<and> names_adapter md p \<and> visible_to tenant (ap_tenant_id p) \<and> ap_enabled p"
  using assms
  by (auto simp: resolve_adapter_def and_also_Inr deny_unless_def adapter_by_id_def names_adapter_def dict_of_Some
      split: if_splits option.splits dest!: find_in)

lemma scope_validated: "validate_scope what types tools (names_of a) True = Inr u \<Longrightarrow> scope_covers types tools a"
  by (auto simp: validate_scope_def scope_covers_def and_also_Inr list_ex_iff Let_def)

lemma promotion_scope:
  assumes "validate_capability_action_authority B L caps ads tenant md a c k now = Inr ()" and "requires_promotion c"
  shows "(capability_for B md tenant caps a \<or> adapter_for md tenant ads a c) \<and> (external_class c \<longrightarrow> adapter_for md tenant ads a c)"
proof -
  have promotes: "requires_promotion c = True" using assms(2) by simp
  obtain cap adp where cap: "resolve_capability B tenant caps (map_of md ''capability_reference'') = Inr cap"
    and adp: "resolve_adapter tenant ads (map_of md ''adapter_reference'') = Inr adp"
    and scopes: "(case cap of None \<Rightarrow> Inr () | Some p \<Rightarrow>
          validate_scope ''capability'' (cp_supported_task_types p) (cp_required_tools p) (names_of a) True) = Inr ()"
      "(case adp of None \<Rightarrow> Inr () | Some p \<Rightarrow>
          validate_scope ''adapter'' (ap_supported_task_types p) (ap_required_tools p) (names_of a) True) = Inr ()"
    and promo: "validate_promotion L md a c cap adp tenant k now = Inr ()"
    using assms(1) [unfolded validate_capability_action_authority_def promotes if_True and_also_Inr] by auto
  note promoted = promo [unfolded validate_promotion_def and_also_Inr, simplified]
  have capability: "capability_for B md tenant caps a" if "cap = Some p" for p
    using resolved_capability [OF cap [unfolded that]] scope_validated [OF scopes(1) [unfolded that option.case]]
    by (auto simp: capability_for_def)
  have adapter: "adapter_for md tenant ads a c" if "adp = Some p" for p
    using resolved_adapter [OF adp [unfolded that]] scope_validated [OF scopes(2) [unfolded that option.case]] promoted that
    by (auto simp: adapter_for_def)
  show ?thesis using promoted capability adapter by (cases cap; cases adp) auto
qed

lemma requirement_met: "requirement_error (Some q) r c = None \<Longrightarrow> cr_provider r = cq_provider q \<and>
    accepts_credential_type q (cr_credential_type r) \<and> (cq_allowed_classes q = [] \<or> c \<in> set (cq_allowed_classes q))"
  by (auto simp: requirement_error_def split: if_splits)

lemma record_met: "record_error d r name c relax = None \<Longrightarrow> cd_enabled d \<and> \<not> cd_revoked d \<and> \<not> cd_deleted d \<and> cd_provider d = cr_provider r \<and>
    cd_credential_type d = cr_credential_type r \<and> (cd_allowed_actions d = [] \<or> name \<in> set (cd_allowed_actions d)) \<and>
    (relax \<or> cd_allowed_classes d = [] \<or> c \<in> set (cd_allowed_classes d))"
  by (auto simp: record_error_def split: if_splits)

lemma referenced_credential: "effective_reference (map_of md ''credential_reference'') i = Inr (Some r) \<Longrightarrow> names_credential md i r"
  by (auto simp: effective_reference_def names_credential_def dict_of_Some split: if_splits option.splits)

lemma resolved_credential:
  assumes "resolve_for_action C tenant i (map_of md ''credential_reference'') a c (Some q) = Inr found"
  shows "usable_credential C md tenant i q a c"
proof -
  obtain r where r: "effective_reference (map_of md ''credential_reference'') i = Inr (Some r)" "requirement_error (Some q) r c = None"
    and rest: "(let bridged = cr_provider r \<noteq> ad_provider a
                 in if bridged \<and> \<not> kh_bridged C (ad_name a) (ad_provider a) (cr_provider r)
                    then credential_denied ''provider does not match action provider''
                    else (case kh_records C tenant (cr_credential_id r) of
                            None \<Rightarrow> credential_denied ''is not visible for tenant''
                          | Some d \<Rightarrow>
                              (case record_error d r (ad_name a) c bridged of
                                 Some why \<Rightarrow> credential_denied why
                               | None \<Rightarrow> Inr (Some \<lparr>cm_reference = r, cm_secret = cd_secret d\<rparr>)))) = Inr found"
    using assms by (auto simp: resolve_for_action_def bind_result_Inr credential_denied_def split: if_splits option.splits)
  from rest obtain d where d: "kh_records C tenant (cr_credential_id r) = Some d"
    "record_error d r (ad_name a) c (cr_provider r \<noteq> ad_provider a) = None"
    "cr_provider r = ad_provider a \<or> kh_bridged C (ad_name a) (ad_provider a) (cr_provider r)"
    by (auto simp: credential_denied_def Let_def split: if_splits option.splits)
  then show ?thesis
    using requirement_met [OF r(2)] record_met [OF d(2)] referenced_credential [OF r(1)] unfolding usable_credential_def by blast
qed

lemma same_credential:
  "map_of md1 ''credential_reference'' = map_of md2 ''credential_reference'' \<Longrightarrow> usable_credential C md1 = usable_credential C md2"
  by (intro ext) (simp add: usable_credential_def names_credential_def)

lemma enriched_of: "read_invocation md = Inr i \<Longrightarrow> \<exists>j. invocation_of md = Some j \<and> i = enriched md j"
  by (auto simp: read_invocation_def invocation_of_def split: option.splits)

lemma enriched_action [simp]: "ti_action (enriched md j) = ti_action j"
  by (simp add: enriched_def split: option.split)


subsection \<open>An approval that the binding undoes\<close>

lemma finish_trail: "finish_binding act st b = Bound b1 trail \<Longrightarrow> \<not> get_truthy trail ''skipped''"
  by (auto simp: finish_binding_def get_truthy_def Let_def split: prod.splits if_splits)

lemma applied_trail: "apply_input_bindings B b x tasks = Bound b1 trail \<Longrightarrow> \<not> get_truthy trail ''skipped''"
  by (auto simp: apply_input_bindings_def Let_def split: if_splits sum.splits dest: finish_trail)

lemma validate_input:
  assumes "validate_invocation raw = Some i" and "map_of raw ''input'' = Some (JObj b)"
  shows "ti_input i = b" "stripped_field 160 raw ''action'' = Some (ti_action i)"
  using assms by (auto simp: validate_invocation_def dict_field_def split: if_splits option.splits)

lemma read_invocation_Inr:
  "read_invocation md = Inr k \<Longrightarrow> \<exists>j. invocation_of md = Some j \<and> ti_action k = ti_action j"
  by (auto simp: read_invocation_def invocation_of_def enriched_def split: option.splits if_splits)

lemma same_canonical_input:
  assumes "canonical_dict (invocation_dump i) = canonical_dict (invocation_dump j)" and "distinct (map fst (ti_input i))"
    and "map_of (ti_input i) k = Some (JArr vs)" and "map_of (ti_input j) k = Some (JArr us)"
  shows "length vs = length us"
proof -
  have "distinct (map fst (invocation_dump i))" by (simp add: invocation_dump_def)
  from canonical_lookup [OF assms(1) this, of "''input''"]
  have "canonical_dict (ti_input i) = canonical_dict (ti_input j)" by (simp add: invocation_dump_def canonical_dict_def)
  from canonical_lookup [OF this assms(2), of k] have "map canonical vs = map canonical us" using assms(3,4) by simp
  then show ?thesis by (rule map_eq_imp_length_eq)
qed

definition grant_for :: "ledger_host \<Rightarrow> dict \<Rightarrow> tool_invocation \<Rightarrow> bool" where
  "grant_for L md i \<longleftrightarrow>
     (\<exists>auth g. map_of (constraints_of md) ''side_effect_authorization'' = Some (JObj auth) \<and>
        equals_int (map_of auth ''schema_version'') 2 \<and> validate_grant_v2 auth = Some g \<and>
        gr_invocation_sha256 g = tool_invocation_sha256 L i)"

lemma grant_for_digest:
  "grant_for L md i \<Longrightarrow> invocation_of md = Some j \<Longrightarrow> side_effect_authorized L md name tenant k now \<Longrightarrow>
     lh_sha256 L (canonical_dict (invocation_dump j)) = lh_sha256 L (canonical_dict (invocation_dump i))"
  by (auto simp: grant_for_def side_effect_authorized_def tool_invocation_sha256_def split: option.splits)

text \<open>The invocation a bound task carries when an upstream task has produced prospects for it.\<close>

lemma bound_task_rebinds:
  assumes "bound_task B x d = Inr (y, trail)" and "map_of (t_metadata x) ''tool_invocation'' = Some (JObj raw)"
    and "map_of raw ''input'' = Some (JObj b)" and "t_mission_id x = Some mid"
    and "prospect_source B x (list_for_mission_for_tenant mid (t_tenant_id x) d) ps"
  obtains b2 t2 where "apply_input_bindings B b x (list_for_mission_for_tenant mid (t_tenant_id x) d) = Bound b2 t2"
    and "map_of (t_metadata y) ''tool_invocation'' = Some (JObj (AList.update ''input'' (JObj b2) raw))"
    and "constraints_of (t_metadata y) = constraints_of (t_metadata x)"
proof -
  have specs: "binding_specs_from_metadata B (t_metadata x) \<noteq> []" using assms(5) by (auto simp: prospect_source_def)
  obtain b2 t2 where ap: "apply_input_bindings B b x (list_for_mission_for_tenant mid (t_tenant_id x) d) = Bound b2 t2"
    and bind: "bind_tool_invocation_for_task B x d = Bound (AList.update ''input'' (JObj b2) raw) t2"
    using assms(1-4) specs by (auto simp: bound_task_def bind_tool_invocation_for_task_def split: binding.splits)
  have ne: "AList.update ''input'' (JObj b2) raw \<noteq> []" using assms(3) by (cases raw) auto
  then have "y = x\<lparr>t_metadata := set_fields (t_metadata x)
      [(''tool_invocation'', JObj (AList.update ''input'' (JObj b2) raw)), (''input_binding_audit'', JObj t2)]\<rparr>"
    using assms(1) bind applied_trail [OF ap] by (auto simp: bound_task_def)
  then show thesis using that [OF ap] by (simp add: set_fields_def constraints_of_def)
qed

text \<open>
  C38: an approval of prospects without identifiers can never be used. When a task is approved with its prospects bound, none of them
  has an identifier, domain, company or name, and the grant is for exactly this invocation, then running the task binds them once
  more and so doubles them; its invocation is no longer the approved one, and the run never reaches the handler of its action,
  as long as no other value has the digest that was approved.
\<close>

theorem approved_prospects_never_run:
  assumes "map_of (t_metadata x) ''tool_invocation'' = Some (JObj raw)" and "validate_invocation raw = Some i"
    and "map_of raw ''input'' = Some (JObj b)" and "distinct (map fst b)"
    and "map_of b ''prospects'' = Some (JArr (map JObj ps))" and "ps \<noteq> []" and "unidentified (th_binding H) ps"
    and "t_mission_id x = Some mid"
    and "prospect_source (th_binding H) x (list_for_mission_for_tenant mid (t_tenant_id x) (w_durable w)) ps"
    and "get_action (th_registry H) (ti_action i) = Inr a" and "ad_resolver a = None" and "has_side_effect (ad_side_effect_class a)"
    and "grant_for (th_ledger H) (t_metadata x) i"
    and "\<And>d. lh_sha256 (th_ledger H) d = lh_sha256 (th_ledger H) (canonical_dict (invocation_dump i)) \<Longrightarrow>
      d = canonical_dict (invocation_dump i)"
  shows "tool_execute (with_handler f H) Q cx x w = tool_execute (with_handler g H) Q cx x w"
proof (rule ccontr)
  assume "\<not> ?thesis"
  then obtain trail y2 k a' ax w1 where "handler_call H Q cx x w = (Inr (trail, y2, k, a', ax), w1)"
    by (rule execute_differs)
  then obtain y c y1 where y: "bound_task (th_binding H) x (w_durable w) = Inr (y, trail)"
    and au: "authorize H Q (tc_tenant_id cx) y (rollback w) = (Inr (y1, k, a', c), rollback w)"
    using handler_call_Inr by blast
  obtain m where req: "requested_action H (tc_tenant_id cx) y = Inr (k, a', m, c)"
    and prom: "check_promotion H y a' c (w_clock (rollback w)) = Inr ()"
    using authorize_Inr [OF au] by blast
  obtain b2 t2 where b2: "apply_input_bindings (th_binding H) b x (list_for_mission_for_tenant mid (t_tenant_id x) (w_durable w)) = Bound b2 t2"
    and raw2: "map_of (t_metadata y) ''tool_invocation'' = Some (JObj (AList.update ''input'' (JObj b2) raw))"
    and cs: "constraints_of (t_metadata y) = constraints_of (t_metadata x)"
    using bound_task_rebinds [OF y assms(1,3,8,9)] .
  have doubled: "map_of b2 ''prospects'' = Some (JArr (map JObj (ps @ ps)))"
    using bound_prospects [OF b2 assms(9)] assms(5) merge_unidentified [OF assms(7,7)] by simp
  obtain j where j: "invocation_of (t_metadata y) = Some j" "ti_action k = ti_action j"
    using req read_invocation_Inr [of "t_metadata y" k] by (auto simp: requested_Inr)
  then have val: "validate_invocation (AList.update ''input'' (JObj b2) raw) = Some j" using raw2 by (simp add: invocation_of_def)
  have input: "ti_input j = b2" using validate_input(1) [OF val] by simp
  have "stripped_field 160 (AList.update ''input'' (JObj b2) raw) ''action'' = stripped_field 160 raw ''action''"
    by (simp add: stripped_field_def bounded_text_def text_field_def)
  then have "ti_action j = ti_action i" using validate_input(2) [OF val] validate_input(2) [OF assms(2,3)] by simp
  then have a: "a' = a" "c = ad_side_effect_class a"
    using req j(2) assms(10,11) by (simp_all add: requested_Inr side_effect_for_def)
  have "grant_for (th_ledger H) (t_metadata y) i" using assms(13) cs by (simp add: grant_for_def)
  moreover have "side_effect_authorized (th_ledger H) (t_metadata y) (ad_name a) (Some (t_tenant_id y)) (Some (t_id y)) (w_clock (rollback w))"
    using promotion_needs(1) [OF prom [unfolded check_promotion_Inr]] a assms(12) by simp
  ultimately have "canonical_dict (invocation_dump j) = canonical_dict (invocation_dump i)"
    using grant_for_digest [OF _ j(1)] assms(14) by blast
  then have "length (map JObj ps) = length (map JObj (ps @ ps))"
    using same_canonical_input [of i j "''prospects''" "map JObj ps" "map JObj (ps @ ps)"] validate_input(1) [OF assms(2,3)] assms(4,5) doubled input
    by simp
  then show False using assms(6) by simp
qed


subsection \<open>A task that writes a record\<close>

definition plain_binding :: binding_host where
  "plain_binding = \<lparr>bh_text = (\<lambda>v. []), bh_dash = CHR ''-''\<rparr>"

definition write_action :: action_definition where
  "write_action = \<lparr>ad_name = ''record.write'', ad_side_effect_class = InternalWrite, ad_provider = ''local'', ad_required_tools = [],
     ad_required_permissions = [], ad_aliases = [], ad_resolver = None\<rparr>"

definition write_manifest :: ability_manifest where
  "write_manifest = \<lparr>am_ability_id = ''write'', am_display_name = ''Write'', am_action_name = ''record.write'', am_provider = ''local'',
     am_capability_name = ''write'', am_capability_version = ''1'', am_adapter_name = ''write'', am_adapter_version = ''1'',
     am_input_schema_ref = ''RecordWriteInput'', am_output_schema_ref = output_schema_ref, am_side_effect_class = InternalWrite,
     am_max_side_effect_class = None, am_resolver_classes = [], am_risk_level = MediumRisk, am_required_permissions = [],
     am_required_tools = [], am_approval_required = True, am_idempotency_required = False, am_idempotency_contract_ref = None,
     am_evidence_required = True, am_evidence_expectations = [''record''], am_readback_required = True,
     am_readback_deferred_reason = None, am_enabled_by_default = False\<rparr>"

definition write_charter :: dict where
  "write_charter = [(''operating_charter'', JObj [(''schema_version'', JInt 1), (''may_prepare'', JArr []),
     (''may_perform'', JArr [JStr ''record.write'']), (''never_do'', JArr [JStr ''gtm.email_send'']), (''approval_mode'', JStr ''none'')])]"

definition write_capability :: capability where
  "write_capability = \<lparr>cp_id = uuid_b, cp_tenant_id = None, cp_name = ''write'', cp_version = ''1'',
     cp_supported_task_types = [''tool.invoke''], cp_required_tools = [''record.write''], cp_risk_level = ''medium'', cp_enabled = True\<rparr>"

definition write_host :: "local_queue tool_host" where
  "write_host = \<lparr>th_runtime = plain_runtime\<lparr>rh_ledger := zero_hash\<rparr>,
     th_registry = \<lparr>ar_actions = [(''record.write'', write_action)], ar_frozen = True\<rparr>,
     th_manifests = [(''record.write'', write_manifest)], th_binding = plain_binding, th_int = (\<lambda>s. None),
     th_schema = (\<lambda>a. ''RecordWriteInput''), th_facts = (\<lambda>t. write_charter), th_capabilities = [write_capability], th_adapters = [],
     th_credentials = \<lparr>kh_sensitive = (\<lambda>v. False), kh_bridged = (\<lambda>a p q. False), kh_records = (\<lambda>t i. None)\<rparr>,
     th_requirement = (\<lambda>a. None), th_input_ok = (\<lambda>a d. True), th_handler = (\<lambda>a i x w. (Inl (ValueError ''down''), w))\<rparr>"

definition write_call :: tool_invocation where
  "write_call = \<lparr>ti_action = ''record.write'', ti_input = [], ti_provider = None, ti_idempotency_key = None, ti_credential_reference = None\<rparr>"

definition write_task :: execution_task where
  "write_task = review_task TRunning
     [(''tool_invocation'', JObj [(''action'', JStr ''record.write'')]),
      (''capability_reference'', JObj [(''name'', JStr ''write''), (''version'', JStr ''1'')]),
      (''execution_constraints'', JObj
         [(''side_effect_authorization'', JObj (effect_grant_payload zero_hash uuid_b ''acme'' uuid_a ''record.write'' write_call ''ann'' 0 500)),
          (''ability_authorization'', JObj (ability_grant_payload zero_hash uuid_b ''acme'' uuid_a write_manifest write_call ''ann'' 0 500))])]"

lemma write_policy: "make_manifest write_manifest \<noteq> None"
  by code_simp

lemma write_charter_loads:
  "load_operating_charter plain_binding (\<lambda>s. None) write_charter =
     Inr \<lparr>ct_may_prepare = [], ct_may_perform = [''record.write''], ct_never_do = [''gtm.email_send''], ct_approval_mode = ''none'',
       ct_escalation_email = None, ct_escalation_phone = None, ct_revision = 0\<rparr>"
  by code_simp

lemma write_requested: "requested_action write_host ''acme'' write_task = Inr (write_call, write_action, write_manifest, InternalWrite)"
proof -
  have "read_invocation (t_metadata write_task) = Inr write_call"
    by (simp add: read_invocation_def enriched_def credential_field_def write_task_def validate_invocation_def only_fields_def
        literal_field_def stripped_field_def bounded_text_def text_field_def within_length_def strip_def is_space_def optional_field_def
        dict_field_def write_call_def)
  moreover have "get_action (th_registry write_host) ''record.write'' = Inr write_action"
    by (simp add: get_action_def normalize_action_name_def strip_def is_space_def write_host_def)
  moreover have "aligned_manifest write_host write_action = Inr write_manifest"
    by (simp add: aligned_manifest_def alignment_error_def write_host_def write_action_def write_manifest_def)
  ultimately show ?thesis
    by (simp add: requested_Inr side_effect_for_def write_call_def write_action_def)
      (simp add: write_host_def write_task_def has_side_effect_def)
qed

lemma write_bound: "bound_task plain_binding write_task d = Inr (write_task, [(''bindings_applied'', JArr []), (''skipped'', JStr ''no_dependencies'')])"
proof -
  have "dependency_keys_for_task write_task = []" by (simp add: dependency_keys_for_task_def write_task_def)
  moreover have "binding_specs_from_metadata plain_binding (t_metadata write_task) = []"
    by (simp add: binding_specs_from_metadata_def action_name_of_def write_task_def)
  ultimately show ?thesis
    by (simp add: bound_task_def bind_tool_invocation_for_task_def get_truthy_def) (simp add: write_task_def get_truthy_def)
qed

lemma write_chartered: "charter_verdict write_host write_task write_action InternalWrite = Inr ()"
  using write_charter_loads
  by (simp add: charter_verdict_def write_host_def assert_action_allowed_def write_action_def has_side_effect_def list_allows_def)

lemma write_sel [simp]:
  "t_tenant_id write_task = ''acme''" "t_id write_task = uuid_a" "t_status write_task = TRunning" "t_mission_id write_task = Some ''m''"
  by (simp_all add: write_task_def)

lemma write_effect_grant:
  "\<exists>g. validate_grant_v2 (effect_grant_payload zero_hash uuid_b ''acme'' uuid_a ''record.write'' write_call ''ann'' 0 500) = Some g \<and>
     gr_tenant_id g = ''acme'' \<and> gr_task_id g = uuid_a \<and> gr_allowed_action g = ''record.write'' \<and>
     gr_invocation_sha256 g = tool_invocation_sha256 zero_hash write_call \<and> gr_revoked_at g = None \<and> gr_expires_at g = 500 \<and>
     gr_approved_by g = ''ann''"
proof -
  have "list_all is_hex (replicate 64 (CHR ''0''))" by (simp add: list_all_iff is_hex_def)
  then have sha: "sha256_text (tool_invocation_sha256 zero_hash write_call)"
    by (simp add: sha256_text_def tool_invocation_sha256_def zero_hash_def)
  show ?thesis
    using uuid_b_parses sha
    by (simp add: validate_grant_v2_def effect_grant_payload_def parse_grant_def only_fields_def grant_fields_def
        literal_field_def Ledger.uuid_field_def text_field_def bounded_text_def within_length_def stamp_field_def optional_field_def valid_lifetime_def)
qed

lemma write_read: "invocation_of (t_metadata write_task) = Some write_call"
  using write_requested by (auto simp: requested_Inr read_invocation_def invocation_of_def enriched_def credential_field_def write_task_def
      split: option.splits)

lemma write_effect_authorized:
  assumes "now < 500"
  shows "side_effect_authorized zero_hash (t_metadata write_task) ''record.write'' (Some ''acme'') (Some uuid_a) now"
proof -
  have "dict_of (map_of (constraints_of (t_metadata write_task)) ''side_effect_authorization'') =
      Some (effect_grant_payload zero_hash uuid_b ''acme'' uuid_a ''record.write'' write_call ''ann'' 0 500)"
    by (simp add: constraints_of_def write_task_def)
  moreover have "\<not> client_forged_approver ''ann''"
    by (simp add: client_forged_approver_def untrusted_approvers_def lower_text_def lower_char_def strip_def is_space_def Let_def)
  ultimately show ?thesis using assms write_effect_grant write_read by (auto simp: side_effect_authorized_def)
qed

lemma write_promoted:
  assumes "now < 500"
  shows "check_promotion write_host write_task write_action InternalWrite now = Inr ()"
proof -
  have "resolve_capability plain_binding ''acme'' [write_capability] (map_of (t_metadata write_task) ''capability_reference'') = Inr (Some write_capability)"
    by (simp add: resolve_capability_def write_task_def get_truthy_def value_at_def capability_by_name_version_def write_capability_def
        and_also_def deny_unless_def)
  moreover have "validate_scope ''capability'' [''tool.invoke''] [''record.write''] (names_of write_action) True = Inr ()"
    by (simp add: validate_scope_def names_of_def write_action_def and_also_def deny_unless_def)
  moreover have "side_effect_authorized zero_hash (t_metadata write_task) ''record.write'' (Some ''acme'') (Some uuid_a) now"
    by (rule write_effect_authorized [OF assms])
  moreover have "resolve_adapter ''acme'' [] (map_of (t_metadata write_task) ''adapter_reference'') = Inr None"
    by (simp add: resolve_adapter_def write_task_def)
  ultimately show ?thesis
    by (simp add: check_promotion_Inr validate_capability_action_authority_def and_also_def write_host_def th_ledger_def
        validate_promotion_def requires_promotion_def has_side_effect_def external_class_def write_capability_def)
      (simp add: write_action_def deny_unless_def)
qed

lemma write_grant:
  "\<exists>g. validate_ability_grant (ability_grant_payload zero_hash uuid_b ''acme'' uuid_a write_manifest write_call ''ann'' 0 500) = Some g \<and>
     gr_tenant_id g = ''acme'' \<and> gr_task_id g = uuid_a \<and> ag_ability_id g = ''write'' \<and>
     ag_manifest_fingerprint g = manifest_fingerprint zero_hash write_manifest \<and> gr_allowed_action g = ''record.write'' \<and>
     gr_invocation_sha256 g = tool_invocation_sha256 zero_hash write_call \<and> gr_revoked_at g = None \<and> gr_expires_at g = 500"
proof -
  have sha: "within_length 8 80 (tool_invocation_sha256 zero_hash write_call)" "within_length 8 80 (manifest_fingerprint zero_hash write_manifest)"
    by (simp_all add: within_length_def tool_invocation_sha256_def manifest_fingerprint_def zero_hash_def)
  have m: "am_ability_id write_manifest = ''write''" "am_action_name write_manifest = ''record.write''" by (simp_all add: write_manifest_def)
  show ?thesis
    using uuid_b_parses sha
    by (simp add: validate_ability_grant_def ability_grant_payload_def m parse_grant_def only_fields_def grant_fields_def literal_field_def
        Ledger.uuid_field_def text_field_def bounded_text_def stamp_field_def optional_field_def valid_lifetime_def grant.defs ability_grant.defs)
      (simp add: within_length_def)
qed

lemma write_ability: "ability_authorized zero_hash (t_metadata write_task) write_manifest ''acme'' uuid_a 100"
proof -
  have inv: "invocation_of (t_metadata write_task) = Some write_call"
    using write_requested by (auto simp: requested_Inr read_invocation_def invocation_of_def enriched_def credential_field_def write_task_def
        split: option.splits)
  have "dict_of (map_of (constraints_of (t_metadata write_task)) ''ability_authorization'') =
      Some (ability_grant_payload zero_hash uuid_b ''acme'' uuid_a write_manifest write_call ''ann'' 0 500)"
    by (simp add: constraints_of_def write_task_def)
  then show ?thesis
    using write_grant inv by (auto simp: ability_authorized_def write_manifest_def)
qed


definition write_world :: "local_queue world" where
  "write_world = fst (review_state write_task DPublished)"

lemma valid_observations:
  "valid_observation (governance_observation write_manifest (Some True) d)"
  "valid_observation (binding_observation write_action trail)" "valid_observation (provider_observation write_action c)"
  by (simp_all add: valid_observation_def governance_observation_def binding_observation_def provider_observation_def
      plain_observation_def within_length_def write_manifest_def write_action_def Let_def)

lemma write_authorized:
  assumes "w_clock w = 100"
  shows "\<exists>md. authorize write_host Q ''acme'' write_task (rollback w) =
     (Inr (write_task\<lparr>t_metadata := md\<rparr>, write_call, write_action, InternalWrite), rollback w) \<and>
     map_of md ''credential_reference'' = None"
proof -
  have clock: "w_clock (rollback w) = 100" "rollback (rollback w) = rollback w"
    using assms by (simp_all add: rollback_def)
  have "approval_revalidated write_host write_task write_manifest 100 = Some True"
    using write_ability by (simp add: approval_revalidated_def write_host_def th_ledger_def) (simp add: write_manifest_def)
  then obtain md where "check_ability write_host Q write_task write_manifest (rollback w) =
      (Inr (write_task\<lparr>t_metadata := md\<rparr>), rollback w)" "map_of md ''credential_reference'' = None"
    using that valid_observations(1)
    by (simp add: check_ability_def clock note_governance_def observation_json_def make_observation_def set_fields_def Let_def)
      (simp add: write_task_def)
  then show ?thesis
    using write_chartered write_promoted [of 100]
    by (intro exI [of _ md]) (simp add: authorize_def clock write_requested check_charter_def)
qed

lemma write_called:
  assumes "w_clock w = 100"
  shows "\<exists>trail y ax. handler_call write_host Q \<lparr>tc_tenant_id = ''acme'', tc_worker_id = ''w'', tc_lease_id = ''l''\<rparr> write_task w =
     (Inr (trail, y, write_call, write_action, ax), rollback w)"
proof -
  obtain md where au: "authorize write_host Q ''acme'' write_task (rollback w) =
     (Inr (write_task\<lparr>t_metadata := md\<rparr>, write_call, write_action, InternalWrite), rollback w)"
     and md: "map_of md ''credential_reference'' = None"
    using write_authorized [OF assms] by blast
  let ?trail = "[(''bindings_applied'', JArr []), (''skipped'', JStr ''no_dependencies'')]"
  obtain y where y: "note_selection write_action InternalWrite ?trail (write_task\<lparr>t_metadata := md\<rparr>) = Inr y" "t_tenant_id y = ''acme''"
      "map_of (t_metadata y) ''credential_reference'' = None"
    using valid_observations(2,3) md by (simp add: note_selection_def observation_json_def make_observation_def)
  then have "runtime_credential write_host y write_call write_action InternalWrite = Inr None"
    by (simp add: runtime_credential_def resolve_for_action_def effective_reference_def write_host_def write_call_def)
  moreover have "th_binding write_host = plain_binding" by (simp add: write_host_def)
  ultimately show ?thesis
    using au y by (simp add: handler_call_def write_bound action_context_of_def)
qed


subsection \<open>An approved task with an unidentified prospect\<close>

definition ann :: dict where
  "ann = [(''email'', JStr ''ann@firm.io'')]"

definition crm_action :: action_definition where
  "crm_action = write_action\<lparr>ad_name := ''crm.mutate'', ad_side_effect_class := ExternalWrite\<rparr>"

definition crm_input :: dict where
  "crm_input = [(''prospects'', JArr [JObj ann])]"

definition crm_call :: tool_invocation where
  "crm_call = \<lparr>ti_action = ''crm.mutate'', ti_input = crm_input, ti_provider = None, ti_idempotency_key = None, ti_credential_reference = None\<rparr>"

definition crm_hash :: ledger_host where
  "crm_hash = zero_hash\<lparr>lh_sha256 := (\<lambda>v. if v = canonical_dict (invocation_dump crm_call) then replicate 64 (CHR ''1'') else replicate 64 (CHR ''0''))\<rparr>"

definition crm_raw :: dict where
  "crm_raw = [(''action'', JStr ''crm.mutate''), (''input'', JObj crm_input)]"

definition crm_task :: execution_task where
  "crm_task = review_task TRunning
     [(''dependency_keys'', JArr [JStr ''scout'']),
      (''input_bindings'', JArr [JObj (binding_spec ''scout'' ''$.prospect_candidates'' ''$.input.prospects'')]),
      (''tool_invocation'', JObj crm_raw),
      (''execution_constraints'', JObj [(''side_effect_authorization'',
         JObj (effect_grant_payload crm_hash uuid_b ''acme'' uuid_a ''crm.mutate'' crm_call ''ann'' 100 500))])]"

definition scouted_task :: execution_task where
  "scouted_task = scout_task\<lparr>t_mission_id := Some ''m'', t_tenant_id := ''acme''\<rparr>"

definition crm_world :: "local_queue world" where
  "crm_world = fst (review_state scouted_task DPublished)"

definition crm_host :: "local_queue tool_host" where
  "crm_host = write_host\<lparr>th_runtime := plain_runtime\<lparr>rh_ledger := crm_hash\<rparr>,
     th_registry := \<lparr>ar_actions = [(''crm.mutate'', crm_action)], ar_frozen = True\<rparr>\<rparr>"

lemma crm_host_sel [simp]: "th_ledger crm_host = crm_hash" "th_binding crm_host = plain_binding"
  by (simp_all add: crm_host_def th_ledger_def write_host_def)

lemma crm_grant: "grant_for crm_hash (t_metadata crm_task) crm_call"
proof -
  let ?g = "effect_grant_payload crm_hash uuid_b ''acme'' uuid_a ''crm.mutate'' crm_call ''ann'' 100 500"
  have "list_all is_hex (replicate 64 (CHR ''1''))" by (simp add: list_all_iff is_hex_def)
  then have sha: "sha256_text (tool_invocation_sha256 crm_hash crm_call)"
    by (simp add: sha256_text_def tool_invocation_sha256_def crm_hash_def)
  have "\<exists>g. validate_grant_v2 ?g = Some g \<and> gr_invocation_sha256 g = tool_invocation_sha256 crm_hash crm_call"
    using uuid_b_parses sha
    by (simp add: validate_grant_v2_def effect_grant_payload_def parse_grant_def only_fields_def grant_fields_def
        literal_field_def Ledger.uuid_field_def text_field_def bounded_text_def within_length_def stamp_field_def optional_field_def valid_lifetime_def)
  moreover have "map_of (constraints_of (t_metadata crm_task)) ''side_effect_authorization'' = Some (JObj ?g)"
    by (simp add: constraints_of_def crm_task_def)
  moreover have "equals_int (map_of ?g ''schema_version'') 2" by (simp add: effect_grant_payload_def)
  ultimately show ?thesis by (auto simp: grant_for_def)
qed

lemma crm_source: "prospect_source plain_binding crm_task (list_for_mission_for_tenant ''m'' ''acme'' (w_durable crm_world)) [ann]"
proof -
  have tasks: "list_for_mission_for_tenant ''m'' ''acme'' (w_durable crm_world) = [scouted_task]"
    by (simp add: crm_world_def review_state_db list_for_mission_for_tenant_def list_for_mission_def scouted_task_def)
  have "graph_node_key_for_task scouted_task = Some ''scout''"
    by (simp add: graph_node_key_for_task_def stripped_text_def scouted_task_def scout_task_def strip_def is_space_def)
  then have index: "index_mission_tasks_by_node_key [scouted_task] = [(''scout'', scouted_task)]"
    by (simp add: index_mission_tasks_by_node_key_def)
  have "binding_value (handler_output_for_task scout_task) ''$.prospect_candidates'' = JArr [JObj ann]"
    using outreach_source [of plain_binding]
    by (auto simp: prospect_source_def outreach_specs scout_indexed path_stripped binding_spec_def ann_def)
  moreover have "handler_output_for_task scouted_task = handler_output_for_task scout_task"
    by (simp add: handler_output_for_task_def scouted_task_def)
  moreover have "binding_specs_from_metadata plain_binding (t_metadata crm_task) =
      [binding_spec ''scout'' ''$.prospect_candidates'' ''$.input.prospects'']"
    by (simp add: binding_specs_from_metadata_def crm_task_def List.map_filter_simps)
  ultimately show ?thesis
    unfolding prospect_source_def tasks
    by (intro exI [of _ "''scout''"] exI [of _ "''$.prospect_candidates''"] exI [of _ scouted_task]) (simp add: path_stripped index)
qed

theorem approved_prospects_never_run_witness:
  "tool_execute (with_handler (\<lambda>a i x w. (Inl (ValueError ''down''), w)) crm_host) local_adapter
     \<lparr>tc_tenant_id = ''acme'', tc_worker_id = ''w'', tc_lease_id = ''l''\<rparr> crm_task crm_world =
   tool_execute (with_handler (\<lambda>a i x w. (Inl (ValueError ''busy''), w)) crm_host) local_adapter
     \<lparr>tc_tenant_id = ''acme'', tc_worker_id = ''w'', tc_lease_id = ''l''\<rparr> crm_task crm_world"
proof (rule approved_prospects_never_run [where i = crm_call and ps = "[ann]" and mid = "''m''" and a = crm_action])
  show "map_of (t_metadata crm_task) ''tool_invocation'' = Some (JObj crm_raw)" by (simp add: crm_task_def)
  show "validate_invocation crm_raw = Some crm_call"
    by (simp add: crm_raw_def validate_invocation_def only_fields_def literal_field_def stripped_field_def bounded_text_def text_field_def
        within_length_def strip_def is_space_def optional_field_def dict_field_def crm_call_def)
  show "map_of crm_raw ''input'' = Some (JObj crm_input)" by (simp add: crm_raw_def)
  show "distinct (map fst crm_input)" "map_of crm_input ''prospects'' = Some (JArr (map JObj [ann]))" by (simp_all add: crm_input_def)
  show "unidentified (th_binding crm_host) [ann]"
    by (simp add: unidentified_def prospect_merge_key_def value_at_def strip_def lower_text_def ann_def)
  show "t_mission_id crm_task = Some ''m''" by (simp add: crm_task_def)
  show "prospect_source (th_binding crm_host) crm_task (list_for_mission_for_tenant ''m'' (t_tenant_id crm_task) (w_durable crm_world)) [ann]"
    using crm_source by (simp add: crm_task_def)
  show "get_action (th_registry crm_host) (ti_action crm_call) = Inr crm_action"
    by (simp add: get_action_def normalize_action_name_def strip_def is_space_def crm_host_def crm_call_def)
  show "ad_resolver crm_action = None" "has_side_effect (ad_side_effect_class crm_action)"
    by (simp_all add: crm_action_def write_action_def has_side_effect_def)
  show "grant_for (th_ledger crm_host) (t_metadata crm_task) crm_call" using crm_grant by simp
next
  fix d
  assume "lh_sha256 (th_ledger crm_host) d = lh_sha256 (th_ledger crm_host) (canonical_dict (invocation_dump crm_call))"
  then show "d = canonical_dict (invocation_dump crm_call)" by (simp add: crm_hash_def split: if_splits)
qed simp

end
