(* ===== verification/DispatcherRuns.thy ===== *)
theory DispatcherRuns
  imports TaskDispatcher ToolRuns
begin

section \<open>What becomes of a task whose handler has returned\<close>

text \<open>
  The rows after the dispatcher has finished a task: nothing with a side effect is handed out again, and what that costs the mission.
  \<open>stands\<close> is what no part of a completion disturbs before its commit: the committed rows, and a task that runs or has ended.
\<close>

subsection \<open>What leaves a task where it stands\<close>

definition stands :: "uuid \<Rightarrow> task_state set \<Rightarrow> db \<Rightarrow> 'q world \<Rightarrow> bool" where
  "stands k S d w \<longleftrightarrow> S \<subseteq> {TRunning, TCompleted} \<and> w_durable w = d \<and> (\<exists>x. find_task k (w_db w) = Some x \<and> t_status x \<in> S)"

named_theorems standing \<open>operations that leave the task where it stands\<close>

lemma stands_map_db: "stands k S d w \<Longrightarrow> find_task k (f (w_db w)) = find_task k (w_db w) \<Longrightarrow> stands k S d (map_db f w)"
  by (simp add: stands_def map_db_def)

lemma stands_ids [standing]: "stands k S d w \<Longrightarrow> stands k S d (w\<lparr>w_next_id := n\<rparr>)"
  by (simp add: stands_def)

lemma stands_audit [standing]: "stands k S d w \<Longrightarrow> stands k S d (audit t m c a wk ds p w)"
  by (simp add: stands_def find_task_def)

lemma stands_fact [standing]: "stands k S d w \<Longrightarrow> stands k S d (record_fact K a w)"
  by (simp add: stands_def find_task_def)

lemma stands_observe [standing]: "stands k S d w \<Longrightarrow> stands k S d (observe K t p x lid wk refs c w)"
  unfolding observe_def by (rule stands_fact)

lemma stands_observe_all [standing]: "stands k S d w \<Longrightarrow> stands k S d (fold (observe K t p x lid wk refs) cs w)"
  by (induction cs arbitrary: w) (simp_all add: stands_observe)

lemma stands_save_mission [standing]: "stands k S d w \<Longrightarrow> stands k S d (map_db (save_mission m) w)"
  by (rule stands_map_db) simp_all

lemma stands_save_lease [standing]: "stands k S d w \<Longrightarrow> stands k S d (map_db (save_lease l) w)"
  by (rule stands_map_db) simp_all

lemma stands_save_task [standing]:
  "stands k S d w \<Longrightarrow> (t_id y = k \<Longrightarrow> t_status y \<in> S) \<Longrightarrow> stands k S d (map_db (save_task y) w)"
  by (auto simp: stands_def map_db_def)

lemma stands_columns [standing]:
  "stands k S d w \<Longrightarrow> stands k S d (map_db (\<lambda>d. d\<lparr>db_evidence := f d\<rparr>) w)"
  "stands k S d w \<Longrightarrow> stands k S d (map_db (\<lambda>d. d\<lparr>db_lineage := f d\<rparr>) w)"
  "stands k S d w \<Longrightarrow> stands k S d (map_db (\<lambda>d. d\<lparr>db_reviews := f d\<rparr>) w)"
  by (rule stands_map_db; simp add: find_task_def)+

lemma stands_snd [standing]: "stands k S d w \<Longrightarrow> stands k S d (snd (r, w))"
  by simp

lemma stands_if [standing]:
  "stands k S d (snd a) \<Longrightarrow> stands k S d (snd b) \<Longrightarrow> stands k S d (snd (if c then a else b))"
  "stands k S d w \<Longrightarrow> stands k S d w1 \<Longrightarrow> stands k S d (if c then w else w1)"
  by simp_all

lemma stands_sum [standing]:
  "(\<And>e. stands k S d (snd (f e))) \<Longrightarrow> (\<And>x. stands k S d (snd (g x))) \<Longrightarrow> stands k S d (snd (case r of Inl e \<Rightarrow> f e | Inr x \<Rightarrow> g x))"
  by (simp split: sum.split)

lemma stands_andthen:
  "stands k S d (snd r) \<Longrightarrow> (\<And>x w. stands k S d w \<Longrightarrow> stands k S d (snd (f x w))) \<Longrightarrow> stands k S d (snd (andthen r f))"
  by (cases r; cases "fst r") auto

lemma stands_mission: "stands k S d w \<Longrightarrow> get_mission_for_tenant i t w = (m, w1) \<Longrightarrow> stands k S d w1"
  by (auto dest!: review_hold_mission simp: stands_def find_task_def)

lemma stands_refresh [standing]: "stands k S d w \<Longrightarrow> stands k S d (refresh_deliverable K x w)"
  by (auto simp: refresh_deliverable_def stands_mission intro!: stands_save_mission split: option.split prod.split)

subsubsection \<open>The rollup\<close>

lemma stands_retry: "stands k S d w \<Longrightarrow> retry_dispatch x w = (r, w1) \<Longrightarrow> stands k S d w1"
  by (auto dest!: retry_frame simp: stands_def find_task_def)

lemma stands_other:
  "stands k S d w \<Longrightarrow> find_task j (w_db w) = Some x \<Longrightarrow> t_status x \<notin> {TRunning, TCompleted} \<Longrightarrow> t_id x \<noteq> k"
  using find_row_key [of t_id j "db_tasks (w_db w)" x] by (auto simp: stands_def find_task_def)

lemma stands_retried:
  assumes "stands k S d w" and "find_task j (w_db w) = Some x" and "t_status x \<notin> {TRunning, TCompleted}" and "t_id y = t_id x"
    and "retry_dispatch y (map_db (save_task y) w) = (r, w1)"
  shows "stands k S d w1"
  using stands_retry [OF stands_save_task assms(5)] assms(1,4) stands_other [OF assms(1-3)] by simp

lemma stands_recover: "stands k S d w \<Longrightarrow> recover_dependents ks i wk w = (r, w1) \<Longrightarrow> stands k S d w1"
proof (induction ks arbitrary: w)
  case (Cons j ks)
  show ?case
  proof (cases "find_task j (w_db w)")
    case None
    then show ?thesis using Cons by simp
  next
    case (Some dep)
    show ?thesis
    proof (cases "recoverable (list_for_mission i (w_db w)) dep")
      case False
      then show ?thesis using Cons Some by simp
    next
      case True
      show ?thesis
      proof (cases "transition_task dep TQueued")
        case (Inl e)
        then show ?thesis using Cons.prems Some True by simp
      next
        case (Inr dep1)
        let ?dep2 = "dep1\<lparr>t_metadata := recovered_metadata (w_clock w) (t_metadata dep)\<rparr>"
        obtain r2 w2 where retry: "retry_dispatch ?dep2 (map_db (save_task ?dep2) w) = (r2, w2)" by fastforce
        have "t_status dep \<notin> {TRunning, TCompleted}" "t_id ?dep2 = t_id dep"
          using True Inr by (simp_all add: recoverable_def transition_task_Inr)
        note s2 = stands_retried [OF Cons.prems(1) Some this retry]
        show ?thesis
          using Cons.prems(2) Some True Inr retry s2 Cons.IH [OF stands_audit [OF s2]] by (cases r2) (simp_all add: Let_def)
      qed
    qed
  qed
qed simp

lemma stands_redispatch: "stands k S d w \<Longrightarrow> redispatch_dependents ks i wk w = (r, w1) \<Longrightarrow> stands k S d w1"
proof (induction ks arbitrary: w)
  case (Cons j ks)
  show ?case
  proof (cases "find_task j (w_db w)")
    case None
    then show ?thesis using Cons by simp
  next
    case (Some dep)
    show ?thesis
    proof (cases "redispatchable (list_for_mission i (w_db w)) dep")
      case False
      then show ?thesis using Cons Some by simp
    next
      case True
      let ?dep1 = "dep\<lparr>t_metadata := AList.update ''dependency_redispatched_at'' (JStamp (w_clock w))
        (AList.delete ''dependency_deferral'' (t_metadata dep))\<rparr>"
      obtain r2 w2 where retry: "retry_dispatch ?dep1 (map_db (save_task ?dep1) w) = (r2, w2)" by fastforce
      have "t_status dep \<notin> {TRunning, TCompleted}" using True by (simp add: redispatchable_def)
      note s2 = stands_retried [OF Cons.prems(1) Some this _ retry, simplified]
      show ?thesis
        using Cons.prems(2) Some True retry s2 Cons.IH [OF stands_audit [OF s2]] by (cases r2) (simp_all add: Let_def)
    qed
  qed
qed simp

lemma find_row_map: "(\<And>x. key (g x) = key x) \<Longrightarrow> find_row key k (map g rows) = map_option g (find_row key k rows)"
  by (induction rows) (simp_all add: find_row_def)

lemma stands_block [standing]:
  assumes "stands k S d w"
  shows "stands k S d (map_db (block_dependents i) w)"
proof -
  obtain x where x: "find_task k (w_db w) = Some x" "t_status x \<in> S" "S \<subseteq> {TRunning, TCompleted}"
    using assms by (auto simp: stands_def)
  let ?g = "\<lambda>x. if t_mission_id x = Some i then block_dependent (failed_node_keys (list_for_mission i (w_db w))) x else x"
  have "?g x = x" using x(2,3) by (auto simp: block_dependent_def blocks_def)
  moreover have "find_task k (block_dependents i (w_db w)) = map_option ?g (find_task k (w_db w))"
    by (simp add: block_dependents_def find_task_def Let_def) (rule find_row_map, simp add: block_dependent_def)
  ultimately show ?thesis using x(1) by (intro stands_map_db [OF assms]) simp
qed

lemma stands_roll [standing]: "stands k S d w \<Longrightarrow> stands k S d (snd (roll_mission K task wk m w))"
  unfolding roll_mission_def Let_def by (intro standing)

lemma stands_rollup: "stands k S d w \<Longrightarrow> rollup_mission n K task wk w = (r, w1) \<Longrightarrow> stands k S d w1"
proof (induction n arbitrary: w)
  case (Suc n)
  show ?case
  proof (cases "t_mission_id task")
    case None
    then show ?thesis using Suc.prems by simp
  next
    case (Some i)
    obtain om w2 where get: "get_mission_for_tenant i (t_tenant_id task) w = (om, w2)" by fastforce
    note s2 = stands_mission [OF Suc.prems(1) get]
    obtain r3 w3 where rec: "recover_dependents (map t_id (list_for_mission i (w_db w2))) i wk w2 = (r3, w3)" by fastforce
    note s3 = stands_recover [OF s2 rec]
    obtain r4 w4 where red: "redispatch_dependents (map t_id (list_for_mission i (w_db w2))) i wk w3 = (r4, w4)" by fastforce
    note s4 = stands_redispatch [OF s3 red]
    have "stands k S d w1" if "rollup_mission n K task wk (map_db (block_dependents i) w4) = (r, w1)"
      using Suc.IH [OF stands_block [OF s4] that] .
    moreover have "stands k S d w1" if "roll_mission K task wk m w4 = (r, w1)" for m
      using stands_roll [OF s4, of K task wk m] that by simp
    ultimately show ?thesis
      using Suc.prems(2) Some get rec red s2 s3 s4 by (auto simp: Let_def split: option.splits if_splits sum.splits)
  qed
qed simp

lemma stands_rollup_snd [standing]: "stands k S d w \<Longrightarrow> stands k S d (snd (rollup_mission n K task wk w))"
  by (rule stands_rollup [OF _ surjective_pairing])

subsubsection \<open>The output\<close>

lemma stands_evidence [standing]: "stands k S d w \<Longrightarrow> stands k S d (snd (add_evidence t c w))"
  by (simp add: add_evidence_def Let_def standing split: option.split)

lemma stands_evidence_rows [standing]: "stands k S d w \<Longrightarrow> stands k S d (snd (add_evidence_rows t cs w))"
proof (induction cs arbitrary: w)
  case (Cons c cs)
  show ?case
    unfolding add_evidence_rows.simps
    by (rule stands_andthen, rule stands_evidence [OF Cons.prems], rule stands_andthen, erule Cons.IH, simp)
qed simp

lemma stands_link [standing]: "stands k S d w \<Longrightarrow> stands k S d (snd (link_artifacts t rs w))"
  by (induction rs arbitrary: w) (simp_all add: Let_def standing split: option.split)

lemma stands_lineage: "stands k S d w \<Longrightarrow> add_lineage t c w = (i, w1) \<Longrightarrow> stands k S d w1"
  by (auto simp: add_lineage_def Let_def standing)

lemma stands_review [standing]: "stands k S d w \<Longrightarrow> stands k S d (create_draft_outcome_review x given ids w)"
  by (simp add: create_draft_outcome_review_def standing split: option.split)

lemma stands_completion_audit [standing]: "stands k S d w \<Longrightarrow> stands k S d (completion_audit K t wk x l given ids w)"
  unfolding completion_audit_def by (intro standing)

lemma stands_update_lease [standing]: "stands k S d w \<Longrightarrow> stands k S d (snd (update_lease r w))"
  by (cases r) (simp_all add: update_lease_def stands_save_lease)

lemma stands_record_output [standing]:
  assumes "stands k S d w" and "t_status x \<in> S"
  shows "stands k S d (snd (record_output K x l why given w))"
proof -
  let ?x1 = "x\<lparr>t_metadata := set_fields (t_metadata x) (mirror_task_output given)\<rparr>"
  obtain i w1 where lin: "add_lineage (t_tenant_id x) (lineage_columns x (l_id l) why given) (map_db (save_task ?x1) w) = (i, w1)"
    by fastforce
  have s1: "stands k S d w1" using stands_lineage [OF stands_save_task lin] assms by simp
  show ?thesis
    unfolding record_output_def Let_def
    using assms(2) by (simp only: lin prod.case) (intro stands_andthen standing s1; simp)
qed


subsection \<open>The completion\<close>

text \<open>What follows the transition of the task in the transaction that completes it.\<close>

lemma completed_task:
  assumes "update_task (bind_result (transition_task x TCompleted) (\<lambda>y. Inr (y\<lparr>t_metadata := md y\<rparr>))) w = (Inr x1, w1)"
    and "stands k {TRunning} d w" and "t_id x = k"
  shows "stands k {TCompleted} d w1" "t_id x1 = k" "t_status x1 = TCompleted"
  using assms by (auto simp: update_task_def bind_result_Inr transition_task_Inr stands_def map_db_def split: sum.splits)

lemma completed_rows:
  assumes "complete_rows n K t wk l x given why w = (r, w1)" and "stands k {TRunning} d w" and "t_id x = k"
  shows "w_durable w1 = d" "\<And>p. r = Inr p \<Longrightarrow> stands k {TCompleted} d w1"
proof -
  let ?w0 = "observe K t ''worker_runtime'' x (l_id l) wk [] (validation_observation x) w"
  let ?up = "update_task (bind_result (transition_task x TCompleted)
      (\<lambda>x. Inr (x\<lparr>t_metadata := AList.delete ''failure'' (t_metadata x)\<rparr>))) ?w0"
  have s0: "stands k {TRunning} d ?w0" by (rule stands_observe [OF assms(2)])
  have "w_durable w1 = d \<and> (\<forall>p. r = Inr p \<longrightarrow> stands k {TCompleted} d w1)"
  proof (cases "validate_declared_output K x given")
    case (Inl e)
    then show ?thesis using assms(1,2) by (auto simp: complete_rows_def stands_def)
  next
    case (Inr u)
    show ?thesis
    proof (cases "fst ?up")
      case (Inl e)
      then have "snd ?up = ?w0" by (auto simp: update_task_def split: sum.splits)
      then have "?up = (Inl e, ?w0)" using Inl by (simp add: prod_eq_iff)
      then show ?thesis using assms(1) s0 Inr by (auto simp: complete_rows_def stands_def)
    next
      case up: (Inr x1)
      then obtain w2 where w2: "?up = (Inr x1, w2)" by (cases ?up) simp
      note x1 = completed_task [OF this s0 assms(3)]
      have given: "stands k {TCompleted} d w2 \<Longrightarrow>
          stands k {TCompleted} d (snd (case given of None \<Rightarrow> (Inr (x1, []), w2) | Some g \<Rightarrow> record_output K x1 l1 why g w2))" for l1 and w2 :: "'a world"
        using x1(3) by (cases given) (simp_all add: stands_record_output)
      have "stands k {TCompleted} d (snd (complete_rows n K t wk l x given why w))"
        unfolding complete_rows_def Let_def case_prod_beta Inr w2 andthen_simps
        by (intro stands_andthen given standing x1(1))
      then show ?thesis using assms(1) by (simp add: stands_def)
    qed
  qed
  then show "w_durable w1 = d" "\<And>p. r = Inr p \<Longrightarrow> stands k {TCompleted} d w1" by simp_all
qed

lemma leased_task:
  assumes "get_task_for_lease l d = Inr x"
  shows "find_task (t_id x) d = Some x"
  using assms find_row_key [of t_id] by (fastforce simp: get_task_for_lease_def find_task_def split: option.splits)

lemma settled:
  "committed w (commit Q w)"
  "db_tasks (w_durable (record_terminal_queue_cleanup_failure Q t x l wk op a why w)) = db_tasks (w_db w)"
  "db_missions (w_durable (record_terminal_queue_cleanup_failure Q t x l wk op a why w)) = db_missions (w_db w)"
proof -
  show "committed w (commit Q w)" by (rule commit_committed)
  let ?a = "audit t (t_mission_id x) ''worker_queue_cleanup'' a wk
       (''Queue '' @ op @ '' cleanup failed after DB terminal commit for task '' @ t_id x @ '': '' @ why)
       [(''task_id'', JStr (t_id x)), (''task_status'', JStr (task_value (t_status x))), (''lease_id'', JStr (l_id l)),
        (''lease_status'', JStr (lease_value (l_status l))), (''queue_operation'', JStr op),
        (''reason'', JStr why), (''requeue_allowed'', JBool False)] w"
  show "db_tasks (w_durable (record_terminal_queue_cleanup_failure Q t x l wk op a why w)) = db_tasks (w_db w)"
    "db_missions (w_durable (record_terminal_queue_cleanup_failure Q t x l wk op a why w)) = db_missions (w_db w)"
    using commit_committed [of ?a Q] by (simp_all add: record_terminal_queue_cleanup_failure_def committed_def)
qed

text \<open>The queue is told after the commit; what it answers changes no row of a task or mission.\<close>

lemma after_commit:
  assumes "(case on_queue f (commit Q w) of (res, w2) \<Rightarrow>
      (Inr x, if r_ok res then w2 else record_terminal_queue_cleanup_failure Q t x l wk op a (why res) w2)) = (r, w')"
  shows "r = Inr x" "db_tasks (w_durable w') = db_tasks (w_db w)" "db_missions (w_durable w') = db_missions (w_db w)"
proof -
  obtain res w2 where q: "on_queue f (commit Q w) = (res, w2)" by fastforce
  have "w_db w2 = w_db (commit Q w)" "w_durable w2 = w_durable (commit Q w)"
    using q by (auto simp: on_queue_def split: prod.splits)
  then show "r = Inr x" "db_tasks (w_durable w') = db_tasks (w_db w)" "db_missions (w_durable w') = db_missions (w_db w)"
    using assms settled(1) [of w Q] q settled(2,3) [where Q = Q and w = w2]
    by (auto simp: committed_def split: if_splits)
qed

lemma complete_outcome:
  assumes "worker_complete n K Q t lid wk given why md w = (r, w')" and "get_owned_lease t lid wk (w_db w) = Inr l"
    and "get_task_for_lease l (w_db w) = Inr x" and "t_status x = TRunning"
  shows "\<And>e. r = Inl e \<Longrightarrow> w_durable w' = w_durable w"
    "\<And>y. r = Inr y \<Longrightarrow> \<exists>z. find_task (t_id x) (w_durable w') = Some z \<and> t_status z = TCompleted"
proof -
  let ?x0 = "accept_runtime_metadata md x" and ?k = "t_id x"
  let ?w0 = "map_db (save_task ?x0) w"
  have s0: "stands ?k {TRunning} (w_durable w) ?w0"
    using leased_task [OF assms(3)] assms(4) by (intro stands_save_task) (simp_all add: stands_def)
  have "(\<forall>e. r = Inl e \<longrightarrow> w_durable w' = w_durable w) \<and>
    (\<forall>y. r = Inr y \<longrightarrow> (\<exists>z. find_task ?k (w_durable w') = Some z \<and> t_status z = TCompleted))"
  proof (cases "get_truthy (t_metadata ?x0) ''cancel_requested''")
    case True
    have "\<exists>e. transition_task ?x0 TCancelled = Inl e"
      using assms(4) by (cases "transition_task ?x0 TCancelled") (simp_all add: transition_task_Inr)
    then show ?thesis
      using assms True by (auto simp: worker_complete_def complete_cancel_requested_def update_task_def Let_def map_db_def)
  next
    case False
    obtain r1 w1 where rows: "complete_rows n K t wk l ?x0 given why ?w0 = (r1, w1)" by fastforce
    note done1 = completed_rows [OF rows s0]
    show ?thesis
    proof (cases r1)
      case (Inl e)
      then show ?thesis using assms False rows done1(1) by (auto simp: worker_complete_def Let_def)
    next
      case (Inr p)
      obtain x1 l1 where p: "p = (x1, l1)" by (cases p)
      have "(case on_queue (\<lambda>q. complete_task Q q t (t_id x1) wk) (commit Q w1) of (res, w2) \<Rightarrow>
          (Inr x1, if r_ok res then w2 else record_terminal_queue_cleanup_failure Q t x1 l1 wk ''complete_task''
            ''terminal_queue_complete_cleanup_failed'' (reason_or res ''complete rejected'') w2)) = (r, w')"
        using assms False rows Inr p by (simp add: worker_complete_def Let_def)
      note out = after_commit [OF this]
      then show ?thesis using done1(2) [OF _ Inr] by (auto simp: stands_def find_task_def)
    qed
  qed
  then show "\<And>e. r = Inl e \<Longrightarrow> w_durable w' = w_durable w"
    "\<And>y. r = Inr y \<Longrightarrow> \<exists>z. find_task ?k (w_durable w') = Some z \<and> t_status z = TCompleted" by simp_all
qed

lemma lease_given_back: "\<exists>l1. transition_lease_to_released l = Inr l1"
  by (cases "l_status l") (simp_all add: transition_lease_to_released_def transition_lease_def bind_result_def ensure_lease_transition_def
      ensure_allowed_def targets_def lease_allowed_def)

lemma block_outcome:
  assumes "block_completion_failure Q t lid wk ty cls why w = (r, w')" and "get_owned_lease t lid wk (w_db w) = Inr l"
    and "get_task_for_lease l (w_db w) = Inr x" and "t_status x = TRunning"
  shows "db_tasks (w_durable w') = put_row t_id (x\<lparr>t_status := TBlocked\<rparr>) (db_tasks (w_db w)) \<and>
    db_missions (w_durable w') = db_missions (w_db w) \<and> r = Inr (x\<lparr>t_status := TBlocked\<rparr>)"
proof -
  have ok: "transition_task x TBlocked = Inr (x\<lparr>t_status := TBlocked\<rparr>)"
    using assms(4) by (simp add: transition_task_Inr targets_def task_allowed_def)
  obtain l1 where l1: "transition_lease_to_released l = Inr l1" using lease_given_back by blast
  show ?thesis
    using assms(1-4) after_commit [where r = r and w' = w' and x = "x\<lparr>t_status := TBlocked\<rparr>"]
    by (simp add: block_completion_failure_def update_task_def ok update_lease_def l1 Let_def)
      (fastforce simp: map_db_def save_task_def save_lease_def)
qed


subsection \<open>A completed side effect\<close>

lemma finish_refused:
  assumes "complete_call D lid (if map_of (hr_output_reasons (dp_handlers D)) ty = None then None else Some d)
      (map_of (hr_output_reasons (dp_handlers D)) ty) (reported_metadata y) (rollback w) = (Inl e, w1)"
    and "side_effecting_class ty d = Some cls" and "get_owned_lease (dp_tenant_id D) lid (dp_worker_id D) (w_durable w) = Inr l"
    and "get_task_for_lease l (w_durable w) = Inr x" and "t_status x = TRunning"
  shows "db_tasks (w_durable (finish_handled D ty lid d y w)) = put_row t_id (x\<lparr>t_status := TBlocked\<rparr>) (db_tasks (w_durable w)) \<and>
    db_missions (w_durable (finish_handled D ty lid d y w)) = db_missions (w_durable w)"
proof -
  have b: "w_db (rollback w) = w_durable w" "w_durable (rollback w) = w_durable w" for w :: "'a world" by (simp_all add: rollback_def)
  have same: "w_durable w1 = w_durable w"
    by (rule complete_outcome(1) [OF assms(1) [unfolded complete_call_def], unfolded b, OF assms(3-5) refl])
  obtain r2 w2 where r2: "block_call D lid ty cls (exn_text e) (rollback (rollback w1)) = (r2, w2)" by fastforce
  have w2: "r2 = Inr (x\<lparr>t_status := TBlocked\<rparr>) \<and> db_tasks (w_durable w2) = put_row t_id (x\<lparr>t_status := TBlocked\<rparr>) (db_tasks (w_durable w)) \<and>
      db_missions (w_durable w2) = db_missions (w_durable w)"
    using block_outcome [OF r2 [unfolded block_call_def], unfolded b, unfolded same, OF assms(3-5)] by blast
  then have "finish_handled D ty lid d y w = w2"
    using assms(1,2) r2 by (simp add: finish_handled_def own_session_def Let_def)
  then show ?thesis using w2 by simp
qed

lemma finish_handled_outcome:
  assumes "side_effecting_class ty d = Some cls" and "get_owned_lease (dp_tenant_id D) lid (dp_worker_id D) (w_durable w) = Inr l"
    and "get_task_for_lease l (w_durable w) = Inr x" and "t_status x = TRunning"
  shows "(\<exists>z. find_task (t_id x) (w_durable (finish_handled D ty lid d y w)) = Some z \<and> t_status z = TCompleted) \<or>
    db_tasks (w_durable (finish_handled D ty lid d y w)) = put_row t_id (x\<lparr>t_status := TBlocked\<rparr>) (db_tasks (w_durable w)) \<and>
    db_missions (w_durable (finish_handled D ty lid d y w)) = db_missions (w_durable w)"
proof -
  let ?why = "map_of (hr_output_reasons (dp_handlers D)) ty"
  let ?call = "complete_call D lid (if ?why = None then None else Some d) ?why (reported_metadata y)"
  obtain r w1 where r: "?call (rollback w) = (r, w1)" by fastforce
  show ?thesis
  proof (cases r)
    case (Inr z)
    have "w_db (rollback w) = w_durable w" by (simp add: rollback_def)
    note out = complete_outcome(2) [OF r [unfolded complete_call_def], unfolded this, OF assms(2-4) Inr]
    then show ?thesis using Inr r by (auto simp: finish_handled_def own_session_def Let_def)
  next
    case (Inl e)
    then show ?thesis using finish_refused [OF _ assms, of y e w1] r by simp
  qed
qed

lemma handled_finishes:
  assumes "run_handler (dp_host D) (dp_adapter D) \<lparr>tc_tenant_id = dp_tenant_id D, tc_worker_id = dp_worker_id D, tc_lease_id = lid\<rparr> h x0 w =
      (Inr (d, y), w0)"
    and "validate_handler_result d = Inr ()"
  shows "handle_task D h ty lid beats x0 w = finish_handled D ty lid d y ((beat_once D lid ^^ beats) (rollback w0))"
  using assms by (simp add: handle_task_def Let_def)

text \<open>
  C4: a side effect that took place is not repeated. When the handler of a tool has returned a result with a side effect,
  and the worker still owns the lease of the running task after its heartbeats, then the task ends completed, or blocked if its
  completion was refused for whatever reason; it is not failed as retryable, and it is not queued again.
\<close>

theorem side_effect_not_repeated:
  assumes "run_handler (dp_host D) (dp_adapter D) \<lparr>tc_tenant_id = dp_tenant_id D, tc_worker_id = dp_worker_id D, tc_lease_id = lid\<rparr> h x0 w =
      (Inr (d, y), w0)"
    and "validate_handler_result d = Inr ()" and "side_effecting_class ty d = Some cls"
    and "w1 = (beat_once D lid ^^ beats) (rollback w0)"
    and "get_owned_lease (dp_tenant_id D) lid (dp_worker_id D) (w_durable w1) = Inr l"
    and "get_task_for_lease l (w_durable w1) = Inr x" and "t_status x = TRunning"
  shows "\<exists>z. find_task (t_id x) (w_durable (handle_task D h ty lid beats x0 w)) = Some z \<and> t_status z \<in> {TCompleted, TBlocked}"
  using finish_handled_outcome [OF assms(3,5-7), of y] leased_task [OF assms(6)]
  unfolding handled_finishes [OF assms(1,2)] assms(4) [symmetric] by (auto simp: find_task_def)

text \<open>
  C39: a blocked side effect is the end of its mission. When the completion was refused, the mission is not rolled up: no row of a
  mission or of another task changes. The blocked task counts as terminal, so cancelling it afterwards does nothing, and there is no
  later event of this task that would end a mission whose other tasks are done.
\<close>

theorem blocked_effect_strands_mission:
  assumes "run_handler (dp_host D) (dp_adapter D) \<lparr>tc_tenant_id = dp_tenant_id D, tc_worker_id = dp_worker_id D, tc_lease_id = lid\<rparr> h x0 w =
      (Inr (d, y), w0)"
    and "validate_handler_result d = Inr ()" and "side_effecting_class ty d = Some cls"
    and "w1 = (beat_once D lid ^^ beats) (rollback w0)"
    and "get_owned_lease (dp_tenant_id D) lid (dp_worker_id D) (w_durable w1) = Inr l"
    and "get_task_for_lease l (w_durable w1) = Inr x" and "t_status x = TRunning"
    and "w2 = rollback (handle_task D h ty lid beats x0 w)" and "find_task (t_id x) (w_db w2) = Some z" and "t_status z = TBlocked"
  shows "db_missions (w_db w2) = db_missions (w_durable w1) \<and>
    db_tasks (w_db w2) = put_row t_id (x\<lparr>t_status := TBlocked\<rparr>) (db_tasks (w_durable w1)) \<and>
    worker_cancel_task n K Q (t_tenant_id z) (t_id x) actor why w2 = (Inr z, w2)"
proof -
  have "w_db w2 = w_durable (finish_handled D ty lid d y w1)"
    using assms(4,8) handled_finishes [OF assms(1,2)] by (simp add: rollback_def)
  then have "db_missions (w_db w2) = db_missions (w_durable w1) \<and>
      db_tasks (w_db w2) = put_row t_id (x\<lparr>t_status := TBlocked\<rparr>) (db_tasks (w_durable w1))"
    using finish_handled_outcome [OF assms(3,5-7), of y] assms(9,10) by auto
  moreover have "worker_cancel_task n K Q (t_tenant_id z) (t_id x) actor why w2 = (Inr z, w2)"
    using assms(9,10) by (simp add: worker_cancel_task_def terminal_task_def)
  ultimately show ?thesis by blast
qed


subsection \<open>A write whose completion is refused\<close>

text \<open>The handler reports a long source: the record is written, and completing the task raises.\<close>

definition written :: "action_definition \<Rightarrow> tool_invocation \<Rightarrow> action_context \<Rightarrow> 'q world \<Rightarrow> action_result result \<times> 'q world" where
  "written a i ax w =
     (Inr \<lparr>rs_action = ad_name a, rs_provider = ad_provider a, rs_side_effect_class = ad_side_effect_class a,
        rs_output = [(''source'', JStr (replicate 200 CHR ''s''))],
        rs_evidence = [\<lparr>ev_action_name = ad_name a, ev_tool_provider = ad_provider a, ev_side_effect_class = ad_side_effect_class a,
          ev_tenant_id = ax_tenant_id ax, ev_task_id = ax_task_id ax, ev_mission_id = ax_mission_id ax, ev_dump = []\<rparr>],
        rs_records_inspected = [], rs_records_changed = [''record''], rs_summary = ''written'', rs_confidence = None,
        rs_limitations = []\<rparr>, w)"

definition writing_worker :: "local_queue dispatcher" where
  "writing_worker = \<lparr>dp_host = with_handler written write_host, dp_adapter = local_adapter,
     dp_handlers = \<lparr>hr_handlers = [(''tool.invoke'', ToolInvoke)], hr_output_reasons = [(''tool.invoke'', ''tool action completed'')]\<rparr>,
     dp_depth = 9, dp_worker_id = ''w'', dp_tenant_id = ''acme''\<rparr>"

definition write_lease :: worker_lease where
  "write_lease = \<lparr>l_id = ''l'', l_tenant_id = ''acme'', l_task_id = uuid_a, l_status = LActive, l_holder_identity = ''w'',
     l_heartbeat_at = None, l_metadata = [], l_created_at = 0, l_updated_at = 0\<rparr>"

definition leased_world :: "local_queue world" where
  "leased_world = (let d = (w_db write_world)\<lparr>db_leases := [write_lease]\<rparr> in write_world\<lparr>w_db := d, w_durable := d\<rparr>)"

lemma leased_rows:
  "w_clock leased_world = 100" "rollback (rollback leased_world) = rollback leased_world"
  "get_owned_lease ''acme'' ''l'' ''w'' (w_durable leased_world) = Inr write_lease"
  "get_task_for_lease write_lease (w_durable leased_world) = Inr write_task"
  by (simp_all add: leased_world_def write_world_def rollback_def get_owned_lease_def get_task_for_lease_def find_lease_def find_task_def
      find_row_def review_state_db write_lease_def Let_def)

lemma write_returns:
  obtains d y where "run_handler (dp_host writing_worker) (dp_adapter writing_worker)
      \<lparr>tc_tenant_id = dp_tenant_id writing_worker, tc_worker_id = dp_worker_id writing_worker, tc_lease_id = ''l''\<rparr> ToolInvoke write_task
      leased_world = (Inr (d, y), rollback leased_world)"
    and "validate_handler_result d = Inr ()" and "side_effecting_class ''tool.invoke'' d = Some ''internal_write''"
    and "map_of d ''action'' = Some (JStr ''record.write'')"
    and "map_of d ''output'' = Some (JObj [(''source'', JStr (replicate 200 CHR ''s''))])"
proof -
  let ?cx = "\<lparr>tc_tenant_id = ''acme'', tc_worker_id = ''w'', tc_lease_id = ''l''\<rparr>"
  obtain trail y ax where call: "handler_call write_host local_adapter ?cx write_task leased_world =
     (Inr (trail, y, write_call, write_action, ax), rollback leased_world)"
    using write_called [OF leased_rows(1)] by blast
  obtain r where r: "written write_action write_call ax (rollback leased_world) = (Inr r, rollback leased_world)"
    "rs_side_effect_class r = InternalWrite" "rs_output r = [(''source'', JStr (replicate 200 CHR ''s''))]"
    and ok: "validate_result_contract write_action write_call ax r = Inr ()"
    by (simp add: written_def validate_result_contract_def side_effect_for_def bind_result_def evidence_error_def write_action_def)
  let ?d = "tool_output ?cx y write_call write_action trail r"
  have "get_action (th_registry write_host) (ti_action write_call) = Inr write_action"
    using write_requested by (auto simp: requested_Inr)
  moreover have "th_input_ok write_host a d" for a d by (simp add: write_host_def)
  ultimately have "tool_execute (with_handler written write_host) local_adapter ?cx write_task leased_world = (Inr (?d, y), rollback leased_world)"
    using call r(1) ok by (simp add: tool_execute_call invoke_action_def require_that_def)
  moreover have "validate_handler_result ?d = Inr ()"
    by (simp add: validate_handler_result_def non_empty_text_def tool_output_def strip_def is_space_def)
  moreover have "side_effecting_class ''tool.invoke'' ?d = Some ''internal_write''"
    by (simp add: side_effecting_class_def tool_output_def r(2) strip_def is_space_def effect_classes_def has_side_effect_def)
  ultimately show thesis
    using that r(3) by (simp add: run_handler_def writing_worker_def tool_output_def write_action_def)
qed

theorem side_effect_not_repeated_witness:
  "\<exists>z. find_task uuid_a (w_durable (handle_task writing_worker ToolInvoke ''tool.invoke'' ''l'' 0 write_task leased_world)) = Some z \<and>
     t_status z \<in> {TCompleted, TBlocked}"
proof -
  obtain d y where run: "run_handler (dp_host writing_worker) (dp_adapter writing_worker)
      \<lparr>tc_tenant_id = dp_tenant_id writing_worker, tc_worker_id = dp_worker_id writing_worker, tc_lease_id = ''l''\<rparr> ToolInvoke write_task
      leased_world = (Inr (d, y), rollback leased_world)"
    and d: "validate_handler_result d = Inr ()" "side_effecting_class ''tool.invoke'' d = Some ''internal_write''"
    by (rule write_returns)
  have "w_durable (rollback leased_world) = w_durable leased_world" by (simp add: rollback_def)
  then show ?thesis
    using side_effect_not_repeated [OF run d, of _ 0 write_lease write_task] leased_rows by (simp add: writing_worker_def)
qed


text \<open>The output with the long source, in \<open>leased_world\<close>: the record is written, the task blocked, its mission as it was.\<close>

theorem blocked_effect_strands_mission_witness:
  "\<exists>z w2. w2 = rollback (handle_task writing_worker ToolInvoke ''tool.invoke'' ''l'' 0 write_task leased_world) \<and>
     find_task uuid_a (w_db w2) = Some z \<and> t_status z = TBlocked \<and> db_missions (w_db w2) = [receipted_mission] \<and>
     worker_cancel_task 9 plain_runtime local_adapter ''acme'' uuid_a ''ann'' ''stop'' w2 = (Inr z, w2)"
proof -
  obtain d y where run: "run_handler (dp_host writing_worker) (dp_adapter writing_worker)
      \<lparr>tc_tenant_id = dp_tenant_id writing_worker, tc_worker_id = dp_worker_id writing_worker, tc_lease_id = ''l''\<rparr> ToolInvoke write_task
      leased_world = (Inr (d, y), rollback leased_world)"
    and d: "validate_handler_result d = Inr ()" "side_effecting_class ''tool.invoke'' d = Some ''internal_write''"
    and long: "map_of d ''action'' = Some (JStr ''record.write'')" "map_of d ''output'' = Some (JObj [(''source'', JStr (replicate 200 CHR ''s''))])"
    by (rule write_returns)
  let ?z = "write_task\<lparr>t_status := TBlocked\<rparr>" and ?w1 = "rollback leased_world"
  let ?w2 = "rollback (handle_task writing_worker ToolInvoke ''tool.invoke'' ''l'' 0 write_task leased_world)"
  have dur: "w_durable ?w1 = w_durable leased_world" by (simp add: rollback_def)
  have worker: "dp_tenant_id writing_worker = ''acme''" "dp_worker_id writing_worker = ''w''" "dp_adapter writing_worker = local_adapter"
    by (simp_all add: writing_worker_def)
  note rows = leased_rows(3,4) [folded dur]
  have "text_at d ''action'' = Some ''record.write''" "length (output_source (inner_dict d ''output'')) > 160"
    using long by (simp_all add: text_at_def inner_dict_def output_source_def get_truthy_def value_at_def shown_def)
  then obtain e w1 where "complete_call writing_worker ''l'' (Some d) (Some ''tool action completed'') (reported_metadata y) (rollback ?w1) = (Inl e, w1)"
    using long_source_blocks_completion unfolding complete_call_def by (metis prod.collapse)
  then have "db_tasks (w_durable (finish_handled writing_worker ''tool.invoke'' ''l'' d y ?w1)) = put_row t_id ?z (db_tasks (w_durable ?w1))"
    using finish_refused [of writing_worker "''l''" "''tool.invoke''" d y ?w1 e w1 "''internal_write''" write_lease write_task] d(2) rows
    by (simp add: worker) (simp add: writing_worker_def)
  moreover have "find_task uuid_a (w_durable ?w1) = Some write_task" using leased_task [OF rows(2)] by simp
  ultimately have z: "find_task uuid_a (w_db ?w2) = Some ?z"
    using handled_finishes [OF run d(1), of "''tool.invoke''" 0] leased_rows(2) by (simp add: rollback_def find_task_def)
  have "db_missions (w_db ?w2) = db_missions (w_durable ?w1) \<and>
    db_tasks (w_db ?w2) = put_row t_id ?z (db_tasks (w_durable ?w1)) \<and>
    worker_cancel_task 9 plain_runtime local_adapter (t_tenant_id ?z) (t_id write_task) ''ann'' ''stop'' ?w2 = (Inr ?z, ?w2)"
    by (rule blocked_effect_strands_mission [OF run d, where beats = 0 and l = write_lease])
      (use rows z leased_rows(2) in \<open>simp_all add: worker\<close>)
  moreover have "db_missions (w_durable ?w1) = [receipted_mission]"
    by (simp add: leased_world_def write_world_def review_state_db rollback_def Let_def)
  ultimately show ?thesis using z by (intro exI [of _ ?z] exI [of _ ?w2]) simp
qed

subsection \<open>What a turn hands to the dispatcher\<close>

lemma heartbeat_outcome:
  assumes "worker_heartbeat Q t lid wk w = (Inr l2, w2)" and "get_owned_lease t lid wk (w_db w) = Inr l"
  shows "l2 = l\<lparr>l_status := LActive, l_heartbeat_at := Some (w_clock w)\<rparr> \<and> db_tasks (w_db w2) = db_tasks (w_db w) \<and>
    db_leases (w_db w2) = put_row l_id l2 (db_leases (w_db w))"
proof -
  have live: "live_lease l" using assms by (simp add: worker_heartbeat_def split: if_splits)
  obtain res w1 where q: "on_queue (\<lambda>q. heartbeat Q q t (l_task_id l) wk) w = (res, w1)" by fastforce
  have w1: "w_db w1 = w_db w" using q by (auto simp: on_queue_def split: prod.splits)
  let ?l2 = "l\<lparr>l_status := LActive, l_heartbeat_at := Some (w_clock w)\<rparr>"
  have "(if l_status l = LClaimed then transition_lease l LActive else Inr l) = Inr (l\<lparr>l_status := LActive\<rparr>)"
    using live by (cases l; cases "l_status l") (simp_all add: live_lease_def transition_lease_Inr targets_def lease_allowed_def)
  then have "l2 = ?l2 \<and> w2 = commit Q (map_db (save_lease ?l2) w1)"
    using assms live q by (auto simp: worker_heartbeat_def update_lease_def split: if_splits)
  then show ?thesis
    using commit_committed [of "map_db (save_lease ?l2) w1" Q] w1 by (simp add: committed_def map_db_def save_lease_def)
qed

lemma start_outcome:
  assumes "start_execution K Q t lid wk w = (Inr y, w1)" and "get_owned_lease t lid wk (w_db w) = Inr l"
    and "get_task_for_lease l (w_db w) = Inr x" and "t_status x = TClaimed" and "l_status l = LActive"
  shows "t_status y = TRunning \<and> t_id y = t_id x \<and> db_tasks (w_db w1) = put_row t_id y (db_tasks (w_db w)) \<and>
    db_leases (w_db w1) = put_row l_id (l\<lparr>l_heartbeat_at := Some (w_clock w)\<rparr>) (db_leases (w_db w))"
proof -
  have ok: "transition_task x TRunning = Inr (x\<lparr>t_status := TRunning\<rparr>)"
    using assms(4) by (simp add: transition_task_Inr targets_def task_allowed_def)
  show ?thesis
    using assms commit_committed [where Q = Q]
    by (auto simp: start_execution_def update_lease_def update_task_def ok Let_def committed_def map_db_def save_task_def save_lease_def)
qed

lemma lease_of_id:
  assumes "distinct (map l_id (db_leases d))" and "l \<in> set (db_leases d)"
  shows "find_lease (l_id l) d = Some l"
proof -
  obtain l1 where l1: "find_row l_id (l_id l) (db_leases d) = Some l1"
    using assms(2) by (cases "find_row l_id (l_id l) (db_leases d)") (auto simp: find_row_def find_None_iff)
  then show ?thesis
    using find_row_key [OF l1] assms by (metis distinct_map find_lease_def inj_onD)
qed

lemma rollback_sel: "w_ids (rollback w) = w_ids w" "w_next_id (rollback w) = w_next_id w"
  by (simp_all add: rollback_def)

lemma claim_and_start_Some:
  assumes "claim_and_start D w = (Some (k, lid), w')"
  obtains x y w1 where "claim_next_task (dp_depth D) (th_runtime (dp_host D)) (dp_adapter D) (dp_tenant_id D) (strip (dp_worker_id D))
      (rollback w) = (Inr (Some x), w1)"
    and "claimed_lease x = Inr lid" and "start_claimed D lid w1 = (Inr y, w')" and "k = t_id x"
  using assms
  by (auto simp: claim_and_start_def worker_daemon_holder_def split: prod.splits sum.splits option.splits if_splits)

text \<open>
  C40: what the loop runs is running under its own lease. When a turn has claimed and started a task, that task is
  running in the database, the lease it goes on with is a live one of this worker on this task, and the name of the worker is what
  it claimed with: a worker whose configured name has blanks around it claims under the stripped name and never gets so far.
\<close>

theorem started_task_is_leased:
  assumes "claim_and_start D w = (Some (k, lid), w')" and "lease_inv w" and "is_uuid (w_ids w (w_next_id w))"
  shows "strip (dp_worker_id D) = dp_worker_id D \<and>
    (\<exists>y l. get_owned_lease (dp_tenant_id D) lid (dp_worker_id D) (w_durable w') = Inr l \<and> live_lease l \<and>
       get_task_for_lease l (w_durable w') = Inr y \<and> t_id y = k \<and> t_status y = TRunning)"
proof -
  let ?t = "dp_tenant_id D" and ?wk = "dp_worker_id D" and ?Q = "dp_adapter D"
  obtain x y w1 where claim: "claim_next_task (dp_depth D) (th_runtime (dp_host D)) ?Q ?t (strip ?wk) (rollback w) = (Inr (Some x), w1)"
    and id: "claimed_lease x = Inr lid" and start: "start_claimed D lid w1 = (Inr y, w')" and k: "k = t_id x"
    using claim_and_start_Some [OF assms(1)] .
  have "lease_step (rollback w) w1" using step_claim [of "rollback w" "dp_depth D" "th_runtime (dp_host D)" ?Q ?t "strip ?wk"] claim by simp
  then have inv: "lease_inv w1" using lease_inv_rollback [OF assms(2)] by (simp add: lease_step_def)
  obtain l where same: "w_db w1 = w_durable w1" and x: "t_status x = TClaimed" "find_task (t_id x) (w_db w1) = Some x"
    and l: "l \<in> set (db_leases (w_db w1))" "l_holder_identity l = strip ?wk" "l_tenant_id l = ?t" "l_task_id l = t_id x"
      "l_id l = w_ids w (w_next_id w)" "map_of (t_metadata x) ''worker_lease_id'' = Some (JStr (l_id l))"
    using claimed_task_leased [OF claim] unfolding rollback_sel by metis
  then have lid: "lid = l_id l" using id assms(3) by (auto simp: claimed_lease_def text_at_def is_uuid_def split: option.splits)
  have "distinct (map l_id (db_leases (w_db w1)))" using inv by (simp add: lease_inv_def leases_from_def)
  then have found: "find_lease lid (w_db w1) = Some l" using lease_of_id l(1) lid by blast
  obtain l2 w2 where beat: "worker_heartbeat ?Q ?t lid ?wk w1 = (Inr l2, w2)"
    and run: "committing ?Q (start_execution (th_runtime (dp_host D)) ?Q ?t lid ?wk) w2 = (Inr y, w')"
    using start by (auto simp: start_claimed_def andthen_Inr)
  have owned: "get_owned_lease ?t lid ?wk (w_db w1) = Inr l" and wk: "strip ?wk = ?wk"
    using beat found l(2) by (auto simp: worker_heartbeat_def get_owned_lease_def andthen_Inr split: option.splits if_splits)
  note hb = heartbeat_outcome [OF beat owned]
  have l2: "get_owned_lease ?t lid ?wk (w_db w2) = Inr l2" "l_status l2 = LActive"
    using hb found l(2,3) lid wk by (simp_all add: get_owned_lease_def find_lease_def)
  have t2: "get_task_for_lease l2 (w_db w2) = Inr x" using hb x(2) l(4) by (simp add: get_task_for_lease_def find_task_def)
  obtain w3 where w3: "start_execution (th_runtime (dp_host D)) ?Q ?t lid ?wk w2 = (Inr y, w3)" "w' = commit ?Q w3"
    using run by (auto simp: committing_def andthen_Inr)
  note st = start_outcome [OF w3(1) l2(1) t2 x(1) l2(2)]
  let ?l3 = "l2\<lparr>l_heartbeat_at := Some (w_clock w2)\<rparr>"
  have rows: "db_tasks (w_durable w') = db_tasks (w_db w3)" "db_leases (w_durable w') = db_leases (w_db w3)"
    using commit_committed [of w3 ?Q] by (simp_all add: committed_def w3(2))
  have "get_owned_lease ?t lid ?wk (w_durable w') = Inr ?l3"
    using l2(1) st rows(2) by (auto simp: get_owned_lease_def find_lease_def dest: find_row_key split: option.splits if_splits)
  moreover have "live_lease ?l3" using l2(2) by (simp add: live_lease_def)
  moreover have "get_task_for_lease ?l3 (w_durable w') = Inr y"
    using t2 st rows(1) x(2) hb l(4) by (auto simp: get_task_for_lease_def find_task_def split: option.splits)
  ultimately show ?thesis using st wk k by blast
qed

text \<open>The queued task of \<open>small_world\<close>, with an identifier that is one.\<close>

definition claimable_world :: "local_queue world" where
  "claimable_world = small_world\<lparr>w_ids := (\<lambda>n. if n = 0 then uuid_b else CHR ''x'' # replicate n (CHR ''x''))\<rparr>"

lemma claimable_starts: "fst (claim_and_start writing_worker claimable_world) = Some (uuid_a, uuid_b)"
  by code_simp

lemma claimable_inv: "lease_inv claimable_world"
proof -
  have "inj (\<lambda>n. if n = 0 then uuid_b else CHR ''x'' # replicate n (CHR ''x''))"
    by (rule injI) (auto simp: uuid_b_def split: if_splits)
  then show ?thesis
    by (simp add: lease_inv_def claimable_world_def small_world_def Let_def leases_from_def single_live_def empty_db_def)
qed

theorem started_task_is_leased_witness:
  "\<exists>y l. get_owned_lease ''acme'' uuid_b ''w'' (w_durable (snd (claim_and_start writing_worker claimable_world))) = Inr l \<and>
     live_lease l \<and> get_task_for_lease l (w_durable (snd (claim_and_start writing_worker claimable_world))) = Inr y \<and>
     t_id y = uuid_a \<and> t_status y = TRunning"
proof -
  let ?r = "claim_and_start writing_worker claimable_world"
  have "?r = (Some (uuid_a, uuid_b), snd ?r)" using claimable_starts by (simp add: prod_eq_iff)
  moreover have "is_uuid (w_ids claimable_world (w_next_id claimable_world))"
    by (simp add: claimable_world_def small_world_def Let_def example_uuids)
  ultimately have "\<exists>y l. get_owned_lease (dp_tenant_id writing_worker) uuid_b (dp_worker_id writing_worker) (w_durable (snd ?r)) = Inr l \<and>
      live_lease l \<and> get_task_for_lease l (w_durable (snd ?r)) = Inr y \<and> t_id y = uuid_a \<and> t_status y = TRunning"
    using started_task_is_leased [OF _ claimable_inv] by blast
  moreover have "dp_tenant_id writing_worker = ''acme''" "dp_worker_id writing_worker = ''w''" by (simp_all add: writing_worker_def)
  ultimately show ?thesis by simp
qed

end
